(* ===== verification/Zp_Prelude.thy ===== *)
theory Zp_Prelude
  imports Main "HOL-Library.Word" "HOL-Library.Sublist"
begin

text \<open>
  Shared vocabulary of the development: the machine integers of the C code, the result
  codes of \<^verbatim>\<open>include/zenoh-pico/utils/result.h\<close>, the shape of a C function that works on
  one mutable object (its result code, its value and the object afterwards), and the
  generic facts on lists and words that the component theories use.
\<close>

unbundle bit_operations_syntax

section \<open>Machine integers\<close>

text \<open>
  \<^verbatim>\<open>uint8_t\<close> to \<^verbatim>\<open>uint64_t\<close> are words of their width. \<^verbatim>\<open>size_t\<close> (and \<^verbatim>\<open>_z_zint_t\<close>,
  which is \<^verbatim>\<open>size_t\<close>) has 64 bits. Sizes and positions inside an object in memory are
  naturals: they are bounded by the object and never wrap.
\<close>

type_synonym u8 = "8 word"
type_synonym u16 = "16 word"
type_synonym u32 = "32 word"
type_synonym u64 = "64 word"
type_synonym byte = "8 word"
type_synonym z_zint_t = "64 word"
type_synonym z_result_t = "8 word"

section \<open>Result codes\<close>

text \<open>
  A result code is an \<^verbatim>\<open>int8_t\<close>; the code combines codes with \<^verbatim>\<open>|=\<close>, which works on
  the two's complement bits, so a code is a word of eight bits.
\<close>

definition Z_RES_OK :: z_result_t where [simp]: "Z_RES_OK = 0"
definition Z_ERR_MESSAGE_DESERIALIZATION_FAILED :: z_result_t where
  "Z_ERR_MESSAGE_DESERIALIZATION_FAILED = - 119"
definition Z_ERR_MESSAGE_SERIALIZATION_FAILED :: z_result_t where
  "Z_ERR_MESSAGE_SERIALIZATION_FAILED = - 118"
definition Z_ERR_MESSAGE_ZENOH_UNKNOWN :: z_result_t where
  "Z_ERR_MESSAGE_ZENOH_UNKNOWN = - 114"
definition Z_ERR_MESSAGE_TRANSPORT_UNKNOWN :: z_result_t where
  "Z_ERR_MESSAGE_TRANSPORT_UNKNOWN = - 113"
definition Z_ERR_MESSAGE_EXTENSION_MANDATORY_AND_UNKNOWN :: z_result_t where
  "Z_ERR_MESSAGE_EXTENSION_MANDATORY_AND_UNKNOWN = - 112"
definition Z_ERR_TRANSPORT_NO_SPACE :: z_result_t where
  "Z_ERR_TRANSPORT_NO_SPACE = - 98"
definition Z_ERR_SYSTEM_OUT_OF_MEMORY :: z_result_t where
  "Z_ERR_SYSTEM_OUT_OF_MEMORY = - 78"
definition Z_ERR_DID_NOT_READ :: z_result_t where
  "Z_ERR_DID_NOT_READ = - 76"
definition Z_ERR_GENERIC :: z_result_t where
  "Z_ERR_GENERIC = - 128"

lemmas z_err_defs = Z_ERR_MESSAGE_DESERIALIZATION_FAILED_def Z_ERR_MESSAGE_SERIALIZATION_FAILED_def Z_ERR_MESSAGE_ZENOH_UNKNOWN_def Z_ERR_MESSAGE_TRANSPORT_UNKNOWN_def Z_ERR_MESSAGE_EXTENSION_MANDATORY_AND_UNKNOWN_def Z_ERR_TRANSPORT_NO_SPACE_def Z_ERR_SYSTEM_OUT_OF_MEMORY_def Z_ERR_DID_NOT_READ_def Z_ERR_GENERIC_def

lemma z_err_nonzero [simp]:
  "Z_ERR_MESSAGE_DESERIALIZATION_FAILED \<noteq> 0"
  "Z_ERR_MESSAGE_SERIALIZATION_FAILED \<noteq> 0"
  "Z_ERR_MESSAGE_ZENOH_UNKNOWN \<noteq> 0"
  "Z_ERR_MESSAGE_TRANSPORT_UNKNOWN \<noteq> 0"
  "Z_ERR_MESSAGE_EXTENSION_MANDATORY_AND_UNKNOWN \<noteq> 0"
  "Z_ERR_TRANSPORT_NO_SPACE \<noteq> 0"
  "Z_ERR_SYSTEM_OUT_OF_MEMORY \<noteq> 0"
  "Z_ERR_DID_NOT_READ \<noteq> 0"
  "Z_ERR_GENERIC \<noteq> 0"
  by (simp_all add: z_err_defs)

section \<open>C functions over one mutable object\<close>

text \<open>
  A C function of the codec returns a result code, fills an out parameter and changes the
  buffer it is given. \<open>Ok x s\<close>: it returned \<^verbatim>\<open>_Z_RES_OK\<close> with the value \<open>x\<close>.
  \<open>Err e s\<close>: it returned the code \<open>e\<close> (not zero); the buffer may have moved.
  \<open>Fault\<close>: an \<^verbatim>\<open>assert\<close> failed or memory outside an object was accessed, after which
  the C program has no meaning.
\<close>

datatype ('a, 's) res = Ok 'a 's | Err z_result_t 's | Fault

type_synonym ('a, 's) prog = "'s \<Rightarrow> ('a, 's) res"

definition ret :: "'a \<Rightarrow> ('a, 's) prog" where
  "ret x = (\<lambda>s. Ok x s)"

definition fail :: "z_result_t \<Rightarrow> ('a, 's) prog" where
  "fail e = (\<lambda>s. Err e s)"

definition fault :: "('a, 's) prog" where
  "fault = (\<lambda>s. Fault)"

text \<open>\<^verbatim>\<open>_Z_RETURN_IF_ERR(p)\<close> followed by the rest of the function.\<close>

definition bind_ok :: "('a, 's) prog \<Rightarrow> ('a \<Rightarrow> ('b, 's) prog) \<Rightarrow> ('b, 's) prog" where
  "bind_ok p f = (\<lambda>s. case p s of Ok x t \<Rightarrow> f x t | Err e t \<Rightarrow> Err e t | Fault \<Rightarrow> Fault)"

definition then_do :: "('a, 's) prog \<Rightarrow> ('b, 's) prog \<Rightarrow> ('b, 's) prog" where
  "then_do p q = bind_ok p (\<lambda>_. q)"

definition when_do :: "bool \<Rightarrow> (unit, 's) prog \<Rightarrow> (unit, 's) prog" where
  "when_do b p = (if b then p else ret ())"

text \<open>
  \<^verbatim>\<open>ret |= p\<close>: the code of \<open>p\<close> becomes a value and the function goes on. After an error
  the out parameter keeps the value \<open>d\<close> it had before the call.
\<close>

definition attempt :: "'a \<Rightarrow> ('a, 's) prog \<Rightarrow> (z_result_t \<times> 'a, 's) prog" where
  "attempt d p = (\<lambda>s. case p s of Ok x t \<Rightarrow> Ok (Z_RES_OK, x) t
                     | Err e t \<Rightarrow> Ok (e, d) t | Fault \<Rightarrow> Fault)"

text \<open>The end of such a function: \<^verbatim>\<open>return ret\<close>.\<close>

definition return_code :: "z_result_t \<Rightarrow> 'a \<Rightarrow> ('a, 's) prog" where
  "return_code r x = (if r = Z_RES_OK then ret x else fail r)"

lemmas prog_defs = ret_def fail_def fault_def bind_ok_def then_do_def when_do_def
  attempt_def return_code_def

lemma bind_ok_assoc: "bind_ok (bind_ok p f) g = bind_ok p (\<lambda>x. bind_ok (f x) g)"
  by (auto simp: bind_ok_def fun_eq_iff split: res.splits)

lemma bind_ok_ret [simp]: "bind_ok (ret x) f = f x"
  by (simp add: bind_ok_def ret_def)

lemma bind_ok_fail [simp]: "bind_ok (fail e) f = fail e"
  by (simp add: bind_ok_def fail_def)

lemma then_do_ret [simp]: "then_do (ret x) q = q"
  by (simp add: then_do_def)

lemma then_do_when_False [simp]: "then_do (when_do False p) q = q"
  and when_do_True [simp]: "when_do True p = p"
  by (simp_all add: when_do_def)

lemma return_code_ok [simp]: "return_code (Z_RES_OK OR Z_RES_OK) x = ret x"
  by (simp add: return_code_def)

lemma attempt_ok: "p s = Ok x t \<Longrightarrow> attempt d p s = Ok (0, x) t"
  and attempt_err: "p s = Err e t \<Longrightarrow> attempt d p s = Ok (e, d) t"
  by (simp_all add: attempt_def)

section \<open>Lists\<close>

lemma take_append_replicate_drop:
  "n + length bs \<le> length xs \<Longrightarrow>
   length (take n xs @ bs @ drop (n + length bs) xs) = length xs"
  by simp

text \<open>Overwriting \<open>bs\<close> at position \<open>n\<close>, as \<^verbatim>\<open>memcpy (xs + n, bs, length)\<close> does.\<close>

definition overwrite :: "nat \<Rightarrow> 'a list \<Rightarrow> 'a list \<Rightarrow> 'a list" where
  "overwrite n bs xs = take n xs @ bs @ drop (n + length bs) xs"

lemma length_overwrite [simp]:
  "n + length bs \<le> length xs \<Longrightarrow> length (overwrite n bs xs) = length xs"
  by (simp add: overwrite_def)

lemma take_overwrite_prefix [simp]:
  "n \<le> length xs \<Longrightarrow> take n (overwrite n bs xs) = take n xs"
  by (simp add: overwrite_def)

lemma overwrite_Nil [simp]: "overwrite n [] xs = xs"
  by (simp add: overwrite_def)

lemma overwrite_single: "n < length xs \<Longrightarrow> overwrite n [b] xs = xs[n := b]"
  by (simp add: overwrite_def upd_conv_take_nth_drop)

lemma window_overwrite:
  "r \<le> n \<Longrightarrow> n \<le> length xs \<Longrightarrow>
   take (n + length bs - r) (drop r (overwrite n bs xs)) = take (n - r) (drop r xs) @ bs"
  by (simp add: overwrite_def drop_take)

lemma window_head:
  "r < w \<Longrightarrow> w \<le> length xs \<Longrightarrow>
   take (w - r) (drop r xs) = xs ! r # take (w - Suc r) (drop (Suc r) xs)"
  by (metis Cons_nth_drop_Suc Suc_diff_Suc less_le_trans take_Suc_Cons)

lemma drop_window:
  "drop n (take (w - r) (drop r xs)) = take (w - (r + n)) (drop (r + n) xs)"
  by (simp add: drop_take add.commute)

lemma take_window:
  "n \<le> w - r \<Longrightarrow> take n (take (w - r) (drop r xs)) = take n (drop r xs)"
  by (simp add: min_def)

section \<open>Words\<close>

lemma unat_ucast_byte [simp]: "unat (ucast (b :: byte) :: u64) = unat b"
proof -
  have "unat b < 2 ^ 8" using unsigned_less [of b] by simp
  then have "unat b < 2 ^ 64" by simp
  then show ?thesis by (simp add: unsigned_ucast_eq take_bit_nat_eq_self_iff)
qed

lemma nat_power_le_word:
  "unat (x :: 'a::len word) < 2 ^ LENGTH('a)"
  by simp

end
