(* ===== verification/Zp_Vec.thy ===== *)
theory Zp_Vec
  imports Zp_Prelude
begin

text \<open>
  The two growable arrays of \<^verbatim>\<open>src/collections/vec.c\<close>. A \<^verbatim>\<open>_z_svec_t\<close> holds its
  elements by value: the model keeps the elements in use (\<^verbatim>\<open>_len\<close> is their number), the
  number of allocated slots and the alias flag. A \<^verbatim>\<open>_z_vec_t\<close> holds pointers: the model
  keeps every allocated slot, \<open>None\<close> for a slot that is NULL or was never written.
  The argument \<open>mem\<close> of an operation that allocates says whether \<^verbatim>\<open>z_malloc\<close> succeeds.
  An access outside the allocation is \<open>Fault\<close>.
\<close>

section \<open>Vectors of values\<close>

record 'a z_svec_t =
  sv_val :: "'a list"
  sv_capacity :: nat
  sv_aliased :: bool

definition z_svec_null :: "'a z_svec_t" where
  "z_svec_null = \<lparr>sv_val = [], sv_capacity = 0, sv_aliased = False\<rparr>"

definition z_svec_len :: "'a z_svec_t \<Rightarrow> nat" where
  "z_svec_len v = length (sv_val v)"

definition z_svec_is_empty :: "'a z_svec_t \<Rightarrow> bool" where
  "z_svec_is_empty v = (z_svec_len v = 0)"

definition z_svec_get :: "'a z_svec_t \<Rightarrow> nat \<Rightarrow> 'a option" where
  "z_svec_get v i = (if i < z_svec_len v then Some (sv_val v ! i) else None)"

definition z_svec_make :: "bool \<Rightarrow> nat \<Rightarrow> 'a z_svec_t" where
  "z_svec_make mem capacity =
     (if capacity \<noteq> 0 \<and> mem then z_svec_null\<lparr>sv_capacity := capacity\<rparr> else z_svec_null)"

definition z_svec_alias :: "'a z_svec_t \<Rightarrow> bool \<Rightarrow> 'a z_svec_t" where
  "z_svec_alias src ownership = src\<lparr>sv_aliased := \<not> ownership\<rparr>"

definition z_svec_alias_element :: "'a \<Rightarrow> 'a z_svec_t" where
  "z_svec_alias_element e = \<lparr>sv_val = [e], sv_capacity = 1, sv_aliased = True\<rparr>"

definition z_svec_expand :: "bool \<Rightarrow> (unit, 'a z_svec_t) prog" where
  "z_svec_expand mem v =
     (let capacity = (if sv_capacity v = 0 then 1 else 2 * sv_capacity v)
      in if mem then Ok () (v\<lparr>sv_capacity := capacity\<rparr>)
         else Err Z_ERR_SYSTEM_OUT_OF_MEMORY v)"

definition z_svec_append :: "bool \<Rightarrow> 'a \<Rightarrow> (unit, 'a z_svec_t) prog" where
  "z_svec_append mem e =
     then_do (\<lambda>v. if z_svec_len v = sv_capacity v then z_svec_expand mem v else Ok () v)
             (\<lambda>v. Ok () (v\<lparr>sv_val := sv_val v @ [e]\<rparr>))"

definition z_svec_set :: "nat \<Rightarrow> 'a \<Rightarrow> (unit, 'a z_svec_t) prog" where
  "z_svec_set i e v =
     (if i < z_svec_len v then Ok () (v\<lparr>sv_val := (sv_val v)[i := e]\<rparr>) else Fault)"

text \<open>
  \<^verbatim>\<open>_z_svec_remove\<close> passes \<^verbatim>\<open>(len - pos - 1) * element_size\<close> as the number of elements
  to move, and \<^verbatim>\<open>__z_svec_move_inner\<close> multiplies by the element size again: the move
  reads that many slots from \<^verbatim>\<open>pos + 1\<close> on, which leaves the allocation unless it is
  large enough. Inside the allocation the slots past \<^verbatim>\<open>_len\<close> are never looked at.
\<close>

definition z_svec_remove :: "nat \<Rightarrow> nat \<Rightarrow> (unit, 'a z_svec_t) prog" where
  "z_svec_remove element_size pos v =
     (if pos < z_svec_len v \<and>
         Suc pos + (z_svec_len v - pos - 1) * element_size \<le> sv_capacity v
      then Ok () (v\<lparr>sv_val := take pos (sv_val v) @ drop (Suc pos) (sv_val v)\<rparr>)
      else Fault)"

definition z_svec_reset :: "'a z_svec_t \<Rightarrow> 'a z_svec_t" where
  "z_svec_reset v = v\<lparr>sv_val := []\<rparr>"

definition z_svec_release :: "'a z_svec_t \<Rightarrow> 'a z_svec_t" where
  "z_svec_release v = v\<lparr>sv_capacity := 0, sv_val := []\<rparr>"

definition z_svec_clear :: "'a z_svec_t \<Rightarrow> 'a z_svec_t" where
  "z_svec_clear v =
     (let v' = z_svec_reset v in if sv_aliased v' then v' else z_svec_release v')"

definition z_svec_move :: "'a z_svec_t \<Rightarrow> 'a z_svec_t \<times> 'a z_svec_t" where
  "z_svec_move src = (src, z_svec_null)"

definition z_svec_copy :: "bool \<Rightarrow> ('a \<Rightarrow> 'a) \<Rightarrow> 'a z_svec_t \<Rightarrow> (unit, 'a z_svec_t) prog" where
  "z_svec_copy mem copy src dst =
     (if sv_capacity src = 0 then Ok () z_svec_null
      else if \<not> mem then Err Z_ERR_SYSTEM_OUT_OF_MEMORY z_svec_null
      else Ok () \<lparr>sv_val = map copy (sv_val src), sv_capacity = sv_capacity src,
                   sv_aliased = False\<rparr>)"

definition svec_wf :: "'a z_svec_t \<Rightarrow> bool" where
  "svec_wf v \<longleftrightarrow> length (sv_val v) \<le> sv_capacity v"

lemma svec_wf_make: "svec_wf (z_svec_make mem n)"
  by (simp add: svec_wf_def z_svec_make_def z_svec_null_def)

lemma z_svec_append_eq:
  "z_svec_append True e v =
    Ok () (v\<lparr>sv_val := sv_val v @ [e],
             sv_capacity := (if length (sv_val v) = sv_capacity v
                             then (if sv_capacity v = 0 then 1 else 2 * sv_capacity v)
                             else sv_capacity v)\<rparr>)"
  by (simp add: z_svec_append_def then_do_def bind_ok_def z_svec_expand_def z_svec_len_def)

lemma z_svec_append_wf:
  "svec_wf v \<Longrightarrow> z_svec_append mem e v = Ok () v' \<Longrightarrow>
     svec_wf v' \<and> sv_val v' = sv_val v @ [e]"
  by (auto simp: z_svec_append_def then_do_def bind_ok_def z_svec_expand_def z_svec_len_def svec_wf_def
      split: if_splits)

section \<open>Vectors of pointers\<close>

record 'a z_vec_t =
  v_val :: "'a option list"
  v_len :: nat

definition v_capacity :: "'a z_vec_t \<Rightarrow> nat" where
  "v_capacity v = length (v_val v)"

definition z_vec_make :: "bool \<Rightarrow> nat \<Rightarrow> 'a z_vec_t" where
  "z_vec_make mem capacity =
     \<lparr>v_val = (if capacity \<noteq> 0 \<and> mem then replicate capacity None else []), v_len = 0\<rparr>"

text \<open>
  \<^verbatim>\<open>_z_vec_copy\<close> when the allocation succeeds. (When it fails the copy keeps the length
  and capacity of the source with a NULL array, which no operation can be applied to.)
\<close>

definition z_vec_copy :: "('a option \<Rightarrow> 'a option) \<Rightarrow> 'a z_vec_t \<Rightarrow> 'a z_vec_t" where
  "z_vec_copy clone src =
     \<lparr>v_val = map clone (take (v_len src) (v_val src)) @ replicate (v_capacity src - v_len src) None,
      v_len = v_len src\<rparr>"

definition z_vec_move :: "'a z_vec_t \<Rightarrow> 'a z_vec_t \<times> 'a z_vec_t" where
  "z_vec_move src = (src, \<lparr>v_val = [], v_len = 0\<rparr>)"

definition z_vec_append :: "bool \<Rightarrow> 'a \<Rightarrow> 'a z_vec_t \<Rightarrow> 'a z_vec_t" where
  "z_vec_append mem e v =
     (if v_len v = v_capacity v
      then let capacity = (push_bit 1 (v_capacity v)) OR 1 in
           if mem
           then v\<lparr>v_val := (v_val v @ replicate (capacity - v_capacity v) None)[v_len v := Some e],
                  v_len := v_len v + 1\<rparr>
           else v
      else v\<lparr>v_val := (v_val v)[v_len v := Some e], v_len := v_len v + 1\<rparr>)"

definition z_vec_set :: "nat \<Rightarrow> 'a \<Rightarrow> (unit, 'a z_vec_t) prog" where
  "z_vec_set i e v =
     (if i < v_len v then Ok () (v\<lparr>v_val := (v_val v)[i := Some e]\<rparr>) else Fault)"

text \<open>
  The loop of \<^verbatim>\<open>_z_vec_remove\<close> counts with \<^verbatim>\<open>i\<close> but assigns \<^verbatim>\<open>_val[pos]\<close> from
  \<^verbatim>\<open>_val[pos + 1]\<close> each time; then slot \<^verbatim>\<open>_len\<close> is set to NULL and \<^verbatim>\<open>_len\<close>, a
  \<^verbatim>\<open>size_t\<close>, is decremented.
\<close>

fun vec_remove_loop :: "nat \<Rightarrow> nat \<Rightarrow> 'a option list \<Rightarrow> 'a option list option" where
  "vec_remove_loop 0 pos xs = Some xs"
| "vec_remove_loop (Suc n) pos xs =
     (if Suc pos < length xs then vec_remove_loop n pos (xs[pos := xs ! Suc pos]) else None)"

definition z_vec_remove :: "nat \<Rightarrow> (unit, 'a z_vec_t) prog" where
  "z_vec_remove pos v =
     (if v_capacity v \<le> pos then Fault
      else case vec_remove_loop (v_len v - pos) pos (v_val v) of
             None \<Rightarrow> Fault
           | Some xs \<Rightarrow>
               if length xs \<le> v_len v then Fault
               else Ok () (v\<lparr>v_val := xs[v_len v := None],
                             v_len := (v_len v + 2 ^ 64 - 1) mod 2 ^ 64\<rparr>))"

definition z_vec_reset :: "'a z_vec_t \<Rightarrow> 'a z_vec_t" where
  "z_vec_reset v = v\<lparr>v_len := 0\<rparr>"

definition z_vec_release :: "'a z_vec_t \<Rightarrow> 'a z_vec_t" where
  "z_vec_release v = v\<lparr>v_val := [], v_len := 0\<rparr>"

definition z_vec_clear :: "'a z_vec_t \<Rightarrow> 'a z_vec_t" where
  "z_vec_clear v = z_vec_release v"

text \<open>The elements a vector holds, and its invariant.\<close>

definition vec_elems :: "'a z_vec_t \<Rightarrow> 'a option list" where
  "vec_elems v = take (v_len v) (v_val v)"

definition vec_wf :: "'a z_vec_t \<Rightarrow> bool" where
  "vec_wf v \<longleftrightarrow> v_len v \<le> length (v_val v) \<and> length (v_val v) < 2 ^ 64"

lemma odd_double_gt: "n < push_bit 1 n OR (1 :: nat)"
  by (simp add: push_bit_eq_mult or_Suc_0_eq)

lemma z_vec_append_elems:
  assumes "v_len v \<le> length (v_val v)"
  shows "vec_elems (z_vec_append True e v) = vec_elems v @ [Some e] \<and>
    v_len (z_vec_append True e v) \<le> length (v_val (z_vec_append True e v))"
  using assms odd_double_gt [of "length (v_val v)"]
  by (auto simp: z_vec_append_def vec_elems_def v_capacity_def Let_def take_Suc_conv_app_nth
      take_update_cancel nth_append)

text \<open>When the allocation fails the element is dropped and nothing tells the caller.\<close>

lemma z_vec_append_no_memory:
  "v_len v = length (v_val v) \<Longrightarrow> z_vec_append False e v = v"
  by (simp add: z_vec_append_def v_capacity_def)

lemma vec_remove_loop_eq:
  "n \<noteq> 0 \<Longrightarrow> Suc pos < length xs \<Longrightarrow> vec_remove_loop n pos xs = Some (xs[pos := xs ! Suc pos])"
proof (induction n arbitrary: xs)
  case (Suc n)
  show ?case
  proof (cases n)
    case 0
    then show ?thesis using Suc.prems by simp
  next
    case (Suc m)
    have "vec_remove_loop n pos (xs[pos := xs ! Suc pos]) =
      Some ((xs[pos := xs ! Suc pos])[pos := xs[pos := xs ! Suc pos] ! Suc pos])"
      using Suc Suc.IH [of "xs[pos := xs ! Suc pos]"] Suc.prems by simp
    then show ?thesis using Suc.prems by simp
  qed
qed simp

lemma z_vec_remove_elems:
  assumes "vec_wf v" "pos < v_len v" "v_len v < length (v_val v)"
  shows "\<exists>v'. z_vec_remove pos v = Ok () v' \<and> v_len v' = v_len v - 1 \<and>
           vec_elems v' = take (v_len v - 1) ((v_val v)[pos := v_val v ! Suc pos])"
proof -
  have "v_len v < 2 ^ 64" using assms(1) unfolding vec_wf_def by linarith
  then have len: "(v_len v + 2 ^ 64 - 1) mod 2 ^ 64 = v_len v - 1"
    using assms(2) by (cases "v_len v") (simp_all del: power_numeral)
  have "vec_remove_loop (v_len v - pos) pos (v_val v) = Some ((v_val v)[pos := v_val v ! Suc pos])"
    using assms by (intro vec_remove_loop_eq) auto
  then show ?thesis using assms len
    by (auto simp: z_vec_remove_def v_capacity_def vec_elems_def take_update_swap list_update_beyond)
qed

end
