(* ===== verification/Zp_IoBuf.thy ===== *)
theory Zp_IoBuf
  imports Zp_Vec
begin

text \<open>
  The input/output buffers of \<^verbatim>\<open>src/protocol/iobuf.c\<close> and
  \<^verbatim>\<open>include/zenoh-pico/protocol/iobuf.h\<close>: the I/O slice \<^verbatim>\<open>_z_iosli_t\<close>, the read
  buffer \<^verbatim>\<open>_z_zbuf_t\<close> the decoders consume, and the write buffer \<^verbatim>\<open>_z_wbuf_t\<close> the
  encoders fill, a vector of slices that may grow and may wrap the caller's bytes without
  copying them.

  A slice carries the memory its pointer points to, as a list of bytes. Memory that
  \<^verbatim>\<open>z_malloc\<close> returns is modelled with zero bytes; no operation reads it before it is
  written. \<^verbatim>\<open>z_malloc\<close> succeeds. A failed \<^verbatim>\<open>assert\<close>, an index outside a slice or
  the dereference of a missing slice is \<open>Fault\<close>. The reference counter \<^verbatim>\<open>_slice\<close>
  of a \<^verbatim>\<open>_z_zbuf_t\<close> only keeps the memory alive and is left out.
\<close>

section \<open>I/O slices\<close>

record z_iosli_t =
  ios_r_pos :: nat
  ios_w_pos :: nat
  ios_capacity :: nat
  ios_buf :: "byte list"
  ios_is_alloc :: bool

definition z_iosli_null :: z_iosli_t where
  "z_iosli_null = \<lparr>ios_r_pos = 0, ios_w_pos = 0, ios_capacity = 0, ios_buf = [],
                   ios_is_alloc = False\<rparr>"

definition z_iosli_writable :: "z_iosli_t \<Rightarrow> nat" where
  "z_iosli_writable ios = ios_capacity ios - ios_w_pos ios"

definition z_iosli_readable :: "z_iosli_t \<Rightarrow> nat" where
  "z_iosli_readable ios = ios_w_pos ios - ios_r_pos ios"

definition z_iosli_can_write :: "z_iosli_t \<Rightarrow> bool" where
  "z_iosli_can_write ios \<longleftrightarrow> ios_w_pos ios < ios_capacity ios"

definition z_iosli_can_read :: "z_iosli_t \<Rightarrow> bool" where
  "z_iosli_can_read ios \<longleftrightarrow> ios_r_pos ios < ios_w_pos ios"

definition z_iosli_make :: "nat \<Rightarrow> z_iosli_t" where
  "z_iosli_make capacity =
     \<lparr>ios_r_pos = 0, ios_w_pos = 0, ios_capacity = capacity,
      ios_buf = replicate capacity 0, ios_is_alloc = True\<rparr>"

text \<open>\<open>None\<close>: the assertion of \<^verbatim>\<open>_z_iosli_wrap\<close> failed.\<close>

definition z_iosli_wrap :: "byte list \<Rightarrow> nat \<Rightarrow> nat \<Rightarrow> nat \<Rightarrow> z_iosli_t option" where
  "z_iosli_wrap buf len r_pos w_pos =
     (if r_pos \<le> w_pos \<and> w_pos \<le> len
      then Some \<lparr>ios_r_pos = r_pos, ios_w_pos = w_pos, ios_capacity = len,
                 ios_buf = buf, ios_is_alloc = False\<rparr>
      else None)"

definition z_iosli_steal :: "z_iosli_t \<Rightarrow> z_iosli_t \<times> z_iosli_t" where
  "z_iosli_steal ios = (ios, z_iosli_null)"

definition z_iosli_to_bytes :: "z_iosli_t \<Rightarrow> byte list" where
  "z_iosli_to_bytes ios = take (z_iosli_readable ios) (drop (ios_r_pos ios) (ios_buf ios))"

definition z_iosli_clear :: "z_iosli_t \<Rightarrow> z_iosli_t" where
  "z_iosli_clear ios = (if ios_is_alloc ios then ios\<lparr>ios_buf := []\<rparr> else ios)"

text \<open>
  A slice that owns its memory is copied with the memory, any other shares it: the two
  cases give the same value.
\<close>

definition z_iosli_copy :: "z_iosli_t \<Rightarrow> z_iosli_t" where
  "z_iosli_copy src =
     \<lparr>ios_r_pos = ios_r_pos src, ios_w_pos = ios_w_pos src, ios_capacity = ios_capacity src,
      ios_buf = (if ios_is_alloc src then take (ios_capacity src) (ios_buf src) else ios_buf src),
      ios_is_alloc = ios_is_alloc src\<rparr>"

definition z_iosli_reset :: "z_iosli_t \<Rightarrow> z_iosli_t" where
  "z_iosli_reset ios = ios\<lparr>ios_r_pos := 0, ios_w_pos := 0\<rparr>"

definition z_iosli_read :: "(byte, z_iosli_t) prog" where
  "z_iosli_read ios =
     (if ios_r_pos ios < ios_w_pos ios \<and> ios_r_pos ios < length (ios_buf ios)
      then Ok (ios_buf ios ! ios_r_pos ios) (ios\<lparr>ios_r_pos := ios_r_pos ios + 1\<rparr>)
      else Fault)"

definition z_iosli_write :: "byte \<Rightarrow> (unit, z_iosli_t) prog" where
  "z_iosli_write b ios =
     (if ios_w_pos ios < ios_capacity ios \<and> ios_w_pos ios < length (ios_buf ios)
      then Ok () (ios\<lparr>ios_buf := (ios_buf ios)[ios_w_pos ios := b],
                       ios_w_pos := ios_w_pos ios + 1\<rparr>)
      else Fault)"

definition z_iosli_get :: "z_iosli_t \<Rightarrow> nat \<Rightarrow> byte option" where
  "z_iosli_get ios pos =
     (if pos < ios_capacity ios \<and> pos < length (ios_buf ios) then Some (ios_buf ios ! pos) else None)"

definition z_iosli_put :: "byte \<Rightarrow> nat \<Rightarrow> (unit, z_iosli_t) prog" where
  "z_iosli_put b pos ios =
     (if pos < ios_capacity ios \<and> pos < length (ios_buf ios)
      then Ok () (ios\<lparr>ios_buf := (ios_buf ios)[pos := b]\<rparr>) else Fault)"

definition z_iosli_read_bytes :: "nat \<Rightarrow> (byte list, z_iosli_t) prog" where
  "z_iosli_read_bytes len ios =
     (if len \<le> z_iosli_readable ios \<and> ios_r_pos ios + len \<le> length (ios_buf ios)
      then Ok (take len (drop (ios_r_pos ios) (ios_buf ios)))
              (ios\<lparr>ios_r_pos := ios_r_pos ios + len\<rparr>)
      else Fault)"

definition z_iosli_write_bytes :: "byte list \<Rightarrow> nat \<Rightarrow> nat \<Rightarrow> (unit, z_iosli_t) prog" where
  "z_iosli_write_bytes bs offset len ios =
     (if len \<le> z_iosli_writable ios \<and> ios_w_pos ios + len \<le> length (ios_buf ios) \<and>
         offset + len \<le> length bs
      then Ok () (ios\<lparr>ios_buf := overwrite (ios_w_pos ios) (take len (drop offset bs)) (ios_buf ios),
                       ios_w_pos := ios_w_pos ios + len\<rparr>)
      else Fault)"

definition z_iosli_copy_bytes :: "z_iosli_t \<Rightarrow> (unit, z_iosli_t) prog" where
  "z_iosli_copy_bytes src dst =
     (let len = z_iosli_readable src in
      if len \<le> ios_capacity dst \<and> ios_w_pos dst + len \<le> length (ios_buf dst) \<and>
         ios_r_pos src + len \<le> length (ios_buf src)
      then Ok () (dst\<lparr>ios_buf := overwrite (ios_w_pos dst) (take len (drop (ios_r_pos src) (ios_buf src)))
                                   (ios_buf dst),
                       ios_w_pos := ios_w_pos dst + len\<rparr>)
      else Fault)"

text \<open>What every operation keeps of a slice.\<close>

definition ios_wf :: "z_iosli_t \<Rightarrow> bool" where
  "ios_wf ios \<longleftrightarrow> ios_r_pos ios \<le> ios_w_pos ios \<and> ios_w_pos ios \<le> ios_capacity ios \<and>
     ios_capacity ios \<le> length (ios_buf ios)"

section \<open>Read buffers\<close>

record z_zbuf_t =
  zb_ios :: z_iosli_t

definition on_ios :: "('a, z_iosli_t) prog \<Rightarrow> ('a, z_zbuf_t) prog" where
  "on_ios p z = (case p (zb_ios z) of Ok x ios \<Rightarrow> Ok x (z\<lparr>zb_ios := ios\<rparr>)
                   | Err e ios \<Rightarrow> Err e (z\<lparr>zb_ios := ios\<rparr>) | Fault \<Rightarrow> Fault)"

definition z_zbuf_make :: "nat \<Rightarrow> z_zbuf_t" where
  "z_zbuf_make capacity =
     \<lparr>zb_ios = (if capacity = 0 then z_iosli_make 0
                 else (z_iosli_make capacity)\<lparr>ios_is_alloc := False\<rparr>)\<rparr>"

definition z_zbuf_len :: "z_zbuf_t \<Rightarrow> nat" where
  "z_zbuf_len z = z_iosli_readable (zb_ios z)"

definition z_zbuf_capacity :: "z_zbuf_t \<Rightarrow> nat" where
  "z_zbuf_capacity z = ios_capacity (zb_ios z)"

definition z_zbuf_space_left :: "z_zbuf_t \<Rightarrow> nat" where
  "z_zbuf_space_left z = z_iosli_writable (zb_ios z)"

definition z_zbuf_can_read :: "z_zbuf_t \<Rightarrow> bool" where
  "z_zbuf_can_read z = z_iosli_can_read (zb_ios z)"

definition z_zbuf_read :: "(byte, z_zbuf_t) prog" where
  "z_zbuf_read = on_ios z_iosli_read"

definition z_zbuf_read_bytes :: "nat \<Rightarrow> (byte list, z_zbuf_t) prog" where
  "z_zbuf_read_bytes len = on_ios (z_iosli_read_bytes len)"

definition z_zbuf_get :: "z_zbuf_t \<Rightarrow> nat \<Rightarrow> byte option" where
  "z_zbuf_get z pos = z_iosli_get (zb_ios z) pos"

definition z_zbuf_get_rpos :: "z_zbuf_t \<Rightarrow> nat" where
  "z_zbuf_get_rpos z = ios_r_pos (zb_ios z)"

definition z_zbuf_get_wpos :: "z_zbuf_t \<Rightarrow> nat" where
  "z_zbuf_get_wpos z = ios_w_pos (zb_ios z)"

definition z_zbuf_set_rpos :: "nat \<Rightarrow> (unit, z_zbuf_t) prog" where
  "z_zbuf_set_rpos r_pos =
     on_ios (\<lambda>ios. if r_pos \<le> ios_w_pos ios then Ok () (ios\<lparr>ios_r_pos := r_pos\<rparr>) else Fault)"

definition z_zbuf_set_wpos :: "nat \<Rightarrow> (unit, z_zbuf_t) prog" where
  "z_zbuf_set_wpos w_pos =
     on_ios (\<lambda>ios. if w_pos \<le> ios_capacity ios then Ok () (ios\<lparr>ios_w_pos := w_pos\<rparr>) else Fault)"

definition z_zbuf_reset :: "z_zbuf_t \<Rightarrow> z_zbuf_t" where
  "z_zbuf_reset z = z\<lparr>zb_ios := z_iosli_reset (zb_ios z)\<rparr>"

text \<open>The bytes from the read pointer on (\<^verbatim>\<open>_z_zbuf_get_rptr\<close>, \<^verbatim>\<open>_z_zbuf_start\<close>).\<close>

definition z_zbuf_get_rptr :: "z_zbuf_t \<Rightarrow> byte list" where
  "z_zbuf_get_rptr z = drop (ios_r_pos (zb_ios z)) (ios_buf (zb_ios z))"

definition z_zbuf_view :: "z_zbuf_t \<Rightarrow> nat \<Rightarrow> z_zbuf_t option" where
  "z_zbuf_view z len =
     (if len \<le> z_zbuf_len z
      then map_option (\<lambda>ios. \<lparr>zb_ios = ios\<rparr>) (z_iosli_wrap (z_zbuf_get_rptr z) len 0 len)
      else None)"

definition z_slice_as_zbuf :: "byte list \<Rightarrow> z_zbuf_t" where
  "z_slice_as_zbuf s =
     \<lparr>zb_ios = \<lparr>ios_r_pos = 0, ios_w_pos = length s, ios_capacity = length s, ios_buf = s,
                 ios_is_alloc = False\<rparr>\<rparr>"

definition z_zbuf_copy_bytes :: "z_zbuf_t \<Rightarrow> (unit, z_zbuf_t) prog" where
  "z_zbuf_copy_bytes src = on_ios (z_iosli_copy_bytes (zb_ios src))"

definition z_zbuf_compact :: "(unit, z_zbuf_t) prog" where
  "z_zbuf_compact z =
     (if z_zbuf_get_rpos z \<noteq> 0 \<or> z_zbuf_get_wpos z \<noteq> 0
      then let len = z_zbuf_len z in
           then_do (\<lambda>z. Ok () (z\<lparr>zb_ios := (zb_ios z)\<lparr>ios_buf :=
                        overwrite 0 (take len (z_zbuf_get_rptr z)) (ios_buf (zb_ios z))\<rparr>\<rparr>))
             (then_do (z_zbuf_set_rpos 0) (z_zbuf_set_wpos len)) z
      else Ok () z)"

text \<open>The unread bytes of a buffer: the abstract value of a read buffer.\<close>

definition zbuf_bytes :: "z_zbuf_t \<Rightarrow> byte list" where
  "zbuf_bytes z = z_iosli_to_bytes (zb_ios z)"

definition zbuf_wf :: "z_zbuf_t \<Rightarrow> bool" where
  "zbuf_wf z = ios_wf (zb_ios z)"

definition zadv :: "nat \<Rightarrow> z_zbuf_t \<Rightarrow> z_zbuf_t" where
  "zadv n z = z\<lparr>zb_ios := (zb_ios z)\<lparr>ios_r_pos := ios_r_pos (zb_ios z) + n\<rparr>\<rparr>"

end
