(* ===== verification/Zp_WBuf.thy ===== *)
theory Zp_WBuf
  imports Zp_IoBuf
begin

text \<open>
  The write buffer of \<^verbatim>\<open>src/protocol/iobuf.c\<close>: a vector of I/O slices with a read and a
  write index. A buffer with \<^verbatim>\<open>_expansion_step = 0\<close> has a fixed size; any other grows by
  slices of that size. The abstract value of a write buffer is the list of its unread bytes
  (\<open>wbuf_bytes\<close>); \<open>appends\<close>-style lemmas say that writing extends it at the end or
  fails for lack of space.
\<close>

section \<open>State and access\<close>

record z_wbuf_t =
  wb_ioss :: "z_iosli_t z_svec_t"
  wb_r_idx :: nat
  wb_w_idx :: nat
  wb_expansion_step :: nat

definition z_wbuf_get_iosli :: "z_wbuf_t \<Rightarrow> nat \<Rightarrow> z_iosli_t option" where
  "z_wbuf_get_iosli w i = z_svec_get (wb_ioss w) i"

definition z_wbuf_len_iosli :: "z_wbuf_t \<Rightarrow> nat" where
  "z_wbuf_len_iosli w = z_svec_len (wb_ioss w)"

text \<open>A call on the slice \<open>i\<close> of the buffer through its pointer.\<close>

definition on_iosli :: "nat \<Rightarrow> ('a, z_iosli_t) prog \<Rightarrow> ('a, z_wbuf_t) prog" where
  "on_iosli i p w =
     (case z_wbuf_get_iosli w i of
        None \<Rightarrow> Fault
      | Some ios \<Rightarrow>
          let upd = (\<lambda>ios. w\<lparr>wb_ioss := (wb_ioss w)\<lparr>sv_val := (sv_val (wb_ioss w))[i := ios]\<rparr>\<rparr>) in
          case p ios of Ok x ios \<Rightarrow> Ok x (upd ios) | Err e ios \<Rightarrow> Err e (upd ios) | Fault \<Rightarrow> Fault)"

text \<open>Unsigned subtraction on \<^verbatim>\<open>size_t\<close>.\<close>

definition size_sub :: "nat \<Rightarrow> nat \<Rightarrow> nat" where
  "size_sub a b = (if b \<le> a then a - b else 2 ^ 64 + a - b)"

definition z_wbuf_add_iosli :: "z_iosli_t \<Rightarrow> (unit, z_wbuf_t) prog" where
  "z_wbuf_add_iosli ios w =
     (case z_svec_append True ios (wb_ioss w) of
        Ok _ v \<Rightarrow> Ok () (w\<lparr>wb_ioss := v, wb_w_idx := wb_w_idx w + 1\<rparr>)
      | Err e v \<Rightarrow> Err e (w\<lparr>wb_ioss := v\<rparr>)
      | Fault \<Rightarrow> Fault)"

definition z_wbuf_make :: "nat \<Rightarrow> bool \<Rightarrow> z_wbuf_t" where
  "z_wbuf_make capacity is_expandable =
     (let ioss = (if is_expandable then z_svec_make True 5 else z_svec_make True 1);
          step = (if is_expandable then capacity else 0);
          ioss' = (case z_svec_append True (z_iosli_make capacity) ioss of
                     Ok _ v \<Rightarrow> v | Err _ v \<Rightarrow> v | Fault \<Rightarrow> ioss)
      in \<lparr>wb_ioss = ioss', wb_r_idx = 0, wb_w_idx = 0, wb_expansion_step = step\<rparr>)"

definition z_wbuf_capacity :: "z_wbuf_t \<Rightarrow> nat" where
  "z_wbuf_capacity w = sum_list (map ios_capacity (sv_val (wb_ioss w)))"

text \<open>The slices from the read index to the write index.\<close>

definition wbuf_live :: "z_wbuf_t \<Rightarrow> z_iosli_t list" where
  "wbuf_live w = take (Suc (wb_w_idx w) - wb_r_idx w) (drop (wb_r_idx w) (sv_val (wb_ioss w)))"

definition z_wbuf_len :: "z_wbuf_t \<Rightarrow> nat" where
  "z_wbuf_len w = sum_list (map z_iosli_readable (wbuf_live w))"

definition z_wbuf_space_left :: "z_wbuf_t \<Rightarrow> nat option" where
  "z_wbuf_space_left w = map_option z_iosli_writable (z_wbuf_get_iosli w (wb_w_idx w))"

section \<open>Reading\<close>

function z_wbuf_read :: "(byte, z_wbuf_t) prog" where
  "z_wbuf_read w =
     (if wb_r_idx w \<le> wb_w_idx w
      then case z_wbuf_get_iosli w (wb_r_idx w) of
             None \<Rightarrow> Fault
           | Some ios \<Rightarrow>
               if 0 < z_iosli_readable ios then on_iosli (wb_r_idx w) z_iosli_read w
               else z_wbuf_read (w\<lparr>wb_r_idx := wb_r_idx w + 1\<rparr>)
      else Fault)"
  by auto
termination by (relation "measure (\<lambda>w. Suc (wb_w_idx w) - wb_r_idx w)") auto

text \<open>
  \<^verbatim>\<open>_z_wbuf_read_bytes\<close>: a do-while loop, so it looks at one slice even for no byte.
\<close>

lemma on_iosli_w_idx:
  "on_iosli i p w = Ok x w' \<Longrightarrow> wb_w_idx w' = wb_w_idx w \<and> wb_r_idx w' = wb_r_idx w \<and>
     wb_expansion_step w' = wb_expansion_step w"
  by (auto simp: on_iosli_def Let_def split: option.splits res.splits)

function z_wbuf_read_bytes :: "nat \<Rightarrow> (byte list, z_wbuf_t) prog" where
  "z_wbuf_read_bytes llength w =
     (if wb_r_idx w \<le> wb_w_idx w
      then case z_wbuf_get_iosli w (wb_r_idx w) of
             None \<Rightarrow> Fault
           | Some ios \<Rightarrow>
               if 0 < z_iosli_readable ios
               then let to_read = (if z_iosli_readable ios \<le> llength then z_iosli_readable ios
                                   else llength) in
                    case on_iosli (wb_r_idx w) (z_iosli_read_bytes to_read) w of
                      Ok bs w' \<Rightarrow>
                        if 0 < llength - to_read
                        then (case z_wbuf_read_bytes (llength - to_read) w' of
                                Ok bs' w'' \<Rightarrow> Ok (bs @ bs') w'' | Err e w'' \<Rightarrow> Err e w'' | Fault \<Rightarrow> Fault)
                        else Ok bs w'
                    | Err e w' \<Rightarrow> Err e w'
                    | Fault \<Rightarrow> Fault
               else let w' = w\<lparr>wb_r_idx := wb_r_idx w + 1\<rparr> in
                    if 0 < llength then z_wbuf_read_bytes llength w' else Ok [] w'
      else Fault)"
  by auto
termination
  by (relation "measure (\<lambda>(llength, w). llength + (Suc (wb_w_idx w) - wb_r_idx w))")
     (auto dest!: on_iosli_w_idx split: if_splits)

text \<open>The slice that holds position \<open>current\<close>, counting capacities.\<close>

fun wbuf_locate :: "z_iosli_t list \<Rightarrow> nat \<Rightarrow> nat \<Rightarrow> (nat \<times> nat) option" where
  "wbuf_locate [] current i = None"
| "wbuf_locate (ios # xs) current i =
     (if current < ios_capacity ios then Some (i, current)
      else wbuf_locate xs (current - ios_capacity ios) (i + 1))"

definition z_wbuf_get :: "z_wbuf_t \<Rightarrow> nat \<Rightarrow> byte option" where
  "z_wbuf_get w pos =
     (case wbuf_locate (sv_val (wb_ioss w)) pos 0 of
        None \<Rightarrow> None
      | Some (i, current) \<Rightarrow>
          (case z_wbuf_get_iosli w i of None \<Rightarrow> None | Some ios \<Rightarrow> z_iosli_get ios current))"

definition z_wbuf_put :: "byte \<Rightarrow> nat \<Rightarrow> (unit, z_wbuf_t) prog" where
  "z_wbuf_put b pos w =
     (case wbuf_locate (sv_val (wb_ioss w)) pos 0 of
        None \<Rightarrow> Fault
      | Some (i, current) \<Rightarrow> on_iosli i (z_iosli_put b current) w)"

section \<open>Writing\<close>

definition z_wbuf_write :: "byte \<Rightarrow> (unit, z_wbuf_t) prog" where
  "z_wbuf_write b w =
     (case z_wbuf_get_iosli w (wb_w_idx w) of
        None \<Rightarrow> Fault
      | Some ios \<Rightarrow>
          if \<not> z_iosli_can_write ios
          then bind_ok
                 (if z_svec_len (wb_ioss w) \<le> wb_w_idx w + 1
                  then if wb_expansion_step w = 0 then fail Z_ERR_TRANSPORT_NO_SPACE
                       else z_wbuf_add_iosli (z_iosli_make (wb_expansion_step w))
                  else (\<lambda>w. Ok () (w\<lparr>wb_w_idx := wb_w_idx w + 1\<rparr>)))
                 (\<lambda>_ w. on_iosli (wb_w_idx w) (z_iosli_write b) w) w
          else on_iosli (wb_w_idx w) (z_iosli_write b) w)"

text \<open>
  The loop of \<^verbatim>\<open>_z_wbuf_write_bytes\<close> over new slices. Its fuel is the number of bytes
  left: every slice has room for at least one, because the step is not zero.
\<close>

fun wbuf_write_loop :: "nat \<Rightarrow> byte list \<Rightarrow> nat \<Rightarrow> nat \<Rightarrow> (unit, z_wbuf_t) prog" where
  "wbuf_write_loop fuel bs loffset llength w =
     (if llength = 0 then Ok () w
      else case fuel of
        0 \<Rightarrow> Fault
      | Suc fuel' \<Rightarrow>
          bind_ok (z_wbuf_add_iosli (z_iosli_make (wb_expansion_step w)))
            (\<lambda>_ w. case z_wbuf_get_iosli w (wb_w_idx w) of
               None \<Rightarrow> Fault
             | Some ios \<Rightarrow>
                 let writable = min llength (z_iosli_writable ios) in
                 bind_ok (on_iosli (wb_w_idx w) (z_iosli_write_bytes bs loffset writable))
                   (\<lambda>_. wbuf_write_loop fuel' bs (loffset + writable) (llength - writable)) w) w)"

definition z_wbuf_write_bytes :: "byte list \<Rightarrow> nat \<Rightarrow> nat \<Rightarrow> (unit, z_wbuf_t) prog" where
  "z_wbuf_write_bytes bs offset len w =
     (case z_wbuf_get_iosli w (wb_w_idx w) of
        None \<Rightarrow> Fault
      | Some ios \<Rightarrow>
          let writable = z_iosli_writable ios in
          if len \<le> writable then on_iosli (wb_w_idx w) (z_iosli_write_bytes bs offset len) w
          else if wb_expansion_step w \<noteq> 0
          then bind_ok (on_iosli (wb_w_idx w) (z_iosli_write_bytes bs offset writable))
                 (\<lambda>_. wbuf_write_loop (len - writable) bs (offset + writable) (len - writable)) w
          else Err Z_ERR_TRANSPORT_NO_SPACE w)"

text \<open>
  \<^verbatim>\<open>_z_wbuf_wrap_bytes\<close>: the current slice is closed, the caller's bytes become a slice
  of their own, and what was left of the current slice becomes the next one. In C that tail
  points into the same allocation as the closed slice; the closed slice can no longer be
  written past its end, so the tail is given its own copy of the memory.
\<close>

definition z_wbuf_wrap_bytes :: "byte list \<Rightarrow> nat \<Rightarrow> nat \<Rightarrow> (unit, z_wbuf_t) prog" where
  "z_wbuf_wrap_bytes bs offset len w =
     (case z_wbuf_get_iosli w (wb_w_idx w) of
        None \<Rightarrow> Fault
      | Some ios \<Rightarrow>
          let curr_space = z_iosli_writable ios in
          bind_ok (on_iosli (wb_w_idx w) (\<lambda>ios. Ok () (ios\<lparr>ios_capacity := ios_w_pos ios\<rparr>)))
            (\<lambda>_. case z_iosli_wrap bs len offset (offset + len) of
               None \<Rightarrow> fault
             | Some wios \<Rightarrow>
                 bind_ok (z_wbuf_add_iosli wios)
                   (\<lambda>_ w. case z_wbuf_get_iosli w (wb_w_idx w - 1) of
                      None \<Rightarrow> Fault
                    | Some ios' \<Rightarrow>
                        (case z_iosli_wrap (drop (ios_w_pos ios') (ios_buf ios')) curr_space 0 0 of
                           None \<Rightarrow> Fault
                         | Some tail \<Rightarrow> z_wbuf_add_iosli tail w))) w)"

section \<open>Positions\<close>

definition z_wbuf_get_rpos :: "z_wbuf_t \<Rightarrow> nat option" where
  "z_wbuf_get_rpos w =
     (case z_wbuf_get_iosli w (wb_r_idx w) of
        None \<Rightarrow> None
      | Some ios \<Rightarrow> Some (sum_list (map ios_capacity (take (wb_r_idx w) (sv_val (wb_ioss w))))
                          + ios_r_pos ios))"

definition z_wbuf_get_wpos :: "z_wbuf_t \<Rightarrow> nat option" where
  "z_wbuf_get_wpos w =
     (case z_wbuf_get_iosli w (wb_w_idx w) of
        None \<Rightarrow> None
      | Some ios \<Rightarrow> Some (sum_list (map ios_capacity (take (wb_w_idx w) (sv_val (wb_ioss w))))
                          + ios_w_pos ios))"

text \<open>
  The two loops that place a position. The subtraction of the capacity is on
  \<^verbatim>\<open>size_t\<close>: a position past the write position of a slice that is not full wraps.
\<close>

function wbuf_set_rpos_loop :: "nat \<Rightarrow> nat \<Rightarrow> (unit, z_wbuf_t) prog" where
  "wbuf_set_rpos_loop current i w =
     (if i \<le> wb_w_idx w
      then case z_wbuf_get_iosli w i of
             None \<Rightarrow> Fault
           | Some ios \<Rightarrow>
               if current \<le> ios_w_pos ios
               then on_iosli i (\<lambda>ios. Ok () (ios\<lparr>ios_r_pos := current\<rparr>)) (w\<lparr>wb_r_idx := i\<rparr>)
               else (case on_iosli i (\<lambda>ios. Ok () (ios\<lparr>ios_r_pos := ios_w_pos ios\<rparr>)) w of
                       Ok _ w' \<Rightarrow> wbuf_set_rpos_loop (size_sub current (ios_capacity ios)) (i + 1) w'
                     | Err e w' \<Rightarrow> Err e w' | Fault \<Rightarrow> Fault)
      else Fault)"
  by auto
termination
  by (relation "measure (\<lambda>(current, i, w). Suc (wb_w_idx w) - i)") (auto dest!: on_iosli_w_idx)

definition z_wbuf_set_rpos :: "nat \<Rightarrow> (unit, z_wbuf_t) prog" where
  "z_wbuf_set_rpos pos = wbuf_set_rpos_loop pos 0"

lemma on_iosli_len:
  "on_iosli i p w = Ok x w' \<Longrightarrow> length (sv_val (wb_ioss w')) = length (sv_val (wb_ioss w))"
  by (auto simp: on_iosli_def Let_def split: option.splits res.splits)

function wbuf_set_wpos_loop :: "nat \<Rightarrow> nat \<Rightarrow> (unit, z_wbuf_t) prog" where
  "wbuf_set_wpos_loop current i w =
     (if i \<le> z_svec_len (wb_ioss w)
      then case z_wbuf_get_iosli w i of
             None \<Rightarrow> Fault
           | Some ios \<Rightarrow>
               if current \<le> ios_capacity ios \<and> ios_r_pos ios \<le> current
               then on_iosli i (\<lambda>ios. Ok () (ios\<lparr>ios_w_pos := current\<rparr>)) (w\<lparr>wb_w_idx := i\<rparr>)
               else (case on_iosli i (\<lambda>ios. Ok () (ios\<lparr>ios_w_pos := ios_capacity ios\<rparr>)) w of
                       Ok _ w' \<Rightarrow> wbuf_set_wpos_loop (size_sub current (ios_capacity ios)) (i + 1) w'
                     | Err e w' \<Rightarrow> Err e w' | Fault \<Rightarrow> Fault)
      else Fault)"
  by auto
termination
  by (relation "measure (\<lambda>(current, i, w). Suc (length (sv_val (wb_ioss w))) - i)")
     (auto dest!: on_iosli_len simp: z_svec_len_def)

definition z_wbuf_set_wpos :: "nat \<Rightarrow> (unit, z_wbuf_t) prog" where
  "z_wbuf_set_wpos pos = wbuf_set_wpos_loop pos 0"

section \<open>Moving bytes between buffers\<close>

fun wbuf_to_zbuf_loop :: "z_wbuf_t \<Rightarrow> nat list \<Rightarrow> (unit, z_zbuf_t) prog" where
  "wbuf_to_zbuf_loop w [] = ret ()"
| "wbuf_to_zbuf_loop w (i # is) =
     (case z_wbuf_get_iosli w i of
        None \<Rightarrow> fault
      | Some ios \<Rightarrow>
          then_do (on_ios (z_iosli_write_bytes (ios_buf ios) (ios_r_pos ios) (z_iosli_readable ios)))
            (wbuf_to_zbuf_loop w is))"

definition z_wbuf_to_zbuf :: "z_wbuf_t \<Rightarrow> (unit, z_zbuf_t) res" where
  "z_wbuf_to_zbuf w =
     wbuf_to_zbuf_loop w [wb_r_idx w..<Suc (wb_w_idx w)] (z_zbuf_make (z_wbuf_len w))"

text \<open>The buffer that takes over the only slice, and the emptied write buffer.\<close>

definition z_wbuf_null :: z_wbuf_t where
  "z_wbuf_null = \<lparr>wb_ioss = z_svec_null, wb_r_idx = 0, wb_w_idx = 0, wb_expansion_step = 0\<rparr>"

definition z_wbuf_moved_as_zbuf :: "(z_zbuf_t, z_wbuf_t) prog" where
  "z_wbuf_moved_as_zbuf w =
     (if z_svec_len (wb_ioss w) = 1
      then case z_wbuf_get_iosli w 0 of
             None \<Rightarrow> Fault
           | Some ios \<Rightarrow> Ok \<lparr>zb_ios = (fst (z_iosli_steal ios))\<lparr>ios_is_alloc := False\<rparr>\<rparr> z_wbuf_null
      else Fault)"

function wbuf_siphon_loop :: "nat \<Rightarrow> (unit, z_wbuf_t \<times> z_wbuf_t) prog" where
  "wbuf_siphon_loop llength ws =
     (let dst = fst ws; src = snd ws in
      if wb_r_idx src \<le> wb_w_idx src
      then case z_wbuf_get_iosli src (wb_r_idx src) of
             None \<Rightarrow> Fault
           | Some rios \<Rightarrow>
               if 0 < z_iosli_readable rios
               then let to_read = (if z_iosli_readable rios \<le> llength then z_iosli_readable rios
                                   else llength) in
                    case on_iosli (wb_r_idx src) (z_iosli_read_bytes to_read) src of
                      Ok bs src' \<Rightarrow>
                        (case on_iosli (wb_w_idx dst) (z_iosli_write_bytes bs 0 to_read) dst of
                           Ok _ dst' \<Rightarrow>
                             if 0 < llength - to_read
                             then wbuf_siphon_loop (llength - to_read) (dst', src')
                             else Ok () (dst', src')
                         | Err e dst' \<Rightarrow> Err e (dst', src')
                         | Fault \<Rightarrow> Fault)
                    | Err e src' \<Rightarrow> Err e (dst, src')
                    | Fault \<Rightarrow> Fault
               else let src' = src\<lparr>wb_r_idx := wb_r_idx src + 1\<rparr> in
                    if 0 < llength then wbuf_siphon_loop llength (dst, src') else Ok () (dst, src')
      else Fault)"
  by auto
termination
  by (relation "measure (\<lambda>(llength, ws). llength + (Suc (wb_w_idx (snd ws)) - wb_r_idx (snd ws)))")
     (auto dest!: on_iosli_w_idx split: if_splits)

definition z_wbuf_siphon :: "nat \<Rightarrow> (unit, z_wbuf_t \<times> z_wbuf_t) prog" where
  "z_wbuf_siphon len ws =
     (case z_wbuf_get_iosli (fst ws) (wb_w_idx (fst ws)) of
        None \<Rightarrow> Fault
      | Some wios \<Rightarrow>
          if len \<le> z_iosli_writable wios then wbuf_siphon_loop len ws
          else Err Z_ERR_TRANSPORT_NO_SPACE ws)"

definition z_wbuf_copy :: "(unit, z_wbuf_t \<times> z_wbuf_t) prog" where
  "z_wbuf_copy ws =
     (let dst = fst ws; src = snd ws;
          dst' = dst\<lparr>wb_r_idx := wb_r_idx src, wb_w_idx := wb_w_idx src,
                     wb_expansion_step := wb_expansion_step src\<rparr> in
      case z_svec_copy True (\<lambda>x. x) (wb_ioss src) (wb_ioss dst') of
        Ok _ v \<Rightarrow> Ok () (dst'\<lparr>wb_ioss := v\<rparr>, src)
      | Err _ v \<Rightarrow> Ok () (dst'\<lparr>wb_ioss := v\<rparr>, src)
      | Fault \<Rightarrow> Fault)"

text \<open>
  \<^verbatim>\<open>_z_wbuf_reset\<close>: slices that own their memory are emptied, the others are removed. The
  index moves on after a removal too. The size of \<^verbatim>\<open>_z_iosli_t\<close> (five words of eight
  bytes) only matters for the length of the move in \<^verbatim>\<open>_z_svec_remove\<close>.
\<close>

definition z_iosli_t_size :: nat where
  "z_iosli_t_size = 40"

lemma z_svec_remove_len:
  "z_svec_remove n i v = Ok () v' \<Longrightarrow> length (sv_val v') = length (sv_val v) - 1"
  by (auto simp: z_svec_remove_def z_svec_len_def split: if_splits)

function wbuf_reset_loop :: "nat \<Rightarrow> (unit, z_wbuf_t) prog" where
  "wbuf_reset_loop i w =
     (if i < z_svec_len (wb_ioss w)
      then case z_wbuf_get_iosli w i of
             None \<Rightarrow> Fault
           | Some ios \<Rightarrow>
               if \<not> ios_is_alloc ios
               then (case z_svec_remove z_iosli_t_size i (wb_ioss w) of
                       Ok _ v \<Rightarrow> wbuf_reset_loop (i + 1) (w\<lparr>wb_ioss := v\<rparr>)
                     | Err e v \<Rightarrow> Err e (w\<lparr>wb_ioss := v\<rparr>)
                     | Fault \<Rightarrow> Fault)
               else (case on_iosli i (\<lambda>ios. Ok () (z_iosli_reset ios)) w of
                       Ok _ w' \<Rightarrow> wbuf_reset_loop (i + 1) w' | Err e w' \<Rightarrow> Err e w' | Fault \<Rightarrow> Fault)
      else Ok () w)"
  by auto
termination
  by (relation "measure (\<lambda>(i, w). length (sv_val (wb_ioss w)) - i)")
     (auto dest!: on_iosli_len z_svec_remove_len simp: z_svec_len_def)

definition z_wbuf_reset :: "(unit, z_wbuf_t) prog" where
  "z_wbuf_reset w = wbuf_reset_loop 0 (w\<lparr>wb_r_idx := 0, wb_w_idx := 0\<rparr>)"

definition z_wbuf_clear :: "z_wbuf_t \<Rightarrow> z_wbuf_t" where
  "z_wbuf_clear w = z_wbuf_null"

section \<open>The abstract value of a write buffer\<close>

definition wbuf_bytes :: "z_wbuf_t \<Rightarrow> byte list" where
  "wbuf_bytes w = concat (map z_iosli_to_bytes (wbuf_live w))"

definition wbuf_wf :: "z_wbuf_t \<Rightarrow> bool" where
  "wbuf_wf w \<longleftrightarrow> svec_wf (wb_ioss w) \<and> length (sv_val (wb_ioss w)) = wb_w_idx w + 1 \<and>
     wb_r_idx w \<le> wb_w_idx w \<and> list_all ios_wf (sv_val (wb_ioss w))"

text \<open>Room for \<open>n\<close> more bytes: always in a buffer that grows.\<close>

definition wbuf_fits :: "z_wbuf_t \<Rightarrow> nat \<Rightarrow> bool" where
  "wbuf_fits w n \<longleftrightarrow> wb_expansion_step w \<noteq> 0 \<or>
     n \<le> z_iosli_writable (last (sv_val (wb_ioss w)))"

text \<open>A slice into which more bytes were written, and the same of a fixed buffer.\<close>

definition ios_grown :: "z_iosli_t \<Rightarrow> z_iosli_t \<Rightarrow> bool" where
  "ios_grown ios ios' \<longleftrightarrow> ios_capacity ios' = ios_capacity ios \<and> ios_r_pos ios' = ios_r_pos ios \<and>
     ios_is_alloc ios' = ios_is_alloc ios \<and> ios_w_pos ios \<le> ios_w_pos ios' \<and>
     take (ios_w_pos ios) (ios_buf ios') = take (ios_w_pos ios) (ios_buf ios)"

lemma ios_grown_trans: "ios_grown a b \<Longrightarrow> ios_grown b c \<Longrightarrow> ios_grown a c"
  unfolding ios_grown_def by (metis min.absorb1 order_trans take_take)

lemma ios_grown_refl [simp]: "ios_grown a a"
  by (simp add: ios_grown_def)

definition wbuf_grown :: "z_wbuf_t \<Rightarrow> z_wbuf_t \<Rightarrow> bool" where
  "wbuf_grown w w' \<longleftrightarrow> butlast (sv_val (wb_ioss w')) = butlast (sv_val (wb_ioss w)) \<and>
     ios_grown (last (sv_val (wb_ioss w))) (last (sv_val (wb_ioss w')))"

text \<open>What a successful write of \<open>bs\<close> does.\<close>

definition wrote :: "byte list \<Rightarrow> z_wbuf_t \<Rightarrow> z_wbuf_t \<Rightarrow> bool" where
  "wrote bs w w' \<longleftrightarrow> wbuf_wf w' \<and> wbuf_bytes w' = wbuf_bytes w @ bs \<and>
     wb_expansion_step w' = wb_expansion_step w \<and> wb_r_idx w' = wb_r_idx w \<and>
     (\<forall>n. wbuf_fits w' n = wbuf_fits w (length bs + n)) \<and>
     (wb_expansion_step w = 0 \<longrightarrow> wbuf_grown w w')"

lemma wrote_trans: "wrote as w w' \<Longrightarrow> wrote bs w' w'' \<Longrightarrow> wrote (as @ bs) w w''"
  by (auto simp: wrote_def add.assoc wbuf_grown_def intro: ios_grown_trans)

lemma wrote_Nil: "wbuf_wf w \<Longrightarrow> wrote [] w w"
  by (simp add: wrote_def wbuf_grown_def)

text \<open>A write buffer taken apart at its last slice.\<close>

definition wslots :: "z_wbuf_t \<Rightarrow> z_iosli_t list \<Rightarrow> z_wbuf_t" where
  "wslots w xs = w\<lparr>wb_ioss := (wb_ioss w)\<lparr>sv_val := xs\<rparr>\<rparr>"

lemma wslots_sel [simp]:
  "wb_r_idx (wslots w xs) = wb_r_idx w" "wb_w_idx (wslots w xs) = wb_w_idx w"
  "wb_expansion_step (wslots w xs) = wb_expansion_step w"
  "sv_val (wb_ioss (wslots w xs)) = xs"
  "sv_capacity (wb_ioss (wslots w xs)) = sv_capacity (wb_ioss w)"
  by (simp_all add: wslots_def)

definition wsplit :: "z_wbuf_t \<Rightarrow> z_iosli_t list \<Rightarrow> z_iosli_t \<Rightarrow> bool" where
  "wsplit w xs ios \<longleftrightarrow> sv_val (wb_ioss w) = xs @ [ios] \<and> wb_w_idx w = length xs \<and>
     length xs < sv_capacity (wb_ioss w) \<and>
     wb_r_idx w \<le> length xs \<and> list_all ios_wf xs \<and> ios_wf ios"

lemma wbuf_wf_split: "wbuf_wf w \<Longrightarrow> \<exists>xs ios. wsplit w xs ios"
  by (cases "sv_val (wb_ioss w)" rule: rev_cases)
     (auto simp: wbuf_wf_def wsplit_def svec_wf_def)

lemma wsplit_wf: "wsplit w xs ios \<Longrightarrow> wbuf_wf w"
  by (auto simp: wbuf_wf_def wsplit_def svec_wf_def)

lemma wsplit_vals: "wsplit w xs ios \<Longrightarrow> sv_val (wb_ioss w) = xs @ [ios]"
  by (simp add: wsplit_def)

lemma wsplit_get: "wsplit w xs ios \<Longrightarrow> z_wbuf_get_iosli w (wb_w_idx w) = Some ios"
  by (simp add: wsplit_def z_wbuf_get_iosli_def z_svec_get_def z_svec_len_def)

lemma wsplit_fits:
  "wsplit w xs ios \<Longrightarrow> wbuf_fits w n \<longleftrightarrow> wb_expansion_step w \<noteq> 0 \<or> n \<le> z_iosli_writable ios"
  by (simp add: wsplit_def wbuf_fits_def)

lemma wsplit_bytes:
  "wsplit w xs ios \<Longrightarrow>
   wbuf_bytes w = concat (map z_iosli_to_bytes (drop (wb_r_idx w) xs)) @ z_iosli_to_bytes ios"
  by (simp add: wsplit_def wbuf_bytes_def wbuf_live_def)

lemma wsplit_on_iosli:
  "wsplit w xs ios \<Longrightarrow> p ios = Ok x ios' \<Longrightarrow>
   on_iosli (wb_w_idx w) p w = Ok x (wslots w (xs @ [ios']))"
  by (simp add: on_iosli_def wsplit_get Let_def wslots_def)
     (simp add: wsplit_def)

lemma wsplit_slots: "wsplit w xs ios \<Longrightarrow> ios_wf ios' \<Longrightarrow> wsplit (wslots w (xs @ [ios'])) xs ios'"
  by (simp add: wsplit_def)

lemma wsplit_add:
  assumes "wsplit w xs ios" "ios_wf ios'"
  shows "\<exists>w'. z_wbuf_add_iosli ios' w = Ok () w' \<and> wsplit w' (xs @ [ios]) ios' \<and>
    wb_expansion_step w' = wb_expansion_step w \<and> wb_r_idx w' = wb_r_idx w"
  using assms by (auto simp: z_wbuf_add_iosli_def z_svec_append_eq wsplit_def)

text \<open>Writing into one slice.\<close>

lemma ios_write_bytes_ok:
  assumes "ios_wf ios" "len \<le> z_iosli_writable ios" "offset + len \<le> length bs"
  shows "\<exists>ios'. z_iosli_write_bytes bs offset len ios = Ok () ios' \<and> ios_wf ios' \<and>
    z_iosli_to_bytes ios' = z_iosli_to_bytes ios @ take len (drop offset bs) \<and>
    z_iosli_writable ios' + len = z_iosli_writable ios \<and> ios_grown ios ios'"
proof -
  define c where "c = take len (drop offset bs)"
  have [simp]: "length c = len" using assms(3) by (simp add: c_def)
  have "z_iosli_write_bytes bs offset len ios =
      Ok () (ios\<lparr>ios_buf := overwrite (ios_w_pos ios) c (ios_buf ios), ios_w_pos := ios_w_pos ios + len\<rparr>)"
    using assms by (auto simp: z_iosli_write_bytes_def c_def ios_wf_def z_iosli_writable_def)
  then show ?thesis
    using assms window_overwrite [of "ios_r_pos ios" "ios_w_pos ios" "ios_buf ios" c]
    unfolding c_def [symmetric]
    by (auto simp: ios_wf_def z_iosli_to_bytes_def z_iosli_readable_def z_iosli_writable_def
        ios_grown_def)
qed

lemma ios_write_ok:
  assumes "ios_wf ios" "z_iosli_can_write ios"
  shows "\<exists>ios'. z_iosli_write b ios = Ok () ios' \<and> ios_wf ios' \<and>
    z_iosli_to_bytes ios' = z_iosli_to_bytes ios @ [b] \<and>
    z_iosli_writable ios' + 1 = z_iosli_writable ios \<and> ios_grown ios ios'"
  using assms window_overwrite [of "ios_r_pos ios" "ios_w_pos ios" "ios_buf ios" "[b]"]
  by (auto simp: z_iosli_write_def z_iosli_can_write_def ios_wf_def z_iosli_to_bytes_def
      z_iosli_readable_def z_iosli_writable_def overwrite_single ios_grown_def)

lemma ios_make_wf [simp]: "ios_wf (z_iosli_make n)"
  and ios_make_bytes [simp]: "z_iosli_to_bytes (z_iosli_make n) = []"
  and ios_make_writable [simp]: "z_iosli_writable (z_iosli_make n) = n"
  by (simp_all add: ios_wf_def z_iosli_make_def z_iosli_to_bytes_def z_iosli_readable_def
      z_iosli_writable_def)

lemma wsplit_write_bytes:
  assumes w: "wsplit w xs ios" and len: "len \<le> z_iosli_writable ios" "offset + len \<le> length bs"
  shows "\<exists>w' ios'. on_iosli (wb_w_idx w) (z_iosli_write_bytes bs offset len) w = Ok () w' \<and>
    wsplit w' xs ios' \<and> wrote (take len (drop offset bs)) w w' \<and>
    z_iosli_writable ios' + len = z_iosli_writable ios"
proof -
  have ios: "ios_wf ios" using w by (simp add: wsplit_def)
  obtain ios' where ios': "z_iosli_write_bytes bs offset len ios = Ok () ios'" "ios_wf ios'"
    "z_iosli_to_bytes ios' = z_iosli_to_bytes ios @ take len (drop offset bs)"
    "z_iosli_writable ios' + len = z_iosli_writable ios" "ios_grown ios ios'"
    using ios_write_bytes_ok [OF ios len] by blast
  let ?w = "wslots w (xs @ [ios'])"
  have s: "wsplit ?w xs ios'" using wsplit_slots [OF w ios'(2)] .
  have "wrote (take len (drop offset bs)) w ?w"
    using wsplit_wf [OF s] wsplit_bytes [OF s] wsplit_bytes [OF w] ios' len
    by (auto simp: wrote_def wsplit_fits [OF s] wsplit_fits [OF w] wbuf_grown_def
        wsplit_vals [OF w])
  then show ?thesis using wsplit_on_iosli [OF w, of "z_iosli_write_bytes bs offset len", OF ios'(1)] s ios'(4) by blast
qed

lemma wsplit_add_wrote:
  assumes "wsplit w xs ios" "ios_wf ios'" "wb_expansion_step w \<noteq> 0"
  shows "\<exists>w'. z_wbuf_add_iosli ios' w = Ok () w' \<and> wsplit w' (xs @ [ios]) ios' \<and>
    wrote (z_iosli_to_bytes ios') w w'"
proof -
  obtain w' where w': "z_wbuf_add_iosli ios' w = Ok () w'" "wsplit w' (xs @ [ios]) ios'"
    "wb_expansion_step w' = wb_expansion_step w" "wb_r_idx w' = wb_r_idx w"
    using wsplit_add [OF assms(1,2)] by blast
  have "wb_r_idx w \<le> length xs" using assms(1) by (simp add: wsplit_def)
  then have "wrote (z_iosli_to_bytes ios') w w'"
    using wsplit_wf [OF w'(2)] wsplit_bytes [OF w'(2)] wsplit_bytes [OF assms(1)] assms(3) w'
    by (simp add: wrote_def wbuf_fits_def)
  then show ?thesis using w' by blast
qed

lemma take_chunk: "a \<le> l \<Longrightarrow> take a xs @ take (l - a) (drop a xs) = take l xs"
  by (metis le_add_diff_inverse take_add)

declare wbuf_write_loop.simps [simp del]

lemma wbuf_write_loop_ok:
  assumes "wsplit w xs ios" "wb_expansion_step w \<noteq> 0" "llength \<le> fuel" "loffset + llength \<le> length bs"
  shows "\<exists>w'. wbuf_write_loop fuel bs loffset llength w = Ok () w' \<and>
    wrote (take llength (drop loffset bs)) w w'"
  using assms
proof (induction fuel arbitrary: w xs ios loffset llength)
  case 0
  then show ?case by (auto simp: wbuf_write_loop.simps [of 0] intro: wrote_Nil wsplit_wf)
next
  case (Suc fuel)
  show ?case
  proof (cases "llength = 0")
    case True
    then show ?thesis using Suc.prems
      by (auto simp: wbuf_write_loop.simps [of "Suc fuel"] intro: wrote_Nil wsplit_wf)
  next
    case False
    let ?a = "min llength (wb_expansion_step w)"
    obtain w1 where w1: "z_wbuf_add_iosli (z_iosli_make (wb_expansion_step w)) w = Ok () w1"
      "wsplit w1 (xs @ [ios]) (z_iosli_make (wb_expansion_step w))" "wrote [] w w1"
      using wsplit_add_wrote [OF Suc.prems(1) ios_make_wf Suc.prems(2)] by auto
    have a: "loffset + ?a \<le> length bs" using Suc.prems(4) by (auto simp: min_def)
    obtain w2 ios2 where w2: "on_iosli (wb_w_idx w1) (z_iosli_write_bytes bs loffset ?a) w1 = Ok () w2"
      "wsplit w2 (xs @ [ios]) ios2" "wrote (take ?a (drop loffset bs)) w1 w2"
      using wsplit_write_bytes [OF w1(2) _ a] by auto
    have step: "wb_expansion_step w2 \<noteq> 0" using w1(3) w2(3) Suc.prems(2) by (simp add: wrote_def)
    have b: "llength - ?a \<le> fuel" using Suc.prems(2,3) False by (auto simp: min_def)
    have c: "loffset + ?a + (llength - ?a) \<le> length bs" using Suc.prems(4) by simp
    obtain w3 where w3: "wbuf_write_loop fuel bs (loffset + ?a) (llength - ?a) w2 = Ok () w3"
      "wrote (take (llength - ?a) (drop (loffset + ?a) bs)) w2 w3"
      using Suc.IH [OF w2(2) step b c] by blast
    have "wrote (take llength (drop loffset bs)) w w3"
      using wrote_trans [OF wrote_trans [OF w1(3) w2(3)] w3(2)] take_chunk [of ?a llength "drop loffset bs"]
      by (simp add: add.commute)
    moreover have "wbuf_write_loop (Suc fuel) bs loffset llength w = Ok () w3"
      using False w1(1) w2(1) w3(1) by (simp add: wbuf_write_loop.simps [of "Suc fuel"] bind_ok_def wsplit_get [OF w1(2)] Let_def)
    ultimately show ?thesis by blast
  qed
qed

section \<open>Encoders\<close>

text \<open>
  An encoder appends \<open>bs\<close>: with enough room it succeeds and the unread bytes grow by
  exactly \<open>bs\<close>; without, it returns the code for no space and has written a prefix.
  It never faults.
\<close>

definition appends :: "(unit, z_wbuf_t) prog \<Rightarrow> byte list \<Rightarrow> bool" where
  "appends e bs \<longleftrightarrow> (\<forall>w. wbuf_wf w \<longrightarrow>
     (if wbuf_fits w (length bs) then \<exists>w'. e w = Ok () w' \<and> wrote bs w w'
      else \<exists>w' pre. e w = Err Z_ERR_TRANSPORT_NO_SPACE w' \<and> prefix pre bs \<and> wrote pre w w'))"

lemma appends_ok:
  "appends e bs \<Longrightarrow> wbuf_wf w \<Longrightarrow> wbuf_fits w (length bs) \<Longrightarrow> \<exists>w'. e w = Ok () w' \<and> wrote bs w w'"
  by (simp add: appends_def)

lemma appends_err:
  "appends e bs \<Longrightarrow> wbuf_wf w \<Longrightarrow> \<not> wbuf_fits w (length bs) \<Longrightarrow>
   \<exists>w' pre. e w = Err Z_ERR_TRANSPORT_NO_SPACE w' \<and> prefix pre bs \<and> wrote pre w w'"
  by (auto simp: appends_def dest!: spec [of _ w])

named_theorems appends_intros \<open>rules that compute what an encoder appends\<close>

lemma appends_ret [appends_intros]: "appends (ret ()) []"
  by (auto simp: appends_def ret_def wbuf_fits_def intro: wrote_Nil)

lemma wbuf_fits_mono: "wbuf_fits w n \<Longrightarrow> m \<le> n \<Longrightarrow> wbuf_fits w m"
  by (auto simp: wbuf_fits_def)

lemma appends_then [appends_intros]:
  assumes "appends p as" "appends q bs"
  shows "appends (then_do p q) (as @ bs)"
  unfolding appends_def
proof (intro allI impI)
  fix w assume wf: "wbuf_wf w"
  let ?goal = "if wbuf_fits w (length (as @ bs)) then \<exists>w'. then_do p q w = Ok () w' \<and> wrote (as @ bs) w w'
      else \<exists>w' pre. then_do p q w = Err Z_ERR_TRANSPORT_NO_SPACE w' \<and> prefix pre (as @ bs) \<and> wrote pre w w'"
  show ?goal
  proof (cases "wbuf_fits w (length as)")
    case False
    then obtain w' pre where "p w = Err Z_ERR_TRANSPORT_NO_SPACE w'" "prefix pre as" "wrote pre w w'"
      using appends_err [OF assms(1) wf] by blast
    moreover have "\<not> wbuf_fits w (length (as @ bs))" using False wbuf_fits_mono [of w] by auto
    ultimately show ?thesis by (auto simp: then_do_def bind_ok_def intro: prefix_prefix)
  next
    case True
    then obtain w1 where w1: "p w = Ok () w1" "wrote as w w1" using appends_ok [OF assms(1) wf] by blast
    then have wf1: "wbuf_wf w1" and fits: "wbuf_fits w1 (length bs) = wbuf_fits w (length (as @ bs))"
      by (auto simp: wrote_def)
    show ?thesis
    proof (cases "wbuf_fits w1 (length bs)")
      case True
      then show ?thesis using appends_ok [OF assms(2) wf1] w1 fits wrote_trans
        by (fastforce simp: then_do_def bind_ok_def)
    next
      case False
      then obtain w2 pre where "q w1 = Err Z_ERR_TRANSPORT_NO_SPACE w2" "prefix pre bs" "wrote pre w1 w2"
        using appends_err [OF assms(2) wf1] by blast
      then show ?thesis using w1 fits False wrote_trans [OF w1(2)]
        by (auto simp: then_do_def bind_ok_def intro!: exI [of _ "as @ pre"])
    qed
  qed
qed

lemma appends_when [appends_intros]:
  "(b \<Longrightarrow> appends p bs) \<Longrightarrow> appends (when_do b p) (if b then bs else [])"
  by (simp add: when_do_def appends_ret)

lemma appends_if [appends_intros]:
  "(b \<Longrightarrow> appends p bs) \<Longrightarrow> (\<not> b \<Longrightarrow> appends q cs) \<Longrightarrow>
   appends (if b then p else q) (if b then bs else cs)"
  by simp

lemma appends_write [appends_intros]: "appends (z_wbuf_write b) [b]"
  unfolding appends_def
proof (intro allI impI)
  fix w assume "wbuf_wf w"
  then obtain xs ios where w: "wsplit w xs ios" using wbuf_wf_split by blast
  have put: "\<exists>w''. on_iosli (wb_w_idx w') (z_iosli_write b) w' = Ok () w'' \<and> wrote [b] w' w''"
    if w': "wsplit w' ys ios'" and can: "z_iosli_can_write ios'" for w' ys ios'
  proof -
    obtain ios2 where ios2: "z_iosli_write b ios' = Ok () ios2" "ios_wf ios2"
      "z_iosli_to_bytes ios2 = z_iosli_to_bytes ios' @ [b]"
      "z_iosli_writable ios2 + 1 = z_iosli_writable ios'" "ios_grown ios' ios2"
      using ios_write_ok [of ios' b] w' can by (auto simp: wsplit_def)
    have s: "wsplit (wslots w' (ys @ [ios2])) ys ios2" using wsplit_slots [OF w' ios2(2)] .
    have "wrote [b] w' (wslots w' (ys @ [ios2]))"
      using wsplit_wf [OF s] wsplit_bytes [OF s] wsplit_bytes [OF w'] ios2
      by (auto simp: wrote_def wsplit_fits [OF s] wsplit_fits [OF w'] wbuf_grown_def
          wsplit_vals [OF w'])
    then show ?thesis using wsplit_on_iosli [OF w', of "z_iosli_write b", OF ios2(1)] by blast
  qed
  let ?goal = "if wbuf_fits w (length [b]) then \<exists>w'. z_wbuf_write b w = Ok () w' \<and> wrote [b] w w'
      else \<exists>w' pre. z_wbuf_write b w = Err Z_ERR_TRANSPORT_NO_SPACE w' \<and> prefix pre [b] \<and> wrote pre w w'"
  show ?goal
  proof (cases "z_iosli_can_write ios")
    case True
    then have "z_wbuf_write b w = on_iosli (wb_w_idx w) (z_iosli_write b) w"
      by (simp add: z_wbuf_write_def wsplit_get [OF w])
    moreover have "wbuf_fits w 1" using True
      by (auto simp: wsplit_fits [OF w] z_iosli_can_write_def z_iosli_writable_def)
    ultimately show ?thesis using put [OF w True] by simp
  next
    case False
    have len: "z_svec_len (wb_ioss w) = Suc (wb_w_idx w)" using w by (simp add: wsplit_def z_svec_len_def)
    show ?thesis
    proof (cases "wb_expansion_step w = 0")
      case True
      then have "z_wbuf_write b w = Err Z_ERR_TRANSPORT_NO_SPACE w"
        using False len by (simp add: z_wbuf_write_def wsplit_get [OF w] fail_def bind_ok_def)
      moreover have "\<not> wbuf_fits w 1" using True False
        by (auto simp: wsplit_fits [OF w] z_iosli_can_write_def z_iosli_writable_def)
      ultimately show ?thesis using wrote_Nil [OF wsplit_wf [OF w]]
        by (auto intro!: exI [of _ "[]"])
    next
      case step: False
      obtain w1 where w1: "z_wbuf_add_iosli (z_iosli_make (wb_expansion_step w)) w = Ok () w1"
        "wsplit w1 (xs @ [ios]) (z_iosli_make (wb_expansion_step w))" "wrote [] w w1"
        using wsplit_add_wrote [OF w ios_make_wf step] by auto
      have "z_iosli_can_write (z_iosli_make (wb_expansion_step w))"
        using step by (simp add: z_iosli_can_write_def z_iosli_make_def)
      then obtain w2 where w2: "on_iosli (wb_w_idx w1) (z_iosli_write b) w1 = Ok () w2" "wrote [b] w1 w2"
        using put [OF w1(2)] by blast
      have "z_wbuf_write b w = Ok () w2" using False step len w1(1) w2(1)
        by (simp add: z_wbuf_write_def wsplit_get [OF w] bind_ok_def)
      moreover have "wbuf_fits w 1" using step by (simp add: wbuf_fits_def)
      ultimately show ?thesis using wrote_trans [OF w1(3) w2(2)] by simp
    qed
  qed
qed

lemma appends_write_bytes:
  assumes "offset + len \<le> length bs"
  shows "appends (z_wbuf_write_bytes bs offset len) (take len (drop offset bs))"
  unfolding appends_def
proof (intro allI impI)
  fix w assume "wbuf_wf w"
  then obtain xs ios where w: "wsplit w xs ios" using wbuf_wf_split by blast
  define c where "c = take len (drop offset bs)"
  have [simp]: "length c = len" using assms by (simp add: c_def)
  let ?wr = "z_iosli_writable ios"
  have "if wbuf_fits w (length c) then \<exists>w'. z_wbuf_write_bytes bs offset len w = Ok () w' \<and> wrote c w w'
      else \<exists>w' pre. z_wbuf_write_bytes bs offset len w = Err Z_ERR_TRANSPORT_NO_SPACE w' \<and>
             prefix pre c \<and> wrote pre w w'"
  proof (cases "len \<le> ?wr")
    case True
    then show ?thesis using wsplit_write_bytes [OF w True assms]
      by (auto simp: z_wbuf_write_bytes_def wsplit_get [OF w] Let_def wsplit_fits [OF w] c_def)
  next
    case False
    show ?thesis
    proof (cases "wb_expansion_step w = 0")
      case True
      then show ?thesis using False wrote_Nil [OF wsplit_wf [OF w]]
        by (auto simp: z_wbuf_write_bytes_def wsplit_get [OF w] Let_def wsplit_fits [OF w]
            intro!: exI [of _ "[]"])
    next
      case step: False
      have "offset + ?wr \<le> length bs" using False assms by simp
      then obtain w1 ios1 where w1: "on_iosli (wb_w_idx w) (z_iosli_write_bytes bs offset ?wr) w = Ok () w1"
        "wsplit w1 xs ios1" "wrote (take ?wr (drop offset bs)) w w1"
        using wsplit_write_bytes [OF w order.refl] by blast
      have step1: "wb_expansion_step w1 \<noteq> 0" using w1(3) step by (simp add: wrote_def)
      have "(offset + ?wr) + (len - ?wr) \<le> length bs" using False assms by simp
      from wbuf_write_loop_ok [OF w1(2) step1 order.refl this]
      obtain w2 where w2: "wbuf_write_loop (len - ?wr) bs (offset + ?wr) (len - ?wr) w1 = Ok () w2"
        "wrote (take (len - ?wr) (drop (offset + ?wr) bs)) w1 w2" by blast
      have "wrote c w w2" using wrote_trans [OF w1(3) w2(2)] take_chunk [of ?wr len "drop offset bs"] False
        by (simp add: c_def add.commute)
      moreover have "z_wbuf_write_bytes bs offset len w = Ok () w2"
        using False step w1(1) w2(1)
        by (simp add: z_wbuf_write_bytes_def wsplit_get [OF w] Let_def bind_ok_def)
      ultimately show ?thesis using step by (auto simp: wbuf_fits_def)
    qed
  qed
  then show "if wbuf_fits w (length (take len (drop offset bs)))
      then \<exists>w'. z_wbuf_write_bytes bs offset len w = Ok () w' \<and> wrote (take len (drop offset bs)) w w'
      else \<exists>w' pre. z_wbuf_write_bytes bs offset len w = Err Z_ERR_TRANSPORT_NO_SPACE w' \<and>
             prefix pre (take len (drop offset bs)) \<and> wrote pre w w'"
    unfolding c_def .
qed

lemma appends_write_all: "appends (z_wbuf_write_bytes bs 0 (length bs)) bs"
  using appends_write_bytes [of 0 "length bs" bs] by simp

text \<open>
  Wrapping does not copy: the caller's bytes become a slice. On a buffer that grows it has
  the same abstract effect as writing them.
\<close>

lemma wbuf_wrap_bytes_ok:
  assumes wf: "wbuf_wf w" and step: "wb_expansion_step w \<noteq> 0"
  shows "\<exists>w'. z_wbuf_wrap_bytes bs 0 (length bs) w = Ok () w' \<and> wrote bs w w'"
proof -
  obtain xs ios where w: "wsplit w xs ios" using wf wbuf_wf_split by blast
  let ?c = "ios\<lparr>ios_capacity := ios_w_pos ios\<rparr>"
  let ?b = "\<lparr>ios_r_pos = 0, ios_w_pos = length bs, ios_capacity = length bs, ios_buf = bs, ios_is_alloc = False\<rparr>"
  let ?t = "\<lparr>ios_r_pos = 0, ios_w_pos = 0, ios_capacity = z_iosli_writable ios,
    ios_buf = drop (ios_w_pos ios) (ios_buf ios), ios_is_alloc = False\<rparr>"
  have ios: "ios_wf ios" using w by (simp add: wsplit_def)
  have c: "ios_wf ?c" "z_iosli_to_bytes ?c = z_iosli_to_bytes ios"
    and b: "ios_wf ?b" "z_iosli_to_bytes ?b = bs" and t: "ios_wf ?t" "z_iosli_to_bytes ?t = []"
    using ios by (auto simp: ios_wf_def z_iosli_to_bytes_def z_iosli_readable_def z_iosli_writable_def)
  let ?w1 = "wslots w (xs @ [?c])"
  have w1: "wsplit ?w1 xs ?c" using wsplit_slots [OF w c(1)] .
  have e1: "on_iosli (wb_w_idx w) (\<lambda>ios. Ok () (ios\<lparr>ios_capacity := ios_w_pos ios\<rparr>)) w = Ok () ?w1"
    using wsplit_on_iosli [OF w, of "\<lambda>ios. Ok () (ios\<lparr>ios_capacity := ios_w_pos ios\<rparr>)", OF refl] .
  have r1: "wrote [] w ?w1" using wsplit_wf [OF w1] wsplit_bytes [OF w1] wsplit_bytes [OF w] c step
    by (simp add: wrote_def wbuf_fits_def)
  have step1: "wb_expansion_step ?w1 \<noteq> 0" using step by simp
  obtain w2 where w2: "z_wbuf_add_iosli ?b ?w1 = Ok () w2" "wsplit w2 (xs @ [?c]) ?b" "wrote bs ?w1 w2"
    using wsplit_add_wrote [OF w1 b(1) step1] b(2) by auto
  have step2: "wb_expansion_step w2 \<noteq> 0" using w2(3) step by (simp add: wrote_def)
  obtain w3 where w3: "z_wbuf_add_iosli ?t w2 = Ok () w3" "wrote [] w2 w3"
    using wsplit_add_wrote [OF w2(2) t(1) step2] t(2) by auto
  have g: "z_wbuf_get_iosli w2 (wb_w_idx w2 - 1) = Some ?c" using w2(2)
    by (simp add: wsplit_def z_wbuf_get_iosli_def z_svec_get_def z_svec_len_def nth_append)
  have "z_wbuf_wrap_bytes bs 0 (length bs) w = Ok () w3"
    using e1 w2(1) w3(1) g
    by (simp add: z_wbuf_wrap_bytes_def wsplit_get [OF w] Let_def bind_ok_def z_iosli_wrap_def)
  then show ?thesis using wrote_trans [OF wrote_trans [OF r1 w2(3)] w3(2)] by auto
qed

section \<open>Buffers made, read back and rolled back\<close>

lemma z_wbuf_make_wf [simp]: "wbuf_wf (z_wbuf_make n e)"
  and z_wbuf_make_bytes [simp]: "wbuf_bytes (z_wbuf_make n e) = []"
  and z_wbuf_make_fits: "wbuf_fits (z_wbuf_make n e) k \<longleftrightarrow> e \<and> n \<noteq> 0 \<or> k \<le> n"
  and z_wbuf_make_step [simp]: "wb_expansion_step (z_wbuf_make n e) = (if e then n else 0)"
  by (auto simp: z_wbuf_make_def Let_def z_svec_append_eq z_svec_make_def z_svec_null_def wbuf_wf_def
      svec_wf_def wbuf_bytes_def wbuf_live_def wbuf_fits_def)

lemma wbuf_len_bytes: "wbuf_wf w \<Longrightarrow> z_wbuf_len w = length (wbuf_bytes w)"
proof -
  have "ios_wf i \<Longrightarrow> length (z_iosli_to_bytes i) = z_iosli_readable i" for i
    by (auto simp: z_iosli_to_bytes_def ios_wf_def z_iosli_readable_def)
  moreover assume "wbuf_wf w"
  then have "\<forall>i \<in> set (wbuf_live w). ios_wf i"
    by (auto simp: wbuf_wf_def wbuf_live_def list_all_iff dest!: in_set_takeD in_set_dropD)
  ultimately show ?thesis
    by (auto simp: z_wbuf_len_def wbuf_bytes_def length_concat comp_def intro!: arg_cong [of _ _ sum_list])
qed

definition zbuf_filled :: "byte list \<Rightarrow> nat \<Rightarrow> z_zbuf_t \<Rightarrow> bool" where
  "zbuf_filled bs n z \<longleftrightarrow> zbuf_wf z \<and> zbuf_bytes z = bs \<and> ios_r_pos (zb_ios z) = 0 \<and>
     z_iosli_writable (zb_ios z) = n"

lemma wbuf_to_zbuf_loop_ok:
  assumes "\<forall>i \<in> set is. \<exists>ios. z_wbuf_get_iosli w i = Some ios \<and> ios_wf ios"
    and "zbuf_filled bs (sum_list (map (\<lambda>i. z_iosli_readable (the (z_wbuf_get_iosli w i))) is)) z"
  shows "\<exists>z'. wbuf_to_zbuf_loop w is z = Ok () z' \<and>
    zbuf_filled (bs @ concat (map (\<lambda>i. z_iosli_to_bytes (the (z_wbuf_get_iosli w i))) is)) 0 z'"
  using assms
proof (induction "is" arbitrary: bs z)
  case Nil
  then show ?case by (simp add: ret_def)
next
  case (Cons i "is")
  then obtain ios where ios: "z_wbuf_get_iosli w i = Some ios" "ios_wf ios" by auto
  have z: "ios_wf (zb_ios z)" "z_iosli_readable ios \<le> z_iosli_writable (zb_ios z)"
    "zbuf_bytes z = bs" "ios_r_pos (zb_ios z) = 0" using Cons.prems ios by (auto simp: zbuf_filled_def zbuf_wf_def)
  have "ios_r_pos ios + z_iosli_readable ios \<le> length (ios_buf ios)"
    using ios(2) by (auto simp: ios_wf_def z_iosli_readable_def)
  from ios_write_bytes_ok [OF z(1,2) this]
  obtain ios' where ios': "z_iosli_write_bytes (ios_buf ios) (ios_r_pos ios) (z_iosli_readable ios) (zb_ios z) = Ok () ios'"
    "ios_wf ios'" "z_iosli_to_bytes ios' = zbuf_bytes z @ z_iosli_to_bytes ios"
    "z_iosli_writable ios' + z_iosli_readable ios = z_iosli_writable (zb_ios z)"
    "ios_grown (zb_ios z) ios'"
    by (auto simp: zbuf_bytes_def z_iosli_to_bytes_def)
  let ?z = "z\<lparr>zb_ios := ios'\<rparr>"
  have "zbuf_filled (bs @ z_iosli_to_bytes ios)
     (sum_list (map (\<lambda>i. z_iosli_readable (the (z_wbuf_get_iosli w i))) is)) ?z"
    using Cons.prems ios ios' by (auto simp: zbuf_filled_def zbuf_wf_def zbuf_bytes_def ios_grown_def)
  from Cons.IH [OF _ this] Cons.prems(1)
  obtain z' where "wbuf_to_zbuf_loop w is ?z = Ok () z'"
    "zbuf_filled ((bs @ z_iosli_to_bytes ios) @ concat (map (\<lambda>i. z_iosli_to_bytes (the (z_wbuf_get_iosli w i))) is)) 0 z'"
    by auto
  then show ?case using ios ios'(1)
    by (auto simp: then_do_def bind_ok_def on_ios_def)
qed

lemma wbuf_to_zbuf_ok:
  assumes "wbuf_wf w"
  shows "\<exists>z. z_wbuf_to_zbuf w = Ok () z \<and> zbuf_wf z \<and> zbuf_bytes z = wbuf_bytes w"
proof -
  let ?is = "[wb_r_idx w..<Suc (wb_w_idx w)]"
  have len: "length (sv_val (wb_ioss w)) = Suc (wb_w_idx w)" using assms by (simp add: wbuf_wf_def)
  have get: "z_wbuf_get_iosli w i = Some (sv_val (wb_ioss w) ! i)" if "i \<le> wb_w_idx w" for i
    using that len by (simp add: z_wbuf_get_iosli_def z_svec_get_def z_svec_len_def)
  have live: "map (\<lambda>i. the (z_wbuf_get_iosli w i)) ?is = wbuf_live w"
  proof -
    have "map (\<lambda>i. the (z_wbuf_get_iosli w i)) ?is = map ((!) (sv_val (wb_ioss w))) ?is"
      using get by auto
    also have "\<dots> = wbuf_live w"
      using len by (intro nth_equalityI) (auto simp: wbuf_live_def simp del: upt_Suc)
    finally show ?thesis .
  qed
  have sum: "sum_list (map (\<lambda>i. z_iosli_readable (the (z_wbuf_get_iosli w i))) ?is) = z_wbuf_len w"
    and con: "concat (map (\<lambda>i. z_iosli_to_bytes (the (z_wbuf_get_iosli w i))) ?is) = wbuf_bytes w"
    unfolding z_wbuf_len_def wbuf_bytes_def live [symmetric] map_map comp_def by simp_all
  have all: "\<forall>i \<in> set ?is. \<exists>ios. z_wbuf_get_iosli w i = Some ios \<and> ios_wf ios"
    using get assms len by (auto simp: wbuf_wf_def list_all_length)
  have "zbuf_filled [] (z_wbuf_len w) (z_zbuf_make (z_wbuf_len w))"
    by (auto simp: zbuf_filled_def zbuf_wf_def zbuf_bytes_def z_zbuf_make_def z_iosli_make_def ios_wf_def
        z_iosli_to_bytes_def z_iosli_readable_def z_iosli_writable_def)
  then have "\<exists>z'. wbuf_to_zbuf_loop w ?is (z_zbuf_make (z_wbuf_len w)) = Ok () z' \<and>
      zbuf_filled ([] @ wbuf_bytes w) 0 z'"
    using wbuf_to_zbuf_loop_ok [OF all, unfolded sum con] by blast
  then show ?thesis unfolding z_wbuf_to_zbuf_def by (auto simp: zbuf_filled_def)
qed

text \<open>
  A caller that remembers the write position of a fixed buffer can undo what was written
  since (the transmission of a batch does, when a message does not fit).
\<close>

lemma wbuf_rollback:
  assumes w: "wbuf_wf w" "sv_val (wb_ioss w) = [ios]" "wb_expansion_step w = 0" and wr: "wrote bs w w'"
  shows "\<exists>pos w''. z_wbuf_get_wpos w = Some pos \<and> z_wbuf_set_wpos pos w' = Ok () w'' \<and>
    wbuf_wf w'' \<and> wbuf_bytes w'' = wbuf_bytes w"
proof -
  have idx: "wb_w_idx w = 0" "wb_r_idx w = 0" using w by (simp_all add: wbuf_wf_def)
  have len': "length (sv_val (wb_ioss w')) = Suc (wb_w_idx w')" and r': "wb_r_idx w' = 0"
    and wf': "list_all ios_wf (sv_val (wb_ioss w'))"
    and b: "butlast (sv_val (wb_ioss w')) = []" and g: "ios_grown ios (last (sv_val (wb_ioss w')))"
    using wr w(2,3) idx by (auto simp: wrote_def wbuf_wf_def wbuf_grown_def)
  obtain ios' where ios': "sv_val (wb_ioss w') = [ios']" using len' b
    by (cases "sv_val (wb_ioss w')" rule: rev_cases) auto
  have grown: "ios_grown ios ios'" and wfi: "ios_wf ios'" "ios_wf ios" using g ios' wf' w
    by (simp_all add: wbuf_wf_def)
  let ?i = "ios'\<lparr>ios_w_pos := ios_w_pos ios\<rparr>"
  let ?w = "wslots (w'\<lparr>wb_w_idx := 0\<rparr>) [?i]"
  have get: "z_wbuf_get_wpos w = Some (ios_w_pos ios)" using idx w(2)
    by (simp add: z_wbuf_get_wpos_def z_wbuf_get_iosli_def z_svec_get_def z_svec_len_def)
  have "z_wbuf_set_wpos (ios_w_pos ios) w' = Ok () ?w"
    using ios' grown wfi by (auto simp: z_wbuf_set_wpos_def wbuf_set_wpos_loop.simps [of _ 0] z_svec_len_def
        z_wbuf_get_iosli_def z_svec_get_def on_iosli_def ios_grown_def ios_wf_def wslots_def)
  moreover have "wbuf_wf ?w" using wr grown wfi r'
    by (auto simp: wbuf_wf_def wrote_def svec_wf_def ios_grown_def ios_wf_def ios')
  moreover have "z_iosli_to_bytes ?i = z_iosli_to_bytes ios" using grown wfi
    by (auto simp: z_iosli_to_bytes_def z_iosli_readable_def ios_grown_def ios_wf_def take_drop)
  then have "wbuf_bytes ?w = wbuf_bytes w" using w(2) idx r' by (simp add: wbuf_bytes_def wbuf_live_def)
  ultimately show ?thesis using get by blast
qed

section \<open>Siphoning\<close>

lemma wbuf_live_Cons:
  "wb_r_idx w \<le> wb_w_idx w \<Longrightarrow> wb_w_idx w < length (sv_val (wb_ioss w)) \<Longrightarrow>
   wbuf_live w = sv_val (wb_ioss w) ! wb_r_idx w # wbuf_live (w\<lparr>wb_r_idx := Suc (wb_r_idx w)\<rparr>)"
  by (simp add: wbuf_live_def Cons_nth_drop_Suc [symmetric] Suc_diff_le)

lemma ios_read_bytes_ok:
  assumes "ios_wf ios" "n \<le> z_iosli_readable ios"
  shows "\<exists>ios'. z_iosli_read_bytes n ios = Ok (take n (z_iosli_to_bytes ios)) ios' \<and> ios_wf ios' \<and>
     z_iosli_to_bytes ios' = drop n (z_iosli_to_bytes ios)"
  using assms by (auto simp: z_iosli_read_bytes_def ios_wf_def z_iosli_to_bytes_def z_iosli_readable_def
      drop_window take_window)

definition wbuf_src :: "z_wbuf_t \<Rightarrow> bool" where
  "wbuf_src w \<longleftrightarrow> svec_wf (wb_ioss w) \<and> length (sv_val (wb_ioss w)) = Suc (wb_w_idx w) \<and>
     list_all ios_wf (sv_val (wb_ioss w))"

lemma wbuf_src_read:
  assumes s: "wbuf_src w" "wb_r_idx w \<le> wb_w_idx w" and ios: "z_wbuf_get_iosli w (wb_r_idx w) = Some ios"
    and n: "n \<le> z_iosli_readable ios"
  shows "\<exists>w'. on_iosli (wb_r_idx w) (z_iosli_read_bytes n) w = Ok (take n (wbuf_bytes w)) w' \<and>
    wbuf_src w' \<and> wbuf_bytes w' = drop n (wbuf_bytes w) \<and> wb_r_idx w' \<le> wb_w_idx w'"
proof -
  have v: "ios = sv_val (wb_ioss w) ! wb_r_idx w" "wb_r_idx w < length (sv_val (wb_ioss w))" "ios_wf ios"
    using s ios by (auto simp: z_wbuf_get_iosli_def z_svec_get_def z_svec_len_def wbuf_src_def
        list_all_length split: if_splits)
  obtain ios' where ios': "z_iosli_read_bytes n ios = Ok (take n (z_iosli_to_bytes ios)) ios'" "ios_wf ios'"
    "z_iosli_to_bytes ios' = drop n (z_iosli_to_bytes ios)"
    using ios_read_bytes_ok [OF v(3) n] by blast
  let ?w = "wslots w ((sv_val (wb_ioss w))[wb_r_idx w := ios'])"
  have len: "n \<le> length (z_iosli_to_bytes ios)" using n v(3)
    by (auto simp: z_iosli_to_bytes_def z_iosli_readable_def ios_wf_def)
  have cons: "wbuf_bytes w = z_iosli_to_bytes ios @ wbuf_bytes (w\<lparr>wb_r_idx := Suc (wb_r_idx w)\<rparr>)"
    using wbuf_live_Cons [of w] s v(1) by (simp add: wbuf_bytes_def wbuf_src_def)
  have "wbuf_bytes ?w = z_iosli_to_bytes ios' @ wbuf_bytes (w\<lparr>wb_r_idx := Suc (wb_r_idx w)\<rparr>)"
    using wbuf_live_Cons [of ?w] s v(2) by (simp add: wbuf_bytes_def wbuf_src_def wbuf_live_def drop_update_cancel)
  then have "wbuf_bytes ?w = drop n (wbuf_bytes w)" using cons ios'(3) len by simp
  moreover have "wbuf_src ?w" using s(1) ios'(2) v(2) by (auto simp: wbuf_src_def svec_wf_def list_all_length nth_list_update)
  moreover have "on_iosli (wb_r_idx w) (z_iosli_read_bytes n) w = Ok (take n (wbuf_bytes w)) ?w"
    using ios ios'(1) cons len by (simp add: on_iosli_def Let_def wslots_def)
  ultimately show ?thesis using s(2) by auto
qed

lemma wbuf_src_skip:
  assumes "wbuf_src w" "wb_r_idx w \<le> wb_w_idx w" "z_wbuf_get_iosli w (wb_r_idx w) = Some ios"
    "z_iosli_readable ios = 0"
  shows "wbuf_src (w\<lparr>wb_r_idx := Suc (wb_r_idx w)\<rparr>)"
    and "wbuf_bytes (w\<lparr>wb_r_idx := Suc (wb_r_idx w)\<rparr>) = wbuf_bytes w"
proof -
  have "ios = sv_val (wb_ioss w) ! wb_r_idx w"
    using assms by (auto simp: z_wbuf_get_iosli_def z_svec_get_def split: if_splits)
  then show "wbuf_bytes (w\<lparr>wb_r_idx := Suc (wb_r_idx w)\<rparr>) = wbuf_bytes w"
    using wbuf_live_Cons [of w] assms by (simp add: wbuf_bytes_def wbuf_src_def z_iosli_to_bytes_def)
qed (use assms(1) in \<open>simp add: wbuf_src_def\<close>)

lemma wbuf_src_empty: "wb_w_idx w < wb_r_idx w \<Longrightarrow> wbuf_bytes w = []"
  by (simp add: wbuf_bytes_def wbuf_live_def)

declare wbuf_siphon_loop.simps [simp del] z_wbuf_read_bytes.simps [simp del]

lemma wbuf_read_bytes_ok:
  assumes "wbuf_src w" "0 < n" "n \<le> length (wbuf_bytes w)"
  shows "\<exists>w'. z_wbuf_read_bytes n w = Ok (take n (wbuf_bytes w)) w' \<and> wbuf_src w' \<and>
    wbuf_bytes w' = drop n (wbuf_bytes w) \<and> wb_r_idx w' \<le> wb_w_idx w'"
  using assms
proof (induction n w rule: z_wbuf_read_bytes.induct)
  case (1 n w)
  have r: "wb_r_idx w \<le> wb_w_idx w" using 1(4,5) wbuf_src_empty [of w] by fastforce
  then obtain ios where ios: "z_wbuf_get_iosli w (wb_r_idx w) = Some ios" using 1(3)
    by (auto simp: z_wbuf_get_iosli_def z_svec_get_def z_svec_len_def wbuf_src_def)
  show ?case
  proof (cases "0 < z_iosli_readable ios")
    case False
    then have rd: "z_iosli_readable ios = 0" by simp
    show ?thesis using 1(2) [OF r ios False refl] 1(3-5) wbuf_src_skip [OF 1(3) r ios rd] r ios False
      by (simp add: z_wbuf_read_bytes.simps [of n] Let_def)
  next
    case True
    define k where "k = (if z_iosli_readable ios \<le> n then z_iosli_readable ios else n)"
    have "k \<le> z_iosli_readable ios" by (simp add: k_def)
    from wbuf_src_read [OF 1(3) r ios this]
    obtain w1 where w1: "on_iosli (wb_r_idx w) (z_iosli_read_bytes k) w = Ok (take k (wbuf_bytes w)) w1"
      "wbuf_src w1" "wbuf_bytes w1 = drop k (wbuf_bytes w)" "wb_r_idx w1 \<le> wb_w_idx w1" by blast
    show ?thesis
    proof (cases "0 < n - k")
      case False
      then have "k = n" by (simp add: k_def split: if_splits)
      then show ?thesis using w1 r ios True
        by (simp add: z_wbuf_read_bytes.simps [of n] Let_def k_def [symmetric])
    next
      case more: True
      have "n - k \<le> length (wbuf_bytes w1)" using w1(3) 1(5) by simp
      from 1(1) [OF r ios True k_def w1(1) more w1(2) more this]
      obtain w2 where w2: "z_wbuf_read_bytes (n - k) w1 = Ok (take (n - k) (wbuf_bytes w1)) w2" "wbuf_src w2"
        "wbuf_bytes w2 = drop (n - k) (wbuf_bytes w1)" "wb_r_idx w2 \<le> wb_w_idx w2" by blast
      have "take n (wbuf_bytes w) = take k (wbuf_bytes w) @ take (n - k) (wbuf_bytes w1)"
        using w1(3) take_chunk [of k n "wbuf_bytes w"] more by simp
      then show ?thesis using w1 w2 r ios True more
        by (simp add: z_wbuf_read_bytes.simps [of n] Let_def k_def [symmetric] ret_def bind_ok_def add.commute)
    qed
  qed
qed

lemma wbuf_siphon_loop_ok:
  assumes "wbuf_src src" "wsplit dst xs wios" "0 < n" "n \<le> length (wbuf_bytes src)"
    "n \<le> z_iosli_writable wios"
  shows "\<exists>dst' src'. wbuf_siphon_loop n (dst, src) = Ok () (dst', src') \<and>
    wrote (take n (wbuf_bytes src)) dst dst' \<and> wbuf_src src' \<and> wb_r_idx src' \<le> wb_w_idx src' \<and>
    wbuf_bytes src' = drop n (wbuf_bytes src)"
  using assms
proof (induction "n + (Suc (wb_w_idx src) - wb_r_idx src)" arbitrary: n dst src wios rule: less_induct)
  case less
  note IH = less.hyps and prems = less.prems
  have r: "wb_r_idx src \<le> wb_w_idx src" using prems(3,4) wbuf_src_empty [of src] by fastforce
  then obtain ios where ios: "z_wbuf_get_iosli src (wb_r_idx src) = Some ios" using prems(1)
    by (auto simp: z_wbuf_get_iosli_def z_svec_get_def z_svec_len_def wbuf_src_def)
  show ?case
  proof (cases "0 < z_iosli_readable ios")
    case False
    then have rd: "z_iosli_readable ios = 0" by simp
    let ?src = "src\<lparr>wb_r_idx := Suc (wb_r_idx src)\<rparr>"
    have "\<exists>dst' src'. wbuf_siphon_loop n (dst, ?src) = Ok () (dst', src') \<and>
      wrote (take n (wbuf_bytes ?src)) dst dst' \<and> wbuf_src src' \<and> wb_r_idx src' \<le> wb_w_idx src' \<and>
      wbuf_bytes src' = drop n (wbuf_bytes ?src)"
      using IH [of n ?src dst wios] prems wbuf_src_skip [OF prems(1) r ios rd] r ios False
      by simp
    then show ?thesis using wbuf_src_skip [OF prems(1) r ios rd] r ios False prems(3)
      by (simp add: wbuf_siphon_loop.simps [of n] Let_def)
  next
    case True
    define k where "k = (if z_iosli_readable ios \<le> n then z_iosli_readable ios else n)"
    have k: "k \<le> z_iosli_readable ios" "k \<le> n" by (simp_all add: k_def)
    from wbuf_src_read [OF prems(1) r ios k(1)]
    obtain src1 where src1: "on_iosli (wb_r_idx src) (z_iosli_read_bytes k) src = Ok (take k (wbuf_bytes src)) src1"
      "wbuf_src src1" "wbuf_bytes src1 = drop k (wbuf_bytes src)" "wb_r_idx src1 \<le> wb_w_idx src1" by blast
    have len: "0 + k \<le> length (take k (wbuf_bytes src))" "k \<le> z_iosli_writable wios" using k prems(4,5) by simp_all
    from wsplit_write_bytes [OF prems(2) len(2,1)]
    obtain dst1 wios1 where dst1: "on_iosli (wb_w_idx dst) (z_iosli_write_bytes (take k (wbuf_bytes src)) 0 k) dst = Ok () dst1"
      "wsplit dst1 xs wios1" "wrote (take k (wbuf_bytes src)) dst dst1"
      "z_iosli_writable wios1 + k = z_iosli_writable wios" by auto
    show ?thesis
    proof (cases "0 < n - k")
      case False
      then have "k = n" by (simp add: k_def split: if_splits)
      then show ?thesis using src1 dst1 r ios True
        by (simp add: wbuf_siphon_loop.simps [of n] Let_def k_def [symmetric])
    next
      case more: True
      have pre: "n - k \<le> length (wbuf_bytes src1)" "n - k \<le> z_iosli_writable wios1"
        using src1(3) dst1(4) prems(4,5) by simp_all
      have dec: "n - k + (Suc (wb_w_idx src1) - wb_r_idx src1) < n + (Suc (wb_w_idx src) - wb_r_idx src)"
        using on_iosli_w_idx [OF src1(1)] True more by (auto simp: k_def split: if_splits)
      obtain dst2 src2 where w2: "wbuf_siphon_loop (n - k) (dst1, src1) = Ok () (dst2, src2)"
        "wrote (take (n - k) (wbuf_bytes src1)) dst1 dst2" "wbuf_src src2"
        "wb_r_idx src2 \<le> wb_w_idx src2" "wbuf_bytes src2 = drop (n - k) (wbuf_bytes src1)"
        using IH [OF dec src1(2) dst1(2) more pre] by blast
      have "take n (wbuf_bytes src) = take k (wbuf_bytes src) @ take (n - k) (wbuf_bytes src1)"
        using src1(3) take_chunk [of k n "wbuf_bytes src"] more by simp
      then show ?thesis using src1 dst1 w2 r ios True more wrote_trans [OF dst1(3) w2(2)]
        by (simp add: wbuf_siphon_loop.simps [of n] Let_def k_def [symmetric] add.commute)
    qed
  qed
qed

lemma wbuf_wf_src: "wbuf_wf w \<longleftrightarrow> wbuf_src w \<and> wb_r_idx w \<le> wb_w_idx w"
  by (auto simp: wbuf_wf_def wbuf_src_def)

lemma wbuf_siphon_ok:
  assumes "wbuf_wf dst" "wbuf_wf src" "0 < n" "n \<le> length (wbuf_bytes src)" "z_wbuf_space_left dst = Some k"
    "n \<le> k"
  shows "\<exists>dst' src'. z_wbuf_siphon n (dst, src) = Ok () (dst', src') \<and>
    wrote (take n (wbuf_bytes src)) dst dst' \<and> wbuf_wf src' \<and>
    wbuf_bytes src' = drop n (wbuf_bytes src)"
proof -
  obtain xs wios where d: "wsplit dst xs wios" using assms(1) wbuf_wf_split by blast
  have "z_iosli_writable wios = k" using assms(5) by (simp add: z_wbuf_space_left_def wsplit_get [OF d])
  then show ?thesis using wbuf_siphon_loop_ok [of src dst xs wios n] assms d
    by (auto simp: z_wbuf_siphon_def wsplit_get [OF d] wbuf_wf_src)
qed

end
