(* ===== verification/Zp_Wire.thy ===== *)
theory Zp_Wire
  imports Zp_WBuf
begin

text \<open>
  The contracts every codec of the protocol promises, as predicates that compose along the
  code and as locales. \<open>appends e bs\<close> (from \<open>Zp_WBuf\<close>) is the contract of an encoder:
  it writes exactly \<open>bs\<close>. \<open>consumes d bs v\<close> is the contract of a decoder on the bytes an
  encoder wrote: from a buffer that starts with \<open>bs\<close> it yields \<open>v\<close> and stops right after
  them. \<open>safe d\<close> is the contract of a decoder on any bytes at all: it never faults, never
  reads past the write position and leaves the buffer's contents alone.
\<close>

section \<open>Advancing a read buffer\<close>

lemma zbuf_len_bytes: "zbuf_wf z \<Longrightarrow> z_zbuf_len z = length (zbuf_bytes z)"
  by (auto simp: z_zbuf_len_def zbuf_wf_def ios_wf_def zbuf_bytes_def z_iosli_to_bytes_def z_iosli_readable_def)

lemma zadv_bytes [simp]: "zbuf_bytes (zadv n z) = drop n (zbuf_bytes z)"
  by (simp add: zbuf_bytes_def zadv_def z_iosli_to_bytes_def z_iosli_readable_def drop_window add.commute)

lemma zadv_wf: "zbuf_wf z \<Longrightarrow> n \<le> length (zbuf_bytes z) \<Longrightarrow> zbuf_wf (zadv n z)"
  by (auto simp: zbuf_wf_def ios_wf_def zadv_def zbuf_bytes_def z_iosli_to_bytes_def z_iosli_readable_def)

lemma zadv_zadv [simp]: "zadv m (zadv n z) = zadv (n + m) z"
  by (simp add: zadv_def add.assoc)

lemma zadv_0 [simp]: "zadv 0 z = z"
  by (simp add: zadv_def)

lemma slice_as_zbuf_wf [simp]: "zbuf_wf (z_slice_as_zbuf s)"
  and slice_as_zbuf_bytes [simp]: "zbuf_bytes (z_slice_as_zbuf s) = s"
  by (simp_all add: zbuf_wf_def ios_wf_def z_slice_as_zbuf_def zbuf_bytes_def z_iosli_to_bytes_def
      z_iosli_readable_def)

section \<open>Decoders on the bytes of an encoder\<close>

definition consumes :: "('a, z_zbuf_t) prog \<Rightarrow> byte list \<Rightarrow> 'a \<Rightarrow> bool" where
  "consumes d bs v \<longleftrightarrow> (\<forall>z rest. zbuf_wf z \<and> zbuf_bytes z = bs @ rest \<longrightarrow>
     d z = Ok v (zadv (length bs) z))"

text \<open>The same for a decoder that treats the rest of the buffer as its own.\<close>

definition yields :: "('a, z_zbuf_t) prog \<Rightarrow> byte list \<Rightarrow> 'a \<Rightarrow> bool" where
  "yields d bs v \<longleftrightarrow> (\<forall>z. zbuf_wf z \<and> zbuf_bytes z = bs \<longrightarrow> (\<exists>z'. d z = Ok v z'))"

named_theorems consumes_intros \<open>rules that compute what a decoder yields\<close>

lemma consumesD: "consumes d bs v \<Longrightarrow> zbuf_wf z \<Longrightarrow> zbuf_bytes z = bs @ rest \<Longrightarrow>
    d z = Ok v (zadv (length bs) z)"
  by (simp add: consumes_def)

lemma consumes_yields: "consumes d bs v \<Longrightarrow> yields d bs v"
  by (auto simp: consumes_def yields_def)

lemma consumes_cong: "consumes d bs v \<Longrightarrow> bs = bs' \<Longrightarrow> v = v' \<Longrightarrow> consumes d bs' v'"
  by simp

lemma appends_cong: "appends e bs \<Longrightarrow> bs = bs' \<Longrightarrow> appends e bs'"
  by simp

lemma consumes_ret [consumes_intros]: "consumes (ret v) [] v"
  by (simp add: consumes_def ret_def)

lemma consumes_bind [consumes_intros]:
  assumes "consumes d as x" "consumes (f x) bs y"
  shows "consumes (bind_ok d f) (as @ bs) y"
  unfolding consumes_def
proof (intro allI impI, elim conjE)
  fix z rest assume z: "zbuf_wf z" "zbuf_bytes z = (as @ bs) @ rest"
  then have "d z = Ok x (zadv (length as) z)" using consumesD [OF assms(1), of z "bs @ rest"] by simp
  moreover have "f x (zadv (length as) z) = Ok y (zadv (length bs) (zadv (length as) z))"
    using z by (intro consumesD [OF assms(2), of _ rest] zadv_wf) simp_all
  ultimately show "bind_ok d f z = Ok y (zadv (length (as @ bs)) z)" by (simp add: bind_ok_def)
qed

lemma yields_bind:
  assumes "consumes d as x" "yields (f x) bs y"
  shows "yields (bind_ok d f) (as @ bs) y"
  unfolding yields_def
proof (intro allI impI, elim conjE)
  fix z assume z: "zbuf_wf z" "zbuf_bytes z = as @ bs"
  then have "d z = Ok x (zadv (length as) z)" using consumesD [OF assms(1)] by blast
  moreover have "zbuf_wf (zadv (length as) z)" using z by (intro zadv_wf) simp_all
  then have "\<exists>z'. f x (zadv (length as) z) = Ok y z'" using assms(2) z(2) by (simp add: yields_def)
  ultimately show "\<exists>z'. bind_ok d f z = Ok y z'" by (simp add: bind_ok_def)
qed

lemma consumes_then [consumes_intros]:
  "consumes d as x \<Longrightarrow> consumes e bs y \<Longrightarrow> consumes (then_do d e) (as @ bs) y"
  by (simp add: then_do_def consumes_bind)

lemma consumes_attempt [consumes_intros]:
  "consumes d bs v \<Longrightarrow> consumes (attempt x d) bs (Z_RES_OK, v)"
  by (simp add: consumes_def attempt_def)

lemma consumes_if [consumes_intros]:
  "(b \<Longrightarrow> consumes d as x) \<Longrightarrow> (\<not> b \<Longrightarrow> consumes e bs y) \<Longrightarrow>
   consumes (if b then d else e) (if b then as else bs) (if b then x else y)"
  by simp

text \<open>A field that is present when a flag says so, and the end of a function that ORs codes.\<close>

lemma consumes_opt:
  "(b \<Longrightarrow> consumes d bs v) \<Longrightarrow> (\<not> b \<Longrightarrow> v = x) \<Longrightarrow>
   consumes (if b then d else ret x) (if b then bs else []) v"
  by (simp add: consumes_ret)

lemma consumes_return_code [consumes_intros]: "consumes (return_code Z_RES_OK x) [] x"
  by (simp add: return_code_def consumes_ret)

lemma consumes_last: "consumes d as x \<Longrightarrow> f x = ret y \<Longrightarrow> consumes (bind_ok d f) as y"
  using consumes_bind [of d as x f "[]" y] by (simp add: consumes_ret)

lemma consumes_bind2:
  "consumes d as x \<Longrightarrow> consumes (f x) bs y \<Longrightarrow> cs = as @ bs \<Longrightarrow> consumes (bind_ok d f) cs y"
  by (simp add: consumes_bind)

lemma appends_then2: "appends p as \<Longrightarrow> appends q bs \<Longrightarrow> cs = as @ bs \<Longrightarrow> appends (then_do p q) cs"
  by (simp add: appends_then)

section \<open>Decoders on any bytes\<close>

definition zstep :: "z_zbuf_t \<Rightarrow> z_zbuf_t \<Rightarrow> bool" where
  "zstep z z' \<longleftrightarrow> (\<exists>n. n \<le> length (zbuf_bytes z) \<and> z' = zadv n z)"

lemma zstep_refl [simp]: "zstep z z"
  by (auto simp: zstep_def intro!: exI [of _ 0])

lemma zstep_trans: "zstep x y \<Longrightarrow> zstep y z \<Longrightarrow> zstep x z"
proof -
  assume "zstep x y" "zstep y z"
  then obtain n m where "n \<le> length (zbuf_bytes x)" "y = zadv n x" "m \<le> length (zbuf_bytes y)" "z = zadv m y"
    by (auto simp: zstep_def)
  then show ?thesis by (auto simp: zstep_def intro!: exI [of _ "n + m"])
qed

lemma zstep_wf: "zbuf_wf z \<Longrightarrow> zstep z z' \<Longrightarrow> zbuf_wf z'"
  by (auto simp: zstep_def intro: zadv_wf)

lemma zstep_len: "zstep z z' \<Longrightarrow> length (zbuf_bytes z') \<le> length (zbuf_bytes z)"
  by (auto simp: zstep_def)

definition safe :: "('a, z_zbuf_t) prog \<Rightarrow> bool" where
  "safe d \<longleftrightarrow> (\<forall>z. zbuf_wf z \<longrightarrow>
     (case d z of Ok _ z' \<Rightarrow> zstep z z' | Err _ z' \<Rightarrow> zstep z z' | Fault \<Rightarrow> False))"

named_theorems safe_intros \<open>rules that show a decoder safe\<close>

lemma safeD_ok: "safe d \<Longrightarrow> zbuf_wf z \<Longrightarrow> d z = Ok x z' \<Longrightarrow> zstep z z'"
  and safeD_err: "safe d \<Longrightarrow> zbuf_wf z \<Longrightarrow> d z = Err e z' \<Longrightarrow> zstep z z'"
  and safeD_fault: "safe d \<Longrightarrow> zbuf_wf z \<Longrightarrow> d z \<noteq> Fault"
  by (auto simp: safe_def dest!: spec [of _ z])

lemma safeI:
  "(\<And>z. zbuf_wf z \<Longrightarrow> (\<exists>x z'. d z = Ok x z' \<and> zstep z z') \<or> (\<exists>e z'. d z = Err e z' \<and> zstep z z')) \<Longrightarrow> safe d"
  by (fastforce simp: safe_def split: res.split)

lemma safe_ret [safe_intros]: "safe (ret x)"
  and safe_fail [safe_intros]: "safe (fail e)"
  by (simp_all add: safe_def ret_def fail_def)

lemma safe_bind [safe_intros]:
  assumes "safe d" "\<And>x. safe (f x)"
  shows "safe (bind_ok d f)"
proof (rule safeI)
  fix z assume z: "zbuf_wf z"
  show "(\<exists>x z'. bind_ok d f z = Ok x z' \<and> zstep z z') \<or> (\<exists>e z'. bind_ok d f z = Err e z' \<and> zstep z z')"
  proof (cases "d z")
    case (Ok x z')
    have st: "zstep z z'" using safeD_ok [OF assms(1) z Ok] .
    note z' = zstep_wf [OF z st]
    show ?thesis
      using Ok st safeD_fault [OF assms(2) z', of x] safeD_ok [OF assms(2) z', of x]
        safeD_err [OF assms(2) z', of x] zstep_trans [OF st]
      by (cases "f x z'") (auto simp: bind_ok_def)
  next
    case (Err e z')
    then show ?thesis using safeD_err [OF assms(1) z Err] by (simp add: bind_ok_def)
  next
    case Fault
    then show ?thesis using safeD_fault [OF assms(1) z] by simp
  qed
qed

lemma safe_then [safe_intros]: "safe d \<Longrightarrow> safe e \<Longrightarrow> safe (then_do d e)"
  by (simp add: then_do_def safe_bind)

lemma safe_attempt [safe_intros]: "safe d \<Longrightarrow> safe (attempt x d)"
proof (rule safeI)
  fix z assume s: "safe d" and z: "zbuf_wf z"
  show "(\<exists>y z'. attempt x d z = Ok y z' \<and> zstep z z') \<or> (\<exists>e z'. attempt x d z = Err e z' \<and> zstep z z')"
    using safeD_ok [OF s z] safeD_err [OF s z] safeD_fault [OF s z]
    by (cases "d z") (auto simp: attempt_def)
qed

lemma safe_return_code [safe_intros]: "safe (return_code r x)"
  by (simp add: return_code_def safe_intros)

lemma safe_if [safe_intros]:
  "(b \<Longrightarrow> safe d) \<Longrightarrow> (\<not> b \<Longrightarrow> safe e) \<Longrightarrow> safe (if b then d else e)"
  by simp

lemma safe_Let [safe_intros]: "(\<And>x. safe (f x)) \<Longrightarrow> safe (let x = y in f x)"
  by simp

lemma safe_prod [safe_intros]: "(\<And>a b. safe (f a b)) \<Longrightarrow> safe (case p of (a, b) \<Rightarrow> f a b)"
  by (simp split: prod.split)

section \<open>Interfaces\<close>

text \<open>An encoder with the bytes it promises for the values it accepts.\<close>

locale wire_encoder =
  fixes enc :: "'a \<Rightarrow> (unit, z_wbuf_t) prog"
    and wire :: "'a \<Rightarrow> byte list"
    and ok :: "'a \<Rightarrow> bool"
  assumes enc_appends: "ok x \<Longrightarrow> appends (enc x) (wire x)"
begin

lemma enc_complete:
  "ok x \<Longrightarrow> wbuf_wf w \<Longrightarrow> wbuf_fits w (length (wire x)) \<Longrightarrow>
   \<exists>w'. enc x w = Ok () w' \<and> wbuf_wf w' \<and> wbuf_bytes w' = wbuf_bytes w @ wire x"
  using appends_ok [OF enc_appends] by (fastforce simp: wrote_def)

lemma enc_ok_iff:
  "ok x \<Longrightarrow> wbuf_wf w \<Longrightarrow> (\<exists>w'. enc x w = Ok () w') \<longleftrightarrow> wbuf_fits w (length (wire x))"
  by (cases "wbuf_fits w (length (wire x))")
     (use appends_ok [OF enc_appends, of x w] appends_err [OF enc_appends, of x w] in \<open>fastforce+\<close>)

lemma enc_no_space:
  "ok x \<Longrightarrow> wbuf_wf w \<Longrightarrow> \<not> wbuf_fits w (length (wire x)) \<Longrightarrow>
   \<exists>w' pre. enc x w = Err Z_ERR_TRANSPORT_NO_SPACE w' \<and> prefix pre (wire x) \<and>
     wbuf_bytes w' = wbuf_bytes w @ pre"
  using appends_err [OF enc_appends, of x w] by (auto simp: wrote_def)

lemma enc_bytes:
  "ok x \<Longrightarrow> wbuf_wf w \<Longrightarrow> enc x w = Ok () w' \<Longrightarrow>
   wbuf_wf w' \<and> wbuf_bytes w' = wbuf_bytes w @ wire x"
  using enc_complete [of x w] enc_ok_iff [of x w] by auto

end

text \<open>
  An encoder and the decoder of the other side. \<open>recv\<close> is the value the receiver sees; it
  is the value sent unless the protocol says otherwise.
\<close>

locale wire_codec = wire_encoder enc wire ok
  for enc :: "'a \<Rightarrow> (unit, z_wbuf_t) prog" and wire ok +
  fixes dec :: "('b, z_zbuf_t) prog"
    and recv :: "'a \<Rightarrow> 'b"
  assumes dec_consumes: "ok x \<Longrightarrow> consumes dec (wire x) (recv x)"
begin

lemma roundtrip:
  assumes "ok x" "wbuf_wf w" "wbuf_bytes w = []" "enc x w = Ok () w'"
  shows "\<exists>z z'. z_wbuf_to_zbuf w' = Ok () z \<and> dec z = Ok (recv x) z' \<and> zbuf_bytes z' = []"
proof -
  have w': "wbuf_wf w'" "wbuf_bytes w' = wire x" using enc_bytes [OF assms(1,2,4)] assms(3) by simp_all
  obtain z where z: "z_wbuf_to_zbuf w' = Ok () z" "zbuf_wf z" "zbuf_bytes z = wire x @ []"
    using wbuf_to_zbuf_ok [OF w'(1)] w'(2) by auto
  then show ?thesis using consumesD [OF dec_consumes [OF assms(1)] z(2,3)] by simp
qed

lemma roundtrip_fits:
  assumes "ok x" "wbuf_wf w" "wbuf_bytes w = []" "wbuf_fits w (length (wire x))"
  shows "\<exists>w' z z'. enc x w = Ok () w' \<and> z_wbuf_to_zbuf w' = Ok () z \<and> dec z = Ok (recv x) z' \<and>
    zbuf_bytes z' = []"
proof -
  obtain w' where "enc x w = Ok () w'" using enc_complete [OF assms(1,2,4)] by blast
  then show ?thesis using roundtrip [OF assms(1-3)] by blast
qed

lemma decode_with_rest:
  assumes "ok x" "zbuf_wf z" "zbuf_bytes z = wire x @ rest"
  shows "\<exists>z'. dec z = Ok (recv x) z' \<and> zbuf_wf z' \<and> zbuf_bytes z' = rest"
  using consumesD [OF dec_consumes [OF assms(1)] assms(2,3)] zadv_wf [OF assms(2), of "length (wire x)"] assms(3)
  by simp

text \<open>No encoding is a proper prefix of another, and equal encodings mean equal values.\<close>

lemma prefix_free:
  assumes "ok x" "ok y" "wire y = wire x @ rest"
  shows "rest = [] \<and> recv x = recv y"
proof -
  let ?z = "z_slice_as_zbuf (wire y)"
  have "dec ?z = Ok (recv x) (zadv (length (wire x)) ?z)"
    using consumesD [OF dec_consumes [OF assms(1)], of ?z rest] assms(3) by simp
  moreover have "dec ?z = Ok (recv y) (zadv (length (wire y)) ?z)"
    using consumesD [OF dec_consumes [OF assms(2)], of ?z "[]"] by simp
  ultimately have "recv x = recv y" and adv: "zadv (length (wire x)) ?z = zadv (length (wire y)) ?z" by simp_all
  from arg_cong [OF adv, of zbuf_bytes] have "rest = []" by (simp add: assms(3))
  with \<open>recv x = recv y\<close> show ?thesis by simp
qed

lemma wire_inj: "ok x \<Longrightarrow> ok y \<Longrightarrow> wire x = wire y \<Longrightarrow> recv x = recv y"
  using prefix_free [of x y "[]"] by simp

end

text \<open>A decoder that can be given any bytes.\<close>

locale safe_decoder =
  fixes dec :: "('a, z_zbuf_t) prog"
  assumes dec_safe: "safe dec"
begin

lemma no_fault: "zbuf_wf z \<Longrightarrow> dec z \<noteq> Fault"
  by (rule safeD_fault [OF dec_safe])

lemma stays_inside:
  assumes "zbuf_wf z" "dec z = Ok x z' \<or> dec z = Err e z'"
  shows "zbuf_wf z' \<and> (\<exists>n. n \<le> length (zbuf_bytes z) \<and> zbuf_bytes z' = drop n (zbuf_bytes z))"
proof -
  have "zstep z z'" using assms safeD_ok [OF dec_safe] safeD_err [OF dec_safe] by blast
  then show ?thesis using zstep_wf [OF assms(1)] by (auto simp: zstep_def)
qed

end

end
