(* ===== verification/Zp_Codec.thy ===== *)
theory Zp_Codec
  imports Zp_Wire
begin

text \<open>
  The primitive codecs of \<^verbatim>\<open>src/protocol/codec.c\<close>: fixed-width integers, the variable
  length integer (VLE: seven bits per byte, the ninth byte carries eight), byte arrays,
  slices, strings, encodings and values. For each encoder the bytes it writes are computed
  (\<open>appends_intros\<close>), for each decoder what it makes of them (\<open>consumes_intros\<close>) and that it
  is safe on any input (\<open>safe_intros\<close>).
\<close>

section \<open>Bytes and the variable length integer\<close>

definition z_uint8_encode :: "u8 \<Rightarrow> (unit, z_wbuf_t) prog" where
  "z_uint8_encode b = z_wbuf_write b"

definition z_uint8_decode :: "(u8, z_zbuf_t) prog" where
  "z_uint8_decode z =
     (if \<not> z_zbuf_can_read z then Err Z_ERR_MESSAGE_DESERIALIZATION_FAILED z else z_zbuf_read z)"

lemma uint8_consumes [consumes_intros]: "consumes z_uint8_decode [b] b"
  unfolding consumes_def
proof (intro allI impI, elim conjE)
  fix z rest assume z: "zbuf_wf z" "zbuf_bytes z = [b] @ rest"
  then have "ios_r_pos (zb_ios z) < ios_w_pos (zb_ios z)"
    by (auto simp: zbuf_bytes_def z_iosli_to_bytes_def z_iosli_readable_def intro: ccontr)
  moreover from this have "ios_buf (zb_ios z) ! ios_r_pos (zb_ios z) = b"
    using z window_head [of "ios_r_pos (zb_ios z)" "ios_w_pos (zb_ios z)" "ios_buf (zb_ios z)"]
    by (simp add: zbuf_bytes_def z_iosli_to_bytes_def z_iosli_readable_def zbuf_wf_def ios_wf_def)
  ultimately show "z_uint8_decode z = Ok b (zadv (length [b]) z)" using z
    by (auto simp: z_uint8_decode_def z_zbuf_can_read_def z_iosli_can_read_def z_zbuf_read_def on_ios_def
        z_iosli_read_def zadv_def zbuf_wf_def ios_wf_def)
qed

lemma uint8_safe [safe_intros]: "safe z_uint8_decode"
proof (rule safeI)
  fix z assume z: "zbuf_wf z"
  show "(\<exists>x z'. z_uint8_decode z = Ok x z' \<and> zstep z z') \<or> (\<exists>e z'. z_uint8_decode z = Err e z' \<and> zstep z z')"
  proof (cases "zbuf_bytes z")
    case Nil
    then have "\<not> z_zbuf_can_read z" using zbuf_len_bytes [OF z]
      by (simp add: z_zbuf_can_read_def z_iosli_can_read_def z_zbuf_len_def z_iosli_readable_def)
    then show ?thesis by (simp add: z_uint8_decode_def)
  next
    case (Cons b rest)
    then have "z_uint8_decode z = Ok b (zadv 1 z)" using consumesD [OF uint8_consumes z, of b rest] by simp
    then show ?thesis using Cons by (auto simp: zstep_def intro!: exI [of _ 1])
  qed
qed

text \<open>
  \<^verbatim>\<open>_z_zint64_encode_buf\<close>: the loop of the code, which appends a byte and shifts
  while more than seven bits are left, and the last byte, left out after nine.
\<close>

definition VLE_LEN :: nat where "VLE_LEN = 9"
definition VLE_LEN1_MASK :: u64 where "VLE_LEN1_MASK = push_bit (7 * 1) (- 1)"
definition VLE_LEN2_MASK :: u64 where "VLE_LEN2_MASK = push_bit (7 * 2) (- 1)"
definition VLE_LEN3_MASK :: u64 where "VLE_LEN3_MASK = push_bit (7 * 3) (- 1)"
definition VLE_LEN4_MASK :: u64 where "VLE_LEN4_MASK = push_bit (7 * 4) (- 1)"
definition VLE_LEN5_MASK :: u64 where "VLE_LEN5_MASK = push_bit (7 * 5) (- 1)"
definition VLE_LEN6_MASK :: u64 where "VLE_LEN6_MASK = push_bit (7 * 6) (- 1)"
definition VLE_LEN7_MASK :: u64 where "VLE_LEN7_MASK = push_bit (7 * 7) (- 1)"
definition VLE_LEN8_MASK :: u64 where "VLE_LEN8_MASK = push_bit (7 * 8) (- 1)"

lemma mask1_bits: "lv AND VLE_LEN1_MASK = 0 \<longleftrightarrow> (\<forall>n \<ge> 7. \<not> bit lv n)"
  using bit_imp_le_length [of lv] by (fastforce simp: VLE_LEN1_MASK_def bit_eq_iff bit_simps not_le)

lemma drop7_less: "lv AND VLE_LEN1_MASK \<noteq> 0 \<Longrightarrow> unat (drop_bit 7 lv) < unat lv"
proof -
  assume "lv AND VLE_LEN1_MASK \<noteq> 0"
  then have "lv \<noteq> 0" by auto
  then show ?thesis by (simp add: drop_bit_eq_div unat_div unat_gt_0 div_less_dividend)
qed

function zint_encode_loop :: "u64 \<Rightarrow> byte list \<Rightarrow> byte list \<times> u64" where
  "zint_encode_loop lv buf =
     (if lv AND VLE_LEN1_MASK \<noteq> 0
      then zint_encode_loop (drop_bit 7 lv) (buf @ [ucast (lv AND 0x7f) OR 0x80])
      else (buf, lv))"
  by auto

termination
  by (relation "measure (\<lambda>(lv, buf). unat lv)") (simp_all add: drop7_less)

definition z_zint64_encode_buf :: "u64 \<Rightarrow> byte list" where
  "z_zint64_encode_buf v =
     (let (buf, lv) = zint_encode_loop v []
      in if length buf \<noteq> VLE_LEN then buf @ [ucast (lv AND 0xff)] else buf)"

text \<open>
  The decoding loop, shared by the two functions of the code that spell it out: the shift
  \<^verbatim>\<open>i\<close> counts 0, 7, and so on up to 56, where it stops whatever the continuation bit says
  (the code tests \<^verbatim>\<open>i != 56\<close>).
\<close>

function zint64_decode_loop :: "(u8, 's) prog \<Rightarrow> u64 \<Rightarrow> u8 \<Rightarrow> nat \<Rightarrow> (u64, 's) prog" where
  "zint64_decode_loop reader zint b i =
     (if b AND 0x80 \<noteq> 0 \<and> i < 7 * (VLE_LEN - 1)
      then bind_ok reader (\<lambda>b'. zint64_decode_loop reader (zint OR push_bit i (ucast (b AND 0x7f))) b' (i + 7))
      else ret (zint OR push_bit i (ucast b)))"
  by auto
termination by (relation "measure (\<lambda>(reader, zint, b, i). 63 - i)") (auto simp: VLE_LEN_def)

definition z_zint64_decode_with_reader :: "(u8, 's) prog \<Rightarrow> (u64, 's) prog" where
  "z_zint64_decode_with_reader reader = bind_ok reader (\<lambda>b. zint64_decode_loop reader 0 b 0)"

definition z_zint64_decode :: "(u64, z_zbuf_t) prog" where
  "z_zint64_decode = bind_ok z_uint8_decode (\<lambda>b. zint64_decode_loop z_uint8_decode 0 b 0)"

declare zint_encode_loop.simps [simp del] zint64_decode_loop.simps [simp del]



text \<open>The bytes a number takes, \<open>k\<close> of them written already.\<close>

function zint_tail :: "nat \<Rightarrow> u64 \<Rightarrow> byte list" where
  "zint_tail k lv =
     (if lv AND VLE_LEN1_MASK \<noteq> 0 then (ucast (lv AND 0x7f) OR 0x80) # zint_tail (Suc k) (drop_bit 7 lv)
      else if k \<noteq> VLE_LEN then [ucast (lv AND 0xff)] else [])"
  by auto
termination
  by (relation "measure (\<lambda>(k, lv). unat lv)") (simp_all add: drop7_less)

declare zint_tail.simps [simp del]

lemma zint_encode_loop_tail:
  "zint_encode_loop lv buf = (buf', lv') \<Longrightarrow>
   (if length buf' \<noteq> VLE_LEN then buf' @ [ucast (lv' AND 0xff)] else buf') = buf @ zint_tail (length buf) lv"
proof (induction lv buf rule: zint_encode_loop.induct)
  case (1 lv buf)
  then show ?case
    by (subst zint_tail.simps, subst (asm) (2) zint_encode_loop.simps)
       (auto split: if_splits )
qed

lemma zint_buf_tail: "z_zint64_encode_buf v = zint_tail 0 v"
  using zint_encode_loop_tail [of v "[]"] by (cases "zint_encode_loop v []") (simp add: z_zint64_encode_buf_def)

text \<open>After \<open>k\<close> bytes at most \<open>64 - 7 * k\<close> bits are left.\<close>

definition zint_left :: "nat \<Rightarrow> u64 \<Rightarrow> bool" where
  "zint_left k lv \<longleftrightarrow> k \<le> VLE_LEN \<and> (\<forall>n. 64 \<le> n + 7 * k \<longrightarrow> \<not> bit lv n)"

lemma zint_left_0 [simp]: "zint_left 0 v"
  using bit_imp_le_length [of v] by (fastforce simp: zint_left_def VLE_LEN_def)

lemma zint_left_Suc:
  assumes "zint_left k lv" "lv AND VLE_LEN1_MASK \<noteq> 0"
  shows "zint_left (Suc k) (drop_bit 7 lv) \<and> k < VLE_LEN"
proof -
  obtain n where n: "7 \<le> n" "bit lv n" using assms(2) by (auto simp: mask1_bits )
  with assms(1) have "n + 7 * k < 64" using not_le by (auto simp: zint_left_def)
  then show ?thesis using assms(1) n by (auto simp: zint_left_def bit_simps VLE_LEN_def)
qed

lemma zint_tail_length: "zint_left k lv \<Longrightarrow> length (zint_tail k lv) + k \<le> VLE_LEN"
proof (induction k lv rule: zint_tail.induct)
  case (1 k lv)
  show ?case
  proof (cases "lv AND VLE_LEN1_MASK \<noteq> 0")
    case True
    then show ?thesis using 1 zint_left_Suc [OF 1(2) True] by (simp add: zint_tail.simps [of k])
  next
    case False
    then show ?thesis using 1(2) by (simp add: zint_tail.simps [of k] zint_left_def)
  qed
qed

lemma zint_more_bits:
  fixes lv :: u64
  defines "b \<equiv> (ucast (lv AND 0x7f) :: u8) OR 0x80"
  shows "b AND 0x80 \<noteq> 0" "ucast (b AND 0x7f) = lv AND 0x7f"
    "(lv AND 0x7f) OR push_bit 7 (drop_bit 7 lv) = lv"
proof -
  have m: "(0x7f :: u64) = mask 7" "(0x7f :: u8) = mask 7" "(0x80 :: u8) = push_bit 7 1"
    by (simp_all add: mask_eq_exp_minus_1)
  have "bit (b AND 0x80) 7" by (simp add: b_def m bit_simps del: push_bit_of_1)
  then show "b AND 0x80 \<noteq> 0" by auto
  show "ucast (b AND 0x7f) = lv AND 0x7f"
    by (rule bit_word_eqI) (auto simp: b_def m bit_simps simp del: push_bit_of_1)
  show "(lv AND 0x7f) OR push_bit 7 (drop_bit 7 lv) = lv"
    by (rule bit_word_eqI, case_tac "7 \<le> n") (auto simp: m bit_simps)
qed

lemma zint_last_bits:
  fixes lv :: u64
  assumes "lv AND VLE_LEN1_MASK = 0"
  shows "(ucast (lv AND 0xff) :: u8) AND 0x80 = 0" "ucast (ucast (lv AND 0xff) :: u8) = lv"
proof -
  have m: "(0xff :: u64) = mask 8" "(0x80 :: u8) = push_bit 7 1"
    by (simp_all add: mask_eq_exp_minus_1)
  have no: "\<not> bit lv n" if "7 \<le> n" for n using assms that by (simp add: mask1_bits)
  show "(ucast (lv AND 0xff) :: u8) AND 0x80 = 0"
    by (rule bit_word_eqI) (auto simp: m bit_simps no simp del: push_bit_of_1)
  show "ucast (ucast (lv AND 0xff) :: u8) = lv"
    by (rule bit_word_eqI, case_tac "7 \<le> n") (auto simp: m bit_simps no)
qed

lemma zint_nine_bits:
  fixes lv :: u64
  assumes "\<forall>n \<ge> 8. \<not> bit lv n" "bit lv 7"
  shows "ucast ((ucast (lv AND 0x7f) :: u8) OR 0x80) = lv"
proof -
  have m: "(0x7f :: u64) = mask 7" "(0x80 :: u8) = push_bit 7 1"
    by (simp_all add: mask_eq_exp_minus_1)
  show ?thesis
  proof (rule bit_word_eqI)
    fix n :: nat
    consider "n < 7" | "n = 7" | "8 \<le> n" by linarith
    then show "bit (ucast ((ucast (lv AND 0x7f) :: u8) OR 0x80) :: u64) n = bit lv n"
      by cases (use assms in \<open>auto simp: m bit_simps simp del: push_bit_of_1\<close>)
  qed
qed

lemma zint_decode_tail:
  assumes "zint_left k lv"
  shows "k < VLE_LEN \<Longrightarrow>
    consumes (bind_ok z_uint8_decode (\<lambda>b. zint64_decode_loop z_uint8_decode acc b (7 * k)))
      (zint_tail k lv) (acc OR push_bit (7 * k) lv)"
  using assms
proof (induction k lv arbitrary: acc rule: zint_tail.induct)
  case (1 k lv)
  show ?case
  proof (cases "lv AND VLE_LEN1_MASK = 0")
    case True
    note lb = zint_last_bits [OF True]
    have "consumes (zint64_decode_loop z_uint8_decode acc (ucast (lv AND 0xff)) (7 * k)) [] (acc OR push_bit (7 * k) lv)"
      by (subst zint64_decode_loop.simps, simp only: lb simp_thms if_False) (rule consumes_ret)
    from consumes_bind [OF uint8_consumes, of "\<lambda>b. zint64_decode_loop z_uint8_decode acc b (7 * k)", OF this]
    show ?thesis using True 1(2) by (simp add: zint_tail.simps [of k])
  next
    case False
    define b :: u8 where "b = ucast (lv AND 0x7f) OR 0x80"
    note mb = zint_more_bits [of lv, folded b_def]
    note left = zint_left_Suc [OF 1(3) False]
    have tail: "zint_tail k lv = [b] @ zint_tail (Suc k) (drop_bit 7 lv)"
      using False by (simp add: zint_tail.simps [of k] b_def)
    have "consumes (zint64_decode_loop z_uint8_decode acc b (7 * k)) (zint_tail (Suc k) (drop_bit 7 lv))
            (acc OR push_bit (7 * k) lv)"
    proof (cases "Suc k < VLE_LEN")
      case True
      then have i: "7 * k < 7 * (VLE_LEN - 1)" by (simp add: VLE_LEN_def)
      have eq: "(acc OR push_bit (7 * k) (ucast (b AND 0x7f))) OR push_bit (7 * Suc k) (drop_bit 7 lv) =
          acc OR push_bit (7 * k) lv"
      proof -
        have "push_bit (7 * k) lv = push_bit (7 * k) (lv AND 0x7f) OR push_bit (7 * k) (push_bit 7 (drop_bit 7 lv))"
          by (simp only: push_bit_or [symmetric] mb(3))
        then show ?thesis by (simp only: mb(2) or.assoc push_bit_push_bit mult_Suc_right add.commute)
      qed
      have "consumes (bind_ok z_uint8_decode (\<lambda>b'. zint64_decode_loop z_uint8_decode
          (acc OR push_bit (7 * k) (ucast (b AND 0x7f))) b' (7 * Suc k))) (zint_tail (Suc k) (drop_bit 7 lv))
          ((acc OR push_bit (7 * k) (ucast (b AND 0x7f))) OR push_bit (7 * Suc k) (drop_bit 7 lv))"
        by (rule 1(1) [OF False True conjunct1 [OF left]])
      moreover have "zint64_decode_loop z_uint8_decode acc b (7 * k) =
          bind_ok z_uint8_decode (\<lambda>b'. zint64_decode_loop z_uint8_decode
            (acc OR push_bit (7 * k) (ucast (b AND 0x7f))) b' (7 * Suc k))"
        by (subst zint64_decode_loop.simps) (use mb(1) i in \<open>simp add: add.commute\<close>)
      ultimately show ?thesis unfolding eq
        by simp
    next
      case False
      then have k: "k = 8" using left by (simp add: VLE_LEN_def)
      have hi: "\<forall>n \<ge> 8. \<not> bit lv n" using 1(3) by (simp add: zint_left_def k)
      obtain n where n: "7 \<le> n" "bit lv n" using \<open>lv AND VLE_LEN1_MASK \<noteq> 0\<close> mask1_bits [of lv] by blast
      then have "n = 7" using hi by (cases "8 \<le> n") auto
      then have b7: "bit lv 7" using n by simp
      have "\<forall>n\<ge>7. \<not> bit (drop_bit 7 lv) n" using hi by (simp add: bit_simps)
      then have "zint_tail (Suc k) (drop_bit 7 lv) = []"
        using mask1_bits [of "drop_bit 7 lv"] by (subst zint_tail.simps) (simp add: k VLE_LEN_def)
      moreover have "ucast b = lv" using zint_nine_bits [OF hi b7] by (simp add: b_def)
      ultimately show ?thesis
      proof -
        have "zint64_decode_loop z_uint8_decode acc b (7 * k) = ret (acc OR push_bit (7 * k) (ucast b))"
          by (subst zint64_decode_loop.simps) (simp add: k VLE_LEN_def)
        then show ?thesis using \<open>ucast b = lv\<close> \<open>zint_tail (Suc k) (drop_bit 7 lv) = []\<close> consumes_ret by metis
      qed
    qed
    then show ?thesis unfolding tail by (rule consumes_bind [OF uint8_consumes])
  qed
qed

lemma zint64_consumes [consumes_intros]: "consumes z_zint64_decode (z_zint64_encode_buf v) v"
  using zint_decode_tail [of 0 v 0] by (simp add: z_zint64_decode_def zint_buf_tail VLE_LEN_def)


declare zint64_decode_loop.simps [simp del]

lemma zint_decode_loop_safe: "safe (zint64_decode_loop z_uint8_decode acc b i)"
proof (induction "z_uint8_decode" acc b i rule: zint64_decode_loop.induct)
  case (1 acc b i)
  show ?case by (subst zint64_decode_loop.simps) (intro safe_intros 1; assumption?)
qed

lemma zint64_safe [safe_intros]: "safe z_zint64_decode"
  unfolding z_zint64_decode_def by (intro safe_intros zint_decode_loop_safe)

lemma zint_buf_length: "length (z_zint64_encode_buf v) \<le> VLE_LEN"
  using zint_tail_length [of 0 v] by (simp add: zint_buf_tail)

definition z_zint_len :: "u64 \<Rightarrow> u8" where
  "z_zint_len v =
     (if v AND VLE_LEN1_MASK = 0 then 1
      else if v AND VLE_LEN2_MASK = 0 then 2
      else if v AND VLE_LEN3_MASK = 0 then 3
      else if v AND VLE_LEN4_MASK = 0 then 4
      else if v AND VLE_LEN5_MASK = 0 then 5
      else if v AND VLE_LEN6_MASK = 0 then 6
      else if v AND VLE_LEN7_MASK = 0 then 7
      else if v AND VLE_LEN8_MASK = 0 then 8
      else 9)"

lemma mask_zero_bits: "v AND push_bit m (- 1 :: u64) = 0 \<longleftrightarrow> (\<forall>n \<ge> m. \<not> bit v n)"
  using bit_imp_le_length [of v] by (fastforce simp: bit_eq_iff bit_simps not_le)

lemma zint_left_drop: "k \<le> VLE_LEN \<Longrightarrow> zint_left k (drop_bit (7 * k) v)"
  using bit_imp_le_length [of v] by (fastforce simp: zint_left_def bit_simps add.commute)

lemma drop_mask1:
  "drop_bit j v AND VLE_LEN1_MASK = 0 \<longleftrightarrow> v AND push_bit (j + 7) (- 1 :: u64) = 0"
proof -
  have "(\<forall>n \<ge> 7. \<not> bit v (j + n)) \<longleftrightarrow> (\<forall>n \<ge> j + 7. \<not> bit v n)"
  proof
    assume *: "\<forall>n \<ge> 7. \<not> bit v (j + n)"
    show "\<forall>n \<ge> j + 7. \<not> bit v n"
    proof (intro allI impI)
      fix n assume "j + 7 \<le> n"
      then show "\<not> bit v n" using *[rule_format, of "n - j"] by simp
    qed
  qed simp
  then show ?thesis unfolding VLE_LEN1_MASK_def mult_1_right mask_zero_bits by (simp add: bit_simps)
qed

lemma zint_tail_len:
  "k < 8 \<Longrightarrow> j = k + 1 \<Longrightarrow> length (zint_tail k (drop_bit (7 * k) v)) =
     (if v AND push_bit (7 * j) (- 1) = 0 then 1
      else Suc (length (zint_tail j (drop_bit (7 * j) v))))"
  by (subst zint_tail.simps) (simp add: drop_mask1 VLE_LEN_def add.commute)

lemma zint_tail_len8: "length (zint_tail 8 (drop_bit 56 v)) = 1"
proof -
  have "length (zint_tail 8 (drop_bit 56 v)) + 8 \<le> VLE_LEN"
    using zint_tail_length [of 8 "drop_bit 56 v"] zint_left_drop [of 8 v] by (simp add: VLE_LEN_def)
  moreover have "zint_tail 8 (drop_bit 56 v) \<noteq> []" by (subst zint_tail.simps) (simp add: VLE_LEN_def)
  ultimately show ?thesis by (cases "zint_tail 8 (drop_bit 56 v)") (auto simp: VLE_LEN_def)
qed

lemma zint_len_buf: "unat (z_zint_len v) = length (z_zint64_encode_buf v)"
proof -
  define M where "M n = (v AND push_bit (7 * n) (- 1 :: u64) = 0)" for n
  define L where "L k = length (zint_tail k (drop_bit (7 * k) v))" for k
  have step: "L k = (if M j then 1 else Suc (L j))" if "k < 8" "j = k + 1" for k j
    unfolding M_def L_def by (rule zint_tail_len [OF that])
  have c: "unat (1 :: u8) = 1" "unat (2 :: u8) = 2" "unat (3 :: u8) = 3" "unat (4 :: u8) = 4" "unat (5 :: u8) = 5"
    "unat (6 :: u8) = 6" "unat (7 :: u8) = 7" "unat (8 :: u8) = 8" "unat (9 :: u8) = 9" by simp_all
  have L8: "L 8 = 1" unfolding L_def using zint_tail_len8 [of v] by simp
  have s0: "L 0 = (if M 1 then 1 else Suc (L 1))" by (rule step) simp_all
  have s1: "L 1 = (if M 2 then 1 else Suc (L 2))" by (rule step) simp_all
  have s2: "L 2 = (if M 3 then 1 else Suc (L 3))" by (rule step) simp_all
  have s3: "L 3 = (if M 4 then 1 else Suc (L 4))" by (rule step) simp_all
  have s4: "L 4 = (if M 5 then 1 else Suc (L 5))" by (rule step) simp_all
  have s5: "L 5 = (if M 6 then 1 else Suc (L 6))" by (rule step) simp_all
  have s6: "L 6 = (if M 7 then 1 else Suc (L 7))" by (rule step) simp_all
  have s7: "L 7 = (if M 8 then 1 else Suc (L 8))" by (rule step) simp_all
  have sn: "Suc 1 = 2" "Suc 2 = 3" "Suc 3 = 4" "Suc 4 = 5" "Suc 5 = 6" "Suc 6 = 7" "Suc 7 = 8" "Suc 8 = 9" by simp_all
  have l8: "L 8 = 1" by (rule L8)
  have l7: "L 7 = (if M 8 then 1 else 2)" by (simp only: s7 l8 if_distrib [of Suc] sn)
  have l6: "L 6 = (if M 7 then 1 else if M 8 then 2 else 3)" by (simp only: s6 l7 if_distrib [of Suc] sn)
  have l5: "L 5 = (if M 6 then 1 else if M 7 then 2 else if M 8 then 3 else 4)" by (simp only: s5 l6 if_distrib [of Suc] sn)
  have l4: "L 4 = (if M 5 then 1 else if M 6 then 2 else if M 7 then 3 else if M 8 then 4 else 5)" by (simp only: s4 l5 if_distrib [of Suc] sn)
  have l3: "L 3 = (if M 4 then 1 else if M 5 then 2 else if M 6 then 3 else if M 7 then 4 else if M 8 then 5 else 6)" by (simp only: s3 l4 if_distrib [of Suc] sn)
  have l2: "L 2 = (if M 3 then 1 else if M 4 then 2 else if M 5 then 3 else if M 6 then 4 else if M 7 then 5 else if M 8 then 6 else 7)" by (simp only: s2 l3 if_distrib [of Suc] sn)
  have l1: "L 1 = (if M 2 then 1 else if M 3 then 2 else if M 4 then 3 else if M 5 then 4 else if M 6 then 5 else if M 7 then 6 else if M 8 then 7 else 8)" by (simp only: s1 l2 if_distrib [of Suc] sn)
  have l0: "L 0 = (if M 1 then 1 else if M 2 then 2 else if M 3 then 3 else if M 4 then 4 else if M 5 then 5 else if M 6 then 6 else if M 7 then 7 else if M 8 then 8 else 9)" by (simp only: s0 l1 if_distrib [of Suc] sn)
  have "unat (z_zint_len v) = (if M 1 then 1 else if M 2 then 2 else if M 3 then 3 else if M 4 then 4
      else if M 5 then 5 else if M 6 then 6 else if M 7 then 7 else if M 8 then 8 else 9)"
    unfolding z_zint_len_def M_def VLE_LEN1_MASK_def VLE_LEN2_MASK_def VLE_LEN3_MASK_def VLE_LEN4_MASK_def
      VLE_LEN5_MASK_def VLE_LEN6_MASK_def VLE_LEN7_MASK_def VLE_LEN8_MASK_def
    by (simp only: if_distrib [of unat] c)
  with l0 have "unat (z_zint_len v) = L 0" by (simp only:)
  then show ?thesis by (simp only: zint_buf_tail L_def mult_0_right drop_bit_0 id_apply)
qed


section \<open>Encoders and decoders of numbers\<close>

definition z_zint64_encode :: "u64 \<Rightarrow> (unit, z_wbuf_t) prog" where
  "z_zint64_encode v =
     (let buf = z_zint64_encode_buf v in z_wbuf_write_bytes buf 0 (length buf))"

definition z_zint16_encode :: "u16 \<Rightarrow> (unit, z_wbuf_t) prog" where
  "z_zint16_encode v = z_zint64_encode (ucast v)"

definition z_zint32_encode :: "u32 \<Rightarrow> (unit, z_wbuf_t) prog" where
  "z_zint32_encode v = z_zint64_encode (ucast v)"

definition z_zsize_encode :: "z_zint_t \<Rightarrow> (unit, z_wbuf_t) prog" where
  "z_zsize_encode v = z_zint64_encode v"

definition UINT16_MAX :: u64 where "UINT16_MAX = 0xFFFF"
definition UINT32_MAX :: u64 where "UINT32_MAX = 0xFFFFFFFF"
definition SIZE_MAX :: u64 where "SIZE_MAX = - 1"

definition z_zint16_decode :: "(u16, z_zbuf_t) prog" where
  "z_zint16_decode = bind_ok z_zint64_decode
     (\<lambda>buf. if UINT16_MAX < buf then fail Z_ERR_MESSAGE_DESERIALIZATION_FAILED else ret (ucast buf))"

definition z_zint32_decode :: "(u32, z_zbuf_t) prog" where
  "z_zint32_decode = bind_ok z_zint64_decode
     (\<lambda>buf. if UINT32_MAX < buf then fail Z_ERR_MESSAGE_DESERIALIZATION_FAILED else ret (ucast buf))"

definition z_zsize_decode :: "(z_zint_t, z_zbuf_t) prog" where
  "z_zsize_decode = bind_ok z_zint64_decode
     (\<lambda>buf. if SIZE_MAX < buf then fail Z_ERR_MESSAGE_DESERIALIZATION_FAILED else ret buf)"

text \<open>
  With a reader of single bytes in place of a buffer. Any error of the reader becomes the
  code for a failed deserialization.
\<close>

definition z_zsize_decode_with_reader :: "(u8, 's) prog \<Rightarrow> (z_zint_t, 's) prog" where
  "z_zsize_decode_with_reader reader s =
     (case z_zint64_decode_with_reader reader s of
        Ok i s' \<Rightarrow> if SIZE_MAX < i then Err Z_ERR_MESSAGE_DESERIALIZATION_FAILED s' else Ok i s'
      | Err e s' \<Rightarrow> Err Z_ERR_MESSAGE_DESERIALIZATION_FAILED s'
      | Fault \<Rightarrow> Fault)"

definition z_get_u16_lsb :: "u16 \<Rightarrow> u8" where "z_get_u16_lsb v = ucast v"
definition z_get_u16_msb :: "u16 \<Rightarrow> u8" where "z_get_u16_msb v = ucast (drop_bit 8 v)"

definition z_uint16_encode :: "u16 \<Rightarrow> (unit, z_wbuf_t) prog" where
  "z_uint16_encode v = then_do (z_wbuf_write (z_get_u16_lsb v)) (z_wbuf_write (z_get_u16_msb v))"

text \<open>
  \<^verbatim>\<open>_z_zbuf_read(zbf) + (uint16_t)(_z_zbuf_read(zbf) << 8)\<close>: C leaves the order of the
  two reads open; the model reads the left operand first, which the format needs.
\<close>

definition z_uint16_decode :: "(u16, z_zbuf_t) prog" where
  "z_uint16_decode z =
     (if z_zbuf_len z < 2 then Err Z_ERR_MESSAGE_DESERIALIZATION_FAILED z
      else bind_ok z_zbuf_read (\<lambda>lo. bind_ok z_zbuf_read (\<lambda>hi. ret (ucast lo + push_bit 8 (ucast hi)))) z)"

text \<open>An enumeration is 32 bits wide; the negative member makes the first one signed.\<close>

type_synonym z_consolidation_mode_t = u32
type_synonym z_query_target_t = u32
type_synonym z_whatami_t = u32

definition Z_CONSOLIDATION_MODE_AUTO :: z_consolidation_mode_t where
  "Z_CONSOLIDATION_MODE_AUTO = - 1"
definition Z_CONSOLIDATION_MODE_DEFAULT :: z_consolidation_mode_t where
  "Z_CONSOLIDATION_MODE_DEFAULT = Z_CONSOLIDATION_MODE_AUTO"

definition z_consolidation_mode_encode :: "z_consolidation_mode_t \<Rightarrow> (unit, z_wbuf_t) prog" where
  "z_consolidation_mode_encode en = z_zsize_encode (scast en)"

definition z_consolidation_mode_decode :: "(z_consolidation_mode_t, z_zbuf_t) prog" where
  "z_consolidation_mode_decode = bind_ok z_zsize_decode (\<lambda>tmp. ret (ucast tmp))"

definition z_query_target_encode :: "z_query_target_t \<Rightarrow> (unit, z_wbuf_t) prog" where
  "z_query_target_encode en = z_zsize_encode (ucast en)"

definition z_query_target_decode :: "(z_query_target_t, z_zbuf_t) prog" where
  "z_query_target_decode = bind_ok z_zsize_decode (\<lambda>tmp. ret (ucast tmp))"

definition z_whatami_to_uint8 :: "z_whatami_t \<Rightarrow> u8" where
  "z_whatami_to_uint8 whatami = ucast (drop_bit 1 whatami AND 0x03)"

definition z_whatami_from_uint8 :: "u8 \<Rightarrow> z_whatami_t" where
  "z_whatami_from_uint8 b = push_bit (unat (b AND 0x03)) 1"

definition z_whatami_encode :: "z_whatami_t \<Rightarrow> (unit, z_wbuf_t) prog" where
  "z_whatami_encode en = z_zsize_encode (ucast (z_whatami_to_uint8 en))"

definition z_whatami_decode :: "(z_whatami_t, z_zbuf_t) prog" where
  "z_whatami_decode = bind_ok z_zsize_decode (\<lambda>tmp. ret (z_whatami_from_uint8 (ucast tmp)))"

section \<open>Byte arrays\<close>

definition Z_ZID_LENGTH :: nat where "Z_ZID_LENGTH = 16"

definition z_buf_encode :: "byte list \<Rightarrow> (unit, z_wbuf_t) prog" where
  "z_buf_encode buf w =
     (if wb_expansion_step w \<noteq> 0 \<and> Z_ZID_LENGTH < length buf
      then z_wbuf_wrap_bytes buf 0 (length buf) w
      else z_wbuf_write_bytes buf 0 (length buf) w)"

text \<open>\<^verbatim>\<open>_z_slice_val_encode\<close> is \<^verbatim>\<open>_z_buf_encode\<close> of the slice's memory.\<close>

definition z_slice_val_encode :: "byte list \<Rightarrow> (unit, z_wbuf_t) prog" where
  "z_slice_val_encode bs = z_buf_encode bs"

definition z_slice_encode :: "byte list \<Rightarrow> (unit, z_wbuf_t) prog" where
  "z_slice_encode bs = then_do (z_zsize_encode (of_nat (length bs))) (z_slice_val_encode bs)"

fun slice_vals_encode :: "byte list list \<Rightarrow> (unit, z_wbuf_t) prog" where
  "slice_vals_encode [] = ret ()"
| "slice_vals_encode (s # ss) = then_do (z_slice_val_encode s) (slice_vals_encode ss)"

definition z_slices_encode :: "byte list list \<Rightarrow> (unit, z_wbuf_t) prog" where
  "z_slices_encode bs =
     then_do (z_zsize_encode (sum_list (map (\<lambda>s. of_nat (length s)) bs))) (slice_vals_encode bs)"

definition z_slice_val_decode_na :: "nat \<Rightarrow> (byte list, z_zbuf_t) prog" where
  "z_slice_val_decode_na len z =
     (if z_zbuf_len z < len then Err Z_ERR_MESSAGE_DESERIALIZATION_FAILED z
      else bind_ok (z_zbuf_set_rpos (z_zbuf_get_rpos z + len)) (\<lambda>_. ret (take len (z_zbuf_get_rptr z))) z)"

definition z_slice_decode :: "(byte list, z_zbuf_t) prog" where
  "z_slice_decode = bind_ok z_zsize_decode (\<lambda>len. z_slice_val_decode_na (unat len))"

definition z_zbuf_read_exact :: "nat \<Rightarrow> (byte list, z_zbuf_t) prog" where
  "z_zbuf_read_exact len z =
     (if z_zbuf_len z < len then Err Z_ERR_MESSAGE_DESERIALIZATION_FAILED z
      else z_zbuf_read_bytes len z)"

text \<open>
  A \<^verbatim>\<open>_z_bytes_t\<close> is a list of slices. The decoder makes one slice of the buffer's
  memory, at the offset of the bytes it read.
\<close>

type_synonym z_bytes_t = "byte list list"

definition z_bytes_len :: "z_bytes_t \<Rightarrow> nat" where
  "z_bytes_len bs = sum_list (map length bs)"

definition z_bytes_decode :: "(z_bytes_t, z_zbuf_t) prog" where
  "z_bytes_decode = bind_ok z_slice_decode (\<lambda>s. ret [s])"

fun z_bytes_encode_val :: "z_bytes_t \<Rightarrow> (unit, z_wbuf_t) prog" where
  "z_bytes_encode_val [] = ret ()"
| "z_bytes_encode_val (s # ss) = then_do (z_buf_encode s) (z_bytes_encode_val ss)"

definition z_bytes_encode :: "z_bytes_t \<Rightarrow> (unit, z_wbuf_t) prog" where
  "z_bytes_encode bs = then_do (z_zsize_encode (of_nat (z_bytes_len bs))) (z_bytes_encode_val bs)"

section \<open>Strings\<close>

text \<open>A C string is its memory; \<^verbatim>\<open>strlen\<close> counts to the first zero.\<close>

definition c_strlen :: "byte list \<Rightarrow> nat" where
  "c_strlen s = length (takeWhile (\<lambda>b. b \<noteq> 0) s)"

definition z_str_encode :: "byte list \<Rightarrow> (unit, z_wbuf_t) prog" where
  "z_str_encode s =
     (let len = c_strlen s in
      then_do (z_zsize_encode (of_nat len)) (z_wbuf_write_bytes s 0 len))"

definition z_str_decode :: "(byte list, z_zbuf_t) prog" where
  "z_str_decode = bind_ok z_zsize_decode (\<lambda>len z.
     if z_zbuf_len z < unat len then Err Z_ERR_MESSAGE_DESERIALIZATION_FAILED z
     else bind_ok (z_zbuf_read_bytes (unat len)) (\<lambda>tmp. ret (tmp @ [0])) z)"

text \<open>A \<^verbatim>\<open>_z_string_t\<close> has a length and need not be terminated.\<close>

type_synonym z_string_t = "byte list"

definition z_string_check :: "z_string_t \<Rightarrow> bool" where
  "z_string_check s \<longleftrightarrow> s \<noteq> []"

definition z_string_encode :: "z_string_t \<Rightarrow> (unit, z_wbuf_t) prog" where
  "z_string_encode s =
     then_do (z_zsize_encode (of_nat (length s))) (z_wbuf_write_bytes s 0 (length s))"

definition z_string_decode :: "(z_string_t, z_zbuf_t) prog" where
  "z_string_decode = bind_ok z_zsize_decode (\<lambda>len z.
     if z_zbuf_len z < unat len then Err Z_ERR_MESSAGE_DESERIALIZATION_FAILED z
     else bind_ok (z_zbuf_set_rpos (z_zbuf_get_rpos z + unat len))
            (\<lambda>_. ret (take (unat len) (z_zbuf_get_rptr z))) z)"

section \<open>Encodings and values\<close>

record z_encoding_t =
  enc_schema :: z_string_t
  enc_id :: u16

definition z_encoding_null :: z_encoding_t where
  "z_encoding_null = \<lparr>enc_schema = [], enc_id = 0\<rparr>"

definition Z_ENCODING_FLAG_S :: u32 where "Z_ENCODING_FLAG_S = 0x01"

definition z_encoding_len :: "z_encoding_t \<Rightarrow> nat" where
  "z_encoding_len en =
     unat (z_zint_len (ucast (push_bit 1 (ucast (enc_id en) :: u32)))) +
     (if z_string_check (enc_schema en)
      then unat (z_zint_len (of_nat (length (enc_schema en)))) + length (enc_schema en) else 0)"

definition z_encoding_encode :: "z_encoding_t \<Rightarrow> (unit, z_wbuf_t) prog" where
  "z_encoding_encode en =
     (let has_schema = z_string_check (enc_schema en);
          id = push_bit 1 (ucast (enc_id en) :: u32);
          id = (if has_schema then id OR Z_ENCODING_FLAG_S else id)
      in then_do (z_zint32_encode id) (when_do has_schema (z_string_encode (enc_schema en))))"

definition z_encoding_decode :: "z_encoding_t \<Rightarrow> (z_encoding_t, z_zbuf_t) prog" where
  "z_encoding_decode en = bind_ok z_zint32_decode (\<lambda>id.
     let has_schema = id AND Z_ENCODING_FLAG_S \<noteq> 0;
         en = en\<lparr>enc_id := ucast (drop_bit 1 id)\<rparr>
     in if has_schema then bind_ok z_string_decode (\<lambda>s. ret (en\<lparr>enc_schema := s\<rparr>)) else ret en)"

record z_value_t =
  val_payload :: z_bytes_t
  val_encoding :: z_encoding_t

definition z_value_null :: z_value_t where
  "z_value_null = \<lparr>val_payload = [], val_encoding = z_encoding_null\<rparr>"

definition z_value_encode :: "z_value_t \<Rightarrow> (unit, z_wbuf_t) prog" where
  "z_value_encode v =
     (let total_len = z_encoding_len (val_encoding v) + z_bytes_len (val_payload v) in
      then_do (z_zsize_encode (of_nat total_len))
        (then_do (z_encoding_encode (val_encoding v)) (z_bytes_encode_val (val_payload v))))"

text \<open>\<^verbatim>\<open>_z_bytes_from_buf\<close>: no slice for no byte, otherwise a copy in one slice.\<close>

definition z_bytes_from_buf :: "byte list \<Rightarrow> z_bytes_t" where
  "z_bytes_from_buf src = (if src = [] then [] else [src])"

definition z_value_decode :: "z_value_t \<Rightarrow> (z_value_t, z_zbuf_t) prog" where
  "z_value_decode v = bind_ok (z_encoding_decode (val_encoding v)) (\<lambda>en z.
     Ok (v\<lparr>val_encoding := en,
           val_payload := z_bytes_from_buf (take (z_zbuf_len z) (z_zbuf_get_rptr z))\<rparr>) z)"


section \<open>What the encoders write\<close>

lemma unat_len64 [simp]: "n < 2 ^ 64 \<Longrightarrow> unat (of_nat n :: u64) = n"
  by (simp add: unat_of_nat)

definition wire_len :: "nat \<Rightarrow> byte list" where
  "wire_len n = z_zint64_encode_buf (of_nat n)"

definition wire_slice :: "byte list \<Rightarrow> byte list" where
  "wire_slice s = wire_len (length s) @ s"

lemma appends_uint8 [appends_intros]: "appends (z_uint8_encode b) [b]"
  by (simp add: z_uint8_encode_def appends_write)

lemma appends_zint64 [appends_intros]: "appends (z_zint64_encode v) (z_zint64_encode_buf v)"
  by (simp add: z_zint64_encode_def Let_def appends_write_all)

lemma appends_zint16 [appends_intros]: "appends (z_zint16_encode v) (z_zint64_encode_buf (ucast v))"
  and appends_zint32 [appends_intros]: "appends (z_zint32_encode x) (z_zint64_encode_buf (ucast x))"
  and appends_zsize [appends_intros]: "appends (z_zsize_encode y) (z_zint64_encode_buf y)"
  by (simp_all add: z_zint16_encode_def z_zint32_encode_def z_zsize_encode_def appends_zint64)

lemma appends_zsize_len [appends_intros]: "appends (z_zsize_encode (of_nat n)) (wire_len n)"
  unfolding wire_len_def by (rule appends_zsize)

lemma appends_uint16 [appends_intros]:
  "appends (z_uint16_encode v) [z_get_u16_lsb v, z_get_u16_msb v]"
  using appends_then [OF appends_write appends_write] by (simp add: z_uint16_encode_def)

lemma appends_buf [appends_intros]: "appends (z_buf_encode bs) bs"
proof -
  have "wbuf_wf w \<Longrightarrow> wb_expansion_step w \<noteq> 0 \<Longrightarrow> wbuf_fits w (length bs)" for w
    by (simp add: wbuf_fits_def)
  then show ?thesis using appends_write_all [of bs] wbuf_wrap_bytes_ok [of _ bs]
    by (auto simp: appends_def z_buf_encode_def)
qed

lemma appends_slice_val [appends_intros]: "appends (z_slice_val_encode bs) bs"
  by (simp add: z_slice_val_encode_def appends_buf)

lemma appends_slice [appends_intros]: "appends (z_slice_encode bs) (wire_slice bs)"
  unfolding z_slice_encode_def wire_slice_def by (intro appends_intros)

lemma appends_bytes_val [appends_intros]: "appends (z_bytes_encode_val bs) (concat bs)"
  by (induction bs) (auto intro: appends_intros)

lemma appends_slice_vals: "appends (slice_vals_encode bs) (concat bs)"
  by (induction bs) (auto intro: appends_intros)

lemma z_bytes_len_concat: "z_bytes_len bs = length (concat bs)"
  by (simp add: z_bytes_len_def length_concat)

lemma appends_bytes [appends_intros]: "appends (z_bytes_encode bs) (wire_slice (concat bs))"
  unfolding z_bytes_encode_def wire_slice_def z_bytes_len_concat by (intro appends_intros)

lemma appends_slices [appends_intros]: "appends (z_slices_encode bs) (wire_slice (concat bs))"
proof -
  have "(\<Sum>s\<leftarrow>bs. of_nat (length s)) = (of_nat (length (concat bs)) :: u64)" by (induction bs) simp_all
  then show ?thesis unfolding z_slices_encode_def wire_slice_def
    by (simp only:) (intro appends_then appends_zsize_len appends_slice_vals)
qed

lemma appends_string [appends_intros]: "appends (z_string_encode s) (wire_slice s)"
  unfolding z_string_encode_def wire_slice_def by (intro appends_intros appends_write_all)

lemma c_strlen_le: "c_strlen s \<le> length s"
  by (simp add: c_strlen_def length_takeWhile_le)

lemma take_c_strlen: "take (c_strlen s) s = takeWhile (\<lambda>b. b \<noteq> 0) s"
  by (metis append_eq_conv_conj c_strlen_def takeWhile_dropWhile_id)

lemma appends_str [appends_intros]: "appends (z_str_encode s) (wire_slice (takeWhile (\<lambda>b. b \<noteq> 0) s))"
proof -
  have "appends (z_wbuf_write_bytes s 0 (c_strlen s)) (takeWhile (\<lambda>b. b \<noteq> 0) s)"
    using appends_write_bytes [of 0 "c_strlen s" s] c_strlen_le [of s] take_c_strlen [of s] by simp
  then show ?thesis unfolding z_str_encode_def wire_slice_def Let_def c_strlen_def
    by (intro appends_then appends_zsize_len)
qed

definition wire_encoding :: "z_encoding_t \<Rightarrow> byte list" where
  "wire_encoding en =
     (let id = push_bit 1 (ucast (enc_id en) :: u32) in
      if enc_schema en = [] then z_zint64_encode_buf (ucast id)
      else z_zint64_encode_buf (ucast (id OR Z_ENCODING_FLAG_S)) @ wire_slice (enc_schema en))"

lemma appends_encoding [appends_intros]: "appends (z_encoding_encode en) (wire_encoding en)"
proof (cases "enc_schema en = []")
  case True
  then show ?thesis
    by (simp add: z_encoding_encode_def wire_encoding_def z_string_check_def Let_def)
       (use appends_then [OF appends_zint32 appends_ret] in \<open>simp add: when_do_def\<close>)
next
  case False
  then show ?thesis
    by (simp add: z_encoding_encode_def wire_encoding_def z_string_check_def Let_def)
       (intro appends_then appends_zint32 appends_string)
qed

section \<open>What the decoders make of it\<close>

lemma zsize_consumes [consumes_intros]: "consumes z_zsize_decode (z_zint64_encode_buf v) v"
proof -
  have "\<not> SIZE_MAX < v" by (simp add: SIZE_MAX_def word_order.extremum_strict)
  then show ?thesis using consumes_bind [OF zint64_consumes, of _ v "[]" v] consumes_ret [of v]
    by (simp add: z_zsize_decode_def)
qed

lemma ucast_narrow [simp]:
  "ucast (ucast (v :: u16) :: u64) = v" "ucast (ucast (x :: u32) :: u64) = x"
  "ucast (ucast (b :: u8) :: u64) = b"
  by (rule bit_word_eqI, simp add: bit_simps)+

lemma unat_ucast_wide [simp]:
  "unat (ucast (v :: u16) :: u64) = unat v" "unat (ucast (x :: u32) :: u64) = unat x"
proof -
  have "unat v < 2 ^ 16" "unat x < 2 ^ 32" using unsigned_less [of v] unsigned_less [of x] by simp_all
  then show "unat (ucast v :: u64) = unat v" "unat (ucast x :: u64) = unat x"
    by (simp_all add: unsigned_ucast_eq take_bit_nat_eq_self_iff)
qed

lemma ucast_below:
  "\<not> UINT16_MAX < ucast (v :: u16)" "\<not> UINT32_MAX < ucast (x :: u32)"
proof -
  have "unat (ucast v :: u64) < 2 ^ 16" "unat (ucast x :: u64) < 2 ^ 32"
    using unsigned_less [of v] unsigned_less [of x] by simp_all
  then show "\<not> UINT16_MAX < ucast v" "\<not> UINT32_MAX < ucast x"
    by (simp_all add: word_less_nat_alt UINT16_MAX_def UINT32_MAX_def)
qed

lemma zint16_consumes [consumes_intros]: "consumes z_zint16_decode (z_zint64_encode_buf (ucast v)) v"
  and zint32_consumes [consumes_intros]: "consumes z_zint32_decode (z_zint64_encode_buf (ucast x)) x"
  using consumes_bind [OF zint64_consumes, of _ "ucast v" "[]" v] consumes_ret [of v]
    consumes_bind [OF zint64_consumes, of _ "ucast x" "[]" x] consumes_ret [of x] ucast_below
  by (simp_all add: z_zint16_decode_def z_zint32_decode_def)

text \<open>A value that does not fit the narrow type is refused, not cut.\<close>

lemma zint_narrow_refused:
  assumes "zbuf_wf z" "zbuf_bytes z = z_zint64_encode_buf v @ rest"
  shows "UINT16_MAX < v \<Longrightarrow> \<exists>z'. z_zint16_decode z = Err Z_ERR_MESSAGE_DESERIALIZATION_FAILED z'"
    and "UINT32_MAX < v \<Longrightarrow> \<exists>z'. z_zint32_decode z = Err Z_ERR_MESSAGE_DESERIALIZATION_FAILED z'"
  using consumesD [OF zint64_consumes assms]
  by (simp_all add: z_zint16_decode_def z_zint32_decode_def bind_ok_def fail_def)

lemma zbuf_read_at:
  assumes "zbuf_wf z" "zbuf_bytes z = b # rest"
  shows "z_zbuf_read z = Ok b (zadv 1 z)"
proof -
  have "z_zbuf_can_read z" using zbuf_len_bytes [OF assms(1)] assms(2)
    by (simp add: z_zbuf_len_def z_iosli_readable_def z_zbuf_can_read_def z_iosli_can_read_def)
  then show ?thesis using consumesD [OF uint8_consumes assms(1), of b rest] assms(2)
    by (simp add: z_uint8_decode_def)
qed

lemma uint16_eq:
  assumes "zbuf_wf z"
  shows "z_uint16_decode z = (case zbuf_bytes z of
     lo # hi # rest \<Rightarrow> Ok (ucast lo + push_bit 8 (ucast hi)) (zadv 2 z)
   | _ \<Rightarrow> Err Z_ERR_MESSAGE_DESERIALIZATION_FAILED z)"
proof (cases "\<exists>lo hi rest. zbuf_bytes z = lo # hi # rest")
  case True
  then obtain lo hi rest where b: "zbuf_bytes z = lo # hi # rest" by blast
  have 1: "z_zbuf_read z = Ok lo (zadv 1 z)" using zbuf_read_at [OF assms b] .
  have 2: "z_zbuf_read (zadv 1 z) = Ok hi (zadv 2 z)"
    using zbuf_read_at [of "zadv 1 z" hi rest] zadv_wf [OF assms, of 1] b by (simp add: numeral_2_eq_2)
  have "\<not> z_zbuf_len z < 2" using b zbuf_len_bytes [OF assms] by simp
  then show ?thesis using b 1 2 by (simp add: z_uint16_decode_def bind_ok_def ret_def)
next
  case False
  then have "length (zbuf_bytes z) < 2"
    by (metis One_nat_def Suc_1 Suc_leI length_Suc_conv less_2_cases_iff linorder_not_less list.exhaust list.size(3,4) not_less_eq)
  then show ?thesis using False zbuf_len_bytes [OF assms]
    by (auto simp: z_uint16_decode_def split: list.split)
qed

lemma uint16_join: "ucast (z_get_u16_lsb v) + push_bit 8 (ucast (z_get_u16_msb v)) = v"
proof -
  have "ucast (z_get_u16_lsb v) + push_bit 8 (ucast (z_get_u16_msb v)) =
      (ucast (z_get_u16_lsb v) OR push_bit 8 (ucast (z_get_u16_msb v)) :: u16)"
    by (rule disjunctive_add) (auto simp: z_get_u16_lsb_def z_get_u16_msb_def bit_simps)
  also have "\<dots> = v" by (rule bit_word_eqI) (auto simp: z_get_u16_lsb_def z_get_u16_msb_def bit_simps)
  finally show ?thesis .
qed

lemma uint16_consumes [consumes_intros]:
  "consumes z_uint16_decode [z_get_u16_lsb v, z_get_u16_msb v] v"
  by (auto simp: consumes_def uint16_eq uint16_join numeral_2_eq_2)

lemma uint16_safe [safe_intros]: "safe z_uint16_decode"
proof (rule safeI)
  fix z assume "zbuf_wf z"
  then show "(\<exists>x z'. z_uint16_decode z = Ok x z' \<and> zstep z z') \<or> (\<exists>e z'. z_uint16_decode z = Err e z' \<and> zstep z z')"
    by (auto simp: uint16_eq zstep_def split: list.split intro: exI [of _ 0] exI [of _ 2])
qed

lemma zbuf_take:
  assumes "zbuf_wf z" "zbuf_bytes z = bs @ rest"
  shows "take (length bs) (drop (ios_r_pos (zb_ios z)) (ios_buf (zb_ios z))) = bs"
proof -
  have "z_zbuf_len z = length bs + length rest" using zbuf_len_bytes [OF assms(1)] assms(2) by simp
  moreover have "take (length bs) (zbuf_bytes z) = bs" using assms(2) by simp
  ultimately show ?thesis
    by (simp add: zbuf_bytes_def z_iosli_to_bytes_def z_zbuf_len_def min_def)
qed

lemma slice_val_consumes: "n = length bs \<Longrightarrow> consumes (z_slice_val_decode_na n) bs bs"
  unfolding consumes_def
proof (intro allI impI, elim conjE)
  fix z rest assume n: "n = length bs" and z: "zbuf_wf z" "zbuf_bytes z = bs @ rest"
  have "take n (z_zbuf_get_rptr z) = take n (zbuf_bytes z)" using zbuf_take [OF z] z n
    by (simp add: z_zbuf_get_rptr_def)
  then show "z_slice_val_decode_na n z = Ok bs (zadv (length bs) z)"
    using z n zbuf_len_bytes [OF z(1)]
    by (auto simp: z_slice_val_decode_na_def bind_ok_def z_zbuf_set_rpos_def on_ios_def z_zbuf_get_rpos_def
        z_zbuf_len_def z_iosli_readable_def ret_def zadv_def zbuf_wf_def ios_wf_def z_zbuf_get_rptr_def)
qed

lemma slice_val_safe [safe_intros]: "safe (z_slice_val_decode_na n)"
proof (rule safeI)
  fix z assume z: "zbuf_wf z"
  show "(\<exists>x z'. z_slice_val_decode_na n z = Ok x z' \<and> zstep z z') \<or>
      (\<exists>e z'. z_slice_val_decode_na n z = Err e z' \<and> zstep z z')"
  proof (cases "n \<le> length (zbuf_bytes z)")
    case True
    then show ?thesis
      using consumesD [OF slice_val_consumes z, of n "take n (zbuf_bytes z)" "drop n (zbuf_bytes z)"]
      by (auto simp: zstep_def)
  next
    case False
    then show ?thesis using zbuf_len_bytes [OF z] by (simp add: z_slice_val_decode_na_def)
  qed
qed

lemma string_decode_eq: "z_string_decode = z_slice_decode"
  by (simp add: z_string_decode_def z_slice_decode_def z_slice_val_decode_na_def [abs_def])

lemma zbuf_read_bytes_eq:
  assumes "zbuf_wf z" "zbuf_bytes z = bs @ rest" "n = length bs"
  shows "z_zbuf_read_bytes n z = Ok bs (zadv n z)"
  using assms zbuf_len_bytes [OF assms(1)] zbuf_take [OF assms(1,2)]
  by (auto simp: z_zbuf_read_bytes_def on_ios_def z_iosli_read_bytes_def
      z_zbuf_len_def zadv_def zbuf_wf_def ios_wf_def z_iosli_readable_def)

lemma zsize_safe [safe_intros]: "safe z_zsize_decode"
  and zint16_safe [safe_intros]: "safe z_zint16_decode"
  and zint32_safe [safe_intros]: "safe z_zint32_decode"
  unfolding z_zsize_decode_def z_zint16_decode_def z_zint32_decode_def by (intro safe_intros)+

lemma slice_consumes [consumes_intros]: "length s < 2 ^ 64 \<Longrightarrow> consumes z_slice_decode (wire_slice s) s"
  unfolding z_slice_decode_def wire_slice_def wire_len_def
  by (rule consumes_bind [OF zsize_consumes slice_val_consumes]) simp

lemma slice_safe [safe_intros]: "safe z_slice_decode"
  unfolding z_slice_decode_def by (intro safe_intros)

lemma string_consumes [consumes_intros]: "length s < 2 ^ 64 \<Longrightarrow> consumes z_string_decode (wire_slice s) s"
  and string_safe [safe_intros]: "safe z_string_decode"
  by (simp_all add: string_decode_eq slice_consumes slice_safe)

lemma bytes_consumes [consumes_intros]:
  "length (concat bs) < 2 ^ 64 \<Longrightarrow> consumes z_bytes_decode (wire_slice (concat bs)) [concat bs]"
  unfolding z_bytes_decode_def
  using consumes_bind [OF slice_consumes consumes_ret, of "concat bs" "\<lambda>s. [s]"] by simp

lemma bytes_safe [safe_intros]: "safe z_bytes_decode"
  unfolding z_bytes_decode_def by (intro safe_intros)


section \<open>Encodings, values and the enumerations\<close>

lemma str_consumes:
  assumes "length s < 2 ^ 64"
  shows "consumes z_str_decode (wire_slice s) (s @ [0])"
proof -
  have "consumes (\<lambda>z. if z_zbuf_len z < unat (of_nat (length s) :: u64) then Err Z_ERR_MESSAGE_DESERIALIZATION_FAILED z
     else bind_ok (z_zbuf_read_bytes (unat (of_nat (length s) :: u64))) (\<lambda>tmp. ret (tmp @ [0])) z) s (s @ [0])"
    using assms zbuf_len_bytes zbuf_read_bytes_eq [OF _ _ refl]
    by (auto simp: consumes_def bind_ok_def ret_def)
  then show ?thesis unfolding z_str_decode_def wire_slice_def wire_len_def
    by (rule consumes_bind [OF zsize_consumes])
qed

lemma encoding_flag:
  "push_bit 1 (ucast i :: u32) AND Z_ENCODING_FLAG_S = 0"
  "(push_bit 1 (ucast i :: u32) OR Z_ENCODING_FLAG_S) AND Z_ENCODING_FLAG_S \<noteq> 0"
  "ucast (drop_bit 1 (push_bit 1 (ucast i :: u32))) = (i :: u16)"
  "ucast (drop_bit 1 (push_bit 1 (ucast i :: u32) OR Z_ENCODING_FLAG_S)) = (i :: u16)"
proof -
  have f: "bit (Z_ENCODING_FLAG_S) n \<longleftrightarrow> n = 0" for n by (simp add: Z_ENCODING_FLAG_S_def bit_1_iff)
  show "push_bit 1 (ucast i :: u32) AND Z_ENCODING_FLAG_S = 0"
    by (rule bit_word_eqI) (auto simp: bit_push_bit_iff bit_and_iff f simp del: push_bit_Suc)
  have "bit ((push_bit 1 (ucast i :: u32) OR Z_ENCODING_FLAG_S) AND Z_ENCODING_FLAG_S) 0" by (simp add: bit_simps f)
  then show "(push_bit 1 (ucast i :: u32) OR Z_ENCODING_FLAG_S) AND Z_ENCODING_FLAG_S \<noteq> 0" by auto
  show "ucast (drop_bit 1 (push_bit 1 (ucast i :: u32))) = (i :: u16)"
    "ucast (drop_bit 1 (push_bit 1 (ucast i :: u32) OR Z_ENCODING_FLAG_S)) = (i :: u16)"
    by (rule bit_word_eqI, auto simp: bit_simps drop_bit_or f simp del: push_bit_Suc One_nat_def)+
qed

lemma encoding_consumes:
  assumes "length (enc_schema en) < 2 ^ 64"
  shows "consumes (z_encoding_decode en0) (wire_encoding en)
    (en0\<lparr>enc_id := enc_id en, enc_schema := (if enc_schema en = [] then enc_schema en0 else enc_schema en)\<rparr>)"
proof (cases "enc_schema en = []")
  case True
  have "consumes (z_encoding_decode en0) (z_zint64_encode_buf (ucast (push_bit 1 (ucast (enc_id en) :: u32))) @ [])
      (en0\<lparr>enc_id := enc_id en\<rparr>)"
    unfolding z_encoding_decode_def
    by (rule consumes_bind [OF zint32_consumes]) (simp only: encoding_flag Let_def not_True_eq_False if_False simp_thms, rule consumes_ret)
  then show ?thesis using True by (simp add: wire_encoding_def)
next
  case False
  have "consumes (z_encoding_decode en0) (z_zint64_encode_buf (ucast (push_bit 1 (ucast (enc_id en) :: u32) OR Z_ENCODING_FLAG_S))
      @ (wire_slice (enc_schema en) @ [])) (en0\<lparr>enc_id := enc_id en, enc_schema := enc_schema en\<rparr>)"
    unfolding z_encoding_decode_def
    by (rule consumes_bind [OF zint32_consumes],
      simp only: encoding_flag(2,4) Let_def if_True simp_thms not_False_eq_True)
      (rule consumes_bind [OF string_consumes [OF assms]], use consumes_ret in \<open>simp add: consumes_ret\<close>)
  then show ?thesis using False by (simp add: wire_encoding_def)
qed

lemma encoding_safe [safe_intros]: "safe (z_encoding_decode en)"
  unfolding z_encoding_decode_def Let_def by (intro safe_intros)

text \<open>The length the encoder announces is the length it writes.\<close>

lemma zint_len_flag:
  "length (z_zint64_encode_buf (ucast (push_bit 1 (ucast (i :: u16) :: u32) OR Z_ENCODING_FLAG_S))) =
   length (z_zint64_encode_buf (ucast (push_bit 1 (ucast i :: u32))))"
proof -
  have "(ucast (push_bit 1 (ucast i :: u32) OR Z_ENCODING_FLAG_S) :: u64) AND push_bit m (- 1) = 0 \<longleftrightarrow>
    (ucast (push_bit 1 (ucast i :: u32)) :: u64) AND push_bit m (- 1) = 0" if "0 < m" for m
    using that unfolding mask_zero_bits by (auto simp: bit_simps Z_ENCODING_FLAG_S_def bit_1_iff)
  then show ?thesis unfolding zint_len_buf [symmetric] z_zint_len_def VLE_LEN1_MASK_def VLE_LEN2_MASK_def
      VLE_LEN3_MASK_def VLE_LEN4_MASK_def VLE_LEN5_MASK_def VLE_LEN6_MASK_def VLE_LEN7_MASK_def VLE_LEN8_MASK_def
    by (simp only: zero_less_mult_iff zero_less_numeral zero_less_one simp_thms)
qed

lemma encoding_len: "z_encoding_len en = length (wire_encoding en)"
  unfolding z_encoding_len_def wire_encoding_def z_string_check_def zint_len_buf Let_def
  by (simp only: zint_len_flag length_append wire_slice_def wire_len_def simp_thms if_True if_False
      add_0_right split: if_split) simp

definition wire_value :: "z_value_t \<Rightarrow> byte list" where
  "wire_value v = wire_slice (wire_encoding (val_encoding v) @ concat (val_payload v))"

lemma appends_value [appends_intros]: "appends (z_value_encode v) (wire_value v)"
proof -
  have "z_encoding_len (val_encoding v) + z_bytes_len (val_payload v) =
      length (wire_encoding (val_encoding v) @ concat (val_payload v))"
    by (simp add: encoding_len z_bytes_len_concat)
  then show ?thesis unfolding z_value_encode_def wire_value_def wire_slice_def Let_def
    by (simp only: append_assoc) (intro appends_then appends_zsize_len appends_encoding appends_bytes_val)
qed

text \<open>The decoder of a value takes the rest of its buffer as the payload.\<close>

lemma value_yields:
  assumes "length (enc_schema (val_encoding v)) < 2 ^ 64"
  shows "yields (z_value_decode z_value_null) (wire_encoding (val_encoding v) @ concat (val_payload v))
    (v\<lparr>val_payload := z_bytes_from_buf (concat (val_payload v))\<rparr>)"
  unfolding z_value_decode_def
proof (rule yields_bind [OF encoding_consumes [OF assms]])
  have t: "take (z_zbuf_len z) (z_zbuf_get_rptr z) = zbuf_bytes z" for z
    by (simp add: z_zbuf_len_def z_zbuf_get_rptr_def zbuf_bytes_def z_iosli_to_bytes_def)
  show "yields (\<lambda>z. Ok (z_value_null\<lparr>val_encoding := (val_encoding z_value_null)\<lparr>enc_id := enc_id (val_encoding v),
       enc_schema := if enc_schema (val_encoding v) = [] then enc_schema (val_encoding z_value_null) else enc_schema (val_encoding v)\<rparr>,
       val_payload := z_bytes_from_buf (take (z_zbuf_len z) (z_zbuf_get_rptr z))\<rparr>) z)
     (concat (val_payload v)) (v\<lparr>val_payload := z_bytes_from_buf (concat (val_payload v))\<rparr>)"
    by (simp add: yields_def t z_value_null_def z_encoding_null_def)
qed

lemma value_safe [safe_intros]: "safe (z_value_decode v)"
  unfolding z_value_decode_def by (rule safe_bind [OF encoding_safe]) (simp add: safe_def)

lemma consolidation_consumes: "consumes z_consolidation_mode_decode (z_zint64_encode_buf (scast en)) en"
  and query_target_consumes: "consumes z_query_target_decode (z_zint64_encode_buf (ucast en)) en"
proof -
  have 1: "ucast (scast en :: u64) = (en :: u32)" by (rule bit_word_eqI) (simp add: bit_simps)
  have 2: "ucast (ucast en :: u64) = en" by (rule bit_word_eqI) (simp add: bit_simps)
  show "consumes z_consolidation_mode_decode (z_zint64_encode_buf (scast en)) en"
    using consumes_bind [OF zsize_consumes consumes_ret, of "\<lambda>tmp. ucast tmp :: u32" "scast en"]
    by (simp add: z_consolidation_mode_decode_def 1)
  show "consumes z_query_target_decode (z_zint64_encode_buf (ucast en)) en"
    using consumes_bind [OF zsize_consumes consumes_ret, of "\<lambda>tmp. ucast tmp :: u32" "ucast en"]
    by (simp add: z_query_target_decode_def 2)
qed

text \<open>The wire has two bits for the kind of a node; a node has exactly one of three bits set.\<close>

definition whatami_ok :: "z_whatami_t \<Rightarrow> bool" where
  "whatami_ok w \<longleftrightarrow> w \<in> {1, 2, 4}"

lemma whatami_roundtrip [simp]:
  "whatami_ok w \<Longrightarrow> z_whatami_from_uint8 (z_whatami_to_uint8 w) = w"
  by (auto simp: whatami_ok_def z_whatami_to_uint8_def z_whatami_from_uint8_def)

lemma whatami_low: "whatami_ok w \<Longrightarrow> z_whatami_to_uint8 w \<in> {0, 1, 2}"
  by (auto simp: whatami_ok_def z_whatami_to_uint8_def)

lemma encoding_consumes_null:
  "length (enc_schema en) < 2 ^ 64 \<Longrightarrow> consumes (z_encoding_decode z_encoding_null) (wire_encoding en) en"
proof -
  have "(if enc_schema en = [] then enc_schema z_encoding_null else enc_schema en) = enc_schema en"
    by (simp add: z_encoding_null_def)
  moreover have eq: "z_encoding_null\<lparr>enc_id := enc_id en, enc_schema := enc_schema en\<rparr> = en"
    by (simp add: z_encoding_null_def)
  ultimately show "length (enc_schema en) < 2 ^ 64 \<Longrightarrow> consumes (z_encoding_decode z_encoding_null) (wire_encoding en) en"
    using encoding_consumes [of en z_encoding_null] eq by simp
qed

section \<open>The contracts of the primitive codecs\<close>

interpretation uint8: wire_codec z_uint8_encode "\<lambda>b. [b]" "\<lambda>_. True" z_uint8_decode "\<lambda>b. b"
  by unfold_locales (rule appends_uint8 uint8_consumes)+

interpretation uint16: wire_codec z_uint16_encode "\<lambda>v. [z_get_u16_lsb v, z_get_u16_msb v]" "\<lambda>_. True"
    z_uint16_decode "\<lambda>v. v"
  by unfold_locales (rule appends_uint16 uint16_consumes)+

interpretation zint64: wire_codec z_zint64_encode z_zint64_encode_buf "\<lambda>_. True" z_zint64_decode "\<lambda>v. v"
  by unfold_locales (rule appends_zint64 zint64_consumes)+

interpretation zint32: wire_codec z_zint32_encode "\<lambda>v. z_zint64_encode_buf (ucast v)" "\<lambda>_. True"
    z_zint32_decode "\<lambda>v. v"
  by unfold_locales (rule appends_zint32 zint32_consumes)+

interpretation zint16: wire_codec z_zint16_encode "\<lambda>v. z_zint64_encode_buf (ucast v)" "\<lambda>_. True"
    z_zint16_decode "\<lambda>v. v"
  by unfold_locales (rule appends_zint16 zint16_consumes)+

interpretation slice: wire_codec z_slice_encode wire_slice "\<lambda>s. length s < 2 ^ 64" z_slice_decode "\<lambda>s. s"
  by unfold_locales (rule appends_slice slice_consumes, assumption?)+

interpretation bytes: wire_codec z_bytes_encode "\<lambda>bs. wire_slice (concat bs)"
    "\<lambda>bs. length (concat bs) < 2 ^ 64" z_bytes_decode "\<lambda>bs. [concat bs]"
  by unfold_locales (rule appends_bytes bytes_consumes, assumption?)+

interpretation encoding: wire_codec z_encoding_encode wire_encoding
    "\<lambda>en. length (enc_schema en) < 2 ^ 64" "z_encoding_decode z_encoding_null" "\<lambda>en. en"
  by unfold_locales (rule appends_encoding encoding_consumes_null, assumption?)+

interpretation zint64: safe_decoder z_zint64_decode
  by unfold_locales (rule zint64_safe)

interpretation slice: safe_decoder z_slice_decode
  by unfold_locales (rule slice_safe)

end
