(* ===== verification/Zp_Core.thy ===== *)
theory Zp_Core
  imports Zp_Codec
begin

text \<open>
  The protocol's basic data of \<^verbatim>\<open>src/protocol/core.c\<close> and
  \<^verbatim>\<open>include/zenoh-pico/protocol/core.h\<close>: Zenoh IDs, entity IDs, timestamps, source
  information and wire expressions, with their order and hash. An ID is a list of sixteen
  bytes.
\<close>

section \<open>Zenoh IDs\<close>

type_synonym z_id_t = "byte list"

definition ZENOH_ID_SIZE :: nat where "ZENOH_ID_SIZE = 16"

definition z_id_empty :: z_id_t where "z_id_empty = replicate ZENOH_ID_SIZE 0"

definition id_wf :: "z_id_t \<Rightarrow> bool" where "id_wf i \<longleftrightarrow> length i = ZENOH_ID_SIZE"

definition z_id_check :: "z_id_t \<Rightarrow> bool" where "z_id_check i \<longleftrightarrow> i \<noteq> z_id_empty"

fun id_len_loop :: "z_id_t \<Rightarrow> nat \<Rightarrow> nat" where
  "id_len_loop i 0 = 0"
| "id_len_loop i (Suc len) = (if i ! len \<noteq> 0 then Suc len else id_len_loop i len)"

definition z_id_len :: "z_id_t \<Rightarrow> nat" where
  "z_id_len i = id_len_loop i ZENOH_ID_SIZE"

fun z_id_cmp :: "z_id_t \<Rightarrow> z_id_t \<Rightarrow> int" where
  "z_id_cmp (l # ls) (r # rs) = (if l < r then - 1 else if r < l then 1 else z_id_cmp ls rs)"
| "z_id_cmp _ _ = 0"

definition Z_FNV_OFFSET_BASIS :: u64 where "Z_FNV_OFFSET_BASIS = 0xcbf29ce484222325"
definition Z_FNV_PRIME :: u64 where "Z_FNV_PRIME = 0x100000001b3"

definition fnv_step :: "byte \<Rightarrow> u64 \<Rightarrow> u64" where
  "fnv_step b h = (h XOR ucast b) * Z_FNV_PRIME"

definition z_id_hash :: "z_id_t \<Rightarrow> u64" where
  "z_id_hash i = fold fnv_step i Z_FNV_OFFSET_BASIS"

record z_entity_global_id_t =
  eg_zid :: z_id_t
  eg_eid :: u32

definition z_entity_global_id_null :: z_entity_global_id_t where
  "z_entity_global_id_null = \<lparr>eg_zid = z_id_empty, eg_eid = 0\<rparr>"

definition z_entity_global_id_check :: "z_entity_global_id_t \<Rightarrow> bool" where
  "z_entity_global_id_check info \<longleftrightarrow> z_id_check (eg_zid info) \<or> eg_eid info \<noteq> 0"

text \<open>The bytes of a 32-bit integer in the memory of a little-endian machine.\<close>

definition u32_le_bytes :: "u32 \<Rightarrow> byte list" where
  "u32_le_bytes x = map (\<lambda>k. ucast (drop_bit (8 * k) x)) [0, 1, 2, 3]"

definition z_entity_global_id_hash :: "z_entity_global_id_t \<Rightarrow> u64" where
  "z_entity_global_id_hash e = fold fnv_step (u32_le_bytes (eg_eid e)) (z_id_hash (eg_zid e))"

section \<open>Timestamps\<close>

type_synonym z_ntp64_t = u64

record z_timestamp_t =
  ts_valid :: bool
  ts_id :: z_id_t
  ts_time :: z_ntp64_t

definition z_timestamp_null :: z_timestamp_t where
  "z_timestamp_null = \<lparr>ts_valid = False, ts_id = z_id_empty, ts_time = 0\<rparr>"

definition z_timestamp_check :: "z_timestamp_t \<Rightarrow> bool" where
  "z_timestamp_check t = ts_valid t"

definition z_timestamp_ntp64_from_time :: "u32 \<Rightarrow> u32 \<Rightarrow> z_ntp64_t" where
  "z_timestamp_ntp64_from_time seconds nanos =
     (let FRAC_PER_SEC = push_bit 32 1 :: u64;
          NANOS_PER_SEC = 1000000000 :: u64;
          fractions = ucast (ucast nanos * FRAC_PER_SEC div NANOS_PER_SEC + 1) :: u32
      in push_bit 32 (ucast seconds) OR ucast fractions)"

definition z_timestamp_cmp :: "z_timestamp_t \<Rightarrow> z_timestamp_t \<Rightarrow> int" where
  "z_timestamp_cmp left right =
     (if \<not> ts_valid left \<and> ts_valid right then - 1
      else if ts_valid left \<and> \<not> ts_valid right then 1
      else if ts_time left < ts_time right then - 1
      else if ts_time right < ts_time left then 1
      else z_id_cmp (ts_id left) (ts_id right))"

section \<open>Source information and wire expressions\<close>

record z_source_info_t =
  si_source_id :: z_entity_global_id_t
  si_source_sn :: u32

definition z_source_info_null :: z_source_info_t where
  "z_source_info_null = \<lparr>si_source_id = z_entity_global_id_null, si_source_sn = 0\<rparr>"

definition z_source_info_check :: "z_source_info_t \<Rightarrow> bool" where
  "z_source_info_check info = z_entity_global_id_check (si_source_id info)"

text \<open>
  The ID space of a wire expression, an address in C that is only compared: NULL for local
  declarations, the address of \<^verbatim>\<open>empty_id\<close> for a peer not yet known, otherwise the
  address of the peer.
\<close>

datatype keyexpr_mapping = KEYEXPR_MAPPING_LOCAL | KEYEXPR_MAPPING_UNKNOWN_REMOTE | Peer_Mapping nat

record z_wireexpr_t =
  we_id :: u16
  we_mapping :: keyexpr_mapping
  we_suffix :: z_string_t

definition z_wireexpr_null :: z_wireexpr_t where
  "z_wireexpr_null = \<lparr>we_id = 0, we_mapping = KEYEXPR_MAPPING_LOCAL, we_suffix = []\<rparr>"

definition z_wireexpr_is_local :: "z_wireexpr_t \<Rightarrow> bool" where
  "z_wireexpr_is_local e \<longleftrightarrow> we_mapping e = KEYEXPR_MAPPING_LOCAL"

definition z_wireexpr_has_suffix :: "z_wireexpr_t \<Rightarrow> bool" where
  "z_wireexpr_has_suffix e = z_string_check (we_suffix e)"

definition z_wireexpr_check :: "z_wireexpr_t \<Rightarrow> bool" where
  "z_wireexpr_check e \<longleftrightarrow> z_string_check (we_suffix e) \<or> we_id e \<noteq> 0"

section \<open>Laws\<close>

lemma id_len_le: "id_len_loop i n \<le> n"
  by (induction n) auto

lemma id_len_nonzero: "0 < id_len_loop i n \<Longrightarrow> i ! (id_len_loop i n - 1) \<noteq> 0"
  by (induction n) auto

lemma id_len_rest: "id_len_loop i n \<le> k \<Longrightarrow> k < n \<Longrightarrow> i ! k = 0"
  by (induction n) (auto simp: less_Suc_eq split: if_splits)

text \<open>An ID is its significant bytes, padded with zeros: what the wire carries of it.\<close>

lemma id_len_pad:
  assumes "id_wf i"
  shows "take (z_id_len i) i @ replicate (ZENOH_ID_SIZE - z_id_len i) 0 = i"
proof (rule nth_equalityI)
  have le: "z_id_len i \<le> ZENOH_ID_SIZE" by (simp add: z_id_len_def id_len_le)
  then show "length (take (z_id_len i) i @ replicate (ZENOH_ID_SIZE - z_id_len i) 0) = length i"
    using assms by (simp add: id_wf_def)
  fix k assume "k < length (take (z_id_len i) i @ replicate (ZENOH_ID_SIZE - z_id_len i) 0)"
  then have "k < ZENOH_ID_SIZE" using le assms by (simp add: id_wf_def)
  then show "(take (z_id_len i) i @ replicate (ZENOH_ID_SIZE - z_id_len i) 0) ! k = i ! k"
    using le assms id_len_rest [of i ZENOH_ID_SIZE k] by (auto simp: nth_append id_wf_def z_id_len_def)
qed

lemma z_id_len_le: "z_id_len i \<le> 16"
  using id_len_le [of i ZENOH_ID_SIZE] by (simp add: z_id_len_def ZENOH_ID_SIZE_def)

lemma id_len_loop_0: "id_len_loop i n = 0 \<longleftrightarrow> (\<forall>k < n. i ! k = 0)"
  by (induction n) (auto simp: less_Suc_eq)

lemma z_id_len_0_iff: "id_wf i \<Longrightarrow> z_id_len i = 0 \<longleftrightarrow> \<not> z_id_check i"
  by (auto simp: z_id_len_def id_len_loop_0 z_id_check_def z_id_empty_def id_wf_def list_eq_iff_nth_eq)

lemma z_id_cmp_range: "z_id_cmp l r \<in> {- 1, 0, 1}"
  by (induction l r rule: z_id_cmp.induct) auto

lemma z_id_cmp_0_iff: "length l = length r \<Longrightarrow> z_id_cmp l r = 0 \<longleftrightarrow> l = r"
  by (induction l r rule: z_id_cmp.induct) auto

lemma z_id_cmp_sym: "z_id_cmp r l = - z_id_cmp l r"
  by (induction l r rule: z_id_cmp.induct) auto

lemma z_id_cmp_Cons_le:
  "z_id_cmp (x # xs) (y # ys) \<le> 0 \<longleftrightarrow> x < y \<or> x = y \<and> z_id_cmp xs ys \<le> 0"
  by auto

lemma z_id_cmp_trans:
  "length a = length b \<Longrightarrow> length b = length c \<Longrightarrow> z_id_cmp a b \<le> 0 \<Longrightarrow> z_id_cmp b c \<le> 0 \<Longrightarrow> z_id_cmp a c \<le> 0"
proof (induction a arbitrary: b c)
  case (Cons x xs)
  then obtain y ys z zs where eq: "b = y # ys" "c = z # zs" by (metis length_Suc_conv)
  then have "x < y \<or> x = y \<and> z_id_cmp xs ys \<le> 0" "y < z \<or> y = z \<and> z_id_cmp ys zs \<le> 0"
    using Cons.prems(3,4) by (simp_all only: z_id_cmp_Cons_le)
  then have "x < z \<or> x = z \<and> z_id_cmp xs zs \<le> 0"
    using less_trans [of x y z] Cons.IH [of ys zs] Cons.prems(1,2) eq by (metis length_Cons old.nat.inject)
  then show ?case by (simp only: eq z_id_cmp_Cons_le)
qed simp

lemma z_timestamp_cmp_sym: "z_timestamp_cmp r l = - z_timestamp_cmp l r"
  using z_id_cmp_sym [of "ts_id r" "ts_id l"] by (auto simp: z_timestamp_cmp_def)

lemma z_timestamp_cmp_0:
  "length (ts_id l) = length (ts_id r) \<Longrightarrow> z_timestamp_cmp l r = 0 \<longleftrightarrow> l = r"
  by (cases l; cases r) (auto simp: z_timestamp_cmp_def z_id_cmp_0_iff)

lemma z_timestamp_cmp_le:
  "z_timestamp_cmp a b \<le> 0 \<longleftrightarrow> (\<not> ts_valid a \<and> ts_valid b) \<or>
     (ts_valid a = ts_valid b \<and> (ts_time a < ts_time b \<or>
        (ts_time a = ts_time b \<and> z_id_cmp (ts_id a) (ts_id b) \<le> 0)))"
  by (auto simp: z_timestamp_cmp_def)

lemma z_timestamp_cmp_trans:
  assumes len: "length (ts_id a) = length (ts_id b)" "length (ts_id b) = length (ts_id c)"
    and ab: "z_timestamp_cmp a b \<le> 0" and bc: "z_timestamp_cmp b c \<le> 0"
  shows "z_timestamp_cmp a c \<le> 0"
proof (cases "ts_valid a = ts_valid b \<and> ts_valid b = ts_valid c")
  case True
  then have "ts_time a < ts_time b \<or> ts_time a = ts_time b \<and> z_id_cmp (ts_id a) (ts_id b) \<le> 0"
    "ts_time b < ts_time c \<or> ts_time b = ts_time c \<and> z_id_cmp (ts_id b) (ts_id c) \<le> 0"
    using ab bc by (simp_all add: z_timestamp_cmp_le)
  then have "ts_time a < ts_time c \<or> ts_time a = ts_time c \<and> z_id_cmp (ts_id a) (ts_id c) \<le> 0"
    using less_trans [of "ts_time a" "ts_time b" "ts_time c"] z_id_cmp_trans [OF len] by metis
  then show ?thesis using True by (simp add: z_timestamp_cmp_le)
next
  case False
  then show ?thesis using ab bc by (auto simp: z_timestamp_cmp_le)
qed

end
