(* ===== verification/Zp_Ext.thy ===== *)
theory Zp_Ext
  imports Zp_Core
begin

text \<open>
  Message extensions: \<^verbatim>\<open>src/protocol/ext.c\<close> and \<^verbatim>\<open>src/protocol/codec/ext.c\<close>. An
  extension is a header byte (an ID, a mandatory flag, two bits that say how the body is
  encoded, a flag for another extension to follow) and a body. Decoders of messages walk
  the extensions with \<^verbatim>\<open>_z_msg_ext_decode_iter\<close> and a callback on the message; the theory
  says what that loop makes of a list of extensions and that it stops and stays inside the
  buffer on any input.
\<close>

section \<open>Extensions\<close>

definition Z_EXT_FULL_ID_MASK :: u8 where "Z_EXT_FULL_ID_MASK = 0x7F"
definition Z_EXT_ID_MASK :: u8 where "Z_EXT_ID_MASK = 0x0F"
definition Z_EXT_ENC_MASK :: u8 where "Z_EXT_ENC_MASK = 0x60"
definition Z_EXT_FULL_ID :: "u8 \<Rightarrow> u8" where "Z_EXT_FULL_ID h = Z_EXT_FULL_ID_MASK AND h"
definition Z_EXT_ID :: "u8 \<Rightarrow> u8" where "Z_EXT_ID h = Z_EXT_ID_MASK AND h"
definition Z_EXT_ENC :: "u8 \<Rightarrow> u8" where "Z_EXT_ENC h = Z_EXT_ENC_MASK AND h"
definition Z_MSG_EXT_ENC_UNIT :: u8 where "Z_MSG_EXT_ENC_UNIT = 0x00"
definition Z_MSG_EXT_ENC_ZINT :: u8 where "Z_MSG_EXT_ENC_ZINT = 0x20"
definition Z_MSG_EXT_ENC_ZBUF :: u8 where "Z_MSG_EXT_ENC_ZBUF = 0x40"
definition Z_MSG_EXT_FLAG_M :: u8 where "Z_MSG_EXT_FLAG_M = 0x10"
definition Z_MSG_EXT_FLAG_Z :: u8 where "Z_MSG_EXT_FLAG_Z = 0x80"
definition Z_MSG_EXT_MORE :: "bool \<Rightarrow> u8" where "Z_MSG_EXT_MORE nxt = (if nxt then Z_MSG_EXT_FLAG_Z else 0)"
definition Z_MSG_EXT_ID_JOIN_QOS :: u8 where
  "Z_MSG_EXT_ID_JOIN_QOS = 0x01 OR Z_MSG_EXT_FLAG_M OR Z_MSG_EXT_ENC_ZBUF"
definition Z_MSG_EXT_ID_JOIN_PATCH :: u8 where "Z_MSG_EXT_ID_JOIN_PATCH = 0x07 OR Z_MSG_EXT_ENC_ZINT"
definition Z_MSG_EXT_ID_INIT_PATCH :: u8 where "Z_MSG_EXT_ID_INIT_PATCH = 0x07 OR Z_MSG_EXT_ENC_ZINT"
definition Z_MSG_EXT_ID_FRAGMENT_FIRST :: u8 where "Z_MSG_EXT_ID_FRAGMENT_FIRST = 0x02 OR Z_MSG_EXT_ENC_UNIT"
definition Z_MSG_EXT_ID_FRAGMENT_DROP :: u8 where "Z_MSG_EXT_ID_FRAGMENT_DROP = 0x03 OR Z_MSG_EXT_ENC_UNIT"

lemmas z_ext_consts = Z_EXT_FULL_ID_MASK_def Z_EXT_ID_MASK_def Z_EXT_ENC_MASK_def Z_EXT_FULL_ID_def Z_EXT_ID_def
  Z_EXT_ENC_def Z_MSG_EXT_ENC_UNIT_def Z_MSG_EXT_ENC_ZINT_def Z_MSG_EXT_ENC_ZBUF_def Z_MSG_EXT_FLAG_M_def
  Z_MSG_EXT_FLAG_Z_def Z_MSG_EXT_MORE_def Z_MSG_EXT_ID_JOIN_QOS_def Z_MSG_EXT_ID_JOIN_PATCH_def
  Z_MSG_EXT_ID_INIT_PATCH_def Z_MSG_EXT_ID_FRAGMENT_FIRST_def Z_MSG_EXT_ID_FRAGMENT_DROP_def

text \<open>The union of the bodies, with the member that was written last.\<close>

datatype z_msg_ext_body_t = Ext_Unit | Ext_Zint u64 | Ext_Zbuf "byte list"

record z_msg_ext_t =
  ext_body :: z_msg_ext_body_t
  ext_header :: u8

definition z_msg_ext_make_unit :: "u8 \<Rightarrow> z_msg_ext_t" where
  "z_msg_ext_make_unit i = \<lparr>ext_body = Ext_Unit, ext_header = (i AND Z_EXT_ID_MASK) OR Z_MSG_EXT_ENC_UNIT\<rparr>"

definition z_msg_ext_make_zint :: "u8 \<Rightarrow> z_zint_t \<Rightarrow> z_msg_ext_t" where
  "z_msg_ext_make_zint i zid =
     \<lparr>ext_body = Ext_Zint zid, ext_header = (i AND Z_EXT_ID_MASK) OR Z_MSG_EXT_ENC_ZINT\<rparr>"

definition z_msg_ext_make_zbuf :: "u8 \<Rightarrow> byte list \<Rightarrow> z_msg_ext_t" where
  "z_msg_ext_make_zbuf i zbuf =
     \<lparr>ext_body = Ext_Zbuf zbuf, ext_header = (i AND Z_EXT_ID_MASK) OR Z_MSG_EXT_ENC_ZBUF\<rparr>"

text \<open>Reading a member of the union that was not the last one written is \<open>Fault\<close>.\<close>

definition ext_zint :: "z_msg_ext_t \<Rightarrow> (u64 \<Rightarrow> ('a, 's) prog) \<Rightarrow> ('a, 's) prog" where
  "ext_zint ext k = (case ext_body ext of Ext_Zint v \<Rightarrow> k v | _ \<Rightarrow> fault)"

definition ext_zbuf :: "z_msg_ext_t \<Rightarrow> (byte list \<Rightarrow> ('a, 's) prog) \<Rightarrow> ('a, 's) prog" where
  "ext_zbuf ext k = (case ext_body ext of Ext_Zbuf v \<Rightarrow> k v | _ \<Rightarrow> fault)"

section \<open>Encoding\<close>

text \<open>
  \<^verbatim>\<open>_z_msg_ext_encode\<close> writes the header, then the body; it does not look at the result
  of writing the body.
\<close>

definition ignore_code :: "(unit, 's) prog \<Rightarrow> (unit, 's) prog" where
  "ignore_code p s = (case p s of Ok _ t \<Rightarrow> Ok () t | Err _ t \<Rightarrow> Ok () t | Fault \<Rightarrow> Fault)"

definition z_msg_ext_encode_zint :: "u64 \<Rightarrow> (unit, z_wbuf_t) prog" where
  "z_msg_ext_encode_zint v = z_zint64_encode v"

definition z_msg_ext_encode_zbuf :: "byte list \<Rightarrow> (unit, z_wbuf_t) prog" where
  "z_msg_ext_encode_zbuf v = z_slice_encode v"

definition z_msg_ext_encode_unit :: "(unit, z_wbuf_t) prog" where
  "z_msg_ext_encode_unit = ret ()"

definition z_msg_ext_encode :: "z_msg_ext_t \<Rightarrow> bool \<Rightarrow> (unit, z_wbuf_t) prog" where
  "z_msg_ext_encode ext has_next =
     then_do (z_wbuf_write (Z_EXT_FULL_ID (ext_header ext) OR push_bit 7 (of_bool has_next)))
       (ignore_code
         (let enc = Z_EXT_ENC (ext_header ext) in
          if enc = Z_MSG_EXT_ENC_UNIT then z_msg_ext_encode_unit
          else if enc = Z_MSG_EXT_ENC_ZINT then ext_zint ext z_msg_ext_encode_zint
          else if enc = Z_MSG_EXT_ENC_ZBUF then ext_zbuf ext z_msg_ext_encode_zbuf
          else ret ()))"

text \<open>\<^verbatim>\<open>_z_msg_ext_vec_encode\<close> passes \<^verbatim>\<open>true\<close> for the last extension too.\<close>

fun z_msg_ext_vec_encode :: "z_msg_ext_t list \<Rightarrow> (unit, z_wbuf_t) prog" where
  "z_msg_ext_vec_encode [] = ret ()"
| "z_msg_ext_vec_encode (e # es) =
     (if es = [] then z_msg_ext_encode e True
      else then_do (z_msg_ext_encode e True) (z_msg_ext_vec_encode es))"

section \<open>Decoding\<close>

definition z_msg_ext_decode_unit :: "(z_msg_ext_body_t, z_zbuf_t) prog" where
  "z_msg_ext_decode_unit = ret Ext_Unit"

definition z_msg_ext_decode_zint :: "(z_msg_ext_body_t, z_zbuf_t) prog" where
  "z_msg_ext_decode_zint = bind_ok z_zint64_decode (\<lambda>v. ret (Ext_Zint v))"

definition z_msg_ext_decode_zbuf :: "(z_msg_ext_body_t, z_zbuf_t) prog" where
  "z_msg_ext_decode_zbuf = bind_ok z_slice_decode (\<lambda>v. ret (Ext_Zbuf v))"

definition z_msg_ext_unknown_body_decode ::
    "z_msg_ext_body_t \<Rightarrow> u8 \<Rightarrow> (z_msg_ext_body_t, z_zbuf_t) prog" where
  "z_msg_ext_unknown_body_decode body enc =
     (if enc = Z_MSG_EXT_ENC_UNIT then z_msg_ext_decode_unit
      else if enc = Z_MSG_EXT_ENC_ZINT then z_msg_ext_decode_zint
      else if enc = Z_MSG_EXT_ENC_ZBUF then z_msg_ext_decode_zbuf
      else ret body)"

definition z_msg_ext_decode :: "z_msg_ext_t \<Rightarrow> (z_msg_ext_t \<times> bool, z_zbuf_t) prog" where
  "z_msg_ext_decode ext = bind_ok z_uint8_decode (\<lambda>header.
     bind_ok (z_msg_ext_unknown_body_decode (ext_body ext) (Z_EXT_ENC header)) (\<lambda>body.
       ret (ext\<lparr>ext_body := body, ext_header := header AND Z_EXT_FULL_ID_MASK\<rparr>,
            header AND Z_MSG_EXT_FLAG_Z \<noteq> 0)))"

text \<open>Every extension takes at least its header byte, so the loop over them ends.\<close>

definition shrinks :: "('a, z_zbuf_t) prog \<Rightarrow> bool" where
  "shrinks d \<longleftrightarrow> (\<forall>z x z'. d z = Ok x z' \<longrightarrow> z_zbuf_len z' \<le> z_zbuf_len z)"

lemma shrinks_ret: "shrinks (ret x)"
  and shrinks_fail: "shrinks (fail e)"
  by (simp_all add: shrinks_def ret_def fail_def)

lemma shrinks_bind: "shrinks d \<Longrightarrow> (\<And>x. shrinks (f x)) \<Longrightarrow> shrinks (bind_ok d f)"
  by (fastforce simp: shrinks_def bind_ok_def split: res.splits intro: order_trans)

lemma uint8_less: "z_uint8_decode z = Ok x z' \<Longrightarrow> z_zbuf_len z' < z_zbuf_len z"
  by (auto simp: z_uint8_decode_def z_zbuf_read_def on_ios_def z_iosli_read_def z_zbuf_len_def z_iosli_readable_def
      split: if_splits res.splits)

lemma uint8_shrinks: "shrinks z_uint8_decode"
  using uint8_less by (fastforce simp: shrinks_def)

lemma zint_loop_shrinks: "shrinks (zint64_decode_loop z_uint8_decode acc b i)"
proof (induction "z_uint8_decode" acc b i rule: zint64_decode_loop.induct)
  case (1 acc b i)
  show ?case
    by (subst zint64_decode_loop.simps) (use 1 in \<open>auto intro!: shrinks_bind uint8_shrinks shrinks_ret\<close>)
qed

lemma zint64_shrinks: "shrinks z_zint64_decode"
  unfolding z_zint64_decode_def by (intro shrinks_bind uint8_shrinks zint_loop_shrinks)

lemma slice_shrinks: "shrinks z_slice_decode"
proof -
  have "shrinks (z_slice_val_decode_na n)" for n
    by (auto simp: shrinks_def z_slice_val_decode_na_def bind_ok_def z_zbuf_set_rpos_def on_ios_def ret_def
        z_zbuf_len_def z_iosli_readable_def z_zbuf_get_rpos_def split: if_splits res.splits)
  moreover have "shrinks z_zsize_decode" unfolding z_zsize_decode_def
    by (rule shrinks_bind [OF zint64_shrinks]) (simp add: shrinks_ret shrinks_fail)
  ultimately show ?thesis unfolding z_slice_decode_def by (intro shrinks_bind)
qed

lemma body_shrinks: "shrinks (z_msg_ext_unknown_body_decode body enc)"
  by (simp add: z_msg_ext_unknown_body_decode_def z_msg_ext_decode_unit_def z_msg_ext_decode_zint_def
      z_msg_ext_decode_zbuf_def shrinks_ret shrinks_bind zint64_shrinks slice_shrinks)

lemma ext_decode_less: "z_msg_ext_decode ext z = Ok x z' \<Longrightarrow> z_zbuf_len z' < z_zbuf_len z"
  using uint8_less [of z] body_shrinks
  by (fastforce simp: z_msg_ext_decode_def bind_ok_def ret_def shrinks_def split: res.splits)

function z_msg_ext_decode_iter :: "(z_msg_ext_t \<Rightarrow> (unit, 'c) prog) \<Rightarrow> 'c \<Rightarrow> ('c, z_zbuf_t) prog" where
  "z_msg_ext_decode_iter callback c z =
     (case z_msg_ext_decode (z_msg_ext_make_unit 0) z of
        Ok (ext, has_next) z' \<Rightarrow>
          (case callback ext c of
             Ok _ c' \<Rightarrow> if has_next then z_msg_ext_decode_iter callback c' z' else Ok c' z'
           | Err e c' \<Rightarrow> Err e z'
           | Fault \<Rightarrow> Fault)
      | Err e z' \<Rightarrow> Err e z'
      | Fault \<Rightarrow> Fault)"
  by auto
termination
  by (relation "measure (\<lambda>(callback, c, z). z_zbuf_len z)") (auto dest: ext_decode_less)

declare z_msg_ext_decode_iter.simps [simp del]

text \<open>
  The error for an unknown mandatory extension; the rest of the function only writes the
  log.
\<close>

definition z_msg_ext_unknown_error :: "(unit, 'c) prog" where
  "z_msg_ext_unknown_error = fail Z_ERR_MESSAGE_EXTENSION_MANDATORY_AND_UNKNOWN"

definition z_msg_ext_skip_non_mandatory :: "z_msg_ext_t \<Rightarrow> (unit, 'c) prog" where
  "z_msg_ext_skip_non_mandatory ext =
     (if ext_header ext AND Z_MSG_EXT_FLAG_M \<noteq> 0 then z_msg_ext_unknown_error else ret ())"

definition z_msg_ext_skip_non_mandatories :: "(unit, z_zbuf_t) prog" where
  "z_msg_ext_skip_non_mandatories = z_msg_ext_decode_iter z_msg_ext_skip_non_mandatory ()"

text \<open>
  \<^verbatim>\<open>_z_msg_ext_vec_push_callback\<close> copies the extension to new memory, resets the one it
  was given, and appends the pointer to the reset one, which is the loop's local variable.
  The model appends what that pointer shows.
\<close>

definition z_msg_ext_vec_push_callback :: "z_msg_ext_t \<Rightarrow> (unit, z_msg_ext_t list) prog" where
  "z_msg_ext_vec_push_callback extension extensions =
     (let extension' = z_msg_ext_make_unit 0 in Ok () (extensions @ [extension']))"

definition z_msg_ext_vec_decode :: "(z_msg_ext_t list, z_zbuf_t) prog" where
  "z_msg_ext_vec_decode = z_msg_ext_decode_iter z_msg_ext_vec_push_callback []"

section \<open>What the loop makes of a list of extensions\<close>

definition ext_wf :: "z_msg_ext_t \<Rightarrow> bool" where
  "ext_wf e \<longleftrightarrow> ext_header e AND Z_MSG_EXT_FLAG_Z = 0 \<and>
     (case ext_body e of
        Ext_Unit \<Rightarrow> Z_EXT_ENC (ext_header e) = Z_MSG_EXT_ENC_UNIT \<or> Z_EXT_ENC (ext_header e) = Z_EXT_ENC_MASK
      | Ext_Zint v \<Rightarrow> Z_EXT_ENC (ext_header e) = Z_MSG_EXT_ENC_ZINT
      | Ext_Zbuf s \<Rightarrow> Z_EXT_ENC (ext_header e) = Z_MSG_EXT_ENC_ZBUF \<and> length s < 2 ^ 64)"

definition wire_ext_body :: "z_msg_ext_body_t \<Rightarrow> byte list" where
  "wire_ext_body b = (case b of Ext_Unit \<Rightarrow> [] | Ext_Zint v \<Rightarrow> z_zint64_encode_buf v | Ext_Zbuf s \<Rightarrow> wire_slice s)"

definition wire_ext :: "bool \<Rightarrow> z_msg_ext_t \<Rightarrow> byte list" where
  "wire_ext nxt e = (ext_header e OR Z_MSG_EXT_MORE nxt) # wire_ext_body (ext_body e)"

lemma ext_header_more:
  assumes "h AND Z_MSG_EXT_FLAG_Z = 0"
  shows "(h OR Z_MSG_EXT_MORE nxt) AND Z_EXT_FULL_ID_MASK = h"
    "Z_EXT_ENC (h OR Z_MSG_EXT_MORE nxt) = Z_EXT_ENC h"
    "(h OR Z_MSG_EXT_MORE nxt) AND Z_MSG_EXT_FLAG_Z \<noteq> 0 \<longleftrightarrow> nxt"
    "Z_EXT_FULL_ID h = h"
proof -
  have z: "bit Z_MSG_EXT_FLAG_Z n \<longleftrightarrow> n = 7" and m: "bit Z_EXT_FULL_ID_MASK n \<longleftrightarrow> n < 7"
    and e: "bit Z_EXT_ENC_MASK n \<longleftrightarrow> n = 5 \<or> n = 6" for n
  proof -
    have c: "Z_MSG_EXT_FLAG_Z = push_bit 7 1" "Z_EXT_FULL_ID_MASK = mask 7"
      "Z_EXT_ENC_MASK = push_bit 5 1 OR push_bit 6 1" by (simp_all add: z_ext_consts mask_eq_exp_minus_1)
    show "bit Z_MSG_EXT_FLAG_Z n \<longleftrightarrow> n = 7" "bit Z_EXT_FULL_ID_MASK n \<longleftrightarrow> n < 7"
      "bit Z_EXT_ENC_MASK n \<longleftrightarrow> n = 5 \<or> n = 6"
      unfolding c by (auto simp: bit_simps simp del: push_bit_of_1)
  qed
  have h: "\<not> bit h 7"
  proof
    assume "bit h 7"
    then have "bit (h AND Z_MSG_EXT_FLAG_Z) 7" by (simp add: bit_and_iff z)
    then show False using assms by simp
  qed
  have h': "bit h n \<Longrightarrow> n < 7" for n using h bit_imp_le_length [of h n] by (cases "n = 7") auto
  show "(h OR Z_MSG_EXT_MORE nxt) AND Z_EXT_FULL_ID_MASK = h" "Z_EXT_FULL_ID h = h"
    "Z_EXT_ENC (h OR Z_MSG_EXT_MORE nxt) = Z_EXT_ENC h"
    by (rule bit_word_eqI, use h' in \<open>auto simp: Z_EXT_FULL_ID_def Z_EXT_ENC_def Z_MSG_EXT_MORE_def bit_simps z m e\<close>)+
  show "(h OR Z_MSG_EXT_MORE nxt) AND Z_MSG_EXT_FLAG_Z \<noteq> 0 \<longleftrightarrow> nxt"
  proof (cases nxt)
    case True
    then have "bit ((h OR Z_MSG_EXT_MORE nxt) AND Z_MSG_EXT_FLAG_Z) 7" by (simp add: Z_MSG_EXT_MORE_def bit_simps z)
    then show ?thesis using True by auto
  next
    case False
    then show ?thesis using assms by (simp add: Z_MSG_EXT_MORE_def)
  qed
qed


text \<open>The body is the member of the union that the header names.\<close>

definition ext_shape :: "z_msg_ext_t \<Rightarrow> bool" where
  "ext_shape e \<longleftrightarrow>
     (case ext_body e of
        Ext_Unit \<Rightarrow> Z_EXT_ENC (ext_header e) = Z_MSG_EXT_ENC_UNIT \<or> Z_EXT_ENC (ext_header e) = Z_EXT_ENC_MASK
      | Ext_Zint v \<Rightarrow> Z_EXT_ENC (ext_header e) = Z_MSG_EXT_ENC_ZINT
      | Ext_Zbuf s \<Rightarrow> Z_EXT_ENC (ext_header e) = Z_MSG_EXT_ENC_ZBUF)"

lemma ext_enc_distinct [simp]:
  "Z_MSG_EXT_ENC_ZINT \<noteq> Z_MSG_EXT_ENC_UNIT" "Z_MSG_EXT_ENC_ZBUF \<noteq> Z_MSG_EXT_ENC_UNIT"
  "Z_MSG_EXT_ENC_ZBUF \<noteq> Z_MSG_EXT_ENC_ZINT" "Z_EXT_ENC_MASK \<noteq> Z_MSG_EXT_ENC_UNIT"
  "Z_EXT_ENC_MASK \<noteq> Z_MSG_EXT_ENC_ZINT" "Z_EXT_ENC_MASK \<noteq> Z_MSG_EXT_ENC_ZBUF"
  by (simp_all add: z_ext_consts)

lemmas ext_enc_distinct' [simp] = ext_enc_distinct [symmetric]

lemma ext_enc_cases: "Z_EXT_ENC h \<in> {Z_MSG_EXT_ENC_UNIT, Z_MSG_EXT_ENC_ZINT, Z_MSG_EXT_ENC_ZBUF, Z_EXT_ENC_MASK}"
proof -
  let ?e = "(if bit h 5 then push_bit 5 1 else 0) OR (if bit h 6 then push_bit 6 1 else 0) :: u8"
  have c: "Z_EXT_ENC_MASK = push_bit 5 1 OR push_bit 6 1" by (simp add: z_ext_consts)
  have "Z_EXT_ENC h = ?e"
    unfolding Z_EXT_ENC_def c by (rule bit_word_eqI) (auto simp: bit_simps simp del: push_bit_of_1)
  then show ?thesis by (auto simp: z_ext_consts)
qed

lemma ext_enc_masked: "Z_EXT_ENC (h AND Z_EXT_FULL_ID_MASK) = Z_EXT_ENC h"
  unfolding Z_EXT_ENC_def Z_EXT_FULL_ID_MASK_def Z_EXT_ENC_MASK_def
  by (subst and.left_commute) (simp add: and.commute)

lemma body_consumes:
  assumes "ext_wf e"
  shows "consumes (z_msg_ext_unknown_body_decode Ext_Unit (Z_EXT_ENC (ext_header e))) (wire_ext_body (ext_body e)) (ext_body e)"
proof (cases "ext_body e")
  case Ext_Unit
  then show ?thesis using assms consumes_ret [of Ext_Unit]
    by (auto simp: ext_wf_def z_msg_ext_unknown_body_decode_def wire_ext_body_def z_msg_ext_decode_unit_def)
next
  case (Ext_Zint v)
  then show ?thesis using assms consumes_bind [OF zint64_consumes [of v] consumes_ret, of Ext_Zint]
    by (auto simp: ext_wf_def z_msg_ext_unknown_body_decode_def wire_ext_body_def z_msg_ext_decode_zint_def)
next
  case (Ext_Zbuf s)
  then show ?thesis using assms consumes_bind [OF slice_consumes [of s] consumes_ret, of Ext_Zbuf]
    by (auto simp: ext_wf_def z_msg_ext_unknown_body_decode_def wire_ext_body_def z_msg_ext_decode_zbuf_def)
qed

lemma ext_decode_consumes:
  assumes "ext_wf e"
  shows "consumes (z_msg_ext_decode (z_msg_ext_make_unit 0)) (wire_ext nxt e) (e, nxt)"
proof -
  have h: "ext_header e AND Z_MSG_EXT_FLAG_Z = 0" using assms by (simp add: ext_wf_def)
  have "consumes (z_msg_ext_decode (z_msg_ext_make_unit 0))
     ([ext_header e OR Z_MSG_EXT_MORE nxt] @ (wire_ext_body (ext_body e) @ [])) (e, nxt)"
    unfolding z_msg_ext_decode_def
    apply (rule consumes_bind [OF uint8_consumes])
    apply (rule consumes_bind [of _ _ "ext_body e"])
     apply (simp add: ext_header_more [OF h] z_msg_ext_make_unit_def body_consumes [OF assms])
    apply (simp only: ext_header_more [OF h])
    using consumes_ret [of "(e, nxt)"] by (cases e) (simp add: z_msg_ext_make_unit_def)
  then show ?thesis by (simp add: wire_ext_def)
qed

lemma iter_last_consumes [consumes_intros]:
  assumes "ext_wf e" "callback e c = Ok u c'"
  shows "consumes (z_msg_ext_decode_iter callback c) (wire_ext False e) c'"
  using ext_decode_consumes [OF assms(1), of False] assms(2)
  by (simp add: consumes_def z_msg_ext_decode_iter.simps)

lemma iter_more_consumes [consumes_intros]:
  assumes "ext_wf e" "callback e c = Ok u c1" "consumes (z_msg_ext_decode_iter callback c1) bs c2"
  shows "consumes (z_msg_ext_decode_iter callback c) (wire_ext True e @ bs) c2"
  unfolding consumes_def
proof (intro allI impI, elim conjE)
  fix z rest assume z: "zbuf_wf z" "zbuf_bytes z = (wire_ext True e @ bs) @ rest"
  then have "z_msg_ext_decode (z_msg_ext_make_unit 0) z = Ok (e, True) (zadv (length (wire_ext True e)) z)"
    using consumesD [OF ext_decode_consumes [OF assms(1), of True], of z "bs @ rest"] by simp
  moreover have "z_msg_ext_decode_iter callback c1 (zadv (length (wire_ext True e)) z) =
      Ok c2 (zadv (length bs) (zadv (length (wire_ext True e)) z))"
    using z by (intro consumesD [OF assms(3), of _ rest] zadv_wf) simp_all
  ultimately show "z_msg_ext_decode_iter callback c z = Ok c2 (zadv (length (wire_ext True e @ bs)) z)"
    using assms(2) by (subst z_msg_ext_decode_iter.simps) simp
qed

text \<open>An error of the callback is the error of the message, whatever follows.\<close>

lemma iter_callback_error:
  assumes "ext_wf e" "callback e c = Err err c'" "zbuf_wf z" "zbuf_bytes z = wire_ext nxt e @ rest"
  shows "\<exists>z'. z_msg_ext_decode_iter callback c z = Err err z'"
  using consumesD [OF ext_decode_consumes [OF assms(1)] assms(3,4)] assms(2)
  by (subst z_msg_ext_decode_iter.simps) simp

section \<open>The loop on any input\<close>

lemma body_safe [safe_intros]: "safe (z_msg_ext_unknown_body_decode body enc)"
  unfolding z_msg_ext_unknown_body_decode_def z_msg_ext_decode_unit_def z_msg_ext_decode_zint_def
    z_msg_ext_decode_zbuf_def by (intro safe_intros)

lemma ext_decode_safe [safe_intros]: "safe (z_msg_ext_decode ext)"
  unfolding z_msg_ext_decode_def by (intro safe_intros)

lemma ext_decode_shape:
  assumes "z_msg_ext_decode (z_msg_ext_make_unit 0) z = Ok (e, nxt) z'"
  shows "ext_shape e"
  using assms ext_enc_cases [of h for h]
  by (fastforce simp: z_msg_ext_decode_def bind_ok_def ret_def z_msg_ext_make_unit_def ext_shape_def ext_enc_masked
      z_msg_ext_unknown_body_decode_def z_msg_ext_decode_unit_def z_msg_ext_decode_zint_def z_msg_ext_decode_zbuf_def
      split: res.splits if_splits)

definition callback_safe :: "(z_msg_ext_t \<Rightarrow> (unit, 'c) prog) \<Rightarrow> bool" where
  "callback_safe cb \<longleftrightarrow> (\<forall>e c. ext_shape e \<longrightarrow> cb e c \<noteq> Fault)"

lemma iter_zstep:
  assumes "callback_safe callback" "zbuf_wf z"
  shows "case z_msg_ext_decode_iter callback c z of Ok _ z' \<Rightarrow> zstep z z' | Err _ z' \<Rightarrow> zstep z z' | Fault \<Rightarrow> False"
  using assms
proof (induction callback c z rule: z_msg_ext_decode_iter.induct)
  case (1 callback c z)
  let ?d = "z_msg_ext_decode (z_msg_ext_make_unit 0)"
  show ?case
  proof (cases "?d z")
    case (Ok x z')
    obtain e nxt where x: "x = (e, nxt)" by (cases x)
    have st: "zstep z z'" using safeD_ok [OF ext_decode_safe 1(3) Ok] .
    have wf: "zbuf_wf z'" using zstep_wf [OF 1(3) st] .
    have nf: "callback e c \<noteq> Fault" using 1(2) ext_decode_shape Ok x by (auto simp: callback_safe_def)
    show ?thesis
    proof (cases "callback e c")
      case (Ok u c')
      then show ?thesis using 1(1) [OF \<open>?d z = Ok x z'\<close> x [symmetric] Ok] 1(2) wf st x \<open>?d z = Ok x z'\<close> zstep_trans [OF st]
        by (subst z_msg_ext_decode_iter.simps) (auto split: res.splits)
    next
      case (Err err c')
      then show ?thesis using \<open>?d z = Ok x z'\<close> x st by (subst z_msg_ext_decode_iter.simps) simp
    qed (use nf in simp)
  next
    case (Err e z')
    then show ?thesis using safeD_err [OF ext_decode_safe 1(3) Err] by (subst z_msg_ext_decode_iter.simps) simp
  qed (use safeD_fault [OF ext_decode_safe 1(3)] in simp)
qed

lemma iter_safe [safe_intros]: "callback_safe callback \<Longrightarrow> safe (z_msg_ext_decode_iter callback c)"
  using iter_zstep by (fastforce simp: safe_def)

lemma skip_callback_safe [safe_intros]: "callback_safe z_msg_ext_skip_non_mandatory"
  by (simp add: callback_safe_def z_msg_ext_skip_non_mandatory_def z_msg_ext_unknown_error_def fail_def ret_def)

lemma skip_safe [safe_intros]: "safe z_msg_ext_skip_non_mandatories"
  unfolding z_msg_ext_skip_non_mandatories_def by (intro safe_intros)


section \<open>The encoder of a single extension and of a vector of them\<close>

lemma ignore_code_appends:
  assumes "appends p bs" "wbuf_wf w"
  shows "\<exists>w' pre. ignore_code p w = Ok () w' \<and> prefix pre bs \<and> wrote pre w w' \<and>
    (wbuf_fits w (length bs) \<longrightarrow> pre = bs)"
  using appends_ok [OF assms] appends_err [OF assms]
  by (cases "wbuf_fits w (length bs)") (fastforce simp: ignore_code_def)+

lemma ext_encode_outcome:
  assumes e: "ext_wf e" and w: "wbuf_wf w" "wbuf_fits w 1"
  shows "\<exists>w' pre. z_msg_ext_encode e nxt w = Ok () w' \<and> prefix pre (wire_ext nxt e) \<and> wrote pre w w' \<and>
    (wbuf_fits w (length (wire_ext nxt e)) \<longrightarrow> pre = wire_ext nxt e)"
proof -
  have h: "ext_header e AND Z_MSG_EXT_FLAG_Z = 0" using e by (simp add: ext_wf_def)
  have hd: "Z_EXT_FULL_ID (ext_header e) OR push_bit 7 (of_bool nxt) = ext_header e OR Z_MSG_EXT_MORE nxt"
    by (simp add: ext_header_more [OF h] Z_MSG_EXT_MORE_def Z_MSG_EXT_FLAG_Z_def)
  define body :: "(unit, z_wbuf_t) prog" where "body =
     (let enc = Z_EXT_ENC (ext_header e) in
          if enc = Z_MSG_EXT_ENC_UNIT then z_msg_ext_encode_unit
          else if enc = Z_MSG_EXT_ENC_ZINT then ext_zint e z_msg_ext_encode_zint
          else if enc = Z_MSG_EXT_ENC_ZBUF then ext_zbuf e z_msg_ext_encode_zbuf
          else ret ())"
  have body: "appends body (wire_ext_body (ext_body e))"
    using e by (cases "ext_body e")
      (auto simp: body_def ext_wf_def Let_def wire_ext_body_def ext_zint_def ext_zbuf_def z_msg_ext_encode_unit_def
        z_msg_ext_encode_zint_def z_msg_ext_encode_zbuf_def intro: appends_intros)
  obtain w1 where w1: "z_wbuf_write (ext_header e OR Z_MSG_EXT_MORE nxt) w = Ok () w1"
    "wrote [ext_header e OR Z_MSG_EXT_MORE nxt] w w1"
    using appends_ok [OF appends_write w(1)] w(2) by auto
  then have wf1: "wbuf_wf w1" and f1: "wbuf_fits w1 n = wbuf_fits w (1 + n)" for n by (auto simp: wrote_def)
  obtain w2 pre where w2: "ignore_code body w1 = Ok () w2" "prefix pre (wire_ext_body (ext_body e))" "wrote pre w1 w2"
    "wbuf_fits w1 (length (wire_ext_body (ext_body e))) \<longrightarrow> pre = wire_ext_body (ext_body e)"
    using ignore_code_appends [OF body wf1] by blast
  have "z_msg_ext_encode e nxt w = Ok () w2"
    using w1(1) w2(1) by (simp add: z_msg_ext_encode_def then_do_def bind_ok_def hd body_def)
  then show ?thesis using w2 wrote_trans [OF w1(2) w2(3)] f1
    by (auto simp: wire_ext_def intro!: exI [of _ "(ext_header e OR Z_MSG_EXT_MORE nxt) # pre"])
qed

text \<open>
  Without room for the whole extension the encoder still returns \<^verbatim>\<open>_Z_RES_OK\<close>, and the
  buffer holds a proper prefix of it.
\<close>

lemma ext_encode_truncates:
  assumes "ext_wf e" "wbuf_wf w" "wbuf_fits w 1" "\<not> wbuf_fits w (length (wire_ext nxt e))"
  shows "\<exists>w' pre. z_msg_ext_encode e nxt w = Ok () w' \<and> strict_prefix pre (wire_ext nxt e) \<and>
    wbuf_bytes w' = wbuf_bytes w @ pre"
proof -
  obtain w' pre where r: "z_msg_ext_encode e nxt w = Ok () w'" "prefix pre (wire_ext nxt e)" "wrote pre w w'"
    using ext_encode_outcome [OF assms(1-3)] by blast
  have "pre \<noteq> wire_ext nxt e"
  proof
    assume "pre = wire_ext nxt e"
    then have "wbuf_fits w' 0 = wbuf_fits w (length (wire_ext nxt e))" using r(3) by (simp add: wrote_def)
    then show False using assms(4) by (simp add: wbuf_fits_def)
  qed
  then show ?thesis using r by (auto simp: strict_prefix_def wrote_def)
qed

lemma ext_encode_fits:
  assumes "ext_wf e" "wbuf_wf w" "wbuf_fits w (length (wire_ext nxt e))"
  shows "\<exists>w'. z_msg_ext_encode e nxt w = Ok () w' \<and> wrote (wire_ext nxt e) w w'"
proof -
  have "wbuf_fits w 1" using wbuf_fits_mono [OF assms(3)] by (simp add: wire_ext_def)
  from ext_encode_outcome [OF assms(1,2) this, of nxt] assms(3) show ?thesis by auto
qed

lemma ext_vec_encode_bytes:
  assumes "\<forall>e \<in> set es. ext_wf e" "wbuf_wf w" "wbuf_fits w (length (concat (map (wire_ext True) es)))"
  shows "\<exists>w'. z_msg_ext_vec_encode es w = Ok () w' \<and> wrote (concat (map (wire_ext True) es)) w w'"
  using assms
proof (induction es arbitrary: w)
  case Nil
  then show ?case by (simp add: ret_def wrote_Nil)
next
  case (Cons e es)
  have "wbuf_fits w (length (wire_ext True e))" using wbuf_fits_mono [OF Cons.prems(3)] by simp
  then obtain w1 where w1: "z_msg_ext_encode e True w = Ok () w1" "wrote (wire_ext True e) w w1"
    using ext_encode_fits [of e w True] Cons.prems by auto
  show ?case
  proof (cases "es = []")
    case True
    then show ?thesis using w1 by simp
  next
    case False
    have "wbuf_wf w1" "wbuf_fits w1 (length (concat (map (wire_ext True) es)))"
      using w1(2) Cons.prems(3) by (simp_all add: wrote_def)
    then obtain w2 where "z_msg_ext_vec_encode es w1 = Ok () w2" "wrote (concat (map (wire_ext True) es)) w1 w2"
      using Cons.IH Cons.prems(1) by auto
    then show ?thesis using False w1 wrote_trans by (fastforce simp: then_do_def bind_ok_def)
  qed
qed

lemma iter_step:
  assumes "ext_wf e" "callback e c = Ok u c1" "zbuf_wf z" "zbuf_bytes z = wire_ext True e @ rest"
  shows "z_msg_ext_decode_iter callback c z = z_msg_ext_decode_iter callback c1 (zadv (length (wire_ext True e)) z)"
  using consumesD [OF ext_decode_consumes [OF assms(1), of True] assms(3,4)] assms(2)
  by (subst z_msg_ext_decode_iter.simps) simp

text \<open>
  The flag for another extension is set on the last one too, so the bytes the vector
  encoder writes are refused by the vector decoder unless something follows that happens
  to be an extension.
\<close>

lemma ext_vec_not_readable:
  assumes "\<forall>e \<in> set es. ext_wf e" "zbuf_wf z" "zbuf_bytes z = concat (map (wire_ext True) es)"
    "\<And>e c. \<exists>c'. callback e c = Ok () c'"
  shows "\<exists>z'. z_msg_ext_decode_iter callback c z = Err Z_ERR_MESSAGE_DESERIALIZATION_FAILED z'"
  using assms(1-3)
proof (induction es arbitrary: c z)
  case Nil
  then have "\<not> z_zbuf_can_read z" using zbuf_len_bytes [of z]
    by (simp add: z_zbuf_can_read_def z_iosli_can_read_def z_zbuf_len_def z_iosli_readable_def)
  then show ?case by (subst z_msg_ext_decode_iter.simps) (simp add: z_msg_ext_decode_def z_uint8_decode_def bind_ok_def)
next
  case (Cons e es)
  obtain c1 where c1: "callback e c = Ok () c1" using assms(4) by blast
  have "z_msg_ext_decode_iter callback c z = z_msg_ext_decode_iter callback c1 (zadv (length (wire_ext True e)) z)"
    using Cons.prems c1 by (intro iter_step [where callback = callback]) auto
  moreover have "zbuf_wf (zadv (length (wire_ext True e)) z)" using Cons.prems by (intro zadv_wf) auto
  ultimately show ?case using Cons.IH [of "zadv (length (wire_ext True e)) z" c1] Cons.prems by simp
qed

lemma push_callback_ok: "\<exists>c'. z_msg_ext_vec_push_callback e c = Ok () c'"
  by (simp add: z_msg_ext_vec_push_callback_def)

text \<open>Whatever extensions are on the wire, the decoded vector holds none of them.\<close>

lemma push_callback_iter:
  "z_msg_ext_decode_iter z_msg_ext_vec_push_callback c z = Ok es z' \<Longrightarrow>
   \<exists>n. es = c @ replicate (Suc n) (z_msg_ext_make_unit 0)"
proof (induction z_msg_ext_vec_push_callback c z arbitrary: es rule: z_msg_ext_decode_iter.induct)
  case (1 c z)
  note step = z_msg_ext_decode_iter.simps [of z_msg_ext_vec_push_callback c z]
  obtain e nxt z1 where d: "z_msg_ext_decode (z_msg_ext_make_unit 0) z = Ok (e, nxt) z1"
    using 1(2) unfolding step by (cases "z_msg_ext_decode (z_msg_ext_make_unit 0) z") auto
  let ?c = "c @ [z_msg_ext_make_unit 0]"
  have cb: "z_msg_ext_vec_push_callback e c = Ok () ?c" by (simp add: z_msg_ext_vec_push_callback_def)
  show ?case
  proof (cases nxt)
    case True
    then have "z_msg_ext_decode_iter z_msg_ext_vec_push_callback ?c z1 = Ok es z'"
      using 1(2) d cb unfolding step by simp
    from 1(1) [OF d refl cb True this] show ?thesis
      by (metis append.assoc append_Cons append_Nil replicate_Suc)
  next
    case False
    then show ?thesis using 1(2) d cb unfolding step by (auto intro!: exI [of _ 0])
  qed
qed

section \<open>Lists of extensions\<close>

fun wire_exts :: "z_msg_ext_t list \<Rightarrow> byte list" where
  "wire_exts [] = []"
| "wire_exts (e # es) = wire_ext (es \<noteq> []) e @ wire_exts es"

fun run_callback :: "(z_msg_ext_t \<Rightarrow> (unit, 'c) prog) \<Rightarrow> z_msg_ext_t list \<Rightarrow> 'c \<Rightarrow> 'c option" where
  "run_callback cb [] c = Some c"
| "run_callback cb (e # es) c = (case cb e c of Ok _ c' \<Rightarrow> run_callback cb es c' | _ \<Rightarrow> None)"

lemma iter_exts_consumes:
  "es \<noteq> [] \<Longrightarrow> list_all ext_wf es \<Longrightarrow> run_callback cb es c = Some c' \<Longrightarrow>
   consumes (z_msg_ext_decode_iter cb c) (wire_exts es) c'"
proof (induction es arbitrary: c)
  case (Cons e es)
  obtain u c1 where cb: "cb e c = Ok u c1" and rest: "run_callback cb es c1 = Some c'"
    using Cons.prems(3) by (cases "cb e c") auto
  show ?case
  proof (cases "es = []")
    case True
    then show ?thesis using Cons.prems cb rest iter_last_consumes [of e cb c u c1] by simp
  next
    case False
    then have "consumes (z_msg_ext_decode_iter cb c1) (wire_exts es) c'"
      using Cons.IH rest Cons.prems(2) by simp
    then show ?thesis using False Cons.prems cb iter_more_consumes [of e cb c u c1] by simp
  qed
qed simp

text \<open>The extension part of a message, present when its flag says so.\<close>

lemma opt_exts_consumes:
  assumes "b \<longleftrightarrow> es \<noteq> []" "list_all ext_wf es" "run_callback cb es c = Some c'"
  shows "consumes (if b then z_msg_ext_decode_iter cb c else ret c) (wire_exts es) c'"
  using assms iter_exts_consumes [of es cb c c'] by (cases "es = []") (auto simp: consumes_ret)

end
