(* ===== verification/Zp_Message.thy ===== *)
theory Zp_Message
  imports Zp_Ext
begin

text \<open>
  The Zenoh message layer: the fields and the bodies of \<^verbatim>\<open>src/protocol/codec/message.c\<close>,
  with the structures of \<^verbatim>\<open>include/zenoh-pico/protocol/definitions/message.h\<close> (IDs,
  timestamps, wire expressions, source information; put, del, query, reply and err bodies).
  A decoder takes the structure it fills, as the code does, and returns it; a structure
  whose decoding failed is not looked at by any caller. The scouting messages are not part
  of this theory.
\<close>

section \<open>Flags\<close>

definition Z_MID_MASK :: u8 where "Z_MID_MASK = 0x1f"
definition Z_MID :: "u8 \<Rightarrow> u8" where "Z_MID h = Z_MID_MASK AND h"
definition Z_HAS_FLAG :: "u8 \<Rightarrow> u8 \<Rightarrow> bool" where "Z_HAS_FLAG h f \<longleftrightarrow> h AND f \<noteq> 0"

definition Z_MID_Z_OAM :: u8 where "Z_MID_Z_OAM = 0x00"
definition Z_MID_Z_PUT :: u8 where "Z_MID_Z_PUT = 0x01"
definition Z_MID_Z_DEL :: u8 where "Z_MID_Z_DEL = 0x02"
definition Z_MID_Z_QUERY :: u8 where "Z_MID_Z_QUERY = 0x03"
definition Z_MID_Z_REPLY :: u8 where "Z_MID_Z_REPLY = 0x04"
definition Z_MID_Z_ERR :: u8 where "Z_MID_Z_ERR = 0x05"
definition Z_FLAG_Z_Z :: u8 where "Z_FLAG_Z_Z = 0x80"
definition Z_FLAG_Z_E_E :: u8 where "Z_FLAG_Z_E_E = 0x40"
definition Z_FLAG_Z_D_T :: u8 where "Z_FLAG_Z_D_T = 0x20"
definition Z_FLAG_Z_P_E :: u8 where "Z_FLAG_Z_P_E = 0x40"
definition Z_FLAG_Z_P_T :: u8 where "Z_FLAG_Z_P_T = 0x20"
definition Z_FLAG_Z_Q_C :: u8 where "Z_FLAG_Z_Q_C = 0x20"
definition Z_FLAG_Z_Q_P :: u8 where "Z_FLAG_Z_Q_P = 0x40"
definition Z_FLAG_Z_R_C :: u8 where "Z_FLAG_Z_R_C = 0x20"

lemmas z_msg_consts = Z_MID_MASK_def Z_MID_def Z_HAS_FLAG_def Z_MID_Z_OAM_def Z_MID_Z_PUT_def Z_MID_Z_DEL_def
  Z_MID_Z_QUERY_def Z_MID_Z_REPLY_def Z_MID_Z_ERR_def Z_FLAG_Z_Z_def Z_FLAG_Z_E_E_def Z_FLAG_Z_D_T_def
  Z_FLAG_Z_P_E_def Z_FLAG_Z_P_T_def Z_FLAG_Z_Q_C_def Z_FLAG_Z_Q_P_def Z_FLAG_Z_R_C_def

section \<open>Fields\<close>

text \<open>
  \<^verbatim>\<open>_z_id_encode_as_slice\<close> sends the significant bytes of an ID and refuses the ID of
  zeros. \<^verbatim>\<open>_z_id_decode_as_slice\<close> checks nothing: the read of the length byte and of the
  bytes asserts that they are there, and more than sixteen bytes run over the ID.
\<close>

definition z_id_encode_as_slice :: "z_id_t \<Rightarrow> (unit, z_wbuf_t) prog" where
  "z_id_encode_as_slice i =
     (let len = z_id_len i in
      if len \<noteq> 0 then z_slice_encode (take len i) else fail Z_ERR_MESSAGE_ZENOH_UNKNOWN)"

definition z_id_decode_as_slice :: "(z_id_t, z_zbuf_t) prog" where
  "z_id_decode_as_slice = bind_ok z_zbuf_read (\<lambda>len.
     if unat len \<le> ZENOH_ID_SIZE
     then bind_ok (z_zbuf_read_bytes (unat len)) (\<lambda>bs. ret (bs @ replicate (ZENOH_ID_SIZE - unat len) 0))
     else fault)"

definition z_timestamp_encode :: "z_timestamp_t \<Rightarrow> (unit, z_wbuf_t) prog" where
  "z_timestamp_encode ts = then_do (z_zint64_encode (ts_time ts)) (z_id_encode_as_slice (ts_id ts))"

definition z_timestamp_encode_ext :: "z_timestamp_t \<Rightarrow> (unit, z_wbuf_t) prog" where
  "z_timestamp_encode_ext ts =
     (let ext_size = unat (z_zint_len (ts_time ts)) + 1 + z_id_len (ts_id ts) in
      then_do (z_zsize_encode (of_nat ext_size)) (z_timestamp_encode ts))"

definition z_timestamp_decode :: "z_timestamp_t \<Rightarrow> (z_timestamp_t, z_zbuf_t) prog" where
  "z_timestamp_decode ts =
     bind_ok (attempt (ts_time ts) z_zint64_decode) (\<lambda>(r1, time).
     bind_ok (attempt (ts_id ts) z_id_decode_as_slice) (\<lambda>(r2, i).
       return_code (r1 OR r2) (ts\<lparr>ts_time := time, ts_id := i, ts_valid := True\<rparr>)))"

definition z_wireexpr_encode :: "bool \<Rightarrow> z_wireexpr_t \<Rightarrow> (unit, z_wbuf_t) prog" where
  "z_wireexpr_encode has_suffix fld =
     then_do (z_zsize_encode (ucast (we_id fld)))
       (when_do has_suffix (z_string_encode (we_suffix fld)))"

definition z_wireexpr_decode ::
    "bool \<Rightarrow> bool \<Rightarrow> keyexpr_mapping \<Rightarrow> (z_wireexpr_t, z_zbuf_t) prog" where
  "z_wireexpr_decode has_suffix remote_mapping mapping =
     bind_ok (attempt 0 z_zint16_decode) (\<lambda>(r1, i).
     let m = (if remote_mapping then mapping else KEYEXPR_MAPPING_LOCAL) in
     if has_suffix
     then bind_ok (attempt [] z_string_decode) (\<lambda>(r2, s).
       return_code (r1 OR r2) \<lparr>we_id = i, we_mapping = m, we_suffix = s\<rparr>)
     else return_code r1 \<lparr>we_id = i, we_mapping = m, we_suffix = []\<rparr>)"

text \<open>
  Source information: one byte with the length of the ID (minus one, in the high half),
  the ID, the entity ID and the sequence number. The length of the ID of zeros is zero, so
  the encoders then write \<^verbatim>\<open>(0 - 1) << 4\<close> cut to a byte, which announces sixteen bytes,
  and no ID.
\<close>

definition si_len_byte :: "z_id_t \<Rightarrow> u8" where
  "si_len_byte zid = push_bit 4 (of_nat (z_id_len zid) - 1)"

definition z_source_info_encode :: "z_source_info_t \<Rightarrow> (unit, z_wbuf_t) prog" where
  "z_source_info_encode info =
     (let zid = eg_zid (si_source_id info) in
      bind_ok (attempt () (z_uint8_encode (si_len_byte zid))) (\<lambda>(r1, _).
      bind_ok (attempt () (z_slice_val_encode (take (z_id_len zid) zid))) (\<lambda>(r2, _).
      bind_ok (attempt () (z_zsize_encode (ucast (eg_eid (si_source_id info))))) (\<lambda>(r3, _).
      bind_ok (attempt () (z_zsize_encode (ucast (si_source_sn info)))) (\<lambda>(r4, _).
        return_code (r1 OR r2 OR r3 OR r4) ())))))"

definition z_source_info_encode_ext :: "z_source_info_t \<Rightarrow> (unit, z_wbuf_t) prog" where
  "z_source_info_encode_ext info =
     (let zid = eg_zid (si_source_id info);
          ext_size = 1 + z_id_len zid + unat (z_zint_len (ucast (eg_eid (si_source_id info)))) +
                     unat (z_zint_len (ucast (si_source_sn info))) in
      then_do (z_zsize_encode (of_nat ext_size))
        (then_do (z_uint8_encode (si_len_byte zid))
          (then_do (z_slice_val_encode (take (z_id_len zid) zid))
            (then_do (z_zsize_encode (ucast (eg_eid (si_source_id info))))
              (z_zsize_encode (ucast (si_source_sn info)))))))"

definition z_source_info_decode :: "z_source_info_t \<Rightarrow> (z_source_info_t, z_zbuf_t) prog" where
  "z_source_info_decode info = bind_ok z_uint8_decode (\<lambda>b z.
     let zidlen = drop_bit 4 b + 1 in
     if z_zbuf_len z < unat zidlen then Err Z_ERR_MESSAGE_DESERIALIZATION_FAILED z
     else bind_ok (z_zbuf_read_bytes (unat zidlen)) (\<lambda>bs.
          bind_ok z_zsize_decode (\<lambda>eid.
            if UINT32_MAX < eid then fail Z_ERR_MESSAGE_DESERIALIZATION_FAILED
            else bind_ok z_zsize_decode (\<lambda>sn.
              if UINT32_MAX < sn then fail Z_ERR_MESSAGE_DESERIALIZATION_FAILED
              else ret (info\<lparr>si_source_id := \<lparr>eg_zid = bs @ replicate (ZENOH_ID_SIZE - unat zidlen) 0,
                                             eg_eid = ucast eid\<rparr>,
                             si_source_sn := ucast sn\<rparr>)))) z)"

section \<open>Push bodies\<close>

record z_m_push_commons_t =
  pc_timestamp :: z_timestamp_t
  pc_source_info :: z_source_info_t

record z_msg_put_t =
  put_commons :: z_m_push_commons_t
  put_payload :: z_bytes_t
  put_encoding :: z_encoding_t
  put_attachment :: z_bytes_t

record z_msg_del_t =
  del_commons :: z_m_push_commons_t
  del_attachment :: z_bytes_t

text \<open>
  The body of a push is a union of a put and a del, which share their first member; the
  codec reads and writes it through the put. So the second member of the del lies where
  the put has its payload.
\<close>

record z_push_body_t =
  pb_is_put :: bool
  pb_put :: z_msg_put_t

definition z_m_push_commons_null :: z_m_push_commons_t where
  "z_m_push_commons_null = \<lparr>pc_timestamp = z_timestamp_null, pc_source_info = z_source_info_null\<rparr>"

definition z_msg_put_null :: z_msg_put_t where
  "z_msg_put_null = \<lparr>put_commons = z_m_push_commons_null, put_payload = [], put_encoding = z_encoding_null,
                     put_attachment = []\<rparr>"

definition z_push_body_null :: z_push_body_t where
  "z_push_body_null = \<lparr>pb_is_put = False, pb_put = z_msg_put_null\<rparr>"

definition z_bytes_check :: "z_bytes_t \<Rightarrow> bool" where
  "z_bytes_check bs \<longleftrightarrow> (\<exists>s \<in> set bs. 0 < length s)"

definition z_encoding_check :: "z_encoding_t \<Rightarrow> bool" where
  "z_encoding_check en \<longleftrightarrow> enc_id en \<noteq> 0 \<or> z_string_check (enc_schema en)"

definition has_source_info :: "z_source_info_t \<Rightarrow> bool" where
  "has_source_info si \<longleftrightarrow> z_id_check (eg_zid (si_source_id si)) \<or> si_source_sn si \<noteq> 0 \<or>
     eg_eid (si_source_id si) \<noteq> 0"

definition z_push_body_encode :: "z_push_body_t \<Rightarrow> (unit, z_wbuf_t) prog" where
  "z_push_body_encode pshb =
     (let put = pb_put pshb;
          header = (if pb_is_put pshb then Z_MID_Z_PUT else Z_MID_Z_DEL);
          has_source_info = has_source_info (pc_source_info (put_commons put));
          has_attachment = pb_is_put pshb \<and> z_bytes_check (put_attachment put);
          has_timestamp = z_timestamp_check (pc_timestamp (put_commons put));
          header = (if has_source_info \<or> has_attachment then header OR Z_FLAG_Z_Z else header);
          has_encoding = pb_is_put pshb \<and> z_encoding_check (put_encoding put);
          header = (if pb_is_put pshb
                    then let header = (if has_timestamp then header OR Z_FLAG_Z_P_T else header) in
                         (if has_encoding then header OR Z_FLAG_Z_P_E else header)
                    else (if has_timestamp then header OR Z_FLAG_Z_D_T else header))
      in then_do (z_uint8_encode header)
        (then_do (when_do has_timestamp (z_timestamp_encode (pc_timestamp (put_commons put))))
        (then_do (when_do has_encoding (z_encoding_encode (put_encoding put)))
        (then_do (when_do has_source_info
             (then_do (z_uint8_encode (Z_MSG_EXT_ENC_ZBUF OR 0x01 OR (if has_attachment then Z_FLAG_Z_Z else 0)))
                (z_source_info_encode_ext (pc_source_info (put_commons put)))))
        (then_do (when_do has_attachment
             (then_do (z_uint8_encode (Z_MSG_EXT_ENC_ZBUF OR 0x03)) (z_bytes_encode (put_attachment put))))
        (when_do (pb_is_put pshb) (z_bytes_encode (put_payload put))))))))"

text \<open>
  A decoder that runs on the bytes of an extension has a buffer of its own; only its result
  matters to the message.
\<close>

definition on_slice :: "('a, z_zbuf_t) prog \<Rightarrow> byte list \<Rightarrow> ('a, 'c) prog" where
  "on_slice d s c = (case d (z_slice_as_zbuf s) of Ok x _ \<Rightarrow> Ok x c | Err e _ \<Rightarrow> Err e c | Fault \<Rightarrow> Fault)"

text \<open>
  An unknown extension is an error when it is mandatory. (\<^verbatim>\<open>_Z_HAS_FLAG(header,
  _Z_MSG_EXT_FLAG_M)\<close>.)
\<close>

definition unknown_ext :: "z_msg_ext_t \<Rightarrow> (unit, 'c) prog" where
  "unknown_ext extension =
     (if Z_HAS_FLAG (ext_header extension) Z_MSG_EXT_FLAG_M then z_msg_ext_unknown_error else ret ())"

definition z_push_body_decode_extensions :: "z_msg_ext_t \<Rightarrow> (unit, z_push_body_t) prog" where
  "z_push_body_decode_extensions extension =
     (let i = Z_EXT_FULL_ID (ext_header extension) in
      if i = Z_MSG_EXT_ENC_ZBUF OR 0x01
      then ext_zbuf extension (\<lambda>s pshb.
             bind_ok (on_slice (z_source_info_decode (pc_source_info (put_commons (pb_put pshb)))) s)
               (\<lambda>si pshb. Ok () (pshb\<lparr>pb_put := (pb_put pshb)\<lparr>put_commons :=
                                   (put_commons (pb_put pshb))\<lparr>pc_source_info := si\<rparr>\<rparr>\<rparr>)) pshb)
      else if i = Z_MSG_EXT_ENC_ZBUF OR 0x03
      then ext_zbuf extension (\<lambda>s pshb. Ok () (pshb\<lparr>pb_put := (pb_put pshb)\<lparr>put_attachment := [s]\<rparr>\<rparr>))
      else unknown_ext extension)"

definition z_push_body_decode :: "z_push_body_t \<Rightarrow> u8 \<Rightarrow> (z_push_body_t, z_zbuf_t) prog" where
  "z_push_body_decode pshb header =
     (if Z_MID header = Z_MID_Z_PUT
      then let pshb = pshb\<lparr>pb_is_put := True\<rparr> in
        bind_ok (if Z_HAS_FLAG header Z_FLAG_Z_P_T
                 then bind_ok (z_timestamp_decode (pc_timestamp (put_commons (pb_put pshb))))
                   (\<lambda>ts. ret (pshb\<lparr>pb_put := (pb_put pshb)\<lparr>put_commons :=
                                   (put_commons (pb_put pshb))\<lparr>pc_timestamp := ts\<rparr>\<rparr>\<rparr>))
                 else ret pshb) (\<lambda>pshb.
        bind_ok (if Z_HAS_FLAG header Z_FLAG_Z_P_E
                 then bind_ok (z_encoding_decode (put_encoding (pb_put pshb)))
                   (\<lambda>en. ret (pshb\<lparr>pb_put := (pb_put pshb)\<lparr>put_encoding := en\<rparr>\<rparr>))
                 else ret pshb) (\<lambda>pshb.
        bind_ok (if Z_HAS_FLAG header Z_FLAG_Z_Z
                 then z_msg_ext_decode_iter z_push_body_decode_extensions pshb
                 else ret pshb) (\<lambda>pshb.
        bind_ok z_bytes_decode (\<lambda>bs. ret (pshb\<lparr>pb_put := (pb_put pshb)\<lparr>put_payload := bs\<rparr>\<rparr>)))))
      else if Z_MID header = Z_MID_Z_DEL
      then let pshb = pshb\<lparr>pb_is_put := False\<rparr> in
        bind_ok (if Z_HAS_FLAG header Z_FLAG_Z_D_T
                 then bind_ok (z_timestamp_decode (pc_timestamp (put_commons (pb_put pshb))))
                   (\<lambda>ts. ret (pshb\<lparr>pb_put := (pb_put pshb)\<lparr>put_commons :=
                                   (put_commons (pb_put pshb))\<lparr>pc_timestamp := ts\<rparr>\<rparr>\<rparr>))
                 else ret pshb) (\<lambda>pshb.
        if Z_HAS_FLAG header Z_FLAG_Z_Z
        then z_msg_ext_decode_iter z_push_body_decode_extensions pshb
        else ret pshb)
      else fail Z_ERR_MESSAGE_ZENOH_UNKNOWN)"

text \<open>
  The put and del messages on their own. Their decoders assert the kind in the header.
\<close>

definition z_put_encode :: "z_msg_put_t \<Rightarrow> (unit, z_wbuf_t) prog" where
  "z_put_encode put = z_push_body_encode \<lparr>pb_is_put = True, pb_put = put\<rparr>"

definition z_put_decode :: "z_msg_put_t \<Rightarrow> u8 \<Rightarrow> (z_msg_put_t, z_zbuf_t) prog" where
  "z_put_decode put header =
     (if Z_MID header = Z_MID_Z_PUT
      then bind_ok (z_push_body_decode \<lparr>pb_is_put = True, pb_put = put\<rparr> header) (\<lambda>body. ret (pb_put body))
      else fault)"

definition del_as_put :: "z_msg_del_t \<Rightarrow> z_msg_put_t" where
  "del_as_put d = z_msg_put_null\<lparr>put_commons := del_commons d, put_payload := del_attachment d\<rparr>"

definition put_as_del :: "z_msg_put_t \<Rightarrow> z_msg_del_t" where
  "put_as_del p = \<lparr>del_commons = put_commons p, del_attachment = put_payload p\<rparr>"

definition z_del_encode :: "z_msg_del_t \<Rightarrow> (unit, z_wbuf_t) prog" where
  "z_del_encode d = z_push_body_encode \<lparr>pb_is_put = False, pb_put = del_as_put d\<rparr>"

definition z_del_decode :: "z_msg_del_t \<Rightarrow> u8 \<Rightarrow> (z_msg_del_t, z_zbuf_t) prog" where
  "z_del_decode d header =
     (if Z_MID header = Z_MID_Z_DEL
      then bind_ok (z_push_body_decode \<lparr>pb_is_put = False, pb_put = del_as_put d\<rparr> header)
             (\<lambda>body. ret (put_as_del (pb_put body)))
      else fault)"


section \<open>Fields: round trips\<close>

lemma wire_len_small: "n < 128 \<Longrightarrow> wire_len n = [of_nat n]"
proof -
  assume n: "n < 128"
  have "\<not> bit (of_nat n :: u64) k" if "7 \<le> k" for k
  proof -
    have "n < 2 ^ 7" using n by simp
    also have "(2 :: nat) ^ 7 \<le> 2 ^ k" using that by (rule power_increasing) simp
    finally show ?thesis by (simp add: bit_simps) (simp add: bit_iff_odd)
  qed
  then have m: "(of_nat n :: u64) AND VLE_LEN1_MASK = 0" by (simp add: mask1_bits)
  moreover have "ucast ((of_nat n :: u64) AND 0xff) = (of_nat n :: u8)"
  proof -
    have m: "(0xff :: u64) = mask 8" by (simp add: mask_eq_exp_minus_1)
    show ?thesis by (rule bit_word_eqI) (auto simp: m bit_simps)
  qed
  ultimately show ?thesis
    by (simp add: wire_len_def zint_buf_tail zint_tail.simps [of 0] VLE_LEN_def)
qed

definition wire_zid :: "z_id_t \<Rightarrow> byte list" where
  "wire_zid i = of_nat (z_id_len i) # take (z_id_len i) i"

lemma wire_zid_slice: "id_wf i \<Longrightarrow> wire_slice (take (z_id_len i) i) = wire_zid i"
  using z_id_len_le [of i] by (simp add: wire_slice_def wire_zid_def wire_len_small id_wf_def ZENOH_ID_SIZE_def)

lemma appends_id: "id_wf i \<Longrightarrow> z_id_len i \<noteq> 0 \<Longrightarrow> appends (z_id_encode_as_slice i) (wire_zid i)"
  using appends_slice [of "take (z_id_len i) i"] by (simp add: z_id_encode_as_slice_def Let_def wire_zid_slice)

lemma zbuf_read_consumes: "consumes z_zbuf_read [b] b"
  using zbuf_read_at by (simp add: consumes_def)

lemma zbuf_read_bytes_consumes: "n = length bs \<Longrightarrow> consumes (z_zbuf_read_bytes n) bs bs"
  using zbuf_read_bytes_eq by (simp add: consumes_def)

lemma id_consumes: "id_wf i \<Longrightarrow> consumes z_id_decode_as_slice (wire_zid i) i"
proof -
  assume wf: "id_wf i"
  have n: "unat (of_nat (z_id_len i) :: u8) = z_id_len i" using z_id_len_le [of i] by (simp add: unat_of_nat)
  have l: "z_id_len i = length (take (z_id_len i) i)" using wf z_id_len_le [of i] by (simp add: id_wf_def ZENOH_ID_SIZE_def)
  have "consumes (if unat (of_nat (z_id_len i) :: u8) \<le> ZENOH_ID_SIZE
     then bind_ok (z_zbuf_read_bytes (unat (of_nat (z_id_len i) :: u8)))
       (\<lambda>bs. ret (bs @ replicate (ZENOH_ID_SIZE - unat (of_nat (z_id_len i) :: u8)) 0))
     else fault) (take (z_id_len i) i) i"
    using consumes_last [OF zbuf_read_bytes_consumes [OF l], of "\<lambda>bs. ret (bs @ replicate (ZENOH_ID_SIZE - z_id_len i) 0)" i]
      id_len_pad [OF wf] z_id_len_le [of i] by (simp add: n ZENOH_ID_SIZE_def)
  then show ?thesis unfolding z_id_decode_as_slice_def
    by (rule consumes_bind2 [OF zbuf_read_consumes]) (simp add: wire_zid_def)
qed

definition wire_timestamp :: "z_timestamp_t \<Rightarrow> byte list" where
  "wire_timestamp ts = z_zint64_encode_buf (ts_time ts) @ wire_zid (ts_id ts)"

definition ts_ok :: "z_timestamp_t \<Rightarrow> bool" where
  "ts_ok ts \<longleftrightarrow> id_wf (ts_id ts) \<and> z_id_check (ts_id ts)"

lemma ts_ok_len: "ts_ok ts \<Longrightarrow> z_id_len (ts_id ts) \<noteq> 0"
  by (simp add: ts_ok_def z_id_len_0_iff)

lemma appends_timestamp [appends_intros]: "ts_ok ts \<Longrightarrow> appends (z_timestamp_encode ts) (wire_timestamp ts)"
  unfolding z_timestamp_encode_def wire_timestamp_def
  by (intro appends_then appends_zint64 appends_id) (simp_all add: ts_ok_def z_id_len_0_iff)

lemma wire_timestamp_len:
  "id_wf (ts_id ts) \<Longrightarrow> length (wire_timestamp ts) = unat (z_zint_len (ts_time ts)) + 1 + z_id_len (ts_id ts)"
  using z_id_len_le [of "ts_id ts"] by (simp add: wire_timestamp_def wire_zid_def zint_len_buf id_wf_def ZENOH_ID_SIZE_def)

lemma appends_timestamp_ext [appends_intros]:
  "ts_ok ts \<Longrightarrow> appends (z_timestamp_encode_ext ts) (wire_slice (wire_timestamp ts))"
  unfolding z_timestamp_encode_ext_def wire_slice_def Let_def
  by (simp only: wire_timestamp_len [symmetric, of ts] ts_ok_def)
     (intro appends_then appends_zsize_len appends_timestamp, simp add: ts_ok_def)

lemma timestamp_consumes [consumes_intros]:
  assumes "ts_ok ts" "ts_valid ts"
  shows "consumes (z_timestamp_decode ts0) (wire_timestamp ts) ts"
proof -
  have eq: "ts0\<lparr>ts_time := ts_time ts, ts_id := ts_id ts, ts_valid := True\<rparr> = ts"
    using assms(2) by (cases ts; cases ts0) simp
  have i: "id_wf (ts_id ts)" using assms(1) by (simp add: ts_ok_def)
  show ?thesis unfolding z_timestamp_decode_def wire_timestamp_def
    apply (rule consumes_bind [OF consumes_attempt [OF zint64_consumes]])
    apply (simp only: prod.case)
    apply (rule consumes_last [OF consumes_attempt [OF id_consumes [OF i]]])
    apply (simp only: prod.case return_code_ok eq)
    done
qed

definition wire_wireexpr :: "bool \<Rightarrow> z_wireexpr_t \<Rightarrow> byte list" where
  "wire_wireexpr has_suffix e =
     z_zint64_encode_buf (ucast (we_id e)) @ (if has_suffix then wire_slice (we_suffix e) else [])"

lemma appends_wireexpr [appends_intros]: "appends (z_wireexpr_encode has_suffix e) (wire_wireexpr has_suffix e)"
  unfolding z_wireexpr_encode_def wire_wireexpr_def by (intro appends_intros)

lemma wireexpr_consumes [consumes_intros]:
  assumes "length (we_suffix e) < 2 ^ 64"
  shows "consumes (z_wireexpr_decode has_suffix remote mapping) (wire_wireexpr has_suffix e)
    \<lparr>we_id = we_id e, we_mapping = (if remote then mapping else KEYEXPR_MAPPING_LOCAL),
     we_suffix = (if has_suffix then we_suffix e else [])\<rparr>"
  unfolding z_wireexpr_decode_def wire_wireexpr_def
  apply (rule consumes_bind [OF consumes_attempt [OF zint16_consumes]])
  apply (simp only: prod.case Let_def)
  apply (cases has_suffix)
   apply (simp only: if_True)
   apply (rule consumes_last [OF consumes_attempt [OF string_consumes [OF assms]]])
   apply (simp add: return_code_def)
  apply (simp only: if_False)
  apply (rule consumes_return_code)
  done

lemma wireexpr_safe [safe_intros]: "safe (z_wireexpr_decode has_suffix remote mapping)"
  unfolding z_wireexpr_decode_def Let_def by (intro safe_intros)

text \<open>A read behind the test that the bytes are there.\<close>

lemma consumes_guarded:
  "consumes d bs v \<Longrightarrow> n \<le> length bs \<Longrightarrow> consumes (\<lambda>z. if z_zbuf_len z < n then Err e z else d z) bs v"
  using zbuf_len_bytes by (fastforce simp: consumes_def)

lemma safe_read_guarded:
  assumes f: "\<And>bs. safe (f bs)"
  shows "safe (\<lambda>z. if z_zbuf_len z < n then Err e z else bind_ok (z_zbuf_read_bytes n) f z)"
proof (rule safeI)
  fix z assume z: "zbuf_wf z"
  let ?g = "\<lambda>z. if z_zbuf_len z < n then Err e z else bind_ok (z_zbuf_read_bytes n) f z"
  show "(\<exists>x z'. ?g z = Ok x z' \<and> zstep z z') \<or> (\<exists>e z'. ?g z = Err e z' \<and> zstep z z')"
  proof (cases "z_zbuf_len z < n")
    case False
    then have len: "n \<le> length (zbuf_bytes z)" using zbuf_len_bytes [OF z] by simp
    have rb: "z_zbuf_read_bytes n z = Ok (take n (zbuf_bytes z)) (zadv n z)"
      using zbuf_read_bytes_eq [OF z, of "take n (zbuf_bytes z)" "drop n (zbuf_bytes z)" n] len by simp
    have st: "zstep z (zadv n z)" using len by (auto simp: zstep_def)
    note wf = zadv_wf [OF z len]
    show ?thesis using False rb safeD_ok [OF f wf] safeD_err [OF f wf] safeD_fault [OF f wf] zstep_trans [OF st]
      by (cases "f (take n (zbuf_bytes z)) (zadv n z)") (auto simp: bind_ok_def)
  qed simp
qed

definition wire_source_info :: "z_source_info_t \<Rightarrow> byte list" where
  "wire_source_info si =
     (let zid = eg_zid (si_source_id si) in
      si_len_byte zid # take (z_id_len zid) zid @
      z_zint64_encode_buf (ucast (eg_eid (si_source_id si))) @ z_zint64_encode_buf (ucast (si_source_sn si)))"

definition si_ok :: "z_source_info_t \<Rightarrow> bool" where
  "si_ok si \<longleftrightarrow> id_wf (eg_zid (si_source_id si)) \<and> z_id_check (eg_zid (si_source_id si))"

lemma appends_source_info_ext [appends_intros]:
  assumes "id_wf (eg_zid (si_source_id si))"
  shows "appends (z_source_info_encode_ext si)
    (wire_len (1 + z_id_len (eg_zid (si_source_id si)) + length (z_zint64_encode_buf (ucast (eg_eid (si_source_id si)))) +
       length (z_zint64_encode_buf (ucast (si_source_sn si)))) @ wire_source_info si)"
proof -
  have c: "wire_source_info si = [si_len_byte (eg_zid (si_source_id si))] @
     (take (z_id_len (eg_zid (si_source_id si))) (eg_zid (si_source_id si)) @
      (z_zint64_encode_buf (ucast (eg_eid (si_source_id si))) @ z_zint64_encode_buf (ucast (si_source_sn si))))"
    by (simp add: wire_source_info_def Let_def)
  show ?thesis unfolding z_source_info_encode_ext_def Let_def c zint_len_buf
    by (intro appends_then appends_zsize_len appends_uint8 appends_slice_val appends_zsize)
qed

lemma wire_source_info_len:
  "id_wf (eg_zid (si_source_id si)) \<Longrightarrow> length (wire_source_info si) =
    1 + z_id_len (eg_zid (si_source_id si)) + length (z_zint64_encode_buf (ucast (eg_eid (si_source_id si)))) +
       length (z_zint64_encode_buf (ucast (si_source_sn si)))"
  using z_id_len_le [of "eg_zid (si_source_id si)"]
  by (simp add: wire_source_info_def Let_def id_wf_def ZENOH_ID_SIZE_def)

lemma appends_source_info [appends_intros]:
  "id_wf (eg_zid (si_source_id si)) \<Longrightarrow> appends (z_source_info_encode_ext si) (wire_slice (wire_source_info si))"
  using appends_source_info_ext [of si] by (simp only: wire_slice_def wire_source_info_len)

lemma si_len_byte_high:
  assumes "0 < n" "n \<le> 16"
  shows "unat (drop_bit 4 (push_bit 4 (of_nat n - 1 :: u8)) + 1) = n"
proof -
  have "list_all (\<lambda>k. unat (drop_bit 4 (push_bit 4 (of_nat k - 1 :: u8)) + 1) = k) [1..<17]" by code_simp
  with assms show ?thesis by (simp add: list_all_iff)
qed

lemma source_info_consumes [consumes_intros]:
  assumes "si_ok si"
  shows "consumes (z_source_info_decode si0) (wire_source_info si) si"
proof -
  let ?i = "eg_zid (si_source_id si)"
  let ?n = "z_id_len ?i"
  have wf: "id_wf ?i" and n: "0 < ?n" "?n \<le> 16" "?n = length (take ?n ?i)"
    using assms z_id_len_0_iff [of ?i] z_id_len_le [of ?i] by (auto simp: si_ok_def id_wf_def ZENOH_ID_SIZE_def)
  have hi: "unat (drop_bit 4 (si_len_byte ?i) + 1) = ?n"
    using si_len_byte_high [OF n(1,2)] by (simp add: si_len_byte_def)
  let ?rest = "z_zint64_encode_buf (ucast (eg_eid (si_source_id si))) @ z_zint64_encode_buf (ucast (si_source_sn si))"
  have nums: "consumes (bind_ok z_zsize_decode (\<lambda>eid.
            if UINT32_MAX < eid then fail Z_ERR_MESSAGE_DESERIALIZATION_FAILED
            else bind_ok z_zsize_decode (\<lambda>sn.
              if UINT32_MAX < sn then fail Z_ERR_MESSAGE_DESERIALIZATION_FAILED
              else ret (si0\<lparr>si_source_id := \<lparr>eg_zid = take ?n ?i @ replicate (ZENOH_ID_SIZE - ?n) 0,
                                             eg_eid = ucast eid\<rparr>,
                             si_source_sn := ucast sn\<rparr>)))) ?rest si"
    apply (rule consumes_bind [OF zsize_consumes])
    apply (simp only: ucast_below if_False)
    apply (rule consumes_last [OF zsize_consumes])
    apply (simp only: ucast_below if_False id_len_pad [OF wf] ucast_narrow)
    apply (cases si; cases "si_source_id si"; cases si0)
    apply simp
    done
  have len: "?n \<le> length (take ?n ?i @ ?rest)" using n(3) by simp
  show ?thesis unfolding z_source_info_decode_def
    apply (rule consumes_bind2 [OF uint8_consumes [of "si_len_byte ?i"]])
     apply (simp only: Let_def hi)
     apply (rule consumes_guarded [OF _ len])
     apply (rule consumes_bind [OF zbuf_read_bytes_consumes [OF n(3)]])
     apply (rule nums)
    apply (simp add: wire_source_info_def Let_def)
    done
qed

lemma source_info_safe [safe_intros]: "safe (z_source_info_decode si0)"
  unfolding z_source_info_decode_def Let_def
  by (intro safe_bind uint8_safe safe_read_guarded safe_intros)


section \<open>Push bodies: round trip\<close>

definition canon_bytes :: "z_bytes_t \<Rightarrow> z_bytes_t" where
  "canon_bytes bs = (if concat bs = [] then [] else [concat bs])"

lemma z_bytes_check_concat: "z_bytes_check bs \<longleftrightarrow> concat bs \<noteq> []"
  by (auto simp: z_bytes_check_def)

definition zbuf_ext :: "u8 \<Rightarrow> byte list \<Rightarrow> z_msg_ext_t" where
  "zbuf_ext i s = \<lparr>ext_body = Ext_Zbuf s, ext_header = i\<rparr>"

definition zint_ext :: "u8 \<Rightarrow> u64 \<Rightarrow> z_msg_ext_t" where
  "zint_ext i v = \<lparr>ext_body = Ext_Zint v, ext_header = i\<rparr>"

lemma zbuf_ext_wf [simp]:
  "ext_wf (zbuf_ext i s) \<longleftrightarrow> i AND Z_MSG_EXT_FLAG_Z = 0 \<and> Z_EXT_ENC i = Z_MSG_EXT_ENC_ZBUF \<and> length s < 2 ^ 64"
  and zint_ext_wf [simp]:
  "ext_wf (zint_ext i v) \<longleftrightarrow> i AND Z_MSG_EXT_FLAG_Z = 0 \<and> Z_EXT_ENC i = Z_MSG_EXT_ENC_ZINT"
  by (simp_all add: ext_wf_def zbuf_ext_def zint_ext_def)

lemma wire_ext_zbuf [simp]: "wire_ext nxt (zbuf_ext i s) = (i OR Z_MSG_EXT_MORE nxt) # wire_slice s"
  and wire_ext_zint [simp]: "wire_ext nxt (zint_ext i v) = (i OR Z_MSG_EXT_MORE nxt) # z_zint64_encode_buf v"
  by (simp_all add: wire_ext_def zbuf_ext_def zint_ext_def wire_ext_body_def)

lemma ext_zbuf_zbuf [simp]: "ext_zbuf (zbuf_ext i s) k = k s"
  and ext_zint_zint [simp]: "ext_zint (zint_ext i v) k' = k' v"
  and ext_header_zbuf [simp]: "ext_header (zbuf_ext i s) = i"
  and ext_header_zint [simp]: "ext_header (zint_ext i v) = i"
  by (simp_all add: ext_zbuf_def ext_zint_def zbuf_ext_def zint_ext_def)

lemma on_slice_consumes: "consumes d s x \<Longrightarrow> on_slice d s c = Ok x c"
  using consumesD [of d s x "z_slice_as_zbuf s" "[]"] by (simp add: on_slice_def)

lemma on_slice_yields: "yields d s x \<Longrightarrow> on_slice d s c = Ok x c"
proof -
  assume "yields d s x"
  then obtain z' where "d (z_slice_as_zbuf s) = Ok x z'"
    using slice_as_zbuf_wf [of s] slice_as_zbuf_bytes [of s] unfolding yields_def by blast
  then show ?thesis by (simp add: on_slice_def)
qed

lemma on_slice_safe: "safe d \<Longrightarrow> on_slice d s c \<noteq> Fault"
  using safeD_fault [of d "z_slice_as_zbuf s"] by (auto simp: on_slice_def split: res.splits)

lemma wire_source_info_small: "id_wf (eg_zid (si_source_id si)) \<Longrightarrow> length (wire_source_info si) < 2 ^ 64"
  using zint_buf_length [of "ucast (eg_eid (si_source_id si))"] zint_buf_length [of "ucast (si_source_sn si)"]
    z_id_len_le [of "eg_zid (si_source_id si)"]
  by (simp add: wire_source_info_len VLE_LEN_def)

lemma no_source_info: "\<not> has_source_info si \<Longrightarrow> si = z_source_info_null"
  by (cases si; cases "si_source_id si")
     (auto simp: has_source_info_def z_source_info_null_def z_entity_global_id_null_def z_id_check_def)

lemma no_encoding: "\<not> z_encoding_check en \<Longrightarrow> en = z_encoding_null"
  by (cases en) (simp add: z_encoding_check_def z_string_check_def z_encoding_null_def)

definition push_exts :: "z_push_body_t \<Rightarrow> z_msg_ext_t list" where
  "push_exts b =
     (if has_source_info (pc_source_info (put_commons (pb_put b)))
      then [zbuf_ext (Z_MSG_EXT_ENC_ZBUF OR 0x01) (wire_source_info (pc_source_info (put_commons (pb_put b))))] else []) @
     (if pb_is_put b \<and> concat (put_attachment (pb_put b)) \<noteq> []
      then [zbuf_ext (Z_MSG_EXT_ENC_ZBUF OR 0x03) (concat (put_attachment (pb_put b)))] else [])"

definition push_header :: "z_push_body_t \<Rightarrow> u8" where
  "push_header b =
     (if pb_is_put b then Z_MID_Z_PUT else Z_MID_Z_DEL) OR (if push_exts b \<noteq> [] then Z_FLAG_Z_Z else 0) OR
     (if ts_valid (pc_timestamp (put_commons (pb_put b))) then Z_FLAG_Z_P_T else 0) OR
     (if pb_is_put b \<and> z_encoding_check (put_encoding (pb_put b)) then Z_FLAG_Z_P_E else 0)"

definition wire_push_tail :: "z_push_body_t \<Rightarrow> byte list" where
  "wire_push_tail b =
     (if ts_valid (pc_timestamp (put_commons (pb_put b))) then wire_timestamp (pc_timestamp (put_commons (pb_put b))) else []) @
     (if pb_is_put b \<and> z_encoding_check (put_encoding (pb_put b)) then wire_encoding (put_encoding (pb_put b)) else []) @
     wire_exts (push_exts b) @
     (if pb_is_put b then wire_slice (concat (put_payload (pb_put b))) else [])"

definition wire_push_body :: "z_push_body_t \<Rightarrow> byte list" where
  "wire_push_body b = push_header b # wire_push_tail b"

definition commons_ok :: "z_m_push_commons_t \<Rightarrow> bool" where
  "commons_ok c \<longleftrightarrow> (ts_valid (pc_timestamp c) \<longrightarrow> ts_ok (pc_timestamp c)) \<and>
     (has_source_info (pc_source_info c) \<longrightarrow> si_ok (pc_source_info c))"

definition push_ok :: "z_push_body_t \<Rightarrow> bool" where
  "push_ok b \<longleftrightarrow> commons_ok (put_commons (pb_put b)) \<and>
     length (enc_schema (put_encoding (pb_put b))) < 2 ^ 64 \<and>
     length (concat (put_attachment (pb_put b))) < 2 ^ 64 \<and> length (concat (put_payload (pb_put b))) < 2 ^ 64"

definition recv_ts :: "z_timestamp_t \<Rightarrow> z_timestamp_t" where
  "recv_ts ts = (if ts_valid ts then ts else z_timestamp_null)"

definition recv_push :: "z_push_body_t \<Rightarrow> z_push_body_t" where
  "recv_push b =
     \<lparr>pb_is_put = pb_is_put b,
      pb_put = (let c = \<lparr>pc_timestamp = recv_ts (pc_timestamp (put_commons (pb_put b))),
                         pc_source_info = pc_source_info (put_commons (pb_put b))\<rparr> in
        if pb_is_put b
        then \<lparr>put_commons = c, put_payload = [concat (put_payload (pb_put b))],
              put_encoding = put_encoding (pb_put b), put_attachment = canon_bytes (put_attachment (pb_put b))\<rparr>
        else z_msg_put_null\<lparr>put_commons := c\<rparr>)\<rparr>"

lemma push_exts_Nil: "push_exts b = [] \<longleftrightarrow>
    \<not> has_source_info (pc_source_info (put_commons (pb_put b))) \<and> \<not> (pb_is_put b \<and> concat (put_attachment (pb_put b)) \<noteq> [])"
  by (simp add: push_exts_def)

lemma push_header_facts:
  "Z_MID (push_header b) = (if pb_is_put b then Z_MID_Z_PUT else Z_MID_Z_DEL)"
  "Z_HAS_FLAG (push_header b) Z_FLAG_Z_P_T \<longleftrightarrow> ts_valid (pc_timestamp (put_commons (pb_put b)))"
  "Z_HAS_FLAG (push_header b) Z_FLAG_Z_P_E \<longleftrightarrow> pb_is_put b \<and> z_encoding_check (put_encoding (pb_put b))"
  "Z_HAS_FLAG (push_header b) Z_FLAG_Z_Z \<longleftrightarrow> push_exts b \<noteq> []"
  by (auto simp: push_header_def z_msg_consts)

lemma appends_push_body [appends_intros]:
  assumes "push_ok b"
  shows "appends (z_push_body_encode b) (wire_push_body b)"
proof -
  let ?p = "pb_put b" let ?c = "put_commons (pb_put b)"
  have ok: "ts_valid (pc_timestamp ?c) \<Longrightarrow> ts_ok (pc_timestamp ?c)"
    "has_source_info (pc_source_info ?c) \<Longrightarrow> id_wf (eg_zid (si_source_id (pc_source_info ?c)))"
    using assms by (auto simp: push_ok_def commons_ok_def si_ok_def)
  show ?thesis
    unfolding z_push_body_encode_def Let_def z_timestamp_check_def z_bytes_check_concat
    apply (rule appends_cong)
     apply (rule appends_then appends_when appends_uint8 appends_encoding appends_bytes appends_timestamp
        appends_source_info ok | assumption)+
    apply (simp add: wire_push_body_def wire_push_tail_def push_header_def push_exts_def z_msg_consts z_ext_consts)
    done
qed

lemma push_ext_ids:
  "Z_EXT_FULL_ID (Z_MSG_EXT_ENC_ZBUF OR 0x01) = Z_MSG_EXT_ENC_ZBUF OR 0x01"
  "Z_EXT_FULL_ID (Z_MSG_EXT_ENC_ZBUF OR 0x03) = Z_MSG_EXT_ENC_ZBUF OR 0x03"
  "Z_EXT_FULL_ID (Z_MSG_EXT_ENC_ZBUF OR 0x05) = Z_MSG_EXT_ENC_ZBUF OR 0x05"
  "Z_MSG_EXT_ENC_ZBUF OR 0x01 \<noteq> Z_MSG_EXT_ENC_ZBUF OR 0x03" "Z_MSG_EXT_ENC_ZBUF OR 0x03 \<noteq> Z_MSG_EXT_ENC_ZBUF OR 0x01"
  "Z_MSG_EXT_ENC_ZBUF OR 0x05 \<noteq> Z_MSG_EXT_ENC_ZBUF OR 0x01" "Z_MSG_EXT_ENC_ZBUF OR 0x05 \<noteq> Z_MSG_EXT_ENC_ZBUF OR 0x03"
  by (simp_all add: z_ext_consts)

lemma push_ext_wf_ids:
  "(Z_MSG_EXT_ENC_ZBUF OR 0x01) AND Z_MSG_EXT_FLAG_Z = 0" "Z_EXT_ENC (Z_MSG_EXT_ENC_ZBUF OR 0x01) = Z_MSG_EXT_ENC_ZBUF"
  "(Z_MSG_EXT_ENC_ZBUF OR 0x03) AND Z_MSG_EXT_FLAG_Z = 0" "Z_EXT_ENC (Z_MSG_EXT_ENC_ZBUF OR 0x03) = Z_MSG_EXT_ENC_ZBUF"
  "(Z_MSG_EXT_ENC_ZBUF OR 0x05) AND Z_MSG_EXT_FLAG_Z = 0" "Z_EXT_ENC (Z_MSG_EXT_ENC_ZBUF OR 0x05) = Z_MSG_EXT_ENC_ZBUF"
  by (simp_all add: z_ext_consts)

lemma push_callback_si:
  "si_ok si \<Longrightarrow> z_push_body_decode_extensions (zbuf_ext (Z_MSG_EXT_ENC_ZBUF OR 0x01) (wire_source_info si)) b =
     Ok () (b\<lparr>pb_put := (pb_put b)\<lparr>put_commons := (put_commons (pb_put b))\<lparr>pc_source_info := si\<rparr>\<rparr>\<rparr>)"
  by (simp add: z_push_body_decode_extensions_def push_ext_ids bind_ok_def on_slice_consumes [OF source_info_consumes])

lemma push_callback_att:
  "z_push_body_decode_extensions (zbuf_ext (Z_MSG_EXT_ENC_ZBUF OR 0x03) s) b =
     Ok () (b\<lparr>pb_put := (pb_put b)\<lparr>put_attachment := [s]\<rparr>\<rparr>)"
  by (simp add: z_push_body_decode_extensions_def push_ext_ids)

lemma push_exts_ok:
  assumes "push_ok b"
  shows "list_all ext_wf (push_exts b)"
proof -
  have "has_source_info (pc_source_info (put_commons (pb_put b))) \<Longrightarrow>
      length (wire_source_info (pc_source_info (put_commons (pb_put b)))) < 2 ^ 64"
    using assms by (intro wire_source_info_small) (simp add: push_ok_def commons_ok_def si_ok_def)
  then show ?thesis using assms by (simp add: push_exts_def push_ext_wf_ids push_ok_def)
qed

text \<open>What the callbacks leave of a body that had no source information and no attachment.\<close>

lemma push_exts_run:
  assumes "push_ok b" "pc_source_info (put_commons (pb_put b0)) = z_source_info_null" "put_attachment (pb_put b0) = []"
  shows "run_callback z_push_body_decode_extensions (push_exts b) b0 =
    Some (b0\<lparr>pb_put := (pb_put b0)\<lparr>put_commons := (put_commons (pb_put b0))\<lparr>pc_source_info := pc_source_info (put_commons (pb_put b))\<rparr>,
       put_attachment := (if pb_is_put b then canon_bytes (put_attachment (pb_put b)) else [])\<rparr>\<rparr>)"
proof -
  let ?si = "pc_source_info (put_commons (pb_put b))"
  have si: "has_source_info ?si \<Longrightarrow> si_ok ?si" using assms(1) by (simp add: push_ok_def commons_ok_def)
  have eq: "b0 = b0\<lparr>pb_put := (pb_put b0)\<lparr>put_commons := (put_commons (pb_put b0))\<lparr>pc_source_info := z_source_info_null\<rparr>,
      put_attachment := []\<rparr>\<rparr>"
    using assms(2,3) by (cases b0; cases "pb_put b0"; cases "put_commons (pb_put b0)") auto
  show ?thesis
    by (cases "has_source_info ?si"; cases "pb_is_put b \<and> concat (put_attachment (pb_put b)) \<noteq> []")
       (use si no_source_info [of ?si] assms(2,3) in
         \<open>auto simp: push_exts_def push_callback_si push_callback_att canon_bytes_def\<close>)
qed

text \<open>Optional fields, whatever they are stored into.\<close>

lemma opt_timestamp_consumes:
  "(ts_valid ts \<Longrightarrow> ts_ok ts) \<Longrightarrow> x = F z_timestamp_null \<Longrightarrow> b = ts_valid ts \<Longrightarrow>
   consumes (if b then bind_ok (z_timestamp_decode t0) (\<lambda>ts. ret (F ts)) else ret x)
     (if b then wire_timestamp ts else []) (F (recv_ts ts))"
  using consumes_bind [OF timestamp_consumes consumes_ret, of ts t0 F]
  by (simp add: recv_ts_def consumes_ret)

lemma opt_encoding_consumes:
  "length (enc_schema en) < 2 ^ 64 \<Longrightarrow> x = F z_encoding_null \<Longrightarrow> en0 = z_encoding_null \<Longrightarrow> b = z_encoding_check en \<Longrightarrow>
   consumes (if b then bind_ok (z_encoding_decode en0) (\<lambda>en. ret (F en)) else ret x)
     (if b then wire_encoding en else []) (F en)"
  using consumes_bind [OF encoding_consumes_null consumes_ret, of en F] no_encoding [of en]
  by (auto simp: consumes_ret)

lemma put_del_distinct [simp]: "Z_MID_Z_DEL = Z_MID_Z_PUT \<longleftrightarrow> False" "Z_MID_Z_PUT = Z_MID_Z_DEL \<longleftrightarrow> False"
  by (simp_all add: z_msg_consts)

lemmas push_null_defs = z_push_body_null_def z_msg_put_null_def z_m_push_commons_null_def

lemma push_body_consumes:
  assumes ok: "push_ok b"
  shows "consumes (z_push_body_decode z_push_body_null (push_header b)) (wire_push_tail b) (recv_push b)"
proof -
  let ?p = "pb_put b" let ?ts = "pc_timestamp (put_commons ?p)"
  have ts: "ts_valid ?ts \<Longrightarrow> ts_ok ?ts" and sch: "length (enc_schema (put_encoding ?p)) < 2 ^ 64"
    and pay: "length (concat (put_payload ?p)) < 2 ^ 64" using ok by (auto simp: push_ok_def commons_ok_def)
  show ?thesis
  proof (cases "pb_is_put b")
    case True
    show ?thesis unfolding z_push_body_decode_def push_header_facts Let_def wire_push_tail_def
      apply (simp only: True if_True simp_thms)
      apply (rule consumes_cong)
        apply (rule consumes_bind)
         apply (rule opt_timestamp_consumes [OF ts])
           apply (assumption)
          apply (simp add: push_null_defs)
         apply (rule refl)
        apply (rule consumes_bind)
         apply (rule opt_encoding_consumes [OF sch])
           apply (simp add: push_null_defs)
          apply (simp add: push_null_defs)
         apply (rule refl)
        apply (rule consumes_bind)
         apply (rule opt_exts_consumes [OF refl push_exts_ok [OF ok]])
         apply (rule push_exts_run [OF ok])
          apply (simp add: push_null_defs)
         apply (simp add: push_null_defs)
        apply (rule consumes_last)
         apply (rule bytes_consumes [OF pay])
        apply (rule refl)
       apply simp
      apply (simp add: recv_push_def True push_null_defs Let_def)
      done
  next
    case False
    have dt: "Z_FLAG_Z_D_T = Z_FLAG_Z_P_T" by (simp add: z_msg_consts)
    show ?thesis unfolding z_push_body_decode_def dt push_header_facts Let_def wire_push_tail_def
      apply (simp only: False if_False if_True simp_thms append_Nil append_Nil2 put_del_distinct)
      apply (rule consumes_cong)
        apply (rule consumes_bind)
         apply (rule opt_timestamp_consumes [OF ts])
           apply (assumption)
          apply (simp add: push_null_defs)
         apply (rule refl)
        apply (rule opt_exts_consumes [OF refl push_exts_ok [OF ok]])
        apply (rule push_exts_run [OF ok])
         apply (simp add: push_null_defs)
        apply (simp add: push_null_defs)
       apply simp
      apply (simp add: recv_push_def False push_null_defs Let_def)
      done
  qed
qed

end
