(* ===== verification/Zp_Query.thy ===== *)
theory Zp_Query
  imports Zp_Message
begin

text \<open>
  The query, reply and err bodies of \<^verbatim>\<open>src/protocol/codec/message.c\<close> and their part of
  \<^verbatim>\<open>src/protocol/definitions/message.c\<close>: the structures, the encoders and decoders, what
  they write, what the receiver reads back, and their contracts.
\<close>

section \<open>Query\<close>

record z_msg_query_t =
  q_parameters :: "byte list"
  q_ext_info :: z_source_info_t
  q_ext_value :: z_value_t
  q_consolidation :: z_consolidation_mode_t
  q_ext_attachment :: z_bytes_t
  q_implicit_anyke :: bool

record z_msg_query_reqexts_t =
  qx_info :: bool
  qx_body :: bool
  qx_attachment :: bool

definition z_msg_query_required_extensions :: "z_msg_query_t \<Rightarrow> z_msg_query_reqexts_t" where
  "z_msg_query_required_extensions msg =
     \<lparr>qx_info = has_source_info (q_ext_info msg),
      qx_body = (z_bytes_check (val_payload (q_ext_value msg)) \<or> z_encoding_check (val_encoding (q_ext_value msg))),
      qx_attachment = z_bytes_check (q_ext_attachment msg)\<rparr>"

text \<open>\<^verbatim>\<open>"_anyke"\<close> and \<^verbatim>\<open>";"\<close>.\<close>

definition Z_QUERY_PARAMS_KEY_ANYKE :: "byte list" where
  "Z_QUERY_PARAMS_KEY_ANYKE = [0x5f, 0x61, 0x6e, 0x79, 0x6b, 0x65]"
definition Z_QUERY_PARAMS_LIST_SEPARATOR :: "byte list" where
  "Z_QUERY_PARAMS_LIST_SEPARATOR = [0x3b]"

text \<open>
  A query structure of zeros, as the network layer prepares it for the decoder; the
  consolidation is then the number 0, not the default.
\<close>

definition z_msg_query_null :: z_msg_query_t where
  "z_msg_query_null = \<lparr>q_parameters = [], q_ext_info = z_source_info_null, q_ext_value = z_value_null,
     q_consolidation = 0, q_ext_attachment = [], q_implicit_anyke = False\<rparr>"

definition z_query_encode :: "z_msg_query_t \<Rightarrow> (unit, z_wbuf_t) prog" where
  "z_query_encode msg =
     (let header = Z_MID_Z_QUERY;
          has_params = 0 < length (q_parameters msg);
          header = (if has_params \<or> q_implicit_anyke msg then header OR Z_FLAG_Z_Q_P else header);
          has_consolidation = q_consolidation msg \<noteq> Z_CONSOLIDATION_MODE_DEFAULT;
          header = (if has_consolidation then header OR Z_FLAG_Z_Q_C else header);
          x = z_msg_query_required_extensions msg;
          header = (if qx_body x \<or> qx_info x \<or> qx_attachment x then header OR Z_FLAG_Z_Z else header)
      in then_do (z_uint8_encode header)
        (then_do (when_do has_consolidation (z_uint8_encode (ucast (q_consolidation msg))))
        (then_do (if q_implicit_anyke msg
                  then if has_params
                       then z_slices_encode [q_parameters msg, Z_QUERY_PARAMS_LIST_SEPARATOR @ Z_QUERY_PARAMS_KEY_ANYKE]
                       else z_slice_encode Z_QUERY_PARAMS_KEY_ANYKE
                  else when_do has_params (z_slice_encode (q_parameters msg)))
        (then_do (when_do (qx_body x)
             (then_do (z_uint8_encode (Z_MSG_EXT_ENC_ZBUF OR 0x03 OR
                         (if qx_info x \<or> qx_attachment x then Z_FLAG_Z_Z else 0)))
                (z_value_encode (q_ext_value msg))))
        (then_do (when_do (qx_info x)
             (then_do (z_uint8_encode (Z_MSG_EXT_ENC_ZBUF OR 0x01 OR (if qx_attachment x then Z_FLAG_Z_Z else 0)))
                (z_source_info_encode_ext (q_ext_info msg))))
        (when_do (qx_attachment x)
             (then_do (z_uint8_encode (Z_MSG_EXT_ENC_ZBUF OR 0x05)) (z_bytes_encode (q_ext_attachment msg)))))))))"

definition z_query_decode_extensions :: "z_msg_ext_t \<Rightarrow> (unit, z_msg_query_t) prog" where
  "z_query_decode_extensions extension =
     (let i = Z_EXT_FULL_ID (ext_header extension) in
      if i = Z_MSG_EXT_ENC_ZBUF OR 0x01
      then ext_zbuf extension (\<lambda>s msg.
             bind_ok (on_slice (z_source_info_decode (q_ext_info msg)) s) (\<lambda>si msg. Ok () (msg\<lparr>q_ext_info := si\<rparr>)) msg)
      else if i = Z_MSG_EXT_ENC_ZBUF OR 0x03
      then ext_zbuf extension (\<lambda>s msg.
             bind_ok (on_slice (z_value_decode (q_ext_value msg)) s) (\<lambda>v msg. Ok () (msg\<lparr>q_ext_value := v\<rparr>)) msg)
      else if i = Z_MSG_EXT_ENC_ZBUF OR 0x05
      then ext_zbuf extension (\<lambda>s msg. Ok () (msg\<lparr>q_ext_attachment := [s]\<rparr>))
      else unknown_ext extension)"

text \<open>
  The consolidation is read through a pointer to its first byte, which is the low one on a
  little-endian target; the other bytes keep what the structure held.
\<close>

definition set_low_byte :: "u32 \<Rightarrow> u8 \<Rightarrow> u32" where
  "set_low_byte w b = (w AND NOT 0xff) OR ucast b"

definition z_query_decode :: "z_msg_query_t \<Rightarrow> u8 \<Rightarrow> (z_msg_query_t, z_zbuf_t) prog" where
  "z_query_decode msg header =
     (let msg = msg\<lparr>q_implicit_anyke := False\<rparr> in
      bind_ok (if Z_HAS_FLAG header Z_FLAG_Z_Q_C
               then bind_ok z_uint8_decode (\<lambda>b. ret (msg\<lparr>q_consolidation := set_low_byte (q_consolidation msg) b\<rparr>))
               else ret (msg\<lparr>q_consolidation := Z_CONSOLIDATION_MODE_DEFAULT\<rparr>)) (\<lambda>msg.
      bind_ok (if Z_HAS_FLAG header Z_FLAG_Z_Q_P
               then bind_ok z_slice_decode (\<lambda>s. ret (msg\<lparr>q_parameters := s\<rparr>))
               else ret (msg\<lparr>q_parameters := []\<rparr>)) (\<lambda>msg.
        if Z_HAS_FLAG header Z_FLAG_Z_Z then z_msg_ext_decode_iter z_query_decode_extensions msg else ret msg)))"

section \<open>Reply\<close>

record z_msg_reply_t =
  r_consolidation :: z_consolidation_mode_t
  r_body :: z_push_body_t

definition z_msg_reply_null :: z_msg_reply_t where
  "z_msg_reply_null = \<lparr>r_consolidation = 0, r_body = z_push_body_null\<rparr>"

definition z_reply_encode :: "z_msg_reply_t \<Rightarrow> (unit, z_wbuf_t) prog" where
  "z_reply_encode reply =
     (let header = Z_MID_Z_REPLY;
          has_consolidation = r_consolidation reply \<noteq> Z_CONSOLIDATION_MODE_DEFAULT;
          header = (if has_consolidation then header OR Z_FLAG_Z_R_C else header)
      in then_do (z_uint8_encode header)
        (then_do (when_do has_consolidation (z_uint8_encode (ucast (r_consolidation reply))))
          (z_push_body_encode (r_body reply))))"

definition z_reply_decode_extension :: "z_msg_ext_t \<Rightarrow> (unit, z_msg_reply_t) prog" where
  "z_reply_decode_extension extension = z_msg_ext_unknown_error"

definition z_reply_decode :: "z_msg_reply_t \<Rightarrow> u8 \<Rightarrow> (z_msg_reply_t, z_zbuf_t) prog" where
  "z_reply_decode reply header =
     bind_ok (if Z_HAS_FLAG header Z_FLAG_Z_R_C
              then bind_ok z_uint8_decode (\<lambda>b. ret (reply\<lparr>r_consolidation := set_low_byte (r_consolidation reply) b\<rparr>))
              else ret (reply\<lparr>r_consolidation := Z_CONSOLIDATION_MODE_DEFAULT\<rparr>)) (\<lambda>reply.
     bind_ok (if Z_HAS_FLAG header Z_FLAG_Z_Z
              then z_msg_ext_decode_iter z_reply_decode_extension reply else ret reply) (\<lambda>reply.
     bind_ok z_uint8_decode (\<lambda>put_header.
     bind_ok (z_push_body_decode (r_body reply) put_header) (\<lambda>body. ret (reply\<lparr>r_body := body\<rparr>)))))"

section \<open>Err\<close>

record z_msg_err_t =
  e_encoding :: z_encoding_t
  e_ext_source_info :: z_source_info_t
  e_payload :: z_bytes_t

definition z_msg_err_null :: z_msg_err_t where
  "z_msg_err_null = \<lparr>e_encoding = z_encoding_null, e_ext_source_info = z_source_info_null, e_payload = []\<rparr>"

definition z_err_encode :: "z_msg_err_t \<Rightarrow> (unit, z_wbuf_t) prog" where
  "z_err_encode err =
     (let header = Z_MID_Z_ERR;
          has_encoding = z_encoding_check (e_encoding err);
          header = (if has_encoding then header OR Z_FLAG_Z_E_E else header);
          has_sinfo_ext = has_source_info (e_ext_source_info err);
          header = (if has_sinfo_ext then header OR Z_FLAG_Z_Z else header)
      in then_do (z_uint8_encode header)
        (then_do (when_do has_encoding (z_encoding_encode (e_encoding err)))
        (then_do (when_do has_sinfo_ext
             (then_do (z_uint8_encode (Z_MSG_EXT_ENC_ZBUF OR 0x01)) (z_source_info_encode_ext (e_ext_source_info err))))
          (z_bytes_encode (e_payload err)))))"

definition z_err_decode_extension :: "z_msg_ext_t \<Rightarrow> (unit, z_msg_err_t) prog" where
  "z_err_decode_extension extension =
     (if Z_EXT_FULL_ID (ext_header extension) = Z_MSG_EXT_ENC_ZBUF OR 0x01
      then ext_zbuf extension (\<lambda>s reply.
             bind_ok (on_slice (z_source_info_decode (e_ext_source_info reply)) s)
               (\<lambda>si reply. Ok () (reply\<lparr>e_ext_source_info := si\<rparr>)) reply)
      else unknown_ext extension)"

definition z_err_decode :: "z_msg_err_t \<Rightarrow> u8 \<Rightarrow> (z_msg_err_t, z_zbuf_t) prog" where
  "z_err_decode err header =
     bind_ok (if Z_HAS_FLAG header Z_FLAG_Z_E_E
              then bind_ok (z_encoding_decode (e_encoding err)) (\<lambda>en. ret (err\<lparr>e_encoding := en\<rparr>)) else ret err) (\<lambda>err.
     bind_ok (if Z_HAS_FLAG header Z_FLAG_Z_Z
              then z_msg_ext_decode_iter z_err_decode_extension err else ret err) (\<lambda>err.
     bind_ok z_bytes_decode (\<lambda>bs. ret (err\<lparr>e_payload := bs\<rparr>))))"

section \<open>What a query looks like on the wire and at the receiver\<close>

definition q_wire_parameters :: "z_msg_query_t \<Rightarrow> byte list" where
  "q_wire_parameters q =
     (if q_implicit_anyke q
      then q_parameters q @ (if q_parameters q = [] then [] else Z_QUERY_PARAMS_LIST_SEPARATOR) @ Z_QUERY_PARAMS_KEY_ANYKE
      else q_parameters q)"

definition query_exts :: "z_msg_query_t \<Rightarrow> z_msg_ext_t list" where
  "query_exts q =
     (let x = z_msg_query_required_extensions q in
      (if qx_body x then [zbuf_ext (Z_MSG_EXT_ENC_ZBUF OR 0x03)
           (wire_encoding (val_encoding (q_ext_value q)) @ concat (val_payload (q_ext_value q)))] else []) @
      (if qx_info x then [zbuf_ext (Z_MSG_EXT_ENC_ZBUF OR 0x01) (wire_source_info (q_ext_info q))] else []) @
      (if qx_attachment x then [zbuf_ext (Z_MSG_EXT_ENC_ZBUF OR 0x05) (concat (q_ext_attachment q))] else []))"

definition query_header :: "z_msg_query_t \<Rightarrow> u8" where
  "query_header q = Z_MID_Z_QUERY OR (if q_wire_parameters q \<noteq> [] then Z_FLAG_Z_Q_P else 0) OR
     (if q_consolidation q \<noteq> Z_CONSOLIDATION_MODE_DEFAULT then Z_FLAG_Z_Q_C else 0) OR
     (if query_exts q \<noteq> [] then Z_FLAG_Z_Z else 0)"

definition wire_query_tail :: "z_msg_query_t \<Rightarrow> byte list" where
  "wire_query_tail q =
     (if q_consolidation q \<noteq> Z_CONSOLIDATION_MODE_DEFAULT then [ucast (q_consolidation q)] else []) @
     (if q_wire_parameters q \<noteq> [] then wire_slice (q_wire_parameters q) else []) @ wire_exts (query_exts q)"

definition wire_query :: "z_msg_query_t \<Rightarrow> byte list" where
  "wire_query q = query_header q # wire_query_tail q"

definition consolidation_ok :: "z_consolidation_mode_t \<Rightarrow> bool" where
  "consolidation_ok c \<longleftrightarrow> c = Z_CONSOLIDATION_MODE_DEFAULT \<or> c < 0x100"

definition value_ok :: "z_value_t \<Rightarrow> bool" where
  "value_ok v \<longleftrightarrow> length (enc_schema (val_encoding v)) < 2 ^ 64 \<and>
     length (wire_encoding (val_encoding v) @ concat (val_payload v)) < 2 ^ 64"

definition query_ok :: "z_msg_query_t \<Rightarrow> bool" where
  "query_ok q \<longleftrightarrow> consolidation_ok (q_consolidation q) \<and> length (q_wire_parameters q) < 2 ^ 64 \<and>
     (has_source_info (q_ext_info q) \<longrightarrow> si_ok (q_ext_info q)) \<and> value_ok (q_ext_value q) \<and>
     length (concat (q_ext_attachment q)) < 2 ^ 64"

definition recv_value :: "z_value_t \<Rightarrow> z_value_t" where
  "recv_value v = v\<lparr>val_payload := canon_bytes (val_payload v)\<rparr>"

definition recv_query :: "z_msg_query_t \<Rightarrow> z_msg_query_t" where
  "recv_query q = q\<lparr>q_parameters := q_wire_parameters q, q_implicit_anyke := False,
     q_ext_value := recv_value (q_ext_value q), q_ext_attachment := canon_bytes (q_ext_attachment q)\<rparr>"

lemma anyke_consts [simp]:
  "Z_QUERY_PARAMS_KEY_ANYKE \<noteq> []" "Z_QUERY_PARAMS_LIST_SEPARATOR \<noteq> []"
  by (simp_all add: Z_QUERY_PARAMS_KEY_ANYKE_def Z_QUERY_PARAMS_LIST_SEPARATOR_def)

lemma query_header_facts:
  "Z_MID (query_header q) = Z_MID_Z_QUERY"
  "Z_HAS_FLAG (query_header q) Z_FLAG_Z_Q_C \<longleftrightarrow> q_consolidation q \<noteq> Z_CONSOLIDATION_MODE_DEFAULT"
  "Z_HAS_FLAG (query_header q) Z_FLAG_Z_Q_P \<longleftrightarrow> q_wire_parameters q \<noteq> []"
  "Z_HAS_FLAG (query_header q) Z_FLAG_Z_Z \<longleftrightarrow> query_exts q \<noteq> []"
  by (auto simp: query_header_def z_msg_consts)

lemma appends_query [appends_intros]:
  assumes "query_ok q"
  shows "appends (z_query_encode q) (wire_query q)"
proof -
  have ok: "has_source_info (q_ext_info q) \<Longrightarrow> id_wf (eg_zid (si_source_id (q_ext_info q)))"
    using assms by (auto simp: query_ok_def si_ok_def)
  show ?thesis
    unfolding z_query_encode_def Let_def z_msg_query_required_extensions_def z_bytes_check_concat z_msg_query_reqexts_t.simps
    apply (rule appends_cong)
     apply (rule appends_then appends_when appends_if appends_uint8 appends_slice appends_slices appends_value appends_bytes
        appends_source_info ok | assumption)+
    apply (simp add: wire_query_def wire_query_tail_def query_header_def query_exts_def z_msg_query_required_extensions_def
       z_bytes_check_concat q_wire_parameters_def wire_value_def z_msg_consts z_ext_consts)
    done
qed


lemma set_low_byte_0: "c < 0x100 \<Longrightarrow> set_low_byte 0 (ucast c) = c"
proof -
  assume c: "c < 0x100"
  then have "unat c < 256" by (simp add: word_less_nat_alt)
  then have "unat (ucast (ucast c :: u8) :: u32) = unat c" by (simp add: unsigned_ucast_eq take_bit_eq_mod unat_mod)
  then have "(ucast (ucast c :: u8) :: u32) = c" by (rule unsigned_word_eqI)
  then show ?thesis by (simp add: set_low_byte_def)
qed

lemma query_callback_si:
  "si_ok si \<Longrightarrow> z_query_decode_extensions (zbuf_ext (Z_MSG_EXT_ENC_ZBUF OR 0x01) (wire_source_info si)) q =
     Ok () (q\<lparr>q_ext_info := si\<rparr>)"
  by (simp add: z_query_decode_extensions_def push_ext_ids bind_ok_def on_slice_consumes [OF source_info_consumes])

lemma query_callback_value:
  "value_ok v \<Longrightarrow> q_ext_value q = z_value_null \<Longrightarrow>
   z_query_decode_extensions (zbuf_ext (Z_MSG_EXT_ENC_ZBUF OR 0x03) (wire_encoding (val_encoding v) @ concat (val_payload v))) q =
     Ok () (q\<lparr>q_ext_value := recv_value v\<rparr>)"
  by (simp add: z_query_decode_extensions_def push_ext_ids bind_ok_def on_slice_yields [OF value_yields] value_ok_def
      recv_value_def canon_bytes_def z_bytes_from_buf_def)

lemma query_callback_att:
  "z_query_decode_extensions (zbuf_ext (Z_MSG_EXT_ENC_ZBUF OR 0x05) s) q = Ok () (q\<lparr>q_ext_attachment := [s]\<rparr>)"
  by (simp add: z_query_decode_extensions_def push_ext_ids)

lemma query_exts_ok:
  assumes "query_ok q"
  shows "list_all ext_wf (query_exts q)"
proof -
  have "has_source_info (q_ext_info q) \<Longrightarrow> length (wire_source_info (q_ext_info q)) < 2 ^ 64"
    using assms by (intro wire_source_info_small) (simp add: query_ok_def si_ok_def)
  then show ?thesis using assms
    by (auto simp: query_exts_def push_ext_wf_ids query_ok_def value_ok_def z_msg_query_required_extensions_def Let_def)
qed

lemma no_value: "\<not> z_bytes_check (val_payload v) \<Longrightarrow> \<not> z_encoding_check (val_encoding v) \<Longrightarrow> recv_value v = z_value_null"
  using no_encoding [of "val_encoding v"]
  by (cases v) (simp add: recv_value_def canon_bytes_def z_bytes_check_concat z_value_null_def)

lemma query_exts_run:
  assumes "query_ok q" "q_ext_info q0 = z_source_info_null" "q_ext_value q0 = z_value_null" "q_ext_attachment q0 = []"
  shows "run_callback z_query_decode_extensions (query_exts q) q0 =
    Some (q0\<lparr>q_ext_info := q_ext_info q, q_ext_value := recv_value (q_ext_value q),
      q_ext_attachment := canon_bytes (q_ext_attachment q)\<rparr>)"
proof -
  let ?x = "z_msg_query_required_extensions q"
  have eq: "q0 = q0\<lparr>q_ext_info := z_source_info_null, q_ext_value := z_value_null, q_ext_attachment := []\<rparr>"
    using assms(2-4) by (cases q0) simp
  have si: "has_source_info (q_ext_info q) \<Longrightarrow> si_ok (q_ext_info q)" and v: "value_ok (q_ext_value q)"
    using assms(1) by (auto simp: query_ok_def)
  have n1: "\<not> qx_info ?x \<Longrightarrow> q_ext_info q = z_source_info_null"
    and n2: "\<not> qx_body ?x \<Longrightarrow> recv_value (q_ext_value q) = z_value_null"
    and n3: "\<not> qx_attachment ?x \<Longrightarrow> canon_bytes (q_ext_attachment q) = []"
    and n4: "qx_attachment ?x \<Longrightarrow> canon_bytes (q_ext_attachment q) = [concat (q_ext_attachment q)]"
    and s1: "qx_info ?x \<Longrightarrow> si_ok (q_ext_info q)"
    using no_source_info no_value si
    by (auto simp: z_msg_query_required_extensions_def z_bytes_check_concat canon_bytes_def)
  show ?thesis
    by (cases "qx_info ?x"; cases "qx_body ?x"; cases "qx_attachment ?x")
       (use n1 n2 n3 n4 s1 v assms(2-4) in
         \<open>simp_all add: query_exts_def Let_def query_callback_si query_callback_value query_callback_att\<close>)
qed

lemma query_consumes:
  assumes ok: "query_ok q"
  shows "consumes (z_query_decode z_msg_query_null (query_header q)) (wire_query_tail q) (recv_query q)"
proof -
  have par: "length (q_wire_parameters q) < 2 ^ 64" and c: "consolidation_ok (q_consolidation q)"
    using ok by (auto simp: query_ok_def)
  have cons: "consumes (if q_consolidation q \<noteq> Z_CONSOLIDATION_MODE_DEFAULT
        then bind_ok z_uint8_decode (\<lambda>b. ret (m\<lparr>q_consolidation := set_low_byte (q_consolidation m) b\<rparr>))
        else ret (m\<lparr>q_consolidation := Z_CONSOLIDATION_MODE_DEFAULT\<rparr>))
      (if q_consolidation q \<noteq> Z_CONSOLIDATION_MODE_DEFAULT then [ucast (q_consolidation q)] else [])
      (m\<lparr>q_consolidation := q_consolidation q\<rparr>)" if "q_consolidation m = 0" for m
    using consumes_last [OF uint8_consumes, of "\<lambda>b. ret (m\<lparr>q_consolidation := set_low_byte (q_consolidation m) b\<rparr>)"
        "ucast (q_consolidation q)" "m\<lparr>q_consolidation := q_consolidation q\<rparr>"] c that
    by (auto simp: consumes_ret consolidation_ok_def set_low_byte_0)
  have pars: "consumes (if q_wire_parameters q \<noteq> [] then bind_ok z_slice_decode (\<lambda>s. ret (m\<lparr>q_parameters := s\<rparr>))
        else ret (m\<lparr>q_parameters := []\<rparr>))
      (if q_wire_parameters q \<noteq> [] then wire_slice (q_wire_parameters q) else []) (m\<lparr>q_parameters := q_wire_parameters q\<rparr>)" for m
    using consumes_last [OF slice_consumes [OF par], of "\<lambda>s. ret (m\<lparr>q_parameters := s\<rparr>)" "m\<lparr>q_parameters := q_wire_parameters q\<rparr>"]
    by (simp add: consumes_ret)
  show ?thesis unfolding z_query_decode_def query_header_facts Let_def wire_query_tail_def
    apply (rule consumes_cong)
      apply (rule consumes_bind)
       apply (rule cons)
       apply (simp add: z_msg_query_null_def)
      apply (rule consumes_bind)
       apply (rule pars)
      apply (rule opt_exts_consumes [OF refl query_exts_ok [OF ok]])
      apply (rule query_exts_run [OF ok])
        apply (simp_all add: z_msg_query_null_def)
    apply (simp add: recv_query_def)
    done
qed


section \<open>What replies and errs look like\<close>

definition reply_header :: "z_msg_reply_t \<Rightarrow> u8" where
  "reply_header r = Z_MID_Z_REPLY OR (if r_consolidation r \<noteq> Z_CONSOLIDATION_MODE_DEFAULT then Z_FLAG_Z_R_C else 0)"

definition wire_reply_tail :: "z_msg_reply_t \<Rightarrow> byte list" where
  "wire_reply_tail r =
     (if r_consolidation r \<noteq> Z_CONSOLIDATION_MODE_DEFAULT then [ucast (r_consolidation r)] else []) @ wire_push_body (r_body r)"

definition wire_reply :: "z_msg_reply_t \<Rightarrow> byte list" where
  "wire_reply r = reply_header r # wire_reply_tail r"

definition reply_ok :: "z_msg_reply_t \<Rightarrow> bool" where
  "reply_ok r \<longleftrightarrow> consolidation_ok (r_consolidation r) \<and> push_ok (r_body r)"

definition recv_reply :: "z_msg_reply_t \<Rightarrow> z_msg_reply_t" where
  "recv_reply r = r\<lparr>r_body := recv_push (r_body r)\<rparr>"

lemma reply_header_facts:
  "Z_MID (reply_header r) = Z_MID_Z_REPLY"
  "Z_HAS_FLAG (reply_header r) Z_FLAG_Z_R_C \<longleftrightarrow> r_consolidation r \<noteq> Z_CONSOLIDATION_MODE_DEFAULT"
  "Z_HAS_FLAG (reply_header r) Z_FLAG_Z_Z \<longleftrightarrow> False"
  by (auto simp: reply_header_def z_msg_consts)

lemma appends_reply [appends_intros]:
  assumes "reply_ok r"
  shows "appends (z_reply_encode r) (wire_reply r)"
proof -
  have ok: "push_ok (r_body r)" using assms by (simp add: reply_ok_def)
  show ?thesis unfolding z_reply_encode_def Let_def
    apply (rule appends_cong)
     apply (rule appends_then appends_when appends_uint8 appends_push_body ok)+
    apply (simp add: wire_reply_def wire_reply_tail_def reply_header_def)
    done
qed

lemma reply_consumes:
  assumes "reply_ok r"
  shows "consumes (z_reply_decode z_msg_reply_null (reply_header r)) (wire_reply_tail r) (recv_reply r)"
proof -
  have ok: "push_ok (r_body r)" and c: "consolidation_ok (r_consolidation r)" using assms by (auto simp: reply_ok_def)
  have cons: "consumes (if r_consolidation r \<noteq> Z_CONSOLIDATION_MODE_DEFAULT
        then bind_ok z_uint8_decode (\<lambda>b. ret (m\<lparr>r_consolidation := set_low_byte (r_consolidation m) b\<rparr>))
        else ret (m\<lparr>r_consolidation := Z_CONSOLIDATION_MODE_DEFAULT\<rparr>))
      (if r_consolidation r \<noteq> Z_CONSOLIDATION_MODE_DEFAULT then [ucast (r_consolidation r)] else [])
      (m\<lparr>r_consolidation := r_consolidation r\<rparr>)" if "r_consolidation m = 0" for m
    using consumes_last [OF uint8_consumes, of "\<lambda>b. ret (m\<lparr>r_consolidation := set_low_byte (r_consolidation m) b\<rparr>)"
        "ucast (r_consolidation r)" "m\<lparr>r_consolidation := r_consolidation r\<rparr>"] c that
    by (auto simp: consumes_ret consolidation_ok_def set_low_byte_0)
  show ?thesis unfolding z_reply_decode_def reply_header_facts wire_reply_tail_def if_False
    apply (rule consumes_cong)
      apply (rule consumes_bind)
       apply (rule cons)
       apply (simp add: z_msg_reply_null_def)
      apply (rule consumes_bind)
       apply (rule consumes_ret)
      apply (rule consumes_bind)
       apply (rule uint8_consumes)
      apply (rule consumes_last)
       apply (simp add: z_msg_reply_null_def)
       apply (rule push_body_consumes [OF ok])
      apply (rule refl)
     apply (simp add: wire_push_body_def)
    apply (simp add: z_msg_reply_null_def recv_reply_def)
    done
qed

definition err_exts :: "z_msg_err_t \<Rightarrow> z_msg_ext_t list" where
  "err_exts e = (if has_source_info (e_ext_source_info e)
     then [zbuf_ext (Z_MSG_EXT_ENC_ZBUF OR 0x01) (wire_source_info (e_ext_source_info e))] else [])"

definition err_header :: "z_msg_err_t \<Rightarrow> u8" where
  "err_header e = Z_MID_Z_ERR OR (if z_encoding_check (e_encoding e) then Z_FLAG_Z_E_E else 0) OR
     (if err_exts e \<noteq> [] then Z_FLAG_Z_Z else 0)"

definition wire_err_tail :: "z_msg_err_t \<Rightarrow> byte list" where
  "wire_err_tail e = (if z_encoding_check (e_encoding e) then wire_encoding (e_encoding e) else []) @
     wire_exts (err_exts e) @ wire_slice (concat (e_payload e))"

definition wire_err :: "z_msg_err_t \<Rightarrow> byte list" where
  "wire_err e = err_header e # wire_err_tail e"

definition err_ok :: "z_msg_err_t \<Rightarrow> bool" where
  "err_ok e \<longleftrightarrow> (has_source_info (e_ext_source_info e) \<longrightarrow> si_ok (e_ext_source_info e)) \<and>
     length (enc_schema (e_encoding e)) < 2 ^ 64 \<and> length (concat (e_payload e)) < 2 ^ 64"

definition recv_err :: "z_msg_err_t \<Rightarrow> z_msg_err_t" where
  "recv_err e = e\<lparr>e_payload := [concat (e_payload e)]\<rparr>"

lemma err_header_facts:
  "Z_MID (err_header e) = Z_MID_Z_ERR"
  "Z_HAS_FLAG (err_header e) Z_FLAG_Z_E_E \<longleftrightarrow> z_encoding_check (e_encoding e)"
  "Z_HAS_FLAG (err_header e) Z_FLAG_Z_Z \<longleftrightarrow> err_exts e \<noteq> []"
  by (auto simp: err_header_def z_msg_consts)

lemma appends_err_msg [appends_intros]:
  assumes "err_ok e"
  shows "appends (z_err_encode e) (wire_err e)"
proof -
  have ok: "has_source_info (e_ext_source_info e) \<Longrightarrow> id_wf (eg_zid (si_source_id (e_ext_source_info e)))"
    using assms by (auto simp: err_ok_def si_ok_def)
  show ?thesis unfolding z_err_encode_def Let_def
    apply (rule appends_cong)
     apply (rule appends_then appends_when appends_uint8 appends_encoding appends_bytes appends_source_info ok | assumption)+
    apply (simp add: wire_err_def wire_err_tail_def err_header_def err_exts_def z_msg_consts z_ext_consts)
    done
qed

lemma err_exts_run:
  assumes "err_ok e" "e_ext_source_info e0 = z_source_info_null"
  shows "run_callback z_err_decode_extension (err_exts e) e0 = Some (e0\<lparr>e_ext_source_info := e_ext_source_info e\<rparr>)"
proof -
  have eq: "e0\<lparr>e_ext_source_info := z_source_info_null\<rparr> = e0" using assms(2) by (cases e0) simp
  show ?thesis using assms no_source_info [of "e_ext_source_info e"] eq
    by (auto simp: err_exts_def z_err_decode_extension_def push_ext_ids bind_ok_def err_ok_def
        on_slice_consumes [OF source_info_consumes])
qed

lemma err_exts_ok: "err_ok e \<Longrightarrow> list_all ext_wf (err_exts e)"
  using wire_source_info_small [of "e_ext_source_info e"] by (auto simp: err_exts_def push_ext_wf_ids err_ok_def si_ok_def)

lemma err_consumes:
  assumes ok: "err_ok e"
  shows "consumes (z_err_decode z_msg_err_null (err_header e)) (wire_err_tail e) (recv_err e)"
proof -
  have sch: "length (enc_schema (e_encoding e)) < 2 ^ 64" and pay: "length (concat (e_payload e)) < 2 ^ 64"
    using ok by (auto simp: err_ok_def)
  show ?thesis unfolding z_err_decode_def err_header_facts wire_err_tail_def
    apply (rule consumes_cong)
      apply (rule consumes_bind)
       apply (rule opt_encoding_consumes [OF sch])
         apply (simp add: z_msg_err_null_def)
        apply (simp add: z_msg_err_null_def)
       apply (rule refl)
      apply (rule consumes_bind)
       apply (rule opt_exts_consumes [OF refl err_exts_ok [OF ok]])
       apply (rule err_exts_run [OF ok])
       apply (simp add: z_msg_err_null_def)
      apply (rule consumes_last)
       apply (rule bytes_consumes [OF pay])
      apply (rule refl)
     apply simp
    apply (simp add: recv_err_def z_msg_err_null_def)
    done
qed

section \<open>The bodies on any input\<close>

text \<open>
  The bodies without a timestamp are read safely whatever the bytes are. A timestamp is
  not: the ID in it is read without a check (\<^verbatim>\<open>_z_id_decode_as_slice\<close>).
\<close>

named_theorems callback_intros \<open>rules that show that a callback does not fault\<close>

lemma callback_safeI: "(\<And>e c. ext_shape e \<Longrightarrow> cb e c \<noteq> Fault) \<Longrightarrow> callback_safe cb"
  by (simp add: callback_safe_def)

lemma callback_if [callback_intros]:
  "(b \<Longrightarrow> p c \<noteq> Fault) \<Longrightarrow> (\<not> b \<Longrightarrow> q c \<noteq> Fault) \<Longrightarrow> (if b then p else q) c \<noteq> Fault"
  by simp

lemma callback_unknown [callback_intros]: "unknown_ext e c \<noteq> Fault"
  by (simp add: unknown_ext_def z_msg_ext_unknown_error_def fail_def ret_def)

lemma callback_ok [callback_intros]: "Ok x c \<noteq> Fault"
  by simp

lemma ext_enc_full: "Z_EXT_ENC (Z_EXT_FULL_ID h) = Z_EXT_ENC h"
proof -
  have "Z_EXT_ENC_MASK AND Z_EXT_FULL_ID_MASK = Z_EXT_ENC_MASK" by (simp add: z_ext_consts)
  then show ?thesis by (simp add: Z_EXT_ENC_def Z_EXT_FULL_ID_def and.assoc [symmetric])
qed

lemma callback_zbuf [callback_intros]:
  assumes "ext_shape e" "Z_EXT_FULL_ID (ext_header e) = i" "Z_EXT_ENC i = Z_MSG_EXT_ENC_ZBUF" "\<And>s. k s c \<noteq> Fault"
  shows "ext_zbuf e k c \<noteq> Fault"
proof -
  have "Z_EXT_ENC (ext_header e) = Z_MSG_EXT_ENC_ZBUF" using assms(2,3) ext_enc_full [of "ext_header e"] by simp
  then show ?thesis using assms(1,4) by (cases "ext_body e") (auto simp: ext_shape_def ext_zbuf_def z_ext_consts)
qed

lemma callback_zint [callback_intros]:
  assumes "ext_shape e" "Z_EXT_FULL_ID (ext_header e) = i" "Z_EXT_ENC i = Z_MSG_EXT_ENC_ZINT" "\<And>v. k v c \<noteq> Fault"
  shows "ext_zint e k c \<noteq> Fault"
proof -
  have "Z_EXT_ENC (ext_header e) = Z_MSG_EXT_ENC_ZINT" using assms(2,3) ext_enc_full [of "ext_header e"] by simp
  then show ?thesis using assms(1,4) by (cases "ext_body e") (auto simp: ext_shape_def ext_zint_def z_ext_consts)
qed

lemma callback_slice [callback_intros]:
  "safe d \<Longrightarrow> (\<And>x c. f x c \<noteq> Fault) \<Longrightarrow> bind_ok (on_slice d s) f c \<noteq> Fault"
  using on_slice_safe [of d s c] by (cases "on_slice d s c") (auto simp: bind_ok_def)

lemma push_callback_safe [safe_intros]: "callback_safe z_push_body_decode_extensions"
  unfolding z_push_body_decode_extensions_def Let_def
  by (intro callback_safeI callback_intros safe_intros) (assumption | rule push_ext_wf_ids)+

lemma query_callback_safe [safe_intros]: "callback_safe z_query_decode_extensions"
  unfolding z_query_decode_extensions_def Let_def
  by (intro callback_safeI callback_intros safe_intros) (assumption | rule push_ext_wf_ids)+

lemma err_callback_safe [safe_intros]: "callback_safe z_err_decode_extension"
  unfolding z_err_decode_extension_def
  by (intro callback_safeI callback_intros safe_intros) (assumption | rule push_ext_wf_ids)+

lemma reply_callback_safe [safe_intros]: "callback_safe z_reply_decode_extension"
  by (simp add: callback_safe_def z_reply_decode_extension_def z_msg_ext_unknown_error_def fail_def)

lemma query_safe [safe_intros]: "safe (z_query_decode msg header)"
  unfolding z_query_decode_def Let_def by (intro safe_intros)

lemma err_safe [safe_intros]: "safe (z_err_decode msg header)"
  unfolding z_err_decode_def by (intro safe_intros)

lemma push_body_safe:
  assumes "\<not> Z_HAS_FLAG header Z_FLAG_Z_P_T"
  shows "safe (z_push_body_decode b header)"
proof -
  have dt: "Z_FLAG_Z_D_T = Z_FLAG_Z_P_T" by (simp add: z_msg_consts)
  show ?thesis unfolding z_push_body_decode_def Let_def dt using assms by (simp only: if_False) (intro safe_intros)
qed

section \<open>Contracts\<close>

text \<open>A body with its header byte, as the network layer reads it.\<close>

lemma headed_consumes: "consumes (d h) bs v \<Longrightarrow> consumes (bind_ok z_uint8_decode d) (h # bs) v"
  by (rule consumes_bind2 [OF uint8_consumes]) simp_all

interpretation push_body: wire_codec z_push_body_encode wire_push_body push_ok
    "bind_ok z_uint8_decode (z_push_body_decode z_push_body_null)" recv_push
proof unfold_locales
  fix x assume x: "push_ok x"
  show "appends (z_push_body_encode x) (wire_push_body x)" by (rule appends_push_body [OF x])
  show "consumes (bind_ok z_uint8_decode (z_push_body_decode z_push_body_null)) (wire_push_body x) (recv_push x)"
    unfolding wire_push_body_def by (rule headed_consumes, rule push_body_consumes [OF x])
qed

interpretation query: wire_codec z_query_encode wire_query query_ok
    "bind_ok z_uint8_decode (z_query_decode z_msg_query_null)" recv_query
proof unfold_locales
  fix x assume x: "query_ok x"
  show "appends (z_query_encode x) (wire_query x)" by (rule appends_query [OF x])
  show "consumes (bind_ok z_uint8_decode (z_query_decode z_msg_query_null)) (wire_query x) (recv_query x)"
    unfolding wire_query_def by (rule headed_consumes, rule query_consumes [OF x])
qed

interpretation reply: wire_codec z_reply_encode wire_reply reply_ok
    "bind_ok z_uint8_decode (z_reply_decode z_msg_reply_null)" recv_reply
proof unfold_locales
  fix x assume x: "reply_ok x"
  show "appends (z_reply_encode x) (wire_reply x)" by (rule appends_reply [OF x])
  show "consumes (bind_ok z_uint8_decode (z_reply_decode z_msg_reply_null)) (wire_reply x) (recv_reply x)"
    unfolding wire_reply_def by (rule headed_consumes, rule reply_consumes [OF x])
qed

interpretation err: wire_codec z_err_encode wire_err err_ok
    "bind_ok z_uint8_decode (z_err_decode z_msg_err_null)" recv_err
proof unfold_locales
  fix x assume x: "err_ok x"
  show "appends (z_err_encode x) (wire_err x)" by (rule appends_err_msg [OF x])
  show "consumes (bind_ok z_uint8_decode (z_err_decode z_msg_err_null)) (wire_err x) (recv_err x)"
    unfolding wire_err_def by (rule headed_consumes, rule err_consumes [OF x])
qed

interpretation query: safe_decoder "bind_ok z_uint8_decode (z_query_decode z_msg_query_null)"
  by unfold_locales (intro safe_intros)

interpretation err: safe_decoder "bind_ok z_uint8_decode (z_err_decode z_msg_err_null)"
  by unfold_locales (intro safe_intros)

end
