(* ===== verification/Zp_Declare.thy ===== *)
theory Zp_Declare
  imports Zp_Query
begin

text \<open>
  Declarations and interests: \<^verbatim>\<open>include/zenoh-pico/protocol/definitions/declarations.h\<close> and
  \<^verbatim>\<open>interest.h\<close>, their makers in \<^verbatim>\<open>src/protocol/definitions/\<close>, and the codecs in
  \<^verbatim>\<open>src/protocol/codec/declarations.c\<close> and \<^verbatim>\<open>interest.c\<close>. Every declaration of a resource
  names a key expression by a number, a suffix, or both, and says whose number it is; the
  theory says what the receiver makes of each, and that any bytes are read safely.
\<close>

section \<open>Declarations\<close>

definition Z_DECL_KEXPR_MID :: u8 where "Z_DECL_KEXPR_MID = 0"
definition Z_DECL_KEXPR_FLAG_N :: u8 where "Z_DECL_KEXPR_FLAG_N = 0x20"
definition Z_UNDECL_KEXPR_MID :: u8 where "Z_UNDECL_KEXPR_MID = 1"
definition Z_DECL_SUBSCRIBER_MID :: u8 where "Z_DECL_SUBSCRIBER_MID = 2"
definition Z_DECL_SUBSCRIBER_FLAG_N :: u8 where "Z_DECL_SUBSCRIBER_FLAG_N = 0x20"
definition Z_DECL_SUBSCRIBER_FLAG_M :: u8 where "Z_DECL_SUBSCRIBER_FLAG_M = 0x40"
definition Z_UNDECL_SUBSCRIBER_MID :: u8 where "Z_UNDECL_SUBSCRIBER_MID = 3"
definition Z_DECL_QUERYABLE_MID :: u8 where "Z_DECL_QUERYABLE_MID = 4"
definition Z_UNDECL_QUERYABLE_MID :: u8 where "Z_UNDECL_QUERYABLE_MID = 5"
definition Z_DECL_TOKEN_MID :: u8 where "Z_DECL_TOKEN_MID = 6"
definition Z_UNDECL_TOKEN_MID :: u8 where "Z_UNDECL_TOKEN_MID = 7"
definition Z_DECL_FINAL_MID :: u8 where "Z_DECL_FINAL_MID = 0x1a"

text \<open>\<^verbatim>\<open>_Z_UNDECL_KEXPR\<close>, the second tag of the enumeration of declarations.\<close>

definition Z_UNDECL_KEXPR_tag :: u8 where "Z_UNDECL_KEXPR_tag = 1"

lemmas z_decl_consts = Z_DECL_KEXPR_MID_def Z_DECL_KEXPR_FLAG_N_def Z_UNDECL_KEXPR_MID_def Z_DECL_SUBSCRIBER_MID_def
  Z_DECL_SUBSCRIBER_FLAG_N_def Z_DECL_SUBSCRIBER_FLAG_M_def Z_UNDECL_SUBSCRIBER_MID_def Z_DECL_QUERYABLE_MID_def
  Z_UNDECL_QUERYABLE_MID_def Z_DECL_TOKEN_MID_def Z_UNDECL_TOKEN_MID_def Z_DECL_FINAL_MID_def Z_UNDECL_KEXPR_tag_def

record z_decl_kexpr_t =
  dk_id :: u16
  dk_keyexpr :: z_wireexpr_t

record z_undecl_kexpr_t =
  uk_id :: u16

record z_decl_subscriber_t =
  ds_keyexpr :: z_wireexpr_t
  ds_id :: u32

record z_undecl_subscriber_t =
  us_id :: u32
  us_ext_keyexpr :: z_wireexpr_t

record z_decl_queryable_t =
  dq_keyexpr :: z_wireexpr_t
  dq_id :: u32
  dq_complete :: bool
  dq_distance :: u16

record z_undecl_queryable_t =
  uq_id :: u32
  uq_ext_keyexpr :: z_wireexpr_t

record z_decl_token_t =
  dt_keyexpr :: z_wireexpr_t
  dt_id :: u32

record z_undecl_token_t =
  ut_id :: u32
  ut_ext_keyexpr :: z_wireexpr_t

datatype z_declaration_t =
    Decl_Kexpr z_decl_kexpr_t
  | Undecl_Kexpr z_undecl_kexpr_t
  | Decl_Subscriber z_decl_subscriber_t
  | Undecl_Subscriber z_undecl_subscriber_t
  | Decl_Queryable z_decl_queryable_t
  | Undecl_Queryable z_undecl_queryable_t
  | Decl_Token z_decl_token_t
  | Undecl_Token z_undecl_token_t
  | Decl_Final

section \<open>Makers\<close>

text \<open>A key that may be missing is an option; a key that is there is moved out of its place.\<close>

definition opt_key :: "z_wireexpr_t option \<Rightarrow> z_wireexpr_t" where
  "opt_key key = (case key of None \<Rightarrow> z_wireexpr_null | Some k \<Rightarrow> k)"

definition z_make_decl_keyexpr :: "u16 \<Rightarrow> z_wireexpr_t \<Rightarrow> z_declaration_t" where
  "z_make_decl_keyexpr i key = Decl_Kexpr \<lparr>dk_id = i, dk_keyexpr = key\<rparr>"
definition z_make_undecl_keyexpr :: "u16 \<Rightarrow> z_declaration_t" where
  "z_make_undecl_keyexpr i = Undecl_Kexpr \<lparr>uk_id = i\<rparr>"
definition z_make_decl_subscriber :: "z_wireexpr_t \<Rightarrow> u32 \<Rightarrow> z_declaration_t" where
  "z_make_decl_subscriber key i = Decl_Subscriber \<lparr>ds_keyexpr = key, ds_id = i\<rparr>"
definition z_make_undecl_subscriber :: "u32 \<Rightarrow> z_wireexpr_t option \<Rightarrow> z_declaration_t" where
  "z_make_undecl_subscriber i key = Undecl_Subscriber \<lparr>us_id = i, us_ext_keyexpr = opt_key key\<rparr>"
definition z_make_decl_queryable :: "z_wireexpr_t \<Rightarrow> u32 \<Rightarrow> bool \<Rightarrow> u16 \<Rightarrow> z_declaration_t" where
  "z_make_decl_queryable key i complete distance =
     Decl_Queryable \<lparr>dq_keyexpr = key, dq_id = i, dq_complete = complete, dq_distance = distance\<rparr>"
definition z_make_undecl_queryable :: "u32 \<Rightarrow> z_wireexpr_t option \<Rightarrow> z_declaration_t" where
  "z_make_undecl_queryable i key = Undecl_Queryable \<lparr>uq_id = i, uq_ext_keyexpr = opt_key key\<rparr>"
definition z_make_decl_token :: "z_wireexpr_t \<Rightarrow> u32 \<Rightarrow> z_declaration_t" where
  "z_make_decl_token key i = Decl_Token \<lparr>dt_keyexpr = key, dt_id = i\<rparr>"
definition z_make_undecl_token :: "u32 \<Rightarrow> z_wireexpr_t option \<Rightarrow> z_declaration_t" where
  "z_make_undecl_token i key = Undecl_Token \<lparr>ut_id = i, ut_ext_keyexpr = opt_key key\<rparr>"
definition z_make_decl_final :: z_declaration_t where
  "z_make_decl_final = Decl_Final"

text \<open>\<^verbatim>\<open>_z_declaration_clear\<close> clears the key expression of the declaration, where it has one.\<close>

definition z_declaration_clear :: "z_declaration_t \<Rightarrow> z_declaration_t" where
  "z_declaration_clear decl = (case decl of
     Decl_Kexpr d \<Rightarrow> Decl_Kexpr (d\<lparr>dk_keyexpr := z_wireexpr_null\<rparr>)
   | Undecl_Kexpr d \<Rightarrow> Undecl_Kexpr d
   | Decl_Subscriber d \<Rightarrow> Decl_Subscriber (d\<lparr>ds_keyexpr := z_wireexpr_null\<rparr>)
   | Undecl_Subscriber d \<Rightarrow> Undecl_Subscriber (d\<lparr>us_ext_keyexpr := z_wireexpr_null\<rparr>)
   | Decl_Queryable d \<Rightarrow> Decl_Queryable (d\<lparr>dq_keyexpr := z_wireexpr_null\<rparr>)
   | Undecl_Queryable d \<Rightarrow> Undecl_Queryable (d\<lparr>uq_ext_keyexpr := z_wireexpr_null\<rparr>)
   | Decl_Token d \<Rightarrow> Decl_Token (d\<lparr>dt_keyexpr := z_wireexpr_null\<rparr>)
   | Undecl_Token d \<Rightarrow> Undecl_Token (d\<lparr>ut_ext_keyexpr := z_wireexpr_null\<rparr>)
   | Decl_Final \<Rightarrow> Decl_Final)"

section \<open>Encoding\<close>

text \<open>The length of the suffix is kept in 32 bits.\<close>

definition z_decl_ext_keyexpr_encode :: "z_wireexpr_t \<Rightarrow> bool \<Rightarrow> (unit, z_wbuf_t) prog" where
  "z_decl_ext_keyexpr_encode ke has_next_ext =
     (let header = Z_MSG_EXT_ENC_ZBUF OR Z_MSG_EXT_FLAG_M OR 0x0f OR (if has_next_ext then Z_FLAG_Z_Z else 0);
          kelen = (if z_wireexpr_has_suffix ke then of_nat (length (we_suffix ke)) else 0 :: u32);
          header2 = (if z_wireexpr_is_local ke then 2 else 0) OR (if kelen \<noteq> 0 then 1 else 0)
      in then_do (z_uint8_encode header)
        (then_do (z_zsize_encode (ucast (1 + kelen + ucast (z_zint_len (ucast (we_id ke))))))
        (then_do (z_uint8_encode header2)
        (then_do (z_zsize_encode (ucast (we_id ke)))
        (when_do (kelen \<noteq> 0) (z_wbuf_write_bytes (we_suffix ke) 0 (unat kelen)))))))"

definition z_decl_kexpr_encode :: "z_decl_kexpr_t \<Rightarrow> (unit, z_wbuf_t) prog" where
  "z_decl_kexpr_encode decl =
     (let header = Z_DECL_KEXPR_MID;
          has_kesuffix = z_wireexpr_has_suffix (dk_keyexpr decl);
          header = (if has_kesuffix then header OR Z_DECL_KEXPR_FLAG_N else header)
      in then_do (z_uint8_encode header)
        (then_do (z_zsize_encode (ucast (dk_id decl))) (z_wireexpr_encode has_kesuffix (dk_keyexpr decl))))"

definition z_decl_commons_encode :: "u8 \<Rightarrow> bool \<Rightarrow> u32 \<Rightarrow> z_wireexpr_t \<Rightarrow> (unit, z_wbuf_t) prog" where
  "z_decl_commons_encode header has_extensions i keyexpr =
     (let has_kesuffix = z_wireexpr_has_suffix keyexpr;
          header = (if has_extensions then header OR Z_FLAG_Z_Z else header);
          header = (if has_kesuffix then header OR Z_DECL_SUBSCRIBER_FLAG_N else header);
          header = (if z_wireexpr_is_local keyexpr then header OR Z_DECL_SUBSCRIBER_FLAG_M else header)
      in then_do (z_uint8_encode header)
        (then_do (z_zsize_encode (ucast i)) (z_wireexpr_encode has_kesuffix keyexpr)))"

definition z_decl_subscriber_encode :: "z_decl_subscriber_t \<Rightarrow> (unit, z_wbuf_t) prog" where
  "z_decl_subscriber_encode decl =
     z_decl_commons_encode Z_DECL_SUBSCRIBER_MID False (ds_id decl) (ds_keyexpr decl)"

definition z_undecl_kexpr_encode :: "z_undecl_kexpr_t \<Rightarrow> (unit, z_wbuf_t) prog" where
  "z_undecl_kexpr_encode decl =
     then_do (z_uint8_encode Z_UNDECL_KEXPR_tag) (z_zsize_encode (ucast (uk_id decl)))"

definition z_undecl_encode :: "u8 \<Rightarrow> z_zint_t \<Rightarrow> z_wireexpr_t \<Rightarrow> (unit, z_wbuf_t) prog" where
  "z_undecl_encode header decl_id ke =
     (let has_keyexpr_ext = z_wireexpr_check ke;
          header = (if has_keyexpr_ext then header OR Z_FLAG_Z_Z else header)
      in then_do (z_uint8_encode header)
        (then_do (z_zsize_encode decl_id) (when_do has_keyexpr_ext (z_decl_ext_keyexpr_encode ke False))))"

definition z_undecl_subscriber_encode :: "z_undecl_subscriber_t \<Rightarrow> (unit, z_wbuf_t) prog" where
  "z_undecl_subscriber_encode decl = z_undecl_encode Z_UNDECL_SUBSCRIBER_MID (ucast (us_id decl)) (us_ext_keyexpr decl)"

definition z_decl_queryable_encode :: "z_decl_queryable_t \<Rightarrow> (unit, z_wbuf_t) prog" where
  "z_decl_queryable_encode decl =
     (let has_info_ext = dq_complete decl \<or> dq_distance decl \<noteq> 0;
          flags = (if dq_complete decl then 1 else 0 :: u8);
          val = ucast flags OR push_bit 8 (ucast (dq_distance decl)) :: u64
      in then_do (z_decl_commons_encode Z_DECL_QUERYABLE_MID has_info_ext (dq_id decl) (dq_keyexpr decl))
        (when_do has_info_ext
          (then_do (z_uint8_encode (Z_MSG_EXT_ENC_ZINT OR 0x01)) (z_zint64_encode val))))"

definition z_undecl_queryable_encode :: "z_undecl_queryable_t \<Rightarrow> (unit, z_wbuf_t) prog" where
  "z_undecl_queryable_encode decl = z_undecl_encode Z_UNDECL_QUERYABLE_MID (ucast (uq_id decl)) (uq_ext_keyexpr decl)"

definition z_decl_token_encode :: "z_decl_token_t \<Rightarrow> (unit, z_wbuf_t) prog" where
  "z_decl_token_encode decl = z_decl_commons_encode Z_DECL_TOKEN_MID False (dt_id decl) (dt_keyexpr decl)"

definition z_undecl_token_encode :: "z_undecl_token_t \<Rightarrow> (unit, z_wbuf_t) prog" where
  "z_undecl_token_encode decl = z_undecl_encode Z_UNDECL_TOKEN_MID (ucast (ut_id decl)) (ut_ext_keyexpr decl)"

definition z_decl_final_encode :: "(unit, z_wbuf_t) prog" where
  "z_decl_final_encode = z_uint8_encode Z_DECL_FINAL_MID"

definition z_declaration_encode :: "z_declaration_t \<Rightarrow> (unit, z_wbuf_t) prog" where
  "z_declaration_encode decl = (case decl of
     Decl_Kexpr d \<Rightarrow> z_decl_kexpr_encode d
   | Undecl_Kexpr d \<Rightarrow> z_undecl_kexpr_encode d
   | Decl_Subscriber d \<Rightarrow> z_decl_subscriber_encode d
   | Undecl_Subscriber d \<Rightarrow> z_undecl_subscriber_encode d
   | Decl_Queryable d \<Rightarrow> z_decl_queryable_encode d
   | Undecl_Queryable d \<Rightarrow> z_undecl_queryable_encode d
   | Decl_Token d \<Rightarrow> z_decl_token_encode d
   | Undecl_Token d \<Rightarrow> z_undecl_token_encode d
   | Decl_Final \<Rightarrow> z_decl_final_encode)"

section \<open>Decoding\<close>

definition skip_if :: "bool \<Rightarrow> (unit, z_zbuf_t) prog" where
  "skip_if b = (if b then z_msg_ext_skip_non_mandatories else ret ())"

definition z_decl_kexpr_decode :: "u8 \<Rightarrow> keyexpr_mapping \<Rightarrow> (z_decl_kexpr_t, z_zbuf_t) prog" where
  "z_decl_kexpr_decode header mapping =
     bind_ok z_zint16_decode (\<lambda>i.
     bind_ok (z_wireexpr_decode (Z_HAS_FLAG header Z_DECL_KEXPR_FLAG_N) True mapping) (\<lambda>ke.
     bind_ok (skip_if (Z_HAS_FLAG header Z_FLAG_Z_Z)) (\<lambda>_. ret \<lparr>dk_id = i, dk_keyexpr = ke\<rparr>)))"

definition z_undecl_kexpr_decode :: "u8 \<Rightarrow> (z_undecl_kexpr_t, z_zbuf_t) prog" where
  "z_undecl_kexpr_decode header =
     bind_ok z_zint16_decode (\<lambda>i.
     bind_ok (skip_if (Z_HAS_FLAG header Z_FLAG_Z_Z)) (\<lambda>_. ret \<lparr>uk_id = i\<rparr>))"

text \<open>
  The key expression of an undeclaration, in an extension. A suffix that is announced takes
  the rest of the extension; the string made for it has no start when it is empty, which the
  code reports as a lack of memory.
\<close>

definition z_undecl_ext_read :: "z_wireexpr_t \<Rightarrow> (z_wireexpr_t, z_zbuf_t) prog" where
  "z_undecl_ext_read ke =
     bind_ok z_uint8_decode (\<lambda>header.
     let mapping = (if Z_HAS_FLAG header 2 then KEYEXPR_MAPPING_UNKNOWN_REMOTE else KEYEXPR_MAPPING_LOCAL) in
     bind_ok z_zint16_decode (\<lambda>i.
     if Z_HAS_FLAG header 1
     then (\<lambda>z. if z_zbuf_len z = 0 then Err Z_ERR_SYSTEM_OUT_OF_MEMORY z
               else bind_ok (z_zbuf_read_bytes (z_zbuf_len z))
                      (\<lambda>s. ret (ke\<lparr>we_id := i, we_suffix := s, we_mapping := mapping\<rparr>)) z)
     else ret (ke\<lparr>we_id := i, we_mapping := mapping\<rparr>)))"

definition z_undecl_decode_extensions :: "z_msg_ext_t \<Rightarrow> (unit, z_wireexpr_t) prog" where
  "z_undecl_decode_extensions extension =
     (if ext_header extension = Z_MSG_EXT_ENC_ZBUF OR Z_MSG_EXT_FLAG_M OR 0x0f
      then ext_zbuf extension (\<lambda>s ke. bind_ok (on_slice (z_undecl_ext_read ke) s) (\<lambda>ke' _. Ok () ke') ke)
      else unknown_ext extension)"

definition z_undecl_trivial_decode ::
    "z_wireexpr_t \<Rightarrow> u8 \<Rightarrow> keyexpr_mapping \<Rightarrow> (u32 \<times> z_wireexpr_t, z_zbuf_t) prog" where
  "z_undecl_trivial_decode ext_keyexpr header mapping =
     bind_ok z_zint32_decode (\<lambda>i.
     if Z_HAS_FLAG header Z_FLAG_Z_Z
     then bind_ok (z_msg_ext_decode_iter z_undecl_decode_extensions ext_keyexpr) (\<lambda>ke.
            ret (i, if we_mapping ke = KEYEXPR_MAPPING_UNKNOWN_REMOTE then ke\<lparr>we_mapping := mapping\<rparr> else ke))
     else ret (i, ext_keyexpr))"

definition z_decl_commons_decode ::
    "u8 \<Rightarrow> keyexpr_mapping \<Rightarrow> (bool \<times> u32 \<times> z_wireexpr_t, z_zbuf_t) prog" where
  "z_decl_commons_decode header mapping =
     bind_ok z_zint32_decode (\<lambda>i.
     bind_ok (z_wireexpr_decode (Z_HAS_FLAG header Z_DECL_SUBSCRIBER_FLAG_N)
                (Z_HAS_FLAG header Z_DECL_SUBSCRIBER_FLAG_M) mapping) (\<lambda>ke.
       ret (Z_HAS_FLAG header Z_FLAG_Z_Z, i, ke)))"

definition z_decl_subscriber_decode_extensions :: "z_msg_ext_t \<Rightarrow> (unit, z_decl_subscriber_t) prog" where
  "z_decl_subscriber_decode_extensions extension = unknown_ext extension"

definition z_decl_subscriber_decode :: "u8 \<Rightarrow> keyexpr_mapping \<Rightarrow> (z_decl_subscriber_t, z_zbuf_t) prog" where
  "z_decl_subscriber_decode header mapping =
     bind_ok (z_decl_commons_decode header mapping) (\<lambda>(has_ext, i, ke).
     let decl = \<lparr>ds_keyexpr = ke, ds_id = i\<rparr> in
     if has_ext then z_msg_ext_decode_iter z_decl_subscriber_decode_extensions decl else ret decl)"

definition z_undecl_subscriber_decode :: "u8 \<Rightarrow> keyexpr_mapping \<Rightarrow> (z_undecl_subscriber_t, z_zbuf_t) prog" where
  "z_undecl_subscriber_decode header mapping =
     bind_ok (z_undecl_trivial_decode z_wireexpr_null header mapping)
       (\<lambda>(i, ke). ret \<lparr>us_id = i, us_ext_keyexpr = ke\<rparr>)"

definition z_decl_queryable_decode_extensions :: "z_msg_ext_t \<Rightarrow> (unit, z_decl_queryable_t) prog" where
  "z_decl_queryable_decode_extensions extension =
     (if ext_header extension = Z_MSG_EXT_ENC_ZINT OR 0x01
      then ext_zint extension (\<lambda>val decl.
             Ok () (decl\<lparr>dq_complete := (val AND 0x01 \<noteq> 0), dq_distance := ucast (drop_bit 8 val)\<rparr>))
      else unknown_ext extension)"

definition z_decl_queryable_decode :: "u8 \<Rightarrow> keyexpr_mapping \<Rightarrow> (z_decl_queryable_t, z_zbuf_t) prog" where
  "z_decl_queryable_decode header mapping =
     bind_ok (z_decl_commons_decode header mapping) (\<lambda>(has_ext, i, ke).
     let decl = \<lparr>dq_keyexpr = ke, dq_id = i, dq_complete = False, dq_distance = 0\<rparr> in
     if has_ext then z_msg_ext_decode_iter z_decl_queryable_decode_extensions decl else ret decl)"

definition z_undecl_queryable_decode :: "u8 \<Rightarrow> keyexpr_mapping \<Rightarrow> (z_undecl_queryable_t, z_zbuf_t) prog" where
  "z_undecl_queryable_decode header mapping =
     bind_ok (z_undecl_trivial_decode z_wireexpr_null header mapping)
       (\<lambda>(i, ke). ret \<lparr>uq_id = i, uq_ext_keyexpr = ke\<rparr>)"

definition z_decl_token_decode :: "u8 \<Rightarrow> keyexpr_mapping \<Rightarrow> (z_decl_token_t, z_zbuf_t) prog" where
  "z_decl_token_decode header mapping =
     bind_ok (z_decl_commons_decode header mapping) (\<lambda>(has_ext, i, ke).
     bind_ok (skip_if has_ext) (\<lambda>_. ret \<lparr>dt_keyexpr = ke, dt_id = i\<rparr>))"

text \<open>Unlike the others this one keeps the structure it is given, which its caller has zeroed.\<close>

definition z_undecl_token_decode :: "z_undecl_token_t \<Rightarrow> u8 \<Rightarrow> keyexpr_mapping \<Rightarrow> (z_undecl_token_t, z_zbuf_t) prog" where
  "z_undecl_token_decode decl header mapping =
     bind_ok (z_undecl_trivial_decode (ut_ext_keyexpr decl) header mapping)
       (\<lambda>(i, ke). ret \<lparr>ut_id = i, ut_ext_keyexpr = ke\<rparr>)"

definition z_decl_final_decode :: "u8 \<Rightarrow> (unit, z_zbuf_t) prog" where
  "z_decl_final_decode header = skip_if (Z_HAS_FLAG header Z_FLAG_Z_Z)"

definition z_declaration_decode :: "keyexpr_mapping \<Rightarrow> (z_declaration_t, z_zbuf_t) prog" where
  "z_declaration_decode mapping = bind_ok z_uint8_decode (\<lambda>header.
     if Z_MID header = Z_DECL_KEXPR_MID then bind_ok (z_decl_kexpr_decode header mapping) (\<lambda>d. ret (Decl_Kexpr d))
     else if Z_MID header = Z_UNDECL_KEXPR_MID then bind_ok (z_undecl_kexpr_decode header) (\<lambda>d. ret (Undecl_Kexpr d))
     else if Z_MID header = Z_DECL_SUBSCRIBER_MID
       then bind_ok (z_decl_subscriber_decode header mapping) (\<lambda>d. ret (Decl_Subscriber d))
     else if Z_MID header = Z_UNDECL_SUBSCRIBER_MID
       then bind_ok (z_undecl_subscriber_decode header mapping) (\<lambda>d. ret (Undecl_Subscriber d))
     else if Z_MID header = Z_DECL_QUERYABLE_MID
       then bind_ok (z_decl_queryable_decode header mapping) (\<lambda>d. ret (Decl_Queryable d))
     else if Z_MID header = Z_UNDECL_QUERYABLE_MID
       then bind_ok (z_undecl_queryable_decode header mapping) (\<lambda>d. ret (Undecl_Queryable d))
     else if Z_MID header = Z_DECL_TOKEN_MID then bind_ok (z_decl_token_decode header mapping) (\<lambda>d. ret (Decl_Token d))
     else if Z_MID header = Z_UNDECL_TOKEN_MID
       then bind_ok (z_undecl_token_decode \<lparr>ut_id = 0, ut_ext_keyexpr = z_wireexpr_null\<rparr> header mapping)
              (\<lambda>d. ret (Undecl_Token d))
     else if Z_MID header = Z_DECL_FINAL_MID then bind_ok (z_decl_final_decode header) (\<lambda>_. ret Decl_Final)
     else fail Z_ERR_MESSAGE_DESERIALIZATION_FAILED)"

section \<open>Interests\<close>

definition Z_INTEREST_FLAG_KEYEXPRS :: u8 where "Z_INTEREST_FLAG_KEYEXPRS = 0x01"
definition Z_INTEREST_FLAG_SUBSCRIBERS :: u8 where "Z_INTEREST_FLAG_SUBSCRIBERS = 0x02"
definition Z_INTEREST_FLAG_QUERYABLES :: u8 where "Z_INTEREST_FLAG_QUERYABLES = 0x04"
definition Z_INTEREST_FLAG_TOKENS :: u8 where "Z_INTEREST_FLAG_TOKENS = 0x08"
definition Z_INTEREST_FLAG_RESTRICTED :: u8 where "Z_INTEREST_FLAG_RESTRICTED = 0x10"
definition Z_INTEREST_FLAG_CURRENT :: u8 where "Z_INTEREST_FLAG_CURRENT = 0x20"
definition Z_INTEREST_FLAG_FUTURE :: u8 where "Z_INTEREST_FLAG_FUTURE = 0x40"
definition Z_INTEREST_FLAG_AGGREGATE :: u8 where "Z_INTEREST_FLAG_AGGREGATE = 0x80"
definition Z_INTEREST_CODEC_FLAG_N :: u8 where "Z_INTEREST_CODEC_FLAG_N = 0x20"
definition Z_INTEREST_CODEC_FLAG_M :: u8 where "Z_INTEREST_CODEC_FLAG_M = 0x40"
definition Z_INTEREST_FLAG_COPY_MASK :: u8 where "Z_INTEREST_FLAG_COPY_MASK = 0x9f"

lemmas z_interest_consts = Z_INTEREST_FLAG_KEYEXPRS_def Z_INTEREST_FLAG_SUBSCRIBERS_def Z_INTEREST_FLAG_QUERYABLES_def
  Z_INTEREST_FLAG_TOKENS_def Z_INTEREST_FLAG_RESTRICTED_def Z_INTEREST_FLAG_CURRENT_def Z_INTEREST_FLAG_FUTURE_def
  Z_INTEREST_FLAG_AGGREGATE_def Z_INTEREST_CODEC_FLAG_N_def Z_INTEREST_CODEC_FLAG_M_def Z_INTEREST_FLAG_COPY_MASK_def

record z_interest_t =
  in_keyexpr :: z_wireexpr_t
  in_id :: u32
  in_flags :: u8
  in_complete :: bool

definition z_interest_null :: z_interest_t where
  "z_interest_null = \<lparr>in_keyexpr = z_wireexpr_null, in_id = 0, in_flags = 0, in_complete = False\<rparr>"

definition z_make_interest :: "z_wireexpr_t option \<Rightarrow> u32 \<Rightarrow> u8 \<Rightarrow> z_interest_t" where
  "z_make_interest key i flags = z_interest_null\<lparr>in_id := i, in_keyexpr := opt_key key, in_flags := flags\<rparr>"

definition z_make_interest_final :: "u32 \<Rightarrow> z_interest_t" where
  "z_make_interest_final i = z_interest_null\<lparr>in_id := i, in_keyexpr := z_wireexpr_null, in_flags := 0\<rparr>"

definition z_interest_clear :: "z_interest_t \<Rightarrow> z_interest_t" where
  "z_interest_clear i = i\<lparr>in_keyexpr := z_wireexpr_null\<rparr>"

definition z_interest_encode :: "z_interest_t \<Rightarrow> bool \<Rightarrow> (unit, z_wbuf_t) prog" where
  "z_interest_encode interest is_final =
     then_do (z_zsize_encode (ucast (in_id interest)))
       (if is_final then ret ()
        else let flags = in_flags interest;
                 flags = flags AND NOT Z_INTEREST_FLAG_CURRENT;
                 flags = flags AND NOT Z_INTEREST_FLAG_FUTURE
             in if Z_HAS_FLAG flags Z_INTEREST_FLAG_RESTRICTED
                then let has_kesuffix = z_wireexpr_has_suffix (in_keyexpr interest);
                         flags = (if has_kesuffix then flags OR Z_INTEREST_CODEC_FLAG_N else flags);
                         flags = (if z_wireexpr_is_local (in_keyexpr interest) then flags OR Z_INTEREST_CODEC_FLAG_M
                                  else flags)
                     in then_do (z_uint8_encode flags) (z_wireexpr_encode has_kesuffix (in_keyexpr interest))
                else z_uint8_encode flags)"

definition z_interest_decode ::
    "z_interest_t \<Rightarrow> bool \<Rightarrow> bool \<Rightarrow> keyexpr_mapping \<Rightarrow> (z_interest_t, z_zbuf_t) prog" where
  "z_interest_decode interest is_final has_ext mapping =
     bind_ok z_zint32_decode (\<lambda>i.
     let interest = interest\<lparr>in_id := i\<rparr> in
     bind_ok (if \<not> is_final
              then bind_ok z_uint8_decode (\<lambda>flags.
                   bind_ok (if Z_HAS_FLAG flags Z_INTEREST_FLAG_RESTRICTED
                            then bind_ok (z_wireexpr_decode (Z_HAS_FLAG flags Z_INTEREST_CODEC_FLAG_N)
                                            (Z_HAS_FLAG flags Z_INTEREST_CODEC_FLAG_M) mapping)
                                   (\<lambda>ke. ret (interest\<lparr>in_keyexpr := ke\<rparr>))
                            else ret interest) (\<lambda>interest.
                     ret (interest\<lparr>in_flags := in_flags interest OR (flags AND Z_INTEREST_FLAG_COPY_MASK)\<rparr>)))
              else ret interest) (\<lambda>interest.
     bind_ok (skip_if has_ext) (\<lambda>_. ret interest)))"


section \<open>What declarations look like on the wire\<close>

definition recv_ke :: "keyexpr_mapping \<Rightarrow> z_wireexpr_t \<Rightarrow> z_wireexpr_t" where
  "recv_ke mapping ke = ke\<lparr>we_mapping := (if z_wireexpr_is_local ke then mapping else KEYEXPR_MAPPING_LOCAL)\<rparr>"

definition recv_ext_ke :: "keyexpr_mapping \<Rightarrow> z_wireexpr_t \<Rightarrow> z_wireexpr_t" where
  "recv_ext_ke mapping ke = (if z_wireexpr_check ke then recv_ke mapping ke else z_wireexpr_null)"

definition undecl_ext_bytes :: "z_wireexpr_t \<Rightarrow> byte list" where
  "undecl_ext_bytes ke = ((if z_wireexpr_is_local ke then 2 else 0) OR (if z_wireexpr_has_suffix ke then 1 else 0)) #
     z_zint64_encode_buf (ucast (we_id ke)) @ we_suffix ke"

definition undecl_exts :: "z_wireexpr_t \<Rightarrow> z_msg_ext_t list" where
  "undecl_exts ke = (if z_wireexpr_check ke
     then [zbuf_ext (Z_MSG_EXT_ENC_ZBUF OR Z_MSG_EXT_FLAG_M OR 0x0f) (undecl_ext_bytes ke)] else [])"

definition ke_ok :: "z_wireexpr_t \<Rightarrow> bool" where
  "ke_ok ke \<longleftrightarrow> length (we_suffix ke) + 10 < 2 ^ 32"

definition decl_header :: "u8 \<Rightarrow> bool \<Rightarrow> z_wireexpr_t \<Rightarrow> u8" where
  "decl_header mid has_ext ke = mid OR (if has_ext then Z_FLAG_Z_Z else 0) OR
     (if z_wireexpr_has_suffix ke then Z_DECL_SUBSCRIBER_FLAG_N else 0) OR
     (if z_wireexpr_is_local ke then Z_DECL_SUBSCRIBER_FLAG_M else 0)"

definition wire_decl :: "u32 \<Rightarrow> z_wireexpr_t \<Rightarrow> byte list" where
  "wire_decl i ke = z_zint64_encode_buf (ucast i) @ wire_wireexpr (z_wireexpr_has_suffix ke) ke"

definition undecl_header :: "u8 \<Rightarrow> z_wireexpr_t \<Rightarrow> u8" where
  "undecl_header mid ke = mid OR (if undecl_exts ke \<noteq> [] then Z_FLAG_Z_Z else 0)"

definition wire_undecl :: "u32 \<Rightarrow> z_wireexpr_t \<Rightarrow> byte list" where
  "wire_undecl i ke = z_zint64_encode_buf (ucast i) @ wire_exts (undecl_exts ke)"

definition kexpr_header :: "z_wireexpr_t \<Rightarrow> u8" where
  "kexpr_header ke = Z_DECL_KEXPR_MID OR (if z_wireexpr_has_suffix ke then Z_DECL_KEXPR_FLAG_N else 0)"

definition queryable_info :: "z_decl_queryable_t \<Rightarrow> u64" where
  "queryable_info d = (if dq_complete d then 1 else 0) OR push_bit 8 (ucast (dq_distance d))"

definition queryable_exts :: "z_decl_queryable_t \<Rightarrow> z_msg_ext_t list" where
  "queryable_exts d = (if dq_complete d \<or> dq_distance d \<noteq> 0
     then [zint_ext (Z_MSG_EXT_ENC_ZINT OR 0x01) (queryable_info d)] else [])"

definition wire_declaration :: "z_declaration_t \<Rightarrow> byte list" where
  "wire_declaration decl = (case decl of
     Decl_Kexpr d \<Rightarrow> kexpr_header (dk_keyexpr d) # z_zint64_encode_buf (ucast (dk_id d)) @
       wire_wireexpr (z_wireexpr_has_suffix (dk_keyexpr d)) (dk_keyexpr d)
   | Undecl_Kexpr d \<Rightarrow> Z_UNDECL_KEXPR_MID # z_zint64_encode_buf (ucast (uk_id d))
   | Decl_Subscriber d \<Rightarrow> decl_header Z_DECL_SUBSCRIBER_MID False (ds_keyexpr d) # wire_decl (ds_id d) (ds_keyexpr d)
   | Undecl_Subscriber d \<Rightarrow> undecl_header Z_UNDECL_SUBSCRIBER_MID (us_ext_keyexpr d) # wire_undecl (us_id d) (us_ext_keyexpr d)
   | Decl_Queryable d \<Rightarrow> decl_header Z_DECL_QUERYABLE_MID (queryable_exts d \<noteq> []) (dq_keyexpr d) #
       wire_decl (dq_id d) (dq_keyexpr d) @ wire_exts (queryable_exts d)
   | Undecl_Queryable d \<Rightarrow> undecl_header Z_UNDECL_QUERYABLE_MID (uq_ext_keyexpr d) # wire_undecl (uq_id d) (uq_ext_keyexpr d)
   | Decl_Token d \<Rightarrow> decl_header Z_DECL_TOKEN_MID False (dt_keyexpr d) # wire_decl (dt_id d) (dt_keyexpr d)
   | Undecl_Token d \<Rightarrow> undecl_header Z_UNDECL_TOKEN_MID (ut_ext_keyexpr d) # wire_undecl (ut_id d) (ut_ext_keyexpr d)
   | Decl_Final \<Rightarrow> [Z_DECL_FINAL_MID])"

definition decl_ke :: "z_declaration_t \<Rightarrow> z_wireexpr_t" where
  "decl_ke decl = (case decl of
     Decl_Kexpr d \<Rightarrow> dk_keyexpr d | Decl_Subscriber d \<Rightarrow> ds_keyexpr d | Undecl_Subscriber d \<Rightarrow> us_ext_keyexpr d
   | Decl_Queryable d \<Rightarrow> dq_keyexpr d | Undecl_Queryable d \<Rightarrow> uq_ext_keyexpr d
   | Decl_Token d \<Rightarrow> dt_keyexpr d | Undecl_Token d \<Rightarrow> ut_ext_keyexpr d | _ \<Rightarrow> z_wireexpr_null)"

definition declaration_ok :: "z_declaration_t \<Rightarrow> bool" where
  "declaration_ok decl \<longleftrightarrow> ke_ok (decl_ke decl)"

text \<open>
  What the receiver is told: a key of the sender's own numbering belongs to the peer it came
  from, any other number is the receiver's own. A key expression that is declared always
  counts as the peer's.
\<close>

definition recv_declaration :: "keyexpr_mapping \<Rightarrow> z_declaration_t \<Rightarrow> z_declaration_t" where
  "recv_declaration mapping decl = (case decl of
     Decl_Kexpr d \<Rightarrow> Decl_Kexpr (d\<lparr>dk_keyexpr := (dk_keyexpr d)\<lparr>we_mapping := mapping\<rparr>\<rparr>)
   | Undecl_Kexpr d \<Rightarrow> Undecl_Kexpr d
   | Decl_Subscriber d \<Rightarrow> Decl_Subscriber (d\<lparr>ds_keyexpr := recv_ke mapping (ds_keyexpr d)\<rparr>)
   | Undecl_Subscriber d \<Rightarrow> Undecl_Subscriber (d\<lparr>us_ext_keyexpr := recv_ext_ke mapping (us_ext_keyexpr d)\<rparr>)
   | Decl_Queryable d \<Rightarrow> Decl_Queryable (d\<lparr>dq_keyexpr := recv_ke mapping (dq_keyexpr d)\<rparr>)
   | Undecl_Queryable d \<Rightarrow> Undecl_Queryable (d\<lparr>uq_ext_keyexpr := recv_ext_ke mapping (uq_ext_keyexpr d)\<rparr>)
   | Decl_Token d \<Rightarrow> Decl_Token (d\<lparr>dt_keyexpr := recv_ke mapping (dt_keyexpr d)\<rparr>)
   | Undecl_Token d \<Rightarrow> Undecl_Token (d\<lparr>ut_ext_keyexpr := recv_ext_ke mapping (ut_ext_keyexpr d)\<rparr>)
   | Decl_Final \<Rightarrow> Decl_Final)"

lemma ke_suffix: "z_wireexpr_has_suffix ke \<longleftrightarrow> we_suffix ke \<noteq> []"
  by (simp add: z_wireexpr_has_suffix_def z_string_check_def)

lemma undecl_ext_size:
  assumes "ke_ok ke"
  shows "(ucast (1 + of_nat (length (we_suffix ke)) + ucast (z_zint_len (ucast (we_id ke))) :: u32) :: u64) =
    of_nat (length (undecl_ext_bytes ke))"
proof -
  let ?n = "length (we_suffix ke)" and ?l = "unat (z_zint_len (ucast (we_id ke)))"
  have l: "?l \<le> 9" using zint_buf_length [of "ucast (we_id ke)"] by (simp add: zint_len_buf VLE_LEN_def)
  have b: "length (undecl_ext_bytes ke) = 1 + ?n + ?l" by (simp add: undecl_ext_bytes_def zint_len_buf)
  have "(1 + of_nat ?n + ucast (z_zint_len (ucast (we_id ke))) :: u32) = of_nat (1 + ?n + ?l)" by simp
  moreover have "(ucast (of_nat (1 + ?n + ?l) :: u32) :: u64) = of_nat (1 + ?n + ?l)"
  proof (rule unsigned_word_eqI)
    show "unat (ucast (of_nat (1 + ?n + ?l) :: u32) :: u64) = unat (of_nat (1 + ?n + ?l) :: u64)"
      using assms l by (simp only: unat_ucast_wide) (simp only: unat_of_nat ke_ok_def, simp)
  qed
  ultimately show ?thesis by (simp only: b)
qed

lemma appends_decl_ext:
  assumes "ke_ok ke"
  shows "appends (z_decl_ext_keyexpr_encode ke nxt)
    (wire_ext nxt (zbuf_ext (Z_MSG_EXT_ENC_ZBUF OR Z_MSG_EXT_FLAG_M OR 0x0f) (undecl_ext_bytes ke)))"
proof -
  let ?n = "length (we_suffix ke)"
  have un: "unat (of_nat ?n :: u32) = ?n" using assms by (simp add: unat_of_nat ke_ok_def)
  then have nz: "(of_nat ?n :: u32) \<noteq> 0 \<longleftrightarrow> z_wireexpr_has_suffix ke" by (auto simp: ke_suffix unat_eq_zero [symmetric])
  have k: "(if z_wireexpr_has_suffix ke then of_nat ?n else 0 :: u32) = of_nat ?n" by (simp add: ke_suffix)
  show ?thesis unfolding z_decl_ext_keyexpr_encode_def Let_def k undecl_ext_size [OF assms] nz un
    apply (rule appends_cong)
     apply (rule appends_then appends_when appends_uint8 appends_zsize appends_write_all)+
    apply (simp add: undecl_ext_bytes_def wire_slice_def wire_len_def ke_suffix Z_FLAG_Z_Z_def z_ext_consts)
    done
qed

lemma appends_undecl:
  assumes "ke_ok ke"
  shows "appends (z_undecl_encode mid (ucast i) ke) (undecl_header mid ke # wire_undecl i ke)"
  unfolding z_undecl_encode_def Let_def
  apply (rule appends_cong)
   apply (rule appends_then appends_when appends_uint8 appends_zsize appends_decl_ext [OF assms])+
  apply (simp add: undecl_header_def wire_undecl_def undecl_exts_def)
  done

lemma appends_decl_commons:
  "appends (z_decl_commons_encode mid has_ext i ke) (decl_header mid has_ext ke # wire_decl i ke)"
  unfolding z_decl_commons_encode_def Let_def
  apply (rule appends_cong)
   apply (rule appends_then appends_uint8 appends_zsize appends_wireexpr)+
  apply (simp add: decl_header_def wire_decl_def or.assoc)
  done

lemma appends_declaration [appends_intros]:
  assumes "declaration_ok decl"
  shows "appends (z_declaration_encode decl) (wire_declaration decl)"
proof (cases decl)
  case (Decl_Kexpr d)
  show ?thesis unfolding Decl_Kexpr z_declaration_encode_def z_declaration_t.case z_decl_kexpr_encode_def Let_def
    apply (rule appends_cong)
     apply (rule appends_then appends_uint8 appends_zsize appends_wireexpr)+
    apply (simp add: wire_declaration_def kexpr_header_def)
    done
next
  case (Undecl_Kexpr d)
  then show ?thesis using appends_then [OF appends_uint8 appends_zsize]
    by (simp add: z_declaration_encode_def z_undecl_kexpr_encode_def wire_declaration_def z_decl_consts)
next
  case (Decl_Queryable d)
  show ?thesis unfolding Decl_Queryable z_declaration_encode_def z_declaration_t.case z_decl_queryable_encode_def Let_def
    apply (rule appends_cong)
     apply (rule appends_then appends_when appends_uint8 appends_zint64 appends_decl_commons)+
    apply (simp add: wire_declaration_def queryable_exts_def queryable_info_def Z_MSG_EXT_MORE_def)
    done
qed (use assms appends_decl_commons appends_undecl appends_uint8 in
  \<open>auto simp: z_declaration_encode_def z_decl_subscriber_encode_def z_undecl_subscriber_encode_def
     z_undecl_queryable_encode_def z_decl_token_encode_def z_undecl_token_encode_def z_decl_final_encode_def
     wire_declaration_def declaration_ok_def decl_ke_def\<close>)


section \<open>What the receiver makes of declarations\<close>

lemma undecl_ext_yields:
  "yields (z_undecl_ext_read ke0) (undecl_ext_bytes ke)
     (ke0\<lparr>we_id := we_id ke, we_suffix := (if z_wireexpr_has_suffix ke then we_suffix ke else we_suffix ke0),
          we_mapping := (if z_wireexpr_is_local ke then KEYEXPR_MAPPING_UNKNOWN_REMOTE else KEYEXPR_MAPPING_LOCAL)\<rparr>)"
proof -
  let ?h = "(if z_wireexpr_is_local ke then 2 else 0) OR (if z_wireexpr_has_suffix ke then 1 else 0) :: u8"
  have h: "Z_HAS_FLAG ?h 2 \<longleftrightarrow> z_wireexpr_is_local ke" "Z_HAS_FLAG ?h 1 \<longleftrightarrow> z_wireexpr_has_suffix ke"
    by (simp_all add: Z_HAS_FLAG_def)
  have b: "undecl_ext_bytes ke = [?h] @ (z_zint64_encode_buf (ucast (we_id ke)) @ we_suffix ke)"
    by (simp add: undecl_ext_bytes_def)
  show ?thesis unfolding b z_undecl_ext_read_def
    apply (rule yields_bind [OF uint8_consumes])
    apply (simp only: Let_def h)
    apply (rule yields_bind [OF zint16_consumes])
    apply (cases "z_wireexpr_has_suffix ke")
    using zbuf_len_bytes zbuf_read_bytes_eq [of _ "we_suffix ke" "[]"]
    by (auto simp: yields_def bind_ok_def ret_def ke_suffix)
qed

lemma undecl_ids [simp]:
  "(Z_MSG_EXT_ENC_ZBUF OR Z_MSG_EXT_FLAG_M OR 0x0f) AND Z_MSG_EXT_FLAG_Z = 0"
  "Z_EXT_ENC (Z_MSG_EXT_ENC_ZBUF OR Z_MSG_EXT_FLAG_M OR 0x0f) = Z_MSG_EXT_ENC_ZBUF"
  "(Z_MSG_EXT_ENC_ZINT OR 1) AND Z_MSG_EXT_FLAG_Z = 0" "Z_EXT_ENC (Z_MSG_EXT_ENC_ZINT OR 1) = Z_MSG_EXT_ENC_ZINT"
  by (simp_all add: z_ext_consts)

lemma undecl_exts_ok: "ke_ok ke \<Longrightarrow> list_all ext_wf (undecl_exts ke)"
  using zint_buf_length [of "ucast (we_id ke)"]
  by (simp add: undecl_exts_def undecl_ext_bytes_def ke_ok_def VLE_LEN_def)

lemma undecl_exts_run:
  "run_callback z_undecl_decode_extensions (undecl_exts ke) z_wireexpr_null =
     Some (if z_wireexpr_check ke then recv_ke KEYEXPR_MAPPING_UNKNOWN_REMOTE ke else z_wireexpr_null)"
  by (cases ke) (simp add: undecl_exts_def z_undecl_decode_extensions_def on_slice_yields [OF undecl_ext_yields] bind_ok_def
      recv_ke_def z_wireexpr_null_def ke_suffix)

lemma undecl_consumes:
  assumes "ke_ok ke" "Z_HAS_FLAG header Z_FLAG_Z_Z \<longleftrightarrow> undecl_exts ke \<noteq> []"
  shows "consumes (z_undecl_trivial_decode z_wireexpr_null header mapping) (wire_undecl i ke) (i, recv_ext_ke mapping ke)"
proof (cases "undecl_exts ke = []")
  case True
  then have "\<not> z_wireexpr_check ke" by (auto simp: undecl_exts_def split: if_splits)
  then show ?thesis using True assms(2)
    by (simp add: z_undecl_trivial_decode_def wire_undecl_def recv_ext_ke_def) (rule consumes_last [OF zint32_consumes refl])
next
  case False
  then have ch: "z_wireexpr_check ke" by (auto simp: undecl_exts_def split: if_splits)
  show ?thesis unfolding z_undecl_trivial_decode_def wire_undecl_def
    apply (rule consumes_bind [OF zint32_consumes])
    using False assms(2) apply (simp only: if_True simp_thms)
    apply (rule consumes_last)
     apply (rule iter_exts_consumes [OF _ undecl_exts_ok [OF assms(1)] undecl_exts_run])
     apply assumption
    by (simp add: ch recv_ext_ke_def recv_ke_def)
qed

lemma decl_commons_consumes:
  assumes "ke_ok ke" "Z_HAS_FLAG header Z_DECL_SUBSCRIBER_FLAG_N = z_wireexpr_has_suffix ke"
    "Z_HAS_FLAG header Z_DECL_SUBSCRIBER_FLAG_M = z_wireexpr_is_local ke"
  shows "consumes (z_decl_commons_decode header mapping) (wire_decl i ke)
    (Z_HAS_FLAG header Z_FLAG_Z_Z, i, recv_ke mapping ke)"
proof -
  have suf: "length (we_suffix ke) < 2 ^ 64" using assms(1) by (simp add: ke_ok_def)
  show ?thesis unfolding z_decl_commons_decode_def wire_decl_def assms(2,3)
    apply (rule consumes_bind [OF zint32_consumes])
    apply (rule consumes_last [OF wireexpr_consumes [OF suf]])
    by (cases ke) (simp add: recv_ke_def ke_suffix)
qed

text \<open>Headers: the number of the declaration and its flags do not meet.\<close>

lemma decl_header_facts:
  assumes "mid AND 0x1f = mid"
  shows "Z_MID (decl_header mid x ke) = mid"
    "Z_HAS_FLAG (decl_header mid x ke) Z_FLAG_Z_Z \<longleftrightarrow> x"
    "Z_HAS_FLAG (decl_header mid x ke) Z_DECL_SUBSCRIBER_FLAG_N \<longleftrightarrow> z_wireexpr_has_suffix ke"
    "Z_HAS_FLAG (decl_header mid x ke) Z_DECL_SUBSCRIBER_FLAG_M \<longleftrightarrow> z_wireexpr_is_local ke"
    "Z_MID (undecl_header mid ke) = mid"
    "Z_HAS_FLAG (undecl_header mid ke) Z_FLAG_Z_Z \<longleftrightarrow> undecl_exts ke \<noteq> []"
proof -
  have m: "mid AND 0x80 = 0" "mid AND 0x40 = 0" "mid AND 0x20 = 0" "0x1f AND mid = mid"
    by (subst assms [symmetric], simp add: and.assoc)+ (simp add: assms and.commute)
  show "Z_MID (decl_header mid x ke) = mid"
    "Z_HAS_FLAG (decl_header mid x ke) Z_FLAG_Z_Z \<longleftrightarrow> x"
    "Z_HAS_FLAG (decl_header mid x ke) Z_DECL_SUBSCRIBER_FLAG_N \<longleftrightarrow> z_wireexpr_has_suffix ke"
    "Z_HAS_FLAG (decl_header mid x ke) Z_DECL_SUBSCRIBER_FLAG_M \<longleftrightarrow> z_wireexpr_is_local ke"
    "Z_MID (undecl_header mid ke) = mid"
    "Z_HAS_FLAG (undecl_header mid ke) Z_FLAG_Z_Z \<longleftrightarrow> undecl_exts ke \<noteq> []"
    by (auto simp: decl_header_def undecl_header_def Z_MID_def Z_MID_MASK_def Z_HAS_FLAG_def Z_FLAG_Z_Z_def
        Z_DECL_SUBSCRIBER_FLAG_N_def Z_DECL_SUBSCRIBER_FLAG_M_def bit.conj_disj_distrib bit.conj_disj_distrib2 m)
qed

lemma decl_mids:
  "Z_DECL_SUBSCRIBER_MID AND 0x1f = Z_DECL_SUBSCRIBER_MID" "Z_UNDECL_SUBSCRIBER_MID AND 0x1f = Z_UNDECL_SUBSCRIBER_MID"
  "Z_DECL_QUERYABLE_MID AND 0x1f = Z_DECL_QUERYABLE_MID" "Z_UNDECL_QUERYABLE_MID AND 0x1f = Z_UNDECL_QUERYABLE_MID"
  "Z_DECL_TOKEN_MID AND 0x1f = Z_DECL_TOKEN_MID" "Z_UNDECL_TOKEN_MID AND 0x1f = Z_UNDECL_TOKEN_MID"
  by (simp_all add: z_decl_consts)

lemmas decl_headers = decl_header_facts [OF decl_mids(1)] decl_header_facts [OF decl_mids(2)]
  decl_header_facts [OF decl_mids(3)] decl_header_facts [OF decl_mids(4)]
  decl_header_facts [OF decl_mids(5)] decl_header_facts [OF decl_mids(6)]

lemma kexpr_header_facts:
  "Z_MID (kexpr_header ke) = Z_DECL_KEXPR_MID"
  "Z_HAS_FLAG (kexpr_header ke) Z_DECL_KEXPR_FLAG_N \<longleftrightarrow> z_wireexpr_has_suffix ke"
  "Z_HAS_FLAG (kexpr_header ke) Z_FLAG_Z_Z \<longleftrightarrow> False"
  by (simp_all add: kexpr_header_def z_decl_consts Z_MID_def Z_MID_MASK_def Z_HAS_FLAG_def Z_FLAG_Z_Z_def)

lemma final_header_facts:
  "Z_MID Z_DECL_FINAL_MID = Z_DECL_FINAL_MID" "Z_HAS_FLAG Z_DECL_FINAL_MID Z_FLAG_Z_Z \<longleftrightarrow> False"
  "Z_MID Z_UNDECL_KEXPR_MID = Z_UNDECL_KEXPR_MID" "Z_HAS_FLAG Z_UNDECL_KEXPR_MID Z_FLAG_Z_Z \<longleftrightarrow> False"
  by (simp_all add: z_decl_consts Z_MID_def Z_MID_MASK_def Z_HAS_FLAG_def Z_FLAG_Z_Z_def)

lemma decl_mid_distinct [simp]:
  "Z_UNDECL_KEXPR_MID \<noteq> Z_DECL_KEXPR_MID"
  "Z_DECL_SUBSCRIBER_MID \<noteq> Z_DECL_KEXPR_MID" "Z_DECL_SUBSCRIBER_MID \<noteq> Z_UNDECL_KEXPR_MID"
  "Z_UNDECL_SUBSCRIBER_MID \<noteq> Z_DECL_KEXPR_MID" "Z_UNDECL_SUBSCRIBER_MID \<noteq> Z_UNDECL_KEXPR_MID"
  "Z_UNDECL_SUBSCRIBER_MID \<noteq> Z_DECL_SUBSCRIBER_MID"
  "Z_DECL_QUERYABLE_MID \<noteq> Z_DECL_KEXPR_MID" "Z_DECL_QUERYABLE_MID \<noteq> Z_UNDECL_KEXPR_MID"
  "Z_DECL_QUERYABLE_MID \<noteq> Z_DECL_SUBSCRIBER_MID" "Z_DECL_QUERYABLE_MID \<noteq> Z_UNDECL_SUBSCRIBER_MID"
  "Z_UNDECL_QUERYABLE_MID \<noteq> Z_DECL_KEXPR_MID" "Z_UNDECL_QUERYABLE_MID \<noteq> Z_UNDECL_KEXPR_MID"
  "Z_UNDECL_QUERYABLE_MID \<noteq> Z_DECL_SUBSCRIBER_MID" "Z_UNDECL_QUERYABLE_MID \<noteq> Z_UNDECL_SUBSCRIBER_MID"
  "Z_UNDECL_QUERYABLE_MID \<noteq> Z_DECL_QUERYABLE_MID"
  "Z_DECL_TOKEN_MID \<noteq> Z_DECL_KEXPR_MID" "Z_DECL_TOKEN_MID \<noteq> Z_UNDECL_KEXPR_MID"
  "Z_DECL_TOKEN_MID \<noteq> Z_DECL_SUBSCRIBER_MID" "Z_DECL_TOKEN_MID \<noteq> Z_UNDECL_SUBSCRIBER_MID"
  "Z_DECL_TOKEN_MID \<noteq> Z_DECL_QUERYABLE_MID" "Z_DECL_TOKEN_MID \<noteq> Z_UNDECL_QUERYABLE_MID"
  "Z_UNDECL_TOKEN_MID \<noteq> Z_DECL_KEXPR_MID" "Z_UNDECL_TOKEN_MID \<noteq> Z_UNDECL_KEXPR_MID"
  "Z_UNDECL_TOKEN_MID \<noteq> Z_DECL_SUBSCRIBER_MID" "Z_UNDECL_TOKEN_MID \<noteq> Z_UNDECL_SUBSCRIBER_MID"
  "Z_UNDECL_TOKEN_MID \<noteq> Z_DECL_QUERYABLE_MID" "Z_UNDECL_TOKEN_MID \<noteq> Z_UNDECL_QUERYABLE_MID"
  "Z_UNDECL_TOKEN_MID \<noteq> Z_DECL_TOKEN_MID"
  "Z_DECL_FINAL_MID \<noteq> Z_DECL_KEXPR_MID" "Z_DECL_FINAL_MID \<noteq> Z_UNDECL_KEXPR_MID"
  "Z_DECL_FINAL_MID \<noteq> Z_DECL_SUBSCRIBER_MID" "Z_DECL_FINAL_MID \<noteq> Z_UNDECL_SUBSCRIBER_MID"
  "Z_DECL_FINAL_MID \<noteq> Z_DECL_QUERYABLE_MID" "Z_DECL_FINAL_MID \<noteq> Z_UNDECL_QUERYABLE_MID"
  "Z_DECL_FINAL_MID \<noteq> Z_DECL_TOKEN_MID" "Z_DECL_FINAL_MID \<noteq> Z_UNDECL_TOKEN_MID"
  by (simp_all add: z_decl_consts)

lemma queryable_info_parts:
  "queryable_info d AND 1 \<noteq> 0 \<longleftrightarrow> dq_complete d" "ucast (drop_bit 8 (queryable_info d)) = dq_distance d"
proof -
  have b: "bit (queryable_info d) 0 \<longleftrightarrow> dq_complete d" by (simp add: queryable_info_def bit_simps)
  have "queryable_info d AND 1 = (if dq_complete d then 1 else 0)"
    by (simp only: and_one_eq b [unfolded bit_0] flip: mod_2_eq_odd)
       (use b in \<open>simp add: bit_0 mod_2_eq_odd\<close>)
  then show "queryable_info d AND 1 \<noteq> 0 \<longleftrightarrow> dq_complete d" by simp
  show "ucast (drop_bit 8 (queryable_info d)) = dq_distance d"
    by (rule bit_word_eqI) (auto simp: queryable_info_def bit_simps bit_1_iff)
qed

lemma queryable_exts_run:
  "\<not> dq_complete d0 \<Longrightarrow> dq_distance d0 = 0 \<Longrightarrow>
   run_callback z_decl_queryable_decode_extensions (queryable_exts d) d0 =
     Some (d0\<lparr>dq_complete := dq_complete d, dq_distance := dq_distance d\<rparr>)"
  by (cases d0) (simp add: queryable_exts_def z_decl_queryable_decode_extensions_def queryable_info_parts)

lemma skip_if_none: "skip_if False = ret ()"
  by (simp add: skip_if_def)

lemma declaration_consumes [consumes_intros]:
  assumes ok: "declaration_ok decl"
  shows "consumes (z_declaration_decode mapping) (wire_declaration decl) (recv_declaration mapping decl)"
proof (cases decl)
  case (Decl_Kexpr d)
  have suf: "length (we_suffix (dk_keyexpr d)) < 2 ^ 64" using ok Decl_Kexpr by (simp add: declaration_ok_def decl_ke_def ke_ok_def)
  show ?thesis unfolding Decl_Kexpr wire_declaration_def z_declaration_t.case z_declaration_decode_def
    apply (rule headed_consumes)
    apply (simp only: kexpr_header_facts z_decl_kexpr_decode_def if_True skip_if_none simp_thms)
    apply (rule consumes_last)
     apply (rule consumes_bind [OF zint16_consumes])
     apply (rule consumes_last [OF wireexpr_consumes [OF suf]])
     apply (simp add: bind_ok_def ret_def)
    by (cases d; cases "dk_keyexpr d") (simp add: recv_declaration_def ke_suffix)
next
  case (Undecl_Kexpr d)
  show ?thesis unfolding Undecl_Kexpr wire_declaration_def z_declaration_t.case z_declaration_decode_def
    apply (rule headed_consumes)
    apply (simp only: final_header_facts z_undecl_kexpr_decode_def if_True if_False skip_if_none simp_thms decl_mid_distinct)
    apply (rule consumes_last)
     apply (rule consumes_last [OF zint16_consumes])
     apply (simp add: bind_ok_def ret_def)
    by (cases d) (simp add: recv_declaration_def)
next
  case (Decl_Subscriber d)
  have k: "ke_ok (ds_keyexpr d)" using ok Decl_Subscriber by (simp add: declaration_ok_def decl_ke_def)
  show ?thesis unfolding Decl_Subscriber wire_declaration_def z_declaration_t.case z_declaration_decode_def
    apply (rule headed_consumes)
    apply (simp only: decl_headers if_True if_False simp_thms decl_mid_distinct z_decl_subscriber_decode_def)
    apply (rule consumes_last)
     apply (rule consumes_last [OF decl_commons_consumes [OF k]])
       apply (simp_all add: decl_headers)
    by (cases d) (simp add: recv_declaration_def)
next
  case (Undecl_Subscriber d)
  have k: "ke_ok (us_ext_keyexpr d)" using ok Undecl_Subscriber by (simp add: declaration_ok_def decl_ke_def)
  show ?thesis unfolding Undecl_Subscriber wire_declaration_def z_declaration_t.case z_declaration_decode_def
    apply (rule headed_consumes)
    apply (simp only: decl_headers if_True if_False simp_thms decl_mid_distinct z_undecl_subscriber_decode_def)
    apply (rule consumes_last)
     apply (rule consumes_last [OF undecl_consumes [OF k decl_headers(12)]])
     apply simp
    by (cases d) (simp add: recv_declaration_def)
next
  case (Decl_Queryable d)
  have k: "ke_ok (dq_keyexpr d)" using ok Decl_Queryable by (simp add: declaration_ok_def decl_ke_def)
  have x: "list_all ext_wf (queryable_exts d)" by (simp add: queryable_exts_def)
  show ?thesis unfolding Decl_Queryable wire_declaration_def z_declaration_t.case z_declaration_decode_def
    apply (rule headed_consumes)
    apply (simp only: decl_headers if_True if_False simp_thms decl_mid_distinct z_decl_queryable_decode_def)
    apply (rule consumes_last)
     apply (rule consumes_bind)
      apply (rule decl_commons_consumes [OF k])
       apply (simp_all only: decl_headers prod.case Let_def)
     apply (rule opt_exts_consumes [OF refl x])
     apply (rule queryable_exts_run)
      apply simp_all
    by (cases d) (simp add: recv_declaration_def)
next
  case (Undecl_Queryable d)
  have k: "ke_ok (uq_ext_keyexpr d)" using ok Undecl_Queryable by (simp add: declaration_ok_def decl_ke_def)
  show ?thesis unfolding Undecl_Queryable wire_declaration_def z_declaration_t.case z_declaration_decode_def
    apply (rule headed_consumes)
    apply (simp only: decl_headers if_True if_False simp_thms decl_mid_distinct z_undecl_queryable_decode_def)
    apply (rule consumes_last)
     apply (rule consumes_last [OF undecl_consumes [OF k decl_headers(24)]])
     apply simp
    by (cases d) (simp add: recv_declaration_def)
next
  case (Decl_Token d)
  have k: "ke_ok (dt_keyexpr d)" using ok Decl_Token by (simp add: declaration_ok_def decl_ke_def)
  show ?thesis unfolding Decl_Token wire_declaration_def z_declaration_t.case z_declaration_decode_def
    apply (rule headed_consumes)
    apply (simp only: decl_headers if_True if_False simp_thms decl_mid_distinct z_decl_token_decode_def)
    apply (rule consumes_last)
     apply (rule consumes_last [OF decl_commons_consumes [OF k]])
       apply (simp_all add: decl_headers skip_if_none bind_ok_def ret_def)
    by (cases d) (simp add: recv_declaration_def)
next
  case (Undecl_Token d)
  have k: "ke_ok (ut_ext_keyexpr d)" using ok Undecl_Token by (simp add: declaration_ok_def decl_ke_def)
  show ?thesis unfolding Undecl_Token wire_declaration_def z_declaration_t.case z_declaration_decode_def
    apply (rule headed_consumes)
    apply (simp only: decl_headers if_True if_False simp_thms decl_mid_distinct z_undecl_token_decode_def z_undecl_token_t.simps)
    apply (rule consumes_last)
     apply (rule consumes_last [OF undecl_consumes [OF k decl_headers(36)]])
     apply simp
    by (cases d) (simp add: recv_declaration_def)
next
  case Decl_Final
  show ?thesis unfolding Decl_Final wire_declaration_def z_declaration_t.case z_declaration_decode_def
    apply (rule headed_consumes)
    apply (simp add: final_header_facts z_decl_final_decode_def skip_if_none)
    by (simp add: recv_declaration_def consumes_ret)
qed


section \<open>Declarations from any bytes\<close>

lemma skip_if_safe [safe_intros]: "safe (skip_if b)"
  unfolding skip_if_def by (intro safe_intros)

lemma undecl_ext_read_safe [safe_intros]: "safe (z_undecl_ext_read ke)"
proof -
  have r: "safe (\<lambda>z. if z_zbuf_len z = 0 then Err e z else bind_ok (z_zbuf_read_bytes (z_zbuf_len z)) (\<lambda>s. ret (f s)) z)"
    for e and f :: "byte list \<Rightarrow> z_wireexpr_t"
  proof (rule safeI)
    fix z assume z: "zbuf_wf z"
    have "z_zbuf_read_bytes (z_zbuf_len z) z = Ok (zbuf_bytes z) (zadv (z_zbuf_len z) z)"
      using zbuf_read_bytes_eq [OF z, of "zbuf_bytes z" "[]"] zbuf_len_bytes [OF z] by simp
    moreover have "zstep z (zadv (z_zbuf_len z) z)" using zbuf_len_bytes [OF z] by (auto simp: zstep_def)
    ultimately show "(\<exists>x z'. (if z_zbuf_len z = 0 then Err e z else bind_ok (z_zbuf_read_bytes (z_zbuf_len z)) (\<lambda>s. ret (f s)) z)
          = Ok x z' \<and> zstep z z') \<or>
        (\<exists>e' z'. (if z_zbuf_len z = 0 then Err e z else bind_ok (z_zbuf_read_bytes (z_zbuf_len z)) (\<lambda>s. ret (f s)) z)
          = Err e' z' \<and> zstep z z')"
      by (simp add: bind_ok_def ret_def)
  qed
  show ?thesis unfolding z_undecl_ext_read_def Let_def by (intro safe_intros r)
qed

lemma undecl_callback_safe [safe_intros]: "callback_safe z_undecl_decode_extensions"
proof (rule callback_safeI)
  fix e c assume e: "ext_shape e"
  have full: "Z_EXT_FULL_ID (Z_MSG_EXT_ENC_ZBUF OR Z_MSG_EXT_FLAG_M OR 0x0f) = Z_MSG_EXT_ENC_ZBUF OR Z_MSG_EXT_FLAG_M OR 0x0f"
    by (simp add: z_ext_consts)
  show "z_undecl_decode_extensions e c \<noteq> Fault"
    unfolding z_undecl_decode_extensions_def
    by (intro callback_if callback_unknown callback_zbuf [OF e _ undecl_ids(2)] callback_slice callback_ok safe_intros)
      (simp add: full)
qed

lemma queryable_callback_safe [safe_intros]: "callback_safe z_decl_queryable_decode_extensions"
proof (rule callback_safeI)
  fix e c assume e: "ext_shape e"
  have full: "Z_EXT_FULL_ID (Z_MSG_EXT_ENC_ZINT OR 0x01) = Z_MSG_EXT_ENC_ZINT OR 0x01"
    by (simp add: z_ext_consts)
  show "z_decl_queryable_decode_extensions e c \<noteq> Fault"
    unfolding z_decl_queryable_decode_extensions_def
    by (intro callback_if callback_unknown callback_zint [OF e _ undecl_ids(4)] callback_ok) (simp add: full)
qed

lemma subscriber_callback_safe [safe_intros]: "callback_safe z_decl_subscriber_decode_extensions"
  by (rule callback_safeI) (simp add: z_decl_subscriber_decode_extensions_def callback_unknown)

lemma undecl_trivial_safe [safe_intros]: "safe (z_undecl_trivial_decode ke header mapping)"
  unfolding z_undecl_trivial_decode_def by (intro safe_intros)

lemma decl_commons_safe [safe_intros]: "safe (z_decl_commons_decode header mapping)"
  unfolding z_decl_commons_decode_def by (intro safe_intros)

lemma declaration_safe [safe_intros]: "safe (z_declaration_decode mapping)"
  unfolding z_declaration_decode_def z_decl_kexpr_decode_def z_undecl_kexpr_decode_def z_decl_subscriber_decode_def
    z_undecl_subscriber_decode_def z_decl_queryable_decode_def z_undecl_queryable_decode_def z_decl_token_decode_def
    z_undecl_token_decode_def z_decl_final_decode_def Let_def
  by (intro safe_intros)

section \<open>Interests on the wire\<close>

definition interest_final :: "z_interest_t \<Rightarrow> bool" where
  "interest_final i \<longleftrightarrow> \<not> Z_HAS_FLAG (in_flags i) Z_INTEREST_FLAG_CURRENT \<and> \<not> Z_HAS_FLAG (in_flags i) Z_INTEREST_FLAG_FUTURE"

definition interest_restricted :: "z_interest_t \<Rightarrow> bool" where
  "interest_restricted i \<longleftrightarrow> Z_HAS_FLAG (in_flags i) Z_INTEREST_FLAG_RESTRICTED"

definition interest_wire_flags :: "z_interest_t \<Rightarrow> u8" where
  "interest_wire_flags i = (in_flags i AND Z_INTEREST_FLAG_COPY_MASK) OR
     (if interest_restricted i \<and> z_wireexpr_has_suffix (in_keyexpr i) then Z_INTEREST_CODEC_FLAG_N else 0) OR
     (if interest_restricted i \<and> z_wireexpr_is_local (in_keyexpr i) then Z_INTEREST_CODEC_FLAG_M else 0)"

definition wire_interest :: "z_interest_t \<Rightarrow> bool \<Rightarrow> byte list" where
  "wire_interest i is_final = z_zint64_encode_buf (ucast (in_id i)) @
     (if is_final then []
      else interest_wire_flags i # (if interest_restricted i
             then wire_wireexpr (z_wireexpr_has_suffix (in_keyexpr i)) (in_keyexpr i) else []))"

definition interest_ok :: "z_interest_t \<Rightarrow> bool" where
  "interest_ok i \<longleftrightarrow> length (we_suffix (in_keyexpr i)) < 2 ^ 64"

definition recv_interest :: "keyexpr_mapping \<Rightarrow> z_interest_t \<Rightarrow> z_interest_t" where
  "recv_interest mapping i =
     (if interest_final i then z_interest_null\<lparr>in_id := in_id i\<rparr>
      else z_interest_null\<lparr>in_id := in_id i, in_flags := in_flags i,
             in_keyexpr := (if interest_restricted i then recv_ke mapping (in_keyexpr i) else z_wireexpr_null)\<rparr>)"

lemma copy_mask: "(flags AND NOT Z_INTEREST_FLAG_CURRENT) AND NOT Z_INTEREST_FLAG_FUTURE = flags AND Z_INTEREST_FLAG_COPY_MASK"
proof -
  have "NOT Z_INTEREST_FLAG_CURRENT AND NOT Z_INTEREST_FLAG_FUTURE = Z_INTEREST_FLAG_COPY_MASK"
    by (simp add: z_interest_consts)
  then show ?thesis by (simp add: and.assoc)
qed

lemma restricted_copy: "Z_HAS_FLAG (flags AND Z_INTEREST_FLAG_COPY_MASK) Z_INTEREST_FLAG_RESTRICTED \<longleftrightarrow>
    Z_HAS_FLAG flags Z_INTEREST_FLAG_RESTRICTED"
  by (simp add: Z_HAS_FLAG_def z_interest_consts and.assoc)

lemma appends_interest [appends_intros]: "appends (z_interest_encode i is_final) (wire_interest i is_final)"
  unfolding z_interest_encode_def Let_def copy_mask restricted_copy
  apply (rule appends_cong)
   apply (rule appends_then appends_if appends_ret appends_uint8 appends_zsize appends_wireexpr)+
  apply (simp add: wire_interest_def interest_wire_flags_def interest_restricted_def or.assoc)
  done

lemma interest_wire_flag_facts:
  "Z_HAS_FLAG (interest_wire_flags i) Z_INTEREST_FLAG_RESTRICTED \<longleftrightarrow> interest_restricted i"
  "interest_restricted i \<Longrightarrow> Z_HAS_FLAG (interest_wire_flags i) Z_INTEREST_CODEC_FLAG_N \<longleftrightarrow> z_wireexpr_has_suffix (in_keyexpr i)"
  "interest_restricted i \<Longrightarrow> Z_HAS_FLAG (interest_wire_flags i) Z_INTEREST_CODEC_FLAG_M \<longleftrightarrow> z_wireexpr_is_local (in_keyexpr i)"
  "interest_wire_flags i AND Z_INTEREST_FLAG_COPY_MASK = in_flags i AND Z_INTEREST_FLAG_COPY_MASK"
  by (auto simp: interest_wire_flags_def interest_restricted_def Z_HAS_FLAG_def z_interest_consts
      bit.conj_disj_distrib bit.conj_disj_distrib2 and.assoc)

lemma interest_consumes:
  assumes ok: "interest_ok i" and "is_final = interest_final i"
    and f0: "f0 = in_flags i AND (Z_INTEREST_FLAG_CURRENT OR Z_INTEREST_FLAG_FUTURE)"
  shows "consumes (z_interest_decode (z_interest_null\<lparr>in_flags := f0\<rparr>) is_final False mapping)
     (wire_interest i is_final) (recv_interest mapping i)"
proof -
  have suf: "length (we_suffix (in_keyexpr i)) < 2 ^ 64" using ok by (simp add: interest_ok_def)
  have all: "f0 OR (in_flags i AND Z_INTEREST_FLAG_COPY_MASK) = in_flags i"
  proof -
    have "(Z_INTEREST_FLAG_CURRENT OR Z_INTEREST_FLAG_FUTURE) OR Z_INTEREST_FLAG_COPY_MASK = - 1"
      by (simp add: z_interest_consts)
    then show ?thesis unfolding f0 bit.conj_disj_distrib [symmetric] by (simp only: and.right_neutral)
  qed
  have zero: "interest_final i \<Longrightarrow> f0 = 0"
    unfolding f0 bit.conj_disj_distrib by (simp add: interest_final_def Z_HAS_FLAG_def)
  show ?thesis
  proof (cases is_final)
    case True
    then show ?thesis unfolding z_interest_decode_def wire_interest_def skip_if_none Let_def
      apply (simp only: if_True if_False simp_thms append_Nil2)
      apply (rule consumes_last [OF zint32_consumes])
      using assms(2) zero by (simp add: recv_interest_def z_interest_null_def bind_ok_def ret_def)
  next
    case False
    let ?r = "interest_restricted i" let ?f = "interest_wire_flags i"
    have key: "consumes (if ?r then bind_ok (z_wireexpr_decode (Z_HAS_FLAG ?f Z_INTEREST_CODEC_FLAG_N)
                (Z_HAS_FLAG ?f Z_INTEREST_CODEC_FLAG_M) mapping) (\<lambda>ke. ret (m\<lparr>in_keyexpr := ke\<rparr>)) else ret m)
          (if ?r then wire_wireexpr (z_wireexpr_has_suffix (in_keyexpr i)) (in_keyexpr i) else [])
          (m\<lparr>in_keyexpr := (if ?r then recv_ke mapping (in_keyexpr i) else z_wireexpr_null)\<rparr>)"
      if "in_keyexpr m = z_wireexpr_null" for m
    proof (rule consumes_opt)
      assume r: ?r
      show "consumes (bind_ok (z_wireexpr_decode (Z_HAS_FLAG ?f Z_INTEREST_CODEC_FLAG_N)
                (Z_HAS_FLAG ?f Z_INTEREST_CODEC_FLAG_M) mapping) (\<lambda>ke. ret (m\<lparr>in_keyexpr := ke\<rparr>)))
          (wire_wireexpr (z_wireexpr_has_suffix (in_keyexpr i)) (in_keyexpr i))
          (m\<lparr>in_keyexpr := (if ?r then recv_ke mapping (in_keyexpr i) else z_wireexpr_null)\<rparr>)"
        unfolding interest_wire_flag_facts(2,3) [OF r]
        by (rule consumes_last [OF wireexpr_consumes [OF suf]])
           (cases "in_keyexpr i", simp add: r recv_ke_def ke_suffix)
    qed (use that in simp)
    show ?thesis unfolding z_interest_decode_def wire_interest_def skip_if_none Let_def
      apply (simp only: False if_True if_False simp_thms)
      apply (rule consumes_bind [OF zint32_consumes])
      apply (rule consumes_last)
       apply (rule headed_consumes)
       apply (rule consumes_last)
        apply (simp only: interest_wire_flag_facts)
        apply (rule key)
        apply (simp add: z_interest_null_def)
       apply (rule refl)
      using assms(2) False all
      by (simp add: recv_interest_def z_interest_null_def bind_ok_def ret_def interest_wire_flag_facts)
  qed
qed

lemma interest_safe [safe_intros]: "safe (z_interest_decode i is_final has_ext mapping)"
  unfolding z_interest_decode_def Let_def by (intro safe_intros)

section \<open>Contracts\<close>

interpretation decl: wire_codec z_declaration_encode wire_declaration declaration_ok
    "z_declaration_decode mapping" "recv_declaration mapping" for mapping
  by unfold_locales (rule appends_declaration declaration_consumes, assumption)+

interpretation decl: safe_decoder "z_declaration_decode mapping" for mapping
  by unfold_locales (rule declaration_safe)

end
