(* ===== verification/Zp_Network.thy ===== *)
theory Zp_Network
  imports Zp_Declare
begin

text \<open>
  The network layer: the messages of \<^verbatim>\<open>include/zenoh-pico/protocol/definitions/network.h\<close>,
  their makers in \<^verbatim>\<open>src/protocol/definitions/network.c\<close> and the codec of
  \<^verbatim>\<open>src/protocol/codec/network.c\<close>: push, request, response, final response, declare,
  interest and OAM, each with its extensions, and the message that is one of them.
\<close>

section \<open>Message kinds, flags and quality of service\<close>

definition Z_MID_N_OAM :: u8 where "Z_MID_N_OAM = 0x1f"
definition Z_MID_N_DECLARE :: u8 where "Z_MID_N_DECLARE = 0x1e"
definition Z_MID_N_PUSH :: u8 where "Z_MID_N_PUSH = 0x1d"
definition Z_MID_N_REQUEST :: u8 where "Z_MID_N_REQUEST = 0x1c"
definition Z_MID_N_RESPONSE :: u8 where "Z_MID_N_RESPONSE = 0x1b"
definition Z_MID_N_RESPONSE_FINAL :: u8 where "Z_MID_N_RESPONSE_FINAL = 0x1a"
definition Z_MID_N_INTEREST :: u8 where "Z_MID_N_INTEREST = 0x19"
definition Z_FLAG_N_Z :: u8 where "Z_FLAG_N_Z = 0x80"
definition Z_FLAG_N_DECLARE_I :: u8 where "Z_FLAG_N_DECLARE_I = 0x20"
definition Z_FLAG_N_INTEREST_CURRENT :: u8 where "Z_FLAG_N_INTEREST_CURRENT = 0x20"
definition Z_FLAG_N_INTEREST_FUTURE :: u8 where "Z_FLAG_N_INTEREST_FUTURE = 0x40"
definition Z_FLAG_N_PUSH_N :: u8 where "Z_FLAG_N_PUSH_N = 0x20"
definition Z_FLAG_N_PUSH_M :: u8 where "Z_FLAG_N_PUSH_M = 0x40"
definition Z_FLAG_N_REQUEST_N :: u8 where "Z_FLAG_N_REQUEST_N = 0x20"
definition Z_FLAG_N_REQUEST_M :: u8 where "Z_FLAG_N_REQUEST_M = 0x40"
definition Z_FLAG_N_RESPONSE_N :: u8 where "Z_FLAG_N_RESPONSE_N = 0x20"
definition Z_FLAG_N_RESPONSE_M :: u8 where "Z_FLAG_N_RESPONSE_M = 0x40"

lemmas z_net_mids = Z_MID_N_OAM_def Z_MID_N_DECLARE_def Z_MID_N_PUSH_def Z_MID_N_REQUEST_def Z_MID_N_RESPONSE_def
  Z_MID_N_RESPONSE_FINAL_def Z_MID_N_INTEREST_def

lemmas z_net_flags = Z_FLAG_N_Z_def Z_FLAG_N_DECLARE_I_def Z_FLAG_N_INTEREST_CURRENT_def Z_FLAG_N_INTEREST_FUTURE_def
  Z_FLAG_N_PUSH_N_def Z_FLAG_N_PUSH_M_def Z_FLAG_N_REQUEST_N_def Z_FLAG_N_REQUEST_M_def Z_FLAG_N_RESPONSE_N_def
  Z_FLAG_N_RESPONSE_M_def

text \<open>Enumerations have 32 bits, the setting of quality of service is one byte.\<close>

type_synonym z_n_qos_t = u8
type_synonym z_congestion_control_t = u32
type_synonym z_priority_t = u32
type_synonym z_reliability_t = u32

definition Z_CONGESTION_CONTROL_BLOCK :: z_congestion_control_t where "Z_CONGESTION_CONTROL_BLOCK = 1"
definition Z_CONGESTION_CONTROL_DROP :: z_congestion_control_t where "Z_CONGESTION_CONTROL_DROP = 0"
definition Z_RELIABILITY_RELIABLE :: z_reliability_t where "Z_RELIABILITY_RELIABLE = 0"
definition Z_RELIABILITY_DEFAULT :: z_reliability_t where "Z_RELIABILITY_DEFAULT = Z_RELIABILITY_RELIABLE"
definition Z_QUERY_TARGET_BEST_MATCHING :: z_query_target_t where "Z_QUERY_TARGET_BEST_MATCHING = 0"
definition Z_N_QOS_DEFAULT :: z_n_qos_t where "Z_N_QOS_DEFAULT = 5"

definition z_n_qos_create :: "bool \<Rightarrow> z_congestion_control_t \<Rightarrow> z_priority_t \<Rightarrow> z_n_qos_t" where
  "z_n_qos_create express congestion_control priority =
     (let nodrop = (if congestion_control = Z_CONGESTION_CONTROL_DROP then 0 else 1 :: u8) in
      push_bit 4 (of_bool express) OR push_bit 3 nodrop OR ucast priority)"

definition z_n_qos_get_priority :: "z_n_qos_t \<Rightarrow> z_priority_t" where
  "z_n_qos_get_priority n_qos = ucast (n_qos AND 0x07)"

definition z_n_qos_get_congestion_control :: "z_n_qos_t \<Rightarrow> z_congestion_control_t" where
  "z_n_qos_get_congestion_control n_qos =
     (if n_qos AND 0x08 \<noteq> 0 then Z_CONGESTION_CONTROL_BLOCK else Z_CONGESTION_CONTROL_DROP)"

definition z_n_qos_get_express :: "z_n_qos_t \<Rightarrow> bool" where
  "z_n_qos_get_express n_qos \<longleftrightarrow> n_qos AND 0x10 \<noteq> 0"

section \<open>Push\<close>

record z_n_msg_push_t =
  pu_key :: z_wireexpr_t
  pu_timestamp :: z_timestamp_t
  pu_qos :: z_n_qos_t
  pu_body :: z_push_body_t

text \<open>The quality of service is written as a plain byte in an extension that holds an integer.\<close>

definition z_push_encode :: "z_n_msg_push_t \<Rightarrow> (unit, z_wbuf_t) prog" where
  "z_push_encode msg =
     (let header = Z_MID_N_PUSH OR (if z_wireexpr_is_local (pu_key msg) then Z_FLAG_N_REQUEST_M else 0);
          has_suffix = z_wireexpr_has_suffix (pu_key msg);
          has_qos_ext = pu_qos msg \<noteq> Z_N_QOS_DEFAULT;
          has_timestamp_ext = z_timestamp_check (pu_timestamp msg);
          header = (if has_suffix then header OR Z_FLAG_N_REQUEST_N else header);
          header = (if has_qos_ext \<or> has_timestamp_ext then header OR Z_FLAG_N_Z else header)
      in then_do (z_uint8_encode header)
        (then_do (z_wireexpr_encode has_suffix (pu_key msg))
        (then_do (when_do has_qos_ext
            (then_do (z_uint8_encode (Z_MSG_EXT_ENC_ZINT OR 0x01 OR push_bit 7 (of_bool has_timestamp_ext)))
              (z_uint8_encode (pu_qos msg))))
        (then_do (when_do has_timestamp_ext
            (then_do (z_uint8_encode (Z_MSG_EXT_ENC_ZBUF OR 0x02)) (z_timestamp_encode_ext (pu_timestamp msg))))
        (z_push_body_encode (pu_body msg))))))"

definition z_push_decode_ext_cb :: "z_msg_ext_t \<Rightarrow> (unit, z_n_msg_push_t) prog" where
  "z_push_decode_ext_cb extension =
     (let i = Z_EXT_FULL_ID (ext_header extension) in
      if i = Z_MSG_EXT_ENC_ZINT OR 0x01
      then ext_zint extension (\<lambda>v msg.
             if UINT32_MAX < v then Err Z_ERR_MESSAGE_DESERIALIZATION_FAILED msg else Ok () (msg\<lparr>pu_qos := ucast v\<rparr>))
      else if i = Z_MSG_EXT_ENC_ZBUF OR 0x02
      then ext_zbuf extension (\<lambda>s msg.
             bind_ok (on_slice (z_timestamp_decode (pu_timestamp msg)) s) (\<lambda>ts msg. Ok () (msg\<lparr>pu_timestamp := ts\<rparr>)) msg)
      else unknown_ext extension)"

definition z_push_decode :: "z_n_msg_push_t \<Rightarrow> u8 \<Rightarrow> keyexpr_mapping \<Rightarrow> (z_n_msg_push_t, z_zbuf_t) prog" where
  "z_push_decode msg header mapping =
     (let msg = msg\<lparr>pu_qos := Z_N_QOS_DEFAULT\<rparr> in
      bind_ok (z_wireexpr_decode (Z_HAS_FLAG header Z_FLAG_N_PUSH_N) (Z_HAS_FLAG header Z_FLAG_N_PUSH_M) mapping) (\<lambda>ke.
      let msg = msg\<lparr>pu_key := ke\<rparr> in
      bind_ok (if Z_HAS_FLAG header Z_FLAG_N_Z then z_msg_ext_decode_iter z_push_decode_ext_cb msg else ret msg) (\<lambda>msg.
      bind_ok z_uint8_decode (\<lambda>msgheader.
      bind_ok (z_push_body_decode (pu_body msg) msgheader) (\<lambda>b. ret (msg\<lparr>pu_body := b\<rparr>))))))"

section \<open>Request\<close>

datatype z_request_body_t =
    Request_Query z_msg_query_t
  | Request_Put z_msg_put_t
  | Request_Del z_msg_del_t

record z_n_msg_request_t =
  rq_rid :: z_zint_t
  rq_key :: z_wireexpr_t
  rq_ext_timestamp :: z_timestamp_t
  rq_ext_qos :: z_n_qos_t
  rq_ext_target :: z_query_target_t
  rq_ext_budget :: u32
  rq_ext_timeout_ms :: u64
  rq_body :: z_request_body_t

record z_n_msg_request_exts_t =
  rx_qos :: bool
  rx_tstamp :: bool
  rx_target :: bool
  rx_budget :: bool
  rx_timeout_ms :: bool
  rx_n :: u8

definition z_n_msg_request_needed_exts :: "z_n_msg_request_t \<Rightarrow> z_n_msg_request_exts_t" where
  "z_n_msg_request_needed_exts msg =
     (let budget = rq_ext_budget msg \<noteq> 0; target = rq_ext_target msg \<noteq> Z_QUERY_TARGET_BEST_MATCHING;
          qos = rq_ext_qos msg \<noteq> Z_N_QOS_DEFAULT; timeout = rq_ext_timeout_ms msg \<noteq> 0;
          tstamp = z_timestamp_check (rq_ext_timestamp msg)
      in \<lparr>rx_qos = qos, rx_tstamp = tstamp, rx_target = target, rx_budget = budget, rx_timeout_ms = timeout,
          rx_n = of_bool budget + of_bool target + of_bool qos + of_bool timeout + of_bool tstamp\<rparr>)"

text \<open>The header of an extension says that another follows while the counter is not down to zero.\<close>

definition more_flag :: "u8 \<Rightarrow> u8" where
  "more_flag n = (if n \<noteq> 0 then Z_FLAG_Z_Z else 0)"

definition z_request_encode :: "z_n_msg_request_t \<Rightarrow> (unit, z_wbuf_t) prog" where
  "z_request_encode msg =
     (let header = Z_MID_N_REQUEST OR (if z_wireexpr_is_local (rq_key msg) then Z_FLAG_N_REQUEST_M else 0);
          has_suffix = z_wireexpr_has_suffix (rq_key msg);
          header = (if has_suffix then header OR Z_FLAG_N_REQUEST_N else header);
          x = z_n_msg_request_needed_exts msg;
          n1 = rx_n x - of_bool (rx_qos x);
          n2 = n1 - of_bool (rx_tstamp x);
          n3 = n2 - of_bool (rx_target x);
          n4 = n3 - of_bool (rx_budget x);
          n5 = n4 - of_bool (rx_timeout_ms x)
      in then_do (z_uint8_encode (header OR more_flag (rx_n x)))
        (then_do (z_zsize_encode (rq_rid msg))
        (then_do (z_wireexpr_encode has_suffix (rq_key msg))
        (then_do (when_do (rx_qos x)
            (then_do (z_uint8_encode (0x01 OR Z_MSG_EXT_ENC_ZINT OR more_flag n1)) (z_zsize_encode (ucast (rq_ext_qos msg)))))
        (then_do (when_do (rx_tstamp x)
            (then_do (z_uint8_encode (0x02 OR Z_MSG_EXT_ENC_ZBUF OR more_flag n2)) (z_timestamp_encode_ext (rq_ext_timestamp msg))))
        (then_do (when_do (rx_target x)
            (then_do (z_uint8_encode (0x04 OR Z_MSG_EXT_ENC_ZINT OR more_flag n3 OR Z_MSG_EXT_FLAG_M))
              (z_zsize_encode (ucast (rq_ext_target msg)))))
        (then_do (when_do (rx_budget x)
            (then_do (z_uint8_encode (0x05 OR Z_MSG_EXT_ENC_ZINT OR more_flag n4)) (z_zsize_encode (ucast (rq_ext_budget msg)))))
        (then_do (when_do (rx_timeout_ms x)
            (then_do (z_uint8_encode (0x06 OR Z_MSG_EXT_ENC_ZINT OR more_flag n5)) (z_zint64_encode (rq_ext_timeout_ms msg))))
        (case rq_body msg of
           Request_Query q \<Rightarrow> z_query_encode q
         | Request_Put p \<Rightarrow> z_put_encode p
         | Request_Del d \<Rightarrow> z_del_encode d)))))))))"

text \<open>The target is cut to a byte before it is compared with the last target.\<close>

definition z_request_decode_extensions :: "z_msg_ext_t \<Rightarrow> (unit, z_n_msg_request_t) prog" where
  "z_request_decode_extensions extension =
     (let i = Z_EXT_FULL_ID (ext_header extension) in
      if i = 0x01 OR Z_MSG_EXT_ENC_ZINT
      then ext_zint extension (\<lambda>v msg.
             if 0xff < v then Err Z_ERR_MESSAGE_DESERIALIZATION_FAILED msg else Ok () (msg\<lparr>rq_ext_qos := ucast v\<rparr>))
      else if i = 0x02 OR Z_MSG_EXT_ENC_ZBUF
      then ext_zbuf extension (\<lambda>s msg.
             bind_ok (on_slice (z_timestamp_decode (rq_ext_timestamp msg)) s)
               (\<lambda>ts msg. Ok () (msg\<lparr>rq_ext_timestamp := ts\<rparr>)) msg)
      else if i = 0x04 OR Z_MSG_EXT_ENC_ZINT OR Z_MSG_EXT_FLAG_M
      then ext_zint extension (\<lambda>v msg.
             let msg = msg\<lparr>rq_ext_target := ucast (ucast v :: u8)\<rparr> in
             if 2 < rq_ext_target msg then Err Z_ERR_MESSAGE_DESERIALIZATION_FAILED msg else Ok () msg)
      else if i = 0x05 OR Z_MSG_EXT_ENC_ZINT
      then ext_zint extension (\<lambda>v msg. Ok () (msg\<lparr>rq_ext_budget := ucast v\<rparr>))
      else if i = 0x06 OR Z_MSG_EXT_ENC_ZINT
      then ext_zint extension (\<lambda>v msg. Ok () (msg\<lparr>rq_ext_timeout_ms := v\<rparr>))
      else unknown_ext extension)"

definition z_msg_del_null :: z_msg_del_t where
  "z_msg_del_null = \<lparr>del_commons = z_m_push_commons_null, del_attachment = []\<rparr>"

definition z_request_decode :: "z_n_msg_request_t \<Rightarrow> u8 \<Rightarrow> keyexpr_mapping \<Rightarrow> (z_n_msg_request_t, z_zbuf_t) prog" where
  "z_request_decode msg header mapping =
     (let msg = msg\<lparr>rq_ext_qos := Z_N_QOS_DEFAULT\<rparr> in
      bind_ok z_zsize_decode (\<lambda>rid.
      bind_ok (z_wireexpr_decode (Z_HAS_FLAG header Z_FLAG_N_REQUEST_N) (Z_HAS_FLAG header Z_FLAG_N_REQUEST_M) mapping) (\<lambda>ke.
      let msg = msg\<lparr>rq_rid := rid, rq_key := ke\<rparr> in
      bind_ok (if Z_HAS_FLAG header Z_FLAG_Z_Z then z_msg_ext_decode_iter z_request_decode_extensions msg else ret msg) (\<lambda>msg.
      bind_ok z_uint8_decode (\<lambda>zheader.
        if Z_MID zheader = Z_MID_Z_QUERY
        then bind_ok (z_query_decode z_msg_query_null zheader) (\<lambda>q. ret (msg\<lparr>rq_body := Request_Query q\<rparr>))
        else if Z_MID zheader = Z_MID_Z_PUT
        then bind_ok (z_put_decode z_msg_put_null zheader) (\<lambda>p. ret (msg\<lparr>rq_body := Request_Put p\<rparr>))
        else if Z_MID zheader = Z_MID_Z_DEL
        then bind_ok (z_del_decode z_msg_del_null zheader) (\<lambda>d. ret (msg\<lparr>rq_body := Request_Del d\<rparr>))
        else fail Z_ERR_MESSAGE_DESERIALIZATION_FAILED)))))"

section \<open>Response\<close>

datatype z_response_body_t =
    Response_Reply z_msg_reply_t
  | Response_Err z_msg_err_t

record z_n_msg_response_t =
  rs_ext_timestamp :: z_timestamp_t
  rs_request_id :: z_zint_t
  rs_key :: z_wireexpr_t
  rs_ext_qos :: z_n_qos_t
  rs_zid :: z_id_t
  rs_eid :: u32
  rs_body :: z_response_body_t

definition z_response_encode :: "z_n_msg_response_t \<Rightarrow> (unit, z_wbuf_t) prog" where
  "z_response_encode msg =
     (let header = Z_MID_N_RESPONSE;
          has_qos_ext = rs_ext_qos msg \<noteq> Z_N_QOS_DEFAULT;
          has_ts_ext = z_timestamp_check (rs_ext_timestamp msg);
          has_responder_ext = z_id_check (rs_zid msg) \<or> rs_eid msg \<noteq> 0;
          n_ext = of_bool has_qos_ext + of_bool has_ts_ext + of_bool has_responder_ext :: u8;
          has_suffix = z_wireexpr_has_suffix (rs_key msg);
          header = (if z_wireexpr_is_local (rs_key msg) then header OR Z_FLAG_N_RESPONSE_M else header);
          header = (if has_suffix then header OR Z_FLAG_N_RESPONSE_N else header);
          header = (if n_ext \<noteq> 0 then header OR Z_FLAG_Z_Z else header);
          n1 = n_ext - of_bool has_qos_ext;
          n2 = n1 - of_bool has_ts_ext;
          n3 = n2 - of_bool has_responder_ext;
          zidlen = z_id_len (rs_zid msg)
      in then_do (z_uint8_encode header)
        (then_do (z_zsize_encode (rs_request_id msg))
        (then_do (z_zsize_encode (ucast (we_id (rs_key msg))))
        (then_do (when_do has_suffix (z_string_encode (we_suffix (rs_key msg))))
        (then_do (when_do has_qos_ext
            (then_do (z_uint8_encode (Z_MSG_EXT_ENC_ZINT OR 0x01 OR more_flag n1)) (z_zsize_encode (ucast (rs_ext_qos msg)))))
        (then_do (when_do has_ts_ext
            (then_do (z_uint8_encode (Z_MSG_EXT_ENC_ZBUF OR 0x02 OR more_flag n2)) (z_timestamp_encode_ext (rs_ext_timestamp msg))))
        (then_do (when_do has_responder_ext
            (then_do (z_uint8_encode (Z_MSG_EXT_ENC_ZBUF OR 0x03 OR more_flag n3))
            (then_do (z_zsize_encode (of_nat (zidlen + 1 + unat (z_zint_len (ucast (rs_eid msg))))))
            (then_do (z_uint8_encode (si_len_byte (rs_zid msg)))
            (then_do (z_wbuf_write_bytes (rs_zid msg) 0 zidlen)
              (z_zsize_encode (ucast (rs_eid msg))))))))
        (case rs_body msg of
           Response_Reply r \<Rightarrow> z_reply_encode r
         | Response_Err e \<Rightarrow> z_err_encode e))))))))"

text \<open>The responder: the bytes of its ID go over the first bytes of the one in the message.\<close>

definition z_responder_read :: "z_id_t \<Rightarrow> (z_id_t \<times> u32, z_zbuf_t) prog" where
  "z_responder_read zid = bind_ok z_uint8_decode (\<lambda>header.
     let zidlen = drop_bit 4 header + 1 in
     bind_ok (z_zbuf_read_exact (unat zidlen)) (\<lambda>bs.
     bind_ok z_zint32_decode (\<lambda>eid. ret (bs @ drop (unat zidlen) zid, eid))))"

definition z_response_decode_extension :: "z_msg_ext_t \<Rightarrow> (unit, z_n_msg_response_t) prog" where
  "z_response_decode_extension extension =
     (let i = Z_EXT_FULL_ID (ext_header extension) in
      if i = Z_MSG_EXT_ENC_ZINT OR 0x01
      then ext_zint extension (\<lambda>v msg. Ok () (msg\<lparr>rs_ext_qos := ucast v\<rparr>))
      else if i = Z_MSG_EXT_ENC_ZBUF OR 0x02
      then ext_zbuf extension (\<lambda>s msg.
             bind_ok (on_slice (z_timestamp_decode (rs_ext_timestamp msg)) s)
               (\<lambda>ts msg. Ok () (msg\<lparr>rs_ext_timestamp := ts\<rparr>)) msg)
      else if i = Z_MSG_EXT_ENC_ZBUF OR 0x03
      then ext_zbuf extension (\<lambda>s msg.
             bind_ok (on_slice (z_responder_read (rs_zid msg)) s)
               (\<lambda>(zid, eid) msg. Ok () (msg\<lparr>rs_zid := zid, rs_eid := eid\<rparr>)) msg)
      else unknown_ext extension)"

definition z_response_decode :: "z_n_msg_response_t \<Rightarrow> u8 \<Rightarrow> keyexpr_mapping \<Rightarrow> (z_n_msg_response_t, z_zbuf_t) prog" where
  "z_response_decode msg header mapping =
     (let msg = msg\<lparr>rs_ext_qos := Z_N_QOS_DEFAULT\<rparr> in
      bind_ok z_zsize_decode (\<lambda>rid.
      bind_ok (z_wireexpr_decode (Z_HAS_FLAG header Z_FLAG_N_RESPONSE_N) (Z_HAS_FLAG header Z_FLAG_N_RESPONSE_M) mapping) (\<lambda>ke.
      let msg = msg\<lparr>rs_request_id := rid, rs_key := ke\<rparr> in
      bind_ok (if Z_HAS_FLAG header Z_FLAG_Z_Z then z_msg_ext_decode_iter z_response_decode_extension msg else ret msg) (\<lambda>msg.
      bind_ok z_uint8_decode (\<lambda>inner_header.
        if Z_MID inner_header = Z_MID_Z_REPLY
        then bind_ok (z_reply_decode z_msg_reply_null inner_header) (\<lambda>r. ret (msg\<lparr>rs_body := Response_Reply r\<rparr>))
        else if Z_MID inner_header = Z_MID_Z_ERR
        then bind_ok (z_err_decode z_msg_err_null inner_header) (\<lambda>e. ret (msg\<lparr>rs_body := Response_Err e\<rparr>))
        else fail Z_ERR_MESSAGE_DESERIALIZATION_FAILED)))))"

section \<open>Final response\<close>

record z_n_msg_response_final_t =
  rf_request_id :: z_zint_t

definition z_response_final_encode :: "z_n_msg_response_final_t \<Rightarrow> (unit, z_wbuf_t) prog" where
  "z_response_final_encode msg =
     then_do (z_uint8_encode Z_MID_N_RESPONSE_FINAL) (z_zsize_encode (rf_request_id msg))"

text \<open>The extensions are skipped even when the identifier could not be read.\<close>

definition z_response_final_decode :: "z_n_msg_response_final_t \<Rightarrow> u8 \<Rightarrow> (z_n_msg_response_final_t, z_zbuf_t) prog" where
  "z_response_final_decode msg header =
     bind_ok (attempt (rf_request_id msg) z_zsize_decode) (\<lambda>(r, rid).
     bind_ok (skip_if (Z_HAS_FLAG header Z_FLAG_Z_Z)) (\<lambda>_. return_code r (msg\<lparr>rf_request_id := rid\<rparr>)))"

section \<open>Declare and interest\<close>

record z_optional_id_t =
  oid_value :: u32
  oid_has_value :: bool

definition z_optional_id_make_some :: "u32 \<Rightarrow> z_optional_id_t" where
  "z_optional_id_make_some v = \<lparr>oid_value = v, oid_has_value = True\<rparr>"

definition z_optional_id_make_none :: z_optional_id_t where
  "z_optional_id_make_none = \<lparr>oid_value = 0, oid_has_value = False\<rparr>"

record z_n_msg_declare_t =
  de_decl :: z_declaration_t
  de_ext_timestamp :: z_timestamp_t
  de_ext_qos :: z_n_qos_t
  de_interest_id :: z_optional_id_t

definition z_declare_encode :: "z_n_msg_declare_t \<Rightarrow> (unit, z_wbuf_t) prog" where
  "z_declare_encode decl =
     (let header = Z_MID_N_DECLARE;
          has_qos_ext = de_ext_qos decl \<noteq> Z_N_QOS_DEFAULT;
          has_timestamp_ext = z_timestamp_check (de_ext_timestamp decl);
          n_ext = of_bool has_qos_ext + of_bool has_timestamp_ext :: u8;
          header = (if n_ext \<noteq> 0 then header OR Z_FLAG_N_Z else header);
          has_id = oid_has_value (de_interest_id decl);
          header = (if has_id then header OR Z_FLAG_N_DECLARE_I else header);
          n1 = n_ext - of_bool has_qos_ext;
          n2 = n1 - of_bool has_timestamp_ext
      in then_do (z_uint8_encode header)
        (then_do (when_do has_id (z_zsize_encode (ucast (oid_value (de_interest_id decl)))))
        (then_do (when_do has_qos_ext
            (then_do (z_uint8_encode (0x01 OR Z_MSG_EXT_ENC_ZINT OR more_flag n1)) (z_zsize_encode (ucast (de_ext_qos decl)))))
        (then_do (when_do has_timestamp_ext
            (then_do (z_uint8_encode (0x02 OR Z_MSG_EXT_ENC_ZBUF OR more_flag n2)) (z_timestamp_encode_ext (de_ext_timestamp decl))))
        (z_declaration_encode (de_decl decl))))))"

definition z_declare_decode_extensions :: "z_msg_ext_t \<Rightarrow> (unit, z_n_msg_declare_t) prog" where
  "z_declare_decode_extensions extension =
     (let i = Z_EXT_FULL_ID (ext_header extension) in
      if i = Z_MSG_EXT_ENC_ZINT OR 0x01
      then ext_zint extension (\<lambda>v decl. Ok () (decl\<lparr>de_ext_qos := ucast v\<rparr>))
      else if i = Z_MSG_EXT_ENC_ZBUF OR 0x02
      then ext_zbuf extension (\<lambda>s decl.
             bind_ok (on_slice (z_timestamp_decode (de_ext_timestamp decl)) s)
               (\<lambda>ts decl. Ok () (decl\<lparr>de_ext_timestamp := ts\<rparr>)) decl)
      else unknown_ext extension)"

definition z_declare_decode :: "z_n_msg_declare_t \<Rightarrow> u8 \<Rightarrow> keyexpr_mapping \<Rightarrow> (z_n_msg_declare_t, z_zbuf_t) prog" where
  "z_declare_decode decl header mapping =
     (let decl = decl\<lparr>de_ext_qos := Z_N_QOS_DEFAULT\<rparr> in
      bind_ok (if Z_HAS_FLAG header Z_FLAG_N_DECLARE_I
               then bind_ok z_zint32_decode (\<lambda>v. ret (decl\<lparr>de_interest_id := \<lparr>oid_value = v, oid_has_value = True\<rparr>\<rparr>))
               else ret decl) (\<lambda>decl.
      bind_ok (if Z_HAS_FLAG header Z_FLAG_N_Z then z_msg_ext_decode_iter z_declare_decode_extensions decl else ret decl) (\<lambda>decl.
      bind_ok (z_declaration_decode mapping) (\<lambda>d. ret (decl\<lparr>de_decl := d\<rparr>)))))"

record z_n_msg_interest_t =
  ni_interest :: z_interest_t

definition z_n_interest_encode :: "z_n_msg_interest_t \<Rightarrow> (unit, z_wbuf_t) prog" where
  "z_n_interest_encode interest =
     (let header = Z_MID_N_INTEREST;
          current = Z_HAS_FLAG (in_flags (ni_interest interest)) Z_INTEREST_FLAG_CURRENT;
          future = Z_HAS_FLAG (in_flags (ni_interest interest)) Z_INTEREST_FLAG_FUTURE;
          header = (if current then header OR Z_FLAG_N_INTEREST_CURRENT else header);
          header = (if future then header OR Z_FLAG_N_INTEREST_FUTURE else header);
          is_final = \<not> current \<and> \<not> future
      in then_do (z_uint8_encode header) (z_interest_encode (ni_interest interest) is_final))"

definition z_n_interest_decode :: "u8 \<Rightarrow> keyexpr_mapping \<Rightarrow> (z_n_msg_interest_t, z_zbuf_t) prog" where
  "z_n_interest_decode header mapping =
     (let i = z_interest_null;
          current = Z_HAS_FLAG header Z_FLAG_N_INTEREST_CURRENT;
          future = Z_HAS_FLAG header Z_FLAG_N_INTEREST_FUTURE;
          i = (if current then i\<lparr>in_flags := in_flags i OR Z_INTEREST_FLAG_CURRENT\<rparr> else i);
          i = (if future then i\<lparr>in_flags := in_flags i OR Z_INTEREST_FLAG_FUTURE\<rparr> else i);
          is_final = \<not> current \<and> \<not> future;
          has_ext = Z_HAS_FLAG header Z_FLAG_Z_Z
      in bind_ok (z_interest_decode i is_final has_ext mapping) (\<lambda>i. ret \<lparr>ni_interest = i\<rparr>))"

section \<open>OAM\<close>

datatype z_oam_enc = OAM_BODY_UNIT | OAM_BODY_ZINT | OAM_BODY_ZBUF

record z_n_msg_oam_t =
  oa_id :: u16
  oa_ext_timestamp :: z_timestamp_t
  oa_ext_qos :: z_n_qos_t
  oa_enc :: z_oam_enc
  oa_body :: z_msg_ext_body_t

definition z_oam_encode :: "z_n_msg_oam_t \<Rightarrow> (unit, z_wbuf_t) prog" where
  "z_oam_encode oam =
     (let header = Z_MID_N_OAM;
          has_qos_ext = oa_ext_qos oam \<noteq> Z_N_QOS_DEFAULT;
          has_timestamp_ext = z_timestamp_check (oa_ext_timestamp oam);
          n_ext = of_bool has_qos_ext + of_bool has_timestamp_ext :: u8;
          header = (if n_ext \<noteq> 0 then header OR Z_FLAG_N_Z else header);
          header = header OR (case oa_enc oam of OAM_BODY_UNIT \<Rightarrow> Z_MSG_EXT_ENC_UNIT
                              | OAM_BODY_ZINT \<Rightarrow> Z_MSG_EXT_ENC_ZINT | OAM_BODY_ZBUF \<Rightarrow> Z_MSG_EXT_ENC_ZBUF);
          n1 = n_ext - of_bool has_qos_ext;
          n2 = n1 - of_bool has_timestamp_ext
      in then_do (z_uint8_encode header)
        (then_do (z_zint16_encode (oa_id oam))
        (then_do (when_do has_qos_ext
            (then_do (z_uint8_encode (0x01 OR Z_MSG_EXT_ENC_ZINT OR more_flag n1)) (z_uint8_encode (oa_ext_qos oam))))
        (then_do (when_do has_timestamp_ext
            (then_do (z_uint8_encode (0x02 OR Z_MSG_EXT_ENC_ZBUF OR more_flag n2)) (z_timestamp_encode_ext (oa_ext_timestamp oam))))
        (case oa_enc oam of
           OAM_BODY_UNIT \<Rightarrow> ret ()
         | OAM_BODY_ZINT \<Rightarrow> (case oa_body oam of Ext_Zint v \<Rightarrow> z_zint64_encode v | _ \<Rightarrow> fault)
         | OAM_BODY_ZBUF \<Rightarrow> (case oa_body oam of Ext_Zbuf s \<Rightarrow> z_slice_encode s | _ \<Rightarrow> fault))))))"

definition z_oam_decode_extensions :: "z_msg_ext_t \<Rightarrow> (unit, z_n_msg_oam_t) prog" where
  "z_oam_decode_extensions extension =
     (let i = Z_EXT_FULL_ID (ext_header extension) in
      if i = Z_MSG_EXT_ENC_ZINT OR 0x01
      then ext_zint extension (\<lambda>v oam. Ok () (oam\<lparr>oa_ext_qos := ucast v\<rparr>))
      else if i = Z_MSG_EXT_ENC_ZBUF OR 0x02
      then ext_zbuf extension (\<lambda>s oam.
             bind_ok (on_slice (z_timestamp_decode (oa_ext_timestamp oam)) s)
               (\<lambda>ts oam. Ok () (oam\<lparr>oa_ext_timestamp := ts\<rparr>)) oam)
      else unknown_ext extension)"

definition z_oam_decode :: "z_n_msg_oam_t \<Rightarrow> u8 \<Rightarrow> (z_n_msg_oam_t, z_zbuf_t) prog" where
  "z_oam_decode oam header =
     bind_ok z_zint16_decode (\<lambda>i.
     let oam = oam\<lparr>oa_id := i, oa_ext_qos := Z_N_QOS_DEFAULT, oa_ext_timestamp := z_timestamp_null\<rparr> in
     bind_ok (if Z_HAS_FLAG header Z_FLAG_N_Z then z_msg_ext_decode_iter z_oam_decode_extensions oam else ret oam) (\<lambda>oam.
       if Z_EXT_ENC header = Z_MSG_EXT_ENC_UNIT then ret (oam\<lparr>oa_enc := OAM_BODY_UNIT\<rparr>)
       else if Z_EXT_ENC header = Z_MSG_EXT_ENC_ZINT
       then bind_ok z_zint64_decode (\<lambda>v. ret (oam\<lparr>oa_enc := OAM_BODY_ZINT, oa_body := Ext_Zint v\<rparr>))
       else if Z_EXT_ENC header = Z_MSG_EXT_ENC_ZBUF
       then bind_ok z_slice_decode (\<lambda>s. ret (oam\<lparr>oa_enc := OAM_BODY_ZBUF, oa_body := Ext_Zbuf s\<rparr>))
       else fail Z_ERR_MESSAGE_DESERIALIZATION_FAILED))"

section \<open>Network messages\<close>

datatype z_network_body_t =
    N_Declare z_n_msg_declare_t
  | N_Push z_n_msg_push_t
  | N_Request z_n_msg_request_t
  | N_Response z_n_msg_response_t
  | N_Response_Final z_n_msg_response_final_t
  | N_Interest z_n_msg_interest_t
  | N_Oam z_n_msg_oam_t

record z_network_message_t =
  nm_body :: z_network_body_t
  nm_reliability :: z_reliability_t

definition z_network_message_encode :: "z_network_message_t \<Rightarrow> (unit, z_wbuf_t) prog" where
  "z_network_message_encode msg = (case nm_body msg of
     N_Declare m \<Rightarrow> z_declare_encode m
   | N_Push m \<Rightarrow> z_push_encode m
   | N_Request m \<Rightarrow> z_request_encode m
   | N_Response m \<Rightarrow> z_response_encode m
   | N_Response_Final m \<Rightarrow> z_response_final_encode m
   | N_Interest m \<Rightarrow> z_n_interest_encode m
   | N_Oam m \<Rightarrow> z_oam_encode m)"

text \<open>The structures of zeros that the decoders fill, as \<^verbatim>\<open>*msg = (_z_network_message_t){0}\<close> leaves them.\<close>

definition z_n_msg_push_null :: z_n_msg_push_t where
  "z_n_msg_push_null = \<lparr>pu_key = z_wireexpr_null, pu_timestamp = z_timestamp_null, pu_qos = 0, pu_body = z_push_body_null\<rparr>"

definition z_n_msg_request_null :: z_n_msg_request_t where
  "z_n_msg_request_null = \<lparr>rq_rid = 0, rq_key = z_wireexpr_null, rq_ext_timestamp = z_timestamp_null, rq_ext_qos = 0,
     rq_ext_target = 0, rq_ext_budget = 0, rq_ext_timeout_ms = 0, rq_body = Request_Query z_msg_query_null\<rparr>"

definition z_n_msg_response_null :: z_n_msg_response_t where
  "z_n_msg_response_null = \<lparr>rs_ext_timestamp = z_timestamp_null, rs_request_id = 0, rs_key = z_wireexpr_null,
     rs_ext_qos = 0, rs_zid = z_id_empty, rs_eid = 0, rs_body = Response_Reply z_msg_reply_null\<rparr>"

definition z_n_msg_declare_null :: z_n_msg_declare_t where
  "z_n_msg_declare_null = \<lparr>de_decl = Decl_Kexpr \<lparr>dk_id = 0, dk_keyexpr = z_wireexpr_null\<rparr>,
     de_ext_timestamp = z_timestamp_null, de_ext_qos = 0, de_interest_id = z_optional_id_make_none\<rparr>"

definition z_n_msg_oam_null :: z_n_msg_oam_t where
  "z_n_msg_oam_null = \<lparr>oa_id = 0, oa_ext_timestamp = z_timestamp_null, oa_ext_qos = 0, oa_enc = OAM_BODY_UNIT,
     oa_body = Ext_Unit\<rparr>"

definition z_network_message_decode :: "keyexpr_mapping \<Rightarrow> (z_network_message_t, z_zbuf_t) prog" where
  "z_network_message_decode mapping = bind_ok z_uint8_decode (\<lambda>header.
     bind_ok
       (if Z_MID header = Z_MID_N_DECLARE
        then bind_ok (z_declare_decode z_n_msg_declare_null header mapping) (\<lambda>m. ret (N_Declare m))
        else if Z_MID header = Z_MID_N_PUSH
        then bind_ok (z_push_decode z_n_msg_push_null header mapping) (\<lambda>m. ret (N_Push m))
        else if Z_MID header = Z_MID_N_REQUEST
        then bind_ok (z_request_decode z_n_msg_request_null header mapping) (\<lambda>m. ret (N_Request m))
        else if Z_MID header = Z_MID_N_RESPONSE
        then bind_ok (z_response_decode z_n_msg_response_null header mapping) (\<lambda>m. ret (N_Response m))
        else if Z_MID header = Z_MID_N_RESPONSE_FINAL
        then bind_ok (z_response_final_decode \<lparr>rf_request_id = 0\<rparr> header) (\<lambda>m. ret (N_Response_Final m))
        else if Z_MID header = Z_MID_N_INTEREST
        then bind_ok (z_n_interest_decode header mapping) (\<lambda>m. ret (N_Interest m))
        else if Z_MID header = Z_MID_N_OAM
        then bind_ok (z_oam_decode z_n_msg_oam_null header) (\<lambda>m. ret (N_Oam m))
        else fail Z_ERR_MESSAGE_DESERIALIZATION_FAILED)
       (\<lambda>b. ret \<lparr>nm_body = b, nm_reliability = 0\<rparr>))"


section \<open>Fields that several messages share\<close>

definition key_ok :: "z_wireexpr_t \<Rightarrow> bool" where
  "key_ok ke \<longleftrightarrow> length (we_suffix ke) < 2 ^ 64"

lemma key_consumes:
  assumes "key_ok ke"
  shows "consumes (z_wireexpr_decode (z_wireexpr_has_suffix ke) (z_wireexpr_is_local ke) mapping)
    (wire_wireexpr (z_wireexpr_has_suffix ke) ke) (recv_ke mapping ke)"
proof -
  have suf: "length (we_suffix ke) < 2 ^ 64" using assms by (simp add: key_ok_def)
  show ?thesis
    by (rule consumes_cong [OF wireexpr_consumes [OF suf] refl]) (cases ke, simp add: recv_ke_def ke_suffix)
qed

definition qos_exts :: "z_n_qos_t \<Rightarrow> z_msg_ext_t list" where
  "qos_exts q = (if q \<noteq> Z_N_QOS_DEFAULT then [zint_ext (Z_MSG_EXT_ENC_ZINT OR 0x01) (ucast q)] else [])"

definition ts_exts :: "z_timestamp_t \<Rightarrow> z_msg_ext_t list" where
  "ts_exts ts = (if ts_valid ts then [zbuf_ext (Z_MSG_EXT_ENC_ZBUF OR 0x02) (wire_timestamp ts)] else [])"

definition opt_ts_ok :: "z_timestamp_t \<Rightarrow> bool" where
  "opt_ts_ok ts \<longleftrightarrow> (ts_valid ts \<longrightarrow> ts_ok ts)"

text \<open>A byte below 128 is its own variable-length encoding.\<close>

lemma small_zint: "b < 0x80 \<Longrightarrow> z_zint64_encode_buf (ucast (b :: u8)) = [b]"
  using wire_len_small [of "unat b"] by (simp add: wire_len_def word_less_nat_alt)

lemma net_ext_ids [simp]:
  "Z_EXT_FULL_ID (Z_MSG_EXT_ENC_ZINT OR 0x01) = Z_MSG_EXT_ENC_ZINT OR 0x01"
  "Z_EXT_FULL_ID (Z_MSG_EXT_ENC_ZBUF OR 0x02) = Z_MSG_EXT_ENC_ZBUF OR 0x02"
  "Z_EXT_FULL_ID (Z_MSG_EXT_ENC_ZBUF OR 0x03) = Z_MSG_EXT_ENC_ZBUF OR 0x03"
  "Z_MSG_EXT_ENC_ZBUF OR 0x02 \<noteq> Z_MSG_EXT_ENC_ZINT OR 0x01" "Z_MSG_EXT_ENC_ZBUF OR 0x03 \<noteq> Z_MSG_EXT_ENC_ZINT OR 0x01"
  "Z_MSG_EXT_ENC_ZBUF OR 0x03 \<noteq> Z_MSG_EXT_ENC_ZBUF OR 0x02"
  "(Z_MSG_EXT_ENC_ZBUF OR 0x02) AND Z_MSG_EXT_FLAG_Z = 0" "Z_EXT_ENC (Z_MSG_EXT_ENC_ZBUF OR 0x02) = Z_MSG_EXT_ENC_ZBUF"
  "(Z_MSG_EXT_ENC_ZBUF OR 0x03) AND Z_MSG_EXT_FLAG_Z = 0" "Z_EXT_ENC (Z_MSG_EXT_ENC_ZBUF OR 0x03) = Z_MSG_EXT_ENC_ZBUF"
  by (simp_all add: z_ext_consts)

lemma wire_timestamp_small: "id_wf (ts_id ts) \<Longrightarrow> length (wire_timestamp ts) < 2 ^ 64"
  using z_id_len_le [of "ts_id ts"] zint_buf_length [of "ts_time ts"] by (simp add: wire_timestamp_len zint_len_buf VLE_LEN_def)

lemma qos_ts_exts_ok: "opt_ts_ok ts \<Longrightarrow> list_all ext_wf (qos_exts q @ ts_exts ts)"
  using wire_timestamp_small [of ts] by (auto simp: qos_exts_def ts_exts_def opt_ts_ok_def ts_ok_def)

lemma no_qos: "qos_exts q = [] \<Longrightarrow> q = Z_N_QOS_DEFAULT"
  by (auto simp: qos_exts_def split: if_splits)

lemma run_append:
  "run_callback cb xs c = Some c1 \<Longrightarrow> run_callback cb (xs @ ys) c = run_callback cb ys c1"
  by (induction xs arbitrary: c) (auto split: res.splits)

lemma run_qos:
  assumes "\<And>c. cb (zint_ext (Z_MSG_EXT_ENC_ZINT OR 0x01) (ucast q)) c = Ok () (F q c)" "c = F Z_N_QOS_DEFAULT c"
  shows "run_callback cb (qos_exts q) c = Some (F q c)"
  using assms by (cases "q = Z_N_QOS_DEFAULT") (simp_all add: qos_exts_def)

lemma run_ts:
  assumes "opt_ts_ok ts" "\<And>c. ts_ok ts \<Longrightarrow> ts_valid ts \<Longrightarrow>
     cb (zbuf_ext (Z_MSG_EXT_ENC_ZBUF OR 0x02) (wire_timestamp ts)) c = Ok () (F ts c)" "c = F z_timestamp_null c"
  shows "run_callback cb (ts_exts ts) c = Some (F (recv_ts ts) c)"
  using assms by (cases "ts_valid ts") (simp_all add: ts_exts_def recv_ts_def opt_ts_ok_def)

lemma on_slice_ts: "ts_ok ts \<Longrightarrow> ts_valid ts \<Longrightarrow> on_slice (z_timestamp_decode t0) (wire_timestamp ts) c = Ok ts c"
  by (rule on_slice_consumes [OF timestamp_consumes])

lemma more_flag_counts:
  "more_flag (of_bool a + of_bool b) = (if a \<or> b then Z_FLAG_Z_Z else 0)"
  "more_flag (of_bool a + of_bool b - of_bool a) = (if b then Z_FLAG_Z_Z else 0)"
  "more_flag (of_bool a + of_bool b - of_bool a - of_bool b) = 0"
  by (cases a; cases b; simp add: more_flag_def)+

lemma count2_nz: "(of_bool a + of_bool b :: u8) \<noteq> 0 \<longleftrightarrow> a \<or> b"
  by (cases a; cases b; simp)

lemma count3_nz: "(of_bool a + of_bool b + of_bool c :: u8) \<noteq> 0 \<longleftrightarrow> a \<or> b \<or> c"
  by (cases a; cases b; cases c; simp)

lemma more_flag_counts3:
  "more_flag (of_bool a + of_bool b + of_bool c - of_bool a) = (if b \<or> c then Z_FLAG_Z_Z else 0)"
  "more_flag (of_bool a + of_bool b + of_bool c - of_bool a - of_bool b) = (if c then Z_FLAG_Z_Z else 0)"
  "more_flag (of_bool a + of_bool b + of_bool c - of_bool a - of_bool b - of_bool c) = 0"
  by (cases a; cases b; cases c; simp add: more_flag_def)+

section \<open>Push: round trip\<close>

definition push_msg_exts :: "z_n_msg_push_t \<Rightarrow> z_msg_ext_t list" where
  "push_msg_exts m = qos_exts (pu_qos m) @ ts_exts (pu_timestamp m)"

definition net_header :: "u8 \<Rightarrow> bool \<Rightarrow> z_wireexpr_t \<Rightarrow> u8" where
  "net_header mid has_ext ke = mid OR (if z_wireexpr_is_local ke then Z_FLAG_N_REQUEST_M else 0) OR
     (if z_wireexpr_has_suffix ke then Z_FLAG_N_REQUEST_N else 0) OR (if has_ext then Z_FLAG_N_Z else 0)"

definition wire_push_msg :: "z_n_msg_push_t \<Rightarrow> byte list" where
  "wire_push_msg m = net_header Z_MID_N_PUSH (push_msg_exts m \<noteq> []) (pu_key m) #
     wire_wireexpr (z_wireexpr_has_suffix (pu_key m)) (pu_key m) @ wire_exts (push_msg_exts m) @ wire_push_body (pu_body m)"

definition push_msg_ok :: "z_n_msg_push_t \<Rightarrow> bool" where
  "push_msg_ok m \<longleftrightarrow> key_ok (pu_key m) \<and> opt_ts_ok (pu_timestamp m) \<and> pu_qos m < 0x80 \<and> push_ok (pu_body m)"

definition recv_push_msg :: "keyexpr_mapping \<Rightarrow> z_n_msg_push_t \<Rightarrow> z_n_msg_push_t" where
  "recv_push_msg mapping m = \<lparr>pu_key = recv_ke mapping (pu_key m), pu_timestamp = recv_ts (pu_timestamp m),
     pu_qos = pu_qos m, pu_body = recv_push (pu_body m)\<rparr>"

lemma net_header_facts:
  assumes "mid AND 0x1f = mid"
  shows "Z_MID (net_header mid x ke) = mid" "Z_HAS_FLAG (net_header mid x ke) Z_FLAG_N_Z \<longleftrightarrow> x"
    "Z_HAS_FLAG (net_header mid x ke) Z_FLAG_Z_Z \<longleftrightarrow> x"
    "Z_HAS_FLAG (net_header mid x ke) Z_FLAG_N_PUSH_N \<longleftrightarrow> z_wireexpr_has_suffix ke"
    "Z_HAS_FLAG (net_header mid x ke) Z_FLAG_N_PUSH_M \<longleftrightarrow> z_wireexpr_is_local ke"
    "Z_HAS_FLAG (net_header mid x ke) Z_FLAG_N_REQUEST_N \<longleftrightarrow> z_wireexpr_has_suffix ke"
    "Z_HAS_FLAG (net_header mid x ke) Z_FLAG_N_REQUEST_M \<longleftrightarrow> z_wireexpr_is_local ke"
    "Z_HAS_FLAG (net_header mid x ke) Z_FLAG_N_RESPONSE_N \<longleftrightarrow> z_wireexpr_has_suffix ke"
    "Z_HAS_FLAG (net_header mid x ke) Z_FLAG_N_RESPONSE_M \<longleftrightarrow> z_wireexpr_is_local ke"
proof -
  have m: "mid AND 0x80 = 0" "mid AND 0x40 = 0" "mid AND 0x20 = 0" "0x1f AND mid = mid"
    by (subst assms [symmetric], simp add: and.assoc)+ (simp add: assms and.commute)
  show "Z_MID (net_header mid x ke) = mid" "Z_HAS_FLAG (net_header mid x ke) Z_FLAG_N_Z \<longleftrightarrow> x"
    "Z_HAS_FLAG (net_header mid x ke) Z_FLAG_Z_Z \<longleftrightarrow> x"
    "Z_HAS_FLAG (net_header mid x ke) Z_FLAG_N_PUSH_N \<longleftrightarrow> z_wireexpr_has_suffix ke"
    "Z_HAS_FLAG (net_header mid x ke) Z_FLAG_N_PUSH_M \<longleftrightarrow> z_wireexpr_is_local ke"
    "Z_HAS_FLAG (net_header mid x ke) Z_FLAG_N_REQUEST_N \<longleftrightarrow> z_wireexpr_has_suffix ke"
    "Z_HAS_FLAG (net_header mid x ke) Z_FLAG_N_REQUEST_M \<longleftrightarrow> z_wireexpr_is_local ke"
    "Z_HAS_FLAG (net_header mid x ke) Z_FLAG_N_RESPONSE_N \<longleftrightarrow> z_wireexpr_has_suffix ke"
    "Z_HAS_FLAG (net_header mid x ke) Z_FLAG_N_RESPONSE_M \<longleftrightarrow> z_wireexpr_is_local ke"
    by (auto simp: net_header_def Z_MID_def Z_MID_MASK_def Z_HAS_FLAG_def Z_FLAG_Z_Z_def z_net_flags
        bit.conj_disj_distrib bit.conj_disj_distrib2 m)
qed

lemma net_mids:
  "Z_MID_N_PUSH AND 0x1f = Z_MID_N_PUSH" "Z_MID_N_REQUEST AND 0x1f = Z_MID_N_REQUEST"
  "Z_MID_N_RESPONSE AND 0x1f = Z_MID_N_RESPONSE"
  by (simp_all add: z_net_mids)

lemma appends_push_msg [appends_intros]:
  assumes "push_msg_ok m"
  shows "appends (z_push_encode m) (wire_push_msg m)"
proof -
  have ok: "ts_valid (pu_timestamp m) \<Longrightarrow> ts_ok (pu_timestamp m)" "push_ok (pu_body m)" and q: "pu_qos m < 0x80"
    using assms by (auto simp: push_msg_ok_def opt_ts_ok_def)
  show ?thesis unfolding z_push_encode_def Let_def z_timestamp_check_def
    apply (rule appends_cong)
     apply (rule appends_then appends_when appends_uint8 appends_wireexpr appends_timestamp_ext appends_push_body ok | assumption)+
    apply (simp add: wire_push_msg_def net_header_def push_msg_exts_def qos_exts_def ts_exts_def small_zint [OF q]
       z_ext_consts or.assoc Z_FLAG_N_Z_def)
    done
qed

lemma push_cb_qos: "z_push_decode_ext_cb (zint_ext (Z_MSG_EXT_ENC_ZINT OR 0x01) (ucast (q :: u8))) c = Ok () (c\<lparr>pu_qos := q\<rparr>)"
proof -
  have "\<not> UINT32_MAX < (ucast q :: u64)"
  proof -
    have "unat q < 2 ^ 8" using unsigned_less [of q, where 'a = nat] by simp
    then have "unat (ucast q :: u64) < 2 ^ 8" by (simp add: unsigned_ucast_eq take_bit_nat_eq_self)
    then show ?thesis by (simp add: word_less_nat_alt UINT32_MAX_def)
  qed
  then show ?thesis by (simp add: z_push_decode_ext_cb_def)
qed

lemma push_cb_ts: "ts_ok ts \<Longrightarrow> ts_valid ts \<Longrightarrow>
    z_push_decode_ext_cb (zbuf_ext (Z_MSG_EXT_ENC_ZBUF OR 0x02) (wire_timestamp ts)) c = Ok () (c\<lparr>pu_timestamp := ts\<rparr>)"
  by (simp add: z_push_decode_ext_cb_def on_slice_ts bind_ok_def)

lemma push_msg_exts_run:
  assumes "push_msg_ok m" "pu_qos c = Z_N_QOS_DEFAULT" "pu_timestamp c = z_timestamp_null"
  shows "run_callback z_push_decode_ext_cb (push_msg_exts m) c =
    Some (c\<lparr>pu_qos := pu_qos m, pu_timestamp := recv_ts (pu_timestamp m)\<rparr>)"
proof -
  let ?F = "\<lambda>q c. c\<lparr>pu_qos := q\<rparr>" and ?G = "\<lambda>t c. c\<lparr>pu_timestamp := t\<rparr>"
  have "run_callback z_push_decode_ext_cb (qos_exts (pu_qos m)) c = Some (?F (pu_qos m) c)"
    by (rule run_qos) (use assms(2) in \<open>simp_all add: push_cb_qos\<close>)
  moreover have "run_callback z_push_decode_ext_cb (ts_exts (pu_timestamp m)) (?F (pu_qos m) c) =
      Some (?G (recv_ts (pu_timestamp m)) (?F (pu_qos m) c))"
    by (rule run_ts) (use assms in \<open>simp_all add: push_cb_ts push_msg_ok_def\<close>)
  ultimately show ?thesis by (simp add: push_msg_exts_def run_append)
qed

lemma push_msg_consumes:
  assumes ok: "push_msg_ok m"
  shows "consumes (z_push_decode z_n_msg_push_null (net_header Z_MID_N_PUSH (push_msg_exts m \<noteq> []) (pu_key m)) mapping)
    (wire_wireexpr (z_wireexpr_has_suffix (pu_key m)) (pu_key m) @ wire_exts (push_msg_exts m) @ wire_push_body (pu_body m))
    (recv_push_msg mapping m)"
proof -
  have k: "key_ok (pu_key m)" and b: "push_ok (pu_body m)" and x: "list_all ext_wf (push_msg_exts m)"
    using ok qos_ts_exts_ok by (auto simp: push_msg_ok_def push_msg_exts_def)
  show ?thesis unfolding z_push_decode_def Let_def net_header_facts [OF net_mids(1)] wire_push_body_def
    apply (rule consumes_cong)
      apply (rule consumes_bind [OF key_consumes [OF k]])
      apply (rule consumes_bind)
       apply (rule opt_exts_consumes [OF refl x])
       apply (rule push_msg_exts_run [OF ok])
        apply (simp_all only: z_n_msg_push_null_def z_n_msg_push_t.simps)
      apply (rule headed_consumes)
      apply (rule consumes_last)
       apply (rule push_body_consumes [OF b])
      apply (simp_all add: recv_push_msg_def)
    done
qed

end
