(* ===== verification/Zp_NetLaws.thy ===== *)
theory Zp_NetLaws
  imports Zp_Network
begin

text \<open>
  The laws of the network codec: what each message other than the push looks like on the
  wire, what the receiver makes of it, and the contracts of the codec of network messages.
\<close>

section \<open>Request: round trip\<close>

definition wire_request_body :: "z_request_body_t \<Rightarrow> byte list" where
  "wire_request_body b = (case b of
     Request_Query q \<Rightarrow> wire_query q
   | Request_Put p \<Rightarrow> wire_push_body \<lparr>pb_is_put = True, pb_put = p\<rparr>
   | Request_Del d \<Rightarrow> wire_push_body \<lparr>pb_is_put = False, pb_put = del_as_put d\<rparr>)"

definition request_body_ok :: "z_request_body_t \<Rightarrow> bool" where
  "request_body_ok b = (case b of
     Request_Query q \<Rightarrow> query_ok q
   | Request_Put p \<Rightarrow> push_ok \<lparr>pb_is_put = True, pb_put = p\<rparr>
   | Request_Del d \<Rightarrow> push_ok \<lparr>pb_is_put = False, pb_put = del_as_put d\<rparr>)"

definition recv_request_body :: "z_request_body_t \<Rightarrow> z_request_body_t" where
  "recv_request_body b = (case b of
     Request_Query q \<Rightarrow> Request_Query (recv_query q)
   | Request_Put p \<Rightarrow> Request_Put (pb_put (recv_push \<lparr>pb_is_put = True, pb_put = p\<rparr>))
   | Request_Del d \<Rightarrow> Request_Del (put_as_del (pb_put (recv_push \<lparr>pb_is_put = False, pb_put = del_as_put d\<rparr>))))"

definition num_exts :: "u8 \<Rightarrow> u64 \<Rightarrow> z_msg_ext_t list" where
  "num_exts i v = (if v \<noteq> 0 then [zint_ext i v] else [])"

definition target_id :: u8 where "target_id = 0x04 OR Z_MSG_EXT_ENC_ZINT OR Z_MSG_EXT_FLAG_M"
definition budget_id :: u8 where "budget_id = 0x05 OR Z_MSG_EXT_ENC_ZINT"
definition timeout_id :: u8 where "timeout_id = 0x06 OR Z_MSG_EXT_ENC_ZINT"

definition request_exts :: "z_n_msg_request_t \<Rightarrow> z_msg_ext_t list" where
  "request_exts m = (qos_exts (rq_ext_qos m) @ ts_exts (rq_ext_timestamp m)) @
     num_exts target_id (ucast (rq_ext_target m)) @ num_exts budget_id (ucast (rq_ext_budget m)) @
     num_exts timeout_id (rq_ext_timeout_ms m)"

definition wire_request :: "z_n_msg_request_t \<Rightarrow> byte list" where
  "wire_request m = net_header Z_MID_N_REQUEST (request_exts m \<noteq> []) (rq_key m) # z_zint64_encode_buf (rq_rid m) @
     wire_wireexpr (z_wireexpr_has_suffix (rq_key m)) (rq_key m) @ wire_exts (request_exts m) @ wire_request_body (rq_body m)"

definition request_ok :: "z_n_msg_request_t \<Rightarrow> bool" where
  "request_ok m \<longleftrightarrow> key_ok (rq_key m) \<and> opt_ts_ok (rq_ext_timestamp m) \<and> rq_ext_target m \<le> 2 \<and> request_body_ok (rq_body m)"

definition recv_request :: "keyexpr_mapping \<Rightarrow> z_n_msg_request_t \<Rightarrow> z_n_msg_request_t" where
  "recv_request mapping m = m\<lparr>rq_key := recv_ke mapping (rq_key m), rq_ext_timestamp := recv_ts (rq_ext_timestamp m),
     rq_body := recv_request_body (rq_body m)\<rparr>"

lemma more_flag_counts5:
  fixes q t g b m :: bool
  defines "n \<equiv> of_bool b + of_bool g + of_bool q + of_bool m + of_bool t :: u8"
  shows "more_flag n = (if q \<or> t \<or> g \<or> b \<or> m then Z_FLAG_Z_Z else 0)"
    "more_flag (n - of_bool q) = (if t \<or> g \<or> b \<or> m then Z_FLAG_Z_Z else 0)"
    "more_flag (n - of_bool q - of_bool t) = (if g \<or> b \<or> m then Z_FLAG_Z_Z else 0)"
    "more_flag (n - of_bool q - of_bool t - of_bool g) = (if b \<or> m then Z_FLAG_Z_Z else 0)"
    "more_flag (n - of_bool q - of_bool t - of_bool g - of_bool b) = (if m then Z_FLAG_Z_Z else 0)"
    "more_flag (n - of_bool q - of_bool t - of_bool g - of_bool b - of_bool m) = 0"
  unfolding n_def by (cases q; cases t; cases g; cases b; cases m; simp add: more_flag_def)+

lemma appends_request_body: "request_body_ok b \<Longrightarrow>
    appends (case b of Request_Query q \<Rightarrow> z_query_encode q | Request_Put p \<Rightarrow> z_put_encode p | Request_Del d \<Rightarrow> z_del_encode d)
      (wire_request_body b)"
  by (cases b) (simp_all add: request_body_ok_def wire_request_body_def z_put_encode_def z_del_encode_def
      appends_query appends_push_body)

lemma wire_exts_num: "wire_exts (num_exts i v @ xs) =
    (if v \<noteq> 0 then (i OR Z_MSG_EXT_MORE (xs \<noteq> [])) # z_zint64_encode_buf v else []) @ wire_exts xs"
  by (simp add: num_exts_def)

lemma num_exts_Nil: "num_exts i v = [] \<longleftrightarrow> v = 0"
  by (simp add: num_exts_def)

lemma ucast_nz: "(ucast (x :: u32) :: u64) = 0 \<longleftrightarrow> x = 0"
  by (metis ucast_narrow(2) ucast_0)

lemma qos_ts_wire:
  "wire_exts (qos_exts q @ xs) = (if q \<noteq> Z_N_QOS_DEFAULT
     then ((Z_MSG_EXT_ENC_ZINT OR 0x01) OR Z_MSG_EXT_MORE (xs \<noteq> [])) # z_zint64_encode_buf (ucast q) else []) @ wire_exts xs"
  "wire_exts (ts_exts t @ xs) = (if ts_valid t
     then ((Z_MSG_EXT_ENC_ZBUF OR 0x02) OR Z_MSG_EXT_MORE (xs \<noteq> [])) # wire_slice (wire_timestamp t) else []) @ wire_exts xs"
  "qos_exts q = [] \<longleftrightarrow> q = Z_N_QOS_DEFAULT" "ts_exts t = [] \<longleftrightarrow> \<not> ts_valid t"
  by (simp_all add: qos_exts_def ts_exts_def)

lemma appends_request [appends_intros]:
  assumes "request_ok m"
  shows "appends (z_request_encode m) (wire_request m)"
proof -
  have ok: "ts_valid (rq_ext_timestamp m) \<Longrightarrow> ts_ok (rq_ext_timestamp m)" "request_body_ok (rq_body m)"
    using assms by (auto simp: request_ok_def opt_ts_ok_def)
  show ?thesis unfolding z_request_encode_def z_n_msg_request_needed_exts_def Let_def z_n_msg_request_exts_t.simps
      more_flag_counts5 z_timestamp_check_def
    apply (rule appends_cong)
     apply (rule appends_then appends_when appends_uint8 appends_zsize appends_zint64 appends_wireexpr appends_timestamp_ext
        appends_request_body ok | assumption)+
    apply (simp only: wire_request_def net_header_def request_exts_def append_assoc)
    apply (simp add: qos_ts_wire wire_exts_num num_exts_Nil ucast_nz wire_exts_num [of _ _ "[]", simplified]
       Z_QUERY_TARGET_BEST_MATCHING_def target_id_def budget_id_def timeout_id_def Z_MSG_EXT_MORE_def Z_FLAG_N_Z_def
       Z_FLAG_Z_Z_def Z_MSG_EXT_FLAG_Z_def or.assoc ac_simps cong: if_cong)
    done
qed


lemma request_ids:
  "Z_EXT_FULL_ID target_id = target_id" "Z_EXT_FULL_ID budget_id = budget_id" "Z_EXT_FULL_ID timeout_id = timeout_id"
  "target_id AND Z_MSG_EXT_FLAG_Z = 0" "budget_id AND Z_MSG_EXT_FLAG_Z = 0" "timeout_id AND Z_MSG_EXT_FLAG_Z = 0"
  "Z_EXT_ENC target_id = Z_MSG_EXT_ENC_ZINT" "Z_EXT_ENC budget_id = Z_MSG_EXT_ENC_ZINT" "Z_EXT_ENC timeout_id = Z_MSG_EXT_ENC_ZINT"
  "target_id \<noteq> 0x01 OR Z_MSG_EXT_ENC_ZINT" "target_id \<noteq> 0x02 OR Z_MSG_EXT_ENC_ZBUF"
  "budget_id \<noteq> 0x01 OR Z_MSG_EXT_ENC_ZINT" "budget_id \<noteq> 0x02 OR Z_MSG_EXT_ENC_ZBUF" "budget_id \<noteq> target_id"
  "timeout_id \<noteq> 0x01 OR Z_MSG_EXT_ENC_ZINT" "timeout_id \<noteq> 0x02 OR Z_MSG_EXT_ENC_ZBUF" "timeout_id \<noteq> target_id"
  "timeout_id \<noteq> budget_id"
  by (simp_all add: target_id_def budget_id_def timeout_id_def z_ext_consts)

lemma byte_not_above: "\<not> 0xff < (ucast (q :: u8) :: u64)"
proof -
  have "unat q < 2 ^ 8" using unsigned_less [of q, where 'a = nat] by simp
  then have "unat (ucast q :: u64) < 2 ^ 8" by (simp add: unsigned_ucast_eq take_bit_nat_eq_self)
  then show ?thesis by (simp add: word_less_nat_alt)
qed

lemma ext_id_comm:
  "0x01 OR Z_MSG_EXT_ENC_ZINT = Z_MSG_EXT_ENC_ZINT OR 0x01" "0x02 OR Z_MSG_EXT_ENC_ZBUF = Z_MSG_EXT_ENC_ZBUF OR 0x02"
  by (simp_all add: z_ext_consts)

lemma request_cb_qos:
  "z_request_decode_extensions (zint_ext (Z_MSG_EXT_ENC_ZINT OR 0x01) (ucast (q :: u8))) c = Ok () (c\<lparr>rq_ext_qos := q\<rparr>)"
  by (simp add: z_request_decode_extensions_def byte_not_above ext_id_comm)

lemma request_cb_ts: "ts_ok ts \<Longrightarrow> ts_valid ts \<Longrightarrow>
    z_request_decode_extensions (zbuf_ext (Z_MSG_EXT_ENC_ZBUF OR 0x02) (wire_timestamp ts)) c =
      Ok () (c\<lparr>rq_ext_timestamp := ts\<rparr>)"
  by (simp add: z_request_decode_extensions_def on_slice_ts bind_ok_def ext_id_comm)

lemma request_cb_target:
  assumes "t \<le> 2"
  shows "z_request_decode_extensions (zint_ext target_id (ucast t)) c = Ok () (c\<lparr>rq_ext_target := t\<rparr>)"
proof -
  have "t < 0x100" using assms by (simp add: word_le_nat_alt word_less_nat_alt)
  then have "ucast (ucast t :: u8) = t" using set_low_byte_0 [of t] by (simp add: set_low_byte_def)
  moreover have "ucast (ucast t :: u64) = (ucast t :: u8)" by (rule bit_word_eqI) (simp add: bit_simps)
  ultimately have "ucast (ucast (ucast t :: u64) :: u8) = t" by simp
  then show ?thesis using assms
    by (simp add: z_request_decode_extensions_def request_ids target_id_def [symmetric] Let_def not_less)
qed

lemma request_cb_budget: "z_request_decode_extensions (zint_ext budget_id (ucast b)) c = Ok () (c\<lparr>rq_ext_budget := b\<rparr>)"
  by (simp add: z_request_decode_extensions_def request_ids target_id_def [symmetric] budget_id_def [symmetric])

lemma request_cb_timeout: "z_request_decode_extensions (zint_ext timeout_id t) c = Ok () (c\<lparr>rq_ext_timeout_ms := t\<rparr>)"
  by (simp add: z_request_decode_extensions_def request_ids target_id_def [symmetric] budget_id_def [symmetric]
      timeout_id_def [symmetric])

lemma run_num:
  "(\<And>c. cb (zint_ext i v) c = Ok () (G c)) \<Longrightarrow> (v = 0 \<Longrightarrow> c = G c) \<Longrightarrow>
   run_callback cb (num_exts i v) c = Some (G c)"
  by (simp add: num_exts_def)

lemma request_exts_ok: "request_ok m \<Longrightarrow> list_all ext_wf (request_exts m)"
  using qos_ts_exts_ok [of "rq_ext_timestamp m" "rq_ext_qos m"]
  by (simp add: request_exts_def request_ok_def num_exts_def request_ids)

lemma request_exts_run:
  assumes "request_ok m" "rq_ext_qos c = Z_N_QOS_DEFAULT" "rq_ext_timestamp c = z_timestamp_null"
    "rq_ext_target c = 0" "rq_ext_budget c = 0" "rq_ext_timeout_ms c = 0"
  shows "run_callback z_request_decode_extensions (request_exts m) c =
    Some (c\<lparr>rq_ext_qos := rq_ext_qos m, rq_ext_timestamp := recv_ts (rq_ext_timestamp m),
      rq_ext_target := rq_ext_target m, rq_ext_budget := rq_ext_budget m, rq_ext_timeout_ms := rq_ext_timeout_ms m\<rparr>)"
proof -
  let ?c1 = "c\<lparr>rq_ext_qos := rq_ext_qos m\<rparr>" and ?cb = z_request_decode_extensions
  let ?c2 = "?c1\<lparr>rq_ext_timestamp := recv_ts (rq_ext_timestamp m)\<rparr>"
  let ?c3 = "?c2\<lparr>rq_ext_target := rq_ext_target m\<rparr>"
  let ?c4 = "?c3\<lparr>rq_ext_budget := rq_ext_budget m\<rparr>"
  have t: "rq_ext_target m \<le> 2" "opt_ts_ok (rq_ext_timestamp m)" using assms(1) by (auto simp: request_ok_def)
  have "run_callback ?cb (qos_exts (rq_ext_qos m)) c = Some ?c1"
    by (rule run_qos [where F = "\<lambda>q c. c\<lparr>rq_ext_qos := q\<rparr>"]) (use assms(2) in \<open>simp_all add: request_cb_qos\<close>)
  moreover have "run_callback ?cb (ts_exts (rq_ext_timestamp m)) ?c1 = Some ?c2"
    by (rule run_ts [where F = "\<lambda>t c. c\<lparr>rq_ext_timestamp := t\<rparr>", OF t(2)])
       (use assms(3) in \<open>simp_all add: request_cb_ts\<close>)
  moreover have "run_callback ?cb (num_exts target_id (ucast (rq_ext_target m))) ?c2 = Some ?c3"
    by (rule run_num [where G = "\<lambda>c. c\<lparr>rq_ext_target := rq_ext_target m\<rparr>"], rule request_cb_target [OF t(1)]) (use assms(4) in \<open>simp add: ucast_nz\<close>)
  moreover have "run_callback ?cb (num_exts budget_id (ucast (rq_ext_budget m))) ?c3 = Some ?c4"
    by (rule run_num [where G = "\<lambda>c. c\<lparr>rq_ext_budget := rq_ext_budget m\<rparr>"], rule request_cb_budget) (use assms(5) in \<open>simp add: ucast_nz\<close>)
  moreover have "run_callback ?cb (num_exts timeout_id (rq_ext_timeout_ms m)) ?c4 =
      Some (?c4\<lparr>rq_ext_timeout_ms := rq_ext_timeout_ms m\<rparr>)"
    by (rule run_num [where G = "\<lambda>c. c\<lparr>rq_ext_timeout_ms := rq_ext_timeout_ms m\<rparr>"], rule request_cb_timeout) (use assms(6) in simp)
  ultimately show ?thesis by (simp only: request_exts_def append_assoc run_append)
qed

lemma push_decode_kind: "z_push_body_decode (b\<lparr>pb_is_put := p\<rparr>) h = z_push_body_decode b h"
  by (simp add: z_push_body_decode_def)

lemma push_header_mid:
  "Z_MID (push_header \<lparr>pb_is_put = True, pb_put = p\<rparr>) = Z_MID_Z_PUT"
  "Z_MID (push_header \<lparr>pb_is_put = False, pb_put = p\<rparr>) = Z_MID_Z_DEL"
  by (simp_all add: push_header_facts)

lemma put_consumes:
  assumes "push_ok \<lparr>pb_is_put = True, pb_put = p\<rparr>" (is "push_ok ?b")
  shows "consumes (z_put_decode z_msg_put_null (push_header ?b)) (wire_push_tail ?b) (pb_put (recv_push ?b))"
proof -
  have "\<lparr>pb_is_put = True, pb_put = z_msg_put_null\<rparr> = z_push_body_null\<lparr>pb_is_put := True\<rparr>"
    by (simp add: z_push_body_null_def)
  then show ?thesis unfolding z_put_decode_def push_header_mid
    by (simp only: if_True simp_thms push_decode_kind) (rule consumes_last [OF push_body_consumes [OF assms] refl])
qed

lemma del_consumes:
  assumes "push_ok \<lparr>pb_is_put = False, pb_put = p\<rparr>" (is "push_ok ?b")
  shows "consumes (z_del_decode z_msg_del_null (push_header ?b)) (wire_push_tail ?b) (put_as_del (pb_put (recv_push ?b)))"
proof -
  have "\<lparr>pb_is_put = False, pb_put = del_as_put z_msg_del_null\<rparr> = z_push_body_null"
    by (simp add: z_push_body_null_def del_as_put_def z_msg_del_null_def z_msg_put_null_def)
  then show ?thesis unfolding z_del_decode_def push_header_mid
    by (simp only: if_True simp_thms) (rule consumes_last [OF push_body_consumes [OF assms] refl])
qed

lemma body_mids [simp]:
  "Z_MID_Z_PUT \<noteq> Z_MID_Z_QUERY" "Z_MID_Z_DEL \<noteq> Z_MID_Z_QUERY" "Z_MID_Z_ERR \<noteq> Z_MID_Z_REPLY"
  by (simp_all add: z_msg_consts)

lemma request_consumes:
  assumes ok: "request_ok m"
  shows "consumes (z_request_decode z_n_msg_request_null (net_header Z_MID_N_REQUEST (request_exts m \<noteq> []) (rq_key m)) mapping)
    (z_zint64_encode_buf (rq_rid m) @ wire_wireexpr (z_wireexpr_has_suffix (rq_key m)) (rq_key m) @
     wire_exts (request_exts m) @ wire_request_body (rq_body m))
    (recv_request mapping m)"
proof -
  have k: "key_ok (rq_key m)" and b: "request_body_ok (rq_body m)" using ok by (auto simp: request_ok_def)
  define m1 where "m1 = z_n_msg_request_null\<lparr>rq_ext_qos := Z_N_QOS_DEFAULT, rq_rid := rq_rid m,
     rq_key := recv_ke mapping (rq_key m)\<rparr>"
  let ?m = "m1\<lparr>rq_ext_qos := rq_ext_qos m, rq_ext_timestamp := recv_ts (rq_ext_timestamp m),
      rq_ext_target := rq_ext_target m, rq_ext_budget := rq_ext_budget m, rq_ext_timeout_ms := rq_ext_timeout_ms m\<rparr>"
  have body: "consumes (bind_ok z_uint8_decode (\<lambda>zheader.
        if Z_MID zheader = Z_MID_Z_QUERY
        then bind_ok (z_query_decode z_msg_query_null zheader) (\<lambda>q. ret (?m\<lparr>rq_body := Request_Query q\<rparr>))
        else if Z_MID zheader = Z_MID_Z_PUT
        then bind_ok (z_put_decode z_msg_put_null zheader) (\<lambda>p. ret (?m\<lparr>rq_body := Request_Put p\<rparr>))
        else if Z_MID zheader = Z_MID_Z_DEL
        then bind_ok (z_del_decode z_msg_del_null zheader) (\<lambda>d. ret (?m\<lparr>rq_body := Request_Del d\<rparr>))
        else fail Z_ERR_MESSAGE_DESERIALIZATION_FAILED)) (wire_request_body (rq_body m)) (recv_request mapping m)"
  proof (cases "rq_body m")
    case (Request_Query q)
    have q: "query_ok q" using b Request_Query by (simp add: request_body_ok_def)
    show ?thesis unfolding Request_Query wire_request_body_def z_request_body_t.case wire_query_def
      apply (rule headed_consumes)
      apply (simp only: query_header_facts if_True simp_thms)
      apply (rule consumes_last [OF query_consumes [OF q]])
      using Request_Query by (cases m) (simp add: recv_request_def m1_def z_n_msg_request_null_def recv_request_body_def)
  next
    case (Request_Put p)
    have q: "push_ok \<lparr>pb_is_put = True, pb_put = p\<rparr>" using b Request_Put by (simp add: request_body_ok_def)
    show ?thesis unfolding Request_Put wire_request_body_def z_request_body_t.case wire_push_body_def
      apply (rule headed_consumes)
      apply (simp only: push_header_mid if_True if_False simp_thms body_mids)
      apply (rule consumes_last [OF put_consumes [OF q]])
      using Request_Put by (cases m) (simp add: recv_request_def m1_def z_n_msg_request_null_def recv_request_body_def)
  next
    case (Request_Del d)
    have q: "push_ok \<lparr>pb_is_put = False, pb_put = del_as_put d\<rparr>" using b Request_Del by (simp add: request_body_ok_def)
    show ?thesis unfolding Request_Del wire_request_body_def z_request_body_t.case wire_push_body_def
      apply (rule headed_consumes)
      apply (simp only: push_header_mid if_True if_False simp_thms body_mids put_del_distinct)
      apply (rule consumes_last [OF del_consumes [OF q]])
      using Request_Del by (cases m) (simp add: recv_request_def m1_def z_n_msg_request_null_def recv_request_body_def)
  qed
  have m1: "z_n_msg_request_null\<lparr>rq_ext_qos := Z_N_QOS_DEFAULT, rq_rid := rq_rid m, rq_key := recv_ke mapping (rq_key m)\<rparr> = m1"
    by (simp add: m1_def)
  have run: "run_callback z_request_decode_extensions (request_exts m) m1 = Some ?m"
    by (rule request_exts_run [OF ok]) (simp_all add: m1_def z_n_msg_request_null_def)
  show ?thesis unfolding z_request_decode_def Let_def net_header_facts [OF net_mids(2)]
    apply (rule consumes_bind [OF zsize_consumes])
    apply (rule consumes_bind [OF key_consumes [OF k]])
    apply (rule consumes_bind)
     apply (simp only: m1)
     apply (rule opt_exts_consumes [OF refl request_exts_ok [OF ok] run])
    apply (rule body)
    done
qed


section \<open>Response: round trip\<close>

definition has_responder :: "z_n_msg_response_t \<Rightarrow> bool" where
  "has_responder m \<longleftrightarrow> z_id_check (rs_zid m) \<or> rs_eid m \<noteq> 0"

definition wire_responder :: "z_n_msg_response_t \<Rightarrow> byte list" where
  "wire_responder m = si_len_byte (rs_zid m) # take (z_id_len (rs_zid m)) (rs_zid m) @ z_zint64_encode_buf (ucast (rs_eid m))"

definition responder_exts :: "z_n_msg_response_t \<Rightarrow> z_msg_ext_t list" where
  "responder_exts m = (if has_responder m then [zbuf_ext (Z_MSG_EXT_ENC_ZBUF OR 0x03) (wire_responder m)] else [])"

definition response_exts :: "z_n_msg_response_t \<Rightarrow> z_msg_ext_t list" where
  "response_exts m = (qos_exts (rs_ext_qos m) @ ts_exts (rs_ext_timestamp m)) @ responder_exts m"

definition wire_response_body :: "z_response_body_t \<Rightarrow> byte list" where
  "wire_response_body b = (case b of Response_Reply r \<Rightarrow> wire_reply r | Response_Err e \<Rightarrow> wire_err e)"

definition response_body_ok :: "z_response_body_t \<Rightarrow> bool" where
  "response_body_ok b = (case b of Response_Reply r \<Rightarrow> reply_ok r | Response_Err e \<Rightarrow> err_ok e)"

definition recv_response_body :: "z_response_body_t \<Rightarrow> z_response_body_t" where
  "recv_response_body b = (case b of Response_Reply r \<Rightarrow> Response_Reply (recv_reply r) | Response_Err e \<Rightarrow> Response_Err (recv_err e))"

definition wire_response :: "z_n_msg_response_t \<Rightarrow> byte list" where
  "wire_response m = net_header Z_MID_N_RESPONSE (response_exts m \<noteq> []) (rs_key m) # z_zint64_encode_buf (rs_request_id m) @
     wire_wireexpr (z_wireexpr_has_suffix (rs_key m)) (rs_key m) @ wire_exts (response_exts m) @ wire_response_body (rs_body m)"

definition response_ok :: "z_n_msg_response_t \<Rightarrow> bool" where
  "response_ok m \<longleftrightarrow> key_ok (rs_key m) \<and> opt_ts_ok (rs_ext_timestamp m) \<and>
     (has_responder m \<longrightarrow> id_wf (rs_zid m) \<and> z_id_check (rs_zid m)) \<and> response_body_ok (rs_body m)"

definition recv_response :: "keyexpr_mapping \<Rightarrow> z_n_msg_response_t \<Rightarrow> z_n_msg_response_t" where
  "recv_response mapping m = m\<lparr>rs_key := recv_ke mapping (rs_key m), rs_ext_timestamp := recv_ts (rs_ext_timestamp m),
     rs_body := recv_response_body (rs_body m)\<rparr>"

lemma wire_responder_length:
  "id_wf (rs_zid m) \<Longrightarrow> length (wire_responder m) = z_id_len (rs_zid m) + 1 + unat (z_zint_len (ucast (rs_eid m)))"
  using z_id_len_le [of "rs_zid m"] by (simp add: wire_responder_def zint_len_buf id_wf_def ZENOH_ID_SIZE_def)

lemma appends_responder:
  assumes "id_wf (rs_zid m)"
  shows "appends (then_do (z_zsize_encode (of_nat (z_id_len (rs_zid m) + 1 + unat (z_zint_len (ucast (rs_eid m))))))
            (then_do (z_uint8_encode (si_len_byte (rs_zid m)))
            (then_do (z_wbuf_write_bytes (rs_zid m) 0 (z_id_len (rs_zid m)))
              (z_zsize_encode (ucast (rs_eid m)))))) (wire_slice (wire_responder m))"
proof -
  have l: "0 + z_id_len (rs_zid m) \<le> length (rs_zid m)"
    using assms z_id_len_le [of "rs_zid m"] by (simp add: id_wf_def ZENOH_ID_SIZE_def)
  show ?thesis unfolding wire_responder_length [OF assms, symmetric]
    apply (rule appends_cong)
     apply (rule appends_then appends_uint8 appends_zsize_len appends_write_bytes [OF l] appends_zsize)+
    apply (simp add: wire_slice_def wire_responder_def)
    done
qed

lemma appends_response_body: "response_body_ok b \<Longrightarrow>
    appends (case b of Response_Reply r \<Rightarrow> z_reply_encode r | Response_Err e \<Rightarrow> z_err_encode e) (wire_response_body b)"
  by (cases b) (simp_all add: response_body_ok_def wire_response_body_def appends_reply appends_err_msg)

lemma appends_response [appends_intros]:
  assumes "response_ok m"
  shows "appends (z_response_encode m) (wire_response m)"
proof -
  have ok: "ts_valid (rs_ext_timestamp m) \<Longrightarrow> ts_ok (rs_ext_timestamp m)" "response_body_ok (rs_body m)"
    "has_responder m \<Longrightarrow> id_wf (rs_zid m)"
    using assms by (auto simp: response_ok_def opt_ts_ok_def)
  show ?thesis unfolding z_response_encode_def has_responder_def [symmetric] Let_def more_flag_counts3 count3_nz z_timestamp_check_def
    apply (rule appends_cong)
     apply (rule appends_responder appends_then appends_when appends_uint8 appends_zsize appends_string appends_timestamp_ext
        appends_response_body ok | assumption)+
    apply (simp only: wire_response_def net_header_def response_exts_def append_assoc wire_wireexpr_def)
    apply (simp add: qos_ts_wire responder_exts_def
       Z_MSG_EXT_MORE_def Z_FLAG_N_Z_def Z_FLAG_Z_Z_def Z_MSG_EXT_FLAG_Z_def or.assoc z_net_flags cong: if_cong)
    done
qed

lemma read_exact_consumes: "n = length bs \<Longrightarrow> consumes (z_zbuf_read_exact n) bs bs"
  using zbuf_len_bytes zbuf_read_bytes_consumes [of n bs] by (fastforce simp: consumes_def z_zbuf_read_exact_def)

lemma responder_consumes:
  assumes wf: "id_wf (rs_zid m)" and ch: "z_id_check (rs_zid m)"
  shows "consumes (z_responder_read z_id_empty) (wire_responder m) (rs_zid m, rs_eid m)"
proof -
  let ?i = "rs_zid m" let ?n = "z_id_len ?i"
  have n: "0 < ?n" "?n \<le> 16" "?n = length (take ?n ?i)"
    using wf ch z_id_len_0_iff [of ?i] z_id_len_le [of ?i] by (auto simp: id_wf_def ZENOH_ID_SIZE_def)
  have hi: "unat (drop_bit 4 (si_len_byte ?i) + 1) = ?n"
    using si_len_byte_high [OF n(1,2)] by (simp add: si_len_byte_def)
  have pad: "take ?n ?i @ drop ?n z_id_empty = ?i" using id_len_pad [OF wf] by (simp add: z_id_empty_def)
  show ?thesis unfolding z_responder_read_def wire_responder_def
    apply (rule headed_consumes)
    apply (simp only: Let_def hi)
    apply (rule consumes_bind [OF read_exact_consumes [OF n(3)]])
    apply (rule consumes_last [OF zint32_consumes])
    apply (simp only: pad)
    done
qed

lemma response_cb_qos:
  "z_response_decode_extension (zint_ext (Z_MSG_EXT_ENC_ZINT OR 0x01) (ucast (q :: u8))) c = Ok () (c\<lparr>rs_ext_qos := q\<rparr>)"
  by (simp add: z_response_decode_extension_def)

lemma response_cb_ts: "ts_ok ts \<Longrightarrow> ts_valid ts \<Longrightarrow>
    z_response_decode_extension (zbuf_ext (Z_MSG_EXT_ENC_ZBUF OR 0x02) (wire_timestamp ts)) c =
      Ok () (c\<lparr>rs_ext_timestamp := ts\<rparr>)"
  by (simp add: z_response_decode_extension_def on_slice_ts bind_ok_def)

lemma response_cb_responder: "id_wf (rs_zid m) \<Longrightarrow> z_id_check (rs_zid m) \<Longrightarrow> rs_zid c = z_id_empty \<Longrightarrow>
    z_response_decode_extension (zbuf_ext (Z_MSG_EXT_ENC_ZBUF OR 0x03) (wire_responder m)) c =
      Ok () (c\<lparr>rs_zid := rs_zid m, rs_eid := rs_eid m\<rparr>)"
  by (simp add: z_response_decode_extension_def on_slice_consumes [OF responder_consumes] bind_ok_def)

lemma response_exts_ok: "response_ok m \<Longrightarrow> list_all ext_wf (response_exts m)"
  using qos_ts_exts_ok [of "rs_ext_timestamp m" "rs_ext_qos m"] wire_responder_length [of m]
    z_id_len_le [of "rs_zid m"] zint_buf_length [of "ucast (rs_eid m)"]
  by (auto simp: response_exts_def response_ok_def responder_exts_def zint_len_buf VLE_LEN_def)

lemma response_exts_run:
  assumes "response_ok m" "rs_ext_qos c = Z_N_QOS_DEFAULT" "rs_ext_timestamp c = z_timestamp_null"
    "rs_zid c = z_id_empty" "rs_eid c = 0"
  shows "run_callback z_response_decode_extension (response_exts m) c =
    Some (c\<lparr>rs_ext_qos := rs_ext_qos m, rs_ext_timestamp := recv_ts (rs_ext_timestamp m),
      rs_zid := rs_zid m, rs_eid := rs_eid m\<rparr>)"
proof -
  let ?c1 = "c\<lparr>rs_ext_qos := rs_ext_qos m\<rparr>" and ?cb = z_response_decode_extension
  let ?c2 = "?c1\<lparr>rs_ext_timestamp := recv_ts (rs_ext_timestamp m)\<rparr>"
  have t: "opt_ts_ok (rs_ext_timestamp m)" using assms(1) by (auto simp: response_ok_def)
  have "run_callback ?cb (qos_exts (rs_ext_qos m)) c = Some ?c1"
    by (rule run_qos [where F = "\<lambda>q c. c\<lparr>rs_ext_qos := q\<rparr>"]) (use assms(2) in \<open>simp_all add: response_cb_qos\<close>)
  moreover have "run_callback ?cb (ts_exts (rs_ext_timestamp m)) ?c1 = Some ?c2"
    by (rule run_ts [where F = "\<lambda>t c. c\<lparr>rs_ext_timestamp := t\<rparr>", OF t])
       (use assms(3) in \<open>simp_all add: response_cb_ts\<close>)
  moreover have "run_callback ?cb (responder_exts m) ?c2 = Some (?c2\<lparr>rs_zid := rs_zid m, rs_eid := rs_eid m\<rparr>)"
    using assms(1,4,5)
    by (cases "has_responder m") (simp_all add: responder_exts_def response_ok_def response_cb_responder, simp add: has_responder_def z_id_check_def)
  ultimately show ?thesis by (simp only: response_exts_def append_assoc run_append)
qed

lemma response_consumes:
  assumes ok: "response_ok m"
  shows "consumes (z_response_decode z_n_msg_response_null (net_header Z_MID_N_RESPONSE (response_exts m \<noteq> []) (rs_key m)) mapping)
    (z_zint64_encode_buf (rs_request_id m) @ wire_wireexpr (z_wireexpr_has_suffix (rs_key m)) (rs_key m) @
     wire_exts (response_exts m) @ wire_response_body (rs_body m))
    (recv_response mapping m)"
proof -
  have k: "key_ok (rs_key m)" and b: "response_body_ok (rs_body m)" using ok by (auto simp: response_ok_def)
  define m1 where "m1 = z_n_msg_response_null\<lparr>rs_ext_qos := Z_N_QOS_DEFAULT, rs_request_id := rs_request_id m,
     rs_key := recv_ke mapping (rs_key m)\<rparr>"
  let ?m = "m1\<lparr>rs_ext_qos := rs_ext_qos m, rs_ext_timestamp := recv_ts (rs_ext_timestamp m),
      rs_zid := rs_zid m, rs_eid := rs_eid m\<rparr>"
  have body: "consumes (bind_ok z_uint8_decode (\<lambda>inner_header.
        if Z_MID inner_header = Z_MID_Z_REPLY
        then bind_ok (z_reply_decode z_msg_reply_null inner_header) (\<lambda>r. ret (?m\<lparr>rs_body := Response_Reply r\<rparr>))
        else if Z_MID inner_header = Z_MID_Z_ERR
        then bind_ok (z_err_decode z_msg_err_null inner_header) (\<lambda>e. ret (?m\<lparr>rs_body := Response_Err e\<rparr>))
        else fail Z_ERR_MESSAGE_DESERIALIZATION_FAILED)) (wire_response_body (rs_body m)) (recv_response mapping m)"
  proof (cases "rs_body m")
    case (Response_Reply r)
    have q: "reply_ok r" using b Response_Reply by (simp add: response_body_ok_def)
    show ?thesis unfolding Response_Reply wire_response_body_def z_response_body_t.case wire_reply_def
      apply (rule headed_consumes)
      apply (simp only: reply_header_facts if_True simp_thms)
      apply (rule consumes_last [OF reply_consumes [OF q]])
      using Response_Reply by (cases m) (simp add: recv_response_def m1_def z_n_msg_response_null_def recv_response_body_def)
  next
    case (Response_Err e)
    have q: "err_ok e" using b Response_Err by (simp add: response_body_ok_def)
    show ?thesis unfolding Response_Err wire_response_body_def z_response_body_t.case wire_err_def
      apply (rule headed_consumes)
      apply (simp only: err_header_facts if_True if_False simp_thms body_mids)
      apply (rule consumes_last [OF err_consumes [OF q]])
      using Response_Err by (cases m) (simp add: recv_response_def m1_def z_n_msg_response_null_def recv_response_body_def)
  qed
  have m1: "z_n_msg_response_null\<lparr>rs_ext_qos := Z_N_QOS_DEFAULT, rs_request_id := rs_request_id m,
     rs_key := recv_ke mapping (rs_key m)\<rparr> = m1"
    by (simp add: m1_def)
  have run: "run_callback z_response_decode_extension (response_exts m) m1 = Some ?m"
    by (rule response_exts_run [OF ok]) (simp_all add: m1_def z_n_msg_response_null_def)
  show ?thesis unfolding z_response_decode_def Let_def net_header_facts [OF net_mids(3)]
    apply (rule consumes_bind [OF zsize_consumes])
    apply (rule consumes_bind [OF key_consumes [OF k]])
    apply (rule consumes_bind)
     apply (simp only: m1)
     apply (rule opt_exts_consumes [OF refl response_exts_ok [OF ok] run])
    apply (rule body)
    done
qed


section \<open>Declare, interest, OAM and final response: round trips\<close>

definition declare_exts :: "z_n_msg_declare_t \<Rightarrow> z_msg_ext_t list" where
  "declare_exts m = qos_exts (de_ext_qos m) @ ts_exts (de_ext_timestamp m)"

definition declare_header :: "z_n_msg_declare_t \<Rightarrow> u8" where
  "declare_header m = Z_MID_N_DECLARE OR (if declare_exts m \<noteq> [] then Z_FLAG_N_Z else 0) OR
     (if oid_has_value (de_interest_id m) then Z_FLAG_N_DECLARE_I else 0)"

definition wire_declare :: "z_n_msg_declare_t \<Rightarrow> byte list" where
  "wire_declare m = declare_header m #
     (if oid_has_value (de_interest_id m) then z_zint64_encode_buf (ucast (oid_value (de_interest_id m))) else []) @
     wire_exts (declare_exts m) @ wire_declaration (de_decl m)"

definition declare_ok :: "z_n_msg_declare_t \<Rightarrow> bool" where
  "declare_ok m \<longleftrightarrow> opt_ts_ok (de_ext_timestamp m) \<and> declaration_ok (de_decl m)"

definition recv_declare :: "keyexpr_mapping \<Rightarrow> z_n_msg_declare_t \<Rightarrow> z_n_msg_declare_t" where
  "recv_declare mapping m = m\<lparr>de_decl := recv_declaration mapping (de_decl m), de_ext_timestamp := recv_ts (de_ext_timestamp m),
     de_interest_id := (if oid_has_value (de_interest_id m) then de_interest_id m else z_optional_id_make_none)\<rparr>"

lemma declare_header_facts:
  "Z_MID (declare_header m) = Z_MID_N_DECLARE"
  "Z_HAS_FLAG (declare_header m) Z_FLAG_N_DECLARE_I \<longleftrightarrow> oid_has_value (de_interest_id m)"
  "Z_HAS_FLAG (declare_header m) Z_FLAG_N_Z \<longleftrightarrow> declare_exts m \<noteq> []"
  by (simp_all add: declare_header_def z_net_mids z_net_flags Z_MID_def Z_MID_MASK_def Z_HAS_FLAG_def)

lemma appends_declare [appends_intros]:
  assumes "declare_ok m"
  shows "appends (z_declare_encode m) (wire_declare m)"
proof -
  have ok: "ts_valid (de_ext_timestamp m) \<Longrightarrow> ts_ok (de_ext_timestamp m)" "declaration_ok (de_decl m)"
    using assms by (auto simp: declare_ok_def opt_ts_ok_def)
  show ?thesis unfolding z_declare_encode_def Let_def more_flag_counts count2_nz z_timestamp_check_def
    apply (rule appends_cong)
     apply (rule appends_then appends_when appends_uint8 appends_zsize appends_timestamp_ext appends_declaration ok | assumption)+
    apply (simp add: wire_declare_def declare_header_def declare_exts_def qos_ts_wire qos_ts_wire(2) [of _ "[]", simplified]
       ext_id_comm or.assoc [symmetric] Z_MSG_EXT_MORE_def Z_FLAG_Z_Z_def Z_MSG_EXT_FLAG_Z_def)
    done
qed

lemma declare_cb_qos:
  "z_declare_decode_extensions (zint_ext (Z_MSG_EXT_ENC_ZINT OR 0x01) (ucast (q :: u8))) c = Ok () (c\<lparr>de_ext_qos := q\<rparr>)"
  by (simp add: z_declare_decode_extensions_def)

lemma declare_cb_ts: "ts_ok ts \<Longrightarrow> ts_valid ts \<Longrightarrow>
    z_declare_decode_extensions (zbuf_ext (Z_MSG_EXT_ENC_ZBUF OR 0x02) (wire_timestamp ts)) c =
      Ok () (c\<lparr>de_ext_timestamp := ts\<rparr>)"
  by (simp add: z_declare_decode_extensions_def on_slice_ts bind_ok_def)

lemma declare_exts_run:
  assumes "declare_ok m" "de_ext_qos c = Z_N_QOS_DEFAULT" "de_ext_timestamp c = z_timestamp_null"
  shows "run_callback z_declare_decode_extensions (declare_exts m) c =
    Some (c\<lparr>de_ext_qos := de_ext_qos m, de_ext_timestamp := recv_ts (de_ext_timestamp m)\<rparr>)"
proof -
  let ?c1 = "c\<lparr>de_ext_qos := de_ext_qos m\<rparr>" and ?cb = z_declare_decode_extensions
  have t: "opt_ts_ok (de_ext_timestamp m)" using assms(1) by (simp add: declare_ok_def)
  have "run_callback ?cb (qos_exts (de_ext_qos m)) c = Some ?c1"
    by (rule run_qos [where F = "\<lambda>q c. c\<lparr>de_ext_qos := q\<rparr>"]) (use assms(2) in \<open>simp_all add: declare_cb_qos\<close>)
  moreover have "run_callback ?cb (ts_exts (de_ext_timestamp m)) ?c1 = Some (?c1\<lparr>de_ext_timestamp := recv_ts (de_ext_timestamp m)\<rparr>)"
    by (rule run_ts [where F = "\<lambda>t c. c\<lparr>de_ext_timestamp := t\<rparr>", OF t]) (use assms(3) in \<open>simp_all add: declare_cb_ts\<close>)
  ultimately show ?thesis by (simp only: declare_exts_def run_append)
qed

lemma declare_consumes:
  assumes ok: "declare_ok m"
  shows "consumes (z_declare_decode z_n_msg_declare_null (declare_header m) mapping)
    ((if oid_has_value (de_interest_id m) then z_zint64_encode_buf (ucast (oid_value (de_interest_id m))) else []) @
     wire_exts (declare_exts m) @ wire_declaration (de_decl m)) (recv_declare mapping m)"
proof -
  have d: "declaration_ok (de_decl m)" and x: "list_all ext_wf (declare_exts m)"
    using ok qos_ts_exts_ok by (auto simp: declare_ok_def declare_exts_def)
  let ?m0 = "z_n_msg_declare_null\<lparr>de_ext_qos := Z_N_QOS_DEFAULT\<rparr>"
  let ?m1 = "?m0\<lparr>de_interest_id := (if oid_has_value (de_interest_id m) then de_interest_id m else z_optional_id_make_none)\<rparr>"
  have i: "consumes (if oid_has_value (de_interest_id m)
               then bind_ok z_zint32_decode (\<lambda>v. ret (?m0\<lparr>de_interest_id := \<lparr>oid_value = v, oid_has_value = True\<rparr>\<rparr>))
               else ret ?m0)
      (if oid_has_value (de_interest_id m) then z_zint64_encode_buf (ucast (oid_value (de_interest_id m))) else []) ?m1"
    apply (rule consumes_opt)
     apply (rule consumes_last [OF zint32_consumes])
    by (cases "de_interest_id m"; simp add: z_n_msg_declare_null_def)+
  show ?thesis unfolding z_declare_decode_def Let_def declare_header_facts
    apply (rule consumes_bind [OF i])
    apply (rule consumes_bind)
     apply (rule opt_exts_consumes [OF refl x])
     apply (rule declare_exts_run [OF ok])
      apply (simp_all only: z_n_msg_declare_null_def z_n_msg_declare_t.simps)
    apply (rule consumes_last)
     apply (rule declaration_consumes [OF d])
    by (cases m) (simp add: recv_declare_def)
qed

definition n_interest_header :: "z_interest_t \<Rightarrow> u8" where
  "n_interest_header i = Z_MID_N_INTEREST OR
     (if Z_HAS_FLAG (in_flags i) Z_INTEREST_FLAG_CURRENT then Z_FLAG_N_INTEREST_CURRENT else 0) OR
     (if Z_HAS_FLAG (in_flags i) Z_INTEREST_FLAG_FUTURE then Z_FLAG_N_INTEREST_FUTURE else 0)"

lemma n_interest_header_facts:
  "Z_MID (n_interest_header i) = Z_MID_N_INTEREST"
  "Z_HAS_FLAG (n_interest_header i) Z_FLAG_N_INTEREST_CURRENT \<longleftrightarrow> Z_HAS_FLAG (in_flags i) Z_INTEREST_FLAG_CURRENT"
  "Z_HAS_FLAG (n_interest_header i) Z_FLAG_N_INTEREST_FUTURE \<longleftrightarrow> Z_HAS_FLAG (in_flags i) Z_INTEREST_FLAG_FUTURE"
  "Z_HAS_FLAG (n_interest_header i) Z_FLAG_Z_Z \<longleftrightarrow> False"
  by (simp_all add: n_interest_header_def z_net_mids z_net_flags Z_MID_def Z_MID_MASK_def
      Z_HAS_FLAG_def [of "_ OR _"] Z_HAS_FLAG_def [of "0x19"] Z_FLAG_Z_Z_def)

definition wire_n_interest :: "z_interest_t \<Rightarrow> byte list" where
  "wire_n_interest i = n_interest_header i # wire_interest i (interest_final i)"

lemma appends_n_interest [appends_intros]: "appends (z_n_interest_encode m) (wire_n_interest (ni_interest m))"
  unfolding z_n_interest_encode_def Let_def interest_final_def [symmetric]
  apply (rule appends_cong)
   apply (rule appends_then appends_uint8 appends_interest)+
  apply (simp add: wire_n_interest_def n_interest_header_def or.assoc)
  done

lemma n_interest_consumes:
  assumes "interest_ok i"
  shows "consumes (z_n_interest_decode (n_interest_header i) mapping) (wire_interest i (interest_final i))
    \<lparr>ni_interest = recv_interest mapping i\<rparr>"
proof -
  let ?c = "Z_HAS_FLAG (in_flags i) Z_INTEREST_FLAG_CURRENT" and ?f = "Z_HAS_FLAG (in_flags i) Z_INTEREST_FLAG_FUTURE"
  define f0 where "f0 = in_flags i AND (Z_INTEREST_FLAG_CURRENT OR Z_INTEREST_FLAG_FUTURE)"
  have one: "(x AND b) = (if Z_HAS_FLAG x b then b else 0)" if b: "b = 2 ^ n" for x b :: u8 and n
  proof -
    have "x AND 2 ^ n = (if bit x n then 2 ^ n else 0)" by (rule bit_word_eqI) (auto simp: bit_simps)
    then show ?thesis unfolding b Z_HAS_FLAG_def by (auto split: if_splits)
  qed
  have p: "Z_INTEREST_FLAG_CURRENT = 2 ^ 5" "Z_INTEREST_FLAG_FUTURE = 2 ^ 6" by (simp_all add: z_interest_consts)
  have f: "f0 = (if ?c then Z_INTEREST_FLAG_CURRENT else 0) OR (if ?f then Z_INTEREST_FLAG_FUTURE else 0)"
    unfolding f0_def bit.conj_disj_distrib one [OF p(1)] one [OF p(2)] by (rule refl)
  have s: "(if ?f then (if ?c then z_interest_null\<lparr>in_flags := in_flags z_interest_null OR Z_INTEREST_FLAG_CURRENT\<rparr> else z_interest_null)
       \<lparr>in_flags := in_flags (if ?c then z_interest_null\<lparr>in_flags := in_flags z_interest_null OR Z_INTEREST_FLAG_CURRENT\<rparr> else z_interest_null) OR Z_INTEREST_FLAG_FUTURE\<rparr>
     else (if ?c then z_interest_null\<lparr>in_flags := in_flags z_interest_null OR Z_INTEREST_FLAG_CURRENT\<rparr> else z_interest_null))
     = z_interest_null\<lparr>in_flags := f0\<rparr>"
    by (simp add: f z_interest_null_def)
  show ?thesis unfolding z_n_interest_decode_def Let_def n_interest_header_facts interest_final_def [symmetric]
    apply (simp only: s)
    apply (rule consumes_last [OF interest_consumes [OF assms refl f0_def]])
    by (rule refl)
qed

definition oam_exts :: "z_n_msg_oam_t \<Rightarrow> z_msg_ext_t list" where
  "oam_exts m = qos_exts (oa_ext_qos m) @ ts_exts (oa_ext_timestamp m)"

definition oam_enc_bits :: "z_oam_enc \<Rightarrow> u8" where
  "oam_enc_bits e = (case e of OAM_BODY_UNIT \<Rightarrow> Z_MSG_EXT_ENC_UNIT | OAM_BODY_ZINT \<Rightarrow> Z_MSG_EXT_ENC_ZINT
     | OAM_BODY_ZBUF \<Rightarrow> Z_MSG_EXT_ENC_ZBUF)"

definition oam_header :: "z_n_msg_oam_t \<Rightarrow> u8" where
  "oam_header m = Z_MID_N_OAM OR (if oam_exts m \<noteq> [] then Z_FLAG_N_Z else 0) OR oam_enc_bits (oa_enc m)"

definition wire_oam_body :: "z_msg_ext_body_t \<Rightarrow> byte list" where
  "wire_oam_body b = (case b of Ext_Unit \<Rightarrow> [] | Ext_Zint v \<Rightarrow> z_zint64_encode_buf v | Ext_Zbuf s \<Rightarrow> wire_slice s)"

definition wire_oam :: "z_n_msg_oam_t \<Rightarrow> byte list" where
  "wire_oam m = oam_header m # z_zint64_encode_buf (ucast (oa_id m)) @ wire_exts (oam_exts m) @ wire_oam_body (oa_body m)"

definition oam_ok :: "z_n_msg_oam_t \<Rightarrow> bool" where
  "oam_ok m \<longleftrightarrow> opt_ts_ok (oa_ext_timestamp m) \<and> oa_ext_qos m < 0x80 \<and>
     (case oa_body m of Ext_Unit \<Rightarrow> oa_enc m = OAM_BODY_UNIT | Ext_Zint v \<Rightarrow> oa_enc m = OAM_BODY_ZINT
      | Ext_Zbuf s \<Rightarrow> oa_enc m = OAM_BODY_ZBUF \<and> length s < 2 ^ 64)"

definition recv_oam :: "z_n_msg_oam_t \<Rightarrow> z_n_msg_oam_t" where
  "recv_oam m = m\<lparr>oa_ext_timestamp := recv_ts (oa_ext_timestamp m)\<rparr>"

lemma oam_header_facts:
  "Z_MID (oam_header m) = Z_MID_N_OAM"
  "Z_HAS_FLAG (oam_header m) Z_FLAG_N_Z \<longleftrightarrow> oam_exts m \<noteq> []"
  "Z_EXT_ENC (oam_header m) = oam_enc_bits (oa_enc m)"
  by (cases "oa_enc m"; simp add: oam_header_def oam_enc_bits_def z_net_mids z_net_flags Z_MID_def Z_MID_MASK_def
      Z_HAS_FLAG_def z_ext_consts)+

lemma appends_oam [appends_intros]:
  assumes "oam_ok m"
  shows "appends (z_oam_encode m) (wire_oam m)"
proof -
  have ok: "ts_valid (oa_ext_timestamp m) \<Longrightarrow> ts_ok (oa_ext_timestamp m)" and q: "oa_ext_qos m < 0x80"
    using assms by (auto simp: oam_ok_def opt_ts_ok_def)
  have body: "appends (case oa_enc m of
           OAM_BODY_UNIT \<Rightarrow> ret ()
         | OAM_BODY_ZINT \<Rightarrow> (case oa_body m of Ext_Zint v \<Rightarrow> z_zint64_encode v | _ \<Rightarrow> fault)
         | OAM_BODY_ZBUF \<Rightarrow> (case oa_body m of Ext_Zbuf s \<Rightarrow> z_slice_encode s | _ \<Rightarrow> fault)) (wire_oam_body (oa_body m))"
    using assms by (cases "oa_body m") (auto simp: oam_ok_def wire_oam_body_def intro: appends_intros)
  show ?thesis unfolding z_oam_encode_def Let_def more_flag_counts count2_nz z_timestamp_check_def
    apply (rule appends_cong)
     apply (rule body appends_then appends_when appends_uint8 appends_zint16 appends_timestamp_ext ok | assumption)+
    apply (simp add: wire_oam_def oam_header_def oam_exts_def qos_ts_wire qos_ts_wire(2) [of _ "[]", simplified] small_zint [OF q]
       oam_enc_bits_def ext_id_comm or.assoc [symmetric] Z_MSG_EXT_MORE_def Z_FLAG_Z_Z_def Z_MSG_EXT_FLAG_Z_def)
    done
qed

lemma oam_cb_qos:
  "z_oam_decode_extensions (zint_ext (Z_MSG_EXT_ENC_ZINT OR 0x01) (ucast (q :: u8))) c = Ok () (c\<lparr>oa_ext_qos := q\<rparr>)"
  by (simp add: z_oam_decode_extensions_def)

lemma oam_cb_ts: "ts_ok ts \<Longrightarrow> ts_valid ts \<Longrightarrow>
    z_oam_decode_extensions (zbuf_ext (Z_MSG_EXT_ENC_ZBUF OR 0x02) (wire_timestamp ts)) c =
      Ok () (c\<lparr>oa_ext_timestamp := ts\<rparr>)"
  by (simp add: z_oam_decode_extensions_def on_slice_ts bind_ok_def)

lemma oam_exts_run:
  assumes "oam_ok m" "oa_ext_qos c = Z_N_QOS_DEFAULT" "oa_ext_timestamp c = z_timestamp_null"
  shows "run_callback z_oam_decode_extensions (oam_exts m) c =
    Some (c\<lparr>oa_ext_qos := oa_ext_qos m, oa_ext_timestamp := recv_ts (oa_ext_timestamp m)\<rparr>)"
proof -
  let ?c1 = "c\<lparr>oa_ext_qos := oa_ext_qos m\<rparr>" and ?cb = z_oam_decode_extensions
  have t: "opt_ts_ok (oa_ext_timestamp m)" using assms(1) by (simp add: oam_ok_def)
  have "run_callback ?cb (qos_exts (oa_ext_qos m)) c = Some ?c1"
    by (rule run_qos [where F = "\<lambda>q c. c\<lparr>oa_ext_qos := q\<rparr>"]) (use assms(2) in \<open>simp_all add: oam_cb_qos\<close>)
  moreover have "run_callback ?cb (ts_exts (oa_ext_timestamp m)) ?c1 = Some (?c1\<lparr>oa_ext_timestamp := recv_ts (oa_ext_timestamp m)\<rparr>)"
    by (rule run_ts [where F = "\<lambda>t c. c\<lparr>oa_ext_timestamp := t\<rparr>", OF t]) (use assms(3) in \<open>simp_all add: oam_cb_ts\<close>)
  ultimately show ?thesis by (simp only: oam_exts_def run_append)
qed

lemma oam_bits_distinct [simp]:
  "Z_MSG_EXT_ENC_ZINT \<noteq> Z_MSG_EXT_ENC_UNIT" "Z_MSG_EXT_ENC_ZBUF \<noteq> Z_MSG_EXT_ENC_UNIT" "Z_MSG_EXT_ENC_ZBUF \<noteq> Z_MSG_EXT_ENC_ZINT"
  by (simp_all add: z_ext_consts)

lemma oam_consumes:
  assumes ok: "oam_ok m"
  shows "consumes (z_oam_decode z_n_msg_oam_null (oam_header m))
    (z_zint64_encode_buf (ucast (oa_id m)) @ wire_exts (oam_exts m) @ wire_oam_body (oa_body m)) (recv_oam m)"
proof -
  have x: "list_all ext_wf (oam_exts m)" using ok qos_ts_exts_ok by (auto simp: oam_ok_def oam_exts_def)
  define m1 where "m1 = z_n_msg_oam_null\<lparr>oa_id := oa_id m, oa_ext_qos := Z_N_QOS_DEFAULT, oa_ext_timestamp := z_timestamp_null\<rparr>"
  let ?m = "m1\<lparr>oa_ext_qos := oa_ext_qos m, oa_ext_timestamp := recv_ts (oa_ext_timestamp m)\<rparr>"
  have run: "run_callback z_oam_decode_extensions (oam_exts m) m1 = Some ?m"
    by (rule oam_exts_run [OF ok]) (simp_all add: m1_def)
  have body: "consumes (if oam_enc_bits (oa_enc m) = Z_MSG_EXT_ENC_UNIT then ret (?m\<lparr>oa_enc := OAM_BODY_UNIT\<rparr>)
       else if oam_enc_bits (oa_enc m) = Z_MSG_EXT_ENC_ZINT
       then bind_ok z_zint64_decode (\<lambda>v. ret (?m\<lparr>oa_enc := OAM_BODY_ZINT, oa_body := Ext_Zint v\<rparr>))
       else if oam_enc_bits (oa_enc m) = Z_MSG_EXT_ENC_ZBUF
       then bind_ok z_slice_decode (\<lambda>s. ret (?m\<lparr>oa_enc := OAM_BODY_ZBUF, oa_body := Ext_Zbuf s\<rparr>))
       else fail Z_ERR_MESSAGE_DESERIALIZATION_FAILED) (wire_oam_body (oa_body m)) (recv_oam m)"
  proof (cases "oa_body m")
    case Ext_Unit
    then show ?thesis using ok
      by (cases m) (simp add: oam_ok_def oam_enc_bits_def wire_oam_body_def m1_def recv_oam_def z_n_msg_oam_null_def consumes_ret)
  next
    case (Ext_Zint v)
    then have "?m\<lparr>oa_enc := OAM_BODY_ZINT, oa_body := Ext_Zint v\<rparr> = recv_oam m" using ok
      by (cases m) (simp add: oam_ok_def m1_def recv_oam_def z_n_msg_oam_null_def)
    then show ?thesis using Ext_Zint ok consumes_last [OF zint64_consumes, of "\<lambda>v. ret (?m\<lparr>oa_enc := OAM_BODY_ZINT, oa_body := Ext_Zint v\<rparr>)" v]
      by (simp add: oam_ok_def oam_enc_bits_def wire_oam_body_def)
  next
    case (Ext_Zbuf s)
    then have "?m\<lparr>oa_enc := OAM_BODY_ZBUF, oa_body := Ext_Zbuf s\<rparr> = recv_oam m" using ok
      by (cases m) (simp add: oam_ok_def m1_def recv_oam_def z_n_msg_oam_null_def)
    then show ?thesis using Ext_Zbuf ok
        consumes_last [OF slice_consumes, of s "\<lambda>s. ret (?m\<lparr>oa_enc := OAM_BODY_ZBUF, oa_body := Ext_Zbuf s\<rparr>)"]
      by (simp add: oam_ok_def oam_enc_bits_def wire_oam_body_def)
  qed
  show ?thesis unfolding z_oam_decode_def Let_def oam_header_facts
    apply (rule consumes_bind [OF zint16_consumes])
    apply (rule consumes_bind)
     apply (simp only: m1_def [symmetric])
     apply (rule opt_exts_consumes [OF refl x run])
    apply (rule body)
    done
qed

lemma final_consumes:
  "consumes (z_response_final_decode \<lparr>rf_request_id = 0\<rparr> Z_MID_N_RESPONSE_FINAL) (z_zint64_encode_buf (rf_request_id m)) m"
proof -
  have f: "Z_HAS_FLAG Z_MID_N_RESPONSE_FINAL Z_FLAG_Z_Z \<longleftrightarrow> False" by (simp add: z_net_mids Z_HAS_FLAG_def Z_FLAG_Z_Z_def)
  show ?thesis unfolding z_response_final_decode_def f skip_if_none
    apply (rule consumes_last [OF consumes_attempt [OF zsize_consumes]])
    by (cases m) (simp add: bind_ok_def ret_def return_code_def)
qed


section \<open>Network messages\<close>

definition wire_network_message :: "z_network_message_t \<Rightarrow> byte list" where
  "wire_network_message msg = (case nm_body msg of
     N_Declare m \<Rightarrow> wire_declare m
   | N_Push m \<Rightarrow> wire_push_msg m
   | N_Request m \<Rightarrow> wire_request m
   | N_Response m \<Rightarrow> wire_response m
   | N_Response_Final m \<Rightarrow> Z_MID_N_RESPONSE_FINAL # z_zint64_encode_buf (rf_request_id m)
   | N_Interest m \<Rightarrow> wire_n_interest (ni_interest m)
   | N_Oam m \<Rightarrow> wire_oam m)"

definition network_message_ok :: "z_network_message_t \<Rightarrow> bool" where
  "network_message_ok msg = (case nm_body msg of
     N_Declare m \<Rightarrow> declare_ok m
   | N_Push m \<Rightarrow> push_msg_ok m
   | N_Request m \<Rightarrow> request_ok m
   | N_Response m \<Rightarrow> response_ok m
   | N_Response_Final m \<Rightarrow> True
   | N_Interest m \<Rightarrow> interest_ok (ni_interest m)
   | N_Oam m \<Rightarrow> oam_ok m)"

definition recv_network_message :: "keyexpr_mapping \<Rightarrow> z_network_message_t \<Rightarrow> z_network_message_t" where
  "recv_network_message mapping msg = \<lparr>nm_body = (case nm_body msg of
     N_Declare m \<Rightarrow> N_Declare (recv_declare mapping m)
   | N_Push m \<Rightarrow> N_Push (recv_push_msg mapping m)
   | N_Request m \<Rightarrow> N_Request (recv_request mapping m)
   | N_Response m \<Rightarrow> N_Response (recv_response mapping m)
   | N_Response_Final m \<Rightarrow> N_Response_Final m
   | N_Interest m \<Rightarrow> N_Interest \<lparr>ni_interest = recv_interest mapping (ni_interest m)\<rparr>
   | N_Oam m \<Rightarrow> N_Oam (recv_oam m)), nm_reliability = 0\<rparr>"

lemma appends_network_message [appends_intros]:
  assumes "network_message_ok msg"
  shows "appends (z_network_message_encode msg) (wire_network_message msg)"
proof (cases "nm_body msg")
  case (N_Response_Final m)
  then show ?thesis using appends_then [OF appends_uint8 appends_zsize, of Z_MID_N_RESPONSE_FINAL]
    by (simp add: z_network_message_encode_def wire_network_message_def z_response_final_encode_def)
qed (use assms in \<open>simp_all add: network_message_ok_def z_network_message_encode_def wire_network_message_def
   appends_declare appends_push_msg appends_request appends_response appends_n_interest appends_oam\<close>)

lemma net_mid_distinct [simp]:
  "Z_MID_N_PUSH \<noteq> Z_MID_N_DECLARE" "Z_MID_N_REQUEST \<noteq> Z_MID_N_DECLARE" "Z_MID_N_REQUEST \<noteq> Z_MID_N_PUSH"
  "Z_MID_N_RESPONSE \<noteq> Z_MID_N_DECLARE" "Z_MID_N_RESPONSE \<noteq> Z_MID_N_PUSH" "Z_MID_N_RESPONSE \<noteq> Z_MID_N_REQUEST"
  "Z_MID_N_RESPONSE_FINAL \<noteq> Z_MID_N_DECLARE" "Z_MID_N_RESPONSE_FINAL \<noteq> Z_MID_N_PUSH"
  "Z_MID_N_RESPONSE_FINAL \<noteq> Z_MID_N_REQUEST" "Z_MID_N_RESPONSE_FINAL \<noteq> Z_MID_N_RESPONSE"
  "Z_MID_N_INTEREST \<noteq> Z_MID_N_DECLARE" "Z_MID_N_INTEREST \<noteq> Z_MID_N_PUSH" "Z_MID_N_INTEREST \<noteq> Z_MID_N_REQUEST"
  "Z_MID_N_INTEREST \<noteq> Z_MID_N_RESPONSE" "Z_MID_N_INTEREST \<noteq> Z_MID_N_RESPONSE_FINAL"
  "Z_MID_N_OAM \<noteq> Z_MID_N_DECLARE" "Z_MID_N_OAM \<noteq> Z_MID_N_PUSH" "Z_MID_N_OAM \<noteq> Z_MID_N_REQUEST"
  "Z_MID_N_OAM \<noteq> Z_MID_N_RESPONSE" "Z_MID_N_OAM \<noteq> Z_MID_N_RESPONSE_FINAL" "Z_MID_N_OAM \<noteq> Z_MID_N_INTEREST"
  by (simp_all add: z_net_mids)

lemma final_mid: "Z_MID Z_MID_N_RESPONSE_FINAL = Z_MID_N_RESPONSE_FINAL"
  by (simp add: z_net_mids Z_MID_def Z_MID_MASK_def)

lemmas net_mid_facts = declare_header_facts(1) net_header_facts(1) [OF net_mids(1)] net_header_facts(1) [OF net_mids(2)]
  net_header_facts(1) [OF net_mids(3)] n_interest_header_facts(1) oam_header_facts(1) final_mid

lemma network_message_consumes [consumes_intros]:
  assumes ok: "network_message_ok msg"
  shows "consumes (z_network_message_decode mapping) (wire_network_message msg) (recv_network_message mapping msg)"
proof (cases "nm_body msg")
  case (N_Declare m)
  then have m: "declare_ok m" using ok by (simp add: network_message_ok_def)
  show ?thesis unfolding wire_network_message_def recv_network_message_def N_Declare z_network_body_t.case
      z_network_message_decode_def wire_declare_def
    apply (rule headed_consumes)
    apply (simp only: net_mid_facts net_mid_distinct if_True if_False simp_thms)
    by (rule consumes_last [OF consumes_last [OF declare_consumes [OF m] refl] refl])
next
  case (N_Push m)
  then have m: "push_msg_ok m" using ok by (simp add: network_message_ok_def)
  show ?thesis unfolding wire_network_message_def recv_network_message_def N_Push z_network_body_t.case
      z_network_message_decode_def wire_push_msg_def
    apply (rule headed_consumes)
    apply (simp only: net_mid_facts net_mid_distinct if_True if_False simp_thms)
    by (rule consumes_last [OF consumes_last [OF push_msg_consumes [OF m] refl] refl])
next
  case (N_Request m)
  then have m: "request_ok m" using ok by (simp add: network_message_ok_def)
  show ?thesis unfolding wire_network_message_def recv_network_message_def N_Request z_network_body_t.case
      z_network_message_decode_def wire_request_def
    apply (rule headed_consumes)
    apply (simp only: net_mid_facts net_mid_distinct if_True if_False simp_thms)
    by (rule consumes_last [OF consumes_last [OF request_consumes [OF m] refl] refl])
next
  case (N_Response m)
  then have m: "response_ok m" using ok by (simp add: network_message_ok_def)
  show ?thesis unfolding wire_network_message_def recv_network_message_def N_Response z_network_body_t.case
      z_network_message_decode_def wire_response_def
    apply (rule headed_consumes)
    apply (simp only: net_mid_facts net_mid_distinct if_True if_False simp_thms)
    by (rule consumes_last [OF consumes_last [OF response_consumes [OF m] refl] refl])
next
  case (N_Response_Final m)
  show ?thesis unfolding wire_network_message_def recv_network_message_def N_Response_Final z_network_body_t.case
      z_network_message_decode_def
    apply (rule headed_consumes)
    apply (simp only: net_mid_facts net_mid_distinct if_True if_False simp_thms)
    by (rule consumes_last [OF consumes_last [OF final_consumes refl] refl])
next
  case (N_Interest m)
  then have m: "interest_ok (ni_interest m)" using ok by (simp add: network_message_ok_def)
  show ?thesis unfolding wire_network_message_def recv_network_message_def N_Interest z_network_body_t.case
      z_network_message_decode_def wire_n_interest_def
    apply (rule headed_consumes)
    apply (simp only: net_mid_facts net_mid_distinct if_True if_False simp_thms)
    by (rule consumes_last [OF consumes_last [OF n_interest_consumes [OF m] refl] refl])
next
  case (N_Oam m)
  then have m: "oam_ok m" using ok by (simp add: network_message_ok_def)
  show ?thesis unfolding wire_network_message_def recv_network_message_def N_Oam z_network_body_t.case
      z_network_message_decode_def wire_oam_def
    apply (rule headed_consumes)
    apply (simp only: net_mid_facts net_mid_distinct if_True if_False simp_thms)
    by (rule consumes_last [OF consumes_last [OF oam_consumes [OF m] refl] refl])
qed

text \<open>The codec of network messages keeps the contract of a codec, for every peer.\<close>

interpretation network: wire_codec z_network_message_encode wire_network_message network_message_ok
    "z_network_message_decode mapping" "recv_network_message mapping" for mapping
  by unfold_locales (rule appends_network_message network_message_consumes, assumption)+

end
