(* ===== verification/Zp_Sn.thy ===== *)
theory Zp_Sn
  imports Zp_Core
begin

text \<open>
  Sequence numbers: \<^verbatim>\<open>src/transport/utils.c\<close> and the sequence numbers of a conduit in
  \<^verbatim>\<open>include/zenoh-pico/protocol/definitions/transport.h\<close>. A number lives modulo a power of
  two that the two sides agree on; the order of two numbers is the one of a window of half
  that size. The laws are those a receiver needs: the next number follows, nothing precedes
  itself, and of two distinct numbers exactly one precedes the other, but for two that are half
  the space apart, neither of which does.
\<close>

section \<open>Arithmetic of sequence numbers\<close>

text \<open>The masks are those of 7, 14, 28 and 63 bits.\<close>

definition z_sn_max :: "u8 \<Rightarrow> z_zint_t" where
  "z_sn_max bits =
     (if bits = 0x00 then drop_bit 1 0xFF
      else if bits = 0x01 then drop_bit 2 0xFFFF
      else if bits = 0x02 then drop_bit 4 0xFFFFFFFF
      else if bits = 0x03 then drop_bit 1 0xFFFFFFFFFFFFFFFF
      else 0)"

definition z_sn_half :: "z_zint_t \<Rightarrow> z_zint_t" where
  "z_sn_half sn = drop_bit 1 sn"

definition z_sn_modulo_mask :: "u8 \<Rightarrow> z_zint_t" where
  "z_sn_modulo_mask bits =
     (if bits = 0x00 then drop_bit 1 0xFF
      else if bits = 0x01 then drop_bit 2 0xFFFF
      else if bits = 0x02 then drop_bit 4 0xFFFFFFFF
      else if bits = 0x03 then drop_bit 1 0xFFFFFFFFFFFFFFFF
      else 0)"

definition z_sn_precedes :: "z_zint_t \<Rightarrow> z_zint_t \<Rightarrow> z_zint_t \<Rightarrow> bool" where
  "z_sn_precedes sn_resolution sn_left sn_right =
     (let distance = (sn_right - sn_left) AND sn_resolution in
      distance \<le> z_sn_half sn_resolution \<and> distance \<noteq> 0)"

definition z_sn_consecutive :: "z_zint_t \<Rightarrow> z_zint_t \<Rightarrow> z_zint_t \<Rightarrow> bool" where
  "z_sn_consecutive sn_resolution sn_left sn_right =
     (let distance = (sn_right - sn_left) AND sn_resolution in distance = 1)"

definition z_sn_increment :: "z_zint_t \<Rightarrow> z_zint_t \<Rightarrow> z_zint_t" where
  "z_sn_increment sn_resolution sn = (sn + 1) AND sn_resolution"

definition z_sn_decrement :: "z_zint_t \<Rightarrow> z_zint_t \<Rightarrow> z_zint_t" where
  "z_sn_decrement sn_resolution sn = (sn - 1) AND sn_resolution"

section \<open>The numbers of a conduit\<close>

definition Z_PRIORITIES_NUM :: nat where "Z_PRIORITIES_NUM = 8"

record z_coundit_sn_t =
  sn_reliable :: z_zint_t
  sn_best_effort :: z_zint_t

text \<open>
  The numbers of a conduit are a union of one pair and of one pair for each priority, which
  start at the same address: a list of eight pairs, whose first is the plain one.
\<close>

record z_conduit_sn_list_t =
  sn_val :: "z_coundit_sn_t list"
  sn_is_qos :: bool

definition conduit_wf :: "z_conduit_sn_list_t \<Rightarrow> bool" where
  "conduit_wf c \<longleftrightarrow> length (sn_val c) = Z_PRIORITIES_NUM"

definition sn_plain :: "z_conduit_sn_list_t \<Rightarrow> z_coundit_sn_t" where
  "sn_plain c = sn_val c ! 0"

definition z_conduit_sn_list_copy :: "z_conduit_sn_list_t \<Rightarrow> z_conduit_sn_list_t \<Rightarrow> z_conduit_sn_list_t" where
  "z_conduit_sn_list_copy dst src =
     (if \<not> sn_is_qos src
      then dst\<lparr>sn_is_qos := False, sn_val := (sn_val dst)[0 := sn_val src ! 0]\<rparr>
      else dst\<lparr>sn_is_qos := True, sn_val := fold (\<lambda>i v. v[i := sn_val src ! i]) [0..<Z_PRIORITIES_NUM] (sn_val dst)\<rparr>)"

text \<open>With priorities the code stores both results in the best-effort number, the reliable one last.\<close>

definition z_conduit_sn_list_decrement :: "z_zint_t \<Rightarrow> z_conduit_sn_list_t \<Rightarrow> z_conduit_sn_list_t" where
  "z_conduit_sn_list_decrement sn_resolution sns =
     (if \<not> sn_is_qos sns
      then let p = sn_val sns ! 0;
               p = p\<lparr>sn_best_effort := z_sn_decrement sn_resolution (sn_best_effort p)\<rparr>;
               p = p\<lparr>sn_reliable := z_sn_decrement sn_resolution (sn_reliable p)\<rparr>
           in sns\<lparr>sn_val := (sn_val sns)[0 := p]\<rparr>
      else sns\<lparr>sn_val := fold (\<lambda>i v.
             let p = v ! i;
                 p = p\<lparr>sn_best_effort := z_sn_decrement sn_resolution (sn_best_effort p)\<rparr>;
                 p = p\<lparr>sn_best_effort := z_sn_decrement sn_resolution (sn_reliable p)\<rparr>
             in v[i := p]) [0..<Z_PRIORITIES_NUM] (sn_val sns)\<rparr>)"

section \<open>Laws\<close>

definition sn_bits :: "u8 \<Rightarrow> nat" where
  "sn_bits bits = (if bits = 0 then 7 else if bits = 1 then 14 else if bits = 2 then 28 else if bits = 3 then 63 else 0)"

lemma sn_max_mask: "z_sn_max bits = mask (sn_bits bits)"
  by (simp add: z_sn_max_def sn_bits_def mask_eq_exp_minus_1)

lemma sn_modulo_mask_max: "z_sn_modulo_mask bits = z_sn_max bits"
  by (simp add: z_sn_max_def z_sn_modulo_mask_def)

lemma uint_take_bit_ariths:
  assumes "b < 64"
  shows "uint (take_bit b (x + y :: u64)) = take_bit b (uint x + uint y)"
    "uint (take_bit b (x - y :: u64)) = take_bit b (uint x - uint y)"
proof -
  have t: "take_bit b (k mod 2 ^ LENGTH(64)) = take_bit b k" for k :: int
  proof -
    have "take_bit b (k mod 2 ^ LENGTH(64)) = take_bit b (take_bit 64 k)" by (simp add: take_bit_eq_mod)
    also have "\<dots> = take_bit b k" using assms by simp
    finally show ?thesis .
  qed
  show "uint (take_bit b (x + y :: u64)) = take_bit b (uint x + uint y)"
    "uint (take_bit b (x - y :: u64)) = take_bit b (uint x - uint y)"
    by (simp_all only: unsigned_take_bit_eq uint_word_ariths t)
qed

lemma take_bit_ariths:
  assumes "b < 64"
  shows "take_bit b (take_bit b x + y) = take_bit b (x + y :: u64)" "take_bit b (x + take_bit b y) = take_bit b (x + y)"
    "take_bit b (take_bit b x - y) = take_bit b (x - y)"
proof -
  have i: "take_bit b (take_bit b i + j) = take_bit b (i + j)" "take_bit b (i + take_bit b j) = take_bit b (i + j)"
    "take_bit b (take_bit b i - j) = take_bit b (i - j)" for i j :: int
    by (simp_all add: take_bit_eq_mod mod_simps)
  show "take_bit b (take_bit b x + y) = take_bit b (x + y :: u64)" "take_bit b (x + take_bit b y) = take_bit b (x + y)"
    "take_bit b (take_bit b x - y) = take_bit b (x - y)"
    by (rule unsigned_word_eqI [where 'a = int], unfold uint_take_bit_ariths [OF assms], simp only: unsigned_take_bit_eq i)+
qed

lemma sn_bits_range: "bits \<in> {0, 1, 2, 3} \<Longrightarrow> 7 \<le> sn_bits bits \<and> sn_bits bits \<le> 63"
  by (auto simp: sn_bits_def)

text \<open>The distance from one number to another, seen as a natural number.\<close>

lemma sn_window:
  assumes "0 < b" "b < 64" "n < 2 ^ b"
  shows "unat ((((l + of_nat n) AND mask b) - l) AND mask b :: u64) = n"
proof -
  have "(((l + of_nat n) AND mask b) - l) AND mask b = take_bit b (take_bit b (l + of_nat n) - l)"
    by (simp add: take_bit_eq_mask)
  also have "\<dots> = take_bit b (of_nat n)"
    by (simp add: take_bit_ariths(3) [OF assms(2)])
  also have "unat (take_bit b (of_nat n :: u64)) = n"
  proof -
    have "(2 :: nat) ^ b \<le> 2 ^ 64" using assms(2) by (intro power_increasing) simp_all
    then have "n < 2 ^ 64" using assms(3) by linarith
    then show ?thesis using assms(3) by (simp add: unsigned_take_bit_eq take_bit_nat_eq_self unat_of_nat)
  qed
  finally show ?thesis .
qed

lemma half_mask: "0 < b \<Longrightarrow> b < 64 \<Longrightarrow> unat (z_sn_half (mask b)) = 2 ^ (b - 1) - 1"
proof -
  assume b: "0 < b" "b < 64"
  have "drop_bit 1 (mask b :: u64) = mask (b - 1)"
    by (rule bit_word_eqI) (use b in \<open>auto simp: bit_simps simp del: One_nat_def\<close>)
  moreover have "unat (mask (b - 1) :: u64) = take_bit (b - 1) (mask LENGTH(64))"
    by (simp only: take_bit_minus_one_eq_mask [symmetric] unsigned_take_bit_eq unsigned_minus_1_eq_mask)
  then have "unat (mask (b - 1) :: u64) = 2 ^ (b - 1) - 1"
    using b by (simp only: take_bit_of_mask) (simp add: mask_eq_exp_minus_1 min_def)
  ultimately show ?thesis by (simp add: z_sn_half_def)
qed

lemma sn_precedes_window:
  assumes "0 < b" "b < 64" "n < 2 ^ b"
  shows "z_sn_precedes (mask b) l ((l + of_nat n) AND mask b) \<longleftrightarrow> 0 < n \<and> n < 2 ^ (b - 1)"
proof -
  have "(1 :: nat) \<le> 2 ^ (b - 1)" by simp
  then show ?thesis
    by (simp only: z_sn_precedes_def Let_def word_le_nat_alt half_mask [OF assms(1,2)] sn_window [OF assms]
        unat_eq_zero [symmetric, of "_ AND _"]) linarith
qed

lemma sn_dist_sum:
  assumes "b < 64" "(r - l :: u64) AND mask b \<noteq> 0"
  shows "unat ((r - l) AND mask b) + unat ((l - r) AND mask b) = 2 ^ b"
proof -
  let ?d = "take_bit b (r - l)" and ?e = "take_bit b (l - r)"
  have lt: "unat ?d < 2 ^ b" "unat ?e < 2 ^ b" by (simp_all add: unsigned_take_bit_eq)
  have pow: "(2 :: nat) ^ b * 2 \<le> 2 ^ 64"
    using power_increasing [of "Suc b" 64 "2 :: nat"] assms(1) by simp
  have "take_bit b (?d + ?e) = 0" by (simp add: take_bit_ariths [OF assms(1)])
  then have "take_bit b (unat (?d + ?e)) = 0" by (simp flip: unsigned_take_bit_eq)
  moreover have "unat (?d + ?e) = unat ?d + unat ?e"
    using lt pow by (simp add: unat_word_ariths)
  ultimately have dvd: "2 ^ b dvd unat ?d + unat ?e" by (simp add: take_bit_eq_0_iff)
  have "0 < unat ?d" using assms(2) by (simp add: take_bit_eq_mask word_gt_0 unat_gt_0)
  then obtain k where k: "unat ?d + unat ?e = 2 ^ b * k" "0 < k" using dvd by (metis dvdE gr0I mult_0_right add_gr_0 less_numeral_extra(3))
  then have "2 ^ b * k < 2 ^ b * 2" using lt by linarith
  then have "k = 1" using k(2) by simp
  then show ?thesis using k(1) by (simp add: take_bit_eq_mask)
qed

lemma sn_precedes_asym:
  assumes "0 < b" "b < 64" "z_sn_precedes (mask b) l r"
  shows "\<not> z_sn_precedes (mask b) r l"
proof
  assume r: "z_sn_precedes (mask b) r l"
  have "(r - l) AND mask b \<noteq> 0" using assms(3) by (simp add: z_sn_precedes_def Let_def)
  note sum = sn_dist_sum [OF assms(2) this]
  have "unat ((r - l) AND mask b) < 2 ^ (b - 1)" "unat ((l - r) AND mask b) < 2 ^ (b - 1)"
    using assms(3) r half_mask [OF assms(1,2)]
    by (auto simp: z_sn_precedes_def Let_def word_le_nat_alt intro: le_less_trans)
  moreover have "(2 :: nat) ^ b = 2 ^ (b - 1) + 2 ^ (b - 1)" using assms(1) by (cases b) simp_all
  ultimately show False using sum by linarith
qed

lemma sn_precedes_total:
  assumes "0 < b" "b < 64" "(r - l) AND mask b \<noteq> 0" "unat ((r - l) AND mask b) \<noteq> 2 ^ (b - 1)"
  shows "z_sn_precedes (mask b) l r \<or> z_sn_precedes (mask b) r l"
proof -
  note sum = sn_dist_sum [OF assms(2,3)]
  have two: "(2 :: nat) ^ b = 2 ^ (b - 1) + 2 ^ (b - 1)" using assms(1) by (cases b) simp_all
  have nz: "(l - r) AND mask b \<noteq> 0"
  proof
    assume "(l - r) AND mask b = 0"
    then have "unat ((r - l) AND mask b) = 2 ^ b" using sum by simp
    moreover have "unat ((r - l) AND mask b) < 2 ^ b" by (simp add: unsigned_take_bit_eq flip: take_bit_eq_mask)
    ultimately show False by simp
  qed
  show ?thesis using sum two assms(3,4) nz half_mask [OF assms(1,2)]
    by (simp add: z_sn_precedes_def Let_def word_le_nat_alt) linarith
qed

lemma sn_increment_decrement:
  "z_sn_decrement (mask b) (z_sn_increment (mask b) sn) = sn AND mask b"
  "z_sn_increment (mask b) (z_sn_decrement (mask b) sn) = sn AND mask b"
  if "b < 64"
  unfolding z_sn_decrement_def z_sn_increment_def take_bit_eq_mask [symmetric] by (simp_all add: take_bit_ariths [OF that])

lemma sn_increment_consecutive: "0 < b \<Longrightarrow> b < 64 \<Longrightarrow> z_sn_consecutive (mask b) sn (z_sn_increment (mask b) sn)"
  using sn_window [of b 1 sn] unsigned_word_eqI [of "((((sn + 1) AND mask b) - sn) AND mask b)" 1, where 'a = nat]
    one_less_power [of "2 :: nat" b]
  by (simp add: z_sn_consecutive_def z_sn_increment_def)

section \<open>Conduits\<close>

lemma fold_upd_copy:
  "n \<le> length v \<Longrightarrow> length w = length v \<Longrightarrow> fold (\<lambda>i v. v[i := w ! i]) [0..<n] v = take n w @ drop n v"
  by (induction n) (simp_all add: list_update_append take_Suc_conv_app_nth upd_conv_take_nth_drop Cons_nth_drop_Suc [symmetric])

lemma conduit_copy_same:
  assumes "conduit_wf dst" "conduit_wf src"
  shows "sn_is_qos (z_conduit_sn_list_copy dst src) = sn_is_qos src"
    "sn_plain (z_conduit_sn_list_copy dst src) = sn_plain src"
    "sn_is_qos src \<Longrightarrow> z_conduit_sn_list_copy dst src = src"
  using assms fold_upd_copy [of Z_PRIORITIES_NUM "sn_val dst" "sn_val src"]
  by (auto simp: z_conduit_sn_list_copy_def conduit_wf_def sn_plain_def Z_PRIORITIES_NUM_def)

lemma fold_upd_map:
  "n \<le> length v \<Longrightarrow> fold (\<lambda>i v. v[i := f (v ! i)]) [0..<n] v = map f (take n v) @ drop n v"
  by (induction n) (simp_all add: list_update_append nth_append take_Suc_conv_app_nth upd_conv_take_nth_drop Cons_nth_drop_Suc [symmetric])

text \<open>The plain numbers go one back each, those of the priorities do not.\<close>

lemma conduit_decrement_plain:
  assumes "conduit_wf c" "\<not> sn_is_qos c"
  shows "sn_plain (z_conduit_sn_list_decrement m c) =
    \<lparr>sn_reliable = z_sn_decrement m (sn_reliable (sn_plain c)), sn_best_effort = z_sn_decrement m (sn_best_effort (sn_plain c))\<rparr>"
  using assms by (simp add: z_conduit_sn_list_decrement_def conduit_wf_def sn_plain_def Z_PRIORITIES_NUM_def Let_def)

lemma conduit_decrement_qos:
  assumes "conduit_wf c" "sn_is_qos c"
  shows "sn_val (z_conduit_sn_list_decrement m c) =
    map (\<lambda>p. \<lparr>sn_reliable = sn_reliable p, sn_best_effort = z_sn_decrement m (sn_reliable p)\<rparr>) (sn_val c)"
proof -
  let ?f = "\<lambda>p. p\<lparr>sn_best_effort := z_sn_decrement m (sn_reliable p)\<rparr>"
  have f: "?f = (\<lambda>p. \<lparr>sn_reliable = sn_reliable p, sn_best_effort = z_sn_decrement m (sn_reliable p)\<rparr>)" by (rule ext) simp
  show ?thesis using assms fold_upd_map [of Z_PRIORITIES_NUM "sn_val c" ?f]
    by (simp add: z_conduit_sn_list_decrement_def conduit_wf_def Let_def f)
qed

end
