(* ===== verification/Zp_TransLaws.thy ===== *)
theory Zp_TransLaws imports Zp_Transport
begin

text \<open>
  The laws of the transport codec: the decoder is safe on any bytes; what the encoder writes for
  a message whose header agrees with its body is decoded as that message; and every maker makes
  such messages. A message ends with its packet, since the payload of a frame and of a fragment
  is all that follows, so the contract is that of a packet and not that of a prefix.
\<close>

section \<open>Any bytes\<close>

lemma exact_safe [safe_intros]: "safe (z_zbuf_read_exact n)"
proof (rule safeI)
  fix z assume z: "zbuf_wf z"
  show "(\<exists>x z'. z_zbuf_read_exact n z = Ok x z' \<and> zstep z z') \<or> (\<exists>e z'. z_zbuf_read_exact n z = Err e z' \<and> zstep z z')"
  proof (cases "z_zbuf_len z < n")
    case False
    then have n: "n \<le> length (zbuf_bytes z)" using zbuf_len_bytes [OF z] by simp
    then have "z_zbuf_read_exact n z = Ok (take n (zbuf_bytes z)) (zadv n z)"
      using consumesD [OF read_exact_consumes [of n "take n (zbuf_bytes z)"] z, of "drop n (zbuf_bytes z)"] by simp
    with n show ?thesis by (auto simp: zstep_def)
  qed (simp add: z_zbuf_read_exact_def)
qed

lemma take_rest_safe [safe_intros]: "safe take_rest"
  by (rule safeI) (auto simp: take_rest_def zstep_def zbuf_len_bytes)

lemma return_unit_safe: "safe (\<lambda>z. Ok (f z) z)"
  by (rule safeI) simp

lemma two_bytes_safe [safe_intros]: "safe two_bytes_decode"
  and res_decode_safe [safe_intros]: "safe res_decode"
  and zid_decode_safe [safe_intros]: "safe (zid_decode cbyte)"
  and sn_pair_safe [safe_intros]: "safe (sn_pair_decode p)"
  unfolding two_bytes_decode_def res_decode_def zid_decode_def Let_def sn_pair_decode_def by (intro safe_intros)+

lemma join_qos_safe [safe_intros]: "safe (join_qos_decode qos)"
  by (induction qos) (simp_all add: safe_intros)

lemma t_ext_ids:
  "Z_EXT_ENC Z_MSG_EXT_ID_JOIN_QOS = Z_MSG_EXT_ENC_ZBUF" "Z_EXT_ENC Z_MSG_EXT_ID_JOIN_PATCH = Z_MSG_EXT_ENC_ZINT"
  "Z_EXT_ENC Z_MSG_EXT_ID_INIT_PATCH = Z_MSG_EXT_ENC_ZINT"
  by (simp_all add: z_ext_consts)

lemma join_callback_safe [safe_intros]: "callback_safe z_join_decode_ext"
  unfolding z_join_decode_ext_def Let_def
  by (intro callback_safeI callback_intros safe_intros) (assumption | rule t_ext_ids)+

lemma init_callback_safe [safe_intros]: "callback_safe z_init_decode_ext"
  unfolding z_init_decode_ext_def Let_def
  by (intro callback_safeI callback_intros safe_intros) (assumption | rule t_ext_ids)+

lemma fragment_callback_safe [safe_intros]: "callback_safe z_fragment_decode_ext"
  unfolding z_fragment_decode_ext_def Let_def
  by (intro callback_safeI callback_intros safe_intros)

lemma join_safe [safe_intros]: "safe (z_join_decode header)"
  and init_safe [safe_intros]: "safe (z_init_decode header)"
  and open_safe [safe_intros]: "safe (z_open_decode header)"
  and close_safe [safe_intros]: "safe (z_close_decode header)"
  and keep_alive_safe [safe_intros]: "safe (z_keep_alive_decode header)"
  and frame_safe [safe_intros]: "safe (z_frame_decode header)"
  and fragment_safe [safe_intros]: "safe (z_fragment_decode header)"
  unfolding z_join_decode_def z_init_decode_def z_open_decode_def z_close_decode_def z_keep_alive_decode_def
    z_frame_decode_def z_fragment_decode_def Let_def
  by (intro safe_intros return_unit_safe)+

lemma transport_safe [safe_intros]: "safe z_transport_message_decode"
  unfolding z_transport_message_decode_def Let_def by (intro safe_intros)

interpretation transport: safe_decoder z_transport_message_decode
  by unfold_locales (rule transport_safe)

section \<open>What goes over the wire\<close>

definition wire_sn_pair :: "z_coundit_sn_t \<Rightarrow> byte list" where
  "wire_sn_pair p = z_zint64_encode_buf (sn_reliable p) @ z_zint64_encode_buf (sn_best_effort p)"

definition wire_who :: "z_whatami_t \<Rightarrow> z_id_t \<Rightarrow> byte list" where
  "wire_who whatami zid = who_byte whatami zid # take (z_id_len zid) zid"

definition wire_res :: "bool \<Rightarrow> u8 \<Rightarrow> u8 \<Rightarrow> u16 \<Rightarrow> byte list" where
  "wire_res b seq_num_res req_id_res batch_size =
     (if b then [res_byte seq_num_res req_id_res, z_get_u16_lsb batch_size, z_get_u16_msb batch_size] else [])"

definition wire_lease :: "bool \<Rightarrow> z_zint_t \<Rightarrow> byte list" where
  "wire_lease in_seconds lease = z_zint64_encode_buf (if in_seconds then lease div 1000 else lease)"

definition patch_exts :: "u8 \<Rightarrow> z_msg_ext_t list" where
  "patch_exts patch = (if patch \<noteq> Z_NO_PATCH then [zint_ext Z_MSG_EXT_ID_JOIN_PATCH (ucast patch)] else [])"

definition join_exts :: "z_t_msg_join_t \<Rightarrow> z_msg_ext_t list" where
  "join_exts m = (if sn_is_qos (jo_next_sn m)
     then [zbuf_ext Z_MSG_EXT_ID_JOIN_QOS (concat (map wire_sn_pair (sn_val (jo_next_sn m))))] else []) @ patch_exts (jo_patch m)"

definition wire_join :: "u8 \<Rightarrow> z_t_msg_join_t \<Rightarrow> byte list" where
  "wire_join header m = [jo_version m] @ wire_who (jo_whatami m) (jo_zid m) @
     wire_res (Z_HAS_FLAG header Z_FLAG_T_JOIN_S) (jo_seq_num_res m) (jo_req_id_res m) (jo_batch_size m) @
     wire_lease (Z_HAS_FLAG header Z_FLAG_T_JOIN_T) (jo_lease m) @ wire_sn_pair (sn_plain (jo_next_sn m)) @
     wire_exts (join_exts m)"

definition who_ok :: "z_whatami_t \<Rightarrow> z_id_t \<Rightarrow> bool" where
  "who_ok whatami zid \<longleftrightarrow> whatami_ok whatami \<and> id_wf zid \<and> z_id_check zid"

definition res_ok :: "bool \<Rightarrow> u8 \<Rightarrow> u8 \<Rightarrow> u16 \<Rightarrow> u16 \<Rightarrow> bool" where
  "res_ok b seq_num_res req_id_res batch_size dflt \<longleftrightarrow> seq_num_res \<le> 3 \<and> req_id_res \<le> 3 \<and>
     (b \<or> seq_num_res = Z_DEFAULT_RESOLUTION_SIZE \<and> req_id_res = Z_DEFAULT_RESOLUTION_SIZE \<and> batch_size = dflt)"

definition join_ok :: "u8 \<Rightarrow> z_t_msg_join_t \<Rightarrow> bool" where
  "join_ok header m \<longleftrightarrow> who_ok (jo_whatami m) (jo_zid m) \<and> conduit_wf (jo_next_sn m) \<and>
     res_ok (Z_HAS_FLAG header Z_FLAG_T_JOIN_S) (jo_seq_num_res m) (jo_req_id_res m) (jo_batch_size m) Z_DEFAULT_MULTICAST_BATCH_SIZE \<and>
     (Z_HAS_FLAG header Z_FLAG_T_JOIN_T \<longrightarrow> jo_lease m mod 1000 = 0) \<and>
     (Z_HAS_FLAG header Z_FLAG_T_Z \<longleftrightarrow> sn_is_qos (jo_next_sn m) \<or> jo_patch m \<noteq> Z_NO_PATCH)"

text \<open>Without priorities the receiver has only the plain numbers.\<close>

definition recv_conduit :: "z_conduit_sn_list_t \<Rightarrow> z_conduit_sn_list_t" where
  "recv_conduit c = (if sn_is_qos c then c else conduit_null\<lparr>sn_val := (sn_val conduit_null)[0 := sn_plain c]\<rparr>)"

definition recv_join :: "z_t_msg_join_t \<Rightarrow> z_t_msg_join_t" where
  "recv_join m = m\<lparr>jo_next_sn := recv_conduit (jo_next_sn m)\<rparr>"

section \<open>Shared fields\<close>

lemma who_byte_list:
  "list_all (\<lambda>w. list_all (\<lambda>n. unat (drop_bit 4 ((z_whatami_to_uint8 w OR push_bit 4 ((of_nat n - 1) AND 0x0F)) AND 0xF0) + 1) = n \<and>
      z_whatami_from_uint8 (z_whatami_to_uint8 w OR push_bit 4 ((of_nat n - 1) AND 0x0F)) = w) [1..<17]) [1, 2, 4]"
  by code_simp

lemma who_byte_fields:
  assumes "who_ok w i"
  shows "unat (drop_bit 4 (who_byte w i AND 0xF0) + 1) = z_id_len i" "z_whatami_from_uint8 (who_byte w i) = w"
proof -
  have "z_id_len i \<in> set [1..<17]" "w \<in> set [1, 2, 4]"
    using assms z_id_len_0_iff [of i] z_id_len_le [of i] by (auto simp: who_ok_def whatami_ok_def)
  then show "unat (drop_bit 4 (who_byte w i AND 0xF0) + 1) = z_id_len i" "z_whatami_from_uint8 (who_byte w i) = w"
    using who_byte_list unfolding list_all_iff who_byte_def by blast+
qed

lemma appends_zid: "id_wf i \<Longrightarrow> appends (z_wbuf_write_bytes i 0 (z_id_len i)) (take (z_id_len i) i)"
  using appends_write_bytes [of 0 "z_id_len i" i] z_id_len_le [of i] by (simp add: id_wf_def ZENOH_ID_SIZE_def)

lemma zid_consumes:
  assumes "who_ok w i"
  shows "consumes (zid_decode (who_byte w i)) (take (z_id_len i) i) i"
proof -
  have wf: "id_wf i" using assms by (simp add: who_ok_def)
  have pad: "take (z_id_len i) i @ drop (z_id_len i) z_id_empty = i" using id_len_pad [OF wf] by (simp add: z_id_empty_def)
  have len: "z_id_len i = length (take (z_id_len i) i)" using wf z_id_len_le [of i] by (simp add: id_wf_def ZENOH_ID_SIZE_def)
  show ?thesis unfolding zid_decode_def Let_def who_byte_fields [OF assms]
    by (rule consumes_last [OF read_exact_consumes [OF len]]) (simp only: pad)
qed

lemma consumes_try:
  "consumes d as x \<Longrightarrow> consumes (f (Z_RES_OK, x)) bs y \<Longrightarrow> cs = as @ bs \<Longrightarrow> consumes (bind_ok (attempt x0 d) f) cs y"
  by (rule consumes_bind2 [OF consumes_attempt])

lemma res_ok_or [simp]: "Z_RES_OK OR Z_RES_OK = Z_RES_OK"
  by simp

lemma two_bytes_consumes: "consumes two_bytes_decode [a, b] (a, b)"
  unfolding two_bytes_decode_def
  by (rule consumes_try [OF uint8_consumes [of a]], simp only: prod.case,
      rule consumes_try [OF uint8_consumes [of b]]) (simp_all add: return_code_def consumes_ret)

lemma res_byte_list:
  "list_all (\<lambda>s. list_all (\<lambda>r. res_byte s r AND 0x03 = s \<and> drop_bit 2 (res_byte s r) AND 0x03 = r) [0, 1, 2, 3]) [0, 1, 2, 3]"
  by code_simp

lemma le_3_cases: "(x :: u8) \<le> 3 \<Longrightarrow> x \<in> set [0, 1, 2, 3]"
proof -
  assume "x \<le> 3"
  then have "unat x \<in> {0, 1, 2, 3}" by (auto simp: word_le_nat_alt)
  then show ?thesis by (auto simp: word_unat_eq_iff)
qed

lemma res_byte_fields:
  "s \<le> 3 \<Longrightarrow> r \<le> 3 \<Longrightarrow> res_byte s r AND 0x03 = s" "s \<le> 3 \<Longrightarrow> r \<le> 3 \<Longrightarrow> drop_bit 2 (res_byte s r) AND 0x03 = r"
  using res_byte_list le_3_cases unfolding list_all_iff by blast+

lemma res_consumes:
  assumes "res_ok b s r batch dflt"
  shows "consumes (if b then res_decode else ret (Z_DEFAULT_RESOLUTION_SIZE, Z_DEFAULT_RESOLUTION_SIZE, dflt))
    (wire_res b s r batch) (s, r, batch)"
proof (cases b)
  case True
  have f: "res_byte s r AND 0x03 = s" "drop_bit 2 (res_byte s r) AND 0x03 = r"
    using assms res_byte_fields by (auto simp: res_ok_def)
  show ?thesis unfolding res_decode_def wire_res_def using True
    apply (simp only: if_True)
    apply (rule consumes_try [OF uint8_consumes [of "res_byte s r"]])
     apply (simp only: prod.case)
     apply (rule consumes_try [OF uint16_consumes [of batch]])
      apply (simp only: prod.case f res_ok_or)
      apply (rule consumes_return_code)
     apply simp_all
    done
qed (use assms in \<open>auto simp: res_ok_def wire_res_def consumes_ret\<close>)

lemma appends_res: "appends (when_do b (then_do (z_uint8_encode (res_byte s r)) (z_uint16_encode batch))) (wire_res b s r batch)"
  unfolding wire_res_def
  by (rule appends_when, rule appends_cong, rule appends_then [OF appends_uint8 appends_uint16]) simp

lemma lease_seconds: "l mod 1000 = 0 \<Longrightarrow> l div 1000 * 1000 = (l :: u64)"
  using div_mult_mod_eq [of l 1000] by simp

lemma appends_lease:
  "appends (if b then z_zsize_encode (l div 1000) else z_zsize_encode l) (wire_lease b l)"
  using appends_zsize by (simp add: wire_lease_def)

lemma sn_pair_consumes: "consumes (sn_pair_decode p0) (wire_sn_pair p) p"
proof -
  have eq: "\<lparr>sn_reliable = sn_reliable p, sn_best_effort = sn_best_effort p\<rparr> = p" by simp
  show ?thesis unfolding sn_pair_decode_def wire_sn_pair_def
    apply (rule consumes_try [OF zsize_consumes [of "sn_reliable p"]])
     apply (simp only: prod.case)
     apply (rule consumes_try [OF zsize_consumes [of "sn_best_effort p"]])
      apply (simp only: prod.case res_ok_or eq)
      apply (rule consumes_return_code)
     apply simp_all
    done
qed

lemma join_qos_consumes:
  "length qos0 = length qos \<Longrightarrow> consumes (join_qos_decode qos0) (concat (map wire_sn_pair qos)) qos"
proof (induction qos arbitrary: qos0)
  case (Cons p qos)
  then obtain p0 rest where q: "qos0 = p0 # rest" "length rest = length qos" by (cases qos0) auto
  show ?case unfolding q(1) join_qos_decode.simps list.map concat.simps
    by (rule consumes_bind [OF sn_pair_consumes], rule consumes_last [OF Cons.IH [OF q(2)]]) simp
qed (simp add: consumes_ret)

lemma appends_sn_pair: "appends (then_do (z_zsize_encode (sn_reliable p)) (z_zsize_encode (sn_best_effort p))) (wire_sn_pair p)"
  unfolding wire_sn_pair_def by (rule appends_then appends_zsize)+

lemma appends_join_qos: "appends (join_qos_encode qos) (concat (map wire_sn_pair qos))"
proof (induction qos)
  case (Cons p qos)
  have "appends (join_qos_encode (p # qos)) (z_zint64_encode_buf (sn_reliable p) @ z_zint64_encode_buf (sn_best_effort p) @
      concat (map wire_sn_pair qos))"
    unfolding join_qos_encode.simps by (rule appends_then appends_zsize Cons.IH)+
  then show ?case by (simp add: wire_sn_pair_def [of p])
qed (simp add: appends_ret)

lemma sn_pair_length: "length (wire_sn_pair p) \<le> 18"
  using zint_buf_length [of "sn_reliable p"] zint_buf_length [of "sn_best_effort p"] by (simp add: wire_sn_pair_def VLE_LEN_def)

lemma join_qos_length: "length (concat (map wire_sn_pair qos)) \<le> 18 * length qos"
proof (induction qos)
  case (Cons p qos)
  then show ?case using sn_pair_length [of p] by simp
qed simp

lemma join_qos_len_eq: "join_qos_len qos = of_nat (length (concat (map wire_sn_pair qos)))"
proof -
  have "fold (\<lambda>p len. len + (ucast (z_zint_len (sn_reliable p)) + ucast (z_zint_len (sn_best_effort p)))) qos n =
      n + of_nat (length (concat (map wire_sn_pair qos)))" for n :: u64
    by (induction qos arbitrary: n) (simp_all add: wire_sn_pair_def zint_len_buf [symmetric] of_nat_unat add.assoc)
  then show ?thesis by (simp add: join_qos_len_def)
qed

section \<open>Join\<close>

lemma t_ext_ok:
  "Z_MSG_EXT_ID_JOIN_QOS AND Z_MSG_EXT_FLAG_Z = 0" "Z_MSG_EXT_ID_JOIN_PATCH AND Z_MSG_EXT_FLAG_Z = 0"
  "Z_EXT_FULL_ID Z_MSG_EXT_ID_JOIN_QOS = Z_MSG_EXT_ID_JOIN_QOS" "Z_EXT_FULL_ID Z_MSG_EXT_ID_JOIN_PATCH = Z_MSG_EXT_ID_JOIN_PATCH"
  "Z_MSG_EXT_ID_JOIN_PATCH \<noteq> Z_MSG_EXT_ID_JOIN_QOS" "Z_MSG_EXT_ID_INIT_PATCH = Z_MSG_EXT_ID_JOIN_PATCH"
  by (simp_all add: z_ext_consts)

lemma patch_exts_ok: "list_all ext_wf (patch_exts patch)"
  by (simp add: patch_exts_def t_ext_ok t_ext_ids)

lemma join_exts_ok: "conduit_wf (jo_next_sn m) \<Longrightarrow> list_all ext_wf (join_exts m)"
  using patch_exts_ok [of "jo_patch m"] join_qos_length [of "sn_val (jo_next_sn m)"]
  by (auto simp: join_exts_def t_ext_ok t_ext_ids conduit_wf_def Z_PRIORITIES_NUM_def)

lemma more_False: "Z_MSG_EXT_MORE False = 0"
  by (simp add: Z_MSG_EXT_MORE_def)

lemma appends_join:
  assumes "join_ok header m"
  shows "appends (z_join_encode header m) (wire_join header m)"
proof -
  have ok: "id_wf (jo_zid m)" and c: "length (sn_val (jo_next_sn m)) = Z_PRIORITIES_NUM"
    and z: "Z_HAS_FLAG header Z_FLAG_T_Z \<longleftrightarrow> sn_is_qos (jo_next_sn m) \<or> jo_patch m \<noteq> Z_NO_PATCH"
    using assms by (simp_all add: join_ok_def who_ok_def conduit_wf_def)
  have no_fail: "(if (sn_is_qos (jo_next_sn m) \<or> jo_patch m \<noteq> Z_NO_PATCH) \<and> \<not> Z_HAS_FLAG header Z_FLAG_T_Z
      then fail Z_ERR_MESSAGE_SERIALIZATION_FAILED else ret ()) = (ret () :: (unit, z_wbuf_t) prog)"
    using z by auto
  have t: "take Z_PRIORITIES_NUM (sn_val (jo_next_sn m)) = sn_val (jo_next_sn m)" using c by simp
  show ?thesis unfolding z_join_encode_def Let_def no_fail t join_qos_len_eq
    apply (rule appends_cong)
     apply (rule appends_lease appends_res appends_zid [OF ok] appends_then appends_when appends_write appends_uint8 appends_zsize_len
         appends_zsize appends_zint64 appends_join_qos appends_ret)+
    using z apply (simp add: wire_join_def wire_who_def wire_sn_pair_def join_exts_def patch_exts_def wire_slice_def more_False)
    done
qed


lemma run_patch:
  assumes "\<And>v c. cb (zint_ext Z_MSG_EXT_ID_JOIN_PATCH v) c = Ok () (F (ucast v) c)" "patch = Z_NO_PATCH \<Longrightarrow> F patch c = c"
  shows "run_callback cb (patch_exts patch) c = Some (F patch c)"
  using assms by (simp add: patch_exts_def)

lemma join_cb_patch: "z_join_decode_ext (zint_ext Z_MSG_EXT_ID_JOIN_PATCH v) c = Ok () (c\<lparr>jo_patch := ucast v\<rparr>)"
  by (simp add: z_join_decode_ext_def Let_def t_ext_ok)

lemma join_cb_qos:
  assumes "length (sn_val (jo_next_sn c)) = length qos"
  shows "z_join_decode_ext (zbuf_ext Z_MSG_EXT_ID_JOIN_QOS (concat (map wire_sn_pair qos))) c =
    Ok () (c\<lparr>jo_next_sn := \<lparr>sn_val = qos, sn_is_qos = True\<rparr>\<rparr>)"
  by (simp add: z_join_decode_ext_def t_ext_ok bind_ok_def Let_def on_slice_consumes [OF join_qos_consumes [OF assms]])

lemma join_exts_run:
  assumes "conduit_wf (jo_next_sn m)" "conduit_wf (jo_next_sn c)" "jo_patch c = Z_NO_PATCH"
    "\<not> sn_is_qos (jo_next_sn m) \<Longrightarrow> jo_next_sn c = recv_conduit (jo_next_sn m)"
  shows "run_callback z_join_decode_ext (join_exts m) c =
    Some (c\<lparr>jo_next_sn := recv_conduit (jo_next_sn m), jo_patch := jo_patch m\<rparr>)"
proof -
  let ?q = "if sn_is_qos (jo_next_sn m)
     then [zbuf_ext Z_MSG_EXT_ID_JOIN_QOS (concat (map wire_sn_pair (sn_val (jo_next_sn m))))] else []"
  let ?c = "c\<lparr>jo_next_sn := recv_conduit (jo_next_sn m)\<rparr>"
  have "length (sn_val (jo_next_sn c)) = length (sn_val (jo_next_sn m))" using assms(1,2) by (simp add: conduit_wf_def)
  note qos = join_cb_qos [OF this]
  have "run_callback z_join_decode_ext ?q c = Some ?c"
    using qos assms(4) by (cases "jo_next_sn m") (auto simp: recv_conduit_def)
  moreover have "run_callback z_join_decode_ext (patch_exts (jo_patch m)) ?c = Some (?c\<lparr>jo_patch := jo_patch m\<rparr>)"
    using assms(3) by (intro run_patch [where F = "\<lambda>p c. c\<lparr>jo_patch := p\<rparr>"]) (simp_all add: join_cb_patch)
  ultimately show ?thesis by (simp only: join_exts_def run_append)
qed

lemma join_exts_flag: "sn_is_qos (jo_next_sn m) \<or> jo_patch m \<noteq> Z_NO_PATCH \<longleftrightarrow> join_exts m \<noteq> []"
  by (simp add: join_exts_def patch_exts_def)

lemma join_consumes:
  assumes ok: "join_ok header m"
  shows "consumes (z_join_decode header) (wire_join header m) (recv_join m)"
proof -
  let ?T = "Z_HAS_FLAG header Z_FLAG_T_JOIN_T"
  have who: "who_ok (jo_whatami m) (jo_zid m)" and c: "conduit_wf (jo_next_sn m)"
    and r: "res_ok (Z_HAS_FLAG header Z_FLAG_T_JOIN_S) (jo_seq_num_res m) (jo_req_id_res m) (jo_batch_size m) Z_DEFAULT_MULTICAST_BATCH_SIZE"
    and T: "?T \<Longrightarrow> jo_lease m mod 1000 = 0" and z: "Z_HAS_FLAG header Z_FLAG_T_Z \<longleftrightarrow> join_exts m \<noteq> []"
    using ok by (auto simp: join_ok_def join_exts_flag)
  have lease: "(if ?T then (if ?T then jo_lease m div 1000 else jo_lease m) * 1000 else (if ?T then jo_lease m div 1000 else jo_lease m)) = jo_lease m"
    using lease_seconds T by simp
  let ?m = "\<lparr>jo_zid = jo_zid m, jo_lease = jo_lease m,
                 jo_next_sn = conduit_null\<lparr>sn_val := (sn_val conduit_null)[0 := sn_plain (jo_next_sn m)]\<rparr>, jo_batch_size = jo_batch_size m,
                 jo_whatami = jo_whatami m, jo_req_id_res = jo_req_id_res m, jo_seq_num_res = jo_seq_num_res m,
                 jo_version = jo_version m, jo_patch = Z_NO_PATCH\<rparr>"
  have run: "run_callback z_join_decode_ext (join_exts m) ?m = Some (?m\<lparr>jo_next_sn := recv_conduit (jo_next_sn m), jo_patch := jo_patch m\<rparr>)"
    by (rule join_exts_run [OF c]) (simp_all add: conduit_wf_def conduit_null_def recv_conduit_def)
  have "consumes (z_join_decode header) (wire_join header m) (?m\<lparr>jo_next_sn := recv_conduit (jo_next_sn m), jo_patch := jo_patch m\<rparr>)"
    unfolding z_join_decode_def wire_join_def wire_who_def wire_lease_def
    apply (rule consumes_bind2 [OF two_bytes_consumes [of "jo_version m" "who_byte (jo_whatami m) (jo_zid m)"]])
     apply (simp only: prod.case)
     apply (rule consumes_bind [OF zid_consumes [OF who]])
     apply (rule consumes_bind [OF res_consumes [OF r]])
     apply (simp only: prod.case)
     apply (rule consumes_bind [OF zsize_consumes [of "if ?T then jo_lease m div 1000 else jo_lease m"]])
     apply (rule consumes_bind [OF sn_pair_consumes [of _ "sn_plain (jo_next_sn m)"]])
     apply (simp only: Let_def lease who_byte_fields [OF who])
     apply (rule opt_exts_consumes [OF z join_exts_ok [OF c] run])
    apply simp
    done
  then show ?thesis by (cases m) (simp add: recv_join_def)
qed


section \<open>Init and open\<close>

definition wire_init :: "u8 \<Rightarrow> z_t_msg_init_t \<Rightarrow> byte list" where
  "wire_init header m = [in_version m] @ wire_who (in_whatami m) (in_zid m) @
     wire_res (Z_HAS_FLAG header Z_FLAG_T_INIT_S) (in_seq_num_res m) (in_req_id_res m) (in_batch_size m) @
     (if Z_HAS_FLAG header Z_FLAG_T_INIT_A then wire_slice (in_cookie m) else []) @ wire_exts (patch_exts (in_patch m))"

definition init_ok :: "u8 \<Rightarrow> z_t_msg_init_t \<Rightarrow> bool" where
  "init_ok header m \<longleftrightarrow> who_ok (in_whatami m) (in_zid m) \<and>
     res_ok (Z_HAS_FLAG header Z_FLAG_T_INIT_S) (in_seq_num_res m) (in_req_id_res m) (in_batch_size m) Z_DEFAULT_UNICAST_BATCH_SIZE \<and>
     (if Z_HAS_FLAG header Z_FLAG_T_INIT_A then length (in_cookie m) < 2 ^ 64 else in_cookie m = []) \<and>
     (Z_HAS_FLAG header Z_FLAG_T_Z \<longleftrightarrow> in_patch m \<noteq> Z_NO_PATCH)"

lemma appends_init:
  assumes "init_ok header m"
  shows "appends (z_init_encode header m) (wire_init header m)"
proof -
  have ok: "id_wf (in_zid m)" and z: "Z_HAS_FLAG header Z_FLAG_T_Z \<longleftrightarrow> in_patch m \<noteq> Z_NO_PATCH"
    using assms by (simp_all add: init_ok_def who_ok_def)
  have ext: "appends (if in_patch m \<noteq> Z_NO_PATCH
        then if Z_HAS_FLAG header Z_FLAG_T_Z
             then then_do (z_uint8_encode Z_MSG_EXT_ID_JOIN_PATCH) (z_zint64_encode (ucast (in_patch m)))
             else fail Z_ERR_MESSAGE_SERIALIZATION_FAILED
        else ret ()) (wire_exts (patch_exts (in_patch m)))"
    using z appends_then [OF appends_uint8 appends_zint64] by (simp add: patch_exts_def more_False appends_ret)
  show ?thesis unfolding z_init_encode_def
    apply (rule appends_cong)
     apply (rule ext appends_res appends_zid [OF ok] appends_then appends_when appends_write appends_uint8 appends_slice)+
    apply (simp add: wire_init_def wire_who_def)
    done
qed

lemma init_cb_patch: "z_init_decode_ext (zint_ext Z_MSG_EXT_ID_JOIN_PATCH v) c = Ok () (c\<lparr>in_patch := ucast v\<rparr>)"
  by (simp add: z_init_decode_ext_def t_ext_ok)

lemma patch_exts_flag: "patch \<noteq> Z_NO_PATCH \<longleftrightarrow> patch_exts patch \<noteq> []"
  by (simp add: patch_exts_def)

lemma init_consumes:
  assumes ok: "init_ok header m"
  shows "consumes (z_init_decode header) (wire_init header m) m"
proof -
  let ?A = "Z_HAS_FLAG header Z_FLAG_T_INIT_A"
  have who: "who_ok (in_whatami m) (in_zid m)" and z: "Z_HAS_FLAG header Z_FLAG_T_Z \<longleftrightarrow> patch_exts (in_patch m) \<noteq> []"
    and r: "res_ok (Z_HAS_FLAG header Z_FLAG_T_INIT_S) (in_seq_num_res m) (in_req_id_res m) (in_batch_size m) Z_DEFAULT_UNICAST_BATCH_SIZE"
    using ok by (auto simp: init_ok_def patch_exts_flag)
  have cookie: "consumes (if ?A then z_slice_decode else ret []) (if ?A then wire_slice (in_cookie m) else []) (in_cookie m)"
    using ok slice_consumes [of "in_cookie m"] by (intro consumes_opt) (auto simp: init_ok_def)
  let ?m = "m\<lparr>in_patch := Z_NO_PATCH\<rparr>"
  have m: "\<lparr>in_zid = in_zid m, in_cookie = in_cookie m, in_batch_size = in_batch_size m, in_whatami = in_whatami m,
      in_req_id_res = in_req_id_res m, in_seq_num_res = in_seq_num_res m, in_version = in_version m, in_patch = Z_NO_PATCH\<rparr> = ?m"
    by (cases m) simp
  have run: "run_callback z_init_decode_ext (patch_exts (in_patch m)) ?m = Some (?m\<lparr>in_patch := in_patch m\<rparr>)"
    by (rule run_patch [where F = "\<lambda>p c. c\<lparr>in_patch := p\<rparr>"]) (simp_all add: init_cb_patch)
  have "consumes (z_init_decode header) (wire_init header m) (?m\<lparr>in_patch := in_patch m\<rparr>)"
    unfolding z_init_decode_def wire_init_def wire_who_def
    apply (rule consumes_bind2 [OF two_bytes_consumes [of "in_version m" "who_byte (in_whatami m) (in_zid m)"]])
     apply (simp only: prod.case)
     apply (rule consumes_bind [OF zid_consumes [OF who]])
     apply (rule consumes_bind [OF res_consumes [OF r]])
     apply (simp only: prod.case)
     apply (rule consumes_bind [OF cookie])
     apply (simp only: Let_def who_byte_fields [OF who] m)
     apply (rule opt_exts_consumes [OF z patch_exts_ok run])
    apply simp
    done
  then show ?thesis by simp
qed

definition wire_open :: "u8 \<Rightarrow> z_t_msg_open_t \<Rightarrow> byte list" where
  "wire_open header m = wire_lease (Z_HAS_FLAG header Z_FLAG_T_OPEN_T) (op_lease m) @ z_zint64_encode_buf (op_initial_sn m) @
     (if \<not> Z_HAS_FLAG header Z_FLAG_T_OPEN_A then wire_slice (op_cookie m) else [])"

definition open_ok :: "u8 \<Rightarrow> z_t_msg_open_t \<Rightarrow> bool" where
  "open_ok header m \<longleftrightarrow> (Z_HAS_FLAG header Z_FLAG_T_OPEN_T \<longrightarrow> op_lease m mod 1000 = 0) \<and> \<not> Z_HAS_FLAG header Z_FLAG_T_Z \<and>
     (if Z_HAS_FLAG header Z_FLAG_T_OPEN_A then op_cookie m = [] else length (op_cookie m) < 2 ^ 64)"

lemma appends_open: "appends (z_open_encode header m) (wire_open header m)"
  unfolding z_open_encode_def wire_open_def
  by (rule appends_lease appends_then appends_when appends_zsize appends_slice)+

lemma open_consumes:
  assumes ok: "open_ok header m"
  shows "consumes (z_open_decode header) (wire_open header m) m"
proof -
  let ?A = "Z_HAS_FLAG header Z_FLAG_T_OPEN_A" and ?T = "Z_HAS_FLAG header Z_FLAG_T_OPEN_T"
  let ?l = "if ?T then op_lease m div 1000 else op_lease m"
  have lease: "(if Z_RES_OK = Z_RES_OK \<and> ?T then ?l * 1000 else ?l) = op_lease m"
    using ok lease_seconds by (simp add: open_ok_def)
  have cookie: "consumes (if \<not> ?A then z_slice_decode else ret []) (if \<not> ?A then wire_slice (op_cookie m) else []) (op_cookie m)"
    using ok slice_consumes [of "op_cookie m"] by (intro consumes_opt) (auto simp: open_ok_def)
  have skip: "skip_if (Z_HAS_FLAG header Z_FLAG_T_Z) = ret ()" using ok by (simp add: open_ok_def skip_if_none)
  have m: "\<lparr>op_lease = op_lease m, op_initial_sn = op_initial_sn m, op_cookie = op_cookie m\<rparr> = m" by simp
  show ?thesis unfolding z_open_decode_def wire_open_def wire_lease_def
    apply (rule consumes_try [OF zsize_consumes [of ?l]])
     apply (simp only: prod.case Let_def lease)
     apply (rule consumes_try [OF zsize_consumes [of "op_initial_sn m"]])
      apply (simp only: prod.case res_ok_or return_code_def if_True simp_thms)
      apply (rule consumes_bind2 [OF consumes_ret])
       apply (rule consumes_last [OF cookie])
       apply (simp only: skip bind_ok_ret m)
      apply simp_all
    done
qed


section \<open>Frame and fragment\<close>

text \<open>The payload of a frame or a fragment is what is left of the buffer.\<close>

definition frame_payload :: "z_t_msg_frame_t \<Rightarrow> byte list" where
  "frame_payload m = (case fm_payload m of None \<Rightarrow> [] | Some z \<Rightarrow> zbuf_bytes z)"

definition wire_frame :: "z_t_msg_frame_t \<Rightarrow> byte list" where
  "wire_frame m = z_zint64_encode_buf (fm_sn m) @ frame_payload m"

definition frame_ok :: "u8 \<Rightarrow> z_t_msg_frame_t \<Rightarrow> bool" where
  "frame_ok header m \<longleftrightarrow> \<not> Z_HAS_FLAG header Z_FLAG_T_Z \<and> (case fm_payload m of None \<Rightarrow> True | Some z \<Rightarrow> zbuf_wf z)"

lemma appends_frame:
  assumes "frame_ok header m"
  shows "appends (z_frame_encode header m) (wire_frame m)"
proof -
  have nz: "\<not> Z_HAS_FLAG header Z_FLAG_T_Z" using assms by (simp add: frame_ok_def)
  have body: "appends (case fm_payload m of None \<Rightarrow> ret ()
      | Some payload \<Rightarrow> z_wbuf_write_bytes (z_zbuf_get_rptr payload) 0 (z_zbuf_len payload)) (frame_payload m)"
  proof (cases "fm_payload m")
    case (Some z)
    then have wf: "zbuf_wf z" using assms by (simp add: frame_ok_def)
    have "take (z_zbuf_len z) (z_zbuf_get_rptr z) = zbuf_bytes z"
      by (simp add: z_zbuf_len_def z_zbuf_get_rptr_def zbuf_bytes_def z_iosli_to_bytes_def)
    moreover have "0 + z_zbuf_len z \<le> length (z_zbuf_get_rptr z)"
      using wf by (auto simp: zbuf_wf_def ios_wf_def z_zbuf_len_def z_iosli_readable_def z_zbuf_get_rptr_def)
    ultimately show ?thesis using Some appends_write_bytes [of 0 "z_zbuf_len z" "z_zbuf_get_rptr z"]
      by (simp add: frame_payload_def)
  qed (simp add: frame_payload_def appends_ret)
  show ?thesis unfolding z_frame_encode_def wire_frame_def using nz
    by (simp only: if_False) (rule appends_then appends_zsize body)+
qed

lemma frame_decodes:
  assumes "frame_ok header m" "zbuf_wf z" "zbuf_bytes z = wire_frame m"
  shows "\<exists>z'. z_frame_decode header z = Ok \<lparr>fm_payload = Some z', fm_sn = fm_sn m\<rparr> z' \<and> zbuf_wf z' \<and>
    zbuf_bytes z' = frame_payload m"
proof -
  have nz: "skip_if (Z_HAS_FLAG header Z_FLAG_T_Z) = ret ()" using assms(1) by (simp add: frame_ok_def skip_if_none)
  let ?z = "zadv (length (z_zint64_encode_buf (fm_sn m))) z"
  have "z_zsize_decode z = Ok (fm_sn m) ?z" by (rule consumesD [OF zsize_consumes assms(2)]) (simp add: assms(3) wire_frame_def)
  moreover have "zbuf_wf ?z" "zbuf_bytes ?z = frame_payload m" using assms(2,3) by (auto simp: wire_frame_def intro!: zadv_wf)
  ultimately show ?thesis by (simp add: z_frame_decode_def nz bind_ok_def ret_def)
qed

definition unit_ext :: "u8 \<Rightarrow> z_msg_ext_t" where
  "unit_ext i = \<lparr>ext_body = Ext_Unit, ext_header = i\<rparr>"

definition fragment_exts :: "z_t_msg_fragment_t \<Rightarrow> z_msg_ext_t list" where
  "fragment_exts m = (if fg_first m then [unit_ext Z_MSG_EXT_ID_FRAGMENT_FIRST] else []) @
     (if fg_drop m then [unit_ext Z_MSG_EXT_ID_FRAGMENT_DROP] else [])"

definition wire_fragment :: "z_t_msg_fragment_t \<Rightarrow> byte list" where
  "wire_fragment m = z_zint64_encode_buf (fg_sn m) @ wire_exts (fragment_exts m) @ fg_payload m"

definition fragment_ok :: "u8 \<Rightarrow> z_t_msg_fragment_t \<Rightarrow> bool" where
  "fragment_ok header m \<longleftrightarrow> (Z_HAS_FLAG header Z_FLAG_T_Z \<longleftrightarrow> fg_first m \<or> fg_drop m)"

lemma appends_fragment:
  assumes "fragment_ok header m"
  shows "appends (z_fragment_encode header m) (wire_fragment m)"
proof -
  let ?z = "Z_HAS_FLAG header Z_FLAG_T_Z"
  have z: "?z \<longleftrightarrow> fg_first m \<or> fg_drop m" using assms by (simp add: fragment_ok_def)
  have no_fail: "(if (fg_first m \<or> fg_drop m) \<and> \<not> ?z then fail Z_ERR_MESSAGE_SERIALIZATION_FAILED else ret ()) =
      (ret () :: (unit, z_wbuf_t) prog)" using z by auto
  show ?thesis unfolding z_fragment_encode_def Let_def no_fail
    apply (rule appends_cong)
     apply (rule appends_then appends_when appends_zsize appends_uint8 appends_write_all appends_ret)+
    using z by (simp add: wire_fragment_def fragment_exts_def unit_ext_def wire_ext_def wire_ext_body_def more_False)
qed

lemma fragment_exts_ok: "list_all ext_wf (fragment_exts m)"
  by (simp add: fragment_exts_def unit_ext_def ext_wf_def z_ext_consts)

lemma fragment_cbs:
  "z_fragment_decode_ext (unit_ext Z_MSG_EXT_ID_FRAGMENT_FIRST) c = Ok () (c\<lparr>fg_first := True\<rparr>)"
  "z_fragment_decode_ext (unit_ext Z_MSG_EXT_ID_FRAGMENT_DROP) c = Ok () (c\<lparr>fg_drop := True\<rparr>)"
  by (simp_all add: z_fragment_decode_ext_def unit_ext_def z_ext_consts)

lemma fragment_yields:
  assumes ok: "fragment_ok header m"
  shows "yields (z_fragment_decode header) (wire_fragment m) m"
  unfolding yields_def
proof (intro allI impI, elim conjE)
  fix z assume z: "zbuf_wf z" "zbuf_bytes z = wire_fragment m"
  let ?c = "\<lparr>fg_payload = [], fg_sn = fg_sn m, fg_first = False, fg_drop = False\<rparr>"
  have flag: "Z_HAS_FLAG header Z_FLAG_T_Z \<longleftrightarrow> fragment_exts m \<noteq> []" using ok by (simp add: fragment_ok_def fragment_exts_def)
  have run: "run_callback z_fragment_decode_ext (fragment_exts m) ?c = Some (m\<lparr>fg_payload := []\<rparr>)"
    by (cases m) (simp add: fragment_exts_def fragment_cbs)
  have "consumes (bind_ok z_zsize_decode (\<lambda>sn.
           let msg = \<lparr>fg_payload = [], fg_sn = sn, fg_first = False, fg_drop = False\<rparr> in
           if Z_HAS_FLAG header Z_FLAG_T_Z then z_msg_ext_decode_iter z_fragment_decode_ext msg else ret msg))
     (z_zint64_encode_buf (fg_sn m) @ wire_exts (fragment_exts m)) (m\<lparr>fg_payload := []\<rparr>)"
    unfolding Let_def by (rule consumes_bind, rule zsize_consumes, rule opt_exts_consumes [OF flag fragment_exts_ok run])
  note d = consumesD [OF consumes_attempt [OF this] z(1), of "fg_payload m"]
  let ?z = "zadv (length (z_zint64_encode_buf (fg_sn m) @ wire_exts (fragment_exts m))) z"
  have "zbuf_bytes ?z = fg_payload m" using z(2) by (simp add: wire_fragment_def)
  then have "take_rest ?z = Ok (fg_payload m) (zadv (z_zbuf_len ?z) ?z)" by (simp add: take_rest_def)
  with d z(2) show "\<exists>z'. z_fragment_decode header z = Ok m z'"
    by (simp add: z_fragment_decode_def bind_ok_def wire_fragment_def return_code_def ret_def del: zadv_zadv)
qed


section \<open>Messages\<close>

definition wire_transport :: "z_transport_message_t \<Rightarrow> byte list" where
  "wire_transport msg = tm_header msg # (case tm_body msg of
     T_Join m \<Rightarrow> wire_join (tm_header msg) m
   | T_Init m \<Rightarrow> wire_init (tm_header msg) m
   | T_Open m \<Rightarrow> wire_open (tm_header msg) m
   | T_Close m \<Rightarrow> [cl_reason m]
   | T_Keep_Alive \<Rightarrow> []
   | T_Frame m \<Rightarrow> wire_frame m
   | T_Fragment m \<Rightarrow> wire_fragment m)"

definition transport_ok :: "z_transport_message_t \<Rightarrow> bool" where
  "transport_ok msg \<longleftrightarrow> (let header = tm_header msg; mid = Z_MID header in case tm_body msg of
     T_Join m \<Rightarrow> mid = Z_MID_T_JOIN \<and> join_ok header m
   | T_Init m \<Rightarrow> mid = Z_MID_T_INIT \<and> init_ok header m
   | T_Open m \<Rightarrow> mid = Z_MID_T_OPEN \<and> open_ok header m
   | T_Close m \<Rightarrow> mid = Z_MID_T_CLOSE
   | T_Keep_Alive \<Rightarrow> mid = Z_MID_T_KEEP_ALIVE \<and> \<not> Z_HAS_FLAG header Z_FLAG_T_Z
   | T_Frame m \<Rightarrow> mid = Z_MID_T_FRAME \<and> frame_ok header m
   | T_Fragment m \<Rightarrow> mid = Z_MID_T_FRAGMENT \<and> fragment_ok header m)"

text \<open>What the receiver sees of a message: for a frame, a buffer with the bytes of the payload.\<close>

definition transport_same :: "z_transport_message_t \<Rightarrow> z_transport_message_t \<Rightarrow> bool" where
  "transport_same a b \<longleftrightarrow> tm_header b = tm_header a \<and> (case tm_body a of
     T_Frame m \<Rightarrow> (case tm_body b of
        T_Frame n \<Rightarrow> fm_sn n = fm_sn m \<and> fm_payload n \<noteq> None \<and> frame_payload n = frame_payload m | _ \<Rightarrow> False)
   | T_Join m \<Rightarrow> tm_body b = T_Join (recv_join m)
   | x \<Rightarrow> tm_body b = x)"

lemma t_mids_distinct [simp]:
  "Z_MID_T_FRAGMENT \<noteq> Z_MID_T_FRAME" "Z_MID_T_KEEP_ALIVE \<noteq> Z_MID_T_FRAME" "Z_MID_T_KEEP_ALIVE \<noteq> Z_MID_T_FRAGMENT"
  "Z_MID_T_JOIN \<noteq> Z_MID_T_FRAME" "Z_MID_T_JOIN \<noteq> Z_MID_T_FRAGMENT" "Z_MID_T_JOIN \<noteq> Z_MID_T_KEEP_ALIVE"
  "Z_MID_T_INIT \<noteq> Z_MID_T_FRAME" "Z_MID_T_INIT \<noteq> Z_MID_T_FRAGMENT" "Z_MID_T_INIT \<noteq> Z_MID_T_KEEP_ALIVE" "Z_MID_T_INIT \<noteq> Z_MID_T_JOIN"
  "Z_MID_T_OPEN \<noteq> Z_MID_T_FRAME" "Z_MID_T_OPEN \<noteq> Z_MID_T_FRAGMENT" "Z_MID_T_OPEN \<noteq> Z_MID_T_KEEP_ALIVE" "Z_MID_T_OPEN \<noteq> Z_MID_T_JOIN"
  "Z_MID_T_OPEN \<noteq> Z_MID_T_INIT" "Z_MID_T_CLOSE \<noteq> Z_MID_T_FRAME" "Z_MID_T_CLOSE \<noteq> Z_MID_T_FRAGMENT"
  "Z_MID_T_CLOSE \<noteq> Z_MID_T_KEEP_ALIVE" "Z_MID_T_CLOSE \<noteq> Z_MID_T_JOIN" "Z_MID_T_CLOSE \<noteq> Z_MID_T_INIT" "Z_MID_T_CLOSE \<noteq> Z_MID_T_OPEN"
  by (simp_all add: t_mid_defs)

lemma appends_transport:
  assumes "transport_ok msg"
  shows "appends (z_transport_message_encode msg) (wire_transport msg)"
proof -
  have cons: "appends e bs \<Longrightarrow> appends (then_do (z_wbuf_write h) e) (h # bs)" for e bs h
    using appends_then [OF appends_write, of e bs h] by simp
  show ?thesis using assms
    by (cases "tm_body msg")
      (auto simp: z_transport_message_encode_def transport_ok_def wire_transport_def Let_def z_close_encode_def z_keep_alive_encode_def
        intro!: cons appends_join appends_init appends_open appends_frame appends_fragment appends_ret appends_write)
qed

lemma headed_yields: "yields (d h) bs v \<Longrightarrow> yields (bind_ok z_uint8_decode d) (h # bs) v"
  using yields_bind [OF uint8_consumes [of h], of d bs v] by simp

lemma yields_last: "yields d bs x \<Longrightarrow> f x = ret y \<Longrightarrow> yields (bind_ok d f) bs y"
  by (fastforce simp: yields_def bind_ok_def ret_def)

lemma frame_message_decodes:
  assumes "transport_ok msg" "tm_body msg = T_Frame m" "zbuf_wf z" "zbuf_bytes z = wire_transport msg"
  shows "\<exists>n z'. z_transport_message_decode z = Ok n z' \<and> transport_same msg n"
proof -
  have ok: "Z_MID (tm_header msg) = Z_MID_T_FRAME" "frame_ok (tm_header msg) m" using assms(1,2) by (simp_all add: transport_ok_def Let_def)
  have h: "z_uint8_decode z = Ok (tm_header msg) (zadv 1 z)"
    using consumesD [OF uint8_consumes assms(3), of "tm_header msg" "wire_frame m"] assms(2,4) by (simp add: wire_transport_def)
  have z: "zbuf_wf (zadv 1 z)" "zbuf_bytes (zadv 1 z) = wire_frame m"
    using assms by (auto simp: wire_transport_def intro!: zadv_wf)
  from frame_decodes [OF ok(2) z] obtain z' where
    "z_frame_decode (tm_header msg) (zadv 1 z) = Ok \<lparr>fm_payload = Some z', fm_sn = fm_sn m\<rparr> z'" "zbuf_bytes z' = frame_payload m"
    by blast
  then show ?thesis using h ok(1) assms(2)
    by (simp add: z_transport_message_decode_def bind_ok_def ret_def Let_def transport_same_def frame_payload_def)
qed

lemma transport_decodes:
  assumes ok: "transport_ok msg" and z: "zbuf_wf z" "zbuf_bytes z = wire_transport msg"
  shows "\<exists>n z'. z_transport_message_decode z = Ok n z' \<and> transport_same msg n"
proof (cases "\<exists>m. tm_body msg = T_Frame m")
  case True
  then show ?thesis using frame_message_decodes [OF ok _ z] by blast
next
  case False
  let ?n = "case tm_body msg of T_Join m \<Rightarrow> msg\<lparr>tm_body := T_Join (recv_join m)\<rparr> | _ \<Rightarrow> msg"
  have close: "consumes (z_close_decode h) [cl_reason m] m" for h m
    unfolding z_close_decode_def by (rule consumes_last [OF uint8_consumes]) (cases m, simp)
  have alive: "\<not> Z_HAS_FLAG h Z_FLAG_T_Z \<Longrightarrow> yields (z_keep_alive_decode h) [] ()" for h
    by (simp add: z_keep_alive_decode_def Z_FLAG_Z_Z_def Z_FLAG_T_Z_def skip_if_none consumes_yields consumes_ret)
  have "yields z_transport_message_decode (wire_transport msg) ?n"
    unfolding z_transport_message_decode_def wire_transport_def
    using ok False
    by (cases msg; cases "tm_body msg"; intro headed_yields)
       (auto simp: transport_ok_def Let_def intro!: yields_last
         intro: join_consumes [THEN consumes_yields] init_consumes [THEN consumes_yields] open_consumes [THEN consumes_yields]
           close [THEN consumes_yields] alive fragment_yields)
  moreover have "transport_same msg ?n" using False by (cases "tm_body msg") (auto simp: transport_same_def)
  ultimately show ?thesis using z by (auto simp: yields_def)
qed


text \<open>
  A codec whose messages end with their packet: the decoder is given exactly one message. The
  receiver's value is related to the sender's by \<open>same\<close>.
\<close>

locale packet_codec = wire_encoder enc wire ok
  for enc :: "'a \<Rightarrow> (unit, z_wbuf_t) prog" and wire ok +
  fixes dec :: "('b, z_zbuf_t) prog"
    and same :: "'a \<Rightarrow> 'b \<Rightarrow> bool"
  assumes dec_same: "ok x \<Longrightarrow> zbuf_wf z \<Longrightarrow> zbuf_bytes z = wire x \<Longrightarrow> \<exists>y z'. dec z = Ok y z' \<and> same x y"
begin

lemma packet_roundtrip:
  assumes "ok x" "wbuf_wf w" "wbuf_bytes w = []" "wbuf_fits w (length (wire x))"
  shows "\<exists>w' z y z'. enc x w = Ok () w' \<and> z_wbuf_to_zbuf w' = Ok () z \<and> dec z = Ok y z' \<and> same x y"
proof -
  from enc_complete [OF assms(1,2,4)] obtain w' where
    w': "enc x w = Ok () w'" "wbuf_wf w'" "wbuf_bytes w' = wbuf_bytes w @ wire x" by blast
  from wbuf_to_zbuf_ok [OF w'(2)] obtain z where
    z: "z_wbuf_to_zbuf w' = Ok () z" "zbuf_wf z" "zbuf_bytes z = wbuf_bytes w'" by blast
  then have "zbuf_bytes z = wire x" by (simp only: w'(3) assms(3) append_Nil)
  from dec_same [OF assms(1) z(2) this] show ?thesis using w'(1) z(1) by blast
qed

end

interpretation transport: packet_codec z_transport_message_encode wire_transport transport_ok
    z_transport_message_decode transport_same
  by unfold_locales (simp_all only: appends_transport transport_decodes)

section \<open>The makers\<close>

lemma set_flag_simps:
  "Z_MID (set_flag b f h) = (if b then Z_MID (h OR f) else Z_MID h)"
  "Z_HAS_FLAG (set_flag b f h) g = (if b then Z_HAS_FLAG (h OR f) g else Z_HAS_FLAG h g)"
  by (simp_all add: set_flag_def)

lemma make_join_ok:
  "who_ok whatami zid \<Longrightarrow> conduit_wf next_sn \<Longrightarrow> transport_ok (z_t_msg_make_join whatami lease zid next_sn)"
  by (auto simp: transport_ok_def z_t_msg_make_join_def join_ok_def res_ok_def t_config_defs set_flag_def t_mid_defs t_flag_defs
      Z_MID_def Z_MID_MASK_def Z_HAS_FLAG_def Let_def)

lemma make_init_syn_ok: "who_ok whatami zid \<Longrightarrow> transport_ok (z_t_msg_make_init_syn whatami zid)"
  by (auto simp: transport_ok_def z_t_msg_make_init_syn_def init_ok_def res_ok_def t_config_defs set_flag_def t_mid_defs t_flag_defs
      Z_MID_def Z_MID_MASK_def Z_HAS_FLAG_def Let_def)

lemma make_init_ack_ok:
  "who_ok whatami zid \<Longrightarrow> length cookie < 2 ^ 64 \<Longrightarrow> transport_ok (z_t_msg_make_init_ack whatami zid cookie)"
  by (auto simp: transport_ok_def z_t_msg_make_init_ack_def init_ok_def res_ok_def t_config_defs set_flag_def t_mid_defs t_flag_defs
      Z_MID_def Z_MID_MASK_def Z_HAS_FLAG_def Let_def)

lemma make_open_ok:
  "length cookie < 2 ^ 64 \<Longrightarrow> transport_ok (z_t_msg_make_open_syn lease sn cookie)"
  "transport_ok (z_t_msg_make_open_ack lease sn)"
  by (auto simp: transport_ok_def z_t_msg_make_open_syn_def z_t_msg_make_open_ack_def open_ok_def set_flag_def t_mid_defs t_flag_defs
      Z_MID_def Z_MID_MASK_def Z_HAS_FLAG_def Let_def)

lemma make_rest_ok:
  "transport_ok (z_t_msg_make_close reason link_only)"
  "transport_ok z_t_msg_make_keep_alive"
  "(\<And>z. payload = Some z \<Longrightarrow> zbuf_wf z) \<Longrightarrow> transport_ok (z_t_msg_make_frame sn payload reliability)"
  "transport_ok (z_t_msg_make_frame_header sn reliability)"
  "transport_ok (z_t_msg_make_fragment sn bytes reliability is_last first drp)"
  "transport_ok (z_t_msg_make_fragment_header sn reliability is_last first drp)"
  by (auto simp: transport_ok_def z_t_msg_make_close_def z_t_msg_make_keep_alive_def z_t_msg_make_frame_def
      z_t_msg_make_frame_header_def z_t_msg_make_fragment_def z_t_msg_make_fragment_header_def frame_ok_def fragment_ok_def
      set_flag_def t_mid_defs t_flag_defs Z_MID_def Z_MID_MASK_def Z_HAS_FLAG_def Let_def split: option.split)

lemmas makers_ok = make_join_ok make_init_syn_ok make_init_ack_ok make_open_ok make_rest_ok

end
