(* ===== verification/Zp_Tx.thy ===== *)
theory Zp_Tx imports Zp_TransLaws
begin

text \<open>
  Sending: \<^verbatim>\<open>src/transport/common/tx.c\<close> with batching and fragmentation, and the part of
  \<^verbatim>\<open>src/link/link.c\<close> that puts a buffer on a link. A link is its capabilities and the
  functions of the platform behind its pointers, which are parameters: they take a state of the
  network of any type \<open>'n\<close>, and a socket is of any type \<open>'s\<close>. The transport is a record with
  that state in it. A list of peers is the list of their sockets; the empty list is the null
  pointer. Locks are not part of the state: the functions run with the lock they take.

  Two loops of this code need not end; they are \<open>partial_function\<close>s with the value \<open>None\<close> for
  no return, and the functions that call them return \<open>Fault\<close> then, so that here \<open>Fault\<close> means
  that the code has no defined result or does not come back.
\<close>

section \<open>Links\<close>

definition Z_LINK_CAP_FLOW_DATAGRAM :: u8 where "Z_LINK_CAP_FLOW_DATAGRAM = 0"
definition Z_LINK_CAP_FLOW_STREAM :: u8 where "Z_LINK_CAP_FLOW_STREAM = 1"
definition Z_MSG_LEN_ENC_SIZE :: nat where "Z_MSG_LEN_ENC_SIZE = 2"
definition Z_ERR_TRANSPORT_TX_FAILED :: z_result_t where "Z_ERR_TRANSPORT_TX_FAILED = - 100"
definition Z_FRAG_BUFF_BASE_SIZE :: nat where "Z_FRAG_BUFF_BASE_SIZE = 128"

text \<open>
  The write function returns how many bytes it took, or \<^verbatim>\<open>SIZE_MAX\<close>. The read functions
  return the bytes they put at the write pointer, or nothing for \<^verbatim>\<open>SIZE_MAX\<close>.
\<close>

record ('n, 's) z_link_t =
  lk_write_f :: "'s option \<Rightarrow> byte list \<Rightarrow> 'n \<Rightarrow> nat \<times> 'n"
  lk_read_f :: "nat \<Rightarrow> 'n \<Rightarrow> byte list option \<times> 'n"
  lk_read_exact_f :: "nat \<Rightarrow> 's option \<Rightarrow> 'n \<Rightarrow> byte list option \<times> 'n"
  lk_read_socket_f :: "'s \<Rightarrow> nat \<Rightarrow> 'n \<Rightarrow> byte list option \<times> 'n"
  lk_mtu :: u16
  lk_flow :: u8

text \<open>
  One slice on the link. The start of what is still to be written moves by all that was written
  of the slice so far, in each round: after two partial writes it is too far.
\<close>

partial_function (option) link_write_loop ::
    "('n, 's) z_link_t \<Rightarrow> 's option \<Rightarrow> byte list \<Rightarrow> nat \<Rightarrow> nat \<Rightarrow> nat \<Rightarrow> 'n \<Rightarrow> (unit, 'n) res option" where
  "link_write_loop lk sock buf start len n net =
     (if length buf < start + n then Some Fault
      else let r = lk_write_f lk sock (take n (drop start buf)) net; wb = fst r; net' = snd r in
           if wb = 2 ^ 64 - 1 \<or> n < wb then Some (Err Z_ERR_TRANSPORT_TX_FAILED net')
           else if lk_flow lk = Z_LINK_CAP_FLOW_STREAM \<and> wb \<noteq> n then Some (Err Z_ERR_TRANSPORT_TX_FAILED net')
           else if 0 < n - wb then link_write_loop lk sock buf (start + (len - (n - wb))) len (n - wb) net'
           else Some (Ok () net'))"

definition link_write_slice :: "('n, 's) z_link_t \<Rightarrow> 's option \<Rightarrow> z_iosli_t \<Rightarrow> (unit, 'n) prog" where
  "link_write_slice lk sock ios net =
     (case link_write_loop lk sock (ios_buf ios) (ios_r_pos ios) (z_iosli_readable ios) (z_iosli_readable ios) net of
        None \<Rightarrow> Fault | Some r \<Rightarrow> r)"

fun link_write_slices :: "('n, 's) z_link_t \<Rightarrow> 's option \<Rightarrow> z_iosli_t list \<Rightarrow> (unit, 'n) prog" where
  "link_write_slices lk sock [] = ret ()"
| "link_write_slices lk sock (ios # slices) = then_do (link_write_slice lk sock ios) (link_write_slices lk sock slices)"

definition z_link_send_wbuf :: "('n, 's) z_link_t \<Rightarrow> z_wbuf_t \<Rightarrow> 's option \<Rightarrow> (unit, 'n) prog" where
  "z_link_send_wbuf lk wbf sock = link_write_slices lk sock (sv_val (wb_ioss wbf))"

section \<open>The transport\<close>

definition Z_BATCHING_IDLE :: u8 where "Z_BATCHING_IDLE = 0"
definition Z_BATCHING_ACTIVE :: u8 where "Z_BATCHING_ACTIVE = 1"

record ('n, 's) z_transport_common_t =
  tc_link :: "('n, 's) z_link_t"
  tc_wbuf :: z_wbuf_t
  tc_zbuf :: z_zbuf_t
  tc_sn_res :: z_zint_t
  tc_sn_tx_reliable :: z_zint_t
  tc_sn_tx_best_effort :: z_zint_t
  tc_lease :: z_zint_t
  tc_transmitted :: bool
  tc_batch_state :: u8
  tc_batch_count :: nat
  tc_net :: 'n

definition on_wbuf :: "('a, z_wbuf_t) prog \<Rightarrow> ('a, ('n, 's) z_transport_common_t) prog" where
  "on_wbuf p t = (case p (tc_wbuf t) of Ok x w \<Rightarrow> Ok x (t\<lparr>tc_wbuf := w\<rparr>) | Err e w \<Rightarrow> Err e (t\<lparr>tc_wbuf := w\<rparr>) | Fault \<Rightarrow> Fault)"

definition on_net :: "('a, 'n) prog \<Rightarrow> ('a, ('n, 's) z_transport_common_t) prog" where
  "on_net p t = (case p (tc_net t) of Ok x w \<Rightarrow> Ok x (t\<lparr>tc_net := w\<rparr>) | Err e w \<Rightarrow> Err e (t\<lparr>tc_net := w\<rparr>) | Fault \<Rightarrow> Fault)"

definition z_transport_tx_get_sn :: "z_reliability_t \<Rightarrow> (z_zint_t, ('n, 's) z_transport_common_t) prog" where
  "z_transport_tx_get_sn reliability t =
     (if reliability = Z_RELIABILITY_RELIABLE
      then Ok (tc_sn_tx_reliable t) (t\<lparr>tc_sn_tx_reliable := z_sn_increment (tc_sn_res t) (tc_sn_tx_reliable t)\<rparr>)
      else Ok (tc_sn_tx_best_effort t) (t\<lparr>tc_sn_tx_best_effort := z_sn_increment (tc_sn_res t) (tc_sn_tx_best_effort t)\<rparr>))"

text \<open>Space for the length of the packet on a stream, and the length.\<close>

definition unsafe_z_prepare_wbuf :: "u8 \<Rightarrow> (unit, z_wbuf_t) prog" where
  "unsafe_z_prepare_wbuf flow =
     then_do z_wbuf_reset
       (when_do (flow = Z_LINK_CAP_FLOW_STREAM)
          (then_do (z_wbuf_put 0 0) (then_do (z_wbuf_put 0 1) (z_wbuf_set_wpos Z_MSG_LEN_ENC_SIZE))))"

definition unsafe_z_finalize_wbuf :: "u8 \<Rightarrow> (unit, z_wbuf_t) prog" where
  "unsafe_z_finalize_wbuf flow buf =
     (if flow = Z_LINK_CAP_FLOW_STREAM
      then let len = of_nat (size_sub (z_wbuf_len buf) Z_MSG_LEN_ENC_SIZE) in
           then_do (z_wbuf_put (z_get_u16_lsb len) 0) (z_wbuf_put (z_get_u16_msb len) 1) buf
      else Ok () buf)"

text \<open>To the socket of the link, whose result counts, or to every peer, whose results are not looked at.\<close>

fun send_to_peers :: "'s list \<Rightarrow> (unit, ('n, 's) z_transport_common_t) prog" where
  "send_to_peers [] = ret ()"
| "send_to_peers (s # peers) =
     then_do (\<lambda>t. ignore_code (on_net (z_link_send_wbuf (tc_link t) (tc_wbuf t) (Some s))) t) (send_to_peers peers)"

definition tx_send_wbuf :: "'s list \<Rightarrow> (unit, ('n, 's) z_transport_common_t) prog" where
  "tx_send_wbuf peers =
     (if peers = [] then (\<lambda>t. on_net (z_link_send_wbuf (tc_link t) (tc_wbuf t) None) t) else send_to_peers peers)"

section \<open>Fragments\<close>

text \<open>
  The header of a fragment is first written as that of one that is not the last, and written
  again when the rest of the message fits. The reliability that is handed on is the outcome of a
  comparison, 1 when the message is reliable, which as a reliability is best effort.
\<close>

function serialize_fragment_loop ::
    "z_reliability_t \<Rightarrow> z_zint_t \<Rightarrow> bool \<Rightarrow> bool \<Rightarrow> (unit, z_wbuf_t \<times> z_wbuf_t) prog" where
  "serialize_fragment_loop reliability sn first is_final ws =
     (let dst = fst ws; src = snd ws;
          f_hdr = z_t_msg_make_fragment_header sn (of_bool (reliability = Z_RELIABILITY_RELIABLE)) is_final first False in
      case z_wbuf_get_wpos dst of
        None \<Rightarrow> Fault
      | Some w_pos \<Rightarrow>
          (case z_transport_message_encode f_hdr dst of
             Err e dst \<Rightarrow> Err e (dst, src)
           | Fault \<Rightarrow> Fault
           | Ok _ dst \<Rightarrow>
               (case z_wbuf_space_left dst of
                  None \<Rightarrow> Fault
                | Some space_left \<Rightarrow>
                    let bytes_left = z_wbuf_len src in
                    if \<not> is_final \<and> bytes_left \<le> space_left
                    then (case z_wbuf_set_wpos w_pos dst of
                            Ok _ dst \<Rightarrow> serialize_fragment_loop reliability sn first True (dst, src)
                          | Err e dst \<Rightarrow> Err e (dst, src)
                          | Fault \<Rightarrow> Fault)
                    else let to_copy = (if bytes_left \<le> space_left then bytes_left else space_left) in
                         z_wbuf_siphon to_copy (dst, src))))"
  by pat_completeness auto
termination by (relation "measure (\<lambda>(r, sn, first, is_final, ws). if is_final then 0 else 1)") simp_all

definition unsafe_z_serialize_zenoh_fragment ::
    "z_reliability_t \<Rightarrow> z_zint_t \<Rightarrow> bool \<Rightarrow> (unit, z_wbuf_t \<times> z_wbuf_t) prog" where
  "unsafe_z_serialize_zenoh_fragment reliability sn first = serialize_fragment_loop reliability sn first False"

text \<open>One round of the sender: the transport with the buffer that holds the rest of the message.\<close>

definition on_common :: "('a, ('n, 's) z_transport_common_t) prog \<Rightarrow> ('a, ('n, 's) z_transport_common_t \<times> z_wbuf_t) prog" where
  "on_common p tb = (case p (fst tb) of Ok x t \<Rightarrow> Ok x (t, snd tb) | Err e t \<Rightarrow> Err e (t, snd tb) | Fault \<Rightarrow> Fault)"

definition on_both :: "('a, z_wbuf_t \<times> z_wbuf_t) prog \<Rightarrow> ('a, ('n, 's) z_transport_common_t \<times> z_wbuf_t) prog" where
  "on_both p tb = (case p (tc_wbuf (fst tb), snd tb) of
      Ok x ws \<Rightarrow> Ok x ((fst tb)\<lparr>tc_wbuf := fst ws\<rparr>, snd ws)
    | Err e ws \<Rightarrow> Err e ((fst tb)\<lparr>tc_wbuf := fst ws\<rparr>, snd ws) | Fault \<Rightarrow> Fault)"

definition send_fragment_round ::
    "z_reliability_t \<Rightarrow> 's list \<Rightarrow> bool \<Rightarrow> z_zint_t \<Rightarrow> (unit, ('n, 's) z_transport_common_t \<times> z_wbuf_t) prog" where
  "send_fragment_round reliability peers is_first first_sn =
     bind_ok (if is_first then ret first_sn else on_common (z_transport_tx_get_sn reliability)) (\<lambda>sn.
     then_do (on_common (\<lambda>t. on_wbuf (unsafe_z_prepare_wbuf (lk_flow (tc_link t))) t))
    (then_do (on_both (unsafe_z_serialize_zenoh_fragment reliability sn is_first))
    (then_do (on_common (\<lambda>t. on_wbuf (unsafe_z_finalize_wbuf (lk_flow (tc_link t))) t))
    (then_do (on_common (tx_send_wbuf peers)) (on_common (\<lambda>t. Ok () (t\<lparr>tc_transmitted := True\<rparr>)))))))"

partial_function (option) send_fragment_loop ::
    "z_reliability_t \<Rightarrow> 's list \<Rightarrow> bool \<Rightarrow> z_zint_t \<Rightarrow> ('n, 's) z_transport_common_t \<times> z_wbuf_t \<Rightarrow>
     (unit, ('n, 's) z_transport_common_t \<times> z_wbuf_t) res option" where
  "send_fragment_loop reliability peers is_first first_sn tb =
     (if 0 < z_wbuf_len (snd tb)
      then (case send_fragment_round reliability peers is_first first_sn tb of
              Ok _ tb' \<Rightarrow> send_fragment_loop reliability peers False first_sn tb'
            | Err e tb' \<Rightarrow> Some (Err e tb')
            | Fault \<Rightarrow> Some Fault)
      else Some (Ok () tb))"

definition z_transport_tx_send_fragment_inner ::
    "z_network_message_t \<Rightarrow> z_reliability_t \<Rightarrow> z_zint_t \<Rightarrow> 's list \<Rightarrow> (unit, ('n, 's) z_transport_common_t \<times> z_wbuf_t) prog" where
  "z_transport_tx_send_fragment_inner n_msg reliability first_sn peers tb =
     (case z_network_message_encode n_msg (snd tb) of
        Ok _ frag_buff \<Rightarrow>
          (case send_fragment_loop reliability peers True first_sn (fst tb, frag_buff) of None \<Rightarrow> Fault | Some r \<Rightarrow> r)
      | Err e frag_buff \<Rightarrow> Err e (fst tb, frag_buff)
      | Fault \<Rightarrow> Fault)"

definition z_transport_tx_send_fragment ::
    "z_network_message_t \<Rightarrow> z_reliability_t \<Rightarrow> z_zint_t \<Rightarrow> 's list \<Rightarrow> (unit, ('n, 's) z_transport_common_t) prog" where
  "z_transport_tx_send_fragment n_msg reliability first_sn peers t =
     (case z_transport_tx_send_fragment_inner n_msg reliability first_sn peers (t, z_wbuf_make Z_FRAG_BUFF_BASE_SIZE True) of
        Ok x tb \<Rightarrow> Ok x (fst tb) | Err e tb \<Rightarrow> Err e (fst tb) | Fault \<Rightarrow> Fault)"

section \<open>Batches\<close>

definition Z_N_QOS_IS_EXPRESS_FLAG :: u8 where "Z_N_QOS_IS_EXPRESS_FLAG = 0x10"

definition z_transport_tx_get_express_status :: "z_network_message_t \<Rightarrow> bool" where
  "z_transport_tx_get_express_status msg = (case nm_body msg of
     N_Declare m \<Rightarrow> Z_HAS_FLAG (de_ext_qos m) Z_N_QOS_IS_EXPRESS_FLAG
   | N_Push m \<Rightarrow> Z_HAS_FLAG (pu_qos m) Z_N_QOS_IS_EXPRESS_FLAG
   | N_Request m \<Rightarrow> Z_HAS_FLAG (rq_ext_qos m) Z_N_QOS_IS_EXPRESS_FLAG
   | N_Response m \<Rightarrow> Z_HAS_FLAG (rs_ext_qos m) Z_N_QOS_IS_EXPRESS_FLAG
   | _ \<Rightarrow> False)"

definition z_transport_tx_batch_has_data :: "('n, 's) z_transport_common_t \<Rightarrow> bool" where
  "z_transport_tx_batch_has_data t \<longleftrightarrow> tc_batch_state t = Z_BATCHING_ACTIVE \<and> 0 < tc_batch_count t"

definition z_transport_tx_flush_buffer :: "'s list \<Rightarrow> (unit, ('n, 's) z_transport_common_t) prog" where
  "z_transport_tx_flush_buffer peers =
     then_do (\<lambda>t. on_wbuf (unsafe_z_finalize_wbuf (lk_flow (tc_link t))) t)
    (then_do (tx_send_wbuf peers) (\<lambda>t. Ok () (t\<lparr>tc_transmitted := True, tc_batch_count := 0\<rparr>)))"

definition z_transport_tx_flush_or_incr_batch :: "'s list \<Rightarrow> (unit, ('n, 's) z_transport_common_t) prog" where
  "z_transport_tx_flush_or_incr_batch peers t =
     (if tc_batch_state t = Z_BATCHING_ACTIVE then Ok () (t\<lparr>tc_batch_count := tc_batch_count t + 1\<rparr>)
      else z_transport_tx_flush_buffer peers t)"

text \<open>A buffer that starts with the header of a frame.\<close>

definition tx_start_frame :: "z_reliability_t \<Rightarrow> (z_zint_t, ('n, 's) z_transport_common_t) prog" where
  "tx_start_frame reliability =
     then_do (\<lambda>t. on_wbuf (unsafe_z_prepare_wbuf (lk_flow (tc_link t))) t)
       (bind_ok (z_transport_tx_get_sn reliability) (\<lambda>sn.
          then_do (on_wbuf (z_transport_message_encode (z_t_msg_make_frame_header sn reliability))) (ret sn)))"

definition z_transport_tx_batch_overflow ::
    "z_network_message_t \<Rightarrow> z_reliability_t \<Rightarrow> nat \<Rightarrow> 's list \<Rightarrow> (unit, ('n, 's) z_transport_common_t) prog" where
  "z_transport_tx_batch_overflow n_msg reliability prev_wpos peers =
     then_do (on_wbuf (z_wbuf_set_wpos prev_wpos))
    (then_do (z_transport_tx_flush_buffer peers)
    (bind_ok (tx_start_frame reliability) (\<lambda>sn t.
       case on_wbuf (z_network_message_encode n_msg) t of
         Fault \<Rightarrow> Fault
       | Err e t \<Rightarrow> z_transport_tx_send_fragment n_msg reliability sn peers t
       | Ok _ t \<Rightarrow> (if z_transport_tx_get_express_status n_msg then z_transport_tx_flush_buffer peers t
                  else Ok () (t\<lparr>tc_batch_count := tc_batch_count t + 1\<rparr>)))))"

definition z_transport_tx_send_n_msg_inner ::
    "z_network_message_t \<Rightarrow> z_reliability_t \<Rightarrow> 's list \<Rightarrow> (unit, ('n, 's) z_transport_common_t) prog" where
  "z_transport_tx_send_n_msg_inner n_msg reliability peers t =
     (let batch_has_data = z_transport_tx_batch_has_data t in
      bind_ok (if batch_has_data then ret 0 else tx_start_frame reliability) (\<lambda>sn t.
        case z_wbuf_get_wpos (tc_wbuf t) of
          None \<Rightarrow> Fault
        | Some prev_wpos \<Rightarrow>
            (case on_wbuf (z_network_message_encode n_msg) t of
               Fault \<Rightarrow> Fault
             | Ok _ t \<Rightarrow> (if z_transport_tx_get_express_status n_msg then z_transport_tx_flush_buffer peers t
                        else z_transport_tx_flush_or_incr_batch peers t)
             | Err e t \<Rightarrow> (if \<not> batch_has_data then z_transport_tx_send_fragment n_msg reliability sn peers t
                         else z_transport_tx_batch_overflow n_msg reliability prev_wpos peers t))) t)"

definition z_transport_tx_send_t_msg_inner :: "z_transport_message_t \<Rightarrow> 's list \<Rightarrow> (unit, ('n, 's) z_transport_common_t) prog" where
  "z_transport_tx_send_t_msg_inner t_msg peers t =
     then_do (when_do (z_transport_tx_batch_has_data t) (z_transport_tx_flush_buffer peers))
    (then_do (\<lambda>t. on_wbuf (unsafe_z_prepare_wbuf (lk_flow (tc_link t))) t)
    (then_do (on_wbuf (z_transport_message_encode t_msg)) (z_transport_tx_flush_buffer peers))) t"

definition z_transport_tx_send_t_msg :: "z_transport_message_t \<Rightarrow> 's list \<Rightarrow> (unit, ('n, 's) z_transport_common_t) prog" where
  "z_transport_tx_send_t_msg t_msg peers = z_transport_tx_send_t_msg_inner t_msg peers"

text \<open>
  The result of taking the lock, which fails only when the sender does not wait for it, is an
  argument: \<open>lock b\<close> is the platform's answer when asked to wait or not.
\<close>

definition z_transport_tx_send_n_msg ::
    "(bool \<Rightarrow> z_result_t) \<Rightarrow> z_network_message_t \<Rightarrow> z_reliability_t \<Rightarrow> z_congestion_control_t \<Rightarrow> 's list \<Rightarrow>
     (unit, ('n, 's) z_transport_common_t) prog" where
  "z_transport_tx_send_n_msg lock n_msg reliability cong_ctrl peers t =
     (let r = lock (cong_ctrl = Z_CONGESTION_CONTROL_BLOCK) in
      if r \<noteq> Z_RES_OK then Err r t else z_transport_tx_send_n_msg_inner n_msg reliability peers t)"

definition z_transport_tx_send_n_batch ::
    "(bool \<Rightarrow> z_result_t) \<Rightarrow> z_congestion_control_t \<Rightarrow> 's list \<Rightarrow> (unit, ('n, 's) z_transport_common_t) prog" where
  "z_transport_tx_send_n_batch lock cong_ctrl peers t =
     (if 0 < tc_batch_count t
      then let r = lock (cong_ctrl = Z_CONGESTION_CONTROL_BLOCK) in
           if r \<noteq> Z_RES_OK then Err r t else z_transport_tx_flush_buffer peers t
      else Ok () t)"

section \<open>Without a transport\<close>

text \<open>A message of the handshake, on a buffer of its own; links of neither kind do not exist.\<close>

definition z_link_send_t_msg :: "('n, 's) z_link_t \<Rightarrow> z_transport_message_t \<Rightarrow> 's option \<Rightarrow> (unit, 'n) prog" where
  "z_link_send_t_msg zl t_msg sock net =
     (let mtu = (if lk_mtu zl < Z_BATCH_UNICAST_SIZE then lk_mtu zl else Z_BATCH_UNICAST_SIZE) in
      case then_do (when_do (lk_flow zl = Z_LINK_CAP_FLOW_STREAM)
                      (then_do (z_wbuf_put 0 0) (then_do (z_wbuf_put 0 1) (z_wbuf_set_wpos Z_MSG_LEN_ENC_SIZE))))
          (then_do (z_transport_message_encode t_msg) (unsafe_z_finalize_wbuf (lk_flow zl)))
          (z_wbuf_make (unat mtu) False) of
        Ok _ wbf \<Rightarrow> z_link_send_wbuf zl wbf sock net
      | Err e _ \<Rightarrow> Err e net
      | Fault \<Rightarrow> Fault)"

end
