(* ===== verification/Zp_TxLaws.thy ===== *)
theory Zp_TxLaws imports Zp_Tx
begin

text \<open>
  What the sender of a transport does with its buffer: the packets it leaves on the link. A fixed
  buffer is described by its capacity and its bytes, the link by what it is given; a message too
  large for a packet goes as a chain of fragments, and a batch keeps every message that was given
  to it until it is sent.
\<close>

section \<open>The buffer of a transport\<close>

text \<open>A fixed buffer of one slice of its own that nothing has been read from, with the bytes it holds.\<close>

definition tx_buf :: "nat \<Rightarrow> byte list \<Rightarrow> z_wbuf_t \<Rightarrow> bool" where
  "tx_buf cap bs w \<longleftrightarrow> wb_r_idx w = 0 \<and> wb_w_idx w = 0 \<and> wb_expansion_step w = 0 \<and> svec_wf (wb_ioss w) \<and>
     (\<exists>ios. sv_val (wb_ioss w) = [ios] \<and> ios_wf ios \<and> ios_is_alloc ios \<and> ios_capacity ios = cap \<and> ios_r_pos ios = 0 \<and>
        ios_w_pos ios = length bs \<and> take (length bs) (ios_buf ios) = bs)"

lemma tx_bufE:
  assumes "tx_buf cap bs w"
  obtains ios where "wsplit w [] ios" "sv_val (wb_ioss w) = [ios]" "ios_wf ios" "ios_is_alloc ios" "ios_capacity ios = cap"
    "ios_r_pos ios = 0" "ios_w_pos ios = length bs" "take (length bs) (ios_buf ios) = bs" "wb_r_idx w = 0" "wb_w_idx w = 0"
    "wb_expansion_step w = 0" "length bs \<le> cap" "cap \<le> length (ios_buf ios)"
proof -
  from assms obtain ios where "sv_val (wb_ioss w) = [ios]" "ios_wf ios" "ios_is_alloc ios" "ios_capacity ios = cap"
    "ios_r_pos ios = 0" "ios_w_pos ios = length bs" "take (length bs) (ios_buf ios) = bs" "wb_r_idx w = 0" "wb_w_idx w = 0"
    "wb_expansion_step w = 0" "svec_wf (wb_ioss w)"
    unfolding tx_buf_def by blast
  then show thesis by (intro that [of ios]) (auto simp: wsplit_def ios_wf_def svec_wf_def)
qed

lemma tx_buf_facts:
  assumes "tx_buf cap bs w"
  shows "wbuf_wf w" "wbuf_bytes w = bs" "wbuf_fits w n \<longleftrightarrow> length bs + n \<le> cap" "z_wbuf_len w = length bs"
    "z_wbuf_space_left w = Some (cap - length bs)" "z_wbuf_get_wpos w = Some (length bs)" "length bs \<le> cap"
proof -
  from assms obtain ios where s: "wsplit w [] ios" and v: "sv_val (wb_ioss w) = [ios]" and i: "ios_capacity ios = cap"
    "ios_r_pos ios = 0" "ios_w_pos ios = length bs" "take (length bs) (ios_buf ios) = bs" "wb_r_idx w = 0" "wb_w_idx w = 0"
    "wb_expansion_step w = 0" and len: "length bs \<le> cap"
    by (rule tx_bufE)
  show wf: "wbuf_wf w" by (rule wsplit_wf [OF s])
  show b: "wbuf_bytes w = bs" using i by (simp add: wsplit_bytes [OF s] z_iosli_to_bytes_def z_iosli_readable_def)
  show "wbuf_fits w n \<longleftrightarrow> length bs + n \<le> cap" using i len by (auto simp: wsplit_fits [OF s] z_iosli_writable_def)
  show "z_wbuf_len w = length bs" using wbuf_len_bytes [OF wf] b by simp
  show "z_wbuf_space_left w = Some (cap - length bs)"
    using i wsplit_get [OF s] by (simp add: z_wbuf_space_left_def z_iosli_writable_def)
  show "z_wbuf_get_wpos w = Some (length bs)" using i wsplit_get [OF s] by (simp add: z_wbuf_get_wpos_def v)
  show "length bs \<le> cap" by (rule len)
qed

lemma tx_buf_wrote:
  assumes "tx_buf cap bs w" "wrote xs w w'"
  shows "tx_buf cap (bs @ xs) w'"
proof -
  from assms(1) obtain ios where s: "wsplit w [] ios" and v: "sv_val (wb_ioss w) = [ios]" and a: "ios_is_alloc ios"
    and i: "ios_capacity ios = cap" "ios_r_pos ios = 0" "wb_r_idx w = 0" "wb_w_idx w = 0" "wb_expansion_step w = 0"
    by (rule tx_bufE)
  have b: "wbuf_bytes w = bs" by (rule tx_buf_facts [OF assms(1)])
  let ?i = "last (sv_val (wb_ioss w'))"
  have w': "wbuf_wf w'" "wbuf_bytes w' = bs @ xs" "wb_r_idx w' = 0" "wb_expansion_step w' = 0"
    and g: "butlast (sv_val (wb_ioss w')) = []" "ios_grown ios ?i"
    using assms(2) b i v by (auto simp: wrote_def wbuf_grown_def)
  have len: "length (sv_val (wb_ioss w')) = Suc (wb_w_idx w')" using w'(1) by (simp add: wbuf_wf_def)
  with g(1) obtain j where v': "sv_val (wb_ioss w') = [j]" by (cases "sv_val (wb_ioss w')" rule: rev_cases) auto
  have idx: "wb_w_idx w' = 0" using len by (simp add: v')
  have wf: "ios_wf j" and sw: "svec_wf (wb_ioss w')" using w'(1) by (simp_all add: wbuf_wf_def v')
  have t: "z_iosli_to_bytes j = bs @ xs" using w'(2) idx w'(3) by (simp add: wbuf_bytes_def wbuf_live_def v')
  have r: "ios_r_pos j = 0" "ios_capacity j = cap" "ios_is_alloc j" using g(2) i a by (simp_all add: v' ios_grown_def)
  have "length (z_iosli_to_bytes j) = ios_w_pos j" using wf r by (auto simp: z_iosli_to_bytes_def z_iosli_readable_def ios_wf_def)
  then have wp: "ios_w_pos j = length (bs @ xs)" by (simp only: t)
  then have "take (length (bs @ xs)) (ios_buf j) = bs @ xs" using t r by (simp add: z_iosli_to_bytes_def z_iosli_readable_def)
  with w'(3,4) v' idx wf sw r wp show ?thesis unfolding tx_buf_def by blast
qed

lemma tx_buf_appends:
  assumes "appends e xs" "tx_buf cap bs w" "length bs + length xs \<le> cap"
  shows "\<exists>w'. e w = Ok () w' \<and> tx_buf cap (bs @ xs) w'"
  using appends_ok [OF assms(1) tx_buf_facts(1) [OF assms(2)]] tx_buf_facts(3) [OF assms(2)] assms(3) tx_buf_wrote [OF assms(2)]
  by blast

lemma tx_buf_appends_full:
  assumes "appends e xs" "tx_buf cap bs w" "\<not> length bs + length xs \<le> cap"
  shows "\<exists>w' pre. e w = Err Z_ERR_TRANSPORT_NO_SPACE w' \<and> tx_buf cap (bs @ pre) w'"
  using appends_err [OF assms(1) tx_buf_facts(1) [OF assms(2)]] tx_buf_facts(3) [OF assms(2)] assms(3) tx_buf_wrote [OF assms(2)]
  by blast

lemma tx_buf_set_wpos:
  assumes "tx_buf cap (bs @ xs) w"
  shows "\<exists>w'. z_wbuf_set_wpos (length bs) w = Ok () w' \<and> tx_buf cap bs w'"
proof -
  from assms obtain ios where s: "wsplit w [] ios" and v: "sv_val (wb_ioss w) = [ios]" and a: "ios_wf ios" "ios_is_alloc ios"
    and i: "ios_capacity ios = cap" "ios_r_pos ios = 0" "take (length (bs @ xs)) (ios_buf ios) = bs @ xs"
      "wb_r_idx w = 0" "wb_w_idx w = 0" "wb_expansion_step w = 0" and len: "length (bs @ xs) \<le> cap" "cap \<le> length (ios_buf ios)"
    by (rule tx_bufE)
  have "take (length bs) (take (length (bs @ xs)) (ios_buf ios)) = bs" by (simp only: i(3)) simp
  then have t: "take (length bs) (ios_buf ios) = bs" by (simp add: min_def)
  let ?w = "w\<lparr>wb_w_idx := 0, wb_ioss := (wb_ioss w)\<lparr>sv_val := [ios\<lparr>ios_w_pos := length bs\<rparr>]\<rparr>\<rparr>"
  have "z_wbuf_set_wpos (length bs) w = Ok () ?w"
    using v i len by (simp add: z_wbuf_set_wpos_def wbuf_set_wpos_loop.simps [of _ 0] z_svec_len_def z_wbuf_get_iosli_def z_svec_get_def
        on_iosli_def)
  moreover have "tx_buf cap bs ?w" using s i a t len v by (auto simp: tx_buf_def svec_wf_def ios_wf_def wsplit_def)
  ultimately show ?thesis by blast
qed

lemma tx_buf_put:
  assumes "tx_buf cap bs w" "i < length bs"
  shows "\<exists>w'. z_wbuf_put b i w = Ok () w' \<and> tx_buf cap (bs[i := b]) w'"
proof -
  from assms(1) obtain ios where s: "wsplit w [] ios" and v: "sv_val (wb_ioss w) = [ios]" and a: "ios_wf ios" "ios_is_alloc ios"
    and i: "ios_capacity ios = cap" "ios_r_pos ios = 0" "ios_w_pos ios = length bs" "take (length bs) (ios_buf ios) = bs"
      "wb_r_idx w = 0" "wb_w_idx w = 0" "wb_expansion_step w = 0" and len: "length bs \<le> cap" "cap \<le> length (ios_buf ios)"
    by (rule tx_bufE)
  let ?w = "w\<lparr>wb_ioss := (wb_ioss w)\<lparr>sv_val := [ios\<lparr>ios_buf := (ios_buf ios)[i := b]\<rparr>]\<rparr>\<rparr>"
  have "z_wbuf_put b i w = Ok () ?w"
    using v i len assms(2) by (simp add: z_wbuf_put_def z_iosli_put_def z_wbuf_get_iosli_def z_svec_get_def z_svec_len_def on_iosli_def)
  moreover have "take (length bs) ((ios_buf ios)[i := b]) = bs[i := b]" by (simp add: take_update_swap i(4))
  then have "tx_buf cap (bs[i := b]) ?w" using s i a len v by (auto simp: tx_buf_def svec_wf_def ios_wf_def wsplit_def)
  ultimately show ?thesis by blast
qed

text \<open>What a packet starts with: two bytes for the length on a stream.\<close>

definition room :: "u8 \<Rightarrow> byte list" where
  "room flow = (if flow = Z_LINK_CAP_FLOW_STREAM then [0, 0] else [])"

lemma prepare_ok:
  assumes "tx_buf cap bs w" "2 \<le> cap"
  shows "\<exists>w'. unsafe_z_prepare_wbuf flow w = Ok () w' \<and> tx_buf cap (room flow) w'"
proof -
  from assms(1) obtain ios where s: "wsplit w [] ios" and v: "sv_val (wb_ioss w) = [ios]" and a: "ios_wf ios" "ios_is_alloc ios"
    and i: "ios_capacity ios = cap" "ios_r_pos ios = 0"
      "wb_r_idx w = 0" "wb_w_idx w = 0" "wb_expansion_step w = 0" and len: "cap \<le> length (ios_buf ios)"
    by (rule tx_bufE)
  let ?w = "\<lambda>k buf. w\<lparr>wb_r_idx := 0, wb_w_idx := 0,
      wb_ioss := (wb_ioss w)\<lparr>sv_val := [ios\<lparr>ios_r_pos := 0, ios_w_pos := k, ios_buf := buf\<rparr>]\<rparr>\<rparr>"
  have reset: "z_wbuf_reset w = Ok () (?w 0 (ios_buf ios))"
    using v a by (simp add: z_wbuf_reset_def wbuf_reset_loop.simps z_svec_len_def z_wbuf_get_iosli_def z_svec_get_def on_iosli_def
        z_iosli_reset_def)
  let ?b = "(ios_buf ios)[0 := 0, 1 := 0]"
  have "ios_buf ios \<noteq> []" using len assms(2) by auto
  then have stream: "then_do (z_wbuf_put 0 0) (then_do (z_wbuf_put 0 1) (z_wbuf_set_wpos Z_MSG_LEN_ENC_SIZE)) (?w 0 (ios_buf ios)) =
      Ok () (?w 2 ?b)"
    using i len assms(2) by (simp add: then_do_def bind_ok_def z_wbuf_put_def z_iosli_put_def z_wbuf_get_iosli_def z_svec_get_def z_svec_len_def
        on_iosli_def Z_MSG_LEN_ENC_SIZE_def z_wbuf_set_wpos_def wbuf_set_wpos_loop.simps [of _ 0])
  have "take 2 ?b = [0, 0]" using len assms(2) by (cases "ios_buf ios"; cases "tl (ios_buf ios)") auto
  then have t: "tx_buf cap [0, 0] (?w 2 ?b)" "tx_buf cap [] (?w 0 (ios_buf ios))"
    using s i a len v assms(2) by (auto simp: tx_buf_def svec_wf_def ios_wf_def wsplit_def numeral_2_eq_2)
  show ?thesis
    using reset stream t by (cases "flow = Z_LINK_CAP_FLOW_STREAM")
      (simp_all add: unsafe_z_prepare_wbuf_def then_do_def bind_ok_def when_do_def ret_def room_def)
qed


definition packet :: "u8 \<Rightarrow> byte list \<Rightarrow> byte list" where
  "packet flow bs = (if flow = Z_LINK_CAP_FLOW_STREAM
     then [z_get_u16_lsb (of_nat (length bs)), z_get_u16_msb (of_nat (length bs))] else []) @ bs"

lemma finalize_ok:
  assumes "tx_buf cap (room flow @ bs) w"
  shows "\<exists>w'. unsafe_z_finalize_wbuf flow w = Ok () w' \<and> tx_buf cap (packet flow bs) w'"
proof (cases "flow = Z_LINK_CAP_FLOW_STREAM")
  case True
  let ?l = "z_get_u16_lsb (of_nat (length bs))" and ?m = "z_get_u16_msb (of_nat (length bs))"
  have len: "size_sub (z_wbuf_len w) Z_MSG_LEN_ENC_SIZE = length bs"
    using tx_buf_facts(4) [OF assms] True by (simp add: size_sub_def Z_MSG_LEN_ENC_SIZE_def room_def)
  obtain w1 where w1: "z_wbuf_put ?l 0 w = Ok () w1" "tx_buf cap ((0 # 0 # bs)[0 := ?l]) w1"
    using tx_buf_put [of cap "0 # 0 # bs" w 0 ?l] assms True by (auto simp: room_def)
  then obtain w2 where "z_wbuf_put ?m 1 w1 = Ok () w2" "tx_buf cap ((?l # 0 # bs)[1 := ?m]) w2"
    using tx_buf_put [of cap "?l # 0 # bs" w1 1 ?m] by auto
  then show ?thesis using w1(1) True
    by (simp add: unsafe_z_finalize_wbuf_def len then_do_def bind_ok_def packet_def)
qed (use assms in \<open>simp add: unsafe_z_finalize_wbuf_def room_def packet_def\<close>)

section \<open>One fragment\<close>

text \<open>The reliability that the header of a fragment is made with: the other one.\<close>

definition fragment_reliability :: "z_reliability_t \<Rightarrow> z_reliability_t" where
  "fragment_reliability reliability = of_bool (reliability = Z_RELIABILITY_RELIABLE)"

abbreviation frag :: "z_reliability_t \<Rightarrow> z_zint_t \<Rightarrow> byte list \<Rightarrow> bool \<Rightarrow> bool \<Rightarrow> z_transport_message_t" where
  "frag reliability sn chunk is_last first \<equiv>
     z_t_msg_make_fragment sn chunk (fragment_reliability reliability) is_last first False"

definition frag_overhead :: "z_zint_t \<Rightarrow> bool \<Rightarrow> nat" where
  "frag_overhead sn first = Suc (length (z_zint64_encode_buf sn)) + of_bool first"

lemma frag_wire:
  "wire_transport (frag r sn chunk l first) = wire_transport (frag r sn [] l first) @ chunk"
  "length (wire_transport (frag r sn [] l first)) = frag_overhead sn first"
  by (simp_all add: z_t_msg_make_fragment_def wire_transport_def wire_fragment_def fragment_exts_def frag_overhead_def
      unit_ext_def wire_ext_def wire_ext_body_def)

lemma frag_overhead_le: "frag_overhead sn first \<le> 11"
  using zint_buf_length [of sn] by (simp add: frag_overhead_def VLE_LEN_def)

definition frag_space :: "nat \<Rightarrow> u8 \<Rightarrow> z_zint_t \<Rightarrow> bool \<Rightarrow> nat" where
  "frag_space cap flow sn first = cap - (length (room flow) + frag_overhead sn first)"

lemma frag_header_ok:
  assumes "tx_buf cap (room flow) w" "14 \<le> cap"
  shows "\<exists>w'. z_transport_message_encode (z_t_msg_make_fragment_header sn (of_bool (r = Z_RELIABILITY_RELIABLE)) l first False) w = Ok () w' \<and>
    tx_buf cap (room flow @ wire_transport (frag r sn [] l first)) w'"
proof -
  have "length (room flow) + length (wire_transport (frag r sn [] l first)) \<le> cap"
    using frag_overhead_le [of sn first] assms(2) by (simp add: frag_wire(2) room_def)
  then show ?thesis
    using tx_buf_appends [OF appends_transport [OF make_rest_ok(5)] assms(1)]
    by (simp add: z_t_msg_make_fragment_header_def fragment_reliability_def)
qed

lemma frag_space_pos: "14 \<le> cap \<Longrightarrow> 0 < frag_space cap flow sn first"
  using frag_overhead_le [of sn first] by (simp add: frag_space_def room_def)

lemma siphon_buf:
  assumes "tx_buf cap pre dst" "wbuf_wf src" "0 < n" "n \<le> length (wbuf_bytes src)" "n \<le> cap - length pre"
  shows "\<exists>dst' src'. z_wbuf_siphon n (dst, src) = Ok () (dst', src') \<and> tx_buf cap (pre @ take n (wbuf_bytes src)) dst' \<and>
    wbuf_wf src' \<and> wbuf_bytes src' = drop n (wbuf_bytes src)"
  using wbuf_siphon_ok [OF tx_buf_facts(1) [OF assms(1)] assms(2-4) tx_buf_facts(5) [OF assms(1)] assms(5)]
    tx_buf_wrote [OF assms(1)] by blast

lemma serialize_last:
  assumes "tx_buf cap (room flow) dst" "wbuf_wf src" "wbuf_bytes src \<noteq> []" "14 \<le> cap"
    "length (wbuf_bytes src) \<le> frag_space cap flow sn first"
  shows "\<exists>dst' src'. serialize_fragment_loop r sn first True (dst, src) = Ok () (dst', src') \<and>
    tx_buf cap (room flow @ wire_transport (frag r sn (wbuf_bytes src) True first)) dst' \<and> wbuf_wf src' \<and> wbuf_bytes src' = []"
proof -
  obtain d where d: "z_transport_message_encode (z_t_msg_make_fragment_header sn (of_bool (r = Z_RELIABILITY_RELIABLE)) True first False) dst = Ok () d"
    "tx_buf cap (room flow @ wire_transport (frag r sn [] True first)) d"
    using frag_header_ok [OF assms(1,4)] by blast
  have le: "length (wbuf_bytes src) \<le> cap - length (room flow @ wire_transport (frag r sn [] True first))"
    using assms(5) by (simp add: frag_space_def frag_wire(2))
  note space = tx_buf_facts(5) [OF d(2)]
  obtain d' s' where s: "z_wbuf_siphon (length (wbuf_bytes src)) (d, src) = Ok () (d', s')"
    "tx_buf cap ((room flow @ wire_transport (frag r sn [] True first)) @ take (length (wbuf_bytes src)) (wbuf_bytes src)) d'"
    "wbuf_wf s'" "wbuf_bytes s' = drop (length (wbuf_bytes src)) (wbuf_bytes src)"
    using siphon_buf [OF d(2) assms(2) _ order_refl le] assms(3) by auto
  have run: "serialize_fragment_loop r sn first True (dst, src) = Ok () (d', s')"
    using le space s(1) d(1) tx_buf_facts(6) [OF assms(1)] wbuf_len_bytes [OF assms(2)]
    by (subst serialize_fragment_loop.simps) simp
  show ?thesis using run s(2-4) frag_wire(1) [where r = r and sn = sn and chunk = "wbuf_bytes src" and l = True and first = first] by auto
qed

lemma serialize_ok:
  fixes cap flow sn first
  defines "k \<equiv> frag_space cap flow sn first"
  assumes "tx_buf cap (room flow) dst" "wbuf_wf src" "wbuf_bytes src \<noteq> []" "14 \<le> cap"
  shows "\<exists>dst' src'. unsafe_z_serialize_zenoh_fragment r sn first (dst, src) = Ok () (dst', src') \<and>
    tx_buf cap (room flow @ wire_transport (frag r sn (take k (wbuf_bytes src)) (length (wbuf_bytes src) \<le> k) first)) dst' \<and>
    wbuf_wf src' \<and> wbuf_bytes src' = drop k (wbuf_bytes src)"
proof -
  obtain d where d: "z_transport_message_encode (z_t_msg_make_fragment_header sn (of_bool (r = Z_RELIABILITY_RELIABLE)) False first False) dst = Ok () d"
    "tx_buf cap (room flow @ wire_transport (frag r sn [] False first)) d"
    using frag_header_ok [OF assms(2,5)] by blast
  have space: "z_wbuf_space_left d = Some k"
    using tx_buf_facts(5) [OF d(2)] by (simp add: k_def frag_space_def frag_wire(2))
  note pos = tx_buf_facts(6) [OF assms(2)] and len = wbuf_len_bytes [OF assms(3)]
  show ?thesis
  proof (cases "length (wbuf_bytes src) \<le> k")
    case True
    obtain d2 where d2: "z_wbuf_set_wpos (length (room flow)) d = Ok () d2" "tx_buf cap (room flow) d2"
      using tx_buf_set_wpos [OF d(2)] by blast
    have "unsafe_z_serialize_zenoh_fragment r sn first (dst, src) = serialize_fragment_loop r sn first True (d2, src)"
      unfolding unsafe_z_serialize_zenoh_fragment_def using True space d(1) d2(1) pos len
      by (subst serialize_fragment_loop.simps) simp
    then show ?thesis using serialize_last [OF d2(2) assms(3-5)] True by (simp add: k_def)
  next
    case False
    obtain d' s' where s: "z_wbuf_siphon k (d, src) = Ok () (d', s')"
      "tx_buf cap ((room flow @ wire_transport (frag r sn [] False first)) @ take k (wbuf_bytes src)) d'"
      "wbuf_wf s'" "wbuf_bytes s' = drop k (wbuf_bytes src)"
      using siphon_buf [OF d(2) assms(3) frag_space_pos [OF assms(5), of flow sn first]] False
      by (auto simp: k_def frag_space_def frag_wire(2))
    have run: "unsafe_z_serialize_zenoh_fragment r sn first (dst, src) = Ok () (d', s')"
      unfolding unsafe_z_serialize_zenoh_fragment_def using False space d(1) pos len s(1)
      by (subst serialize_fragment_loop.simps) simp
    show ?thesis using run s(2-4) False frag_wire(1) [where r = r and sn = sn and chunk = "take k (wbuf_bytes src)" and l = False and first = first] by auto
  qed
qed


section \<open>The link\<close>

text \<open>A link that takes whatever it is given, and what the network is then.\<close>

definition link_takes_all :: "('n, 's) z_link_t \<Rightarrow> bool" where
  "link_takes_all lk \<longleftrightarrow> (\<forall>s bs net. fst (lk_write_f lk s bs net) = length bs)"

definition deliver :: "('n, 's) z_link_t \<Rightarrow> 's list \<Rightarrow> byte list \<Rightarrow> 'n \<Rightarrow> 'n" where
  "deliver lk peers bs net =
     (if peers = [] then snd (lk_write_f lk None bs net) else fold (\<lambda>s net. snd (lk_write_f lk (Some s) bs net)) peers net)"

lemma link_send_ok:
  assumes "tx_buf cap bs w" "link_takes_all lk" "cap < 2 ^ 64 - 1"
  shows "z_link_send_wbuf lk w sock net = Ok () (snd (lk_write_f lk sock bs net))"
proof -
  from assms(1) obtain ios where v: "sv_val (wb_ioss w) = [ios]"
    and i: "ios_r_pos ios = 0" "ios_w_pos ios = length bs" "take (length bs) (ios_buf ios) = bs"
      and len: "length bs \<le> cap" "cap \<le> length (ios_buf ios)"
    by (rule tx_bufE)
  have "length bs \<noteq> 2 ^ 64 - 1" using len(1) assms(3) by linarith
  then have "link_write_loop lk sock (ios_buf ios) 0 (length bs) (length bs) net = Some (Ok () (snd (lk_write_f lk sock bs net)))"
    using assms(2) i(3) len by (subst link_write_loop.simps) (simp add: link_takes_all_def Let_def)
  then show ?thesis using i
    by (simp add: z_link_send_wbuf_def v link_write_slice_def z_iosli_readable_def then_do_def bind_ok_def ret_def)
qed

text \<open>What sending leaves as it was.\<close>

definition tx_same :: "('n, 's) z_transport_common_t \<Rightarrow> ('n, 's) z_transport_common_t \<Rightarrow> bool" where
  "tx_same t t' \<longleftrightarrow> tc_link t' = tc_link t \<and> tc_sn_res t' = tc_sn_res t \<and> tc_batch_state t' = tc_batch_state t \<and>
     tc_zbuf t' = tc_zbuf t \<and> tc_lease t' = tc_lease t"

lemma tx_same_refl [simp]: "tx_same t t"
  and tx_same_trans: "tx_same a b \<Longrightarrow> tx_same b c \<Longrightarrow> tx_same a c"
  by (simp_all add: tx_same_def)

definition tx_ready :: "nat \<Rightarrow> ('n, 's) z_transport_common_t \<Rightarrow> bool" where
  "tx_ready cap t \<longleftrightarrow> 14 \<le> cap \<and> cap < 2 ^ 64 - 1 \<and> link_takes_all (tc_link t) \<and> (\<exists>bs. tx_buf cap bs (tc_wbuf t))"

definition sn_tx :: "z_reliability_t \<Rightarrow> ('n, 's) z_transport_common_t \<Rightarrow> z_zint_t" where
  "sn_tx r t = (if r = Z_RELIABILITY_RELIABLE then tc_sn_tx_reliable t else tc_sn_tx_best_effort t)"

lemma sn_tx_update [simp]: "sn_tx r (t\<lparr>tc_wbuf := w\<rparr>) = sn_tx r t" "sn_tx r (t\<lparr>tc_transmitted := b\<rparr>) = sn_tx r t"
  "sn_tx r (t\<lparr>tc_batch_count := n\<rparr>) = sn_tx r t" "sn_tx r (t\<lparr>tc_net := net\<rparr>) = sn_tx r t"
  by (simp_all add: sn_tx_def)

lemma get_sn_ok: "\<exists>t'. z_transport_tx_get_sn r t = Ok (sn_tx r t) t' \<and> tx_same t t' \<and> tc_wbuf t' = tc_wbuf t \<and>
    tc_net t' = tc_net t \<and> tc_batch_count t' = tc_batch_count t \<and> sn_tx r t' = z_sn_increment (tc_sn_res t) (sn_tx r t)"
  by (simp add: z_transport_tx_get_sn_def sn_tx_def tx_same_def)

lemma send_to_peers_ok:
  assumes "tx_buf cap bs (tc_wbuf t)" "link_takes_all (tc_link t)" "cap < 2 ^ 64 - 1"
  shows "send_to_peers peers t = Ok () (t\<lparr>tc_net := fold (\<lambda>s net. snd (lk_write_f (tc_link t) (Some s) bs net)) peers (tc_net t)\<rparr>)"
  using assms
proof (induction peers arbitrary: t)
  case (Cons s peers)
  let ?t = "t\<lparr>tc_net := snd (lk_write_f (tc_link t) (Some s) bs (tc_net t))\<rparr>"
  have "ignore_code (on_net (z_link_send_wbuf (tc_link t) (tc_wbuf t) (Some s))) t = Ok () ?t"
    using link_send_ok [OF Cons.prems, of "Some s" "tc_net t"] by (simp add: ignore_code_def on_net_def)
  then show ?case using Cons.IH [of ?t] Cons.prems by (simp add: then_do_def bind_ok_def)
qed (simp add: ret_def)

lemma tx_send_ok:
  assumes "tx_buf cap bs (tc_wbuf t)" "link_takes_all (tc_link t)" "cap < 2 ^ 64 - 1"
  shows "tx_send_wbuf peers t = Ok () (t\<lparr>tc_net := deliver (tc_link t) peers bs (tc_net t)\<rparr>)"
  using send_to_peers_ok [OF assms] link_send_ok [OF assms, of None "tc_net t"]
  by (simp add: tx_send_wbuf_def deliver_def on_net_def)

lemma on_wbuf_ok: "p (tc_wbuf t) = Ok x w \<Longrightarrow> on_wbuf p t = Ok x (t\<lparr>tc_wbuf := w\<rparr>)"
  by (simp add: on_wbuf_def)

text \<open>From a buffer with the space for the length to the packet on the link.\<close>

lemma finalize_send_ok:
  assumes "tx_buf cap (room (lk_flow (tc_link t)) @ bs) (tc_wbuf t)" "tx_ready cap t"
  shows "\<exists>t'. then_do (\<lambda>t. on_wbuf (unsafe_z_finalize_wbuf (lk_flow (tc_link t))) t) (tx_send_wbuf peers) t = Ok () t' \<and>
    tx_same t t' \<and> tx_buf cap (packet (lk_flow (tc_link t)) bs) (tc_wbuf t') \<and> tx_ready cap t' \<and>
    tc_net t' = deliver (tc_link t) peers (packet (lk_flow (tc_link t)) bs) (tc_net t) \<and> tc_batch_count t' = tc_batch_count t \<and>
    (\<forall>r. sn_tx r t' = sn_tx r t)"
proof -
  let ?f = "lk_flow (tc_link t)"
  obtain w where w: "unsafe_z_finalize_wbuf ?f (tc_wbuf t) = Ok () w" "tx_buf cap (packet ?f bs) w"
    using finalize_ok [OF assms(1)] by blast
  let ?t = "t\<lparr>tc_wbuf := w\<rparr>"
  have "tx_send_wbuf peers ?t = Ok () (?t\<lparr>tc_net := deliver (tc_link t) peers (packet ?f bs) (tc_net t)\<rparr>)"
    using tx_send_ok [of cap "packet ?f bs" ?t peers] w(2) assms(2) by (simp add: tx_ready_def)
  then have "then_do (\<lambda>t. on_wbuf (unsafe_z_finalize_wbuf (lk_flow (tc_link t))) t) (tx_send_wbuf peers) t =
      Ok () (?t\<lparr>tc_net := deliver (tc_link t) peers (packet ?f bs) (tc_net t)\<rparr>)"
    using w(1) by (simp add: on_wbuf_def then_do_def bind_ok_def)
  then show ?thesis using w(2) assms(2) by (auto simp: tx_same_def tx_ready_def sn_tx_def)
qed

section \<open>A message in fragments\<close>

fun frag_chain :: "z_zint_t \<Rightarrow> z_reliability_t \<Rightarrow> bool \<Rightarrow> z_zint_t \<Rightarrow> byte list \<Rightarrow> z_transport_message_t list \<Rightarrow> bool" where
  "frag_chain sn_res r first sn bs [] \<longleftrightarrow> bs = []"
| "frag_chain sn_res r first sn bs (m # ms) \<longleftrightarrow>
     (\<exists>n \<le> length bs. 0 < n \<and> m = frag r sn (take n bs) (n = length bs) first \<and>
        frag_chain sn_res r False (z_sn_increment sn_res sn) (drop n bs) ms)"

lemma prepare_state:
  assumes "tx_ready cap t"
  shows "\<exists>t'. on_wbuf (unsafe_z_prepare_wbuf (lk_flow (tc_link t))) t = Ok () t' \<and> tx_same t t' \<and> tx_ready cap t' \<and>
    tx_buf cap (room (lk_flow (tc_link t))) (tc_wbuf t') \<and> tc_net t' = tc_net t \<and> tc_batch_count t' = tc_batch_count t \<and>
    (\<forall>r. sn_tx r t' = sn_tx r t)"
proof -
  obtain bs where "tx_buf cap bs (tc_wbuf t)" "2 \<le> cap" using assms by (auto simp: tx_ready_def)
  then obtain w where "unsafe_z_prepare_wbuf (lk_flow (tc_link t)) (tc_wbuf t) = Ok () w"
    "tx_buf cap (room (lk_flow (tc_link t))) w" using prepare_ok by blast
  then show ?thesis using assms by (auto simp: on_wbuf_def tx_same_def tx_ready_def sn_tx_def)
qed

lemma round_ok:
  assumes "tx_ready cap t" "wbuf_wf fb" "wbuf_bytes fb \<noteq> []" "sn = (if first then first_sn else sn_tx r t)"
    "k = frag_space cap (lk_flow (tc_link t)) sn first"
  shows "\<exists>t' fb'. send_fragment_round r peers first first_sn (t, fb) = Ok () (t', fb') \<and> tx_same t t' \<and> tx_ready cap t' \<and>
    wbuf_wf fb' \<and> wbuf_bytes fb' = drop k (wbuf_bytes fb) \<and>
    tc_net t' = deliver (tc_link t) peers (packet (lk_flow (tc_link t))
       (wire_transport (frag r sn (take k (wbuf_bytes fb)) (length (wbuf_bytes fb) \<le> k) first))) (tc_net t) \<and>
    tc_batch_count t' = tc_batch_count t \<and>
    sn_tx r t' = (if first then sn_tx r t else z_sn_increment (tc_sn_res t) (sn_tx r t))"
proof -
  let ?f = "lk_flow (tc_link t)"
  obtain tg where tg: "z_transport_tx_get_sn r t = Ok (sn_tx r t) tg" "tx_same t tg" "tc_wbuf tg = tc_wbuf t" "tc_net tg = tc_net t"
    "tc_batch_count tg = tc_batch_count t" "sn_tx r tg = z_sn_increment (tc_sn_res t) (sn_tx r t)"
    using get_sn_ok by blast
  obtain t1 where t1: "(if first then ret first_sn else on_common (z_transport_tx_get_sn r)) (t, fb) = Ok sn (t1, fb)"
    "tx_same t t1" "tx_ready cap t1" "tc_net t1 = tc_net t" "tc_batch_count t1 = tc_batch_count t"
    "sn_tx r t1 = (if first then sn_tx r t else z_sn_increment (tc_sn_res t) (sn_tx r t))"
  proof (cases first)
    case True
    then show thesis using assms(1,4) by (intro that [of t]) (simp_all add: ret_def)
  next
    case False
    then show thesis using tg assms(1,4) by (intro that [of tg]) (simp_all add: on_common_def tx_ready_def tx_same_def)
  qed
  have lk: "tc_link t1 = tc_link t" using t1(2) by (simp add: tx_same_def)
  obtain t2 where t2: "on_wbuf (unsafe_z_prepare_wbuf ?f) t1 = Ok () t2" "tx_same t1 t2" "tx_ready cap t2" "tx_buf cap (room ?f) (tc_wbuf t2)"
    "tc_net t2 = tc_net t1" "tc_batch_count t2 = tc_batch_count t1" "sn_tx r t2 = sn_tx r t1"
    using prepare_state [OF t1(3)] by (auto simp: lk)
  have lk2: "tc_link t2 = tc_link t" using t2(2) lk by (simp add: tx_same_def)
  obtain d fb' where s: "unsafe_z_serialize_zenoh_fragment r sn first (tc_wbuf t2, fb) = Ok () (d, fb')"
    "tx_buf cap (room ?f @ wire_transport (frag r sn (take k (wbuf_bytes fb)) (length (wbuf_bytes fb) \<le> k) first)) d"
    "wbuf_wf fb'" "wbuf_bytes fb' = drop k (wbuf_bytes fb)"
    using serialize_ok [OF t2(4) assms(2,3), where sn = sn and first = first and r = r] assms(1,5) by (auto simp: tx_ready_def)
  let ?t3 = "t2\<lparr>tc_wbuf := d\<rparr>"
  have ready: "tx_ready cap ?t3" using t2(3) s(2) by (auto simp: tx_ready_def)
  have buf: "tx_buf cap (room (lk_flow (tc_link ?t3)) @ wire_transport (frag r sn (take k (wbuf_bytes fb)) (length (wbuf_bytes fb) \<le> k) first))
      (tc_wbuf ?t3)" using s(2) lk2 by simp
  obtain t4 where t4: "then_do (\<lambda>t. on_wbuf (unsafe_z_finalize_wbuf (lk_flow (tc_link t))) t) (tx_send_wbuf peers) ?t3 = Ok () t4"
    "tx_same ?t3 t4" "tx_ready cap t4" "tc_net t4 = deliver (tc_link t) peers (packet ?f
       (wire_transport (frag r sn (take k (wbuf_bytes fb)) (length (wbuf_bytes fb) \<le> k) first))) (tc_net t2)"
    "tc_batch_count t4 = tc_batch_count t2" "sn_tx r t4 = sn_tx r ?t3"
    using finalize_send_ok [OF buf ready, of peers] lk2 by auto
  have "send_fragment_round r peers first first_sn (t, fb) = Ok () (t4\<lparr>tc_transmitted := True\<rparr>, fb')"
    using t1(1) t2(1) s(1) t4(1) lk lk2 unfolding send_fragment_round_def
    by (auto simp: bind_ok_def then_do_def on_common_def on_both_def split: res.splits)
  moreover have "tx_same t t4" using t1(2) t2(2) t4(2) by (simp add: tx_same_def)
  ultimately show ?thesis using s(3,4) t4(3-6) t1(4-6) t2(5-7)
    by (intro exI [of _ "t4\<lparr>tc_transmitted := True\<rparr>"] exI [of _ fb']) (simp add: tx_same_def tx_ready_def)
qed

lemma send_fragment_loop_ok:
  assumes "tx_ready cap t" "wbuf_wf fb" "sn = (if first then first_sn else sn_tx r t)"
    "first \<Longrightarrow> sn_tx r t = z_sn_increment (tc_sn_res t) first_sn"
  shows "\<exists>t' fb' ms. send_fragment_loop r peers first first_sn (t, fb) = Some (Ok () (t', fb')) \<and> tx_same t t' \<and> tx_ready cap t' \<and>
    frag_chain (tc_sn_res t) r first sn (wbuf_bytes fb) ms \<and>
    tc_net t' = fold (\<lambda>m. deliver (tc_link t) peers (packet (lk_flow (tc_link t)) (wire_transport m))) ms (tc_net t) \<and>
    tc_batch_count t' = tc_batch_count t"
  using assms
proof (induction "length (wbuf_bytes fb)" arbitrary: t fb sn first rule: less_induct)
  case less
  let ?bs = "wbuf_bytes fb"
  show ?case
  proof (cases "?bs = []")
    case True
    then have "send_fragment_loop r peers first first_sn (t, fb) = Some (Ok () (t, fb))"
      using wbuf_len_bytes [OF less.prems(2)] by (subst send_fragment_loop.simps) simp
    then show ?thesis using True less.prems(1) by (intro exI [of _ t] exI [of _ fb] exI [of _ "[]"]) simp
  next
    case False
    define k where "k = frag_space cap (lk_flow (tc_link t)) sn first"
    let ?m = "frag r sn (take k ?bs) (length ?bs \<le> k) first"
    obtain t1 fb1 where r: "send_fragment_round r peers first first_sn (t, fb) = Ok () (t1, fb1)" "tx_same t t1" "tx_ready cap t1"
      "wbuf_wf fb1" "wbuf_bytes fb1 = drop k ?bs" "tc_net t1 = deliver (tc_link t) peers (packet (lk_flow (tc_link t)) (wire_transport ?m)) (tc_net t)"
      "tc_batch_count t1 = tc_batch_count t" "sn_tx r t1 = (if first then sn_tx r t else z_sn_increment (tc_sn_res t) (sn_tx r t))"
      using round_ok [OF less.prems(1,2) False less.prems(3) k_def] by blast
    have k: "0 < k" using frag_space_pos less.prems(1) by (simp add: k_def tx_ready_def)
    have same: "tc_link t1 = tc_link t" "tc_sn_res t1 = tc_sn_res t" using r(2) by (simp_all add: tx_same_def)
    have sn1: "sn_tx r t1 = z_sn_increment (tc_sn_res t) sn" using r(8) less.prems(3,4) by simp
    obtain t' fb' ms where l: "send_fragment_loop r peers False first_sn (t1, fb1) = Some (Ok () (t', fb'))" "tx_same t1 t'" "tx_ready cap t'"
      "frag_chain (tc_sn_res t) r False (z_sn_increment (tc_sn_res t) sn) (drop k ?bs) ms"
      "tc_net t' = fold (\<lambda>m. deliver (tc_link t) peers (packet (lk_flow (tc_link t)) (wire_transport m))) ms (tc_net t1)"
      "tc_batch_count t' = tc_batch_count t1"
      using less.hyps [of fb1 t1 "sn_tx r t1" False] r(3-5) k False by (auto simp: same sn1)
    have run: "send_fragment_loop r peers first first_sn (t, fb) = Some (Ok () (t', fb'))"
      using r(1) l(1) False wbuf_len_bytes [OF less.prems(2)] by (subst send_fragment_loop.simps) simp
    let ?n = "min k (length ?bs)"
    have "?m = frag r sn (take ?n ?bs) (?n = length ?bs) first" by (simp add: min_def eq_commute [of k])
    moreover have "drop k ?bs = drop ?n ?bs" by (simp add: min_def)
    ultimately have "frag_chain (tc_sn_res t) r first sn ?bs (?m # ms)"
      using l(4) k False unfolding frag_chain.simps by (intro exI [of _ ?n]) simp
    then show ?thesis using run l(2,3,5,6) r(2,6,7) tx_same_trans [OF r(2) l(2)]
      by (intro exI [of _ t'] exI [of _ fb'] exI [of _ "?m # ms"]) simp
  qed
qed

end
