(* ===== verification/Zp_TxBatch.thy ===== *)
theory Zp_TxBatch imports Zp_TxLaws
begin

text \<open>
  Network messages on their way out: the packets a call leaves on the link (\<open>sends\<close>), the messages
  that packets carry (\<open>carries\<close>), the batch that waits in the buffer (\<open>batch_inv\<close>), and the law that
  no message is lost, repeated or overtaken between the two.
\<close>

section \<open>What a call leaves on the link\<close>

definition sends :: "nat \<Rightarrow> 's list \<Rightarrow> byte list list \<Rightarrow> ('n, 's) z_transport_common_t \<Rightarrow> ('n, 's) z_transport_common_t \<Rightarrow> bool" where
  "sends cap peers ps t t' \<longleftrightarrow> tx_same t t' \<and> tx_ready cap t' \<and>
     tc_net t' = fold (\<lambda>p. deliver (tc_link t) peers (packet (lk_flow (tc_link t)) p)) ps (tc_net t)"

lemma sends_trans: "sends cap peers ps t t1 \<Longrightarrow> sends cap peers qs t1 t2 \<Longrightarrow> sends cap peers (ps @ qs) t t2"
  by (auto simp: sends_def tx_same_def)

lemma sends_same: "sends cap peers ps t t' \<Longrightarrow> tx_same t t'"
  and sends_ready: "sends cap peers ps t t' \<Longrightarrow> tx_ready cap t'"
  and sends_link: "sends cap peers ps t t' \<Longrightarrow> tc_link t' = tc_link t"
  by (simp_all add: sends_def tx_same_def)

text \<open>The buffer after the space for the length.\<close>

abbreviation holds :: "nat \<Rightarrow> byte list \<Rightarrow> ('n, 's) z_transport_common_t \<Rightarrow> bool" where
  "holds cap bs t \<equiv> tx_buf cap (room (lk_flow (tc_link t)) @ bs) (tc_wbuf t)"

definition frame_wire :: "z_zint_t \<Rightarrow> z_reliability_t \<Rightarrow> byte list" where
  "frame_wire sn r = wire_transport (z_t_msg_make_frame_header sn r)"

lemma frame_wire_length: "length (frame_wire sn r) \<le> 11"
  using zint_buf_length [of sn]
  by (simp add: frame_wire_def z_t_msg_make_frame_header_def wire_transport_def wire_frame_def VLE_LEN_def frame_payload_def)

lemma flush_ok:
  assumes "tx_ready cap t" "holds cap bs t"
  shows "\<exists>t'. z_transport_tx_flush_buffer peers t = Ok () t' \<and> sends cap peers [bs] t t' \<and> tc_batch_count t' = 0 \<and>
    (\<forall>r. sn_tx r t' = sn_tx r t)"
proof -
  obtain t1 where t1: "then_do (\<lambda>t. on_wbuf (unsafe_z_finalize_wbuf (lk_flow (tc_link t))) t) (tx_send_wbuf peers) t = Ok () t1"
    "tx_same t t1" "tx_ready cap t1" "tc_net t1 = deliver (tc_link t) peers (packet (lk_flow (tc_link t)) bs) (tc_net t)"
    "\<forall>r. sn_tx r t1 = sn_tx r t"
    using finalize_send_ok [OF assms(2,1)] by blast
  have "z_transport_tx_flush_buffer peers t = Ok () (t1\<lparr>tc_transmitted := True, tc_batch_count := 0\<rparr>)"
    using t1(1) unfolding z_transport_tx_flush_buffer_def by (auto simp: then_do_def bind_ok_def split: res.splits)
  then show ?thesis using t1(2-5) by (simp add: sends_def tx_same_def tx_ready_def)
qed

lemma start_frame_ok:
  assumes "tx_ready cap t"
  shows "\<exists>t'. tx_start_frame r t = Ok (sn_tx r t) t' \<and> sends cap peers [] t t' \<and> holds cap (frame_wire (sn_tx r t) r) t' \<and>
    tc_batch_count t' = tc_batch_count t \<and> sn_tx r t' = z_sn_increment (tc_sn_res t) (sn_tx r t)"
proof -
  obtain t1 where t1: "on_wbuf (unsafe_z_prepare_wbuf (lk_flow (tc_link t))) t = Ok () t1" "tx_same t t1" "tx_ready cap t1"
    "tx_buf cap (room (lk_flow (tc_link t))) (tc_wbuf t1)" "tc_net t1 = tc_net t" "tc_batch_count t1 = tc_batch_count t"
    "sn_tx r t1 = sn_tx r t"
    using prepare_state [OF assms] by blast
  obtain t2 where t2: "z_transport_tx_get_sn r t1 = Ok (sn_tx r t) t2" "tx_same t1 t2" "tc_wbuf t2 = tc_wbuf t1" "tc_net t2 = tc_net t1"
    "tc_batch_count t2 = tc_batch_count t1" "sn_tx r t2 = z_sn_increment (tc_sn_res t1) (sn_tx r t1)"
    using get_sn_ok [of r t1] t1(7) by auto
  have "length (room (lk_flow (tc_link t))) + length (frame_wire (sn_tx r t) r) \<le> cap"
    using frame_wire_length [of "sn_tx r t" r] assms by (simp add: room_def tx_ready_def)
  then obtain w where w: "z_transport_message_encode (z_t_msg_make_frame_header (sn_tx r t) r) (tc_wbuf t1) = Ok () w"
    "tx_buf cap (room (lk_flow (tc_link t)) @ frame_wire (sn_tx r t) r) w"
    using tx_buf_appends [OF appends_transport [OF make_rest_ok(4)] t1(4)] unfolding frame_wire_def by blast
  have "tx_start_frame r t = Ok (sn_tx r t) (t2\<lparr>tc_wbuf := w\<rparr>)"
    using t1(1) t2(1,3) w(1) by (simp add: tx_start_frame_def then_do_def bind_ok_def ret_def on_wbuf_def)
  then show ?thesis using t1 t2 w(2) by (auto simp: sends_def tx_same_def tx_ready_def)
qed

lemma encode_state:
  assumes "network_message_ok m" "tx_ready cap t" "holds cap bs t" "f = length (room (lk_flow (tc_link t)))"
  shows "if f + length bs + length (wire_network_message m) \<le> cap
     then \<exists>t'. on_wbuf (z_network_message_encode m) t = Ok () t' \<and> sends cap peers [] t t' \<and>
       holds cap (bs @ wire_network_message m) t' \<and> tc_batch_count t' = tc_batch_count t \<and> (\<forall>r. sn_tx r t' = sn_tx r t)
     else \<exists>t' pre. on_wbuf (z_network_message_encode m) t = Err Z_ERR_TRANSPORT_NO_SPACE t' \<and> sends cap peers [] t t' \<and>
       holds cap (bs @ pre) t' \<and> tc_batch_count t' = tc_batch_count t \<and> (\<forall>r. sn_tx r t' = sn_tx r t)"
proof (cases "f + length bs + length (wire_network_message m) \<le> cap")
  case True
  then obtain w where "z_network_message_encode m (tc_wbuf t) = Ok () w"
    "tx_buf cap ((room (lk_flow (tc_link t)) @ bs) @ wire_network_message m) w"
    using tx_buf_appends [OF appends_network_message [OF assms(1)] assms(3)] assms(4) by auto
  then show ?thesis using True assms(2)
    by (auto simp: on_wbuf_def sends_def tx_same_def tx_ready_def intro!: exI [of _ "t\<lparr>tc_wbuf := w\<rparr>"])
next
  case False
  then obtain w pre where "z_network_message_encode m (tc_wbuf t) = Err Z_ERR_TRANSPORT_NO_SPACE w"
    "tx_buf cap ((room (lk_flow (tc_link t)) @ bs) @ pre) w"
    using tx_buf_appends_full [OF appends_network_message [OF assms(1)] assms(3)] assms(4) by auto
  then have "on_wbuf (z_network_message_encode m) t = Err Z_ERR_TRANSPORT_NO_SPACE (t\<lparr>tc_wbuf := w\<rparr>) \<and>
      sends cap peers [] t (t\<lparr>tc_wbuf := w\<rparr>) \<and> holds cap (bs @ pre) (t\<lparr>tc_wbuf := w\<rparr>)"
    using assms(2) by (auto simp: on_wbuf_def sends_def tx_same_def tx_ready_def)
  then show ?thesis unfolding if_not_P [OF False] by (intro exI [of _ "t\<lparr>tc_wbuf := w\<rparr>"] exI [of _ pre]) simp_all
qed

lemma send_fragment_ok:
  assumes "network_message_ok m" "tx_ready cap t" "sn_tx r t = z_sn_increment (tc_sn_res t) sn"
  shows "\<exists>t' ms. z_transport_tx_send_fragment m r sn peers t = Ok () t' \<and> sends cap peers (map wire_transport ms) t t' \<and>
    frag_chain (tc_sn_res t) r True sn (wire_network_message m) ms \<and> tc_batch_count t' = tc_batch_count t"
proof -
  let ?w = "z_wbuf_make Z_FRAG_BUFF_BASE_SIZE True"
  obtain fb where fb: "z_network_message_encode m ?w = Ok () fb" "wrote (wire_network_message m) ?w fb"
    using appends_ok [OF appends_network_message [OF assms(1)] z_wbuf_make_wf, of Z_FRAG_BUFF_BASE_SIZE True]
    by (auto simp: z_wbuf_make_fits Z_FRAG_BUFF_BASE_SIZE_def)
  have b: "wbuf_wf fb" "wbuf_bytes fb = wire_network_message m" using fb(2) by (simp_all add: wrote_def)
  obtain t' fb' ms where l: "send_fragment_loop r peers True sn (t, fb) = Some (Ok () (t', fb'))" "tx_same t t'" "tx_ready cap t'"
    "frag_chain (tc_sn_res t) r True sn (wire_network_message m) ms"
    "tc_net t' = fold (\<lambda>m. deliver (tc_link t) peers (packet (lk_flow (tc_link t)) (wire_transport m))) ms (tc_net t)"
    "tc_batch_count t' = tc_batch_count t"
    using send_fragment_loop_ok [OF assms(2) b(1), of sn True sn r peers] assms(3) unfolding b(2) by auto
  have "z_transport_tx_send_fragment m r sn peers t = Ok () t'"
    by (simp add: z_transport_tx_send_fragment_def z_transport_tx_send_fragment_inner_def fb(1) l(1))
  then show ?thesis using l(2-6) by (intro exI [of _ t'] exI [of _ ms]) (simp add: sends_def fold_map comp_def)
qed


section \<open>Batches\<close>

definition messages_wire :: "z_network_message_t list \<Rightarrow> byte list" where
  "messages_wire ms = concat (map wire_network_message ms)"

text \<open>Packets and the messages in them: frames of one message or more, and chains of fragments.\<close>

inductive carries :: "z_zint_t \<Rightarrow> byte list list \<Rightarrow> z_network_message_t list \<Rightarrow> bool" for sn_res where
  carries_nil: "carries sn_res [] []"
| carries_frame: "ms \<noteq> [] \<Longrightarrow> carries sn_res ps out \<Longrightarrow> carries sn_res ((frame_wire sn r @ messages_wire ms) # ps) (ms @ out)"
| carries_fragments: "frag_chain sn_res r True sn (wire_network_message m) fs \<Longrightarrow> carries sn_res ps out \<Longrightarrow>
    carries sn_res (map wire_transport fs @ ps) (m # out)"

lemma carries_frame1: "ms \<noteq> [] \<Longrightarrow> carries sn_res [frame_wire sn r @ messages_wire ms] ms"
  using carries_frame [OF _ carries_nil] by simp

lemma carries_fragments1: "frag_chain sn_res r True sn (wire_network_message m) fs \<Longrightarrow> carries sn_res (map wire_transport fs) [m]"
  using carries_fragments [OF _ carries_nil] by simp

lemma carries_append: "carries sn_res ps out \<Longrightarrow> carries sn_res qs out2 \<Longrightarrow> carries sn_res (ps @ qs) (out @ out2)"
proof (induction rule: carries.induct)
  case (carries_frame ms ps out sn r)
  then show ?case using carries.carries_frame [of ms sn_res "ps @ qs" "out @ out2" sn r] by simp
next
  case (carries_fragments r sn m fs ps out)
  then show ?case using carries.carries_fragments [of sn_res r sn m fs "ps @ qs" "out @ out2"] by simp
qed simp

text \<open>A batch: the frame in the buffer holds the messages that wait, in order, and they are counted.\<close>

definition batch_inv :: "nat \<Rightarrow> ('n, 's) z_transport_common_t \<Rightarrow> z_network_message_t list \<Rightarrow> bool" where
  "batch_inv cap t ms \<longleftrightarrow> tx_ready cap t \<and> tc_batch_count t = length ms \<and>
     (ms \<noteq> [] \<longrightarrow> tc_batch_state t = Z_BATCHING_ACTIVE \<and> (\<exists>sn r. holds cap (frame_wire sn r @ messages_wire ms) t))"

abbreviation keeps :: "nat \<Rightarrow> 's list \<Rightarrow> z_network_message_t list \<Rightarrow>
    ('n, 's) z_transport_common_t \<Rightarrow> (unit, ('n, 's) z_transport_common_t) res \<Rightarrow> bool" where
  "keeps cap peers ms t res \<equiv> \<exists>t' ps out ms'. res = Ok () t' \<and> sends cap peers ps t t' \<and> carries (tc_sn_res t) ps out \<and>
     out @ ms' = ms \<and> batch_inv cap t' ms'"

lemma batch_inv_empty: "tx_ready cap t \<Longrightarrow> tc_batch_count t = 0 \<Longrightarrow> batch_inv cap t []"
  by (simp add: batch_inv_def)

lemma keeps_after:
  assumes "sends cap peers ps t t1" "carries (tc_sn_res t) ps out" "keeps cap peers ms t1 res"
  shows "keeps cap peers (out @ ms) t res"
proof -
  obtain t' qs out2 ms' where r: "res = Ok () t'" "sends cap peers qs t1 t'" "carries (tc_sn_res t1) qs out2" "out2 @ ms' = ms"
    "batch_inv cap t' ms'" using assms(3) by blast
  have "tc_sn_res t1 = tc_sn_res t" using assms(1) by (simp add: sends_def tx_same_def)
  then have "carries (tc_sn_res t) (ps @ qs) (out @ out2)" using carries_append [OF assms(2)] r(3) by simp
  moreover have "(out @ out2) @ ms' = out @ ms" using r(4) by simp
  ultimately show ?thesis using r(1,5) sends_trans [OF assms(1) r(2)] by blast
qed

lemma keeps_after_nil:
  "sends cap peers [] t t1 \<Longrightarrow> keeps cap peers ms t1 res \<Longrightarrow> keeps cap peers ms t res"
  using keeps_after [OF _ carries_nil] by fastforce

lemma flush_keeps:
  assumes "tx_ready cap t" "holds cap (frame_wire sn r @ messages_wire ms) t" "ms \<noteq> []"
  shows "keeps cap peers ms t (z_transport_tx_flush_buffer peers t)"
proof -
  obtain t' where f: "z_transport_tx_flush_buffer peers t = Ok () t'" "sends cap peers [frame_wire sn r @ messages_wire ms] t t'"
    "tc_batch_count t' = 0" using flush_ok [OF assms(1,2)] by blast
  show ?thesis using f(1,2) carries_frame1 [OF assms(3), of "tc_sn_res t" sn r] batch_inv_empty [OF sends_ready [OF f(2)] f(3)]
    by (intro exI [of _ t'] exI [of _ "[frame_wire sn r @ messages_wire ms]"] exI [of _ ms] exI [of _ "[]"]) simp
qed

lemma incr_keeps:
  assumes "tx_ready cap t" "holds cap (frame_wire sn r @ messages_wire ms) t" "length ms = Suc (tc_batch_count t)"
    "tc_batch_state t = Z_BATCHING_ACTIVE"
  shows "keeps cap peers ms t (Ok () (t\<lparr>tc_batch_count := tc_batch_count t + 1\<rparr>))"
  using assms by (intro exI [of _ "t\<lparr>tc_batch_count := tc_batch_count t + 1\<rparr>"] exI [of _ "[]"] exI [of _ ms])
    (auto simp: sends_def tx_same_def tx_ready_def batch_inv_def carries_nil)

text \<open>After the message is in the frame.\<close>

lemma written_keeps:
  assumes "tx_ready cap t" "holds cap (frame_wire sn r @ messages_wire ms) t" "length ms = Suc (tc_batch_count t)"
  shows "keeps cap peers ms t (if express then z_transport_tx_flush_buffer peers t else z_transport_tx_flush_or_incr_batch peers t)"
proof -
  have "ms \<noteq> []" using assms(3) by auto
  then show ?thesis using flush_keeps [OF assms(1,2)] incr_keeps [OF assms]
    by (simp add: z_transport_tx_flush_or_incr_batch_def)
qed


lemma messages_wire_snoc [simp]: "messages_wire (ms @ [m]) = messages_wire ms @ wire_network_message m" "messages_wire [] = []"
  by (simp_all add: messages_wire_def)

text \<open>The first message of a frame: in it, or in fragments when it does not fit.\<close>

definition first_in_frame where
  "first_in_frame m r sn peers t = (case on_wbuf (z_network_message_encode m) t of
     Fault \<Rightarrow> Fault
   | Err e t \<Rightarrow> z_transport_tx_send_fragment m r sn peers t
   | Ok _ t \<Rightarrow> (if z_transport_tx_get_express_status m then z_transport_tx_flush_buffer peers t
              else z_transport_tx_flush_or_incr_batch peers t))"

lemma first_in_frame_keeps:
  assumes "network_message_ok m" "tx_ready cap t" "holds cap (frame_wire sn r) t" "tc_batch_count t = 0"
    "sn_tx r t = z_sn_increment (tc_sn_res t) sn"
  shows "keeps cap peers [m] t (first_in_frame m r sn peers t)"
proof (cases "length (room (lk_flow (tc_link t))) + length (frame_wire sn r) + length (wire_network_message m) \<le> cap")
  case True
  obtain t1 where t1: "on_wbuf (z_network_message_encode m) t = Ok () t1" "sends cap peers [] t t1"
    "holds cap (frame_wire sn r @ wire_network_message m) t1" "tc_batch_count t1 = tc_batch_count t"
    using encode_state [OF assms(1-3) refl] True by auto
  have h: "holds cap (frame_wire sn r @ messages_wire [m]) t1" using t1(3) messages_wire_snoc(1) [of "[]" m] by simp
  show ?thesis unfolding first_in_frame_def
    using keeps_after_nil [OF t1(2) written_keeps [OF sends_ready [OF t1(2)] h]] t1(4) assms(4) by (simp add: t1(1))
next
  case False
  obtain t1 pre where t1: "on_wbuf (z_network_message_encode m) t = Err Z_ERR_TRANSPORT_NO_SPACE t1" "sends cap peers [] t t1"
    "tc_batch_count t1 = tc_batch_count t" "\<forall>r. sn_tx r t1 = sn_tx r t"
    using encode_state [OF assms(1-3) refl] False by auto
  have "tc_sn_res t1 = tc_sn_res t" using t1(2) by (simp add: sends_def tx_same_def)
  then have sn: "sn_tx r t1 = z_sn_increment (tc_sn_res t1) sn" using assms(5) t1(4) by simp
  obtain t' fs where f: "z_transport_tx_send_fragment m r sn peers t1 = Ok () t'" "sends cap peers (map wire_transport fs) t1 t'"
    "frag_chain (tc_sn_res t1) r True sn (wire_network_message m) fs" "tc_batch_count t' = tc_batch_count t1"
    using send_fragment_ok [OF assms(1) sends_ready [OF t1(2)] sn] by blast
  have "keeps cap peers [m] t1 (z_transport_tx_send_fragment m r sn peers t1)"
    using f(1,2) carries_fragments1 [OF f(3)] batch_inv_empty [OF sends_ready [OF f(2)]] f(4) t1(3) assms(4)
    by (intro exI [of _ t'] exI [of _ "map wire_transport fs"] exI [of _ "[m]"] exI [of _ "[]"]) simp
  then show ?thesis unfolding first_in_frame_def using keeps_after_nil [OF t1(2)] by (simp add: t1(1))
qed

text \<open>A new frame and the first message in it.\<close>

lemma new_frame_keeps:
  assumes "network_message_ok m" "tx_ready cap t" "tc_batch_count t = 0"
  shows "keeps cap peers [m] t (bind_ok (tx_start_frame r) (\<lambda>sn. first_in_frame m r sn peers) t)"
proof -
  obtain t1 where t1: "tx_start_frame r t = Ok (sn_tx r t) t1" "sends cap peers [] t t1" "holds cap (frame_wire (sn_tx r t) r) t1"
    "tc_batch_count t1 = tc_batch_count t" "sn_tx r t1 = z_sn_increment (tc_sn_res t) (sn_tx r t)"
    using start_frame_ok [OF assms(2)] by blast
  have "tc_sn_res t1 = tc_sn_res t" using t1(2) by (simp add: sends_def tx_same_def)
  then have "keeps cap peers [m] t1 (first_in_frame m r (sn_tx r t) peers t1)"
    using first_in_frame_keeps [OF assms(1) sends_ready [OF t1(2)] t1(3)] t1(4,5) assms(3) by simp
  then show ?thesis using keeps_after_nil [OF t1(2)] by (simp add: bind_ok_def t1(1))
qed

lemma batch_overflow_active:
  assumes "tx_start_frame r t1 = Ok sn t2" "tc_batch_state t2 = Z_BATCHING_ACTIVE"
    "then_do (on_wbuf (z_wbuf_set_wpos n)) (z_transport_tx_flush_buffer peers) t = Ok () t1"
  shows "z_transport_tx_batch_overflow m r n peers t = first_in_frame m r sn peers t2"
proof -
  have act: "tc_batch_state t3 = Z_BATCHING_ACTIVE" if "on_wbuf (z_network_message_encode m) t2 = Ok () t3" for t3
    using that assms(2) by (auto simp: on_wbuf_def split: res.splits)
  obtain t0 where t0: "on_wbuf (z_wbuf_set_wpos n) t = Ok () t0" "z_transport_tx_flush_buffer peers t0 = Ok () t1"
    using assms(3) by (auto simp: then_do_def bind_ok_def split: res.splits)
  show ?thesis unfolding z_transport_tx_batch_overflow_def first_in_frame_def
    using t0 assms(1) act
    by (auto simp: then_do_def bind_ok_def z_transport_tx_flush_or_incr_batch_def split: res.splits)
qed


lemma overflow_keeps:
  assumes "network_message_ok m" "tx_ready cap t" "holds cap ((frame_wire sn0 r0 @ messages_wire ms) @ pre) t" "ms \<noteq> []"
    "n = length (room (lk_flow (tc_link t)) @ frame_wire sn0 r0 @ messages_wire ms)" "tc_batch_state t = Z_BATCHING_ACTIVE"
  shows "keeps cap peers (ms @ [m]) t (z_transport_tx_batch_overflow m r n peers t)"
proof -
  obtain w where w: "z_wbuf_set_wpos n (tc_wbuf t) = Ok () w" "tx_buf cap (room (lk_flow (tc_link t)) @ frame_wire sn0 r0 @ messages_wire ms) w"
    using tx_buf_set_wpos [of cap "room (lk_flow (tc_link t)) @ frame_wire sn0 r0 @ messages_wire ms" pre "tc_wbuf t"] assms(3,5)
    by auto
  let ?t = "t\<lparr>tc_wbuf := w\<rparr>"
  have s0: "sends cap peers [] t ?t" "tx_ready cap ?t" using assms(2) w(2) by (auto simp: sends_def tx_same_def tx_ready_def)
  obtain t1 where t1: "z_transport_tx_flush_buffer peers ?t = Ok () t1" "sends cap peers [frame_wire sn0 r0 @ messages_wire ms] ?t t1"
    "tc_batch_count t1 = 0"
    using flush_ok [OF s0(2), of "frame_wire sn0 r0 @ messages_wire ms" peers] w(2) by auto
  obtain t2 where t2: "tx_start_frame r t1 = Ok (sn_tx r t1) t2" "sends cap peers [] t1 t2"
    using start_frame_ok [OF sends_ready [OF t1(2)]] by blast
  have "then_do (on_wbuf (z_wbuf_set_wpos n)) (z_transport_tx_flush_buffer peers) t = Ok () t1"
    using w(1) t1(1) by (simp add: then_do_def bind_ok_def on_wbuf_def)
  moreover have "tc_batch_state t2 = Z_BATCHING_ACTIVE"
    using assms(6) t1(2) t2(2) by (simp add: sends_def tx_same_def)
  ultimately have "z_transport_tx_batch_overflow m r n peers t = bind_ok (tx_start_frame r) (\<lambda>sn. first_in_frame m r sn peers) t1"
    using batch_overflow_active [OF t2(1)] by (simp add: bind_ok_def t2(1))
  then have "keeps cap peers [m] t1 (z_transport_tx_batch_overflow m r n peers t)"
    using new_frame_keeps [OF assms(1) sends_ready [OF t1(2)] t1(3), where peers = peers and r = r] by simp
  then show ?thesis
    by (intro keeps_after [OF _ carries_frame1 [OF assms(4)]]) (use sends_trans [OF s0(1) t1(2)] in simp)
qed

lemma send_n_msg_inner_ok:
  assumes "batch_inv cap t ms" "network_message_ok m"
  shows "keeps cap peers (ms @ [m]) t (z_transport_tx_send_n_msg_inner m r peers t)"
proof (cases "ms = []")
  case True
  have ready: "tx_ready cap t" "tc_batch_count t = 0" using assms(1) True by (simp_all add: batch_inv_def)
  obtain t1 where t1: "tx_start_frame r t = Ok (sn_tx r t) t1" "holds cap (frame_wire (sn_tx r t) r) t1" "tc_link t1 = tc_link t"
    using start_frame_ok [OF ready(1)] sends_link by blast
  have "z_transport_tx_send_n_msg_inner m r peers t = bind_ok (tx_start_frame r) (\<lambda>sn. first_in_frame m r sn peers) t"
    using t1(1) tx_buf_facts(6) [OF t1(2)] ready(2)
    by (simp add: z_transport_tx_send_n_msg_inner_def first_in_frame_def z_transport_tx_batch_has_data_def bind_ok_def Let_def split: res.split)
  then show ?thesis using new_frame_keeps [OF assms(2) ready] True by simp
next
  case False
  obtain sn0 r0 where ready: "tx_ready cap t" "tc_batch_count t = length ms" "tc_batch_state t = Z_BATCHING_ACTIVE"
    "holds cap (frame_wire sn0 r0 @ messages_wire ms) t" using assms(1) False by (auto simp: batch_inv_def)
  let ?b = "frame_wire sn0 r0 @ messages_wire ms"
  have data: "z_transport_tx_batch_has_data t" using ready(2,3) False by (simp add: z_transport_tx_batch_has_data_def)
  note pos = tx_buf_facts(6) [OF ready(4)] and enc = encode_state [OF assms(2) ready(1,4) refl, where peers = peers]
  show ?thesis
  proof (cases "length (room (lk_flow (tc_link t))) + length ?b + length (wire_network_message m) \<le> cap")
    case True
    obtain t1 where t1: "on_wbuf (z_network_message_encode m) t = Ok () t1" "sends cap peers [] t t1"
      "holds cap (frame_wire sn0 r0 @ messages_wire (ms @ [m])) t1" "tc_batch_count t1 = tc_batch_count t"
      using enc True by auto
    have "length (ms @ [m]) = Suc (tc_batch_count t1)" using t1(4) ready(2) by simp
    then show ?thesis
      using keeps_after_nil [OF t1(2) written_keeps [OF sends_ready [OF t1(2)] t1(3)]] t1(1) pos data
      by (simp add: z_transport_tx_send_n_msg_inner_def bind_ok_def ret_def)
  next
    case False
    obtain t1 pre where t1: "on_wbuf (z_network_message_encode m) t = Err Z_ERR_TRANSPORT_NO_SPACE t1" "sends cap peers [] t t1"
      "holds cap (?b @ pre) t1" using enc False by fastforce
    have "tc_link t1 = tc_link t" "tc_batch_state t1 = tc_batch_state t" using t1(2) by (simp_all add: sends_def tx_same_def)
    then have "keeps cap peers (ms @ [m]) t1
        (z_transport_tx_batch_overflow m r (length (room (lk_flow (tc_link t)) @ ?b)) peers t1)"
      using overflow_keeps [OF assms(2) sends_ready [OF t1(2)] t1(3) \<open>ms \<noteq> []\<close>] ready(3) by simp
    then show ?thesis using keeps_after_nil [OF t1(2)] t1(1) pos data
      by (simp add: z_transport_tx_send_n_msg_inner_def bind_ok_def ret_def)
  qed
qed

text \<open>Sending the batch leaves nothing behind.\<close>

lemma flush_batch_keeps:
  assumes "batch_inv cap t ms" "ms \<noteq> []"
  shows "\<exists>t' ps. z_transport_tx_flush_buffer peers t = Ok () t' \<and> sends cap peers ps t t' \<and> carries (tc_sn_res t) ps ms \<and>
    batch_inv cap t' []"
proof -
  obtain sn0 r0 where b: "tx_ready cap t" "holds cap (frame_wire sn0 r0 @ messages_wire ms) t"
    using assms by (auto simp: batch_inv_def)
  show ?thesis using flush_ok [OF b] carries_frame1 [OF assms(2)] batch_inv_empty sends_ready by blast
qed

lemma send_t_msg_keeps:
  assumes "batch_inv cap t ms" "transport_ok m" "length (wire_transport m) + 2 \<le> cap"
  shows "\<exists>t' ps. z_transport_tx_send_t_msg_inner m peers t = Ok () t' \<and> sends cap peers (ps @ [wire_transport m]) t t' \<and>
    carries (tc_sn_res t) ps ms \<and> batch_inv cap t' []"
proof -
  obtain t1 ps where t1: "when_do (z_transport_tx_batch_has_data t) (z_transport_tx_flush_buffer peers) t = Ok () t1"
    "sends cap peers ps t t1" "carries (tc_sn_res t) ps ms" "batch_inv cap t1 []"
  proof (cases "ms = []")
    case True
    then show thesis using assms(1) carries_nil by (intro that [of t "[]"])
      (auto simp: z_transport_tx_batch_has_data_def batch_inv_def sends_def ret_def when_do_def)
  next
    case False
    then have "z_transport_tx_batch_has_data t" using assms(1) by (simp add: batch_inv_def z_transport_tx_batch_has_data_def)
    then show thesis using flush_batch_keeps [OF assms(1) False] that by (auto simp: when_do_def)
  qed
  obtain t2 where t2: "on_wbuf (unsafe_z_prepare_wbuf (lk_flow (tc_link t1))) t1 = Ok () t2" "tx_same t1 t2" "tx_ready cap t2"
    "tx_buf cap (room (lk_flow (tc_link t1))) (tc_wbuf t2)" "tc_net t2 = tc_net t1"
    using prepare_state [OF sends_ready [OF t1(2)]] by blast
  have "length (room (lk_flow (tc_link t1))) + length (wire_transport m) \<le> cap" using assms(3) by (simp add: room_def)
  then obtain w where w: "z_transport_message_encode m (tc_wbuf t2) = Ok () w"
    "tx_buf cap (room (lk_flow (tc_link t1)) @ wire_transport m) w"
    using tx_buf_appends [OF appends_transport [OF assms(2)] t2(4)] by blast
  let ?t = "t2\<lparr>tc_wbuf := w\<rparr>"
  have s2: "sends cap peers [] t1 ?t" "holds cap (wire_transport m) ?t" "tx_ready cap ?t"
    using t2 w(2) by (auto simp: sends_def tx_same_def tx_ready_def)
  obtain t3 where t3: "z_transport_tx_flush_buffer peers ?t = Ok () t3" "sends cap peers [wire_transport m] ?t t3"
    "tc_batch_count t3 = 0" using flush_ok [OF s2(3,2)] by blast
  have "z_transport_tx_send_t_msg_inner m peers t = Ok () t3"
    using t1(1) t2(1) w(1) t3(1) by (simp add: z_transport_tx_send_t_msg_inner_def then_do_def bind_ok_def on_wbuf_def)
  then show ?thesis using sends_trans [OF t1(2) sends_trans [OF s2(1) t3(2)]] t1(3) batch_inv_empty [OF sends_ready [OF t3(2)] t3(3)]
    by auto
qed


text \<open>A transport that no longer batches starts a new packet over a batch that was not sent.\<close>

lemma idle_send:
  assumes "tx_ready cap t" "tc_batch_state t \<noteq> Z_BATCHING_ACTIVE" "network_message_ok m"
    "length (room (lk_flow (tc_link t))) + length (frame_wire (sn_tx r t) r) + length (wire_network_message m) \<le> cap"
  shows "\<exists>t'. z_transport_tx_send_n_msg_inner m r peers t = Ok () t' \<and>
    sends cap peers [frame_wire (sn_tx r t) r @ wire_network_message m] t t' \<and> tc_batch_count t' = 0"
proof -
  obtain t1 where t1: "tx_start_frame r t = Ok (sn_tx r t) t1" "sends cap peers [] t t1" "holds cap (frame_wire (sn_tx r t) r) t1"
    using start_frame_ok [OF assms(1)] by blast
  have l: "tc_link t1 = tc_link t" using t1(2) by (rule sends_link)
  obtain t2 where t2: "on_wbuf (z_network_message_encode m) t1 = Ok () t2" "sends cap peers [] t1 t2"
    "holds cap (frame_wire (sn_tx r t) r @ wire_network_message m) t2"
    using encode_state [OF assms(3) sends_ready [OF t1(2)] t1(3) refl, where peers = peers] assms(4) l by auto
  have "tc_batch_state t2 \<noteq> Z_BATCHING_ACTIVE" using assms(2) t1(2) t2(2) by (simp add: sends_def tx_same_def)
  then have "z_transport_tx_send_n_msg_inner m r peers t = z_transport_tx_flush_buffer peers t2"
    using assms(2) t1(1) t2(1) tx_buf_facts(6) [OF t1(3)]
    by (simp add: z_transport_tx_send_n_msg_inner_def z_transport_tx_batch_has_data_def bind_ok_def z_transport_tx_flush_or_incr_batch_def)
  then show ?thesis using flush_ok [OF sends_ready [OF t2(2)] t2(3), where peers = peers] sends_trans [OF t1(2) sends_trans [OF t2(2)]]
    by auto
qed

end
