(* ===== verification/Zp_Rx.thy ===== *)
theory Zp_Rx imports Zp_TxBatch
begin

text \<open>
  Receiving on a unicast transport: the receiving half of \<^verbatim>\<open>src/link/link.c\<close>,
  \<^verbatim>\<open>src/transport/common/rx.c\<close>, the peers of \<^verbatim>\<open>src/transport/peer.c\<close>, and
  \<^verbatim>\<open>src/transport/unicast/rx.c\<close> and \<^verbatim>\<open>read.c\<close>, with the reassembly of fragments and the
  packets of a stream that come in pieces. The handler of network messages is a parameter.
  Connectivity events are switched off in the configuration, and the mutexes and the task that
  runs the loop are not part of the model.
\<close>

section \<open>Reading from a link\<close>

definition Z_ERR_TRANSPORT_RX_FAILED :: z_result_t where "Z_ERR_TRANSPORT_RX_FAILED = - 99"
definition Z_ERR_TRANSPORT_NOT_ENOUGH_BYTES :: z_result_t where "Z_ERR_TRANSPORT_NOT_ENOUGH_BYTES = - 97"
definition Z_ERR_CONNECTION_CLOSED :: z_result_t where "Z_ERR_CONNECTION_CLOSED = - 77"
definition Z_NO_DATA_PROCESSED :: z_result_t where "Z_NO_DATA_PROCESSED = 3"

text \<open>
  What the platform did at the write pointer: \<open>Fault\<close> when it wrote past the memory of the buffer,
  nothing when it returned \<^verbatim>\<open>SIZE_MAX\<close>.
\<close>

definition zbuf_received :: "byte list option \<Rightarrow> (nat option, z_zbuf_t) prog" where
  "zbuf_received bs zbf = (case bs of
     None \<Rightarrow> Ok None zbf
   | Some bs \<Rightarrow>
       (let ios = zb_ios zbf; wpos = z_zbuf_get_wpos zbf in
        if length (ios_buf ios) < wpos + length bs then Fault
        else bind_ok (z_zbuf_set_wpos (wpos + length bs)) (\<lambda>_. ret (Some (length bs)))
               (zbf\<lparr>zb_ios := ios\<lparr>ios_buf := overwrite wpos bs (ios_buf ios)\<rparr>\<rparr>)))"

definition read_into :: "byte list option \<times> 'n \<Rightarrow> z_zbuf_t \<Rightarrow> (nat option, z_zbuf_t \<times> 'n) res" where
  "read_into r zbf = (case zbuf_received (fst r) zbf of
     Ok rb zbf \<Rightarrow> Ok rb (zbf, snd r) | Err e zbf \<Rightarrow> Err e (zbf, snd r) | Fault \<Rightarrow> Fault)"

definition z_link_recv_zbuf :: "('n, 's) z_link_t \<Rightarrow> (nat option, z_zbuf_t \<times> 'n) prog" where
  "z_link_recv_zbuf link zn = read_into (lk_read_f link (z_zbuf_space_left (fst zn)) (snd zn)) (fst zn)"

definition z_link_recv_exact_zbuf :: "('n, 's) z_link_t \<Rightarrow> nat \<Rightarrow> 's option \<Rightarrow> (nat option, z_zbuf_t \<times> 'n) prog" where
  "z_link_recv_exact_zbuf link len sock zn = read_into (lk_read_exact_f link len sock (snd zn)) (fst zn)"

definition z_link_socket_recv_zbuf :: "('n, 's) z_link_t \<Rightarrow> 's \<Rightarrow> (nat option, z_zbuf_t \<times> 'n) prog" where
  "z_link_socket_recv_zbuf link sock zn = read_into (lk_read_socket_f link sock (z_zbuf_space_left (fst zn)) (snd zn)) (fst zn)"

definition on_zbuf :: "('a, z_zbuf_t) prog \<Rightarrow> ('a, z_zbuf_t \<times> 'n) prog" where
  "on_zbuf p zn = (case p (fst zn) of Ok x z \<Rightarrow> Ok x (z, snd zn) | Err e z \<Rightarrow> Err e (z, snd zn) | Fault \<Rightarrow> Fault)"

text \<open>The length of a packet, least significant byte first.\<close>

definition z_read_stream_size :: "(nat, z_zbuf_t) prog" where
  "z_read_stream_size =
     bind_ok z_zbuf_read (\<lambda>b0. bind_ok z_zbuf_read (\<lambda>b1. ret (unat b0 + unat b1 * 256)))"

section \<open>Without a transport\<close>

text \<open>
  The structures of the handshake that a message is copied to are zeroed, or hold a cleared init
  whose cookie is null, where the cookie of an open lies: the member copied to is one of zeros.
\<close>

definition t_body_zero :: "z_transport_body_t \<Rightarrow> z_transport_body_t" where
  "t_body_zero b = (case b of
     T_Join m \<Rightarrow> T_Join \<lparr>jo_zid = z_id_empty, jo_lease = 0, jo_next_sn = conduit_null,
       jo_batch_size = 0, jo_whatami = 0, jo_req_id_res = 0, jo_seq_num_res = 0, jo_version = 0, jo_patch = 0\<rparr>
   | T_Init m \<Rightarrow> T_Init \<lparr>in_zid = z_id_empty, in_cookie = [], in_batch_size = 0, in_whatami = 0, in_req_id_res = 0,
       in_seq_num_res = 0, in_version = 0, in_patch = 0\<rparr>
   | T_Open m \<Rightarrow> T_Open \<lparr>op_lease = 0, op_initial_sn = 0, op_cookie = []\<rparr>
   | T_Close m \<Rightarrow> T_Close \<lparr>cl_reason = 0\<rparr>
   | T_Keep_Alive \<Rightarrow> T_Keep_Alive
   | T_Frame m \<Rightarrow> T_Frame \<lparr>fm_payload = None, fm_sn = 0\<rparr>
   | T_Fragment m \<Rightarrow> T_Fragment \<lparr>fg_payload = [], fg_sn = 0, fg_first = False, fg_drop = False\<rparr>)"

definition recv_packet :: "('n, 's) z_link_t \<Rightarrow> 's option \<Rightarrow> (unit, z_zbuf_t \<times> 'n) prog" where
  "recv_packet zl sock =
     (if lk_flow zl = Z_LINK_CAP_FLOW_STREAM
      then bind_ok (z_link_recv_exact_zbuf zl Z_MSG_LEN_ENC_SIZE sock) (\<lambda>rb.
        if rb \<noteq> Some Z_MSG_LEN_ENC_SIZE then fail Z_ERR_TRANSPORT_RX_FAILED
        else bind_ok (on_zbuf z_read_stream_size) (\<lambda>len zn.
          if z_zbuf_capacity (fst zn) - z_zbuf_len (fst zn) < len then Err Z_ERR_TRANSPORT_NO_SPACE zn
          else bind_ok (z_link_recv_exact_zbuf zl len sock) (\<lambda>rb.
            if rb \<noteq> Some len then fail Z_ERR_TRANSPORT_RX_FAILED else ret ()) zn))
      else if lk_flow zl = Z_LINK_CAP_FLOW_DATAGRAM
      then bind_ok (z_link_recv_zbuf zl) (\<lambda>rb. if rb = None then fail Z_ERR_TRANSPORT_RX_FAILED else ret ())
      else fail Z_ERR_GENERIC)"

definition z_link_recv_t_msg :: "('n, 's) z_link_t \<Rightarrow> 's option \<Rightarrow> (z_transport_message_t, 'n) prog" where
  "z_link_recv_t_msg zl sock net =
     (case bind_ok (recv_packet zl sock) (\<lambda>_. on_zbuf z_transport_message_decode)
             (z_zbuf_reset (z_zbuf_make (unat Z_BATCH_UNICAST_SIZE)), net) of
        Ok l_t_msg zn \<Rightarrow>
          (case z_t_msg_copy l_t_msg \<lparr>tm_body = t_body_zero (tm_body l_t_msg), tm_header = 0\<rparr> of
             Ok _ t_msg \<Rightarrow> Ok t_msg (snd zn) | Err e _ \<Rightarrow> Err e (snd zn) | Fault \<Rightarrow> Fault)
      | Err e zn \<Rightarrow> Err e (snd zn)
      | Fault \<Rightarrow> Fault)"

section \<open>Peers\<close>

definition Z_DBUF_STATE_NULL :: u8 where "Z_DBUF_STATE_NULL = 0"
definition Z_DBUF_STATE_INIT :: u8 where "Z_DBUF_STATE_INIT = 1"
definition Z_DBUF_STATE_OVERFLOW :: u8 where "Z_DBUF_STATE_OVERFLOW = 2"
definition Z_FRAG_MAX_SIZE :: nat where "Z_FRAG_MAX_SIZE = 4096"

text \<open>The resources that a peer declared are of any type: the session keeps them.\<close>

record 'r z_transport_peer_common_t =
  pc_remote_zid :: z_id_t
  pc_remote_whatami :: z_whatami_t
  pc_received :: bool
  pc_remote_resources :: "'r list"
  pc_state_reliable :: u8
  pc_state_best_effort :: u8
  pc_dbuf_reliable :: z_wbuf_t
  pc_dbuf_best_effort :: z_wbuf_t
  pc_patch :: u8

definition z_transport_peer_common_clear :: "'r z_transport_peer_common_t \<Rightarrow> 'r z_transport_peer_common_t" where
  "z_transport_peer_common_clear src =
     src\<lparr>pc_dbuf_reliable := z_wbuf_clear (pc_dbuf_reliable src), pc_dbuf_best_effort := z_wbuf_clear (pc_dbuf_best_effort src),
         pc_remote_zid := z_id_empty, pc_remote_resources := []\<rparr>"

definition dbuf_copy :: "z_wbuf_t \<Rightarrow> z_wbuf_t \<Rightarrow> z_wbuf_t" where
  "dbuf_copy dst src = (case z_wbuf_copy (dst, src) of Ok _ ws \<Rightarrow> fst ws | Err _ ws \<Rightarrow> fst ws | Fault \<Rightarrow> dst)"

definition z_transport_peer_common_copy ::
    "'r z_transport_peer_common_t \<Rightarrow> 'r z_transport_peer_common_t \<Rightarrow> 'r z_transport_peer_common_t" where
  "z_transport_peer_common_copy dst src =
     dst\<lparr>pc_state_reliable := pc_state_reliable src, pc_state_best_effort := pc_state_best_effort src,
         pc_dbuf_reliable := dbuf_copy (pc_dbuf_reliable dst) (pc_dbuf_reliable src),
         pc_dbuf_best_effort := dbuf_copy (pc_dbuf_best_effort dst) (pc_dbuf_best_effort src),
         pc_patch := pc_patch src, pc_remote_resources := [], pc_received := pc_received src,
         pc_remote_zid := pc_remote_zid src, pc_remote_whatami := pc_remote_whatami src\<rparr>"

definition z_transport_peer_common_eq :: "'r z_transport_peer_common_t \<Rightarrow> 'r z_transport_peer_common_t \<Rightarrow> bool" where
  "z_transport_peer_common_eq left right \<longleftrightarrow> pc_remote_zid left = pc_remote_zid right"


definition Z_FLOW_STATE_INACTIVE :: u8 where "Z_FLOW_STATE_INACTIVE = 0"
definition Z_FLOW_STATE_PENDING_SIZE :: u8 where "Z_FLOW_STATE_PENDING_SIZE = 1"
definition Z_FLOW_STATE_PENDING_DATA :: u8 where "Z_FLOW_STATE_PENDING_DATA = 2"
definition Z_FLOW_STATE_READY :: u8 where "Z_FLOW_STATE_READY = 3"

definition z_zbuf_null :: z_zbuf_t where "z_zbuf_null = \<lparr>zb_ios = z_iosli_null\<rparr>"

record ('s, 'r) z_transport_peer_unicast_t =
  pu_common :: "'r z_transport_peer_common_t"
  pu_socket :: 's
  pu_owns_socket :: bool
  pu_sn_rx_reliable :: z_zint_t
  pu_sn_rx_best_effort :: z_zint_t
  pu_pending :: bool
  pu_flow_state :: u8
  pu_flow_curr_size :: u16
  pu_flow_buff :: z_zbuf_t

text \<open>Clearing a peer returns the socket to close, when it is the peer's own.\<close>

definition z_transport_peer_unicast_clear ::
    "('s, 'r) z_transport_peer_unicast_t \<Rightarrow> 's option \<times> ('s, 'r) z_transport_peer_unicast_t" where
  "z_transport_peer_unicast_clear src =
     (if pu_owns_socket src then Some (pu_socket src) else None,
      src\<lparr>pu_flow_buff := z_zbuf_null, pu_common := z_transport_peer_common_clear (pu_common src)\<rparr>)"

definition z_transport_peer_unicast_copy ::
    "('s, 'r) z_transport_peer_unicast_t \<Rightarrow> ('s, 'r) z_transport_peer_unicast_t \<Rightarrow> ('s, 'r) z_transport_peer_unicast_t" where
  "z_transport_peer_unicast_copy dst src =
     dst\<lparr>pu_sn_rx_reliable := pu_sn_rx_reliable src, pu_sn_rx_best_effort := pu_sn_rx_best_effort src,
         pu_socket := pu_socket src, pu_owns_socket := False, pu_pending := False, pu_flow_state := Z_FLOW_STATE_INACTIVE,
         pu_flow_curr_size := 0, pu_flow_buff := z_zbuf_null,
         pu_common := z_transport_peer_common_copy (pu_common dst) (pu_common src)\<rparr>"

definition z_transport_peer_unicast_eq ::
    "('s, 'r) z_transport_peer_unicast_t \<Rightarrow> ('s, 'r) z_transport_peer_unicast_t \<Rightarrow> bool" where
  "z_transport_peer_unicast_eq left right \<longleftrightarrow> z_transport_peer_common_eq (pu_common left) (pu_common right)"

record ('n, 's, 'r) z_transport_unicast_t =
  zu_common :: "('n, 's) z_transport_common_t"
  zu_peers :: "('s, 'r) z_transport_peer_unicast_t list"

record z_transport_unicast_establish_param_t =
  ep_remote_zid :: z_id_t
  ep_batch_size :: u16
  ep_initial_sn_rx :: z_zint_t
  ep_initial_sn_tx :: z_zint_t
  ep_lease :: z_zint_t
  ep_remote_whatami :: z_whatami_t
  ep_key_id_res :: u8
  ep_req_id_res :: u8
  ep_seq_num_res :: u8
  ep_is_qos :: bool
  ep_patch :: u8

text \<open>
  A new peer is the first of the list; every field of it is assigned.
\<close>

definition z_transport_peer_unicast_add ::
    "z_transport_unicast_establish_param_t \<Rightarrow> 's \<Rightarrow> bool \<Rightarrow> ('n, 's, 'r) z_transport_unicast_t \<Rightarrow> ('n, 's, 'r) z_transport_unicast_t" where
  "z_transport_peer_unicast_add param socket owns_socket ztu =
     (let initial_sn_rx = z_sn_decrement (tc_sn_res (zu_common ztu)) (ep_initial_sn_rx param);
          common = \<lparr>pc_remote_zid = ep_remote_zid param, pc_remote_whatami = ep_remote_whatami param, pc_received = True,
                    pc_remote_resources = [], pc_state_reliable = Z_DBUF_STATE_NULL, pc_state_best_effort = Z_DBUF_STATE_NULL,
                    pc_dbuf_reliable = z_wbuf_null, pc_dbuf_best_effort = z_wbuf_null,
                    pc_patch = (if ep_patch param < Z_CURRENT_PATCH then ep_patch param else Z_CURRENT_PATCH)\<rparr>;
          peer = \<lparr>pu_common = common, pu_socket = socket, pu_owns_socket = owns_socket, pu_sn_rx_reliable = initial_sn_rx,
                  pu_sn_rx_best_effort = initial_sn_rx, pu_pending = False, pu_flow_state = Z_FLOW_STATE_INACTIVE,
                  pu_flow_curr_size = 0, pu_flow_buff = z_zbuf_null\<rparr>
      in ztu\<lparr>zu_peers := peer # zu_peers ztu\<rparr>)"

section \<open>Messages from a peer\<close>

text \<open>
  What the handlers work on: the transport, the peer the message came from, and the buffer that it
  was decoded from, which the payload of a frame points to. The session's handler of network
  messages is a parameter, which may use the transport and change what is common to peers; the
  address of the peer is the mapping of the key expressions that are decoded.
\<close>

record ('n, 's, 'r) unicast_rx_t =
  ur_common :: "('n, 's) z_transport_common_t"
  ur_peer :: "('s, 'r) z_transport_peer_unicast_t"
  ur_zbuf :: z_zbuf_t

type_synonym ('n, 's, 'r) message_handler =
  "z_network_message_t \<Rightarrow> (unit, ('n, 's) z_transport_common_t \<times> 'r z_transport_peer_common_t) prog"

definition on_session ::
    "(unit, ('n, 's) z_transport_common_t \<times> 'r z_transport_peer_common_t) prog \<Rightarrow> (unit, ('n, 's, 'r) unicast_rx_t) prog" where
  "on_session p s =
     (let put = (\<lambda>cp. s\<lparr>ur_common := fst cp, ur_peer := (ur_peer s)\<lparr>pu_common := snd cp\<rparr>\<rparr>) in
      case p (ur_common s, pu_common (ur_peer s)) of
        Ok x cp \<Rightarrow> Ok x (put cp) | Err e cp \<Rightarrow> Err e (put cp) | Fault \<Rightarrow> Fault)"

definition on_rx_zbuf :: "('a, z_zbuf_t) prog \<Rightarrow> ('a, ('n, 's, 'r) unicast_rx_t) prog" where
  "on_rx_zbuf p s = (case p (ur_zbuf s) of
     Ok x z \<Rightarrow> Ok x (s\<lparr>ur_zbuf := z\<rparr>) | Err e z \<Rightarrow> Err e (s\<lparr>ur_zbuf := z\<rparr>) | Fault \<Rightarrow> Fault)"

text \<open>The state of one of the two channels of a peer.\<close>

definition sn_rx :: "bool \<Rightarrow> ('s, 'r) z_transport_peer_unicast_t \<Rightarrow> z_zint_t" where
  "sn_rx reliable p = (if reliable then pu_sn_rx_reliable p else pu_sn_rx_best_effort p)"

definition set_sn_rx :: "bool \<Rightarrow> z_zint_t \<Rightarrow> ('s, 'r) z_transport_peer_unicast_t \<Rightarrow> ('s, 'r) z_transport_peer_unicast_t" where
  "set_sn_rx reliable sn p = (if reliable then p\<lparr>pu_sn_rx_reliable := sn\<rparr> else p\<lparr>pu_sn_rx_best_effort := sn\<rparr>)"

definition dbuf :: "bool \<Rightarrow> 'r z_transport_peer_common_t \<Rightarrow> z_wbuf_t" where
  "dbuf reliable p = (if reliable then pc_dbuf_reliable p else pc_dbuf_best_effort p)"

definition dbuf_state :: "bool \<Rightarrow> 'r z_transport_peer_common_t \<Rightarrow> u8" where
  "dbuf_state reliable p = (if reliable then pc_state_reliable p else pc_state_best_effort p)"

definition set_dbuf :: "bool \<Rightarrow> z_wbuf_t \<Rightarrow> 'r z_transport_peer_common_t \<Rightarrow> 'r z_transport_peer_common_t" where
  "set_dbuf reliable w p = (if reliable then p\<lparr>pc_dbuf_reliable := w\<rparr> else p\<lparr>pc_dbuf_best_effort := w\<rparr>)"

definition set_dbuf_state :: "bool \<Rightarrow> u8 \<Rightarrow> 'r z_transport_peer_common_t \<Rightarrow> 'r z_transport_peer_common_t" where
  "set_dbuf_state reliable st p = (if reliable then p\<lparr>pc_state_reliable := st\<rparr> else p\<lparr>pc_state_best_effort := st\<rparr>)"

definition drop_dbuf :: "bool \<Rightarrow> 'r z_transport_peer_common_t \<Rightarrow> 'r z_transport_peer_common_t" where
  "drop_dbuf reliable p = set_dbuf_state reliable Z_DBUF_STATE_NULL (set_dbuf reliable (z_wbuf_clear (dbuf reliable p)) p)"

definition on_peer_common :: "('r z_transport_peer_common_t \<Rightarrow> 'r z_transport_peer_common_t) \<Rightarrow> ('n, 's, 'r) unicast_rx_t \<Rightarrow> ('n, 's, 'r) unicast_rx_t" where
  "on_peer_common f s = s\<lparr>ur_peer := (ur_peer s)\<lparr>pu_common := f (pu_common (ur_peer s))\<rparr>\<rparr>"

definition on_dbuf :: "bool \<Rightarrow> ('a, z_wbuf_t) prog \<Rightarrow> ('a, ('n, 's, 'r) unicast_rx_t) prog" where
  "on_dbuf reliable p s = (case p (dbuf reliable (pu_common (ur_peer s))) of
     Ok x w \<Rightarrow> Ok x (on_peer_common (set_dbuf reliable w) s)
   | Err e w \<Rightarrow> Err e (on_peer_common (set_dbuf reliable w) s)
   | Fault \<Rightarrow> Fault)"


text \<open>
  The network messages of a frame, one after another, until the buffer is empty: \<open>None\<close> when that
  does not end. A message that is out of order empties the buffer it was decoded from.
\<close>

partial_function (option) frame_loop ::
    "keyexpr_mapping \<Rightarrow> ('n, 's, 'r) message_handler \<Rightarrow> z_reliability_t \<Rightarrow> ('n, 's, 'r) unicast_rx_t \<Rightarrow>
     (unit, ('n, 's, 'r) unicast_rx_t) res option" where
  "frame_loop mapping handle reliability s =
     (if 0 < z_zbuf_len (ur_zbuf s)
      then (case on_rx_zbuf (z_network_message_decode mapping) s of
              Err e s \<Rightarrow> Some (Err e s)
            | Fault \<Rightarrow> Some Fault
            | Ok msg s \<Rightarrow>
                (case on_session (handle (msg\<lparr>nm_reliability := reliability\<rparr>)) s of
                   Err e s \<Rightarrow> Some (Err e s)
                 | Fault \<Rightarrow> Some Fault
                 | Ok _ s \<Rightarrow> frame_loop mapping handle reliability s))
      else Some (Ok () s))"

definition channel_reliability :: "bool \<Rightarrow> z_reliability_t" where
  "channel_reliability reliable = (if reliable then Z_RELIABILITY_RELIABLE else Z_RELIABILITY_BEST_EFFORT)"

definition z_unicast_handle_frame ::
    "keyexpr_mapping \<Rightarrow> ('n, 's, 'r) message_handler \<Rightarrow> u8 \<Rightarrow> z_t_msg_frame_t \<Rightarrow> (unit, ('n, 's, 'r) unicast_rx_t) prog" where
  "z_unicast_handle_frame mapping handle header msg s =
     (let reliable = Z_HAS_FLAG header Z_FLAG_T_FRAME_R in
      if z_sn_precedes (tc_sn_res (ur_common s)) (sn_rx reliable (ur_peer s)) (fm_sn msg)
      then (if fm_payload msg = None then Fault
            else case frame_loop mapping handle (channel_reliability reliable)
                   (s\<lparr>ur_peer := set_sn_rx reliable (fm_sn msg) (ur_peer s)\<rparr>) of None \<Rightarrow> Fault | Some r \<Rightarrow> r)
      else (let s = on_peer_common (drop_dbuf reliable) s in
            Ok () (if fm_payload msg = None then s else s\<lparr>ur_zbuf := z_zbuf_reset (ur_zbuf s)\<rparr>)))"

text \<open>
  A fragment of the right number: the buffer is made on the first one, overflows for good, and is
  decoded with the last one. The result of writing the bytes and of handling the message are
  not looked at.
\<close>

definition fragment_final ::
    "keyexpr_mapping \<Rightarrow> ('n, 's, 'r) message_handler \<Rightarrow> bool \<Rightarrow> (unit, ('n, 's, 'r) unicast_rx_t) prog" where
  "fragment_final mapping handle reliable s =
     (let common = pu_common (ur_peer s) in
      if dbuf_state reliable common = Z_DBUF_STATE_OVERFLOW then Ok () (on_peer_common (drop_dbuf reliable) s)
      else bind_ok (on_dbuf reliable z_wbuf_moved_as_zbuf) (\<lambda>zbf s.
        if z_zbuf_capacity zbf = 0 then Err Z_ERR_SYSTEM_OUT_OF_MEMORY (on_peer_common (drop_dbuf reliable) s)
        else
          (let finish = on_peer_common (set_dbuf_state reliable Z_DBUF_STATE_NULL) in
           case z_network_message_decode mapping zbf of
             Ok zm _ \<Rightarrow>
               (case on_session (handle (zm\<lparr>nm_reliability := channel_reliability reliable\<rparr>)) s of
                  Ok _ s \<Rightarrow> Ok () (finish s) | Err _ s \<Rightarrow> Ok () (finish s) | Fault \<Rightarrow> Fault)
           | Err e _ \<Rightarrow> Err Z_ERR_MESSAGE_DESERIALIZATION_FAILED (finish s)
           | Fault \<Rightarrow> Fault)) s)"

definition fragment_alloc :: "bool \<Rightarrow> (unit, ('n, 's, 'r) unicast_rx_t) prog" where
  "fragment_alloc reliable s =
     (if dbuf_state reliable (pu_common (ur_peer s)) = Z_DBUF_STATE_NULL
      then let w = z_wbuf_make Z_FRAG_MAX_SIZE False; s = on_peer_common (set_dbuf reliable w) s in
           if z_wbuf_capacity w \<noteq> Z_FRAG_MAX_SIZE then Err Z_ERR_SYSTEM_OUT_OF_MEMORY s
           else Ok () (on_peer_common (set_dbuf_state reliable Z_DBUF_STATE_INIT) s)
      else Ok () s)"

definition fragment_fill :: "bool \<Rightarrow> byte list \<Rightarrow> (unit, ('n, 's, 'r) unicast_rx_t) prog" where
  "fragment_fill reliable payload s =
     (let common = pu_common (ur_peer s) in
      if dbuf_state reliable common = Z_DBUF_STATE_INIT
      then (if Z_FRAG_MAX_SIZE < z_wbuf_len (dbuf reliable common) + length payload
            then Ok () (on_peer_common (set_dbuf_state reliable Z_DBUF_STATE_OVERFLOW) s)
            else ignore_code (on_dbuf reliable (z_wbuf_write_bytes payload 0 (length payload))) s)
      else Ok () s)"

definition fragment_store ::
    "keyexpr_mapping \<Rightarrow> ('n, 's, 'r) message_handler \<Rightarrow> bool \<Rightarrow> u8 \<Rightarrow> z_t_msg_fragment_t \<Rightarrow> (unit, ('n, 's, 'r) unicast_rx_t) prog" where
  "fragment_store mapping handle reliable header msg =
     then_do (fragment_alloc reliable)
    (then_do (fragment_fill reliable (fg_payload msg))
       (if \<not> Z_HAS_FLAG header Z_FLAG_T_FRAGMENT_M then fragment_final mapping handle reliable else ret ()))"

definition z_unicast_handle_fragment_inner ::
    "keyexpr_mapping \<Rightarrow> ('n, 's, 'r) message_handler \<Rightarrow> u8 \<Rightarrow> z_t_msg_fragment_t \<Rightarrow> (unit, ('n, 's, 'r) unicast_rx_t) prog" where
  "z_unicast_handle_fragment_inner mapping handle header msg s =
     (let reliable = Z_HAS_FLAG header Z_FLAG_T_FRAGMENT_R;
          sn_res = tc_sn_res (ur_common s); last = sn_rx reliable (ur_peer s) in
      if \<not> z_sn_precedes sn_res last (fg_sn msg) then Ok () (on_peer_common (drop_dbuf reliable) s)
      else
        (let consecutive = z_sn_consecutive sn_res last (fg_sn msg);
             s = s\<lparr>ur_peer := set_sn_rx reliable (fg_sn msg) (ur_peer s)\<rparr>;
             common = pu_common (ur_peer s);
             markers = Z_PATCH_HAS_FRAGMENT_MARKERS (pc_patch common) in
         if \<not> consecutive \<and> 0 < z_wbuf_len (dbuf reliable common) then Ok () (on_peer_common (drop_dbuf reliable) s)
         else if markers \<and> \<not> fg_first msg \<and> z_wbuf_len (dbuf reliable common) = 0 then Ok () s
         else then_do (when_do (markers \<and> fg_first msg) (on_dbuf reliable z_wbuf_reset))
                (if markers \<and> fg_drop msg then on_dbuf reliable z_wbuf_reset
                 else fragment_store mapping handle reliable header msg) s))"

text \<open>The message is cleared when it is handled; it is the caller's, and is not used again.\<close>

definition z_unicast_handle_fragment ::
    "keyexpr_mapping \<Rightarrow> ('n, 's, 'r) message_handler \<Rightarrow> u8 \<Rightarrow> z_t_msg_fragment_t \<Rightarrow> (unit, ('n, 's, 'r) unicast_rx_t) prog" where
  "z_unicast_handle_fragment mapping handle header msg = z_unicast_handle_fragment_inner mapping handle header msg"

definition z_unicast_handle_transport_message ::
    "keyexpr_mapping \<Rightarrow> ('n, 's, 'r) message_handler \<Rightarrow> z_transport_message_t \<Rightarrow> (unit, ('n, 's, 'r) unicast_rx_t) prog" where
  "z_unicast_handle_transport_message mapping handle t_msg =
     (let mid = Z_MID (tm_header t_msg) in
      if mid = Z_MID_T_FRAME
      then (case tm_body t_msg of T_Frame m \<Rightarrow> z_unicast_handle_frame mapping handle (tm_header t_msg) m | _ \<Rightarrow> fault)
      else if mid = Z_MID_T_FRAGMENT
      then (case tm_body t_msg of T_Fragment m \<Rightarrow> z_unicast_handle_fragment mapping handle (tm_header t_msg) m | _ \<Rightarrow> fault)
      else if mid = Z_MID_T_CLOSE then fail Z_ERR_CONNECTION_CLOSED
      else if mid = Z_MID_T_KEEP_ALIVE \<or> mid = Z_MID_T_INIT \<or> mid = Z_MID_T_OPEN then ret ()
      else (case z_t_msg_clear t_msg of Fault \<Rightarrow> fault | _ \<Rightarrow> ret ()))"

text \<open>
  Whether the memory of the buffer is shared, because a slice of it was kept, is the answer of
  the reference counter, which is a parameter.
\<close>

definition z_unicast_update_rx_buffer :: "bool \<Rightarrow> (unit, z_zbuf_t) prog" where
  "z_unicast_update_rx_buffer shared zbuf =
     (if shared
      then let buff_capacity = z_zbuf_capacity zbuf; new_zbuf = z_zbuf_make buff_capacity in
           if z_zbuf_capacity new_zbuf \<noteq> buff_capacity then Err Z_ERR_SYSTEM_OUT_OF_MEMORY zbuf
           else if 0 < z_zbuf_len zbuf
           then (case z_zbuf_copy_bytes zbuf new_zbuf of Ok _ z \<Rightarrow> Ok () z | Err _ z \<Rightarrow> Ok () z | Fault \<Rightarrow> Fault)
           else Ok () new_zbuf
      else Ok () zbuf)"

section \<open>One message at a time\<close>

definition on_common_zbuf :: "('a, z_zbuf_t \<times> 'n) prog \<Rightarrow> ('a, ('n, 's) z_transport_common_t) prog" where
  "on_common_zbuf p t =
     (let put = (\<lambda>zn. t\<lparr>tc_zbuf := fst zn, tc_net := snd zn\<rparr>) in
      case p (tc_zbuf t, tc_net t) of Ok x zn \<Rightarrow> Ok x (put zn) | Err e zn \<Rightarrow> Err e (put zn) | Fault \<Rightarrow> Fault)"

text \<open>
  A packet of a stream in the buffer of the transport, read if it is not there yet: the number of
  its bytes, or \<open>None\<close> when they have not all come, and the buffer starts with the length again.
\<close>

definition recv_stream :: "(nat option, z_zbuf_t \<times> 'n) prog \<Rightarrow> (nat option, z_zbuf_t \<times> 'n) prog" where
  "recv_stream recv =
     (let short = (\<lambda>n zn. z_zbuf_len (fst zn) < n);
          fill = (\<lambda>n zn. if short n zn then ignore_code (then_do recv (ret ())) zn else Ok () zn) in
      then_do (fill Z_MSG_LEN_ENC_SIZE) (\<lambda>zn.
        if short Z_MSG_LEN_ENC_SIZE zn then then_do (on_zbuf z_zbuf_compact) (ret None) zn
        else bind_ok (on_zbuf z_read_stream_size) (\<lambda>to_read.
          then_do (fill to_read) (\<lambda>zn.
            if short to_read zn
            then then_do (on_zbuf (\<lambda>z. z_zbuf_set_rpos (size_sub (z_zbuf_get_rpos z) Z_MSG_LEN_ENC_SIZE) z))
                   (then_do (on_zbuf z_zbuf_compact) (ret None)) zn
            else Ok (Some to_read) zn)) zn))"

definition z_unicast_recv_t_msg :: "(z_transport_message_t, ('n, 's, 'r) z_transport_unicast_t) prog" where
  "z_unicast_recv_t_msg ztu =
     (let lk = tc_link (zu_common ztu); recv = z_link_recv_zbuf lk;
          read = (if lk_flow lk = Z_LINK_CAP_FLOW_STREAM
                  then bind_ok (recv_stream recv) (\<lambda>to_read. if to_read = None then fail Z_ERR_TRANSPORT_NOT_ENOUGH_BYTES else ret ())
                  else if lk_flow lk = Z_LINK_CAP_FLOW_DATAGRAM
                  then then_do (on_zbuf z_zbuf_compact)
                         (bind_ok recv (\<lambda>to_read. if to_read = None then fail Z_ERR_TRANSPORT_RX_FAILED else ret ()))
                  else ret ()) in
      case on_common_zbuf (then_do read (on_zbuf z_transport_message_decode)) (zu_common ztu) of
        Ok msg c \<Rightarrow>
          (case zu_peers ztu of
             [] \<Rightarrow> Fault
           | p # ps \<Rightarrow> Ok msg (ztu\<lparr>zu_common := c, zu_peers := p\<lparr>pu_common := (pu_common p)\<lparr>pc_received := True\<rparr>\<rparr> # ps\<rparr>))
      | Err e c \<Rightarrow> Err e (ztu\<lparr>zu_common := c\<rparr>)
      | Fault \<Rightarrow> Fault)"


section \<open>Reading\<close>

text \<open>Transport messages until the buffer is empty; \<open>None\<close> when that does not end.\<close>

partial_function (option) messages_loop ::
    "keyexpr_mapping \<Rightarrow> ('n, 's, 'r) message_handler \<Rightarrow> ('n, 's, 'r) unicast_rx_t \<Rightarrow> (unit, ('n, 's, 'r) unicast_rx_t) res option" where
  "messages_loop mapping handle s =
     (if 0 < z_zbuf_len (ur_zbuf s)
      then (case bind_ok (on_rx_zbuf z_transport_message_decode) (z_unicast_handle_transport_message mapping handle) s of
              Err e s \<Rightarrow> Some (Err e s)
            | Fault \<Rightarrow> Some Fault
            | Ok _ s \<Rightarrow> messages_loop mapping handle s)
      else Some (Ok () s))"

text \<open>The transport and one of its peers. A packet is in the buffer of the one or of the other.\<close>

type_synonym ('n, 's, 'r) common_peer = "('n, 's) z_transport_common_t \<times> ('s, 'r) z_transport_peer_unicast_t"

definition rx_buffer :: "('n, 's, 'r) common_peer \<Rightarrow> z_zbuf_t" where
  "rx_buffer cp = (if pu_flow_state (snd cp) = Z_FLOW_STATE_READY then pu_flow_buff (snd cp) else tc_zbuf (fst cp))"

definition on_rx_buffer :: "(unit, z_zbuf_t) prog \<Rightarrow> (unit, ('n, 's, 'r) common_peer) prog" where
  "on_rx_buffer p cp =
     (let put = (\<lambda>z. if pu_flow_state (snd cp) = Z_FLOW_STATE_READY then (fst cp, (snd cp)\<lparr>pu_flow_buff := z\<rparr>)
                     else ((fst cp)\<lparr>tc_zbuf := z\<rparr>, snd cp)) in
      case p (rx_buffer cp) of Ok x z \<Rightarrow> Ok x (put z) | Err e z \<Rightarrow> Err e (put z) | Fault \<Rightarrow> Fault)"

definition on_main_zbuf :: "('a, z_zbuf_t) prog \<Rightarrow> ('a, ('n, 's, 'r) common_peer) prog" where
  "on_main_zbuf p cp =
     (let put = (\<lambda>z. ((fst cp)\<lparr>tc_zbuf := z\<rparr>, snd cp)) in
      case p (tc_zbuf (fst cp)) of Ok x z \<Rightarrow> Ok x (put z) | Err e z \<Rightarrow> Err e (put z) | Fault \<Rightarrow> Fault)"

definition z_unicast_process_messages ::
    "keyexpr_mapping \<Rightarrow> ('n, 's, 'r) message_handler \<Rightarrow> (z_zbuf_t \<Rightarrow> bool) \<Rightarrow> nat \<Rightarrow> (unit, ('n, 's, 'r) common_peer) prog" where
  "z_unicast_process_messages mapping handle shared to_read cp =
     (case z_zbuf_view (rx_buffer cp) to_read of
        None \<Rightarrow> Fault
      | Some view \<Rightarrow>
          (let peer = (snd cp)\<lparr>pu_common := (pu_common (snd cp))\<lparr>pc_received := True\<rparr>\<rparr> in
           case messages_loop mapping handle \<lparr>ur_common = fst cp, ur_peer = peer, ur_zbuf = view\<rparr> of
             None \<Rightarrow> Fault
           | Some Fault \<Rightarrow> Fault
           | Some (Err e s) \<Rightarrow> Err e (ur_common s, ur_peer s)
           | Some (Ok _ s) \<Rightarrow>
               then_do (on_rx_buffer (\<lambda>z. z_zbuf_set_rpos (z_zbuf_get_rpos z + to_read) z))
                 (on_main_zbuf (\<lambda>z. z_unicast_update_rx_buffer (shared z) z)) (ur_common s, ur_peer s)))"

definition z_unicast_client_read :: "'s \<Rightarrow> (nat option, ('n, 's) z_transport_common_t) prog" where
  "z_unicast_client_read sock c =
     (let lk = tc_link c; recv = z_link_socket_recv_zbuf lk sock in
      on_common_zbuf
        (if lk_flow lk = Z_LINK_CAP_FLOW_STREAM then recv_stream recv
         else if lk_flow lk = Z_LINK_CAP_FLOW_DATAGRAM then then_do (on_zbuf z_zbuf_compact) recv
         else ret (Some 0)) c)"

text \<open>
  One message, or what one read of the socket brings. The buffer that the payload of a frame
  points to is that of the transport in the first case, and clearing the message resets it.
\<close>

definition zp_unicast_read ::
    "keyexpr_mapping \<Rightarrow> ('n, 's, 'r) message_handler \<Rightarrow> (z_zbuf_t \<Rightarrow> bool) \<Rightarrow> bool \<Rightarrow> (unit, ('n, 's, 'r) z_transport_unicast_t) prog" where
  "zp_unicast_read mapping handle shared single_read ztu =
     (if zu_peers ztu = [] then Err Z_ERR_TRANSPORT_RX_FAILED ztu
      else if single_read
      then bind_ok z_unicast_recv_t_msg (\<lambda>t_msg ztu.
             let ps = tl (zu_peers ztu);
                 clear = (if Z_MID (tm_header t_msg) = Z_MID_T_FRAME then z_zbuf_reset else (\<lambda>z. z));
                 put = (\<lambda>s. ztu\<lparr>zu_common := (ur_common s)\<lparr>tc_zbuf := clear (ur_zbuf s)\<rparr>, zu_peers := ur_peer s # ps\<rparr>) in
             case z_unicast_handle_transport_message mapping handle t_msg
                    \<lparr>ur_common = zu_common ztu, ur_peer = hd (zu_peers ztu), ur_zbuf = tc_zbuf (zu_common ztu)\<rparr> of
               Fault \<Rightarrow> Fault
             | Err e s \<Rightarrow> Err e (put s)
             | Ok _ s \<Rightarrow>
                 (let c = zu_common (put s) in
                  case z_unicast_update_rx_buffer (shared (tc_zbuf c)) (tc_zbuf c) of
                    Ok _ z \<Rightarrow> Ok () ((put s)\<lparr>zu_common := c\<lparr>tc_zbuf := z\<rparr>\<rparr>)
                  | Err e z \<Rightarrow> Err e ((put s)\<lparr>zu_common := c\<lparr>tc_zbuf := z\<rparr>\<rparr>)
                  | Fault \<Rightarrow> Fault)) ztu
      else
        (let c = zu_common ztu; p = hd (zu_peers ztu); ps = tl (zu_peers ztu) in
         case z_unicast_client_read (pu_socket p) (c\<lparr>tc_zbuf := z_zbuf_reset (tc_zbuf c)\<rparr>) of
           Fault \<Rightarrow> Fault
         | Err e c \<Rightarrow> Err e (ztu\<lparr>zu_common := c\<rparr>)
         | Ok None c \<Rightarrow> Err Z_NO_DATA_PROCESSED (ztu\<lparr>zu_common := c\<rparr>)
         | Ok (Some to_read) c \<Rightarrow>
             (case z_unicast_process_messages mapping handle shared to_read (c, p) of
                Ok _ cp \<Rightarrow> Ok () (ztu\<lparr>zu_common := fst cp, zu_peers := snd cp # ps\<rparr>)
              | Err e cp \<Rightarrow> Err e (ztu\<lparr>zu_common := fst cp, zu_peers := snd cp # ps\<rparr>)
              | Fault \<Rightarrow> Fault)))"

section \<open>Peers whose packets come in pieces\<close>

datatype peer_read_status = READ_OK | READ_PENDING_DATA | READ_SOCKET_CLOSED | READ_CRITICAL_ERROR

text \<open>
  What has come of a packet that is not complete goes to a buffer of the peer; \<open>False\<close> when there
  is no memory for it.
\<close>

definition keep_pending_data :: "nat \<Rightarrow> (bool, ('n, 's, 'r) common_peer) prog" where
  "keep_pending_data to_read cp =
     (let size = of_nat to_read :: u16; buf = z_zbuf_make (unat size);
          peer = (snd cp)\<lparr>pu_flow_state := Z_FLOW_STATE_PENDING_DATA, pu_flow_curr_size := size, pu_flow_buff := buf\<rparr> in
      if z_zbuf_capacity buf \<noteq> unat size then Ok False (fst cp, peer)
      else case z_zbuf_copy_bytes (tc_zbuf (fst cp)) buf of
             Ok _ buf \<Rightarrow> Ok True (fst cp, peer\<lparr>pu_flow_buff := buf\<rparr>)
           | Err e buf \<Rightarrow> Ok True (fst cp, peer\<lparr>pu_flow_buff := buf\<rparr>)
           | Fault \<Rightarrow> Fault)"

text \<open>The next packet of what was read at once: whether it is complete, and its length.\<close>

definition z_unicast_handle_remaining_data :: "nat \<Rightarrow> (bool \<times> nat, ('n, 's, 'r) common_peer) prog" where
  "z_unicast_handle_remaining_data extra_size =
     (if extra_size < Z_MSG_LEN_ENC_SIZE
      then bind_ok (on_main_zbuf z_zbuf_read) (\<lambda>b cp.
        Ok (False, 0) (fst cp, (snd cp)\<lparr>pu_flow_state := Z_FLOW_STATE_PENDING_SIZE, pu_flow_curr_size := ucast b\<rparr>))
      else bind_ok (on_main_zbuf z_read_stream_size) (\<lambda>to_read cp.
        if z_zbuf_len (tc_zbuf (fst cp)) < to_read
        then bind_ok (keep_pending_data to_read) (\<lambda>done. if done then ret (False, to_read) else fail Z_ERR_SYSTEM_OUT_OF_MEMORY) cp
        else Ok (True, to_read) cp))"

definition recv_main :: "(nat option, ('n, 's, 'r) common_peer) prog" where
  "recv_main cp =
     (let c = fst cp in
      case on_common_zbuf (z_link_socket_recv_zbuf (tc_link c) (pu_socket (snd cp))) c of
        Ok x c \<Rightarrow> Ok x (c, snd cp) | Err e c \<Rightarrow> Err e (c, snd cp) | Fault \<Rightarrow> Fault)"

definition recv_flow :: "(nat option, ('n, 's, 'r) common_peer) prog" where
  "recv_flow cp =
     (let c = fst cp; p = snd cp in
      case z_link_socket_recv_zbuf (tc_link c) (pu_socket p) (pu_flow_buff p, tc_net c) of
        Ok x zn \<Rightarrow> Ok x (c\<lparr>tc_net := snd zn\<rparr>, p\<lparr>pu_flow_buff := fst zn\<rparr>)
      | Err e zn \<Rightarrow> Err e (c\<lparr>tc_net := snd zn\<rparr>, p\<lparr>pu_flow_buff := fst zn\<rparr>)
      | Fault \<Rightarrow> Fault)"

text \<open>The number of bytes that were read, 0 for a closed socket, and what to do when there are some.\<close>

definition when_read :: "nat option \<Rightarrow> (peer_read_status \<times> nat, 'x) prog \<Rightarrow> (peer_read_status \<times> nat, 'x) prog" where
  "when_read read_size p =
     (if read_size = Some 0 then ret (READ_SOCKET_CLOSED, 0)
      else if read_size = None then ret (READ_PENDING_DATA, 0) else p)"

definition packet_or_pending :: "nat \<Rightarrow> (peer_read_status \<times> nat, ('n, 's, 'r) common_peer) prog" where
  "packet_or_pending to_read cp =
     (if z_zbuf_len (tc_zbuf (fst cp)) < to_read
      then bind_ok (keep_pending_data to_read) (\<lambda>done. ret (if done then READ_PENDING_DATA else READ_CRITICAL_ERROR, to_read)) cp
      else Ok (READ_OK, to_read) cp)"

definition z_unicast_peer_read :: "(peer_read_status \<times> nat, ('n, 's, 'r) common_peer) prog" where
  "z_unicast_peer_read cp =
     (let flow = lk_flow (tc_link (fst cp)); st = pu_flow_state (snd cp) in
      if flow = Z_LINK_CAP_FLOW_STREAM then
        (if st = Z_FLOW_STATE_PENDING_SIZE
         then bind_ok recv_main (\<lambda>read_size. when_read read_size
           (bind_ok (on_main_zbuf z_zbuf_read) (\<lambda>b cp.
              let size = pu_flow_curr_size (snd cp) + push_bit 8 (ucast b);
                  cp = (fst cp, (snd cp)\<lparr>pu_flow_curr_size := size\<rparr>) in packet_or_pending (unat size) cp))) cp
         else if st = Z_FLOW_STATE_PENDING_DATA
         then bind_ok recv_flow (\<lambda>read_size. when_read read_size (\<lambda>cp.
              let to_read = unat (pu_flow_curr_size (snd cp)) in
              if z_zbuf_len (pu_flow_buff (snd cp)) < to_read then Ok (READ_PENDING_DATA, to_read) cp
              else Ok (READ_OK, to_read) (fst cp, (snd cp)\<lparr>pu_flow_state := Z_FLOW_STATE_READY\<rparr>))) cp
         else
           (let p = (if st = Z_FLOW_STATE_READY
                     then (snd cp)\<lparr>pu_flow_state := Z_FLOW_STATE_INACTIVE, pu_flow_curr_size := 0, pu_flow_buff := z_zbuf_null\<rparr>
                     else snd cp) in
            bind_ok recv_main (\<lambda>read_size. when_read read_size (\<lambda>cp.
              if z_zbuf_len (tc_zbuf (fst cp)) < Z_MSG_LEN_ENC_SIZE
              then bind_ok (on_main_zbuf z_zbuf_read) (\<lambda>b cp.
                Ok (READ_PENDING_DATA, 0) (fst cp, (snd cp)\<lparr>pu_flow_state := Z_FLOW_STATE_PENDING_SIZE, pu_flow_curr_size := ucast b\<rparr>)) cp
              else bind_ok (on_main_zbuf z_read_stream_size) packet_or_pending cp)) (fst cp, p)))
      else if flow = Z_LINK_CAP_FLOW_DATAGRAM
      then bind_ok recv_main (\<lambda>read_size. case read_size of None \<Rightarrow> ret (READ_PENDING_DATA, 0) | Some n \<Rightarrow> ret (READ_OK, n)) cp
      else Ok (READ_OK, 0) cp)"

text \<open>All the packets that one read brought; the outcome is whether the peer is to be dropped.\<close>

partial_function (option) packets_loop ::
    "keyexpr_mapping \<Rightarrow> ('n, 's, 'r) message_handler \<Rightarrow> (z_zbuf_t \<Rightarrow> bool) \<Rightarrow> nat \<Rightarrow> ('n, 's, 'r) common_peer \<Rightarrow>
     (bool, ('n, 's, 'r) common_peer) res option" where
  "packets_loop mapping handle shared to_read cp =
     (case z_unicast_process_messages mapping handle shared to_read cp of
        Fault \<Rightarrow> Some Fault
      | Err e cp \<Rightarrow> Some (Ok True cp)
      | Ok _ cp \<Rightarrow>
          (if pu_flow_state (snd cp) \<noteq> Z_FLOW_STATE_READY \<and> 0 < z_zbuf_len (tc_zbuf (fst cp))
           then (case z_unicast_handle_remaining_data (z_zbuf_len (tc_zbuf (fst cp))) cp of
                   Fault \<Rightarrow> Some Fault
                 | Err e cp \<Rightarrow> Some (Err e cp)
                 | Ok r cp \<Rightarrow> (if fst r then packets_loop mapping handle shared (snd r) cp else Some (Ok False cp)))
           else Some (Ok False cp)))"

definition process_peer ::
    "keyexpr_mapping \<Rightarrow> ('n, 's, 'r) message_handler \<Rightarrow> (z_zbuf_t \<Rightarrow> bool) \<Rightarrow> (bool, ('n, 's, 'r) common_peer) prog" where
  "process_peer mapping handle shared cp =
     (if pu_pending (snd cp)
      then bind_ok z_unicast_peer_read (\<lambda>r cp.
             case fst r of
               READ_OK \<Rightarrow> (case packets_loop mapping handle shared (snd r) cp of None \<Rightarrow> Fault | Some res \<Rightarrow> res)
             | READ_SOCKET_CLOSED \<Rightarrow> Ok True cp
             | READ_CRITICAL_ERROR \<Rightarrow> Err Z_ERR_SYSTEM_OUT_OF_MEMORY cp
             | READ_PENDING_DATA \<Rightarrow> Ok False cp) (fst cp, (snd cp)\<lparr>pu_pending := False\<rparr>)
      else Ok False cp)"

text \<open>
  Every peer whose socket has something. The peers that stay are returned with the code of the
  first error, which ends the round. A peer that is dropped is told to the interests of the
  session, and its socket is closed when it is its own: both are parameters, as is the address
  of a peer.
\<close>

fun process_peers ::
    "(('s, 'r) z_transport_peer_unicast_t \<Rightarrow> keyexpr_mapping) \<Rightarrow> ('n, 's, 'r) message_handler \<Rightarrow> (z_zbuf_t \<Rightarrow> bool) \<Rightarrow>
     ('r z_transport_peer_common_t \<Rightarrow> 'n \<Rightarrow> 'n) \<Rightarrow> ('s \<Rightarrow> 'n \<Rightarrow> 'n) \<Rightarrow> ('s, 'r) z_transport_peer_unicast_t list \<Rightarrow>
     (z_result_t \<times> ('s, 'r) z_transport_peer_unicast_t list, ('n, 's) z_transport_common_t) prog" where
  "process_peers address handle shared disconnected close_socket [] c = Ok (Z_RES_OK, []) c"
| "process_peers address handle shared disconnected close_socket (p # ps) c =
     (case process_peer (address p) handle shared (c, p) of
        Fault \<Rightarrow> Fault
      | Err e cp \<Rightarrow> Ok (e, snd cp # ps) (fst cp)
      | Ok drp cp \<Rightarrow>
          (let c = fst cp; p = snd cp;
               net = (if drp
                      then (let cleared = fst (z_transport_peer_unicast_clear p); net = disconnected (pu_common p) (tc_net c) in
                            case cleared of None \<Rightarrow> net | Some sock \<Rightarrow> close_socket sock net)
                      else tc_net c);
               c = c\<lparr>tc_net := net, tc_zbuf := z_zbuf_reset (tc_zbuf c)\<rparr> in
           case process_peers address handle shared disconnected close_socket ps c of
             Ok r c \<Rightarrow> Ok (fst r, (if drp then snd r else p # snd r)) c
           | Err e c \<Rightarrow> Err e c | Fault \<Rightarrow> Fault))"

definition zp_unicast_process_peer_event ::
    "(('s, 'r) z_transport_peer_unicast_t \<Rightarrow> keyexpr_mapping) \<Rightarrow> ('n, 's, 'r) message_handler \<Rightarrow> (z_zbuf_t \<Rightarrow> bool) \<Rightarrow>
     ('r z_transport_peer_common_t \<Rightarrow> 'n \<Rightarrow> 'n) \<Rightarrow> ('s \<Rightarrow> 'n \<Rightarrow> 'n) \<Rightarrow> (unit, ('n, 's, 'r) z_transport_unicast_t) prog" where
  "zp_unicast_process_peer_event address handle shared disconnected close_socket ztu =
     (case process_peers address handle shared disconnected close_socket (zu_peers ztu) (zu_common ztu) of
        Ok r c \<Rightarrow> (let ztu = ztu\<lparr>zu_common := c, zu_peers := snd r\<rparr> in if fst r = Z_RES_OK then Ok () ztu else Err (fst r) ztu)
      | Err e c \<Rightarrow> Err e (ztu\<lparr>zu_common := c\<rparr>)
      | Fault \<Rightarrow> Fault)"

end
