(* ===== verification/Zp_RxLaws.thy ===== *)
theory Zp_RxLaws imports Zp_Rx
begin

text \<open>
  What the receiver does with what the sender put on the link: the messages of a frame reach the
  session in order (\<open>frame_received\<close>), the fragments of a message are put together and decoded
  (\<open>frag_chain_received\<close>), and a message that is sent arrives (\<open>one_message_received\<close>), with the
  reliability of the other channel when it was fragmented. The last section shows what is lost.
\<close>

section \<open>Frames\<close>

text \<open>The messages of a frame, handed to the session one after another.\<close>

fun handle_all ::
    "('n, 's, 'r) message_handler \<Rightarrow> z_network_message_t list \<Rightarrow> (unit, ('n, 's) z_transport_common_t \<times> 'r z_transport_peer_common_t) prog" where
  "handle_all handle [] = ret ()"
| "handle_all handle (m # ms) = then_do (handle m) (handle_all handle ms)"

definition received :: "keyexpr_mapping \<Rightarrow> z_reliability_t \<Rightarrow> z_network_message_t \<Rightarrow> z_network_message_t" where
  "received mapping r m = (recv_network_message mapping m)\<lparr>nm_reliability := r\<rparr>"

abbreviation session_state :: "('n, 's, 'r) unicast_rx_t \<Rightarrow> ('n, 's) z_transport_common_t \<times> 'r z_transport_peer_common_t" where
  "session_state s \<equiv> (ur_common s, pu_common (ur_peer s))"

definition with_session :: "('n, 's) z_transport_common_t \<times> 'r z_transport_peer_common_t \<Rightarrow> ('n, 's, 'r) unicast_rx_t \<Rightarrow> ('n, 's, 'r) unicast_rx_t" where
  "with_session cp s = s\<lparr>ur_common := fst cp, ur_peer := (ur_peer s)\<lparr>pu_common := snd cp\<rparr>\<rparr>"

lemma with_session_simps [simp]:
  "ur_common (with_session cp s) = fst cp" "pu_common (ur_peer (with_session cp s)) = snd cp" "ur_zbuf (with_session cp s) = ur_zbuf s"
  "with_session cp (with_session cp' s) = with_session cp s" "with_session (session_state s) s = s"
  "sn_rx b (ur_peer (with_session cp s)) = sn_rx b (ur_peer s)"
  by (simp_all add: with_session_def sn_rx_def)

lemma on_session_ok: "p (session_state s) = Ok x cp \<Longrightarrow> on_session p s = Ok x (with_session cp s)"
  by (simp add: on_session_def with_session_def Let_def)

lemma wire_network_message_nonempty: "network_message_ok m \<Longrightarrow> wire_network_message m \<noteq> []"
proof
  assume ok: "network_message_ok m" and e: "wire_network_message m = []"
  let ?z = "z_slice_as_zbuf []"
  have "z_network_message_decode KEYEXPR_MAPPING_LOCAL ?z = Ok (recv_network_message KEYEXPR_MAPPING_LOCAL m) ?z"
    using consumesD [OF network_message_consumes [OF ok], of ?z "[]"] e by simp
  then show False
    by (simp add: z_network_message_decode_def bind_ok_def z_uint8_decode_def z_zbuf_can_read_def z_iosli_can_read_def z_slice_as_zbuf_def fail_def)
qed

lemma frame_loop_ok:
  assumes "list_all network_message_ok ms" "zbuf_wf (ur_zbuf s)" "zbuf_bytes (ur_zbuf s) = messages_wire ms"
    "handle_all handle (map (received mapping r) ms) (session_state s) = Ok () cp"
  shows "\<exists>z. frame_loop mapping handle r s = Some (Ok () ((with_session cp s)\<lparr>ur_zbuf := z\<rparr>)) \<and> zbuf_wf z \<and> zbuf_bytes z = []"
  using assms
proof (induction ms arbitrary: s)
  case Nil
  then have "z_zbuf_len (ur_zbuf s) = 0" by (simp add: zbuf_len_bytes)
  then show ?case using Nil by (subst frame_loop.simps) (auto simp: ret_def intro!: exI [of _ "ur_zbuf s"])
next
  case (Cons m ms)
  let ?z = "zadv (length (wire_network_message m)) (ur_zbuf s)"
  have b: "zbuf_bytes (ur_zbuf s) = wire_network_message m @ messages_wire ms" using Cons.prems(3) by (simp add: messages_wire_def)
  have ok: "network_message_ok m" "list_all network_message_ok ms" using Cons.prems(1) by simp_all
  have len: "0 < z_zbuf_len (ur_zbuf s)"
    using wire_network_message_nonempty [OF ok(1)] b by (simp add: zbuf_len_bytes [OF Cons.prems(2)])
  have d: "z_network_message_decode mapping (ur_zbuf s) = Ok (recv_network_message mapping m) ?z"
    by (rule consumesD [OF network_message_consumes [OF ok(1)] Cons.prems(2) b])
  obtain cp1 where h: "handle (received mapping r m) (session_state s) = Ok () cp1"
    "handle_all handle (map (received mapping r) ms) cp1 = Ok () cp"
    using Cons.prems(4) by (auto simp: then_do_def bind_ok_def split: res.splits)
  let ?s = "with_session cp1 (s\<lparr>ur_zbuf := ?z\<rparr>)"
  have hs: "on_session (handle (received mapping r m)) (s\<lparr>ur_zbuf := ?z\<rparr>) = Ok () ?s"
    by (rule on_session_ok) (simp add: h(1))
  have zwf: "zbuf_wf ?z" "zbuf_bytes ?z = messages_wire ms"
    using zadv_wf [OF Cons.prems(2), of "length (wire_network_message m)"] b by simp_all
  obtain z where z: "frame_loop mapping handle r ?s = Some (Ok () ((with_session cp ?s)\<lparr>ur_zbuf := z\<rparr>))" "zbuf_wf z" "zbuf_bytes z = []"
    using Cons.IH [OF ok(2), of ?s] zwf h(2) by auto
  have "frame_loop mapping handle r s = frame_loop mapping handle r ?s"
    using len d hs by (subst frame_loop.simps) (simp add: on_rx_zbuf_def received_def)
  then show ?case using z by (auto simp: with_session_def)
qed

lemma handle_frame_ok:
  assumes "list_all network_message_ok ms" "zbuf_wf (ur_zbuf s)" "zbuf_bytes (ur_zbuf s) = messages_wire ms"
    "fm_payload msg \<noteq> None" "reliable = Z_HAS_FLAG header Z_FLAG_T_FRAME_R"
    "z_sn_precedes (tc_sn_res (ur_common s)) (sn_rx reliable (ur_peer s)) (fm_sn msg)"
    "handle_all handle (map (received mapping (channel_reliability reliable)) ms) (session_state s) = Ok () cp"
  shows "\<exists>s'. z_unicast_handle_frame mapping handle header msg s = Ok () s' \<and> session_state s' = cp \<and>
    sn_rx reliable (ur_peer s') = fm_sn msg \<and> sn_rx (\<not> reliable) (ur_peer s') = sn_rx (\<not> reliable) (ur_peer s) \<and>
    zbuf_bytes (ur_zbuf s') = [] \<and> zbuf_wf (ur_zbuf s')"
proof -
  let ?s = "s\<lparr>ur_peer := set_sn_rx reliable (fm_sn msg) (ur_peer s)\<rparr>"
  have "session_state ?s = session_state s" by (simp add: set_sn_rx_def)
  then obtain z where z: "frame_loop mapping handle (channel_reliability reliable) ?s = Some (Ok () ((with_session cp ?s)\<lparr>ur_zbuf := z\<rparr>))"
    "zbuf_wf z" "zbuf_bytes z = []"
    using frame_loop_ok [OF assms(1), of ?s handle mapping "channel_reliability reliable" cp] assms(2,3,7) by auto
  then show ?thesis using assms(4-6)
    by (auto simp: z_unicast_handle_frame_def Let_def with_session_def sn_rx_def set_sn_rx_def)
qed

text \<open>A frame that is not new: nothing is handled, the buffer is emptied and the fragments are forgotten.\<close>

lemma handle_frame_old:
  assumes "reliable = Z_HAS_FLAG header Z_FLAG_T_FRAME_R" "fm_payload msg \<noteq> None"
    "\<not> z_sn_precedes (tc_sn_res (ur_common s)) (sn_rx reliable (ur_peer s)) (fm_sn msg)"
  shows "z_unicast_handle_frame mapping handle header msg s =
    Ok () ((on_peer_common (drop_dbuf reliable) s)\<lparr>ur_zbuf := z_zbuf_reset (ur_zbuf s)\<rparr>)"
  using assms by (auto simp: z_unicast_handle_frame_def Let_def on_peer_common_def)


section \<open>Fragments\<close>

lemma dbuf_simps [simp]:
  "dbuf b (set_dbuf b w p) = w" "dbuf_state b (set_dbuf b w p) = dbuf_state b p" "pc_patch (set_dbuf b w p) = pc_patch p"
  "dbuf b (set_dbuf_state b st p) = dbuf b p" "dbuf_state b (set_dbuf_state b st p) = st" "pc_patch (set_dbuf_state b st p) = pc_patch p"
  "set_dbuf b w (set_dbuf b w' p) = set_dbuf b w p" "set_dbuf_state b st (set_dbuf_state b st' p) = set_dbuf_state b st p"
  "set_dbuf b w (set_dbuf_state b st p) = set_dbuf_state b st (set_dbuf b w p)"
  by (simp_all add: dbuf_def dbuf_state_def set_dbuf_def set_dbuf_state_def)

lemma on_peer_common_simps [simp]:
  "ur_common (on_peer_common f s) = ur_common s" "ur_zbuf (on_peer_common f s) = ur_zbuf s"
  "pu_common (ur_peer (on_peer_common f s)) = f (pu_common (ur_peer s))"
  "on_peer_common f (on_peer_common g s) = on_peer_common (f \<circ> g) s"
  "sn_rx b (ur_peer (on_peer_common f s)) = sn_rx b (ur_peer s)"
  by (simp_all add: on_peer_common_def sn_rx_def)

lemma set_sn_rx_simps [simp]:
  "pu_common (set_sn_rx b sn p) = pu_common p" "sn_rx b (set_sn_rx b sn p) = sn" "sn_rx (\<not> b) (set_sn_rx b sn p) = sn_rx (\<not> b) p"
  by (simp_all add: set_sn_rx_def sn_rx_def)

text \<open>A channel of a peer: the fragments it has of a message that is on its way, or none.\<close>

definition collected :: "bool \<Rightarrow> byte list \<Rightarrow> 'r z_transport_peer_common_t \<Rightarrow> bool" where
  "collected reliable bs p \<longleftrightarrow> dbuf_state reliable p = Z_DBUF_STATE_INIT \<and> tx_buf Z_FRAG_MAX_SIZE bs (dbuf reliable p)"

definition idle :: "bool \<Rightarrow> 'r z_transport_peer_common_t \<Rightarrow> bool" where
  "idle reliable p \<longleftrightarrow> dbuf_state reliable p = Z_DBUF_STATE_NULL \<and> dbuf reliable p = z_wbuf_null"

lemma tx_buf_make: "tx_buf n [] (z_wbuf_make n False)"
  by (auto simp: tx_buf_def z_wbuf_make_def Let_def z_svec_append_eq z_svec_make_def z_svec_null_def svec_wf_def ios_wf_def z_iosli_make_def)

lemma wbuf_make_capacity: "z_wbuf_capacity (z_wbuf_make n False) = n"
  by (simp add: z_wbuf_capacity_def z_wbuf_make_def Let_def z_svec_append_eq z_svec_make_def z_svec_null_def z_iosli_make_def
      z_wbuf_get_iosli_def z_svec_get_def z_svec_len_def)

lemma wbuf_null_len [simp]: "z_wbuf_len z_wbuf_null = 0"
  by (simp add: z_wbuf_len_def z_wbuf_null_def wbuf_live_def z_svec_null_def)

lemma wbuf_null_reset: "z_wbuf_reset z_wbuf_null = Ok () z_wbuf_null"
  by (simp add: z_wbuf_reset_def wbuf_reset_loop.simps [of 0] z_wbuf_null_def z_svec_null_def z_svec_len_def)

lemma moved_as_zbuf_ok:
  assumes "tx_buf cap bs w" "0 < cap"
  shows "\<exists>z. z_wbuf_moved_as_zbuf w = Ok z z_wbuf_null \<and> zbuf_wf z \<and> zbuf_bytes z = bs \<and> z_zbuf_capacity z = cap"
proof -
  from assms(1) obtain ios where v: "sv_val (wb_ioss w) = [ios]" "ios_wf ios" "ios_capacity ios = cap"
    "ios_r_pos ios = 0" "ios_w_pos ios = length bs" "take (length bs) (ios_buf ios) = bs" by (rule tx_bufE)
  then show ?thesis
    by (simp add: z_wbuf_moved_as_zbuf_def z_svec_len_def z_wbuf_get_iosli_def z_svec_get_def z_iosli_steal_def zbuf_wf_def
        ios_wf_def zbuf_bytes_def z_iosli_to_bytes_def z_iosli_readable_def z_zbuf_capacity_def)
qed


lemma fill_ok:
  assumes "collected b bs (pu_common (ur_peer s))" "length bs + length chunk \<le> Z_FRAG_MAX_SIZE"
  shows "\<exists>w. fragment_fill b chunk s = Ok () (on_peer_common (set_dbuf b w) s) \<and> tx_buf Z_FRAG_MAX_SIZE (bs @ chunk) w"
proof -
  let ?p = "pu_common (ur_peer s)"
  have c: "dbuf_state b ?p = Z_DBUF_STATE_INIT" "tx_buf Z_FRAG_MAX_SIZE bs (dbuf b ?p)" using assms(1) by (simp_all add: collected_def)
  obtain w where w: "z_wbuf_write_bytes chunk 0 (length chunk) (dbuf b ?p) = Ok () w" "tx_buf Z_FRAG_MAX_SIZE (bs @ chunk) w"
    using tx_buf_appends [OF appends_write_all c(2) assms(2)] by blast
  then show ?thesis using c(1) assms(2) tx_buf_facts(4) [OF c(2)]
    by (auto simp: fragment_fill_def ignore_code_def on_dbuf_def)
qed

lemma set_dbuf_state_same: "dbuf_state b p = st \<Longrightarrow> set_dbuf_state b st p = p"
  by (cases p) (auto simp: dbuf_state_def set_dbuf_state_def)

lemma alloc_fill_ok:
  assumes "collected b bs (pu_common (ur_peer s)) \<or> idle b (pu_common (ur_peer s)) \<and> bs = []"
    "length bs + length chunk \<le> Z_FRAG_MAX_SIZE"
  shows "\<exists>w. then_do (fragment_alloc b) (fragment_fill b chunk) s =
      Ok () (on_peer_common (\<lambda>p. set_dbuf_state b Z_DBUF_STATE_INIT (set_dbuf b w p)) s) \<and> tx_buf Z_FRAG_MAX_SIZE (bs @ chunk) w"
proof (cases "collected b bs (pu_common (ur_peer s))")
  case True
  then have st: "dbuf_state b (pu_common (ur_peer s)) = Z_DBUF_STATE_INIT" by (simp add: collected_def)
  then have "fragment_alloc b s = Ok () s" by (simp add: fragment_alloc_def Z_DBUF_STATE_INIT_def Z_DBUF_STATE_NULL_def)
  moreover have "set_dbuf_state b Z_DBUF_STATE_INIT (set_dbuf b w (pu_common (ur_peer s))) = set_dbuf b w (pu_common (ur_peer s))" for w
    using st by (intro set_dbuf_state_same) simp
  ultimately show ?thesis using fill_ok [OF True assms(2)] by (auto simp: then_do_def bind_ok_def on_peer_common_def)
next
  case False
  then have i: "dbuf_state b (pu_common (ur_peer s)) = Z_DBUF_STATE_NULL" and b: "bs = []" using assms(1) by (simp_all add: idle_def)
  let ?s = "on_peer_common (\<lambda>p. set_dbuf_state b Z_DBUF_STATE_INIT (set_dbuf b (z_wbuf_make Z_FRAG_MAX_SIZE False) p)) s"
  have "fragment_alloc b s = Ok () ?s" using i wbuf_make_capacity [of Z_FRAG_MAX_SIZE] by (simp add: fragment_alloc_def Let_def comp_def)
  moreover have "collected b bs (pu_common (ur_peer ?s))" using b tx_buf_make by (simp add: collected_def)
  ultimately show ?thesis using fill_ok [of b bs ?s chunk] assms(2) by (auto simp: then_do_def bind_ok_def comp_def)
qed

text \<open>The message that a fragment is, and the channel that its header names.\<close>

definition frag_channel :: "z_reliability_t \<Rightarrow> bool" where
  "frag_channel r \<longleftrightarrow> r \<noteq> Z_RELIABILITY_RELIABLE"

lemma frag_facts:
  "tm_body (frag r sn chunk l first) = T_Fragment \<lparr>fg_payload = chunk, fg_sn = sn, fg_first = first, fg_drop = False\<rparr>"
  "Z_MID (tm_header (frag r sn chunk l first)) = Z_MID_T_FRAGMENT"
  "Z_HAS_FLAG (tm_header (frag r sn chunk l first)) Z_FLAG_T_FRAGMENT_R = frag_channel r"
  "Z_HAS_FLAG (tm_header (frag r sn chunk l first)) Z_FLAG_T_FRAGMENT_M = (\<not> l)"
  by (auto simp: z_t_msg_make_fragment_def fragment_reliability_def frag_channel_def set_flag_def t_mid_defs t_flag_defs
      Z_MID_def Z_MID_MASK_def Z_HAS_FLAG_def Let_def Z_RELIABILITY_RELIABLE_def)

text \<open>What comes before the fragment is stored.\<close>

lemma fragment_reaches_store:
  assumes "reliable = Z_HAS_FLAG header Z_FLAG_T_FRAGMENT_R"
    "z_sn_precedes (tc_sn_res (ur_common s)) (sn_rx reliable (ur_peer s)) (fg_sn m)"
    "Z_PATCH_HAS_FRAGMENT_MARKERS (pc_patch (pu_common (ur_peer s)))" "\<not> fg_drop m"
    "if fg_first m then idle reliable (pu_common (ur_peer s))
     else z_sn_consecutive (tc_sn_res (ur_common s)) (sn_rx reliable (ur_peer s)) (fg_sn m) \<and>
       collected reliable bs (pu_common (ur_peer s)) \<and> bs \<noteq> []"
  shows "z_unicast_handle_fragment_inner mapping handle header m s =
    fragment_store mapping handle reliable header m (s\<lparr>ur_peer := set_sn_rx reliable (fg_sn m) (ur_peer s)\<rparr>)"
proof (cases "fg_first m")
  case True
  then have i: "dbuf reliable (pu_common (ur_peer s)) = z_wbuf_null" using assms(5) by (simp add: idle_def)
  let ?s = "s\<lparr>ur_peer := set_sn_rx reliable (fg_sn m) (ur_peer s)\<rparr>"
  have "set_dbuf reliable z_wbuf_null (pu_common (ur_peer s)) = pu_common (ur_peer s)"
    using i by (cases reliable) (simp_all add: set_dbuf_def dbuf_def)
  then have "on_dbuf reliable z_wbuf_reset ?s = Ok () ?s"
    using i by (simp add: on_dbuf_def wbuf_null_reset on_peer_common_def)
  then show ?thesis using assms(1-4) True i
    by (simp add: z_unicast_handle_fragment_inner_def Let_def when_do_def then_do_def bind_ok_def)
next
  case False
  then have "0 < z_wbuf_len (dbuf reliable (pu_common (ur_peer s)))"
    using assms(5) tx_buf_facts(4) by (fastforce simp: collected_def)
  then show ?thesis using assms False
    by (simp add: z_unicast_handle_fragment_inner_def Let_def when_do_def then_do_def bind_ok_def ret_def)
qed


lemma store_more:
  assumes "collected b bs (pu_common (ur_peer s)) \<or> idle b (pu_common (ur_peer s)) \<and> bs = []"
    "length bs + length (fg_payload m) \<le> Z_FRAG_MAX_SIZE" "Z_HAS_FLAG header Z_FLAG_T_FRAGMENT_M"
  shows "\<exists>w. fragment_store mapping handle b header m s =
      Ok () (on_peer_common (\<lambda>p. set_dbuf_state b Z_DBUF_STATE_INIT (set_dbuf b w p)) s) \<and>
    tx_buf Z_FRAG_MAX_SIZE (bs @ fg_payload m) w"
proof -
  obtain w where "then_do (fragment_alloc b) (fragment_fill b (fg_payload m)) s =
      Ok () (on_peer_common (\<lambda>p. set_dbuf_state b Z_DBUF_STATE_INIT (set_dbuf b w p)) s)" "tx_buf Z_FRAG_MAX_SIZE (bs @ fg_payload m) w"
    using alloc_fill_ok [OF assms(1,2)] by blast
  then show ?thesis using assms(3)
    by (auto simp: fragment_store_def then_do_def bind_ok_def ret_def split: res.splits)
qed

text \<open>What the session was given of the message: the bytes that were collected, decoded.\<close>

lemma store_last:
  assumes "collected b bs (pu_common (ur_peer s)) \<or> idle b (pu_common (ur_peer s)) \<and> bs = []"
    "length bs + length (fg_payload m) \<le> Z_FRAG_MAX_SIZE" "\<not> Z_HAS_FLAG header Z_FLAG_T_FRAGMENT_M"
    "network_message_ok msg" "wire_network_message msg = bs @ fg_payload m"
    "handle (received mapping (channel_reliability b) msg)
       (ur_common s, set_dbuf_state b Z_DBUF_STATE_INIT (set_dbuf b z_wbuf_null (pu_common (ur_peer s)))) = Ok () cp"
  shows "fragment_store mapping handle b header m s =
    Ok () (on_peer_common (set_dbuf_state b Z_DBUF_STATE_NULL) (with_session cp s))"
proof -
  obtain w where w: "then_do (fragment_alloc b) (fragment_fill b (fg_payload m)) s =
      Ok () (on_peer_common (\<lambda>p. set_dbuf_state b Z_DBUF_STATE_INIT (set_dbuf b w p)) s)" "tx_buf Z_FRAG_MAX_SIZE (bs @ fg_payload m) w"
    using alloc_fill_ok [OF assms(1,2)] by blast
  let ?s = "on_peer_common (\<lambda>p. set_dbuf_state b Z_DBUF_STATE_INIT (set_dbuf b w p)) s"
  have "0 < Z_FRAG_MAX_SIZE" by (simp add: Z_FRAG_MAX_SIZE_def)
  then obtain z where z: "z_wbuf_moved_as_zbuf w = Ok z z_wbuf_null" "zbuf_wf z" "zbuf_bytes z = bs @ fg_payload m"
    "z_zbuf_capacity z = Z_FRAG_MAX_SIZE" using moved_as_zbuf_ok [OF w(2)] by blast
  have moved: "on_dbuf b z_wbuf_moved_as_zbuf ?s =
      Ok z (on_peer_common (\<lambda>p. set_dbuf_state b Z_DBUF_STATE_INIT (set_dbuf b z_wbuf_null p)) s)"
    using z(1) by (simp add: on_dbuf_def comp_def)
  have dec: "z_network_message_decode mapping z = Ok (recv_network_message mapping msg) (zadv (length (wire_network_message msg)) z)"
    using consumesD [OF network_message_consumes [OF assms(4)] z(2), of "[]"] z(3) assms(5) by simp
  have "fragment_final mapping handle b ?s = Ok () (on_peer_common (set_dbuf_state b Z_DBUF_STATE_NULL) (with_session cp s))"
    using moved dec z(4) assms(6)
    by (simp add: fragment_final_def Let_def bind_ok_def Z_DBUF_STATE_INIT_def Z_DBUF_STATE_OVERFLOW_def Z_FRAG_MAX_SIZE_def
        on_session_def received_def with_session_def on_peer_common_def)
  then show ?thesis using w(1) assms(3)
    by (auto simp: fragment_store_def then_do_def bind_ok_def split: res.splits)
qed


text \<open>The number of a fragment is new to a channel, and the next one when it is not the first.\<close>

definition next_sn :: "z_zint_t \<Rightarrow> bool \<Rightarrow> z_zint_t \<Rightarrow> z_zint_t \<Rightarrow> bool" where
  "next_sn sn_res first prev sn \<longleftrightarrow> z_sn_precedes sn_res prev sn \<and> (\<not> first \<longrightarrow> z_sn_consecutive sn_res prev sn)"

lemma next_sn_increment: "1 < b \<Longrightarrow> b < 64 \<Longrightarrow> next_sn (mask b) False sn (z_sn_increment (mask b) sn)"
proof -
  assume b: "1 < b" "b < 64"
  then have c: "z_sn_consecutive (mask b) sn (z_sn_increment (mask b) sn)" by (intro sn_increment_consecutive) simp_all
  have "(2 :: nat) ^ 1 \<le> 2 ^ (b - 1)" using b(1) by (intro power_increasing) simp_all
  then have "(1 :: nat) \<le> unat (z_sn_half (mask b))" using half_mask [of b] b by simp
  then have "(1 :: 64 word) \<le> z_sn_half (mask b)" by (simp add: word_le_nat_alt)
  then show ?thesis using c by (simp add: next_sn_def z_sn_precedes_def z_sn_consecutive_def Let_def)
qed

definition ready_for :: "bool \<Rightarrow> bool \<Rightarrow> byte list \<Rightarrow> 'r z_transport_peer_common_t \<Rightarrow> bool" where
  "ready_for b first bs p \<longleftrightarrow> (if first then idle b p \<and> bs = [] else collected b bs p \<and> bs \<noteq> [])"

text \<open>The peer when the last fragment has come, and its message goes to the session.\<close>

definition emptied :: "bool \<Rightarrow> 'r z_transport_peer_common_t \<Rightarrow> 'r z_transport_peer_common_t" where
  "emptied b p = set_dbuf_state b Z_DBUF_STATE_INIT (set_dbuf b z_wbuf_null p)"

lemma emptied_same [simp]: "emptied b (set_dbuf_state b st (set_dbuf b w p)) = emptied b p"
  by (simp add: emptied_def)

lemma handle_frag:
  fixes r sn chunk l first s
  defines "m \<equiv> frag r sn chunk l first" and "b \<equiv> frag_channel r"
  assumes "next_sn (tc_sn_res (ur_common s)) first (sn_rx b (ur_peer s)) sn"
    "Z_PATCH_HAS_FRAGMENT_MARKERS (pc_patch (pu_common (ur_peer s)))" "ready_for b first bs (pu_common (ur_peer s))"
    "length bs + length chunk \<le> Z_FRAG_MAX_SIZE"
  shows "\<not> l \<Longrightarrow> \<exists>w. z_unicast_handle_transport_message mapping handle m s =
      Ok () (on_peer_common (\<lambda>p. set_dbuf_state b Z_DBUF_STATE_INIT (set_dbuf b w p)) (s\<lparr>ur_peer := set_sn_rx b sn (ur_peer s)\<rparr>)) \<and>
      tx_buf Z_FRAG_MAX_SIZE (bs @ chunk) w"
    and "l \<Longrightarrow> network_message_ok msg \<Longrightarrow> wire_network_message msg = bs @ chunk \<Longrightarrow>
      handle (received mapping (channel_reliability b) msg) (ur_common s, emptied b (pu_common (ur_peer s))) = Ok () cp \<Longrightarrow>
      z_unicast_handle_transport_message mapping handle m s =
        Ok () (on_peer_common (set_dbuf_state b Z_DBUF_STATE_NULL) (with_session cp (s\<lparr>ur_peer := set_sn_rx b sn (ur_peer s)\<rparr>)))"
proof -
  let ?f = "\<lparr>fg_payload = chunk, fg_sn = sn, fg_first = first, fg_drop = False\<rparr>"
  let ?s = "s\<lparr>ur_peer := set_sn_rx b sn (ur_peer s)\<rparr>"
  have eq: "z_unicast_handle_transport_message mapping handle m s = fragment_store mapping handle b (tm_header m) ?f ?s"
    using fragment_reaches_store [of b "tm_header m" s ?f bs mapping handle] assms(3-5) frag_facts [of sn chunk r l first]
    unfolding m_def b_def
    by (simp add: z_unicast_handle_transport_message_def z_unicast_handle_fragment_def Let_def next_sn_def ready_for_def)
  have pre: "collected b bs (pu_common (ur_peer ?s)) \<or> idle b (pu_common (ur_peer ?s)) \<and> bs = []"
    using assms(5) by (auto simp: ready_for_def split: if_splits)
  have len: "length bs + length (fg_payload ?f) \<le> Z_FRAG_MAX_SIZE" using assms(6) by simp
  show "\<exists>w. z_unicast_handle_transport_message mapping handle m s =
      Ok () (on_peer_common (\<lambda>p. set_dbuf_state b Z_DBUF_STATE_INIT (set_dbuf b w p)) ?s) \<and> tx_buf Z_FRAG_MAX_SIZE (bs @ chunk) w"
    if "\<not> l" using store_more [OF pre len, of "tm_header m" mapping handle] that frag_facts(4) [of sn chunk r l first]
    unfolding eq by (simp add: m_def)
  show "z_unicast_handle_transport_message mapping handle m s = Ok () (on_peer_common (set_dbuf_state b Z_DBUF_STATE_NULL) (with_session cp ?s))"
    if "l" "network_message_ok msg" "wire_network_message msg = bs @ chunk"
      "handle (received mapping (channel_reliability b) msg) (ur_common s, emptied b (pu_common (ur_peer s))) = Ok () cp"
    using store_last [OF pre len, of "tm_header m" msg handle mapping cp] that frag_facts(4) [of sn chunk r l first]
    unfolding eq by (simp add: emptied_def m_def)
qed

section \<open>Packets\<close>

lemma frame_packet_decode:
  assumes "zbuf_wf z" "zbuf_bytes z = frame_wire sn r @ rest"
  shows "\<exists>z'. z_transport_message_decode z =
      Ok \<lparr>tm_body = T_Frame \<lparr>fm_payload = Some z', fm_sn = sn\<rparr>, tm_header = tm_header (z_t_msg_make_frame_header sn r)\<rparr> z' \<and>
    zbuf_wf z' \<and> zbuf_bytes z' = rest"
proof -
  let ?h = "tm_header (z_t_msg_make_frame_header sn r)" and ?z = "zadv (Suc (length (z_zint64_encode_buf sn))) z"
  have h: "Z_MID ?h = Z_MID_T_FRAME" "\<not> Z_HAS_FLAG ?h Z_FLAG_T_Z"
    by (simp_all add: z_t_msg_make_frame_header_def set_flag_def t_mid_defs t_flag_defs Z_MID_def Z_MID_MASK_def Z_HAS_FLAG_def)
  have b: "zbuf_bytes z = ?h # z_zint64_encode_buf sn @ rest"
    using assms(2) by (simp add: frame_wire_def wire_transport_def z_t_msg_make_frame_header_def wire_frame_def frame_payload_def)
  have 1: "z_uint8_decode z = Ok ?h (zadv 1 z)" using consumesD [OF uint8_consumes assms(1)] b by simp
  have z1: "zbuf_wf (zadv 1 z)" "zbuf_bytes (zadv 1 z) = z_zint64_encode_buf sn @ rest" using b assms(1) by (auto intro!: zadv_wf)
  have 2: "z_zsize_decode (zadv 1 z) = Ok sn ?z" using consumesD [OF zsize_consumes z1] by simp
  have wf: "zbuf_wf ?z" "zbuf_bytes ?z = rest" using b assms(1) by (auto intro!: zadv_wf)
  have "z_transport_message_decode z = Ok \<lparr>tm_body = T_Frame \<lparr>fm_payload = Some ?z, fm_sn = sn\<rparr>, tm_header = ?h\<rparr> ?z"
    using 1 2 h by (simp add: z_transport_message_decode_def z_frame_decode_def bind_ok_def ret_def Let_def skip_if_none)
  then show ?thesis using wf by blast
qed

lemma fragment_decode_rest:
  assumes "zbuf_wf z" "z_fragment_decode h z = Ok m z'"
  shows "zbuf_bytes z' = [] \<and> zbuf_wf z'"
proof -
  let ?d = "attempt \<lparr>fg_payload = [], fg_sn = 0, fg_first = False, fg_drop = False\<rparr>
        (bind_ok z_zsize_decode (\<lambda>sn.
           let msg = \<lparr>fg_payload = [], fg_sn = sn, fg_first = False, fg_drop = False\<rparr> in
           if Z_HAS_FLAG h Z_FLAG_T_Z then z_msg_ext_decode_iter z_fragment_decode_ext msg else ret msg))"
  have safe: "safe ?d" unfolding Let_def by (intro safe_intros)
  obtain x z1 where 1: "?d z = Ok x z1" "z' = zadv (z_zbuf_len z1) z1"
    using assms(2) by (auto simp: z_fragment_decode_def bind_ok_def take_rest_def return_code_def ret_def fail_def split: res.splits if_splits prod.splits)
  have "zbuf_wf z1" using safeD_ok [OF safe assms(1) 1(1)] zstep_wf [OF assms(1)] by blast
  then show ?thesis using 1(2) by (auto simp: zbuf_len_bytes intro!: zadv_wf)
qed

lemma frag_packet_decode:
  assumes "zbuf_wf z" "zbuf_bytes z = wire_transport (frag r sn chunk l first)"
  shows "\<exists>z'. z_transport_message_decode z = Ok (frag r sn chunk l first) z' \<and> zbuf_wf z' \<and> zbuf_bytes z' = []"
proof -
  let ?m = "frag r sn chunk l first"
  obtain n z' where d: "z_transport_message_decode z = Ok n z'" "transport_same ?m n"
    using transport_decodes [OF make_rest_ok(5) assms] by blast
  have n: "n = ?m" using d(2) frag_facts(1) by (cases n) (simp add: transport_same_def z_t_msg_make_fragment_def)
  have z1: "z_uint8_decode z = Ok (tm_header ?m) (zadv 1 z)" "zbuf_wf (zadv 1 z)"
    using consumesD [OF uint8_consumes assms(1)] assms by (auto simp: wire_transport_def intro!: zadv_wf)
  have "\<exists>m. z_fragment_decode (tm_header ?m) (zadv 1 z) = Ok m z'"
    using d(1) z1(1) frag_facts(2)
    by (auto simp: z_transport_message_decode_def bind_ok_def ret_def Let_def split: res.splits)
  then show ?thesis using d(1) n fragment_decode_rest [OF z1(2)] by blast
qed

text \<open>A packet of one transport message takes one round of the loop.\<close>

lemma messages_loop_one:
  assumes "0 < z_zbuf_len (ur_zbuf s)" "z_transport_message_decode (ur_zbuf s) = Ok m z"
    "z_unicast_handle_transport_message mapping handle m (s\<lparr>ur_zbuf := z\<rparr>) = Ok () s'" "z_zbuf_len (ur_zbuf s') = 0"
  shows "messages_loop mapping handle s = Some (Ok () s')"
proof -
  have "messages_loop mapping handle s' = Some (Ok () s')" using assms(4) by (subst messages_loop.simps) simp
  then show ?thesis using assms(1-3) by (subst messages_loop.simps) (simp add: bind_ok_def on_rx_zbuf_def)
qed

text \<open>Packets, each in a buffer of its own.\<close>

fun receive_packets ::
    "keyexpr_mapping \<Rightarrow> ('n, 's, 'r) message_handler \<Rightarrow> byte list list \<Rightarrow> ('n, 's, 'r) unicast_rx_t \<Rightarrow> (unit, ('n, 's, 'r) unicast_rx_t) res option" where
  "receive_packets mapping handle [] s = Some (Ok () s)"
| "receive_packets mapping handle (p # ps) s =
     (case messages_loop mapping handle (s\<lparr>ur_zbuf := z_slice_as_zbuf p\<rparr>) of
        Some (Ok _ s) \<Rightarrow> receive_packets mapping handle ps s | r \<Rightarrow> r)"

lemma frame_received:
  assumes "list_all network_message_ok ms" "zbuf_wf (ur_zbuf s)" "zbuf_bytes (ur_zbuf s) = frame_wire sn r @ messages_wire ms"
    "reliable = (r = Z_RELIABILITY_RELIABLE)" "z_sn_precedes (tc_sn_res (ur_common s)) (sn_rx reliable (ur_peer s)) sn"
    "handle_all handle (map (received mapping (channel_reliability reliable)) ms) (session_state s) = Ok () cp"
  shows "\<exists>s'. messages_loop mapping handle s = Some (Ok () s') \<and> session_state s' = cp \<and>
    sn_rx reliable (ur_peer s') = sn \<and> sn_rx (\<not> reliable) (ur_peer s') = sn_rx (\<not> reliable) (ur_peer s)"
proof -
  let ?h = "tm_header (z_t_msg_make_frame_header sn r)"
  obtain z where z: "z_transport_message_decode (ur_zbuf s) =
      Ok \<lparr>tm_body = T_Frame \<lparr>fm_payload = Some z, fm_sn = sn\<rparr>, tm_header = ?h\<rparr> z" "zbuf_wf z" "zbuf_bytes z = messages_wire ms"
    using frame_packet_decode [OF assms(2,3)] by blast
  have h: "Z_MID ?h = Z_MID_T_FRAME" "reliable = Z_HAS_FLAG ?h Z_FLAG_T_FRAME_R"
    using assms(4) by (simp_all add: z_t_msg_make_frame_header_def set_flag_def t_mid_defs t_flag_defs Z_MID_def Z_MID_MASK_def Z_HAS_FLAG_def)
  have len: "0 < z_zbuf_len (ur_zbuf s)"
    using assms(3) by (simp add: zbuf_len_bytes [OF assms(2)] frame_wire_def wire_transport_def)
  obtain s' where s': "z_unicast_handle_frame mapping handle ?h \<lparr>fm_payload = Some z, fm_sn = sn\<rparr> (s\<lparr>ur_zbuf := z\<rparr>) = Ok () s'"
    "session_state s' = cp" "sn_rx reliable (ur_peer s') = sn" "sn_rx (\<not> reliable) (ur_peer s') = sn_rx (\<not> reliable) (ur_peer s)"
    "zbuf_bytes (ur_zbuf s') = []" "zbuf_wf (ur_zbuf s')"
    using handle_frame_ok [OF assms(1), of "s\<lparr>ur_zbuf := z\<rparr>" "\<lparr>fm_payload = Some z, fm_sn = sn\<rparr>" reliable ?h handle mapping cp]
      z(2,3) h(2) assms(5,6) by auto
  have "messages_loop mapping handle s = Some (Ok () s')"
    using s'(1,5,6) h(1) by (intro messages_loop_one [OF len z(1)]) (simp_all add: z_unicast_handle_transport_message_def zbuf_len_bytes)
  then show ?thesis using s' by blast
qed

lemma frag_chain_received:
  fixes r
  defines "c \<equiv> frag_channel r"
  assumes "frag_chain (mask b) r first sn rest ms" "1 < b" "b < 64" "rest \<noteq> []"
    "tc_sn_res (ur_common s) = mask b" "next_sn (mask b) first (sn_rx c (ur_peer s)) sn"
    "Z_PATCH_HAS_FRAGMENT_MARKERS (pc_patch (pu_common (ur_peer s)))" "ready_for c first bs (pu_common (ur_peer s))"
    "network_message_ok msg" "wire_network_message msg = bs @ rest" "length (wire_network_message msg) \<le> Z_FRAG_MAX_SIZE"
    "handle (received mapping (channel_reliability c) msg) (ur_common s, emptied c (pu_common (ur_peer s))) = Ok () cp"
  shows "\<exists>s'. receive_packets mapping handle (map wire_transport ms) s = Some (Ok () s') \<and>
    session_state s' = (fst cp, set_dbuf_state c Z_DBUF_STATE_NULL (snd cp)) \<and>
    sn_rx (\<not> c) (ur_peer s') = sn_rx (\<not> c) (ur_peer s)"
  using assms(2-)
proof (induction ms arbitrary: first sn rest s bs)
  case (Cons m ms)
  obtain n where n: "n \<le> length rest" "0 < n" "m = frag r sn (take n rest) (n = length rest) first"
    "frag_chain (mask b) r False (z_sn_increment (mask b) sn) (drop n rest) ms"
    using Cons.prems(1) by auto
  have sn: "next_sn (tc_sn_res (ur_common s)) first (sn_rx (frag_channel r) (ur_peer s)) sn"
    using Cons.prems(5,6) by (simp add: c_def)
  have len: "length bs + length (take n rest) \<le> Z_FRAG_MAX_SIZE" using Cons.prems(10,11) n(1) by simp
  let ?z = "z_slice_as_zbuf (wire_transport m)"
  obtain z where z: "z_transport_message_decode ?z = Ok m z" "zbuf_wf z" "zbuf_bytes z = []"
    using frag_packet_decode [of ?z sn "take n rest" r "n = length rest" first] n(3) by auto
  have zlen: "0 < z_zbuf_len ?z" "z_zbuf_len z = 0" using z(2,3) by (simp_all add: zbuf_len_bytes wire_transport_def)
  let ?u = "s\<lparr>ur_zbuf := z\<rparr>" and ?s = "s\<lparr>ur_zbuf := z, ur_peer := set_sn_rx c sn (ur_peer s)\<rparr>"
  have one: "receive_packets mapping handle (map wire_transport (m # ms)) s = receive_packets mapping handle (map wire_transport ms) t"
    if "z_unicast_handle_transport_message mapping handle m ?u = Ok () t" "ur_zbuf t = z" for t
    using messages_loop_one [of "s\<lparr>ur_zbuf := ?z\<rparr>" m z mapping handle t] zlen z(1) that by simp
  have sn0: "next_sn (tc_sn_res (ur_common ?u)) first (sn_rx (frag_channel r) (ur_peer ?u)) sn" using sn by simp
  have pre0: "Z_PATCH_HAS_FRAGMENT_MARKERS (pc_patch (pu_common (ur_peer ?u)))"
    "ready_for (frag_channel r) first bs (pu_common (ur_peer ?u))" using Cons.prems(7,8) by (simp_all add: c_def)
  note step = handle_frag [OF sn0 pre0 len]
  show ?case
  proof (cases "n = length rest")
    case True
    let ?t = "on_peer_common (set_dbuf_state c Z_DBUF_STATE_NULL) (with_session cp ?s)"
    have "ms = []" using n(4) True by (cases ms) auto
    moreover have "z_unicast_handle_transport_message mapping handle m ?u = Ok () ?t"
      using step(2) [of "n = length rest" msg handle mapping cp] True Cons.prems(9,10,12) by (simp add: n(3) c_def)
    ultimately have "receive_packets mapping handle (map wire_transport (m # ms)) s = Some (Ok () ?t)"
      using one [of ?t] by simp
    moreover have "session_state ?t = (fst cp, set_dbuf_state c Z_DBUF_STATE_NULL (snd cp))"
      "sn_rx (\<not> c) (ur_peer ?t) = sn_rx (\<not> c) (ur_peer s)" by simp_all
    ultimately show ?thesis by blast
  next
    case False
    obtain w where w: "z_unicast_handle_transport_message mapping handle m ?u =
        Ok () (on_peer_common (\<lambda>p. set_dbuf_state c Z_DBUF_STATE_INIT (set_dbuf c w p)) ?s)"
      "tx_buf Z_FRAG_MAX_SIZE (bs @ take n rest) w"
      using step(1) [of "n = length rest" mapping handle] False by (auto simp: n(3) c_def)
    let ?t = "on_peer_common (\<lambda>p. set_dbuf_state c Z_DBUF_STATE_INIT (set_dbuf c w p)) ?s"
    have "bs @ take n rest \<noteq> []" using n(1,2) by auto
    then have ready: "ready_for c False (bs @ take n rest) (pu_common (ur_peer ?t))"
      using w(2) by (simp add: ready_for_def collected_def)
    have t: "ur_common ?t = ur_common s" "emptied c (pu_common (ur_peer ?t)) = emptied c (pu_common (ur_peer s))"
      "pc_patch (pu_common (ur_peer ?t)) = pc_patch (pu_common (ur_peer s))" "sn_rx c (ur_peer ?t) = sn"
      "sn_rx (\<not> c) (ur_peer ?t) = sn_rx (\<not> c) (ur_peer s)" by simp_all
    have rest: "drop n rest \<noteq> []" using False n(1) by simp
    have wire: "wire_network_message msg = (bs @ take n rest) @ drop n rest" using Cons.prems(10) by simp
    obtain s' where "receive_packets mapping handle (map wire_transport ms) ?t = Some (Ok () s')"
      "session_state s' = (fst cp, set_dbuf_state c Z_DBUF_STATE_NULL (snd cp))"
      "sn_rx (\<not> c) (ur_peer s') = sn_rx (\<not> c) (ur_peer ?t)"
      using Cons.IH [OF n(4) Cons.prems(2,3) rest _ _ _ ready Cons.prems(9) wire Cons.prems(11)] Cons.prems(5,7,12) t
        next_sn_increment [OF Cons.prems(2,3)] by fastforce
    then show ?thesis using one [OF w(1)] t(5) by simp
  qed
qed simp


section \<open>From one side to the other\<close>

text \<open>A message in one frame, or in fragments, of a transport that does not batch.\<close>

definition one_message :: "nat \<Rightarrow> z_reliability_t \<Rightarrow> z_network_message_t \<Rightarrow> ('n, 's) z_transport_common_t \<Rightarrow> byte list list \<Rightarrow> bool" where
  "one_message cap r m t ps \<longleftrightarrow>
     (if length (room (lk_flow (tc_link t))) + length (frame_wire (sn_tx r t) r) + length (wire_network_message m) \<le> cap
      then ps = [frame_wire (sn_tx r t) r @ messages_wire [m]]
      else \<exists>fs. ps = map wire_transport fs \<and> frag_chain (tc_sn_res t) r True (sn_tx r t) (wire_network_message m) fs)"

lemma send_one:
  assumes "tx_ready cap t" "tc_batch_state t \<noteq> Z_BATCHING_ACTIVE" "network_message_ok m"
  shows "\<exists>t' ps. z_transport_tx_send_n_msg_inner m r peers t = Ok () t' \<and> sends cap peers ps t t' \<and> one_message cap r m t ps"
proof (cases "length (room (lk_flow (tc_link t))) + length (frame_wire (sn_tx r t) r) + length (wire_network_message m) \<le> cap")
  case True
  then show ?thesis using idle_send [OF assms True, of peers] by (auto simp: one_message_def messages_wire_def)
next
  case False
  obtain t1 where t1: "tx_start_frame r t = Ok (sn_tx r t) t1" "sends cap peers [] t t1" "holds cap (frame_wire (sn_tx r t) r) t1"
    "sn_tx r t1 = z_sn_increment (tc_sn_res t) (sn_tx r t)"
    using start_frame_ok [OF assms(1)] by blast
  have l: "tc_link t1 = tc_link t" "tc_sn_res t1 = tc_sn_res t" using t1(2) by (simp_all add: sends_def tx_same_def)
  obtain t2 pre where t2: "on_wbuf (z_network_message_encode m) t1 = Err Z_ERR_TRANSPORT_NO_SPACE t2" "sends cap peers [] t1 t2"
    "\<forall>r. sn_tx r t2 = sn_tx r t1"
    using encode_state [OF assms(3) sends_ready [OF t1(2)] t1(3) refl, where peers = peers] False l by auto
  have sn: "sn_tx r t2 = z_sn_increment (tc_sn_res t2) (sn_tx r t)" using t1(4) t2(2,3) l by (simp add: sends_def tx_same_def)
  have res: "tc_sn_res t2 = tc_sn_res t" using t2(2) l by (simp add: sends_def tx_same_def)
  obtain t' fs where f: "z_transport_tx_send_fragment m r (sn_tx r t) peers t2 = Ok () t'" "sends cap peers (map wire_transport fs) t2 t'"
    "frag_chain (tc_sn_res t2) r True (sn_tx r t) (wire_network_message m) fs"
    using send_fragment_ok [OF assms(3) sends_ready [OF t2(2)] sn, of peers] by blast
  have "z_transport_tx_send_n_msg_inner m r peers t = Ok () t'"
    using assms(2) t1(1) t2(1) tx_buf_facts(6) [OF t1(3)] f(1)
    by (simp add: z_transport_tx_send_n_msg_inner_def z_transport_tx_batch_has_data_def bind_ok_def)
  moreover have "sends cap peers (map wire_transport fs) t t'" using sends_trans [OF t1(2) sends_trans [OF t2(2) f(2)]] by simp
  ultimately show ?thesis using False f(3) res by (auto simp: one_message_def)
qed

lemma one_message_received:
  assumes "one_message cap r m t ps" "network_message_ok m" "length (wire_network_message m) \<le> Z_FRAG_MAX_SIZE"
    "tc_sn_res t = mask b" "1 < b" "b < 64" "tc_sn_res (ur_common s) = mask b"
    "\<And>c. z_sn_precedes (mask b) (sn_rx c (ur_peer s)) (sn_tx r t)" "\<And>c. idle c (pu_common (ur_peer s))"
    "Z_PATCH_HAS_FRAGMENT_MARKERS (pc_patch (pu_common (ur_peer s)))" "r = Z_RELIABILITY_RELIABLE \<or> r = Z_RELIABILITY_BEST_EFFORT"
  shows "\<exists>s' r' p. receive_packets mapping (\<lambda>x cp. Ok () (deliver_to x cp)) ps s = Some (Ok () s') \<and>
    ur_common s' = fst (deliver_to (received mapping r' m) (ur_common s, p)) \<and>
    (r' = r \<longleftrightarrow> length (room (lk_flow (tc_link t))) + length (frame_wire (sn_tx r t) r) + length (wire_network_message m) \<le> cap)"
proof (cases "length (room (lk_flow (tc_link t))) + length (frame_wire (sn_tx r t) r) + length (wire_network_message m) \<le> cap")
  case True
  let ?c = "r = Z_RELIABILITY_RELIABLE" and ?h = "\<lambda>x cp. Ok () (deliver_to x cp)"
  have r: "channel_reliability ?c = r" using assms(11) by (auto simp: channel_reliability_def)
  let ?z = "z_slice_as_zbuf (frame_wire (sn_tx r t) r @ messages_wire [m])"
  obtain s' where "messages_loop mapping ?h (s\<lparr>ur_zbuf := ?z\<rparr>) = Some (Ok () s')"
    "session_state s' = deliver_to (received mapping r m) (session_state s)"
    using frame_received [of "[m]" "s\<lparr>ur_zbuf := ?z\<rparr>" "sn_tx r t" r ?c ?h mapping "deliver_to (received mapping r m) (session_state s)"]
      assms(2,7,8) r by (auto simp: then_do_def bind_ok_def ret_def)
  then have run: "receive_packets mapping ?h ps s = Some (Ok () s')" "ur_common s' = fst (deliver_to (received mapping r m) (session_state s))"
    using assms(1) True by (simp_all add: one_message_def prod_eq_iff)
  show ?thesis by (intro exI [of _ s'] exI [of _ r] exI [of _ "pu_common (ur_peer s)"]) (use run True in simp)
next
  case False
  let ?c = "frag_channel r" and ?h = "\<lambda>x cp. Ok () (deliver_to x cp)"
  obtain fs where fs: "ps = map wire_transport fs" "frag_chain (mask b) r True (sn_tx r t) (wire_network_message m) fs"
    using assms(1,4) False by (auto simp: one_message_def)
  let ?cp = "deliver_to (received mapping (channel_reliability ?c) m) (ur_common s, emptied ?c (pu_common (ur_peer s)))"
  have "next_sn (mask b) True (sn_rx ?c (ur_peer s)) (sn_tx r t)" using assms(8) by (simp add: next_sn_def)
  then obtain s' where run: "receive_packets mapping ?h ps s = Some (Ok () s')" "session_state s' = (fst ?cp, set_dbuf_state ?c Z_DBUF_STATE_NULL (snd ?cp))"
    using frag_chain_received [OF fs(2) assms(5,6) wire_network_message_nonempty [OF assms(2)] assms(7) _ assms(10), of "[]" m ?h mapping ?cp]
      assms(2,3,9) fs(1) by (auto simp: ready_for_def)
  have "channel_reliability ?c \<noteq> r"
    by (auto simp: channel_reliability_def frag_channel_def Z_RELIABILITY_RELIABLE_def Z_RELIABILITY_BEST_EFFORT_def split: if_splits)
  then show ?thesis using run False
    by (intro exI [of _ s'] exI [of _ "channel_reliability ?c"] exI [of _ "emptied ?c (pu_common (ur_peer s))"]) simp
qed


section \<open>What is lost\<close>

text \<open>
  A first fragment empties the buffer of a channel that had overflown, but not the mark of it: the
  new message is thrown away with its last fragment.
\<close>

lemma overflow_swallows_next:
  fixes r
  defines "c \<equiv> frag_channel r"
  assumes "next_sn (tc_sn_res (ur_common s)) False (sn_rx c (ur_peer s)) sn"
    "dbuf_state c (pu_common (ur_peer s)) = Z_DBUF_STATE_OVERFLOW" "tx_buf Z_FRAG_MAX_SIZE bs (dbuf c (pu_common (ur_peer s)))"
    "Z_PATCH_HAS_FRAGMENT_MARKERS (pc_patch (pu_common (ur_peer s)))"
  shows "\<exists>s'. z_unicast_handle_transport_message mapping handle (frag r sn chunk True True) s = Ok () s' \<and>
    ur_common s' = ur_common s \<and> idle c (pu_common (ur_peer s'))"
proof -
  obtain w where w: "z_wbuf_reset (dbuf c (pu_common (ur_peer s))) = Ok () w"
    using prepare_ok [OF assms(4), of Z_LINK_CAP_FLOW_DATAGRAM]
    by (auto simp: Z_FRAG_MAX_SIZE_def unsafe_z_prepare_wbuf_def then_do_def bind_ok_def when_do_def Z_LINK_CAP_FLOW_DATAGRAM_def
        Z_LINK_CAP_FLOW_STREAM_def split: res.splits)
  let ?s = "s\<lparr>ur_peer := set_sn_rx c sn (ur_peer s)\<rparr>" let ?u = "on_peer_common (set_dbuf c w) ?s"
  let ?m = "\<lparr>fg_payload = chunk, fg_sn = sn, fg_first = True, fg_drop = False\<rparr>"
  have st: "dbuf_state c (pu_common (ur_peer ?u)) = Z_DBUF_STATE_OVERFLOW" using assms(3) by simp
  have "fragment_store mapping handle c (tm_header (frag r sn chunk True True)) ?m ?u = Ok () (on_peer_common (drop_dbuf c) ?u)"
    using st frag_facts(4) [of sn chunk r True True]
    by (simp add: fragment_store_def then_do_def bind_ok_def fragment_alloc_def fragment_fill_def fragment_final_def
        Z_DBUF_STATE_OVERFLOW_def Z_DBUF_STATE_NULL_def Z_DBUF_STATE_INIT_def)
  then have "z_unicast_handle_transport_message mapping handle (frag r sn chunk True True) s = Ok () (on_peer_common (drop_dbuf c) ?u)"
    using w assms(2,5) frag_facts [of sn chunk r True True]
    by (simp add: z_unicast_handle_transport_message_def z_unicast_handle_fragment_def z_unicast_handle_fragment_inner_def Let_def
        when_do_def then_do_def bind_ok_def on_dbuf_def next_sn_def c_def)
  then show ?thesis by (simp add: idle_def drop_dbuf_def z_wbuf_clear_def)
qed

text \<open>After a gap, the first fragment of a new message is dropped with what was there of the last one.\<close>

lemma first_after_gap_dropped:
  fixes r
  defines "c \<equiv> frag_channel r"
  assumes "z_sn_precedes (tc_sn_res (ur_common s)) (sn_rx c (ur_peer s)) sn"
    "\<not> z_sn_consecutive (tc_sn_res (ur_common s)) (sn_rx c (ur_peer s)) sn"
    "collected c bs (pu_common (ur_peer s))" "bs \<noteq> []"
  shows "\<exists>s'. z_unicast_handle_transport_message mapping handle (frag r sn chunk l True) s = Ok () s' \<and>
    ur_common s' = ur_common s \<and> idle c (pu_common (ur_peer s'))"
proof -
  have "0 < z_wbuf_len (dbuf c (pu_common (ur_peer s)))"
    using assms(4,5) tx_buf_facts(4) by (fastforce simp: collected_def)
  then have "z_unicast_handle_transport_message mapping handle (frag r sn chunk l True) s =
      Ok () (on_peer_common (drop_dbuf c) (s\<lparr>ur_peer := set_sn_rx c sn (ur_peer s)\<rparr>))"
    using assms(2,3) frag_facts [of sn chunk r l True]
    by (simp add: z_unicast_handle_transport_message_def z_unicast_handle_fragment_def z_unicast_handle_fragment_inner_def Let_def c_def)
  then show ?thesis by (simp add: idle_def drop_dbuf_def z_wbuf_clear_def)
qed

text \<open>A packet whose length came in two reads leaves the peer as if the length had not come.\<close>

lemma pending_size_stays:
  assumes "lk_flow (tc_link (fst cp)) = Z_LINK_CAP_FLOW_STREAM" "pu_flow_state (snd cp) = Z_FLOW_STATE_PENDING_SIZE"
    "recv_main cp = Ok (Some n) cp1" "n \<noteq> 0" "snd cp1 = snd cp"
    "zbuf_wf (tc_zbuf (fst cp1))" "zbuf_bytes (tc_zbuf (fst cp1)) = b # bs"
    "unat (pu_flow_curr_size (snd cp) + push_bit 8 (ucast b)) \<le> length bs"
  shows "\<exists>cp'. z_unicast_peer_read cp = Ok (READ_OK, unat (pu_flow_curr_size (snd cp) + push_bit 8 (ucast b))) cp' \<and>
    pu_flow_state (snd cp') = Z_FLOW_STATE_PENDING_SIZE"
proof -
  let ?z = "tc_zbuf (fst cp1)"
  have "z_uint8_decode ?z = Ok b (zadv 1 ?z)" using consumesD [OF uint8_consumes assms(6), of b bs] assms(7) by simp
  then have r: "z_zbuf_read ?z = Ok b (zadv 1 ?z)" by (simp add: z_uint8_decode_def split: if_splits)
  have "z_zbuf_len (zadv 1 ?z) = length bs"
    using zbuf_len_bytes [OF zadv_wf [OF assms(6), of 1]] assms(7) by simp
  then show ?thesis using assms(1-5,8) r
    by (simp add: z_unicast_peer_read_def Let_def bind_ok_def when_read_def on_main_zbuf_def packet_or_pending_def)
qed

end
