(* ===== verification/Zp_Unicast.thy ===== *)
theory Zp_Unicast imports Zp_RxLaws
begin

text \<open>
  A unicast transport from the handshake to the lease: \<^verbatim>\<open>src/transport/unicast/transport.c\<close>,
  the rounds of the task of \<^verbatim>\<open>src/transport/unicast/lease.c\<close>, and the switches of batching in
  \<^verbatim>\<open>src/transport/transport.c\<close>. The random number of the handshake, what the session does with
  peers that are lost and with queries that time out, and the sleep of the task are arguments or left
  out; starting, joining and freeing the tasks and their mutexes is not modelled.
\<close>

section \<open>The handshake\<close>

definition Z_ERR_MESSAGE_UNEXPECTED :: z_result_t where "Z_ERR_MESSAGE_UNEXPECTED = - 117"
definition Z_ERR_TRANSPORT_OPEN_SN_RESOLUTION :: z_result_t where "Z_ERR_TRANSPORT_OPEN_SN_RESOLUTION = - 101"
definition Z_TRANSPORT_LEASE :: z_zint_t where "Z_TRANSPORT_LEASE = 10000"
definition Z_TRANSPORT_LEASE_EXPIRE_FACTOR :: z_zint_t where "Z_TRANSPORT_LEASE_EXPIRE_FACTOR = 3"

definition Z_WHATAMI_ROUTER :: z_whatami_t where "Z_WHATAMI_ROUTER = 0x01"
definition Z_WHATAMI_PEER :: z_whatami_t where "Z_WHATAMI_PEER = 0x02"
definition Z_WHATAMI_CLIENT :: z_whatami_t where "Z_WHATAMI_CLIENT = 0x04"

text \<open>The state of a handshake: the parameters being agreed on, and the network.\<close>

type_synonym 'n handshake = "z_transport_unicast_establish_param_t \<times> 'n"

definition hs_net :: "('a, 'n) prog \<Rightarrow> ('a, 'n handshake) prog" where
  "hs_net p s = (case p (snd s) of Ok x n \<Rightarrow> Ok x (fst s, n) | Err e n \<Rightarrow> Err e (fst s, n) | Fault \<Rightarrow> Fault)"

definition hs_set :: "(z_transport_unicast_establish_param_t \<Rightarrow> z_transport_unicast_establish_param_t) \<Rightarrow> (unit, 'n handshake) prog" where
  "hs_set f s = Ok () (f (fst s), snd s)"

text \<open>
  \<^verbatim>\<open>0x08 << res\<close> in an \<^verbatim>\<open>int\<close>, kept in a byte: \<open>Fault\<close> when the shift has no defined value.
\<close>

definition shift_res :: "u8 \<Rightarrow> u8 option" where
  "shift_res res = (if unat res \<le> 27 then Some (ucast (push_bit (unat res) (8 :: 32 word))) else None)"

definition hs_shift_res :: "(unit, 'n handshake) prog" where
  "hs_shift_res s = (case (shift_res (ep_key_id_res (fst s)), shift_res (ep_req_id_res (fst s))) of
     (Some k, Some r) \<Rightarrow> Ok () ((fst s)\<lparr>ep_key_id_res := k, ep_req_id_res := r\<rparr>, snd s) | _ \<Rightarrow> Fault)"

text \<open>
  The numbers in the answer must not be larger than those that were announced. The last one that
  is too large gives the error.
\<close>

definition hs_check_init :: "u8 \<Rightarrow> z_t_msg_init_t \<Rightarrow> (unit, 'n handshake) prog" where
  "hs_check_init patch iam s =
     (let p = fst s;
          r1 = (if in_seq_num_res iam \<le> ep_seq_num_res p then Z_RES_OK else Z_ERR_TRANSPORT_OPEN_SN_RESOLUTION);
          p = (if in_seq_num_res iam \<le> ep_seq_num_res p then p\<lparr>ep_seq_num_res := in_seq_num_res iam\<rparr> else p);
          r2 = (if in_req_id_res iam \<le> ep_req_id_res p then r1 else Z_ERR_TRANSPORT_OPEN_SN_RESOLUTION);
          p = (if in_req_id_res iam \<le> ep_req_id_res p then p\<lparr>ep_req_id_res := in_req_id_res iam\<rparr> else p);
          r3 = (if in_batch_size iam \<le> ep_batch_size p then r2 else Z_ERR_TRANSPORT_OPEN_SN_RESOLUTION);
          p = (if in_batch_size iam \<le> ep_batch_size p then p\<lparr>ep_batch_size := in_batch_size iam\<rparr> else p);
          r4 = (if in_patch iam \<le> patch then r3 else Z_ERR_GENERIC);
          p = (if in_patch iam \<le> patch then p\<lparr>ep_patch := in_patch iam\<rparr> else p)
      in if r4 \<noteq> Z_RES_OK then Err r4 (p, snd s) else Ok () (p, snd s))"

text \<open>
  The random number is an argument. It is and-ed with \<^verbatim>\<open>!_z_sn_modulo_mask(res)\<close>, the logical
  negation of the mask, which is 0 or 1.
\<close>

definition initial_sn :: "z_zint_t \<Rightarrow> u8 \<Rightarrow> z_zint_t" where
  "initial_sn random res = random AND of_bool (z_sn_modulo_mask res = 0)"

definition z_unicast_handshake_open ::
    "z_zint_t \<Rightarrow> ('n, 's) z_link_t \<Rightarrow> z_id_t \<Rightarrow> z_whatami_t \<Rightarrow> 's option \<Rightarrow> (unit, 'n handshake) prog" where
  "z_unicast_handshake_open random zl local_zid mode sock =
     (let ism = z_t_msg_make_init_syn mode local_zid in
      case tm_body ism of
        T_Init i \<Rightarrow>
          then_do (hs_set (\<lambda>p. p\<lparr>ep_seq_num_res := in_seq_num_res i, ep_req_id_res := in_req_id_res i, ep_batch_size := in_batch_size i\<rparr>))
         (then_do (hs_net (z_link_send_t_msg zl ism sock))
         (bind_ok (hs_net (z_link_recv_t_msg zl sock)) (\<lambda>iam.
            if Z_MID (tm_header iam) \<noteq> Z_MID_T_INIT \<or> \<not> Z_HAS_FLAG (tm_header iam) Z_FLAG_T_INIT_A
            then fail Z_ERR_MESSAGE_UNEXPECTED
            else case tm_body iam of
              T_Init a \<Rightarrow>
                then_do (hs_set (\<lambda>p. p\<lparr>ep_remote_whatami := in_whatami a\<rparr>))
               (then_do (hs_check_init (in_patch i) a)
               (then_do hs_shift_res
               (then_do (hs_set (\<lambda>p. if mode = Z_WHATAMI_CLIENT
                                     then p\<lparr>ep_initial_sn_tx := initial_sn random (ep_seq_num_res p)\<rparr> else p))
               (then_do (hs_set (\<lambda>p. p\<lparr>ep_remote_zid := in_zid a\<rparr>))
               (then_do (\<lambda>s. hs_net (z_link_send_t_msg zl (z_t_msg_make_open_syn Z_TRANSPORT_LEASE (ep_initial_sn_tx (fst s)) (in_cookie a)) sock) s)
               (bind_ok (hs_net (z_link_recv_t_msg zl sock)) (\<lambda>oam.
                  case tm_body oam of
                    T_Open b \<Rightarrow> hs_set (\<lambda>p. p\<lparr>ep_lease := (if op_lease b < Z_TRANSPORT_LEASE then op_lease b else Z_TRANSPORT_LEASE),
                                            ep_initial_sn_rx := op_initial_sn b\<rparr>)
                  | _ \<Rightarrow> fault)))))))
            | _ \<Rightarrow> fault)))
      | _ \<Rightarrow> fault)"

text \<open>The other side: the smaller of its own numbers and those of the peer.\<close>

definition hs_adjust_init :: "z_t_msg_init_t \<Rightarrow> z_t_msg_init_t \<Rightarrow> z_t_msg_init_t" where
  "hs_adjust_init i a =
     a\<lparr>in_seq_num_res := (if in_seq_num_res i < in_seq_num_res a then in_seq_num_res i else in_seq_num_res a),
       in_req_id_res := (if in_req_id_res i < in_req_id_res a then in_req_id_res i else in_req_id_res a),
       in_batch_size := (if in_batch_size i < in_batch_size a then in_batch_size i else in_batch_size a),
       in_patch := (if in_patch i < in_patch a then in_patch i else in_patch a)\<rparr>"

definition z_unicast_handshake_listen ::
    "('n, 's) z_link_t \<Rightarrow> z_id_t \<Rightarrow> z_whatami_t \<Rightarrow> 's option \<Rightarrow> (unit, 'n handshake) prog" where
  "z_unicast_handshake_listen zl local_zid mode sock =
     (if mode \<noteq> Z_WHATAMI_PEER then fault
      else bind_ok (hs_net (z_link_recv_t_msg zl sock)) (\<lambda>ism.
        if Z_MID (tm_header ism) \<noteq> Z_MID_T_INIT \<or> Z_HAS_FLAG (tm_header ism) Z_FLAG_T_INIT_A then fail Z_ERR_MESSAGE_UNEXPECTED
        else let iam = z_t_msg_make_init_ack mode local_zid [] in
          case (tm_body ism, tm_body iam) of
            (T_Init i, T_Init a) \<Rightarrow>
              (let a = hs_adjust_init i a in
                then_do (hs_set (\<lambda>p. p\<lparr>ep_seq_num_res := in_seq_num_res a, ep_req_id_res := in_req_id_res a, ep_batch_size := in_batch_size a,
                                     ep_remote_zid := in_zid i, ep_remote_whatami := in_whatami i\<rparr>))
               (then_do hs_shift_res
               (then_do (hs_net (z_link_send_t_msg zl (iam\<lparr>tm_body := T_Init a\<rparr>) sock))
               (bind_ok (hs_net (z_link_recv_t_msg zl sock)) (\<lambda>osm.
                  if Z_MID (tm_header osm) \<noteq> Z_MID_T_OPEN \<or> Z_HAS_FLAG (tm_header osm) Z_FLAG_T_INIT_A then fail Z_ERR_MESSAGE_UNEXPECTED
                  else case tm_body osm of
                    T_Open b \<Rightarrow>
                      then_do (hs_set (\<lambda>p. p\<lparr>ep_lease := (if op_lease b < Z_TRANSPORT_LEASE then op_lease b else Z_TRANSPORT_LEASE),
                                            ep_initial_sn_rx := op_initial_sn b\<rparr>))
                        (\<lambda>s. hs_net (z_link_send_t_msg zl (z_t_msg_make_open_ack Z_TRANSPORT_LEASE (ep_initial_sn_tx (fst s))) sock) s)
                  | _ \<Rightarrow> fault)))))
          | _ \<Rightarrow> fault))"

definition z_unicast_open_client :: "z_zint_t \<Rightarrow> ('n, 's) z_link_t \<Rightarrow> z_id_t \<Rightarrow> (unit, 'n handshake) prog" where
  "z_unicast_open_client random zl local_zid = z_unicast_handshake_open random zl local_zid Z_WHATAMI_CLIENT None"

definition z_unicast_open_peer ::
    "z_zint_t \<Rightarrow> ('n, 's) z_link_t \<Rightarrow> z_id_t \<Rightarrow> bool \<Rightarrow> 's option \<Rightarrow> (unit, 'n handshake) prog" where
  "z_unicast_open_peer random zl local_zid op_open sock =
     then_do (hs_set (\<lambda>p. p\<lparr>ep_initial_sn_tx := initial_sn random (ep_seq_num_res p)\<rparr>))
       (if op_open then z_unicast_handshake_open 0 zl local_zid Z_WHATAMI_PEER sock
        else hs_set (\<lambda>p. p\<lparr>ep_lease := Z_TRANSPORT_LEASE, ep_batch_size := Z_BATCH_UNICAST_SIZE, ep_seq_num_res := Z_SN_RESOLUTION\<rparr>))"

section \<open>The transport\<close>

definition z_unicast_transport_create_inner ::
    "('n, 's) z_link_t \<Rightarrow> z_transport_unicast_establish_param_t \<Rightarrow> 'n \<Rightarrow> z_result_t \<times> ('n, 's, 'r) z_transport_unicast_t" where
  "z_unicast_transport_create_inner zl param net =
     (let mtu = (if lk_mtu zl < ep_batch_size param then lk_mtu zl else ep_batch_size param);
          wbuf = z_wbuf_make (unat mtu) False; zbuf = z_zbuf_make (unat (ep_batch_size param));
          ztu = \<lparr>zu_common = \<lparr>tc_link = zl, tc_wbuf = wbuf, tc_zbuf = zbuf, tc_sn_res = z_sn_max (ep_seq_num_res param),
                    tc_sn_tx_reliable = ep_initial_sn_tx param, tc_sn_tx_best_effort = ep_initial_sn_tx param,
                    tc_lease = ep_lease param, tc_transmitted = False, tc_batch_state = Z_BATCHING_IDLE, tc_batch_count = 0, tc_net = net\<rparr>,
                 zu_peers = []\<rparr>
      in if z_wbuf_capacity wbuf \<noteq> unat mtu \<or> z_zbuf_capacity zbuf \<noteq> unat (ep_batch_size param)
         then (Z_ERR_SYSTEM_OUT_OF_MEMORY, ztu) else (Z_RES_OK, ztu))"

definition z_unicast_transport_create ::
    "('n, 's) z_link_t \<Rightarrow> z_transport_unicast_establish_param_t \<Rightarrow> 'n \<Rightarrow> z_result_t \<times> ('n, 's, 'r) z_transport_unicast_t" where
  "z_unicast_transport_create zl param net =
     (let r = z_unicast_transport_create_inner zl param net; c = zu_common (snd r) in
      if fst r = Z_RES_OK then r
      else (fst r, (snd r)\<lparr>zu_common := c\<lparr>tc_wbuf := z_wbuf_clear (tc_wbuf c), tc_zbuf := z_zbuf_null\<rparr>\<rparr>))"

definition on_unicast_common :: "('a, ('n, 's) z_transport_common_t) prog \<Rightarrow> ('a, ('n, 's, 'r) z_transport_unicast_t) prog" where
  "on_unicast_common p ztu = (case p (zu_common ztu) of
     Ok x c \<Rightarrow> Ok x (ztu\<lparr>zu_common := c\<rparr>) | Err e c \<Rightarrow> Err e (ztu\<lparr>zu_common := c\<rparr>) | Fault \<Rightarrow> Fault)"

definition z_unicast_send_close :: "u8 \<Rightarrow> bool \<Rightarrow> (unit, ('n, 's, 'r) z_transport_unicast_t) prog" where
  "z_unicast_send_close reason link_only = on_unicast_common (z_transport_tx_send_t_msg (z_t_msg_make_close reason link_only) [])"

definition z_unicast_transport_close :: "u8 \<Rightarrow> (unit, ('n, 's, 'r) z_transport_unicast_t) prog" where
  "z_unicast_transport_close reason = z_unicast_send_close reason False"

definition z_transport_start_batching :: "('n, 's) z_transport_common_t \<Rightarrow> bool \<times> ('n, 's) z_transport_common_t" where
  "z_transport_start_batching ztc =
     (if tc_batch_state ztc = Z_BATCHING_ACTIVE then (False, ztc)
      else (True, ztc\<lparr>tc_batch_count := 0, tc_batch_state := Z_BATCHING_ACTIVE\<rparr>))"

definition z_transport_stop_batching :: "('n, 's) z_transport_common_t \<Rightarrow> ('n, 's) z_transport_common_t" where
  "z_transport_stop_batching ztc = ztc\<lparr>tc_batch_state := Z_BATCHING_IDLE\<rparr>"

section \<open>The lease\<close>

definition zp_unicast_send_keep_alive :: "(unit, ('n, 's, 'r) z_transport_unicast_t) prog" where
  "zp_unicast_send_keep_alive = on_unicast_common (z_transport_tx_send_t_msg z_t_msg_make_keep_alive [])"

definition zp_unicast_peer_is_expired :: "('s, 'r) z_transport_peer_unicast_t \<Rightarrow> bool" where
  "zp_unicast_peer_is_expired peer \<longleftrightarrow> \<not> pc_received (pu_common peer)"

text \<open>The lease of a transport as the \<^verbatim>\<open>int\<close> the task counts with.\<close>

definition lease_ms :: "('n, 's, 'r) z_transport_unicast_t \<Rightarrow> int" where
  "lease_ms ztu = sint (ucast (tc_lease (zu_common ztu)) :: 32 word)"

definition keep_alive_ms :: "('n, 's, 'r) z_transport_unicast_t \<Rightarrow> int" where
  "keep_alive_ms ztu = sint (ucast (tc_lease (zu_common ztu) div Z_TRANSPORT_LEASE_EXPIRE_FACTOR) :: 32 word)"

record ('n, 's, 'r) lease_task_t =
  lt_ztu :: "('n, 's, 'r) z_transport_unicast_t"
  lt_next_lease :: int
  lt_next_keep_alive :: int

definition set_received :: "bool \<Rightarrow> ('s, 'r) z_transport_peer_unicast_t \<Rightarrow> ('s, 'r) z_transport_peer_unicast_t" where
  "set_received b p = p\<lparr>pu_common := (pu_common p)\<lparr>pc_received := b\<rparr>\<rparr>"

definition lease_start :: "('n, 's, 'r) z_transport_unicast_t \<Rightarrow> ('n, 's, 'r) lease_task_t" where
  "lease_start ztu =
     \<lparr>lt_ztu = ztu\<lparr>zu_common := (zu_common ztu)\<lparr>tc_transmitted := False\<rparr>\<rparr>, lt_next_lease = lease_ms ztu,
      lt_next_keep_alive = keep_alive_ms ztu\<rparr>"

text \<open>
  The checks of one round of the task. A client whose router was silent for a lease gives up
  (\<open>Z_LEASE_FAILED\<close> stands for the end of the task through \<^verbatim>\<open>_zp_unicast_failed\<close>); so it
  does when a keep alive cannot be sent.
\<close>

definition Z_LEASE_FAILED :: z_result_t where "Z_LEASE_FAILED = - 1"

definition client_check_lease :: "(unit, ('n, 's, 'r) lease_task_t) prog" where
  "client_check_lease t =
     (if lt_next_lease t \<le> 0
      then (case zu_peers (lt_ztu t) of
              [] \<Rightarrow> Fault
            | p # ps \<Rightarrow>
                if pc_received (pu_common p)
                then Ok () (t\<lparr>lt_ztu := (lt_ztu t)\<lparr>zu_peers := set_received False p # ps\<rparr>, lt_next_lease := lease_ms (lt_ztu t)\<rparr>)
                else Err Z_LEASE_FAILED t)
      else Ok () t)"

definition reset_keep_alive :: "('n, 's, 'r) lease_task_t \<Rightarrow> ('n, 's, 'r) lease_task_t" where
  "reset_keep_alive t =
     t\<lparr>lt_ztu := (lt_ztu t)\<lparr>zu_common := (zu_common (lt_ztu t))\<lparr>tc_transmitted := False\<rparr>\<rparr>, lt_next_keep_alive := keep_alive_ms (lt_ztu t)\<rparr>"

definition client_check_keep_alive :: "(unit, ('n, 's, 'r) lease_task_t) prog" where
  "client_check_keep_alive t =
     (if lt_next_keep_alive t \<le> 0
      then if tc_transmitted (zu_common (lt_ztu t)) then Ok () (reset_keep_alive t)
           else (case zp_unicast_send_keep_alive (lt_ztu t) of
                   Ok _ ztu \<Rightarrow> Ok () (reset_keep_alive (t\<lparr>lt_ztu := ztu\<rparr>))
                 | Err e ztu \<Rightarrow> (if e <s 0 then Err Z_LEASE_FAILED (t\<lparr>lt_ztu := ztu\<rparr>) else Ok () (reset_keep_alive (t\<lparr>lt_ztu := ztu\<rparr>)))
                 | Fault \<Rightarrow> Fault)
      else Ok () t)"

text \<open>Peers that were silent for a lease are dropped; what that does to the session is an argument.\<close>

definition peer_check_lease :: "(('s, 'r) z_transport_peer_unicast_t list \<Rightarrow> 'n \<Rightarrow> 'n) \<Rightarrow> (unit, ('n, 's, 'r) lease_task_t) prog" where
  "peer_check_lease report t =
     (if lt_next_lease t \<le> 0
      then (let ztu = lt_ztu t; dropped = filter zp_unicast_peer_is_expired (zu_peers ztu);
                kept = filter (\<lambda>p. \<not> zp_unicast_peer_is_expired p) (zu_peers ztu); c = zu_common ztu in
            Ok () (t\<lparr>lt_ztu := ztu\<lparr>zu_peers := map (set_received False) kept,
                                   zu_common := c\<lparr>tc_net := (if dropped = [] then tc_net c else report dropped (tc_net c))\<rparr>\<rparr>,
                     lt_next_lease := lease_ms ztu\<rparr>))
      else Ok () t)"

definition peer_check_keep_alive :: "(unit, ('n, 's, 'r) lease_task_t) prog" where
  "peer_check_keep_alive t =
     (if lt_next_keep_alive t \<le> 0
      then let ztu = lt_ztu t in
           if tc_transmitted (zu_common ztu) \<or> zu_peers ztu = [] then Ok () (reset_keep_alive t)
           else (case on_unicast_common (z_transport_tx_send_t_msg z_t_msg_make_keep_alive (map pu_socket (zu_peers ztu))) ztu of
                   Ok _ ztu \<Rightarrow> Ok () (reset_keep_alive (t\<lparr>lt_ztu := ztu\<rparr>))
                 | Err e ztu \<Rightarrow> Ok () (reset_keep_alive (t\<lparr>lt_ztu := ztu\<rparr>))
                 | Fault \<Rightarrow> Fault)
      else Ok () t)"

text \<open>The time the task sleeps, and its counters after that.\<close>

definition lease_interval :: "int \<Rightarrow> int \<Rightarrow> int" where
  "lease_interval next_lease next_keep_alive =
     (if next_lease = 0 then next_keep_alive
      else if next_keep_alive < next_lease then next_keep_alive else next_lease)"

definition lease_round ::
    "z_whatami_t \<Rightarrow> (('s, 'r) z_transport_peer_unicast_t list \<Rightarrow> 'n \<Rightarrow> 'n) \<Rightarrow> ('n \<Rightarrow> 'n) \<Rightarrow> (int, ('n, 's, 'r) lease_task_t) prog" where
  "lease_round mode report timeouts =
     then_do (if mode = Z_WHATAMI_CLIENT then then_do client_check_lease client_check_keep_alive
              else then_do (peer_check_lease report) peer_check_keep_alive) (\<lambda>t.
       let ztu = lt_ztu t; c = zu_common ztu; interval = lease_interval (lt_next_lease t) (lt_next_keep_alive t) in
       Ok interval (t\<lparr>lt_ztu := ztu\<lparr>zu_common := c\<lparr>tc_net := timeouts (tc_net c)\<rparr>\<rparr>,
                      lt_next_lease := lt_next_lease t - interval, lt_next_keep_alive := lt_next_keep_alive t - interval\<rparr>))"

end
