(* ===== verification/Zp_UnicastLaws.thy ===== *)
theory Zp_UnicastLaws imports Zp_Unicast
begin

text \<open>
  What the handshake agrees on, what a new transport and a new peer start with, and the timers of
  the lease: silent peers go, and the counters stay between nothing and a full period.
\<close>

section \<open>A message without a transport\<close>

lemma wbuf_make_reset: "z_wbuf_reset (z_wbuf_make n False) = Ok () (z_wbuf_make n False)"
  by (simp add: z_wbuf_reset_def z_wbuf_make_def Let_def z_svec_append_eq z_svec_make_def z_svec_null_def
      z_iosli_make_def z_svec_len_def wbuf_reset_loop.simps z_wbuf_get_iosli_def z_svec_get_def z_iosli_reset_def on_iosli_def)

lemma link_send_t_msg_ok:
  assumes "transport_ok m" "link_takes_all zl" "2 + length (wire_transport m) \<le> unat (min (lk_mtu zl) Z_BATCH_UNICAST_SIZE)"
  shows "z_link_send_t_msg zl m sock net = Ok () (snd (lk_write_f zl sock (packet (lk_flow zl) (wire_transport m)) net))"
proof -
  let ?n = "unat (min (lk_mtu zl) Z_BATCH_UNICAST_SIZE)"
  have "?n < 2 ^ 16" using unsigned_less [of "min (lk_mtu zl) Z_BATCH_UNICAST_SIZE", where 'a = nat] by simp
  then have n: "?n < 2 ^ 64 - 1" by simp
  obtain w1 where w1: "unsafe_z_prepare_wbuf (lk_flow zl) (z_wbuf_make ?n False) = Ok () w1" "tx_buf ?n (room (lk_flow zl)) w1"
    using prepare_ok [OF tx_buf_make] assms(3) by (meson add_leE)
  have fits: "length (room (lk_flow zl)) + length (wire_transport m) \<le> ?n" using assms(3) by (auto simp: room_def)
  obtain w2 where w2: "z_transport_message_encode m w1 = Ok () w2" "tx_buf ?n (room (lk_flow zl) @ wire_transport m) w2"
    using tx_buf_appends [OF appends_transport [OF assms(1)] w1(2) fits] by blast
  obtain w3 where w3: "unsafe_z_finalize_wbuf (lk_flow zl) w2 = Ok () w3" "tx_buf ?n (packet (lk_flow zl) (wire_transport m)) w3"
    using finalize_ok [OF w2(2)] by blast
  have "(if lk_mtu zl < Z_BATCH_UNICAST_SIZE then lk_mtu zl else Z_BATCH_UNICAST_SIZE) = min (lk_mtu zl) Z_BATCH_UNICAST_SIZE"
    by (auto simp: min_def)
  then show ?thesis using w1(1) w2(1) w3(1) link_send_ok [OF w3(2) assms(2) n, of sock net]
    by (simp add: z_link_send_t_msg_def Let_def unsafe_z_prepare_wbuf_def wbuf_make_reset then_do_def bind_ok_def split: res.splits)
qed

section \<open>The handshake\<close>

text \<open>The initial number of a sender is 0, whatever the random number was.\<close>

lemma initial_sn_zero: "res \<in> {0, 1, 2, 3} \<Longrightarrow> initial_sn random res = 0"
  by (auto simp: initial_sn_def z_sn_modulo_mask_def)

lemma if_less_min: "(if x < y then x else y) = min x (y :: 'x :: linorder)"
  by (auto simp: min_def)

text \<open>What the opener takes from an answer that was made from what it announced.\<close>

lemma negotiation_agrees:
  assumes "p = p0\<lparr>ep_seq_num_res := in_seq_num_res i, ep_req_id_res := in_req_id_res i, ep_batch_size := in_batch_size i\<rparr>"
  shows "hs_check_init (in_patch i) (hs_adjust_init i a) (p, net) =
      Ok () (p\<lparr>ep_seq_num_res := min (in_seq_num_res i) (in_seq_num_res a), ep_req_id_res := min (in_req_id_res i) (in_req_id_res a),
               ep_batch_size := min (in_batch_size i) (in_batch_size a), ep_patch := min (in_patch i) (in_patch a)\<rparr>, net)"
proof -
  have adj: "in_seq_num_res (hs_adjust_init i a) = min (in_seq_num_res i) (in_seq_num_res a)"
    "in_req_id_res (hs_adjust_init i a) = min (in_req_id_res i) (in_req_id_res a)"
    "in_batch_size (hs_adjust_init i a) = min (in_batch_size i) (in_batch_size a)"
    "in_patch (hs_adjust_init i a) = min (in_patch i) (in_patch a)"
    unfolding hs_adjust_init_def if_less_min by simp_all
  show ?thesis unfolding hs_check_init_def adj by (simp add: assms Let_def)
qed

lemma check_init_bounds:
  assumes "hs_check_init patch a (p, net) = Ok () (p', net')"
  shows "ep_seq_num_res p' \<le> ep_seq_num_res p \<and> ep_req_id_res p' \<le> ep_req_id_res p \<and> ep_batch_size p' \<le> ep_batch_size p \<and>
    ep_patch p' \<le> patch \<and> net' = net"
  using assms by (auto simp: hs_check_init_def Let_def Z_RES_OK_def Z_ERR_TRANSPORT_OPEN_SN_RESOLUTION_def z_err_defs split: if_splits)

lemma bind_ok_OkE:
  assumes "bind_ok p f s = Ok x s'"
  obtains y t where "p s = Ok y t" "f y t = Ok x s'"
  using assms by (auto simp: bind_ok_def split: res.splits)

lemma hs_netE:
  assumes "hs_net p s = Ok x s'"
  obtains n where "p (snd s) = Ok x n" "s' = (fst s, n)"
  using assms by (auto simp: hs_net_def split: res.splits)

lemma hs_shift_bounds:
  "hs_shift_res s = Ok () s' \<Longrightarrow> \<exists>k r. s' = ((fst s)\<lparr>ep_key_id_res := k, ep_req_id_res := r\<rparr>, snd s)"
  by (auto simp: hs_shift_res_def split: option.splits)

text \<open>The second half of opening, after the answer was found good.\<close>

definition open_rest ::
    "z_zint_t \<Rightarrow> ('n, 's) z_link_t \<Rightarrow> z_whatami_t \<Rightarrow> 's option \<Rightarrow> z_t_msg_init_t \<Rightarrow> (unit, 'n handshake) prog" where
  "open_rest random zl mode sock a =
     then_do hs_shift_res
               (then_do (hs_set (\<lambda>p. if mode = Z_WHATAMI_CLIENT
                                     then p\<lparr>ep_initial_sn_tx := initial_sn random (ep_seq_num_res p)\<rparr> else p))
               (then_do (hs_set (\<lambda>p. p\<lparr>ep_remote_zid := in_zid a\<rparr>))
               (then_do (\<lambda>s. hs_net (z_link_send_t_msg zl (z_t_msg_make_open_syn Z_TRANSPORT_LEASE (ep_initial_sn_tx (fst s)) (in_cookie a)) sock) s)
               (bind_ok (hs_net (z_link_recv_t_msg zl sock)) (\<lambda>oam.
                  case tm_body oam of
                    T_Open b \<Rightarrow> hs_set (\<lambda>p. p\<lparr>ep_lease := (if op_lease b < Z_TRANSPORT_LEASE then op_lease b else Z_TRANSPORT_LEASE),
                                            ep_initial_sn_rx := op_initial_sn b\<rparr>)
                  | _ \<Rightarrow> fault)))))"

lemma open_rest_ok:
  assumes "open_rest random zl mode sock a (p, n) = Ok () (p', n')"
  shows "ep_seq_num_res p' = ep_seq_num_res p \<and> ep_batch_size p' = ep_batch_size p \<and> ep_patch p' = ep_patch p \<and>
    ep_lease p' \<le> Z_TRANSPORT_LEASE \<and>
    ep_initial_sn_tx p' = (if mode = Z_WHATAMI_CLIENT then initial_sn random (ep_seq_num_res p) else ep_initial_sn_tx p)"
  using assms unfolding open_rest_def then_do_def
  by (elim bind_ok_OkE hs_netE) (auto simp: hs_set_def fault_def less_imp_le dest!: hs_shift_bounds elim!: hs_netE split: z_transport_body_t.splits if_splits)

text \<open>An opened transport never has more than it announced, and its lease is at most the default.\<close>

lemma handshake_open_bounds:
  assumes "z_unicast_handshake_open random zl zid mode sock (p, net) = Ok () (p', net')"
  shows "ep_seq_num_res p' \<le> Z_SN_RESOLUTION \<and> ep_batch_size p' \<le> Z_BATCH_UNICAST_SIZE \<and> ep_lease p' \<le> Z_TRANSPORT_LEASE \<and>
    ep_patch p' \<le> Z_CURRENT_PATCH \<and> (mode = Z_WHATAMI_CLIENT \<longrightarrow> ep_initial_sn_tx p' = initial_sn random (ep_seq_num_res p'))"
proof -
  obtain i where i: "tm_body (z_t_msg_make_init_syn mode zid) = T_Init i" "in_seq_num_res i = Z_SN_RESOLUTION"
    "in_batch_size i = Z_BATCH_UNICAST_SIZE" "in_patch i = Z_CURRENT_PATCH"
    by (simp add: z_t_msg_make_init_syn_def Let_def)
  note run = assms [unfolded z_unicast_handshake_open_def Let_def i(1) z_transport_body_t.case then_do_def]
  let ?p = "p\<lparr>ep_seq_num_res := in_seq_num_res i, ep_req_id_res := in_req_id_res i, ep_batch_size := in_batch_size i\<rparr>"
  from run obtain n1 iam n2 where recv: "z_link_recv_t_msg zl sock n1 = Ok iam n2" and rest: "(if Z_MID (tm_header iam) \<noteq> Z_MID_T_INIT \<or> \<not> Z_HAS_FLAG (tm_header iam) Z_FLAG_T_INIT_A
            then fail Z_ERR_MESSAGE_UNEXPECTED
            else case tm_body iam of
              T_Init a \<Rightarrow>
                then_do (hs_set (\<lambda>p. p\<lparr>ep_remote_whatami := in_whatami a\<rparr>))
               (then_do (hs_check_init (in_patch i) a) (open_rest random zl mode sock a))
            | _ \<Rightarrow> fault) (?p, n2) = Ok () (p', net')"
    unfolding open_rest_def then_do_def by (elim bind_ok_OkE hs_netE) (auto simp: hs_set_def)
  then obtain a where "(then_do (hs_set (\<lambda>p. p\<lparr>ep_remote_whatami := in_whatami a\<rparr>))
               (then_do (hs_check_init (in_patch i) a) (open_rest random zl mode sock a))) (?p, n2) = Ok () (p', net')"
    by (auto simp: fail_def fault_def split: if_splits z_transport_body_t.splits)
  then obtain p1 n3 where c: "hs_check_init (in_patch i) a (?p\<lparr>ep_remote_whatami := in_whatami a\<rparr>, n2) = Ok () (p1, n3)"
    "open_rest random zl mode sock a (p1, n3) = Ok () (p', net')"
    unfolding then_do_def by (elim bind_ok_OkE) (auto simp: hs_set_def)
  have 1: "ep_seq_num_res p1 \<le> Z_SN_RESOLUTION" "ep_batch_size p1 \<le> Z_BATCH_UNICAST_SIZE" "ep_patch p1 \<le> Z_CURRENT_PATCH"
    using check_init_bounds [OF c(1)] i by simp_all
  show ?thesis using 1 open_rest_ok [OF c(2)] by simp
qed


text \<open>The listener does not keep the patch that was agreed on.\<close>

lemma handshake_listen_patch:
  assumes "z_unicast_handshake_listen zl zid mode sock (p, net) = Ok () (p', net')"
  shows "ep_patch p' = ep_patch p \<and> ep_lease p' \<le> Z_TRANSPORT_LEASE"
  using assms unfolding z_unicast_handshake_listen_def then_do_def Let_def
  by (auto elim!: bind_ok_OkE hs_netE simp: hs_set_def fault_def fail_def less_imp_le dest!: hs_shift_bounds
      split: z_transport_body_t.splits if_splits)

section \<open>A new transport\<close>

lemma create_ok:
  assumes "link_takes_all zl" "14 \<le> lk_mtu zl" "14 \<le> ep_batch_size param"
  shows "\<exists>ztu. z_unicast_transport_create zl param net = (Z_RES_OK, ztu) \<and> zu_peers ztu = [] \<and>
    batch_inv (unat (min (lk_mtu zl) (ep_batch_size param))) (zu_common ztu) [] \<and>
    tc_link (zu_common ztu) = zl \<and> tc_net (zu_common ztu) = net \<and> tc_sn_res (zu_common ztu) = z_sn_max (ep_seq_num_res param) \<and>
    (\<forall>r. sn_tx r (zu_common ztu) = ep_initial_sn_tx param) \<and> tc_batch_state (zu_common ztu) = Z_BATCHING_IDLE"
proof -
  let ?mtu = "min (lk_mtu zl) (ep_batch_size param)"
  have m: "14 \<le> unat ?mtu" using assms(2,3) by (simp add: word_le_nat_alt min_def)
  have l: "unat ?mtu < 2 ^ 64 - 1" using unsigned_less [of ?mtu, where 'a = nat] by simp
  have z: "z_zbuf_capacity (z_zbuf_make n) = n" for n by (simp add: z_zbuf_capacity_def z_zbuf_make_def z_iosli_make_def)
  have t: "\<exists>bs. tx_buf (unat ?mtu) bs (z_wbuf_make (unat ?mtu) False)" using tx_buf_make by blast
  have "fst (z_unicast_transport_create_inner zl param net) = Z_RES_OK"
    by (simp add: z_unicast_transport_create_inner_def if_less_min wbuf_make_capacity z Let_def)
  then show ?thesis using m l t assms(1)
    by (simp add: z_unicast_transport_create_def Let_def) (simp add: z_unicast_transport_create_inner_def if_less_min wbuf_make_capacity z Let_def
        batch_inv_def tx_ready_def sn_tx_def)
qed

text \<open>A new peer expects the number that was announced, on both channels, and has no fragments.\<close>

lemma peer_add_ok:
  assumes "tc_sn_res (zu_common ztu) = mask b" "1 < b" "b < 64" "ep_initial_sn_rx param AND mask b = ep_initial_sn_rx param"
  shows "\<exists>p. zu_peers (z_transport_peer_unicast_add param sock owns ztu) = p # zu_peers ztu \<and>
    (\<forall>c. idle c (pu_common p) \<and> next_sn (mask b) False (sn_rx c p) (ep_initial_sn_rx param))"
proof -
  have "z_sn_increment (mask b) (z_sn_decrement (mask b) (ep_initial_sn_rx param)) = ep_initial_sn_rx param"
    using sn_increment_decrement(2) [OF assms(3)] assms(4) by simp
  then have "next_sn (mask b) False (z_sn_decrement (mask b) (ep_initial_sn_rx param)) (ep_initial_sn_rx param)"
    using next_sn_increment [OF assms(2,3), of "z_sn_decrement (mask b) (ep_initial_sn_rx param)"] by simp
  then show ?thesis
    by (simp add: z_transport_peer_unicast_add_def Let_def idle_def dbuf_def dbuf_state_def sn_rx_def assms(1))
qed

section \<open>The lease\<close>

text \<open>What a step leaves of a part of the state, whatever its outcome.\<close>

definition preserves :: "('s \<Rightarrow> 'v) \<Rightarrow> ('a, 's) prog \<Rightarrow> bool" where
  "preserves f p \<longleftrightarrow> (\<forall>s. case p s of Ok _ s' \<Rightarrow> f s' = f s | Err _ s' \<Rightarrow> f s' = f s | Fault \<Rightarrow> True)"

lemma preserves_then: "preserves f p \<Longrightarrow> preserves f q \<Longrightarrow> preserves f (then_do p q)"
  and preserves_when: "preserves f p \<Longrightarrow> preserves f (when_do b p)"
  and preserves_ignore: "preserves f p \<Longrightarrow> preserves f (ignore_code p)"
  and preserves_set: "(\<And>s. f (g s) = f s) \<Longrightarrow> preserves f (\<lambda>s. Ok x (g s))"
  and preserves_ret: "preserves f (ret x)"
  by (auto simp: preserves_def then_do_def bind_ok_def when_do_def ret_def ignore_code_def split: res.splits)

lemma preserves_lease_on:
  "preserves tc_lease (on_wbuf p)" "preserves tc_lease (\<lambda>t. on_wbuf (p' t) t)"
  "preserves tc_lease (\<lambda>t. on_net (q t) t)" "preserves tc_lease (\<lambda>t. ignore_code (on_net (q t)) t)"
  by (auto simp: preserves_def on_wbuf_def on_net_def ignore_code_def split: res.splits)

lemma preserves_lease_peers: "preserves tc_lease (send_to_peers peers)"
  by (induction peers) (simp_all add: preserves_then preserves_ret preserves_lease_on)

lemma preserves_lease_flush: "preserves tc_lease (z_transport_tx_flush_buffer peers)"
  unfolding z_transport_tx_flush_buffer_def tx_send_wbuf_def
  by (cases "peers = []") (simp_all add: preserves_then preserves_lease_on preserves_lease_peers preserves_set)

lemma preserves_lease_send: "preserves tc_lease (z_transport_tx_send_t_msg m peers)"
proof -
  have "preserves tc_lease (then_do (when_do b (z_transport_tx_flush_buffer peers))
    (then_do (\<lambda>t. on_wbuf (unsafe_z_prepare_wbuf (lk_flow (tc_link t))) t)
    (then_do (on_wbuf (z_transport_message_encode m)) (z_transport_tx_flush_buffer peers))))" for b
    by (intro preserves_then preserves_when preserves_lease_on preserves_lease_flush)
  note all = this [unfolded preserves_def, THEN spec]
  show ?thesis unfolding preserves_def z_transport_tx_send_t_msg_def z_transport_tx_send_t_msg_inner_def
    by (intro allI) (rule all)
qed

lemma send_keeps:
  "on_unicast_common (z_transport_tx_send_t_msg m peers) ztu = Ok x ztu' \<Longrightarrow> tc_lease (zu_common ztu') = tc_lease (zu_common ztu) \<and> zu_peers ztu' = zu_peers ztu"
  "on_unicast_common (z_transport_tx_send_t_msg m peers) ztu = Err e ztu' \<Longrightarrow> tc_lease (zu_common ztu') = tc_lease (zu_common ztu) \<and> zu_peers ztu' = zu_peers ztu"
  using preserves_lease_send [of m peers] by (auto simp: on_unicast_common_def preserves_def split: res.splits dest: spec [of _ "zu_common ztu"])

definition same_lease :: "('n, 's, 'r) lease_task_t \<Rightarrow> ('n, 's, 'r) lease_task_t \<Rightarrow> bool" where
  "same_lease t t' \<longleftrightarrow> lease_ms (lt_ztu t') = lease_ms (lt_ztu t) \<and> keep_alive_ms (lt_ztu t') = keep_alive_ms (lt_ztu t)"

text \<open>After a check, a counter that had run out is full again.\<close>

lemma client_checks:
  "client_check_lease t = Ok () t' \<Longrightarrow> same_lease t t' \<and> lt_next_keep_alive t' = lt_next_keep_alive t \<and>
     lt_next_lease t' = (if lt_next_lease t \<le> 0 then lease_ms (lt_ztu t) else lt_next_lease t)"
  "client_check_keep_alive t = Ok () t' \<Longrightarrow> same_lease t t' \<and> lt_next_lease t' = lt_next_lease t \<and>
     lt_next_keep_alive t' = (if lt_next_keep_alive t \<le> 0 then keep_alive_ms (lt_ztu t) else lt_next_keep_alive t)"
  by (auto simp: client_check_lease_def client_check_keep_alive_def same_lease_def lease_ms_def keep_alive_ms_def reset_keep_alive_def
      zp_unicast_send_keep_alive_def dest!: send_keeps split: if_splits list.splits res.splits)

lemma peer_checks:
  "peer_check_lease report t = Ok () t' \<Longrightarrow> same_lease t t' \<and> lt_next_keep_alive t' = lt_next_keep_alive t \<and>
     lt_next_lease t' = (if lt_next_lease t \<le> 0 then lease_ms (lt_ztu t) else lt_next_lease t) \<and>
     zu_peers (lt_ztu t') = (if lt_next_lease t \<le> 0 then map (set_received False) (filter (\<lambda>p. pc_received (pu_common p)) (zu_peers (lt_ztu t)))
                             else zu_peers (lt_ztu t))"
  "peer_check_keep_alive t = Ok () t' \<Longrightarrow> same_lease t t' \<and> lt_next_lease t' = lt_next_lease t \<and>
     lt_next_keep_alive t' = (if lt_next_keep_alive t \<le> 0 then keep_alive_ms (lt_ztu t) else lt_next_keep_alive t) \<and>
     zu_peers (lt_ztu t') = zu_peers (lt_ztu t)"
  by (auto simp: peer_check_lease_def peer_check_keep_alive_def same_lease_def lease_ms_def keep_alive_ms_def reset_keep_alive_def
      zp_unicast_peer_is_expired_def Let_def dest!: send_keeps split: if_splits list.splits res.splits)

lemma lease_roundE:
  assumes "lease_round mode report timeouts t = Ok interval t'"
  obtains t1 t2 where
    "if mode = Z_WHATAMI_CLIENT then client_check_lease t = Ok () t1 \<and> client_check_keep_alive t1 = Ok () t2
     else peer_check_lease report t = Ok () t1 \<and> peer_check_keep_alive t1 = Ok () t2"
    "interval = lease_interval (lt_next_lease t2) (lt_next_keep_alive t2)"
    "lt_next_lease t' = lt_next_lease t2 - interval" "lt_next_keep_alive t' = lt_next_keep_alive t2 - interval"
    "zu_peers (lt_ztu t') = zu_peers (lt_ztu t2)" "same_lease t2 t'"
  using assms unfolding lease_round_def then_do_def Let_def
  by (cases "mode = Z_WHATAMI_CLIENT") (auto elim!: bind_ok_OkE simp: same_lease_def lease_ms_def keep_alive_ms_def)

lemma lease_round_timers:
  assumes "lease_round mode report timeouts t = Ok interval t'" "0 < lease_ms (lt_ztu t)" "0 < keep_alive_ms (lt_ztu t)"
    "lt_next_lease t \<le> lease_ms (lt_ztu t)" "lt_next_keep_alive t \<le> keep_alive_ms (lt_ztu t)"
  shows "0 < interval \<and> 0 \<le> lt_next_lease t' \<and> 0 \<le> lt_next_keep_alive t' \<and> (lt_next_lease t' = 0 \<or> lt_next_keep_alive t' = 0) \<and>
    lt_next_lease t' \<le> lease_ms (lt_ztu t') \<and> lt_next_keep_alive t' \<le> keep_alive_ms (lt_ztu t') \<and> same_lease t t'"
proof -
  obtain t1 t2 where r: "if mode = Z_WHATAMI_CLIENT then client_check_lease t = Ok () t1 \<and> client_check_keep_alive t1 = Ok () t2
     else peer_check_lease report t = Ok () t1 \<and> peer_check_keep_alive t1 = Ok () t2"
    "interval = lease_interval (lt_next_lease t2) (lt_next_keep_alive t2)"
    "lt_next_lease t' = lt_next_lease t2 - interval" "lt_next_keep_alive t' = lt_next_keep_alive t2 - interval" "same_lease t2 t'"
    using assms(1) by (rule lease_roundE)
  have "same_lease t t1 \<and> same_lease t1 t2 \<and> lt_next_lease t2 = (if lt_next_lease t \<le> 0 then lease_ms (lt_ztu t) else lt_next_lease t) \<and>
      lt_next_keep_alive t2 = (if lt_next_keep_alive t \<le> 0 then keep_alive_ms (lt_ztu t) else lt_next_keep_alive t)"
    using r(1) client_checks(1) [of t t1] client_checks(2) [of t1 t2] peer_checks(1) [of report t t1] peer_checks(2) [of t1 t2]
    by (auto simp: same_lease_def split: if_splits)
  then show ?thesis using assms(2-) r(2-5) by (auto simp: same_lease_def lease_interval_def split: if_splits)
qed

lemma peer_round_drops:
  assumes "lease_round mode report timeouts t = Ok interval t'" "mode \<noteq> Z_WHATAMI_CLIENT" "lt_next_lease t \<le> 0"
  shows "zu_peers (lt_ztu t') = map (set_received False) (filter (\<lambda>p. pc_received (pu_common p)) (zu_peers (lt_ztu t)))"
proof -
  obtain t1 t2 where "peer_check_lease report t = Ok () t1" "peer_check_keep_alive t1 = Ok () t2" "zu_peers (lt_ztu t') = zu_peers (lt_ztu t2)"
    using assms(1,2) by (auto elim: lease_roundE)
  then show ?thesis using peer_checks(1) [of report t t1] peer_checks(2) [of t1 t2] assms(3) by simp
qed

lemma client_round_gives_up:
  assumes "lt_next_lease t \<le> 0" "zu_peers (lt_ztu t) = p # ps" "\<not> pc_received (pu_common p)"
  shows "lease_round Z_WHATAMI_CLIENT report timeouts t = Err Z_LEASE_FAILED t"
  using assms by (simp add: lease_round_def then_do_def bind_ok_def client_check_lease_def)

end
