(* ===== verification/Zp_Keyexpr.thy ===== *)
theory Zp_Keyexpr imports Zp_Message "HOL-Library.Monad_Syntax"
begin

text \<open>
  Key expressions: \<^verbatim>\<open>src/session/keyexpr.c\<close> with the matcher of
  \<^verbatim>\<open>include/zenoh-pico/session/keyexpr_match_template.h\<close>, which the code includes twice, for
  intersection and for inclusion; here it has the flag as its first argument. A pointer into a
  string is its position in the bytes of the string; a pointer to a last character, which may lie
  before the string, is kept as the position after it. Reading or writing outside the bytes is
  \<open>None\<close>. The loops over chunks are partial functions, for which \<open>None\<close> also is no return.
\<close>

section \<open>Memory\<close>

definition rd :: "byte list \<Rightarrow> nat \<Rightarrow> byte option" where
  "rd m i = (if i < length m then Some (m ! i) else None)"

definition wr :: "byte list \<Rightarrow> nat \<Rightarrow> byte \<Rightarrow> byte list option" where
  "wr m i x = (if i < length m then Some (m[i := x]) else None)"

definition rd_range :: "byte list \<Rightarrow> nat \<Rightarrow> nat \<Rightarrow> byte list option" where
  "rd_range m i n = (if i + n \<le> length m then Some (take n (drop i m)) else None)"

text \<open>\<^verbatim>\<open>memchr\<close> from one position to another.\<close>

definition memchr :: "byte list \<Rightarrow> nat \<Rightarrow> nat \<Rightarrow> byte \<Rightarrow> nat option option" where
  "memchr m b e c =
     (if b \<le> e \<and> e \<le> length m
      then let n = length (takeWhile (\<lambda>x. x \<noteq> c) (take (e - b) (drop b m))) in Some (if b + n < e then Some (b + n) else None)
      else None)"

definition Z_VERBATIM :: byte where "Z_VERBATIM = 0x40"
definition Z_DELIMITER :: byte where "Z_DELIMITER = 0x2f"
definition Z_STAR :: byte where "Z_STAR = 0x2a"
definition Z_DSL0 :: byte where "Z_DSL0 = 0x24"
definition Z_DSL1 :: byte where "Z_DSL1 = 0x2a"
definition Z_DELIMITER_LEN :: nat where "Z_DELIMITER_LEN = 1"
definition Z_DSL_LEN :: nat where "Z_DSL_LEN = 2"
definition Z_DOUBLE_STAR_LEN :: nat where "Z_DOUBLE_STAR_LEN = 2"

section \<open>Chunks\<close>

datatype z_chunk_match_result_t =
    Z_CHUNK_MATCH_RESULT_NO
  | Z_CHUNK_MATCH_RESULT_YES
  | Z_CHUNK_MATCH_RESULT_LEFT_SUPERWILD
  | Z_CHUNK_MATCH_RESULT_RIGHT_SUPERWILD

record z_chunk_forward_match_data_t =
  cf_result :: z_chunk_match_result_t
  cf_lend :: nat
  cf_rend :: nat

record z_chunk_backward_match_data_t =
  cb_result :: z_chunk_match_result_t
  cb_lbegin :: nat
  cb_rbegin :: nat

text \<open>The zeroed structures.\<close>

definition forward_no :: z_chunk_forward_match_data_t where
  "forward_no = \<lparr>cf_result = Z_CHUNK_MATCH_RESULT_NO, cf_lend = 0, cf_rend = 0\<rparr>"

definition backward_no :: z_chunk_backward_match_data_t where
  "backward_no = \<lparr>cb_result = Z_CHUNK_MATCH_RESULT_NO, cb_lbegin = 0, cb_rbegin = 0\<rparr>"

definition z_chunk_end :: "byte list \<Rightarrow> nat \<Rightarrow> nat \<Rightarrow> nat option" where
  "z_chunk_end m begin_pos end_pos =
     do { sep \<leftarrow> memchr m begin_pos end_pos Z_DELIMITER; Some (case sep of Some s \<Rightarrow> s | None \<Rightarrow> end_pos) }"

fun z_chunk_begin :: "byte list \<Rightarrow> nat \<Rightarrow> nat \<Rightarrow> nat option" where
  "z_chunk_begin m begin_pos end_pos =
     (if begin_pos < end_pos
      then do { c \<leftarrow> rd m (end_pos - 1);
                if c \<noteq> Z_DELIMITER then z_chunk_begin m begin_pos (end_pos - 1) else Some end_pos }
      else Some end_pos)"

declare z_chunk_begin.simps [simp del]

definition z_keyexpr_is_double_star :: "byte list \<Rightarrow> nat \<Rightarrow> nat \<Rightarrow> bool option" where
  "z_keyexpr_is_double_star m begin_pos end_pos =
     (if end_pos = begin_pos + 2
      then do { a \<leftarrow> rd m begin_pos; b \<leftarrow> rd m (begin_pos + 1); Some (a = Z_STAR \<and> b = Z_STAR) }
      else Some False)"

definition z_chunk_contains_stardsl :: "byte list \<Rightarrow> nat \<Rightarrow> nat \<Rightarrow> bool option" where
  "z_chunk_contains_stardsl m begin_pos end_pos = do { p \<leftarrow> memchr m begin_pos end_pos Z_DSL0; Some (p \<noteq> None) }"

text \<open>The first place where the bytes occur in the right chunk, and the position after it.\<close>

function find_subchunk :: "byte list \<Rightarrow> byte list \<Rightarrow> nat \<Rightarrow> nat \<Rightarrow> nat option option" where
  "find_subchunk sub rm rbegin rend =
     (if rbegin + length sub \<le> rend
      then do { bs \<leftarrow> rd_range rm rbegin (length sub);
                if bs = sub then Some (Some (rbegin + length sub))
                else find_subchunk sub rm (rbegin + 1) rend }
      else Some None)"
  by pat_completeness auto
termination by (relation "measure (\<lambda>(sub, rm, rbegin, rend). Suc rend - rbegin)") auto

declare find_subchunk.simps [simp del]

function z_chunk_right_contains_all_stardsl_subchunks_of_left ::
    "byte list \<Rightarrow> nat \<Rightarrow> nat \<Rightarrow> byte list \<Rightarrow> nat \<Rightarrow> nat \<Rightarrow> bool option" where
  "z_chunk_right_contains_all_stardsl_subchunks_of_left lm lbegin lend rm rbegin rend =
     do { next_dsl \<leftarrow> memchr lm lbegin lend Z_DSL0;
          let clen = (case next_dsl of Some n \<Rightarrow> n - lbegin | None \<Rightarrow> lend - lbegin) in
          do { sub \<leftarrow> rd_range lm lbegin clen;
               matched \<leftarrow> find_subchunk sub rm rbegin rend;
               case matched of
                 None \<Rightarrow> Some False
               | Some rbegin \<Rightarrow>
                   (if next_dsl \<noteq> None
                    then z_chunk_right_contains_all_stardsl_subchunks_of_left lm (lbegin + (clen + Z_DSL_LEN)) lend rm rbegin rend
                    else Some True) } }"
  by pat_completeness auto
termination
  by (relation "measure (\<lambda>(lm, lbegin, lend, rm, rbegin, rend). lend - lbegin)")
    (auto simp: memchr_def Z_DSL_LEN_def Let_def split: if_splits)

declare z_chunk_right_contains_all_stardsl_subchunks_of_left.simps [simp del]

definition z_chunk_is_stardsl :: "byte list \<Rightarrow> nat \<Rightarrow> nat \<Rightarrow> bool option" where
  "z_chunk_is_stardsl m begin_pos kend =
     do { a \<leftarrow> rd m begin_pos;
          if a \<noteq> Z_DSL0 then Some False
          else if begin_pos + Z_DSL_LEN = kend then Some True
          else do { b \<leftarrow> rd m (begin_pos + 2); Some (b = Z_DELIMITER) } }"

text \<open>\<open>after\<close> is the position after the last character.\<close>

definition z_chunk_is_stardsl_backward :: "byte list \<Rightarrow> nat \<Rightarrow> nat \<Rightarrow> bool option" where
  "z_chunk_is_stardsl_backward m kbegin after =
     (if after = 0 then None
      else do { a \<leftarrow> rd m (after - 1);
                if a \<noteq> Z_DSL1 then Some False
                else if after = kbegin + 2 then Some True
                else if kbegin + 2 < after then do { b \<leftarrow> rd m (after - 3); Some (b = Z_DELIMITER) }
                else Some False })"

function z_keyexpr_get_next_double_star_chunk :: "byte list \<Rightarrow> nat \<Rightarrow> nat \<Rightarrow> nat option option" where
  "z_keyexpr_get_next_double_star_chunk m begin_pos end_pos =
     (if begin_pos + 1 < end_pos
      then do { c \<leftarrow> memchr m begin_pos (end_pos - 1) Z_STAR;
                case c of
                  None \<Rightarrow> Some None
                | Some c \<Rightarrow> do { x \<leftarrow> rd m (c + 1);
                                if x = Z_STAR then Some (Some c)
                                else z_keyexpr_get_next_double_star_chunk m (c + Z_DOUBLE_STAR_LEN) end_pos } }
      else Some None)"
  by pat_completeness auto
termination
  by (relation "measure (\<lambda>(m, begin_pos, end_pos). end_pos - begin_pos)")
    (auto simp: memchr_def Z_DOUBLE_STAR_LEN_def Let_def split: if_splits)

declare z_keyexpr_get_next_double_star_chunk.simps [simp del]

definition z_keyexpr_get_next_verbatim_chunk :: "byte list \<Rightarrow> nat \<Rightarrow> nat \<Rightarrow> nat option option" where
  "z_keyexpr_get_next_verbatim_chunk m begin_pos end_pos = memchr m begin_pos end_pos Z_VERBATIM"


section \<open>Matching chunks\<close>

definition z_chunk_special :: "bool \<Rightarrow> byte list \<Rightarrow> nat \<Rightarrow> nat \<Rightarrow> byte list \<Rightarrow> nat \<Rightarrow> nat \<Rightarrow> bool option" where
  "z_chunk_special intersects lm lbegin lend rm rbegin rend =
     do { dsl \<leftarrow> (if intersects then z_chunk_contains_stardsl rm rbegin rend else Some False);
          if dsl then Some True
          else z_chunk_right_contains_all_stardsl_subchunks_of_left lm lbegin lend rm rbegin rend }"

text \<open>The loop of \<^verbatim>\<open>_z_chunk_forward_backward\<close>, from the ends of both chunks.\<close>

fun chunk_forward_backward_loop ::
    "bool \<Rightarrow> byte list \<Rightarrow> nat \<Rightarrow> nat \<Rightarrow> byte list \<Rightarrow> nat \<Rightarrow> nat \<Rightarrow> bool option" where
  "chunk_forward_backward_loop intersects lm lbegin lend rm rbegin rend =
     (if lbegin < lend \<and> rbegin < rend
      then do { l \<leftarrow> rd lm (lend - 1); r \<leftarrow> rd rm (rend - 1);
                if intersects \<and> r = Z_DSL1 then Some True
                else if l = Z_DSL1
                then (if lend < Z_DSL_LEN then None
                      else z_chunk_special intersects lm lbegin (lend - Z_DSL_LEN) rm rbegin rend)
                else if l \<noteq> r then Some False
                else chunk_forward_backward_loop intersects lm lbegin (lend - 1) rm rbegin (rend - 1) }
      else Some (lbegin = lend))"

declare chunk_forward_backward_loop.simps [simp del]

definition yes_if :: "bool \<Rightarrow> z_chunk_match_result_t" where
  "yes_if b = (if b then Z_CHUNK_MATCH_RESULT_YES else Z_CHUNK_MATCH_RESULT_NO)"

definition z_chunk_forward_backward ::
    "bool \<Rightarrow> byte list \<Rightarrow> nat \<Rightarrow> nat \<Rightarrow> byte list \<Rightarrow> nat \<Rightarrow> nat \<Rightarrow> z_chunk_forward_match_data_t option" where
  "z_chunk_forward_backward intersects lm lbegin lkend rm rbegin rkend =
     do { lend \<leftarrow> z_chunk_end lm lbegin lkend; rend \<leftarrow> z_chunk_end rm rbegin rkend;
          b \<leftarrow> chunk_forward_backward_loop intersects lm lbegin lend rm rbegin rend;
          Some \<lparr>cf_result = yes_if b, cf_lend = lend, cf_rend = rend\<rparr> }"

text \<open>What follows the loop of \<^verbatim>\<open>_z_chunk_forward\<close>.\<close>

definition forward_exhausted :: "byte list \<Rightarrow> nat \<Rightarrow> nat \<Rightarrow> bool option" where
  "forward_exhausted m p kend = (if p = kend then Some True else do { c \<leftarrow> rd m p; Some (c = Z_DELIMITER) })"

definition chunk_forward_finish ::
    "bool \<Rightarrow> byte list \<Rightarrow> nat \<Rightarrow> nat \<Rightarrow> byte list \<Rightarrow> nat \<Rightarrow> nat \<Rightarrow> z_chunk_forward_match_data_t option" where
  "chunk_forward_finish intersects lm lbegin lkend rm rbegin rkend =
     do { left_exhausted \<leftarrow> forward_exhausted lm lbegin lkend; right_exhausted \<leftarrow> forward_exhausted rm rbegin rkend;
          right_dsl \<leftarrow> (if \<not> (left_exhausted \<and> right_exhausted) \<and> intersects \<and> left_exhausted
                       then z_chunk_is_stardsl rm rbegin rkend else Some False);
          left_dsl \<leftarrow> (if \<not> (left_exhausted \<and> right_exhausted) \<and> \<not> right_dsl \<and> right_exhausted
                      then z_chunk_is_stardsl lm lbegin lkend else Some False);
          Some (if left_exhausted \<and> right_exhausted
                then \<lparr>cf_result = Z_CHUNK_MATCH_RESULT_YES, cf_lend = lbegin, cf_rend = rbegin\<rparr>
                else if right_dsl then \<lparr>cf_result = Z_CHUNK_MATCH_RESULT_YES, cf_lend = lbegin, cf_rend = rbegin + Z_DSL_LEN\<rparr>
                else if left_dsl then \<lparr>cf_result = Z_CHUNK_MATCH_RESULT_YES, cf_lend = lbegin + Z_DSL_LEN, cf_rend = rbegin\<rparr>
                else forward_no) }"

definition forward_swap :: "z_chunk_forward_match_data_t \<Rightarrow> z_chunk_forward_match_data_t" where
  "forward_swap d = \<lparr>cf_result = cf_result d, cf_lend = cf_rend d, cf_rend = cf_lend d\<rparr>"

function chunk_forward_loop ::
    "bool \<Rightarrow> byte list \<Rightarrow> nat \<Rightarrow> nat \<Rightarrow> byte list \<Rightarrow> nat \<Rightarrow> nat \<Rightarrow> z_chunk_forward_match_data_t option" where
  "chunk_forward_loop intersects lm lbegin lkend rm rbegin rkend =
     (if lbegin < lkend \<and> rbegin < rkend
      then do { l \<leftarrow> rd lm lbegin; r \<leftarrow> rd rm rbegin;
                if l = Z_DELIMITER \<or> r = Z_DELIMITER
                then chunk_forward_finish intersects lm lbegin lkend rm rbegin rkend
                else if l = Z_DSL0 then z_chunk_forward_backward intersects lm (lbegin + Z_DSL_LEN) lkend rm rbegin rkend
                else if intersects \<and> r = Z_DSL0
                then map_option forward_swap (z_chunk_forward_backward intersects rm (rbegin + Z_DSL_LEN) rkend lm lbegin lkend)
                else if l \<noteq> r then Some forward_no
                else chunk_forward_loop intersects lm (lbegin + 1) lkend rm (rbegin + 1) rkend }
      else chunk_forward_finish intersects lm lbegin lkend rm rbegin rkend)"
  by pat_completeness auto
termination by (relation "measure (\<lambda>(i, lm, lbegin, lkend, rm, rbegin, rkend). lkend - lbegin)") auto

declare chunk_forward_loop.simps [simp del]

definition forward_superwild :: "byte list \<Rightarrow> nat \<Rightarrow> nat \<Rightarrow> bool \<Rightarrow> bool option" where
  "forward_superwild m begin_pos kend wild =
     (if wild \<and> begin_pos + 2 \<le> kend then do { c \<leftarrow> rd m (begin_pos + 1); Some (c = Z_STAR) } else Some False)"

definition z_chunk_forward ::
    "bool \<Rightarrow> byte list \<Rightarrow> nat \<Rightarrow> nat \<Rightarrow> byte list \<Rightarrow> nat \<Rightarrow> nat \<Rightarrow> z_chunk_forward_match_data_t option" where
  "z_chunk_forward intersects lm lbegin lkend rm rbegin rkend =
     do { l \<leftarrow> rd lm lbegin; r \<leftarrow> rd rm rbegin;
          left_is_superwild \<leftarrow> forward_superwild lm lbegin lkend (l = Z_STAR);
          right_is_superwild \<leftarrow> forward_superwild rm rbegin rkend (r = Z_STAR);
          if left_is_superwild then Some (forward_no\<lparr>cf_result := Z_CHUNK_MATCH_RESULT_LEFT_SUPERWILD\<rparr>)
          else if right_is_superwild
          then Some (if \<not> intersects then forward_no else forward_no\<lparr>cf_result := Z_CHUNK_MATCH_RESULT_RIGHT_SUPERWILD\<rparr>)
          else if (l = Z_VERBATIM) \<noteq> (r = Z_VERBATIM) then Some forward_no
          else if l = Z_STAR
          then do { e \<leftarrow> z_chunk_end rm rbegin rkend;
                    Some \<lparr>cf_result = Z_CHUNK_MATCH_RESULT_YES, cf_lend = lbegin + 1, cf_rend = e\<rparr> }
          else if r = Z_STAR
          then (if \<not> intersects then Some forward_no
                else do { e \<leftarrow> z_chunk_end lm lbegin lkend;
                          Some \<lparr>cf_result = Z_CHUNK_MATCH_RESULT_YES, cf_lend = e, cf_rend = rbegin + 1\<rparr> })
          else chunk_forward_loop intersects lm lbegin lkend rm rbegin rkend }"


text \<open>Backwards: the loop of \<^verbatim>\<open>_z_chunk_backward_forward\<close>, from the beginnings of both chunks.\<close>

function chunk_backward_forward_loop ::
    "bool \<Rightarrow> byte list \<Rightarrow> nat \<Rightarrow> nat \<Rightarrow> byte list \<Rightarrow> nat \<Rightarrow> nat \<Rightarrow> bool option" where
  "chunk_backward_forward_loop intersects lm lbegin lend rm rbegin rend =
     (if lbegin < lend \<and> rbegin < rend
      then do { l \<leftarrow> rd lm lbegin; r \<leftarrow> rd rm rbegin;
                if intersects \<and> r = Z_DSL0 then Some True
                else if l = Z_DSL0 then z_chunk_special intersects lm (lbegin + 2) lend rm rbegin rend
                else if l \<noteq> r then Some False
                else chunk_backward_forward_loop intersects lm (lbegin + 1) lend rm (rbegin + 1) rend }
      else Some (lbegin = lend))"
  by pat_completeness auto
termination by (relation "measure (\<lambda>(i, lm, lbegin, lend, rm, rbegin, rend). lend - lbegin)") auto

declare chunk_backward_forward_loop.simps [simp del]

definition z_chunk_backward_forward ::
    "bool \<Rightarrow> byte list \<Rightarrow> nat \<Rightarrow> nat \<Rightarrow> byte list \<Rightarrow> nat \<Rightarrow> nat \<Rightarrow> z_chunk_backward_match_data_t option" where
  "z_chunk_backward_forward intersects lm lkbegin lend rm rkbegin rend =
     do { lbegin \<leftarrow> z_chunk_begin lm lkbegin lend; rbegin \<leftarrow> z_chunk_begin rm rkbegin rend;
          l \<leftarrow> rd lm lbegin; r \<leftarrow> rd rm rbegin;
          if (l = Z_VERBATIM) \<noteq> (r = Z_VERBATIM) then Some backward_no
          else do { b \<leftarrow> chunk_backward_forward_loop intersects lm lbegin lend rm rbegin rend;
                    Some \<lparr>cb_result = yes_if b, cb_lbegin = lbegin, cb_rbegin = rbegin\<rparr> } }"

definition backward_swap :: "z_chunk_backward_match_data_t \<Rightarrow> z_chunk_backward_match_data_t" where
  "backward_swap d = \<lparr>cb_result = cb_result d, cb_lbegin = cb_rbegin d, cb_rbegin = cb_lbegin d\<rparr>"

text \<open>From here on \<open>llast\<close> and \<open>rlast\<close> are the positions after the pointers of these names.\<close>

definition backward_exhausted :: "byte list \<Rightarrow> nat \<Rightarrow> nat \<Rightarrow> bool option" where
  "backward_exhausted m kbegin last_pos =
     (if kbegin = last_pos then Some True else if last_pos = 0 then None
      else do { c \<leftarrow> rd m (last_pos - 1); Some (c = Z_DELIMITER) })"

definition chunk_backward_finish ::
    "bool \<Rightarrow> byte list \<Rightarrow> nat \<Rightarrow> nat \<Rightarrow> byte list \<Rightarrow> nat \<Rightarrow> nat \<Rightarrow> z_chunk_backward_match_data_t option" where
  "chunk_backward_finish intersects lm lkbegin llast rm rkbegin rlast =
     do { left_exhausted \<leftarrow> backward_exhausted lm lkbegin llast; right_exhausted \<leftarrow> backward_exhausted rm rkbegin rlast;
          right_dsl \<leftarrow> (if \<not> (left_exhausted \<and> right_exhausted) \<and> intersects \<and> left_exhausted
                       then z_chunk_is_stardsl_backward rm rkbegin rlast else Some False);
          left_dsl \<leftarrow> (if \<not> (left_exhausted \<and> right_exhausted) \<and> \<not> right_dsl \<and> right_exhausted
                      then z_chunk_is_stardsl_backward lm lkbegin llast else Some False);
          Some (if left_exhausted \<and> right_exhausted
                then \<lparr>cb_result = Z_CHUNK_MATCH_RESULT_YES, cb_lbegin = llast, cb_rbegin = rlast\<rparr>
                else if right_dsl then \<lparr>cb_result = Z_CHUNK_MATCH_RESULT_YES, cb_lbegin = llast, cb_rbegin = rlast - Z_DSL_LEN\<rparr>
                else if left_dsl then \<lparr>cb_result = Z_CHUNK_MATCH_RESULT_YES, cb_lbegin = llast - Z_DSL_LEN, cb_rbegin = rlast\<rparr>
                else backward_no) }"

fun chunk_backward_loop ::
    "bool \<Rightarrow> byte list \<Rightarrow> nat \<Rightarrow> nat \<Rightarrow> byte list \<Rightarrow> nat \<Rightarrow> nat \<Rightarrow> z_chunk_backward_match_data_t option" where
  "chunk_backward_loop intersects lm lkbegin llast rm rkbegin rlast =
     (if lkbegin < llast \<and> rkbegin < rlast
      then do { l \<leftarrow> rd lm (llast - 1); r \<leftarrow> rd rm (rlast - 1);
                if l = Z_DELIMITER \<or> r = Z_DELIMITER
                then chunk_backward_finish intersects lm lkbegin llast rm rkbegin rlast
                else if l = Z_DSL1
                then (if llast < Z_DSL_LEN then None
                      else z_chunk_backward_forward intersects lm lkbegin (llast - Z_DSL_LEN) rm rkbegin rlast)
                else if intersects \<and> r = Z_DSL1
                then (if rlast < Z_DSL_LEN then None
                      else map_option backward_swap (z_chunk_backward_forward intersects rm rkbegin (rlast - Z_DSL_LEN) lm lkbegin llast))
                else if l \<noteq> r then Some backward_no
                else chunk_backward_loop intersects lm lkbegin (llast - 1) rm rkbegin (rlast - 1) }
      else chunk_backward_finish intersects lm lkbegin llast rm rkbegin rlast)"

declare chunk_backward_loop.simps [simp del]

definition backward_superwild :: "byte list \<Rightarrow> nat \<Rightarrow> nat \<Rightarrow> bool \<Rightarrow> bool option" where
  "backward_superwild m kbegin end_pos wild =
     (if wild \<and> kbegin + 2 \<le> end_pos then do { c \<leftarrow> rd m (end_pos - 2); Some (c = Z_STAR) } else Some False)"

definition backward_wild :: "byte list \<Rightarrow> nat \<Rightarrow> nat \<Rightarrow> bool \<Rightarrow> bool option" where
  "backward_wild m kbegin end_pos wild =
     (if \<not> wild then Some False else if kbegin + 1 = end_pos then Some True else if end_pos < 2 then None
      else do { c \<leftarrow> rd m (end_pos - 2); Some (c = Z_DELIMITER) })"

definition z_chunk_backward ::
    "bool \<Rightarrow> byte list \<Rightarrow> nat \<Rightarrow> nat \<Rightarrow> byte list \<Rightarrow> nat \<Rightarrow> nat \<Rightarrow> z_chunk_backward_match_data_t option" where
  "z_chunk_backward intersects lm lkbegin lend rm rkbegin rend =
     (if lend = 0 \<or> rend = 0 then None
      else do { l \<leftarrow> rd lm (lend - 1); r \<leftarrow> rd rm (rend - 1);
          left_is_superwild \<leftarrow> backward_superwild lm lkbegin lend (l = Z_STAR);
          right_is_superwild \<leftarrow> backward_superwild rm rkbegin rend (r = Z_STAR);
          if left_is_superwild then Some (backward_no\<lparr>cb_result := Z_CHUNK_MATCH_RESULT_LEFT_SUPERWILD\<rparr>)
          else if right_is_superwild
          then Some (if \<not> intersects then backward_no else backward_no\<lparr>cb_result := Z_CHUNK_MATCH_RESULT_RIGHT_SUPERWILD\<rparr>)
          else do {
            left_is_wild \<leftarrow> backward_wild lm lkbegin lend (l = Z_STAR);
            right_is_wild \<leftarrow> backward_wild rm rkbegin rend (r = Z_STAR);
            if left_is_wild
            then do { b \<leftarrow> z_chunk_begin rm rkbegin rend; c \<leftarrow> rd rm b;
                      Some \<lparr>cb_result = yes_if (c \<noteq> Z_VERBATIM), cb_lbegin = lend - 1, cb_rbegin = b\<rparr> }
            else if right_is_wild
            then (if \<not> intersects then Some backward_no
                  else do { b \<leftarrow> z_chunk_begin lm lkbegin lend; c \<leftarrow> rd lm b;
                            Some \<lparr>cb_result = yes_if (c \<noteq> Z_VERBATIM), cb_lbegin = b, cb_rbegin = rend - 1\<rparr> })
            else chunk_backward_loop intersects lm lkbegin lend rm rkbegin rend } })"

section \<open>Matching key expressions\<close>

text \<open>
  Both loops of \<^verbatim>\<open>_z_keyexpr_special\<close> in one: \<open>lcend\<close> is absent where the outer loop begins.
  Here \<open>None\<close> is no return, and \<open>Some None\<close> an access outside the strings.
\<close>

partial_function (option) keyexpr_special_loop ::
    "bool \<Rightarrow> byte list \<Rightarrow> nat \<Rightarrow> nat \<Rightarrow> nat option \<Rightarrow> nat \<Rightarrow> byte list \<Rightarrow> nat \<Rightarrow> nat \<Rightarrow> nat \<Rightarrow> bool option option" where
  "keyexpr_special_loop intersects lm lbegin lend inner lcbegin rm rbegin rend rcbegin =
     (case inner of
        None \<Rightarrow>
          (if lbegin < lend
           then (case z_keyexpr_get_next_double_star_chunk lm lbegin lend of
                   None \<Rightarrow> Some None
                 | Some next \<Rightarrow>
                     (case next of
                        None \<Rightarrow> keyexpr_special_loop intersects lm lbegin lend (Some lend) lbegin rm rbegin rend rbegin
                      | Some c \<Rightarrow> (if c < Z_DELIMITER_LEN then Some None
                                 else keyexpr_special_loop intersects lm lbegin lend (Some (c - Z_DELIMITER_LEN)) lbegin rm rbegin rend rbegin)))
           else Some (Some True))
      | Some lcend \<Rightarrow>
          (if lcbegin < lcend
           then (if rend \<le> rcbegin then Some (Some False)
                 else case z_chunk_forward intersects lm lcbegin lcend rm rcbegin rend of
                        None \<Rightarrow> Some None
                      | Some res \<Rightarrow>
                          (if cf_result res = Z_CHUNK_MATCH_RESULT_YES
                           then keyexpr_special_loop intersects lm lbegin lend (Some lcend) (cf_lend res + Z_DELIMITER_LEN)
                                  rm rbegin rend (cf_rend res + Z_DELIMITER_LEN)
                           else case z_chunk_end rm rbegin rend of
                                  None \<Rightarrow> Some None
                                | Some e \<Rightarrow> keyexpr_special_loop intersects lm lbegin lend (Some lcend) lbegin
                                            rm (e + Z_DELIMITER_LEN) rend (e + Z_DELIMITER_LEN)))
           else keyexpr_special_loop intersects lm lcbegin lend None lcbegin rm rcbegin rend rcbegin))"

declare keyexpr_special_loop.simps [code]

definition z_keyexpr_special :: "bool \<Rightarrow> byte list \<Rightarrow> nat \<Rightarrow> nat \<Rightarrow> byte list \<Rightarrow> nat \<Rightarrow> nat \<Rightarrow> bool option" where
  "z_keyexpr_special intersects lm lbegin lend rm rbegin rend =
     do { wild \<leftarrow> (if intersects then z_keyexpr_get_next_double_star_chunk rm rbegin rend else Some None);
          if wild \<noteq> None then Some True
          else case keyexpr_special_loop intersects lm lbegin lend None lbegin rm rbegin rend rbegin of
                 None \<Rightarrow> None | Some r \<Rightarrow> r }"

text \<open>What \<^verbatim>\<open>_z_keyexpr_forward\<close>, \<^verbatim>\<open>_z_keyexpr_backward\<close> and \<^verbatim>\<open>_z_keyexpr_parts\<close> return after their loops.\<close>

definition keyexpr_finish :: "bool \<Rightarrow> byte list \<Rightarrow> nat \<Rightarrow> nat \<Rightarrow> byte list \<Rightarrow> nat \<Rightarrow> nat \<Rightarrow> bool option" where
  "keyexpr_finish intersects lm lbegin lend rm rbegin rend =
     do { l \<leftarrow> (if lend \<le> lbegin then Some True else z_keyexpr_is_double_star lm lbegin lend);
          if \<not> l then Some False
          else if rend \<le> rbegin then Some True
          else if intersects then z_keyexpr_is_double_star rm rbegin rend else Some False }"

text \<open>
  The functions call each other, but \<^verbatim>\<open>_z_keyexpr_parts\<close> calls only with \<^verbatim>\<open>can_have_verbatim\<close>
  false, where it is not called again: it is an argument of the loops, used when the flag is true.
\<close>

type_synonym ke_matcher = "byte list \<Rightarrow> nat \<Rightarrow> nat \<Rightarrow> byte list \<Rightarrow> nat \<Rightarrow> nat \<Rightarrow> bool option"

partial_function (option) keyexpr_backward_loop ::
    "ke_matcher \<Rightarrow> bool \<Rightarrow> bool \<Rightarrow> byte list \<Rightarrow> nat \<Rightarrow> nat \<Rightarrow> byte list \<Rightarrow> nat \<Rightarrow> nat \<Rightarrow> bool option" where
  "keyexpr_backward_loop parts intersects can_have_verbatim lm lbegin lend rm rbegin rend =
     (if lbegin < lend \<and> rbegin < rend
      then do { res \<leftarrow> z_chunk_backward intersects lm lbegin lend rm rbegin rend;
        if cb_result res = Z_CHUNK_MATCH_RESULT_NO \<or> \<not> intersects \<and> cb_result res = Z_CHUNK_MATCH_RESULT_RIGHT_SUPERWILD
        then Some False
        else if cb_result res = Z_CHUNK_MATCH_RESULT_YES
        then (let left_exhausted = (lbegin = cb_lbegin res); right_exhausted = (rbegin = cb_rbegin res) in
              if left_exhausted \<and> right_exhausted then Some True
              else if left_exhausted
              then (if \<not> can_have_verbatim then Some True
                    else do { v \<leftarrow> z_keyexpr_get_next_verbatim_chunk rm rbegin (cb_rbegin res - Z_DELIMITER_LEN); Some (v = None) })
              else if right_exhausted then Some False
              else keyexpr_backward_loop parts intersects can_have_verbatim lm lbegin (cb_lbegin res - Z_DELIMITER_LEN)
                     rm rbegin (cb_rbegin res - Z_DELIMITER_LEN))
        else if can_have_verbatim
        then (if lbegin < Z_DOUBLE_STAR_LEN + Z_DELIMITER_LEN then None
              else parts lm (lbegin - (Z_DOUBLE_STAR_LEN + Z_DELIMITER_LEN)) lend rm rbegin rend)
        else if cb_result res = Z_CHUNK_MATCH_RESULT_LEFT_SUPERWILD
        then (if lend < Z_DOUBLE_STAR_LEN + Z_DELIMITER_LEN then None
              else z_keyexpr_special intersects lm lbegin (lend - (Z_DOUBLE_STAR_LEN + Z_DELIMITER_LEN)) rm rbegin rend)
        else Some True }
      else keyexpr_finish intersects lm lbegin lend rm rbegin rend)"

declare keyexpr_backward_loop.simps [code]

partial_function (option) keyexpr_forward_loop ::
    "ke_matcher \<Rightarrow> bool \<Rightarrow> bool \<Rightarrow> byte list \<Rightarrow> nat \<Rightarrow> nat \<Rightarrow> byte list \<Rightarrow> nat \<Rightarrow> nat \<Rightarrow> bool option" where
  "keyexpr_forward_loop parts intersects can_have_verbatim lm lbegin lend rm rbegin rend =
     (if lbegin < lend \<and> rbegin < rend
      then do { res \<leftarrow> z_chunk_forward intersects lm lbegin lend rm rbegin rend;
        if cf_result res = Z_CHUNK_MATCH_RESULT_YES
        then keyexpr_forward_loop parts intersects can_have_verbatim lm (cf_lend res + Z_DELIMITER_LEN) lend
               rm (cf_rend res + Z_DELIMITER_LEN) rend
        else if cf_result res = Z_CHUNK_MATCH_RESULT_LEFT_SUPERWILD
        then (if lbegin + Z_DOUBLE_STAR_LEN = lend
              then do { v \<leftarrow> z_keyexpr_get_next_verbatim_chunk rm rbegin rend; Some (v = None) }
              else keyexpr_backward_loop parts intersects can_have_verbatim lm
                     (lbegin + (Z_DOUBLE_STAR_LEN + Z_DELIMITER_LEN)) lend rm rbegin rend)
        else if intersects \<and> cf_result res = Z_CHUNK_MATCH_RESULT_RIGHT_SUPERWILD
        then (if rbegin + Z_DOUBLE_STAR_LEN = rend
              then do { v \<leftarrow> z_keyexpr_get_next_verbatim_chunk lm lbegin lend; Some (v = None) }
              else keyexpr_backward_loop parts intersects can_have_verbatim rm
                     (rbegin + (Z_DOUBLE_STAR_LEN + Z_DELIMITER_LEN)) rend lm lbegin lend)
        else Some False }
      else keyexpr_finish intersects lm lbegin lend rm rbegin rend)"

declare keyexpr_forward_loop.simps [code]

definition no_parts :: ke_matcher where
  "no_parts lm lbegin lend rm rbegin rend = None"

partial_function (option) z_keyexpr_parts :: "bool \<Rightarrow> ke_matcher" where
  "z_keyexpr_parts intersects lm lbegin lend rm rbegin rend =
     (if lbegin < lend \<and> rbegin < rend
      then do { lverbatim \<leftarrow> z_keyexpr_get_next_verbatim_chunk lm lbegin lend;
                rverbatim \<leftarrow> z_keyexpr_get_next_verbatim_chunk rm rbegin rend;
        case (lverbatim, rverbatim) of
          (None, None) \<Rightarrow> keyexpr_forward_loop no_parts intersects False lm lbegin lend rm rbegin rend
        | (Some lv, Some rv) \<Rightarrow>
            do { ok \<leftarrow> keyexpr_forward_loop no_parts intersects False lm lbegin (if lv = lbegin then lbegin else lv - Z_DELIMITER_LEN)
                         rm rbegin (if rv = rbegin then rbegin else rv - Z_DELIMITER_LEN);
                 if \<not> ok then Some False
                 else do { res \<leftarrow> z_chunk_forward intersects lm lv lend rm rv rend;
                   if cf_result res \<noteq> Z_CHUNK_MATCH_RESULT_YES then Some False
                   else z_keyexpr_parts intersects lm (cf_lend res + Z_DELIMITER_LEN) lend rm (cf_rend res + Z_DELIMITER_LEN) rend } }
        | _ \<Rightarrow> Some False }
      else keyexpr_finish intersects lm lbegin lend rm rbegin rend)"

declare z_keyexpr_parts.simps [code]

definition z_keyexpr_backward :: "bool \<Rightarrow> bool \<Rightarrow> ke_matcher" where
  "z_keyexpr_backward intersects can_have_verbatim =
     keyexpr_backward_loop (z_keyexpr_parts intersects) intersects can_have_verbatim"

definition z_keyexpr_forward :: "bool \<Rightarrow> bool \<Rightarrow> ke_matcher" where
  "z_keyexpr_forward intersects can_have_verbatim =
     keyexpr_forward_loop (z_keyexpr_parts intersects) intersects can_have_verbatim"

text \<open>The fast path compares with \<^verbatim>\<open>strncmp\<close>, which stops at a null character.\<close>

definition same_str :: "z_string_t \<Rightarrow> z_string_t \<Rightarrow> bool" where
  "same_str left right \<longleftrightarrow> length left = length right \<and> takeWhile (\<lambda>c. c \<noteq> 0) left = takeWhile (\<lambda>c. c \<noteq> 0) right"

definition z_keyexpr_intersects :: "z_string_t \<Rightarrow> z_string_t \<Rightarrow> bool option" where
  "z_keyexpr_intersects left right =
     (if same_str left right then Some True else z_keyexpr_forward True True left 0 (length left) right 0 (length right))"

definition z_keyexpr_includes :: "z_string_t \<Rightarrow> z_string_t \<Rightarrow> bool option" where
  "z_keyexpr_includes left right =
     (if same_str left right then Some True else z_keyexpr_forward False True left 0 (length left) right 0 (length right))"

end
