(* ===== verification/Zp_KeCanon.thy ===== *)
theory Zp_KeCanon imports Zp_Keyexpr
begin

text \<open>
  The canonical form of key expressions, and the expressions that have been declared, in
  \<^verbatim>\<open>src/session/keyexpr.c\<close>. A string is rewritten in place: the functions work on the bytes of the
  buffer it is in, of which the string is the first part, and a read or write outside the buffer,
  or a failed \<^verbatim>\<open>assert\<close>, is \<open>None\<close>.
\<close>

section \<open>Checking\<close>

datatype zp_keyexpr_canon_status_t =
    Z_KEYEXPR_CANON_SUCCESS
  | Z_KEYEXPR_CANON_LONE_DOLLAR_STAR
  | Z_KEYEXPR_CANON_SINGLE_STAR_AFTER_DOUBLE_STAR
  | Z_KEYEXPR_CANON_DOUBLE_STAR_AFTER_DOUBLE_STAR
  | Z_KEYEXPR_CANON_EMPTY_CHUNK
  | Z_KEYEXPR_CANON_STARS_IN_CHUNK
  | Z_KEYEXPR_CANON_DOLLAR_AFTER_DOLLAR_OR_STAR
  | Z_KEYEXPR_CANON_CONTAINS_SHARP_OR_QMARK
  | Z_KEYEXPR_CANON_CONTAINS_UNBOUND_DOLLAR

fun canon_code :: "zp_keyexpr_canon_status_t \<Rightarrow> z_result_t" where
  "canon_code Z_KEYEXPR_CANON_SUCCESS = 0"
| "canon_code Z_KEYEXPR_CANON_LONE_DOLLAR_STAR = - 1"
| "canon_code Z_KEYEXPR_CANON_SINGLE_STAR_AFTER_DOUBLE_STAR = - 2"
| "canon_code Z_KEYEXPR_CANON_DOUBLE_STAR_AFTER_DOUBLE_STAR = - 3"
| "canon_code Z_KEYEXPR_CANON_EMPTY_CHUNK = - 4"
| "canon_code Z_KEYEXPR_CANON_STARS_IN_CHUNK = - 5"
| "canon_code Z_KEYEXPR_CANON_DOLLAR_AFTER_DOLLAR_OR_STAR = - 6"
| "canon_code Z_KEYEXPR_CANON_CONTAINS_SHARP_OR_QMARK = - 7"
| "canon_code Z_KEYEXPR_CANON_CONTAINS_UNBOUND_DOLLAR = - 8"

definition Z_SHARP :: byte where "Z_SHARP = 0x23"
definition Z_QMARK :: byte where "Z_QMARK = 0x3f"

text \<open>The loop over the characters of a chunk, from a value of \<open>in_dollar\<close>: what it finds and leaves.\<close>

fun canon_scan :: "byte list \<Rightarrow> nat \<Rightarrow> zp_keyexpr_canon_status_t \<times> nat" where
  "canon_scan [] in_dollar = (Z_KEYEXPR_CANON_SUCCESS, in_dollar)"
| "canon_scan (c # cs) in_dollar =
     (if c = Z_SHARP \<or> c = Z_QMARK then (Z_KEYEXPR_CANON_CONTAINS_SHARP_OR_QMARK, in_dollar)
      else if c = Z_DSL0
      then (if in_dollar \<noteq> 0 then (Z_KEYEXPR_CANON_DOLLAR_AFTER_DOLLAR_OR_STAR, in_dollar) else canon_scan cs (in_dollar + 1))
      else if c = Z_STAR
      then (if in_dollar \<noteq> 1 then (Z_KEYEXPR_CANON_STARS_IN_CHUNK, in_dollar) else canon_scan cs (in_dollar + 2))
      else if in_dollar = 1 then (Z_KEYEXPR_CANON_CONTAINS_UNBOUND_DOLLAR, in_dollar)
      else canon_scan cs 0)"

text \<open>One round of the loop over the chunks: it fails, perhaps with a new length, or goes on.\<close>

datatype canon_step = Canon_Fail zp_keyexpr_canon_status_t "nat option" | Canon_Next nat bool

definition canon_scanned :: "byte list \<Rightarrow> nat \<Rightarrow> canon_step" where
  "canon_scanned chunk chunk_stop =
     (case canon_scan chunk 0 of (r, in_dollar) \<Rightarrow>
        if r \<noteq> Z_KEYEXPR_CANON_SUCCESS then Canon_Fail r None
        else if in_dollar = 1 then Canon_Fail Z_KEYEXPR_CANON_CONTAINS_UNBOUND_DOLLAR None
        else Canon_Next (chunk_stop + 1) False)"

definition canon_chunk :: "byte list \<Rightarrow> nat \<Rightarrow> nat \<Rightarrow> bool \<Rightarrow> canon_step" where
  "canon_chunk chunk chunk_start chunk_stop in_big_wild =
     (case chunk of
        [] \<Rightarrow> Canon_Fail Z_KEYEXPR_CANON_EMPTY_CHUNK None
      | [c] \<Rightarrow>
          (if in_big_wild \<and> c = Z_STAR
           then Canon_Fail Z_KEYEXPR_CANON_SINGLE_STAR_AFTER_DOUBLE_STAR (Some (chunk_start - 3))
           else Canon_Next (chunk_stop + 1) in_big_wild)
      | [c, d] \<Rightarrow>
          (if d = Z_STAR \<and> c = Z_DSL0 then Canon_Fail Z_KEYEXPR_CANON_LONE_DOLLAR_STAR (Some chunk_start)
           else if d = Z_STAR \<and> c = Z_STAR
           then (if in_big_wild then Canon_Fail Z_KEYEXPR_CANON_DOUBLE_STAR_AFTER_DOUBLE_STAR (Some (chunk_start - 3))
                 else Canon_Next (chunk_stop + 1) True)
           else canon_scanned chunk chunk_stop)
      | _ \<Rightarrow> canon_scanned chunk chunk_stop)"

lemma canon_scanned_next: "canon_scanned chunk e = Canon_Next next big \<Longrightarrow> next = e + 1 \<and> \<not> big"
  by (auto simp: canon_scanned_def split: if_splits prod.splits)

lemma canon_chunk_next: "canon_chunk chunk b e big = Canon_Next next big' \<Longrightarrow> next = e + 1"
  by (auto simp: canon_chunk_def dest: canon_scanned_next split: list.splits if_splits)

lemma memchr_bounds: "memchr m b e c = Some (Some p) \<Longrightarrow> b \<le> p \<and> p < e"
  by (auto simp: memchr_def Let_def split: if_splits)

lemma memchr_le: "memchr m b e c = Some r \<Longrightarrow> b \<le> e"
  by (simp add: memchr_def split: if_splits)

lemma z_chunk_end_bounds:
  assumes "z_chunk_end m b e = Some p"
  shows "b \<le> p \<and> p \<le> e"
proof -
  obtain r where r: "memchr m b e Z_DELIMITER = Some r" using assms by (cases "memchr m b e Z_DELIMITER") (simp_all add: z_chunk_end_def)
  then show ?thesis using assms memchr_le [OF r] by (cases r) (auto simp: z_chunk_end_def dest: memchr_bounds)
qed

text \<open>The loop, with what follows it; the result is the status and the length.\<close>

function canon_prefix_loop :: "byte list \<Rightarrow> nat \<Rightarrow> nat \<Rightarrow> bool \<Rightarrow> (zp_keyexpr_canon_status_t \<times> nat) option" where
  "canon_prefix_loop m len chunk_start in_big_wild =
     do { chunk_stop \<leftarrow> z_chunk_end m chunk_start len;
          chunk \<leftarrow> rd_range m chunk_start (chunk_stop - chunk_start);
          case canon_chunk chunk chunk_start chunk_stop in_big_wild of
            Canon_Fail r l \<Rightarrow> Some (r, case l of Some l \<Rightarrow> l | None \<Rightarrow> len)
          | Canon_Next next big \<Rightarrow>
              (if next < len then canon_prefix_loop m len next big
               else Some (if next \<le> len then Z_KEYEXPR_CANON_EMPTY_CHUNK else Z_KEYEXPR_CANON_SUCCESS, len)) }"
  by pat_completeness auto
termination
  by (relation "measure (\<lambda>(m, len, chunk_start, big). len - chunk_start)")
    (auto dest!: canon_chunk_next z_chunk_end_bounds)

declare canon_prefix_loop.simps [simp del]

definition zp_canon_prefix :: "byte list \<Rightarrow> nat \<Rightarrow> (zp_keyexpr_canon_status_t \<times> nat) option" where
  "zp_canon_prefix m len = canon_prefix_loop m len 0 False"

definition z_keyexpr_is_canon :: "byte list \<Rightarrow> nat \<Rightarrow> zp_keyexpr_canon_status_t option" where
  "z_keyexpr_is_canon m len = map_option fst (zp_canon_prefix m len)"

section \<open>Rewriting\<close>

text \<open>\<^verbatim>\<open>_z_str_startswith\<close> at a position of the buffer.\<close>

fun startswith_from :: "byte list \<Rightarrow> nat \<Rightarrow> byte list \<Rightarrow> nat \<Rightarrow> nat option" where
  "startswith_from m s [] i = Some i"
| "startswith_from m s (n # ns) i = do { c \<leftarrow> rd m (s + i); if c \<noteq> n then Some 0 else startswith_from m s ns (i + 1) }"

definition z_str_startswith :: "byte list \<Rightarrow> nat \<Rightarrow> byte list \<Rightarrow> nat option" where
  "z_str_startswith m s needle = startswith_from m s needle 0"

text \<open>The first loop of \<^verbatim>\<open>__zp_singleify\<close> ends with its \<^verbatim>\<open>reader\<close> and \<^verbatim>\<open>right_after_needle\<close>.\<close>

function singleify_find :: "byte list \<Rightarrow> nat \<Rightarrow> byte list \<Rightarrow> bool \<Rightarrow> nat \<Rightarrow> (nat \<times> bool) option" where
  "singleify_find m len needle right_after_needle reader =
     (if reader < len
      then do { pos \<leftarrow> z_str_startswith m reader needle;
                if pos \<noteq> 0
                then (if right_after_needle then Some (reader, right_after_needle)
                      else singleify_find m len needle True (reader + pos))
                else singleify_find m len needle False (reader + 1) }
      else Some (reader, right_after_needle))"
  by pat_completeness auto
termination by (relation "measure (\<lambda>(m, len, needle, right, reader). len - reader)") auto

declare singleify_find.simps [simp del]

definition wr_list :: "byte list \<Rightarrow> nat \<Rightarrow> byte list \<Rightarrow> byte list option" where
  "wr_list m i xs = (if i + length xs \<le> length m then Some (take i m @ xs @ drop (i + length xs) m) else None)"

text \<open>The copy loop of the needle reads and writes character by character.\<close>

fun copy_chars :: "byte list \<Rightarrow> nat \<Rightarrow> nat \<Rightarrow> nat \<Rightarrow> byte list option" where
  "copy_chars m writer reader 0 = Some m"
| "copy_chars m writer reader (Suc n) =
     do { c \<leftarrow> rd m reader; m \<leftarrow> wr m writer c; copy_chars m (writer + 1) (reader + 1) n }"

function singleify_copy ::
    "byte list \<Rightarrow> nat \<Rightarrow> byte list \<Rightarrow> bool \<Rightarrow> nat \<Rightarrow> nat \<Rightarrow> (byte list \<times> nat) option" where
  "singleify_copy m len needle right_after_needle writer reader =
     (if reader < len
      then do { pos \<leftarrow> z_str_startswith m reader needle;
                if pos \<noteq> 0
                then (if \<not> right_after_needle
                      then do { m \<leftarrow> copy_chars m writer reader pos; singleify_copy m len needle True (writer + pos) (reader + pos) }
                      else singleify_copy m len needle True writer (reader + pos))
                else do { c \<leftarrow> rd m reader; m \<leftarrow> wr m writer c; singleify_copy m len needle False (writer + 1) (reader + 1) } }
      else Some (m, writer))"
  by pat_completeness auto
termination by (relation "measure (\<lambda>(m, len, needle, right, writer, reader). len - reader)") auto

declare singleify_copy.simps [simp del]

definition zp_singleify :: "byte list \<Rightarrow> nat \<Rightarrow> byte list \<Rightarrow> (byte list \<times> nat) option" where
  "zp_singleify m len needle =
     do { (reader, right_after_needle) \<leftarrow> singleify_find m len needle False 0;
          singleify_copy m len needle right_after_needle reader reader }"

text \<open>A chunk to write is given, or is in the buffer, and then read when the separator has been written.\<close>

datatype chunk_src = Chunk_Str "byte list" | Chunk_At nat nat

definition zp_ke_write_chunk :: "byte list \<Rightarrow> nat \<Rightarrow> chunk_src \<Rightarrow> nat \<Rightarrow> (byte list \<times> nat) option" where
  "zp_ke_write_chunk m writer chunk write_start =
     do { (m, writer) \<leftarrow> (if writer \<noteq> write_start then map_option (\<lambda>m. (m, writer + 1)) (wr m writer Z_DELIMITER) else Some (m, writer));
          bytes \<leftarrow> (case chunk of Chunk_Str xs \<Rightarrow> Some xs | Chunk_At p n \<Rightarrow> rd_range m p n);
          m \<leftarrow> wr_list m writer bytes;
          Some (m, writer + length bytes) }"

text \<open>\<^verbatim>\<open>strchr\<close> stops at the first null character, and runs out of a buffer that has none.\<close>

function c_strchr :: "byte list \<Rightarrow> nat \<Rightarrow> byte \<Rightarrow> nat option option" where
  "c_strchr m p c =
     do { x \<leftarrow> rd m p; if x = c then Some (Some p) else if x = 0 then Some None else c_strchr m (p + 1) c }"
  by pat_completeness auto
termination by (relation "measure (\<lambda>(m, p, c). length m - p)") (auto simp: rd_def split: if_splits)

declare c_strchr.simps [simp del]

definition Z_DOUBLE_STAR :: "byte list" where "Z_DOUBLE_STAR = [Z_STAR, Z_STAR]"
definition Z_DOLLAR_STAR :: "byte list" where "Z_DOLLAR_STAR = [Z_DSL0, Z_STAR]"

text \<open>What a round of the loop of \<^verbatim>\<open>_z_keyexpr_canonize\<close> makes of a chunk that is not wild: the scan goes on to the end of the string.\<close>

definition canonize_scan :: "byte list \<Rightarrow> nat \<Rightarrow> nat \<Rightarrow> zp_keyexpr_canon_status_t \<Rightarrow> zp_keyexpr_canon_status_t option" where
  "canonize_scan m reader len r =
     (if r \<noteq> Z_KEYEXPR_CANON_SUCCESS then Some r
      else do { rest \<leftarrow> rd_range m reader (len - reader);
                Some (case canon_scan rest 0 of (r, in_dollar) \<Rightarrow>
                  if r = Z_KEYEXPR_CANON_SUCCESS \<and> in_dollar = 1 then Z_KEYEXPR_CANON_CONTAINS_UNBOUND_DOLLAR else r) })"

function canonize_loop ::
    "byte list \<Rightarrow> nat \<Rightarrow> nat \<Rightarrow> nat \<Rightarrow> nat option \<Rightarrow> bool \<Rightarrow> zp_keyexpr_canon_status_t \<Rightarrow>
      (byte list \<times> nat \<times> bool \<times> zp_keyexpr_canon_status_t) option" where
  "canonize_loop m len write_start writer next_slash in_big_wild r =
     (case next_slash of
        None \<Rightarrow> Some (m, writer, in_big_wild, r)
      | Some slash \<Rightarrow>
          do { next \<leftarrow> memchr m (slash + 1) len Z_DELIMITER;
               let chunk_stop = (case next of Some s \<Rightarrow> s | None \<Rightarrow> len) in
               do { chunk \<leftarrow> rd_range m (slash + 1) (chunk_stop - (slash + 1));
                    if chunk = [Z_STAR] \<or> chunk = Z_DOLLAR_STAR
                    then do { (m, writer) \<leftarrow> zp_ke_write_chunk m writer (Chunk_Str [Z_STAR]) write_start;
                              canonize_loop m len write_start writer next in_big_wild r }
                    else if chunk = Z_DOUBLE_STAR then canonize_loop m len write_start writer next True r
                    else do { r \<leftarrow> canonize_scan m (slash + 1) len (if chunk = [] then Z_KEYEXPR_CANON_EMPTY_CHUNK else r);
                              if r = Z_KEYEXPR_CANON_SUCCESS
                              then do { (m, writer) \<leftarrow> (if in_big_wild then zp_ke_write_chunk m writer (Chunk_Str Z_DOUBLE_STAR) write_start
                                                       else Some (m, writer));
                                        (m, writer) \<leftarrow> zp_ke_write_chunk m writer (Chunk_At (slash + 1) (chunk_stop - (slash + 1))) write_start;
                                        canonize_loop m len write_start writer next False r }
                              else canonize_loop m len write_start writer next in_big_wild r } } })"
  by pat_completeness auto
termination
  by (relation "measure (\<lambda>(m, len, ws, w, next_slash, big, r). case next_slash of None \<Rightarrow> 0 | Some s \<Rightarrow> Suc (len - s))")
    (auto dest!: memchr_bounds split: option.splits)

declare canonize_loop.simps [simp del]

text \<open>The first wild chunk, at the end of the canonical prefix, decides where the loop begins.\<close>

definition canonize_rest :: "byte list \<Rightarrow> nat \<Rightarrow> nat \<Rightarrow> (byte list \<times> nat \<times> zp_keyexpr_canon_status_t) option" where
  "canonize_rest m len canon_len =
     do { next_slash \<leftarrow> c_strchr m canon_len Z_DELIMITER;
          let chunk_stop = (case next_slash of Some s \<Rightarrow> s | None \<Rightarrow> len) in
          do { chunk \<leftarrow> rd_range m canon_len (chunk_stop - canon_len);
               if chunk \<noteq> Z_DOUBLE_STAR \<and> chunk \<noteq> Z_DOLLAR_STAR then None
               else do {
                 (m, writer) \<leftarrow> (if chunk = Z_DOLLAR_STAR then map_option (\<lambda>m. (m, canon_len + 1)) (wr m canon_len Z_STAR)
                                else Some (m, canon_len));
                 (m, writer, in_big_wild, r) \<leftarrow>
                   canonize_loop m len canon_len writer next_slash (chunk = Z_DOUBLE_STAR) Z_KEYEXPR_CANON_SUCCESS;
                 if r = Z_KEYEXPR_CANON_SUCCESS
                 then do { (m, writer) \<leftarrow> (if in_big_wild then zp_ke_write_chunk m writer (Chunk_Str Z_DOUBLE_STAR) canon_len
                                          else Some (m, writer));
                           Some (m, writer, r) }
                 else Some (m, len, r) } } }"

text \<open>The buffer and the length after it, and the status.\<close>

definition z_keyexpr_canonize :: "byte list \<Rightarrow> nat \<Rightarrow> (byte list \<times> nat \<times> zp_keyexpr_canon_status_t) option" where
  "z_keyexpr_canonize m len =
     do { (m, len) \<leftarrow> zp_singleify m len Z_DOLLAR_STAR;
          (r, canon_len) \<leftarrow> zp_canon_prefix m len;
          if r = Z_KEYEXPR_CANON_LONE_DOLLAR_STAR \<or> r = Z_KEYEXPR_CANON_SINGLE_STAR_AFTER_DOUBLE_STAR \<or>
             r = Z_KEYEXPR_CANON_DOUBLE_STAR_AFTER_DOUBLE_STAR
          then canonize_rest m len canon_len
          else Some (m, len, r) }"

section \<open>Wildness\<close>

record wildness_t =
  wild_bits :: byte
  n_segments :: nat
  n_verbatims :: nat

definition ZP_WILDNESS_ANY :: byte where "ZP_WILDNESS_ANY = 1"
definition ZP_WILDNESS_SUPERCHUNKS :: byte where "ZP_WILDNESS_SUPERCHUNKS = 2"
definition ZP_WILDNESS_SUBCHUNK_DSL :: byte where "ZP_WILDNESS_SUBCHUNK_DSL = 4"

fun ke_wildness :: "byte list \<Rightarrow> byte \<Rightarrow> wildness_t \<Rightarrow> wildness_t" where
  "ke_wildness [] prev_char w = w"
| "ke_wildness (c # cs) prev_char w = ke_wildness cs c
     (if c = Z_STAR
      then w\<lparr>wild_bits := (wild_bits w OR ZP_WILDNESS_ANY) OR (if prev_char = Z_STAR then ZP_WILDNESS_SUPERCHUNKS else 0)\<rparr>
      else if c = Z_DSL0 then w\<lparr>wild_bits := wild_bits w OR ZP_WILDNESS_SUBCHUNK_DSL\<rparr>
      else if c = Z_DELIMITER then w\<lparr>n_segments := n_segments w + 1\<rparr>
      else if c = Z_VERBATIM then w\<lparr>n_verbatims := n_verbatims w + 1\<rparr>
      else w)"

definition zp_ke_wildness :: "byte list \<Rightarrow> nat \<Rightarrow> nat \<Rightarrow> wildness_t" where
  "zp_ke_wildness ke segments verbatims = ke_wildness ke 0 \<lparr>wild_bits = 0, n_segments = segments, n_verbatims = verbatims\<rparr>"

section \<open>Making and moving\<close>

text \<open>
  An expression is the bytes of its string, whether they are its own or those of another string, so an
  alias is the string itself. What is moved from is null afterwards.
\<close>

definition z_keyexpr_null :: z_string_t where
  "z_keyexpr_null = []"

definition z_keyexpr_alias_from_string :: "z_string_t \<Rightarrow> z_string_t" where
  "z_keyexpr_alias_from_string str = str"

definition z_keyexpr_alias_from_substr :: "byte list \<Rightarrow> nat \<Rightarrow> z_string_t" where
  "z_keyexpr_alias_from_substr str len = take len str"

text \<open>The check cannot tell an empty string from one that could not be allocated.\<close>

definition z_keyexpr_from_substr :: "byte list \<Rightarrow> nat \<Rightarrow> z_result_t \<times> z_string_t" where
  "z_keyexpr_from_substr str len =
     (let s = take len str in if z_string_check s then (Z_RES_OK, s) else (Z_ERR_SYSTEM_OUT_OF_MEMORY, s))"

definition z_keyexpr_from_string :: "z_string_t \<Rightarrow> z_result_t \<times> z_string_t" where
  "z_keyexpr_from_string str = z_keyexpr_from_substr str (length str)"

definition z_keyexpr_copy :: "z_string_t \<Rightarrow> z_result_t \<times> z_string_t" where
  "z_keyexpr_copy src = (Z_RES_OK, src)"

text \<open>The new expression, and what is left of the old one.\<close>

definition z_keyexpr_move :: "z_string_t \<Rightarrow> z_result_t \<times> z_string_t \<times> z_string_t" where
  "z_keyexpr_move src = (Z_RES_OK, src, z_keyexpr_null)"

definition z_keyexpr_steal :: "z_string_t \<Rightarrow> z_string_t \<times> z_string_t" where
  "z_keyexpr_steal src = (src, z_keyexpr_null)"

definition z_keyexpr_clear :: "z_string_t \<Rightarrow> z_string_t" where
  "z_keyexpr_clear key = z_keyexpr_null"

section \<open>Joining\<close>

text \<open>
  The result code and the string. The code for the left string being empty has no return: its copy
  of the right string is overwritten. An allocation gives what is asked for.
\<close>

definition Z_ERR_INVALID :: z_result_t where "Z_ERR_INVALID = - 75"

definition z_string_concat_substr :: "z_string_t \<Rightarrow> byte list \<Rightarrow> byte list option \<Rightarrow> z_result_t \<times> z_string_t" where
  "z_string_concat_substr left right separator =
     (if right = [] then (Z_RES_OK, left)
      else (Z_RES_OK, left @ (case separator of Some s \<Rightarrow> s | None \<Rightarrow> []) @ right))"

definition z_keyexpr_concat :: "z_string_t \<Rightarrow> byte list \<Rightarrow> z_result_t \<times> z_string_t" where
  "z_keyexpr_concat left right =
     (if left = [] then z_keyexpr_from_substr right (length right)
      else if last left = Z_STAR \<and> right \<noteq> [] \<and> hd right = Z_STAR then (Z_ERR_INVALID, [])
      else z_string_concat_substr left right None)"

text \<open>The new string fills its buffer, and is cleared when it cannot be made canonical.\<close>

definition z_keyexpr_join :: "z_string_t \<Rightarrow> z_string_t \<Rightarrow> (z_result_t \<times> z_string_t) option" where
  "z_keyexpr_join left right =
     (case z_string_concat_substr left right (Some [Z_DELIMITER]) of (r, key) \<Rightarrow>
        if r \<noteq> Z_RES_OK then Some (r, [])
        else do { (m, len, status) \<leftarrow> z_keyexpr_canonize key (length key);
                  if status \<noteq> Z_KEYEXPR_CANON_SUCCESS then Some (canon_code status, []) else Some (Z_RES_OK, take len m) })"

text \<open>Back from the first star to a separator, or to the beginning.\<close>

fun prefix_back :: "byte list \<Rightarrow> nat \<Rightarrow> nat" where
  "prefix_back key 0 = 0"
| "prefix_back key (Suc pos) = (if key ! Suc pos = Z_DELIMITER then Suc pos else prefix_back key pos)"

definition z_keyexpr_non_wild_prefix_len :: "z_string_t \<Rightarrow> nat" where
  "z_keyexpr_non_wild_prefix_len key =
     (if Z_STAR \<notin> set key then length key else prefix_back key (length (takeWhile (\<lambda>c. c \<noteq> Z_STAR) key)))"

section \<open>Declared expressions\<close>

text \<open>
  A declaration knows the session it was made on, \<open>'w\<close>; a null reference to a session or to a
  declaration is absent. What declaring on the session does is a parameter.
\<close>

record 'w z_keyexpr_wire_declaration_t =
  wd_id :: u16
  wd_prefix_len :: u16
  wd_session :: "'w option"

record 'w z_declared_keyexpr_t =
  dke_declaration :: "'w z_keyexpr_wire_declaration_t option"
  dke_inner :: z_string_t

definition z_keyexpr_wire_declaration_null :: "'w z_keyexpr_wire_declaration_t" where
  "z_keyexpr_wire_declaration_null = \<lparr>wd_id = 0, wd_prefix_len = 0, wd_session = None\<rparr>"

definition z_declared_keyexpr_null :: "'w z_declared_keyexpr_t" where
  "z_declared_keyexpr_null = \<lparr>dke_declaration = None, dke_inner = []\<rparr>"

definition z_keyexpr_wire_declaration_is_declared_on_session :: "'w z_keyexpr_wire_declaration_t \<Rightarrow> 'w \<Rightarrow> bool" where
  "z_keyexpr_wire_declaration_is_declared_on_session d session \<longleftrightarrow> wd_session d = Some session"

definition z_declared_keyexpr_is_fully_optimized :: "'w z_declared_keyexpr_t \<Rightarrow> 'w \<Rightarrow> bool" where
  "z_declared_keyexpr_is_fully_optimized key session \<longleftrightarrow>
     (case dke_declaration key of None \<Rightarrow> False
      | Some d \<Rightarrow> z_keyexpr_wire_declaration_is_declared_on_session d session \<and> unat (wd_prefix_len d) = length (dke_inner key))"

definition z_declared_keyexpr_is_non_wild_prefix_optimized :: "'w z_declared_keyexpr_t \<Rightarrow> 'w \<Rightarrow> bool" where
  "z_declared_keyexpr_is_non_wild_prefix_optimized key session \<longleftrightarrow>
     (case dke_declaration key of None \<Rightarrow> False
      | Some d \<Rightarrow> z_keyexpr_wire_declaration_is_declared_on_session d session \<and>
          unat (wd_prefix_len d) = z_keyexpr_non_wild_prefix_len (dke_inner key))"

definition z_keyexpr_wire_declaration_new ::
    "('n \<Rightarrow> z_string_t \<Rightarrow> z_result_t \<times> u16 \<times> 'n) \<Rightarrow> z_string_t \<Rightarrow> 'w \<Rightarrow> 'n \<Rightarrow> z_result_t \<times> 'w z_keyexpr_wire_declaration_t \<times> 'n" where
  "z_keyexpr_wire_declaration_new declare_resource keyexpr session n =
     (case declare_resource n keyexpr of (r, i, n) \<Rightarrow>
        (r, if r = Z_RES_OK then \<lparr>wd_id = i, wd_prefix_len = of_nat (length keyexpr), wd_session = Some session\<rparr>
            else z_keyexpr_wire_declaration_null\<lparr>wd_id := i\<rparr>, n))"

text \<open>\<open>is_open\<close> says whether the weak reference to the session can be upgraded.\<close>

definition z_keyexpr_wire_declaration_undeclare ::
    "('n \<Rightarrow> u16 \<Rightarrow> z_result_t \<times> 'n) \<Rightarrow> bool \<Rightarrow> 'w z_keyexpr_wire_declaration_t \<Rightarrow> 'n \<Rightarrow> z_result_t \<times> 'w z_keyexpr_wire_declaration_t \<times> 'n" where
  "z_keyexpr_wire_declaration_undeclare undeclare_resource is_open d n =
     (if wd_session d = None then (Z_RES_OK, d, n)
      else (case (if is_open then undeclare_resource n (wd_id d) else (Z_RES_OK, n)) of (r, n) \<Rightarrow>
        (r, \<lparr>wd_id = 0, wd_prefix_len = 0, wd_session = None\<rparr>, n)))"

definition z_keyexpr_declare_prefix ::
    "('n \<Rightarrow> z_string_t \<Rightarrow> z_result_t \<times> u16 \<times> 'n) \<Rightarrow> bool \<Rightarrow> 'w \<Rightarrow> z_string_t \<Rightarrow> nat \<Rightarrow> 'n \<Rightarrow>
      (z_result_t \<times> 'w z_declared_keyexpr_t \<times> 'n) option" where
  "z_keyexpr_declare_prefix declare_resource is_multicast session keyexpr prefix_len n =
     (if length keyexpr < prefix_len then None
      else Some (if prefix_len = 0 \<or> is_multicast then (Z_RES_OK, z_declared_keyexpr_null\<lparr>dke_inner := keyexpr\<rparr>, n)
        else case z_keyexpr_wire_declaration_new declare_resource (take prefix_len keyexpr) session n of (r, d, n) \<Rightarrow>
          if r = Z_RES_OK then (Z_RES_OK, \<lparr>dke_declaration = Some d, dke_inner = keyexpr\<rparr>, n)
          else (r, z_declared_keyexpr_null, n)))"

definition z_declared_keyexpr_declare ::
    "('n \<Rightarrow> z_string_t \<Rightarrow> z_result_t \<times> u16 \<times> 'n) \<Rightarrow> bool \<Rightarrow> 'w \<Rightarrow> 'w z_declared_keyexpr_t \<Rightarrow> 'n \<Rightarrow>
      (z_result_t \<times> 'w z_declared_keyexpr_t \<times> 'n) option" where
  "z_declared_keyexpr_declare declare_resource is_multicast session keyexpr n =
     (if z_declared_keyexpr_is_fully_optimized keyexpr session then Some (Z_RES_OK, keyexpr, n)
      else z_keyexpr_declare_prefix declare_resource is_multicast session (dke_inner keyexpr) (length (dke_inner keyexpr)) n)"

definition z_declared_keyexpr_declare_non_wild_prefix ::
    "('n \<Rightarrow> z_string_t \<Rightarrow> z_result_t \<times> u16 \<times> 'n) \<Rightarrow> bool \<Rightarrow> 'w \<Rightarrow> 'w z_declared_keyexpr_t \<Rightarrow> 'n \<Rightarrow>
      (z_result_t \<times> 'w z_declared_keyexpr_t \<times> 'n) option" where
  "z_declared_keyexpr_declare_non_wild_prefix declare_resource is_multicast session keyexpr n =
     (if z_declared_keyexpr_is_non_wild_prefix_optimized keyexpr session then Some (Z_RES_OK, keyexpr, n)
      else z_keyexpr_declare_prefix declare_resource is_multicast session (dke_inner keyexpr)
             (z_keyexpr_non_wild_prefix_len (dke_inner keyexpr)) n)"

text \<open>A copy shares the declaration, which is counted.\<close>

definition z_declared_keyexpr_copy :: "'w z_declared_keyexpr_t \<Rightarrow> z_result_t \<times> 'w z_declared_keyexpr_t" where
  "z_declared_keyexpr_copy src =
     (case z_keyexpr_copy (dke_inner src) of (r, key) \<Rightarrow> (r, \<lparr>dke_declaration = dke_declaration src, dke_inner = key\<rparr>))"

definition z_declared_keyexpr_move ::
    "'w z_declared_keyexpr_t \<Rightarrow> z_result_t \<times> 'w z_declared_keyexpr_t \<times> 'w z_declared_keyexpr_t" where
  "z_declared_keyexpr_move src =
     (case z_keyexpr_move (dke_inner src) of (r, key, left) \<Rightarrow>
        (r, \<lparr>dke_declaration = dke_declaration src, dke_inner = key\<rparr>, \<lparr>dke_declaration = None, dke_inner = left\<rparr>))"

definition z_declared_keyexpr_steal :: "'w z_declared_keyexpr_t \<Rightarrow> 'w z_declared_keyexpr_t \<times> 'w z_declared_keyexpr_t" where
  "z_declared_keyexpr_steal src = (src, z_declared_keyexpr_null)"

definition z_declared_keyexpr_clear :: "'w z_declared_keyexpr_t \<Rightarrow> 'w z_declared_keyexpr_t" where
  "z_declared_keyexpr_clear key = z_declared_keyexpr_null"

definition z_declared_keyexpr_includes :: "'w z_declared_keyexpr_t \<Rightarrow> 'w z_declared_keyexpr_t \<Rightarrow> bool option" where
  "z_declared_keyexpr_includes left right = z_keyexpr_includes (dke_inner left) (dke_inner right)"

definition z_declared_keyexpr_intersects :: "'w z_declared_keyexpr_t \<Rightarrow> 'w z_declared_keyexpr_t \<Rightarrow> bool option" where
  "z_declared_keyexpr_intersects left right = z_keyexpr_intersects (dke_inner left) (dke_inner right)"

text \<open>The declaration of the left expression is kept for the longer one.\<close>

definition z_declared_keyexpr_concat :: "'w z_declared_keyexpr_t \<Rightarrow> byte list \<Rightarrow> z_result_t \<times> 'w z_declared_keyexpr_t" where
  "z_declared_keyexpr_concat left right =
     (case z_keyexpr_concat (dke_inner left) right of (r, key) \<Rightarrow>
        (r, \<lparr>dke_declaration = (if r = Z_RES_OK then dke_declaration left else None), dke_inner = key\<rparr>))"

definition z_declared_keyexpr_join ::
    "'w z_declared_keyexpr_t \<Rightarrow> 'w z_declared_keyexpr_t \<Rightarrow> (z_result_t \<times> 'w z_declared_keyexpr_t) option" where
  "z_declared_keyexpr_join left right =
     map_option (\<lambda>(r, key). (r, \<lparr>dke_declaration = (if r = Z_RES_OK then dke_declaration left else None), dke_inner = key\<rparr>))
       (z_keyexpr_join (dke_inner left) (dke_inner right))"

text \<open>A prefix longer than the string leaves a suffix outside it.\<close>

definition z_declared_keyexpr_alias_to_wire :: "'w z_declared_keyexpr_t \<Rightarrow> 'w \<Rightarrow> z_wireexpr_t option" where
  "z_declared_keyexpr_alias_to_wire key session =
     (case dke_declaration key of
        Some d \<Rightarrow>
          (if z_keyexpr_wire_declaration_is_declared_on_session d session
           then (if length (dke_inner key) < unat (wd_prefix_len d) then None
                 else Some \<lparr>we_id = wd_id d, we_mapping = KEYEXPR_MAPPING_LOCAL,
                        we_suffix = drop (unat (wd_prefix_len d)) (dke_inner key)\<rparr>)
           else Some (z_wireexpr_null\<lparr>we_suffix := dke_inner key\<rparr>))
      | None \<Rightarrow> Some (z_wireexpr_null\<lparr>we_suffix := dke_inner key\<rparr>))"

definition z_keyexpr_alias_to_wire :: "z_string_t \<Rightarrow> z_wireexpr_t" where
  "z_keyexpr_alias_to_wire key = z_wireexpr_null\<lparr>we_suffix := key\<rparr>"

end
