(* ===== verification/Zp_KeChunk.thy ===== *)
theory Zp_KeChunk imports Zp_Keyexpr
begin

text \<open>
  What the matcher does with two chunks of which the right one is plain, a part of a key and not of
  an expression: it decides whether the pattern of the left one matches, and finds where both end.
\<close>

section \<open>Segments of a string\<close>

definition seg :: "byte list \<Rightarrow> nat \<Rightarrow> nat \<Rightarrow> byte list \<Rightarrow> bool" where
  "seg m b e xs \<longleftrightarrow> b \<le> e \<and> e \<le> length m \<and> take (e - b) (drop b m) = xs"

lemma seg_length: "seg m b e xs \<Longrightarrow> e = b + length xs"
  by (auto simp: seg_def)

lemma seg_iff: "seg m b e xs \<longleftrightarrow> (\<exists>u v. m = u @ xs @ v \<and> b = length u \<and> e = b + length xs)"
proof
  assume s: "seg m b e xs"
  have "drop b m = take (e - b) (drop b m) @ drop (e - b) (drop b m)" by (rule append_take_drop_id [symmetric])
  then have "drop b m = xs @ drop e m" using s by (simp add: seg_def)
  then have "m = take b m @ xs @ drop e m" using append_take_drop_id [of b m] by metis
  moreover have "b = length (take b m)" "e = b + length xs" using s by (auto simp: seg_def)
  ultimately show "\<exists>u v. m = u @ xs @ v \<and> b = length u \<and> e = b + length xs" by blast
qed (auto simp: seg_def)

lemma seg_append: "seg m b e (xs @ ys) \<longleftrightarrow> seg m b (b + length xs) xs \<and> seg m (b + length xs) e ys"
proof
  assume "seg m b e (xs @ ys)"
  then obtain u v where "m = u @ (xs @ ys) @ v" "b = length u" "e = b + length (xs @ ys)" unfolding seg_iff by blast
  then show "seg m b (b + length xs) xs \<and> seg m (b + length xs) e ys"
    by (auto simp: seg_def)
next
  assume a: "seg m b (b + length xs) xs \<and> seg m (b + length xs) e ys"
  then have le: "b + length xs \<le> e" "e \<le> length m" and e: "e = b + length xs + length ys" by (auto simp: seg_def)
  have "take (length xs + length ys) (drop b m) = xs @ ys"
    using a e by (simp add: seg_def take_add add.commute)
  then show "seg m b e (xs @ ys)" using le e by (simp add: seg_def)
qed

lemma seg_Nil [simp]: "seg m b e [] \<longleftrightarrow> e = b \<and> b \<le> length m"
  by (auto simp: seg_def)

lemma seg_single: "seg m b e [x] \<longleftrightarrow> rd m b = Some x \<and> e = b + 1"
proof
  assume "seg m b e [x]"
  then show "rd m b = Some x \<and> e = b + 1" unfolding seg_iff by (auto simp: rd_def)
next
  assume r: "rd m b = Some x \<and> e = b + 1"
  then have "b < length m" "m ! b = x" by (auto simp: rd_def split: if_splits)
  then show "seg m b e [x]" using r by (simp add: seg_def take_Suc_conv_app_nth Suc_le_eq take_Suc hd_drop_conv_nth)
qed

lemma seg_Cons: "seg m b e (x # xs) \<longleftrightarrow> rd m b = Some x \<and> seg m (b + 1) e xs"
  using seg_append [of m b e "[x]" xs] seg_single [of m b "b + 1" x] by simp

lemma seg_snoc: "seg m b e (xs @ [x]) \<longleftrightarrow> b < e \<and> seg m b (e - 1) xs \<and> rd m (e - 1) = Some x"
proof -
  have "seg m b (e - 1) xs \<Longrightarrow> e - 1 = b + length xs" by (rule seg_length)
  then show ?thesis unfolding seg_append seg_single by auto
qed

lemma seg_rd: "seg m b e xs \<Longrightarrow> i < length xs \<Longrightarrow> rd m (b + i) = Some (xs ! i)"
  unfolding seg_iff by (auto simp: rd_def nth_append)

lemma seg_range: "seg m b e xs \<Longrightarrow> rd_range m b (length xs) = Some xs"
  by (auto simp: seg_def rd_range_def)

lemma memchr_none:
  assumes "seg m b e xs" "c \<notin> set xs"
  shows "memchr m b e c = Some None"
proof -
  have "length (takeWhile (\<lambda>x. x \<noteq> c) xs) = length xs" using assms(2) by (intro arg_cong [of _ _ length] takeWhile_eq_all_conv [THEN iffD2]) auto
  then show ?thesis using assms(1) seg_length [OF assms(1)] by (simp add: memchr_def seg_def Let_def)
qed

lemma memchr_some:
  assumes "seg m b e (xs @ c # ys)" "c \<notin> set xs"
  shows "memchr m b e c = Some (Some (b + length xs))"
proof -
  have "takeWhile (\<lambda>x. x \<noteq> c) (xs @ c # ys) = xs" using assms(2) by (subst takeWhile_append2) auto
  then show ?thesis using assms(1) seg_length [OF assms(1)] by (auto simp: memchr_def seg_def Let_def)
qed


section \<open>Patterns\<close>

text \<open>A chunk of an expression other than the wild ones: characters, and places where anything may be.\<close>

datatype tok = Any | Lit byte

fun tok_bytes :: "tok \<Rightarrow> byte list" where
  "tok_bytes Any = [Z_DSL0, Z_DSL1]"
| "tok_bytes (Lit c) = [c]"

definition flat :: "tok list \<Rightarrow> byte list" where
  "flat ts = concat (map tok_bytes ts)"

lemma flat_simps [simp]:
  "flat [] = []" "flat (Any # ts) = Z_DSL0 # Z_DSL1 # flat ts" "flat (Lit c # ts) = c # flat ts" "flat (ts @ us) = flat ts @ flat us"
  by (simp_all add: flat_def)

definition lit :: "byte \<Rightarrow> bool" where
  "lit c \<longleftrightarrow> c \<noteq> Z_DSL0 \<and> c \<noteq> Z_STAR \<and> c \<noteq> Z_DELIMITER \<and> c \<noteq> 0"

fun toks_ok :: "tok list \<Rightarrow> bool" where
  "toks_ok [] \<longleftrightarrow> True"
| "toks_ok (Lit c # ts) \<longleftrightarrow> lit c \<and> toks_ok ts"
| "toks_ok (Any # ts) \<longleftrightarrow> toks_ok ts \<and> (case ts of Any # _ \<Rightarrow> False | _ \<Rightarrow> True)"

fun gl :: "tok list \<Rightarrow> byte list \<Rightarrow> bool" where
  "gl [] t \<longleftrightarrow> t = []"
| "gl (Lit c # ts) t \<longleftrightarrow> (case t of [] \<Rightarrow> False | d # t' \<Rightarrow> c = d \<and> gl ts t')"
| "gl (Any # ts) t \<longleftrightarrow> (\<exists>n \<le> length t. gl ts (drop n t))"

lemma gl_append: "gl (ts @ us) t \<longleftrightarrow> (\<exists>a b. t = a @ b \<and> gl ts a \<and> gl us b)"
proof (induction ts arbitrary: t)
  case (Cons x ts)
  show ?case
  proof (cases x)
    case Any
    show ?thesis
    proof
      assume "gl ((x # ts) @ us) t"
      then obtain n a b where n: "n \<le> length t" "drop n t = a @ b" "gl ts a" "gl us b" using Any Cons.IH by auto
      then have "t = (take n t @ a) @ b" by (metis append.assoc append_take_drop_id)
      moreover have "gl (x # ts) (take n t @ a)" using n(1,3) Any by (auto intro!: exI [of _ n])
      ultimately show "\<exists>a b. t = a @ b \<and> gl (x # ts) a \<and> gl us b" using n(4) by blast
    next
      assume "\<exists>a b. t = a @ b \<and> gl (x # ts) a \<and> gl us b"
      then obtain a b n where "t = a @ b" "n \<le> length a" "gl ts (drop n a)" "gl us b" using Any by auto
      then show "gl ((x # ts) @ us) t" using Any Cons.IH [of "drop n t"] by (auto intro!: exI [of _ n])
    qed
  next
    case (Lit c)
    show ?thesis
    proof
      assume "gl ((x # ts) @ us) t"
      then obtain t' a b where "t = c # t'" "t' = a @ b" "gl ts a" "gl us b" using Lit Cons.IH by (auto split: list.splits)
      then show "\<exists>a b. t = a @ b \<and> gl (x # ts) a \<and> gl us b" using Lit by (intro exI [of _ "c # a"] exI [of _ b]) simp
    next
      assume "\<exists>a b. t = a @ b \<and> gl (x # ts) a \<and> gl us b"
      then obtain a b where "t = a @ b" "gl (x # ts) a" "gl us b" by blast
      then show "gl ((x # ts) @ us) t" using Lit Cons.IH by (auto split: list.splits)
    qed
  qed
qed simp

lemma gl_Any: "gl [Any] t"
  by (auto intro: exI [of _ "length t"])

lemma gl_single: "gl [Lit c] t \<longleftrightarrow> t = [c]"
  by (auto split: list.splits)

lemma gl_snoc_Lit: "gl (ts @ [Lit c]) (t @ [d]) \<longleftrightarrow> c = d \<and> gl ts t"
  unfolding gl_append gl_single by auto

lemma gl_snoc_Lit_Nil: "\<not> gl (ts @ [Lit c]) []"
  by (auto simp: gl_append)

lemma gl_snoc_Any: "gl (ts @ [Any]) t \<longleftrightarrow> (\<exists>n \<le> length t. gl ts (take n t))"
proof
  assume "gl (ts @ [Any]) t"
  then obtain a b where "t = a @ b" "gl ts a" unfolding gl_append by blast
  then show "\<exists>n \<le> length t. gl ts (take n t)" by (intro exI [of _ "length a"]) simp
next
  assume "\<exists>n \<le> length t. gl ts (take n t)"
  then obtain n where "gl ts (take n t)" by blast
  then show "gl (ts @ [Any]) t" unfolding gl_append using gl_Any [of "drop n t"] append_take_drop_id [of n t] by metis
qed

lemma gl_Any_mono: "gl (Any # ts) t \<Longrightarrow> gl (Any # ts) (u @ t)"
proof -
  assume "gl (Any # ts) t"
  then obtain n where "n \<le> length t" "gl ts (drop n t)" by auto
  then show ?thesis by (auto intro!: exI [of _ "length u + n"])
qed

section \<open>Finding the parts of a pattern in order\<close>

text \<open>What is left after the first place where a list of characters occurs.\<close>

fun after_first :: "byte list \<Rightarrow> byte list \<Rightarrow> byte list option" where
  "after_first sub [] = (if sub = [] then Some [] else None)"
| "after_first sub (c # cs) = (if prefix sub (c # cs) then Some (drop (length sub) (c # cs)) else after_first sub cs)"

lemma find_subchunk_ok:
  "seg rm rb re cs \<Longrightarrow> find_subchunk sub rm rb re = Some (map_option (\<lambda>t. re - length t) (after_first sub cs)) \<and>
     (\<forall>t. after_first sub cs = Some t \<longrightarrow> seg rm (re - length t) re t)"
proof (induction cs arbitrary: rb)
  case Nil
  then show ?case by (subst find_subchunk.simps) (auto simp: rd_range_def)
next
  case (Cons c cs)
  have len: "re = rb + length (c # cs)" by (rule seg_length [OF Cons.prems])
  have tl: "seg rm (rb + 1) re cs" using Cons.prems by (simp add: seg_Cons)
  show ?case
  proof (cases "length sub \<le> length (c # cs)")
    case True
    let ?r = "take (length sub) (c # cs)" and ?t = "drop (length sub) (c # cs)"
    have "seg rm rb re (?r @ ?t)" using Cons.prems by simp
    then have s: "seg rm rb (rb + length ?r) ?r" "seg rm (rb + length ?r) re ?t" unfolding seg_append by blast+
    have l: "length ?r = length sub" using True by (metis length_take min.absorb2)
    have r: "rd_range rm rb (length sub) = Some ?r" using seg_range [OF s(1)] unfolding l .
    have p: "prefix sub (c # cs) \<longleftrightarrow> ?r = sub" by (metis append_eq_conv_conj prefix_def append_take_drop_id)
    have e: "re - length ?t = rb + length sub" using len True by simp
    have "rb + length sub \<le> re" using True len by simp
    then show ?thesis
      using r p e s(2) l Cons.IH [OF tl] by (subst find_subchunk.simps) (simp del: take_Cons drop_Cons length_drop)
  next
    case False
    have "\<not> prefix sub (c # cs)" using False prefix_length_le by blast
    moreover have "after_first sub cs = None" using False
    proof (induction cs)
      case (Cons d cs)
      then have "\<not> prefix sub (d # cs)" using prefix_length_le [of sub "d # cs"] by auto
      then show ?case using Cons by auto
    qed auto
    ultimately show ?thesis using False len by (subst find_subchunk.simps) simp
  qed
qed

lemma gl_lits: "gl (map Lit l @ ts) t \<longleftrightarrow> prefix l t \<and> gl ts (drop (length l) t)"
  by (induction l arbitrary: t) (auto split: list.splits)

lemma gl_Any_Cons: "gl (Any # ts) (c # cs) \<longleftrightarrow> gl ts (c # cs) \<or> gl (Any # ts) cs"
proof
  assume "gl (Any # ts) (c # cs)"
  then obtain n where n: "n \<le> length (c # cs)" "gl ts (drop n (c # cs))" by auto
  then show "gl ts (c # cs) \<or> gl (Any # ts) cs" by (cases n) auto
next
  assume "gl ts (c # cs) \<or> gl (Any # ts) cs"
  then show "gl (Any # ts) (c # cs)"
  proof
    assume "gl (Any # ts) cs"
    then show ?thesis using gl_Any_mono [of ts cs "[c]"] by simp
  qed (auto intro: exI [of _ 0])
qed

text \<open>To take the first place is enough.\<close>

lemma greedy:
  "gl (Any # map Lit l @ Any # ts) cs \<longleftrightarrow> (\<exists>t. after_first l cs = Some t \<and> gl (Any # ts) t)"
proof (induction cs)
  case Nil
  then show ?case by (cases l) auto
next
  case (Cons c cs)
  show ?case
  proof (cases "prefix l (c # cs)")
    case True
    have "gl (Any # ts) (drop (length l) (c # cs))" if g: "gl (Any # map Lit l @ Any # ts) (c # cs)"
    proof -
      obtain n where n: "n \<le> length (c # cs)" "gl (map Lit l @ Any # ts) (drop n (c # cs))" using g by (auto simp del: drop_Cons)
      then have "gl (Any # ts) (drop (length l + n) (c # cs))" unfolding gl_lits by (simp only: drop_drop)
      moreover have "drop (length l) (c # cs) = take n (drop (length l) (c # cs)) @ drop (length l + n) (c # cs)"
        by (metis append_take_drop_id drop_drop add.commute)
      ultimately show ?thesis using gl_Any_mono by metis
    qed
    moreover have "gl (Any # map Lit l @ Any # ts) (c # cs)" if "gl (Any # ts) (drop (length l) (c # cs))"
    proof -
      have "gl (map Lit l @ Any # ts) (c # cs)" using True that unfolding gl_lits by blast
      then show ?thesis unfolding gl_Any_Cons by blast
    qed
    ultimately show ?thesis using True by auto
  next
    case False
    then have "\<not> gl (map Lit l @ Any # ts) (c # cs)" unfolding gl_lits by blast
    then show ?thesis using False Cons unfolding gl_Any_Cons by simp
  qed
qed

lemma after_first_lits: "gl (Any # map Lit l @ [Any]) cs \<longleftrightarrow> after_first l cs \<noteq> None"
  using greedy [of l "[]" cs] gl_Any by auto

text \<open>A pattern starts with characters, up to its first open place.\<close>

lemma split_lits: "\<exists>l us. ts = map Lit l @ us \<and> (us = [] \<or> (\<exists>vs. us = Any # vs))"
proof (induction ts)
  case (Cons t ts)
  then obtain l us where lu: "ts = map Lit l @ us" "us = [] \<or> (\<exists>vs. us = Any # vs)" by blast
  show ?case
  proof (cases t)
    case Any
    then have "t # ts = map Lit [] @ Any # ts" by simp
    then show ?thesis by blast
  next
    case (Lit c)
    then have "t # ts = map Lit (c # l) @ us" using lu(1) by simp
    then show ?thesis using lu(2) by blast
  qed
qed simp

definition anchored :: "tok list \<Rightarrow> bool" where
  "anchored ts \<longleftrightarrow> ts \<noteq> [] \<and> hd ts \<noteq> Any \<and> last ts \<noteq> Any"

lemma toks_ok_append: "toks_ok (ts @ us) \<longleftrightarrow> toks_ok ts \<and> toks_ok us \<and> \<not> (ts \<noteq> [] \<and> last ts = Any \<and> us \<noteq> [] \<and> hd us = Any)"
proof (induction ts)
  case (Cons t ts)
  then show ?case by (cases t; cases ts; cases us) (auto split: tok.splits list.splits)
qed simp

lemma flat_lits [simp]: "flat (map Lit l) = l"
  by (induction l) simp_all

lemma toks_ok_lits: "toks_ok (map Lit l) \<longleftrightarrow> list_all lit l"
  by (induction l) auto

lemma contains_all_ok:
  assumes "seg lm lb le (flat ts)" "toks_ok ts" "anchored ts" "seg rm rb re cs"
  shows "z_chunk_right_contains_all_stardsl_subchunks_of_left lm lb le rm rb re = Some (gl (Any # ts @ [Any]) cs)"
  using assms
proof (induction "length ts" arbitrary: ts lb rb cs rule: less_induct)
  case less
  obtain l us where ts: "ts = map Lit l @ us" "us = [] \<or> (\<exists>vs. us = Any # vs)" using split_lits by blast
  have lits: "Z_DSL0 \<notin> set l" using less.prems(2) by (auto simp: ts(1) toks_ok_append toks_ok_lits lit_def list_all_iff)
  have find: "find_subchunk l rm rb re = Some (map_option (\<lambda>t. re - length t) (after_first l cs))"
    "\<And>t. after_first l cs = Some t \<Longrightarrow> seg rm (re - length t) re t"
    using find_subchunk_ok [OF less.prems(4), of l] by blast+
  show ?case
  proof (cases "us = []")
    case True
    then have l: "seg lm lb le l" using less.prems(1) ts(1) by simp
    show ?thesis
      using memchr_none [OF l lits] seg_range [OF l] seg_length [OF l] find(1) after_first_lits [of l cs] ts(1) True
      by (subst z_chunk_right_contains_all_stardsl_subchunks_of_left.simps) (auto simp: Let_def split: option.splits)
  next
    case False
    then obtain vs where us: "us = Any # vs" using ts(2) by blast
    have s: "seg lm lb le (l @ Z_DSL0 # Z_DSL1 # flat vs)" using less.prems(1) ts(1) us by simp
    then have l: "seg lm lb (lb + length l) l" and v: "seg lm (lb + length l + 1 + 1) le (flat vs)"
      unfolding seg_append seg_Cons by blast+
    have ok: "toks_ok vs" "vs \<noteq> [] \<Longrightarrow> hd vs \<noteq> Any" using less.prems(2) ts(1) us by (auto simp: toks_ok_append split: list.splits tok.splits)
    have "vs \<noteq> []" using less.prems(3) ts(1) us by (auto simp: anchored_def)
    then have anc: "anchored vs" using less.prems(3) ok(2) ts(1) us by (auto simp: anchored_def)
    have lt: "length vs < length ts" using ts(1) us by simp
    have g: "gl (Any # ts @ [Any]) cs \<longleftrightarrow> (\<exists>t. after_first l cs = Some t \<and> gl (Any # vs @ [Any]) t)"
      using greedy [of l "vs @ [Any]" cs] ts(1) us by simp
    have v': "seg lm (lb + (length l + Z_DSL_LEN)) le (flat vs)" using v by (simp add: Z_DSL_LEN_def)
    show ?thesis
      using memchr_some [OF s lits] seg_range [OF l] find g less.hyps [OF lt v' ok(1) anc]
      by (subst z_chunk_right_contains_all_stardsl_subchunks_of_left.simps) (auto simp: Let_def split: option.splits)
  qed
qed

section \<open>Chunks with open places\<close>

definition plain :: "byte list \<Rightarrow> bool" where
  "plain cs \<longleftrightarrow> list_all lit cs"

lemma plain_simps [simp]: "plain []" "plain (c # cs) \<longleftrightarrow> lit c \<and> plain cs" "plain (cs @ ds) \<longleftrightarrow> plain cs \<and> plain ds"
  by (simp_all add: plain_def)

lemma lit_neq: "lit c \<Longrightarrow> c \<noteq> Z_DSL0" "lit c \<Longrightarrow> c \<noteq> Z_DSL1" "lit c \<Longrightarrow> c \<noteq> Z_STAR" "lit c \<Longrightarrow> c \<noteq> Z_DELIMITER"
  by (auto simp: lit_def Z_DSL1_def Z_STAR_def)

lemma plain_not_in: "plain cs \<Longrightarrow> Z_DSL0 \<notin> set cs" "plain cs \<Longrightarrow> Z_DELIMITER \<notin> set cs" "plain cs \<Longrightarrow> Z_STAR \<notin> set cs"
  by (auto simp: plain_def list_all_iff lit_def)

lemma special_ok:
  assumes "seg lm lb le (flat ts)" "toks_ok ts" "anchored ts" "seg rm rb re cs" "plain cs"
  shows "z_chunk_special i lm lb le rm rb re = Some (gl (Any # ts @ [Any]) cs)"
  using memchr_none [OF assms(4) plain_not_in(1) [OF assms(5)]] contains_all_ok [OF assms(1-4)]
  by (simp add: z_chunk_special_def z_chunk_contains_stardsl_def)

lemma anchored_between:
  assumes "toks_ok (Any # ts @ [Any])"
  shows "anchored ts" "toks_ok ts"
proof -
  have a: "toks_ok (ts @ [Any])" "case ts @ [Any] of Any # _ \<Rightarrow> False | _ \<Rightarrow> True" using assms by simp_all
  then show "toks_ok ts" by (simp add: toks_ok_append)
  show "anchored ts" using a by (cases ts) (auto simp: anchored_def toks_ok_append split: tok.splits)
qed

lemma fb_loop:
  assumes "seg lm lb le (flat ts)" "toks_ok (Any # ts)" "seg rm rb re cs" "plain cs"
  shows "chunk_forward_backward_loop i lm lb le rm rb re = Some (gl (Any # ts) cs)"
  using assms
proof (induction ts arbitrary: le re cs rule: rev_induct)
  case Nil
  then show ?case using gl_Any [of cs] by (subst chunk_forward_backward_loop.simps) simp
next
  case (snoc t ts)
  have lt: "lb < le" using seg_length [OF snoc.prems(1)] by (cases t) simp_all
  show ?case
  proof (cases cs rule: rev_cases)
    case Nil
    have "\<not> gl (ts @ [t]) []" using snoc.prems(2) by (cases t; cases ts) (auto simp: gl_snoc_Lit_Nil split: tok.splits)
    then show ?thesis using Nil snoc.prems(3) lt by (subst chunk_forward_backward_loop.simps) simp
  next
    case (snoc ds d)
    have r: "rb < re" "seg rm rb (re - 1) ds" "rd rm (re - 1) = Some d" using snoc.prems(3) unfolding snoc seg_snoc by blast+
    have d: "lit d" "plain ds" using snoc.prems(4) snoc by simp_all
    show ?thesis
    proof (cases t)
      case (Lit x)
      have "seg lm lb le (flat ts @ [x])" using snoc.prems(1) Lit by simp
      then have l: "seg lm lb (le - 1) (flat ts)" "rd lm (le - 1) = Some x" unfolding seg_snoc by blast+
      have x: "lit x" "toks_ok (Any # ts)" using snoc.prems(2) Lit by (auto simp: toks_ok_append split: tok.splits list.splits)
      have "gl (Any # ts @ [t]) cs \<longleftrightarrow> x = d \<and> gl (Any # ts) ds" using gl_snoc_Lit [of "Any # ts" x ds d] Lit snoc by simp
      then show ?thesis using lt r l x d lit_neq snoc.IH [OF l(1) x(2) r(2) d(2)]
        by (subst chunk_forward_backward_loop.simps) (auto simp del: gl.simps)
    next
      case Any
      have "seg lm lb le ((flat ts @ [Z_DSL0]) @ [Z_DSL1])" using snoc.prems(1) Any by simp
      then have l: "seg lm lb (le - 1 - 1) (flat ts)" "rd lm (le - 1) = Some Z_DSL1" "le - 1 > lb" unfolding seg_snoc by blast+
      have a: "anchored ts" "toks_ok ts" using anchored_between snoc.prems(2) Any by blast+
      have l': "seg lm lb (le - Z_DSL_LEN) (flat ts)" "\<not> le < Z_DSL_LEN" using l by (simp_all add: Z_DSL_LEN_def numeral_2_eq_2)
      show ?thesis
        using lt r l l' d lit_neq special_ok [OF l'(1) a(2,1) snoc.prems(3,4), of i] Any
        by (subst chunk_forward_backward_loop.simps) (auto simp del: gl.simps)
    qed
  qed
qed

lemma bf_loop:
  assumes "seg lm lb le (flat ts)" "toks_ok (ts @ [Any])" "seg rm rb re cs" "plain cs"
  shows "chunk_backward_forward_loop i lm lb le rm rb re = Some (gl (ts @ [Any]) cs)"
  using assms
proof (induction ts arbitrary: lb rb cs)
  case Nil
  then show ?case using gl_Any [of cs] by (subst chunk_backward_forward_loop.simps) simp
next
  case (Cons t ts)
  have lt: "lb < le" using seg_length [OF Cons.prems(1)] by (cases t) simp_all
  show ?case
  proof (cases cs)
    case Nil
    have "\<not> gl ((t # ts) @ [Any]) []" using Cons.prems(2) by (cases t; cases ts) (auto split: tok.splits)
    then show ?thesis using Nil Cons.prems(3) lt by (subst chunk_backward_forward_loop.simps) simp
  next
    case (Cons d ds)
    have r: "rb < re" "seg rm (rb + 1) re ds" "rd rm rb = Some d" using Cons.prems(3) seg_length [OF Cons.prems(3)] unfolding Cons seg_Cons by simp_all
    have d: "lit d" "plain ds" using Cons.prems(4) Cons by simp_all
    show ?thesis
    proof (cases t)
      case (Lit x)
      have l: "seg lm (lb + 1) le (flat ts)" "rd lm lb = Some x" using Cons.prems(1) Lit by (simp_all add: seg_Cons)
      have x: "lit x" "toks_ok (ts @ [Any])" using Cons.prems(2) Lit by simp_all
      have "gl ((t # ts) @ [Any]) cs \<longleftrightarrow> x = d \<and> gl (ts @ [Any]) ds" using Lit Cons by simp
      then show ?thesis using lt r l x d lit_neq Cons.IH [OF l(1) x(2) r(2) d(2)]
        by (subst chunk_backward_forward_loop.simps) auto
    next
      case Any
      have l: "seg lm (lb + 2) le (flat ts)" "rd lm lb = Some Z_DSL0" using Cons.prems(1) Any by (simp_all add: seg_Cons)
      have a: "anchored ts" "toks_ok ts" using anchored_between [of ts] Cons.prems(2) Any by simp_all
      show ?thesis
        using lt r l d lit_neq special_ok [OF l(1) a(2,1) Cons.prems(3,4), of i] Any
        by (subst chunk_backward_forward_loop.simps) (auto simp del: gl.simps)
    qed
  qed
qed


section \<open>Chunks in a string\<close>

definition stops :: "byte list \<Rightarrow> nat \<Rightarrow> nat \<Rightarrow> bool" where
  "stops m e k \<longleftrightarrow> k \<le> length m \<and> (e = k \<or> e < k \<and> rd m e = Some Z_DELIMITER)"

definition starts :: "byte list \<Rightarrow> nat \<Rightarrow> nat \<Rightarrow> bool" where
  "starts m k b \<longleftrightarrow> b = k \<or> k < b \<and> rd m (b - 1) = Some Z_DELIMITER"

lemma z_chunk_end_ok:
  assumes "seg m b e p" "Z_DELIMITER \<notin> set p" "stops m e k"
  shows "z_chunk_end m b k = Some e"
proof (cases "e = k")
  case True
  then show ?thesis using memchr_none [OF assms(1,2)] by (simp add: z_chunk_end_def)
next
  case False
  then have k: "e < k" "rd m e = Some Z_DELIMITER" "k \<le> length m" using assms(3) by (simp_all add: stops_def)
  have "seg m (e + 1) k (take (k - (e + 1)) (drop (e + 1) m))" using k by (simp add: seg_def)
  then have "seg m e k (Z_DELIMITER # take (k - (e + 1)) (drop (e + 1) m))" using k(2) unfolding seg_Cons by blast
  then have "seg m b k (p @ Z_DELIMITER # take (k - (e + 1)) (drop (e + 1) m))"
    using assms(1) seg_length [OF assms(1)] unfolding seg_append by simp
  then show ?thesis using memchr_some [OF _ assms(2)] seg_length [OF assms(1)] by (simp add: z_chunk_end_def)
qed

lemma z_chunk_begin_ok: "seg m b e p \<Longrightarrow> Z_DELIMITER \<notin> set p \<Longrightarrow> starts m k b \<Longrightarrow> z_chunk_begin m k e = Some b"
proof (induction p arbitrary: e rule: rev_induct)
  case Nil
  then show ?case by (subst z_chunk_begin.simps) (auto simp: starts_def)
next
  case (snoc x p)
  have "seg m b (e - 1) p" "rd m (e - 1) = Some x" "b < e" using snoc.prems(1) unfolding seg_snoc by blast+
  then show ?case using snoc.IH [of "e - 1"] snoc.prems(2,3) by (subst z_chunk_begin.simps) (auto simp: starts_def)
qed

text \<open>The chunks of an expression.\<close>

datatype pchunk = DStar | Star | Pat "tok list"

fun pbytes :: "pchunk \<Rightarrow> byte list" where
  "pbytes DStar = [Z_STAR, Z_STAR]"
| "pbytes Star = [Z_STAR]"
| "pbytes (Pat ts) = flat ts"

text \<open>A chunk is verbatim when it begins with the sign for it, which occurs nowhere else.\<close>

definition verb :: "byte list \<Rightarrow> bool" where
  "verb c \<longleftrightarrow> c \<noteq> [] \<and> hd c = Z_VERBATIM"

fun pchunk_ok :: "pchunk \<Rightarrow> bool" where
  "pchunk_ok DStar \<longleftrightarrow> True"
| "pchunk_ok Star \<longleftrightarrow> True"
| "pchunk_ok (Pat ts) \<longleftrightarrow> ts \<noteq> [] \<and> ts \<noteq> [Any] \<and> toks_ok ts \<and> Lit Z_VERBATIM \<notin> set (tl ts)"

definition kchunk_ok :: "byte list \<Rightarrow> bool" where
  "kchunk_ok c \<longleftrightarrow> c \<noteq> [] \<and> plain c \<and> Z_VERBATIM \<notin> set (tl c)"

text \<open>What a chunk other than the double star matches.\<close>

fun cmatch :: "pchunk \<Rightarrow> byte list \<Rightarrow> bool" where
  "cmatch DStar c \<longleftrightarrow> False"
| "cmatch Star c \<longleftrightarrow> \<not> verb c"
| "cmatch (Pat ts) c \<longleftrightarrow> gl ts c \<and> verb (flat ts) = verb c"

lemma flat_no_delimiter: "toks_ok ts \<Longrightarrow> Z_DELIMITER \<notin> set (flat ts)"
proof (induction ts)
  case (Cons t ts)
  then show ?case by (cases t) (auto simp: lit_def Z_DSL0_def Z_DSL1_def Z_DELIMITER_def)
qed simp

lemma pbytes_no_delimiter: "pchunk_ok p \<Longrightarrow> Z_DELIMITER \<notin> set (pbytes p)"
  using flat_no_delimiter by (cases p) (auto simp: Z_STAR_def Z_DELIMITER_def)

lemma flat_Nil [simp]: "flat ts = [] \<longleftrightarrow> ts = []"
  by (cases ts rule: list.exhaust) (auto simp: flat_def split: tok.splits elim: tok_bytes.elims)

lemma pbytes_Nil: "pchunk_ok p \<Longrightarrow> pbytes p \<noteq> []"
proof (cases p)
  case (Pat ts)
  then show "pchunk_ok p \<Longrightarrow> ?thesis" by (cases ts; cases "hd ts") auto
qed auto

section \<open>Forward\<close>

lemma signs [simp]:
  "Z_DSL0 \<noteq> Z_DELIMITER" "Z_DSL1 \<noteq> Z_DELIMITER" "Z_STAR \<noteq> Z_DELIMITER" "Z_STAR \<noteq> Z_DSL0" "Z_DSL0 \<noteq> Z_STAR" "Z_DSL0 \<noteq> Z_DSL1"
  "Z_VERBATIM \<noteq> Z_DELIMITER" "Z_VERBATIM \<noteq> Z_STAR" "Z_STAR \<noteq> Z_VERBATIM" "Z_VERBATIM \<noteq> Z_DSL0" "Z_DSL0 \<noteq> Z_VERBATIM"
  "Z_DELIMITER \<noteq> Z_DSL0" "Z_DELIMITER \<noteq> Z_STAR" "Z_DELIMITER \<noteq> Z_VERBATIM"
  by (simp_all add: Z_DSL0_def Z_DSL1_def Z_STAR_def Z_DELIMITER_def Z_VERBATIM_def)

definition fwd_is :: "bool \<Rightarrow> nat \<Rightarrow> nat \<Rightarrow> z_chunk_forward_match_data_t option \<Rightarrow> bool" where
  "fwd_is b le re r \<longleftrightarrow> (\<exists>d. r = Some d \<and> cf_result d = yes_if b \<and> (b \<longrightarrow> cf_lend d = le \<and> cf_rend d = re))"

lemma forward_exhausted_ok:
  assumes "seg m b e p" "Z_DELIMITER \<notin> set p" "stops m e k"
  shows "forward_exhausted m b k = Some (p = [])"
proof (cases p)
  case Nil
  then show ?thesis using assms by (auto simp: forward_exhausted_def stops_def)
next
  case (Cons c q)
  then have "rd m b = Some c" "b \<noteq> k" using assms seg_length [OF assms(1)] by (auto simp: seg_Cons stops_def)
  then show ?thesis using Cons assms(2) by (auto simp: forward_exhausted_def)
qed

lemma is_stardsl_ok:
  assumes "seg lm lb le (flat ts)" "toks_ok ts" "stops lm le lk" "ts \<noteq> []"
  shows "z_chunk_is_stardsl lm lb lk = Some (ts = [Any])"
proof (cases ts)
  case (Cons t us)
  show ?thesis
  proof (cases t)
    case (Lit c)
    then show ?thesis using assms Cons by (auto simp: z_chunk_is_stardsl_def seg_Cons lit_def)
  next
    case Any
    then have s: "rd lm lb = Some Z_DSL0" "seg lm (lb + 2) le (flat us)" using assms(1) Cons by (auto simp: seg_Cons)
    show ?thesis
    proof (cases us)
      case Nil
      then show ?thesis using s Any Cons assms(3) by (auto simp: z_chunk_is_stardsl_def stops_def Z_DSL_LEN_def)
    next
      case (Cons u vs)
      then obtain c where c: "u = Lit c" "lit c" using assms(2) Any \<open>ts = t # us\<close> by (cases u) auto
      then have "rd lm (lb + 2) = Some c" "lb + 2 < le" using s(2) seg_length [OF s(2)] Cons by (auto simp: seg_Cons)
      then show ?thesis using s c Cons Any \<open>ts = t # us\<close> assms(3) by (auto simp: z_chunk_is_stardsl_def Z_DSL_LEN_def lit_def stops_def)
    qed
  qed
qed (use assms in simp)

lemma forward_finish:
  assumes "seg lm lb le (flat ts)" "toks_ok ts" "stops lm le lk" "seg rm rb re cs" "plain cs" "stops rm re rk"
  assumes "ts = [] \<or> cs = []"
  shows "fwd_is (gl ts cs) le re (chunk_forward_finish i lm lb lk rm rb rk)"
proof -
  have ex: "forward_exhausted lm lb lk = Some (ts = [])" "forward_exhausted rm rb rk = Some (cs = [])"
    using forward_exhausted_ok [OF assms(1) flat_no_delimiter [OF assms(2)] assms(3)]
      forward_exhausted_ok [OF assms(4) plain_not_in(2) [OF assms(5)] assms(6)]
    by simp_all
  show ?thesis
  proof (cases "ts = []")
    case True
    have "z_chunk_is_stardsl rm rb rk = Some False" if "cs \<noteq> []"
      using that assms(4,5) by (cases cs) (auto simp: z_chunk_is_stardsl_def seg_Cons lit_def)
    then show ?thesis using True ex assms(1,4) by (auto simp: chunk_forward_finish_def fwd_is_def yes_if_def forward_no_def)
  next
    case False
    then have cs: "cs = []" using assms(7) by blast
    have g: "gl ts [] \<longleftrightarrow> ts = [Any]" using False assms(2) by (cases ts; cases "hd ts"; cases "tl ts") (auto split: tok.splits)
    have "le = lb + Z_DSL_LEN" if "ts = [Any]" using that assms(1) seg_length [OF assms(1)] by (simp add: Z_DSL_LEN_def)
    then show ?thesis using False ex cs is_stardsl_ok [OF assms(1-3) False] assms(4) g
      by (auto simp: chunk_forward_finish_def fwd_is_def yes_if_def forward_no_def)
  qed
qed


lemma forward_loop:
  assumes "seg lm lb le (flat ts)" "toks_ok ts" "stops lm le lk" "seg rm rb re cs" "plain cs" "stops rm re rk"
  shows "fwd_is (gl ts cs) le re (chunk_forward_loop i lm lb lk rm rb rk)"
  using assms
proof (induction ts arbitrary: lb rb cs)
  case Nil
  have "\<not> lb < lk \<or> rd lm lb = Some Z_DELIMITER" using Nil.prems(1,3) by (auto simp: stops_def)
  then have "chunk_forward_loop i lm lb lk rm rb rk = chunk_forward_finish i lm lb lk rm rb rk" if "cs = [] \<or> rd rm rb = Some (hd cs)"
    using that Nil.prems(4,6) by (subst chunk_forward_loop.simps) (auto simp: stops_def)
  moreover have "cs = [] \<or> rd rm rb = Some (hd cs)" using Nil.prems(4) by (cases cs) (auto simp: seg_Cons)
  ultimately show ?case using forward_finish [OF Nil.prems, of i] by simp
next
  case (Cons t ts)
  have lt: "lb < lk" using seg_length [OF Cons.prems(1)] Cons.prems(3) by (cases t) (auto simp: stops_def)
  obtain x where x: "rd lm lb = Some x" "x \<noteq> Z_DELIMITER" using Cons.prems(1,2) by (cases t) (auto simp: seg_Cons lit_def)
  show ?case
  proof (cases cs)
    case Nil
    have "\<not> rb < rk \<or> rd rm rb = Some Z_DELIMITER" using Nil Cons.prems(4,6) by (auto simp: stops_def)
    then have "chunk_forward_loop i lm lb lk rm rb rk = chunk_forward_finish i lm lb lk rm rb rk"
      using x by (subst chunk_forward_loop.simps) auto
    then show ?thesis using forward_finish [OF Cons.prems, of i] Nil by simp
  next
    case (Cons d ds)
    have r: "rb < rk" "seg rm (rb + 1) re ds" "rd rm rb = Some d" "lit d" "plain ds"
      using Cons.prems(4-6) seg_length [OF Cons.prems(4)] Cons by (auto simp: seg_Cons stops_def)
    show ?thesis
    proof (cases t)
      case (Lit c)
      have l: "seg lm (lb + 1) le (flat ts)" "toks_ok ts" "x = c" "lit c" using Cons.prems(1,2) Lit x by (simp_all add: seg_Cons)
      show ?thesis
        using lt r l x lit_neq Lit Cons Cons.IH [OF l(1,2) Cons.prems(3) r(2,5) Cons.prems(6)]
        by (subst chunk_forward_loop.simps) (auto simp: fwd_is_def yes_if_def forward_no_def)
    next
      case Any
      have l: "seg lm (lb + Z_DSL_LEN) le (flat ts)" "x = Z_DSL0" using Cons.prems(1) Any x by (simp_all add: seg_Cons Z_DSL_LEN_def)
      have e: "z_chunk_end lm (lb + Z_DSL_LEN) lk = Some le" "z_chunk_end rm rb rk = Some re"
        using z_chunk_end_ok [OF l(1) _ Cons.prems(3)] flat_no_delimiter [of ts] Cons.prems(2) Any
          z_chunk_end_ok [OF Cons.prems(4) plain_not_in(2) [OF Cons.prems(5)] Cons.prems(6)] by simp_all
      have f: "chunk_forward_backward_loop i lm (lb + Z_DSL_LEN) le rm rb re = Some (gl (Any # ts) cs)"
        using Cons.prems(2) Any by (intro fb_loop [OF l(1) _ Cons.prems(4,5)]) simp
      show ?thesis
        using lt r l x e f Any lit_neq
        by (subst chunk_forward_loop.simps) (auto simp: fwd_is_def z_chunk_forward_backward_def simp del: gl.simps)
    qed
  qed
qed

text \<open>A range of the left string that is the chunk \<open>p\<close>, and of the right string that is \<open>c\<close>.\<close>

lemma forward_superwild_plain:
  assumes "rd m b = Some x" "x \<noteq> Z_STAR"
  shows "forward_superwild m b k (x = Z_STAR) = Some False"
  using assms by (simp add: forward_superwild_def)

lemma kchunk_hd:
  assumes "kchunk_ok c" "seg m b e c"
  obtains x where "rd m b = Some x" "lit x" "verb c \<longleftrightarrow> x = Z_VERBATIM" "b < e"
  using assms seg_length [OF assms(2)] by (cases c) (auto simp: kchunk_ok_def verb_def seg_Cons)

lemma forward_ok:
  assumes "seg lm lb le (pbytes p)" "pchunk_ok p" "stops lm le lk" "seg rm rb re c" "kchunk_ok c" "stops rm re rk" "p \<noteq> DStar"
  shows "fwd_is (cmatch p c) le re (z_chunk_forward i lm lb lk rm rb rk)"
proof -
  obtain y where y: "rd rm rb = Some y" "lit y" "verb c \<longleftrightarrow> y = Z_VERBATIM" by (rule kchunk_hd [OF assms(5,4)])
  have pl: "plain c" using assms(5) by (simp add: kchunk_ok_def)
  have e: "z_chunk_end rm rb rk = Some re" by (rule z_chunk_end_ok [OF assms(4) plain_not_in(2) [OF pl] assms(6)])
  show ?thesis
  proof (cases p)
    case Star
    then have s: "rd lm lb = Some Z_STAR" "le = lb + 1" using assms(1) by (simp_all add: seg_single)
    then have "forward_superwild lm lb lk True = Some False" using assms(3) by (auto simp: forward_superwild_def stops_def)
    then show ?thesis using s y e Star lit_neq
      by (auto simp: z_chunk_forward_def forward_superwild_def fwd_is_def yes_if_def forward_no_def)
  next
    case (Pat ts)
    then obtain t us where ts: "ts = t # us" using assms(2) by (cases ts) auto
    obtain x where x: "rd lm lb = Some x" "x \<noteq> Z_STAR" "verb (flat ts) \<longleftrightarrow> x = Z_VERBATIM"
      using assms(1,2) Pat ts by (cases t) (auto simp: seg_Cons lit_def verb_def)
    have l: "fwd_is (gl ts c) le re (chunk_forward_loop i lm lb lk rm rb rk)"
      using forward_loop [OF _ _ assms(3,4) pl assms(6)] assms(1,2) Pat by simp
    show ?thesis using x y l Pat lit_neq
      by (auto simp: z_chunk_forward_def forward_superwild_def fwd_is_def yes_if_def forward_no_def)
  qed (use assms in simp)
qed

lemma forward_double:
  assumes "seg lm lb le (pbytes DStar)" "stops lm le lk" "seg rm rb re c" "kchunk_ok c" "stops rm re rk"
  shows "z_chunk_forward i lm lb lk rm rb rk = Some (forward_no\<lparr>cf_result := Z_CHUNK_MATCH_RESULT_LEFT_SUPERWILD\<rparr>)"
proof -
  obtain y where y: "rd rm rb = Some y" "lit y" by (rule kchunk_hd [OF assms(4,3)])
  have s: "rd lm lb = Some Z_STAR" "rd lm (lb + 1) = Some Z_STAR" "le = lb + 2" using assms(1) by (auto simp: seg_Cons)
  have "lb + 2 \<le> lk" using assms(2) s by (auto simp: stops_def)
  then show ?thesis using s y lit_neq by (simp add: z_chunk_forward_def forward_superwild_def)
qed


section \<open>Backward\<close>

definition bwd_is :: "bool \<Rightarrow> nat \<Rightarrow> nat \<Rightarrow> z_chunk_backward_match_data_t option \<Rightarrow> bool" where
  "bwd_is b lb rb r \<longleftrightarrow> (\<exists>d. r = Some d \<and> cb_result d = yes_if b \<and> (b \<longrightarrow> cb_lbegin d = lb \<and> cb_rbegin d = rb))"

lemma backward_exhausted_ok:
  assumes "seg m b e p" "Z_DELIMITER \<notin> set p" "starts m k b"
  shows "backward_exhausted m k e = Some (p = [])"
proof (cases p rule: rev_cases)
  case Nil
  then show ?thesis using assms by (auto simp: backward_exhausted_def starts_def)
next
  case (snoc q c)
  then have "rd m (e - 1) = Some c" "b < e" using assms by (auto simp: seg_snoc)
  then show ?thesis using snoc assms(2,3) by (auto simp: backward_exhausted_def starts_def)
qed

lemma is_stardsl_backward_ok:
  assumes "seg lm lb le (flat ts)" "toks_ok ts" "starts lm lk lb" "ts \<noteq> []"
  shows "z_chunk_is_stardsl_backward lm lk le = Some (ts = [Any])"
proof (cases ts rule: rev_cases)
  case (snoc us t)
  show ?thesis
  proof (cases t)
    case (Lit c)
    then have "seg lm lb le (flat us @ [c])" "lit c" using assms(1,2) snoc by (auto simp: toks_ok_append)
    then show ?thesis using snoc Lit lit_neq unfolding seg_snoc by (auto simp: z_chunk_is_stardsl_backward_def)
  next
    case Any
    have "seg lm lb le ((flat us @ [Z_DSL0]) @ [Z_DSL1])" using assms(1) snoc Any by simp
    then have s: "seg lm lb (le - 1 - 1) (flat us)" "rd lm (le - 1) = Some Z_DSL1" "lb < le - 1" unfolding seg_snoc by blast+
    have lk: "lk \<le> lb" using assms(3) by (auto simp: starts_def)
    show ?thesis
    proof (cases us rule: rev_cases)
      case Nil
      then show ?thesis using s snoc Any assms(3) by (auto simp: z_chunk_is_stardsl_backward_def starts_def numeral_3_eq_3)
    next
      case (snoc vs u)
      then obtain c where c: "u = Lit c" "lit c" using assms(2) Any \<open>ts = us @ [t]\<close> by (cases u) (auto simp: toks_ok_append)
      have "seg lm lb (le - 1 - 1) (flat vs @ [c])" using s(1) snoc c by simp
      then have c': "rd lm (le - 1 - 1 - 1) = Some c" "lb < le - 1 - 1" unfolding seg_snoc by blast+
      have "rd lm (le - 3) = Some c" using c'(1) by (simp add: numeral_3_eq_3)
      then show ?thesis using s c c' lk snoc Any \<open>ts = us @ [t]\<close> by (auto simp: z_chunk_is_stardsl_backward_def lit_def)
    qed
  qed
qed (use assms in simp)

lemma backward_finish:
  assumes "seg lm lb le (flat ts)" "toks_ok ts" "starts lm lk lb" "seg rm rb re cs" "plain cs" "starts rm rk rb"
  assumes "ts = [] \<or> cs = []"
  shows "bwd_is (gl ts cs) lb rb (chunk_backward_finish i lm lk le rm rk re)"
proof -
  have ex: "backward_exhausted lm lk le = Some (ts = [])" "backward_exhausted rm rk re = Some (cs = [])"
    using backward_exhausted_ok [OF assms(1) flat_no_delimiter [OF assms(2)] assms(3)]
      backward_exhausted_ok [OF assms(4) plain_not_in(2) [OF assms(5)] assms(6)] by simp_all
  show ?thesis
  proof (cases "ts = []")
    case True
    have "z_chunk_is_stardsl_backward rm rk re = Some False" if "cs \<noteq> []"
    proof -
      have "seg rm rb re (butlast cs @ [last cs])" "lit (last cs)" using that assms(4,5) by (auto simp: plain_def list_all_iff)
      then show ?thesis using lit_neq unfolding seg_snoc by (auto simp: z_chunk_is_stardsl_backward_def)
    qed
    then show ?thesis using True ex assms(1,4) by (auto simp: chunk_backward_finish_def bwd_is_def yes_if_def backward_no_def)
  next
    case False
    then have cs: "cs = []" using assms(7) by blast
    have g: "gl ts [] \<longleftrightarrow> ts = [Any]" using False assms(2) by (cases ts; cases "hd ts"; cases "tl ts") (auto split: tok.splits)
    have "le - Z_DSL_LEN = lb" if "ts = [Any]" using that assms(1) seg_length [OF assms(1)] by (simp add: Z_DSL_LEN_def)
    then show ?thesis using False ex cs is_stardsl_backward_ok [OF assms(1-3) False] assms(4) g
      by (auto simp: chunk_backward_finish_def bwd_is_def yes_if_def backward_no_def)
  qed
qed

text \<open>The verbatim sign is compared only where something is left of both chunks.\<close>

definition same_verb :: "tok list \<Rightarrow> byte list \<Rightarrow> bool" where
  "same_verb ts cs \<longleftrightarrow> (ts \<noteq> [] \<and> cs \<noteq> [] \<longrightarrow> verb (flat ts) = verb cs)"

lemma same_verb_snoc:
  assumes "toks_ok (ts @ [Lit c])" "Lit Z_VERBATIM \<notin> set (tl (ts @ [Lit c]))" "gl ts cs"
  shows "same_verb (ts @ [Lit c]) (cs @ [c]) \<longleftrightarrow> same_verb ts cs"
proof (cases ts)
  case Nil
  then show ?thesis using assms(3) by (simp add: same_verb_def verb_def)
next
  case (Cons t us)
  show ?thesis
  proof (cases cs)
    case Nil
    then show ?thesis using assms Cons by (cases t) (auto simp: same_verb_def verb_def)
  next
    case (Cons d ds)
    then show ?thesis using \<open>ts = t # us\<close> by (cases t) (auto simp: same_verb_def verb_def)
  qed
qed

lemma hd_rd: "seg m b e p \<Longrightarrow> p \<noteq> [] \<Longrightarrow> rd m b = Some (hd p)"
  by (cases p) (simp_all add: seg_Cons)

lemma seg_last:
  assumes "seg m b e p" "p \<noteq> []"
  shows "rd m (e - 1) = Some (last p)" "b < e" "seg m b (e - 1) (butlast p)"
  using assms append_butlast_last_id [OF assms(2)] seg_snoc [of m b e "butlast p" "last p"] by simp_all

lemma backward_loop_any:
  assumes "seg lm lb le (flat (ts @ [Any]))" "toks_ok (ts @ [Any])" "starts lm lk lb" "seg rm rb re cs" "plain cs" "starts rm rk rb" "cs \<noteq> []"
  shows "bwd_is (gl (ts @ [Any]) cs \<and> same_verb (ts @ [Any]) cs) lb rb (chunk_backward_loop i lm lk le rm rk re)"
proof -
  have "seg lm lb le ((flat ts @ [Z_DSL0]) @ [Z_DSL1])" using assms(1) by simp
  then have s: "seg lm lb (le - 1 - 1) (flat ts)" "rd lm (le - 1) = Some Z_DSL1" "lb < le - 1" unfolding seg_snoc by blast+
  have s': "seg lm lb (le - Z_DSL_LEN) (flat ts)" "\<not> le < Z_DSL_LEN" using s by (simp_all add: Z_DSL_LEN_def numeral_2_eq_2)
  have ts: "toks_ok ts" using assms(2) by (simp add: toks_ok_append)
  have b: "z_chunk_begin lm lk (le - Z_DSL_LEN) = Some lb" "z_chunk_begin rm rk re = Some rb"
    using z_chunk_begin_ok [OF s'(1) flat_no_delimiter [OF ts] assms(3)]
      z_chunk_begin_ok [OF assms(4) plain_not_in(2) [OF assms(5)] assms(6)] by blast+
  have f: "chunk_backward_forward_loop i lm lb (le - Z_DSL_LEN) rm rb re = Some (gl (ts @ [Any]) cs)"
    by (rule bf_loop [OF s'(1) assms(2,4,5)])
  have u: "rd lm lb = Some (hd (flat (ts @ [Any])))" "rd rm rb = Some (hd cs)"
    using hd_rd [OF assms(1)] hd_rd [OF assms(4,7)] by simp_all
  have v: "same_verb (ts @ [Any]) cs \<longleftrightarrow> (hd (flat (ts @ [Any])) = Z_VERBATIM) = (hd cs = Z_VERBATIM)"
    using assms(7) by (simp add: same_verb_def verb_def del: flat_simps)
  have r: "lit (last cs)" "rd rm (re - 1) = Some (last cs)" "rb < re"
    using seg_last [OF assms(4,7)] assms(5,7) by (simp_all add: plain_def list_all_iff)
  have lk: "lk < le" "rk < re" using s(3) r(3) assms(3,6) by (auto simp: starts_def)
  have "chunk_backward_loop i lm lk le rm rk re = z_chunk_backward_forward i lm lk (le - Z_DSL_LEN) rm rk re"
    using lk s(2) s'(2) r lit_neq by (subst chunk_backward_loop.simps) (simp add: Z_DSL1_def Z_DELIMITER_def)
  then show ?thesis using b f u v by (simp add: z_chunk_backward_forward_def bwd_is_def yes_if_def backward_no_def del: flat_simps)
qed

lemma backward_step:
  assumes "lk < le" "rk < re" "rd lm (le - 1) = Some c" "rd rm (re - 1) = Some d" "lit c" "lit d"
  shows "chunk_backward_loop i lm lk le rm rk re =
    (if c = d then chunk_backward_loop i lm lk (le - 1) rm rk (re - 1) else Some backward_no)"
  using assms lit_neq(2,4) [OF assms(5)] lit_neq(2,4) [OF assms(6)] by (subst chunk_backward_loop.simps) simp

lemma backward_loop:
  assumes "seg lm lb le (flat ts)" "toks_ok ts" "starts lm lk lb" "seg rm rb re cs" "plain cs" "starts rm rk rb"
    "Lit Z_VERBATIM \<notin> set (tl ts)"
  shows "bwd_is (gl ts cs \<and> same_verb ts cs) lb rb (chunk_backward_loop i lm lk le rm rk re)"
  using assms
proof (induction ts arbitrary: le re cs rule: rev_induct)
  case Nil
  have 1: "\<not> lk < le \<or> rd lm (le - 1) = Some Z_DELIMITER" using Nil.prems(1,3) by (auto simp: starts_def)
  have 2: "cs = [] \<or> rd rm (re - 1) = Some (last cs)" "rb \<le> re" using Nil.prems(4) by (cases cs rule: rev_cases; auto simp: seg_snoc)+
  have "chunk_backward_loop i lm lk le rm rk re = chunk_backward_finish i lm lk le rm rk re"
    using 1 2 Nil.prems(4,6) by (subst chunk_backward_loop.simps) (auto simp: starts_def)
  then show ?case using backward_finish [OF Nil.prems(1-6), of i] by (simp add: same_verb_def)
next
  case (snoc t ts)
  have lk: "lk \<le> lb" "rk \<le> rb" using snoc.prems(3,6) by (auto simp: starts_def)
  have l: "lb < le" "rd lm (le - 1) = Some (last (flat (ts @ [t])))" using seg_last [OF snoc.prems(1)] by simp_all
  have "last (flat (ts @ [t])) \<in> set (flat (ts @ [t]))" by (rule last_in_set) simp
  then have x: "last (flat (ts @ [t])) \<noteq> Z_DELIMITER" using flat_no_delimiter [OF snoc.prems(2)] by metis
  show ?case
  proof (cases cs rule: rev_cases)
    case Nil
    have "\<not> rk < re \<or> rd rm (re - 1) = Some Z_DELIMITER" using Nil snoc.prems(4,6) by (auto simp: starts_def)
    then have "chunk_backward_loop i lm lk le rm rk re = chunk_backward_finish i lm lk le rm rk re"
      using l by (subst chunk_backward_loop.simps) auto
    then show ?thesis using backward_finish [OF snoc.prems(1-6), of i] Nil by (simp add: same_verb_def)
  next
    case (snoc ds d)
    have r: "rb < re" "seg rm rb (re - 1) ds" "rd rm (re - 1) = Some d" using snoc.prems(4) unfolding snoc seg_snoc by blast+
    have d: "lit d" "plain ds" using snoc.prems(5) snoc by simp_all
    show ?thesis
    proof (cases t)
      case (Lit c)
      have "seg lm lb le (flat ts @ [c])" using snoc.prems(1) Lit by simp
      then have l': "seg lm lb (le - 1) (flat ts)" "rd lm (le - 1) = Some c" unfolding seg_snoc by blast+
      have c: "lit c" "toks_ok ts" using snoc.prems(2) Lit by (simp_all add: toks_ok_append)
      have nv: "Lit Z_VERBATIM \<notin> set (tl ts)" using snoc.prems(7) by (cases ts) simp_all
      have g: "gl (ts @ [t]) cs \<longleftrightarrow> c = d \<and> gl ts ds" using gl_snoc_Lit Lit snoc by simp
      have v: "same_verb (ts @ [t]) cs \<longleftrightarrow> same_verb ts ds" if "c = d" "gl ts ds"
        using same_verb_snoc [of ts c ds] snoc.prems(2,7) that Lit snoc by simp
      have b: "lk < le" "rk < re" using l(1) r(1) lk by simp_all
      have "chunk_backward_loop i lm lk le rm rk re =
          (if c = d then chunk_backward_loop i lm lk (le - 1) rm rk (re - 1) else Some backward_no)"
        by (rule backward_step [OF b l'(2) r(3) c(1) d(1)])
      moreover have "gl (ts @ [t]) cs \<and> same_verb (ts @ [t]) cs \<longleftrightarrow> c = d \<and> gl ts ds \<and> same_verb ts ds" using g v by blast
      ultimately show ?thesis using snoc.IH [OF l'(1) c(2) snoc.prems(3) r(2) d(2) snoc.prems(6) nv]
        by (simp add: bwd_is_def yes_if_def backward_no_def)
    next
      case Any
      then show ?thesis using backward_loop_any [of lm lb le ts lk rm rb re cs rk i] snoc.prems \<open>cs = ds @ [d]\<close> by simp
    qed
  qed
qed


lemma flat_last:
  assumes "toks_ok ts" "ts \<noteq> []" "last (flat ts) = Z_STAR"
  shows "\<exists>us. flat ts = us @ [Z_DSL0, Z_STAR]"
proof (cases ts rule: rev_cases)
  case (snoc us t)
  then show ?thesis
  proof (cases t)
    case (Lit c)
    then have "lit c" "last (flat ts) = c" using assms(1) snoc by (simp_all add: toks_ok_append)
    then show ?thesis using assms(3) lit_neq by blast
  next
    case Any
    then show ?thesis using snoc by (auto simp: Z_DSL1_def Z_STAR_def)
  qed
qed (use assms in simp)

text \<open>The last character of a chunk with open places may be a star, but then a dollar is before it.\<close>

lemma backward_stars_pat:
  assumes "seg m b e (flat ts)" "toks_ok ts" "ts \<noteq> []" "k \<le> b"
  shows "\<exists>x. rd m (e - 1) = Some x \<and> e \<noteq> 0 \<and> backward_superwild m k e (x = Z_STAR) = Some False \<and>
    backward_wild m k e (x = Z_STAR) = Some False"
proof -
  have l: "rd m (e - 1) = Some (last (flat ts))" "b < e" using seg_last [OF assms(1)] assms(3) by simp_all
  show ?thesis
  proof (cases "last (flat ts) = Z_STAR")
    case True
    obtain us where "flat ts = us @ [Z_DSL0, Z_STAR]" using flat_last [OF assms(2,3) True] by blast
    then have "seg m b e ((us @ [Z_DSL0]) @ [Z_STAR])" using assms(1) by simp
    then have s: "rd m (e - 1 - 1) = Some Z_DSL0" "b < e - 1" unfolding seg_snoc by blast+
    then have "rd m (e - 2) = Some Z_DSL0" by (simp add: numeral_2_eq_2)
    then show ?thesis using l s True assms(4) by (auto simp: backward_superwild_def backward_wild_def)
  next
    case False
    then show ?thesis using l by (auto simp: backward_superwild_def backward_wild_def)
  qed
qed

lemma backward_stars_plain:
  assumes "seg m b e c" "kchunk_ok c"
  shows "\<exists>x. rd m (e - 1) = Some x \<and> e \<noteq> 0 \<and> x \<noteq> Z_STAR"
proof -
  have "c \<noteq> []" "lit (last c)" using assms(2) by (auto simp: kchunk_ok_def plain_def list_all_iff)
  then show ?thesis using seg_last [OF assms(1)] lit_neq by auto
qed

lemma backward_ok:
  assumes "seg lm lb le (pbytes p)" "pchunk_ok p" "starts lm lk lb" "seg rm rb re c" "kchunk_ok c" "starts rm rk rb" "p \<noteq> DStar"
  shows "bwd_is (cmatch p c) lb rb (z_chunk_backward i lm lk le rm rk re)"
proof -
  have lk: "lk \<le> lb" "rk \<le> rb" using assms(3,6) by (auto simp: starts_def)
  obtain y where y: "rd rm rb = Some y" "verb c \<longleftrightarrow> y = Z_VERBATIM" by (rule kchunk_hd [OF assms(5,4)])
  obtain z where z: "rd rm (re - 1) = Some z" "re \<noteq> 0" "z \<noteq> Z_STAR" using backward_stars_plain [OF assms(4,5)] by blast
  have pl: "plain c" using assms(5) by (simp add: kchunk_ok_def)
  have b: "z_chunk_begin rm rk re = Some rb" by (rule z_chunk_begin_ok [OF assms(4) plain_not_in(2) [OF pl] assms(6)])
  show ?thesis
  proof (cases p)
    case Star
    then have s: "rd lm lb = Some Z_STAR" "le = lb + 1" using assms(1) by (simp_all add: seg_single)
    have "backward_superwild lm lk le True = Some False" "backward_wild lm lk le True = Some True"
      using s assms(3) by (auto simp: backward_superwild_def backward_wild_def starts_def numeral_2_eq_2)
    then show ?thesis using s y z b Star
      by (auto simp: z_chunk_backward_def backward_superwild_def backward_wild_def bwd_is_def yes_if_def)
  next
    case (Pat ts)
    then have ts: "ts \<noteq> []" "toks_ok ts" "Lit Z_VERBATIM \<notin> set (tl ts)" using assms(2) by simp_all
    have sl: "seg lm lb le (flat ts)" using assms(1) Pat by simp
    obtain x where x: "rd lm (le - 1) = Some x" "le \<noteq> 0" "backward_superwild lm lk le (x = Z_STAR) = Some False"
      "backward_wild lm lk le (x = Z_STAR) = Some False" using backward_stars_pat [OF sl ts(2,1) lk(1)] by blast
    have "z_chunk_backward i lm lk le rm rk re = chunk_backward_loop i lm lk le rm rk re"
      using x z by (simp add: z_chunk_backward_def backward_superwild_def backward_wild_def)
    moreover have "c \<noteq> []" using assms(5) by (simp add: kchunk_ok_def)
    ultimately show ?thesis using backward_loop [OF sl ts(2) assms(3,4) pl assms(6) ts(3), of i] Pat ts(1)
      by (simp add: same_verb_def)
  qed (use assms in simp)
qed

lemma backward_double:
  assumes "seg lm lb le (pbytes DStar)" "starts lm lk lb" "seg rm rb re c" "kchunk_ok c" "starts rm rk rb"
  shows "z_chunk_backward i lm lk le rm rk re = Some (backward_no\<lparr>cb_result := Z_CHUNK_MATCH_RESULT_LEFT_SUPERWILD\<rparr>)"
proof -
  obtain z where z: "rd rm (re - 1) = Some z" "re \<noteq> 0" "z \<noteq> Z_STAR" using backward_stars_plain [OF assms(3,4)] by blast
  have "rd lm lb = Some Z_STAR" "rd lm (lb + 1) = Some Z_STAR" "le = lb + 2" "lk \<le> lb" using assms(1,2) by (auto simp: seg_Cons starts_def)
  then show ?thesis using z by (simp add: z_chunk_backward_def backward_superwild_def)
qed

end
