(* ===== verification/Zp_KeLaws.thy ===== *)
theory Zp_KeLaws imports Zp_KeChunk
begin

text \<open>
  The matcher decides what an expression means: \<open>key_match\<close> says which keys an expression matches,
  and both the inclusion and the intersection of an expression and a key are found to be that.
\<close>

section \<open>Lists of chunks in a string\<close>

fun join :: "byte list list \<Rightarrow> byte list" where
  "join [] = []"
| "join [c] = c"
| "join (c # d # cs) = c @ Z_DELIMITER # join (d # cs)"

definition kat :: "byte list \<Rightarrow> nat \<Rightarrow> nat \<Rightarrow> byte list list \<Rightarrow> bool" where
  "kat m b k cs \<longleftrightarrow> k \<le> length m \<and> (if cs = [] then k \<le> b else seg m b k (join cs))"

definition is_chunk :: "byte list \<Rightarrow> bool" where
  "is_chunk c \<longleftrightarrow> c \<noteq> [] \<and> Z_DELIMITER \<notin> set c"

lemma join_Cons: "cs \<noteq> [] \<Longrightarrow> join (c # cs) = c @ Z_DELIMITER # join cs"
  by (cases cs) auto

lemma join_append: "cs \<noteq> [] \<Longrightarrow> ds \<noteq> [] \<Longrightarrow> join (cs @ ds) = join cs @ Z_DELIMITER # join ds"
proof (induction cs)
  case (Cons c cs)
  then show ?case by (cases cs) (auto simp: join_Cons)
qed simp

lemma kat_Nil [simp]: "kat m b k [] \<longleftrightarrow> k \<le> length m \<and> k \<le> b"
  by (simp add: kat_def)

lemma kat_ConsD:
  assumes "kat m b k (c # cs)"
  shows "seg m b (b + length c) c" "stops m (b + length c) k" "kat m (b + length c + 1) k cs" "b + length c \<le> k"
proof -
  have "seg m b (b + length c) c \<and> stops m (b + length c) k \<and> kat m (b + length c + 1) k cs \<and> b + length c \<le> k"
  proof (cases "cs = []")
    case True
    then show ?thesis using assms seg_length [of m b k c] by (auto simp: kat_def stops_def)
  next
    case False
    then have "seg m b k (c @ Z_DELIMITER # join cs)" "k \<le> length m" using assms by (auto simp: kat_def join_Cons)
    then show ?thesis using False seg_length [of m "b + length c + 1" k "join cs"]
      unfolding seg_append seg_Cons by (auto simp: kat_def stops_def)
  qed
  then show "seg m b (b + length c) c" "stops m (b + length c) k" "kat m (b + length c + 1) k cs" "b + length c \<le> k" by blast+
qed

lemma kat_less: "kat m b k (c # cs) \<Longrightarrow> is_chunk c \<Longrightarrow> b < k"
  using kat_ConsD(4) [of m b k c cs] by (cases c) (auto simp: is_chunk_def)

lemma kat_nonempty: "kat m b k cs \<Longrightarrow> list_all is_chunk cs \<Longrightarrow> b < k \<longleftrightarrow> cs \<noteq> []"
  using kat_less by (cases cs) auto

lemma kat_ConsI: "seg m b e c \<Longrightarrow> rd m e = Some Z_DELIMITER \<Longrightarrow> kat m (e + 1) k cs \<Longrightarrow> cs \<noteq> [] \<Longrightarrow> kat m b k (c # cs)"
  using seg_length [of m b e c] by (auto simp: kat_def join_Cons seg_append seg_Cons)

lemma kat_snocD:
  assumes "kat m b k (cs @ [c])"
  shows "\<exists>s. seg m s k c \<and> starts m b s \<and> (s = b \<longleftrightarrow> cs = []) \<and> (cs \<noteq> [] \<longrightarrow> 0 < s \<and> kat m b (s - 1) cs)"
proof (cases "cs = []")
  case True
  then show ?thesis using assms by (auto simp: kat_def starts_def)
next
  case False
  then have s: "seg m b k (join cs @ Z_DELIMITER # c)" "k \<le> length m" using assms by (auto simp: kat_def join_append)
  let ?s = "b + length (join cs)"
  have "seg m b ?s (join cs)" "rd m ?s = Some Z_DELIMITER" "seg m (?s + 1) k c" using s(1) unfolding seg_append seg_Cons by blast+
  then show ?thesis using False s(2) by (intro exI [of _ "?s + 1"]) (auto simp: kat_def starts_def seg_def)
qed

lemma kat_append:
  assumes "kat m b k (cs @ ds)" "cs \<noteq> []" "ds \<noteq> []"
  shows "kat m b (b + length (join cs)) cs" "kat m (b + length (join cs) + 1) k ds" "rd m (b + length (join cs)) = Some Z_DELIMITER"
proof -
  have s: "seg m b k (join cs @ Z_DELIMITER # join ds)" "k \<le> length m" using assms by (auto simp: kat_def join_append)
  then have "seg m b (b + length (join cs)) (join cs)" "rd m (b + length (join cs)) = Some Z_DELIMITER"
    "seg m (b + length (join cs) + 1) k (join ds)" unfolding seg_append seg_Cons by blast+
  then show "kat m b (b + length (join cs)) cs" "kat m (b + length (join cs) + 1) k ds" "rd m (b + length (join cs)) = Some Z_DELIMITER"
    using assms s(2) by (auto simp: kat_def seg_def)
qed

lemma chunk_pbytes: "pchunk_ok p \<Longrightarrow> is_chunk (pbytes p)"
  using pbytes_Nil pbytes_no_delimiter by (auto simp: is_chunk_def)

lemma chunk_kchunk: "kchunk_ok c \<Longrightarrow> is_chunk c"
  using plain_not_in by (auto simp: is_chunk_def kchunk_ok_def)

lemma chunks_pbytes: "list_all pchunk_ok ps \<Longrightarrow> list_all is_chunk (map pbytes ps)"
  by (auto simp: list_all_iff intro: chunk_pbytes)

lemma chunks_kchunk: "list_all kchunk_ok cs \<Longrightarrow> list_all is_chunk cs"
  by (auto simp: list_all_iff intro: chunk_kchunk)

section \<open>What an expression matches\<close>

text \<open>The double star stands for any number of chunks that are not verbatim.\<close>

fun key_match :: "pchunk list \<Rightarrow> byte list list \<Rightarrow> bool" where
  "key_match [] cs \<longleftrightarrow> cs = []"
| "key_match (p # ps) cs \<longleftrightarrow>
     (if p = DStar then \<exists>n \<le> length cs. list_all (\<lambda>c. \<not> verb c) (take n cs) \<and> key_match ps (drop n cs)
      else case cs of [] \<Rightarrow> False | c # cs' \<Rightarrow> cmatch p c \<and> key_match ps cs')"

definition free :: "byte list list \<Rightarrow> bool" where
  "free cs \<longleftrightarrow> list_all (\<lambda>c. \<not> verb c) cs"

lemma free_simps [simp]: "free []" "free (c # cs) \<longleftrightarrow> \<not> verb c \<and> free cs" "free (cs @ ds) \<longleftrightarrow> free cs \<and> free ds"
  by (simp_all add: free_def)

lemma key_match_append: "key_match (ps @ qs) cs \<longleftrightarrow> (\<exists>as bs. cs = as @ bs \<and> key_match ps as \<and> key_match qs bs)"
proof (induction ps arbitrary: cs)
  case (Cons p ps)
  show ?case
  proof (cases "p = DStar")
    case True
    show ?thesis
    proof
      assume "key_match ((p # ps) @ qs) cs"
      then obtain n as bs where n: "n \<le> length cs" "list_all (\<lambda>c. \<not> verb c) (take n cs)" "drop n cs = as @ bs" "key_match ps as" "key_match qs bs"
        using True Cons.IH by auto
      then have "cs = (take n cs @ as) @ bs" by (metis append.assoc append_take_drop_id)
      moreover have "key_match (p # ps) (take n cs @ as)" using True n by (auto intro!: exI [of _ n])
      ultimately show "\<exists>as bs. cs = as @ bs \<and> key_match (p # ps) as \<and> key_match qs bs" using n(5) by blast
    next
      assume "\<exists>as bs. cs = as @ bs \<and> key_match (p # ps) as \<and> key_match qs bs"
      then obtain as bs n where n: "cs = as @ bs" "n \<le> length as" "list_all (\<lambda>c. \<not> verb c) (take n as)" "key_match ps (drop n as)" "key_match qs bs"
        using True by auto
      then have "key_match (ps @ qs) (drop n as @ bs)" using Cons.IH by blast
      then show "key_match ((p # ps) @ qs) cs" using True n by (auto intro!: exI [of _ n])
    qed
  next
    case False
    show ?thesis
    proof
      assume "key_match ((p # ps) @ qs) cs"
      then obtain c as bs where "cs = c # as @ bs" "cmatch p c" "key_match ps as" "key_match qs bs" using False Cons.IH by (auto split: list.splits)
      then show "\<exists>as bs. cs = as @ bs \<and> key_match (p # ps) as \<and> key_match qs bs"
        using False by (intro exI [of _ "c # as"] exI [of _ bs]) simp
    next
      assume "\<exists>as bs. cs = as @ bs \<and> key_match (p # ps) as \<and> key_match qs bs"
      then obtain as bs where "cs = as @ bs" "key_match (p # ps) as" "key_match qs bs" by blast
      then show "key_match ((p # ps) @ qs) cs" using False Cons.IH by (auto split: list.splits)
    qed
  qed
qed simp

lemma key_match_single: "p \<noteq> DStar \<Longrightarrow> key_match [p] cs \<longleftrightarrow> (\<exists>c. cs = [c] \<and> cmatch p c)"
  by (auto split: list.splits)

lemma key_match_snoc: "p \<noteq> DStar \<Longrightarrow> key_match (ps @ [p]) (cs @ [c]) \<longleftrightarrow> cmatch p c \<and> key_match ps cs"
  unfolding key_match_append key_match_single by auto

lemma key_match_double: "key_match [DStar] cs \<longleftrightarrow> free cs"
proof
  assume "free cs"
  then show "key_match [DStar] cs" by (auto simp: free_def intro!: exI [of _ "length cs"])
qed (auto simp: free_def)

lemma key_match_empty: "key_match ps [] \<longleftrightarrow> (\<forall>p \<in> set ps. p = DStar)"
  by (induction ps) auto


section \<open>The loops\<close>

lemma rd_Some: "seg m b e (x # xs) \<Longrightarrow> rd m b = Some x"
  by (simp add: seg_Cons)

lemma lit_signs [simp]: "\<not> lit Z_STAR" "\<not> lit Z_DSL0" "\<not> lit Z_DSL1" "\<not> lit Z_DELIMITER"
  using lit_neq by blast+

lemma flat_not_stars: "toks_ok ts \<Longrightarrow> flat ts \<noteq> [Z_STAR, x]"
proof (cases ts)
  case (Cons t us)
  then show "toks_ok ts \<Longrightarrow> ?thesis" by (cases t) auto
qed simp

text \<open>What is left of an expression is the double star exactly when two stars are.\<close>

lemma is_double_star_kat:
  assumes "kat m b k (map pbytes ps)" "list_all pchunk_ok ps" "ps \<noteq> []"
  shows "z_keyexpr_is_double_star m b k = Some (ps = [DStar])"
proof -
  have s: "seg m b k (join (map pbytes ps))" using assms by (simp add: kat_def)
  have rds: "\<exists>x y. rd m b = Some x \<and> rd m (b + 1) = Some y \<and> join (map pbytes ps) = [x, y]" if "k = b + 2"
  proof -
    have "length (join (map pbytes ps)) = 2" using that seg_length [OF s] by simp
    then obtain x y where "join (map pbytes ps) = [x, y]" by (auto simp: numeral_2_eq_2 length_Suc_conv)
    then show ?thesis using s by (auto simp: seg_Cons)
  qed
  have two: "ps = [DStar]" if j: "join (map pbytes ps) = [Z_STAR, Z_STAR]"
  proof (cases ps)
    case (Cons p qs)
    have p: "pchunk_ok p" using assms(2) Cons by simp
    show ?thesis
    proof (cases qs)
      case Nil
      then have "pbytes p = [Z_STAR, Z_STAR]" using j Cons by simp
      then show ?thesis using Cons Nil p flat_not_stars by (cases p) auto
    next
      case (Cons q rs)
      then have "pbytes p @ Z_DELIMITER # join (map pbytes qs) = [Z_STAR, Z_STAR]" using j \<open>ps = p # qs\<close> by (simp add: join_Cons)
      then have "set (pbytes p @ Z_DELIMITER # join (map pbytes qs)) = set [Z_STAR, Z_STAR]" by (rule arg_cong)
      then have "Z_DELIMITER \<in> {Z_STAR}" by auto
      then show ?thesis by simp
    qed
  qed (use assms in simp)
  show ?thesis
  proof (cases "k = b + 2")
    case True
    then show ?thesis using rds two by (auto simp: z_keyexpr_is_double_star_def)
  next
    case False
    then show ?thesis using s seg_length [OF s] by (auto simp: z_keyexpr_is_double_star_def)
  qed
qed

lemma is_double_star_plain:
  assumes "kat m b k cs" "list_all kchunk_ok cs" "cs \<noteq> []"
  shows "z_keyexpr_is_double_star m b k = Some False"
proof -
  obtain c ds where c: "cs = c # ds" "kchunk_ok c" using assms by (cases cs) auto
  obtain x where "rd m b = Some x" "lit x" using kchunk_hd [OF c(2) kat_ConsD(1)] assms(1) c(1) by metis
  moreover have "k \<le> length m" using assms by (simp add: kat_def)
  ultimately show ?thesis using lit_neq by (auto simp: z_keyexpr_is_double_star_def rd_def)
qed

text \<open>No expression has two double stars in a row.\<close>

fun adj :: "pchunk list \<Rightarrow> bool" where
  "adj (DStar # DStar # ps) \<longleftrightarrow> False"
| "adj (p # ps) \<longleftrightarrow> adj ps"
| "adj [] \<longleftrightarrow> True"

lemma adj_tl: "adj (p # ps) \<Longrightarrow> adj ps"
  by (cases p; cases ps; cases "hd ps") auto

lemma adj_append: "adj (ps @ qs) \<Longrightarrow> adj ps \<and> adj qs"
proof (induction ps)
  case (Cons p ps)
  then have "adj ps" "adj qs" using adj_tl by auto
  then show ?case using Cons.prems by (cases p; cases ps; cases "hd ps") auto
qed simp

lemma adj_double: "adj (DStar # ps) \<Longrightarrow> ps \<noteq> [] \<Longrightarrow> hd ps \<noteq> DStar"
  by (cases ps; cases "hd ps") auto

lemma adj_empty: "adj ps \<Longrightarrow> (\<forall>p \<in> set ps. p = DStar) \<longleftrightarrow> ps = [] \<or> ps = [DStar]"
  by (cases ps; cases "hd ps"; cases "tl ps"; cases "hd (tl ps)") auto

lemma finish_ok:
  assumes "kat lm lb lk (map pbytes ps)" "list_all pchunk_ok ps" "adj ps" "kat rm rb rk cs" "list_all kchunk_ok cs" "ps = [] \<or> cs = []"
  shows "keyexpr_finish i lm lb lk rm rb rk = Some (key_match ps cs)"
proof (cases "ps = []")
  case True
  then show ?thesis using assms(1,4,5) kat_nonempty [OF assms(4) chunks_kchunk] is_double_star_plain [OF assms(4,5)]
    by (auto simp: keyexpr_finish_def)
next
  case False
  then have "cs = []" using assms(6) by blast
  moreover have "lb < lk" using kat_nonempty [OF assms(1) chunks_pbytes [OF assms(2)]] False by simp
  ultimately show ?thesis
    using assms(4) is_double_star_kat [OF assms(1,2) False] adj_empty [OF assms(3)] key_match_empty [of ps] False
    by (auto simp: keyexpr_finish_def)
qed


subsection \<open>Between two double stars\<close>

text \<open>The chunks of an expression without double stars match the first chunks of a key.\<close>

fun pre_match :: "pchunk list \<Rightarrow> byte list list \<Rightarrow> bool" where
  "pre_match [] cs \<longleftrightarrow> True"
| "pre_match (p # ps) cs \<longleftrightarrow> (case cs of [] \<Rightarrow> False | c # cs' \<Rightarrow> cmatch p c \<and> pre_match ps cs')"

fun occurs :: "pchunk list \<Rightarrow> byte list list \<Rightarrow> bool" where
  "occurs ps [] \<longleftrightarrow> pre_match ps []"
| "occurs ps (c # cs) \<longleftrightarrow> pre_match ps (c # cs) \<or> occurs ps cs"

lemma pre_match_iff:
  "DStar \<notin> set ps \<Longrightarrow> pre_match ps cs \<longleftrightarrow> (\<exists>as bs. cs = as @ bs \<and> key_match ps as)"
proof (induction ps arbitrary: cs)
  case (Cons p ps)
  show ?case
  proof (cases cs)
    case (Cons c ds)
    have "pre_match (p # ps) cs \<longleftrightarrow> cmatch p c \<and> (\<exists>as bs. ds = as @ bs \<and> key_match ps as)" using Cons.IH Cons.prems Cons by simp
    also have "\<dots> \<longleftrightarrow> (\<exists>as bs. cs = as @ bs \<and> key_match (p # ps) as)"
    proof
      assume "cmatch p c \<and> (\<exists>as bs. ds = as @ bs \<and> key_match ps as)"
      then obtain as bs where "cmatch p c" "ds = as @ bs" "key_match ps as" by blast
      then show "\<exists>as bs. cs = as @ bs \<and> key_match (p # ps) as"
        using Cons Cons.prems by (intro exI [of _ "c # as"] exI [of _ bs]) auto
    next
      assume "\<exists>as bs. cs = as @ bs \<and> key_match (p # ps) as"
      then obtain as bs where a: "cs = as @ bs" "key_match (p # ps) as" by blast
      then show "cmatch p c \<and> (\<exists>as bs. ds = as @ bs \<and> key_match ps as)"
        using Cons Cons.prems by (cases as) auto
    qed
    finally show ?thesis .
  qed (use Cons.prems in auto)
qed auto

lemma occurs_iff: "occurs ps cs \<longleftrightarrow> (\<exists>n \<le> length cs. pre_match ps (drop n cs))"
proof (induction cs)
  case (Cons c cs)
  show ?case
  proof
    assume "occurs ps (c # cs)"
    then show "\<exists>n \<le> length (c # cs). pre_match ps (drop n (c # cs))"
    proof (cases "pre_match ps (c # cs)")
      case False
      then obtain n where "n \<le> length cs" "pre_match ps (drop n cs)" using Cons.IH \<open>occurs ps (c # cs)\<close> by auto
      then show ?thesis by (intro exI [of _ "Suc n"]) simp
    qed (intro exI [of _ 0], simp)
  next
    assume "\<exists>n \<le> length (c # cs). pre_match ps (drop n (c # cs))"
    then obtain n where "n \<le> length (c # cs)" "pre_match ps (drop n (c # cs))" by blast
    then show "occurs ps (c # cs)" using Cons.IH by (cases n) auto
  qed
qed simp

lemma key_match_between:
  assumes "DStar \<notin> set ps" "free cs"
  shows "key_match (DStar # ps @ [DStar]) cs \<longleftrightarrow> occurs ps cs"
proof -
  have f: "free (take n cs)" "free (drop n cs)" for n using assms(2) by (auto simp: free_def list_all_iff dest: in_set_takeD in_set_dropD)
  have "key_match (ps @ [DStar]) ds \<longleftrightarrow> pre_match ps ds" if "free ds" for ds
  proof
    assume "pre_match ps ds"
    then obtain as bs where "ds = as @ bs" "key_match ps as" using pre_match_iff [OF assms(1)] by blast
    moreover then have "key_match [DStar] bs" using that key_match_double by simp
    ultimately show "key_match (ps @ [DStar]) ds" unfolding key_match_append by blast
  qed (auto simp: key_match_append pre_match_iff [OF assms(1)])
  then show ?thesis using f by (auto simp: occurs_iff free_def)
qed

lemma pre_match_length: "pre_match ps cs \<Longrightarrow> length ps \<le> length cs"
  by (induction ps arbitrary: cs) (auto split: list.splits)

lemma occurs_length: "occurs ps cs \<Longrightarrow> length ps \<le> length cs"
  by (induction cs) (auto dest: pre_match_length)

lemma pre_match_drop:
  "i \<le> length ps \<Longrightarrow> i \<le> length cs \<Longrightarrow> pre_match (take i ps) cs \<Longrightarrow> pre_match ps cs \<longleftrightarrow> pre_match (drop i ps) (drop i cs)"
proof (induction i arbitrary: ps cs)
  case (Suc i)
  obtain p qs where p: "ps = p # qs" using Suc.prems(1) by (cases ps) auto
  obtain c ds where c: "cs = c # ds" using Suc.prems(2) by (cases cs) auto
  have "pre_match qs ds \<longleftrightarrow> pre_match (drop i qs) (drop i ds)" using Suc.prems p c by (intro Suc.IH) auto
  then show ?case using Suc.prems(3) p c by simp
qed simp

lemma pre_match_take_Suc:
  "i < length ps \<Longrightarrow> i < length cs \<Longrightarrow> pre_match (take (Suc i) ps) cs \<longleftrightarrow> pre_match (take i ps) cs \<and> cmatch (ps ! i) (cs ! i)"
proof (induction i arbitrary: ps cs)
  case 0
  then obtain p qs c ds where "ps = p # qs" "cs = c # ds" by (cases ps; cases cs) auto
  then show ?case by simp
next
  case (Suc i)
  obtain p qs where p: "ps = p # qs" using Suc.prems(1) by (cases ps) auto
  obtain c ds where c: "cs = c # ds" using Suc.prems(2) by (cases cs) auto
  have "pre_match (take (Suc i) qs) ds \<longleftrightarrow> pre_match (take i qs) ds \<and> cmatch (qs ! i) (ds ! i)"
    using Suc.prems p c by (intro Suc.IH) auto
  then show ?case using p c by simp
qed

text \<open>No two stars are in a row in a text with no double star.\<close>

fun no_two :: "byte list \<Rightarrow> bool" where
  "no_two (x # y # xs) \<longleftrightarrow> \<not> (x = Z_STAR \<and> y = Z_STAR) \<and> no_two (y # xs)"
| "no_two [] \<longleftrightarrow> True"
| "no_two [x] \<longleftrightarrow> True"

lemma no_two_append: "no_two (xs @ ys) \<longleftrightarrow> no_two xs \<and> no_two ys \<and> \<not> (xs \<noteq> [] \<and> ys \<noteq> [] \<and> last xs = Z_STAR \<and> hd ys = Z_STAR)"
proof (induction xs rule: no_two.induct)
  case (3 x)
  then show ?case by (cases ys) auto
qed auto

lemma next_double_star_none: "seg m b e xs \<Longrightarrow> no_two xs \<Longrightarrow> z_keyexpr_get_next_double_star_chunk m b e = Some None"
proof (induction "length xs" arbitrary: b xs rule: less_induct)
  case less
  have len: "e = b + length xs" by (rule seg_length [OF less.prems(1)])
  show ?case
  proof (cases "b + 1 < e")
    case True
    then have ne: "xs \<noteq> []" using len by auto
    have s: "seg m b (e - 1) (butlast xs)" by (rule seg_last [OF less.prems(1) ne])
    show ?thesis
    proof (cases "Z_STAR \<in> set (butlast xs)")
      case False
      then show ?thesis using True memchr_none [OF s] by (subst z_keyexpr_get_next_double_star_chunk.simps) simp
    next
      case star: True
      obtain ys zs where yz: "butlast xs = ys @ Z_STAR # zs" "Z_STAR \<notin> set ys" using split_list_first [OF star] by blast
      then have x: "xs = ys @ Z_STAR # zs @ [last xs]" using append_butlast_last_id [OF ne] by simp
      obtain y us where us: "zs @ [last xs] = y # us" by (cases zs) auto
      have xs: "xs = ys @ Z_STAR # y # us" using x us by simp
      have r: "rd m (b + length ys + 1) = Some y" "seg m (b + length ys + 2) e us"
        using less.prems(1) unfolding xs seg_append seg_Cons by simp_all
      have y: "y \<noteq> Z_STAR" "no_two (y # us)" using less.prems(2) unfolding xs no_two_append by simp_all
      have y': "no_two us" using y(2) by (cases us) auto
      have "length us < length xs" using xs by simp
      then have "z_keyexpr_get_next_double_star_chunk m (b + length ys + 2) e = Some None" using less.hyps r(2) y' by blast
      then show ?thesis using True memchr_some [OF s [unfolded yz(1)] yz(2)] r(1) y(1)
        by (subst z_keyexpr_get_next_double_star_chunk.simps) (simp add: Z_DOUBLE_STAR_LEN_def)
    qed
  next
    case False
    then show ?thesis by (subst z_keyexpr_get_next_double_star_chunk.simps) simp
  qed
qed


lemma no_two_Cons: "no_two (x # xs) \<longleftrightarrow> no_two xs \<and> \<not> (x = Z_STAR \<and> xs \<noteq> [] \<and> hd xs = Z_STAR)"
  by (cases xs) auto

lemma list_all_drop: "list_all P xs \<Longrightarrow> list_all P (drop i xs)"
  by (auto simp: list_all_iff dest: in_set_dropD)

lemma no_two_plain: "Z_STAR \<notin> set xs \<Longrightarrow> no_two xs"
  by (induction xs rule: no_two.induct) auto

lemma flat_hd: "toks_ok ts \<Longrightarrow> ts \<noteq> [] \<Longrightarrow> hd (flat ts) \<noteq> Z_STAR"
proof (cases ts)
  case (Cons t us)
  then show "toks_ok ts \<Longrightarrow> ?thesis" by (cases t) auto
qed simp

lemma no_two_flat: "toks_ok ts \<Longrightarrow> no_two (flat ts)"
proof (induction ts)
  case (Cons t ts)
  have "ts \<noteq> [] \<Longrightarrow> toks_ok ts \<Longrightarrow> hd (flat ts) \<noteq> Z_STAR" by (rule flat_hd)
  moreover have "toks_ok ts" using Cons.prems by (cases t) auto
  ultimately show ?case using Cons by (cases t; cases ts) (auto simp: no_two_Cons split: tok.splits)
qed simp

lemma no_two_pbytes: "pchunk_ok p \<Longrightarrow> p \<noteq> DStar \<Longrightarrow> no_two (pbytes p)"
  by (cases p) (auto intro: no_two_flat)

lemma no_two_join:
  "list_all pchunk_ok ps \<Longrightarrow> DStar \<notin> set ps \<Longrightarrow> no_two (join (map pbytes ps))"
proof (induction ps)
  case (Cons p ps)
  then show ?case using no_two_pbytes [of p]
    by (cases "ps = []") (auto simp: join_Cons no_two_append no_two_append [of "[Z_DELIMITER]", simplified])
qed simp

lemma join_plain: "list_all kchunk_ok cs \<Longrightarrow> Z_STAR \<notin> set (join cs)"
proof (induction cs)
  case (Cons c cs)
  then show ?case using plain_not_in(3) by (cases "cs = []") (auto simp: join_Cons kchunk_ok_def)
qed simp

lemma next_double_star_plain:
  assumes "kat m b k cs" "list_all kchunk_ok cs" "cs \<noteq> []"
  shows "z_keyexpr_get_next_double_star_chunk m b k = Some None"
  using assms no_two_plain [OF join_plain] by (intro next_double_star_none [of m b k "join cs"]) (auto simp: kat_def)

lemma drop_conv: "i < length xs \<Longrightarrow> drop i xs = xs ! i # drop (Suc i) xs"
  by (rule Cons_nth_drop_Suc [symmetric])

lemma special_inner:
  assumes "kat lm lb le (map pbytes ps)" "list_all pchunk_ok ps" "DStar \<notin> set ps"
    "i \<le> length ps" "i \<le> length cs" "kat lm lc le (map pbytes (drop i ps))" "kat rm rb re cs" "list_all kchunk_ok cs"
    "kat rm rc re (drop i cs)" "pre_match (take i ps) cs" "i = length ps \<Longrightarrow> lc = le + 1"
  shows "\<exists>rc'. keyexpr_special_loop x lm lb lend (Some le) lc rm rb re rc =
    (if occurs ps cs then keyexpr_special_loop x lm (le + 1) lend None (le + 1) rm rc' re rc' else Some (Some False))"
  using assms(4-)
proof (induction "length cs * Suc (length ps) + (length ps - i)" arbitrary: i cs lc rb rc rule: less_induct)
  case less
  have lc: "lc < le \<longleftrightarrow> i < length ps"
    using kat_nonempty [OF less.prems(3) chunks_pbytes [OF list_all_drop [OF assms(2)]]] by auto
  have rc: "rc < re \<longleftrightarrow> i < length cs"
    using kat_nonempty [OF less.prems(6) chunks_kchunk [OF list_all_drop [OF less.prems(5)]]] by auto
  show ?case
  proof (cases "i < length ps")
    case False
    then have "pre_match ps cs" using less.prems(1,7) by simp
    then have "occurs ps cs" by (cases cs) auto
    moreover have "lc = le + 1" using less.prems(1,8) False by simp
    then have "keyexpr_special_loop x lm lb lend (Some le) lc rm rb re rc = keyexpr_special_loop x lm (le + 1) lend None (le + 1) rm rc re rc"
      by (subst keyexpr_special_loop.simps) simp
    ultimately show ?thesis by auto
  next
    case i: True
    show ?thesis
    proof (cases "i < length cs")
      case False
      then have "\<not> occurs ps cs" using occurs_length [of ps cs] i by auto
      then show ?thesis using lc rc i False by (subst keyexpr_special_loop.simps) simp
    next
      case j: True
      let ?p = "ps ! i" and ?c = "cs ! i"
      have p: "pchunk_ok ?p" "?p \<noteq> DStar" using assms(2,3) nth_mem [OF i] by (auto simp: list_all_iff)
      have c: "kchunk_ok ?c" using less.prems(5) j by (simp add: list_all_iff)
      have l: "kat lm lc le (pbytes ?p # map pbytes (drop (Suc i) ps))" using less.prems(3) i by (simp add: drop_conv)
      have r: "kat rm rc re (?c # drop (Suc i) cs)" using less.prems(6) j by (simp add: drop_conv)
      have f: "fwd_is (cmatch ?p ?c) (lc + length (pbytes ?p)) (rc + length ?c) (z_chunk_forward x lm lc le rm rc re)"
        by (rule forward_ok [OF kat_ConsD(1) [OF l] p(1) kat_ConsD(2) [OF l] kat_ConsD(1) [OF r] c kat_ConsD(2) [OF r] p(2)])
      show ?thesis
      proof (cases "cmatch ?p ?c")
        case True
        then have e: "keyexpr_special_loop x lm lb lend (Some le) lc rm rb re rc =
            keyexpr_special_loop x lm lb lend (Some le) (lc + length (pbytes ?p) + 1) rm rb re (rc + length ?c + 1)"
          using lc rc i j f by (subst keyexpr_special_loop.simps) (auto simp: fwd_is_def yes_if_def Z_DELIMITER_LEN_def)
        show ?thesis unfolding e
        proof (rule less.hyps [of cs "Suc i"])
          show "pre_match (take (Suc i) ps) cs" using pre_match_take_Suc [OF i j] less.prems(7) True by simp
          show "lc + length (pbytes ?p) + 1 = le + 1" if "Suc i = length ps"
            using l that seg_length [of lm lc le "pbytes ?p"] by (simp add: kat_def)
        qed (use i j less.prems(4,5) kat_ConsD(3) [OF l] kat_ConsD(3) [OF r] in simp_all)
      next
        case False
        obtain d ds where cs: "cs = d # ds" using j by (cases cs) auto
        have d: "kchunk_ok d" "list_all kchunk_ok ds" using less.prems(5) cs by simp_all
        have rb: "kat rm rb re (d # ds)" using less.prems(4) cs by simp
        have pl: "Z_DELIMITER \<notin> set d" using d(1) plain_not_in(2) by (simp add: kchunk_ok_def)
        have en: "z_chunk_end rm rb re = Some (rb + length d)" by (rule z_chunk_end_ok [OF kat_ConsD(1) [OF rb] pl kat_ConsD(2) [OF rb]])
        have "\<not> pre_match ps cs" using pre_match_drop [OF less.prems(1,2,7)] False i j by (simp add: drop_conv)
        then have o: "occurs ps cs = occurs ps ds" using cs by simp
        have e: "keyexpr_special_loop x lm lb lend (Some le) lc rm rb re rc =
            keyexpr_special_loop x lm lb lend (Some le) lb rm (rb + length d + 1) re (rb + length d + 1)"
          using lc rc i j f en False by (subst keyexpr_special_loop.simps) (auto simp: fwd_is_def yes_if_def Z_DELIMITER_LEN_def)
        show ?thesis unfolding e o
          by (rule less.hyps [of ds 0]) (use i cs assms(1) kat_ConsD(3) [OF rb] d in simp_all)
      qed
    qed
  qed
qed


lemma keyexpr_special_ok:
  assumes "kat lm lb le (map pbytes ps)" "list_all pchunk_ok ps" "DStar \<notin> set ps" "ps \<noteq> []"
    "kat rm rb re cs" "list_all kchunk_ok cs" "cs \<noteq> []"
  shows "z_keyexpr_special x lm lb le rm rb re = Some (occurs ps cs)"
proof -
  have "lb < le" using kat_nonempty [OF assms(1) chunks_pbytes [OF assms(2)]] assms(4) by simp
  moreover have "z_keyexpr_get_next_double_star_chunk lm lb le = Some None"
    using assms(1,4) no_two_join [OF assms(2,3)] by (intro next_double_star_none [of lm lb le "join (map pbytes ps)"]) (auto simp: kat_def)
  moreover obtain rc' where "keyexpr_special_loop x lm lb le (Some le) lb rm rb re rb =
      (if occurs ps cs then keyexpr_special_loop x lm (le + 1) le None (le + 1) rm rc' re rc' else Some (Some False))"
    using special_inner [OF assms(1-3), of 0 cs lb rm rb re rb x le] assms by auto
  then have "keyexpr_special_loop x lm lb le (Some le) lb rm rb re rb = Some (Some (occurs ps cs))"
    by (subst (asm) keyexpr_special_loop.simps [of _ _ _ _ None]) simp
  ultimately have "keyexpr_special_loop x lm lb le None lb rm rb re rb = Some (Some (occurs ps cs))"
    by (subst keyexpr_special_loop.simps) simp
  then show ?thesis using next_double_star_plain [OF assms(5-7)] by (cases x) (simp_all add: z_keyexpr_special_def)
qed

subsection \<open>Verbatim chunks\<close>

definition vchunk :: "byte list \<Rightarrow> bool" where
  "vchunk c \<longleftrightarrow> c \<noteq> [] \<and> Z_VERBATIM \<notin> set (tl c)"

lemma vchunk_kchunk: "kchunk_ok c \<Longrightarrow> vchunk c"
  by (simp add: kchunk_ok_def vchunk_def)

lemma verbatim_flat: "Lit Z_VERBATIM \<notin> set ts \<Longrightarrow> Z_VERBATIM \<notin> set (flat ts)"
proof (induction ts)
  case (Cons t ts)
  then show ?case by (cases t) (auto simp: Z_DSL0_def Z_DSL1_def Z_VERBATIM_def)
qed simp

lemma vchunk_pbytes: "pchunk_ok p \<Longrightarrow> vchunk (pbytes p)"
proof (cases p)
  case (Pat ts)
  assume p: "pchunk_ok p"
  then obtain t us where "ts = t # us" using Pat by (cases ts) auto
  then show ?thesis using p Pat verbatim_flat [of us] by (cases t) (auto simp: vchunk_def Z_DSL1_def Z_VERBATIM_def)
qed (auto simp: vchunk_def)

lemma vchunks: "list_all kchunk_ok cs \<Longrightarrow> list_all vchunk cs" "list_all pchunk_ok ps \<Longrightarrow> list_all vchunk (map pbytes ps)"
  by (auto simp: list_all_iff intro: vchunk_kchunk vchunk_pbytes)

lemma verbatim_join: "list_all vchunk cs \<Longrightarrow> Z_VERBATIM \<in> set (join cs) \<longleftrightarrow> \<not> free cs"
proof (induction cs)
  case (Cons c cs)
  have "Z_VERBATIM \<in> set c \<longleftrightarrow> verb c" using Cons.prems by (cases c) (auto simp: vchunk_def verb_def)
  then show ?case using Cons by (cases "cs = []") (auto simp: join_Cons)
qed simp

lemma verbatim_none:
  assumes "kat m b k cs" "list_all vchunk cs" "cs \<noteq> []" "free cs"
  shows "z_keyexpr_get_next_verbatim_chunk m b k = Some None"
  using assms memchr_none [of m b k "join cs"] verbatim_join by (simp add: kat_def z_keyexpr_get_next_verbatim_chunk_def)

lemma verbatim_some:
  assumes "kat m b k (cs @ c # ds)" "list_all vchunk (cs @ c # ds)" "list_all is_chunk (cs @ c # ds)" "free cs" "verb c"
  shows "\<exists>v. z_keyexpr_get_next_verbatim_chunk m b k = Some (Some v) \<and> kat m v k (c # ds) \<and>
    (if v = b then cs = [] else 0 < v \<and> kat m b (v - 1) cs)"
proof -
  obtain c' where c: "c = Z_VERBATIM # c'" using assms(5) by (cases c) (auto simp: verb_def)
  have t: "\<exists>us. join (c # ds) = Z_VERBATIM # us" using c by (cases "ds = []") (auto simp: join_Cons)
  then obtain us where us: "join (c # ds) = Z_VERBATIM # us" by blast
  show ?thesis
  proof (cases "cs = []")
    case True
    then have "seg m b k ([] @ Z_VERBATIM # us)" using assms(1) us by (simp add: kat_def)
    then have "z_keyexpr_get_next_verbatim_chunk m b k = Some (Some b)"
      using memchr_some [of m b k "[]" Z_VERBATIM us] by (simp add: z_keyexpr_get_next_verbatim_chunk_def)
    then show ?thesis using True assms(1) by auto
  next
    case False
    let ?v = "b + length (join cs) + 1"
    have k: "kat m b (b + length (join cs)) cs" "kat m ?v k (c # ds)" using kat_append [OF assms(1) False] by simp_all
    have j: "join (cs @ c # ds) = (join cs @ [Z_DELIMITER]) @ Z_VERBATIM # us" using us False by (simp add: join_append)
    have s: "seg m b k ((join cs @ [Z_DELIMITER]) @ Z_VERBATIM # us)" using assms(1) j by (simp add: kat_def)
    have "Z_VERBATIM \<notin> set (join cs @ [Z_DELIMITER])" using verbatim_join [of cs] assms(2,4) by simp
    then have "z_keyexpr_get_next_verbatim_chunk m b k = Some (Some ?v)"
      using memchr_some [OF s] by (simp add: z_keyexpr_get_next_verbatim_chunk_def)
    then show ?thesis using k by auto
  qed
qed

lemma not_free_split: "\<not> free cs \<Longrightarrow> \<exists>as c bs. cs = as @ c # bs \<and> free as \<and> verb c"
  unfolding free_def list_all_iff using split_list_first_prop [of cs verb] by blast

lemma next_verbatim_iff:
  assumes "kat m b k cs" "list_all kchunk_ok cs" "cs \<noteq> []"
  shows "\<exists>v. z_keyexpr_get_next_verbatim_chunk m b k = Some v \<and> (v = None \<longleftrightarrow> free cs)"
proof (cases "free cs")
  case True
  then show ?thesis using verbatim_none [OF assms(1) vchunks(1) [OF assms(2)] assms(3)] by simp
next
  case False
  then obtain as c bs where "cs = as @ c # bs" "free as" "verb c" using not_free_split by blast
  then show ?thesis using verbatim_some [of m b k as c bs] assms vchunks(1) chunks_kchunk False by blast
qed

lemma cmatch_verb: "cmatch p c \<Longrightarrow> verb (pbytes p) \<longleftrightarrow> verb c"
  by (cases p) (auto simp: verb_def)

lemma key_match_free: "key_match ps cs \<Longrightarrow> free (map pbytes ps) \<longleftrightarrow> free cs"
proof (induction ps arbitrary: cs)
  case (Cons p ps)
  show ?case
  proof (cases "p = DStar")
    case True
    then obtain n where n: "n \<le> length cs" "free (take n cs)" "key_match ps (drop n cs)" using Cons.prems by (auto simp: free_def)
    have "free cs \<longleftrightarrow> free (take n cs @ drop n cs)" by simp
    also have "\<dots> \<longleftrightarrow> free (drop n cs)" using n(2) by (simp only: free_simps simp_thms)
    finally show ?thesis using Cons.IH [OF n(3)] True by (simp add: verb_def)
  next
    case False
    then show ?thesis using Cons cmatch_verb by (auto split: list.splits)
  qed
qed simp

lemma key_match_verb:
  assumes "free (map pbytes ps)" "verb (pbytes p)" "free cs" "verb c"
  shows "key_match (ps @ p # qs) (cs @ c # ds) \<longleftrightarrow> key_match ps cs \<and> cmatch p c \<and> key_match qs ds"
proof
  have p: "p \<noteq> DStar" using assms(2) by (auto simp: verb_def)
  assume "key_match (ps @ p # qs) (cs @ c # ds)"
  then obtain as es where es: "cs @ c # ds = as @ es" "key_match ps as" "key_match (p # qs) es" unfolding key_match_append by blast
  obtain d bs where "es = d # bs" using es(3) p by (cases es) auto
  then have m: "cs @ c # ds = as @ d # bs" "key_match ps as" "cmatch p d" "key_match qs bs" using es p by simp_all
  have "free as" "verb d" using key_match_free [OF m(2)] cmatch_verb [OF m(3)] assms by simp_all
  then have "takeWhile (\<lambda>c. \<not> verb c) (as @ d # bs) = as" "takeWhile (\<lambda>c. \<not> verb c) (cs @ c # ds) = cs"
    using assms by (auto simp: free_def list_all_iff takeWhile_tail)
  then have "as = cs" using m(1) by simp
  then show "key_match ps cs \<and> cmatch p c \<and> key_match qs ds" using m by simp
next
  have p: "p \<noteq> DStar" using assms(2) by (auto simp: verb_def)
  assume "key_match ps cs \<and> cmatch p c \<and> key_match qs ds"
  moreover then have "key_match (p # qs) (c # ds)" using p by simp
  ultimately show "key_match (ps @ p # qs) (cs @ c # ds)" unfolding key_match_append by blast
qed


subsection \<open>Backwards from the ends\<close>

text \<open>What the loop does where the last chunk of the left expression is the double star.\<close>

definition backward_wild_case :: "ke_matcher \<Rightarrow> bool \<Rightarrow> bool \<Rightarrow> ke_matcher" where
  "backward_wild_case parts x v lm lb le rm rb re =
     (if v then (if lb < 3 then None else parts lm (lb - 3) le rm rb re)
      else if le < 3 then None else z_keyexpr_special x lm lb (le - 3) rm rb re)"

lemma backward_loop_ok:
  assumes ok: "list_all pchunk_ok ps0" "list_all kchunk_ok cs0" "adj (DStar # ps0)" "\<not> v \<Longrightarrow> free cs0"
    and wild: "\<And>ps ps' cs cs' le re. ps0 = ps @ DStar # ps' \<Longrightarrow> cs0 = cs @ cs' \<Longrightarrow> cs \<noteq> [] \<Longrightarrow>
      kat lm lb le (map pbytes (ps @ [DStar])) \<Longrightarrow> kat rm rb re cs \<Longrightarrow>
      backward_wild_case parts x v lm lb le rm rb re = Some (key_match (DStar # ps @ [DStar]) cs)"
  shows "kat lm lb le (map pbytes ps) \<Longrightarrow> ps \<noteq> [] \<Longrightarrow> ps0 = ps @ ps' \<Longrightarrow> kat rm rb re cs \<Longrightarrow> cs \<noteq> [] \<Longrightarrow> cs0 = cs @ cs' \<Longrightarrow>
    keyexpr_backward_loop parts x v lm lb le rm rb re = Some (key_match (DStar # ps) cs)"
proof (induction ps arbitrary: le re cs ps' cs' rule: rev_induct)
  case (snoc p ps)
  have psok: "list_all pchunk_ok (ps @ [p])" "pchunk_ok p" "adj (DStar # ps @ [p])"
    using ok(1,3) snoc.prems(3) adj_append [of "DStar # ps @ [p]" ps'] by simp_all
  obtain ds d where cs: "cs = ds @ [d]" using snoc.prems(5) by (cases cs rule: rev_cases) auto
  have csok: "list_all kchunk_ok (ds @ [d])" "kchunk_ok d" "list_all kchunk_ok cs" using ok(2) snoc.prems(6) cs by simp_all
  have lt: "lb < le" "rb < re"
    using kat_nonempty [OF snoc.prems(1) chunks_pbytes [OF psok(1)]]
      kat_nonempty [OF snoc.prems(4) chunks_kchunk [OF csok(3)]] snoc.prems(5) by simp_all
  obtain s where s: "seg lm s le (pbytes p)" "starts lm lb s" "s = lb \<longleftrightarrow> ps = []" "ps \<noteq> [] \<longrightarrow> 0 < s \<and> kat lm lb (s - 1) (map pbytes ps)"
    using kat_snocD [of lm lb le "map pbytes ps" "pbytes p"] snoc.prems(1) by auto
  obtain t where t: "seg rm t re d" "starts rm rb t" "t = rb \<longleftrightarrow> ds = []" "ds \<noteq> [] \<longrightarrow> 0 < t \<and> kat rm rb (t - 1) ds"
    using kat_snocD [of rm rb re ds d] snoc.prems(4) cs by auto
  show ?case
  proof (cases "p = DStar")
    case True
    have "z_chunk_backward x lm lb le rm rb re = Some (backward_no\<lparr>cb_result := Z_CHUNK_MATCH_RESULT_LEFT_SUPERWILD\<rparr>)"
      using backward_double [OF _ s(2) t(1) csok(2) t(2)] s(1) True by simp
    then have "keyexpr_backward_loop parts x v lm lb le rm rb re = backward_wild_case parts x v lm lb le rm rb re"
      using lt by (subst keyexpr_backward_loop.simps) (simp add: backward_wild_case_def Z_DOUBLE_STAR_LEN_def Z_DELIMITER_LEN_def)
    then show ?thesis using wild [of ps ps' cs cs'] snoc.prems True by simp
  next
    case False
    have b: "bwd_is (cmatch p d) s t (z_chunk_backward x lm lb le rm rb re)"
      by (rule backward_ok [OF s(1) psok(2) s(2) t(1) csok(2) t(2) False])
    have k: "key_match (DStar # ps @ [p]) cs \<longleftrightarrow> cmatch p d \<and> key_match (DStar # ps) ds"
      using key_match_snoc [OF False, of "DStar # ps" ds d] cs by simp
    show ?thesis
    proof (cases "cmatch p d")
      case False
      then show ?thesis using lt b k by (subst keyexpr_backward_loop.simps) (auto simp: bwd_is_def yes_if_def)
    next
      case True
      then obtain r where r: "z_chunk_backward x lm lb le rm rb re = Some r" "cb_result r = Z_CHUNK_MATCH_RESULT_YES" "cb_lbegin r = s" "cb_rbegin r = t"
        using b by (auto simp: bwd_is_def yes_if_def)
      consider "ps = []" "ds = []" | "ps = []" "ds \<noteq> []" | "ps \<noteq> []" "ds = []" | "ps \<noteq> []" "ds \<noteq> []" by blast
      then show ?thesis
      proof cases
        case 1
        then show ?thesis using lt r s(3) t(3) k True by (subst keyexpr_backward_loop.simps) simp
      next
        case 2
        have m: "key_match (DStar # ps @ [p]) cs \<longleftrightarrow> free ds" using k True 2 key_match_double by simp
        have "\<exists>w. z_keyexpr_get_next_verbatim_chunk rm rb (t - 1) = Some w \<and> (w = None \<longleftrightarrow> free ds)"
          using next_verbatim_iff t(4) 2 csok(1) by simp
        moreover have "\<not> v \<Longrightarrow> free ds" using ok(4) snoc.prems(6) cs by simp
        ultimately show ?thesis using lt r s(3) t(3) 2 m by (subst keyexpr_backward_loop.simps) (auto simp: Z_DELIMITER_LEN_def)
      next
        case 3
        have "adj (DStar # ps)" using adj_append [of "DStar # ps" "[p]"] psok(3) by simp
        then have "\<not> key_match (DStar # ps) []" using 3 adj_double key_match_empty [of ps] by (cases ps) auto
        then show ?thesis using lt r s(3) t(3) k 3 by (subst keyexpr_backward_loop.simps) simp
      next
        case 4
        have "keyexpr_backward_loop parts x v lm lb (s - 1) rm rb (t - 1) = Some (key_match (DStar # ps) ds)"
          by (rule snoc.IH [of _ "p # ps'" _ ds "d # cs'"]) (use 4 s(4) t(4) snoc.prems cs in simp_all)
        then show ?thesis using lt r s(3) t(3) k True 4 by (subst keyexpr_backward_loop.simps) (simp add: Z_DELIMITER_LEN_def)
      qed
    qed
  qed
qed simp

subsection \<open>Forwards from the beginnings\<close>

lemma forward_loop_ok:
  assumes ok: "list_all pchunk_ok ps0" "list_all kchunk_ok cs0" "adj ps0"
    and backw: "\<And>ps ps' cs cs' lb rb. ps0 = ps' @ DStar # ps \<Longrightarrow> cs0 = cs' @ cs \<Longrightarrow> ps \<noteq> [] \<Longrightarrow> cs \<noteq> [] \<Longrightarrow> DStar \<notin> set ps' \<Longrightarrow>
      kat lm lb le (map pbytes (DStar # ps)) \<Longrightarrow> kat rm rb re cs \<Longrightarrow>
      keyexpr_backward_loop parts x v lm (lb + 3) le rm rb re = Some (key_match (DStar # ps) cs)"
  shows "kat lm lb le (map pbytes ps) \<Longrightarrow> ps0 = ps' @ ps \<Longrightarrow> DStar \<notin> set ps' \<Longrightarrow> kat rm rb re cs \<Longrightarrow> cs0 = cs' @ cs \<Longrightarrow>
    keyexpr_forward_loop parts x v lm lb le rm rb re = Some (key_match ps cs)"
proof (induction ps arbitrary: lb rb cs ps' cs')
  case Nil
  have "list_all kchunk_ok cs" using ok(2) Nil.prems(5) by simp
  then have "keyexpr_finish x lm lb le rm rb re = Some (key_match [] cs)" using finish_ok [of lm lb le "[]" rm rb re cs x] Nil.prems by simp
  then show ?case using Nil.prems(1) by (subst keyexpr_forward_loop.simps) simp
next
  case (Cons p ps)
  have psok: "list_all pchunk_ok (p # ps)" "pchunk_ok p" "adj (p # ps)"
    using ok(1,3) Cons.prems(2) adj_append [of ps' "p # ps"] by simp_all
  have csok: "list_all kchunk_ok cs" using ok(2) Cons.prems(5) by simp
  have lt: "lb < le" using kat_nonempty [OF Cons.prems(1) chunks_pbytes [OF psok(1)]] by simp
  show ?case
  proof (cases cs)
    case Nil
    then have "keyexpr_finish x lm lb le rm rb re = Some (key_match (p # ps) cs)"
      using finish_ok [OF Cons.prems(1) psok(1,3) Cons.prems(4) csok] by simp
    then show ?thesis using Cons.prems(4) Nil by (subst keyexpr_forward_loop.simps) simp
  next
    case (Cons c ds)
    have c: "kchunk_ok c" using csok Cons by simp
    have l: "kat lm lb le (pbytes p # map pbytes ps)" using Cons.prems(1) by simp
    have r: "kat rm rb re (c # ds)" using Cons.prems(4) Cons by simp
    have rlt: "rb < re" by (rule kat_less [OF r chunk_kchunk [OF c]])
    show ?thesis
    proof (cases "p = DStar")
      case True
      have f: "z_chunk_forward x lm lb le rm rb re = Some (forward_no\<lparr>cf_result := Z_CHUNK_MATCH_RESULT_LEFT_SUPERWILD\<rparr>)"
        using forward_double [OF _ kat_ConsD(2) [OF l] kat_ConsD(1) [OF r] c kat_ConsD(2) [OF r]] kat_ConsD(1) [OF l] True by simp
      show ?thesis
      proof (cases "ps = []")
        case True
        then have "lb + Z_DOUBLE_STAR_LEN = le" using l \<open>p = DStar\<close> seg_length [of lm lb le "[Z_STAR, Z_STAR]"] by (simp add: kat_def Z_DOUBLE_STAR_LEN_def)
        moreover have "\<exists>w. z_keyexpr_get_next_verbatim_chunk rm rb re = Some w \<and> (w = None \<longleftrightarrow> free cs)"
          using next_verbatim_iff [OF Cons.prems(4) csok] Cons by simp
        ultimately show ?thesis using lt rlt f True \<open>p = DStar\<close> key_match_double [of cs]
          by (subst keyexpr_forward_loop.simps) (auto simp del: key_match.simps)
      next
        case False
        have "kat lm (lb + 3) le (map pbytes ps)" using kat_ConsD(3) [OF l] True by (simp add: numeral_3_eq_3)
        then have "lb + 3 < le" using kat_nonempty chunks_pbytes psok(1) False by fastforce
        then have "lb + Z_DOUBLE_STAR_LEN \<noteq> le" by (simp add: Z_DOUBLE_STAR_LEN_def)
        moreover have "keyexpr_backward_loop parts x v lm (lb + 3) le rm rb re = Some (key_match (DStar # ps) cs)"
          by (rule backw [of ps' ps cs' cs]) (use Cons.prems False True Cons in simp_all)
        ultimately show ?thesis using lt rlt f True
          by (subst keyexpr_forward_loop.simps) (simp add: Z_DOUBLE_STAR_LEN_def Z_DELIMITER_LEN_def del: key_match.simps)
      qed
    next
      case False
      have f: "fwd_is (cmatch p c) (lb + length (pbytes p)) (rb + length c) (z_chunk_forward x lm lb le rm rb re)"
        by (rule forward_ok [OF kat_ConsD(1) [OF l] psok(2) kat_ConsD(2) [OF l] kat_ConsD(1) [OF r] c kat_ConsD(2) [OF r] False])
      have k: "key_match (p # ps) cs \<longleftrightarrow> cmatch p c \<and> key_match ps ds" using False Cons by simp
      have "keyexpr_forward_loop parts x v lm (lb + length (pbytes p) + 1) le rm (rb + length c + 1) re = Some (key_match ps ds)"
        by (rule Cons.IH [of _ "ps' @ [p]" _ ds "cs' @ [c]"])
          (use Cons.prems Cons False kat_ConsD(3) [OF l] kat_ConsD(3) [OF r] in simp_all)
      then show ?thesis using lt rlt f k
        by (subst keyexpr_forward_loop.simps) (auto simp: fwd_is_def yes_if_def Z_DELIMITER_LEN_def)
    qed
  qed
qed


subsection \<open>Parts with no verbatim chunk\<close>

text \<open>Between two verbatim chunks an expression has at most so many double stars.\<close>

fun few :: "nat \<Rightarrow> pchunk list \<Rightarrow> bool" where
  "few n [] \<longleftrightarrow> True"
| "few n (p # ps) \<longleftrightarrow> (if p = DStar then 0 < n \<and> few (n - 1) ps else few (if verb (pbytes p) then 2 else n) ps)"

lemma few_prefix: "few n (ps @ qs) \<Longrightarrow> few n ps"
  by (induction ps arbitrary: n) (auto split: if_splits)

lemma few_suffix: "few 2 (ps @ qs) \<Longrightarrow> DStar \<notin> set ps \<Longrightarrow> few 2 qs"
  by (induction ps) (auto split: if_splits)

lemma few_verb: "few n (ps @ p # qs) \<Longrightarrow> verb (pbytes p) \<Longrightarrow> few 2 qs"
  by (induction ps arbitrary: n) (auto simp: verb_def split: if_splits)

lemma few_count: "few n ps \<Longrightarrow> free (map pbytes ps) \<Longrightarrow> count_list ps DStar \<le> n"
  by (induction ps arbitrary: n) (fastforce split: if_splits)+

lemma snoc_double:
  assumes "kat m b k (map pbytes (ps @ [DStar]))" "ps \<noteq> []"
  shows "3 \<le> k" "kat m b (k - 3) (map pbytes ps)"
proof -
  obtain s where s: "seg m s k [Z_STAR, Z_STAR]" "0 < s" "kat m b (s - 1) (map pbytes ps)"
    using kat_snocD [of m b k "map pbytes ps" "pbytes DStar"] assms by auto
  have "k = s + 2" using seg_length [OF s(1)] by simp
  then show "3 \<le> k" "kat m b (k - 3) (map pbytes ps)" using s by (simp_all add: numeral_3_eq_3)
qed

lemma forward_free:
  assumes "list_all pchunk_ok ps" "adj ps" "count_list ps DStar \<le> 2" "list_all kchunk_ok cs" "free cs"
    "kat lm lb le (map pbytes ps)" "kat rm rb re cs"
  shows "keyexpr_forward_loop parts x False lm lb le rm rb re = Some (key_match ps cs)"
proof (rule forward_loop_ok [where ?ps0.0 = ps and ?cs0.0 = cs and ps' = "[]" and cs' = "[]"])
  fix qs qs' ds ds' lb rb
  assume ps: "ps = qs' @ DStar # qs" and cs: "cs = ds' @ ds" and ne: "qs \<noteq> []" "ds \<noteq> []"
    and l: "kat lm lb le (map pbytes (DStar # qs))" and r: "kat rm rb re ds"
  have l': "kat lm (lb + 3) le (map pbytes qs)" using kat_ConsD(3) [of lm lb le "pbytes DStar"] l by (simp add: numeral_3_eq_3)
  have a: "adj (DStar # qs)" using adj_append [of qs' "DStar # qs"] assms(2) ps by simp
  show "keyexpr_backward_loop parts x False lm (lb + 3) le rm rb re = Some (key_match (DStar # qs) ds)"
  proof (rule backward_loop_ok [where ?ps0.0 = qs and ?cs0.0 = ds and ps' = "[]" and cs' = "[]"])
    fix us us' es es' le re
    assume qs: "qs = us @ DStar # us'" and ds: "ds = es @ es'" "es \<noteq> []"
      and k: "kat lm (lb + 3) le (map pbytes (us @ [DStar]))" "kat rm rb re es"
    have ne: "us \<noteq> []" using a qs by auto
    have n: "DStar \<notin> set us"
    proof
      assume "DStar \<in> set us"
      then have "0 < count_list us DStar" by (metis count_list_0_iff neq0_conv)
      then show False using assms(3) ps qs by (simp add: count_list_append)
    qed
    have ok: "list_all pchunk_ok us" "list_all kchunk_ok es" "free es" using assms(1,4,5) ps qs cs ds by simp_all
    have "z_keyexpr_special x lm (lb + 3) (le - 3) rm rb re = Some (occurs us es)"
      by (rule keyexpr_special_ok [OF snoc_double(2) [OF k(1) ne] ok(1) n ne k(2) ok(2) ds(2)])
    then show "backward_wild_case parts x False lm (lb + 3) le rm rb re = Some (key_match (DStar # us @ [DStar]) es)"
      using snoc_double(1) [OF k(1) ne] key_match_between [OF n ok(3)] by (simp add: backward_wild_case_def del: key_match.simps)
  qed (use assms ps cs l' r ne a in simp_all)
qed (use assms in simp_all)

lemma map_not_free_split:
  "\<not> free (map pbytes ps) \<Longrightarrow> \<exists>qs p rs. ps = qs @ p # rs \<and> free (map pbytes qs) \<and> verb (pbytes p)"
  unfolding free_def list_all_iff using split_list_first_prop [of ps "\<lambda>p. verb (pbytes p)"] by auto

lemma z_keyexpr_parts_ok:
  assumes "list_all pchunk_ok ps" "adj ps" "few 2 ps" "list_all kchunk_ok cs" "kat lm lb le (map pbytes ps)" "kat rm rb re cs"
  shows "z_keyexpr_parts x lm lb le rm rb re = Some (key_match ps cs)"
  using assms
proof (induction "length ps" arbitrary: ps cs lb rb rule: less_induct)
  case less
  have lt: "lb < le \<longleftrightarrow> ps \<noteq> []" "rb < re \<longleftrightarrow> cs \<noteq> []"
    using kat_nonempty [OF less.prems(5) chunks_pbytes [OF less.prems(1)]] kat_nonempty [OF less.prems(6) chunks_kchunk [OF less.prems(4)]] by simp_all
  have vp: "list_all vchunk (map pbytes ps)" "list_all is_chunk (map pbytes ps)" using vchunks(2) chunks_pbytes less.prems(1) by blast+
  have vc: "list_all vchunk cs" "list_all is_chunk cs" using vchunks(1) chunks_kchunk less.prems(4) by blast+
  show ?case
  proof (cases "ps = [] \<or> cs = []")
    case True
    then show ?thesis using lt finish_ok [OF less.prems(5,1,2,6,4)] by (subst z_keyexpr_parts.simps) auto
  next
    case ne: False
    consider (none) "free (map pbytes ps)" "free cs" | (left) "\<not> free (map pbytes ps)" "free cs" | (right) "free (map pbytes ps)" "\<not> free cs"
      | (both) "\<not> free (map pbytes ps)" "\<not> free cs" by blast
    then show ?thesis
    proof cases
      case none
      have "keyexpr_forward_loop no_parts x False lm lb le rm rb re = Some (key_match ps cs)"
        by (rule forward_free [OF less.prems(1,2) few_count [OF less.prems(3) none(1)] less.prems(4) none(2) less.prems(5,6)])
      moreover have "z_keyexpr_get_next_verbatim_chunk lm lb le = Some None" "z_keyexpr_get_next_verbatim_chunk rm rb re = Some None"
        using verbatim_none [OF less.prems(5) vp(1)] verbatim_none [OF less.prems(6) vc(1)] ne none by simp_all
      ultimately show ?thesis using lt ne by (subst z_keyexpr_parts.simps) simp
    next
      case left
      then obtain qs p rs where ps: "ps = qs @ p # rs" "free (map pbytes qs)" "verb (pbytes p)" using map_not_free_split by blast
      obtain v where "z_keyexpr_get_next_verbatim_chunk lm lb le = Some (Some v)"
        using verbatim_some [of lm lb le "map pbytes qs" "pbytes p" "map pbytes rs"] less.prems(5) vp ps by auto
      moreover have "z_keyexpr_get_next_verbatim_chunk rm rb re = Some None" using verbatim_none [OF less.prems(6) vc(1)] ne left by simp
      moreover have "\<not> key_match ps cs" using key_match_free left by blast
      ultimately show ?thesis using lt ne by (subst z_keyexpr_parts.simps) simp
    next
      case right
      then obtain as c bs where cs: "cs = as @ c # bs" "free as" "verb c" using not_free_split by blast
      obtain v where "z_keyexpr_get_next_verbatim_chunk rm rb re = Some (Some v)"
        using verbatim_some [of rm rb re as c bs] less.prems(6) vc cs by auto
      moreover have "z_keyexpr_get_next_verbatim_chunk lm lb le = Some None" using verbatim_none [OF less.prems(5) vp(1)] ne right by simp
      moreover have "\<not> key_match ps cs" using key_match_free right by blast
      ultimately show ?thesis using lt ne by (subst z_keyexpr_parts.simps) simp
    next
      case both
      obtain qs p rs where ps: "ps = qs @ p # rs" "free (map pbytes qs)" "verb (pbytes p)" using map_not_free_split both by blast
      obtain as c bs where cs: "cs = as @ c # bs" "free as" "verb c" using not_free_split both by blast
      obtain lv where lv: "z_keyexpr_get_next_verbatim_chunk lm lb le = Some (Some lv)" "kat lm lv le (pbytes p # map pbytes rs)"
        "if lv = lb then map pbytes qs = [] else 0 < lv \<and> kat lm lb (lv - 1) (map pbytes qs)"
        using verbatim_some [of lm lb le "map pbytes qs" "pbytes p" "map pbytes rs"] less.prems(5) vp ps by auto
      obtain rv where rv: "z_keyexpr_get_next_verbatim_chunk rm rb re = Some (Some rv)" "kat rm rv re (c # bs)"
        "if rv = rb then as = [] else 0 < rv \<and> kat rm rb (rv - 1) as"
        using verbatim_some [of rm rb re as c bs] less.prems(6) vc cs by auto
      have pok: "list_all pchunk_ok qs" "pchunk_ok p" "list_all pchunk_ok rs" "p \<noteq> DStar" using less.prems(1) ps by (auto simp: verb_def)
      have cok: "list_all kchunk_ok as" "kchunk_ok c" "list_all kchunk_ok bs" using less.prems(4) cs by simp_all
      have a: "adj qs" "adj rs" using adj_append [of qs "p # rs"] adj_tl [of p rs] less.prems(2) ps(1) by auto
      have fw: "few 2 qs" "few 2 rs" using few_prefix [of 2 qs] few_verb [of 2 qs p rs] less.prems(3) ps by auto
      have e: "lb \<le> length lm" "rb \<le> length rm" using lt ne less.prems(5,6) by (auto simp: kat_def)
      have "keyexpr_forward_loop no_parts x False lm lb (if lv = lb then lb else lv - 1) rm rb (if rv = rb then rb else rv - 1) =
          Some (key_match qs as)"
        by (rule forward_free [OF pok(1) a(1) few_count [OF fw(1) ps(2)] cok(1) cs(2)]) (use lv(3) rv(3) e in \<open>auto split: if_splits\<close>)
      moreover have "fwd_is (cmatch p c) (lv + length (pbytes p)) (rv + length c) (z_chunk_forward x lm lv le rm rv re)"
        by (rule forward_ok [OF kat_ConsD(1) [OF lv(2)] pok(2) kat_ConsD(2) [OF lv(2)] kat_ConsD(1) [OF rv(2)] cok(2) kat_ConsD(2) [OF rv(2)] pok(4)])
      moreover have "z_keyexpr_parts x lm (lv + length (pbytes p) + 1) le rm (rv + length c + 1) re = Some (key_match rs bs)"
        by (rule less.hyps [OF _ pok(3) a(2) fw(2) cok(3) kat_ConsD(3) [OF lv(2)] kat_ConsD(3) [OF rv(2)]]) (simp add: ps(1))
      moreover have "key_match ps cs \<longleftrightarrow> key_match qs as \<and> cmatch p c \<and> key_match rs bs"
        unfolding ps(1) cs(1) by (rule key_match_verb [OF ps(2,3) cs(2,3)])
      ultimately show ?thesis using lt ne lv(1) rv(1)
        by (subst z_keyexpr_parts.simps) (auto simp: fwd_is_def yes_if_def Z_DELIMITER_LEN_def)
    qed
  qed
qed


section \<open>Expressions and keys\<close>

definition kexpr_ok :: "pchunk list \<Rightarrow> bool" where
  "kexpr_ok ps \<longleftrightarrow> list_all pchunk_ok ps \<and> adj ps \<and> few 2 ps"

definition kkey_ok :: "byte list list \<Rightarrow> bool" where
  "kkey_ok cs \<longleftrightarrow> cs \<noteq> [] \<and> list_all kchunk_ok cs"

definition ke_string :: "pchunk list \<Rightarrow> z_string_t" where
  "ke_string ps = join (map pbytes ps)"

lemma kat_whole: "kat (join cs) 0 (length (join cs)) cs"
  by (simp add: kat_def seg_def)

lemma forward_verbatim:
  assumes "list_all pchunk_ok ps" "adj ps" "few 2 ps" "list_all kchunk_ok cs" "kat lm lb le (map pbytes ps)" "kat rm rb re cs"
  shows "z_keyexpr_forward x True lm lb le rm rb re = Some (key_match ps cs)"
  unfolding z_keyexpr_forward_def
proof (rule forward_loop_ok [where ?ps0.0 = ps and ?cs0.0 = cs and ps' = "[]" and cs' = "[]"])
  fix qs qs' ds ds' lb rb
  assume ps: "ps = qs' @ DStar # qs" "DStar \<notin> set qs'" and cs: "cs = ds' @ ds" and ne: "qs \<noteq> []" "ds \<noteq> []"
    and l: "kat lm lb le (map pbytes (DStar # qs))" and r: "kat rm rb re ds"
  have l': "kat lm (lb + 3) le (map pbytes qs)" using kat_ConsD(3) [of lm lb le "pbytes DStar"] l by (simp add: numeral_3_eq_3)
  have s: "seg lm lb (lb + 2) (pbytes DStar)" "rd lm (lb + 2) = Some Z_DELIMITER"
  proof -
    have "seg lm lb le (pbytes DStar @ Z_DELIMITER # join (map pbytes qs))" using l ne by (simp add: kat_def join_Cons)
    then show "seg lm lb (lb + 2) (pbytes DStar)" "rd lm (lb + 2) = Some Z_DELIMITER" unfolding seg_append seg_Cons by simp_all
  qed
  have a: "adj (DStar # qs)" "few 2 (DStar # qs)"
    using adj_append [of qs' "DStar # qs"] few_suffix [of qs' "DStar # qs"] assms(2,3) ps by simp_all
  show "keyexpr_backward_loop (z_keyexpr_parts x) x True lm (lb + 3) le rm rb re = Some (key_match (DStar # qs) ds)"
  proof (rule backward_loop_ok [where ?ps0.0 = qs and ?cs0.0 = ds and ps' = "[]" and cs' = "[]"])
    fix us us' es es' le re
    assume qs: "qs = us @ DStar # us'" and ds: "ds = es @ es'" "es \<noteq> []"
      and k: "kat lm (lb + 3) le (map pbytes (us @ [DStar]))" "kat rm rb re es"
    have ok: "list_all pchunk_ok (DStar # us @ [DStar])" "list_all kchunk_ok es" using assms(1,4) ps qs cs ds by simp_all
    have a': "adj (DStar # us @ [DStar])" "few 2 (DStar # us @ [DStar])"
      using adj_append [of "DStar # us @ [DStar]" us'] few_prefix [of 2 "DStar # us @ [DStar]" us'] a qs by auto
    have k': "kat lm lb le (map pbytes (DStar # us @ [DStar]))"
      using kat_ConsI [OF s, of le "map pbytes (us @ [DStar])"] k(1) by (simp add: numeral_3_eq_3)
    have "z_keyexpr_parts x lm lb le rm rb re = Some (key_match (DStar # us @ [DStar]) es)"
      by (rule z_keyexpr_parts_ok [OF ok(1) a' ok(2) k' k(2)])
    then show "backward_wild_case (z_keyexpr_parts x) x True lm (lb + 3) le rm rb re = Some (key_match (DStar # us @ [DStar]) es)"
      by (simp add: backward_wild_case_def del: key_match.simps)
  qed (use assms ps cs l' r ne a in simp_all)
qed (use assms in simp_all)

text \<open>The fast path: a key is the expression that matches this key.\<close>

lemma join_inj: "list_all is_chunk as \<Longrightarrow> list_all is_chunk bs \<Longrightarrow> join as = join bs \<Longrightarrow> as = bs"
proof (induction as arbitrary: bs)
  case Nil
  then show ?case by (cases bs rule: join.cases) (auto simp: is_chunk_def)
next
  case (Cons a as)
  have tw: "takeWhile (\<lambda>c. c \<noteq> Z_DELIMITER) (join (d # ds)) = d" "ds \<noteq> [] \<longleftrightarrow> d \<noteq> join (d # ds)" if "is_chunk d" for d ds
    using that by (cases "ds = []"; auto simp: join_Cons is_chunk_def takeWhile_tail takeWhile_eq_all_conv)+
  obtain b bs' where b: "bs = b # bs'" using Cons.prems by (cases bs) (auto simp: is_chunk_def join_Cons split: list.splits dest: arg_cong [of _ _ length] elim: join.elims)
  have "a = b" using tw(1) [of a as] tw(1) [of b bs'] Cons.prems b by simp
  moreover have "as = bs'"
  proof (cases "as = []")
    case True
    then show ?thesis using tw(2) [of b bs'] Cons.prems b \<open>a = b\<close> by auto
  next
    case False
    then have "bs' \<noteq> []" using tw(2) [of a as] tw(2) [of b bs'] Cons.prems b \<open>a = b\<close> by simp
    then show ?thesis using False Cons b \<open>a = b\<close> by (intro Cons.IH) (simp_all add: join_Cons)
  qed
  ultimately show ?case using b by simp
qed

lemma flat_plain: "toks_ok ts \<Longrightarrow> plain (flat ts) \<Longrightarrow> ts = map Lit (flat ts)"
proof (induction ts)
  case (Cons t ts)
  then show ?case by (cases t) auto
qed simp

lemma cmatch_self: "pchunk_ok p \<Longrightarrow> kchunk_ok (pbytes p) \<Longrightarrow> p \<noteq> DStar \<and> cmatch p (pbytes p)"
proof (cases p)
  case (Pat ts)
  assume "pchunk_ok p" "kchunk_ok (pbytes p)"
  then have "ts = map Lit (flat ts)" using Pat flat_plain by (simp add: kchunk_ok_def)
  moreover have "gl (map Lit (flat ts) @ []) (flat ts)" unfolding gl_lits by simp
  ultimately show ?thesis using Pat by simp
qed (auto simp: kchunk_ok_def)

lemma key_match_self: "list_all pchunk_ok ps \<Longrightarrow> list_all kchunk_ok (map pbytes ps) \<Longrightarrow> key_match ps (map pbytes ps)"
  using cmatch_self by (induction ps) auto

lemma takeWhile_all: "0 \<notin> set xs \<Longrightarrow> takeWhile (\<lambda>c. c \<noteq> (0 :: byte)) xs = xs"
  by (auto simp: takeWhile_eq_all_conv)

lemma same_str_iff: "0 \<notin> set xs \<Longrightarrow> 0 \<notin> set ys \<Longrightarrow> same_str xs ys \<longleftrightarrow> xs = ys"
  by (auto simp: same_str_def takeWhile_all)

lemma flat_no_null: "toks_ok ts \<Longrightarrow> 0 \<notin> set (flat ts)"
proof (induction ts)
  case (Cons t ts)
  then show ?case by (cases t) (auto simp: lit_def Z_DSL0_def Z_DSL1_def)
qed simp

lemma join_no_null: "list_all (\<lambda>c. 0 \<notin> set c) cs \<Longrightarrow> 0 \<notin> set (join cs)"
proof (induction cs)
  case (Cons c cs)
  then show ?case by (cases "cs = []") (auto simp: join_Cons Z_DELIMITER_def)
qed simp

lemma no_null:
  "list_all pchunk_ok ps \<Longrightarrow> 0 \<notin> set (join (map pbytes ps))" "list_all kchunk_ok cs \<Longrightarrow> 0 \<notin> set (join cs)"
proof -
  assume "list_all pchunk_ok ps"
  moreover have "pchunk_ok p \<Longrightarrow> 0 \<notin> set (pbytes p)" for p using flat_no_null by (cases p) (auto simp: Z_STAR_def)
  ultimately show "0 \<notin> set (join (map pbytes ps))" by (intro join_no_null) (auto simp: list_all_iff)
next
  assume "list_all kchunk_ok cs"
  then show "0 \<notin> set (join cs)" by (intro join_no_null) (auto simp: list_all_iff kchunk_ok_def plain_def lit_def)
qed

lemma same_str_match:
  assumes "kexpr_ok ps" "kkey_ok cs" "same_str (ke_string ps) (join cs)"
  shows "key_match ps cs"
proof -
  have "ke_string ps = join cs"
    using assms no_null by (simp add: same_str_iff ke_string_def kexpr_ok_def kkey_ok_def)
  then have "map pbytes ps = cs" using join_inj chunks_pbytes chunks_kchunk assms by (auto simp: ke_string_def kexpr_ok_def kkey_ok_def)
  then show ?thesis using key_match_self assms by (auto simp: kexpr_ok_def kkey_ok_def)
qed

lemma matches_ok:
  assumes "kexpr_ok ps" "kkey_ok cs"
  shows "z_keyexpr_includes (ke_string ps) (join cs) = Some (key_match ps cs)"
    "z_keyexpr_intersects (ke_string ps) (join cs) = Some (key_match ps cs)"
proof -
  have f: "z_keyexpr_forward x True (ke_string ps) 0 (length (ke_string ps)) (join cs) 0 (length (join cs)) = Some (key_match ps cs)" for x
    using forward_verbatim [OF _ _ _ _ kat_whole kat_whole, of ps cs x] assms by (simp add: kexpr_ok_def kkey_ok_def ke_string_def)
  then show "z_keyexpr_includes (ke_string ps) (join cs) = Some (key_match ps cs)"
    "z_keyexpr_intersects (ke_string ps) (join cs) = Some (key_match ps cs)"
    using same_str_match [OF assms] by (simp_all add: z_keyexpr_includes_def z_keyexpr_intersects_def)
qed


section \<open>Three double stars\<close>

text \<open>
  With a double star inside, the search finds the chunks before it and stays there: the outer loop
  begins again at this double star, finds it, and has nothing to match.
\<close>

lemma next_double_star_some:
  "seg m b e (xs @ Z_STAR # Z_STAR # ys) \<Longrightarrow> no_two (xs @ [Z_STAR]) \<Longrightarrow>
    z_keyexpr_get_next_double_star_chunk m b e = Some (Some (b + length xs))"
proof (induction "length xs" arbitrary: b xs rule: less_induct)
  case less
  have len: "e = b + (length xs + (2 + length ys))" using seg_length [OF less.prems(1)] by simp
  have snd: "rd m (b + length xs + 1) = Some Z_STAR" using less.prems(1) unfolding seg_append seg_Cons by simp
  have "Z_STAR \<in> set (xs @ [Z_STAR])" by simp
  then obtain us vs where uv: "xs @ [Z_STAR] = us @ Z_STAR # vs" "Z_STAR \<notin> set us" using split_list_first by metis
  have s: "seg m b (e - 1) (butlast (xs @ Z_STAR # Z_STAR # ys))" by (rule seg_last(3) [OF less.prems(1)]) simp
  have bl: "butlast (xs @ Z_STAR # Z_STAR # ys) = us @ Z_STAR # (vs @ butlast (Z_STAR # ys))"
  proof -
    have "butlast (xs @ Z_STAR # Z_STAR # ys) = (xs @ [Z_STAR]) @ butlast (Z_STAR # ys)" by (simp add: butlast_append)
    then show ?thesis unfolding uv(1) by simp
  qed
  have first: "memchr m b (e - 1) Z_STAR = Some (Some (b + length us))" using memchr_some [OF s [unfolded bl] uv(2)] .
  show ?case
  proof (cases "vs = []")
    case True
    then have "us = xs" using uv(1) by simp
    then show ?thesis using first snd len by (subst z_keyexpr_get_next_double_star_chunk.simps) simp
  next
    case False
    then obtain v ws where vs: "vs = v # ws" by (cases vs) auto
    have xs: "xs = us @ Z_STAR # butlast vs" "last vs = Z_STAR"
      using uv(1) False by (metis append_butlast_last_id append_is_Nil_conv butlast.simps(2) butlast_append butlast_snoc last_ConsR last_appendR last_snoc list.distinct(1))+
    have v: "v \<noteq> Z_STAR" using less.prems(2) unfolding uv(1) vs no_two_append by simp
    then obtain ws' where ws: "butlast vs = v # ws'" using vs xs(2) by (cases ws) auto
    have seg': "seg m b e (us @ Z_STAR # v # ws' @ Z_STAR # Z_STAR # ys)" using less.prems(1) xs(1) ws by simp
    have r: "rd m (b + length us + 1) = Some v" "seg m (b + length us + 2) e (ws' @ Z_STAR # Z_STAR # ys)"
      using seg' unfolding seg_append seg_Cons by simp_all
    have "no_two ((us @ [Z_STAR, v]) @ (ws' @ [Z_STAR]))" using less.prems(2) xs(1) ws by simp
    then have n: "no_two (ws' @ [Z_STAR])" unfolding no_two_append [of "us @ [Z_STAR, v]"] by blast
    have l: "length ws' < length xs" using xs(1) ws by simp
    have "z_keyexpr_get_next_double_star_chunk m (b + length us + 2) e = Some (Some (b + length us + 2 + length ws'))"
      by (rule less.hyps [OF l r(2) n])
    then show ?thesis using first r(1) v len xs(1) ws by (subst z_keyexpr_get_next_double_star_chunk.simps) (simp add: Z_DOUBLE_STAR_LEN_def)
  qed
qed

definition stuck :: "byte list \<Rightarrow> nat \<Rightarrow> nat \<Rightarrow> nat option \<Rightarrow> nat \<Rightarrow> bool" where
  "stuck lm lb le inner lc \<longleftrightarrow> 1 \<le> lb \<and> lb < le \<and> z_keyexpr_get_next_double_star_chunk lm lb le = Some (Some lb) \<and> lc = lb \<and>
     (inner = None \<or> inner = Some (lb - 1))"

lemma stuck_no_result:
  assumes "keyexpr_special_loop x lm lb le inner lc rm rb re rc = Some y"
  shows "\<not> stuck lm lb le inner lc"
proof (rule keyexpr_special_loop.raw_induct [where P = "\<lambda>x lm lb le inner lc rm rb re rc y. \<not> stuck lm lb le inner lc", OF _ assms], goal_cases)
  case (1 loop x lm lb le inner lc rm rb re rc y)
  show ?case
  proof
    assume s: "stuck lm lb le inner lc"
    show False
    proof (cases inner)
      case None
      then have "loop x lm lb le (Some (lb - 1)) lb rm rb re rb = Some y" using 1(2) s by (simp add: stuck_def Z_DELIMITER_LEN_def)
      then show False using 1(1) s by (fastforce simp: stuck_def)
    next
      case (Some k)
      then have "loop x lm lc le None lc rm rc re rc = Some y" using 1(2) s by (simp add: stuck_def split: if_splits)
      then show False using 1(1) s by (fastforce simp: stuck_def)
    qed
  qed
qed

lemma special_stuck: "stuck lm lb le None lb \<Longrightarrow> keyexpr_special_loop x lm lb le None lb rm rb re rc = None"
  using stuck_no_result by (metis not_None_eq)


lemma keyexpr_special_three:
  assumes "kat lm lb le (map pbytes (ps @ DStar # qs))" "list_all pchunk_ok ps" "DStar \<notin> set ps" "ps \<noteq> []"
    "kat rm rb re cs" "list_all kchunk_ok cs" "cs \<noteq> []"
  shows "z_keyexpr_special x lm lb le rm rb re = (if occurs ps cs then None else Some False)"
proof -
  let ?k = "lb + length (join (map pbytes ps))"
  have k: "kat lm lb ?k (map pbytes ps)" "kat lm (?k + 1) le (map pbytes (DStar # qs))"
    using kat_append [of lm lb le "map pbytes ps" "map pbytes (DStar # qs)"] assms(1,4) by simp_all
  obtain ys where ys: "join (map pbytes (DStar # qs)) = Z_STAR # Z_STAR # ys" by (cases "qs = []") (auto simp: join_Cons)
  have s: "seg lm lb le ((join (map pbytes ps) @ [Z_DELIMITER]) @ Z_STAR # Z_STAR # ys)"
    using assms(1,4) ys join_append [of "map pbytes ps" "map pbytes (DStar # qs)"] by (simp add: kat_def)
  have "no_two ((join (map pbytes ps) @ [Z_DELIMITER]) @ [Z_STAR])" using no_two_join [OF assms(2,3)] by (simp add: no_two_append)
  then have n: "z_keyexpr_get_next_double_star_chunk lm lb le = Some (Some (?k + 1))" using next_double_star_some [OF s] by simp
  have s': "seg lm (?k + 1) le ([] @ Z_STAR # Z_STAR # ys)" using k(2) ys by (simp add: kat_def)
  have "stuck lm (?k + 1) le None (?k + 1)" using next_double_star_some [OF s'] seg_length [OF s'] by (simp add: stuck_def)
  then have st: "keyexpr_special_loop x lm (?k + 1) le None (?k + 1) rm rc re rc = None" for rc using special_stuck by blast
  obtain rc where "keyexpr_special_loop x lm lb le (Some ?k) lb rm rb re rb =
      (if occurs ps cs then keyexpr_special_loop x lm (?k + 1) le None (?k + 1) rm rc re rc else Some (Some False))"
    using special_inner [OF k(1) assms(2,3), of 0 cs lb rm rb re rb x le] k(1) assms by auto
  moreover have "lb < le" using seg_length [OF s] by simp
  ultimately have "keyexpr_special_loop x lm lb le None lb rm rb re rb = (if occurs ps cs then None else Some (Some False))"
    using n st by (subst keyexpr_special_loop.simps) (simp add: Z_DELIMITER_LEN_def)
  then show ?thesis using next_double_star_plain [OF assms(5-7)] by (cases x) (simp_all add: z_keyexpr_special_def)
qed

lemma forward_two:
  assumes "kat lm lb le (map pbytes (DStar # ps @ [DStar]))" "ps \<noteq> []" "kat rm rb re cs" "list_all kchunk_ok cs" "cs \<noteq> []"
  shows "keyexpr_forward_loop parts x v lm lb le rm rb re = backward_wild_case parts x v lm (lb + 3) le rm rb re"
proof -
  obtain c ds where cs: "cs = c # ds" "kchunk_ok c" using assms(4,5) by (cases cs) auto
  have r: "kat rm rb re (c # ds)" using assms(3) cs by simp
  have rlt: "rb < re" by (rule kat_less [OF r chunk_kchunk [OF cs(2)]])
  have l: "kat lm lb le (pbytes DStar # map pbytes (ps @ [DStar]))" using assms(1) by simp
  have l': "kat lm (lb + 3) le (map pbytes ps @ [pbytes DStar])" using kat_ConsD(3) [OF l] by (simp add: numeral_3_eq_3)
  obtain s where s: "seg lm s le (pbytes DStar)" "starts lm (lb + 3) s" using kat_snocD [OF l'] by blast
  have lt: "lb + 3 < le" using s seg_length [OF s(1)] by (auto simp: starts_def)
  obtain es d where es: "cs = es @ [d]" "kchunk_ok d" using assms(4,5) by (cases cs rule: rev_cases) auto
  obtain t where t: "seg rm t re d" "starts rm rb t" using kat_snocD [of rm rb re es d] assms(3) es by blast
  have "z_chunk_forward x lm lb le rm rb re = Some (forward_no\<lparr>cf_result := Z_CHUNK_MATCH_RESULT_LEFT_SUPERWILD\<rparr>)"
    using forward_double [OF _ kat_ConsD(2) [OF l] kat_ConsD(1) [OF r] cs(2) kat_ConsD(2) [OF r]] kat_ConsD(1) [OF l] by simp
  then have "keyexpr_forward_loop parts x v lm lb le rm rb re = keyexpr_backward_loop parts x v lm (lb + 3) le rm rb re"
    using lt rlt by (subst keyexpr_forward_loop.simps) (simp add: Z_DOUBLE_STAR_LEN_def Z_DELIMITER_LEN_def)
  also have "z_chunk_backward x lm (lb + 3) le rm rb re = Some (backward_no\<lparr>cb_result := Z_CHUNK_MATCH_RESULT_LEFT_SUPERWILD\<rparr>)"
    by (rule backward_double [OF s t(1) es(2) t(2)])
  then have "keyexpr_backward_loop parts x v lm (lb + 3) le rm rb re = backward_wild_case parts x v lm (lb + 3) le rm rb re"
    using lt rlt by (subst keyexpr_backward_loop.simps) (simp add: backward_wild_case_def Z_DOUBLE_STAR_LEN_def Z_DELIMITER_LEN_def)
  finally show ?thesis .
qed

lemma three_ok:
  assumes "list_all pchunk_ok (ps @ qs)" "ps \<noteq> []" "DStar \<notin> set ps" "free (map pbytes (ps @ qs))" "kkey_ok cs" "free cs"
  shows "z_keyexpr_forward x True (ke_string (DStar # ps @ DStar # qs @ [DStar])) 0 (length (ke_string (DStar # ps @ DStar # qs @ [DStar])))
    (join cs) 0 (length (join cs)) = (if occurs ps cs then None else Some False)"
proof -
  let ?ps = "DStar # (ps @ DStar # qs) @ [DStar]" and ?r = "join cs"
  let ?l = "ke_string ?ps"
  have l: "kat ?l 0 (length ?l) (map pbytes ?ps)" and r: "kat ?r 0 (length ?r) cs"
    unfolding ke_string_def by (rule kat_whole)+
  have cok: "list_all kchunk_ok cs" "cs \<noteq> []" using assms(5) by (simp_all add: kkey_ok_def)
  have two: "keyexpr_forward_loop parts x v ?l 0 (length ?l) ?r 0 (length ?r) = backward_wild_case parts x v ?l 3 (length ?l) ?r 0 (length ?r)" for parts v
    using forward_two [OF l _ r cok, of parts x v] by simp
  have pok: "list_all pchunk_ok ?ps" using assms(1) by simp
  have lt: "0 < length ?l" "0 < length ?r" using kat_nonempty [OF l chunks_pbytes [OF pok]] kat_nonempty [OF r chunks_kchunk [OF cok(1)]] cok(2) by simp_all
  have k: "kat ?l 3 (length ?l) (map pbytes ((ps @ DStar # qs) @ [DStar]))"
    using kat_ConsD(3) [of ?l 0 "length ?l" "pbytes DStar" "map pbytes ((ps @ DStar # qs) @ [DStar])"] l by (simp add: numeral_3_eq_3)
  note three = snoc_double [OF k]
  have "z_keyexpr_special x ?l 3 (length ?l - 3) ?r 0 (length ?r) = (if occurs ps cs then None else Some False)"
    using keyexpr_special_three [OF three(2) _ assms(3,2) r cok] assms(1) by simp
  moreover have "z_keyexpr_get_next_verbatim_chunk ?l 0 (length ?l) = Some None" "z_keyexpr_get_next_verbatim_chunk ?r 0 (length ?r) = Some None"
    using verbatim_none [OF l vchunks(2) [OF pok]] verbatim_none [OF r vchunks(1) [OF cok(1)] cok(2) assms(6)] assms(4)
    by (simp_all add: verb_def)
  ultimately have "z_keyexpr_parts x ?l 0 (length ?l) ?r 0 (length ?r) = (if occurs ps cs then None else Some False)"
    using lt two [of no_parts False] three(1) by (subst z_keyexpr_parts.simps) (simp add: backward_wild_case_def)
  then show ?thesis using two [of "z_keyexpr_parts x" True] by (simp add: z_keyexpr_forward_def backward_wild_case_def)
qed

lemma three_not_same:
  assumes "list_all pchunk_ok ps" "kkey_ok cs"
  shows "\<not> same_str (ke_string (DStar # ps)) (join cs)"
proof
  assume "same_str (ke_string (DStar # ps)) (join cs)"
  then have "ke_string (DStar # ps) = join cs"
    using no_null(1) [of "DStar # ps"] no_null(2) [of cs] assms by (simp add: same_str_iff ke_string_def kkey_ok_def)
  moreover have "Z_STAR \<in> set (ke_string (DStar # ps))" by (cases "ps = []") (simp_all add: ke_string_def join_Cons)
  ultimately show False using join_plain assms(2) by (auto simp: kkey_ok_def)
qed

lemma includes_three:
  assumes "list_all pchunk_ok (ps @ qs)" "ps \<noteq> []" "DStar \<notin> set ps" "free (map pbytes (ps @ qs))" "kkey_ok cs" "free cs"
  shows "z_keyexpr_includes (ke_string (DStar # ps @ DStar # qs @ [DStar])) (join cs) = (if occurs ps cs then None else Some False)"
  using three_ok [OF assms, of False] three_not_same [of "ps @ DStar # qs @ [DStar]" cs] assms by (simp add: z_keyexpr_includes_def)

end
