(* ===== verification/Zp_KeCanonLaws.thy ===== *)
theory Zp_KeCanonLaws imports Zp_KeCanon Zp_KeLaws
begin

text \<open>
  What is accepted as canonical, chunk by chunk, and that expressions in canonical form are left as
  they are; where rewriting goes wrong, on concrete expressions; and what declared expressions
  become on the wire.
\<close>

section \<open>Chunks that are accepted\<close>

definition canon_lit :: "byte \<Rightarrow> bool" where
  "canon_lit c \<longleftrightarrow> c \<noteq> Z_SHARP \<and> c \<noteq> Z_QMARK \<and> c \<noteq> Z_DSL0 \<and> c \<noteq> Z_STAR"

fun toks_canon :: "tok list \<Rightarrow> bool" where
  "toks_canon [] \<longleftrightarrow> True"
| "toks_canon (Lit c # ts) \<longleftrightarrow> canon_lit c \<and> toks_canon ts"
| "toks_canon (Any # ts) \<longleftrightarrow> toks_canon ts \<and> (case ts of Any # _ \<Rightarrow> False | _ \<Rightarrow> True)"

definition scan_ok :: "nat \<Rightarrow> byte list \<Rightarrow> bool" where
  "scan_ok d c \<longleftrightarrow> (case canon_scan c d of (r, e) \<Rightarrow> r = Z_KEYEXPR_CANON_SUCCESS \<and> e \<noteq> 1)"

lemma scan_ok_Nil [simp]: "scan_ok d [] \<longleftrightarrow> d \<noteq> 1"
  by (simp add: scan_ok_def)

lemma canon_signs [simp]:
  "Z_SHARP \<noteq> Z_DSL0" "Z_QMARK \<noteq> Z_DSL0" "Z_SHARP \<noteq> Z_STAR" "Z_QMARK \<noteq> Z_STAR" "Z_DSL0 \<noteq> Z_SHARP" "Z_DSL0 \<noteq> Z_QMARK"
  "Z_STAR \<noteq> Z_SHARP" "Z_STAR \<noteq> Z_QMARK"
  by (simp_all add: Z_SHARP_def Z_QMARK_def Z_DSL0_def Z_STAR_def)

lemma dsl1_star: "Z_DSL1 = Z_STAR"
  by (simp add: Z_DSL1_def Z_STAR_def)

lemma flat_Cons_eq:
  "flat ts = c # cs \<longleftrightarrow> (\<exists>us. ts = Lit c # us \<and> flat us = cs) \<or> (\<exists>us. ts = Any # us \<and> c = Z_DSL0 \<and> Z_STAR # flat us = cs)"
proof (cases ts)
  case (Cons t us)
  then show ?thesis by (cases t) (auto simp: dsl1_star)
qed auto

lemma scan_ok_iff:
  "(scan_ok 0 c \<longleftrightarrow> (\<exists>ts. flat ts = c \<and> toks_canon ts)) \<and>
   (scan_ok 3 c \<longleftrightarrow> (\<exists>ts. flat ts = c \<and> toks_canon (Any # ts))) \<and>
   (scan_ok 1 c \<longleftrightarrow> (\<exists>ts. Z_STAR # flat ts = c \<and> toks_canon (Any # ts)))"
proof (induction c)
  case (Cons x c)
  consider "x = Z_SHARP \<or> x = Z_QMARK" | "x = Z_DSL0" | "x = Z_STAR" | "canon_lit x" by (auto simp: canon_lit_def)
  then show ?case
  proof cases
    case 1
    then show ?thesis by (auto simp: scan_ok_def flat_Cons_eq canon_lit_def)
  next
    case 2
    then have "scan_ok 0 (x # c) \<longleftrightarrow> scan_ok 1 c" "\<not> scan_ok 3 (x # c)" "\<not> scan_ok 1 (x # c)" by (simp_all add: scan_ok_def)
    then show ?thesis using Cons 2 by (auto simp: flat_Cons_eq canon_lit_def)
  next
    case 3
    then have "\<not> scan_ok 0 (x # c)" "\<not> scan_ok 3 (x # c)" "scan_ok 1 (x # c) \<longleftrightarrow> scan_ok 3 c" by (simp_all add: scan_ok_def numeral_3_eq_3)
    then show ?thesis using Cons 3 by (auto simp: flat_Cons_eq canon_lit_def)
  next
    case 4
    then have "scan_ok 0 (x # c) \<longleftrightarrow> scan_ok 0 c" "scan_ok 3 (x # c) \<longleftrightarrow> scan_ok 0 c" "\<not> scan_ok 1 (x # c)" "x \<noteq> Z_DSL0" "x \<noteq> Z_STAR"
      by (simp_all add: scan_ok_def canon_lit_def)
    then show ?thesis using Cons 4 by (auto simp: flat_Cons_eq)
  qed
qed auto

text \<open>
  The chunks of a canonical expression: one character, a double star that is not after another, or a
  text with places. A star may not follow a double star; chunks of one other character do not matter.
\<close>

fun canonical :: "bool \<Rightarrow> byte list list \<Rightarrow> bool" where
  "canonical big [] \<longleftrightarrow> True"
| "canonical big (c # cs) \<longleftrightarrow>
     (if length c = 1 then \<not> (big \<and> c = [Z_STAR]) \<and> canonical big cs
      else if c = [Z_STAR, Z_STAR] then \<not> big \<and> canonical True cs
      else (\<exists>ts. flat ts = c \<and> ts \<noteq> [] \<and> ts \<noteq> [Any] \<and> toks_canon ts) \<and> canonical False cs)"

lemma canon_scanned_iff:
  "scan_ok 0 c \<Longrightarrow> canon_scanned c e = Canon_Next (e + 1) False"
  "\<not> scan_ok 0 c \<Longrightarrow> \<exists>r. r \<noteq> Z_KEYEXPR_CANON_SUCCESS \<and> canon_scanned c e = Canon_Fail r None"
  by (auto simp: canon_scanned_def scan_ok_def split: prod.splits)

lemma canon_chunk_canonical:
  "(\<exists>big'. canon_chunk c b e big = Canon_Next (e + 1) big' \<and> (\<forall>cs. canonical big (c # cs) \<longleftrightarrow> canonical big' cs)) \<or>
   (\<exists>r l. canon_chunk c b e big = Canon_Fail r l \<and> r \<noteq> Z_KEYEXPR_CANON_SUCCESS \<and> (\<forall>cs. \<not> canonical big (c # cs)))"
proof -
  have scanned: "(\<exists>big'. canon_scanned c e = Canon_Next (e + 1) big' \<and> (\<forall>cs. canonical big (c # cs) \<longleftrightarrow> canonical big' cs)) \<or>
      (\<exists>r l. canon_scanned c e = Canon_Fail r l \<and> r \<noteq> Z_KEYEXPR_CANON_SUCCESS \<and> (\<forall>cs. \<not> canonical big (c # cs)))"
    if "length c \<noteq> 0" "length c \<noteq> 1" "c \<noteq> [Z_STAR, Z_STAR]" "c \<noteq> [Z_DSL0, Z_STAR]"
  proof (cases "scan_ok 0 c")
    case True
    then obtain ts where ts: "flat ts = c" "toks_canon ts" using scan_ok_iff by blast
    moreover have "ts \<noteq> [] \<and> ts \<noteq> [Any]" using ts that by (auto simp: dsl1_star)
    ultimately have "canonical big (c # cs) \<longleftrightarrow> canonical False cs" for cs using that by auto
    then show ?thesis using canon_scanned_iff(1) [OF True, of e] by auto
  next
    case False
    then have "\<not> canonical big (c # cs)" for cs using that scan_ok_iff [of c] by auto
    then show ?thesis using canon_scanned_iff(2) [OF False, of e] by auto
  qed
  consider "c = []" | x where "c = [x]" | "c = [Z_STAR, Z_STAR]" | "c = [Z_DSL0, Z_STAR]"
    | "length c \<noteq> 0" "length c \<noteq> 1" "c \<noteq> [Z_STAR, Z_STAR]" "c \<noteq> [Z_DSL0, Z_STAR]"
    by (cases c; cases "tl c") auto
  then show ?thesis
  proof cases
    case 1
    then show ?thesis by (auto simp: canon_chunk_def)
  next
    case 2
    then show ?thesis by (auto simp: canon_chunk_def)
  next
    case 3
    then show ?thesis by (auto simp: canon_chunk_def)
  next
    case 4
    have "\<not> canonical big (c # cs)" for cs using 4 by (auto simp: flat_Cons_eq canon_lit_def)
    then show ?thesis using 4 by (auto simp: canon_chunk_def)
  next
    case 5
    then have "canon_chunk c b e big = canon_scanned c e" by (auto simp: canon_chunk_def split: list.splits)
    then show ?thesis using scanned [OF 5] by simp
  qed
qed

lemma canon_prefix_loop_ok:
  "kat m b len cs \<Longrightarrow> list_all (\<lambda>c. Z_DELIMITER \<notin> set c) cs \<Longrightarrow> cs \<noteq> [] \<Longrightarrow>
    \<exists>r l. canon_prefix_loop m len b big = Some (r, l) \<and> (r = Z_KEYEXPR_CANON_SUCCESS \<longleftrightarrow> canonical big cs) \<and>
      (r = Z_KEYEXPR_CANON_SUCCESS \<longrightarrow> l = len)"
proof (induction cs arbitrary: b big)
  case (Cons c cs)
  note k = kat_ConsD [OF Cons.prems(1)]
  have pl: "Z_DELIMITER \<notin> set c" "list_all (\<lambda>c. Z_DELIMITER \<notin> set c) cs" using Cons.prems(2) by simp_all
  have e: "z_chunk_end m b len = Some (b + length c)" by (rule z_chunk_end_ok [OF k(1) pl(1) k(2)])
  have r: "rd_range m b (length c) = Some c" by (rule seg_range [OF k(1)])
  let ?step = "canon_chunk c b (b + length c) big"
  have loop: "canon_prefix_loop m len b big =
      (case ?step of Canon_Fail r l \<Rightarrow> Some (r, case l of Some l \<Rightarrow> l | None \<Rightarrow> len)
       | Canon_Next next big \<Rightarrow> (if next < len then canon_prefix_loop m len next big
           else Some (if next \<le> len then Z_KEYEXPR_CANON_EMPTY_CHUNK else Z_KEYEXPR_CANON_SUCCESS, len)))"
    using e r by (subst canon_prefix_loop.simps) simp
  show ?case
  proof (cases ?step)
    case (Canon_Fail r l)
    then show ?thesis using canon_chunk_canonical [of c b "b + length c" big] loop by auto
  next
    case (Canon_Next n big')
    then have n: "n = b + length c + 1" "\<And>cs. canonical big (c # cs) \<longleftrightarrow> canonical big' cs"
      using canon_chunk_canonical [of c b "b + length c" big] by auto
    show ?thesis
    proof (cases "cs = []")
      case True
      then have "b + length c = len" using Cons.prems(1) seg_length [of m b len c] by (simp add: kat_def)
      then show ?thesis using loop Canon_Next n True by simp
    next
      case False
      have s: "seg m (b + length c + 1) len (join cs)" using k(3) False by (simp add: kat_def)
      show ?thesis
      proof (cases "n < len")
        case True
        then show ?thesis using Cons.IH [OF k(3) pl(2) False, of big'] loop Canon_Next n by simp
      next
        case False
        then have "n = len" "join cs = []" using seg_length [OF s] n(1) by simp_all
        then have "cs = [[]]" using \<open>cs \<noteq> []\<close> by (cases cs rule: join.cases) auto
        then have "\<not> canonical big' cs" by simp
        then show ?thesis using loop Canon_Next n \<open>n = len\<close> by simp
      qed
    qed
  qed
qed simp

lemma is_canon_ok:
  assumes "list_all (\<lambda>c. Z_DELIMITER \<notin> set c) cs" "cs \<noteq> []"
  shows "\<exists>r. z_keyexpr_is_canon (join cs @ rest) (length (join cs)) = Some r \<and> (r = Z_KEYEXPR_CANON_SUCCESS \<longleftrightarrow> canonical False cs)"
proof -
  have "kat (join cs @ rest) 0 (length (join cs)) cs" using assms(2) by (simp add: kat_def seg_def)
  then show ?thesis using canon_prefix_loop_ok [OF _ assms, of "join cs @ rest" 0 "length (join cs)" False]
    by (auto simp: z_keyexpr_is_canon_def zp_canon_prefix_def)
qed


section \<open>Canonical expressions are left as they are\<close>

text \<open>No place follows another.\<close>

fun singles :: "bool \<Rightarrow> byte list \<Rightarrow> bool" where
  "singles r (x # y # xs) \<longleftrightarrow> (if x = Z_DSL0 \<and> y = Z_STAR then \<not> r \<and> singles True xs else singles False (y # xs))"
| "singles r [] \<longleftrightarrow> True"
| "singles r [x] \<longleftrightarrow> True"

lemma singles_slash: "singles r (Z_DELIMITER # ys) \<longleftrightarrow> singles False ys"
  by (cases ys) auto

lemma singles_Cons: "x \<noteq> Z_DSL0 \<Longrightarrow> singles r (x # ys) \<longleftrightarrow> singles False ys"
  by (cases ys) auto

lemma singles_flat:
  "toks_canon (if r then Any # ts else ts) \<Longrightarrow> ys = [] \<or> hd ys = Z_DELIMITER \<Longrightarrow> singles False ys \<Longrightarrow> singles r (flat ts @ ys)"
proof (induction ts arbitrary: r)
  case Nil
  then show ?case by (cases ys) (auto simp: singles_slash)
next
  case (Cons t ts)
  show ?case
  proof (cases t)
    case Any
    then have "\<not> r" "toks_canon (Any # ts)" using Cons.prems(1) by (auto split: if_splits)
    then show ?thesis using Cons.IH [of True] Cons.prems(2,3) Any by (simp add: dsl1_star)
  next
    case (Lit c)
    then have "c \<noteq> Z_DSL0" "toks_canon ts" using Cons.prems(1) by (auto simp: canon_lit_def split: if_splits)
    then show ?thesis using Cons.IH [of False] Cons.prems(2,3) Lit by (simp add: singles_Cons)
  qed
qed

lemma singles_chunk:
  assumes "canonical big (c # cs)" "ys = [] \<or> hd ys = Z_DELIMITER" "singles False ys"
  shows "singles False (c @ ys)"
proof -
  consider x where "c = [x]" | "c = [Z_STAR, Z_STAR]" | ts where "flat ts = c" "toks_canon ts"
    using assms(1) by (cases c; cases "tl c") (auto split: if_splits)
  then show ?thesis
  proof cases
    case 1
    then show ?thesis using assms(2,3) by (cases ys) (auto simp: singles_slash)
  next
    case 2
    then show ?thesis using assms(2,3) by (cases ys) (auto simp: singles_slash)
  next
    case 3
    then show ?thesis using singles_flat [of False ts ys] assms(2,3) by simp
  qed
qed

lemma canonical_tl: "canonical big (c # cs) \<Longrightarrow> \<exists>big'. canonical big' cs"
  by (auto split: if_splits)

lemma singles_join: "canonical big cs \<Longrightarrow> singles False (join cs)"
proof (induction cs arbitrary: big)
  case (Cons c cs)
  obtain big' where "canonical big' cs" using canonical_tl [OF Cons.prems] by blast
  then have IH: "singles False (join cs)" by (rule Cons.IH)
  show ?case
  proof (cases "cs = []")
    case True
    then show ?thesis using singles_chunk [OF Cons.prems, of "[]"] by simp
  next
    case False
    then show ?thesis using singles_chunk [OF Cons.prems, of "Z_DELIMITER # join cs"] IH by (simp add: join_Cons singles_slash)
  qed
qed simp

lemma startswith_dollar_star:
  assumes "rd m b = Some x" "x = Z_DSL0 \<Longrightarrow> rd m (b + 1) = Some y"
  shows "z_str_startswith m b Z_DOLLAR_STAR = Some (if x = Z_DSL0 \<and> y = Z_STAR then 2 else 0)"
  using assms by (auto simp: z_str_startswith_def Z_DOLLAR_STAR_def)

lemma singleify_find_ok:
  "seg m b len xs \<Longrightarrow> rd m len = Some 0 \<Longrightarrow> singles right xs \<Longrightarrow> \<exists>r. singleify_find m len Z_DOLLAR_STAR right b = Some (len, r)"
proof (induction right xs arbitrary: b rule: singles.induct)
  case (1 r x y xs)
  have s: "rd m b = Some x" "rd m (b + 1) = Some y" "seg m (b + 2) len xs" "seg m (b + 1) len (y # xs)" "b < len"
    using 1(3) seg_length [OF 1(3)] by (simp_all add: seg_Cons)
  show ?case
  proof (cases "x = Z_DSL0 \<and> y = Z_STAR")
    case True
    then have "\<not> r" "singles True xs" using 1(5) by simp_all
    then show ?thesis using 1(1) [OF True s(3) 1(4)] startswith_dollar_star [OF s(1,2)] s(5) True
      by (subst singleify_find.simps) simp
  next
    case False
    then have "singles False (y # xs)" using 1(5) by simp
    then show ?thesis using 1(2) [OF False s(4) 1(4)] startswith_dollar_star [OF s(1,2)] s(5) False
      by (subst singleify_find.simps) auto
  qed
next
  case (2 r)
  then show ?case by (subst singleify_find.simps) simp
next
  case (3 r x)
  then have s: "rd m b = Some x" "len = b + 1" by (simp_all add: seg_single)
  have "z_str_startswith m b Z_DOLLAR_STAR = Some 0"
    using startswith_dollar_star [of m b x 0] s 3(2) by (simp add: Z_STAR_def)
  moreover have "singleify_find m len Z_DOLLAR_STAR False (b + 1) = Some (len, False)"
    using s by (subst singleify_find.simps) simp
  ultimately have "singleify_find m len Z_DOLLAR_STAR r b = Some (len, False)" using s by (subst singleify_find.simps) simp
  then show ?case by blast
qed

lemma canonize_canonical:
  assumes "list_all (\<lambda>c. Z_DELIMITER \<notin> set c) cs" "cs \<noteq> []" "canonical False cs"
  shows "z_keyexpr_canonize (join cs @ 0 # rest) (length (join cs)) = Some (join cs @ 0 # rest, length (join cs), Z_KEYEXPR_CANON_SUCCESS)"
proof -
  let ?m = "join cs @ 0 # rest" and ?n = "length (join cs)"
  have "seg ?m 0 ?n (join cs)" "rd ?m ?n = Some 0" by (simp_all add: seg_def rd_def)
  then obtain r where "singleify_find ?m ?n Z_DOLLAR_STAR False 0 = Some (?n, r)"
    using singleify_find_ok singles_join [OF assms(3)] by blast
  moreover have "singleify_copy ?m ?n Z_DOLLAR_STAR r ?n ?n = Some (?m, ?n)" by (subst singleify_copy.simps) simp
  ultimately have "zp_singleify ?m ?n Z_DOLLAR_STAR = Some (?m, ?n)" by (simp add: zp_singleify_def)
  moreover have "kat ?m 0 ?n cs" using assms(2) by (simp add: kat_def seg_def)
  then have "zp_canon_prefix ?m ?n = Some (Z_KEYEXPR_CANON_SUCCESS, ?n)"
    using canon_prefix_loop_ok [OF _ assms(1,2), of ?m 0 ?n False] assms(3) by (auto simp: zp_canon_prefix_def)
  ultimately show ?thesis by (simp add: z_keyexpr_canonize_def)
qed

section \<open>Where rewriting goes wrong\<close>

text \<open>
  A place after a double star becomes a star after it, which is not canonical; an assertion fails for
  a star two chunks after a double star; the check of a chunk goes on to the end of the string; and
  the search for a separator leaves a string that is not terminated.
\<close>

lemma canonize_not_canonical:
  "z_keyexpr_canonize [0x2a, 0x2a, 0x2f, 0x24, 0x2a, 0] 5 = Some ([0x2a, 0x2a, 0x2f, 0x2a, 0x2a, 0], 4, Z_KEYEXPR_CANON_SUCCESS) \<and>
   z_keyexpr_is_canon [0x2a, 0x2a, 0x2f, 0x2a, 0x2a, 0] 4 = Some Z_KEYEXPR_CANON_SINGLE_STAR_AFTER_DOUBLE_STAR"
  by code_simp

lemma canonize_asserts: "z_keyexpr_canonize [0x2a, 0x2a, 0x2f, 0x61, 0x2f, 0x2a, 0] 6 = None"
  by code_simp

lemma canonize_stars_in_chunk:
  "z_keyexpr_canonize [0x24, 0x2a, 0x2f, 0x61, 0x2f, 0x2a, 0] 6 =
     Some ([0x2a, 0x2f, 0x2a, 0x61, 0x2f, 0x2a, 0], 6, Z_KEYEXPR_CANON_STARS_IN_CHUNK)"
  by code_simp

lemma join_reads_outside: "z_keyexpr_join [0x61] [0x24, 0x2a] = None"
  by code_simp


section \<open>Declared expressions on the wire\<close>

text \<open>What a wire expression stands for at the other end, where the declared prefix has its number.\<close>

definition wire_denotes :: "(u16 \<Rightarrow> z_string_t) \<Rightarrow> z_wireexpr_t \<Rightarrow> z_string_t" where
  "wire_denotes ids w = (if we_id w = 0 then we_suffix w else ids (we_id w) @ we_suffix w)"

text \<open>The declaration is about a prefix of the expression.\<close>

definition declared_wf :: "(u16 \<Rightarrow> z_string_t) \<Rightarrow> 'w z_declared_keyexpr_t \<Rightarrow> bool" where
  "declared_wf ids key \<longleftrightarrow>
     (case dke_declaration key of None \<Rightarrow> True
      | Some d \<Rightarrow> wd_id d \<noteq> 0 \<and> unat (wd_prefix_len d) \<le> length (dke_inner key) \<and>
          ids (wd_id d) = take (unat (wd_prefix_len d)) (dke_inner key))"

lemma alias_to_wire_denotes:
  assumes "declared_wf ids key"
  shows "\<exists>w. z_declared_keyexpr_alias_to_wire key session = Some w \<and> wire_denotes ids w = dke_inner key"
proof (cases "dke_declaration key")
  case (Some d)
  then show ?thesis
    using assms append_take_drop_id [of "unat (wd_prefix_len d)" "dke_inner key"]
    by (cases "wd_session d = Some session")
      (auto simp: z_declared_keyexpr_alias_to_wire_def declared_wf_def wire_denotes_def z_wireexpr_null_def
        z_keyexpr_wire_declaration_is_declared_on_session_def)
qed (auto simp: z_declared_keyexpr_alias_to_wire_def wire_denotes_def z_wireexpr_null_def)

lemma declare_prefix_wf:
  assumes "z_keyexpr_declare_prefix declare_resource is_multicast session key n s = Some (Z_RES_OK, out, s')"
    "\<And>i t. declare_resource s (take n key) = (Z_RES_OK, i, t) \<Longrightarrow> i \<noteq> 0 \<and> ids i = take n key" "length key < 2 ^ 16"
  shows "declared_wf ids out \<and> dke_inner out = key"
proof -
  have n: "n \<le> length key" using assms(1) by (auto simp: z_keyexpr_declare_prefix_def split: if_splits)
  then have u: "unat (of_nat (length (take n key)) :: u16) = n" using assms(3) by (simp add: unat_of_nat min_def take_bit_nat_eq_self)
  show ?thesis
  proof (cases "n = 0 \<or> is_multicast")
    case True
    then show ?thesis using assms(1) n by (auto simp: z_keyexpr_declare_prefix_def declared_wf_def z_declared_keyexpr_null_def)
  next
    case False
    then have "out = \<lparr>dke_declaration = Some \<lparr>wd_id = fst (snd (declare_resource s (take n key))),
          wd_prefix_len = of_nat (length (take n key)), wd_session = Some session\<rparr>, dke_inner = key\<rparr>"
      "fst (declare_resource s (take n key)) = Z_RES_OK"
      using assms(1) n by (auto simp: z_keyexpr_declare_prefix_def z_keyexpr_wire_declaration_new_def split: prod.splits if_splits)
    then show ?thesis using assms(2) n u by (cases "declare_resource s (take n key)") (auto simp: declared_wf_def)
  qed
qed

lemma concat_wf:
  assumes "declared_wf ids left" "z_declared_keyexpr_concat left right = (Z_RES_OK, key)"
  shows "declared_wf ids key \<and> dke_inner key = dke_inner left @ right"
proof -
  have k: "dke_inner key = dke_inner left @ right" "dke_declaration key = dke_declaration left"
    using assms(2) by (auto simp: z_declared_keyexpr_concat_def z_keyexpr_concat_def z_keyexpr_from_substr_def z_string_concat_substr_def Z_ERR_INVALID_def split: if_splits)
  then show ?thesis using assms(1) by (auto simp: declared_wf_def split: option.splits)
qed

text \<open>To join may move the double star that ends the declared prefix.\<close>

lemma join_changes_prefix:
  "z_declared_keyexpr_join \<lparr>dke_declaration = Some \<lparr>wd_id = 7, wd_prefix_len = 4, wd_session = Some ()\<rparr>, dke_inner = [0x61, 0x2f, 0x2a, 0x2a]\<rparr>
      \<lparr>dke_declaration = None, dke_inner = [0x2a]\<rparr> =
     Some (Z_RES_OK, \<lparr>dke_declaration = Some \<lparr>wd_id = 7, wd_prefix_len = 4, wd_session = Some ()\<rparr>,
       dke_inner = [0x61, 0x2f, 0x2a, 0x2f, 0x2a, 0x2a]\<rparr>)"
  by code_simp

end
