(* ===== verification/Zp_Rc.thy ===== *)
theory Zp_Rc imports Zp_KeCanon "HOL-Library.Multiset"
begin

text \<open>
  Values that are counted: \<^verbatim>\<open>src/collections/refcount.c\<close> and the functions that
  \<^verbatim>\<open>include/zenoh-pico/collections/refcount.h\<close> defines for every counted type. A store holds the
  counters and the values by their address; what the code keeps is an address, or a null reference.
  Reading a counter or a value that was freed is a \<open>Fault\<close>. The counters are changed by one
  thread at a time.
\<close>

section \<open>Counters and values\<close>

definition Z_ERR_OVERFLOW :: z_result_t where "Z_ERR_OVERFLOW = - 74"
definition Z_RC_MAX_COUNT :: u64 where "Z_RC_MAX_COUNT = 0x7fffffff"

record z_inner_rc_t =
  rc_strong_cnt :: u64
  rc_weak_cnt :: u64

record 'v rc_store =
  st_next :: nat
  st_cnt :: "nat \<Rightarrow> z_inner_rc_t option"
  st_val :: "nat \<Rightarrow> 'v option"

type_synonym z_rc = "nat option"

definition rc_store_empty :: "'v rc_store" where
  "rc_store_empty = \<lparr>st_next = 0, st_cnt = (\<lambda>_. None), st_val = (\<lambda>_. None)\<rparr>"

text \<open>What a counter is, and writing it.\<close>

definition rc_inner :: "nat \<Rightarrow> (z_inner_rc_t, 'v rc_store) prog" where
  "rc_inner a st = (case st_cnt st a of None \<Rightarrow> Fault | Some c \<Rightarrow> Ok c st)"

definition rc_store_inner :: "nat \<Rightarrow> z_inner_rc_t option \<Rightarrow> (unit, 'v rc_store) prog" where
  "rc_store_inner a c st = Ok () (st\<lparr>st_cnt := (st_cnt st)(a := c)\<rparr>)"

definition z_rc_increase_strong :: "z_rc \<Rightarrow> (unit, 'v rc_store) prog" where
  "z_rc_increase_strong cnt = (case cnt of None \<Rightarrow> fail Z_ERR_INVALID
     | Some a \<Rightarrow> bind_ok (rc_inner a) (\<lambda>c.
         then_do (rc_store_inner a (Some (c\<lparr>rc_strong_cnt := rc_strong_cnt c + 1\<rparr>)))
           (if Z_RC_MAX_COUNT \<le> rc_strong_cnt c then fail Z_ERR_OVERFLOW else ret ())))"

definition z_rc_increase_weak :: "z_rc \<Rightarrow> (unit, 'v rc_store) prog" where
  "z_rc_increase_weak cnt = (case cnt of None \<Rightarrow> fail Z_ERR_INVALID
     | Some a \<Rightarrow> bind_ok (rc_inner a) (\<lambda>c.
         then_do (rc_store_inner a (Some (c\<lparr>rc_weak_cnt := rc_weak_cnt c + 1\<rparr>)))
           (if Z_RC_MAX_COUNT \<le> rc_weak_cnt c then fail Z_ERR_OVERFLOW else ret ())))"

text \<open>The counter is freed with the last weak reference.\<close>

definition z_rc_decrease_weak :: "nat \<Rightarrow> (bool, 'v rc_store) prog" where
  "z_rc_decrease_weak a = bind_ok (rc_inner a) (\<lambda>c.
     then_do (rc_store_inner a (Some (c\<lparr>rc_weak_cnt := rc_weak_cnt c - 1\<rparr>)))
       (if 1 < rc_weak_cnt c then ret False else then_do (rc_store_inner a None) (ret True)))"

definition z_rc_decrease_strong :: "nat \<Rightarrow> (bool, 'v rc_store) prog" where
  "z_rc_decrease_strong a = bind_ok (rc_inner a) (\<lambda>c.
     then_do (rc_store_inner a (Some (c\<lparr>rc_strong_cnt := rc_strong_cnt c - 1\<rparr>)))
       (if 1 < rc_strong_cnt c then ret False else then_do (z_rc_decrease_weak a) (ret True)))"

text \<open>The loop of the compare and exchange makes one round when no other thread interferes.\<close>

definition z_rc_weak_upgrade :: "z_rc \<Rightarrow> (unit, 'v rc_store) prog" where
  "z_rc_weak_upgrade cnt = (case cnt of None \<Rightarrow> fail Z_ERR_INVALID
     | Some a \<Rightarrow> bind_ok (rc_inner a) (\<lambda>c.
         if rc_strong_cnt c \<noteq> 0 \<and> rc_strong_cnt c < Z_RC_MAX_COUNT
         then rc_store_inner a (Some (c\<lparr>rc_strong_cnt := rc_strong_cnt c + 1\<rparr>)) else fail Z_ERR_INVALID))"

definition z_rc_weak_count :: "z_rc \<Rightarrow> (u64, 'v rc_store) prog" where
  "z_rc_weak_count cnt = (case cnt of None \<Rightarrow> ret 0
     | Some a \<Rightarrow> bind_ok (rc_inner a) (\<lambda>c.
         ret (if rc_weak_cnt c = 0 then 0 else if 0 < rc_strong_cnt c then rc_weak_cnt c - 1 else rc_weak_cnt c)))"

definition z_rc_strong_count :: "z_rc \<Rightarrow> (u64, 'v rc_store) prog" where
  "z_rc_strong_count cnt = (case cnt of None \<Rightarrow> ret 0 | Some a \<Rightarrow> bind_ok (rc_inner a) (\<lambda>c. ret (rc_strong_cnt c)))"

section \<open>References\<close>

text \<open>The memory for the value and for the counter comes from \<open>z_malloc\<close>.\<close>

definition rc_new_from_val :: "'v \<Rightarrow> (z_rc, 'v rc_store) prog" where
  "rc_new_from_val v st =
     (let a = st_next st in
      Ok (Some a) (st\<lparr>st_next := Suc a, st_cnt := (st_cnt st)(a \<mapsto> \<lparr>rc_strong_cnt = 1, rc_weak_cnt = 1\<rparr>),
                      st_val := (st_val st)(a \<mapsto> v)\<rparr>))"

text \<open>A null reference when the counter could not be increased.\<close>

definition or_null :: "(unit, 's) prog \<Rightarrow> z_rc \<Rightarrow> (z_rc, 's) prog" where
  "or_null p r = bind_ok (attempt () p) (\<lambda>(e, _). ret (if e = Z_RES_OK then r else None))"

definition rc_clone :: "z_rc \<Rightarrow> (z_rc, 'v rc_store) prog" where
  "rc_clone p = or_null (z_rc_increase_strong p) p"

definition rc_clone_as_weak :: "z_rc \<Rightarrow> (z_rc, 'v rc_store) prog" where
  "rc_clone_as_weak p = or_null (z_rc_increase_weak p) p"

definition rc_copy :: "z_rc \<Rightarrow> (z_rc, 'v rc_store) prog" where
  "rc_copy p = bind_ok (rc_clone p) (\<lambda>r. if r = None then fail Z_ERR_SYSTEM_OUT_OF_MEMORY else ret r)"

definition weak_clone :: "z_rc \<Rightarrow> (z_rc, 'v rc_store) prog" where
  "weak_clone p = or_null (z_rc_increase_weak p) p"

definition weak_upgrade :: "z_rc \<Rightarrow> (z_rc, 'v rc_store) prog" where
  "weak_upgrade p = or_null (z_rc_weak_upgrade p) p"

definition weak_drop :: "z_rc \<Rightarrow> (bool, 'v rc_store) prog" where
  "weak_drop p = (case p of None \<Rightarrow> ret False | Some a \<Rightarrow> z_rc_decrease_weak a)"

definition rc_decr :: "z_rc \<Rightarrow> (bool, 'v rc_store) prog" where
  "rc_decr p = (case p of None \<Rightarrow> ret False | Some a \<Rightarrow> z_rc_decrease_strong a)"

definition rc_eq :: "z_rc \<Rightarrow> z_rc \<Rightarrow> bool" where
  "rc_eq left right \<longleftrightarrow> left = right"

text \<open>Reading the value, and freeing its memory.\<close>

definition rc_read :: "z_rc \<Rightarrow> ('v, 'v rc_store) prog" where
  "rc_read p st = (case p of None \<Rightarrow> Fault | Some a \<Rightarrow> (case st_val st a of None \<Rightarrow> Fault | Some v \<Rightarrow> Ok v st))"

definition rc_free :: "nat \<Rightarrow> (unit, 'v rc_store) prog" where
  "rc_free a st = (case st_val st a of None \<Rightarrow> Fault | Some v \<Rightarrow> Ok () (st\<lparr>st_val := (st_val st)(a := None)\<rparr>))"

text \<open>
  The store is a part of a larger state. The last strong reference clears the value, which may run
  the application, and frees it.
\<close>

definition within :: "('s \<Rightarrow> 't) \<Rightarrow> ('t \<Rightarrow> 's \<Rightarrow> 's) \<Rightarrow> ('a, 't) prog \<Rightarrow> ('a, 's) prog" where
  "within get put p s = (case p (get s) of Ok x t \<Rightarrow> Ok x (put t s) | Err e t \<Rightarrow> Err e (put t s) | Fault \<Rightarrow> Fault)"

definition rc_drop ::
    "('s \<Rightarrow> 'v rc_store) \<Rightarrow> ('v rc_store \<Rightarrow> 's \<Rightarrow> 's) \<Rightarrow> ('v \<Rightarrow> (unit, 's) prog) \<Rightarrow> z_rc \<Rightarrow> (bool, 's) prog" where
  "rc_drop get put clear p = (case p of None \<Rightarrow> ret False
     | Some a \<Rightarrow> bind_ok (within get put (rc_decr p)) (\<lambda>last.
         if last then bind_ok (within get put (rc_read p)) (\<lambda>v.
           then_do (clear v) (then_do (within get put (rc_free a)) (ret True)))
         else ret False))"

end
