(* ===== verification/Zp_Map.thy ===== *)
theory Zp_Map imports Zp_Prelude "HOL-Library.Mapping"
begin

text \<open>
  The lists and maps of \<^verbatim>\<open>src/collections\<close>: \<^verbatim>\<open>list.c\<close>, \<^verbatim>\<open>hashmap.c\<close> with the integer maps
  of \<^verbatim>\<open>intmap.h\<close>, and \<^verbatim>\<open>sortedmap.c\<close>. A linked list is the list of its elements; loops are
  recursion along it. What is freed is returned where a caller needs it. The contract of both kinds
  of maps is the locale \<open>dict\<close>.
\<close>

section \<open>Lists\<close>

text \<open>A list that is null and an empty one are the same.\<close>

definition z_list_push :: "'a list \<Rightarrow> 'a \<Rightarrow> 'a list" where
  "z_list_push xs x = x # xs"

fun z_list_push_after :: "'a list \<Rightarrow> 'a \<Rightarrow> 'a list" where
  "z_list_push_after [] x = [x]"
| "z_list_push_after (y # ys) x = y # x # ys"

fun z_list_push_back :: "'a list \<Rightarrow> 'a \<Rightarrow> 'a list" where
  "z_list_push_back [] x = [x]"
| "z_list_push_back (y # ys) x = y # z_list_push_back ys x"

fun z_list_push_sorted :: "('a \<Rightarrow> 'a \<Rightarrow> int) \<Rightarrow> 'a list \<Rightarrow> 'a \<Rightarrow> 'a list" where
  "z_list_push_sorted c_f [] x = [x]"
| "z_list_push_sorted c_f (y # ys) x = (if c_f y x \<le> 0 then y # z_list_push_sorted c_f ys x else x # y # ys)"

fun z_list_find :: "('a \<Rightarrow> bool) \<Rightarrow> 'a list \<Rightarrow> 'a option" where
  "z_list_find c_f [] = None"
| "z_list_find c_f (y # ys) = (if c_f y then Some y else z_list_find c_f ys)"

text \<open>What is left, and what was dropped, in the order in which it is freed.\<close>

fun z_list_drop_filter :: "('a \<Rightarrow> bool) \<Rightarrow> bool \<Rightarrow> 'a list \<Rightarrow> 'a list \<times> 'a list" where
  "z_list_drop_filter c_f only_first [] = ([], [])"
| "z_list_drop_filter c_f only_first (y # ys) =
     (if c_f y
      then (if only_first then (ys, [y]) else (case z_list_drop_filter c_f only_first ys of (l, dropped) \<Rightarrow> (l, y # dropped)))
      else (case z_list_drop_filter c_f only_first ys of (l, dropped) \<Rightarrow> (y # l, dropped)))"

fun z_list_extract_filter :: "('a \<Rightarrow> bool) \<Rightarrow> bool \<Rightarrow> 'a list \<Rightarrow> 'a list \<times> 'a list" where
  "z_list_extract_filter c_f only_first [] = ([], [])"
| "z_list_extract_filter c_f only_first (y # ys) =
     (if c_f y
      then (if only_first then (ys, [y]) else (case z_list_extract_filter c_f only_first ys of (l, extracted) \<Rightarrow> (l, y # extracted)))
      else (case z_list_extract_filter c_f only_first ys of (l, extracted) \<Rightarrow> (y # l, extracted)))"

fun z_list_clone_from :: "('a \<Rightarrow> 'b) \<Rightarrow> 'b list \<Rightarrow> 'a list \<Rightarrow> 'b list" where
  "z_list_clone_from d_f new [] = new"
| "z_list_clone_from d_f new (y # ys) = z_list_clone_from d_f (z_list_push_back new (d_f y)) ys"

definition z_list_clone :: "('a \<Rightarrow> 'b) \<Rightarrow> 'a list \<Rightarrow> 'b list" where
  "z_list_clone d_f xs = z_list_clone_from d_f [] xs"

text \<open>The clone of a sized list pushes each element at the front, so it is the other way round.\<close>

fun z_slist_clone_from :: "('a \<Rightarrow> 'b) \<Rightarrow> 'b list \<Rightarrow> 'a list \<Rightarrow> 'b list" where
  "z_slist_clone_from d_f new [] = new"
| "z_slist_clone_from d_f new (y # ys) = z_slist_clone_from d_f (d_f y # new) ys"

definition z_slist_clone :: "('a \<Rightarrow> 'b) \<Rightarrow> 'a list \<Rightarrow> 'b list" where
  "z_slist_clone d_f xs = z_slist_clone_from d_f [] xs"

lemma list_push_back_eq [simp]: "z_list_push_back xs x = xs @ [x]"
  by (induction xs) auto

lemma list_find_eq: "z_list_find P xs = List.find P xs"
  by (induction xs) auto

lemma list_drop_all [simp]: "z_list_drop_filter P False xs = (filter (\<lambda>x. \<not> P x) xs, filter P xs)"
  by (induction xs) auto

lemma list_drop_first:
  "z_list_drop_filter P True xs = (takeWhile (\<lambda>x. \<not> P x) xs @ drop 1 (dropWhile (\<lambda>x. \<not> P x) xs), take 1 (dropWhile (\<lambda>x. \<not> P x) xs))"
  by (induction xs) auto

lemma list_drop_first_set: "z_list_drop_filter P True xs = (ys, ds) \<Longrightarrow> set ys \<subseteq> set xs \<and> set ds \<subseteq> set xs"
  by (induction xs arbitrary: ys ds) (auto split: if_splits prod.splits)

lemma list_drop_first_none: "(\<And>x. x \<in> set xs \<Longrightarrow> \<not> P x) \<Longrightarrow> z_list_drop_filter P True xs = (xs, [])"
  by (induction xs) auto

lemma list_drop_first_mset: "z_list_drop_filter P b xs = (ys, ds) \<Longrightarrow> length xs = length ys + length ds"
  by (induction xs arbitrary: ys ds) (auto split: if_splits prod.splits)

lemma list_extract_eq: "z_list_extract_filter P b xs = z_list_drop_filter P b xs"
  by (induction xs) auto

lemma list_clone_from [simp]: "z_list_clone_from f ys xs = ys @ map f xs"
  by (induction xs arbitrary: ys) auto

lemma list_clone [simp]: "z_list_clone f xs = map f xs"
  by (simp add: z_list_clone_def)

lemma slist_clone_from [simp]: "z_slist_clone_from f ys xs = rev (map f xs) @ ys"
  by (induction xs arbitrary: ys) auto

lemma slist_clone [simp]: "z_slist_clone f xs = rev (map f xs)"
  by (simp add: z_slist_clone_def)

lemma push_sorted_mem [simp]: "set (z_list_push_sorted c xs x) = insert x (set xs)"
  by (induction xs) auto

lemma push_sorted_sorted:
  assumes "\<And>x y. c x y \<le> 0 \<longleftrightarrow> f x \<le> (f y :: 'b::linorder)" "sorted (map f xs)"
  shows "sorted (map f (z_list_push_sorted c xs x))"
  using assms(2)
proof (induction xs)
  case (Cons y ys)
  then show ?case using assms(1) [of y x] by (auto dest: order.strict_trans1 simp: not_le)
qed simp

section \<open>Hash maps\<close>

text \<open>The memory of the buckets is allocated on the first insertion.\<close>

record ('k, 'v) z_hashmap_t =
  hm_capacity :: nat
  hm_vals :: "('k \<times> 'v) list list option"
  hm_f_hash :: "'k \<Rightarrow> u64"
  hm_f_equals :: "'k \<Rightarrow> 'k \<Rightarrow> bool"

definition z_hashmap_make :: "nat \<Rightarrow> ('k \<Rightarrow> u64) \<Rightarrow> ('k \<Rightarrow> 'k \<Rightarrow> bool) \<Rightarrow> ('k, 'v) z_hashmap_t" where
  "z_hashmap_make capacity f_hash f_equals =
     \<lparr>hm_capacity = capacity, hm_vals = None, hm_f_hash = f_hash, hm_f_equals = f_equals\<rparr>"

definition hm_idx :: "('k, 'v) z_hashmap_t \<Rightarrow> 'k \<Rightarrow> nat" where
  "hm_idx m k = unat (hm_f_hash m k) mod hm_capacity m"

fun hashmap_len_from :: "('k \<times> 'v) list list \<Rightarrow> nat \<Rightarrow> nat" where
  "hashmap_len_from [] len = len"
| "hashmap_len_from (b # bs) len = hashmap_len_from bs (len + length b)"

definition z_hashmap_len :: "('k, 'v) z_hashmap_t \<Rightarrow> nat" where
  "z_hashmap_len m = (case hm_vals m of None \<Rightarrow> 0 | Some vals \<Rightarrow> hashmap_len_from vals 0)"

definition z_hashmap_is_empty :: "('k, 'v) z_hashmap_t \<Rightarrow> bool" where
  "z_hashmap_is_empty m \<longleftrightarrow> z_hashmap_len m = 0"

definition z_hashmap_clone :: "('k \<times> 'v \<Rightarrow> 'k \<times> 'v) \<Rightarrow> ('k, 'v) z_hashmap_t \<Rightarrow> ('k, 'v) z_hashmap_t" where
  "z_hashmap_clone f_c src = src\<lparr>hm_vals := map_option (map (z_list_clone f_c)) (hm_vals src)\<rparr>"

definition z_hashmap_remove :: "('k, 'v) z_hashmap_t \<Rightarrow> 'k \<Rightarrow> ('k, 'v) z_hashmap_t" where
  "z_hashmap_remove m k = (case hm_vals m of None \<Rightarrow> m
     | Some vals \<Rightarrow> m\<lparr>hm_vals := Some (vals[hm_idx m k :=
         fst (z_list_drop_filter (\<lambda>e. hm_f_equals m k (fst e)) True (vals ! hm_idx m k))])\<rparr>)"

definition z_hashmap_extract :: "('k, 'v) z_hashmap_t \<Rightarrow> 'k \<Rightarrow> ('k \<times> 'v) option \<times> ('k, 'v) z_hashmap_t" where
  "z_hashmap_extract m k = (case hm_vals m of None \<Rightarrow> (None, m)
     | Some vals \<Rightarrow>
         (case z_list_extract_filter (\<lambda>e. hm_f_equals m k (fst e)) True (vals ! hm_idx m k) of (l, extracted) \<Rightarrow>
            (case extracted of [] \<Rightarrow> None | kv # _ \<Rightarrow> Some kv, m\<lparr>hm_vals := Some (vals[hm_idx m k := l])\<rparr>)))"

definition hashmap_alloc :: "('k, 'v) z_hashmap_t \<Rightarrow> ('k, 'v) z_hashmap_t" where
  "hashmap_alloc m = (if hm_vals m = None then m\<lparr>hm_vals := Some (replicate (hm_capacity m) [])\<rparr> else m)"

definition z_hashmap_insert :: "('k, 'v) z_hashmap_t \<Rightarrow> 'k \<Rightarrow> 'v \<Rightarrow> bool \<Rightarrow> ('k, 'v) z_hashmap_t" where
  "z_hashmap_insert m k v replace =
     (let m = hashmap_alloc m;
          m = (if replace then z_hashmap_remove m k else m)
      in m\<lparr>hm_vals := map_option (\<lambda>vals. vals[hm_idx m k := z_list_push (vals ! hm_idx m k) (k, v)]) (hm_vals m)\<rparr>)"

definition z_hashmap_get :: "('k, 'v) z_hashmap_t \<Rightarrow> 'k \<Rightarrow> 'v option" where
  "z_hashmap_get m k = (case hm_vals m of None \<Rightarrow> None
     | Some vals \<Rightarrow> map_option snd (z_list_find (\<lambda>e. hm_f_equals m k (fst e)) (vals ! hm_idx m k)))"

definition z_hashmap_clear :: "('k, 'v) z_hashmap_t \<Rightarrow> ('k, 'v) z_hashmap_t" where
  "z_hashmap_clear m = m\<lparr>hm_vals := None\<rparr>"

text \<open>The iterator has the rest of a bucket that starts with the entry it is at.\<close>

record ('k, 'v) z_hashmap_iterator_t =
  it_entry :: "('k \<times> 'v) option"
  it_idx :: nat
  it_list_ptr :: "('k \<times> 'v) list"

definition z_hashmap_iterator_make :: "('k, 'v) z_hashmap_iterator_t" where
  "z_hashmap_iterator_make = \<lparr>it_entry = None, it_idx = 0, it_list_ptr = []\<rparr>"

function hashmap_iterator_loop ::
    "('k \<times> 'v) list list \<Rightarrow> ('k, 'v) z_hashmap_iterator_t \<Rightarrow> bool \<times> ('k, 'v) z_hashmap_iterator_t" where
  "hashmap_iterator_loop vals it =
     (if it_idx it < length vals
      then (let l = (if it_list_ptr it = [] then vals ! it_idx it else tl (it_list_ptr it)) in
            case l of
              [] \<Rightarrow> hashmap_iterator_loop vals (it\<lparr>it_list_ptr := [], it_idx := it_idx it + 1\<rparr>)
            | e # _ \<Rightarrow> (True, it\<lparr>it_list_ptr := l, it_entry := Some e\<rparr>))
      else (False, it))"
  by pat_completeness auto
termination by (relation "measure (\<lambda>(vals, it). length vals - it_idx it)") auto

declare hashmap_iterator_loop.simps [simp del]

definition z_hashmap_iterator_next ::
    "('k, 'v) z_hashmap_t \<Rightarrow> ('k, 'v) z_hashmap_iterator_t \<Rightarrow> bool \<times> ('k, 'v) z_hashmap_iterator_t" where
  "z_hashmap_iterator_next m it = (case hm_vals m of None \<Rightarrow> (False, it) | Some vals \<Rightarrow> hashmap_iterator_loop vals it)"

text \<open>Integer maps.\<close>

definition Z_DEFAULT_INT_MAP_CAPACITY :: nat where "Z_DEFAULT_INT_MAP_CAPACITY = 16"

type_synonym 'v z_int_map_t = "(u64, 'v) z_hashmap_t"

definition z_int_void_map_make :: "nat \<Rightarrow> 'v z_int_map_t" where
  "z_int_void_map_make capacity = z_hashmap_make capacity (\<lambda>k. k) (=)"

section \<open>Sorted maps\<close>

record ('k, 'v) z_sortedmap_t =
  sm_vals :: "('k \<times> 'v) list"
  sm_f_cmp :: "'k \<Rightarrow> 'k \<Rightarrow> int"

definition z_sortedmap_make :: "('k \<Rightarrow> 'k \<Rightarrow> int) \<Rightarrow> ('k, 'v) z_sortedmap_t" where
  "z_sortedmap_make f_cmp = \<lparr>sm_vals = [], sm_f_cmp = f_cmp\<rparr>"

definition z_sortedmap_len :: "('k, 'v) z_sortedmap_t \<Rightarrow> nat" where
  "z_sortedmap_len m = length (sm_vals m)"

definition z_sortedmap_is_empty :: "('k, 'v) z_sortedmap_t \<Rightarrow> bool" where
  "z_sortedmap_is_empty m \<longleftrightarrow> z_sortedmap_len m = 0"

definition z_sortedmap_clone :: "('k \<times> 'v \<Rightarrow> 'k \<times> 'v) \<Rightarrow> ('k, 'v) z_sortedmap_t \<Rightarrow> ('k, 'v) z_sortedmap_t" where
  "z_sortedmap_clone f_c src = src\<lparr>sm_vals := z_list_clone f_c (sm_vals src)\<rparr>"

text \<open>No result when the key is there and must not be replaced.\<close>

fun sortedmap_insert_list :: "('k \<Rightarrow> 'k \<Rightarrow> int) \<Rightarrow> 'k \<Rightarrow> 'v \<Rightarrow> bool \<Rightarrow> ('k \<times> 'v) list \<Rightarrow> ('k \<times> 'v) list option" where
  "sortedmap_insert_list f_cmp k v replace [] = Some [(k, v)]"
| "sortedmap_insert_list f_cmp k v replace (e # es) =
     (let cmp = f_cmp k (fst e) in
      if cmp = 0 then (if replace then Some ((k, v) # es) else None)
      else if cmp < 0 then Some ((k, v) # e # es)
      else map_option ((#) e) (sortedmap_insert_list f_cmp k v replace es))"

definition z_sortedmap_insert :: "('k, 'v) z_sortedmap_t \<Rightarrow> 'k \<Rightarrow> 'v \<Rightarrow> bool \<Rightarrow> 'v option \<times> ('k, 'v) z_sortedmap_t" where
  "z_sortedmap_insert m k v replace =
     (case sortedmap_insert_list (sm_f_cmp m) k v replace (sm_vals m) of
        None \<Rightarrow> (None, m) | Some es \<Rightarrow> (Some v, m\<lparr>sm_vals := es\<rparr>))"

definition z_sortedmap_get :: "('k, 'v) z_sortedmap_t \<Rightarrow> 'k \<Rightarrow> 'v option" where
  "z_sortedmap_get m k = map_option snd (z_list_find (\<lambda>e. sm_f_cmp m k (fst e) = 0) (sm_vals m))"

definition z_sortedmap_pop_first :: "('k, 'v) z_sortedmap_t \<Rightarrow> ('k \<times> 'v) option \<times> ('k, 'v) z_sortedmap_t" where
  "z_sortedmap_pop_first m = (case sm_vals m of [] \<Rightarrow> (None, m) | e # es \<Rightarrow> (Some e, m\<lparr>sm_vals := es\<rparr>))"

definition z_sortedmap_remove :: "('k, 'v) z_sortedmap_t \<Rightarrow> 'k \<Rightarrow> ('k, 'v) z_sortedmap_t" where
  "z_sortedmap_remove m k =
     m\<lparr>sm_vals := fst (z_list_drop_filter (\<lambda>e. sm_f_cmp m k (fst e) = 0) True (sm_vals m))\<rparr>"

definition z_sortedmap_clear :: "('k, 'v) z_sortedmap_t \<Rightarrow> ('k, 'v) z_sortedmap_t" where
  "z_sortedmap_clear m = m\<lparr>sm_vals := []\<rparr>"

section \<open>The contract of a map\<close>

text \<open>
  What a client of a map relies on: a key has the value that was inserted last, other keys are not
  touched, and going through the entries meets every key once.
\<close>

locale dict =
  fixes wf :: "'m \<Rightarrow> bool" and empty :: 'm and lookup :: "'m \<Rightarrow> 'k \<Rightarrow> 'v option"
    and put :: "'m \<Rightarrow> 'k \<Rightarrow> 'v \<Rightarrow> 'm" and delete :: "'m \<Rightarrow> 'k \<Rightarrow> 'm" and entries :: "'m \<Rightarrow> ('k \<times> 'v) list"
  assumes wf_empty: "wf empty"
    and wf_put: "wf m \<Longrightarrow> wf (put m k v)"
    and wf_delete: "wf m \<Longrightarrow> wf (delete m k)"
    and lookup_empty: "lookup empty k = None"
    and lookup_put: "wf m \<Longrightarrow> lookup (put m k v) j = (if j = k then Some v else lookup m j)"
    and lookup_delete: "wf m \<Longrightarrow> lookup (delete m k) j = (if j = k then None else lookup m j)"
    and entries_distinct: "wf m \<Longrightarrow> distinct (map fst (entries m))"
    and entries_lookup: "wf m \<Longrightarrow> map_of (entries m) k = lookup m k"
begin

lemma refines_put: "wf m \<Longrightarrow> lookup (put m k v) = (lookup m)(k \<mapsto> v)"
  by (auto simp: lookup_put fun_eq_iff)

lemma refines_delete: "wf m \<Longrightarrow> lookup (delete m k) = (lookup m)(k := None)"
  by (auto simp: lookup_delete fun_eq_iff)

lemma put_put: "wf m \<Longrightarrow> lookup (put (put m k v) k v') = lookup (put m k v')"
  by (simp add: refines_put wf_put)

lemma delete_put: "wf m \<Longrightarrow> lookup m k = None \<Longrightarrow> lookup (delete (put m k v) k) = lookup m"
  by (simp add: refines_put refines_delete wf_put fun_upd_idem)

lemma entries_set: "wf m \<Longrightarrow> (k, v) \<in> set (entries m) \<longleftrightarrow> lookup m k = Some v"
  using entries_distinct [of m] entries_lookup [of m k] by (metis map_of_eq_Some_iff)

lemma size_entries: "wf m \<Longrightarrow> length (entries m) = card (dom (lookup m))"
proof -
  assume m: "wf m"
  have "dom (lookup m) = fst ` set (entries m)"
    using entries_lookup [OF m] by (metis dom_map_of_conv_image_fst ext)
  then show ?thesis using distinct_card [OF entries_distinct [OF m]] by simp
qed

definition apply_op :: "'m \<Rightarrow> 'k \<times> 'v option \<Rightarrow> 'm" where
  "apply_op m kv = (case snd kv of Some v \<Rightarrow> put m (fst kv) v | None \<Rightarrow> delete m (fst kv))"

lemma apply_op: "wf m \<Longrightarrow> wf (apply_op m kv) \<and> lookup (apply_op m kv) = (lookup m)(fst kv := snd kv)"
  by (cases "snd kv") (simp_all add: apply_op_def wf_put wf_delete refines_put refines_delete)

lemma refines_ops: "wf m \<Longrightarrow> wf (foldl apply_op m ops) \<and>
    lookup (foldl apply_op m ops) = foldl (\<lambda>f kv. f(fst kv := snd kv)) (lookup m) ops"
proof (induction ops arbitrary: m)
  case (Cons kv ops)
  then show ?case using apply_op [OF Cons.prems, of kv] by simp
qed simp

end

section \<open>Hash maps keep the contract\<close>

definition hashmap_entries :: "('k, 'v) z_hashmap_t \<Rightarrow> ('k \<times> 'v) list" where
  "hashmap_entries m = (case hm_vals m of None \<Rightarrow> [] | Some vals \<Rightarrow> concat vals)"

definition hashmap_wf :: "('k \<Rightarrow> u64) \<Rightarrow> nat \<Rightarrow> ('k, 'v) z_hashmap_t \<Rightarrow> bool" where
  "hashmap_wf h c m \<longleftrightarrow> 0 < c \<and> hm_capacity m = c \<and> hm_f_hash m = h \<and> hm_f_equals m = (=) \<and>
     (\<forall>vals. hm_vals m = Some vals \<longrightarrow> length vals = c \<and>
        (\<forall>i < c. distinct (map fst (vals ! i)) \<and> (\<forall>e \<in> set (vals ! i). unat (h (fst e)) mod c = i)))"

lemma find_map_of: "map_option snd (z_list_find (\<lambda>e. k = fst e) es) = map_of es k"
  by (induction es) auto

lemma drop_key: "distinct (map fst es) \<Longrightarrow> fst (z_list_drop_filter (\<lambda>e. k = fst e) True es) = filter (\<lambda>e. fst e \<noteq> k) es"
proof (induction es)
  case (Cons e es)
  moreover have "filter (\<lambda>e'. fst e' \<noteq> k) es = es" if "k = fst e"
    using Cons.prems that by (auto simp: filter_id_conv image_iff)
  ultimately show ?case by (auto split: prod.splits)
qed simp

lemma map_of_filter_key: "map_of (filter (\<lambda>e. fst e \<noteq> k) es) j = (if j = k then None else map_of es j)"
  by (induction es) auto

lemma hashmap_get_wf:
  assumes "hashmap_wf h c m"
  shows "z_hashmap_get m k = (case hm_vals m of None \<Rightarrow> None | Some vals \<Rightarrow> map_of (vals ! (unat (h k) mod c)) k)"
  using assms by (auto simp: z_hashmap_get_def hm_idx_def find_map_of hashmap_wf_def split: option.splits)

lemma hashmap_get_upd:
  assumes "hashmap_wf h c m"
  shows "z_hashmap_get (m\<lparr>hm_vals := Some vals\<rparr>) k = map_of (vals ! (unat (h k) mod c)) k"
  using assms by (auto simp: z_hashmap_get_def hm_idx_def find_map_of hashmap_wf_def)

lemma hashmap_remove_wf:
  assumes "hashmap_wf h c m"
  shows "z_hashmap_remove m k = (case hm_vals m of None \<Rightarrow> m
     | Some vals \<Rightarrow> m\<lparr>hm_vals := Some (vals[unat (h k) mod c := filter (\<lambda>e. fst e \<noteq> k) (vals ! (unat (h k) mod c))])\<rparr>)"
  using assms by (auto simp: z_hashmap_remove_def hm_idx_def drop_key hashmap_wf_def split: option.splits)

lemma hashmap_bucket_update:
  assumes "hashmap_wf h c m" "hm_vals m = Some vals" "i < c" "distinct (map fst b)" "\<And>e. e \<in> set b \<Longrightarrow> unat (h (fst e)) mod c = i"
  shows "hashmap_wf h c (m\<lparr>hm_vals := Some (vals[i := b])\<rparr>)"
  using assms by (auto simp: hashmap_wf_def nth_list_update)

lemma hashmap_wf_remove: "hashmap_wf h c m \<Longrightarrow> hashmap_wf h c (z_hashmap_remove m k)"
proof -
  assume m: "hashmap_wf h c m"
  show ?thesis
  proof (cases "hm_vals m")
    case (Some vals)
    have "distinct (map fst (filter (\<lambda>e. fst e \<noteq> k) (vals ! (unat (h k) mod c)))) \<and>
        (\<forall>e \<in> set (filter (\<lambda>e. fst e \<noteq> k) (vals ! (unat (h k) mod c))). unat (h (fst e)) mod c = unat (h k) mod c)"
      using m Some by (auto simp: hashmap_wf_def distinct_map_filter)
    moreover have "unat (h k) mod c < c" using m by (simp add: hashmap_wf_def)
    ultimately have "hashmap_wf h c (m\<lparr>hm_vals := Some (vals[unat (h k) mod c := filter (\<lambda>e. fst e \<noteq> k) (vals ! (unat (h k) mod c))])\<rparr>)"
      by (intro hashmap_bucket_update [OF m Some]) auto
    then show ?thesis by (simp add: hashmap_remove_wf [OF m] Some)
  qed (use m in \<open>simp add: hashmap_remove_wf\<close>)
qed

lemma hashmap_get_remove:
  "hashmap_wf h c m \<Longrightarrow> z_hashmap_get (z_hashmap_remove m k) j = (if j = k then None else z_hashmap_get m j)"
proof -
  assume m: "hashmap_wf h c m"
  note w = hashmap_wf_remove [OF m, of k]
  show ?thesis
  proof (cases "hm_vals m")
    case (Some vals)
    then have "unat (h k) mod c < length vals" using m by (auto simp: hashmap_wf_def)
    then show ?thesis using Some
      by (auto simp: hashmap_get_wf [OF m] hashmap_get_upd [OF m] hashmap_remove_wf [OF m] nth_list_update map_of_filter_key)
  qed (use m in \<open>simp add: hashmap_remove_wf z_hashmap_get_def\<close>)
qed

lemma hashmap_alloc_wf: "hashmap_wf h c m \<Longrightarrow> hashmap_wf h c (hashmap_alloc m) \<and> hm_vals (hashmap_alloc m) \<noteq> None"
  by (auto simp: hashmap_alloc_def hashmap_wf_def)

lemma hashmap_alloc_get: "hashmap_wf h c m \<Longrightarrow> z_hashmap_get (hashmap_alloc m) k = z_hashmap_get m k"
  by (auto simp: hashmap_alloc_def z_hashmap_get_def hm_idx_def hashmap_wf_def)

lemma hashmap_insert_removed:
  assumes m: "hashmap_wf h c m" and none: "z_hashmap_get m k = None" and alloc: "hm_vals m \<noteq> None"
  shows "hashmap_wf h c (z_hashmap_insert m k v False) \<and>
    z_hashmap_get (z_hashmap_insert m k v False) j = (if j = k then Some v else z_hashmap_get m j)"
proof -
  obtain vals where vals: "hm_vals m = Some vals" using alloc by auto
  let ?i = "unat (h k) mod c"
  have i: "?i < c" "length vals = c" using m vals by (auto simp: hashmap_wf_def)
  have ins: "z_hashmap_insert m k v False = m\<lparr>hm_vals := Some (vals[?i := (k, v) # vals ! ?i])\<rparr>"
    using m vals by (simp add: z_hashmap_insert_def hashmap_alloc_def hm_idx_def hashmap_wf_def z_list_push_def)
  have "k \<notin> fst ` set (vals ! ?i)" using none vals by (simp add: hashmap_get_wf [OF m] map_of_eq_None_iff)
  then have w: "hashmap_wf h c (z_hashmap_insert m k v False)"
    using m i vals unfolding ins by (intro hashmap_bucket_update [OF m vals]) (auto simp: hashmap_wf_def)
  show ?thesis using w vals i by (auto simp: hashmap_get_wf [OF m] hashmap_get_upd [OF m] ins nth_list_update)
qed

lemma hashmap_insert_split:
  "hashmap_wf h c m \<Longrightarrow> z_hashmap_insert m k v True = z_hashmap_insert (z_hashmap_remove (hashmap_alloc m) k) k v False"
  by (auto simp: z_hashmap_insert_def Let_def hashmap_alloc_def z_hashmap_remove_def hm_idx_def)

lemma hashmap_insert_ok:
  assumes m: "hashmap_wf h c m"
  shows "hashmap_wf h c (z_hashmap_insert m k v True) \<and>
    z_hashmap_get (z_hashmap_insert m k v True) j = (if j = k then Some v else z_hashmap_get m j)"
proof -
  note a = hashmap_alloc_wf [OF m]
  then have a: "hashmap_wf h c (hashmap_alloc m)" "hm_vals (hashmap_alloc m) \<noteq> None" by auto
  note w = hashmap_wf_remove [OF a(1), of k]
  note g = hashmap_get_remove [OF a(1), of k]
  have n: "z_hashmap_get (z_hashmap_remove (hashmap_alloc m) k) k = None" by (simp add: g)
  have al: "hm_vals (z_hashmap_remove (hashmap_alloc m) k) \<noteq> None" using a(2) by (auto simp: z_hashmap_remove_def)
  show ?thesis using hashmap_insert_removed [OF w n al, of v j] hashmap_alloc_get [OF m, of j] g [of j]
    by (simp add: hashmap_insert_split [OF m])
qed

lemma map_of_concat_buckets:
  assumes "\<And>i e. i < length vals \<Longrightarrow> e \<in> set (vals ! i) \<Longrightarrow> f (fst e) = i" "f k < length vals"
  shows "map_of (concat vals) k = map_of (vals ! f k) k"
  using assms
proof (induction vals rule: rev_induct)
  case (snoc b bs)
  have bs: "\<And>i e. i < length bs \<Longrightarrow> e \<in> set (bs ! i) \<Longrightarrow> f (fst e) = i"
    using snoc.prems(1) by (metis length_append_singleton less_Suc_eq nth_append)
  have b: "\<And>e. e \<in> set b \<Longrightarrow> f (fst e) = length bs" using snoc.prems(1) [of "length bs"] by simp
  show ?case
  proof (cases "f k < length bs")
    case True
    have "map_of b k = None" using b True by (auto simp: map_of_eq_None_iff)
    then show ?thesis using snoc.IH [OF bs True] True by (auto simp: nth_append map_add_def split: option.splits)
  next
    case False
    then have k: "f k = length bs" using snoc.prems(2) by simp
    have "map_of (concat bs) k = None"
    proof -
      have "(k, v) \<notin> set (concat bs)" for v
        using bs k by (auto simp: in_set_conv_nth) (metis fst_conv less_irrefl nth_mem)
      then show ?thesis by (auto simp: map_of_eq_None_iff)
    qed
    then show ?thesis by (auto simp: nth_append map_add_def k split: option.splits)
  qed
qed simp

lemma distinct_concat_buckets:
  assumes "\<And>i e. i < length vals \<Longrightarrow> e \<in> set (vals ! i) \<Longrightarrow> f (fst e) = i" "\<And>i. i < length vals \<Longrightarrow> distinct (map fst (vals ! i))"
  shows "distinct (map fst (concat vals))"
  using assms
proof (induction vals rule: rev_induct)
  case (snoc b bs)
  have bs: "\<And>i e. i < length bs \<Longrightarrow> e \<in> set (bs ! i) \<Longrightarrow> f (fst e) = i" "\<And>i. i < length bs \<Longrightarrow> distinct (map fst (bs ! i))"
    using snoc.prems by (metis length_append_singleton less_Suc_eq nth_append)+
  have b: "\<And>e. e \<in> set b \<Longrightarrow> f (fst e) = length bs" "distinct (map fst b)"
    using snoc.prems(1) [of "length bs"] snoc.prems(2) [of "length bs"] by simp_all
  have "fst e \<noteq> fst e'" if "e \<in> set (concat bs)" "e' \<in> set b" for e e'
    using that bs(1) b(1) by (metis (no_types, lifting) UN_E in_set_conv_nth less_irrefl set_concat)
  then have "fst ` set (concat bs) \<inter> fst ` set b = {}" by blast
  then show ?case using snoc.IH [OF bs] b by simp
qed simp

definition hashmap_put :: "('k, 'v) z_hashmap_t \<Rightarrow> 'k \<Rightarrow> 'v \<Rightarrow> ('k, 'v) z_hashmap_t" where
  "hashmap_put m k v = z_hashmap_insert m k v True"

interpretation im: dict "hashmap_wf (\<lambda>k. k) 16" "z_int_void_map_make 16 :: 'v z_int_map_t" z_hashmap_get hashmap_put
  z_hashmap_remove hashmap_entries
proof (unfold_locales, goal_cases)
  case 1
  then show ?case by (simp add: z_int_void_map_make_def z_hashmap_make_def hashmap_wf_def)
next
  case (2 m k v)
  then show ?case by (simp add: hashmap_put_def hashmap_insert_ok)
next
  case (3 m k)
  then show ?case by (rule hashmap_wf_remove)
next
  case (4 k)
  then show ?case by (simp add: z_int_void_map_make_def z_hashmap_make_def z_hashmap_get_def)
next
  case (5 m k v j)
  then show ?case by (simp add: hashmap_put_def hashmap_insert_ok)
next
  case (6 m k j)
  then show ?case by (rule hashmap_get_remove)
next
  case (7 m)
  then show ?case using distinct_concat_buckets [where f = "\<lambda>k. unat k mod 16" and vals = "the (hm_vals m)"]
    by (fastforce simp: hashmap_entries_def hashmap_wf_def split: option.splits)
next
  case (8 m k)
  show ?case
  proof (cases "hm_vals m")
    case (Some vals)
    then show ?thesis using 8 map_of_concat_buckets [of vals "\<lambda>k. unat k mod 16" k]
      by (simp add: hashmap_get_wf [OF 8] hashmap_entries_def) (simp add: hashmap_wf_def)
  qed (simp add: hashmap_get_wf [OF 8] hashmap_entries_def)
qed

text \<open>The iterator meets the entries one after another.\<close>

fun iterate :: "nat \<Rightarrow> ('k, 'v) z_hashmap_t \<Rightarrow> ('k, 'v) z_hashmap_iterator_t \<Rightarrow> ('k \<times> 'v) list" where
  "iterate 0 m it = []"
| "iterate (Suc n) m it =
     (case z_hashmap_iterator_next m it of (True, it) \<Rightarrow> the (it_entry it) # iterate n m it | (False, it) \<Rightarrow> [])"

definition it_rest :: "('k \<times> 'v) list list \<Rightarrow> ('k, 'v) z_hashmap_iterator_t \<Rightarrow> ('k \<times> 'v) list" where
  "it_rest vals it = (if it_list_ptr it = [] then concat (drop (it_idx it) vals)
                      else tl (it_list_ptr it) @ concat (drop (Suc (it_idx it)) vals))"

lemma iterator_loop_rest:
  assumes "it_list_ptr it \<noteq> [] \<Longrightarrow> it_idx it < length vals"
  shows "case hashmap_iterator_loop vals it of
    (True, it') \<Rightarrow> it_rest vals it = the (it_entry it') # it_rest vals it' \<and> (it_list_ptr it' \<noteq> [] \<longrightarrow> it_idx it' < length vals)
  | (False, it') \<Rightarrow> it_rest vals it = []"
  using assms
proof (induction vals it rule: hashmap_iterator_loop.induct)
  case (1 vals it)
  show ?case
  proof (cases "it_idx it < length vals")
    case False
    then show ?thesis using "1.prems" by (auto simp: it_rest_def hashmap_iterator_loop.simps [of vals it])
  next
    case True
    let ?l = "if it_list_ptr it = [] then vals ! it_idx it else tl (it_list_ptr it)"
    have d: "drop (it_idx it) vals = vals ! it_idx it # drop (Suc (it_idx it)) vals" using True by (simp add: Cons_nth_drop_Suc)
    show ?thesis
    proof (cases ?l)
      case Nil
      have "it_rest vals it = it_rest vals (it\<lparr>it_list_ptr := [], it_idx := it_idx it + 1\<rparr>)"
        using Nil d by (auto simp: it_rest_def split: if_splits)
      moreover have "hashmap_iterator_loop vals it = hashmap_iterator_loop vals (it\<lparr>it_list_ptr := [], it_idx := it_idx it + 1\<rparr>)"
        using True Nil by (simp add: hashmap_iterator_loop.simps [of vals it])
      ultimately show ?thesis using "1.IH" [OF True refl Nil] by (auto split: prod.splits bool.splits)
    next
      case (Cons e es)
      have "it_rest vals it = e # es @ concat (drop (Suc (it_idx it)) vals)"
        using Cons d by (auto simp: it_rest_def split: if_splits)
      then show ?thesis using True Cons by (simp add: hashmap_iterator_loop.simps [of vals it] Let_def it_rest_def)
    qed
  qed
qed

lemma iterate_entries:
  assumes "hm_vals m = Some vals" "it_list_ptr it \<noteq> [] \<Longrightarrow> it_idx it < length vals" "length (it_rest vals it) \<le> n"
  shows "iterate n m it = it_rest vals it"
  using assms(2,3)
proof (induction n arbitrary: it)
  case (Suc n)
  note r = iterator_loop_rest [OF Suc.prems(1)]
  obtain b it' where l: "hashmap_iterator_loop vals it = (b, it')" by fastforce
  show ?case
  proof (cases b)
    case True
    then show ?thesis using r l Suc.prems Suc.IH [of it'] by (simp add: z_hashmap_iterator_next_def assms(1))
  next
    case False
    then show ?thesis using r l by (simp add: z_hashmap_iterator_next_def assms(1))
  qed
qed simp

lemma iterator_entries: "iterate (z_hashmap_len m) m z_hashmap_iterator_make = hashmap_entries m"
proof (cases "hm_vals m")
  case None
  then show ?thesis by (simp add: z_hashmap_len_def hashmap_entries_def)
next
  case (Some vals)
  have l: "hashmap_len_from vs n = n + length (concat vs)" for vs :: "('a \<times> 'b) list list" and n
    by (induction vs arbitrary: n) auto
  show ?thesis using iterate_entries [OF Some, of z_hashmap_iterator_make "z_hashmap_len m"]
    by (simp add: z_hashmap_iterator_make_def it_rest_def l z_hashmap_len_def hashmap_entries_def Some)
qed

section \<open>Sorted maps keep the contract\<close>

text \<open>The comparison of \<^verbatim>\<open>advanced_subscriber.h\<close>, whose samples wait in such a map.\<close>

definition z_uint32_cmp :: "u32 \<Rightarrow> u32 \<Rightarrow> int" where
  "z_uint32_cmp left right = (if left < right then - 1 else if right < left then 1 else 0)"

definition sortedmap_wf :: "(u32, 'v) z_sortedmap_t \<Rightarrow> bool" where
  "sortedmap_wf m \<longleftrightarrow> sm_f_cmp m = z_uint32_cmp \<and> sorted_wrt (<) (map fst (sm_vals m))"

definition sortedmap_put :: "('k, 'v) z_sortedmap_t \<Rightarrow> 'k \<Rightarrow> 'v \<Rightarrow> ('k, 'v) z_sortedmap_t" where
  "sortedmap_put m k v = snd (z_sortedmap_insert m k v True)"

lemma uint32_cmp [simp]: "z_uint32_cmp a b = 0 \<longleftrightarrow> a = b" "z_uint32_cmp a b < 0 \<longleftrightarrow> a < b"
  by (auto simp: z_uint32_cmp_def)

lemma sortedmap_insert_list_ok:
  "sorted_wrt (<) (map fst es) \<Longrightarrow> \<exists>es'. sortedmap_insert_list z_uint32_cmp k v True es = Some es' \<and>
     sorted_wrt (<) (map fst es') \<and> set (map fst es') = insert k (set (map fst es)) \<and>
     map_of es' = (map_of es)(k \<mapsto> v)"
proof (induction es)
  case (Cons e es)
  have "sorted_wrt (<) (map fst es)" using Cons.prems by simp
  from Cons.IH [OF this] obtain es' where es: "sortedmap_insert_list z_uint32_cmp k v True es = Some es'" "sorted_wrt (<) (map fst es')"
    "set (map fst es') = insert k (set (map fst es))" "map_of es' = (map_of es)(k \<mapsto> v)" by blast
  show ?case using Cons.prems es by (cases "k = fst e"; cases "k < fst e") (auto simp: Let_def fun_eq_iff)
qed simp

lemma sortedmap_get_wf: "sortedmap_wf m \<Longrightarrow> z_sortedmap_get m k = map_of (sm_vals m) k"
  by (simp add: z_sortedmap_get_def sortedmap_wf_def find_map_of)

lemma sorted_distinct: "sorted_wrt (<) (xs :: 'a::linorder list) \<Longrightarrow> distinct xs"
  by (induction xs) auto

lemma sortedmap_remove_wf:
  "sortedmap_wf m \<Longrightarrow> z_sortedmap_remove m k = m\<lparr>sm_vals := filter (\<lambda>e. fst e \<noteq> k) (sm_vals m)\<rparr>"
  by (simp add: z_sortedmap_remove_def sortedmap_wf_def drop_key sorted_distinct)

lemma sorted_filter_keys: "sorted_wrt (<) (map fst es) \<Longrightarrow> sorted_wrt (<) (map fst (filter P es))"
  by (induction es) auto

interpretation sm: dict sortedmap_wf "z_sortedmap_make z_uint32_cmp" z_sortedmap_get sortedmap_put z_sortedmap_remove sm_vals
proof (unfold_locales, goal_cases)
  case (2 m k v)
  then show ?case using sortedmap_insert_list_ok [of "sm_vals m" k v]
    by (auto simp: sortedmap_put_def z_sortedmap_insert_def sortedmap_wf_def)
next
  case (3 m k)
  then show ?case by (simp add: sortedmap_remove_wf) (simp add: sortedmap_wf_def sorted_filter_keys)
next
  case (5 m k v j)
  obtain es where es: "sortedmap_insert_list z_uint32_cmp k v True (sm_vals m) = Some es" "map_of es = (map_of (sm_vals m))(k \<mapsto> v)"
    using 5 sortedmap_insert_list_ok [of "sm_vals m" k v] unfolding sortedmap_wf_def by blast
  have "sm_f_cmp m = z_uint32_cmp" using 5 by (simp add: sortedmap_wf_def)
  then show ?case using es by (simp add: sortedmap_put_def z_sortedmap_insert_def z_sortedmap_get_def find_map_of)
next
  case (6 m k j)
  then show ?case by (simp add: sortedmap_remove_wf) (simp add: z_sortedmap_get_def sortedmap_wf_def find_map_of map_of_filter_key)
next
  case (7 m)
  then show ?case by (simp add: sortedmap_wf_def sorted_distinct)
next
  case (8 m k)
  then show ?case by (simp add: sortedmap_get_wf)
qed (simp_all add: z_sortedmap_make_def sortedmap_wf_def z_sortedmap_get_def)

lemma sortedmap_pop_least:
  assumes "sortedmap_wf m" "z_sortedmap_pop_first m = (Some (k, v), m')"
  shows "sortedmap_wf m' \<and> z_sortedmap_get m k = Some v \<and>
    (\<forall>j. z_sortedmap_get m' j = (if j = k then None else z_sortedmap_get m j)) \<and>
    (\<forall>j w. z_sortedmap_get m j = Some w \<longrightarrow> k \<le> j)"
proof -
  obtain es where es: "sm_vals m = (k, v) # es" "m' = m\<lparr>sm_vals := es\<rparr>"
    using assms(2) by (auto simp: z_sortedmap_pop_first_def split: list.splits)
  have w: "sortedmap_wf m'" using assms(1) es by (simp add: sortedmap_wf_def)
  have "k \<notin> fst ` set es" "\<And>j. j \<in> fst ` set es \<Longrightarrow> k \<le> j"
    using assms(1) es by (auto simp: sortedmap_wf_def)
  moreover have "j \<in> fst ` set es" if "map_of es j = Some x" for j x using map_of_SomeD [OF that] by force
  moreover have "map_of es k = None" using \<open>k \<notin> fst ` set es\<close> by (simp add: map_of_eq_None_iff)
  ultimately show ?thesis using w es assms(1)
    by (auto simp: sortedmap_get_wf split: if_splits)
qed

end
