(* ===== verification/Zp_NetMake.thy ===== *)
theory Zp_NetMake imports Zp_Network
begin

text \<open>
  The makers of network messages and their copies: the rest of
  \<^verbatim>\<open>src/protocol/definitions/network.c\<close>. An argument that may be a null pointer is an option. A maker
  fills a structure of the caller that was not zeroed; \<open>mem\<close> is what the body was before, for
  the members of the union that a maker leaves as they are.
\<close>

section \<open>Makers\<close>

definition given :: "'a \<Rightarrow> 'a option \<Rightarrow> 'a" where
  "given d x = (case x of None \<Rightarrow> d | Some v \<Rightarrow> v)"

lemma given_simps [simp]: "given d None = d" "given d (Some v) = v"
  by (simp_all add: given_def)

definition z_n_msg_make_response_final :: "z_zint_t \<Rightarrow> z_network_message_t" where
  "z_n_msg_make_response_final rid =
     \<lparr>nm_body = N_Response_Final \<lparr>rf_request_id = rid\<rparr>, nm_reliability = Z_RELIABILITY_DEFAULT\<rparr>"

definition z_n_msg_make_declare :: "z_declaration_t \<Rightarrow> z_optional_id_t \<Rightarrow> z_network_message_t" where
  "z_n_msg_make_declare declared interest_id =
     \<lparr>nm_body = N_Declare \<lparr>de_decl = declared, de_ext_timestamp = z_timestamp_null, de_ext_qos = Z_N_QOS_DEFAULT,
        de_interest_id = interest_id\<rparr>, nm_reliability = Z_RELIABILITY_DEFAULT\<rparr>"

definition z_n_msg_make_query ::
    "z_wireexpr_t \<Rightarrow> byte list \<Rightarrow> z_zint_t \<Rightarrow> z_reliability_t \<Rightarrow> z_consolidation_mode_t \<Rightarrow> z_bytes_t option \<Rightarrow> z_encoding_t option \<Rightarrow>
     u64 \<Rightarrow> z_bytes_t option \<Rightarrow> z_n_qos_t \<Rightarrow> z_source_info_t option \<Rightarrow> bool \<Rightarrow> z_network_message_t" where
  "z_n_msg_make_query key parameters qid reliability consolidation payload encoding timeout_ms attachment qos source_info implicit_anyke =
     \<lparr>nm_body = N_Request \<lparr>rq_rid = qid, rq_key = key, rq_ext_timestamp = z_timestamp_null, rq_ext_qos = qos,
        rq_ext_target = Z_QUERY_TARGET_BEST_MATCHING, rq_ext_budget = 0, rq_ext_timeout_ms = timeout_ms,
        rq_body = Request_Query \<lparr>q_parameters = parameters, q_ext_info = given z_source_info_null source_info,
          q_ext_value = \<lparr>val_payload = given [] payload, val_encoding = given z_encoding_null encoding\<rparr>,
          q_consolidation = consolidation, q_ext_attachment = given [] attachment, q_implicit_anyke = implicit_anyke\<rparr>\<rparr>,
      nm_reliability = reliability\<rparr>"

definition made_commons :: "z_timestamp_t option \<Rightarrow> z_source_info_t option \<Rightarrow> z_m_push_commons_t" where
  "made_commons timestamp source_info =
     \<lparr>pc_timestamp = given z_timestamp_null timestamp, pc_source_info = given z_source_info_null source_info\<rparr>"

definition made_put ::
    "z_timestamp_t option \<Rightarrow> z_source_info_t option \<Rightarrow> z_bytes_t option \<Rightarrow> z_encoding_t option \<Rightarrow> z_bytes_t option \<Rightarrow> z_push_body_t" where
  "made_put timestamp source_info payload encoding attachment =
     \<lparr>pb_is_put = True, pb_put = \<lparr>put_commons = made_commons timestamp source_info, put_payload = given [] payload,
        put_encoding = given z_encoding_null encoding, put_attachment = given [] attachment\<rparr>\<rparr>"

text \<open>The attachment of a del lies where a put has its payload.\<close>

definition made_del :: "z_msg_put_t \<Rightarrow> z_timestamp_t option \<Rightarrow> z_source_info_t option \<Rightarrow> z_bytes_t option \<Rightarrow> z_push_body_t" where
  "made_del mem timestamp source_info attachment =
     \<lparr>pb_is_put = False, pb_put = mem\<lparr>put_commons := made_commons timestamp source_info, put_payload := given [] attachment\<rparr>\<rparr>"

definition z_n_msg_make_push_put ::
    "z_wireexpr_t \<Rightarrow> z_bytes_t option \<Rightarrow> z_encoding_t option \<Rightarrow> z_n_qos_t \<Rightarrow> z_timestamp_t option \<Rightarrow> z_bytes_t option \<Rightarrow>
     z_reliability_t \<Rightarrow> z_source_info_t option \<Rightarrow> z_network_message_t" where
  "z_n_msg_make_push_put key payload encoding qos timestamp attachment reliability source_info =
     \<lparr>nm_body = N_Push \<lparr>pu_key = key, pu_timestamp = z_timestamp_null, pu_qos = qos,
        pu_body = made_put timestamp source_info payload encoding attachment\<rparr>, nm_reliability = reliability\<rparr>"

definition z_n_msg_make_push_del ::
    "z_msg_put_t \<Rightarrow> z_wireexpr_t \<Rightarrow> z_n_qos_t \<Rightarrow> z_timestamp_t option \<Rightarrow> z_reliability_t \<Rightarrow> z_source_info_t option \<Rightarrow> z_network_message_t" where
  "z_n_msg_make_push_del mem key qos timestamp reliability source_info =
     \<lparr>nm_body = N_Push \<lparr>pu_key = key, pu_timestamp = z_timestamp_null, pu_qos = qos,
        pu_body = made_del mem timestamp source_info None\<rparr>, nm_reliability = reliability\<rparr>"

definition made_response :: "z_id_t \<Rightarrow> z_zint_t \<Rightarrow> z_wireexpr_t \<Rightarrow> z_n_qos_t \<Rightarrow> z_response_body_t \<Rightarrow> z_reliability_t \<Rightarrow> z_network_message_t" where
  "made_response zid rid key qos body reliability =
     \<lparr>nm_body = N_Response \<lparr>rs_ext_timestamp = z_timestamp_null, rs_request_id = rid, rs_key = key, rs_ext_qos = qos,
        rs_zid = zid, rs_eid = 0, rs_body = body\<rparr>, nm_reliability = reliability\<rparr>"

definition z_n_msg_make_reply_ok_put ::
    "z_id_t \<Rightarrow> z_zint_t \<Rightarrow> z_wireexpr_t \<Rightarrow> z_reliability_t \<Rightarrow> z_consolidation_mode_t \<Rightarrow> z_n_qos_t \<Rightarrow> z_timestamp_t option \<Rightarrow>
     z_source_info_t option \<Rightarrow> z_bytes_t option \<Rightarrow> z_encoding_t option \<Rightarrow> z_bytes_t option \<Rightarrow> z_network_message_t" where
  "z_n_msg_make_reply_ok_put zid rid key reliability consolidation qos timestamp source_info payload encoding attachment =
     made_response zid rid key qos (Response_Reply \<lparr>r_consolidation = consolidation,
       r_body = made_put timestamp source_info payload encoding attachment\<rparr>) reliability"

definition z_n_msg_make_reply_ok_del ::
    "z_msg_put_t \<Rightarrow> z_id_t \<Rightarrow> z_zint_t \<Rightarrow> z_wireexpr_t \<Rightarrow> z_reliability_t \<Rightarrow> z_consolidation_mode_t \<Rightarrow> z_n_qos_t \<Rightarrow> z_timestamp_t option \<Rightarrow>
     z_source_info_t option \<Rightarrow> z_bytes_t option \<Rightarrow> z_network_message_t" where
  "z_n_msg_make_reply_ok_del mem zid rid key reliability consolidation qos timestamp source_info attachment =
     made_response zid rid key qos (Response_Reply \<lparr>r_consolidation = consolidation,
       r_body = made_del mem timestamp source_info attachment\<rparr>) reliability"

definition z_n_msg_make_reply_err ::
    "z_id_t \<Rightarrow> z_zint_t \<Rightarrow> z_reliability_t \<Rightarrow> z_n_qos_t \<Rightarrow> z_bytes_t option \<Rightarrow> z_encoding_t option \<Rightarrow> z_source_info_t option \<Rightarrow>
     z_network_message_t" where
  "z_n_msg_make_reply_err zid rid reliability qos payload encoding source_info =
     made_response zid rid z_wireexpr_null qos (Response_Err \<lparr>e_encoding = given z_encoding_null encoding,
       e_ext_source_info = given z_source_info_null source_info, e_payload = given [] payload\<rparr>) reliability"

definition z_n_msg_make_interest :: "z_interest_t \<Rightarrow> z_network_message_t" where
  "z_n_msg_make_interest interest = \<lparr>nm_body = N_Interest \<lparr>ni_interest = interest\<rparr>, nm_reliability = Z_RELIABILITY_DEFAULT\<rparr>"

section \<open>Copies\<close>

text \<open>
  The structure is copied whole, then what it points to is copied: the copy is the same value. (The
  schema of an encoding is not: the copy refers to that of the original.)
\<close>

definition z_n_msg_copy :: "z_network_message_t \<Rightarrow> z_result_t \<times> z_network_message_t" where
  "z_n_msg_copy src = (Z_RES_OK, src)"

definition z_n_msg_clone :: "z_network_message_t \<Rightarrow> z_network_message_t" where
  "z_n_msg_clone src = snd (z_n_msg_copy src)"

section \<open>The attachment of a del\<close>

text \<open>A del that was made with an attachment is, on the wire, the del without it.\<close>

lemma reply_del_attachment_not_sent:
  "z_push_body_encode (made_del mem ts si a) = z_push_body_encode (made_del mem ts si None)"
  by (simp add: z_push_body_encode_def made_del_def Let_def when_do_def)

end
