(* ===== verification/Zp_Session.thy ===== *)
theory Zp_Session imports Zp_Rc Zp_Map Zp_Rx Zp_NetMake
begin

text \<open>
  What a session keeps (\<^verbatim>\<open>include/zenoh-pico/session/session.h\<close>, \<^verbatim>\<open>net/session.h\<close>), its lock, and
  what it calls outside: the functions of the application (callbacks and droppers, each a function
  pointer with its argument, of type \<open>'c\<close>) and the sending of network messages. They work on the whole
  session, so a callback may register, unregister or send; \<open>'w\<close> is the application's own state and the network. The
  lock of the session is not recursive: taking it again is a \<open>Fault\<close>, the thread would wait for
  itself. Notifiers of threads that wait for a callback to end are not in the state.
\<close>

section \<open>Result codes\<close>

definition Z_RESOURCE_POSITIVE_REF_COUNT :: z_result_t where "Z_RESOURCE_POSITIVE_REF_COUNT = 4"
definition Z_ERR_MESSAGE_ZENOH_DECLARATION_UNKNOWN :: z_result_t where "Z_ERR_MESSAGE_ZENOH_DECLARATION_UNKNOWN = - 115"
definition Z_ERR_ENTITY_DECLARATION_FAILED :: z_result_t where "Z_ERR_ENTITY_DECLARATION_FAILED = - 111"
definition Z_ERR_ENTITY_UNKNOWN :: z_result_t where "Z_ERR_ENTITY_UNKNOWN = - 110"
definition Z_ERR_KEYEXPR_UNKNOWN :: z_result_t where "Z_ERR_KEYEXPR_UNKNOWN = - 109"
definition Z_ERR_KEYEXPR_NOT_MATCH :: z_result_t where "Z_ERR_KEYEXPR_NOT_MATCH = - 108"
definition Z_ERR_QUERY_NOT_MATCH :: z_result_t where "Z_ERR_QUERY_NOT_MATCH = - 107"
definition Z_ERR_SESSION_CLOSED :: z_result_t where "Z_ERR_SESSION_CLOSED = - 73"
definition Z_ERR_NULL :: z_result_t where "Z_ERR_NULL = - 127"

lemma session_codes [simp]:
  "Z_ERR_SESSION_CLOSED \<noteq> 0" "Z_ERR_KEYEXPR_UNKNOWN \<noteq> 0" "Z_ERR_NULL \<noteq> 0" "Z_RESOURCE_POSITIVE_REF_COUNT \<noteq> 0"
  "Z_ERR_ENTITY_UNKNOWN \<noteq> 0" "Z_ERR_ENTITY_DECLARATION_FAILED \<noteq> 0" "Z_ERR_KEYEXPR_NOT_MATCH \<noteq> 0"
  by (simp_all add: Z_ERR_SESSION_CLOSED_def Z_ERR_KEYEXPR_UNKNOWN_def Z_ERR_NULL_def Z_RESOURCE_POSITIVE_REF_COUNT_def
      Z_ERR_ENTITY_UNKNOWN_def Z_ERR_ENTITY_DECLARATION_FAILED_def Z_ERR_KEYEXPR_NOT_MATCH_def)

section \<open>Locality\<close>

datatype z_locality_t = Z_LOCALITY_ANY | Z_LOCALITY_SESSION_LOCAL | Z_LOCALITY_REMOTE

definition z_locality_default :: z_locality_t where "z_locality_default = Z_LOCALITY_ANY"

fun z_locality_allows_local :: "z_locality_t \<Rightarrow> bool" where
  "z_locality_allows_local Z_LOCALITY_REMOTE = False"
| "z_locality_allows_local Z_LOCALITY_ANY = True"
| "z_locality_allows_local Z_LOCALITY_SESSION_LOCAL = True"

fun z_locality_allows_remote :: "z_locality_t \<Rightarrow> bool" where
  "z_locality_allows_remote Z_LOCALITY_SESSION_LOCAL = False"
| "z_locality_allows_remote Z_LOCALITY_ANY = True"
| "z_locality_allows_remote Z_LOCALITY_REMOTE = True"

section \<open>Samples, replies and queries\<close>

text \<open>A session is known by a number, which the declaration of an expression refers to.\<close>

type_synonym z_key_t = "nat z_declared_keyexpr_t"

datatype z_sample_kind_t = Z_SAMPLE_KIND_PUT | Z_SAMPLE_KIND_DELETE

record z_sample_t =
  sa_keyexpr :: z_key_t
  sa_payload :: z_bytes_t
  sa_timestamp :: z_timestamp_t
  sa_encoding :: z_encoding_t
  sa_kind :: z_sample_kind_t
  sa_qos :: z_n_qos_t
  sa_attachment :: z_bytes_t
  sa_reliability :: z_reliability_t
  sa_source_info :: z_source_info_t

datatype z_reply_result_t = Reply_Sample z_sample_t | Reply_Error z_value_t | Reply_None

record z_reply_t =
  re_result :: z_reply_result_t
  re_replier_id :: z_entity_global_id_t

record z_query_t =
  qu_key :: z_key_t
  qu_value :: z_value_t
  qu_request_id :: u32
  qu_attachment :: z_bytes_t
  qu_parameters :: "byte list"
  qu_source_info :: z_source_info_t
  qu_qos :: z_n_qos_t
  qu_anyke :: bool
  qu_is_local :: bool

section \<open>What a session keeps\<close>

record z_resource_t =
  res_key :: z_string_t
  res_id :: u16
  res_refcount :: u16

record 'c z_subscription_t =
  su_key :: z_key_t
  su_id :: u32
  su_allowed_origin :: z_locality_t
  su_callback :: 'c
  su_dropper :: "'c option"

record 'c z_session_queryable_t =
  qy_key :: z_key_t
  qy_id :: u32
  qy_callback :: 'c
  qy_dropper :: "'c option"
  qy_complete :: bool
  qy_allowed_origin :: z_locality_t

record z_pending_reply_t =
  pr_reply :: z_reply_t
  pr_tstamp :: z_timestamp_t

record 'c z_pending_query_t =
  pq_key :: z_string_t
  pq_querier_id :: z_optional_id_t
  pq_id :: z_zint_t
  pq_callback :: 'c
  pq_dropper :: "'c option"
  pq_allowed_destination :: z_locality_t
  pq_start_time :: u64
  pq_timeout :: u64
  pq_remaining_finals :: u8
  pq_pending_replies :: "z_pending_reply_t list"
  pq_target :: z_query_target_t
  pq_consolidation :: z_consolidation_mode_t
  pq_anyke :: bool

record 'c z_session_interest_t =
  si_key :: z_string_t
  si_id :: u32
  si_callback :: "'c option"
  si_arg :: "'c option"
  si_flags :: u8

text \<open>The peer of a declaration is its address, as in the mapping of an expression.\<close>

datatype z_declare_type_t = Z_DECLARE_TYPE_SUBSCRIBER | Z_DECLARE_TYPE_QUERYABLE | Z_DECLARE_TYPE_TOKEN

record z_declare_data_t =
  dd_key :: z_string_t
  dd_peer :: "nat option"
  dd_id :: u32
  dd_type :: z_declare_type_t
  dd_complete :: bool

record 'c z_liveliness_pending_query_t =
  lq_key :: z_string_t
  lq_id :: u32
  lq_callback :: 'c
  lq_dropper :: "'c option"

datatype z_subscriber_kind_t = Z_SUBSCRIBER_KIND_SUBSCRIBER | Z_SUBSCRIBER_KIND_LIVELINESS_SUBSCRIBER

datatype z_transport_type_t = Z_TRANSPORT_UNICAST_TYPE | Z_TRANSPORT_MULTICAST_TYPE | Z_TRANSPORT_RAWETH_TYPE | Z_TRANSPORT_NONE

record ('c, 'w) z_session_t =
  zn_self :: nat
  zn_locked :: bool
  zn_is_closed :: bool
  zn_mode :: z_whatami_t
  zn_tp_type :: z_transport_type_t
  zn_local_zid :: z_id_t
  zn_resource_id :: u16
  zn_entity_id :: u32
  zn_query_id :: z_zint_t
  zn_local_resources :: "z_resource_t list"
  zn_declaration_cache :: "z_network_message_t list"
  zn_subscriptions :: "z_rc list"
  zn_liveliness_subscriptions :: "z_rc list"
  zn_subs :: "'c z_subscription_t rc_store"
  zn_local_tokens :: "z_key_t z_int_map_t"
  zn_remote_tokens :: "z_string_t z_int_map_t"
  zn_liveliness_query_id :: u32
  zn_liveliness_pending_queries :: "'c z_liveliness_pending_query_t z_int_map_t"
  zn_local_queryable :: "z_rc list"
  zn_qles :: "'c z_session_queryable_t rc_store"
  zn_queries :: "z_query_t rc_store"
  zn_pending_queries :: "'c z_pending_query_t list"
  zn_local_interests :: "z_rc list"
  zn_intrs :: "'c z_session_interest_t rc_store"
  zn_remote_declares :: "z_declare_data_t list"
  zn_world :: 'w

type_synonym ('a, 'c, 'w) zprog = "('a, ('c, 'w) z_session_t) prog"

datatype z_interest_msg_type_t = Z_INTEREST_MSG_TYPE_FINAL
  | Z_INTEREST_MSG_TYPE_DECL_SUBSCRIBER | Z_INTEREST_MSG_TYPE_DECL_QUERYABLE | Z_INTEREST_MSG_TYPE_DECL_TOKEN
  | Z_INTEREST_MSG_TYPE_UNDECL_SUBSCRIBER | Z_INTEREST_MSG_TYPE_UNDECL_QUERYABLE | Z_INTEREST_MSG_TYPE_UNDECL_TOKEN
  | Z_INTEREST_MSG_TYPE_CONNECTION_DROPPED

record z_interest_msg_t =
  im_id :: u32
  im_type :: z_interest_msg_type_t
  im_key :: "z_string_t option"
  im_is_complete :: bool

text \<open>
  What the session calls: callbacks, droppers, the sending of a message (to all, or to one peer),
  the clearing of a declared expression, which undeclares its prefix with the last reference, and
  the join of a multicast transport.
\<close>

record ('c, 'w) z_env =
  env_sample :: "'c \<Rightarrow> z_sample_t \<Rightarrow> (unit, 'c, 'w) zprog"
  env_reply :: "'c \<Rightarrow> z_reply_t \<Rightarrow> (unit, 'c, 'w) zprog"
  env_query :: "'c \<Rightarrow> z_rc \<Rightarrow> (unit, 'c, 'w) zprog"
  env_interest :: "'c \<Rightarrow> z_interest_msg_t \<Rightarrow> nat option \<Rightarrow> (unit, 'c, 'w) zprog"
  env_drop :: "'c \<Rightarrow> (unit, 'c, 'w) zprog"
  env_send_n_msg :: "z_network_message_t \<Rightarrow> z_reliability_t \<Rightarrow> z_congestion_control_t \<Rightarrow> nat option \<Rightarrow> (unit, 'c, 'w) zprog"
  env_key_clear :: "z_key_t \<Rightarrow> (unit, 'c, 'w) zprog"
  env_send_join :: "(unit, 'c, 'w) zprog"

section \<open>The lock\<close>

definition z_session_mutex_lock :: "(unit, 'c, 'w) zprog" where
  "z_session_mutex_lock zn = (if zn_locked zn then Fault else Ok () (zn\<lparr>zn_locked := True\<rparr>))"

definition z_session_mutex_unlock :: "(unit, 'c, 'w) zprog" where
  "z_session_mutex_unlock zn = Ok () (zn\<lparr>zn_locked := False\<rparr>)"

definition z_session_is_closed :: "('c, 'w) z_session_t \<Rightarrow> bool" where
  "z_session_is_closed zn = zn_is_closed zn"

definition z_session_mutex_lock_if_open :: "(unit, 'c, 'w) zprog" where
  "z_session_mutex_lock_if_open = then_do z_session_mutex_lock
     (\<lambda>zn. if z_session_is_closed zn then then_do z_session_mutex_unlock (fail Z_ERR_SESSION_CLOSED) zn else Ok () zn)"

text \<open>Reading and writing the session.\<close>

definition zget :: "(('c, 'w) z_session_t \<Rightarrow> 'a) \<Rightarrow> ('a, 'c, 'w) zprog" where
  "zget f zn = Ok (f zn) zn"

definition zmod :: "(('c, 'w) z_session_t \<Rightarrow> ('c, 'w) z_session_t) \<Rightarrow> (unit, 'c, 'w) zprog" where
  "zmod f zn = Ok () (f zn)"

definition on_subs :: "('a, 'c z_subscription_t rc_store) prog \<Rightarrow> ('a, 'c, 'w) zprog" where
  "on_subs = within zn_subs (\<lambda>st zn. zn\<lparr>zn_subs := st\<rparr>)"

definition on_qles :: "('a, 'c z_session_queryable_t rc_store) prog \<Rightarrow> ('a, 'c, 'w) zprog" where
  "on_qles = within zn_qles (\<lambda>st zn. zn\<lparr>zn_qles := st\<rparr>)"

definition on_queries :: "('a, z_query_t rc_store) prog \<Rightarrow> ('a, 'c, 'w) zprog" where
  "on_queries = within zn_queries (\<lambda>st zn. zn\<lparr>zn_queries := st\<rparr>)"

definition on_intrs :: "('a, 'c z_session_interest_t rc_store) prog \<Rightarrow> ('a, 'c, 'w) zprog" where
  "on_intrs = within zn_intrs (\<lambda>st zn. zn\<lparr>zn_intrs := st\<rparr>)"

text \<open>One after another, until one fails.\<close>

fun each :: "('a \<Rightarrow> (unit, 's) prog) \<Rightarrow> 'a list \<Rightarrow> (unit, 's) prog" where
  "each p [] = ret ()"
| "each p (x # xs) = then_do (p x) (each p xs)"

text \<open>A result that is not looked at.\<close>

definition ignore :: "('a, 's) prog \<Rightarrow> (unit, 's) prog" where
  "ignore p s = (case p s of Ok _ s \<Rightarrow> Ok () s | Err _ s \<Rightarrow> Ok () s | Fault \<Rightarrow> Fault)"

section \<open>Resources\<close>

text \<open>The comparison of two strings ends at a null character.\<close>

definition z_keyexpr_equals :: "z_string_t \<Rightarrow> z_string_t \<Rightarrow> bool" where
  "z_keyexpr_equals first second \<longleftrightarrow>
     length first = length second \<and> takeWhile (\<lambda>c. c \<noteq> 0) first = takeWhile (\<lambda>c. c \<noteq> 0) second"

definition z_get_entity_id :: "(u32, 'c, 'w) zprog" where
  "z_get_entity_id zn = Ok (zn_entity_id zn) (zn\<lparr>zn_entity_id := zn_entity_id zn + 1\<rparr>)"

definition z_get_resource_id :: "(u16, 'c, 'w) zprog" where
  "z_get_resource_id zn = Ok (zn_resource_id zn) (zn\<lparr>zn_resource_id := zn_resource_id zn + 1\<rparr>)"

fun z_get_resource_by_id_inner :: "z_resource_t list \<Rightarrow> z_zint_t \<Rightarrow> z_resource_t option" where
  "z_get_resource_by_id_inner [] i = None"
| "z_get_resource_by_id_inner (r # xs) i = (if ucast (res_id r) = i then Some r else z_get_resource_by_id_inner xs i)"

fun z_get_resource_by_key_inner :: "z_resource_t list \<Rightarrow> z_string_t \<Rightarrow> z_resource_t option" where
  "z_get_resource_by_key_inner [] key = None"
| "z_get_resource_by_key_inner (r # xs) key =
     (if z_keyexpr_equals (res_key r) key then Some r else z_get_resource_by_key_inner xs key)"

definition Z_RESOURCE_ID_NONE :: u16 where "Z_RESOURCE_ID_NONE = 0"

text \<open>The expression, or the code of the failure. An alias is the string itself.\<close>

definition z_get_keyexpr_from_wireexpr_inner :: "z_resource_t list \<Rightarrow> z_wireexpr_t \<Rightarrow> z_result_t \<times> z_string_t" where
  "z_get_keyexpr_from_wireexpr_inner xs expr =
     (if we_id expr = Z_RESOURCE_ID_NONE then (Z_RES_OK, we_suffix expr)
      else case z_get_resource_by_id_inner xs (ucast (we_id expr)) of
             None \<Rightarrow> (Z_ERR_KEYEXPR_UNKNOWN, z_keyexpr_null)
           | Some r \<Rightarrow> z_string_concat_substr (res_key r) (we_suffix expr) None)"

text \<open>A peer: its address and what is kept of it.\<close>

type_synonym z_peer = "nat \<times> z_resource_t z_transport_peer_common_t"

definition z_get_keyexpr_from_wireexpr :: "z_wireexpr_t \<Rightarrow> z_peer option \<Rightarrow> (z_string_t, 'c, 'w) zprog" where
  "z_get_keyexpr_from_wireexpr expr peer =
     (if \<not> z_wireexpr_check expr then fail Z_ERR_NULL
      else then_do z_session_mutex_lock (bind_ok (zget zn_local_resources) (\<lambda>local.
        let decls = (case peer of None \<Rightarrow> local
                     | Some p \<Rightarrow> if z_wireexpr_is_local expr then local else pc_remote_resources (snd p));
            (r, out) = z_get_keyexpr_from_wireexpr_inner decls expr
        in then_do z_session_mutex_unlock (if r = Z_RES_OK then ret out else fail r))))"

text \<open>
  The resources of the session and of a peer are the two tables that registering works on. The first
  entry with an identifier is the one that counts; a wrong mapping without a peer is a null pointer.
\<close>

fun update_first :: "('a \<Rightarrow> bool) \<Rightarrow> ('a \<Rightarrow> 'a) \<Rightarrow> 'a list \<Rightarrow> 'a list" where
  "update_first P f [] = []"
| "update_first P f (x # xs) = (if P x then f x # xs else x # update_first P f xs)"

definition res_count :: "z_resource_t \<Rightarrow> z_resource_t" where
  "res_count r = r\<lparr>res_refcount := res_refcount r + 1\<rparr>"

type_synonym ('c, 'w) zn_peer = "('c, 'w) z_session_t \<times> z_peer option"

definition remote_resources :: "('c, 'w) zn_peer \<Rightarrow> z_resource_t list option" where
  "remote_resources s = map_option (\<lambda>p. pc_remote_resources (snd p)) (snd s)"

definition resources :: "('c, 'w) zn_peer \<Rightarrow> z_resource_t list" where
  "resources s = (case remote_resources s of None \<Rightarrow> zn_local_resources (fst s) | Some rs \<Rightarrow> rs)"

definition set_resources :: "z_resource_t list \<Rightarrow> ('c, 'w) zn_peer \<Rightarrow> ('c, 'w) zn_peer" where
  "set_resources rs s = (case snd s of None \<Rightarrow> ((fst s)\<lparr>zn_local_resources := rs\<rparr>, None)
     | Some (a, p) \<Rightarrow> (fst s, Some (a, p\<lparr>pc_remote_resources := rs\<rparr>)))"

definition register_new :: "z_string_t \<Rightarrow> u16 \<Rightarrow> (u16, ('c, 'w) zn_peer) prog" where
  "register_new new_key i s =
     (case (if i = Z_RESOURCE_ID_NONE then z_get_resource_by_key_inner (resources s) new_key else None) of
        Some r \<Rightarrow> Ok (res_id r) (set_resources (update_first (\<lambda>r. z_keyexpr_equals (res_key r) new_key) res_count (resources s)) s)
      | None \<Rightarrow>
          (case (if i = Z_RESOURCE_ID_NONE then z_get_resource_id (fst s) else Ok i (fst s)) of
             Ok i zn \<Rightarrow> Ok i (set_resources (\<lparr>res_key = new_key, res_id = i, res_refcount = 1\<rparr> # resources s) (zn, snd s))
           | Err e zn \<Rightarrow> Err e (zn, snd s) | Fault \<Rightarrow> Fault))"

definition z_register_resource_inner :: "z_wireexpr_t \<Rightarrow> u16 \<Rightarrow> (u16, ('c, 'w) zn_peer) prog" where
  "z_register_resource_inner expr i s =
     (case (if we_mapping expr = KEYEXPR_MAPPING_LOCAL then Some (zn_local_resources (fst s)) else remote_resources s) of
        None \<Rightarrow> Fault
      | Some parent \<Rightarrow>
          (if we_id expr \<noteq> Z_RESOURCE_ID_NONE
           then (case z_get_resource_by_id_inner parent (ucast (we_id expr)) of
                   None \<Rightarrow> Err Z_ERR_ENTITY_DECLARATION_FAILED s
                 | Some r \<Rightarrow>
                     (if z_wireexpr_has_suffix expr
                      then (case z_string_concat_substr (res_key r) (we_suffix expr) None of (e, key) \<Rightarrow>
                              if e \<noteq> Z_RES_OK then Err Z_ERR_SYSTEM_OUT_OF_MEMORY s else register_new key i s)
                      else if i = Z_RESOURCE_ID_NONE \<and> (we_mapping expr = KEYEXPR_MAPPING_LOCAL \<longleftrightarrow> snd s = None)
                      then Ok (res_id r) (set_resources (update_first (\<lambda>r. res_id r = we_id expr) res_count (resources s)) s)
                      else register_new (res_key r) i s))
           else register_new (we_suffix expr) i s))"

definition lift_zn :: "('a, 'c, 'w) zprog \<Rightarrow> ('a, ('c, 'w) zn_peer) prog" where
  "lift_zn = within fst (\<lambda>zn s. (zn, snd s))"

definition z_register_resource :: "z_wireexpr_t \<Rightarrow> u16 \<Rightarrow> (u16, ('c, 'w) zn_peer) prog" where
  "z_register_resource expr i =
     then_do (lift_zn z_session_mutex_lock_if_open)
       (\<lambda>s. case z_register_resource_inner expr i s of
              Ok x s \<Rightarrow> then_do (lift_zn z_session_mutex_unlock) (ret x) s
            | Err e s \<Rightarrow> then_do (lift_zn z_session_mutex_unlock) (fail e) s
            | Fault \<Rightarrow> Fault)"

definition unregister_inner :: "u16 \<Rightarrow> z_resource_t list \<Rightarrow> z_result_t \<times> z_resource_t list" where
  "unregister_inner i rs =
     (case z_list_find (\<lambda>r. res_id r = i) rs of
        None \<Rightarrow> (Z_ERR_KEYEXPR_UNKNOWN, rs)
      | Some r \<Rightarrow>
          (let rs = update_first (\<lambda>r. res_id r = i) (\<lambda>r. r\<lparr>res_refcount := res_refcount r - 1\<rparr>) rs in
           if res_refcount r - 1 = 0 then (Z_RES_OK, fst (z_list_drop_filter (\<lambda>r. res_id r = i) True rs))
           else (Z_RESOURCE_POSITIVE_REF_COUNT, rs)))"

definition z_unregister_resource :: "u16 \<Rightarrow> (unit, ('c, 'w) zn_peer) prog" where
  "z_unregister_resource i =
     then_do (lift_zn z_session_mutex_lock)
       (\<lambda>s. case unregister_inner i (resources s) of (r, rs) \<Rightarrow>
          then_do (lift_zn z_session_mutex_unlock) (return_code r ()) (set_resources rs s))"

definition z_flush_local_resources :: "(unit, 'c, 'w) zprog" where
  "z_flush_local_resources =
     then_do z_session_mutex_lock (then_do (zmod (\<lambda>zn. zn\<lparr>zn_local_resources := []\<rparr>)) z_session_mutex_unlock)"

end
