(* ===== verification/Zp_Subscription.thy ===== *)
theory Zp_Subscription imports Zp_Session
begin

text \<open>
  Samples and subscriptions: \<^verbatim>\<open>src/net/sample.c\<close>, \<^verbatim>\<open>src/session/subscription.c\<close> and
  \<^verbatim>\<open>src/session/push.c\<close>, with subscriptions of samples and of liveliness, without the cache of the
  receiver and without local delivery, as configured. The lists of the session hold references; a
  vector of references is the list of them.
\<close>

section \<open>Samples\<close>

definition z_sample_null :: z_sample_t where
  "z_sample_null = \<lparr>sa_keyexpr = z_declared_keyexpr_null, sa_payload = [], sa_timestamp = z_timestamp_null,
     sa_encoding = z_encoding_null, sa_kind = Z_SAMPLE_KIND_PUT, sa_qos = 0, sa_attachment = [],
     sa_reliability = Z_RELIABILITY_RELIABLE, sa_source_info = z_source_info_null\<rparr>"

text \<open>What is stolen is null afterwards: the arguments are not used again.\<close>

definition z_sample_steal_data ::
    "z_string_t \<Rightarrow> z_bytes_t \<Rightarrow> z_timestamp_t \<Rightarrow> z_encoding_t \<Rightarrow> z_sample_kind_t \<Rightarrow> z_n_qos_t \<Rightarrow> z_bytes_t \<Rightarrow>
     z_reliability_t \<Rightarrow> z_source_info_t \<Rightarrow> z_sample_t" where
  "z_sample_steal_data key payload timestamp encoding kind qos attachment reliability source_info =
     \<lparr>sa_keyexpr = z_declared_keyexpr_null\<lparr>dke_inner := fst (z_keyexpr_steal key)\<rparr>, sa_payload = payload,
      sa_timestamp = timestamp, sa_encoding = encoding, sa_kind = kind, sa_qos = qos, sa_attachment = attachment,
      sa_reliability = reliability, sa_source_info = source_info\<rparr>"

definition z_sample_copy :: "z_sample_t \<Rightarrow> z_result_t \<times> z_sample_t" where
  "z_sample_copy src = (case z_declared_keyexpr_copy (sa_keyexpr src) of (r, key) \<Rightarrow>
     (r, if r = Z_RES_OK then src\<lparr>sa_keyexpr := key\<rparr> else z_sample_null\<lparr>sa_keyexpr := key\<rparr>))"

definition z_sample_move :: "z_sample_t \<Rightarrow> z_result_t \<times> z_sample_t" where
  "z_sample_move src = (case z_declared_keyexpr_move (sa_keyexpr src) of (r, key, left) \<Rightarrow>
     (r, if r = Z_RES_OK then src\<lparr>sa_keyexpr := key\<rparr> else z_sample_null\<lparr>sa_keyexpr := key\<rparr>))"

definition z_sample_copy_data ::
    "z_key_t \<Rightarrow> z_bytes_t \<Rightarrow> z_timestamp_t \<Rightarrow> z_encoding_t \<Rightarrow> z_sample_kind_t \<Rightarrow> z_n_qos_t \<Rightarrow> z_bytes_t \<Rightarrow>
     z_reliability_t \<Rightarrow> z_source_info_t \<Rightarrow> z_result_t \<times> z_sample_t" where
  "z_sample_copy_data key payload timestamp encoding kind qos attachment reliability source_info =
     (case z_declared_keyexpr_copy key of (r, k) \<Rightarrow>
        if r \<noteq> Z_RES_OK then (r, z_sample_null\<lparr>sa_keyexpr := k\<rparr>)
        else (Z_RES_OK, \<lparr>sa_keyexpr = k, sa_payload = payload, sa_timestamp = timestamp, sa_encoding = encoding, sa_kind = kind,
                sa_qos = qos, sa_attachment = attachment, sa_reliability = reliability, sa_source_info = source_info\<rparr>))"

section \<open>The lists of a session\<close>

definition sub_list :: "z_subscriber_kind_t \<Rightarrow> ('c, 'w) z_session_t \<Rightarrow> z_rc list" where
  "sub_list kind zn = (if kind = Z_SUBSCRIBER_KIND_SUBSCRIBER then zn_subscriptions zn else zn_liveliness_subscriptions zn)"

definition set_sub_list :: "z_subscriber_kind_t \<Rightarrow> z_rc list \<Rightarrow> ('c, 'w) z_session_t \<Rightarrow> ('c, 'w) z_session_t" where
  "set_sub_list kind subs zn =
     (if kind = Z_SUBSCRIBER_KIND_SUBSCRIBER then zn\<lparr>zn_subscriptions := subs\<rparr> else zn\<lparr>zn_liveliness_subscriptions := subs\<rparr>)"

definition drop_opt :: "('c, 'w) z_env \<Rightarrow> 'c option \<Rightarrow> (unit, 'c, 'w) zprog" where
  "drop_opt env dropper = (case dropper of None \<Rightarrow> ret () | Some d \<Rightarrow> ignore (env_drop env d))"

definition z_subscription_clear :: "('c, 'w) z_env \<Rightarrow> 'c z_subscription_t \<Rightarrow> (unit, 'c, 'w) zprog" where
  "z_subscription_clear env sub = then_do (drop_opt env (su_dropper sub)) (ignore (env_key_clear env (su_key sub)))"

definition sub_rc_drop :: "('c, 'w) z_env \<Rightarrow> z_rc \<Rightarrow> (unit, 'c, 'w) zprog" where
  "sub_rc_drop env p = ignore (rc_drop zn_subs (\<lambda>st zn. zn\<lparr>zn_subs := st\<rparr>) (z_subscription_clear env) p)"

text \<open>The first reference in a list whose subscription has an identifier.\<close>

fun z_get_subscription_by_id_in :: "z_rc list \<Rightarrow> z_zint_t \<Rightarrow> (z_rc, 'c, 'w) zprog" where
  "z_get_subscription_by_id_in [] i = ret None"
| "z_get_subscription_by_id_in (p # xs) i =
     bind_ok (on_subs (rc_read p)) (\<lambda>sub. if i = ucast (su_id sub) then ret p else z_get_subscription_by_id_in xs i)"

definition unsafe_z_get_subscription_by_id :: "z_subscriber_kind_t \<Rightarrow> z_zint_t \<Rightarrow> (z_rc, 'c, 'w) zprog" where
  "unsafe_z_get_subscription_by_id kind i =
     bind_ok (zget (sub_list kind)) (\<lambda>subs. z_get_subscription_by_id_in subs i)"

text \<open>A comparison of expressions that faults or does not return.\<close>

definition of_option :: "'a option \<Rightarrow> ('a, 's) prog" where
  "of_option x = (case x of None \<Rightarrow> fault | Some v \<Rightarrow> ret v)"

text \<open>References to the subscriptions that a key concerns, each counted, in the order of the list.\<close>

fun subscriptions_by_key :: "z_string_t \<Rightarrow> bool \<Rightarrow> z_rc list \<Rightarrow> z_rc list \<Rightarrow> (z_rc list, 'c, 'w) zprog" where
  "subscriptions_by_key key is_remote [] sub_infos = ret sub_infos"
| "subscriptions_by_key key is_remote (p # xs) sub_infos =
     bind_ok (on_subs (rc_read p)) (\<lambda>sub.
       let origin_allowed = (if is_remote then z_locality_allows_remote (su_allowed_origin sub)
                             else z_locality_allows_local (su_allowed_origin sub)) in
       bind_ok (if origin_allowed then of_option (z_keyexpr_intersects (dke_inner (su_key sub)) key) else ret False) (\<lambda>hit.
         if hit then bind_ok (on_subs (rc_clone p)) (\<lambda>c. subscriptions_by_key key is_remote xs (sub_infos @ [c]))
         else subscriptions_by_key key is_remote xs sub_infos))"

definition unsafe_z_get_subscriptions_by_key :: "z_subscriber_kind_t \<Rightarrow> z_string_t \<Rightarrow> bool \<Rightarrow> (z_rc list, 'c, 'w) zprog" where
  "unsafe_z_get_subscriptions_by_key kind key is_remote =
     bind_ok (zget (sub_list kind)) (\<lambda>subs. subscriptions_by_key key is_remote subs [])"

definition z_get_subscription_by_id :: "z_subscriber_kind_t \<Rightarrow> z_zint_t \<Rightarrow> (z_rc, 'c, 'w) zprog" where
  "z_get_subscription_by_id kind i =
     then_do z_session_mutex_lock
       (bind_ok (unsafe_z_get_subscription_by_id kind i) (\<lambda>sub.
        bind_ok (if sub = None then ret None else on_subs (rc_clone sub)) (\<lambda>out.
        then_do z_session_mutex_unlock (ret out))))"

text \<open>
  The list and the caller have one reference each. On a session that is closed the subscription is
  dropped and the result is a null reference; what the caller has is then null, too.
\<close>

definition z_register_subscription ::
    "('c, 'w) z_env \<Rightarrow> z_subscriber_kind_t \<Rightarrow> 'c z_subscription_t \<Rightarrow> (z_rc, 'c, 'w) zprog" where
  "z_register_subscription env kind s =
     bind_ok (on_subs (rc_new_from_val s)) (\<lambda>out.
     bind_ok (attempt () z_session_mutex_lock_if_open) (\<lambda>(r, _).
       if r \<noteq> Z_RES_OK then then_do (sub_rc_drop env out) (ret None)
       else bind_ok (on_subs (rc_clone out)) (\<lambda>c.
         then_do (zmod (\<lambda>zn. set_sub_list kind (c # sub_list kind zn) zn))
           (then_do z_session_mutex_unlock (ret out)))))"

text \<open>The vector of references is dropped with its last reference, here at the end.\<close>

definition z_subscription_get_infos ::
    "z_subscriber_kind_t \<Rightarrow> z_wireexpr_t \<Rightarrow> z_peer option \<Rightarrow> (z_string_t \<times> z_rc list, 'c, 'w) zprog" where
  "z_subscription_get_infos kind wireexpr peer =
     bind_ok (z_get_keyexpr_from_wireexpr wireexpr peer) (\<lambda>ke.
     then_do z_session_mutex_lock_if_open
       (bind_ok (unsafe_z_get_subscriptions_by_key kind ke (peer \<noteq> None)) (\<lambda>infos.
        then_do z_session_mutex_unlock (ret (ke, infos)))))"

text \<open>All but the last callback get a copy of the sample. A copy that cannot be made ends the loop.\<close>

fun call_subscriptions :: "('c, 'w) z_env \<Rightarrow> z_sample_t \<Rightarrow> z_rc list \<Rightarrow> (z_result_t, 'c, 'w) zprog" where
  "call_subscriptions env sample [] = ret Z_RES_OK"
| "call_subscriptions env sample [p] =
     bind_ok (on_subs (rc_read p)) (\<lambda>sub. then_do (ignore (env_sample env (su_callback sub) sample)) (ret Z_RES_OK))"
| "call_subscriptions env sample (p # q # ps) =
     bind_ok (on_subs (rc_read p)) (\<lambda>sub.
       case z_sample_copy sample of (r, sample_copy) \<Rightarrow>
         if r \<noteq> Z_RES_OK then ret r
         else then_do (ignore (env_sample env (su_callback sub) sample_copy)) (call_subscriptions env sample (q # ps)))"

definition z_trigger_subscriptions_impl ::
    "('c, 'w) z_env \<Rightarrow> z_subscriber_kind_t \<Rightarrow> z_wireexpr_t \<Rightarrow> z_bytes_t \<Rightarrow> z_encoding_t \<Rightarrow> z_sample_kind_t \<Rightarrow> z_timestamp_t \<Rightarrow>
     z_n_qos_t \<Rightarrow> z_bytes_t \<Rightarrow> z_reliability_t \<Rightarrow> z_source_info_t \<Rightarrow> z_peer option \<Rightarrow> (unit, 'c, 'w) zprog" where
  "z_trigger_subscriptions_impl env kind wireexpr payload encoding sample_kind timestamp qos attachment reliability source_info peer =
     bind_ok (z_subscription_get_infos kind wireexpr peer) (\<lambda>(ke, subs).
     bind_ok (call_subscriptions env (z_sample_steal_data ke payload timestamp encoding sample_kind qos attachment reliability source_info) subs) (\<lambda>r.
     then_do (each (sub_rc_drop env) subs) (return_code r ())))"

definition z_trigger_subscriptions_put ::
    "('c, 'w) z_env \<Rightarrow> z_wireexpr_t \<Rightarrow> z_bytes_t \<Rightarrow> z_encoding_t \<Rightarrow> z_timestamp_t \<Rightarrow> z_n_qos_t \<Rightarrow> z_bytes_t \<Rightarrow> z_reliability_t \<Rightarrow>
     z_source_info_t \<Rightarrow> z_peer option \<Rightarrow> (unit, 'c, 'w) zprog" where
  "z_trigger_subscriptions_put env wireexpr payload encoding timestamp qos attachment reliability source_info peer =
     z_trigger_subscriptions_impl env Z_SUBSCRIBER_KIND_SUBSCRIBER wireexpr payload encoding Z_SAMPLE_KIND_PUT timestamp qos
       attachment reliability source_info peer"

definition z_trigger_subscriptions_del ::
    "('c, 'w) z_env \<Rightarrow> z_wireexpr_t \<Rightarrow> z_timestamp_t \<Rightarrow> z_n_qos_t \<Rightarrow> z_bytes_t \<Rightarrow> z_reliability_t \<Rightarrow> z_source_info_t \<Rightarrow>
     z_peer option \<Rightarrow> (unit, 'c, 'w) zprog" where
  "z_trigger_subscriptions_del env wireexpr timestamp qos attachment reliability source_info peer =
     z_trigger_subscriptions_impl env Z_SUBSCRIBER_KIND_SUBSCRIBER wireexpr [] z_encoding_null Z_SAMPLE_KIND_DELETE timestamp qos
       attachment reliability source_info peer"

definition z_trigger_liveliness_subscriptions_declare ::
    "('c, 'w) z_env \<Rightarrow> z_wireexpr_t \<Rightarrow> z_timestamp_t \<Rightarrow> z_peer option \<Rightarrow> (unit, 'c, 'w) zprog" where
  "z_trigger_liveliness_subscriptions_declare env wireexpr timestamp peer =
     z_trigger_subscriptions_impl env Z_SUBSCRIBER_KIND_LIVELINESS_SUBSCRIBER wireexpr [] z_encoding_null Z_SAMPLE_KIND_PUT timestamp
       Z_N_QOS_DEFAULT [] Z_RELIABILITY_RELIABLE z_source_info_null peer"

text \<open>Without a peer: the subscriptions see a sample of the session itself.\<close>

definition z_trigger_liveliness_subscriptions_undeclare ::
    "('c, 'w) z_env \<Rightarrow> z_string_t \<Rightarrow> z_timestamp_t \<Rightarrow> (unit, 'c, 'w) zprog" where
  "z_trigger_liveliness_subscriptions_undeclare env keyexpr timestamp =
     z_trigger_subscriptions_impl env Z_SUBSCRIBER_KIND_LIVELINESS_SUBSCRIBER (z_keyexpr_alias_to_wire keyexpr) [] z_encoding_null
       Z_SAMPLE_KIND_DELETE timestamp Z_N_QOS_DEFAULT [] Z_RELIABILITY_RELIABLE z_source_info_null None"

definition z_unregister_subscription :: "('c, 'w) z_env \<Rightarrow> z_subscriber_kind_t \<Rightarrow> z_rc \<Rightarrow> (unit, 'c, 'w) zprog" where
  "z_unregister_subscription env kind sub =
     then_do z_session_mutex_lock
       (bind_ok (zget (\<lambda>zn. z_list_drop_filter (rc_eq sub) True (sub_list kind zn))) (\<lambda>(subs, dropped).
        then_do (each (sub_rc_drop env) dropped)
          (then_do (zmod (set_sub_list kind subs))
             (then_do z_session_mutex_unlock (sub_rc_drop env sub)))))"

definition z_flush_subscriptions :: "('c, 'w) z_env \<Rightarrow> (unit, 'c, 'w) zprog" where
  "z_flush_subscriptions env =
     then_do z_session_mutex_lock
       (bind_ok (zget zn_subscriptions) (\<lambda>subscriptions.
        bind_ok (zget zn_liveliness_subscriptions) (\<lambda>liveliness_subscriptions.
        then_do (zmod (\<lambda>zn. zn\<lparr>zn_subscriptions := [], zn_liveliness_subscriptions := []\<rparr>))
          (then_do z_session_mutex_unlock
             (then_do (each (sub_rc_drop env) subscriptions) (each (sub_rc_drop env) liveliness_subscriptions))))))"

section \<open>Push\<close>

text \<open>The body is a union: a del is read from where the decoder left a put.\<close>

definition z_trigger_push :: "('c, 'w) z_env \<Rightarrow> z_n_msg_push_t \<Rightarrow> z_reliability_t \<Rightarrow> z_peer option \<Rightarrow> (unit, 'c, 'w) zprog" where
  "z_trigger_push env push reliability peer =
     (if pb_is_put (pu_body push)
      then (let put = pb_put (pu_body push) in
            z_trigger_subscriptions_put env (pu_key push) (put_payload put) (put_encoding put) (pc_timestamp (put_commons put))
              (pu_qos push) (put_attachment put) reliability (pc_source_info (put_commons put)) peer)
      else (let d = put_as_del (pb_put (pu_body push)) in
            z_trigger_subscriptions_del env (pu_key push) (pc_timestamp (del_commons d)) (pu_qos push) (del_attachment d)
              reliability (pc_source_info (del_commons d)) peer))"

end
