(* ===== verification/Zp_SessQuery.thy ===== *)
theory Zp_SessQuery imports Zp_Subscription
begin

text \<open>
  The queries of a session that wait for replies: \<^verbatim>\<open>src/net/reply.c\<close>, \<^verbatim>\<open>src/session/query.c\<close> and
  \<^verbatim>\<open>src/session/reply.c\<close>. Replies are consolidated by key; the final replies of the peers end a query.
  A pointer to a pending query is the first entry with its number.
\<close>

section \<open>Replies\<close>

text \<open>A structure of zeros has the tag of data.\<close>

definition z_reply_null :: z_reply_t where
  "z_reply_null = \<lparr>re_result = Reply_Sample z_sample_null, re_replier_id = z_entity_global_id_null\<rparr>"

definition z_reply_data_clear :: "z_reply_t \<Rightarrow> z_reply_t" where
  "z_reply_data_clear reply = \<lparr>re_result = Reply_None, re_replier_id = z_entity_global_id_null\<rparr>"

definition z_reply_data_copy :: "z_reply_t \<Rightarrow> z_reply_t \<Rightarrow> z_result_t \<times> z_reply_t" where
  "z_reply_data_copy dst src = (case re_result src of
     Reply_Sample s \<Rightarrow> (case z_sample_copy s of (r, s') \<Rightarrow>
       if r \<noteq> Z_RES_OK then (r, dst) else (Z_RES_OK, \<lparr>re_result = Reply_Sample s', re_replier_id = re_replier_id src\<rparr>))
   | _ \<Rightarrow> (Z_RES_OK, src))"

definition z_reply_copy :: "z_reply_t \<Rightarrow> z_reply_t \<Rightarrow> z_result_t \<times> z_reply_t" where
  "z_reply_copy dst src = z_reply_data_copy dst src"

definition z_reply_steal_data ::
    "z_string_t \<Rightarrow> z_entity_global_id_t \<Rightarrow> z_bytes_t \<Rightarrow> z_timestamp_t \<Rightarrow> z_encoding_t \<Rightarrow> z_sample_kind_t \<Rightarrow> z_bytes_t \<Rightarrow>
     z_source_info_t \<Rightarrow> z_reply_t" where
  "z_reply_steal_data keyexpr replier_id payload timestamp encoding kind attachment source_info =
     \<lparr>re_result = Reply_Sample (z_sample_steal_data keyexpr payload timestamp encoding kind Z_N_QOS_DEFAULT attachment
        Z_RELIABILITY_DEFAULT source_info), re_replier_id = replier_id\<rparr>"

definition z_reply_err_steal_data :: "z_bytes_t \<Rightarrow> z_encoding_t \<Rightarrow> z_entity_global_id_t \<Rightarrow> z_reply_t" where
  "z_reply_err_steal_data payload encoding replier_id =
     \<lparr>re_result = Reply_Error \<lparr>val_payload = payload, val_encoding = encoding\<rparr>, re_replier_id = replier_id\<rparr>"

text \<open>The code, the reply that was moved, and what is left.\<close>

definition z_reply_move :: "z_reply_t \<Rightarrow> z_result_t \<times> z_reply_t \<times> z_reply_t" where
  "z_reply_move src = (case re_result src of
     Reply_Sample s \<Rightarrow> (case z_sample_move s of (r, s') \<Rightarrow>
       (r, src\<lparr>re_result := Reply_Sample s'\<rparr>, if r = Z_RES_OK then z_reply_null else src))
   | _ \<Rightarrow> (Z_RES_OK, src, z_reply_null))"

definition z_pending_reply_eq :: "z_pending_reply_t \<Rightarrow> z_pending_reply_t \<Rightarrow> bool" where
  "z_pending_reply_eq one two \<longleftrightarrow> ts_time (pr_tstamp one) = ts_time (pr_tstamp two)"

section \<open>Pending queries\<close>

definition Z_CONSOLIDATION_MODE_NONE :: z_consolidation_mode_t where "Z_CONSOLIDATION_MODE_NONE = 0"
definition Z_CONSOLIDATION_MODE_MONOTONIC :: z_consolidation_mode_t where "Z_CONSOLIDATION_MODE_MONOTONIC = 1"
definition Z_CONSOLIDATION_MODE_LATEST :: z_consolidation_mode_t where "Z_CONSOLIDATION_MODE_LATEST = 2"

text \<open>The key and the replies of a query that is cleared are freed; it is not used after that.\<close>

definition z_pending_query_clear :: "('c, 'w) z_env \<Rightarrow> 'c z_pending_query_t \<Rightarrow> (unit, 'c, 'w) zprog" where
  "z_pending_query_clear env pen_qry = drop_opt env (pq_dropper pen_qry)"

definition z_pending_query_eq :: "z_zint_t \<Rightarrow> 'c z_pending_query_t \<Rightarrow> bool" where
  "z_pending_query_eq i q \<longleftrightarrow> pq_id q = i"

definition z_pending_query_querier_eq :: "z_optional_id_t \<Rightarrow> 'c z_pending_query_t \<Rightarrow> bool" where
  "z_pending_query_querier_eq target q \<longleftrightarrow> oid_has_value target = oid_has_value (pq_querier_id q) \<and>
     oid_value target = oid_value (pq_querier_id q)"

text \<open>The platform's clock gives the time since a query was started.\<close>

definition z_pending_query_timeout :: "(u64 \<Rightarrow> u64) \<Rightarrow> 'c z_pending_query_t \<Rightarrow> bool" where
  "z_pending_query_timeout z_clock_elapsed_ms pq \<longleftrightarrow> pq_timeout pq \<le> z_clock_elapsed_ms (pq_start_time pq)"

definition drop_pending :: "('c, 'w) z_env \<Rightarrow> ('c z_pending_query_t \<Rightarrow> bool) \<Rightarrow> bool \<Rightarrow> (unit, 'c, 'w) zprog" where
  "drop_pending env P only_first =
     bind_ok (zget (\<lambda>zn. z_list_drop_filter P only_first (zn_pending_queries zn))) (\<lambda>(qs, dropped).
       then_do (each (z_pending_query_clear env) dropped) (zmod (\<lambda>zn. zn\<lparr>zn_pending_queries := qs\<rparr>)))"

definition z_pending_query_process_timeout :: "('c, 'w) z_env \<Rightarrow> (u64 \<Rightarrow> u64) \<Rightarrow> (unit, 'c, 'w) zprog" where
  "z_pending_query_process_timeout env z_clock_elapsed_ms =
     then_do z_session_mutex_lock
       (then_do (drop_pending env (z_pending_query_timeout z_clock_elapsed_ms) False) z_session_mutex_unlock)"

definition unsafe_get_pending_query_by_id :: "z_zint_t \<Rightarrow> ('c z_pending_query_t option, 'c, 'w) zprog" where
  "unsafe_get_pending_query_by_id i = zget (\<lambda>zn. z_list_find (z_pending_query_eq i) (zn_pending_queries zn))"

text \<open>Of the new entry only the number is set: \<open>mem\<close> is what its memory holds, which the caller fills.\<close>

definition unsafe_register_pending_query :: "'c z_pending_query_t \<Rightarrow> (z_zint_t, 'c, 'w) zprog" where
  "unsafe_register_pending_query mem zn =
     (let qid = zn_query_id zn in
      Ok qid (zn\<lparr>zn_query_id := qid + 1, zn_pending_queries := z_list_push (zn_pending_queries zn) (mem\<lparr>pq_id := qid\<rparr>)\<rparr>))"

definition set_pending :: "z_zint_t \<Rightarrow> ('c z_pending_query_t \<Rightarrow> 'c z_pending_query_t) \<Rightarrow> (unit, 'c, 'w) zprog" where
  "set_pending i f = zmod (\<lambda>zn. zn\<lparr>zn_pending_queries := update_first (z_pending_query_eq i) f (zn_pending_queries zn)\<rparr>)"

section \<open>Consolidation\<close>

text \<open>The sample is read out of the union whatever the reply is.\<close>

definition reply_keyexpr :: "z_reply_t \<Rightarrow> z_string_t option" where
  "reply_keyexpr r = (case re_result r of Reply_Sample s \<Rightarrow> Some (dke_inner (sa_keyexpr s)) | _ \<Rightarrow> None)"

fun pending_with_key :: "z_string_t \<Rightarrow> z_pending_reply_t list \<Rightarrow> z_pending_reply_t option option" where
  "pending_with_key key [] = Some None"
| "pending_with_key key (p # ps) = (case reply_keyexpr (pr_reply p) of None \<Rightarrow> None
     | Some k \<Rightarrow> if z_keyexpr_equals k key then Some (Some p) else pending_with_key key ps)"

text \<open>
  A reply that is not newer than what is stored for its key is dropped: it is not stored. What is stored
  of a reply is its key, or all of it, which leaves a null reply.
\<close>

definition stored_reply :: "z_consolidation_mode_t \<Rightarrow> z_reply_t \<Rightarrow> z_result_t \<times> z_reply_t \<times> z_reply_t" where
  "stored_reply mode reply =
     (if mode = Z_CONSOLIDATION_MODE_MONOTONIC
      then (case re_result reply of Reply_Sample s \<Rightarrow> (case z_declared_keyexpr_copy (sa_keyexpr s) of (r, k) \<Rightarrow>
              (r, z_reply_null\<lparr>re_result := Reply_Sample (z_sample_null\<lparr>sa_keyexpr := k\<rparr>)\<rparr>, reply))
            | _ \<Rightarrow> (Z_RES_OK, z_reply_null, reply))
      else z_reply_move reply)"

definition consolidate ::
    "z_consolidation_mode_t \<Rightarrow> z_timestamp_t \<Rightarrow> z_reply_t \<Rightarrow> z_pending_reply_t list \<Rightarrow>
     (z_result_t \<times> z_reply_t \<times> z_pending_reply_t list) option" where
  "consolidate mode ts reply ps =
     (case reply_keyexpr reply of None \<Rightarrow> None | Some key \<Rightarrow>
      (case pending_with_key key ps of None \<Rightarrow> None | Some found \<Rightarrow>
        (let (drop, ps) = (case found of None \<Rightarrow> (False, ps)
               | Some p \<Rightarrow> if ts_time ts \<le> ts_time (pr_tstamp p) then (True, ps)
                          else (False, fst (z_list_drop_filter (z_pending_reply_eq p) True ps)))
         in if drop then Some (Z_RES_OK, reply, ps)
            else (case stored_reply mode reply of (r, stored, reply) \<Rightarrow>
                    Some (r, reply, if r = Z_RES_OK then z_list_push ps \<lparr>pr_reply = stored, pr_tstamp = ts\<rparr> else ps)))))"

section \<open>Replies that arrive\<close>

text \<open>The callback is called without the lock, whatever was stored, except in the mode that keeps the latest.\<close>

definition query_concerned :: "'c z_pending_query_t \<Rightarrow> z_string_t \<Rightarrow> (bool, 's) prog" where
  "query_concerned q keyexpr = (if pq_anyke q then ret True else of_option (z_keyexpr_intersects (pq_key q) keyexpr))"

definition process_consolidation ::
    "'c z_pending_query_t \<Rightarrow> z_timestamp_t \<Rightarrow> z_reply_t \<Rightarrow> (z_result_t \<times> z_reply_t \<times> z_pending_reply_t list, 's) prog" where
  "process_consolidation q ts reply =
     (if pq_consolidation q = Z_CONSOLIDATION_MODE_LATEST \<or> pq_consolidation q = Z_CONSOLIDATION_MODE_MONOTONIC
      then of_option (consolidate (pq_consolidation q) ts reply (pq_pending_replies q))
      else ret (Z_RES_OK, reply, pq_pending_replies q))"

definition z_trigger_query_reply_partial_inner ::
    "('c, 'w) z_env \<Rightarrow> z_zint_t \<Rightarrow> z_string_t \<Rightarrow> z_msg_put_t \<Rightarrow> z_sample_kind_t \<Rightarrow> z_entity_global_id_t \<Rightarrow> (unit, 'c, 'w) zprog" where
  "z_trigger_query_reply_partial_inner env i keyexpr msg kind replier_id =
     then_do z_session_mutex_lock_if_open (bind_ok (unsafe_get_pending_query_by_id i) (\<lambda>found.
       case found of None \<Rightarrow> z_session_mutex_unlock
       | Some q \<Rightarrow> bind_ok (query_concerned q keyexpr) (\<lambda>hit.
           if \<not> hit then z_session_mutex_unlock
           else bind_ok (process_consolidation q (pc_timestamp (put_commons msg))
                  (z_reply_steal_data keyexpr replier_id (put_payload msg) (pc_timestamp (put_commons msg)) (put_encoding msg)
                     kind (put_attachment msg) (pc_source_info (put_commons msg)))) (\<lambda>(r, reply, ps).
             then_do (set_pending i (\<lambda>q. q\<lparr>pq_pending_replies := ps\<rparr>))
               (then_do z_session_mutex_unlock
                  (if r \<noteq> Z_RES_OK then fail r
                   else if pq_consolidation q \<noteq> Z_CONSOLIDATION_MODE_LATEST then ignore (env_reply env (pq_callback q) reply)
                   else ret ()))))))"

definition z_trigger_query_reply_partial ::
    "('c, 'w) z_env \<Rightarrow> z_zint_t \<Rightarrow> z_wireexpr_t \<Rightarrow> z_msg_put_t \<Rightarrow> z_sample_kind_t \<Rightarrow> z_entity_global_id_t \<Rightarrow> z_peer option \<Rightarrow>
     (unit, 'c, 'w) zprog" where
  "z_trigger_query_reply_partial env i wireexpr msg kind replier_id peer =
     bind_ok (z_get_keyexpr_from_wireexpr wireexpr peer) (\<lambda>keyexpr.
       z_trigger_query_reply_partial_inner env i keyexpr msg kind replier_id)"

definition z_trigger_query_reply_err ::
    "('c, 'w) z_env \<Rightarrow> z_zint_t \<Rightarrow> z_msg_err_t \<Rightarrow> z_entity_global_id_t \<Rightarrow> (unit, 'c, 'w) zprog" where
  "z_trigger_query_reply_err env i msg replier_id =
     then_do z_session_mutex_lock_if_open (bind_ok (unsafe_get_pending_query_by_id i) (\<lambda>found.
       then_do z_session_mutex_unlock
         (case found of None \<Rightarrow> ret ()
          | Some q \<Rightarrow> ignore (env_reply env (pq_callback q) (z_reply_err_steal_data (e_payload msg) (e_encoding msg) replier_id)))))"

text \<open>The stored replies are delivered, and the query is cleared, while the lock is held.\<close>

fun deliver_pending :: "('c, 'w) z_env \<Rightarrow> z_zint_t \<Rightarrow> 'c \<Rightarrow> z_pending_reply_t list \<Rightarrow> (unit, 'c, 'w) zprog" where
  "deliver_pending env i callback [] = ret ()"
| "deliver_pending env i callback (p # ps) =
     then_do (ignore (env_reply env callback (pr_reply p)))
       (then_do (set_pending i (\<lambda>q. q\<lparr>pq_pending_replies := ps\<rparr>)) (deliver_pending env i callback ps))"

definition z_trigger_query_reply_final :: "('c, 'w) z_env \<Rightarrow> z_zint_t \<Rightarrow> (unit, 'c, 'w) zprog" where
  "z_trigger_query_reply_final env i =
     then_do z_session_mutex_lock_if_open (bind_ok (unsafe_get_pending_query_by_id i) (\<lambda>found.
       case found of None \<Rightarrow> z_session_mutex_unlock
       | Some q \<Rightarrow>
         (let n = (if 0 < pq_remaining_finals q then pq_remaining_finals q - 1 else pq_remaining_finals q);
              do_finalize = (n = 0) in
          then_do (set_pending i (\<lambda>q. q\<lparr>pq_remaining_finals := n\<rparr>))
            (then_do (when_do (pq_consolidation q = Z_CONSOLIDATION_MODE_LATEST \<and> do_finalize)
                        (deliver_pending env i (pq_callback q) (pq_pending_replies q)))
              (then_do (when_do do_finalize (drop_pending env (z_pending_query_eq i) True)) z_session_mutex_unlock)))))"

definition z_unregister_pending_query :: "('c, 'w) z_env \<Rightarrow> z_zint_t \<Rightarrow> (unit, 'c, 'w) zprog" where
  "z_unregister_pending_query env qid =
     then_do z_session_mutex_lock (then_do (drop_pending env (z_pending_query_eq qid) True) z_session_mutex_unlock)"

definition z_unregister_pending_queries_from_querier :: "('c, 'w) z_env \<Rightarrow> u32 \<Rightarrow> (unit, 'c, 'w) zprog" where
  "z_unregister_pending_queries_from_querier env querier_id =
     then_do z_session_mutex_lock
       (then_do (drop_pending env (z_pending_query_querier_eq (z_optional_id_make_some querier_id)) False) z_session_mutex_unlock)"

definition z_flush_pending_queries :: "('c, 'w) z_env \<Rightarrow> (unit, 'c, 'w) zprog" where
  "z_flush_pending_queries env =
     then_do z_session_mutex_lock (bind_ok (zget zn_pending_queries) (\<lambda>queries.
       then_do (zmod (\<lambda>zn. zn\<lparr>zn_pending_queries := []\<rparr>))
         (then_do z_session_mutex_unlock (each (z_pending_query_clear env) queries))))"

section \<open>What the receiver calls\<close>

definition z_trigger_reply_partial ::
    "('c, 'w) z_env \<Rightarrow> z_zint_t \<Rightarrow> z_wireexpr_t \<Rightarrow> z_msg_reply_t \<Rightarrow> z_entity_global_id_t \<Rightarrow> z_peer option \<Rightarrow> (unit, 'c, 'w) zprog" where
  "z_trigger_reply_partial env i key reply replier_id peer =
     z_trigger_query_reply_partial env i key (pb_put (r_body reply))
       (if pb_is_put (r_body reply) then Z_SAMPLE_KIND_PUT else Z_SAMPLE_KIND_DELETE) replier_id peer"

definition z_trigger_reply_err :: "('c, 'w) z_env \<Rightarrow> z_zint_t \<Rightarrow> z_msg_err_t \<Rightarrow> z_entity_global_id_t \<Rightarrow> (unit, 'c, 'w) zprog" where
  "z_trigger_reply_err env i err replier_id = z_trigger_query_reply_err env i err replier_id"

definition z_trigger_reply_final :: "('c, 'w) z_env \<Rightarrow> z_n_msg_response_final_t \<Rightarrow> (unit, 'c, 'w) zprog" where
  "z_trigger_reply_final env final = ignore (z_trigger_query_reply_final env (rf_request_id final))"

end
