(* ===== verification/Zp_Str.thy ===== *)
theory Zp_Str imports Zp_KeCanon Zp_Query
begin

text \<open>
  Strings that are searched and split: \<^verbatim>\<open>src/utils/string.c\<close> and \<^verbatim>\<open>src/utils/query_params.c\<close>. A
  pointer is a position of the memory \<open>m\<close>; the needle and the delimiter are strings without their null
  character. Reading outside the memory is \<open>None\<close>, and so is a loop that does not end.
\<close>

section \<open>Searching\<close>

type_synonym z_str_se_t = "(nat \<times> nat) option"

definition z_bstrnew :: "byte list \<Rightarrow> nat \<Rightarrow> z_str_se_t option" where
  "z_bstrnew m start = do { e \<leftarrow> c_strchr m start 0; Some (map_option (\<lambda>e. (start, e)) e) }"

text \<open>The comparison of the needle from a position on, and back from its end.\<close>

fun needle_at :: "byte list \<Rightarrow> nat \<Rightarrow> byte list \<Rightarrow> bool option" where
  "needle_at m h [] = Some True"
| "needle_at m h (n # ns) = do { c \<leftarrow> rd m h; if n \<noteq> c then Some False else needle_at m (h + 1) ns }"

fun needle_back :: "byte list \<Rightarrow> nat \<Rightarrow> byte list \<Rightarrow> bool option" where
  "needle_back m h [] = Some True"
| "needle_back m h (n # ns) = (if h = 0 then None else do { c \<leftarrow> rd m (h - 1); if n \<noteq> c then Some False else needle_back m (h - 1) ns })"

function bstrstr_loop :: "byte list \<Rightarrow> nat \<Rightarrow> nat \<Rightarrow> byte list \<Rightarrow> nat option option" where
  "bstrstr_loop m hs he needle =
     (if hs + length needle \<le> he
      then do { found \<leftarrow> needle_at m hs needle; if found then Some (Some hs) else bstrstr_loop m (hs + 1) he needle }
      else Some None)"
  by pat_completeness auto
termination by (relation "measure (\<lambda>(m, hs, he, needle). Suc he - hs)") auto

declare bstrstr_loop.simps [simp del]

definition z_bstrstr :: "byte list \<Rightarrow> nat \<times> nat \<Rightarrow> byte list \<Rightarrow> nat option option" where
  "z_bstrstr m haystack needle = bstrstr_loop m (fst haystack) (snd haystack) needle"

definition z_strstr :: "byte list \<Rightarrow> nat \<Rightarrow> nat \<Rightarrow> byte list \<Rightarrow> nat option option" where
  "z_strstr m haystack_start haystack_end needle = z_bstrstr m (haystack_start, haystack_end) needle"

definition z_bstrstr_skipneedle :: "byte list \<Rightarrow> nat \<times> nat \<Rightarrow> byte list \<Rightarrow> nat option option" where
  "z_bstrstr_skipneedle m haystack needle = do { r \<leftarrow> z_bstrstr m haystack needle; Some (map_option (\<lambda>p. p + length needle) r) }"

definition z_strstr_skipneedle :: "byte list \<Rightarrow> nat \<Rightarrow> nat \<Rightarrow> byte list \<Rightarrow> nat option option" where
  "z_strstr_skipneedle m haystack_start haystack_end needle = z_bstrstr_skipneedle m (haystack_start, haystack_end) needle"

text \<open>The end of the last occurrence. The end moves down to the start of the memory at most.\<close>

fun rstrstr_loop :: "byte list \<Rightarrow> nat \<Rightarrow> nat \<Rightarrow> byte list \<Rightarrow> nat option option" where
  "rstrstr_loop m hs 0 needle = (if hs = 0 then do { found \<leftarrow> needle_back m 0 (rev needle); Some (if found then Some 0 else None) } else Some None)"
| "rstrstr_loop m hs (Suc he) needle =
     (if hs \<le> Suc he
      then do { found \<leftarrow> needle_back m (Suc he) (rev needle); if found then Some (Some (Suc he)) else rstrstr_loop m hs he needle }
      else Some None)"

definition z_rstrstr :: "byte list \<Rightarrow> nat \<Rightarrow> nat \<Rightarrow> byte list \<Rightarrow> nat option option" where
  "z_rstrstr m haystack_start haystack_end needle = rstrstr_loop m (haystack_start + length needle) haystack_end needle"

text \<open>\<^verbatim>\<open>memcmp\<close> reads all of both.\<close>

function memmem_loop :: "byte list \<Rightarrow> nat \<Rightarrow> nat \<Rightarrow> byte list \<Rightarrow> nat option option" where
  "memmem_loop m h h_end needle =
     (if h + length needle \<le> h_end
      then do { bs \<leftarrow> rd_range m h (length needle); if bs = needle then Some (Some h) else memmem_loop m (h + 1) h_end needle }
      else Some None)"
  by pat_completeness auto
termination by (relation "measure (\<lambda>(m, h, h_end, needle). Suc h_end - h)") auto

declare memmem_loop.simps [simp del]

definition z_memmem :: "byte list \<Rightarrow> nat \<Rightarrow> nat \<Rightarrow> byte list \<Rightarrow> nat option option" where
  "z_memmem m haystack haystack_len needle =
     (if haystack_len < length needle then Some None else memmem_loop m haystack (haystack + haystack_len) needle)"

text \<open>What is found is there.\<close>

lemma bstrstr_bounds: "bstrstr_loop m hs he needle = Some (Some p) \<Longrightarrow> hs \<le> p \<and> p + length needle \<le> he"
proof (induction m hs he needle rule: bstrstr_loop.induct)
  case (1 m hs he needle)
  from "1.prems" show ?case
    by (subst (asm) bstrstr_loop.simps) (auto split: if_splits Option.bind_splits dest: "1.IH")
qed

lemma memmem_bounds: "memmem_loop m h h_end needle = Some (Some p) \<Longrightarrow> h \<le> p \<and> p + length needle \<le> h_end"
proof (induction m h h_end needle rule: memmem_loop.induct)
  case (1 m h h_end needle)
  from "1.prems" show ?case
    by (subst (asm) memmem_loop.simps) (auto split: if_splits Option.bind_splits dest: "1.IH")
qed

lemma skipneedle_bounds: "z_strstr_skipneedle m hs he needle = Some (Some p) \<Longrightarrow> hs + length needle \<le> p \<and> p \<le> he"
  by (auto simp: z_strstr_skipneedle_def z_bstrstr_skipneedle_def z_bstrstr_def split: Option.bind_splits dest!: bstrstr_bounds)

text \<open>An empty needle is found again and again.\<close>

function strcnt_loop :: "byte list \<Rightarrow> nat \<Rightarrow> nat \<Rightarrow> byte list \<Rightarrow> nat \<Rightarrow> nat option" where
  "strcnt_loop m hs he needle result =
     (case z_strstr_skipneedle m hs he needle of
        None \<Rightarrow> None
      | Some None \<Rightarrow> Some (result + 1)
      | Some (Some hs') \<Rightarrow> if needle = [] then None else strcnt_loop m hs' he needle (result + 1))"
  by pat_completeness auto
termination
proof (relation "measure (\<lambda>(m, hs, he, needle, result). he - hs)", goal_cases)
  case (2 m hs he needle result x hs')
  then show ?case using skipneedle_bounds [of m hs he needle hs'] by (cases needle) auto
qed simp

declare strcnt_loop.simps [simp del]

definition z_strcnt :: "byte list \<Rightarrow> nat \<Rightarrow> nat \<Rightarrow> byte list \<Rightarrow> nat option" where
  "z_strcnt m haystack_start haystack_end needle = strcnt_loop m haystack_start haystack_end needle 0"

section \<open>Splitting\<close>

record z_splitstr_t =
  ss_s :: z_str_se_t
  ss_delimiter :: "byte list"

definition z_splitstr_is_empty :: "z_splitstr_t \<Rightarrow> bool" where
  "z_splitstr_is_empty src \<longleftrightarrow> ss_s src = None"

text \<open>The next piece and what is left of the string.\<close>

definition z_splitstr_next :: "byte list \<Rightarrow> z_splitstr_t \<Rightarrow> (z_str_se_t \<times> z_splitstr_t) option" where
  "z_splitstr_next m str = (case ss_s str of
     None \<Rightarrow> Some (None, str)
   | Some (s, e) \<Rightarrow> do { found \<leftarrow> z_strstr m s e (ss_delimiter str);
       let r = (case found of None \<Rightarrow> e | Some p \<Rightarrow> p);
       Some (Some (s, r), str\<lparr>ss_s := if r = e then None else Some (r + length (ss_delimiter str), e)\<rparr>) })"

definition z_splitstr_split_once :: "byte list \<Rightarrow> z_splitstr_t \<Rightarrow> (z_str_se_t \<times> z_str_se_t) option" where
  "z_splitstr_split_once m src = do { (r, src) \<leftarrow> z_splitstr_next m src; Some (ss_s src, r) }"

definition z_splitstr_nextback :: "byte list \<Rightarrow> z_splitstr_t \<Rightarrow> (z_str_se_t \<times> z_splitstr_t) option" where
  "z_splitstr_nextback m str = (case ss_s str of
     None \<Rightarrow> Some (None, str)
   | Some (s, e) \<Rightarrow> do { found \<leftarrow> z_rstrstr m s e (ss_delimiter str);
       let r = (case found of None \<Rightarrow> s | Some p \<Rightarrow> p);
       Some (Some (r, e), str\<lparr>ss_s := if r = s then None else Some (s, r - length (ss_delimiter str))\<rparr>) })"

section \<open>Numbers\<close>

definition UINT32_TENTH :: u32 where "UINT32_TENTH = 429496729"
definition UINT32_REST :: u32 where "UINT32_REST = 5"

fun atoui_loop :: "byte list \<Rightarrow> u32 \<Rightarrow> u32 option" where
  "atoui_loop [] v = Some v"
| "atoui_loop (c # cs) v =
     (if c < 0x30 \<or> 0x39 < c then None
      else let digit = ucast (c - 0x30) in
        if UINT32_TENTH < v \<or> v = UINT32_TENTH \<and> UINT32_REST < digit then None
        else atoui_loop cs (v * 10 + digit))"

text \<open>The number, when the string is one. The characters of the segment are \<open>str\<close>.\<close>

definition z_str_se_atoui :: "byte list \<Rightarrow> u32 option" where
  "z_str_se_atoui str = (if length str = 0 \<or> 10 < length str then None else atoui_loop str 0)"

section \<open>Parameters of a query\<close>

definition Z_QUERY_PARAMS_FIELD_SEPARATOR :: "byte list" where "Z_QUERY_PARAMS_FIELD_SEPARATOR = [0x3d]"

record z_query_param_t =
  qp_key :: z_str_se_t
  qp_value :: z_str_se_t

definition nonempty_se :: "z_str_se_t \<Rightarrow> z_str_se_t" where
  "nonempty_se s = (case s of None \<Rightarrow> None | Some (a, b) \<Rightarrow> if a < b then Some (a, b) else None)"

definition z_query_params_next :: "byte list \<Rightarrow> z_str_se_t \<Rightarrow> (z_query_param_t \<times> z_str_se_t) option" where
  "z_query_params_next m str = do {
     (param, params) \<leftarrow> z_splitstr_next m \<lparr>ss_s = str, ss_delimiter = Z_QUERY_PARAMS_LIST_SEPARATOR\<rparr>;
     if param = None then Some (\<lparr>qp_key = None, qp_value = None\<rparr>, ss_s params)
     else do {
       (key, kvpair) \<leftarrow> z_splitstr_next m \<lparr>ss_s = param, ss_delimiter = Z_QUERY_PARAMS_FIELD_SEPARATOR\<rparr>;
       Some (\<lparr>qp_key = nonempty_se key, qp_value = if nonempty_se key = None then None else nonempty_se (ss_s kvpair)\<rparr>, ss_s params) } }"

function anyke_loop :: "byte list \<Rightarrow> nat \<Rightarrow> nat \<Rightarrow> bool option" where
  "anyke_loop m start e =
     do { found \<leftarrow> z_memmem m start (e - start) Z_QUERY_PARAMS_KEY_ANYKE;
          case found of None \<Rightarrow> Some False
          | Some pos \<Rightarrow>
              do { left_ok \<leftarrow> (if pos = 0 then Some True else map_option (\<lambda>c. [c] = Z_QUERY_PARAMS_LIST_SEPARATOR) (rd m (pos - 1)));
                   right_ok \<leftarrow> (if pos + length Z_QUERY_PARAMS_KEY_ANYKE = e then Some True
                                else map_option (\<lambda>c. [c] = Z_QUERY_PARAMS_LIST_SEPARATOR) (rd m (pos + length Z_QUERY_PARAMS_KEY_ANYKE)));
                   if left_ok \<and> right_ok then Some True
                   else if e < pos + length Z_QUERY_PARAMS_KEY_ANYKE + 1 then Some False
                   else anyke_loop m (pos + length Z_QUERY_PARAMS_KEY_ANYKE + 1) e } }"
  by pat_completeness auto
termination
proof (relation "measure (\<lambda>(m, start, e). e - start)", goal_cases)
  case (2 m start e x pos xa xb)
  then show ?case using memmem_bounds [of m start "start + (e - start)" Z_QUERY_PARAMS_KEY_ANYKE pos]
    by (auto simp: z_memmem_def split: if_splits)
qed simp

declare anyke_loop.simps [simp del]

text \<open>The parameters are the whole of their memory.\<close>

definition z_parameters_has_anyke :: "byte list \<Rightarrow> bool option" where
  "z_parameters_has_anyke parameters = (if parameters = [] then Some False else anyke_loop parameters 0 (length parameters))"

section \<open>Laws\<close>

lemma needle_at_ok: "h + length n \<le> length m \<Longrightarrow> needle_at m h n = Some (take (length n) (drop h m) = n)"
proof (induction n arbitrary: h)
  case (Cons a n)
  then have "rd m h = Some (m ! h)" "drop h m = m ! h # drop (Suc h) m" by (simp_all add: rd_def Cons_nth_drop_Suc)
  then show ?case using Cons.IH [of "Suc h"] Cons.prems by auto
qed simp

lemma find_upt_Cons: "a < b \<Longrightarrow> List.find P [a ..< b] = (if P a then Some a else List.find P [Suc a ..< b])"
  by (simp add: upt_rec [of a b])

text \<open>The first position at which the needle is.\<close>

lemma bstrstr_ok:
  "he \<le> length m \<Longrightarrow> bstrstr_loop m hs he n =
    Some (List.find (\<lambda>p. take (length n) (drop p m) = n) [hs ..< Suc he - length n])"
proof (induction m hs he n rule: bstrstr_loop.induct)
  case (1 m hs he n)
  show ?case
  proof (cases "hs + length n \<le> he")
    case True
    have at: "needle_at m hs n = Some (take (length n) (drop hs m) = n)" using True "1.prems" by (intro needle_at_ok) simp
    show ?thesis
    proof (cases "take (length n) (drop hs m) = n")
      case t: True
      then show ?thesis using True at by (subst bstrstr_loop.simps) (simp add: find_upt_Cons)
    next
      case False
      have "bstrstr_loop m (hs + 1) he n = Some (List.find (\<lambda>p. take (length n) (drop p m) = n) [hs + 1 ..< Suc he - length n])"
        using "1.IH" [OF True, of False] at False "1.prems" by simp
      then show ?thesis using True at False by (subst bstrstr_loop.simps) (simp add: find_upt_Cons)
    qed
  next
    case False
    then show ?thesis by (subst bstrstr_loop.simps) simp
  qed
qed

lemma memmem_ok:
  "he \<le> length m \<Longrightarrow> memmem_loop m hs he n =
    Some (List.find (\<lambda>p. take (length n) (drop p m) = n) [hs ..< Suc he - length n])"
proof (induction m hs he n rule: memmem_loop.induct)
  case (1 m hs he n)
  show ?case
  proof (cases "hs + length n \<le> he")
    case True
    have at: "rd_range m hs (length n) = Some (take (length n) (drop hs m))" using True "1.prems" by (simp add: rd_range_def)
    show ?thesis
    proof (cases "take (length n) (drop hs m) = n")
      case t: True
      then show ?thesis using True at by (subst memmem_loop.simps) (simp add: find_upt_Cons)
    next
      case False
      have "memmem_loop m (hs + 1) he n = Some (List.find (\<lambda>p. take (length n) (drop p m) = n) [hs + 1 ..< Suc he - length n])"
        using "1.IH" [OF True at False] "1.prems" by simp
      then show ?thesis using True at False by (subst memmem_loop.simps) (simp add: find_upt_Cons)
    qed
  next
    case False
    then show ?thesis by (subst memmem_loop.simps) simp
  qed
qed

text \<open>What is between the delimiters.\<close>

fun split_on :: "'a \<Rightarrow> 'a list \<Rightarrow> 'a list list" where
  "split_on d [] = [[]]"
| "split_on d (x # xs) = (if x = d then [] # split_on d xs else (x # hd (split_on d xs)) # tl (split_on d xs))"

lemma split_on_not_Nil [simp]: "split_on d xs \<noteq> []"
  by (cases xs) simp_all

lemma split_on_append: "d \<notin> set as \<Longrightarrow> split_on d (as @ xs) = (as @ hd (split_on d xs)) # tl (split_on d xs)"
  by (induction as) (auto simp: hd_Cons_tl)

lemma split_on_none: "d \<notin> set as \<Longrightarrow> split_on d as = [as]"
  using split_on_append [of d as "[]"] by simp

lemma split_on_sep: "d \<notin> set as \<Longrightarrow> split_on d (as @ d # xs) = as # split_on d xs"
  by (simp add: split_on_append)

definition piece :: "byte list \<Rightarrow> nat \<times> nat \<Rightarrow> byte list" where
  "piece m s = take (snd s - fst s) (drop (fst s) m)"

text \<open>All pieces of a string, by asking for the next one until there is none.\<close>

fun pieces :: "nat \<Rightarrow> byte list \<Rightarrow> z_splitstr_t \<Rightarrow> byte list list option" where
  "pieces 0 m str = Some []"
| "pieces (Suc n) m str = do { (p, str) \<leftarrow> z_splitstr_next m str;
     case p of None \<Rightarrow> Some [] | Some p \<Rightarrow> do { ps \<leftarrow> pieces n m str; Some (piece m p # ps) } }"

lemma find_char:
  assumes "hs \<le> he" "he \<le> length m"
  shows "List.find (\<lambda>p. take (length [d]) (drop p m) = [d]) [hs ..< he] =
    (let k = length (takeWhile (\<lambda>c. c \<noteq> d) (piece m (hs, he))) in if hs + k < he then Some (hs + k) else None)"
  using assms
proof (induction "he - hs" arbitrary: hs)
  case 0
  then show ?case by (simp add: piece_def)
next
  case (Suc n)
  then have lt: "hs < he" "hs < length m" by auto
  have d: "drop hs m = m ! hs # drop (Suc hs) m" using lt by (simp add: Cons_nth_drop_Suc)
  have p: "piece m (hs, he) = m ! hs # piece m (Suc hs, he)" using lt d by (simp add: piece_def take_Cons' Suc_diff_Suc [symmetric])
  have ih: "List.find (\<lambda>p. take (length [d]) (drop p m) = [d]) [Suc hs ..< he] =
    (let k = length (takeWhile (\<lambda>c. c \<noteq> d) (piece m (Suc hs, he))) in if Suc hs + k < he then Some (Suc hs + k) else None)"
    using Suc lt by (intro Suc.hyps(1)) simp_all
  show ?case using lt ih d p by (simp add: find_upt_Cons Let_def)
qed

lemma piece_split:
  assumes "hs \<le> he" "he \<le> length m" "k = length (takeWhile (\<lambda>c. c \<noteq> d) (piece m (hs, he)))" "hs + k < he"
  shows "piece m (hs, he) = piece m (hs, hs + k) @ d # piece m (hs + k + 1, he)" "d \<notin> set (piece m (hs, hs + k))"
proof -
  let ?p = "piece m (hs, he)"
  have len: "length ?p = he - hs" using assms(1,2) by (simp add: piece_def)
  have k: "k < length ?p" using assms(4) len by simp
  have t: "take k ?p = takeWhile (\<lambda>c. c \<noteq> d) ?p" using assms(3) by (simp add: takeWhile_eq_take [symmetric])
  have nth: "?p ! k = d" using nth_length_takeWhile [of "\<lambda>c. c \<noteq> d" ?p] assms(3) k by simp
  have "?p = take k ?p @ ?p ! k # drop (Suc k) ?p" using k by (simp add: id_take_nth_drop)
  moreover have tk: "take k ?p = piece m (hs, hs + k)" using assms(4) by (simp add: piece_def min_def)
  moreover have "drop (Suc k) ?p = piece m (hs + k + 1, he)" by (simp add: piece_def drop_take add.commute)
  ultimately show "?p = piece m (hs, hs + k) @ d # piece m (hs + k + 1, he)" using nth by simp
  have "d \<notin> set (take k ?p)" using set_takeWhileD [of d "\<lambda>c. c \<noteq> d" ?p] by (auto simp: t)
  then show "d \<notin> set (piece m (hs, hs + k))" using tk by simp
qed

lemma pieces_ok:
  "s \<le> e \<Longrightarrow> e \<le> length m \<Longrightarrow> e - s < n \<Longrightarrow>
   pieces (Suc n) m \<lparr>ss_s = Some (s, e), ss_delimiter = [d]\<rparr> = Some (split_on d (piece m (s, e)))"
proof (induction n arbitrary: s)
  case (Suc n)
  let ?k = "length (takeWhile (\<lambda>c. c \<noteq> d) (piece m (s, e)))"
  have find: "z_strstr m s e [d] = Some (if s + ?k < e then Some (s + ?k) else None)"
    using Suc.prems bstrstr_ok [of e m s "[d]"] find_char [of s e m d] by (simp add: z_strstr_def z_bstrstr_def Let_def)
  show ?case
  proof (cases "s + ?k < e")
    case True
    have "pieces (Suc n) m \<lparr>ss_s = Some (s + ?k + 1, e), ss_delimiter = [d]\<rparr> = Some (split_on d (piece m (s + ?k + 1, e)))"
      using Suc.prems True by (intro Suc.IH) simp_all
    moreover have "split_on d (piece m (s, e)) = piece m (s, s + ?k) # split_on d (piece m (s + ?k + 1, e))"
      using piece_split [OF Suc.prems(1,2) refl True] split_on_sep by metis
    ultimately show ?thesis using True find
      by (subst pieces.simps) (simp add: z_splitstr_next_def Let_def del: pieces.simps)
  next
    case False
    have "length (piece m (s, e)) = e - s" using Suc.prems by (simp add: piece_def)
    then have "takeWhile (\<lambda>c. c \<noteq> d) (piece m (s, e)) = piece m (s, e)"
      using False Suc.prems length_takeWhile_le [of "\<lambda>c. c \<noteq> d" "piece m (s, e)"]
      by (metis (no_types, lifting) add_diff_inverse_nat le_antisym less_diff_conv2 linorder_not_less nat_add_left_cancel_le takeWhile_eq_take take_all_iff)
    then have "d \<notin> set (piece m (s, e))" by (metis (mono_tags, lifting) takeWhile_eq_all_conv)
    then show ?thesis using False find
      by (simp add: z_splitstr_next_def Let_def split_on_none)
  qed
qed simp

text \<open>What is a piece: it has no delimiter, and one, or an end of the string, on each side.\<close>

lemma first_delim: "as @ d # xs = bs @ d # ys \<Longrightarrow> d \<notin> set as \<Longrightarrow> d \<notin> set bs \<Longrightarrow> as = bs \<and> xs = ys"
proof (induction as arbitrary: bs)
  case Nil
  then show ?case by (cases bs) auto
next
  case (Cons a as)
  then show ?case by (cases bs) auto
qed

lemma in_split_on:
  "c \<in> set (split_on d xs) \<longleftrightarrow> d \<notin> set c \<and> (\<exists>as bs. xs = as @ c @ bs \<and> (as = [] \<or> last as = d) \<and> (bs = [] \<or> hd bs = d))"
proof (induction "length xs" arbitrary: xs rule: less_induct)
  case less
  show ?case
  proof (cases "d \<in> set xs")
    case False
    show ?thesis
    proof
      assume "c \<in> set (split_on d xs)"
      then have "c = xs" using False by (simp add: split_on_none)
      then show "d \<notin> set c \<and> (\<exists>as bs. xs = as @ c @ bs \<and> (as = [] \<or> last as = d) \<and> (bs = [] \<or> hd bs = d))"
        using False by (intro conjI exI [of _ "[]"]) simp_all
    next
      assume "d \<notin> set c \<and> (\<exists>as bs. xs = as @ c @ bs \<and> (as = [] \<or> last as = d) \<and> (bs = [] \<or> hd bs = d))"
      then obtain as bs where b: "xs = as @ c @ bs" "as = [] \<or> last as = d" "bs = [] \<or> hd bs = d" by blast
      then have "as = []" using False by (cases as rule: rev_cases) auto
      moreover have "bs = []" using b False by (cases bs) auto
      ultimately have "as = []" "bs = []" .
      then show "c \<in> set (split_on d xs)" using b(1) False by (simp add: split_on_none)
    qed
  next
    case True
    then obtain ys zs where xs: "xs = ys @ d # zs" "d \<notin> set ys" by (meson split_list_first)
    then have ih: "c \<in> set (split_on d zs) \<longleftrightarrow> d \<notin> set c \<and> (\<exists>as bs. zs = as @ c @ bs \<and> (as = [] \<or> last as = d) \<and> (bs = [] \<or> hd bs = d))"
      by (intro less) simp
    have s: "split_on d xs = ys # split_on d zs" using xs by (simp add: split_on_sep)
    show ?thesis
    proof
      assume "c \<in> set (split_on d xs)"
      then consider "c = ys" | "c \<in> set (split_on d zs)" using s by auto
      then show "d \<notin> set c \<and> (\<exists>as bs. xs = as @ c @ bs \<and> (as = [] \<or> last as = d) \<and> (bs = [] \<or> hd bs = d))"
      proof cases
        case 1
        then show ?thesis using xs by (intro conjI exI [of _ "[]"] exI [of _ "d # zs"]) simp_all
      next
        case 2
        then obtain as bs where "zs = as @ c @ bs" "as = [] \<or> last as = d" "bs = [] \<or> hd bs = d" "d \<notin> set c" using ih by blast
        then show ?thesis using xs(1) by (intro conjI exI [of _ "ys @ d # as"] exI [of _ bs]) auto
      qed
    next
      assume "d \<notin> set c \<and> (\<exists>as bs. xs = as @ c @ bs \<and> (as = [] \<or> last as = d) \<and> (bs = [] \<or> hd bs = d))"
      then obtain as bs where b: "xs = as @ c @ bs" "as = [] \<or> last as = d" "bs = [] \<or> hd bs = d" and c: "d \<notin> set c" by blast
      show "c \<in> set (split_on d xs)"
      proof (cases "as = []")
        case True
        then have "c @ bs = ys @ d # zs" using b(1) xs(1) by simp
        moreover have "bs \<noteq> []" using True b(1) xs(1) c by auto
        then obtain bs' where "bs = d # bs'" using b(3) by (cases bs) auto
        ultimately have "c = ys" using first_delim [of c d bs' ys zs] c xs(2) by simp
        then show ?thesis using s by simp
      next
        case False
        then obtain as' where as: "as = as' @ [d]" using b(2) by (metis append_butlast_last_id)
        then have "d \<in> set as" by simp
        then obtain as1 as2 where as12: "as = as1 @ d # as2" "d \<notin> set as1" by (meson split_list_first)
        have "as1 @ d # (as2 @ c @ bs) = ys @ d # zs" using b(1) xs(1) as12(1) by simp
        then have z: "zs = as2 @ c @ bs" using first_delim [of as1 d "as2 @ c @ bs" ys zs] as12(2) xs(2) by simp
        have "as2 = [] \<or> last as2 = d" using as as12(1) by (cases as2 rule: rev_cases) auto
        then show ?thesis using z b(3) c ih s by auto
      qed
    qed
  qed
qed

definition anyke_at :: "byte list \<Rightarrow> nat \<Rightarrow> bool" where
  "anyke_at m p \<longleftrightarrow> take 6 (drop p m) = Z_QUERY_PARAMS_KEY_ANYKE \<and> (p = 0 \<or> m ! (p - 1) = 0x3b) \<and> (p + 6 = length m \<or> m ! (p + 6) = 0x3b)"

lemma anyke_length: "length Z_QUERY_PARAMS_KEY_ANYKE = 6"
  by (simp add: Z_QUERY_PARAMS_KEY_ANYKE_def)

lemma anyke_nth:
  assumes "take 6 (drop p m) = Z_QUERY_PARAMS_KEY_ANYKE"
  shows "p + 6 \<le> length m" "i < 6 \<Longrightarrow> m ! (p + i) = Z_QUERY_PARAMS_KEY_ANYKE ! i"
proof -
  have "length (take 6 (drop p m)) = 6" using assms anyke_length by simp
  then show l: "p + 6 \<le> length m" by simp
  show "m ! (p + i) = Z_QUERY_PARAMS_KEY_ANYKE ! i" if "i < 6"
    using l that by (simp add: assms [symmetric])
qed

text \<open>The word does not begin within itself, nor directly behind itself as an element of the list.\<close>

lemma anyke_apart:
  assumes "take 6 (drop p m) = Z_QUERY_PARAMS_KEY_ANYKE" "anyke_at m q" "p < q"
  shows "p + 7 \<le> q"
proof (rule ccontr)
  assume "\<not> p + 7 \<le> q"
  then have "q = p + 1 \<or> q = p + 2 \<or> q = p + 3 \<or> q = p + 4 \<or> q = p + 5 \<or> q = p + 6" using assms(3) by arith
  moreover have "m ! (5 + p) = 0x65" using anyke_nth(2) [OF assms(1), of 5] by (simp add: Z_QUERY_PARAMS_KEY_ANYKE_def add.commute)
  ultimately show False
    using anyke_nth(2) [OF assms(1), of 1] anyke_nth(2) [OF assms(1), of 2] anyke_nth(2) [OF assms(1), of 3]
      anyke_nth(2) [OF assms(1), of 4] anyke_nth(2) [OF assms(1), of 5] anyke_nth(2) [OF conjunct1 [OF assms(2) [unfolded anyke_at_def]], of 0] assms(2) [unfolded anyke_at_def]
    by (elim disjE) (simp_all add: Z_QUERY_PARAMS_KEY_ANYKE_def)
qed

lemma find_first: "List.find P [a ..< b] = Some p \<longleftrightarrow> a \<le> p \<and> p < b \<and> P p \<and> (\<forall>q. a \<le> q \<and> q < p \<longrightarrow> \<not> P q)"
proof (induction "b - a" arbitrary: a)
  case (Suc n)
  then have "a < b" by simp
  then show ?case using Suc(1) [of "Suc a"] Suc(2)
    by (auto simp: find_upt_Cons Suc_le_eq order_less_le)
qed auto

lemma anyke_step:
  assumes "z_memmem m start (length m - start) Z_QUERY_PARAMS_KEY_ANYKE = Some (Some pos)"
    and "take 6 (drop pos m) = Z_QUERY_PARAMS_KEY_ANYKE" "pos + 6 \<le> length m"
  shows "anyke_loop m start (length m) =
    (if anyke_at m pos then Some True else if length m < pos + 7 then Some False else anyke_loop m (pos + 7) (length m))"
proof -
  have at: "anyke_at m pos \<longleftrightarrow> (pos = 0 \<or> m ! (pos - 1) = 0x3b) \<and> (pos + 6 = length m \<or> m ! (pos + 6) = 0x3b)"
    using assms(2) by (simp add: anyke_at_def)
  have l: "rd m (pos - 1) = Some (m ! (pos - 1))" using assms(3) by (auto simp: rd_def)
  have r: "pos + 6 \<noteq> length m \<Longrightarrow> rd m (pos + 6) = Some (m ! (pos + 6))" using assms(3) by (simp add: rd_def)
  have "pos + 6 + 1 = pos + 7" by simp
  then show ?thesis using l r unfolding at
    by (subst anyke_loop.simps, subst assms(1))
      (cases "pos = 0"; cases "pos + 6 = length m"; simp add: anyke_length Z_QUERY_PARAMS_LIST_SEPARATOR_def add.commute [of 7] del: One_nat_def)
qed

lemma anyke_loop_ok:
  "start \<le> length m \<Longrightarrow> anyke_loop m start (length m) = Some (\<exists>p \<ge> start. anyke_at m p)"
proof (induction "length m - start" arbitrary: start rule: less_induct)
  case less
  let ?P = "\<lambda>p. take (length Z_QUERY_PARAMS_KEY_ANYKE) (drop p m) = Z_QUERY_PARAMS_KEY_ANYKE"
  have mem: "z_memmem m start (length m - start) Z_QUERY_PARAMS_KEY_ANYKE = Some (List.find ?P [start ..< Suc (length m) - length Z_QUERY_PARAMS_KEY_ANYKE])"
    using less.prems memmem_ok [of "length m" m start Z_QUERY_PARAMS_KEY_ANYKE] by (auto simp: z_memmem_def anyke_length)
  have in_m: "p + 6 \<le> length m" if "anyke_at m p" for p using that anyke_nth(1) [of p m] by (simp add: anyke_at_def)
  show ?case
  proof (cases "List.find ?P [start ..< Suc (length m) - length Z_QUERY_PARAMS_KEY_ANYKE]")
    case None
    have "\<not> anyke_at m p" if "start \<le> p" for p
    proof
      assume p: "anyke_at m p"
      then have "p \<in> set [start ..< Suc (length m) - length Z_QUERY_PARAMS_KEY_ANYKE]" using that in_m [of p] by (auto simp: anyke_length)
      then show False using None p unfolding find_None_iff anyke_length anyke_at_def by blast
    qed
    then have "(\<exists>p \<ge> start. anyke_at m p) \<longleftrightarrow> False" by blast
    then show ?thesis using mem None by (subst anyke_loop.simps) simp
  next
    case (Some pos)
    then have pos: "start \<le> pos" "pos + 6 \<le> length m" "take 6 (drop pos m) = Z_QUERY_PARAMS_KEY_ANYKE"
      "\<And>q. start \<le> q \<Longrightarrow> q < pos \<Longrightarrow> \<not> anyke_at m q"
      unfolding find_first anyke_length anyke_at_def by auto
    have step: "anyke_loop m start (length m) =
        (if anyke_at m pos then Some True else if length m < pos + 7 then Some False else anyke_loop m (pos + 7) (length m))"
      using mem Some pos(2,3) by (intro anyke_step) simp_all
    show ?thesis
    proof (cases "anyke_at m pos")
      case True
      then have "\<exists>p \<ge> start. anyke_at m p" using pos(1) by blast
      then show ?thesis using step True by simp
    next
      case False
      have rest: "(\<exists>p \<ge> start. anyke_at m p) \<longleftrightarrow> (\<exists>p \<ge> pos + 7. anyke_at m p)"
      proof
        assume "\<exists>p \<ge> start. anyke_at m p"
        then obtain p where p: "start \<le> p" "anyke_at m p" by blast
        then have "p \<noteq> pos" "\<not> p < pos" using pos(4) False by blast+
        then have "pos < p" by simp
        then show "\<exists>p \<ge> pos + 7. anyke_at m p" using anyke_apart [OF pos(3) p(2)] p(2) by blast
      next
        assume "\<exists>p \<ge> pos + 7. anyke_at m p"
        then show "\<exists>p \<ge> start. anyke_at m p" using pos(1) by (meson le_trans le_add1)
      qed
      show ?thesis
      proof (cases "length m < pos + 7")
        case True
        then have "\<not> anyke_at m p" if "pos + 7 \<le> p" for p using that in_m [of p] by auto
        then have "(\<exists>p \<ge> pos + 7. anyke_at m p) \<longleftrightarrow> False" by blast
        then show ?thesis using False True rest step by simp
      next
        case go: False
        have "anyke_loop m (pos + 7) (length m) = Some (\<exists>p \<ge> pos + 7. anyke_at m p)"
          using pos(1) go by (intro less.hyps) simp_all
        then show ?thesis using False go rest step by simp
      qed
    qed
  qed
qed

text \<open>The function says whether the word is one of the elements of the list.\<close>

lemma has_anyke_ok: "z_parameters_has_anyke ps = Some (Z_QUERY_PARAMS_KEY_ANYKE \<in> set (split_on 0x3b ps))"
proof -
  let ?K = Z_QUERY_PARAMS_KEY_ANYKE
  have d: "0x3b \<notin> set ?K" by (simp add: Z_QUERY_PARAMS_KEY_ANYKE_def)
  have "(\<exists>p. anyke_at ps p) \<longleftrightarrow> (\<exists>as bs. ps = as @ ?K @ bs \<and> (as = [] \<or> last as = 0x3b) \<and> (bs = [] \<or> hd bs = 0x3b))"
  proof
    assume "\<exists>p. anyke_at ps p"
    then obtain p where "anyke_at ps p" by blast
    note p = this [unfolded anyke_at_def]
    then have l: "p + 6 \<le> length ps" using anyke_nth(1) by blast
    have "ps = take p ps @ ?K @ drop (p + 6) ps" using p
      by (metis (no_types, lifting) add.commute append_take_drop_id drop_drop)
    moreover have "take p ps = [] \<or> last (take p ps) = 0x3b"
    proof (cases "p = 0")
      case False
      then have "take p ps \<noteq> []" using l by auto
      then show ?thesis using False p l by (simp add: last_conv_nth)
    qed simp
    moreover have "drop (p + 6) ps = [] \<or> hd (drop (p + 6) ps) = 0x3b" using p l by (cases "p + 6 = length ps") (simp_all add: hd_drop_conv_nth)
    ultimately show "\<exists>as bs. ps = as @ ?K @ bs \<and> (as = [] \<or> last as = 0x3b) \<and> (bs = [] \<or> hd bs = 0x3b)" by blast
  next
    assume "\<exists>as bs. ps = as @ ?K @ bs \<and> (as = [] \<or> last as = 0x3b) \<and> (bs = [] \<or> hd bs = 0x3b)"
    then obtain as bs where b: "ps = as @ ?K @ bs" "as = [] \<or> last as = 0x3b" "bs = [] \<or> hd bs = 0x3b" by blast
    have "anyke_at ps (length as)" unfolding anyke_at_def using b by (cases as rule: rev_cases; cases bs) (auto simp: anyke_length nth_append)
    then show "\<exists>p. anyke_at ps p" by blast
  qed
  then have "(\<exists>p \<ge> 0. anyke_at ps p) \<longleftrightarrow> ?K \<in> set (split_on 0x3b ps)" using d by (simp add: in_split_on)
  then show ?thesis using anyke_loop_ok [of 0 ps]
    by (cases "ps = []") (simp_all add: z_parameters_has_anyke_def Z_QUERY_PARAMS_KEY_ANYKE_def)
qed

text \<open>The number that a string of digits is.\<close>

definition is_digit :: "byte \<Rightarrow> bool" where
  "is_digit c \<longleftrightarrow> 0x30 \<le> c \<and> c \<le> 0x39"

definition decimal :: "nat \<Rightarrow> byte list \<Rightarrow> nat" where
  "decimal n cs = foldl (\<lambda>n c. 10 * n + (unat c - 48)) n cs"

lemma decimal_simps [simp]: "decimal n [] = n" "decimal n (c # cs) = decimal (10 * n + (unat c - 48)) cs"
  by (simp_all add: decimal_def)

lemma decimal_mono: "n \<le> decimal n cs"
proof (induction cs arbitrary: n)
  case (Cons c cs)
  have "n \<le> 10 * n + (unat c - 48)" by simp
  also have "\<dots> \<le> decimal (10 * n + (unat c - 48)) cs" by (rule Cons.IH)
  finally show ?case by simp
qed simp

lemma digit_word:
  assumes "is_digit c"
  shows "unat (ucast (c - 0x30) :: u32) = unat c - 48" "unat c - 48 < 10"
proof -
  have c: "48 \<le> unat c" "unat c \<le> 57" using assms by (simp_all add: is_digit_def word_le_nat_alt)
  then have "unat (c - 0x30) = unat c - 48" using assms by (subst unat_sub) (simp_all add: is_digit_def)
  then show "unat (ucast (c - 0x30) :: u32) = unat c - 48" using c by (simp add: unsigned_ucast_eq take_bit_nat_eq_self)
  show "unat c - 48 < 10" using c by simp
qed

lemma atoui_loop_ok:
  "atoui_loop cs v = (if list_all is_digit cs \<and> decimal (unat v) cs < 2 ^ 32 then Some (of_nat (decimal (unat v) cs)) else None)"
proof (induction cs arbitrary: v)
  case (Cons c cs)
  show ?case
  proof (cases "is_digit c")
    case False
    then show ?thesis by (simp add: is_digit_def linorder_not_le) (metis linorder_not_le)
  next
    case True
    let ?d = "ucast (c - 0x30) :: u32"
    note d = digit_word [OF True]
    have full: "UINT32_TENTH < v \<or> v = UINT32_TENTH \<and> UINT32_REST < ?d \<longleftrightarrow> 2 ^ 32 \<le> 10 * unat v + (unat c - 48)"
    proof -
      have "UINT32_TENTH < v \<longleftrightarrow> 429496729 < unat v" "v = UINT32_TENTH \<longleftrightarrow> unat v = 429496729" "UINT32_REST < ?d \<longleftrightarrow> 5 < unat c - 48"
        using word_unat_eq_iff [of v UINT32_TENTH] d(1) by (simp_all add: UINT32_TENTH_def UINT32_REST_def word_less_nat_alt)
      then show ?thesis using d(2) by auto
    qed
    show ?thesis
    proof (cases "2 ^ 32 \<le> 10 * unat v + (unat c - 48)")
      case over: True
      then have "2 ^ 32 \<le> decimal (unat v) (c # cs)" using decimal_mono [of "10 * unat v + (unat c - 48)" cs] by simp
      then show ?thesis using True full over by (auto simp: is_digit_def Let_def)
    next
      case False
      have "unat (v * 10 + ?d) = 10 * unat v + (unat c - 48)"
        using False d(1) by (simp add: unat_word_ariths mult.commute)
      then have "atoui_loop cs (v * 10 + ?d) = (if list_all is_digit cs \<and> decimal (unat v) (c # cs) < 2 ^ 32
          then Some (of_nat (decimal (unat v) (c # cs))) else None)" by (simp add: Cons.IH)
      moreover have "\<not> (c < 0x30 \<or> 0x39 < c)" using True by (auto simp: is_digit_def)
      moreover have "\<not> (UINT32_TENTH < v \<or> v = UINT32_TENTH \<and> UINT32_REST < ?d)" using full False by blast
      ultimately have "atoui_loop (c # cs) v = (if list_all is_digit cs \<and> decimal (unat v) (c # cs) < 2 ^ 32
          then Some (of_nat (decimal (unat v) (c # cs))) else None)" unfolding atoui_loop.simps Let_def by (simp only: if_False)
      then show ?thesis using True by simp
    qed
  qed
next
  case Nil
  then show ?case using unsigned_less [of v] by simp
qed

text \<open>A string is read when it is at most ten digits long and its number fits, and is that number.\<close>

lemma atoui_ok:
  "z_str_se_atoui cs = (if cs \<noteq> [] \<and> length cs \<le> 10 \<and> list_all is_digit cs \<and> decimal 0 cs < 2 ^ 32
    then Some (of_nat (decimal 0 cs)) else None)"
  by (auto simp: z_str_se_atoui_def atoui_loop_ok)

end
