(* ===== verification/Zp_SessQueryable.thy ===== *)
theory Zp_SessQueryable imports Zp_SessQuery Zp_Str
begin

text \<open>
  Queries that arrive: \<^verbatim>\<open>src/net/query.c\<close> and \<^verbatim>\<open>src/session/queryable.c\<close>. A query is a counted value:
  every queryable it is for gets a reference, the application may keep one, and with the last one the
  final reply is sent. The cache of the receiver and local queryables are switched off.
\<close>

section \<open>Queries\<close>

text \<open>The session of a query is the one that keeps it; it is referred to weakly, and may be closed.\<close>

definition z_session_send_reply_final :: "('c, 'w) z_env \<Rightarrow> u32 \<Rightarrow> bool \<Rightarrow> (unit, 'c, 'w) zprog" where
  "z_session_send_reply_final env query_id is_local =
     (if is_local then z_trigger_query_reply_final env (ucast query_id)
      else env_send_n_msg env (z_n_msg_make_response_final (ucast query_id)) Z_RELIABILITY_RELIABLE Z_CONGESTION_CONTROL_BLOCK None)"

definition z_query_send_reply_final :: "('c, 'w) z_env \<Rightarrow> z_query_t \<Rightarrow> (unit, 'c, 'w) zprog" where
  "z_query_send_reply_final env q = (\<lambda>zn. if z_session_is_closed zn then Err Z_ERR_TRANSPORT_TX_FAILED zn
     else z_session_send_reply_final env (qu_request_id q) (qu_is_local q) zn)"

definition z_query_clear :: "('c, 'w) z_env \<Rightarrow> z_query_t \<Rightarrow> (unit, 'c, 'w) zprog" where
  "z_query_clear env q = then_do (ignore (z_query_send_reply_final env q)) (ignore (env_key_clear env (qu_key q)))"

definition query_rc_drop :: "('c, 'w) z_env \<Rightarrow> z_rc \<Rightarrow> (unit, 'c, 'w) zprog" where
  "query_rc_drop env p = ignore (rc_drop zn_queries (\<lambda>st zn. zn\<lparr>zn_queries := st\<rparr>) (z_query_clear env) p)"

text \<open>The parameters of the message become those of the query.\<close>

definition z_query_move_data ::
    "z_value_t \<Rightarrow> z_string_t \<Rightarrow> byte list \<Rightarrow> u32 \<Rightarrow> z_bytes_t \<Rightarrow> bool \<Rightarrow> z_source_info_t \<Rightarrow> z_query_t option" where
  "z_query_move_data val key parameters request_id attachment implicit_anyke source_info =
     do { anyke \<leftarrow> (if implicit_anyke then Some True else z_parameters_has_anyke parameters);
          Some \<lparr>qu_key = z_declared_keyexpr_null\<lparr>dke_inner := fst (snd (z_keyexpr_move key))\<rparr>, qu_value = val,
            qu_request_id = request_id, qu_attachment = attachment, qu_parameters = parameters, qu_source_info = source_info,
            qu_qos = 0, qu_anyke = anyke, qu_is_local = False\<rparr> }"

section \<open>The queryables of a session\<close>

definition z_session_queryable_clear :: "('c, 'w) z_env \<Rightarrow> 'c z_session_queryable_t \<Rightarrow> (unit, 'c, 'w) zprog" where
  "z_session_queryable_clear env qle = then_do (drop_opt env (qy_dropper qle)) (ignore (env_key_clear env (qy_key qle)))"

definition qle_rc_drop :: "('c, 'w) z_env \<Rightarrow> z_rc \<Rightarrow> (unit, 'c, 'w) zprog" where
  "qle_rc_drop env p = ignore (rc_drop zn_qles (\<lambda>st zn. zn\<lparr>zn_qles := st\<rparr>) (z_session_queryable_clear env) p)"

fun z_get_session_queryable_by_id_in :: "z_rc list \<Rightarrow> z_zint_t \<Rightarrow> (z_rc, 'c, 'w) zprog" where
  "z_get_session_queryable_by_id_in [] i = ret None"
| "z_get_session_queryable_by_id_in (p # xs) i =
     bind_ok (on_qles (rc_read p)) (\<lambda>qle. if i = ucast (qy_id qle) then ret p else z_get_session_queryable_by_id_in xs i)"

definition unsafe_z_get_session_queryable_by_id :: "z_zint_t \<Rightarrow> (z_rc, 'c, 'w) zprog" where
  "unsafe_z_get_session_queryable_by_id i =
     bind_ok (zget zn_local_queryable) (\<lambda>qles. z_get_session_queryable_by_id_in qles i)"

fun queryables_by_key :: "z_string_t \<Rightarrow> bool \<Rightarrow> z_rc list \<Rightarrow> z_rc list \<Rightarrow> (z_rc list, 'c, 'w) zprog" where
  "queryables_by_key key is_remote [] qle_infos = ret qle_infos"
| "queryables_by_key key is_remote (p # xs) qle_infos =
     bind_ok (on_qles (rc_read p)) (\<lambda>qle.
       let origin_allowed = (if is_remote then z_locality_allows_remote (qy_allowed_origin qle)
                             else z_locality_allows_local (qy_allowed_origin qle)) in
       bind_ok (if origin_allowed then of_option (z_keyexpr_intersects (dke_inner (qy_key qle)) key) else ret False) (\<lambda>hit.
         if hit then bind_ok (on_qles (rc_clone p)) (\<lambda>c. queryables_by_key key is_remote xs (qle_infos @ [c]))
         else queryables_by_key key is_remote xs qle_infos))"

definition unsafe_z_get_session_queryables_by_key :: "z_string_t \<Rightarrow> bool \<Rightarrow> (z_rc list, 'c, 'w) zprog" where
  "unsafe_z_get_session_queryables_by_key key is_remote =
     bind_ok (zget zn_local_queryable) (\<lambda>qles. queryables_by_key key is_remote qles [])"

definition z_get_session_queryable_by_id :: "z_zint_t \<Rightarrow> (z_rc, 'c, 'w) zprog" where
  "z_get_session_queryable_by_id i =
     then_do z_session_mutex_lock
       (bind_ok (unsafe_z_get_session_queryable_by_id i) (\<lambda>qle.
        bind_ok (if qle = None then ret None else on_qles (rc_clone qle)) (\<lambda>out.
        then_do z_session_mutex_unlock (ret out))))"

definition z_register_session_queryable :: "('c, 'w) z_env \<Rightarrow> 'c z_session_queryable_t \<Rightarrow> (z_rc, 'c, 'w) zprog" where
  "z_register_session_queryable env q =
     bind_ok (on_qles (rc_new_from_val q)) (\<lambda>out.
     bind_ok (attempt () z_session_mutex_lock_if_open) (\<lambda>(r, _).
       if r \<noteq> Z_RES_OK then then_do (qle_rc_drop env out) (ret None)
       else bind_ok (on_qles (rc_clone out)) (\<lambda>c.
         then_do (zmod (\<lambda>zn. zn\<lparr>zn_local_queryable := z_list_push (zn_local_queryable zn) c\<rparr>))
           (then_do z_session_mutex_unlock (ret out)))))"

definition z_session_queryable_get_infos :: "z_wireexpr_t \<Rightarrow> z_peer option \<Rightarrow> (z_string_t \<times> z_rc list, 'c, 'w) zprog" where
  "z_session_queryable_get_infos wireexpr peer =
     bind_ok (z_get_keyexpr_from_wireexpr wireexpr peer) (\<lambda>ke.
     then_do z_session_mutex_lock_if_open
       (bind_ok (unsafe_z_get_session_queryables_by_key ke (peer \<noteq> None)) (\<lambda>infos.
        then_do z_session_mutex_unlock (ret (ke, infos)))))"

section \<open>A query that arrives\<close>

text \<open>All but the last queryable get a reference of their own, which is dropped after the call.\<close>

fun call_queryables :: "('c, 'w) z_env \<Rightarrow> z_rc \<Rightarrow> z_rc list \<Rightarrow> (unit, 'c, 'w) zprog" where
  "call_queryables env query [] = ret ()"
| "call_queryables env query [p] =
     bind_ok (on_qles (rc_read p)) (\<lambda>qle. ignore (env_query env (qy_callback qle) query))"
| "call_queryables env query (p # q # ps) =
     bind_ok (on_qles (rc_read p)) (\<lambda>qle.
     bind_ok (on_queries (rc_clone query)) (\<lambda>query_copy.
     then_do (ignore (env_query env (qy_callback qle) query_copy))
       (then_do (query_rc_drop env query_copy) (call_queryables env query (q # ps)))))"

definition z_trigger_queryables ::
    "('c, 'w) z_env \<Rightarrow> z_msg_query_t \<Rightarrow> z_wireexpr_t \<Rightarrow> u32 \<Rightarrow> z_n_qos_t \<Rightarrow> z_peer option \<Rightarrow> (unit, 'c, 'w) zprog" where
  "z_trigger_queryables env msgq q_key qid qos peer =
     (let is_local = (peer = None) in
      bind_ok (z_session_queryable_get_infos q_key peer) (\<lambda>(ke, qles).
        if qles = [] then ignore (z_session_send_reply_final env qid is_local)
        else bind_ok (of_option (z_query_move_data (q_ext_value msgq) ke (q_parameters msgq) qid (q_ext_attachment msgq)
                                   (q_implicit_anyke msgq) (q_ext_info msgq))) (\<lambda>query.
             bind_ok (on_queries (rc_new_from_val (query\<lparr>qu_qos := qos, qu_is_local := is_local\<rparr>))) (\<lambda>query.
             then_do (call_queryables env query qles)
               (then_do (query_rc_drop env query) (each (qle_rc_drop env) qles))))))"

definition z_unregister_session_queryable :: "('c, 'w) z_env \<Rightarrow> z_rc \<Rightarrow> (unit, 'c, 'w) zprog" where
  "z_unregister_session_queryable env qle =
     then_do z_session_mutex_lock
       (bind_ok (zget (\<lambda>zn. z_list_drop_filter (rc_eq qle) True (zn_local_queryable zn))) (\<lambda>(qles, dropped).
        then_do (each (qle_rc_drop env) dropped)
          (then_do (zmod (\<lambda>zn. zn\<lparr>zn_local_queryable := qles\<rparr>))
             (then_do z_session_mutex_unlock (qle_rc_drop env qle)))))"

definition z_flush_session_queryable :: "('c, 'w) z_env \<Rightarrow> (unit, 'c, 'w) zprog" where
  "z_flush_session_queryable env =
     then_do z_session_mutex_lock
       (bind_ok (zget zn_local_queryable) (\<lambda>queryables.
        then_do (zmod (\<lambda>zn. zn\<lparr>zn_local_queryable := []\<rparr>))
          (then_do z_session_mutex_unlock (each (qle_rc_drop env) queryables))))"

end
