(* ===== verification/Zp_Interest.thy ===== *)
theory Zp_Interest imports Zp_SessQueryable
begin

text \<open>
  Interests and declarations: \<^verbatim>\<open>src/session/interest.c\<close>. A session tells others what it has declared,
  and keeps what others declared for the interests of its own, whose callbacks are called when one
  of them concerns it. The argument of an interest is a counted value: a reference is dropped
  with the interest.
\<close>

section \<open>Sending what is declared\<close>

text \<open>The clone of a list of references has a reference of its own to each, the other way round.\<close>

fun clone_rc_list :: "(z_rc \<Rightarrow> (z_rc, 's) prog) \<Rightarrow> z_rc list \<Rightarrow> z_rc list \<Rightarrow> (z_rc list, 's) prog" where
  "clone_rc_list cl new [] = ret new"
| "clone_rc_list cl new (p # ps) = bind_ok (cl p) (\<lambda>c. clone_rc_list cl (c # new) ps)"

text \<open>An interest that is not restricted concerns every key.\<close>

definition concerned :: "z_string_t option \<Rightarrow> z_string_t \<Rightarrow> (bool, 's) prog" where
  "concerned restr_key key = (case restr_key of None \<Rightarrow> ret True | Some r \<Rightarrow> of_option (z_keyexpr_intersects r key))"

definition send_declare :: "('c, 'w) z_env \<Rightarrow> z_declaration_t \<Rightarrow> u32 \<Rightarrow> nat option \<Rightarrow> (z_result_t, 'c, 'w) zprog" where
  "send_declare env decl interest_id peer =
     bind_ok (attempt () (env_send_n_msg env (z_n_msg_make_declare decl (z_optional_id_make_some interest_id))
       Z_RELIABILITY_RELIABLE Z_CONGESTION_CONTROL_BLOCK peer)) (\<lambda>(r, _). ret r)"

text \<open>
  The loop over what is declared: of each element the key, and how its declaration is made. The first
  one that cannot be sent ends it.
\<close>

fun send_declares ::
    "('c, 'w) z_env \<Rightarrow> u32 \<Rightarrow> nat option \<Rightarrow> z_string_t option \<Rightarrow> ('x \<Rightarrow> (z_string_t \<times> (z_declaration_t, 'c, 'w) zprog, 'c, 'w) zprog) \<Rightarrow>
     'x list \<Rightarrow> (z_result_t, 'c, 'w) zprog" where
  "send_declares env interest_id peer restr_key get [] = ret Z_RES_OK"
| "send_declares env interest_id peer restr_key get (x # xs) =
     bind_ok (get x) (\<lambda>(key, decl). bind_ok (concerned restr_key key) (\<lambda>hit.
       if hit
       then bind_ok decl (\<lambda>d. bind_ok (send_declare env d interest_id peer) (\<lambda>r.
              if r \<noteq> Z_RES_OK then ret Z_ERR_TRANSPORT_TX_FAILED else send_declares env interest_id peer restr_key get xs))
       else send_declares env interest_id peer restr_key get xs))"

definition declared_wire :: "z_key_t \<Rightarrow> (z_wireexpr_t, 'c, 'w) zprog" where
  "declared_wire key = bind_ok (zget zn_self) (\<lambda>self. of_option (z_declared_keyexpr_alias_to_wire key self))"

text \<open>Of a resource that is copied only the key and the number are set.\<close>

definition z_resource_copy :: "z_resource_t \<Rightarrow> z_string_t \<times> u16" where
  "z_resource_copy src = (res_key src, res_id src)"

definition z_interest_send_decl_resource ::
    "('c, 'w) z_env \<Rightarrow> u32 \<Rightarrow> nat option \<Rightarrow> z_string_t option \<Rightarrow> (unit, 'c, 'w) zprog" where
  "z_interest_send_decl_resource env interest_id peer restr_key =
     then_do z_session_mutex_lock_if_open
       (bind_ok (zget (\<lambda>zn. z_slist_clone z_resource_copy (zn_local_resources zn))) (\<lambda>res_list.
        then_do z_session_mutex_unlock
          (bind_ok (send_declares env interest_id peer restr_key
             (\<lambda>(key, i). ret (key, ret (z_make_decl_keyexpr i (z_keyexpr_alias_to_wire key)))) res_list) (\<lambda>r.
           return_code r ()))))"

definition z_interest_send_decl_subscriber ::
    "('c, 'w) z_env \<Rightarrow> u32 \<Rightarrow> nat option \<Rightarrow> z_string_t option \<Rightarrow> (unit, 'c, 'w) zprog" where
  "z_interest_send_decl_subscriber env interest_id peer restr_key =
     then_do z_session_mutex_lock_if_open
       (bind_ok (zget zn_subscriptions) (\<lambda>subs.
        bind_ok (clone_rc_list (\<lambda>p. on_subs (rc_clone p)) [] subs) (\<lambda>sub_list.
        then_do z_session_mutex_unlock
          (bind_ok (send_declares env interest_id peer restr_key
             (\<lambda>p. bind_ok (on_subs (rc_read p)) (\<lambda>sub. ret (dke_inner (su_key sub),
                bind_ok (declared_wire (su_key sub)) (\<lambda>w. ret (z_make_decl_subscriber w (su_id sub)))))) sub_list) (\<lambda>r.
           then_do (each (sub_rc_drop env) sub_list) (return_code r ()))))))"

definition Z_QUERYABLE_DISTANCE_DEFAULT :: u16 where "Z_QUERYABLE_DISTANCE_DEFAULT = 0"

definition z_interest_send_decl_queryable ::
    "('c, 'w) z_env \<Rightarrow> u32 \<Rightarrow> nat option \<Rightarrow> z_string_t option \<Rightarrow> (unit, 'c, 'w) zprog" where
  "z_interest_send_decl_queryable env interest_id peer restr_key =
     then_do z_session_mutex_lock_if_open
       (bind_ok (zget zn_local_queryable) (\<lambda>qles.
        bind_ok (clone_rc_list (\<lambda>p. on_qles (rc_clone p)) [] qles) (\<lambda>qle_list.
        then_do z_session_mutex_unlock
          (bind_ok (send_declares env interest_id peer restr_key
             (\<lambda>p. bind_ok (on_qles (rc_read p)) (\<lambda>qle. ret (dke_inner (qy_key qle),
                bind_ok (declared_wire (qy_key qle)) (\<lambda>w.
                  ret (z_make_decl_queryable w (qy_id qle) (qy_complete qle) Z_QUERYABLE_DISTANCE_DEFAULT))))) qle_list) (\<lambda>r.
           then_do (each (qle_rc_drop env) qle_list) (return_code r ()))))))"

text \<open>
  The map of tokens is cloned, and the loop goes along its buckets. The declared expressions in the clone count
  their declarations until it is cleared; that is not in the state.
\<close>

definition z_interest_send_decl_token ::
    "('c, 'w) z_env \<Rightarrow> u32 \<Rightarrow> nat option \<Rightarrow> z_string_t option \<Rightarrow> (unit, 'c, 'w) zprog" where
  "z_interest_send_decl_token env interest_id peer restr_key =
     then_do z_session_mutex_lock_if_open
       (bind_ok (zget (\<lambda>zn. z_hashmap_clone (\<lambda>e. e) (zn_local_tokens zn))) (\<lambda>token_list.
        then_do z_session_mutex_unlock
          (bind_ok (send_declares env interest_id peer restr_key
             (\<lambda>(i, key). ret (dke_inner key, bind_ok (declared_wire key) (\<lambda>w. ret (z_make_decl_token w (ucast i)))))
             (iterate (z_hashmap_len token_list) token_list z_hashmap_iterator_make)) (\<lambda>r. return_code r ()))))"

definition z_interest_send_declare_final :: "('c, 'w) z_env \<Rightarrow> u32 \<Rightarrow> nat option \<Rightarrow> (unit, 'c, 'w) zprog" where
  "z_interest_send_declare_final env interest_id peer =
     bind_ok (send_declare env z_make_decl_final interest_id peer) (\<lambda>r. if r \<noteq> Z_RES_OK then fail Z_ERR_TRANSPORT_TX_FAILED else ret ())"

definition z_interest_push_declarations_to_peer :: "('c, 'w) z_env \<Rightarrow> nat option \<Rightarrow> (unit, 'c, 'w) zprog" where
  "z_interest_push_declarations_to_peer env peer =
     then_do (z_interest_send_decl_resource env 0 peer None)
       (then_do (z_interest_send_decl_subscriber env 0 peer None)
          (then_do (z_interest_send_decl_queryable env 0 peer None)
             (then_do (z_interest_send_decl_token env 0 peer None) (z_interest_send_declare_final env 0 peer))))"

definition z_interest_pull_resource_from_peers :: "('c, 'w) z_env \<Rightarrow> (unit, 'c, 'w) zprog" where
  "z_interest_pull_resource_from_peers env =
     bind_ok z_get_entity_id (\<lambda>eid.
       env_send_n_msg env (z_n_msg_make_interest (z_make_interest None eid (Z_INTEREST_FLAG_KEYEXPRS OR Z_INTEREST_FLAG_CURRENT)))
         Z_RELIABILITY_RELIABLE Z_CONGESTION_CONTROL_BLOCK None)"

section \<open>The interests of a session\<close>

definition z_session_interest_is_aggregate :: "'c z_session_interest_t \<Rightarrow> bool" where
  "z_session_interest_is_aggregate intr \<longleftrightarrow> si_flags intr AND Z_INTEREST_FLAG_AGGREGATE \<noteq> 0"

definition z_session_interest_clear :: "('c, 'w) z_env \<Rightarrow> 'c z_session_interest_t \<Rightarrow> (unit, 'c, 'w) zprog" where
  "z_session_interest_clear env intr = drop_opt env (si_arg intr)"

definition intr_rc_drop :: "('c, 'w) z_env \<Rightarrow> z_rc \<Rightarrow> (unit, 'c, 'w) zprog" where
  "intr_rc_drop env p = ignore (rc_drop zn_intrs (\<lambda>st zn. zn\<lparr>zn_intrs := st\<rparr>) (z_session_interest_clear env) p)"

fun z_get_interest_by_id_in :: "z_rc list \<Rightarrow> z_zint_t \<Rightarrow> (z_rc, 'c, 'w) zprog" where
  "z_get_interest_by_id_in [] i = ret None"
| "z_get_interest_by_id_in (p # xs) i =
     bind_ok (on_intrs (rc_read p)) (\<lambda>intr. if i = ucast (si_id intr) then ret p else z_get_interest_by_id_in xs i)"

text \<open>An aggregated interest is for the key itself. The references are pushed: the last one found is the first.\<close>

definition interest_matches :: "'c z_session_interest_t \<Rightarrow> z_string_t \<Rightarrow> (bool, 's) prog" where
  "interest_matches intr key =
     (if z_session_interest_is_aggregate intr then ret (z_keyexpr_equals (si_key intr) key)
      else of_option (z_keyexpr_intersects (si_key intr) key))"

fun z_get_interest_by_key_and_flags_in ::
    "u8 \<Rightarrow> z_string_t \<Rightarrow> z_optional_id_t \<Rightarrow> z_rc list \<Rightarrow> z_rc list \<Rightarrow> (z_rc list, 'c, 'w) zprog" where
  "z_get_interest_by_key_and_flags_in flags key interest_id new [] = ret new"
| "z_get_interest_by_key_and_flags_in flags key interest_id new (p # xs) =
     bind_ok (on_intrs (rc_read p)) (\<lambda>intr.
       if si_flags intr AND flags = 0 \<or>
          (oid_has_value interest_id \<and> oid_value interest_id \<noteq> 0 \<and> oid_value interest_id \<noteq> si_id intr)
       then z_get_interest_by_key_and_flags_in flags key interest_id new xs
       else bind_ok (interest_matches intr key) (\<lambda>is_matching.
         if is_matching
         then bind_ok (on_intrs (rc_clone p)) (\<lambda>c. z_get_interest_by_key_and_flags_in flags key interest_id (c # new) xs)
         else z_get_interest_by_key_and_flags_in flags key interest_id new xs))"

definition unsafe_z_get_interest_by_id :: "z_zint_t \<Rightarrow> (z_rc, 'c, 'w) zprog" where
  "unsafe_z_get_interest_by_id i = bind_ok (zget zn_local_interests) (\<lambda>intrs. z_get_interest_by_id_in intrs i)"

definition unsafe_z_get_interest_by_key_and_flags :: "u8 \<Rightarrow> z_string_t \<Rightarrow> z_optional_id_t \<Rightarrow> (z_rc list, 'c, 'w) zprog" where
  "unsafe_z_get_interest_by_key_and_flags flags key interest_id =
     bind_ok (zget zn_local_interests) (\<lambda>intrs. z_get_interest_by_key_and_flags_in flags key interest_id [] intrs)"

definition z_get_interest_by_id :: "z_zint_t \<Rightarrow> (z_rc, 'c, 'w) zprog" where
  "z_get_interest_by_id i =
     then_do z_session_mutex_lock (bind_ok (unsafe_z_get_interest_by_id i) (\<lambda>intr. then_do z_session_mutex_unlock (ret intr)))"

text \<open>The list has the only reference; the caller is told where it is. A closed session keeps nothing.\<close>

definition z_register_interest :: "'c z_session_interest_t \<Rightarrow> (z_rc, 'c, 'w) zprog" where
  "z_register_interest intr =
     bind_ok (attempt () z_session_mutex_lock_if_open) (\<lambda>(r, _).
       if r \<noteq> Z_RES_OK then ret None
       else bind_ok (on_intrs (rc_new_from_val intr)) (\<lambda>p.
         then_do (zmod (\<lambda>zn. zn\<lparr>zn_local_interests := p # zn_local_interests zn\<rparr>)) (then_do z_session_mutex_unlock (ret p))))"

definition z_unregister_interest :: "('c, 'w) z_env \<Rightarrow> z_rc \<Rightarrow> (unit, 'c, 'w) zprog" where
  "z_unregister_interest env intr =
     then_do z_session_mutex_lock
       (bind_ok (zget (\<lambda>zn. z_list_drop_filter (\<lambda>p. rc_eq p intr) True (zn_local_interests zn))) (\<lambda>(intrs, dropped).
        then_do (each (intr_rc_drop env) dropped)
          (then_do (zmod (\<lambda>zn. zn\<lparr>zn_local_interests := intrs\<rparr>)) z_session_mutex_unlock)))"

section \<open>What others declared\<close>

definition z_declare_data_eq :: "u32 \<Rightarrow> z_declare_type_t \<Rightarrow> z_declare_data_t \<Rightarrow> bool" where
  "z_declare_data_eq i type right \<longleftrightarrow> i = dd_id right \<and> type = dd_type right"

text \<open>A copy does not set \<open>dd_complete\<close>: \<open>mem\<close> is what its memory holds.\<close>

definition z_declare_data_copy :: "bool \<Rightarrow> z_declare_data_t \<Rightarrow> z_declare_data_t" where
  "z_declare_data_copy mem src = \<lparr>dd_key = dd_key src, dd_peer = dd_peer src, dd_id = dd_id src, dd_type = dd_type src,
     dd_complete = mem\<rparr>"

definition unsafe_register_declare ::
    "z_string_t \<Rightarrow> u32 \<Rightarrow> z_declare_type_t \<Rightarrow> bool \<Rightarrow> nat option \<Rightarrow> (unit, 'c, 'w) zprog" where
  "unsafe_register_declare key i type complete peer =
     zmod (\<lambda>zn. zn\<lparr>zn_remote_declares :=
       \<lparr>dd_key = key, dd_peer = peer, dd_id = i, dd_type = type, dd_complete = complete\<rparr> # zn_remote_declares zn\<rparr>)"

definition unsafe_get_declare :: "u32 \<Rightarrow> z_declare_type_t \<Rightarrow> (z_declare_data_t option, 'c, 'w) zprog" where
  "unsafe_get_declare i type = zget (\<lambda>zn. z_list_find (z_declare_data_eq i type) (zn_remote_declares zn))"

definition unsafe_unregister_declare :: "u32 \<Rightarrow> z_declare_type_t \<Rightarrow> (unit, 'c, 'w) zprog" where
  "unsafe_unregister_declare i type =
     zmod (\<lambda>zn. zn\<lparr>zn_remote_declares := fst (z_list_drop_filter (z_declare_data_eq i type) True (zn_remote_declares zn))\<rparr>)"

text \<open>The callbacks of interests, without the lock.\<close>

definition call_interest :: "('c, 'w) z_env \<Rightarrow> z_interest_msg_t \<Rightarrow> nat option \<Rightarrow> z_rc \<Rightarrow> (unit, 'c, 'w) zprog" where
  "call_interest env msg peer p = bind_ok (on_intrs (rc_read p)) (\<lambda>intr.
     case si_callback intr of None \<Rightarrow> ret () | Some c \<Rightarrow> ignore (env_interest env c msg peer))"

definition call_interests :: "('c, 'w) z_env \<Rightarrow> z_interest_msg_t \<Rightarrow> nat option \<Rightarrow> z_rc list \<Rightarrow> (unit, 'c, 'w) zprog" where
  "call_interests env msg peer intrs = then_do (each (call_interest env msg peer) intrs) (each (intr_rc_drop env) intrs)"

text \<open>What a declaration is for interests: the kind of the message, the number, the key, the kind of the entity, its flag, and completeness.\<close>

fun interest_declare ::
    "z_declaration_t \<Rightarrow> (z_interest_msg_type_t \<times> u32 \<times> z_wireexpr_t \<times> z_declare_type_t \<times> u8 \<times> bool) option" where
  "interest_declare (Decl_Subscriber d) =
     Some (Z_INTEREST_MSG_TYPE_DECL_SUBSCRIBER, ds_id d, ds_keyexpr d, Z_DECLARE_TYPE_SUBSCRIBER, Z_INTEREST_FLAG_SUBSCRIBERS, False)"
| "interest_declare (Decl_Queryable d) =
     Some (Z_INTEREST_MSG_TYPE_DECL_QUERYABLE, dq_id d, dq_keyexpr d, Z_DECLARE_TYPE_QUERYABLE, Z_INTEREST_FLAG_QUERYABLES, dq_complete d)"
| "interest_declare (Decl_Token d) =
     Some (Z_INTEREST_MSG_TYPE_DECL_TOKEN, dt_id d, dt_keyexpr d, Z_DECLARE_TYPE_TOKEN, Z_INTEREST_FLAG_TOKENS, False)"
| "interest_declare _ = None"

fun interest_undeclare :: "z_declaration_t \<Rightarrow> (z_interest_msg_type_t \<times> u32 \<times> z_declare_type_t \<times> u8) option" where
  "interest_undeclare (Undecl_Subscriber d) =
     Some (Z_INTEREST_MSG_TYPE_UNDECL_SUBSCRIBER, us_id d, Z_DECLARE_TYPE_SUBSCRIBER, Z_INTEREST_FLAG_SUBSCRIBERS)"
| "interest_undeclare (Undecl_Queryable d) =
     Some (Z_INTEREST_MSG_TYPE_UNDECL_QUERYABLE, uq_id d, Z_DECLARE_TYPE_QUERYABLE, Z_INTEREST_FLAG_QUERYABLES)"
| "interest_undeclare (Undecl_Token d) =
     Some (Z_INTEREST_MSG_TYPE_UNDECL_TOKEN, ut_id d, Z_DECLARE_TYPE_TOKEN, Z_INTEREST_FLAG_TOKENS)"
| "interest_undeclare _ = None"

text \<open>A declaration that is known already changes only its completeness; the interests are told again.\<close>

definition note_declare :: "z_string_t \<Rightarrow> u32 \<Rightarrow> z_declare_type_t \<Rightarrow> bool \<Rightarrow> nat option \<Rightarrow> (unit, 'c, 'w) zprog" where
  "note_declare key i type complete peer =
     bind_ok (unsafe_get_declare i type) (\<lambda>prev_decl. case prev_decl of
       Some _ \<Rightarrow> zmod (\<lambda>zn. zn\<lparr>zn_remote_declares :=
         update_first (z_declare_data_eq i type) (\<lambda>d. d\<lparr>dd_complete := complete\<rparr>) (zn_remote_declares zn)\<rparr>)
     | None \<Rightarrow> unsafe_register_declare key i type complete peer)"

definition z_interest_process_declares ::
    "('c, 'w) z_env \<Rightarrow> z_n_msg_declare_t \<Rightarrow> z_peer option \<Rightarrow> (unit, 'c, 'w) zprog" where
  "z_interest_process_declares env decl peer =
     (case interest_declare (de_decl decl) of
        None \<Rightarrow> fail Z_ERR_MESSAGE_ZENOH_DECLARATION_UNKNOWN
      | Some (msg_type, i, decl_key, decl_type, flags, complete) \<Rightarrow>
          bind_ok (attempt [] (z_get_keyexpr_from_wireexpr decl_key peer)) (\<lambda>(r, key).
            if r \<noteq> Z_RES_OK then fail Z_ERR_KEYEXPR_UNKNOWN
            else then_do z_session_mutex_lock_if_open
              (then_do (note_declare key i decl_type complete (map_option fst peer))
                (bind_ok (unsafe_z_get_interest_by_key_and_flags flags key (de_interest_id decl)) (\<lambda>intrs.
                 then_do z_session_mutex_unlock
                   (call_interests env \<lparr>im_id = i, im_type = msg_type, im_key = Some key, im_is_complete = complete\<rparr>
                      (map_option fst peer) intrs))))))"

definition z_interest_process_undeclares ::
    "('c, 'w) z_env \<Rightarrow> z_declaration_t \<Rightarrow> z_peer option \<Rightarrow> (unit, 'c, 'w) zprog" where
  "z_interest_process_undeclares env decl peer =
     (case interest_undeclare decl of
        None \<Rightarrow> fail Z_ERR_MESSAGE_ZENOH_DECLARATION_UNKNOWN
      | Some (msg_type, i, decl_type, flags) \<Rightarrow>
          then_do z_session_mutex_lock_if_open (bind_ok (unsafe_get_declare i decl_type) (\<lambda>prev_decl.
            case prev_decl of
              None \<Rightarrow> then_do z_session_mutex_unlock (fail Z_ERR_MESSAGE_ZENOH_DECLARATION_UNKNOWN)
            | Some d \<Rightarrow>
                bind_ok (unsafe_z_get_interest_by_key_and_flags flags (dd_key d) z_optional_id_make_none) (\<lambda>intrs.
                then_do (unsafe_unregister_declare i decl_type)
                  (then_do z_session_mutex_unlock
                     (call_interests env \<lparr>im_id = i, im_type = msg_type, im_key = None, im_is_complete = False\<rparr>
                        (map_option fst peer) intrs))))))"

definition z_interest_init :: "(unit, 'c, 'w) zprog" where
  "z_interest_init = then_do z_session_mutex_lock
     (then_do (zmod (\<lambda>zn. zn\<lparr>zn_local_interests := [], zn_remote_declares := []\<rparr>)) z_session_mutex_unlock)"

definition z_flush_interest :: "('c, 'w) z_env \<Rightarrow> (unit, 'c, 'w) zprog" where
  "z_flush_interest env = then_do z_session_mutex_lock
     (bind_ok (zget zn_local_interests) (\<lambda>intrs.
      then_do (each (intr_rc_drop env) intrs)
        (then_do (zmod (\<lambda>zn. zn\<lparr>zn_local_interests := [], zn_remote_declares := []\<rparr>)) z_session_mutex_unlock)))"

definition z_interest_process_declare_final :: "('c, 'w) z_env \<Rightarrow> u32 \<Rightarrow> z_peer option \<Rightarrow> (unit, 'c, 'w) zprog" where
  "z_interest_process_declare_final env i peer =
     then_do z_session_mutex_lock_if_open (bind_ok (unsafe_z_get_interest_by_id (ucast i)) (\<lambda>intr.
       then_do z_session_mutex_unlock
         (if intr = None then ret ()
          else call_interest env \<lparr>im_id = i, im_type = Z_INTEREST_MSG_TYPE_FINAL, im_key = None, im_is_complete = False\<rparr>
                 (map_option fst peer) intr)))"

definition z_interest_process_interest_final :: "u32 \<Rightarrow> (unit, 'c, 'w) zprog" where
  "z_interest_process_interest_final i = ret ()"

text \<open>The interest of another node is answered on transports that are not unicast.\<close>

definition when_flag :: "u8 \<Rightarrow> u8 \<Rightarrow> (unit, 's) prog \<Rightarrow> (unit, 's) prog" where
  "when_flag flags f p = when_do (Z_HAS_FLAG flags f) p"

definition z_interest_process_interest ::
    "('c, 'w) z_env \<Rightarrow> z_wireexpr_t \<Rightarrow> u32 \<Rightarrow> u8 \<Rightarrow> z_peer option \<Rightarrow> (unit, 'c, 'w) zprog" where
  "z_interest_process_interest env wireexpr i flags peer =
     bind_ok (zget zn_tp_type) (\<lambda>tp. if tp = Z_TRANSPORT_UNICAST_TYPE then ret ()
      else then_do (env_send_join env)
        (bind_ok (if Z_HAS_FLAG flags Z_INTEREST_FLAG_RESTRICTED then z_get_keyexpr_from_wireexpr wireexpr peer else ret z_keyexpr_null)
          (\<lambda>restr_key. let restr_key_opt = (if z_string_check restr_key then Some restr_key else None) in
           when_flag flags Z_INTEREST_FLAG_CURRENT
             (then_do (when_flag flags Z_INTEREST_FLAG_KEYEXPRS (z_interest_send_decl_resource env i None restr_key_opt))
               (then_do (when_flag flags Z_INTEREST_FLAG_SUBSCRIBERS (z_interest_send_decl_subscriber env i None restr_key_opt))
                 (then_do (when_flag flags Z_INTEREST_FLAG_QUERYABLES (z_interest_send_decl_queryable env i None restr_key_opt))
                   (then_do (when_flag flags Z_INTEREST_FLAG_TOKENS (z_interest_send_decl_token env i None restr_key_opt))
                     (z_interest_send_declare_final env i None))))))))"

definition z_interest_peer_disconnected :: "('c, 'w) z_env \<Rightarrow> nat option \<Rightarrow> (unit, 'c, 'w) zprog" where
  "z_interest_peer_disconnected env peer =
     bind_ok (attempt () z_session_mutex_lock_if_open) (\<lambda>(r, _). if r \<noteq> Z_RES_OK then ret ()
      else bind_ok (zget zn_local_interests) (\<lambda>locals.
        bind_ok (clone_rc_list (\<lambda>p. on_intrs (rc_clone p)) [] locals) (\<lambda>intrs.
        then_do z_session_mutex_unlock
          (call_interests env \<lparr>im_id = 0, im_type = Z_INTEREST_MSG_TYPE_CONNECTION_DROPPED, im_key = None, im_is_complete = False\<rparr>
             peer intrs))))"

text \<open>
  The replay for a new interest goes through copies of what is known, of every kind. The callback is called
  without looking whether there is one.
\<close>

fun declare_msg_type :: "z_declare_type_t \<Rightarrow> z_interest_msg_type_t" where
  "declare_msg_type Z_DECLARE_TYPE_QUERYABLE = Z_INTEREST_MSG_TYPE_DECL_QUERYABLE"
| "declare_msg_type Z_DECLARE_TYPE_SUBSCRIBER = Z_INTEREST_MSG_TYPE_DECL_SUBSCRIBER"
| "declare_msg_type Z_DECLARE_TYPE_TOKEN = Z_INTEREST_MSG_TYPE_DECL_TOKEN"

fun replay_declares :: "('c, 'w) z_env \<Rightarrow> 'c z_session_interest_t \<Rightarrow> z_declare_data_t list \<Rightarrow> (unit, 'c, 'w) zprog" where
  "replay_declares env interest [] = ret ()"
| "replay_declares env interest (d # ds) =
     bind_ok (interest_matches interest (dd_key d)) (\<lambda>is_matching.
       if is_matching
       then (case si_callback interest of None \<Rightarrow> fault
             | Some c \<Rightarrow> then_do (ignore (env_interest env c
                 \<lparr>im_id = dd_id d, im_type = declare_msg_type (dd_type d), im_key = Some (dd_key d), im_is_complete = dd_complete d\<rparr>
                 (dd_peer d))) (replay_declares env interest ds))
       else replay_declares env interest ds)"

definition z_interest_replay_declare ::
    "('c, 'w) z_env \<Rightarrow> (z_declare_data_t \<Rightarrow> bool) \<Rightarrow> 'c z_session_interest_t \<Rightarrow> (unit, 'c, 'w) zprog" where
  "z_interest_replay_declare env mem interest =
     bind_ok (attempt () z_session_mutex_lock_if_open) (\<lambda>(r, _). if r \<noteq> Z_RES_OK then ret ()
      else bind_ok (zget (\<lambda>zn. z_slist_clone (\<lambda>d. z_declare_data_copy (mem d) d) (zn_remote_declares zn))) (\<lambda>res_list.
        then_do z_session_mutex_unlock (replay_declares env interest res_list)))"

end
