(* ===== verification/Zp_Liveliness.thy ===== *)
theory Zp_Liveliness imports Zp_Interest
begin

text \<open>
  Liveliness tokens: \<^verbatim>\<open>src/session/liveliness.c\<close>. A session keeps the tokens that others declared, by
  their number, and its liveliness queries, whose replies are the tokens that are declared in answer to them.
\<close>

section \<open>Tokens of others\<close>

definition set_remote_tokens :: "(z_string_t z_int_map_t \<Rightarrow> z_string_t z_int_map_t) \<Rightarrow> (unit, 'c, 'w) zprog" where
  "set_remote_tokens f = zmod (\<lambda>zn. zn\<lparr>zn_remote_tokens := f (zn_remote_tokens zn)\<rparr>)"

text \<open>A token that is known already is not told again; one that cannot be told is forgotten.\<close>

definition z_liveliness_process_remote_token_declare ::
    "('c, 'w) z_env \<Rightarrow> u32 \<Rightarrow> z_wireexpr_t \<Rightarrow> z_timestamp_t \<Rightarrow> z_peer option \<Rightarrow> (unit, 'c, 'w) zprog" where
  "z_liveliness_process_remote_token_declare env i wireexpr timestamp peer =
     bind_ok (z_get_keyexpr_from_wireexpr wireexpr peer) (\<lambda>ke.
     then_do z_session_mutex_lock_if_open (bind_ok (zget (\<lambda>zn. z_hashmap_get (zn_remote_tokens zn) (ucast i))) (\<lambda>pkeyexpr.
       case pkeyexpr of
         Some k \<Rightarrow> then_do z_session_mutex_unlock (return_code (if z_keyexpr_equals k ke then Z_RES_OK else Z_ERR_KEYEXPR_NOT_MATCH) ())
       | None \<Rightarrow>
           then_do (set_remote_tokens (\<lambda>m. z_hashmap_insert m (ucast i) ke True))
             (then_do z_session_mutex_unlock
               (bind_ok (attempt () (z_trigger_liveliness_subscriptions_declare env wireexpr timestamp peer)) (\<lambda>(r, _).
                  if r = Z_RES_OK then ret ()
                  else then_do z_session_mutex_lock
                         (then_do (set_remote_tokens (\<lambda>m. z_hashmap_remove m (ucast i)))
                            (then_do z_session_mutex_unlock (fail r)))))))))"

definition z_liveliness_process_remote_token_undeclare ::
    "('c, 'w) z_env \<Rightarrow> u32 \<Rightarrow> z_timestamp_t \<Rightarrow> (unit, 'c, 'w) zprog" where
  "z_liveliness_process_remote_token_undeclare env i timestamp =
     then_do z_session_mutex_lock_if_open (bind_ok (zget (\<lambda>zn. z_hashmap_get (zn_remote_tokens zn) (ucast i))) (\<lambda>keyexpr.
       case keyexpr of
         None \<Rightarrow> then_do z_session_mutex_unlock (fail Z_ERR_ENTITY_UNKNOWN)
       | Some key \<Rightarrow>
           then_do (set_remote_tokens (\<lambda>m. z_hashmap_remove m (ucast i)))
             (then_do z_session_mutex_unlock
               (if z_string_check key then z_trigger_liveliness_subscriptions_undeclare env key timestamp else ret ()))))"

fun undeclare_tokens :: "('c, 'w) z_env \<Rightarrow> (u64 \<times> z_string_t) list \<Rightarrow> (z_result_t, 'c, 'w) zprog" where
  "undeclare_tokens env [] = ret Z_RES_OK"
| "undeclare_tokens env (e # es) =
     bind_ok (attempt () (z_trigger_liveliness_subscriptions_undeclare env (snd e) z_timestamp_null)) (\<lambda>(r, _).
       if r \<noteq> Z_RES_OK then ret r else undeclare_tokens env es)"

definition z_liveliness_subscription_undeclare_all :: "('c, 'w) z_env \<Rightarrow> (unit, 'c, 'w) zprog" where
  "z_liveliness_subscription_undeclare_all env =
     then_do z_session_mutex_lock_if_open (bind_ok (zget zn_remote_tokens) (\<lambda>token_list.
       then_do (set_remote_tokens (\<lambda>_. z_int_void_map_make Z_DEFAULT_INT_MAP_CAPACITY))
         (then_do z_session_mutex_unlock
           (bind_ok (undeclare_tokens env (iterate (z_hashmap_len token_list) token_list z_hashmap_iterator_make))
              (\<lambda>r. return_code r ())))))"

section \<open>Queries\<close>

definition z_liveliness_pending_query_clear :: "('c, 'w) z_env \<Rightarrow> 'c z_liveliness_pending_query_t \<Rightarrow> (unit, 'c, 'w) zprog" where
  "z_liveliness_pending_query_clear env pen_qry = drop_opt env (lq_dropper pen_qry)"

text \<open>Of the new entry only the number is set: \<open>mem\<close> is what its memory holds, which the caller fills.\<close>

definition unsafe_liveliness_register_pending_query :: "'c z_liveliness_pending_query_t \<Rightarrow> (u32, 'c, 'w) zprog" where
  "unsafe_liveliness_register_pending_query mem zn =
     (let i = zn_liveliness_query_id zn in
      Ok i (zn\<lparr>zn_liveliness_query_id := i + 1, zn_liveliness_pending_queries :=
        z_hashmap_insert (zn_liveliness_pending_queries zn) (ucast i) (mem\<lparr>lq_id := i\<rparr>) True\<rparr>))"

text \<open>The callback is called while the lock is held.\<close>

definition z_liveliness_pending_query_reply ::
    "('c, 'w) z_env \<Rightarrow> u32 \<Rightarrow> z_wireexpr_t \<Rightarrow> z_timestamp_t \<Rightarrow> z_peer option \<Rightarrow> (unit, 'c, 'w) zprog" where
  "z_liveliness_pending_query_reply env interest_id wireexpr timestamp peer =
     bind_ok (z_get_keyexpr_from_wireexpr wireexpr peer) (\<lambda>ke.
     then_do z_session_mutex_lock_if_open
       (bind_ok (zget (\<lambda>zn. z_hashmap_get (zn_liveliness_pending_queries zn) (ucast interest_id))) (\<lambda>pq.
         case pq of None \<Rightarrow> then_do z_session_mutex_unlock (fail Z_ERR_ENTITY_UNKNOWN)
         | Some pq \<Rightarrow> bind_ok (of_option (z_keyexpr_intersects (lq_key pq) ke)) (\<lambda>hit.
             if \<not> hit then then_do z_session_mutex_unlock (fail Z_ERR_QUERY_NOT_MATCH)
             else then_do (ignore (env_reply env (lq_callback pq) (z_reply_steal_data ke z_entity_global_id_null [] timestamp
                    z_encoding_null Z_SAMPLE_KIND_PUT [] z_source_info_null))) z_session_mutex_unlock))))"

definition z_liveliness_unregister_pending_query :: "('c, 'w) z_env \<Rightarrow> u32 \<Rightarrow> (unit, 'c, 'w) zprog" where
  "z_liveliness_unregister_pending_query env i =
     then_do z_session_mutex_lock
       (bind_ok (zget (\<lambda>zn. z_hashmap_extract (zn_liveliness_pending_queries zn) (ucast i))) (\<lambda>(e, m).
        then_do (zmod (\<lambda>zn. zn\<lparr>zn_liveliness_pending_queries := m\<rparr>))
          (case e of None \<Rightarrow> then_do z_session_mutex_unlock (fail Z_ERR_ENTITY_UNKNOWN)
           | Some kv \<Rightarrow> then_do (z_liveliness_pending_query_clear env (snd kv)) z_session_mutex_unlock)))"

section \<open>What the receiver calls\<close>

text \<open>The declaration is read as one of a token; a reply that fails is not looked at.\<close>

definition z_liveliness_process_token_declare ::
    "('c, 'w) z_env \<Rightarrow> z_n_msg_declare_t \<Rightarrow> z_peer option \<Rightarrow> (unit, 'c, 'w) zprog" where
  "z_liveliness_process_token_declare env decl peer = (case de_decl decl of
     Decl_Token d \<Rightarrow>
       then_do (when_do (oid_has_value (de_interest_id decl))
                  (ignore (z_liveliness_pending_query_reply env (oid_value (de_interest_id decl)) (dt_keyexpr d) (de_ext_timestamp decl) peer)))
         (z_liveliness_process_remote_token_declare env (dt_id d) (dt_keyexpr d) (de_ext_timestamp decl) peer)
   | _ \<Rightarrow> fault)"

definition z_liveliness_process_token_undeclare :: "('c, 'w) z_env \<Rightarrow> z_n_msg_declare_t \<Rightarrow> (unit, 'c, 'w) zprog" where
  "z_liveliness_process_token_undeclare env decl = (case de_decl decl of
     Undecl_Token d \<Rightarrow> z_liveliness_process_remote_token_undeclare env (ut_id d) (de_ext_timestamp decl)
   | _ \<Rightarrow> fault)"

definition z_liveliness_process_declare_final :: "('c, 'w) z_env \<Rightarrow> z_n_msg_declare_t \<Rightarrow> (unit, 'c, 'w) zprog" where
  "z_liveliness_process_declare_final env decl =
     when_do (oid_has_value (de_interest_id decl))
       (ignore (z_liveliness_unregister_pending_query env (oid_value (de_interest_id decl))))"

section \<open>Beginning and end\<close>

definition z_liveliness_init :: "(unit, 'c, 'w) zprog" where
  "z_liveliness_init = then_do z_session_mutex_lock
     (then_do (zmod (\<lambda>zn. zn\<lparr>zn_remote_tokens := z_int_void_map_make Z_DEFAULT_INT_MAP_CAPACITY,
        zn_local_tokens := z_int_void_map_make Z_DEFAULT_INT_MAP_CAPACITY, zn_liveliness_query_id := 1,
        zn_liveliness_pending_queries := z_int_void_map_make Z_DEFAULT_INT_MAP_CAPACITY\<rparr>)) z_session_mutex_unlock)"

text \<open>
  The two maps of tokens are copied as structures and the copies cleared, which clears the expressions and frees the
  memory: what the session has of them refers to freed memory after that. A closed session does not
  read it.
\<close>

definition z_liveliness_clear :: "('c, 'w) z_env \<Rightarrow> (unit, 'c, 'w) zprog" where
  "z_liveliness_clear env = then_do z_session_mutex_lock
     (bind_ok (zget zn_liveliness_pending_queries) (\<lambda>m.
      then_do (each (\<lambda>kv. z_liveliness_pending_query_clear env (snd kv)) (iterate (z_hashmap_len m) m z_hashmap_iterator_make))
       (then_do (zmod (\<lambda>zn. zn\<lparr>zn_liveliness_pending_queries := z_hashmap_clear (zn_liveliness_pending_queries zn)\<rparr>))
         (bind_ok (zget zn_local_tokens) (\<lambda>local_tokens.
          then_do z_session_mutex_unlock
            (each (\<lambda>kv. ignore (env_key_clear env (snd kv)))
               (iterate (z_hashmap_len local_tokens) local_tokens z_hashmap_iterator_make)))))))"

end
