(* ===== verification/Zp_Dispatch.thy ===== *)
theory Zp_Dispatch imports Zp_Liveliness Zp_Unicast
begin

text \<open>
  What a session does with a message that arrives (\<^verbatim>\<open>src/session/rx.c\<close>), and how a session begins and ends
  (\<^verbatim>\<open>src/session/utils.c\<close>). A handler works on the session and the peer the message is from.
\<close>

section \<open>Timestamps\<close>

definition z_timestamp_duplicate :: "z_timestamp_t \<Rightarrow> z_timestamp_t" where
  "z_timestamp_duplicate tstamp = tstamp"

definition z_timestamp_clear :: "z_timestamp_t \<Rightarrow> z_timestamp_t" where
  "z_timestamp_clear tstamp = tstamp\<lparr>ts_valid := False, ts_time := 0\<rparr>"

text \<open>The one that was moved to, and what is left.\<close>

definition z_timestamp_move :: "z_timestamp_t \<Rightarrow> z_timestamp_t \<times> z_timestamp_t" where
  "z_timestamp_move src = (src, z_timestamp_clear src)"

section \<open>Messages\<close>

definition with_peer :: "(z_peer option \<Rightarrow> ('a, 'c, 'w) zprog) \<Rightarrow> ('a, ('c, 'w) zn_peer) prog" where
  "with_peer p s = lift_zn (p (snd s)) s"

definition z_handle_declare_inner :: "('c, 'w) z_env \<Rightarrow> z_n_msg_declare_t \<Rightarrow> (unit, ('c, 'w) zn_peer) prog" where
  "z_handle_declare_inner env decl = (case de_decl decl of
     Decl_Kexpr d \<Rightarrow> bind_ok (z_register_resource (dk_keyexpr d) (dk_id d)) (\<lambda>_. ret ())
   | Undecl_Kexpr d \<Rightarrow> ignore (z_unregister_resource (uk_id d))
   | Decl_Subscriber _ \<Rightarrow> with_peer (z_interest_process_declares env decl)
   | Decl_Queryable _ \<Rightarrow> with_peer (z_interest_process_declares env decl)
   | Decl_Token _ \<Rightarrow>
       then_do (with_peer (z_liveliness_process_token_declare env decl)) (with_peer (z_interest_process_declares env decl))
   | Undecl_Subscriber _ \<Rightarrow> with_peer (z_interest_process_undeclares env (de_decl decl))
   | Undecl_Queryable _ \<Rightarrow> with_peer (z_interest_process_undeclares env (de_decl decl))
   | Undecl_Token _ \<Rightarrow>
       then_do (lift_zn (z_liveliness_process_token_undeclare env decl)) (with_peer (z_interest_process_undeclares env (de_decl decl)))
   | Decl_Final \<Rightarrow>
       then_do (lift_zn (z_liveliness_process_declare_final env decl))
         (if \<not> oid_has_value (de_interest_id decl) then fail Z_ERR_MESSAGE_ZENOH_DECLARATION_UNKNOWN
          else with_peer (z_interest_process_declare_final env (oid_value (de_interest_id decl)))))"

text \<open>The message is cleared after that.\<close>

definition z_handle_declare :: "('c, 'w) z_env \<Rightarrow> z_n_msg_declare_t \<Rightarrow> (unit, ('c, 'w) zn_peer) prog" where
  "z_handle_declare env decl = z_handle_declare_inner env decl"

text \<open>The number of a query is kept in 32 bits.\<close>

definition send_response_final :: "('c, 'w) z_env \<Rightarrow> z_zint_t \<Rightarrow> (unit, 'c, 'w) zprog" where
  "send_response_final env rid =
     env_send_n_msg env (z_n_msg_make_response_final rid) Z_RELIABILITY_RELIABLE Z_CONGESTION_CONTROL_BLOCK None"

definition z_handle_request ::
    "('c, 'w) z_env \<Rightarrow> z_n_msg_request_t \<Rightarrow> z_reliability_t \<Rightarrow> (unit, ('c, 'w) zn_peer) prog" where
  "z_handle_request env req reliability = (case rq_body req of
     Request_Query q \<Rightarrow> with_peer (z_trigger_queryables env q (rq_key req) (ucast (rq_rid req)) (rq_ext_qos req))
   | Request_Put put \<Rightarrow>
       then_do (with_peer (z_trigger_subscriptions_put env (rq_key req) (put_payload put) (put_encoding put)
                  (pc_timestamp (put_commons put)) (rq_ext_qos req) (put_attachment put) reliability (pc_source_info (put_commons put))))
         (lift_zn (send_response_final env (rq_rid req)))
   | Request_Del del \<Rightarrow>
       then_do (with_peer (z_trigger_subscriptions_del env (rq_key req) (pc_timestamp (del_commons del)) (rq_ext_qos req)
                  (del_attachment del) reliability (pc_source_info (del_commons del))))
         (lift_zn (send_response_final env (rq_rid req))))"

definition z_handle_response :: "('c, 'w) z_env \<Rightarrow> z_n_msg_response_t \<Rightarrow> (unit, ('c, 'w) zn_peer) prog" where
  "z_handle_response env resp =
     (let replier_id = \<lparr>eg_zid = rs_zid resp, eg_eid = rs_eid resp\<rparr> in
      case rs_body resp of
        Response_Reply r \<Rightarrow> with_peer (z_trigger_reply_partial env (rs_request_id resp) (rs_key resp) r replier_id)
      | Response_Err e \<Rightarrow> lift_zn (z_trigger_reply_err env (rs_request_id resp) e replier_id))"

definition Z_INTEREST_NOT_FINAL_MASK :: u8 where
  "Z_INTEREST_NOT_FINAL_MASK = Z_INTEREST_FLAG_CURRENT OR Z_INTEREST_FLAG_FUTURE"

text \<open>What becomes of an interest is not looked at.\<close>

definition z_handle_network_message :: "('c, 'w) z_env \<Rightarrow> z_network_message_t \<Rightarrow> (unit, ('c, 'w) zn_peer) prog" where
  "z_handle_network_message env msg = (case nm_body msg of
     N_Declare d \<Rightarrow> z_handle_declare env d
   | N_Push p \<Rightarrow> with_peer (z_trigger_push env p (nm_reliability msg))
   | N_Request r \<Rightarrow> z_handle_request env r (nm_reliability msg)
   | N_Response r \<Rightarrow> z_handle_response env r
   | N_Response_Final f \<Rightarrow> lift_zn (z_trigger_reply_final env f)
   | N_Interest n \<Rightarrow>
       (let i = ni_interest n in
        if in_flags i AND Z_INTEREST_NOT_FINAL_MASK \<noteq> 0
        then ignore (with_peer (z_interest_process_interest env (in_keyexpr i) (in_id i) (in_flags i)))
        else ignore (lift_zn (z_interest_process_interest_final (in_id i))))
   | N_Oam _ \<Rightarrow> ret ())"

text \<open>
  The handler of a transport, which has a pointer to the session: what the transport works on is paired with the
  session, and the peer has an address.
\<close>

definition session_handler ::
    "('c, 'w) z_env \<Rightarrow> nat \<Rightarrow> ('v \<times> ('c, 'w) z_session_t, 's, z_resource_t) message_handler" where
  "session_handler env addr msg cp =
     (let put = (\<lambda>zn p. ((fst cp)\<lparr>tc_net := (fst (tc_net (fst cp)), zn)\<rparr>, (case p of None \<Rightarrow> snd cp | Some (_, pc) \<Rightarrow> pc))) in
      case z_handle_network_message env msg (snd (tc_net (fst cp)), Some (addr, snd cp)) of
        Ok x s \<Rightarrow> Ok x (put (fst s) (snd s))
      | Err e s \<Rightarrow> Err e (put (fst s) (snd s))
      | Fault \<Rightarrow> Fault)"

section \<open>A session begins and ends\<close>

text \<open>
  The fields of a session are set in the memory the caller has for it; the mutexes are new. The tasks, the
  configuration and the group of callbacks that are waited for are not in the state.
\<close>

definition z_session_init :: "z_id_t \<Rightarrow> (unit, 'c, 'w) zprog" where
  "z_session_init zid =
     then_do (zmod (\<lambda>zn. zn\<lparr>zn_locked := False, zn_is_closed := True, zn_mode := Z_WHATAMI_CLIENT, zn_tp_type := Z_TRANSPORT_NONE,
        zn_entity_id := 1, zn_resource_id := 1, zn_query_id := 1, zn_declaration_cache := [], zn_local_resources := [],
        zn_subscriptions := [], zn_liveliness_subscriptions := [], zn_local_queryable := [], zn_pending_queries := []\<rparr>))
       (then_do z_liveliness_init
          (then_do z_interest_init (zmod (\<lambda>zn. zn\<lparr>zn_local_zid := zid, zn_is_closed := False\<rparr>))))"

definition z_session_close :: "('c, 'w) z_env \<Rightarrow> (unit, 'c, 'w) zprog" where
  "z_session_close env =
     then_do z_session_mutex_lock_if_open
       (then_do (zmod (\<lambda>zn. zn\<lparr>zn_is_closed := True, zn_declaration_cache := []\<rparr>))
         (then_do z_session_mutex_unlock
           (then_do z_flush_local_resources
             (then_do (z_flush_subscriptions env)
               (then_do (z_flush_session_queryable env)
                 (then_do (z_flush_pending_queries env)
                   (then_do (z_liveliness_clear env) (z_flush_interest env))))))))"

end
