(* ===== verification/Zp_Primitives.thy ===== *)
theory Zp_Primitives imports Zp_Dispatch
begin

text \<open>
  What an application does with a session: \<^verbatim>\<open>src/net/primitives.c\<close>, with what is declared kept for a
  transport that is opened again (\<^verbatim>\<open>src/net/session.c\<close>) and the replies to the session itself
  (\<^verbatim>\<open>src/session/loopback.c\<close>). A record says what these operations read of the configuration and of the
  transport. A declared expression is declared and cleared outside the lock. Groups of callbacks that are waited for
  are not in the state; memory is there when it is asked for.
\<close>

record z_conf_t =
  cf_config_is_empty :: bool
  cf_peers :: "z_whatami_t list"
  cf_has_link :: bool

section \<open>The cache of declarations\<close>

definition z_cache_declaration :: "z_conf_t \<Rightarrow> z_network_message_t \<Rightarrow> (unit, 'c, 'w) zprog" where
  "z_cache_declaration cf n_msg =
     (if cf_config_is_empty cf then ret ()
      else zmod (\<lambda>zn. zn\<lparr>zn_declaration_cache := z_list_push_back (zn_declaration_cache zn) (z_n_msg_clone n_msg)\<rparr>))"

text \<open>
  The filters read the number where a declaration of the kind that is undeclared has it, whatever the
  declaration is; \<open>mem\<close> is what lies there in the others.
\<close>

fun decl_kexpr_id :: "(z_declaration_t \<Rightarrow> u32) \<Rightarrow> z_declaration_t \<Rightarrow> u16" where
  "decl_kexpr_id mem (Decl_Kexpr d) = dk_id d"
| "decl_kexpr_id mem (Decl_Subscriber d) = we_id (ds_keyexpr d)"
| "decl_kexpr_id mem (Decl_Queryable d) = we_id (dq_keyexpr d)"
| "decl_kexpr_id mem (Decl_Token d) = we_id (dt_keyexpr d)"
| "decl_kexpr_id mem d = ucast (mem d)"

fun decl_entity_id :: "(z_declaration_t \<Rightarrow> u32) \<Rightarrow> z_declaration_t \<Rightarrow> u32" where
  "decl_entity_id mem (Decl_Subscriber d) = ds_id d"
| "decl_entity_id mem (Decl_Queryable d) = dq_id d"
| "decl_entity_id mem (Decl_Token d) = dt_id d"
| "decl_entity_id mem d = mem d"

definition z_cache_declaration_undeclare_filter_kexpr :: "(z_declaration_t \<Rightarrow> u32) \<Rightarrow> u16 \<Rightarrow> z_network_message_t \<Rightarrow> bool" where
  "z_cache_declaration_undeclare_filter_kexpr mem i right \<longleftrightarrow>
     (case nm_body right of N_Declare d \<Rightarrow> decl_kexpr_id mem (de_decl d) = i | _ \<Rightarrow> False)"

definition z_cache_declaration_undeclare_filter :: "(z_declaration_t \<Rightarrow> u32) \<Rightarrow> u32 \<Rightarrow> z_network_message_t \<Rightarrow> bool" where
  "z_cache_declaration_undeclare_filter mem i right \<longleftrightarrow>
     (case nm_body right of N_Declare d \<Rightarrow> decl_entity_id mem (de_decl d) = i | _ \<Rightarrow> False)"

definition z_cache_declaration_undeclare_filter_interest :: "u32 \<Rightarrow> z_network_message_t \<Rightarrow> bool" where
  "z_cache_declaration_undeclare_filter_interest i right \<longleftrightarrow>
     (case nm_body right of N_Interest n \<Rightarrow> in_id (ni_interest n) = i | _ \<Rightarrow> False)"

definition drop_cached :: "(z_network_message_t \<Rightarrow> bool) \<Rightarrow> (unit, 'c, 'w) zprog" where
  "drop_cached P = zmod (\<lambda>zn. zn\<lparr>zn_declaration_cache := fst (z_list_drop_filter P True (zn_declaration_cache zn))\<rparr>)"

definition z_prune_declaration :: "(z_declaration_t \<Rightarrow> u32) \<Rightarrow> z_network_message_t \<Rightarrow> (unit, 'c, 'w) zprog" where
  "z_prune_declaration mem n_msg = (case nm_body n_msg of
     N_Declare d \<Rightarrow> (case de_decl d of
         Undecl_Kexpr u \<Rightarrow> drop_cached (z_cache_declaration_undeclare_filter_kexpr mem (uk_id u))
       | Undecl_Subscriber u \<Rightarrow> drop_cached (z_cache_declaration_undeclare_filter mem (us_id u))
       | Undecl_Queryable u \<Rightarrow> drop_cached (z_cache_declaration_undeclare_filter mem (uq_id u))
       | Undecl_Token u \<Rightarrow> drop_cached (z_cache_declaration_undeclare_filter mem (ut_id u))
       | _ \<Rightarrow> ret ())
   | N_Interest n \<Rightarrow> drop_cached (z_cache_declaration_undeclare_filter_interest (in_id (ni_interest n)))
   | _ \<Rightarrow> ret ())"

text \<open>
  The send blocks: the message is sent, or the transport failed. The environment and what memory holds
  are the surroundings of an operation.
\<close>

record ('c, 'w) z_surr =
  sr_env :: "('c, 'w) z_env"
  sr_conf :: z_conf_t
  sr_mem :: "z_declaration_t \<Rightarrow> u32"

definition send_reliable :: "('c, 'w) z_surr \<Rightarrow> z_network_message_t \<Rightarrow> (unit, 'c, 'w) zprog" where
  "send_reliable sr n_msg = env_send_n_msg (sr_env sr) n_msg Z_RELIABILITY_RELIABLE Z_CONGESTION_CONTROL_BLOCK None"

definition z_send_declare :: "('c, 'w) z_surr \<Rightarrow> z_network_message_t \<Rightarrow> (unit, 'c, 'w) zprog" where
  "z_send_declare sr n_msg = then_do (send_reliable sr n_msg) (z_cache_declaration (sr_conf sr) n_msg)"

definition z_send_undeclare :: "('c, 'w) z_surr \<Rightarrow> z_network_message_t \<Rightarrow> (unit, 'c, 'w) zprog" where
  "z_send_undeclare sr n_msg = then_do (send_reliable sr n_msg) (z_prune_declaration (sr_mem sr) n_msg)"

definition declare_msg :: "z_declaration_t \<Rightarrow> z_network_message_t" where
  "declare_msg decl = z_n_msg_make_declare decl z_optional_id_make_none"

text \<open>A code that stands for a failure of the transport.\<close>

definition tx_failed :: "(unit, 's) prog \<Rightarrow> (unit, 's) prog" where
  "tx_failed p = bind_ok (attempt () p) (\<lambda>(r, _). if r \<noteq> Z_RES_OK then fail Z_ERR_TRANSPORT_TX_FAILED else ret ())"

text \<open>Run something, and something else when that fails, with the code of the failure.\<close>

definition clean_return :: "('a, 's) prog \<Rightarrow> (unit, 's) prog \<Rightarrow> ('a, 's) prog" where
  "clean_return p clean s = (case p s of Ok x s \<Rightarrow> Ok x s
     | Err e s \<Rightarrow> then_do (ignore clean) (fail e) s | Fault \<Rightarrow> Fault)"

fun router_among :: "z_whatami_t list \<Rightarrow> bool" where
  "router_among [] = False"
| "router_among (w # ws) = (if w = Z_WHATAMI_ROUTER then True else router_among ws)"

definition z_session_has_router_peer :: "z_conf_t \<Rightarrow> ('c, 'w) z_session_t \<Rightarrow> bool" where
  "z_session_has_router_peer cf zn \<longleftrightarrow>
     (zn_tp_type zn = Z_TRANSPORT_UNICAST_TYPE \<or> zn_tp_type zn = Z_TRANSPORT_MULTICAST_TYPE) \<and> router_among (cf_peers cf)"

section \<open>Opening again\<close>

text \<open>
  After the transport is opened, what was declared is sent again. A message that cannot be sent is tried
  again, on the same transport. \<open>None\<close>: no return.
\<close>

definition Z_ERR_TRANSPORT_OPEN_FAILED :: z_result_t where "Z_ERR_TRANSPORT_OPEN_FAILED = - 102"
definition Z_ERR_SCOUT_NO_RESULTS :: z_result_t where "Z_ERR_SCOUT_NO_RESULTS = - 87"

definition open_again :: "z_result_t \<Rightarrow> bool" where
  "open_again r \<longleftrightarrow> r = Z_ERR_TRANSPORT_OPEN_FAILED \<or> r = Z_ERR_SCOUT_NO_RESULTS \<or> r = Z_ERR_TRANSPORT_TX_FAILED \<or>
     r = Z_ERR_TRANSPORT_RX_FAILED"

partial_function (option) resend_cache ::
    "('c, 'w) z_surr \<Rightarrow> z_network_message_t list \<Rightarrow> ('c, 'w) z_session_t \<Rightarrow> (unit, ('c, 'w) z_session_t) res option" where
  "resend_cache sr iter zn = (case iter of [] \<Rightarrow> Some (Ok () zn)
     | n_msg # next_iter \<Rightarrow> (case send_reliable sr n_msg zn of
         Ok _ zn \<Rightarrow> resend_cache sr next_iter zn
       | Err _ zn \<Rightarrow> resend_cache sr iter zn
       | Fault \<Rightarrow> Some Fault))"

declare resend_cache.simps [code]

text \<open>\<open>z_open\<close> opens a transport, with the lock for it; \<open>start_tasks\<close> starts the tasks that are to run.\<close>

partial_function (option) z_reopen ::
    "('c, 'w) z_surr \<Rightarrow> (unit, 'c, 'w) zprog \<Rightarrow> (unit, 'c, 'w) zprog \<Rightarrow> ('c, 'w) z_session_t \<Rightarrow>
     (unit, ('c, 'w) z_session_t) res option" where
  "z_reopen sr z_open start_tasks zn =
     (if cf_config_is_empty (sr_conf sr) then Some (Ok () zn)
      else case z_open zn of
             Err e zn \<Rightarrow> if open_again e then z_reopen sr z_open start_tasks zn else Some (Err e zn)
           | Ok _ zn \<Rightarrow> (case start_tasks zn of
                 Ok _ zn \<Rightarrow> resend_cache sr (zn_declaration_cache zn) zn
               | Err e zn \<Rightarrow> Some (Err e zn)
               | Fault \<Rightarrow> Some Fault)
           | Fault \<Rightarrow> Some Fault)"

declare z_reopen.simps [code]

section \<open>Declared expressions\<close>

text \<open>An operation on the resources of the session itself.\<close>

definition no_peer :: "('a, ('c, 'w) zn_peer) prog \<Rightarrow> ('a, 'c, 'w) zprog" where
  "no_peer p zn = (case p (zn, None) of Ok x s \<Rightarrow> Ok x (fst s) | Err e s \<Rightarrow> Err e (fst s) | Fault \<Rightarrow> Fault)"

definition z_declare_resource :: "('c, 'w) z_surr \<Rightarrow> z_string_t \<Rightarrow> (u16, 'c, 'w) zprog" where
  "z_declare_resource sr key =
     (let expr = z_wireexpr_null\<lparr>we_id := Z_RESOURCE_ID_NONE, we_suffix := key\<rparr> in
      bind_ok (no_peer (z_register_resource expr Z_RESOURCE_ID_NONE)) (\<lambda>out_id.
        clean_return (then_do (z_send_declare sr (declare_msg (z_make_decl_keyexpr out_id expr))) (ret out_id))
          (no_peer (z_unregister_resource out_id))))"

text \<open>A positive code says that the number is still used.\<close>

definition z_undeclare_resource :: "('c, 'w) z_surr \<Rightarrow> u16 \<Rightarrow> (unit, 'c, 'w) zprog" where
  "z_undeclare_resource sr rid =
     bind_ok (attempt () (no_peer (z_unregister_resource rid))) (\<lambda>(r, _).
       if r = Z_RES_OK then tx_failed (z_send_undeclare sr (declare_msg (z_make_undecl_keyexpr rid)))
       else if 0 < sint r then ret () else fail r)"

text \<open>
  The declaration of an expression works on the session, which is lost when declaring its prefix
  faults. A transport that is multicast declares no prefix.
\<close>

definition declare_prefix_with ::
    "('c, 'w) z_surr \<Rightarrow> ('c, 'w) z_session_t option \<Rightarrow> z_string_t \<Rightarrow> z_result_t \<times> u16 \<times> ('c, 'w) z_session_t option" where
  "declare_prefix_with sr n key = (case n of None \<Rightarrow> (Z_RES_OK, 0, None)
     | Some zn \<Rightarrow> (case z_declare_resource sr key zn of
         Ok i zn \<Rightarrow> (Z_RES_OK, i, Some zn) | Err e zn \<Rightarrow> (e, 0, Some zn) | Fault \<Rightarrow> (Z_RES_OK, 0, None)))"

definition key_result ::
    "(z_result_t \<times> z_key_t \<times> ('c, 'w) z_session_t option) option \<Rightarrow> (z_key_t, ('c, 'w) z_session_t) res" where
  "key_result x = (case x of Some (r, key, Some zn) \<Rightarrow> if r = Z_RES_OK then Ok key zn else Err r zn | _ \<Rightarrow> Fault)"

definition declare_key :: "('c, 'w) z_surr \<Rightarrow> z_key_t \<Rightarrow> (z_key_t, 'c, 'w) zprog" where
  "declare_key sr key zn = key_result (z_declared_keyexpr_declare (declare_prefix_with sr)
     (zn_tp_type zn = Z_TRANSPORT_MULTICAST_TYPE) (zn_self zn) key (Some zn))"

definition declare_key_prefix :: "('c, 'w) z_surr \<Rightarrow> z_key_t \<Rightarrow> (z_key_t, 'c, 'w) zprog" where
  "declare_key_prefix sr key zn = key_result (z_declared_keyexpr_declare_non_wild_prefix (declare_prefix_with sr)
     (zn_tp_type zn = Z_TRANSPORT_MULTICAST_TYPE) (zn_self zn) key (Some zn))"

definition key_clear :: "('c, 'w) z_surr \<Rightarrow> z_key_t \<Rightarrow> (unit, 'c, 'w) zprog" where
  "key_clear sr key = ignore (env_key_clear (sr_env sr) key)"

section \<open>Publications\<close>

text \<open>The body of a del keeps what its memory held, \<open>mem\<close>.\<close>

definition z_write ::
    "('c, 'w) z_surr \<Rightarrow> z_msg_put_t \<Rightarrow> z_key_t \<Rightarrow> z_bytes_t option \<Rightarrow> z_encoding_t option \<Rightarrow> z_sample_kind_t \<Rightarrow>
     z_congestion_control_t \<Rightarrow> z_priority_t \<Rightarrow> bool \<Rightarrow> z_timestamp_t option \<Rightarrow> z_bytes_t option \<Rightarrow> z_reliability_t \<Rightarrow>
     z_source_info_t option \<Rightarrow> z_locality_t \<Rightarrow> (unit, 'c, 'w) zprog" where
  "z_write sr mem keyexpr payload encoding kind cong_ctrl priority is_express timestamp attachment reliability source_info
     allowed_destination =
     (let qos = z_n_qos_create is_express
        (if cong_ctrl = Z_CONGESTION_CONTROL_BLOCK then Z_CONGESTION_CONTROL_BLOCK else Z_CONGESTION_CONTROL_DROP) priority in
      if z_locality_allows_remote allowed_destination
      then bind_ok (declared_wire keyexpr) (\<lambda>wireexpr.
        let msg = (case kind of
            Z_SAMPLE_KIND_PUT \<Rightarrow> z_n_msg_make_push_put wireexpr payload encoding qos timestamp attachment reliability source_info
          | Z_SAMPLE_KIND_DELETE \<Rightarrow> z_n_msg_make_push_del mem wireexpr qos timestamp reliability source_info) in
        tx_failed (env_send_n_msg (sr_env sr) msg reliability cong_ctrl None))
      else ret ())"

section \<open>Subscribers\<close>

record z_subscriber_t =
  sb_entity_id :: u32
  sb_zn :: "nat option"

text \<open>
  The expression of the caller goes on the wire, not the one that is kept. What a session that was closed
  refuses was dropped and is null when it is cleared again.
\<close>

definition announce_subscriber :: "('c, 'w) z_surr \<Rightarrow> z_key_t \<Rightarrow> u32 \<Rightarrow> (unit, 'c, 'w) zprog" where
  "announce_subscriber sr keyexpr i =
     bind_ok (declared_wire keyexpr) (\<lambda>wire_expr. z_send_declare sr (declare_msg (z_make_decl_subscriber wire_expr i)))"

definition z_register_subscriber ::
    "('c, 'w) z_surr \<Rightarrow> z_key_t \<Rightarrow> 'c \<Rightarrow> 'c option \<Rightarrow> z_locality_t \<Rightarrow> (u32, 'c, 'w) zprog" where
  "z_register_subscriber sr keyexpr callback dropper allowed_origin =
     bind_ok z_get_entity_id (\<lambda>i.
       let s = \<lparr>su_key = z_declared_keyexpr_null, su_id = i, su_allowed_origin = allowed_origin, su_callback = callback,
                su_dropper = dropper\<rparr> in
       bind_ok (clean_return (declare_key_prefix sr keyexpr) (z_subscription_clear (sr_env sr) s)) (\<lambda>key.
       bind_ok (z_register_subscription (sr_env sr) Z_SUBSCRIBER_KIND_SUBSCRIBER (s\<lparr>su_key := key\<rparr>)) (\<lambda>sp_s.
         if sp_s = None
         then then_do (z_subscription_clear (sr_env sr) (s\<lparr>su_dropper := None\<rparr>)) (fail Z_ERR_SYSTEM_OUT_OF_MEMORY)
         else then_do (when_do (z_locality_allows_remote allowed_origin)
                (clean_return (announce_subscriber sr keyexpr i)
                   (z_unregister_subscription (sr_env sr) Z_SUBSCRIBER_KIND_SUBSCRIBER sp_s)))
              (then_do (sub_rc_drop (sr_env sr) sp_s) (ret i)))))"

definition z_declare_subscriber ::
    "('c, 'w) z_surr \<Rightarrow> z_key_t \<Rightarrow> 'c \<Rightarrow> 'c option \<Rightarrow> z_locality_t \<Rightarrow> (z_subscriber_t, 'c, 'w) zprog" where
  "z_declare_subscriber sr keyexpr callback dropper allowed_origin =
     bind_ok (zget zn_self) (\<lambda>self.
     bind_ok (z_register_subscriber sr keyexpr callback dropper allowed_origin) (\<lambda>i. ret \<lparr>sb_entity_id = i, sb_zn = Some self\<rparr>))"

text \<open>A subscriber of liveliness is undeclared through the session without looking whether it is open.\<close>

definition z_undeclare_liveliness_subscriber :: "('c, 'w) z_surr \<Rightarrow> z_subscriber_t \<Rightarrow> (unit, 'c, 'w) zprog" where
  "z_undeclare_liveliness_subscriber sr sub =
     (if sb_zn sub = None then fail Z_ERR_ENTITY_UNKNOWN
      else bind_ok (z_get_subscription_by_id Z_SUBSCRIBER_KIND_LIVELINESS_SUBSCRIBER (ucast (sb_entity_id sub))) (\<lambda>s.
        if s = None then fail Z_ERR_ENTITY_UNKNOWN
        else bind_ok (on_subs (rc_read s)) (\<lambda>sv.
          then_do (tx_failed (z_send_undeclare sr (z_n_msg_make_interest (z_make_interest_final (su_id sv)))))
            (z_unregister_subscription (sr_env sr) Z_SUBSCRIBER_KIND_LIVELINESS_SUBSCRIBER s))))"

definition undeclare_wire :: "z_key_t \<Rightarrow> (z_wireexpr_t option, 'c, 'w) zprog" where
  "undeclare_wire key = bind_ok (zget zn_mode) (\<lambda>mode.
     if mode = Z_WHATAMI_CLIENT then ret None else bind_ok (declared_wire key) (\<lambda>w. ret (Some w)))"

text \<open>
  The subscription goes also when the others could not be told. A session that is closed, or
  has been freed, is not upgraded.
\<close>

definition z_undeclare_subscriber :: "('c, 'w) z_surr \<Rightarrow> z_subscriber_t \<Rightarrow> (unit, 'c, 'w) zprog" where
  "z_undeclare_subscriber sr sub =
     (if sb_zn sub = None then fail Z_ERR_ENTITY_UNKNOWN
      else bind_ok (zget z_session_is_closed) (\<lambda>closed. if closed then fail Z_ERR_SESSION_CLOSED
      else bind_ok (z_get_subscription_by_id Z_SUBSCRIBER_KIND_SUBSCRIBER (ucast (sb_entity_id sub))) (\<lambda>s.
        if s = None then z_undeclare_liveliness_subscriber sr sub
        else bind_ok (on_subs (rc_read s)) (\<lambda>sv.
          bind_ok (if z_locality_allows_remote (su_allowed_origin sv)
                   then bind_ok (undeclare_wire (su_key sv)) (\<lambda>expr.
                     attempt () (tx_failed (z_send_undeclare sr (declare_msg (z_make_undecl_subscriber (sb_entity_id sub) expr)))))
                   else ret (Z_RES_OK, ())) (\<lambda>(r, _).
          then_do (z_unregister_subscription (sr_env sr) Z_SUBSCRIBER_KIND_SUBSCRIBER s) (return_code r ()))))))"

section \<open>Queryables\<close>

record z_queryable_t =
  qb_entity_id :: u32
  qb_zn :: "nat option"

definition announce_queryable :: "('c, 'w) z_surr \<Rightarrow> z_key_t \<Rightarrow> u32 \<Rightarrow> bool \<Rightarrow> (unit, 'c, 'w) zprog" where
  "announce_queryable sr key i complete =
     bind_ok (declared_wire key) (\<lambda>wire_expr.
       z_send_declare sr (declare_msg (z_make_decl_queryable wire_expr i complete Z_QUERYABLE_DISTANCE_DEFAULT)))"

definition z_register_queryable ::
    "('c, 'w) z_surr \<Rightarrow> z_key_t \<Rightarrow> bool \<Rightarrow> 'c \<Rightarrow> 'c option \<Rightarrow> z_locality_t \<Rightarrow> (u32, 'c, 'w) zprog" where
  "z_register_queryable sr keyexpr complete callback dropper allowed_origin =
     bind_ok z_get_entity_id (\<lambda>i.
       let q = \<lparr>qy_key = z_declared_keyexpr_null, qy_id = i, qy_callback = callback, qy_dropper = dropper, qy_complete = complete,
                qy_allowed_origin = allowed_origin\<rparr> in
       bind_ok (clean_return (declare_key_prefix sr keyexpr) (z_session_queryable_clear (sr_env sr) q)) (\<lambda>key.
       bind_ok (z_register_session_queryable (sr_env sr) (q\<lparr>qy_key := key\<rparr>)) (\<lambda>sp_q.
         if sp_q = None
         then then_do (z_session_queryable_clear (sr_env sr) (q\<lparr>qy_dropper := None\<rparr>)) (fail Z_ERR_SYSTEM_OUT_OF_MEMORY)
         else then_do (when_do (z_locality_allows_remote allowed_origin)
                (clean_return (announce_queryable sr key i complete) (z_unregister_session_queryable (sr_env sr) sp_q)))
              (then_do (qle_rc_drop (sr_env sr) sp_q) (ret i)))))"

definition z_declare_queryable ::
    "('c, 'w) z_surr \<Rightarrow> z_key_t \<Rightarrow> bool \<Rightarrow> 'c \<Rightarrow> 'c option \<Rightarrow> z_locality_t \<Rightarrow> (z_queryable_t, 'c, 'w) zprog" where
  "z_declare_queryable sr keyexpr complete callback dropper allowed_origin =
     bind_ok (zget zn_self) (\<lambda>self.
     bind_ok (z_register_queryable sr keyexpr complete callback dropper allowed_origin) (\<lambda>i. ret \<lparr>qb_entity_id = i, qb_zn = Some self\<rparr>))"

definition z_undeclare_queryable :: "('c, 'w) z_surr \<Rightarrow> z_queryable_t \<Rightarrow> (unit, 'c, 'w) zprog" where
  "z_undeclare_queryable sr qle =
     (if qb_zn qle = None then fail Z_ERR_ENTITY_UNKNOWN
      else bind_ok (zget z_session_is_closed) (\<lambda>closed. if closed then fail Z_ERR_SESSION_CLOSED
      else bind_ok (z_get_session_queryable_by_id (ucast (qb_entity_id qle))) (\<lambda>q.
        if q = None then fail Z_ERR_ENTITY_UNKNOWN
        else bind_ok (on_qles (rc_read q)) (\<lambda>qv.
          bind_ok (if z_locality_allows_remote (qy_allowed_origin qv)
                   then bind_ok (undeclare_wire (qy_key qv)) (\<lambda>expr.
                     attempt () (tx_failed (z_send_undeclare sr (declare_msg (z_make_undecl_queryable (qb_entity_id qle) expr)))))
                   else ret (Z_RES_OK, ())) (\<lambda>(r, _).
          then_do (z_unregister_session_queryable (sr_env sr) q) (return_code r ()))))))"

end
