(* ===== verification/Zp_Requests.thy ===== *)
theory Zp_Requests imports Zp_Primitives
begin

text \<open>
  Queries and their replies, interests, and liveliness, as an application asks for them: the rest of
  \<^verbatim>\<open>src/net/primitives.c\<close> that works on a session, \<^verbatim>\<open>src/net/liveliness.c\<close>, and the replies that a session sends to
  itself (\<^verbatim>\<open>src/session/loopback.c\<close>). What memory holds where a structure is not filled is an argument.
\<close>

section \<open>Replies\<close>

text \<open>A reply to a query of the session itself goes to its handler as from no peer.\<close>

definition deliver_locally :: "('c, 'w) z_surr \<Rightarrow> z_network_message_t \<Rightarrow> (unit, 'c, 'w) zprog" where
  "deliver_locally sr msg =
     bind_ok (zget zn_tp_type) (\<lambda>tp. if tp = Z_TRANSPORT_NONE then fail Z_ERR_INVALID
       else no_peer (z_handle_network_message (sr_env sr) msg))"

definition Z_PRIORITY_DEFAULT :: z_priority_t where "Z_PRIORITY_DEFAULT = 5"

definition reply_ok_msg ::
    "z_msg_put_t \<Rightarrow> z_id_t \<Rightarrow> u32 \<Rightarrow> z_wireexpr_t \<Rightarrow> z_sample_kind_t \<Rightarrow> z_n_qos_t \<Rightarrow> z_timestamp_t option \<Rightarrow>
     z_source_info_t option \<Rightarrow> z_bytes_t option \<Rightarrow> z_encoding_t option \<Rightarrow> z_bytes_t option \<Rightarrow> z_network_message_t" where
  "reply_ok_msg mem zid rid wireexpr kind qos timestamp source_info payload encoding att = (case kind of
     Z_SAMPLE_KIND_PUT \<Rightarrow> z_n_msg_make_reply_ok_put zid (ucast rid) wireexpr Z_RELIABILITY_DEFAULT Z_CONSOLIDATION_MODE_DEFAULT
       qos timestamp source_info payload encoding att
   | Z_SAMPLE_KIND_DELETE \<Rightarrow> z_n_msg_make_reply_ok_del mem zid (ucast rid) wireexpr Z_RELIABILITY_DEFAULT
       Z_CONSOLIDATION_MODE_DEFAULT qos timestamp source_info att)"

definition z_session_deliver_reply_locally ::
    "('c, 'w) z_surr \<Rightarrow> z_msg_put_t \<Rightarrow> z_query_t \<Rightarrow> z_key_t \<Rightarrow> z_bytes_t option \<Rightarrow> z_encoding_t option \<Rightarrow> z_sample_kind_t \<Rightarrow>
     z_n_qos_t \<Rightarrow> z_timestamp_t option \<Rightarrow> z_bytes_t option \<Rightarrow> z_source_info_t option \<Rightarrow> (unit, 'c, 'w) zprog" where
  "z_session_deliver_reply_locally sr mem query keyexpr payload encoding kind qos timestamp attachment source_info =
     bind_ok (declared_wire keyexpr) (\<lambda>wireexpr. bind_ok (zget zn_local_zid) (\<lambda>zid.
       deliver_locally sr (reply_ok_msg mem zid (qu_request_id query) wireexpr kind qos timestamp source_info
         (Some (given [] payload)) (Some (given z_encoding_null encoding)) (Some (given [] attachment)))))"

definition z_session_deliver_reply_err_locally ::
    "('c, 'w) z_surr \<Rightarrow> z_query_t \<Rightarrow> z_bytes_t option \<Rightarrow> z_encoding_t option \<Rightarrow> z_n_qos_t \<Rightarrow> (unit, 'c, 'w) zprog" where
  "z_session_deliver_reply_err_locally sr query payload encoding qos =
     bind_ok (zget zn_local_zid) (\<lambda>zid.
       deliver_locally sr (z_n_msg_make_reply_err zid (ucast (qu_request_id query)) Z_RELIABILITY_DEFAULT qos
         (Some (given [] payload)) (Some (given z_encoding_null encoding)) None))"

definition z_send_reply ::
    "('c, 'w) z_surr \<Rightarrow> z_msg_put_t \<Rightarrow> z_query_t \<Rightarrow> z_key_t \<Rightarrow> z_bytes_t option \<Rightarrow> z_encoding_t option \<Rightarrow> z_sample_kind_t \<Rightarrow> bool \<Rightarrow>
     z_timestamp_t option \<Rightarrow> z_bytes_t option \<Rightarrow> z_source_info_t option \<Rightarrow> (unit, 'c, 'w) zprog" where
  "z_send_reply sr mem query keyexpr payload encoding kind is_express timestamp att source_info =
     bind_ok (if qu_anyke query then ret True else of_option (z_declared_keyexpr_intersects (qu_key query) keyexpr)) (\<lambda>hit.
       if \<not> hit then fail Z_ERR_KEYEXPR_NOT_MATCH
       else let qos = z_n_qos_create is_express (z_n_qos_get_congestion_control (qu_qos query)) (z_n_qos_get_priority (qu_qos query)) in
         if qu_is_local query
         then z_session_deliver_reply_locally sr mem query keyexpr payload encoding kind qos timestamp att source_info
         else bind_ok (declared_wire keyexpr) (\<lambda>wireexpr. bind_ok (zget zn_local_zid) (\<lambda>zid.
           tx_failed (send_reliable sr (reply_ok_msg mem zid (qu_request_id query) wireexpr kind qos timestamp source_info
             payload encoding att)))))"

definition z_send_reply_err ::
    "('c, 'w) z_surr \<Rightarrow> z_query_t \<Rightarrow> z_bytes_t option \<Rightarrow> z_encoding_t option \<Rightarrow> (unit, 'c, 'w) zprog" where
  "z_send_reply_err sr query payload encoding =
     (let qos = z_n_qos_create False Z_CONGESTION_CONTROL_BLOCK Z_PRIORITY_DEFAULT in
      if qu_is_local query then z_session_deliver_reply_err_locally sr query payload encoding qos
      else bind_ok (zget zn_local_zid) (\<lambda>zid.
        tx_failed (send_reliable sr (z_n_msg_make_reply_err zid (ucast (qu_request_id query)) Z_RELIABILITY_DEFAULT qos payload encoding
          (Some z_source_info_null)))))"

section \<open>Queries\<close>

text \<open>The selector \<^verbatim>\<open>_time=\<close> anywhere in the parameters.\<close>

definition Z_SELECTOR_TIME :: "byte list" where "Z_SELECTOR_TIME = [0x5f, 0x74, 0x69, 0x6d, 0x65, 0x3d]"

definition query_consolidation :: "byte list option \<Rightarrow> z_consolidation_mode_t \<Rightarrow> z_consolidation_mode_t option" where
  "query_consolidation parameters consolidation =
     (if consolidation \<noteq> Z_CONSOLIDATION_MODE_AUTO then Some consolidation
      else case parameters of None \<Rightarrow> Some Z_CONSOLIDATION_MODE_LATEST
           | Some p \<Rightarrow> map_option (\<lambda>found. if found \<noteq> None then Z_CONSOLIDATION_MODE_NONE else Z_CONSOLIDATION_MODE_LATEST)
               (z_strstr p 0 (length p) Z_SELECTOR_TIME))"

datatype z_reply_keyexpr_t = Z_REPLY_KEYEXPR_ANY | Z_REPLY_KEYEXPR_MATCHING_QUERY

text \<open>
  The parameters are a null pointer or a buffer of \<open>parameters_len\<close> bytes. The queries that are
  pending get a new entry while the lock is held; the message is sent without it. The budget of the
  message and its target are not among what is sent.
\<close>

definition new_pending ::
    "z_string_t \<Rightarrow> z_optional_id_t \<Rightarrow> 'c \<Rightarrow> 'c option \<Rightarrow> z_locality_t \<Rightarrow> u64 \<Rightarrow> u64 \<Rightarrow> z_query_target_t \<Rightarrow> z_consolidation_mode_t \<Rightarrow> bool \<Rightarrow>
     'c z_pending_query_t" where
  "new_pending key querier_id callback dropper allowed_destination now timeout_ms target consolidation anyke =
     \<lparr>pq_key = key, pq_querier_id = querier_id, pq_id = 0, pq_callback = callback, pq_dropper = dropper,
      pq_allowed_destination = allowed_destination, pq_start_time = now, pq_timeout = timeout_ms, pq_remaining_finals = 1,
      pq_pending_replies = [], pq_target = target, pq_consolidation = consolidation, pq_anyke = anyke\<rparr>"

definition z_query ::
    "('c, 'w) z_surr \<Rightarrow> u64 \<Rightarrow> z_optional_id_t \<Rightarrow> z_key_t \<Rightarrow> byte list option \<Rightarrow> nat \<Rightarrow> z_query_target_t \<Rightarrow> z_consolidation_mode_t \<Rightarrow>
     z_bytes_t option \<Rightarrow> z_encoding_t option \<Rightarrow> 'c \<Rightarrow> 'c option \<Rightarrow> u64 \<Rightarrow> z_bytes_t option \<Rightarrow> z_n_qos_t \<Rightarrow> z_source_info_t option \<Rightarrow>
     z_reply_keyexpr_t \<Rightarrow> z_locality_t \<Rightarrow> (unit, 'c, 'w) zprog" where
  "z_query sr now querier_id keyexpr parameters parameters_len target consolidation payload encoding callback dropper timeout_ms
     attachment qos source_info accept_replies allowed_destination =
     (if parameters = None \<and> 0 < parameters_len then fail Z_ERR_INVALID
      else bind_ok (of_option (query_consolidation parameters consolidation)) (\<lambda>consolidation.
      let remote_possible = z_locality_allows_remote allowed_destination \<and> cf_has_link (sr_conf sr) in
      bind_ok (of_option (z_parameters_has_anyke (given [] parameters))) (\<lambda>anyke_in_parameters.
      let anyke_option = (accept_replies = Z_REPLY_KEYEXPR_ANY);
          implicit_anyke = (anyke_option \<and> \<not> anyke_in_parameters) in
      then_do (clean_return z_session_mutex_lock_if_open (drop_opt (sr_env sr) dropper))
        (bind_ok (unsafe_register_pending_query (new_pending (dke_inner keyexpr) querier_id callback dropper allowed_destination now
            timeout_ms target consolidation (anyke_in_parameters \<or> anyke_option))) (\<lambda>qid.
         then_do z_session_mutex_unlock
           (clean_return
              (if remote_possible
               then bind_ok (declared_wire keyexpr) (\<lambda>wireexpr.
                 env_send_n_msg (sr_env sr) (z_n_msg_make_query wireexpr (given [] parameters) qid Z_RELIABILITY_DEFAULT consolidation
                   payload encoding timeout_ms attachment qos source_info implicit_anyke)
                   Z_RELIABILITY_RELIABLE (z_n_qos_get_congestion_control qos) None)
               else ret ())
              (z_unregister_pending_query (sr_env sr) qid)))))))"

section \<open>Interests\<close>

text \<open>
  The others are told of an interest by a client and, in a peer, when one of them is a router; of its
  end they are told by a client only. The number 0 stands for a failure.
\<close>

definition tell_interest :: "('c, 'w) z_surr \<Rightarrow> z_key_t \<Rightarrow> u32 \<Rightarrow> u8 \<Rightarrow> (unit, 'c, 'w) zprog" where
  "tell_interest sr keyexpr i flags =
     bind_ok (zget (\<lambda>zn. zn_mode zn = Z_WHATAMI_CLIENT \<or> z_session_has_router_peer (sr_conf sr) zn)) (\<lambda>tell.
       when_do tell (bind_ok (declared_wire keyexpr) (\<lambda>wireexpr.
         let n_msg = z_n_msg_make_interest (z_make_interest (Some wireexpr) i flags) in
         then_do (send_reliable sr n_msg) (z_cache_declaration (sr_conf sr) n_msg))))"

definition z_add_interest ::
    "('c, 'w) z_surr \<Rightarrow> (z_declare_data_t \<Rightarrow> bool) \<Rightarrow> z_key_t \<Rightarrow> 'c \<Rightarrow> u8 \<Rightarrow> 'c option \<Rightarrow> (u32, 'c, 'w) zprog" where
  "z_add_interest sr mem keyexpr callback flags arg =
     bind_ok z_get_entity_id (\<lambda>i.
       let intr = \<lparr>si_key = dke_inner keyexpr, si_id = i, si_callback = Some callback, si_arg = arg, si_flags = flags\<rparr> in
       bind_ok (z_register_interest intr) (\<lambda>sintr.
         if sintr = None then then_do (drop_opt (sr_env sr) arg) (ret 0)
         else bind_ok (attempt () (tell_interest sr keyexpr i flags)) (\<lambda>(r, _).
           if r \<noteq> Z_RES_OK then then_do (z_unregister_interest (sr_env sr) sintr) (ret 0)
           else then_do (z_interest_replay_declare (sr_env sr) mem intr) (ret i))))"

definition z_remove_interest :: "('c, 'w) z_surr \<Rightarrow> u32 \<Rightarrow> (unit, 'c, 'w) zprog" where
  "z_remove_interest sr interest_id =
     bind_ok (z_get_interest_by_id (ucast interest_id)) (\<lambda>sintr.
       if sintr = None then fail Z_ERR_ENTITY_UNKNOWN
       else bind_ok (on_intrs (rc_read sintr)) (\<lambda>intr.
         bind_ok (zget zn_mode) (\<lambda>mode.
         then_do (when_do (mode = Z_WHATAMI_CLIENT)
            (let n_msg = z_n_msg_make_interest (z_make_interest_final (si_id intr)) in
             then_do (tx_failed (send_reliable sr n_msg)) (z_prune_declaration (sr_mem sr) n_msg)))
           (z_unregister_interest (sr_env sr) sintr))))"

section \<open>Liveliness tokens\<close>

definition z_liveliness_send_declare_token :: "('c, 'w) z_surr \<Rightarrow> u32 \<Rightarrow> z_key_t \<Rightarrow> (unit, 'c, 'w) zprog" where
  "z_liveliness_send_declare_token sr i keyexpr =
     bind_ok (declared_wire keyexpr) (\<lambda>wireexpr. z_send_declare sr (declare_msg (z_make_decl_token wireexpr i)))"

definition z_liveliness_send_undeclare_token :: "('c, 'w) z_surr \<Rightarrow> u32 \<Rightarrow> z_key_t \<Rightarrow> (unit, 'c, 'w) zprog" where
  "z_liveliness_send_undeclare_token sr i keyexpr =
     bind_ok (declared_wire keyexpr) (\<lambda>wireexpr. z_send_undeclare sr (declare_msg (z_make_undecl_token i (Some wireexpr))))"

definition set_local_tokens :: "(z_key_t z_int_map_t \<Rightarrow> z_key_t z_int_map_t) \<Rightarrow> (unit, 'c, 'w) zprog" where
  "set_local_tokens f = zmod (\<lambda>zn. zn\<lparr>zn_local_tokens := f (zn_local_tokens zn)\<rparr>)"

text \<open>The token is its number; the others are told before it is kept.\<close>

definition z_declare_liveliness_token :: "('c, 'w) z_surr \<Rightarrow> z_key_t \<Rightarrow> (u32, 'c, 'w) zprog" where
  "z_declare_liveliness_token sr keyexpr =
     bind_ok z_get_entity_id (\<lambda>i.
     bind_ok (declare_key sr keyexpr) (\<lambda>ke.
     then_do (clean_return (z_liveliness_send_declare_token sr i ke) (key_clear sr ke))
      (then_do (clean_return z_session_mutex_lock_if_open (key_clear sr ke))
        (bind_ok (zget (\<lambda>zn. z_hashmap_get (zn_local_tokens zn) (ucast i))) (\<lambda>pkeyexpr.
          if pkeyexpr = None
          then then_do (set_local_tokens (\<lambda>m. z_hashmap_insert m (ucast i) ke True)) (then_do z_session_mutex_unlock (ret i))
          else then_do z_session_mutex_unlock
                 (then_do (ignore (z_liveliness_send_undeclare_token sr i ke))
                   (then_do (key_clear sr ke) (fail Z_ERR_ENTITY_DECLARATION_FAILED))))))))"

definition z_undeclare_liveliness_token :: "('c, 'w) z_surr \<Rightarrow> u32 \<Rightarrow> (unit, 'c, 'w) zprog" where
  "z_undeclare_liveliness_token sr token =
     bind_ok (zget z_session_is_closed) (\<lambda>closed. if closed then fail Z_ERR_SESSION_CLOSED
      else then_do z_session_mutex_lock
        (bind_ok (zget (\<lambda>zn. z_hashmap_extract (zn_local_tokens zn) (ucast token))) (\<lambda>(e, m).
         then_do (set_local_tokens (\<lambda>_. m))
          (then_do z_session_mutex_unlock
            (case e of None \<Rightarrow> fail Z_ERR_ENTITY_UNKNOWN
             | Some kv \<Rightarrow> bind_ok (attempt () (z_liveliness_send_undeclare_token sr token (snd kv))) (\<lambda>(r, _).
                 then_do (key_clear sr (snd kv)) (return_code r ())))))))"

section \<open>Liveliness subscribers\<close>

text \<open>The tokens that are known and concern a key, the last one found first.\<close>

fun tokens_by_key :: "z_string_t \<Rightarrow> z_string_t list \<Rightarrow> (u64 \<times> z_string_t) list \<Rightarrow> (z_string_t list, 's) prog" where
  "tokens_by_key key tokens_list [] = ret tokens_list"
| "tokens_by_key key tokens_list (e # es) =
     bind_ok (of_option (z_keyexpr_intersects key (snd e))) (\<lambda>hit.
       tokens_by_key key (if hit then snd e # tokens_list else tokens_list) es)"

definition history_sample :: "z_string_t \<Rightarrow> z_sample_t" where
  "history_sample key = z_sample_null\<lparr>sa_kind := Z_SAMPLE_KIND_PUT, sa_keyexpr := z_declared_keyexpr_null\<lparr>dke_inner := key\<rparr>\<rparr>"

definition z_liveliness_subscription_trigger_history :: "('c, 'w) z_surr \<Rightarrow> 'c z_subscription_t \<Rightarrow> (unit, 'c, 'w) zprog" where
  "z_liveliness_subscription_trigger_history sr sub =
     then_do z_session_mutex_lock_if_open
       (bind_ok (zget zn_remote_tokens) (\<lambda>m.
        bind_ok (tokens_by_key (dke_inner (su_key sub)) [] (iterate (z_hashmap_len m) m z_hashmap_iterator_make)) (\<lambda>tokens_list.
        then_do z_session_mutex_unlock
          (each (\<lambda>key. ignore (env_sample (sr_env sr) (su_callback sub) (history_sample key))) tokens_list))))"

definition liveliness_flags :: "bool \<Rightarrow> u8" where
  "liveliness_flags history = Z_INTEREST_FLAG_KEYEXPRS OR Z_INTEREST_FLAG_TOKENS OR Z_INTEREST_FLAG_RESTRICTED OR
     (if history then Z_INTEREST_FLAG_CURRENT OR Z_INTEREST_FLAG_FUTURE else Z_INTEREST_FLAG_FUTURE)"

definition announce_liveliness :: "('c, 'w) z_surr \<Rightarrow> 'c z_subscription_t \<Rightarrow> bool \<Rightarrow> (unit, 'c, 'w) zprog" where
  "announce_liveliness sr sub history =
     bind_ok (declared_wire (su_key sub)) (\<lambda>wireexpr.
       tx_failed (z_send_declare sr (z_n_msg_make_interest (z_make_interest (Some wireexpr) (su_id sub) (liveliness_flags history)))))"

definition z_register_liveliness_subscriber ::
    "('c, 'w) z_surr \<Rightarrow> z_key_t \<Rightarrow> 'c \<Rightarrow> 'c option \<Rightarrow> bool \<Rightarrow> (u32, 'c, 'w) zprog" where
  "z_register_liveliness_subscriber sr keyexpr callback dropper history =
     bind_ok z_get_entity_id (\<lambda>i.
       let s = \<lparr>su_key = z_declared_keyexpr_null, su_id = i, su_allowed_origin = z_locality_default, su_callback = callback,
                su_dropper = dropper\<rparr> in
       bind_ok (clean_return (declare_key sr keyexpr) (z_subscription_clear (sr_env sr) s)) (\<lambda>key.
       let sub = s\<lparr>su_key := key\<rparr> in
       bind_ok (z_register_subscription (sr_env sr) Z_SUBSCRIBER_KIND_LIVELINESS_SUBSCRIBER sub) (\<lambda>sp_s.
         if sp_s = None
         then then_do (z_subscription_clear (sr_env sr) (s\<lparr>su_dropper := None\<rparr>)) (fail Z_ERR_SYSTEM_OUT_OF_MEMORY)
         else then_do (clean_return
                (then_do (when_do history (z_liveliness_subscription_trigger_history sr sub)) (announce_liveliness sr sub history))
                (z_unregister_subscription (sr_env sr) Z_SUBSCRIBER_KIND_LIVELINESS_SUBSCRIBER sp_s))
              (then_do (sub_rc_drop (sr_env sr) sp_s) (ret i)))))"

definition z_declare_liveliness_subscriber ::
    "('c, 'w) z_surr \<Rightarrow> z_key_t \<Rightarrow> 'c \<Rightarrow> 'c option \<Rightarrow> bool \<Rightarrow> (z_subscriber_t, 'c, 'w) zprog" where
  "z_declare_liveliness_subscriber sr keyexpr callback dropper history =
     bind_ok (zget zn_self) (\<lambda>self.
     bind_ok (z_register_liveliness_subscriber sr keyexpr callback dropper history) (\<lambda>i. ret \<lparr>sb_entity_id = i, sb_zn = Some self\<rparr>))"

section \<open>Liveliness queries\<close>

definition z_liveliness_query :: "('c, 'w) z_surr \<Rightarrow> z_key_t \<Rightarrow> 'c \<Rightarrow> 'c option \<Rightarrow> (unit, 'c, 'w) zprog" where
  "z_liveliness_query sr keyexpr callback dropper =
     then_do (clean_return z_session_mutex_lock_if_open (drop_opt (sr_env sr) dropper))
       (bind_ok (unsafe_liveliness_register_pending_query
          \<lparr>lq_key = dke_inner keyexpr, lq_id = 0, lq_callback = callback, lq_dropper = dropper\<rparr>) (\<lambda>query_id.
        then_do z_session_mutex_unlock
          (clean_return
             (bind_ok (declared_wire keyexpr) (\<lambda>wireexpr.
                tx_failed (z_send_declare sr (z_n_msg_make_interest (z_make_interest (Some wireexpr) query_id
                  (Z_INTEREST_FLAG_KEYEXPRS OR Z_INTEREST_FLAG_TOKENS OR Z_INTEREST_FLAG_RESTRICTED OR Z_INTEREST_FLAG_CURRENT))))))
             (z_liveliness_unregister_pending_query (sr_env sr) query_id))))"

end
