(* ===== verification/Zp_Filter.thy ===== *)
theory Zp_Filter imports Zp_Requests
begin

text \<open>
  The filter of a publisher or a querier (\<^verbatim>\<open>src/net/filtering.c\<close>, \<^verbatim>\<open>src/net/matching.c\<close>): it is off while an
  entity is known that a publication would reach, and the listeners for that are told when it
  changes. The operations work on the context of a filter while its mutex is held; the result says which
  closures are called then, in their order. The targets of the session itself are switched off. With it, publishers and
  queriers as \<^verbatim>\<open>src/net/primitives.c\<close> declares them; the filter of one is cleared by an operation that is an argument.
\<close>

section \<open>The context of a filter\<close>

record z_filter_target_t =
  ft_peer :: "nat option"
  ft_decl_id :: u32

datatype z_write_filter_state_t = WRITE_FILTER_ACTIVE | WRITE_FILTER_OFF
datatype z_write_filter_target_type_t = Z_WRITE_FILTER_SUBSCRIBER | Z_WRITE_FILTER_QUERYABLE

record 'c z_closure_matching_status_t =
  ms_call :: 'c
  ms_drop :: "'c option"

record 'c z_write_filter_ctx_t =
  fc_zn :: "nat option"
  fc_targets :: "z_filter_target_t list"
  fc_callbacks :: "'c z_closure_matching_status_t z_int_map_t"
  fc_key :: z_string_t
  fc_state :: z_write_filter_state_t
  fc_is_complete :: bool
  fc_is_aggregate :: bool
  fc_allow_local :: bool
  fc_allow_remote :: bool
  fc_target_type :: z_write_filter_target_type_t
  fc_local_targets :: nat
  fc_registered :: bool

text \<open>What is called: a listener with whether something matches, or the dropper of one.\<close>

datatype 'c filter_call = Matching_Status 'c bool | Closure_Drop 'c

type_synonym 'c filter_step = "'c z_write_filter_ctx_t \<times> 'c filter_call list"

definition z_closure_matching_status_clear :: "'c z_closure_matching_status_t \<Rightarrow> 'c filter_call list" where
  "z_closure_matching_status_clear closure = (case ms_drop closure of None \<Rightarrow> [] | Some d \<Rightarrow> [Closure_Drop d])"

definition z_filter_target_peer_eq :: "z_filter_target_t \<Rightarrow> z_filter_target_t \<Rightarrow> bool" where
  "z_filter_target_peer_eq left right \<longleftrightarrow> ft_peer left = ft_peer right"

definition z_filter_target_eq :: "z_filter_target_t \<Rightarrow> z_filter_target_t \<Rightarrow> bool" where
  "z_filter_target_eq left right \<longleftrightarrow> ft_peer left = ft_peer right \<and> ft_decl_id left = ft_decl_id right"

definition z_write_filter_push_target :: "'c z_write_filter_ctx_t \<Rightarrow> nat option \<Rightarrow> u32 \<Rightarrow> 'c z_write_filter_ctx_t" where
  "z_write_filter_push_target ctx peer i =
     ctx\<lparr>fc_targets := z_list_push (fc_targets ctx) \<lparr>ft_peer = peer, ft_decl_id = i\<rparr>\<rparr>"

definition z_write_filter_peer_allowed :: "'c z_write_filter_ctx_t \<Rightarrow> nat option \<Rightarrow> bool" where
  "z_write_filter_peer_allowed ctx peer \<longleftrightarrow> peer = None \<and> fc_allow_local ctx \<or> peer \<noteq> None \<and> fc_allow_remote ctx"

definition listeners :: "'c z_write_filter_ctx_t \<Rightarrow> 'c z_closure_matching_status_t list" where
  "listeners ctx = map snd (iterate (z_hashmap_len (fc_callbacks ctx)) (fc_callbacks ctx) z_hashmap_iterator_make)"

definition z_write_filter_ctx_update_state :: "'c z_write_filter_ctx_t \<Rightarrow> 'c filter_step" where
  "z_write_filter_ctx_update_state ctx =
     (let state = (if fc_targets ctx = [] \<and> fc_local_targets ctx = 0 then WRITE_FILTER_ACTIVE else WRITE_FILTER_OFF);
          ctx' = ctx\<lparr>fc_state := state\<rparr>
      in if fc_state ctx \<noteq> state
         then (ctx', map (\<lambda>c. Matching_Status (ms_call c) (state \<noteq> WRITE_FILTER_ACTIVE)) (listeners ctx'))
         else (ctx', []))"

definition drop_target :: "z_filter_target_t \<Rightarrow> 'c z_write_filter_ctx_t \<Rightarrow> 'c z_write_filter_ctx_t" where
  "drop_target target ctx = ctx\<lparr>fc_targets := fst (z_list_drop_filter (z_filter_target_eq target) True (fc_targets ctx))\<rparr>"

text \<open>A declaration without a key, when it is looked at, is a null pointer.\<close>

definition target_complete :: "'c z_write_filter_ctx_t \<Rightarrow> z_interest_msg_t \<Rightarrow> bool option" where
  "target_complete ctx msg =
     (if \<not> fc_is_complete ctx then Some True
      else if \<not> im_is_complete msg then Some False
      else if fc_is_aggregate ctx then Some True
      else case im_key msg of None \<Rightarrow> None | Some key \<Rightarrow> z_keyexpr_includes key (fc_key ctx))"

definition filter_declare :: "z_interest_msg_t \<Rightarrow> nat option \<Rightarrow> 'c z_write_filter_ctx_t \<Rightarrow> 'c z_write_filter_ctx_t option" where
  "filter_declare msg peer ctx =
     (let ctx = drop_target \<lparr>ft_peer = peer, ft_decl_id = im_id msg\<rparr> ctx in
      if z_write_filter_peer_allowed ctx peer
      then map_option (\<lambda>ok. if ok then z_write_filter_push_target ctx peer (im_id msg) else ctx) (target_complete ctx msg)
      else Some ctx)"

definition z_write_filter_callback :: "z_interest_msg_t \<Rightarrow> nat option \<Rightarrow> 'c z_write_filter_ctx_t \<Rightarrow> 'c filter_step option" where
  "z_write_filter_callback msg peer ctx = map_option z_write_filter_ctx_update_state (case im_type msg of
     Z_INTEREST_MSG_TYPE_DECL_SUBSCRIBER \<Rightarrow> filter_declare msg peer ctx
   | Z_INTEREST_MSG_TYPE_DECL_QUERYABLE \<Rightarrow> filter_declare msg peer ctx
   | Z_INTEREST_MSG_TYPE_UNDECL_SUBSCRIBER \<Rightarrow> Some (drop_target \<lparr>ft_peer = peer, ft_decl_id = im_id msg\<rparr> ctx)
   | Z_INTEREST_MSG_TYPE_UNDECL_QUERYABLE \<Rightarrow> Some (drop_target \<lparr>ft_peer = peer, ft_decl_id = im_id msg\<rparr> ctx)
   | Z_INTEREST_MSG_TYPE_CONNECTION_DROPPED \<Rightarrow>
       Some (ctx\<lparr>fc_targets := fst (z_list_drop_filter (z_filter_target_peer_eq \<lparr>ft_peer = peer, ft_decl_id = 0\<rparr>) False (fc_targets ctx))\<rparr>)
   | _ \<Rightarrow> Some ctx)"

definition z_write_filter_ctx_active :: "'c z_write_filter_ctx_t \<Rightarrow> bool" where
  "z_write_filter_ctx_active ctx \<longleftrightarrow> fc_state ctx = WRITE_FILTER_ACTIVE"

section \<open>Listeners\<close>

definition closure_at :: "'c z_write_filter_ctx_t \<Rightarrow> u64 \<Rightarrow> 'c filter_call list" where
  "closure_at ctx i = (case z_hashmap_get (fc_callbacks ctx) i of None \<Rightarrow> [] | Some c \<Rightarrow> z_closure_matching_status_clear c)"

definition z_write_filter_ctx_remove_callback :: "u64 \<Rightarrow> 'c z_write_filter_ctx_t \<Rightarrow> 'c filter_step" where
  "z_write_filter_ctx_remove_callback i ctx = (ctx\<lparr>fc_callbacks := z_hashmap_remove (fc_callbacks ctx) i\<rparr>, closure_at ctx i)"

definition z_write_filter_ctx_remove_callbacks :: "'c z_write_filter_ctx_t \<Rightarrow> 'c filter_step" where
  "z_write_filter_ctx_remove_callbacks ctx =
     (ctx\<lparr>fc_callbacks := z_hashmap_clear (fc_callbacks ctx)\<rparr>, concat (map z_closure_matching_status_clear (listeners ctx)))"

text \<open>A listener that comes while something matches is told at once.\<close>

definition z_write_filter_ctx_add_callback :: "u64 \<Rightarrow> 'c z_closure_matching_status_t \<Rightarrow> 'c z_write_filter_ctx_t \<Rightarrow> 'c filter_step" where
  "z_write_filter_ctx_add_callback i v ctx =
     (ctx\<lparr>fc_callbacks := z_hashmap_insert (fc_callbacks ctx) i v True\<rparr>,
      (if z_write_filter_ctx_active ctx then [] else [Matching_Status (ms_call v) True]) @ closure_at ctx i)"

definition z_matching_listener_register ::
    "'c z_closure_matching_status_t \<Rightarrow> 'c z_write_filter_ctx_t \<Rightarrow> (u32 \<times> 'c filter_step, 'c, 'w) zprog" where
  "z_matching_listener_register callback ctx =
     bind_ok z_get_entity_id (\<lambda>i. ret (i, z_write_filter_ctx_add_callback (ucast i) callback ctx))"

text \<open>The context is referred to weakly: it may be gone.\<close>

definition z_matching_listener_undeclare :: "u32 \<Rightarrow> 'c z_write_filter_ctx_t option \<Rightarrow> 'c filter_step option" where
  "z_matching_listener_undeclare i ctx = map_option (z_write_filter_ctx_remove_callback (ucast i)) ctx"

section \<open>A new filter\<close>

definition write_filter_flags :: "z_conf_t \<Rightarrow> u8 \<Rightarrow> ('c, 'w) z_session_t \<Rightarrow> u8" where
  "write_filter_flags cf interest_flag zn =
     (let flags = interest_flag OR Z_INTEREST_FLAG_RESTRICTED OR Z_INTEREST_FLAG_CURRENT in
      if zn_mode zn = Z_WHATAMI_CLIENT
      then flags OR Z_INTEREST_FLAG_KEYEXPRS OR Z_INTEREST_FLAG_AGGREGATE OR Z_INTEREST_FLAG_FUTURE
      else if zn_mode zn = Z_WHATAMI_PEER \<and> z_session_has_router_peer cf zn
      then flags OR Z_INTEREST_FLAG_KEYEXPRS OR Z_INTEREST_FLAG_FUTURE else flags)"

definition write_filter_ctx :: "u8 \<Rightarrow> bool \<Rightarrow> z_locality_t \<Rightarrow> z_string_t \<Rightarrow> nat \<Rightarrow> 'c z_write_filter_ctx_t" where
  "write_filter_ctx flags complete locality ke self =
     \<lparr>fc_zn = Some self, fc_targets = [], fc_callbacks = z_int_void_map_make Z_DEFAULT_INT_MAP_CAPACITY, fc_key = ke,
      fc_state = WRITE_FILTER_ACTIVE, fc_is_complete = complete, fc_is_aggregate = (flags AND Z_INTEREST_FLAG_AGGREGATE \<noteq> 0),
      fc_allow_local = z_locality_allows_local locality, fc_allow_remote = z_locality_allows_remote locality,
      fc_target_type = (if Z_HAS_FLAG flags Z_INTEREST_FLAG_QUERYABLES then Z_WRITE_FILTER_QUERYABLE else Z_WRITE_FILTER_SUBSCRIBER),
      fc_local_targets = 0, fc_registered = False\<rparr>"

section \<open>Publishers and queriers\<close>

record z_publisher_t =
  pb_key :: z_key_t
  pb_id :: z_zint_t
  pb_zn :: "nat option"
  pb_encoding :: z_encoding_t
  pb_congestion_control :: z_congestion_control_t
  pb_priority :: z_priority_t
  pb_reliability :: z_reliability_t
  pb_is_express :: bool
  pb_allowed_destination :: z_locality_t

definition z_publisher_null :: z_publisher_t where
  "z_publisher_null = \<lparr>pb_key = z_declared_keyexpr_null, pb_id = 0, pb_zn = None, pb_encoding = z_encoding_null,
     pb_congestion_control = 0, pb_priority = 0, pb_reliability = 0, pb_is_express = False, pb_allowed_destination = Z_LOCALITY_ANY\<rparr>"

text \<open>The filter of a publisher that is being declared is null; that of one that is undeclared is cleared first.\<close>

definition z_undeclare_publisher ::
    "('c, 'w) z_surr \<Rightarrow> (unit, 'c, 'w) zprog \<Rightarrow> z_publisher_t \<Rightarrow> (z_publisher_t, 'c, 'w) zprog" where
  "z_undeclare_publisher sr z_write_filter_clear pub =
     (if pb_zn pub = None then fail Z_ERR_ENTITY_UNKNOWN
      else then_do (ignore z_write_filter_clear) (then_do (key_clear sr (pb_key pub)) (ret z_publisher_null)))"

definition z_declare_publisher ::
    "('c, 'w) z_surr \<Rightarrow> z_key_t \<Rightarrow> z_encoding_t option \<Rightarrow> z_congestion_control_t \<Rightarrow> z_priority_t \<Rightarrow> bool \<Rightarrow> z_reliability_t \<Rightarrow>
     z_locality_t \<Rightarrow> (z_publisher_t, 'c, 'w) zprog" where
  "z_declare_publisher sr keyexpr encoding congestion_control priority is_express reliability allowed_destination =
     bind_ok z_get_entity_id (\<lambda>i. bind_ok (zget zn_self) (\<lambda>self.
       let publisher = \<lparr>pb_key = z_declared_keyexpr_null, pb_id = ucast i, pb_zn = Some self,
             pb_encoding = given z_encoding_null encoding, pb_congestion_control = congestion_control, pb_priority = priority,
             pb_reliability = reliability, pb_is_express = is_express, pb_allowed_destination = allowed_destination\<rparr> in
       bind_ok (clean_return (declare_key sr keyexpr)
                  (bind_ok (z_undeclare_publisher sr (ret ()) publisher) (\<lambda>_. ret ()))) (\<lambda>key.
         ret (publisher\<lparr>pb_key := key\<rparr>))))"

record z_querier_t =
  qr_key :: z_key_t
  qr_id :: u32
  qr_zn :: "nat option"
  qr_encoding :: z_encoding_t
  qr_consolidation_mode :: z_consolidation_mode_t
  qr_target :: z_query_target_t
  qr_congestion_control :: z_congestion_control_t
  qr_priority :: z_priority_t
  qr_reliability :: z_reliability_t
  qr_is_express :: bool
  qr_accept_replies :: z_reply_keyexpr_t
  qr_timeout_ms :: u64
  qr_allowed_destination :: z_locality_t

definition z_querier_null :: z_querier_t where
  "z_querier_null = \<lparr>qr_key = z_declared_keyexpr_null, qr_id = 0, qr_zn = None, qr_encoding = z_encoding_null,
     qr_consolidation_mode = 0, qr_target = 0, qr_congestion_control = 0, qr_priority = 0, qr_reliability = 0, qr_is_express = False,
     qr_accept_replies = Z_REPLY_KEYEXPR_ANY, qr_timeout_ms = 0, qr_allowed_destination = Z_LOCALITY_ANY\<rparr>"

text \<open>The queries of a querier end with it, on a session that is open.\<close>

definition z_undeclare_querier ::
    "('c, 'w) z_surr \<Rightarrow> (unit, 'c, 'w) zprog \<Rightarrow> z_querier_t \<Rightarrow> (z_querier_t, 'c, 'w) zprog" where
  "z_undeclare_querier sr z_write_filter_clear querier =
     (if qr_zn querier = None then fail Z_ERR_ENTITY_UNKNOWN
      else bind_ok (zget z_session_is_closed) (\<lambda>closed.
        then_do (when_do (\<not> closed) (z_unregister_pending_queries_from_querier (sr_env sr) (qr_id querier)))
          (then_do (ignore z_write_filter_clear) (then_do (key_clear sr (qr_key querier)) (ret z_querier_null)))))"

definition z_declare_querier ::
    "('c, 'w) z_surr \<Rightarrow> z_key_t \<Rightarrow> z_consolidation_mode_t \<Rightarrow> z_congestion_control_t \<Rightarrow> z_query_target_t \<Rightarrow> z_priority_t \<Rightarrow> bool \<Rightarrow> u64 \<Rightarrow>
     z_encoding_t option \<Rightarrow> z_reliability_t \<Rightarrow> z_locality_t \<Rightarrow> z_reply_keyexpr_t \<Rightarrow> (z_querier_t, 'c, 'w) zprog" where
  "z_declare_querier sr keyexpr consolidation_mode congestion_control target priority is_express timeout_ms encoding reliability
     allowed_destination accept_replies =
     bind_ok z_get_entity_id (\<lambda>i. bind_ok (zget zn_self) (\<lambda>self.
       let querier = \<lparr>qr_key = z_declared_keyexpr_null, qr_id = i, qr_zn = Some self, qr_encoding = given z_encoding_null encoding,
             qr_consolidation_mode = consolidation_mode, qr_target = target, qr_congestion_control = congestion_control,
             qr_priority = priority, qr_reliability = reliability, qr_is_express = is_express, qr_accept_replies = accept_replies,
             qr_timeout_ms = timeout_ms, qr_allowed_destination = allowed_destination\<rparr> in
       bind_ok (clean_return (declare_key sr keyexpr)
                  (bind_ok (z_undeclare_querier sr (ret ()) querier) (\<lambda>_. ret ()))) (\<lambda>key. ret (querier\<lparr>qr_key := key\<rparr>))))"

end
