(* ===== verification/Zp_RcLaws.thy ===== *)
theory Zp_RcLaws imports Zp_Rc
begin

text \<open>
  What counting promises: with \<open>S\<close> the strong references that are in use and \<open>W\<close> the weak ones, the
  counters are their numbers, and a value is there exactly as long as a strong reference to it is.
\<close>

section \<open>One counter\<close>

definition cell_ok :: "z_inner_rc_t option \<Rightarrow> nat \<Rightarrow> nat \<Rightarrow> bool" where
  "cell_ok c s w \<longleftrightarrow> (case c of None \<Rightarrow> s = 0 \<and> w = 0
     | Some c \<Rightarrow> rc_strong_cnt c = of_nat s \<and> rc_weak_cnt c = of_nat (w + of_bool (0 < s)) \<and> 0 < s + w)"

definition rc_max :: nat where "rc_max = 2147483647"

lemma max_count: "unat Z_RC_MAX_COUNT = rc_max"
  by (simp add: Z_RC_MAX_COUNT_def rc_max_def)

lemma small_count: "n \<le> Suc rc_max \<Longrightarrow> unat (of_nat n :: u64) = n"
  by (simp add: rc_max_def unat_of_nat take_bit_nat_eq_self)

lemma cell_none [simp]: "cell_ok None s w \<longleftrightarrow> s = 0 \<and> w = 0"
  by (simp add: cell_ok_def)

lemma cell_some: "cell_ok c s w \<Longrightarrow> 0 < s + w \<Longrightarrow> \<exists>c'. c = Some c'"
  by (cases c) auto

lemma cell_strong: "cell_ok (Some c) s w \<Longrightarrow> s \<le> rc_max \<Longrightarrow> unat (rc_strong_cnt c) = s"
  by (simp add: cell_ok_def small_count)

lemma cell_weak: "cell_ok (Some c) s w \<Longrightarrow> w \<le> rc_max \<Longrightarrow> unat (rc_weak_cnt c) = w + of_bool (0 < s)"
  by (auto simp: cell_ok_def small_count simp del: of_nat_Suc of_nat_add)

lemma cell_new: "cell_ok (Some \<lparr>rc_strong_cnt = 1, rc_weak_cnt = 1\<rparr>) (Suc 0) 0"
  by (simp add: cell_ok_def)

lemma cell_inc_strong: "cell_ok (Some c) s w \<Longrightarrow> 0 < s \<Longrightarrow> cell_ok (Some (c\<lparr>rc_strong_cnt := rc_strong_cnt c + 1\<rparr>)) (Suc s) w"
  by (simp add: cell_ok_def)

lemma cell_inc_weak: "cell_ok (Some c) s w \<Longrightarrow> cell_ok (Some (c\<lparr>rc_weak_cnt := rc_weak_cnt c + 1\<rparr>)) s (Suc w)"
  by (simp add: cell_ok_def)

lemma cell_dec_strong: "cell_ok (Some c) (Suc s) w \<Longrightarrow> 0 < s \<Longrightarrow> cell_ok (Some (c\<lparr>rc_strong_cnt := rc_strong_cnt c - 1\<rparr>)) s w"
  by (simp add: cell_ok_def)

lemma cell_dec_weak: "cell_ok (Some c) s (Suc w) \<Longrightarrow> 0 < s + w \<Longrightarrow> cell_ok (Some (c\<lparr>rc_weak_cnt := rc_weak_cnt c - 1\<rparr>)) s w"
  by (auto simp: cell_ok_def)

lemma cell_last_strong:
  "cell_ok (Some c) (Suc 0) w \<Longrightarrow> 0 < w \<Longrightarrow>
   cell_ok (Some (c\<lparr>rc_strong_cnt := rc_strong_cnt c - 1, rc_weak_cnt := rc_weak_cnt c - 1\<rparr>)) 0 w"
  by (simp add: cell_ok_def)

section \<open>The counters are the references\<close>

definition owned :: "'v rc_store \<Rightarrow> nat multiset \<Rightarrow> nat multiset \<Rightarrow> bool" where
  "owned st S W \<longleftrightarrow> (\<forall>a. cell_ok (st_cnt st a) (count S a) (count W a) \<and>
     (st_val st a = None \<longleftrightarrow> count S a = 0) \<and> (st_next st \<le> a \<longrightarrow> st_cnt st a = None \<and> st_val st a = None) \<and>
     count S a \<le> rc_max \<and> count W a < rc_max)"

lemma ownedD:
  assumes "owned st S W"
  shows "cell_ok (st_cnt st a) (count S a) (count W a)" "st_val st a = None \<longleftrightarrow> count S a = 0"
    "st_next st \<le> a \<Longrightarrow> st_cnt st a = None" "count S a \<le> rc_max" "count W a < rc_max"
  using assms by (simp_all add: owned_def)

lemma owned_value: "owned st S W \<Longrightarrow> st_val st a \<noteq> None \<longleftrightarrow> a \<in># S"
  by (simp add: owned_def count_eq_zero_iff)

text \<open>Changing the counter and the value of one address.\<close>

lemma owned_change:
  assumes o: "owned st S W" and same: "\<And>b. b \<noteq> a \<Longrightarrow> count S' b = count S b \<and> count W' b = count W b"
    and c: "cell_ok c (count S' a) (count W' a)" and v: "v = None \<longleftrightarrow> count S' a = 0" and n: "a < n" "st_next st \<le> n"
    and b: "count S' a \<le> rc_max" "count W' a < rc_max"
  shows "owned (st\<lparr>st_next := n, st_cnt := (st_cnt st)(a := c), st_val := (st_val st)(a := v)\<rparr>) S' W'"
  unfolding owned_def
proof (rule allI, goal_cases)
  case (1 x)
  then show ?case using o same [of x] c v n b unfolding owned_def by (cases "x = a") (simp_all add: order.trans)
qed

lemma owned_lt: "owned st S W \<Longrightarrow> 0 < count S a + count W a \<Longrightarrow> a < st_next st"
  using ownedD(1,3) [of st S W a] by (metis add_is_0 cell_none leI less_numeral_extra(3))

lemma owned_change_cnt:
  assumes "owned st S W" "\<And>b. b \<noteq> a \<Longrightarrow> count S' b = count S b \<and> count W' b = count W b"
    and "cell_ok c (count S' a) (count W' a)" "count S a = 0 \<longleftrightarrow> count S' a = 0" "0 < count S a + count W a"
    and "count S' a \<le> rc_max" "count W' a < rc_max"
  shows "owned (st\<lparr>st_cnt := (st_cnt st)(a := c)\<rparr>) S' W'"
  using owned_change [OF assms(1-3), of "st_val st a" "st_next st"] assms owned_lt [OF assms(1,5)] ownedD(2) [OF assms(1), of a]
  by simp

lemma new_owned:
  assumes "owned st S W"
  shows "\<exists>a st'. rc_new_from_val v st = Ok (Some a) st' \<and> a \<notin># S \<and> a \<notin># W \<and> owned st' (add_mset a S) W \<and>
    st_val st' = (st_val st)(a \<mapsto> v)"
proof -
  let ?a = "st_next st"
  have n: "count S ?a = 0" "count W ?a = 0" using ownedD(1,3) [OF assms, of ?a] by simp_all
  then show ?thesis
    using owned_change [OF assms, of ?a "add_mset ?a S" W "Some \<lparr>rc_strong_cnt = 1, rc_weak_cnt = 1\<rparr>" "Some v" "Suc ?a"] cell_new
    by (simp add: rc_new_from_val_def Let_def count_eq_zero_iff [symmetric] rc_max_def)
qed

lemma clone_owned:
  assumes "owned st S W" "a \<in># S" "count S a < rc_max"
  shows "\<exists>st'. rc_clone (Some a) st = Ok (Some a) st' \<and> owned st' (add_mset a S) W \<and> st_val st' = st_val st \<and> st_next st' = st_next st"
proof -
  have p: "0 < count S a" using assms(2) by simp
  obtain c where c: "st_cnt st a = Some c" using cell_some [OF ownedD(1) [OF assms(1), of a]] p by auto
  have k: "cell_ok (Some c) (count S a) (count W a)" using ownedD(1) [OF assms(1), of a] c by simp
  have "\<not> Z_RC_MAX_COUNT \<le> rc_strong_cnt c" using cell_strong [OF k] assms(3) by (simp add: word_le_nat_alt max_count)
  moreover have "owned (st\<lparr>st_cnt := (st_cnt st)(a := Some (c\<lparr>rc_strong_cnt := rc_strong_cnt c + 1\<rparr>))\<rparr>) (add_mset a S) W"
    using assms(3) p cell_inc_strong [OF k p] ownedD(5) [OF assms(1)] by (intro owned_change_cnt [OF assms(1)]) (auto simp del: count_greater_zero_iff)
  ultimately show ?thesis
    by (simp add: rc_clone_def or_null_def attempt_def z_rc_increase_strong_def rc_inner_def rc_store_inner_def bind_ok_def
        then_do_def ret_def c)
qed

lemma clone_weak_owned:
  assumes "owned st S W" "0 < count S a + count W a" "Suc (count W a) < rc_max"
  shows "\<exists>st'. rc_clone_as_weak (Some a) st = Ok (Some a) st' \<and> owned st' S (add_mset a W) \<and> st_val st' = st_val st"
proof -
  obtain c where c: "st_cnt st a = Some c" using cell_some [OF ownedD(1) [OF assms(1), of a] assms(2)] by auto
  have k: "cell_ok (Some c) (count S a) (count W a)" using ownedD(1) [OF assms(1), of a] c by simp
  have "\<not> Z_RC_MAX_COUNT \<le> rc_weak_cnt c" using cell_weak [OF k] assms(3) by (simp add: word_le_nat_alt max_count of_bool_def)
  moreover have "owned (st\<lparr>st_cnt := (st_cnt st)(a := Some (c\<lparr>rc_weak_cnt := rc_weak_cnt c + 1\<rparr>))\<rparr>) S (add_mset a W)"
    using assms(2,3) cell_inc_weak [OF k] ownedD(4) [OF assms(1)] by (intro owned_change_cnt [OF assms(1)]) auto
  ultimately show ?thesis
    by (simp add: rc_clone_as_weak_def or_null_def attempt_def z_rc_increase_weak_def rc_inner_def rc_store_inner_def bind_ok_def
        then_do_def ret_def c)
qed

lemma upgrade_owned:
  assumes "owned st S W" "a \<in># W" "count S a < rc_max"
  shows "\<exists>st'. weak_upgrade (Some a) st = Ok (if a \<in># S then Some a else None) st' \<and>
    owned st' (if a \<in># S then add_mset a S else S) W \<and> st_val st' = st_val st"
proof -
  have p: "0 < count S a + count W a" using assms(2) by simp
  obtain c where c: "st_cnt st a = Some c" using cell_some [OF ownedD(1) [OF assms(1), of a] p] by auto
  have k: "cell_ok (Some c) (count S a) (count W a)" using ownedD(1) [OF assms(1), of a] c by simp
  have s: "unat (rc_strong_cnt c) = count S a" using cell_strong [OF k] assms(3) by simp
  have lt: "rc_strong_cnt c < Z_RC_MAX_COUNT" using s assms(3) by (simp add: word_less_nat_alt max_count)
  show ?thesis
  proof (cases "a \<in># S")
    case True
    then have p: "0 < count S a" by simp
    have "owned (st\<lparr>st_cnt := (st_cnt st)(a := Some (c\<lparr>rc_strong_cnt := rc_strong_cnt c + 1\<rparr>))\<rparr>) (add_mset a S) W"
      using assms(3) p cell_inc_strong [OF k p] ownedD(5) [OF assms(1)] by (intro owned_change_cnt [OF assms(1)]) (auto simp del: count_greater_zero_iff)
    moreover have "rc_strong_cnt c \<noteq> 0" using s p by (metis less_irrefl unat_0)
    ultimately show ?thesis using True lt
      by (simp add: weak_upgrade_def or_null_def attempt_def z_rc_weak_upgrade_def rc_inner_def rc_store_inner_def bind_ok_def
          then_do_def ret_def c)
  next
    case False
    then have "rc_strong_cnt c = 0" using s by (simp add: not_in_iff unat_eq_zero)
    then show ?thesis using False assms(1)
      by (simp add: weak_upgrade_def or_null_def attempt_def z_rc_weak_upgrade_def rc_inner_def rc_store_inner_def bind_ok_def
          then_do_def ret_def fail_def c Z_ERR_INVALID_def)
  qed
qed

lemma decrease_weak_cell:
  assumes "st_cnt st a = Some c" "0 < unat (rc_weak_cnt c)"
  shows "z_rc_decrease_weak a st = Ok (unat (rc_weak_cnt c) = 1) (st\<lparr>st_cnt := (st_cnt st)(a :=
    if unat (rc_weak_cnt c) = 1 then None else Some (c\<lparr>rc_weak_cnt := rc_weak_cnt c - 1\<rparr>))\<rparr>)"
proof -
  have "1 < rc_weak_cnt c \<longleftrightarrow> unat (rc_weak_cnt c) \<noteq> 1" using assms(2) by (simp add: word_less_nat_alt) linarith
  then show ?thesis using assms(1) by (simp add: z_rc_decrease_weak_def rc_inner_def rc_store_inner_def bind_ok_def then_do_def ret_def)
qed

lemma weak_drop_owned:
  assumes "owned st S W" "a \<in># W"
  shows "\<exists>st'. weak_drop (Some a) st = Ok (count S a = 0 \<and> count W a = 1) st' \<and> owned st' S (W - {#a#}) \<and> st_val st' = st_val st"
proof -
  have p: "0 < count S a + count W a" using assms(2) by simp
  obtain c where c: "st_cnt st a = Some c" using cell_some [OF ownedD(1) [OF assms(1), of a] p] by auto
  obtain w where w: "count W a = Suc w" using assms(2) by (metis count_greater_zero_iff gr0_implies_Suc)
  have k: "cell_ok (Some c) (count S a) (Suc w)" using ownedD(1) [OF assms(1), of a] c w by simp
  have u: "unat (rc_weak_cnt c) = Suc w + of_bool (0 < count S a)" using cell_weak [OF k] ownedD(5) [OF assms(1), of a] w by simp
  let ?c = "if unat (rc_weak_cnt c) = 1 then None else Some (c\<lparr>rc_weak_cnt := rc_weak_cnt c - 1\<rparr>)"
  have "cell_ok ?c (count S a) w" using u cell_dec_weak [OF k] by (cases "count S a = 0 \<and> w = 0") (auto simp del: count_greater_zero_iff)
  then have "owned (st\<lparr>st_cnt := (st_cnt st)(a := ?c)\<rparr>) S (W - {#a#})"
    using w p ownedD(4,5) [OF assms(1), of a] by (intro owned_change_cnt [OF assms(1)]) (auto simp del: count_greater_zero_iff)
  moreover have "unat (rc_weak_cnt c) = 1 \<longleftrightarrow> count S a = 0 \<and> count W a = 1"
    using u w by (cases "count S a = 0") (simp_all del: count_greater_zero_iff add: count_eq_zero_iff [symmetric])
  moreover have "0 < unat (rc_weak_cnt c)" using u by simp
  ultimately show ?thesis using decrease_weak_cell [OF c] by (simp add: weak_drop_def)
qed

text \<open>Dropping a reference that is not the last one.\<close>

lemma decr_owned:
  assumes "owned st S W" "a \<in># S" "count S a \<noteq> 1"
  shows "\<exists>st'. rc_decr (Some a) st = Ok False st' \<and> owned st' (S - {#a#}) W \<and> st_val st' = st_val st \<and> st_next st' = st_next st"
proof -
  have p: "0 < count S a + count W a" using assms(2) by simp
  obtain c where c: "st_cnt st a = Some c" using cell_some [OF ownedD(1) [OF assms(1), of a] p] by auto
  obtain s where s: "count S a = Suc s" "0 < s" using assms(2,3) by (metis One_nat_def count_greater_zero_iff gr0_implies_Suc gr0I)
  have k: "cell_ok (Some c) (Suc s) (count W a)" using ownedD(1) [OF assms(1), of a] c s by simp
  have "1 < rc_strong_cnt c" using cell_strong [OF k] s ownedD(4) [OF assms(1), of a] by (simp add: word_less_nat_alt)
  moreover have "owned (st\<lparr>st_cnt := (st_cnt st)(a := Some (c\<lparr>rc_strong_cnt := rc_strong_cnt c - 1\<rparr>))\<rparr>) (S - {#a#}) W"
    using s cell_dec_strong [OF k s(2)] ownedD(4,5) [OF assms(1), of a] by (intro owned_change_cnt [OF assms(1)]) auto
  ultimately show ?thesis
    by (simp add: rc_decr_def z_rc_decrease_strong_def rc_inner_def rc_store_inner_def bind_ok_def then_do_def ret_def c)
qed

text \<open>Dropping the last one: the value is still there to be cleared, and is freed after that.\<close>

lemma decr_last_owned:
  assumes "owned st S W" "count S a = 1"
  shows "\<exists>st' v st''. rc_decr (Some a) st = Ok True st' \<and> st_val st' = st_val st \<and> st_val st a = Some v \<and>
    rc_free a st' = Ok () st'' \<and> owned st'' (S - {#a#}) W \<and> st_val st'' = (st_val st)(a := None)"
proof -
  have p: "0 < count S a + count W a" using assms(2) by simp
  obtain c where c: "st_cnt st a = Some c" using cell_some [OF ownedD(1) [OF assms(1), of a] p] by auto
  have k: "cell_ok (Some c) (Suc 0) (count W a)" using ownedD(1) [OF assms(1), of a] c assms(2) by simp
  obtain v where v: "st_val st a = Some v" using ownedD(2) [OF assms(1), of a] assms(2) by auto
  have s: "\<not> 1 < rc_strong_cnt c" using cell_strong [OF k] by (simp add: word_less_nat_alt rc_max_def)
  let ?c = "c\<lparr>rc_strong_cnt := rc_strong_cnt c - 1\<rparr>"
  have u: "unat (rc_weak_cnt c) = Suc (count W a)" using cell_weak [OF k] ownedD(5) [OF assms(1), of a] by simp
  let ?cell = "if count W a = 0 then None else Some (?c\<lparr>rc_weak_cnt := rc_weak_cnt c - 1\<rparr>)"
  have d: "rc_decr (Some a) st = Ok True (st\<lparr>st_cnt := (st_cnt st)(a := ?cell)\<rparr>)"
    using s decrease_weak_cell [of "st\<lparr>st_cnt := (st_cnt st)(a := Some ?c)\<rparr>" a ?c] u
    by (simp add: rc_decr_def z_rc_decrease_strong_def rc_inner_def rc_store_inner_def bind_ok_def then_do_def ret_def c
        cong: if_cong)
  have "cell_ok ?cell 0 (count W a)" using cell_last_strong [OF k] by simp
  then have "owned (st\<lparr>st_next := st_next st, st_cnt := (st_cnt st)(a := ?cell), st_val := (st_val st)(a := None)\<rparr>) (S - {#a#}) W"
    using assms(2) owned_lt [OF assms(1) p] ownedD(4,5) [OF assms(1), of a] by (intro owned_change [OF assms(1)]) auto
  then show ?thesis using d v by (simp add: rc_free_def)
qed

lemma owned_unique:
  assumes "owned st S W" "owned st' S W" "st_val st' = st_val st" "st_next st' = st_next st"
  shows "st' = st"
proof -
  have "st_cnt st' a = st_cnt st a" for a
    using ownedD(1) [OF assms(1), of a] ownedD(1) [OF assms(2), of a]
    by (cases "st_cnt st a"; cases "st_cnt st' a") (simp_all add: cell_ok_def)
  then show ?thesis using assms(3,4) by (simp add: fun_eq_iff)
qed

lemma read_owned: "owned st S W \<Longrightarrow> a \<in># S \<Longrightarrow> \<exists>v. rc_read (Some a) st = Ok v st \<and> st_val st a = Some v"
  using owned_value [of st S W a] by (auto simp: rc_read_def)

lemma empty_owned: "owned rc_store_empty {#} {#}"
  by (simp add: owned_def rc_store_empty_def rc_max_def)

end
