(* ===== verification/Zp_RcList.thy ===== *)
theory Zp_RcList imports Zp_RcLaws Zp_Session
begin

text \<open>
  The contract between the session and its lists of counted values: subscriptions, queryables and
  interests are kept in the same way. The locale \<open>rc_part\<close> is a store inside a larger state,
  \<open>rc_list\<close> a store of a session with the list of references the session itself has.
\<close>

section \<open>A store inside a state\<close>

text \<open>Cloned references to the values that pass a test, in the order of the list.\<close>

fun rc_collect ::
    "('s \<Rightarrow> 'v rc_store) \<Rightarrow> ('v rc_store \<Rightarrow> 's \<Rightarrow> 's) \<Rightarrow> ('v \<Rightarrow> (bool, 's) prog) \<Rightarrow> z_rc list \<Rightarrow> z_rc list \<Rightarrow> (z_rc list, 's) prog" where
  "rc_collect get put test acc [] = ret acc"
| "rc_collect get put test acc (p # xs) =
     bind_ok (within get put (rc_read p)) (\<lambda>v. bind_ok (test v) (\<lambda>hit.
       if hit then bind_ok (within get put (rc_clone p)) (\<lambda>c. rc_collect get put test (acc @ [c]) xs)
       else rc_collect get put test acc xs))"

definition rc_let_go :: "('s \<Rightarrow> 'v rc_store) \<Rightarrow> ('v rc_store \<Rightarrow> 's \<Rightarrow> 's) \<Rightarrow> ('v \<Rightarrow> (unit, 's) prog) \<Rightarrow> z_rc \<Rightarrow> (unit, 's) prog" where
  "rc_let_go get put clear p = ignore (rc_drop get put clear p)"

locale rc_part =
  fixes get :: "'s \<Rightarrow> 'v rc_store" and put :: "'v rc_store \<Rightarrow> 's \<Rightarrow> 's"
  assumes get_put: "get (put st s) = st" and put_get: "put (get s) s = s" and put_put: "put st (put st' s) = put st s"
begin

definition at :: "'s \<Rightarrow> nat \<Rightarrow> 'v" where
  "at s a = the (st_val (get s) a)"

lemma at_put: "st_val st = st_val (get s) \<Longrightarrow> at (put st s) = at s"
  by (simp add: at_def fun_eq_iff get_put)

lemma within_ok: "p (get s) = Ok x st \<Longrightarrow> within get put p s = Ok x (put st s)"
  by (simp add: within_def)

lemma read_ok: "owned (get s) S W \<Longrightarrow> a \<in># S \<Longrightarrow> within get put (rc_read (Some a)) s = Ok (at s a) s"
  using read_owned [of "get s" S W a] by (auto simp: within_def put_get at_def)

lemma collect_ok:
  assumes "owned (get s) S W" "distinct as" "\<And>a. a \<in> set as \<Longrightarrow> a \<in># S \<and> count S a < rc_max"
    and "\<And>a s'. a \<in> set as \<Longrightarrow> test (at s a) s' = Ok (P a) s'"
  shows "\<exists>st. rc_collect get put test acc (map Some as) s = Ok (acc @ map Some (filter P as)) (put st s) \<and>
    owned st (S + mset (filter P as)) W \<and> st_val st = st_val (get s) \<and> st_next st = st_next (get s)"
  using assms
proof (induction as arbitrary: s S acc)
  case Nil
  then show ?case by (intro exI [of _ "get s"]) (simp add: ret_def put_get)
next
  case (Cons a as)
  have a: "a \<in># S" "count S a < rc_max" using Cons.prems(3) [of a] by simp_all
  have eq: "rc_collect get put test acc (map Some (a # as)) s =
      (if P a then bind_ok (within get put (rc_clone (Some a))) (\<lambda>c. rc_collect get put test (acc @ [c]) (map Some as)) s
       else rc_collect get put test acc (map Some as) s)"
    using read_ok [OF Cons.prems(1) a(1)] Cons.prems(4) [of a] by (simp add: bind_ok_def)
  show ?case
  proof (cases "P a")
    case False
    have "\<exists>st. rc_collect get put test acc (map Some as) s = Ok (acc @ map Some (filter P as)) (put st s) \<and>
      owned st (S + mset (filter P as)) W \<and> st_val st = st_val (get s) \<and> st_next st = st_next (get s)"
      using Cons.prems(1,2) by (intro Cons.IH Cons.prems(3,4)) simp_all
    then show ?thesis using False by (simp only: eq if_False filter.simps)
  next
    case True
    obtain st1 where st1: "rc_clone (Some a) (get s) = Ok (Some a) st1" "owned st1 (add_mset a S) W"
      "st_val st1 = st_val (get s)" "st_next st1 = st_next (get s)"
      using clone_owned [OF Cons.prems(1) a] by blast
    have pre: "b \<in># add_mset a S \<and> count (add_mset a S) b < rc_max" if "b \<in> set as" for b
      using that Cons.prems(2) Cons.prems(3) [of b] by auto
    have "\<exists>st. rc_collect get put test (acc @ [Some a]) (map Some as) (put st1 s) =
        Ok ((acc @ [Some a]) @ map Some (filter P as)) (put st (put st1 s)) \<and>
      owned st (add_mset a S + mset (filter P as)) W \<and> st_val st = st_val (get (put st1 s)) \<and>
      st_next st = st_next (get (put st1 s))"
      using st1(2) Cons.prems(2,4) pre by (intro Cons.IH) (simp_all add: get_put at_put [OF st1(3)])
    then obtain st where st: "rc_collect get put test (acc @ [Some a]) (map Some as) (put st1 s) =
        Ok ((acc @ [Some a]) @ map Some (filter P as)) (put st s)"
      "owned st (add_mset a S + mset (filter P as)) W" "st_val st = st_val (get s)" "st_next st = st_next (get s)"
      by (auto simp: get_put put_put st1)
    have "bind_ok (within get put (rc_clone (Some a))) (\<lambda>c. rc_collect get put test (acc @ [c]) (map Some as)) s =
        Ok (acc @ map Some (filter P (a # as))) (put st s)"
      using st(1) True by (simp add: bind_ok_def within_ok [of "rc_clone (Some a)", OF st1(1)])
    then show ?thesis using True st(2-4) by (intro exI [of _ st]) (simp add: eq del: rc_collect.simps list.map)
  qed
qed

lemma drop_shared:
  assumes "owned (get s) S W" "a \<in># S" "count S a \<noteq> 1"
  shows "\<exists>st. rc_let_go get put clear (Some a) s = Ok () (put st s) \<and> owned st (S - {#a#}) W \<and>
    st_val st = st_val (get s) \<and> st_next st = st_next (get s)"
  using decr_owned [OF assms] by (auto simp: rc_let_go_def rc_drop_def ignore_def bind_ok_def within_def ret_def)

lemma drop_each:
  assumes "owned (get s) (S + mset bs) W" "set bs \<subseteq> set_mset S"
  shows "\<exists>st. each (rc_let_go get put clear) (map Some bs) s = Ok () (put st s) \<and> owned st S W \<and>
    st_val st = st_val (get s) \<and> st_next st = st_next (get s)"
  using assms
proof (induction bs arbitrary: s)
  case Nil
  then show ?case by (intro exI [of _ "get s"]) (simp add: ret_def put_get)
next
  case (Cons a bs)
  let ?S = "S + mset (a # bs)"
  have "0 < count S a" using Cons.prems(2) by simp
  then have c: "a \<in># ?S" "count ?S a \<noteq> 1" by (simp_all del: count_greater_zero_iff)
  obtain st where st: "rc_let_go get put clear (Some a) s = Ok () (put st s)" "owned st (?S - {#a#}) W"
    "st_val st = st_val (get s)" "st_next st = st_next (get s)"
    using drop_shared [OF Cons.prems(1) c] by blast
  have "\<exists>st'. each (rc_let_go get put clear) (map Some bs) (put st s) = Ok () (put st' (put st s)) \<and> owned st' S W \<and>
    st_val st' = st_val (get (put st s)) \<and> st_next st' = st_next (get (put st s))"
    using Cons.prems(2) st(2) by (intro Cons.IH) (simp_all add: get_put)
  then show ?case using st by (auto simp: then_do_def bind_ok_def get_put put_put)
qed

text \<open>References that were collected and are dropped leave the store as it was.\<close>

lemma drop_collected:
  assumes "owned (get s) S W" "owned (get s') (S + mset bs) W" "set bs \<subseteq> set_mset S" "st_val (get s') = st_val (get s)"
    and "st_next (get s') = st_next (get s)"
  shows "each (rc_let_go get put clear) (map Some bs) s' = Ok () (put (get s) s')"
  using drop_each [OF assms(2,3), of clear] owned_unique [OF assms(1), of _] assms(4,5) by metis

lemma drop_last:
  assumes "owned (get s) S W" "count S a = 1" "\<And>st. clear (at s a) (put st s) = Ok () (put st s')"
  shows "\<exists>st. rc_let_go get put clear (Some a) s = Ok () (put st s') \<and> owned st (S - {#a#}) W \<and>
    st_val st = (st_val (get s))(a := None)"
proof -
  obtain st' v st'' where st: "rc_decr (Some a) (get s) = Ok True st'" "st_val st' = st_val (get s)"
    "st_val (get s) a = Some v" "rc_free a st' = Ok () st''" "owned st'' (S - {#a#}) W"
    "st_val st'' = (st_val (get s))(a := None)"
    using decr_last_owned [OF assms(1,2)] by blast
  have "rc_read (Some a) st' = Ok v st'" using st(2,3) by (simp add: rc_read_def)
  moreover have "at s a = v" using st(3) by (simp add: at_def)
  ultimately show ?thesis using st assms(3)
    by (intro exI [of _ st'']) (simp add: rc_let_go_def rc_drop_def within_def bind_ok_def then_do_def ret_def ignore_def get_put put_put)
qed

end

section \<open>The lists of a session\<close>

lemma lock_ok: "\<not> zn_locked zn \<Longrightarrow> z_session_mutex_lock zn = Ok () (zn\<lparr>zn_locked := True\<rparr>)"
  by (simp add: z_session_mutex_lock_def)

lemma lock_if_open_ok:
  "\<not> zn_locked zn \<Longrightarrow> \<not> zn_is_closed zn \<Longrightarrow> z_session_mutex_lock_if_open zn = Ok () (zn\<lparr>zn_locked := True\<rparr>)"
  by (simp add: z_session_mutex_lock_if_open_def then_do_def bind_ok_def lock_ok z_session_is_closed_def)

lemma lock_closed:
  "\<not> zn_locked zn \<Longrightarrow> zn_is_closed zn \<Longrightarrow> z_session_mutex_lock_if_open zn = Err Z_ERR_SESSION_CLOSED zn"
  by (simp add: z_session_mutex_lock_if_open_def then_do_def bind_ok_def lock_ok z_session_is_closed_def
      z_session_mutex_unlock_def fail_def)

lemma drop_first_some:
  "distinct as \<Longrightarrow> a \<in> set as \<Longrightarrow>
   z_list_drop_filter (rc_eq (Some a)) True (map Some as) = (map Some (remove1 a as), [Some a])"
  by (induction as) (auto simp: rc_eq_def)

text \<open>How a value gets into a list, and out of it again.\<close>

definition register_rc ::
    "(('c, 'w) z_session_t \<Rightarrow> 'v rc_store) \<Rightarrow> ('v rc_store \<Rightarrow> ('c, 'w) z_session_t \<Rightarrow> ('c, 'w) z_session_t) \<Rightarrow>
     (('c, 'w) z_session_t \<Rightarrow> z_rc list) \<Rightarrow> (z_rc list \<Rightarrow> ('c, 'w) z_session_t \<Rightarrow> ('c, 'w) z_session_t) \<Rightarrow>
     ('v \<Rightarrow> (unit, 'c, 'w) zprog) \<Rightarrow> 'v \<Rightarrow> (z_rc, 'c, 'w) zprog" where
  "register_rc get put refs set_refs clear v =
     bind_ok (within get put (rc_new_from_val v)) (\<lambda>out.
     bind_ok (attempt () z_session_mutex_lock_if_open) (\<lambda>(r, _).
       if r \<noteq> Z_RES_OK then then_do (rc_let_go get put clear out) (ret None)
       else bind_ok (within get put (rc_clone out)) (\<lambda>c.
         then_do (zmod (\<lambda>zn. set_refs (c # refs zn) zn)) (then_do z_session_mutex_unlock (ret out)))))"

definition unregister_rc ::
    "(('c, 'w) z_session_t \<Rightarrow> 'v rc_store) \<Rightarrow> ('v rc_store \<Rightarrow> ('c, 'w) z_session_t \<Rightarrow> ('c, 'w) z_session_t) \<Rightarrow>
     (('c, 'w) z_session_t \<Rightarrow> z_rc list) \<Rightarrow> (z_rc list \<Rightarrow> ('c, 'w) z_session_t \<Rightarrow> ('c, 'w) z_session_t) \<Rightarrow>
     ('v \<Rightarrow> (unit, 'c, 'w) zprog) \<Rightarrow> z_rc \<Rightarrow> (unit, 'c, 'w) zprog" where
  "unregister_rc get put refs set_refs clear p =
     then_do z_session_mutex_lock
       (bind_ok (zget (\<lambda>zn. z_list_drop_filter (rc_eq p) True (refs zn))) (\<lambda>(rest, dropped).
        then_do (each (rc_let_go get put clear) dropped)
          (then_do (zmod (set_refs rest)) (then_do z_session_mutex_unlock (rc_let_go get put clear p)))))"

text \<open>Clearing a value changes the application's state only.\<close>

definition clears :: "('v \<Rightarrow> (unit, 'c, 'w) zprog) \<Rightarrow> ('v \<Rightarrow> 'w \<Rightarrow> 'w) \<Rightarrow> bool" where
  "clears clear gone \<longleftrightarrow> (\<forall>v zn. clear v zn = Ok () (zn\<lparr>zn_world := gone v (zn_world zn)\<rparr>))"

locale rc_list = rc_part get put
  for get :: "('c, 'w) z_session_t \<Rightarrow> 'v rc_store" and put :: "'v rc_store \<Rightarrow> ('c, 'w) z_session_t \<Rightarrow> ('c, 'w) z_session_t" +
  fixes refs :: "('c, 'w) z_session_t \<Rightarrow> z_rc list" and set_refs :: "z_rc list \<Rightarrow> ('c, 'w) z_session_t \<Rightarrow> ('c, 'w) z_session_t"
  assumes get_other: "get (zn\<lparr>zn_locked := l\<rparr>) = get zn" "get (zn\<lparr>zn_world := w\<rparr>) = get zn" "get (set_refs xs zn) = get zn"
    and put_other: "(put st zn)\<lparr>zn_locked := l\<rparr> = put st (zn\<lparr>zn_locked := l\<rparr>)" "(put st zn)\<lparr>zn_world := w\<rparr> = put st (zn\<lparr>zn_world := w\<rparr>)"
      "put st (set_refs xs zn) = set_refs xs (put st zn)"
    and of_put: "zn_locked (put st zn) = zn_locked zn" "zn_is_closed (put st zn) = zn_is_closed zn" "zn_world (put st zn) = zn_world zn"
      "refs (put st zn) = refs zn"
    and refs_other: "refs (zn\<lparr>zn_locked := l\<rparr>) = refs zn" "refs (zn\<lparr>zn_world := w\<rparr>) = refs zn" "refs (set_refs xs zn) = xs"
    and set_refs_other: "(set_refs xs zn)\<lparr>zn_locked := l\<rparr> = set_refs xs (zn\<lparr>zn_locked := l\<rparr>)"
      "(set_refs xs zn)\<lparr>zn_world := w\<rparr> = set_refs xs (zn\<lparr>zn_world := w\<rparr>)"
      "set_refs xs (set_refs ys zn) = set_refs xs zn" "set_refs (refs zn) zn = zn"
    and of_set_refs: "zn_locked (set_refs xs zn) = zn_locked zn" "zn_is_closed (set_refs xs zn) = zn_is_closed zn"
      "zn_world (set_refs xs zn) = zn_world zn"
begin

lemmas list_simps = get_put put_get put_put get_other put_other of_put refs_other set_refs_other of_set_refs

text \<open>The list: different references of its own.\<close>

definition ok :: "('c, 'w) z_session_t \<Rightarrow> nat multiset \<Rightarrow> nat list \<Rightarrow> bool" where
  "ok zn S as \<longleftrightarrow> owned (get zn) S {#} \<and> refs zn = map Some as \<and> distinct as \<and> (\<forall>a \<in> set as. a \<in># S \<and> count S a < rc_max)"

lemma at_other: "at (zn\<lparr>zn_locked := l\<rparr>) = at zn" "at (zn\<lparr>zn_world := w\<rparr>) = at zn" "at (set_refs xs zn) = at zn"
  by (simp_all add: at_def fun_eq_iff list_simps)

lemma relock: "\<not> zn_locked zn \<Longrightarrow> zn\<lparr>zn_locked := False\<rparr> = zn"
  by simp

text \<open>The value comes first in the list, and the list and the caller each have a reference.\<close>

lemma register_ok:
  assumes "\<not> zn_locked zn" "\<not> zn_is_closed zn" "owned (get zn) S {#}"
  shows "\<exists>a st. register_rc get put refs set_refs clear v zn = Ok (Some a) (set_refs (Some a # refs zn) (put st zn)) \<and>
    a \<notin># S \<and> owned st (add_mset a (add_mset a S)) {#} \<and> st_val st = (st_val (get zn))(a \<mapsto> v)"
proof -
  obtain a st1 where 1: "rc_new_from_val v (get zn) = Ok (Some a) st1" "a \<notin># S" "owned st1 (add_mset a S) {#}"
    "st_val st1 = (st_val (get zn))(a \<mapsto> v)"
    using new_owned [OF assms(3), of v] by blast
  have "count (add_mset a S) a < rc_max" using 1(2) by (simp add: not_in_iff rc_max_def)
  then obtain st2 where 2: "rc_clone (Some a) st1 = Ok (Some a) st2" "owned st2 (add_mset a (add_mset a S)) {#}" "st_val st2 = st_val st1"
    using clone_owned [OF 1(3), of a] by auto
  have "register_rc get put refs set_refs clear v zn =
      Ok (Some a) (set_refs (Some a # refs zn) (put st2 (zn\<lparr>zn_locked := False\<rparr>)))"
    using 1(1) 2(1) assms(1,2) lock_if_open_ok [of "put st1 zn"]
    by (simp add: register_rc_def bind_ok_def then_do_def within_def attempt_def zmod_def z_session_mutex_unlock_def ret_def list_simps)
  then show ?thesis using 1(2,4) 2(2,3) relock [OF assms(1)] by (intro exI [of _ a] exI [of _ st2]) simp
qed

text \<open>On a session that was closed, the value is cleared at once.\<close>

lemma register_closed:
  assumes "\<not> zn_locked zn" "zn_is_closed zn" "owned (get zn) S {#}" "clears clear gone"
  shows "\<exists>st. register_rc get put refs set_refs clear v zn = Ok None (put st (zn\<lparr>zn_world := gone v (zn_world zn)\<rparr>)) \<and>
    owned st S {#} \<and> (\<forall>a \<in># S. st_val st a = st_val (get zn) a)"
proof -
  obtain a st1 where 1: "rc_new_from_val v (get zn) = Ok (Some a) st1" "a \<notin># S" "owned st1 (add_mset a S) {#}"
    "st_val st1 = (st_val (get zn))(a \<mapsto> v)"
    using new_owned [OF assms(3), of v] by blast
  let ?zn = "put st1 zn"
  have o: "owned (get ?zn) (add_mset a S) {#}" using 1(3) by (simp add: list_simps)
  have c: "count (add_mset a S) a = 1" using 1(2) by (simp add: not_in_iff)
  have at: "at ?zn a = v" using 1(4) by (simp add: at_def list_simps)
  have k: "clear (at ?zn a) (put st ?zn) = Ok () (put st (zn\<lparr>zn_world := gone v (zn_world zn)\<rparr>))" for st
    using assms(4) by (simp add: clears_def at list_simps)
  obtain st2 where 2: "rc_let_go get put clear (Some a) ?zn = Ok () (put st2 (zn\<lparr>zn_world := gone v (zn_world zn)\<rparr>))"
    "owned st2 (add_mset a S - {#a#}) {#}" "st_val st2 = (st_val (get ?zn))(a := None)"
    using drop_last [of ?zn "add_mset a S" "{#}" a clear "zn\<lparr>zn_world := gone v (zn_world zn)\<rparr>", OF o c k] by blast
  have "register_rc get put refs set_refs clear v zn = Ok None (put st2 (zn\<lparr>zn_world := gone v (zn_world zn)\<rparr>))"
    using 1(1) 2(1) assms(1,2) lock_closed [of ?zn]
    by (simp add: register_rc_def bind_ok_def then_do_def within_def attempt_def ret_def list_simps)
  then show ?thesis using 2(2,3) 1(2,4) by (intro exI [of _ st2]) (auto simp: fun_upd_def list_simps)
qed

text \<open>
  The list's reference and the caller's are dropped. When no callback of it is running, that clears
  the value, once and with the lock free.
\<close>

lemma unregister_ok:
  assumes "\<not> zn_locked zn" "ok zn S as" "a \<in> set as" "count S a = 2" "clears clear gone"
  shows "\<exists>st. unregister_rc get put refs set_refs clear (Some a) zn =
      Ok () (set_refs (map Some (remove1 a as)) (put st (zn\<lparr>zn_world := gone (at zn a) (zn_world zn)\<rparr>))) \<and>
    owned st (S - {#a#} - {#a#}) {#} \<and> st_val st = (st_val (get zn))(a := None)"
proof -
  let ?zn = "zn\<lparr>zn_locked := True\<rparr>"
  have o: "owned (get ?zn) S {#}" and d: "distinct as" and l: "refs zn = map Some as"
    using assms(2) by (simp_all add: ok_def list_simps)
  have m: "a \<in># S" "count S a \<noteq> 1" using assms(4) by (simp_all add: count_greater_zero_iff [symmetric] del: count_greater_zero_iff)
  obtain st1 where 1: "rc_let_go get put clear (Some a) ?zn = Ok () (put st1 ?zn)" "owned st1 (S - {#a#}) {#}"
    "st_val st1 = st_val (get ?zn)"
    using drop_shared [OF o m] by blast
  let ?zn1 = "set_refs (map Some (remove1 a as)) (put st1 (zn\<lparr>zn_locked := False\<rparr>))"
  let ?w = "gone (at zn a) (zn_world zn)"
  have o1: "owned (get ?zn1) (S - {#a#}) {#}" and c1: "count (S - {#a#}) a = 1" using 1(2) assms(4) by (simp_all add: list_simps)
  have at: "at ?zn1 a = at zn a" using 1(3) by (simp add: at_def list_simps)
  have k: "clear (at ?zn1 a) (put st ?zn1) = Ok () (put st (set_refs (map Some (remove1 a as)) (zn\<lparr>zn_locked := False, zn_world := ?w\<rparr>)))" for st
    using assms(5) unfolding at by (simp add: clears_def list_simps)
  obtain st2 where 2: "rc_let_go get put clear (Some a) ?zn1 =
      Ok () (put st2 (set_refs (map Some (remove1 a as)) (zn\<lparr>zn_locked := False, zn_world := ?w\<rparr>)))"
    "owned st2 (S - {#a#} - {#a#}) {#}" "st_val st2 = (st_val (get ?zn1))(a := None)"
    using drop_last [of ?zn1 "S - {#a#}" "{#}" a clear "set_refs (map Some (remove1 a as)) (zn\<lparr>zn_locked := False, zn_world := ?w\<rparr>)", OF o1 c1 k] by blast
  have "unregister_rc get put refs set_refs clear (Some a) zn =
      Ok () (put st2 (set_refs (map Some (remove1 a as)) (zn\<lparr>zn_locked := False, zn_world := ?w\<rparr>)))"
    using 1(1) 2(1) assms(1,3) d l
    by (simp add: unregister_rc_def then_do_def bind_ok_def lock_ok zget_def zmod_def drop_first_some ret_def
        z_session_mutex_unlock_def list_simps)
  moreover have "zn\<lparr>zn_locked := False, zn_world := ?w\<rparr> = zn\<lparr>zn_world := ?w\<rparr>" using assms(1) by simp
  ultimately show ?thesis using 2(2,3) 1(3) by (intro exI [of _ st2]) (simp add: list_simps)
qed

lemma ok_register:
  assumes "ok zn S as" "a \<notin># S" "owned st (add_mset a (add_mset a S)) {#}"
  shows "ok (set_refs (Some a # refs zn) (put st zn)) (add_mset a (add_mset a S)) (a # as)"
proof -
  have "a \<notin> set as" using assms(1,2) by (auto simp: ok_def)
  moreover have "count S a = 0" using assms(2) by (simp add: not_in_iff)
  ultimately show ?thesis using assms by (auto simp: ok_def rc_max_def list_simps)
qed

text \<open>Registering and unregistering again leaves the list as it was, and clears the value once.\<close>

lemma register_unregister:
  assumes "\<not> zn_locked zn" "\<not> zn_is_closed zn" "ok zn S as" "clears clear gone"
  shows "\<exists>a zn' zn''. register_rc get put refs set_refs clear v zn = Ok (Some a) zn' \<and>
    refs zn' = Some a # refs zn \<and> at zn' a = v \<and>
    unregister_rc get put refs set_refs clear (Some a) zn' = Ok () zn'' \<and>
    zn'' = put (get zn'') (zn\<lparr>zn_world := gone v (zn_world zn)\<rparr>) \<and>
    ok zn'' S as \<and> (\<forall>b \<in># S. at zn'' b = at zn b)"
proof -
  have o: "owned (get zn) S {#}" and l: "refs zn = map Some as" using assms(3) by (simp_all add: ok_def)
  obtain a st where 1: "register_rc get put refs set_refs clear v zn = Ok (Some a) (set_refs (Some a # refs zn) (put st zn))"
    "a \<notin># S" "owned st (add_mset a (add_mset a S)) {#}" "st_val st = (st_val (get zn))(a \<mapsto> v)"
    using register_ok [OF assms(1,2) o, of clear v] by blast
  let ?zn' = "set_refs (Some a # refs zn) (put st zn)"
  have ok: "ok ?zn' (add_mset a (add_mset a S)) (a # as)" using ok_register [OF assms(3) 1(2,3)] .
  have at: "at ?zn' a = v" using 1(4) by (simp add: at_def list_simps)
  have "\<not> zn_locked ?zn'" "a \<in> set (a # as)" "count (add_mset a (add_mset a S)) a = 2" using assms(1) 1(2) by (simp_all add: not_in_iff list_simps)
  then obtain st2 where 2: "unregister_rc get put refs set_refs clear (Some a) ?zn' =
      Ok () (set_refs (map Some (remove1 a (a # as))) (put st2 (?zn'\<lparr>zn_world := gone (at ?zn' a) (zn_world ?zn')\<rparr>)))"
    "owned st2 (add_mset a (add_mset a S) - {#a#} - {#a#}) {#}" "st_val st2 = (st_val (get ?zn'))(a := None)"
    using unregister_ok [OF _ ok _ _ assms(4)] by blast
  let ?zn'' = "put st2 (zn\<lparr>zn_world := gone v (zn_world zn)\<rparr>)"
  have "set_refs (map Some as) (zn\<lparr>zn_world := w\<rparr>) = zn\<lparr>zn_world := w\<rparr>" for w
    using set_refs_other(4) [of "zn\<lparr>zn_world := w\<rparr>"] l by (simp add: list_simps)
  then have e: "unregister_rc get put refs set_refs clear (Some a) ?zn' = Ok () ?zn''"
    using 2(1) at by (simp add: put_other(3) [symmetric] list_simps(1-9) set_refs_other of_set_refs of_put put_other(1,2) del: put_other(3))
  have "ok ?zn'' S as" using assms(3) 2(2) by (simp add: ok_def list_simps)
  moreover have "at ?zn'' b = at zn b" if "b \<in># S" for b
    using 2(3) 1(2,4) that by (auto simp: at_def list_simps)
  ultimately show ?thesis using 1(1) e at
    by (intro exI [of _ a] exI [of _ ?zn'] exI [of _ ?zn'']) (simp add: list_simps)
qed

end

end
