(* ===== verification/Zp_SubLaws.thy ===== *)
theory Zp_SubLaws imports Zp_Subscription Zp_RcList Zp_KeCanonLaws
begin

text \<open>
  Delivery: which callbacks a sample reaches. The lists of a session hold different references
  that it owns; an application whose callbacks only change its own state is \<open>quiet\<close>.
\<close>

section \<open>Reading and locking\<close>

text \<open>An expression on the wire means a string.\<close>

definition wire_decls :: "('c, 'w) z_session_t \<Rightarrow> z_wireexpr_t \<Rightarrow> z_peer option \<Rightarrow> z_resource_t list" where
  "wire_decls zn expr peer = (case peer of None \<Rightarrow> zn_local_resources zn
     | Some p \<Rightarrow> if z_wireexpr_is_local expr then zn_local_resources zn else pc_remote_resources (snd p))"

definition denotes :: "('c, 'w) z_session_t \<Rightarrow> z_peer option \<Rightarrow> z_wireexpr_t \<Rightarrow> z_string_t \<Rightarrow> bool" where
  "denotes zn peer expr ke \<longleftrightarrow> z_wireexpr_check expr \<and>
     z_get_keyexpr_from_wireexpr_inner (wire_decls zn expr peer) expr = (Z_RES_OK, ke)"

lemma from_wireexpr_ok:
  "\<not> zn_locked zn \<Longrightarrow> denotes zn peer expr ke \<Longrightarrow> z_get_keyexpr_from_wireexpr expr peer zn = Ok ke zn"
  by (auto simp: z_get_keyexpr_from_wireexpr_def denotes_def wire_decls_def then_do_def bind_ok_def lock_ok zget_def
      z_session_mutex_unlock_def ret_def Let_def split: option.splits)

section \<open>Which subscriptions a sample is for\<close>

definition hears :: "bool \<Rightarrow> z_string_t \<Rightarrow> 'c z_subscription_t \<Rightarrow> bool" where
  "hears is_remote ke sub \<longleftrightarrow>
     (if is_remote then z_locality_allows_remote (su_allowed_origin sub) else z_locality_allows_local (su_allowed_origin sub)) \<and>
     z_keyexpr_intersects (dke_inner (su_key sub)) ke = Some True"

text \<open>The list of a session: different references of its own, whose matching returns.\<close>

definition subs_ok :: "('c, 'w) z_session_t \<Rightarrow> z_subscriber_kind_t \<Rightarrow> nat multiset \<Rightarrow> nat list \<Rightarrow> bool" where
  "subs_ok zn kind S as \<longleftrightarrow> owned (zn_subs zn) S {#} \<and> sub_list kind zn = map Some as \<and> distinct as \<and>
     (\<forall>a \<in> set as. a \<in># S \<and> count S a < rc_max)"

definition sub_at :: "('c, 'w) z_session_t \<Rightarrow> nat \<Rightarrow> 'c z_subscription_t" where
  "sub_at zn a = the (st_val (zn_subs zn) a)"

lemma sub_at_world [simp]: "sub_at (zn\<lparr>zn_world := w\<rparr>) a = sub_at zn a" "sub_at (zn\<lparr>zn_locked := l\<rparr>) a = sub_at zn a"
  by (simp_all add: sub_at_def)

section \<open>The lists keep the contract\<close>

lemma set_sub_list_simps [simp]:
  "zn_subs (set_sub_list k xs zn) = zn_subs zn" "zn_locked (set_sub_list k xs zn) = zn_locked zn"
  "zn_is_closed (set_sub_list k xs zn) = zn_is_closed zn" "zn_world (set_sub_list k xs zn) = zn_world zn"
  "sub_list k (set_sub_list k xs zn) = xs" "j \<noteq> k \<Longrightarrow> sub_list j (set_sub_list k xs zn) = sub_list j zn"
  "set_sub_list k xs (set_sub_list k ys zn) = set_sub_list k xs zn"
  "sub_list k (zn\<lparr>zn_subs := st\<rparr>) = sub_list k zn" "sub_list k (zn\<lparr>zn_locked := l\<rparr>) = sub_list k zn"
  "sub_list k (zn\<lparr>zn_world := w\<rparr>) = sub_list k zn"
  "(set_sub_list k xs zn)\<lparr>zn_locked := l\<rparr> = set_sub_list k xs (zn\<lparr>zn_locked := l\<rparr>)"
  "(set_sub_list k xs zn)\<lparr>zn_subs := st\<rparr> = set_sub_list k xs (zn\<lparr>zn_subs := st\<rparr>)"
  "(set_sub_list k xs zn)\<lparr>zn_world := w\<rparr> = set_sub_list k xs (zn\<lparr>zn_world := w\<rparr>)"
  by (cases j; simp add: set_sub_list_def sub_list_def; metis z_subscriber_kind_t.exhaust)+

lemma set_sub_list_same: "set_sub_list k (sub_list k zn) zn = zn"
  by (simp add: set_sub_list_def sub_list_def)

interpretation subs: rc_list zn_subs "\<lambda>st zn. zn\<lparr>zn_subs := st\<rparr>" "sub_list kind" "set_sub_list kind" for kind
  by unfold_locales (simp_all add: set_sub_list_same)

lemma subs_at [simp]: "subs.at zn a = sub_at zn a"
  by (simp add: subs.at_def sub_at_def)

lemma subs_ok_eq: "subs.ok kind zn S as \<longleftrightarrow> subs_ok zn kind S as"
  by (simp add: subs.ok_def subs_ok_def)

lemma sub_rc_drop_eq: "sub_rc_drop env = rc_let_go zn_subs (\<lambda>st zn. zn\<lparr>zn_subs := st\<rparr>) (z_subscription_clear env)"
  by (simp add: fun_eq_iff sub_rc_drop_def rc_let_go_def)

lemma on_subs_read:
  "owned (zn_subs zn) S W \<Longrightarrow> a \<in># S \<Longrightarrow> on_subs (rc_read (Some a)) zn = Ok (sub_at zn a) zn"
  using subs.read_ok [of zn S W a] by (simp add: on_subs_def)

section \<open>Collecting, calling and dropping\<close>

definition hears_test :: "bool \<Rightarrow> z_string_t \<Rightarrow> 'c z_subscription_t \<Rightarrow> (bool, 's) prog" where
  "hears_test is_remote key sub =
     (if (if is_remote then z_locality_allows_remote (su_allowed_origin sub) else z_locality_allows_local (su_allowed_origin sub))
      then of_option (z_keyexpr_intersects (dke_inner (su_key sub)) key) else ret False)"

lemma subs_by_key_collect:
  "subscriptions_by_key key r xs acc = rc_collect zn_subs (\<lambda>st zn. zn\<lparr>zn_subs := st\<rparr>) (hears_test r key) acc xs"
  by (induction xs arbitrary: acc) (simp_all add: on_subs_def hears_test_def Let_def cong: if_cong)

lemma hears_test_ok:
  "z_keyexpr_intersects (dke_inner (su_key sub)) ke \<noteq> None \<Longrightarrow> hears_test r ke sub s = Ok (hears r ke sub) s"
  by (auto simp: hears_test_def hears_def of_option_def ret_def)

definition quiet :: "('c, 'w) z_env \<Rightarrow> ('c \<Rightarrow> z_sample_t \<Rightarrow> 'w \<Rightarrow> 'w) \<Rightarrow> bool" where
  "quiet env app \<longleftrightarrow> (\<forall>c s zn. env_sample env c s zn = Ok () (zn\<lparr>zn_world := app c s (zn_world zn)\<rparr>))"

lemma sample_copy_same [simp]: "z_sample_copy s = (Z_RES_OK, s)"
  by (simp add: z_sample_copy_def z_declared_keyexpr_copy_def z_keyexpr_copy_def)

lemma call_ok:
  assumes "quiet env app" "owned (zn_subs zn) S W" "set bs \<subseteq> set_mset S"
  shows "call_subscriptions env s (map Some bs) zn =
    Ok Z_RES_OK (zn\<lparr>zn_world := fold (\<lambda>a. app (su_callback (sub_at zn a)) s) bs (zn_world zn)\<rparr>)"
  using assms(2,3)
proof (induction bs arbitrary: zn rule: induct_list012)
  case 1
  then show ?case by (simp add: ret_def)
next
  case (2 a)
  then have "on_subs (rc_read (Some a)) zn = Ok (sub_at zn a) zn" using on_subs_read [of zn S W a] by simp
  then show ?case using assms(1) by (simp add: bind_ok_def then_do_def quiet_def ret_def ignore_def)
next
  case (3 a b bs)
  have rd: "on_subs (rc_read (Some a)) zn = Ok (sub_at zn a) zn" using 3 on_subs_read [of zn S W a] by simp
  let ?zn = "zn\<lparr>zn_world := app (su_callback (sub_at zn a)) s (zn_world zn)\<rparr>"
  have "call_subscriptions env s (map Some (b # bs)) ?zn =
    Ok Z_RES_OK (?zn\<lparr>zn_world := fold (\<lambda>a. app (su_callback (sub_at ?zn a)) s) (b # bs) (zn_world ?zn)\<rparr>)"
    using 3 by (intro 3(2)) auto
  then show ?case using rd assms(1) by (simp add: bind_ok_def then_do_def quiet_def ignore_def)
qed

section \<open>Delivery\<close>

text \<open>
  The application is told of the sample by each subscription that hears it, in the order of the list;
  nothing else is changed, and the lock is free while it runs.
\<close>

lemma get_infos_ok:
  assumes "\<not> zn_locked zn" "\<not> zn_is_closed zn" "denotes zn peer expr ke" "subs_ok zn kind S as"
    and "\<And>a. a \<in> set as \<Longrightarrow> z_keyexpr_intersects (dke_inner (su_key (sub_at zn a))) ke \<noteq> None"
  shows "\<exists>st. z_subscription_get_infos kind expr peer zn =
      Ok (ke, map Some (filter (\<lambda>a. hears (peer \<noteq> None) ke (sub_at zn a)) as)) (zn\<lparr>zn_subs := st\<rparr>) \<and>
    owned st (S + mset (filter (\<lambda>a. hears (peer \<noteq> None) ke (sub_at zn a)) as)) {#} \<and> st_val st = st_val (zn_subs zn) \<and>
    st_next st = st_next (zn_subs zn)"
proof -
  let ?zn = "zn\<lparr>zn_locked := True\<rparr>"
  have s: "sub_at ?zn = sub_at zn" by (simp add: sub_at_def fun_eq_iff)
  have "\<exists>st. subscriptions_by_key ke (peer \<noteq> None) (map Some as) [] ?zn =
      Ok ([] @ map Some (filter (\<lambda>a. hears (peer \<noteq> None) ke (sub_at ?zn a)) as)) (?zn\<lparr>zn_subs := st\<rparr>) \<and>
    owned st (S + mset (filter (\<lambda>a. hears (peer \<noteq> None) ke (sub_at ?zn a)) as)) {#} \<and> st_val st = st_val (zn_subs ?zn) \<and>
    st_next st = st_next (zn_subs ?zn)"
    unfolding subs_by_key_collect using assms(4) hears_test_ok [OF assms(5)]
    by (intro subs.collect_ok) (auto simp: subs_ok_def)
  moreover have "sub_list kind ?zn = map Some as" using assms(4) by (simp add: subs_ok_def sub_list_def split: if_splits)
  ultimately obtain st where st: "subscriptions_by_key ke (peer \<noteq> None) (sub_list kind ?zn) [] ?zn =
      Ok (map Some (filter (\<lambda>a. hears (peer \<noteq> None) ke (sub_at zn a)) as)) (?zn\<lparr>zn_subs := st\<rparr>)"
    "owned st (S + mset (filter (\<lambda>a. hears (peer \<noteq> None) ke (sub_at zn a)) as)) {#}" "st_val st = st_val (zn_subs zn)"
    "st_next st = st_next (zn_subs zn)"
    by (auto simp: s)
  have "zn\<lparr>zn_locked := False, zn_subs := st\<rparr> = zn\<lparr>zn_subs := st\<rparr>" using assms(1) by simp
  moreover have "z_subscription_get_infos kind expr peer zn =
      Ok (ke, map Some (filter (\<lambda>a. hears (peer \<noteq> None) ke (sub_at zn a)) as)) (zn\<lparr>zn_locked := False, zn_subs := st\<rparr>)"
    using st(1) assms(1-3)
    by (simp add: z_subscription_get_infos_def bind_ok_def then_do_def from_wireexpr_ok lock_if_open_ok zget_def
        unsafe_z_get_subscriptions_by_key_def z_session_mutex_unlock_def ret_def)
  ultimately show ?thesis using st(2-4) by (intro exI [of _ st]) simp
qed

lemma deliver_ok:
  assumes "quiet env app" "\<not> zn_locked zn" "\<not> zn_is_closed zn" "denotes zn peer expr ke" "subs_ok zn kind S as"
    and "\<And>a. a \<in> set as \<Longrightarrow> z_keyexpr_intersects (dke_inner (su_key (sub_at zn a))) ke \<noteq> None"
  shows "z_trigger_subscriptions_impl env kind expr payload encoding sk timestamp qos attachment reliability info peer zn =
    Ok () (zn\<lparr>zn_world := fold (\<lambda>a. app (su_callback (sub_at zn a))
        (z_sample_steal_data ke payload timestamp encoding sk qos attachment reliability info))
      (filter (\<lambda>a. hears (peer \<noteq> None) ke (sub_at zn a)) as) (zn_world zn)\<rparr>)"
proof -
  let ?bs = "filter (\<lambda>a. hears (peer \<noteq> None) ke (sub_at zn a)) as"
  let ?s = "z_sample_steal_data ke payload timestamp encoding sk qos attachment reliability info"
  obtain st where st: "z_subscription_get_infos kind expr peer zn = Ok (ke, map Some ?bs) (zn\<lparr>zn_subs := st\<rparr>)"
    "owned st (S + mset ?bs) {#}" "st_val st = st_val (zn_subs zn)" "st_next st = st_next (zn_subs zn)"
    using get_infos_ok [OF assms(2-6)] by blast
  have same: "sub_at (zn\<lparr>zn_subs := st\<rparr>) = sub_at zn" by (simp add: sub_at_def fun_eq_iff st)
  have sub: "set ?bs \<subseteq> set_mset S" using assms(5) by (auto simp: subs_ok_def)
  have o: "owned (zn_subs (zn\<lparr>zn_subs := st\<rparr>)) (S + mset ?bs) {#}" using st(2) by simp
  have sub': "set ?bs \<subseteq> set_mset (S + mset ?bs)" by auto
  let ?w = "fold (\<lambda>a. app (su_callback (sub_at zn a)) ?s) ?bs (zn_world zn)"
  have call: "call_subscriptions env ?s (map Some ?bs) (zn\<lparr>zn_subs := st\<rparr>) = Ok Z_RES_OK (zn\<lparr>zn_subs := st, zn_world := ?w\<rparr>)"
    using call_ok [OF assms(1) o sub', of ?s] by (simp only: same) simp
  have "each (sub_rc_drop env) (map Some ?bs) (zn\<lparr>zn_subs := st, zn_world := ?w\<rparr>) =
      Ok () (zn\<lparr>zn_subs := st, zn_world := ?w\<rparr>\<lparr>zn_subs := zn_subs zn\<rparr>)"
    unfolding sub_rc_drop_eq using assms(5) st sub by (intro subs.drop_collected [of zn S "{#}"]) (simp_all add: subs_ok_def)
  then show ?thesis using st(1) call
    by (simp add: z_trigger_subscriptions_impl_def bind_ok_def then_do_def return_code_def ret_def)
qed

text \<open>With expressions that mean something, hearing a key is matching it.\<close>

lemma hears_match:
  assumes "kexpr_ok ps" "kkey_ok cs" "dke_inner (su_key sub) = ke_string ps"
  shows "z_keyexpr_intersects (dke_inner (su_key sub)) (join cs) \<noteq> None"
    "hears True (join cs) sub \<longleftrightarrow> z_locality_allows_remote (su_allowed_origin sub) \<and> key_match ps cs"
  using matches_ok [OF assms(1,2)] assms(3) by (simp_all add: hears_def)

section \<open>Registering and unregistering\<close>

text \<open>Droppers and the clearing of an expression change the state of the application only.\<close>

definition tidy :: "('c, 'w) z_env \<Rightarrow> ('c \<Rightarrow> 'w \<Rightarrow> 'w) \<Rightarrow> (z_key_t \<Rightarrow> 'w \<Rightarrow> 'w) \<Rightarrow> bool" where
  "tidy env dr kc \<longleftrightarrow> (\<forall>d zn. env_drop env d zn = Ok () (zn\<lparr>zn_world := dr d (zn_world zn)\<rparr>)) \<and>
     (\<forall>k zn. env_key_clear env k zn = Ok () (zn\<lparr>zn_world := kc k (zn_world zn)\<rparr>))"

definition dropped :: "('c \<Rightarrow> 'w \<Rightarrow> 'w) \<Rightarrow> 'c option \<Rightarrow> 'w \<Rightarrow> 'w" where
  "dropped dr d w = (case d of None \<Rightarrow> w | Some d \<Rightarrow> dr d w)"

definition cleared :: "('c \<Rightarrow> 'w \<Rightarrow> 'w) \<Rightarrow> (z_key_t \<Rightarrow> 'w \<Rightarrow> 'w) \<Rightarrow> 'c option \<Rightarrow> z_key_t \<Rightarrow> 'w \<Rightarrow> 'w" where
  "cleared dr kc d k w = kc k (dropped dr d w)"

lemma tidy_key: "tidy env dr kc \<Longrightarrow> env_key_clear env k zn = Ok () (zn\<lparr>zn_world := kc k (zn_world zn)\<rparr>)"
  by (simp add: tidy_def)

lemma drop_opt_ok: "tidy env dr kc \<Longrightarrow> drop_opt env d zn = Ok () (zn\<lparr>zn_world := dropped dr d (zn_world zn)\<rparr>)"
  by (cases d) (simp_all add: drop_opt_def dropped_def ret_def ignore_def tidy_def)

lemma sub_clear_ok:
  "tidy env dr kc \<Longrightarrow> z_subscription_clear env sub zn = Ok () (zn\<lparr>zn_world := cleared dr kc (su_dropper sub) (su_key sub) (zn_world zn)\<rparr>)"
  using tidy_key [of env dr kc] by (simp add: z_subscription_clear_def then_do_def bind_ok_def drop_opt_ok ignore_def cleared_def)

lemma sub_clears:
  "tidy env dr kc \<Longrightarrow> clears (z_subscription_clear env) (\<lambda>sub. cleared dr kc (su_dropper sub) (su_key sub))"
  by (simp add: clears_def sub_clear_ok)

lemma register_subscription_eq:
  "z_register_subscription env kind =
     register_rc zn_subs (\<lambda>st zn. zn\<lparr>zn_subs := st\<rparr>) (sub_list kind) (set_sub_list kind) (z_subscription_clear env)"
  by (intro ext) (simp only: z_register_subscription_def register_rc_def on_subs_def sub_rc_drop_eq)

lemma unregister_subscription_eq:
  "z_unregister_subscription env kind =
     unregister_rc zn_subs (\<lambda>st zn. zn\<lparr>zn_subs := st\<rparr>) (sub_list kind) (set_sub_list kind) (z_subscription_clear env)"
  by (intro ext) (simp only: z_unregister_subscription_def unregister_rc_def sub_rc_drop_eq)

lemma subs_world_swap: "zn\<lparr>zn_world := w, zn_subs := st\<rparr> = zn\<lparr>zn_subs := st, zn_world := w\<rparr>"
  by simp

text \<open>Registering and unregistering, as the contract has them.\<close>

lemmas subscription_register_ok = subs.register_ok [where clear = "z_subscription_clear env" for env, folded register_subscription_eq]

lemma subscription_register_closed:
  assumes "\<not> zn_locked zn" "zn_is_closed zn" "owned (zn_subs zn) S {#}" "tidy env dr kc"
  shows "\<exists>st. z_register_subscription env kind s zn =
      Ok None (zn\<lparr>zn_subs := st, zn_world := cleared dr kc (su_dropper s) (su_key s) (zn_world zn)\<rparr>) \<and> owned st S {#} \<and>
      (\<forall>a \<in># S. st_val st a = st_val (zn_subs zn) a)"
  using subs.register_closed [OF assms(1-3) sub_clears [OF assms(4)], of kind s] by (simp add: register_subscription_eq subs_world_swap)

lemma subscription_unregister_ok:
  assumes "\<not> zn_locked zn" "subs_ok zn kind S as" "a \<in> set as" "count S a = 2" "tidy env dr kc"
  shows "\<exists>st. z_unregister_subscription env kind (Some a) zn =
      Ok () (set_sub_list kind (map Some (remove1 a as)) (zn\<lparr>zn_subs := st,
        zn_world := cleared dr kc (su_dropper (sub_at zn a)) (su_key (sub_at zn a)) (zn_world zn)\<rparr>)) \<and>
    owned st (S - {#a#} - {#a#}) {#} \<and> st_val st = (st_val (zn_subs zn))(a := None)"
  using subs.unregister_ok [OF assms(1) _ assms(3,4) sub_clears [OF assms(5)], of kind] assms(2)
  by (simp add: unregister_subscription_eq subs_ok_eq subs_world_swap)

lemma subscription_register_unregister:
  assumes "\<not> zn_locked zn" "\<not> zn_is_closed zn" "subs_ok zn kind S as" "tidy env dr kc"
  shows "\<exists>a zn' zn''. z_register_subscription env kind s zn = Ok (Some a) zn' \<and>
    sub_list kind zn' = Some a # sub_list kind zn \<and> sub_at zn' a = s \<and>
    z_unregister_subscription env kind (Some a) zn' = Ok () zn'' \<and>
    zn'' = zn\<lparr>zn_subs := zn_subs zn'', zn_world := cleared dr kc (su_dropper s) (su_key s) (zn_world zn)\<rparr> \<and>
    subs_ok zn'' kind S as \<and> (\<forall>b \<in># S. sub_at zn'' b = sub_at zn b)"
  using subs.register_unregister [OF assms(1,2) _ sub_clears [OF assms(4)], of kind S as s] assms(3)
  by (simp add: register_subscription_eq unregister_subscription_eq subs_ok_eq subs_world_swap)

end
