(* ===== verification/Zp_QleLaws.thy ===== *)
theory Zp_QleLaws imports Zp_SessQueryable Zp_SubLaws
begin

text \<open>
  Queryables keep the contract of a list of counted values, and a query that arrives is answered: every
  queryable it is for is called once, in the order of the list, and the final reply is sent
  once, after all of them, when no reference is left.
\<close>

section \<open>The lists keep the contract\<close>

interpretation qles: rc_list zn_qles "\<lambda>st zn. zn\<lparr>zn_qles := st\<rparr>" zn_local_queryable "\<lambda>xs zn. zn\<lparr>zn_local_queryable := xs\<rparr>"
  by unfold_locales simp_all

interpretation queries: rc_part zn_queries "\<lambda>st zn. zn\<lparr>zn_queries := st\<rparr>"
  by unfold_locales simp_all

lemma qle_rc_drop_eq: "qle_rc_drop env = rc_let_go zn_qles (\<lambda>st zn. zn\<lparr>zn_qles := st\<rparr>) (z_session_queryable_clear env)"
  by (simp add: fun_eq_iff qle_rc_drop_def rc_let_go_def)

lemma query_rc_drop_eq: "query_rc_drop env = rc_let_go zn_queries (\<lambda>st zn. zn\<lparr>zn_queries := st\<rparr>) (z_query_clear env)"
  by (simp add: fun_eq_iff query_rc_drop_def rc_let_go_def)

lemma register_queryable_eq:
  "z_register_session_queryable env =
     register_rc zn_qles (\<lambda>st zn. zn\<lparr>zn_qles := st\<rparr>) zn_local_queryable (\<lambda>xs zn. zn\<lparr>zn_local_queryable := xs\<rparr>)
       (z_session_queryable_clear env)"
  by (intro ext) (simp only: z_register_session_queryable_def register_rc_def on_qles_def qle_rc_drop_eq z_list_push_def)

lemma unregister_queryable_eq:
  "z_unregister_session_queryable env =
     unregister_rc zn_qles (\<lambda>st zn. zn\<lparr>zn_qles := st\<rparr>) zn_local_queryable (\<lambda>xs zn. zn\<lparr>zn_local_queryable := xs\<rparr>)
       (z_session_queryable_clear env)"
  by (intro ext) (simp only: z_unregister_session_queryable_def unregister_rc_def qle_rc_drop_eq)

lemma queryable_clears:
  "tidy env dr kc \<Longrightarrow> clears (z_session_queryable_clear env) (\<lambda>q. cleared dr kc (qy_dropper q) (qy_key q))"
  using tidy_key [of env dr kc]
  by (simp add: clears_def z_session_queryable_clear_def then_do_def bind_ok_def drop_opt_ok ignore_def cleared_def)

lemma queryable_register_unregister:
  assumes "\<not> zn_locked zn" "\<not> zn_is_closed zn" "qles.ok zn S as" "tidy env dr kc"
  shows "\<exists>a zn' zn''. z_register_session_queryable env q zn = Ok (Some a) zn' \<and>
    zn_local_queryable zn' = Some a # zn_local_queryable zn \<and> qles.at zn' a = q \<and>
    z_unregister_session_queryable env (Some a) zn' = Ok () zn'' \<and>
    zn'' = zn\<lparr>zn_world := cleared dr kc (qy_dropper q) (qy_key q) (zn_world zn), zn_qles := zn_qles zn''\<rparr> \<and>
    qles.ok zn'' S as \<and> (\<forall>b \<in># S. qles.at zn'' b = qles.at zn b)"
  using qles.register_unregister [OF assms(1-3) queryable_clears [OF assms(4)], of q]
  by (simp add: register_queryable_eq unregister_queryable_eq)

section \<open>The queryables a query is for\<close>

definition answers :: "bool \<Rightarrow> z_string_t \<Rightarrow> 'c z_session_queryable_t \<Rightarrow> bool" where
  "answers is_remote ke q \<longleftrightarrow>
     (if is_remote then z_locality_allows_remote (qy_allowed_origin q) else z_locality_allows_local (qy_allowed_origin q)) \<and>
     z_keyexpr_intersects (dke_inner (qy_key q)) ke = Some True"

definition answers_test :: "bool \<Rightarrow> z_string_t \<Rightarrow> 'c z_session_queryable_t \<Rightarrow> (bool, 's) prog" where
  "answers_test is_remote key q =
     (if (if is_remote then z_locality_allows_remote (qy_allowed_origin q) else z_locality_allows_local (qy_allowed_origin q))
      then of_option (z_keyexpr_intersects (dke_inner (qy_key q)) key) else ret False)"

lemma queryables_by_key_collect:
  "queryables_by_key key r xs acc = rc_collect zn_qles (\<lambda>st zn. zn\<lparr>zn_qles := st\<rparr>) (answers_test r key) acc xs"
  by (induction xs arbitrary: acc) (simp_all add: on_qles_def answers_test_def Let_def cong: if_cong)

lemma answers_test_ok:
  "z_keyexpr_intersects (dke_inner (qy_key q)) ke \<noteq> None \<Longrightarrow> answers_test r ke q s = Ok (answers r ke q) s"
  by (auto simp: answers_test_def answers_def of_option_def ret_def)

lemma queryable_get_infos_ok:
  assumes "\<not> zn_locked zn" "\<not> zn_is_closed zn" "denotes zn peer expr ke" "qles.ok zn S as"
    and "\<And>a. a \<in> set as \<Longrightarrow> z_keyexpr_intersects (dke_inner (qy_key (qles.at zn a))) ke \<noteq> None"
  shows "\<exists>st. z_session_queryable_get_infos expr peer zn =
      Ok (ke, map Some (filter (\<lambda>a. answers (peer \<noteq> None) ke (qles.at zn a)) as)) (zn\<lparr>zn_qles := st\<rparr>) \<and>
    owned st (S + mset (filter (\<lambda>a. answers (peer \<noteq> None) ke (qles.at zn a)) as)) {#} \<and> st_val st = st_val (zn_qles zn) \<and>
    st_next st = st_next (zn_qles zn)"
proof -
  let ?zn = "zn\<lparr>zn_locked := True\<rparr>" and ?P = "\<lambda>a. answers (peer \<noteq> None) ke (qles.at zn a)"
  have "\<exists>st. rc_collect zn_qles (\<lambda>st zn. zn\<lparr>zn_qles := st\<rparr>) (answers_test (peer \<noteq> None) ke) [] (map Some as) ?zn =
      Ok ([] @ map Some (filter ?P as)) (?zn\<lparr>zn_qles := st\<rparr>) \<and>
    owned st (S + mset (filter ?P as)) {#} \<and> st_val st = st_val (zn_qles ?zn) \<and> st_next st = st_next (zn_qles ?zn)"
    using assms(4) answers_test_ok [OF assms(5)]
    by (intro qles.collect_ok) (auto simp: qles.ok_def qles.at_other)
  then obtain st where st: "rc_collect zn_qles (\<lambda>st zn. zn\<lparr>zn_qles := st\<rparr>) (answers_test (peer \<noteq> None) ke) [] (map Some as) ?zn =
      Ok (map Some (filter ?P as)) (?zn\<lparr>zn_qles := st\<rparr>)"
    "owned st (S + mset (filter ?P as)) {#}" "st_val st = st_val (zn_qles zn)" "st_next st = st_next (zn_qles zn)"
    by auto
  have "zn\<lparr>zn_locked := False, zn_qles := st\<rparr> = zn\<lparr>zn_qles := st\<rparr>" using assms(1) by simp
  moreover have "z_session_queryable_get_infos expr peer zn =
      Ok (ke, map Some (filter ?P as)) (zn\<lparr>zn_locked := False, zn_qles := st\<rparr>)"
    using st(1) assms(1-4)
    by (simp add: z_session_queryable_get_infos_def bind_ok_def then_do_def from_wireexpr_ok lock_if_open_ok zget_def
        unsafe_z_get_session_queryables_by_key_def z_session_mutex_unlock_def ret_def queryables_by_key_collect qles.ok_def)
  ultimately show ?thesis using st(2-4) by (intro exI [of _ st]) simp
qed

section \<open>A query is answered\<close>

text \<open>
  The application looks at the query and changes its own state; it keeps no reference. What is sent
  becomes part of that state.
\<close>

definition quiet_queries :: "('c, 'w) z_env \<Rightarrow> ('c \<Rightarrow> z_query_t \<Rightarrow> 'w \<Rightarrow> 'w) \<Rightarrow> bool" where
  "quiet_queries env app \<longleftrightarrow> (\<forall>c a zn. st_val (zn_queries zn) a \<noteq> None \<longrightarrow>
     env_query env c (Some a) zn = Ok () (zn\<lparr>zn_world := app c (the (st_val (zn_queries zn) a)) (zn_world zn)\<rparr>))"

definition sending :: "('c, 'w) z_env \<Rightarrow> (z_network_message_t \<Rightarrow> nat option \<Rightarrow> 'w \<Rightarrow> 'w) \<Rightarrow> bool" where
  "sending env snd_msg \<longleftrightarrow> (\<forall>m r c p zn. env_send_n_msg env m r c p zn = Ok () (zn\<lparr>zn_world := snd_msg m p (zn_world zn)\<rparr>))"

lemma call_queryables_ok:
  assumes "quiet_queries env app" "owned (zn_qles zn) S W" "set bs \<subseteq> set_mset S" "owned (zn_queries zn) Q V" "a \<in># Q" "count Q a < rc_max"
  shows "call_queryables env (Some a) (map Some bs) zn =
    Ok () (zn\<lparr>zn_world := fold (\<lambda>b. app (qy_callback (qles.at zn b)) (queries.at zn a)) bs (zn_world zn)\<rparr>)"
  using assms(2-4)
proof (induction bs arbitrary: zn rule: induct_list012)
  case 1
  then show ?case by (simp add: ret_def)
next
  case (2 b)
  have "st_val (zn_queries zn) a \<noteq> None" using owned_value [OF 2(3)] assms(5) by blast
  then show ?case using 2 assms(1) qles.read_ok [of zn S W b]
    by (simp add: bind_ok_def on_qles_def quiet_queries_def ignore_def queries.at_def)
next
  case (3 b c bs)
  have rd: "within zn_qles (\<lambda>st zn. zn\<lparr>zn_qles := st\<rparr>) (rc_read (Some b)) zn = Ok (qles.at zn b) zn"
    using 3 qles.read_ok [of zn S W b] by simp
  obtain st where st: "rc_clone (Some a) (zn_queries zn) = Ok (Some a) st" "owned st (add_mset a Q) V"
    "st_val st = st_val (zn_queries zn)" "st_next st = st_next (zn_queries zn)"
    using clone_owned [OF 3(5) assms(5,6)] by blast
  let ?w = "app (qy_callback (qles.at zn b)) (queries.at zn a) (zn_world zn)"
  have v: "st_val st a \<noteq> None" using owned_value [OF st(2)] by simp
  have call: "ignore (env_query env (qy_callback (qles.at zn b)) (Some a)) (zn\<lparr>zn_queries := st\<rparr>) = Ok () (zn\<lparr>zn_queries := st, zn_world := ?w\<rparr>)"
    using assms(1) v st(3) by (simp add: quiet_queries_def ignore_def queries.at_def)
  have "each (query_rc_drop env) (map Some [a]) (zn\<lparr>zn_queries := st, zn_world := ?w\<rparr>) =
      Ok () (zn\<lparr>zn_queries := st, zn_world := ?w\<rparr>\<lparr>zn_queries := zn_queries zn\<rparr>)"
    unfolding query_rc_drop_eq using st(2-4) assms(5) by (intro queries.drop_collected [OF 3(5)]) simp_all
  then have drop: "query_rc_drop env (Some a) (zn\<lparr>zn_queries := st, zn_world := ?w\<rparr>) = Ok () (zn\<lparr>zn_world := ?w\<rparr>)"
    by (simp add: then_do_def bind_ok_def ret_def split: res.splits)
  have "call_queryables env (Some a) (map Some (c # bs)) (zn\<lparr>zn_world := ?w\<rparr>) = Ok () (zn\<lparr>zn_world := ?w\<rparr>\<lparr>zn_world :=
      fold (\<lambda>b. app (qy_callback (qles.at (zn\<lparr>zn_world := ?w\<rparr>) b)) (queries.at (zn\<lparr>zn_world := ?w\<rparr>) a)) (c # bs) (zn_world (zn\<lparr>zn_world := ?w\<rparr>))\<rparr>)"
    using 3(3-5) by (intro 3(2)) auto
  then show ?case using rd st(1) call drop
    by (simp add: bind_ok_def then_do_def on_qles_def on_queries_def within_def qles.at_other queries.at_def)
qed

text \<open>The query as it is given to the queryables.\<close>

definition received_query :: "z_msg_query_t \<Rightarrow> z_string_t \<Rightarrow> u32 \<Rightarrow> z_n_qos_t \<Rightarrow> bool \<Rightarrow> z_query_t" where
  "received_query msgq ke qid qos is_local = (the (z_query_move_data (q_ext_value msgq) ke (q_parameters msgq) qid (q_ext_attachment msgq)
     (q_implicit_anyke msgq) (q_ext_info msgq)))\<lparr>qu_qos := qos, qu_is_local := is_local\<rparr>"

lemma move_data_some: "z_query_move_data v ke ps i at any info = Some (the (z_query_move_data v ke ps i at any info))"
  by (simp add: z_query_move_data_def has_anyke_ok)

lemma received_query_fields:
  "qu_request_id (received_query msgq ke qid qos l) = qid" "qu_is_local (received_query msgq ke qid qos l) = l"
  "dke_inner (qu_key (received_query msgq ke qid qos l)) = ke" "qu_value (received_query msgq ke qid qos l) = q_ext_value msgq"
  "qu_parameters (received_query msgq ke qid qos l) = q_parameters msgq" "qu_attachment (received_query msgq ke qid qos l) = q_ext_attachment msgq"
  "qu_anyke (received_query msgq ke qid qos l) \<longleftrightarrow> q_implicit_anyke msgq \<or> Z_QUERY_PARAMS_KEY_ANYKE \<in> set (split_on 0x3b (q_parameters msgq))"
  by (simp_all add: received_query_def z_query_move_data_def has_anyke_ok z_keyexpr_move_def)

lemma query_answered:
  assumes "quiet_queries env app" "sending env snd_msg" "tidy env dr kc" "\<not> zn_locked zn" "\<not> zn_is_closed zn"
    and "denotes zn (Some peer) expr ke" "qles.ok zn S as" "owned (zn_queries zn) Q {#}"
    and "\<And>a. a \<in> set as \<Longrightarrow> z_keyexpr_intersects (dke_inner (qy_key (qles.at zn a))) ke \<noteq> None"
  shows "\<exists>st. z_trigger_queryables env msgq expr qid qos (Some peer) zn = Ok () (zn\<lparr>zn_queries := st, zn_world :=
      (let asked = filter (\<lambda>a. answers True ke (qles.at zn a)) as; q = received_query msgq ke qid qos False;
           w = fold (\<lambda>a. app (qy_callback (qles.at zn a)) q) asked (zn_world zn);
           w = snd_msg (z_n_msg_make_response_final (ucast qid)) None w
       in if asked = [] then w else kc (qu_key q) w)\<rparr>) \<and>
    owned st Q {#} \<and> (\<forall>b \<in># Q. st_val st b = st_val (zn_queries zn) b)"
proof -
  let ?bs = "filter (\<lambda>a. answers True ke (qles.at zn a)) as" and ?q = "received_query msgq ke qid qos False"
  obtain st where st: "z_session_queryable_get_infos expr (Some peer) zn = Ok (ke, map Some ?bs) (zn\<lparr>zn_qles := st\<rparr>)"
    "owned st (S + mset ?bs) {#}" "st_val st = st_val (zn_qles zn)" "st_next st = st_next (zn_qles zn)"
    using queryable_get_infos_ok [OF assms(4-7,9)] by auto
  have sub: "set ?bs \<subseteq> set_mset S" using assms(7) by (auto simp: qles.ok_def)
  have o: "owned (zn_qles zn) S {#}" using assms(7) by (simp add: qles.ok_def)
  show ?thesis
  proof (cases "?bs = []")
    case True
    have "st = zn_qles zn" using st(2-4) o unfolding True by (intro owned_unique) simp_all
    then show ?thesis using st(1) assms(2,8) unfolding True
      by (intro exI [of _ "zn_queries zn"]) (simp add: z_trigger_queryables_def Let_def bind_ok_def ignore_def z_session_send_reply_final_def sending_def)
  next
    case False
    obtain mq where mq: "z_query_move_data (q_ext_value msgq) ke (q_parameters msgq) qid (q_ext_attachment msgq)
        (q_implicit_anyke msgq) (q_ext_info msgq) = Some mq" "mq\<lparr>qu_qos := qos, qu_is_local := False\<rparr> = ?q"
      using move_data_some by (simp add: received_query_def) blast
    obtain a q1 where q1: "rc_new_from_val ?q (zn_queries zn) = Ok (Some a) q1" "a \<notin># Q" "owned q1 (add_mset a Q) {#}"
      "st_val q1 = (st_val (zn_queries zn))(a \<mapsto> ?q)"
      using new_owned [OF assms(8), of ?q] by blast
    let ?zn2 = "zn\<lparr>zn_qles := st, zn_queries := q1\<rparr>"
    have at: "qles.at ?zn2 = qles.at zn" "queries.at ?zn2 a = ?q" using st(3) q1(4) by (simp_all add: qles.at_def queries.at_def fun_eq_iff)
    have c: "count (add_mset a Q) a < rc_max" "count (add_mset a Q) a = 1" using q1(2) by (simp_all add: not_in_iff rc_max_def)
    let ?w = "fold (\<lambda>b. app (qy_callback (qles.at zn b)) ?q) ?bs (zn_world zn)"
    let ?zn3 = "zn\<lparr>zn_qles := st, zn_queries := q1, zn_world := ?w\<rparr>"
    have "call_queryables env (Some a) (map Some ?bs) ?zn2 =
        Ok () (?zn2\<lparr>zn_world := fold (\<lambda>b. app (qy_callback (qles.at ?zn2 b)) (queries.at ?zn2 a)) ?bs (zn_world ?zn2)\<rparr>)"
      using assms(1) st(2) q1(3) c(1) by (intro call_queryables_ok [of env app _ "S + mset ?bs" "{#}" _ "add_mset a Q" "{#}"]) auto
    then have call: "call_queryables env (Some a) (map Some ?bs) ?zn2 = Ok () ?zn3" unfolding at by simp
    let ?v = "kc (qu_key ?q) (snd_msg (z_n_msg_make_response_final (ucast qid)) None ?w)"
    let ?zn4 = "zn\<lparr>zn_qles := st, zn_world := ?v\<rparr>"
    have at3: "queries.at ?zn3 a = ?q" using q1(4) by (simp add: queries.at_def)
    have clear: "z_query_clear env (queries.at ?zn3 a) (?zn3\<lparr>zn_queries := t\<rparr>) = Ok () (?zn4\<lparr>zn_queries := t\<rparr>)" for t
      using assms(2,5) tidy_key [OF assms(3)] unfolding at3
      by (simp add: z_query_clear_def then_do_def bind_ok_def ignore_def z_query_send_reply_final_def z_session_is_closed_def
          z_session_send_reply_final_def sending_def received_query_fields)
    have o3: "owned (zn_queries ?zn3) (add_mset a Q) {#}" using q1(3) by simp
    obtain q2 where q2: "query_rc_drop env (Some a) ?zn3 = Ok () (?zn4\<lparr>zn_queries := q2\<rparr>)" "owned q2 (add_mset a Q - {#a#}) {#}"
      "st_val q2 = (st_val (zn_queries ?zn3))(a := None)"
      using queries.drop_last [of ?zn3 "add_mset a Q" "{#}" a "z_query_clear env" ?zn4, OF o3 c(2) clear] unfolding query_rc_drop_eq by blast
    have "each (qle_rc_drop env) (map Some ?bs) (?zn4\<lparr>zn_queries := q2\<rparr>) = Ok () (?zn4\<lparr>zn_queries := q2\<rparr>\<lparr>zn_qles := zn_qles zn\<rparr>)"
      unfolding qle_rc_drop_eq using st sub by (intro qles.drop_collected [OF o]) simp_all
    moreover have "?zn4\<lparr>zn_queries := q2\<rparr>\<lparr>zn_qles := zn_qles zn\<rparr> = zn\<lparr>zn_queries := q2, zn_world := ?v\<rparr>" by simp
    ultimately have "z_trigger_queryables env msgq expr qid qos (Some peer) zn = Ok () (zn\<lparr>zn_queries := q2, zn_world := ?v\<rparr>)"
      using st(1) q1(1) call q2(1) False mq
      by (simp add: z_trigger_queryables_def Let_def bind_ok_def then_do_def on_queries_def within_def of_option_def ret_def)
    then show ?thesis using False q2(2,3) q1(2,4) by (intro exI [of _ q2]) (auto simp: Let_def)
  qed
qed

end
