(* ===== verification/Zp_IntrLaws.thy ===== *)
theory Zp_IntrLaws imports Zp_Interest Zp_QleLaws
begin

text \<open>
  Interests are told what others declare: a declaration is kept, and each interest of its kind that
  it concerns is called once, the last one of the list first; an undeclaration is told to the same
  interests and removes it.
\<close>

section \<open>The list keeps the contract\<close>

interpretation intrs: rc_list zn_intrs "\<lambda>st zn. zn\<lparr>zn_intrs := st\<rparr>" zn_local_interests "\<lambda>xs zn. zn\<lparr>zn_local_interests := xs\<rparr>"
  by unfold_locales simp_all

lemma intr_rc_drop_eq: "intr_rc_drop env = rc_let_go zn_intrs (\<lambda>st zn. zn\<lparr>zn_intrs := st\<rparr>) (z_session_interest_clear env)"
  by (simp add: fun_eq_iff intr_rc_drop_def rc_let_go_def)

text \<open>Which interests a key is for.\<close>

definition interested :: "u8 \<Rightarrow> z_string_t \<Rightarrow> z_optional_id_t \<Rightarrow> 'c z_session_interest_t \<Rightarrow> bool" where
  "interested flags key interest_id intr \<longleftrightarrow> si_flags intr AND flags \<noteq> 0 \<and>
     (oid_has_value interest_id \<and> oid_value interest_id \<noteq> 0 \<longrightarrow> oid_value interest_id = si_id intr) \<and>
     (if z_session_interest_is_aggregate intr then z_keyexpr_equals (si_key intr) key
      else z_keyexpr_intersects (si_key intr) key = Some True)"

definition interested_test :: "u8 \<Rightarrow> z_string_t \<Rightarrow> z_optional_id_t \<Rightarrow> 'c z_session_interest_t \<Rightarrow> (bool, 's) prog" where
  "interested_test flags key interest_id intr =
     (if si_flags intr AND flags = 0 \<or> (oid_has_value interest_id \<and> oid_value interest_id \<noteq> 0 \<and> oid_value interest_id \<noteq> si_id intr)
      then ret False else interest_matches intr key)"

lemma interested_test_ok:
  "z_keyexpr_intersects (si_key intr) key \<noteq> None \<Longrightarrow> interested_test flags key i intr s = Ok (interested flags key i intr) s"
  by (auto simp: interested_test_def interested_def interest_matches_def of_option_def ret_def)

lemma if_apply_def2: "(if b then f else g) x = (if b then f x else g x)"
  by simp

lemma interests_by_key_collect:
  "(z_get_interest_by_key_and_flags_in flags key i new xs :: (z_rc list, 'c, 'w) zprog) =
     bind_ok (rc_collect zn_intrs (\<lambda>st zn. zn\<lparr>zn_intrs := st\<rparr>) (interested_test flags key i) (rev new) xs) (\<lambda>l. ret (rev l))"
proof (induction xs arbitrary: new)
  case Nil
  then show ?case by (simp add: bind_ok_def ret_def fun_eq_iff)
next
  case (Cons p xs)
  let ?R = "\<lambda>new. bind_ok (rc_collect zn_intrs (\<lambda>st zn. zn\<lparr>zn_intrs := st\<rparr>) (interested_test flags key i) (rev new) xs) (\<lambda>l. ret (rev l))"
  have "(z_get_interest_by_key_and_flags_in flags key i new (p # xs) :: (z_rc list, 'c, 'w) zprog) s = bind_ok (rc_collect zn_intrs (\<lambda>st zn. zn\<lparr>zn_intrs := st\<rparr>)
      (interested_test flags key i) (rev new) (p # xs)) (\<lambda>l. ret (rev l)) s" for s
  proof (cases "within zn_intrs (\<lambda>st zn. zn\<lparr>zn_intrs := st\<rparr>) (rc_read p) s")
    case (Ok intr s')
    let ?skip = "si_flags intr AND flags = 0 \<or> (oid_has_value i \<and> oid_value i \<noteq> 0 \<and> oid_value i \<noteq> si_id intr)"
    have l: "z_get_interest_by_key_and_flags_in flags key i new (p # xs) s =
        (if ?skip then ?R new s' else bind_ok (interest_matches intr key) (\<lambda>hit. if hit
           then bind_ok (within zn_intrs (\<lambda>st zn. zn\<lparr>zn_intrs := st\<rparr>) (rc_clone p)) (\<lambda>c. ?R (c # new)) else ?R new) s')"
      unfolding z_get_interest_by_key_and_flags_in.simps bind_ok_def on_intrs_def Ok res.case if_apply_def2 by (simp only: Cons.IH bind_ok_def)
    show ?thesis unfolding l using Ok
      by (simp add: interested_test_def bind_ok_def ret_def split: res.splits)
  qed (simp_all add: bind_ok_def on_intrs_def)
  then show ?case by (rule ext)
qed

section \<open>Telling interests\<close>

definition quiet_interests :: "('c, 'w) z_env \<Rightarrow> ('c \<Rightarrow> z_interest_msg_t \<Rightarrow> nat option \<Rightarrow> 'w \<Rightarrow> 'w) \<Rightarrow> bool" where
  "quiet_interests env app \<longleftrightarrow> (\<forall>c m p zn. env_interest env c m p zn = Ok () (zn\<lparr>zn_world := app c m p (zn_world zn)\<rparr>))"

definition told ::
    "('c \<Rightarrow> z_interest_msg_t \<Rightarrow> nat option \<Rightarrow> 'w \<Rightarrow> 'w) \<Rightarrow> z_interest_msg_t \<Rightarrow> nat option \<Rightarrow> 'c z_session_interest_t \<Rightarrow> 'w \<Rightarrow> 'w" where
  "told app msg peer intr w = (case si_callback intr of None \<Rightarrow> w | Some c \<Rightarrow> app c msg peer w)"

lemma call_each_ok:
  assumes "quiet_interests env app" "owned (zn_intrs zn) S W" "set bs \<subseteq> set_mset S"
  shows "each (call_interest env msg peer) (map Some bs) zn =
    Ok () (zn\<lparr>zn_world := fold (\<lambda>a. told app msg peer (intrs.at zn a)) bs (zn_world zn)\<rparr>)"
  using assms(2,3)
proof (induction bs arbitrary: zn)
  case Nil
  then show ?case by (simp add: ret_def)
next
  case (Cons b bs)
  let ?w = "told app msg peer (intrs.at zn b) (zn_world zn)"
  have "call_interest env msg peer (Some b) zn = Ok () (zn\<lparr>zn_world := ?w\<rparr>)"
    using Cons.prems assms(1) intrs.read_ok [of zn S W b]
    by (auto simp: call_interest_def bind_ok_def on_intrs_def told_def ret_def ignore_def quiet_interests_def split: option.splits)
  moreover have "each (call_interest env msg peer) (map Some bs) (zn\<lparr>zn_world := ?w\<rparr>) =
      Ok () (zn\<lparr>zn_world := ?w\<rparr>\<lparr>zn_world := fold (\<lambda>a. told app msg peer (intrs.at (zn\<lparr>zn_world := ?w\<rparr>) a)) bs (zn_world (zn\<lparr>zn_world := ?w\<rparr>))\<rparr>)"
    using Cons.prems by (intro Cons.IH) auto
  ultimately show ?case by (simp add: then_do_def bind_ok_def intrs.at_other)
qed

lemma call_interests_ok:
  assumes "quiet_interests env app" "owned st0 S {#}" "zn_intrs zn = st" "owned st (S + mset bs) {#}" "set bs \<subseteq> set_mset S"
    and "st_val st = st_val st0" "st_next st = st_next st0"
  shows "call_interests env msg peer (map Some bs) zn =
    Ok () (zn\<lparr>zn_intrs := st0, zn_world := fold (\<lambda>a. told app msg peer (intrs.at zn a)) bs (zn_world zn)\<rparr>)"
proof -
  let ?w = "fold (\<lambda>a. told app msg peer (intrs.at zn a)) bs (zn_world zn)"
  have sub: "set bs \<subseteq> set_mset (S + mset bs)" by auto
  have "each (call_interest env msg peer) (map Some bs) zn = Ok () (zn\<lparr>zn_world := ?w\<rparr>)"
    using call_each_ok [OF assms(1) _ sub, of zn "{#}" msg peer] assms(3,4) by simp
  moreover have "each (intr_rc_drop env) (map Some bs) (zn\<lparr>zn_world := ?w\<rparr>) = Ok () (zn\<lparr>zn_world := ?w\<rparr>\<lparr>zn_intrs := st0\<rparr>)"
    unfolding intr_rc_drop_eq using intrs.drop_collected [of "zn\<lparr>zn_intrs := st0\<rparr>" S "{#}" "zn\<lparr>zn_world := ?w\<rparr>" bs] assms(2-7) by simp
  ultimately show ?thesis by (simp add: call_interests_def then_do_def bind_ok_def)
qed

lemma get_interests_ok:
  assumes "intrs.ok zn S as" "\<And>a. a \<in> set as \<Longrightarrow> z_keyexpr_intersects (si_key (intrs.at zn a)) key \<noteq> None"
  shows "\<exists>st. unsafe_z_get_interest_by_key_and_flags flags key i zn =
      Ok (map Some (rev (filter (\<lambda>a. interested flags key i (intrs.at zn a)) as))) (zn\<lparr>zn_intrs := st\<rparr>) \<and>
    owned st (S + mset (rev (filter (\<lambda>a. interested flags key i (intrs.at zn a)) as))) {#} \<and> st_val st = st_val (zn_intrs zn) \<and>
    st_next st = st_next (zn_intrs zn)"
proof -
  let ?P = "\<lambda>a. interested flags key i (intrs.at zn a)"
  have "\<exists>st. rc_collect zn_intrs (\<lambda>st zn. zn\<lparr>zn_intrs := st\<rparr>) (interested_test flags key i) [] (map Some as) zn =
      Ok ([] @ map Some (filter ?P as)) (zn\<lparr>zn_intrs := st\<rparr>) \<and>
    owned st (S + mset (filter ?P as)) {#} \<and> st_val st = st_val (zn_intrs zn) \<and> st_next st = st_next (zn_intrs zn)"
    using assms(1) interested_test_ok [OF assms(2)] by (intro intrs.collect_ok) (auto simp: intrs.ok_def)
  then show ?thesis using assms(1)
    by (auto simp: unsafe_z_get_interest_by_key_and_flags_def bind_ok_def zget_def interests_by_key_collect intrs.ok_def ret_def rev_map mset_rev)
qed

section \<open>Declarations and undeclarations\<close>

text \<open>What is known of an entity of another node.\<close>

definition known :: "z_declare_data_t list \<Rightarrow> u32 \<times> z_declare_type_t \<Rightarrow> z_declare_data_t option" where
  "known ds e = List.find (z_declare_data_eq (fst e) (snd e)) ds"

definition noted :: "z_string_t \<Rightarrow> u32 \<Rightarrow> z_declare_type_t \<Rightarrow> bool \<Rightarrow> nat option \<Rightarrow> z_declare_data_t list \<Rightarrow> z_declare_data_t list" where
  "noted key i type complete peer ds =
     (if known ds (i, type) = None
      then \<lparr>dd_key = key, dd_peer = peer, dd_id = i, dd_type = type, dd_complete = complete\<rparr> # ds
      else update_first (z_declare_data_eq i type) (\<lambda>d. d\<lparr>dd_complete := complete\<rparr>) ds)"

lemma note_declare_ok:
  "note_declare key i type complete peer zn = Ok () (zn\<lparr>zn_remote_declares := noted key i type complete peer (zn_remote_declares zn)\<rparr>)"
  by (auto simp: note_declare_def unsafe_get_declare_def unsafe_register_declare_def bind_ok_def zget_def zmod_def noted_def known_def list_find_eq
      split: option.splits)

lemma known_update:
  "known (update_first (z_declare_data_eq i type) (\<lambda>d. d\<lparr>dd_complete := c\<rparr>) ds) e =
     (if e = (i, type) then map_option (\<lambda>d. d\<lparr>dd_complete := c\<rparr>) (known ds e) else known ds e)"
  by (cases e; induction ds) (auto simp: known_def z_declare_data_eq_def)

text \<open>The entity is known afterwards, with the completeness it was declared with and the key it was first declared with.\<close>

lemma known_noted:
  "known (noted key i type c p ds) e =
     (if e = (i, type)
      then Some (case known ds e of Some d \<Rightarrow> d\<lparr>dd_complete := c\<rparr>
                 | None \<Rightarrow> \<lparr>dd_key = key, dd_peer = p, dd_id = i, dd_type = type, dd_complete = c\<rparr>)
      else known ds e)"
  by (cases e) (auto simp: noted_def known_update split: option.splits, auto simp: known_def z_declare_data_eq_def)

lemma declares_ok:
  assumes "quiet_interests env app" "\<not> zn_locked zn" "\<not> zn_is_closed zn"
    and "interest_declare (de_decl decl) = Some (ty, i, expr, dt, flags, complete)" "denotes zn peer expr key" "intrs.ok zn S as"
    and "\<And>a. a \<in> set as \<Longrightarrow> z_keyexpr_intersects (si_key (intrs.at zn a)) key \<noteq> None"
  shows "z_interest_process_declares env decl peer zn = Ok () (zn\<lparr>
      zn_remote_declares := noted key i dt complete (map_option fst peer) (zn_remote_declares zn),
      zn_world := fold (\<lambda>a. told app \<lparr>im_id = i, im_type = ty, im_key = Some key, im_is_complete = complete\<rparr> (map_option fst peer) (intrs.at zn a))
        (rev (filter (\<lambda>a. interested flags key (de_interest_id decl) (intrs.at zn a)) as)) (zn_world zn)\<rparr>)"
proof -
  let ?zn = "zn\<lparr>zn_locked := True, zn_remote_declares := noted key i dt complete (map_option fst peer) (zn_remote_declares zn)\<rparr>"
  let ?bs = "rev (filter (\<lambda>a. interested flags key (de_interest_id decl) (intrs.at zn a)) as)"
  let ?msg = "\<lparr>im_id = i, im_type = ty, im_key = Some key, im_is_complete = complete\<rparr>"
  have at: "intrs.at ?zn = intrs.at zn" by (simp add: intrs.at_def fun_eq_iff)
  have ok: "intrs.ok ?zn S as" using assms(6) by (simp add: intrs.ok_def)
  obtain st where st: "unsafe_z_get_interest_by_key_and_flags flags key (de_interest_id decl) ?zn = Ok (map Some ?bs) (?zn\<lparr>zn_intrs := st\<rparr>)"
    "owned st (S + mset ?bs) {#}" "st_val st = st_val (zn_intrs zn)" "st_next st = st_next (zn_intrs zn)"
    using get_interests_ok [OF ok, unfolded at, OF assms(7)] by auto
  let ?zn1 = "?zn\<lparr>zn_intrs := st, zn_locked := False\<rparr>"
  have at1: "intrs.at ?zn1 = intrs.at zn" using st(3) by (simp add: intrs.at_def fun_eq_iff)
  have o: "owned (zn_intrs zn) S {#}" and sub: "set ?bs \<subseteq> set_mset S" using assms(6) by (auto simp: intrs.ok_def)
  have call: "call_interests env ?msg (map_option fst peer) (map Some ?bs) ?zn1 = Ok () (?zn1\<lparr>zn_intrs := zn_intrs zn,
      zn_world := fold (\<lambda>a. told app ?msg (map_option fst peer) (intrs.at ?zn1 a)) ?bs (zn_world ?zn1)\<rparr>)"
    using st sub by (intro call_interests_ok [OF assms(1) o _ st(2)]) simp_all
  have z: "zn\<lparr>zn_locked := False, zn_remote_declares := ds, zn_world := w\<rparr> = zn\<lparr>zn_remote_declares := ds, zn_world := w\<rparr>"
    "zn\<lparr>zn_remote_declares := ds, zn_locked := False, zn_world := w\<rparr> = zn\<lparr>zn_remote_declares := ds, zn_world := w\<rparr>" for ds w
    using assms(2) by simp_all
  have "z_interest_process_declares env decl peer zn =
      call_interests env ?msg (map_option fst peer) (map Some ?bs) ?zn1"
    using st(1) assms(2-5)
    by (simp add: z_interest_process_declares_def bind_ok_def then_do_def attempt_def from_wireexpr_ok lock_if_open_ok note_declare_ok
        z_session_mutex_unlock_def)
  then show ?thesis using call unfolding at1 by (simp add: z)
qed

text \<open>Undeclaring: the same interests are told, whatever answer they wait for, and the entity is forgotten.\<close>

definition forgotten :: "u32 \<Rightarrow> z_declare_type_t \<Rightarrow> z_declare_data_t list \<Rightarrow> z_declare_data_t list" where
  "forgotten i type ds = fst (z_list_drop_filter (z_declare_data_eq i type) True ds)"

lemma known_forgotten:
  assumes "distinct (map (\<lambda>d. (dd_id d, dd_type d)) ds)"
  shows "known (forgotten i type ds) e = (if e = (i, type) then None else known ds e)"
  using assms
proof (induction ds)
  case (Cons d ds)
  have "known ds e = None" if "z_declare_data_eq i type d" "e = (i, type)"
    using that Cons.prems by (auto simp: known_def z_declare_data_eq_def find_None_iff image_iff)
  then show ?case using Cons by (cases e) (auto simp: forgotten_def known_def z_declare_data_eq_def split: prod.splits)
qed (simp add: forgotten_def known_def)

lemma undeclares_ok:
  assumes "quiet_interests env app" "\<not> zn_locked zn" "\<not> zn_is_closed zn"
    and "interest_undeclare decl = Some (ty, i, dt, flags)" "known (zn_remote_declares zn) (i, dt) = Some d" "intrs.ok zn S as"
    and "\<And>a. a \<in> set as \<Longrightarrow> z_keyexpr_intersects (si_key (intrs.at zn a)) (dd_key d) \<noteq> None"
  shows "z_interest_process_undeclares env decl peer zn = Ok () (zn\<lparr>
      zn_remote_declares := forgotten i dt (zn_remote_declares zn),
      zn_world := fold (\<lambda>a. told app \<lparr>im_id = i, im_type = ty, im_key = None, im_is_complete = False\<rparr> (map_option fst peer) (intrs.at zn a))
        (rev (filter (\<lambda>a. interested flags (dd_key d) z_optional_id_make_none (intrs.at zn a)) as)) (zn_world zn)\<rparr>)"
proof -
  let ?zn = "zn\<lparr>zn_locked := True\<rparr>"
  let ?bs = "rev (filter (\<lambda>a. interested flags (dd_key d) z_optional_id_make_none (intrs.at zn a)) as)"
  let ?msg = "\<lparr>im_id = i, im_type = ty, im_key = None, im_is_complete = False\<rparr>"
  have ok: "intrs.ok ?zn S as" using assms(6) by (simp add: intrs.ok_def)
  obtain st where st: "unsafe_z_get_interest_by_key_and_flags flags (dd_key d) z_optional_id_make_none ?zn = Ok (map Some ?bs) (?zn\<lparr>zn_intrs := st\<rparr>)"
    "owned st (S + mset ?bs) {#}" "st_val st = st_val (zn_intrs zn)" "st_next st = st_next (zn_intrs zn)"
    using get_interests_ok [OF ok, unfolded intrs.at_other, OF assms(7)] by auto
  let ?zn1 = "?zn\<lparr>zn_intrs := st, zn_remote_declares := forgotten i dt (zn_remote_declares zn), zn_locked := False\<rparr>"
  have at1: "intrs.at ?zn1 = intrs.at zn" using st(3) by (simp add: intrs.at_def fun_eq_iff)
  have o: "owned (zn_intrs zn) S {#}" and sub: "set ?bs \<subseteq> set_mset S" using assms(6) by (auto simp: intrs.ok_def)
  have call: "call_interests env ?msg (map_option fst peer) (map Some ?bs) ?zn1 = Ok () (?zn1\<lparr>zn_intrs := zn_intrs zn,
      zn_world := fold (\<lambda>a. told app ?msg (map_option fst peer) (intrs.at ?zn1 a)) ?bs (zn_world ?zn1)\<rparr>)"
    using st sub by (intro call_interests_ok [OF assms(1) o _ st(2)]) simp_all
  have z: "zn\<lparr>zn_locked := False, zn_remote_declares := ds, zn_world := w\<rparr> = zn\<lparr>zn_remote_declares := ds, zn_world := w\<rparr>"
    "zn\<lparr>zn_remote_declares := ds, zn_locked := False, zn_world := w\<rparr> = zn\<lparr>zn_remote_declares := ds, zn_world := w\<rparr>" for ds w
    using assms(2) by simp_all
  have "z_interest_process_undeclares env decl peer zn =
      call_interests env ?msg (map_option fst peer) (map Some ?bs) ?zn1"
    using st(1) assms(2-5)
    by (simp add: z_interest_process_undeclares_def bind_ok_def then_do_def lock_if_open_ok unsafe_get_declare_def zget_def zmod_def
        unsafe_unregister_declare_def z_session_mutex_unlock_def known_def list_find_eq forgotten_def)
  then show ?thesis using call unfolding at1 by (simp add: z)
qed

lemma undeclares_unknown:
  assumes "\<not> zn_locked zn" "\<not> zn_is_closed zn" "interest_undeclare decl = Some (ty, i, dt, flags)" "known (zn_remote_declares zn) (i, dt) = None"
  shows "z_interest_process_undeclares env decl peer zn = Err Z_ERR_MESSAGE_ZENOH_DECLARATION_UNKNOWN zn"
  using assms
  by (simp add: z_interest_process_undeclares_def bind_ok_def then_do_def lock_if_open_ok unsafe_get_declare_def zget_def
      z_session_mutex_unlock_def known_def list_find_eq fail_def)

end
