(* ===== verification/Zp_ResLaws.thy ===== *)
theory Zp_ResLaws imports Zp_SubLaws
begin

text \<open>
  The table of declared expressions: an identifier stands for its string until as many calls to
  unregister have been made as calls to register gave it.
\<close>

section \<open>The table\<close>

lemma equals_refl [simp]: "z_keyexpr_equals k k"
  by (simp add: z_keyexpr_equals_def)

lemma ucast16_eq: "(ucast (a :: u16) :: u64) = ucast b \<longleftrightarrow> a = b"
proof -
  have "unat (ucast a :: u64) = unat a" for a :: u16
    using unsigned_less [of a] by (simp add: unsigned_ucast_eq take_bit_nat_eq_self)
  then show ?thesis by (metis word_unat_eq_iff)
qed

lemma by_id_find: "z_get_resource_by_id_inner rs (ucast i) = List.find (\<lambda>r. res_id r = i) rs"
  by (induction rs) (auto simp: ucast16_eq)

lemma by_key_find: "z_get_resource_by_key_inner rs k = List.find (\<lambda>r. z_keyexpr_equals (res_key r) k) rs"
  by (induction rs) auto

lemma find_split: "List.find P xs = Some x \<Longrightarrow> \<exists>as bs. xs = as @ x # bs \<and> (\<forall>a \<in> set as. \<not> P a) \<and> P x"
proof (induction xs)
  case (Cons y ys)
  show ?case
  proof (cases "P y")
    case True
    then show ?thesis using Cons.prems by (intro exI [of _ "[]"] exI [of _ ys]) simp
  next
    case False
    then obtain as bs where "ys = as @ x # bs" "\<forall>a \<in> set as. \<not> P a" "P x" using Cons by auto
    then show ?thesis using False by (intro exI [of _ "y # as"] exI [of _ bs]) simp
  qed
qed simp

lemma find_split_eq: "\<forall>a \<in> set as. \<not> P a \<Longrightarrow> P x \<Longrightarrow> List.find P (as @ x # bs) = Some x"
  by (induction as) auto

lemma update_split: "\<forall>a \<in> set as. \<not> P a \<Longrightarrow> P x \<Longrightarrow> update_first P f (as @ x # bs) = as @ f x # bs"
  by (induction as) auto

lemma concat_substr_ok: "z_string_concat_substr k s None = (Z_RES_OK, k @ s)"
  by (simp add: z_string_concat_substr_def)

lemma unregister_split:
  assumes "\<forall>a \<in> set as. res_id a \<noteq> i" "res_id r = i"
  shows "unregister_inner i (as @ r # bs) = (if res_refcount r - 1 = 0 then (Z_RES_OK, as @ bs)
    else (Z_RESOURCE_POSITIVE_REF_COUNT, as @ r\<lparr>res_refcount := res_refcount r - 1\<rparr> # bs))"
proof -
  have "fst (z_list_drop_filter (\<lambda>r. res_id r = i) True (as @ x # bs)) = as @ bs" if "res_id x = i" for x
    using assms(1) that by (induction as) (auto split: prod.splits)
  then show ?thesis using assms
    by (simp add: unregister_inner_def list_find_eq find_split_eq update_split Let_def)
qed

text \<open>
  The table of a session: identifiers that were given out, each once, for strings that are told
  apart.
\<close>

definition res_wf :: "('c, 'w) z_session_t \<Rightarrow> bool" where
  "res_wf zn \<longleftrightarrow> distinct (map res_id (zn_local_resources zn)) \<and>
     sorted_wrt (\<lambda>a b. \<not> z_keyexpr_equals (res_key a) (res_key b)) (zn_local_resources zn) \<and>
     (\<forall>r \<in> set (zn_local_resources zn). 0 < res_id r \<and> res_id r < zn_resource_id zn \<and> 0 < res_refcount r)"

text \<open>What a number and a suffix stand for.\<close>

definition res_means :: "('c, 'w) z_session_t \<Rightarrow> u16 \<Rightarrow> z_string_t \<Rightarrow> bool" where
  "res_means zn i key \<longleftrightarrow> i \<noteq> 0 \<and> (\<forall>suffix mapping. denotes zn None \<lparr>we_id = i, we_mapping = mapping, we_suffix = suffix\<rparr> (key @ suffix))"

lemma res_means_find:
  "res_means zn i key \<longleftrightarrow> i \<noteq> 0 \<and> map_option res_key (List.find (\<lambda>r. res_id r = i) (zn_local_resources zn)) = Some key"
  by (auto simp: res_means_def denotes_def wire_decls_def z_wireexpr_check_def z_get_keyexpr_from_wireexpr_inner_def by_id_find
      concat_substr_ok Z_RESOURCE_ID_NONE_def split: option.splits)

section \<open>Registering and unregistering\<close>

definition wire_of :: "z_string_t \<Rightarrow> z_wireexpr_t" where
  "wire_of key = \<lparr>we_id = 0, we_mapping = KEYEXPR_MAPPING_LOCAL, we_suffix = key\<rparr>"

lemma register_wire_of:
  assumes "\<not> zn_locked zn" "\<not> zn_is_closed zn"
  shows "z_register_resource (wire_of key) 0 (zn, None) =
    (case List.find (\<lambda>r. z_keyexpr_equals (res_key r) key) (zn_local_resources zn) of
       Some r \<Rightarrow> Ok (res_id r) (zn\<lparr>zn_local_resources :=
         update_first (\<lambda>r. z_keyexpr_equals (res_key r) key) res_count (zn_local_resources zn)\<rparr>, None)
     | None \<Rightarrow> Ok (zn_resource_id zn) (zn\<lparr>zn_resource_id := zn_resource_id zn + 1, zn_local_resources :=
         \<lparr>res_key = key, res_id = zn_resource_id zn, res_refcount = 1\<rparr> # zn_local_resources zn\<rparr>, None))"
proof -
  have u: "zn\<lparr>zn_locked := False, zn_local_resources := rs\<rparr> = zn\<lparr>zn_local_resources := rs\<rparr>"
    "zn\<lparr>zn_locked := False, zn_resource_id := i, zn_local_resources := rs\<rparr> = zn\<lparr>zn_resource_id := i, zn_local_resources := rs\<rparr>" for rs i
    using assms(1) by simp_all
  show ?thesis
    using assms u
    by (simp add: z_register_resource_def then_do_def bind_ok_def lock_if_open_ok z_register_resource_inner_def wire_of_def
        register_new_def resources_def remote_resources_def set_resources_def by_key_find z_get_resource_id_def Z_RESOURCE_ID_NONE_def
        lift_zn_def within_def z_session_mutex_unlock_def ret_def split: option.splits)
qed

lemma unregister_local:
  assumes "\<not> zn_locked zn"
  shows "z_unregister_resource i (zn, None) = (case unregister_inner i (zn_local_resources zn) of (r, rs) \<Rightarrow>
    if r = Z_RES_OK then Ok () (zn\<lparr>zn_local_resources := rs\<rparr>, None) else Err r (zn\<lparr>zn_local_resources := rs\<rparr>, None))"
proof -
  have "zn\<lparr>zn_locked := False, zn_local_resources := rs\<rparr> = zn\<lparr>zn_local_resources := rs\<rparr>" for rs
    using assms(1) by simp
  then show ?thesis using assms
    by (simp add: z_unregister_resource_def then_do_def bind_ok_def lock_ok lift_zn_def within_def resources_def remote_resources_def
        set_resources_def lift_zn_def within_def z_session_mutex_unlock_def return_code_def ret_def fail_def split: prod.splits)
qed

text \<open>A string that is declared has a number from then on, and the other numbers keep their meaning.\<close>

lemma find_key_id:
  assumes "res_wf zn" "zn_local_resources zn = as @ r # bs"
  shows "\<forall>a \<in> set as. res_id a \<noteq> res_id r"
proof -
  have "distinct (map res_id (as @ r # bs))" using assms by (simp add: res_wf_def)
  then show ?thesis by (auto simp: image_iff)
qed

lemma find_counted:
  "map_option res_key (List.find (\<lambda>r. res_id r = j) (as @ res_count r # bs)) = map_option res_key (List.find (\<lambda>r. res_id r = j) (as @ r # bs))"
  by (induction as) (simp_all add: res_count_def)

lemma register_resource_ok:
  assumes "\<not> zn_locked zn" "\<not> zn_is_closed zn" "res_wf zn" "0 < zn_resource_id zn" "zn_resource_id zn < 0xFFFF"
    and "\<And>r. r \<in> set (zn_local_resources zn) \<Longrightarrow> res_refcount r < 0xFFFF"
  shows "\<exists>i n k rs. z_register_resource (wire_of key) 0 (zn, None) = Ok i (zn\<lparr>zn_resource_id := n, zn_local_resources := rs\<rparr>, None) \<and>
    res_wf (zn\<lparr>zn_resource_id := n, zn_local_resources := rs\<rparr>) \<and> z_keyexpr_equals k key \<and>
    res_means (zn\<lparr>zn_resource_id := n, zn_local_resources := rs\<rparr>) i k \<and>
    (\<forall>j k. res_means zn j k \<longrightarrow> res_means (zn\<lparr>zn_resource_id := n, zn_local_resources := rs\<rparr>) j k)"
proof (cases "List.find (\<lambda>r. z_keyexpr_equals (res_key r) key) (zn_local_resources zn)")
  case None
  let ?i = "zn_resource_id zn"
  let ?rs = "\<lparr>res_key = key, res_id = ?i, res_refcount = 1\<rparr> # zn_local_resources zn"
  have lt: "?i < ?i + 1" using assms(5) by (simp add: word_less_nat_alt unat_word_ariths)
  have apart: "\<forall>r \<in> set (zn_local_resources zn). \<not> z_keyexpr_equals key (res_key r)"
    using None by (auto simp: find_None_iff z_keyexpr_equals_def)
  have old: "\<forall>r \<in> set (zn_local_resources zn). 0 < res_id r \<and> res_id r < ?i \<and> 0 < res_refcount r"
    using assms(3) by (simp add: res_wf_def)
  then have "\<forall>r \<in> set (zn_local_resources zn). res_id r < ?i + 1" using lt by (meson order_less_trans)
  then have "res_wf (zn\<lparr>zn_resource_id := ?i + 1, zn_local_resources := ?rs\<rparr>)"
    using assms(3,4) lt apart old by (auto simp: res_wf_def)
  moreover have "res_means (zn\<lparr>zn_resource_id := ?i + 1, zn_local_resources := ?rs\<rparr>) ?i key"
    using assms(4) by (simp add: res_means_find)
  moreover have "res_means (zn\<lparr>zn_resource_id := ?i + 1, zn_local_resources := ?rs\<rparr>) j k" if "res_means zn j k" for j k
    using that old by (auto simp: res_means_find dest!: find_split)
  ultimately show ?thesis using register_wire_of [OF assms(1,2), of key] None
    by (intro exI [of _ ?i] exI [of _ "?i + 1"] exI [of _ key] exI [of _ ?rs]) simp
next
  case (Some r)
  obtain as bs where s: "zn_local_resources zn = as @ r # bs" "\<forall>a \<in> set as. \<not> z_keyexpr_equals (res_key a) key"
    "z_keyexpr_equals (res_key r) key"
    using find_split [OF Some] by blast
  let ?rs = "as @ res_count r # bs"
  have u: "update_first (\<lambda>r. z_keyexpr_equals (res_key r) key) res_count (zn_local_resources zn) = ?rs"
    using s by (simp add: update_split)
  have "res_refcount r < 0xFFFF" using assms(6) s(1) by simp
  then have "0 < res_refcount r + 1" by (simp add: word_less_nat_alt unat_word_ariths)
  then have "res_wf (zn\<lparr>zn_resource_id := zn_resource_id zn, zn_local_resources := ?rs\<rparr>)"
    using assms(3) s(1) by (auto simp: res_wf_def sorted_wrt_append res_count_def)
  moreover have "res_means (zn\<lparr>zn_resource_id := zn_resource_id zn, zn_local_resources := ?rs\<rparr>) (res_id r) (res_key r)"
    using assms(3) s(1) find_key_id [OF assms(3) s(1)] by (auto simp: res_means_find find_split_eq res_count_def res_wf_def)
  moreover have "res_means (zn\<lparr>zn_resource_id := zn_resource_id zn, zn_local_resources := ?rs\<rparr>) j k" if "res_means zn j k" for j k
    using that s(1) by (simp add: res_means_find find_counted)
  ultimately show ?thesis using register_wire_of [OF assms(1,2), of key] Some u s(3)
    by (intro exI [of _ "res_id r"] exI [of _ "zn_resource_id zn"] exI [of _ "res_key r"] exI [of _ ?rs]) simp
qed

text \<open>Unregistering undoes registering: the table is what it was.\<close>

lemma register_unregister_resource:
  assumes "\<not> zn_locked zn" "\<not> zn_is_closed zn" "res_wf zn"
    and "\<And>r. r \<in> set (zn_local_resources zn) \<Longrightarrow> res_refcount r < 0xFFFF"
  shows "\<exists>i zn'. z_register_resource (wire_of key) 0 (zn, None) = Ok i (zn', None) \<and>
    (if \<exists>r \<in> set (zn_local_resources zn). z_keyexpr_equals (res_key r) key
     then z_unregister_resource i (zn', None) = Err Z_RESOURCE_POSITIVE_REF_COUNT (zn, None)
     else z_unregister_resource i (zn', None) = Ok () (zn\<lparr>zn_resource_id := zn_resource_id zn + 1\<rparr>, None))"
proof (cases "List.find (\<lambda>r. z_keyexpr_equals (res_key r) key) (zn_local_resources zn)")
  case None
  then have "\<not> (\<exists>r \<in> set (zn_local_resources zn). z_keyexpr_equals (res_key r) key)" by (auto simp: find_None_iff)
  then show ?thesis using register_wire_of [OF assms(1,2), of key] None assms(1)
      unregister_split [of "[]" "zn_resource_id zn" "\<lparr>res_key = key, res_id = zn_resource_id zn, res_refcount = 1\<rparr>" "zn_local_resources zn"]
    by (simp add: unregister_local)
next
  case (Some r)
  obtain as bs where s: "zn_local_resources zn = as @ r # bs" "\<forall>a \<in> set as. \<not> z_keyexpr_equals (res_key a) key"
    "z_keyexpr_equals (res_key r) key"
    using find_split [OF Some] by blast
  have ex: "\<exists>r \<in> set (zn_local_resources zn). z_keyexpr_equals (res_key r) key" using s(1,3) by auto
  have "0 < res_refcount r" using assms(3) s(1) by (simp add: res_wf_def)
  then have "unregister_inner (res_id r) (as @ res_count r # bs) = (Z_RESOURCE_POSITIVE_REF_COUNT, as @ r # bs)"
    using unregister_split [of as "res_id r" "res_count r" bs] find_key_id [OF assms(3) s(1)] by (simp add: res_count_def)
  moreover have "update_first (\<lambda>r. z_keyexpr_equals (res_key r) key) res_count (zn_local_resources zn) = as @ res_count r # bs"
    using s by (simp add: update_split)
  moreover have "zn\<lparr>zn_local_resources := as @ r # bs\<rparr> = zn" using s(1) by simp
  ultimately show ?thesis using register_wire_of [OF assms(1,2), of key] Some assms(1) ex
    by (simp add: unregister_local)
qed

end
