(* ===== verification/Zp_QueryLaws.thy ===== *)
theory Zp_QueryLaws imports Zp_SessQuery Zp_ResLaws
begin

text \<open>
  Consolidation keeps the newest reply of every key; the last final reply ends a query, and clears it
  once.
\<close>

section \<open>What is kept for a key\<close>

text \<open>Stored replies: all of data, each key once, and no two with the same time.\<close>

definition key_of :: "z_pending_reply_t \<Rightarrow> z_string_t" where
  "key_of p = the (reply_keyexpr (pr_reply p))"

definition time_of :: "z_pending_reply_t \<Rightarrow> u64" where
  "time_of p = ts_time (pr_tstamp p)"

definition plain_reply :: "z_pending_reply_t \<Rightarrow> bool" where
  "plain_reply p \<longleftrightarrow> reply_keyexpr (pr_reply p) = Some (key_of p) \<and> 0 \<notin> set (key_of p)"

fun pending_wf :: "z_pending_reply_t list \<Rightarrow> bool" where
  "pending_wf [] \<longleftrightarrow> True"
| "pending_wf (p # ps) \<longleftrightarrow> plain_reply p \<and> pending_wf ps \<and> (\<forall>q \<in> set ps. key_of q \<noteq> key_of p \<and> time_of q \<noteq> time_of p)"

text \<open>The table from keys to the newest reply.\<close>

definition newest :: "z_pending_reply_t list \<Rightarrow> z_string_t \<Rightarrow> z_pending_reply_t option" where
  "newest ps key = List.find (\<lambda>p. key_of p = key) ps"

lemma equals_plain: "0 \<notin> set a \<Longrightarrow> 0 \<notin> set b \<Longrightarrow> z_keyexpr_equals a b \<longleftrightarrow> a = b"
proof -
  assume a: "0 \<notin> set a" "0 \<notin> set b"
  have "takeWhile (\<lambda>c. c \<noteq> 0) a = a" "takeWhile (\<lambda>c. c \<noteq> 0) b = b"
    using a by (auto simp: takeWhile_eq_all_conv)
  then show ?thesis unfolding z_keyexpr_equals_def by (metis (no_types))
qed

lemma newest_simps [simp]: "newest [] k = None" "newest (p # ps) k = (if key_of p = k then Some p else newest ps k)"
  by (simp_all add: newest_def)

lemma with_key_newest: "pending_wf ps \<Longrightarrow> 0 \<notin> set key \<Longrightarrow> pending_with_key key ps = Some (newest ps key)"
  by (induction ps) (simp_all add: plain_reply_def equals_plain)

lemma newest_in: "newest ps k = Some p \<Longrightarrow> p \<in> set ps \<and> key_of p = k"
  by (induction ps) (auto split: if_splits)

lemma newest_none: "newest ps k = None \<longleftrightarrow> (\<forall>p \<in> set ps. key_of p \<noteq> k)"
  by (induction ps) auto

lemma drop_same_time:
  assumes "pending_wf ps" "p \<in> set ps"
  shows "fst (z_list_drop_filter (z_pending_reply_eq p) True ps) = filter (\<lambda>q. key_of q \<noteq> key_of p) ps"
  using assms
proof (induction ps)
  case (Cons q ps)
  show ?case
  proof (cases "q = p")
    case True
    then have "filter (\<lambda>q. key_of q \<noteq> key_of p) ps = ps" using Cons.prems(1) by (simp add: filter_id_conv)
    then show ?thesis using True by (simp add: z_pending_reply_eq_def)
  next
    case False
    then have p: "p \<in> set ps" using Cons.prems(2) by simp
    then have "key_of q \<noteq> key_of p" "time_of p \<noteq> time_of q" using Cons.prems(1) by auto
    then have "z_list_drop_filter (z_pending_reply_eq p) True (q # ps) =
        (case z_list_drop_filter (z_pending_reply_eq p) True ps of (ys, ds) \<Rightarrow> (q # ys, ds))"
      by (simp add: z_pending_reply_eq_def time_of_def)
    then show ?thesis using Cons.IH p Cons.prems(1) \<open>key_of q \<noteq> key_of p\<close> by (simp split: prod.splits)
  qed
qed simp

lemma newest_filter: "newest (filter (\<lambda>q. key_of q \<noteq> j) ps) k = (if k = j then None else newest ps k)"
  by (induction ps) auto

lemma wf_filter: "pending_wf ps \<Longrightarrow> pending_wf (filter P ps)"
  by (induction ps) auto

text \<open>
  A reply that arrives, of a key and with a time that no other key has: it replaces an older one of its
  key, or is stored, or is not newer and changes nothing.
\<close>

lemma steal_keyexpr: "reply_keyexpr (z_reply_steal_data key i p ts e k a si) = Some key"
  by (simp add: reply_keyexpr_def z_reply_steal_data_def z_sample_steal_data_def z_keyexpr_steal_def)

lemma stored_reply_key:
  "reply_keyexpr reply = Some key \<Longrightarrow> \<exists>stored left. stored_reply mode reply = (Z_RES_OK, stored, left) \<and> reply_keyexpr stored = Some key \<and>
    (mode = Z_CONSOLIDATION_MODE_LATEST \<longrightarrow> stored = reply) \<and> (mode = Z_CONSOLIDATION_MODE_MONOTONIC \<longrightarrow> left = reply)"
  by (auto simp: reply_keyexpr_def stored_reply_def z_reply_move_def z_sample_move_def z_declared_keyexpr_copy_def z_keyexpr_copy_def
      z_declared_keyexpr_move_def z_keyexpr_move_def z_sample_null_def Z_CONSOLIDATION_MODE_MONOTONIC_def Z_CONSOLIDATION_MODE_LATEST_def
      split: z_reply_result_t.splits)

lemma consolidate_ok:
  assumes "pending_wf ps" "reply_keyexpr reply = Some key" "0 \<notin> set key"
    and "\<And>p. p \<in> set ps \<Longrightarrow> key_of p \<noteq> key \<Longrightarrow> time_of p \<noteq> ts_time ts"
  shows "\<exists>left ps' p. consolidate mode ts reply ps = Some (Z_RES_OK, left, ps') \<and> pending_wf ps' \<and>
    (mode = Z_CONSOLIDATION_MODE_MONOTONIC \<longrightarrow> left = reply) \<and>
    (if \<exists>q. newest ps key = Some q \<and> ts_time ts \<le> time_of q then ps' = ps
     else newest ps' = (newest ps)(key \<mapsto> p) \<and> pr_tstamp p = ts \<and> (mode = Z_CONSOLIDATION_MODE_LATEST \<longrightarrow> pr_reply p = reply))"
proof -
  obtain stored left where st: "stored_reply mode reply = (Z_RES_OK, stored, left)" "reply_keyexpr stored = Some key"
    "mode = Z_CONSOLIDATION_MODE_LATEST \<longrightarrow> stored = reply" "mode = Z_CONSOLIDATION_MODE_MONOTONIC \<longrightarrow> left = reply"
    using stored_reply_key [OF assms(2), of mode] by blast
  let ?p = "\<lparr>pr_reply = stored, pr_tstamp = ts\<rparr>"
  have p: "key_of ?p = key" "time_of ?p = ts_time ts" "plain_reply ?p"
    using st(2) assms(3) by (simp_all add: key_of_def time_of_def plain_reply_def)
  have w: "pending_with_key key ps = Some (newest ps key)" using with_key_newest [OF assms(1,3)] .
  show ?thesis
  proof (cases "newest ps key")
    case None
    then have "\<forall>q \<in> set ps. key_of q \<noteq> key \<and> time_of q \<noteq> ts_time ts" using assms(4) by (simp add: newest_none)
    then have "pending_wf (?p # ps)" using assms(1) p by simp
    moreover have "consolidate mode ts reply ps = Some (Z_RES_OK, left, ?p # ps)"
      using None w st(1) assms(2) by (simp add: consolidate_def z_list_push_def)
    moreover have "newest (?p # ps) = (newest ps)(key \<mapsto> ?p)" using p(1) by (auto simp: fun_eq_iff)
    ultimately show ?thesis using None st(3,4) by (intro exI [of _ left] exI [of _ "?p # ps"] exI [of _ ?p]) simp
  next
    case (Some q)
    note q = newest_in [OF Some]
    show ?thesis
    proof (cases "ts_time ts \<le> time_of q")
      case True
      have "consolidate mode ts reply ps = Some (Z_RES_OK, reply, ps)"
        using Some w True assms(2) by (simp add: consolidate_def time_of_def)
      then show ?thesis using Some True assms(1) by simp
    next
      case False
      let ?ps = "filter (\<lambda>r. key_of r \<noteq> key) ps"
      have "consolidate mode ts reply ps = Some (Z_RES_OK, left, ?p # ?ps)"
        using Some w False assms(2) st(1) drop_same_time [OF assms(1), of q] q by (simp add: consolidate_def time_of_def z_list_push_def)
      moreover have "pending_wf (?p # ?ps)" using wf_filter [OF assms(1)] p assms(4) by simp
      moreover have "newest (?p # ?ps) = (newest ps)(key \<mapsto> ?p)" using p(1) by (auto simp: fun_eq_iff newest_filter)
      ultimately show ?thesis using Some False st(3,4) by (intro exI [of _ left] exI [of _ "?p # ?ps"] exI [of _ ?p]) simp
    qed
  qed
qed

section \<open>Replies and the end of a query\<close>

text \<open>An application whose reply callbacks change its own state only.\<close>

definition quiet_replies :: "('c, 'w) z_env \<Rightarrow> ('c \<Rightarrow> z_reply_t \<Rightarrow> 'w \<Rightarrow> 'w) \<Rightarrow> bool" where
  "quiet_replies env app \<longleftrightarrow> (\<forall>c r zn. env_reply env c r zn = Ok () (zn\<lparr>zn_world := app c r (zn_world zn)\<rparr>))"

text \<open>The pending queries before and after the one with a number.\<close>

definition query_at :: "('c, 'w) z_session_t \<Rightarrow> 'c z_pending_query_t list \<Rightarrow> 'c z_pending_query_t \<Rightarrow> 'c z_pending_query_t list \<Rightarrow> bool" where
  "query_at zn as q bs \<longleftrightarrow> zn_pending_queries zn = as @ q # bs \<and> (\<forall>a \<in> set as. pq_id a \<noteq> pq_id q)"

lemma find_at: "\<forall>a \<in> set as. pq_id a \<noteq> i \<Longrightarrow> pq_id q = i \<Longrightarrow> z_list_find (z_pending_query_eq i) (as @ q # bs) = Some q"
  by (induction as) (auto simp: z_pending_query_eq_def)

lemma update_at: "\<forall>a \<in> set as. pq_id a \<noteq> i \<Longrightarrow> pq_id q = i \<Longrightarrow> update_first (z_pending_query_eq i) f (as @ q # bs) = as @ f q # bs"
  by (induction as) (auto simp: z_pending_query_eq_def)

lemma drop_at: "\<forall>a \<in> set as. pq_id a \<noteq> i \<Longrightarrow> pq_id q = i \<Longrightarrow>
    z_list_drop_filter (z_pending_query_eq i) True (as @ q # bs) = (as @ bs, [q])"
  by (induction as) (auto simp: z_pending_query_eq_def)

lemma reply_ok: "quiet_replies env app \<Longrightarrow> ignore (env_reply env c r) zn = Ok () (zn\<lparr>zn_world := app c r (zn_world zn)\<rparr>)"
  by (simp add: ignore_def quiet_replies_def)

lemma set_pending_at:
  "zn_pending_queries zn = as @ q # bs \<Longrightarrow> \<forall>a \<in> set as. pq_id a \<noteq> i \<Longrightarrow> pq_id q = i \<Longrightarrow>
   set_pending i f zn = Ok () (zn\<lparr>zn_pending_queries := as @ f q # bs\<rparr>)"
  by (simp add: set_pending_def zmod_def update_at)

lemma deliver_pending_ok:
  assumes "quiet_replies env app" "\<forall>a \<in> set as. pq_id a \<noteq> i" "pq_id q = i" "zn_pending_queries zn = as @ q # bs"
    and "ps = [] \<Longrightarrow> pq_pending_replies q = []"
  shows "deliver_pending env i c ps zn = Ok () (zn\<lparr>zn_pending_queries := as @ q\<lparr>pq_pending_replies := []\<rparr> # bs,
    zn_world := fold (\<lambda>p. app c (pr_reply p)) ps (zn_world zn)\<rparr>)"
  using assms(3-5)
proof (induction ps arbitrary: zn q)
  case Nil
  then have "q\<lparr>pq_pending_replies := []\<rparr> = q" by simp
  then show ?case using Nil by (simp add: ret_def)
next
  case (Cons p ps)
  let ?zn = "zn\<lparr>zn_world := app c (pr_reply p) (zn_world zn)\<rparr>"
  let ?q = "q\<lparr>pq_pending_replies := ps\<rparr>"
  have "set_pending i (\<lambda>q. q\<lparr>pq_pending_replies := ps\<rparr>) ?zn = Ok () (?zn\<lparr>zn_pending_queries := as @ ?q # bs\<rparr>)"
    using Cons.prems assms(2) by (intro set_pending_at) simp_all
  moreover have "deliver_pending env i c ps (?zn\<lparr>zn_pending_queries := as @ ?q # bs\<rparr>) =
      Ok () (?zn\<lparr>zn_pending_queries := as @ ?q # bs\<rparr>\<lparr>zn_pending_queries := as @ ?q\<lparr>pq_pending_replies := []\<rparr> # bs,
        zn_world := fold (\<lambda>p. app c (pr_reply p)) ps (zn_world (?zn\<lparr>zn_pending_queries := as @ ?q # bs\<rparr>))\<rparr>)"
    using Cons.prems by (intro Cons.IH) simp_all
  ultimately show ?case by (simp add: then_do_def bind_ok_def reply_ok [OF assms(1)])
qed

lemma drop_pending_at:
  assumes "tidy env dr kc" "\<forall>a \<in> set as. pq_id a \<noteq> i" "pq_id q = i" "zn_pending_queries zn = as @ q # bs"
  shows "drop_pending env (z_pending_query_eq i) True zn = Ok () (zn\<lparr>zn_pending_queries := as @ bs,
    zn_world := dropped dr (pq_dropper q) (zn_world zn)\<rparr>)"
  using assms(2-4)
  by (simp add: drop_pending_def zget_def bind_ok_def drop_at then_do_def z_pending_query_clear_def drop_opt_ok [OF assms(1)] zmod_def ret_def)

lemma finalize_query_ok:
  assumes "quiet_replies env app" "tidy env dr kc" "\<forall>a \<in> set as. pq_id a \<noteq> pq_id q" "zn_pending_queries zn = as @ q # bs"
    and "w = (if pq_consolidation q = Z_CONSOLIDATION_MODE_LATEST
      then fold (\<lambda>p. app (pq_callback q) (pr_reply p)) (pq_pending_replies q) (zn_world zn) else zn_world zn)"
  shows "then_do (when_do (pq_consolidation q = Z_CONSOLIDATION_MODE_LATEST)
        (deliver_pending env (pq_id q) (pq_callback q) (pq_pending_replies q)))
      (then_do (drop_pending env (z_pending_query_eq (pq_id q)) True) z_session_mutex_unlock) zn =
    Ok () (zn\<lparr>zn_pending_queries := as @ bs, zn_locked := False, zn_world := dropped dr (pq_dropper q) w\<rparr>)"
proof (cases "pq_consolidation q = Z_CONSOLIDATION_MODE_LATEST")
  case True
  let ?q = "q\<lparr>pq_pending_replies := []\<rparr>"
  let ?zn = "zn\<lparr>zn_pending_queries := as @ ?q # bs, zn_world := w\<rparr>"
  have "deliver_pending env (pq_id q) (pq_callback q) (pq_pending_replies q) zn = Ok () ?zn"
    using deliver_pending_ok [OF assms(1,3) refl assms(4), of "pq_pending_replies q" "pq_callback q"] assms(5) True by simp
  moreover have "drop_pending env (z_pending_query_eq (pq_id q)) True ?zn =
      Ok () (?zn\<lparr>zn_pending_queries := as @ bs, zn_world := dropped dr (pq_dropper ?q) (zn_world ?zn)\<rparr>)"
    using assms(3) by (intro drop_pending_at [OF assms(2), of _ _ ?q]) simp_all
  ultimately show ?thesis using True by (simp add: when_do_def then_do_def bind_ok_def z_session_mutex_unlock_def)
next
  case False
  have "drop_pending env (z_pending_query_eq (pq_id q)) True zn =
      Ok () (zn\<lparr>zn_pending_queries := as @ bs, zn_world := dropped dr (pq_dropper q) (zn_world zn)\<rparr>)"
    using assms(3,4) by (intro drop_pending_at [OF assms(2), of _ _ q]) simp_all
  then show ?thesis using False assms(5) by (simp add: when_do_def then_do_def bind_ok_def z_session_mutex_unlock_def ret_def)
qed

text \<open>
  A final reply that is not the last is counted. The last one delivers what was kept, newest first, and
  clears the query, once.
\<close>

definition finals_left :: "u8 \<Rightarrow> u8" where
  "finals_left n = (if 0 < n then n - 1 else n)"

lemma finals_left_0: "finals_left n = 0 \<longleftrightarrow> \<not> 1 < n"
  using word_unat_eq_iff [of n 1]
  by (cases "n = 0") (auto simp: finals_left_def word_less_nat_alt word_gt_0 unat_eq_zero linorder_not_less word_le_nat_alt)

lemma reply_final_ok:
  assumes "\<not> zn_locked zn" "\<not> zn_is_closed zn" "query_at zn as q bs" "quiet_replies env app" "tidy env dr kc"
    and "w = (if pq_consolidation q = Z_CONSOLIDATION_MODE_LATEST
      then fold (\<lambda>p. app (pq_callback q) (pr_reply p)) (pq_pending_replies q) (zn_world zn) else zn_world zn)"
  shows "z_trigger_query_reply_final env (pq_id q) zn =
    (if 1 < pq_remaining_finals q
     then Ok () (zn\<lparr>zn_pending_queries := as @ q\<lparr>pq_remaining_finals := pq_remaining_finals q - 1\<rparr> # bs\<rparr>)
     else Ok () (zn\<lparr>zn_pending_queries := as @ bs, zn_world := dropped dr (pq_dropper q) w\<rparr>))"
proof -
  have at: "zn_pending_queries zn = as @ q # bs" "\<forall>a \<in> set as. pq_id a \<noteq> pq_id q" using assms(3) by (simp_all add: query_at_def)
  let ?q = "q\<lparr>pq_remaining_finals := finals_left (pq_remaining_finals q)\<rparr>"
  let ?zn = "zn\<lparr>zn_locked := True, zn_pending_queries := as @ ?q # bs\<rparr>"
  have u: "zn\<lparr>zn_locked := False, zn_pending_queries := x, zn_world := w\<rparr> = zn\<lparr>zn_pending_queries := x, zn_world := w\<rparr>"
    "zn\<lparr>zn_pending_queries := x, zn_locked := False\<rparr> = zn\<lparr>zn_pending_queries := x\<rparr>" for x w using assms(1) by simp_all
  have set: "set_pending (pq_id q) (\<lambda>r. r\<lparr>pq_remaining_finals := finals_left (pq_remaining_finals q)\<rparr>) (zn\<lparr>zn_locked := True\<rparr>) = Ok () ?zn"
    using at by (subst set_pending_at [of _ as q bs]) simp_all
  have find: "unsafe_get_pending_query_by_id (pq_id q) (zn\<lparr>zn_locked := True\<rparr>) = Ok (Some q) (zn\<lparr>zn_locked := True\<rparr>)"
    using at by (simp add: unsafe_get_pending_query_by_id_def zget_def find_at)
  have start: "z_trigger_query_reply_final env (pq_id q) zn =
      then_do (when_do (pq_consolidation q = Z_CONSOLIDATION_MODE_LATEST \<and> finals_left (pq_remaining_finals q) = 0)
          (deliver_pending env (pq_id q) (pq_callback q) (pq_pending_replies q)))
        (then_do (when_do (finals_left (pq_remaining_finals q) = 0) (drop_pending env (z_pending_query_eq (pq_id q)) True))
          z_session_mutex_unlock) ?zn"
    using assms(1,2) find set
    by (simp add: z_trigger_query_reply_final_def then_do_def bind_ok_def lock_if_open_ok Let_def finals_left_def [symmetric])
  show ?thesis
  proof (cases "1 < pq_remaining_finals q")
    case True
    then have "finals_left (pq_remaining_finals q) \<noteq> 0" "finals_left (pq_remaining_finals q) = pq_remaining_finals q - 1"
      by (simp_all only: finals_left_0) (simp_all add: finals_left_def word_less_nat_alt)
    then show ?thesis using True u by (simp add: start when_do_def then_do_def bind_ok_def ret_def z_session_mutex_unlock_def)
  next
    case False
    then have n: "finals_left (pq_remaining_finals q) = 0" by (simp add: finals_left_0)
    have "z_trigger_query_reply_final env (pq_id q) zn =
        Ok () (?zn\<lparr>zn_pending_queries := as @ bs, zn_locked := False, zn_world := dropped dr (pq_dropper ?q) w\<rparr>)"
      using finalize_query_ok [OF assms(4,5), of as ?q ?zn bs w] at(2) assms(6) n by (simp add: start)
    then show ?thesis using False u by simp
  qed
qed

text \<open>In every mode but the one that keeps the latest, a reply is delivered at once, also one that is not newer.\<close>

lemma reply_partial_ok:
  assumes "\<not> zn_locked zn" "\<not> zn_is_closed zn" "query_at zn as q bs" "quiet_replies env app"
    and "pq_anyke q \<or> z_keyexpr_intersects (pq_key q) key = Some True" "pq_consolidation q \<noteq> Z_CONSOLIDATION_MODE_LATEST"
    and "pq_consolidation q = Z_CONSOLIDATION_MODE_MONOTONIC \<Longrightarrow> pending_wf (pq_pending_replies q) \<and> 0 \<notin> set key \<and>
      (\<forall>p \<in> set (pq_pending_replies q). key_of p \<noteq> key \<longrightarrow> time_of p \<noteq> ts_time (pc_timestamp (put_commons msg)))"
  shows "\<exists>ps. z_trigger_query_reply_partial_inner env (pq_id q) key msg kind replier zn =
    Ok () (zn\<lparr>zn_pending_queries := as @ q\<lparr>pq_pending_replies := ps\<rparr> # bs,
      zn_world := app (pq_callback q) (z_reply_steal_data key replier (put_payload msg) (pc_timestamp (put_commons msg)) (put_encoding msg)
        kind (put_attachment msg) (pc_source_info (put_commons msg))) (zn_world zn)\<rparr>)"
proof -
  have at: "zn_pending_queries zn = as @ q # bs" "\<forall>a \<in> set as. pq_id a \<noteq> pq_id q" using assms(3) by (simp_all add: query_at_def)
  let ?ts = "pc_timestamp (put_commons msg)"
  let ?r = "z_reply_steal_data key replier (put_payload msg) ?ts (put_encoding msg) kind (put_attachment msg) (pc_source_info (put_commons msg))"
  have hit: "query_concerned q key (zn\<lparr>zn_locked := True\<rparr>) = Ok True (zn\<lparr>zn_locked := True\<rparr>)"
    using assms(5) by (auto simp: query_concerned_def ret_def of_option_def)
  have "\<exists>ps. process_consolidation q ?ts ?r (zn\<lparr>zn_locked := True\<rparr>) = Ok (Z_RES_OK, ?r, ps) (zn\<lparr>zn_locked := True\<rparr>)"
  proof (cases "pq_consolidation q = Z_CONSOLIDATION_MODE_MONOTONIC")
    case True
    then obtain ps where "consolidate (pq_consolidation q) ?ts ?r (pq_pending_replies q) = Some (Z_RES_OK, ?r, ps)"
      using consolidate_ok [of "pq_pending_replies q" ?r key ?ts "pq_consolidation q"] steal_keyexpr assms(7) by force
    then show ?thesis using True by (simp add: process_consolidation_def of_option_def ret_def)
  qed (use assms(6) in \<open>simp add: process_consolidation_def ret_def\<close>)
  then obtain ps where ps: "process_consolidation q ?ts ?r (zn\<lparr>zn_locked := True\<rparr>) = Ok (Z_RES_OK, ?r, ps) (zn\<lparr>zn_locked := True\<rparr>)" by blast
  have set: "set_pending (pq_id q) (\<lambda>q. q\<lparr>pq_pending_replies := ps\<rparr>) (zn\<lparr>zn_locked := True\<rparr>) =
      Ok () (zn\<lparr>zn_locked := True, zn_pending_queries := as @ q\<lparr>pq_pending_replies := ps\<rparr> # bs\<rparr>)"
    using at by (subst set_pending_at [of _ as q bs]) simp_all
  have find: "unsafe_get_pending_query_by_id (pq_id q) (zn\<lparr>zn_locked := True\<rparr>) = Ok (Some q) (zn\<lparr>zn_locked := True\<rparr>)"
    using at by (simp add: unsafe_get_pending_query_by_id_def zget_def find_at)
  have u: "zn\<lparr>zn_locked := False, zn_pending_queries := x, zn_world := w\<rparr> = zn\<lparr>zn_pending_queries := x, zn_world := w\<rparr>" for x w
    using assms(1) by simp
  show ?thesis using assms(1,2,6) find hit ps set u
    by (intro exI [of _ ps])
      (simp add: z_trigger_query_reply_partial_inner_def then_do_def bind_ok_def lock_if_open_ok Let_def z_session_mutex_unlock_def
        reply_ok [OF assms(4)])
qed

end
