(* ===== verification/Zp_SessionLaws.thy ===== *)
theory Zp_SessionLaws imports Zp_Dispatch Zp_IntrLaws Zp_QueryLaws Zp_UnicastLaws
begin

text \<open>
  From a packet to the application: the handler of a session, on which the receiver of a transport runs, gives each
  publication to the subscriptions whose expression matches its key, and changes nothing else.
\<close>

section \<open>One publication\<close>

text \<open>The sample of a push, and what the application makes of it.\<close>

definition push_sample :: "z_string_t \<Rightarrow> z_n_msg_push_t \<Rightarrow> z_reliability_t \<Rightarrow> z_sample_t" where
  "push_sample ke p r =
     (if pb_is_put (pu_body p)
      then let put = pb_put (pu_body p) in
        z_sample_steal_data ke (put_payload put) (pc_timestamp (put_commons put)) (put_encoding put) Z_SAMPLE_KIND_PUT
          (pu_qos p) (put_attachment put) r (pc_source_info (put_commons put))
      else let d = put_as_del (pb_put (pu_body p)) in
        z_sample_steal_data ke [] (pc_timestamp (del_commons d)) z_encoding_null Z_SAMPLE_KIND_DELETE
          (pu_qos p) (del_attachment d) r (pc_source_info (del_commons d)))"

definition heard ::
    "('c \<Rightarrow> z_sample_t \<Rightarrow> 'w \<Rightarrow> 'w) \<Rightarrow> ('c, 'w) z_session_t \<Rightarrow> nat list \<Rightarrow> z_string_t \<Rightarrow> z_sample_t \<Rightarrow> 'w \<Rightarrow> 'w" where
  "heard app zn as ke smp = fold (\<lambda>a. app (su_callback (sub_at zn a)) smp) (filter (\<lambda>a. hears True ke (sub_at zn a)) as)"

definition push_in :: "z_network_message_t \<Rightarrow> z_n_msg_push_t" where
  "push_in m = (case nm_body m of N_Push p \<Rightarrow> p)"

definition is_push :: "z_network_message_t \<Rightarrow> bool" where
  "is_push m \<longleftrightarrow> nm_body m = N_Push (push_in m)"

text \<open>A message a session can deliver: a push whose key means a string that the expressions can be matched with.\<close>

definition deliverable :: "('c, 'w) z_session_t \<Rightarrow> z_peer \<Rightarrow> nat list \<Rightarrow> z_network_message_t \<Rightarrow> z_string_t \<Rightarrow> bool" where
  "deliverable zn peer as m ke \<longleftrightarrow> is_push m \<and> denotes zn (Some peer) (pu_key (push_in m)) ke \<and>
     (\<forall>a \<in> set as. z_keyexpr_intersects (dke_inner (su_key (sub_at zn a))) ke \<noteq> None)"

lemma push_heard:
  assumes "quiet env app" "\<not> zn_locked zn" "\<not> zn_is_closed zn" "subs_ok zn Z_SUBSCRIBER_KIND_SUBSCRIBER S as"
    and "deliverable zn peer as m ke"
  shows "z_handle_network_message env m (zn, Some peer) =
    Ok () (zn\<lparr>zn_world := heard app zn as ke (push_sample ke (push_in m) (nm_reliability m)) (zn_world zn)\<rparr>, Some peer)"
proof -
  have d: "denotes zn (Some peer) (pu_key (push_in m)) ke" and m: "nm_body m = N_Push (push_in m)"
    and i: "\<And>a. a \<in> set as \<Longrightarrow> z_keyexpr_intersects (dke_inner (su_key (sub_at zn a))) ke \<noteq> None"
    using assms(5) by (auto simp: deliverable_def is_push_def)
  note d' = deliver_ok [OF assms(1-3) d assms(4) i]
  show ?thesis
    by (subst z_handle_network_message_def)
      (simp add: m with_peer_def lift_zn_def z_trigger_push_def z_trigger_subscriptions_put_def z_trigger_subscriptions_del_def
        within_def d' push_sample_def heard_def Let_def)
qed

section \<open>All publications of a frame\<close>

lemma handler_ok:
  assumes "z_handle_network_message env m (snd (tc_net (fst cp)), Some (addr, snd cp)) = Ok () (zn', Some (addr, snd cp))"
  shows "session_handler env addr m cp = Ok () ((fst cp)\<lparr>tc_net := (fst (tc_net (fst cp)), zn')\<rparr>, snd cp)"
  using assms by (simp add: session_handler_def Let_def)

lemma deliverable_world: "deliverable (zn\<lparr>zn_world := w\<rparr>) = deliverable zn"
  by (simp add: deliverable_def denotes_def wire_decls_def fun_eq_iff split: option.splits)

lemma heard_world: "heard app (zn\<lparr>zn_world := w\<rparr>) = heard app zn"
  by (simp add: heard_def fun_eq_iff)

lemma subs_ok_world: "subs_ok (zn\<lparr>zn_world := w\<rparr>) k S as = subs_ok zn k S as"
  by (simp add: subs_ok_def)

lemma pushes_heard:
  assumes "quiet env app" "\<not> zn_locked zn" "\<not> zn_is_closed zn" "subs_ok zn Z_SUBSCRIBER_KIND_SUBSCRIBER S as"
    and "\<And>m. m \<in> set ms \<Longrightarrow> deliverable zn (addr, snd cp) as (f m) (key m)" "tc_net (fst cp) = (net, zn)"
  shows "handle_all (session_handler env addr) (map f ms) cp = Ok () ((fst cp)\<lparr>tc_net := (net, zn\<lparr>zn_world :=
      fold (\<lambda>m. heard app zn as (key m) (push_sample (key m) (push_in (f m)) (nm_reliability (f m)))) ms (zn_world zn)\<rparr>)\<rparr>, snd cp)"
  using assms(2-6)
proof (induction ms arbitrary: zn cp)
  case Nil
  have "(fst cp)\<lparr>tc_net := (net, zn)\<rparr> = fst cp" using Nil.prems(5) by (cases cp) simp
  then show ?case by (simp add: ret_def)
next
  case (Cons m ms)
  let ?zn = "zn\<lparr>zn_world := heard app zn as (key m) (push_sample (key m) (push_in (f m)) (nm_reliability (f m))) (zn_world zn)\<rparr>"
  let ?cp = "((fst cp)\<lparr>tc_net := (net, ?zn)\<rparr>, snd cp)"
  have h: "session_handler env addr (f m) cp = Ok () ?cp"
    using push_heard [OF assms(1) Cons.prems(1-3) Cons.prems(4) [of m]] Cons.prems(5)
      handler_ok [of env "f m" cp addr ?zn] by simp
  have "handle_all (session_handler env addr) (map f ms) ?cp = Ok () ((fst ?cp)\<lparr>tc_net := (net, ?zn\<lparr>zn_world :=
      fold (\<lambda>m. heard app ?zn as (key m) (push_sample (key m) (push_in (f m)) (nm_reliability (f m)))) ms (zn_world ?zn)\<rparr>)\<rparr>, snd ?cp)"
    using Cons.prems by (intro Cons.IH) (simp_all add: deliverable_world subs_ok_world)
  then show ?case using h by (simp add: then_do_def bind_ok_def heard_world)
qed

text \<open>With expressions that mean something, who hears is who matches.\<close>

lemma heard_match:
  assumes "\<And>a. a \<in> set as \<Longrightarrow> kexpr_ok (pat a) \<and> dke_inner (su_key (sub_at zn a)) = ke_string (pat a)" "kkey_ok cs"
  shows "heard app zn as (join cs) smp = fold (\<lambda>a. app (su_callback (sub_at zn a)) smp)
      (filter (\<lambda>a. z_locality_allows_remote (su_allowed_origin (sub_at zn a)) \<and> key_match (pat a) cs) as)"
proof -
  have "filter (\<lambda>a. hears True (join cs) (sub_at zn a)) as =
      filter (\<lambda>a. z_locality_allows_remote (su_allowed_origin (sub_at zn a)) \<and> key_match (pat a) cs) as"
    using assms hears_match(2) by (intro filter_cong) blast+
  then show ?thesis by (simp add: heard_def)
qed

lemma frame_heard:
  assumes "quiet env app" "\<not> zn_locked zn" "\<not> zn_is_closed zn" "subs_ok zn Z_SUBSCRIBER_KIND_SUBSCRIBER S as"
    and "tc_net (ur_common s) = (net, zn)" "\<And>a. a \<in> set as \<Longrightarrow> kexpr_ok (pat a) \<and> dke_inner (su_key (sub_at zn a)) = ke_string (pat a)"
    and "\<And>m. m \<in> set ms \<Longrightarrow> is_push (recv_network_message mapping m) \<and> kkey_ok (key m) \<and>
      denotes zn (Some (addr, pu_common (ur_peer s))) (pu_key (push_in (recv_network_message mapping m))) (join (key m))"
    and "list_all network_message_ok ms" "zbuf_wf (ur_zbuf s)" "zbuf_bytes (ur_zbuf s) = frame_wire sn r @ messages_wire ms"
    "reliable = (r = Z_RELIABILITY_RELIABLE)" "z_sn_precedes (tc_sn_res (ur_common s)) (sn_rx reliable (ur_peer s)) sn"
    and "sample = (\<lambda>m. push_sample (join (key m)) (push_in (recv_network_message mapping m)) (channel_reliability reliable))"
  shows "\<exists>s'. messages_loop mapping (session_handler env addr) s = Some (Ok () s') \<and>
    ur_common s' = (ur_common s)\<lparr>tc_net := (net, zn\<lparr>zn_world := fold (\<lambda>m.
        fold (\<lambda>a. app (su_callback (sub_at zn a)) (sample m))
          (filter (\<lambda>a. z_locality_allows_remote (su_allowed_origin (sub_at zn a)) \<and> key_match (pat a) (key m)) as)) ms (zn_world zn)\<rparr>)\<rparr>"
proof -
  let ?rcv = "received mapping (channel_reliability reliable)" and ?cp = "session_state s"
  have f: "push_in (?rcv m) = push_in (recv_network_message mapping m)" "nm_reliability (?rcv m) = channel_reliability reliable"
    "is_push (?rcv m) = is_push (recv_network_message mapping m)" for m
    by (simp_all add: received_def push_in_def is_push_def)
  have d: "deliverable zn (addr, snd ?cp) as (?rcv m) (join (key m))" if "m \<in> set ms" for m
    using assms(6) assms(7) [OF that] hears_match(1) f by (fastforce simp: deliverable_def)
  have all: "handle_all (session_handler env addr) (map ?rcv ms) ?cp = Ok () ((fst ?cp)\<lparr>tc_net := (net, zn\<lparr>zn_world :=
      fold (\<lambda>m. heard app zn as (join (key m)) (sample m)) ms (zn_world zn)\<rparr>)\<rparr>, snd ?cp)"
    using pushes_heard [where f = ?rcv and cp = ?cp and ms = ms and key = "\<lambda>m. join (key m)", OF assms(1-4) d] assms(5) by (simp add: f assms(13))
  have w: "fold (\<lambda>m. heard app zn as (join (key m)) (sample m)) ms (zn_world zn) =
      fold (\<lambda>m. fold (\<lambda>a. app (su_callback (sub_at zn a)) (sample m))
          (filter (\<lambda>a. z_locality_allows_remote (su_allowed_origin (sub_at zn a)) \<and> key_match (pat a) (key m)) as)) ms (zn_world zn)"
    using assms(6,7) heard_match by (intro fold_cong) fastforce+
  show ?thesis using frame_received [OF assms(8-12) all] unfolding w by auto
qed

end
