(* ===== verification/Zp_PrimLaws.thy ===== *)
theory Zp_PrimLaws imports Zp_Filter Zp_SessionLaws Zp_ResLaws
begin

text \<open>
  What the operations of an application come to, on a session that is open, with a network that takes
  every message, and with one that takes none: subscribers and queryables that are declared are known to the
  session and to the others, and the cache of declarations has what is to be told again.
\<close>

lemma ucast32_eq: "(ucast (a :: u32) :: u64) = ucast b \<longleftrightarrow> a = b"
proof -
  have "unat (ucast a :: u64) = unat a" for a :: u32
    using unsigned_less [of a] by (simp add: unsigned_ucast_eq take_bit_nat_eq_self)
  then show ?thesis by (metis word_unat_eq_iff)
qed

section \<open>Sending\<close>

definition taken :: "('c, 'w) z_surr \<Rightarrow> (z_network_message_t \<Rightarrow> 'w \<Rightarrow> 'w) \<Rightarrow> bool" where
  "taken sr snd_msg \<longleftrightarrow> sending (sr_env sr) (\<lambda>m p. snd_msg m)"

definition refused :: "('c, 'w) z_surr \<Rightarrow> z_result_t \<Rightarrow> bool" where
  "refused sr e \<longleftrightarrow> e \<noteq> Z_RES_OK \<and> (\<forall>m r c p zn. env_send_n_msg (sr_env sr) m r c p zn = Err e zn)"

lemma taken_ok: "taken sr snd_msg \<Longrightarrow> env_send_n_msg (sr_env sr) m r c p zn = Ok () (zn\<lparr>zn_world := snd_msg m (zn_world zn)\<rparr>)"
  by (simp add: taken_def sending_def)

lemma reliable_taken: "taken sr snd_msg \<Longrightarrow> send_reliable sr m zn = Ok () (zn\<lparr>zn_world := snd_msg m (zn_world zn)\<rparr>)"
  by (simp add: send_reliable_def taken_ok)

lemma reliable_refused: "refused sr e \<Longrightarrow> send_reliable sr m zn = Err e zn"
  by (simp add: send_reliable_def refused_def)

section \<open>The cache\<close>

definition cached :: "('c, 'w) z_surr \<Rightarrow> z_network_message_t \<Rightarrow> z_network_message_t list \<Rightarrow> z_network_message_t list" where
  "cached sr m ms = (if cf_config_is_empty (sr_conf sr) then ms else ms @ [m])"

text \<open>Which cached message a message takes back.\<close>

definition takes_back :: "(z_declaration_t \<Rightarrow> u32) \<Rightarrow> z_network_message_t \<Rightarrow> z_network_message_t \<Rightarrow> bool" where
  "takes_back mem n_msg right = (case nm_body n_msg of
     N_Declare d \<Rightarrow> (case de_decl d of
         Undecl_Kexpr u \<Rightarrow> z_cache_declaration_undeclare_filter_kexpr mem (uk_id u) right
       | Undecl_Subscriber u \<Rightarrow> z_cache_declaration_undeclare_filter mem (us_id u) right
       | Undecl_Queryable u \<Rightarrow> z_cache_declaration_undeclare_filter mem (uq_id u) right
       | Undecl_Token u \<Rightarrow> z_cache_declaration_undeclare_filter mem (ut_id u) right
       | _ \<Rightarrow> False)
   | N_Interest n \<Rightarrow> z_cache_declaration_undeclare_filter_interest (in_id (ni_interest n)) right
   | _ \<Rightarrow> False)"

fun drop_first :: "('a \<Rightarrow> bool) \<Rightarrow> 'a list \<Rightarrow> 'a list" where
  "drop_first P [] = []"
| "drop_first P (x # xs) = (if P x then xs else x # drop_first P xs)"

lemma drop_first_eq: "fst (z_list_drop_filter P True xs) = drop_first P xs"
  by (induction xs) (auto split: prod.splits)

lemma drop_first_none: "(\<And>x. x \<in> set xs \<Longrightarrow> \<not> P x) \<Longrightarrow> drop_first P xs = xs"
  by (induction xs) auto

lemma drop_first_at: "(\<And>x. x \<in> set xs \<Longrightarrow> \<not> P x) \<Longrightarrow> P y \<Longrightarrow> drop_first P (xs @ y # ys) = xs @ ys"
  by (induction xs) auto

lemma cache_ok: "z_cache_declaration (sr_conf sr) m zn = Ok () (zn\<lparr>zn_declaration_cache := cached sr m (zn_declaration_cache zn)\<rparr>)"
  by (simp add: z_cache_declaration_def cached_def ret_def zmod_def z_n_msg_clone_def z_n_msg_copy_def)

lemma prune_ok:
  "z_prune_declaration mem m zn = Ok () (zn\<lparr>zn_declaration_cache := drop_first (takes_back mem m) (zn_declaration_cache zn)\<rparr>)"
proof -
  have "drop_first (\<lambda>_. False) xs = xs" for xs :: "z_network_message_t list" by (rule drop_first_none) simp
  then show ?thesis
    by (simp add: z_prune_declaration_def takes_back_def [abs_def] drop_cached_def zmod_def ret_def drop_first_eq
        split: z_network_body_t.splits z_declaration_t.splits)
qed

lemma declare_taken:
  "taken sr snd_msg \<Longrightarrow> z_send_declare sr m zn =
    Ok () (zn\<lparr>zn_world := snd_msg m (zn_world zn), zn_declaration_cache := cached sr m (zn_declaration_cache zn)\<rparr>)"
  by (simp add: z_send_declare_def then_do_def bind_ok_def reliable_taken cache_ok)

lemma declare_refused: "refused sr e \<Longrightarrow> z_send_declare sr m zn = Err e zn"
  by (simp add: z_send_declare_def then_do_def bind_ok_def reliable_refused)

lemma undeclare_taken:
  "taken sr snd_msg \<Longrightarrow> z_send_undeclare sr m zn = Ok () (zn\<lparr>zn_world := snd_msg m (zn_world zn),
    zn_declaration_cache := drop_first (takes_back (sr_mem sr) m) (zn_declaration_cache zn)\<rparr>)"
  by (simp add: z_send_undeclare_def then_do_def bind_ok_def reliable_taken prune_ok)

lemma undeclare_refused: "refused sr e \<Longrightarrow> z_send_undeclare sr m zn = Err e zn"
  by (simp add: z_send_undeclare_def then_do_def bind_ok_def reliable_refused)

text \<open>
  What is declared last and taken back leaves the cache as it was, when nothing before it is taken for it.
\<close>

lemma cached_taken_back:
  assumes "takes_back mem u m" "\<And>x. x \<in> set ms \<Longrightarrow> \<not> takes_back mem u x"
  shows "drop_first (takes_back mem u) (cached sr m ms) = ms"
  using drop_first_at [of ms "takes_back mem u" m "[]"] drop_first_none [of ms "takes_back mem u"] assms by (simp add: cached_def)

section \<open>Opening again\<close>

lemma resend_taken:
  "taken sr snd_msg \<Longrightarrow> resend_cache sr ms zn = Some (Ok () (zn\<lparr>zn_world := fold snd_msg ms (zn_world zn)\<rparr>))"
proof (induction ms arbitrary: zn)
  case Nil
  then show ?case by (subst resend_cache.simps) simp
next
  case (Cons m ms)
  then show ?case by (subst resend_cache.simps) (simp add: reliable_taken)
qed

text \<open>A network that takes nothing is asked again and again.\<close>

lemma resend_refused:
  assumes "refused sr e"
  shows "resend_cache sr (m # ms) zn = None"
proof -
  have "sr' = sr \<longrightarrow> iter = []" if "resend_cache sr' iter zn = Some r" for sr' iter r zn
    using that
  proof (rule resend_cache.raw_induct [rotated])
    fix f :: "('a, 'b) z_surr \<Rightarrow> z_network_message_t list \<Rightarrow> ('a, 'b) z_session_t \<Rightarrow> (unit, ('a, 'b) z_session_t) res option"
    fix sr' iter zn r
    assume h: "\<And>sr' iter zn r. f sr' iter zn = Some r \<Longrightarrow> sr' = sr \<longrightarrow> iter = []"
      and e: "(case iter of [] \<Rightarrow> Some (Ok () zn) | n_msg # next_iter \<Rightarrow> (case send_reliable sr' n_msg zn of
         Ok _ zn \<Rightarrow> f sr' next_iter zn | Err _ zn \<Rightarrow> f sr' iter zn | Fault \<Rightarrow> Some Fault)) = Some r"
    show "sr' = sr \<longrightarrow> iter = []" using e h [of sr iter zn r] assms by (cases iter) (auto simp: reliable_refused)
  qed
  then show ?thesis by (cases "resend_cache sr (m # ms) zn") auto
qed

text \<open>How often opening fails before it succeeds.\<close>

inductive opens :: "(unit, 'c, 'w) zprog \<Rightarrow> nat \<Rightarrow> ('c, 'w) z_session_t \<Rightarrow> ('c, 'w) z_session_t \<Rightarrow> bool" for z_open where
  opens_now: "z_open zn = Ok () zn' \<Longrightarrow> opens z_open 0 zn zn'"
| opens_later: "z_open zn = Err e zn1 \<Longrightarrow> open_again e \<Longrightarrow> opens z_open n zn1 zn' \<Longrightarrow> opens z_open (Suc n) zn zn'"

lemma reopen_ok:
  assumes "opens z_open n zn zn'" "\<not> cf_config_is_empty (sr_conf sr)" "start_tasks zn' = Ok () zn2" "taken sr snd_msg"
  shows "z_reopen sr z_open start_tasks zn =
    Some (Ok () (zn2\<lparr>zn_world := fold snd_msg (zn_declaration_cache zn2) (zn_world zn2)\<rparr>))"
  using assms
proof (induction rule: opens.induct)
  case (opens_now zn zn')
  then show ?case by (subst z_reopen.simps) (simp add: resend_taken)
next
  case (opens_later zn e zn1 n zn')
  then show ?case by (subst z_reopen.simps) simp
qed

lemma reopen_stuck:
  assumes "z_open zn = Ok () zn'" "\<not> cf_config_is_empty (sr_conf sr)" "start_tasks zn' = Ok () zn2" "refused sr e"
    and "zn_declaration_cache zn2 \<noteq> []"
  shows "z_reopen sr z_open start_tasks zn = None"
  using assms resend_refused [OF assms(4)] by (subst z_reopen.simps) (auto simp: neq_Nil_conv)


section \<open>Declared expressions\<close>

text \<open>What declaring the prefix of an expression may change of a session.\<close>

definition with_resources ::
    "u16 \<Rightarrow> z_resource_t list \<Rightarrow> z_network_message_t list \<Rightarrow> 'w \<Rightarrow> ('c, 'w) z_session_t \<Rightarrow> ('c, 'w) z_session_t" where
  "with_resources n rs c w zn = zn\<lparr>zn_resource_id := n, zn_local_resources := rs, zn_declaration_cache := c, zn_world := w\<rparr>"

lemma with_resources_simps [simp]:
  "zn_locked (with_resources n rs c w zn) = zn_locked zn" "zn_is_closed (with_resources n rs c w zn) = zn_is_closed zn"
  "zn_self (with_resources n rs c w zn) = zn_self zn" "zn_mode (with_resources n rs c w zn) = zn_mode zn"
  "zn_tp_type (with_resources n rs c w zn) = zn_tp_type zn" "zn_entity_id (with_resources n rs c w zn) = zn_entity_id zn"
  "zn_subs (with_resources n rs c w zn) = zn_subs zn" "sub_list k (with_resources n rs c w zn) = sub_list k zn"
  "sub_at (with_resources n rs c w zn) a = sub_at zn a" "zn_qles (with_resources n rs c w zn) = zn_qles zn"
  "zn_local_queryable (with_resources n rs c w zn) = zn_local_queryable zn"
  "zn_world (with_resources n rs c w zn) = w" "zn_declaration_cache (with_resources n rs c w zn) = c"
  "zn_resource_id (with_resources n rs c w zn) = n" "zn_local_resources (with_resources n rs c w zn) = rs"
  "zn_local_tokens (with_resources n rs c w zn) = zn_local_tokens zn"
  "subs_ok (with_resources n rs c w zn) k S as = subs_ok zn k S as"
  by (simp_all add: with_resources_def sub_list_def sub_at_def subs_ok_def)

lemma with_resources_same: "with_resources (zn_resource_id zn) (zn_local_resources zn) (zn_declaration_cache zn) (zn_world zn) zn = zn"
  by (simp add: with_resources_def)

lemma declare_resource_ok:
  assumes "\<not> zn_locked zn" "\<not> zn_is_closed zn" "taken sr snd_msg"
  shows "\<exists>i n rs m. z_declare_resource sr key zn =
    Ok i (with_resources n rs (cached sr m (zn_declaration_cache zn)) (snd_msg m (zn_world zn)) zn) \<and>
    m = declare_msg (z_make_decl_keyexpr i (wire_of key))"
proof -
  have w: "z_wireexpr_null\<lparr>we_id := Z_RESOURCE_ID_NONE, we_suffix := key\<rparr> = wire_of key"
    by (simp add: z_wireexpr_null_def wire_of_def Z_RESOURCE_ID_NONE_def)
  have "\<exists>i n rs. z_register_resource (wire_of key) 0 (zn, None) = Ok i (zn\<lparr>zn_resource_id := n, zn_local_resources := rs\<rparr>, None)"
  proof (cases "List.find (\<lambda>r. z_keyexpr_equals (res_key r) key) (zn_local_resources zn)")
    case None
    then show ?thesis using register_wire_of [OF assms(1,2), of key] by auto
  next
    case (Some r)
    then show ?thesis using register_wire_of [OF assms(1,2), of key]
      by (intro exI [of _ "res_id r"] exI [of _ "zn_resource_id zn"]) auto
  qed
  then obtain i n rs where r: "z_register_resource (wire_of key) 0 (zn, None) = Ok i (zn\<lparr>zn_resource_id := n, zn_local_resources := rs\<rparr>, None)"
    by blast
  let ?m = "declare_msg (z_make_decl_keyexpr i (wire_of key))"
  have "z_declare_resource sr key zn = Ok i (with_resources n rs (cached sr ?m (zn_declaration_cache zn)) (snd_msg ?m (zn_world zn)) zn)"
    unfolding z_declare_resource_def Let_def w using r
    by (simp add: bind_ok_def then_do_def no_peer_def Z_RESOURCE_ID_NONE_def clean_return_def
        declare_taken [OF assms(3)] ret_def with_resources_def)
  then show ?thesis by blast
qed

lemma declare_prefix_ok:
  assumes "\<not> zn_locked zn" "\<not> zn_is_closed zn" "taken sr snd_msg" "l \<le> length key" "length key < 0x10000"
  shows "\<exists>k n rs c w. key_result (z_keyexpr_declare_prefix (declare_prefix_with sr) multicast (zn_self zn) key l (Some zn)) =
    Ok k (with_resources n rs c w zn) \<and> dke_inner k = key \<and> z_declared_keyexpr_alias_to_wire k (zn_self zn) \<noteq> None"
proof (cases "l = 0 \<or> multicast")
  case True
  then show ?thesis using assms(4) with_resources_same [of zn]
    by (intro exI [of _ "z_declared_keyexpr_null\<lparr>dke_inner := key\<rparr>"])
      (auto simp: key_result_def z_keyexpr_declare_prefix_def z_declared_keyexpr_null_def z_declared_keyexpr_alias_to_wire_def, metis+)
next
  case False
  obtain i n rs m where d: "z_declare_resource sr (take l key) zn =
      Ok i (with_resources n rs (cached sr m (zn_declaration_cache zn)) (snd_msg m (zn_world zn)) zn)"
    using declare_resource_ok [OF assms(1-3)] by blast
  have "unat (of_nat l :: u16) = l" using assms(4,5) by (simp add: unat_of_nat take_bit_nat_eq_self)
  then show ?thesis using False assms(4) d
    by (auto simp: key_result_def z_keyexpr_declare_prefix_def z_keyexpr_wire_declaration_new_def declare_prefix_with_def
        z_declared_keyexpr_alias_to_wire_def z_keyexpr_wire_declaration_is_declared_on_session_def)
qed

lemma prefix_back_le: "prefix_back key n \<le> n"
  by (induction n) (auto simp: le_Suc_eq)

lemma non_wild_prefix_le: "z_keyexpr_non_wild_prefix_len key \<le> length key"
proof -
  have "length (takeWhile P xs) \<le> length xs" for P and xs :: "byte list" by (rule length_takeWhile_le)
  then show ?thesis using prefix_back_le by (simp add: z_keyexpr_non_wild_prefix_len_def) (meson order_trans)
qed

text \<open>An expression of a caller whose declaration, if it has one, is not longer than it.\<close>

definition key_fits :: "z_key_t \<Rightarrow> nat \<Rightarrow> bool" where
  "key_fits key self \<longleftrightarrow> length (dke_inner key) < 0x10000 \<and> z_declared_keyexpr_alias_to_wire key self \<noteq> None"

lemma declare_key_ok:
  assumes "\<not> zn_locked zn" "\<not> zn_is_closed zn" "taken sr snd_msg" "key_fits key (zn_self zn)"
  shows "\<exists>k n rs c w. declare_key sr key zn = Ok k (with_resources n rs c w zn) \<and> dke_inner k = dke_inner key \<and> key_fits k (zn_self zn)"
    and "\<exists>k n rs c w. declare_key_prefix sr key zn = Ok k (with_resources n rs c w zn) \<and> dke_inner k = dke_inner key \<and> key_fits k (zn_self zn)"
proof -
  note p = declare_prefix_ok [OF assms(1-3), where multicast = "zn_tp_type zn = Z_TRANSPORT_MULTICAST_TYPE" and key = "dke_inner key"]
  have l: "length (dke_inner key) < 0x10000" using assms(4) by (simp add: key_fits_def)
  have same: "key_result (Some (Z_RES_OK, key, Some zn)) =
      Ok key (with_resources (zn_resource_id zn) (zn_local_resources zn) (zn_declaration_cache zn) (zn_world zn) zn)"
    by (simp add: key_result_def with_resources_same)
  show "\<exists>k n rs c w. declare_key sr key zn = Ok k (with_resources n rs c w zn) \<and> dke_inner k = dke_inner key \<and> key_fits k (zn_self zn)"
  proof (cases "z_declared_keyexpr_is_fully_optimized key (zn_self zn)")
    case True
    then have e: "declare_key sr key zn = key_result (Some (Z_RES_OK, key, Some zn))" by (simp add: declare_key_def z_declared_keyexpr_declare_def)
    show ?thesis unfolding e same using assms(4) by blast
  next
    case False
    then have e: "declare_key sr key zn = key_result (z_keyexpr_declare_prefix (declare_prefix_with sr)
        (zn_tp_type zn = Z_TRANSPORT_MULTICAST_TYPE) (zn_self zn) (dke_inner key) (length (dke_inner key)) (Some zn))"
      by (simp add: declare_key_def z_declared_keyexpr_declare_def)
    show ?thesis unfolding e key_fits_def using p [OF le_refl l] l by metis
  qed
  show "\<exists>k n rs c w. declare_key_prefix sr key zn = Ok k (with_resources n rs c w zn) \<and> dke_inner k = dke_inner key \<and> key_fits k (zn_self zn)"
  proof (cases "z_declared_keyexpr_is_non_wild_prefix_optimized key (zn_self zn)")
    case True
    then have e: "declare_key_prefix sr key zn = key_result (Some (Z_RES_OK, key, Some zn))"
      by (simp add: declare_key_prefix_def z_declared_keyexpr_declare_non_wild_prefix_def)
    show ?thesis unfolding e same using assms(4) by blast
  next
    case False
    then have e: "declare_key_prefix sr key zn = key_result (z_keyexpr_declare_prefix (declare_prefix_with sr)
        (zn_tp_type zn = Z_TRANSPORT_MULTICAST_TYPE) (zn_self zn) (dke_inner key) (z_keyexpr_non_wild_prefix_len (dke_inner key)) (Some zn))"
      by (simp add: declare_key_prefix_def z_declared_keyexpr_declare_non_wild_prefix_def)
    show ?thesis unfolding e key_fits_def using p [OF non_wild_prefix_le l] l by metis
  qed
qed

lemma declared_wire_ok: "key_fits key (zn_self zn) \<Longrightarrow>
    declared_wire key zn = Ok (the (z_declared_keyexpr_alias_to_wire key (zn_self zn))) zn"
  by (auto simp: key_fits_def declared_wire_def bind_ok_def zget_def of_option_def ret_def)

end
