(* ===== verification/Zp_PrimSubs.thy ===== *)
theory Zp_PrimSubs imports Zp_PrimLaws
begin

text \<open>
  Subscribers and queryables, from the operation of the application to the callback: what is declared is
  heard, what is undeclared is gone, and the others are told both.
\<close>

section \<open>Declaring a subscriber\<close>

lemma with_resources_subs [simp]:
  "(with_resources n rs c w zn)\<lparr>zn_subs := st\<rparr> = with_resources n rs c w (zn\<lparr>zn_subs := st\<rparr>)"
  "(with_resources n rs c w zn)\<lparr>zn_locked := l\<rparr> = with_resources n rs c w (zn\<lparr>zn_locked := l\<rparr>)"
  "set_sub_list k xs (with_resources n rs c w zn) = with_resources n rs c w (set_sub_list k xs zn)"
  "(with_resources n rs c w zn)\<lparr>zn_world := w'\<rparr> = with_resources n rs c w' zn"
  "(with_resources n rs c w zn)\<lparr>zn_declaration_cache := c'\<rparr> = with_resources n rs c' w zn"
  by (simp_all add: with_resources_def set_sub_list_def)

lemma set_sub_list_fields [simp]:
  "zn_self (set_sub_list k xs zn) = zn_self zn" "zn_mode (set_sub_list k xs zn) = zn_mode zn"
  "zn_tp_type (set_sub_list k xs zn) = zn_tp_type zn" "zn_entity_id (set_sub_list k xs zn) = zn_entity_id zn"
  "zn_declaration_cache (set_sub_list k xs zn) = zn_declaration_cache zn"
  "zn_local_resources (set_sub_list k xs zn) = zn_local_resources zn"
  by (simp_all add: set_sub_list_def)

definition sub_told :: "('c, 'w) z_surr \<Rightarrow> z_key_t \<Rightarrow> nat \<Rightarrow> u32 \<Rightarrow> z_network_message_t" where
  "sub_told sr key self i = declare_msg (z_make_decl_subscriber (the (z_declared_keyexpr_alias_to_wire key self)) i)"

lemma announce_taken:
  assumes "taken sr snd_msg" "key_fits key (zn_self zn)"
  shows "announce_subscriber sr key i zn = Ok () (zn\<lparr>zn_world := snd_msg (sub_told sr key (zn_self zn) i) (zn_world zn),
    zn_declaration_cache := cached sr (sub_told sr key (zn_self zn) i) (zn_declaration_cache zn)\<rparr>)"
  using assms by (simp add: announce_subscriber_def bind_ok_def declared_wire_ok declare_taken sub_told_def)

lemma drop_own_ref:
  assumes "subs_ok zn kind (add_mset a (add_mset a S)) as" "a \<notin># S"
  shows "\<exists>st. sub_rc_drop env (Some a) zn = Ok () (zn\<lparr>zn_subs := st\<rparr>) \<and> owned st (add_mset a S) {#} \<and> st_val st = st_val (zn_subs zn)"
proof -
  have "count (add_mset a (add_mset a S)) a \<noteq> 1" by simp
  then show ?thesis using subs.drop_shared [of zn "add_mset a (add_mset a S)" "{#}" a "z_subscription_clear env"] assms(1)
    by (auto simp: subs_ok_def sub_rc_drop_eq)
qed

lemma declare_subscriber_ok:
  assumes "\<not> zn_locked zn" "\<not> zn_is_closed zn" "taken sr snd_msg" "key_fits key (zn_self zn)"
    and "subs_ok zn Z_SUBSCRIBER_KIND_SUBSCRIBER S as"
  shows "\<exists>a k n rs c w st. a \<notin># S \<and> dke_inner k = dke_inner key \<and> key_fits k (zn_self zn) \<and>
    z_declare_subscriber sr key callback dropper origin zn = Ok \<lparr>sb_entity_id = zn_entity_id zn, sb_zn = Some (zn_self zn)\<rparr>
      (let m = sub_told sr key (zn_self zn) (zn_entity_id zn); remote = z_locality_allows_remote origin in
       set_sub_list Z_SUBSCRIBER_KIND_SUBSCRIBER (map Some (a # as))
         (with_resources n rs (if remote then cached sr m c else c) (if remote then snd_msg m w else w)
           (zn\<lparr>zn_entity_id := zn_entity_id zn + 1, zn_subs := st\<rparr>))) \<and>
    owned st (add_mset a S) {#} \<and> st_val st = (st_val (zn_subs zn))(a \<mapsto> \<lparr>su_key = k, su_id = zn_entity_id zn,
      su_allowed_origin = origin, su_callback = callback, su_dropper = dropper\<rparr>)"
proof -
  let ?K = Z_SUBSCRIBER_KIND_SUBSCRIBER and ?i = "zn_entity_id zn"
  let ?zn1 = "zn\<lparr>zn_entity_id := ?i + 1\<rparr>"
  have 1: "\<not> zn_locked ?zn1" "\<not> zn_is_closed ?zn1" "key_fits key (zn_self ?zn1)" using assms by simp_all
  obtain k n rs c w where k: "declare_key_prefix sr key ?zn1 = Ok k (with_resources n rs c w ?zn1)"
    "dke_inner k = dke_inner key" "key_fits k (zn_self zn)"
    using declare_key_ok(2) [OF 1(1,2) assms(3) 1(3)] by auto
  let ?zn2 = "with_resources n rs c w ?zn1"
  let ?s = "\<lparr>su_key = k, su_id = ?i, su_allowed_origin = origin, su_callback = callback, su_dropper = dropper\<rparr>"
  have so: "subs_ok ?zn1 ?K S as" using assms(5) by (simp add: subs_ok_def sub_list_def)
  have 2: "\<not> zn_locked ?zn2" "\<not> zn_is_closed ?zn2" "owned (zn_subs ?zn2) S {#}" "subs_ok ?zn2 ?K S as"
    "sub_list ?K ?zn1 = map Some as" "zn_subs ?zn2 = zn_subs zn"
    using assms so by (simp_all add: subs_ok_def)
  obtain a st where r: "z_register_subscription (sr_env sr) ?K ?s ?zn2 =
      Ok (Some a) (set_sub_list ?K (Some a # sub_list ?K ?zn2) (?zn2\<lparr>zn_subs := st\<rparr>))"
    "a \<notin># S" "owned st (add_mset a (add_mset a S)) {#}" "st_val st = (st_val (zn_subs ?zn2))(a \<mapsto> ?s)"
    using subscription_register_ok [OF 2(1-3), of "sr_env sr" ?K ?s] by blast
  let ?m = "sub_told sr key (zn_self zn) ?i" and ?remote = "z_locality_allows_remote origin"
  let ?zn3 = "set_sub_list ?K (map Some (a # as)) (with_resources n rs (if ?remote then cached sr ?m c else c)
    (if ?remote then snd_msg ?m w else w) (?zn1\<lparr>zn_subs := st\<rparr>))"
  have ok3: "subs_ok ?zn3 ?K (add_mset a (add_mset a S)) (a # as)"
    using subs.ok_register [of ?K ?zn2 S as a st] 2(4) r(2,3) by (simp add: subs_ok_eq subs_ok_def)
  obtain st' where d: "sub_rc_drop (sr_env sr) (Some a) ?zn3 = Ok () (?zn3\<lparr>zn_subs := st'\<rparr>)" "owned st' (add_mset a S) {#}"
    "st_val st' = st_val (zn_subs ?zn3)"
    using drop_own_ref [OF ok3 r(2)] by blast
  have reg: "z_register_subscription (sr_env sr) ?K (?s\<lparr>su_key := k\<rparr>) ?zn2 =
      Ok (Some a) (set_sub_list ?K (map Some (a # as)) (with_resources n rs c w (?zn1\<lparr>zn_subs := st\<rparr>)))"
    using r(1) 2(5) by simp
  have "z_register_subscriber sr key callback dropper origin zn = Ok ?i (?zn3\<lparr>zn_subs := st'\<rparr>)"
    using d(1) reg assms(3,4) k(1)
    by (cases ?remote) (simp_all add: z_register_subscriber_def z_get_entity_id_def bind_ok_def then_do_def when_do_def clean_return_def Let_def announce_taken ret_def)
  then show ?thesis using r(2) k(2,3) d(2,3) r(4)
    by (intro exI [of _ a] exI [of _ k] exI [of _ n] exI [of _ rs] exI [of _ c] exI [of _ w] exI [of _ st'])
      (simp add: z_declare_subscriber_def bind_ok_def zget_def ret_def Let_def)
qed


section \<open>Undeclaring a subscriber\<close>

lemma get_by_id_in:
  assumes "owned (zn_subs zn) S {#}" "set as \<subseteq> set_mset S" "as = bs @ a # cs" "\<And>b. b \<in> set bs \<Longrightarrow> su_id (sub_at zn b) \<noteq> i"
    and "su_id (sub_at zn a) = i"
  shows "z_get_subscription_by_id_in (map Some as) (ucast i) zn = Ok (Some a) zn"
proof -
  have "z_get_subscription_by_id_in (map Some (bs @ a # cs)) (ucast i) zn = Ok (Some a) zn"
    if "set (bs @ a # cs) \<subseteq> set_mset S" "\<And>b. b \<in> set bs \<Longrightarrow> su_id (sub_at zn b) \<noteq> i" for bs
    using that
  proof (induction bs)
    case Nil
    then have "on_subs (rc_read (Some a)) zn = Ok (sub_at zn a) zn" using on_subs_read [OF assms(1)] by simp
    then show ?case using assms(5) by (simp add: bind_ok_def ret_def)
  next
    case (Cons b bs)
    then have "on_subs (rc_read (Some b)) zn = Ok (sub_at zn b) zn" using on_subs_read [OF assms(1)] by simp
    moreover have "(ucast i :: u64) \<noteq> ucast (su_id (sub_at zn b))" using Cons.prems(2) [of b] by (simp add: ucast32_eq)
    moreover have "z_get_subscription_by_id_in (map Some (bs @ a # cs)) (ucast i) zn = Ok (Some a) zn" using Cons by simp
    ultimately show ?case by (simp add: bind_ok_def)
  qed
  then show ?thesis using assms(2-4) by blast
qed

text \<open>The reference that is returned is one more.\<close>

lemma get_by_id_ok:
  assumes "\<not> zn_locked zn" "subs_ok zn kind S as" "as = bs @ a # cs" "\<And>b. b \<in> set bs \<Longrightarrow> su_id (sub_at zn b) \<noteq> i"
    and "su_id (sub_at zn a) = i"
  shows "\<exists>st. z_get_subscription_by_id kind (ucast i) zn = Ok (Some a) (zn\<lparr>zn_subs := st\<rparr>) \<and> owned st (add_mset a S) {#} \<and>
    st_val st = st_val (zn_subs zn)"
proof -
  let ?zn = "zn\<lparr>zn_locked := True\<rparr>"
  have o: "owned (zn_subs ?zn) S {#}" "set as \<subseteq> set_mset S" "sub_list kind zn = map Some as" "a \<in># S" "count S a < rc_max"
    using assms(2,3) by (auto simp: subs_ok_def)
  have "unsafe_z_get_subscription_by_id kind (ucast i) ?zn = Ok (Some a) ?zn"
    using get_by_id_in [OF o(1,2) assms(3), of i] assms(4,5) o(3) by (simp add: unsafe_z_get_subscription_by_id_def bind_ok_def zget_def)
  moreover obtain st where st: "rc_clone (Some a) (zn_subs zn) = Ok (Some a) st" "owned st (add_mset a S) {#}" "st_val st = st_val (zn_subs zn)"
    using clone_owned [of "zn_subs zn" S "{#}" a] o by auto
  moreover have "zn\<lparr>zn_locked := False, zn_subs := st\<rparr> = zn\<lparr>zn_subs := st\<rparr>" using assms(1) by simp
  ultimately show ?thesis using assms(1)
    by (intro exI [of _ st])
      (simp add: z_get_subscription_by_id_def then_do_def bind_ok_def lock_ok on_subs_def within_def z_session_mutex_unlock_def ret_def)
qed

definition sub_untold :: "('c, 'w) z_session_t \<Rightarrow> z_key_t \<Rightarrow> u32 \<Rightarrow> z_network_message_t" where
  "sub_untold zn key i = declare_msg (z_make_undecl_subscriber i
     (if zn_mode zn = Z_WHATAMI_CLIENT then None else Some (the (z_declared_keyexpr_alias_to_wire key (zn_self zn)))))"

lemma undeclare_wire_ok:
  "key_fits key (zn_self zn) \<Longrightarrow> undeclare_wire key zn =
    Ok (if zn_mode zn = Z_WHATAMI_CLIENT then None else Some (the (z_declared_keyexpr_alias_to_wire key (zn_self zn)))) zn"
  by (simp add: undeclare_wire_def bind_ok_def zget_def declared_wire_ok ret_def)

lemma undeclare_subscriber_ok:
  assumes "\<not> zn_locked zn" "\<not> zn_is_closed zn" "taken sr snd_msg" "tidy (sr_env sr) dr kc"
    and "subs_ok zn Z_SUBSCRIBER_KIND_SUBSCRIBER S as" "as = bs @ a # cs" "count S a = 1"
    and "\<And>b. b \<in> set bs \<Longrightarrow> su_id (sub_at zn b) \<noteq> sb_entity_id sub" "sub_at zn a = s" "su_id s = sb_entity_id sub"
    and "key_fits (su_key s) (zn_self zn)" "sb_zn sub \<noteq> None"
    and "m = sub_untold zn (su_key s) (sb_entity_id sub)" "remote = z_locality_allows_remote (su_allowed_origin s)"
  shows "\<exists>st. z_undeclare_subscriber sr sub zn = Ok () (zn\<lparr>zn_subscriptions := map Some (bs @ cs), zn_subs := st,
      zn_declaration_cache := (if remote then drop_first (takes_back (sr_mem sr) m) (zn_declaration_cache zn) else zn_declaration_cache zn),
      zn_world := cleared dr kc (su_dropper s) (su_key s) (if remote then snd_msg m (zn_world zn) else zn_world zn)\<rparr>) \<and>
    owned st (S - {#a#}) {#} \<and> st_val st = (st_val (zn_subs zn))(a := None)"
proof -
  let ?K = Z_SUBSCRIBER_KIND_SUBSCRIBER
  obtain st1 where g: "z_get_subscription_by_id ?K (ucast (sb_entity_id sub)) zn = Ok (Some a) (zn\<lparr>zn_subs := st1\<rparr>)"
    "owned st1 (add_mset a S) {#}" "st_val st1 = st_val (zn_subs zn)"
    using get_by_id_ok [OF assms(1,5,6,8)] assms(9,10) by blast
  let ?c = "if remote then drop_first (takes_back (sr_mem sr) m) (zn_declaration_cache zn) else zn_declaration_cache zn"
  let ?w = "if remote then snd_msg m (zn_world zn) else zn_world zn"
  let ?zn1 = "zn\<lparr>zn_subs := st1\<rparr>" and ?zn2 = "zn\<lparr>zn_subs := st1, zn_declaration_cache := ?c, zn_world := ?w\<rparr>"
  have at: "sub_at ?zn1 a = s" "sub_at ?zn2 a = s" using g(3) assms(9) by (simp_all add: sub_at_def)
  have rd: "on_subs (rc_read (Some a)) ?zn1 = Ok s ?zn1" using on_subs_read [of ?zn1 "add_mset a S" "{#}" a] g(2) at by simp
  have ok: "subs_ok ?zn2 ?K (add_mset a S) as"
    using assms(5-7) g(2) by (auto simp: subs_ok_def sub_list_def rc_max_def)
  have c2: "count (add_mset a S) a = 2" "a \<in> set as" "\<not> zn_locked ?zn2" using assms(1,6,7) by simp_all
  obtain st2 where u: "z_unregister_subscription (sr_env sr) ?K (Some a) ?zn2 =
      Ok () (set_sub_list ?K (map Some (remove1 a as)) (?zn2\<lparr>zn_subs := st2, zn_world := cleared dr kc (su_dropper s) (su_key s) ?w\<rparr>))"
    "owned st2 (add_mset a S - {#a#} - {#a#}) {#}" "st_val st2 = (st_val (zn_subs ?zn2))(a := None)"
    using subscription_unregister_ok [OF c2(3) ok c2(2,1) assms(4)] at(2) by auto
  have "distinct as" using assms(5) by (simp add: subs_ok_def)
  then have rm: "remove1 a as = bs @ cs" using assms(6) by (auto simp: remove1_append)
  obtain e where e: "undeclare_wire (su_key s) ?zn1 = Ok e ?zn1" "m = declare_msg (z_make_undecl_subscriber (sb_entity_id sub) e)"
    using undeclare_wire_ok [of "su_key s" ?zn1] assms(11,13) by (simp add: sub_untold_def)
  let ?tell = "if z_locality_allows_remote (su_allowed_origin s)
    then bind_ok (undeclare_wire (su_key s)) (\<lambda>expr.
      attempt () (tx_failed (z_send_undeclare sr (declare_msg (z_make_undecl_subscriber (sb_entity_id sub) expr)))))
    else ret (Z_RES_OK, ())"
  have tell: "?tell ?zn1 = Ok (Z_RES_OK, ()) ?zn2"
    using e assms(3,14) by (simp add: bind_ok_def attempt_def tx_failed_def undeclare_taken ret_def)
  have "z_undeclare_subscriber sr sub zn = bind_ok ?tell (\<lambda>(r, _).
      then_do (z_unregister_subscription (sr_env sr) ?K (Some a)) (return_code r ())) ?zn1"
    using g(1) rd assms(2,12)
    by (simp only: z_undeclare_subscriber_def if_False bind_ok_def zget_def z_session_is_closed_def res.case option.simps if_True)
  also have "\<dots> = z_unregister_subscription (sr_env sr) ?K (Some a) ?zn2"
    unfolding bind_ok_def [of ?tell] tell using u(1) by (simp add: then_do_def bind_ok_def return_code_def ret_def)
  finally have "z_undeclare_subscriber sr sub zn = z_unregister_subscription (sr_env sr) ?K (Some a) ?zn2" .
  then show ?thesis using u g(3) unfolding rm by (intro exI [of _ st2]) (simp add: set_sub_list_def)
qed


section \<open>When the others cannot be told\<close>

lemma declare_resource_refused:
  assumes "\<not> zn_locked zn" "\<not> zn_is_closed zn" "refused sr e" "res_wf zn"
    and "\<And>r. r \<in> set (zn_local_resources zn) \<Longrightarrow> res_refcount r < 0xFFFF"
  shows "\<exists>n. z_declare_resource sr key zn = Err e (zn\<lparr>zn_resource_id := n\<rparr>)"
proof -
  have w: "z_wireexpr_null\<lparr>we_id := Z_RESOURCE_ID_NONE, we_suffix := key\<rparr> = wire_of key"
    by (simp add: z_wireexpr_null_def wire_of_def Z_RESOURCE_ID_NONE_def)
  obtain i zn' where r: "z_register_resource (wire_of key) 0 (zn, None) = Ok i (zn', None)"
    "if \<exists>r \<in> set (zn_local_resources zn). z_keyexpr_equals (res_key r) key
     then z_unregister_resource i (zn', None) = Err Z_RESOURCE_POSITIVE_REF_COUNT (zn, None)
     else z_unregister_resource i (zn', None) = Ok () (zn\<lparr>zn_resource_id := zn_resource_id zn + 1\<rparr>, None)"
    using register_unregister_resource [OF assms(1,2,4,5), of key] by blast
  obtain n where n: "ignore (no_peer (z_unregister_resource i)) zn' = Ok () (zn\<lparr>zn_resource_id := n\<rparr>)"
  proof (cases "\<exists>r \<in> set (zn_local_resources zn). z_keyexpr_equals (res_key r) key")
    case True
    have "zn\<lparr>zn_resource_id := zn_resource_id zn\<rparr> = zn" by simp
    then show ?thesis using r(2) True that [of "zn_resource_id zn"] by (simp add: ignore_def no_peer_def)
  next
    case False
    then show ?thesis using r(2) that [of "zn_resource_id zn + 1"] by (simp add: ignore_def no_peer_def)
  qed
  have "z_declare_resource sr key zn = Err e (zn\<lparr>zn_resource_id := n\<rparr>)"
    unfolding z_declare_resource_def Let_def w using r(1) n
    by (simp add: bind_ok_def then_do_def no_peer_def [of "z_register_resource _ _"] Z_RESOURCE_ID_NONE_def clean_return_def
        declare_refused [OF assms(3)] fail_def)
  then show ?thesis by blast
qed

text \<open>Either the prefix cannot be declared, or there is none to declare.\<close>

lemma declare_key_prefix_refused:
  assumes "\<not> zn_locked zn" "\<not> zn_is_closed zn" "refused sr e" "res_wf zn" "key_fits key (zn_self zn)"
    and "\<And>r. r \<in> set (zn_local_resources zn) \<Longrightarrow> res_refcount r < 0xFFFF"
  shows "(\<exists>n. declare_key_prefix sr key zn = Err e (zn\<lparr>zn_resource_id := n\<rparr>)) \<or>
    (\<exists>k. declare_key_prefix sr key zn = Ok k zn)"
proof (cases "z_declared_keyexpr_is_non_wild_prefix_optimized key (zn_self zn)")
  case True
  then show ?thesis by (simp add: declare_key_prefix_def z_declared_keyexpr_declare_non_wild_prefix_def key_result_def)
next
  case False
  let ?l = "z_keyexpr_non_wild_prefix_len (dke_inner key)"
  obtain n where n: "z_declare_resource sr (take ?l (dke_inner key)) zn = Err e (zn\<lparr>zn_resource_id := n\<rparr>)"
    using declare_resource_refused [OF assms(1-4,6)] by blast
  have "e \<noteq> 0" using assms(3) by (simp add: refused_def)
  then show ?thesis using False non_wild_prefix_le [of "dke_inner key"] n
    by (auto simp: declare_key_prefix_def z_declared_keyexpr_declare_non_wild_prefix_def key_result_def z_keyexpr_declare_prefix_def
        z_keyexpr_wire_declaration_new_def declare_prefix_with_def)
qed

lemma announce_refused:
  assumes "refused sr e" "key_fits key (zn_self zn)"
  shows "announce_subscriber sr key i zn = Err e zn"
  using assms by (simp add: announce_subscriber_def bind_ok_def declared_wire_ok declare_refused)

lemma declare_subscriber_refused:
  assumes "\<not> zn_locked zn" "\<not> zn_is_closed zn" "refused sr e" "res_wf zn" "key_fits key (zn_self zn)"
    and "\<And>r. r \<in> set (zn_local_resources zn) \<Longrightarrow> res_refcount r < 0xFFFF" "tidy (sr_env sr) dr kc"
    and "subs_ok zn Z_SUBSCRIBER_KIND_SUBSCRIBER S as" "z_locality_allows_remote origin"
  shows "\<exists>zn' k. z_declare_subscriber sr key callback dropper origin zn = Err e zn' \<and>
    zn' = zn\<lparr>zn_entity_id := zn_entity_id zn + 1, zn_resource_id := zn_resource_id zn', zn_subs := zn_subs zn',
      zn_world := cleared dr kc dropper k (zn_world zn)\<rparr> \<and>
    subs_ok zn' Z_SUBSCRIBER_KIND_SUBSCRIBER S as \<and> (\<forall>b \<in># S. sub_at zn' b = sub_at zn b)"
proof -
  let ?K = Z_SUBSCRIBER_KIND_SUBSCRIBER and ?i = "zn_entity_id zn"
  let ?zn1 = "zn\<lparr>zn_entity_id := ?i + 1\<rparr>"
  let ?s = "\<lambda>k. \<lparr>su_key = k, su_id = ?i, su_allowed_origin = origin, su_callback = callback, su_dropper = dropper\<rparr>"
  have 1: "\<not> zn_locked ?zn1" "\<not> zn_is_closed ?zn1" "key_fits key (zn_self ?zn1)" "res_wf ?zn1"
    "\<And>r. r \<in> set (zn_local_resources ?zn1) \<Longrightarrow> res_refcount r < 0xFFFF" "subs_ok ?zn1 ?K S as"
    using assms by (simp_all add: res_wf_def subs_ok_def sub_list_def)
  show ?thesis
  proof (cases "\<exists>n. declare_key_prefix sr key ?zn1 = Err e (?zn1\<lparr>zn_resource_id := n\<rparr>)")
    case True
    then obtain n where n: "declare_key_prefix sr key ?zn1 = Err e (?zn1\<lparr>zn_resource_id := n\<rparr>)" by blast
    let ?zn' = "zn\<lparr>zn_entity_id := ?i + 1, zn_resource_id := n, zn_world := cleared dr kc dropper z_declared_keyexpr_null (zn_world zn)\<rparr>"
    have "z_declare_subscriber sr key callback dropper origin zn = Err e ?zn'"
      using n sub_clear_ok [OF assms(7), of "?s z_declared_keyexpr_null"]
      by (simp add: z_declare_subscriber_def z_register_subscriber_def z_get_entity_id_def bind_ok_def zget_def Let_def clean_return_def
          then_do_def ignore_def fail_def)
    then show ?thesis using assms(8)
      by (intro exI [of _ ?zn'] exI [of _ z_declared_keyexpr_null]) (simp add: subs_ok_def sub_list_def sub_at_def)
  next
    case False
    then obtain k where k: "declare_key_prefix sr key ?zn1 = Ok k ?zn1"
      using declare_key_prefix_refused [OF 1(1,2) assms(3) 1(4,3,5)] by blast
    obtain a zn2 zn3 where r: "z_register_subscription (sr_env sr) ?K (?s k) ?zn1 = Ok (Some a) zn2"
      "z_unregister_subscription (sr_env sr) ?K (Some a) zn2 = Ok () zn3"
      "zn3 = ?zn1\<lparr>zn_subs := zn_subs zn3, zn_world := cleared dr kc dropper k (zn_world zn)\<rparr>"
      "subs_ok zn3 ?K S as" "\<forall>b \<in># S. sub_at zn3 b = sub_at ?zn1 b"
      using subscription_register_unregister [OF 1(1,2,6) assms(7), of "?s k"] by auto
    obtain st where st: "zn2 = set_sub_list ?K (Some a # sub_list ?K ?zn1) (?zn1\<lparr>zn_subs := st\<rparr>)"
      using subscription_register_ok [OF 1(1,2), of S "sr_env sr" ?K "?s k"] 1(6) r(1) by (auto simp: subs_ok_def)
    have fits: "key_fits key (zn_self zn2)" using assms(5) st by simp
    have "z_declare_subscriber sr key callback dropper origin zn = Err e zn3"
      using k r(1,2) announce_refused [OF assms(3) fits, of ?i] assms(9)
      by (simp add: z_declare_subscriber_def z_register_subscriber_def z_get_entity_id_def bind_ok_def zget_def Let_def clean_return_def
          then_do_def ignore_def fail_def when_do_def)
    moreover have "zn3 = zn\<lparr>zn_entity_id := ?i + 1, zn_resource_id := zn_resource_id zn3, zn_subs := zn_subs zn3,
        zn_world := cleared dr kc dropper k (zn_world zn)\<rparr>"
      using arg_cong [OF r(3), of zn_resource_id] by (subst r(3)) simp
    ultimately show ?thesis using r(4,5) by (intro exI [of _ zn3] exI [of _ k]) (simp add: sub_at_def)
  qed
qed

end
