(* ===== verification/Zp_PrimQuery.thy ===== *)
theory Zp_PrimQuery imports Zp_PrimSubs
begin

text \<open>
  Queries from the application to the last of their replies, the interests and tokens of a session, and
  the filters of publishers.
\<close>

section \<open>How replies are consolidated\<close>

definition has_time :: "byte list \<Rightarrow> bool" where
  "has_time p \<longleftrightarrow> (\<exists>as bs. p = as @ Z_SELECTOR_TIME @ bs)"

definition query_mode :: "byte list option \<Rightarrow> z_consolidation_mode_t \<Rightarrow> z_consolidation_mode_t" where
  "query_mode parameters c = (if c \<noteq> Z_CONSOLIDATION_MODE_AUTO then c
     else if has_time (given [] parameters) then Z_CONSOLIDATION_MODE_NONE else Z_CONSOLIDATION_MODE_LATEST)"

lemma find_part: "List.find (\<lambda>i. take (length n) (drop i p) = n) [0 ..< Suc (length p) - length n] \<noteq> None \<longleftrightarrow> (\<exists>as bs. p = as @ n @ bs)"
proof -
  have "(\<exists>i < Suc (length p) - length n. take (length n) (drop i p) = n) \<longleftrightarrow> (\<exists>as bs. p = as @ n @ bs)"
  proof
    assume "\<exists>i < Suc (length p) - length n. take (length n) (drop i p) = n"
    then obtain i where "take (length n) (drop i p) = n" by blast
    then have "p = take i p @ n @ drop (length n) (drop i p)" by (metis append_take_drop_id)
    then show "\<exists>as bs. p = as @ n @ bs" by blast
  next
    assume "\<exists>as bs. p = as @ n @ bs"
    then obtain as bs where "p = as @ n @ bs" by blast
    then show "\<exists>i < Suc (length p) - length n. take (length n) (drop i p) = n" by (intro exI [of _ "length as"]) simp
  qed
  then show ?thesis by (auto simp: find_None_iff)
qed

lemma consolidation_chosen:
  "query_consolidation parameters c = Some (query_mode parameters c)"
proof (cases parameters)
  case None
  then show ?thesis by (simp add: query_consolidation_def query_mode_def has_time_def Z_SELECTOR_TIME_def)
next
  case (Some p)
  have "z_strstr p 0 (length p) Z_SELECTOR_TIME =
      Some (List.find (\<lambda>i. take (length Z_SELECTOR_TIME) (drop i p) = Z_SELECTOR_TIME) [0 ..< Suc (length p) - length Z_SELECTOR_TIME])"
    by (simp only: z_strstr_def z_bstrstr_def fst_conv snd_conv bstrstr_ok le_refl)
  then show ?thesis using find_part [of Z_SELECTOR_TIME p] by (simp add: query_consolidation_def query_mode_def Some has_time_def)
qed

lemma bind_of_option: "bind_ok (of_option (Some x)) f = f x"
  by (simp add: of_option_def bind_ok_def ret_def)

section \<open>A query\<close>

text \<open>What is kept of a query, and what is sent of it.\<close>

definition query_anyke :: "byte list option \<Rightarrow> bool" where
  "query_anyke parameters \<longleftrightarrow> Z_QUERY_PARAMS_KEY_ANYKE \<in> set (split_on 0x3b (given [] parameters))"

lemma relock_pending: "\<not> zn_locked zn \<Longrightarrow> zn\<lparr>zn_query_id := n, zn_pending_queries := qs, zn_locked := False\<rparr> =
    zn\<lparr>zn_query_id := n, zn_pending_queries := qs\<rparr>"
  by simp

lemma query_registered:
  assumes "\<not> zn_locked zn" "\<not> zn_is_closed zn"
  shows "then_do (clean_return z_session_mutex_lock_if_open p)
      (bind_ok (unsafe_register_pending_query q) (\<lambda>qid. then_do z_session_mutex_unlock (f qid))) zn =
    f (zn_query_id zn) (zn\<lparr>zn_query_id := zn_query_id zn + 1, zn_pending_queries := q\<lparr>pq_id := zn_query_id zn\<rparr> # zn_pending_queries zn\<rparr>)"
  using assms by (simp add: then_do_def bind_ok_def clean_return_def lock_if_open_ok unsafe_register_pending_query_def Let_def
      z_list_push_def z_session_mutex_unlock_def relock_pending)

text \<open>The query that is pending, while its message is on the way.\<close>

lemma query_sent:
  assumes "\<not> zn_locked zn" "\<not> zn_is_closed zn" "key_fits key (zn_self zn)"
    and "z_locality_allows_remote dest" "cf_has_link (sr_conf sr)" "parameters = None \<Longrightarrow> len = 0"
    and "q = (new_pending (dke_inner key) querier cb dropper dest now timeout target (query_mode parameters c)
      (query_anyke parameters \<or> accept = Z_REPLY_KEYEXPR_ANY))\<lparr>pq_id := zn_query_id zn\<rparr>"
    and "m = z_n_msg_make_query (the (z_declared_keyexpr_alias_to_wire key (zn_self zn))) (given [] parameters) (zn_query_id zn)
      Z_RELIABILITY_DEFAULT (query_mode parameters c) payload encoding timeout attachment qos info
      (accept = Z_REPLY_KEYEXPR_ANY \<and> \<not> query_anyke parameters)"
  shows "z_query sr now querier key parameters len target c payload encoding cb dropper timeout attachment qos info accept dest zn =
    clean_return (env_send_n_msg (sr_env sr) m Z_RELIABILITY_RELIABLE (z_n_qos_get_congestion_control qos) None)
      (z_unregister_pending_query (sr_env sr) (zn_query_id zn))
      (zn\<lparr>zn_query_id := zn_query_id zn + 1, zn_pending_queries := q # zn_pending_queries zn\<rparr>)"
proof -
  let ?zn = "zn\<lparr>zn_query_id := zn_query_id zn + 1, zn_pending_queries := q # zn_pending_queries zn\<rparr>"
  have any: "z_parameters_has_anyke (given [] parameters) = Some (query_anyke parameters)"
    unfolding has_anyke_ok query_anyke_def ..
  have len: "\<not> (parameters = None \<and> 0 < len)" using assms(6) by auto
  have w: "declared_wire key ?zn = Ok (the (z_declared_keyexpr_alias_to_wire key (zn_self zn))) ?zn"
    using declared_wire_ok [of key ?zn] assms(3) by simp
  let ?send = "\<lambda>qid. clean_return
      (bind_ok (declared_wire key) (\<lambda>wireexpr. env_send_n_msg (sr_env sr) (z_n_msg_make_query wireexpr (given [] parameters) qid
        Z_RELIABILITY_DEFAULT (query_mode parameters c) payload encoding timeout attachment qos info
        (accept = Z_REPLY_KEYEXPR_ANY \<and> \<not> query_anyke parameters)) Z_RELIABILITY_RELIABLE (z_n_qos_get_congestion_control qos) None))
      (z_unregister_pending_query (sr_env sr) qid)"
  have "z_query sr now querier key parameters len target c payload encoding cb dropper timeout attachment qos info accept dest zn =
      then_do (clean_return z_session_mutex_lock_if_open (drop_opt (sr_env sr) dropper))
        (bind_ok (unsafe_register_pending_query (new_pending (dke_inner key) querier cb dropper dest now timeout target (query_mode parameters c)
            (query_anyke parameters \<or> accept = Z_REPLY_KEYEXPR_ANY))) (\<lambda>qid. then_do z_session_mutex_unlock (?send qid))) zn"
    unfolding z_query_def consolidation_chosen any if_not_P [OF len] bind_of_option Let_def by (simp only: assms(4,5) simp_thms if_True)
  also have "\<dots> = ?send (zn_query_id zn) ?zn"
    unfolding query_registered [OF assms(1,2)] assms(7) ..
  also have "\<dots> = clean_return (env_send_n_msg (sr_env sr) m Z_RELIABILITY_RELIABLE (z_n_qos_get_congestion_control qos) None)
      (z_unregister_pending_query (sr_env sr) (zn_query_id zn)) ?zn"
    unfolding clean_return_def bind_ok_def w assms(8) by simp
  finally show ?thesis .
qed

lemma query_taken:
  assumes "\<not> zn_locked zn" "\<not> zn_is_closed zn" "key_fits key (zn_self zn)" "taken sr snd_msg"
    and "z_locality_allows_remote dest" "cf_has_link (sr_conf sr)" "parameters = None \<Longrightarrow> len = 0"
    and "q = (new_pending (dke_inner key) querier cb dropper dest now timeout target (query_mode parameters c)
      (query_anyke parameters \<or> accept = Z_REPLY_KEYEXPR_ANY))\<lparr>pq_id := zn_query_id zn\<rparr>"
    and "m = z_n_msg_make_query (the (z_declared_keyexpr_alias_to_wire key (zn_self zn))) (given [] parameters) (zn_query_id zn)
      Z_RELIABILITY_DEFAULT (query_mode parameters c) payload encoding timeout attachment qos info
      (accept = Z_REPLY_KEYEXPR_ANY \<and> \<not> query_anyke parameters)"
  shows "z_query sr now querier key parameters len target c payload encoding cb dropper timeout attachment qos info accept dest zn =
    Ok () (zn\<lparr>zn_query_id := zn_query_id zn + 1, zn_pending_queries := q # zn_pending_queries zn, zn_world := snd_msg m (zn_world zn)\<rparr>)"
  using query_sent [OF assms(1-3,5-9)] by (simp add: clean_return_def taken_ok [OF assms(4)])

text \<open>A query that cannot be sent is forgotten, and its dropper runs, once.\<close>

lemma query_refused:
  assumes "\<not> zn_locked zn" "\<not> zn_is_closed zn" "key_fits key (zn_self zn)" "refused sr e" "tidy (sr_env sr) dr kc"
    and "z_locality_allows_remote dest" "cf_has_link (sr_conf sr)" "parameters = None \<Longrightarrow> len = 0"
  shows "z_query sr now querier key parameters len target c payload encoding cb dropper timeout attachment qos info accept dest zn =
    Err e (zn\<lparr>zn_query_id := zn_query_id zn + 1, zn_world := dropped dr dropper (zn_world zn)\<rparr>)"
proof -
  let ?q = "(new_pending (dke_inner key) querier cb dropper dest now timeout target (query_mode parameters c)
      (query_anyke parameters \<or> accept = Z_REPLY_KEYEXPR_ANY))\<lparr>pq_id := zn_query_id zn\<rparr>"
  let ?zn = "zn\<lparr>zn_query_id := zn_query_id zn + 1, zn_pending_queries := ?q # zn_pending_queries zn\<rparr>"
  have d: "pq_dropper ?q = dropper" "pq_id ?q = zn_query_id zn" by (simp_all add: new_pending_def)
  have p: "drop_pending (sr_env sr) (z_pending_query_eq (zn_query_id zn)) True (?zn\<lparr>zn_locked := True\<rparr>) =
      Ok () (zn\<lparr>zn_query_id := zn_query_id zn + 1, zn_locked := True, zn_world := dropped dr dropper (zn_world zn)\<rparr>)"
    using drop_pending_at [OF assms(5), of "[]" "zn_query_id zn" ?q "?zn\<lparr>zn_locked := True\<rparr>" "zn_pending_queries zn"] d by simp
  have u: "zn\<lparr>zn_query_id := zn_query_id zn + 1, zn_locked := False, zn_world := w\<rparr> = zn\<lparr>zn_query_id := zn_query_id zn + 1, zn_world := w\<rparr>" for w
    using assms(1) by simp
  have "z_unregister_pending_query (sr_env sr) (zn_query_id zn) ?zn =
      Ok () (zn\<lparr>zn_query_id := zn_query_id zn + 1, zn_world := dropped dr dropper (zn_world zn)\<rparr>)"
    using p u assms(1) by (simp add: z_unregister_pending_query_def then_do_def bind_ok_def lock_ok z_session_mutex_unlock_def)
  then show ?thesis using query_sent [OF assms(1-3,6-8) refl refl] assms(4)
    by (simp add: clean_return_def refused_def then_do_def bind_ok_def ignore_def fail_def)
qed

end
