(* ===== verification/Zp_PrimLive.thy ===== *)
theory Zp_PrimLive imports Zp_PrimQuery
begin

text \<open>
  Tokens, interests and liveliness of a session as the application asks for them, and the places where what is
  kept for a transport that is opened again is not what is declared.
\<close>

section \<open>Tokens of the session\<close>

lemma extract_drop: "z_list_extract_filter P True xs = z_list_drop_filter P True xs"
  by (induction xs) (auto split: prod.splits)

lemma dropped_found: "snd (z_list_drop_filter P True xs) = (case z_list_find P xs of None \<Rightarrow> [] | Some x \<Rightarrow> [x])"
  by (induction xs) (auto split: prod.splits)

lemma find_key: "z_list_find (\<lambda>e. k = fst e) xs = map_option (Pair k) (map_option snd (z_list_find (\<lambda>e. k = fst e) xs))"
  by (induction xs) auto

lemma hashmap_extract_ok:
  assumes "hashmap_wf h c m"
  shows "z_hashmap_extract m k = (map_option (Pair k) (z_hashmap_get m k), z_hashmap_remove m k)"
proof (cases "hm_vals m")
  case (Some vals)
  have e: "hm_f_equals m = (=)" using assms by (simp add: hashmap_wf_def)
  let ?d = "z_list_drop_filter (\<lambda>e. k = fst e) True (vals ! hm_idx m k)"
  have "(case snd ?d of [] \<Rightarrow> None | kv # _ \<Rightarrow> Some kv) = map_option (Pair k) (z_hashmap_get m k)"
    unfolding dropped_found by (subst find_key) (simp add: z_hashmap_get_def Some e split: option.splits)
  moreover obtain l xs where "?d = (l, xs)" by fastforce
  ultimately show ?thesis by (simp add: z_hashmap_extract_def z_hashmap_remove_def Some e extract_drop)
qed (simp add: z_hashmap_extract_def z_hashmap_remove_def z_hashmap_get_def)

definition local_tokens_wf :: "('c, 'w) z_session_t \<Rightarrow> bool" where
  "local_tokens_wf zn \<longleftrightarrow> hashmap_wf (\<lambda>k. k) 16 (zn_local_tokens zn)"

definition token_told :: "z_key_t \<Rightarrow> nat \<Rightarrow> u32 \<Rightarrow> z_network_message_t" where
  "token_told key self i = declare_msg (z_make_decl_token (the (z_declared_keyexpr_alias_to_wire key self)) i)"

definition token_untold :: "z_key_t \<Rightarrow> nat \<Rightarrow> u32 \<Rightarrow> z_network_message_t" where
  "token_untold key self i = declare_msg (z_make_undecl_token i (Some (the (z_declared_keyexpr_alias_to_wire key self))))"

lemma declare_token_ok:
  assumes "\<not> zn_locked zn" "\<not> zn_is_closed zn" "taken sr snd_msg" "key_fits key (zn_self zn)"
    and "local_tokens_wf zn" "z_hashmap_get (zn_local_tokens zn) (ucast (zn_entity_id zn)) = None"
  shows "\<exists>k n rs c w m. dke_inner k = dke_inner key \<and> key_fits k (zn_self zn) \<and>
    z_declare_liveliness_token sr key zn = Ok (zn_entity_id zn) (with_resources n rs
      (cached sr (token_told k (zn_self zn) (zn_entity_id zn)) c) (snd_msg (token_told k (zn_self zn) (zn_entity_id zn)) w)
      (zn\<lparr>zn_entity_id := zn_entity_id zn + 1, zn_local_tokens := m\<rparr>)) \<and>
    hashmap_wf (\<lambda>k. k) 16 m \<and> z_hashmap_get m = (z_hashmap_get (zn_local_tokens zn))(ucast (zn_entity_id zn) \<mapsto> k)"
proof -
  let ?i = "zn_entity_id zn"
  let ?zn1 = "zn\<lparr>zn_entity_id := ?i + 1\<rparr>"
  obtain k n rs c w where k: "declare_key sr key ?zn1 = Ok k (with_resources n rs c w ?zn1)" "dke_inner k = dke_inner key" "key_fits k (zn_self zn)"
    using declare_key_ok(1) [of ?zn1 sr snd_msg key] assms(1-4) by auto
  let ?m = "token_told k (zn_self zn) ?i"
  let ?zn2 = "with_resources n rs (cached sr ?m c) (snd_msg ?m w) ?zn1"
  have t: "z_liveliness_send_declare_token sr ?i k (with_resources n rs c w ?zn1) = Ok () ?zn2"
    using k(3) by (simp add: z_liveliness_send_declare_token_def bind_ok_def declared_wire_ok declare_taken [OF assms(3)] token_told_def)
  let ?map = "z_hashmap_insert (zn_local_tokens zn) (ucast ?i) k True"
  have "z_declare_liveliness_token sr key zn = Ok ?i (with_resources n rs (cached sr ?m c) (snd_msg ?m w) (?zn1\<lparr>zn_local_tokens := ?map\<rparr>))"
    using k(1) t assms(1,2,6) lock_if_open_ok [of ?zn2]
    by (simp add: z_declare_liveliness_token_def z_get_entity_id_def bind_ok_def then_do_def clean_return_def zget_def set_local_tokens_def zmod_def
        z_session_mutex_unlock_def ret_def) (simp add: with_resources_def)
  then show ?thesis using k(2,3) im.wf_put [of "zn_local_tokens zn" "ucast ?i" k] im.refines_put [of "zn_local_tokens zn" "ucast ?i" k] assms(5)
    by (intro exI [of _ k] exI [of _ n] exI [of _ rs] exI [of _ c] exI [of _ w] exI [of _ ?map]) (simp add: hashmap_put_def local_tokens_wf_def)
qed

lemma undeclare_token_ok:
  assumes "\<not> zn_locked zn" "\<not> zn_is_closed zn" "taken sr snd_msg" "tidy (sr_env sr) dr kc"
    and "local_tokens_wf zn" "z_hashmap_get (zn_local_tokens zn) (ucast i) = Some k" "key_fits k (zn_self zn)"
    and "m = token_untold k (zn_self zn) i"
  shows "z_undeclare_liveliness_token sr i zn = Ok () (zn\<lparr>zn_local_tokens := z_hashmap_remove (zn_local_tokens zn) (ucast i),
    zn_declaration_cache := drop_first (takes_back (sr_mem sr) m) (zn_declaration_cache zn), zn_world := kc k (snd_msg m (zn_world zn))\<rparr>)"
proof -
  let ?map = "z_hashmap_remove (zn_local_tokens zn) (ucast i)"
  let ?zn1 = "zn\<lparr>zn_local_tokens := ?map\<rparr>"
  have x: "z_hashmap_extract (zn_local_tokens zn) (ucast i) = (Some (ucast i, k), ?map)"
    using hashmap_extract_ok [of "\<lambda>k. k" 16 "zn_local_tokens zn" "ucast i"] assms(5,6) by (simp add: local_tokens_wf_def)
  have t: "z_liveliness_send_undeclare_token sr i k ?zn1 = Ok () (?zn1\<lparr>zn_world := snd_msg m (zn_world zn),
      zn_declaration_cache := drop_first (takes_back (sr_mem sr) m) (zn_declaration_cache zn)\<rparr>)"
    using assms(7,8) by (simp add: z_liveliness_send_undeclare_token_def bind_ok_def declared_wire_ok undeclare_taken [OF assms(3)] token_untold_def)
  have u: "zn\<lparr>zn_locked := False, zn_local_tokens := ?map\<rparr> = ?zn1" "zn\<lparr>zn_local_tokens := ?map, zn_locked := False\<rparr> = ?zn1" using assms(1) by simp_all
  show ?thesis using assms(1,2) x t
    by (simp add: u z_undeclare_liveliness_token_def bind_ok_def then_do_def zget_def z_session_is_closed_def lock_ok set_local_tokens_def zmod_def
        z_session_mutex_unlock_def attempt_def key_clear_def ignore_def tidy_key [OF assms(4)] return_code_def ret_def)
qed


section \<open>Interests of the session\<close>

lemma register_interest_ok:
  assumes "\<not> zn_locked zn" "\<not> zn_is_closed zn" "intrs.ok zn S as"
  shows "\<exists>a st. z_register_interest intr zn = Ok (Some a) (zn\<lparr>zn_intrs := st, zn_local_interests := map Some (a # as)\<rparr>) \<and> a \<notin># S \<and>
    owned st (add_mset a S) {#} \<and> st_val st = (st_val (zn_intrs zn))(a \<mapsto> intr)"
proof -
  have o: "owned (zn_intrs zn) S {#}" "zn_local_interests zn = map Some as" using assms(3) by (simp_all add: intrs.ok_def)
  obtain a st where n: "rc_new_from_val intr (zn_intrs zn) = Ok (Some a) st" "a \<notin># S" "owned st (add_mset a S) {#}"
    "st_val st = (st_val (zn_intrs zn))(a \<mapsto> intr)"
    using new_owned [OF o(1), of intr] by blast
  have "zn\<lparr>zn_intrs := st, zn_local_interests := xs, zn_locked := False\<rparr> = zn\<lparr>zn_intrs := st, zn_local_interests := xs\<rparr>" for xs
    using assms(1) by simp
  then show ?thesis using assms(1,2) n o(2)
    by (intro exI [of _ a] exI [of _ st])
      (simp add: z_register_interest_def bind_ok_def then_do_def attempt_def lock_if_open_ok on_intrs_def within_def zmod_def
        z_session_mutex_unlock_def ret_def)
qed

definition interest_told :: "z_key_t \<Rightarrow> nat \<Rightarrow> u32 \<Rightarrow> u8 \<Rightarrow> z_network_message_t" where
  "interest_told key self i flags = z_n_msg_make_interest (z_make_interest (Some (the (z_declared_keyexpr_alias_to_wire key self))) i flags)"

definition tells_interests :: "('c, 'w) z_surr \<Rightarrow> ('c, 'w) z_session_t \<Rightarrow> bool" where
  "tells_interests sr zn \<longleftrightarrow> zn_mode zn = Z_WHATAMI_CLIENT \<or> z_session_has_router_peer (sr_conf sr) zn"

lemma tell_interest_ok:
  assumes "taken sr snd_msg" "key_fits key (zn_self zn)" "m = interest_told key (zn_self zn) i flags"
  shows "tell_interest sr key i flags zn = Ok () (if tells_interests sr zn
    then zn\<lparr>zn_world := snd_msg m (zn_world zn), zn_declaration_cache := cached sr m (zn_declaration_cache zn)\<rparr> else zn)"
  using assms(2,3)
  by (simp add: tell_interest_def bind_ok_def zget_def when_do_def tells_interests_def declared_wire_ok Let_def then_do_def
      reliable_taken [OF assms(1)] cache_ok interest_told_def ret_def)

lemma add_interest_ok:
  assumes "\<not> zn_locked zn" "\<not> zn_is_closed zn" "intrs.ok zn S as" "taken sr snd_msg" "key_fits key (zn_self zn)"
    and "zn_remote_declares zn = []" "m = interest_told key (zn_self zn) (zn_entity_id zn) flags"
    and "intr = \<lparr>si_key = dke_inner key, si_id = zn_entity_id zn, si_callback = Some callback, si_arg = arg, si_flags = flags\<rparr>"
  shows "\<exists>a st. z_add_interest sr mem key callback flags arg zn = Ok (zn_entity_id zn)
      (zn\<lparr>zn_entity_id := zn_entity_id zn + 1, zn_intrs := st, zn_local_interests := map Some (a # as),
        zn_world := (if tells_interests sr zn then snd_msg m (zn_world zn) else zn_world zn),
        zn_declaration_cache := (if tells_interests sr zn then cached sr m (zn_declaration_cache zn) else zn_declaration_cache zn)\<rparr>) \<and>
    a \<notin># S \<and> owned st (add_mset a S) {#} \<and> st_val st = (st_val (zn_intrs zn))(a \<mapsto> intr)"
proof -
  let ?i = "zn_entity_id zn"
  let ?zn1 = "zn\<lparr>zn_entity_id := ?i + 1\<rparr>"
  have 1: "\<not> zn_locked ?zn1" "\<not> zn_is_closed ?zn1" "intrs.ok ?zn1 S as" using assms(1-3) by (simp_all add: intrs.ok_def)
  obtain a st where r: "z_register_interest intr ?zn1 = Ok (Some a) (?zn1\<lparr>zn_intrs := st, zn_local_interests := map Some (a # as)\<rparr>)" "a \<notin># S"
    "owned st (add_mset a S) {#}" "st_val st = (st_val (zn_intrs ?zn1))(a \<mapsto> intr)"
    using register_interest_ok [OF 1, of intr] by blast
  let ?zn2 = "?zn1\<lparr>zn_intrs := st, zn_local_interests := map Some (a # as)\<rparr>"
  let ?zn3 = "?zn2\<lparr>zn_world := (if tells_interests sr zn then snd_msg m (zn_world zn) else zn_world zn),
    zn_declaration_cache := (if tells_interests sr zn then cached sr m (zn_declaration_cache zn) else zn_declaration_cache zn)\<rparr>"
  have tl: "tells_interests sr ?zn2 = tells_interests sr zn" by (simp add: tells_interests_def z_session_has_router_peer_def)
  have t: "tell_interest sr key ?i flags ?zn2 = Ok () ?zn3"
    using tell_interest_ok [OF assms(4), of key ?zn2 m ?i flags] assms(5,7) unfolding tl by (cases "tells_interests sr zn") simp_all
  have "?zn3\<lparr>zn_locked := False\<rparr> = ?zn3" using assms(1) by simp
  then have rp: "z_interest_replay_declare (sr_env sr) mem intr ?zn3 = Ok () ?zn3"
    using assms(1,2,6) by (simp add: z_interest_replay_declare_def bind_ok_def attempt_def lock_if_open_ok zget_def then_do_def
        z_session_mutex_unlock_def ret_def)
  have "z_add_interest sr mem key callback flags arg zn = Ok ?i ?zn3"
    unfolding z_add_interest_def bind_ok_def z_get_entity_id_def res.case Let_def assms(8) [symmetric] r(1)
    using t rp by (simp add: attempt_def then_do_def bind_ok_def ret_def)
  then show ?thesis using r(2-4) by (intro exI [of _ a] exI [of _ st]) simp
qed

lemma get_interest_in:
  assumes "owned (zn_intrs zn) S {#}" "set (bs @ a # cs) \<subseteq> set_mset S" "\<And>b. b \<in> set bs \<Longrightarrow> si_id (intrs.at zn b) \<noteq> i"
    and "si_id (intrs.at zn a) = i"
  shows "z_get_interest_by_id_in (map Some (bs @ a # cs)) (ucast i) zn = Ok (Some a) zn"
  using assms(2,3)
proof (induction bs)
  case Nil
  then have "on_intrs (rc_read (Some a)) zn = Ok (intrs.at zn a) zn" using intrs.read_ok [OF assms(1)] by (simp add: on_intrs_def)
  then show ?case using assms(4) by (simp add: bind_ok_def ret_def)
next
  case (Cons b bs)
  then have "on_intrs (rc_read (Some b)) zn = Ok (intrs.at zn b) zn" using intrs.read_ok [OF assms(1)] by (simp add: on_intrs_def)
  moreover have "(ucast i :: u64) \<noteq> ucast (si_id (intrs.at zn b))" using Cons.prems(2) [of b] by (simp add: ucast32_eq)
  ultimately show ?case using Cons by (simp add: bind_ok_def)
qed

lemma interest_clears:
  "tidy env dr kc \<Longrightarrow> z_session_interest_clear env intr zn = Ok () (zn\<lparr>zn_world := dropped dr (si_arg intr) (zn_world zn)\<rparr>)"
  by (simp add: z_session_interest_clear_def drop_opt_ok)

lemma drop_this_interest:
  "distinct as \<Longrightarrow> a \<in> set as \<Longrightarrow> z_list_drop_filter (\<lambda>p. rc_eq p (Some a)) True (map Some as) = (map Some (remove1 a as), [Some a])"
  by (induction as) (auto simp: rc_eq_def)

lemma unregister_interest_ok:
  assumes "\<not> zn_locked zn" "intrs.ok zn S as" "a \<in> set as" "count S a = 1" "tidy env dr kc"
  shows "\<exists>st. z_unregister_interest env (Some a) zn = Ok () (zn\<lparr>zn_intrs := st, zn_local_interests := map Some (remove1 a as),
      zn_world := dropped dr (si_arg (intrs.at zn a)) (zn_world zn)\<rparr>) \<and>
    owned st (S - {#a#}) {#} \<and> st_val st = (st_val (zn_intrs zn))(a := None)"
proof -
  let ?zn = "zn\<lparr>zn_locked := True\<rparr>" and ?w = "dropped dr (si_arg (intrs.at zn a)) (zn_world zn)"
  have o: "owned (zn_intrs ?zn) S {#}" "zn_local_interests zn = map Some as" "distinct as" using assms(2) by (simp_all add: intrs.ok_def)
  have at: "intrs.at ?zn a = intrs.at zn a" by (simp add: intrs.at_def)
  have k: "z_session_interest_clear env (intrs.at ?zn a) (?zn\<lparr>zn_intrs := st\<rparr>) = Ok () ((?zn\<lparr>zn_world := ?w\<rparr>)\<lparr>zn_intrs := st\<rparr>)" for st
    unfolding at using interest_clears [OF assms(5)] by simp
  obtain st where st: "rc_let_go zn_intrs (\<lambda>st zn. zn\<lparr>zn_intrs := st\<rparr>) (z_session_interest_clear env) (Some a) ?zn = Ok () (?zn\<lparr>zn_world := ?w, zn_intrs := st\<rparr>)"
    "owned st (S - {#a#}) {#}" "st_val st = (st_val (zn_intrs ?zn))(a := None)"
    using intrs.drop_last [of ?zn S "{#}" a "z_session_interest_clear env" "?zn\<lparr>zn_world := ?w\<rparr>", OF o(1) assms(4) k] by auto
  have u: "zn\<lparr>zn_locked := False, zn_world := w, zn_intrs := st, zn_local_interests := xs\<rparr> = zn\<lparr>zn_intrs := st, zn_local_interests := xs, zn_world := w\<rparr>" for w xs
    using assms(1) by simp
  show ?thesis using st assms(1,3) o(2,3)
    by (intro exI [of _ st]) (simp add: u z_unregister_interest_def then_do_def bind_ok_def lock_ok zget_def drop_this_interest intr_rc_drop_eq
        zmod_def z_session_mutex_unlock_def ret_def)
qed


lemma remove_interest_ok:
  assumes "\<not> zn_locked zn" "intrs.ok zn S (bs @ a # cs)" "count S a = 1" "\<And>b. b \<in> set bs \<Longrightarrow> si_id (intrs.at zn b) \<noteq> i"
    and "si_id (intrs.at zn a) = i" "taken sr snd_msg" "tidy (sr_env sr) dr kc" "m = z_n_msg_make_interest (z_make_interest_final i)"
    and "client = (zn_mode zn = Z_WHATAMI_CLIENT)"
  shows "\<exists>st. z_remove_interest sr i zn = Ok () (zn\<lparr>zn_intrs := st, zn_local_interests := map Some (bs @ cs),
      zn_declaration_cache := (if client then drop_first (takes_back (sr_mem sr) m) (zn_declaration_cache zn) else zn_declaration_cache zn),
      zn_world := dropped dr (si_arg (intrs.at zn a)) (if client then snd_msg m (zn_world zn) else zn_world zn)\<rparr>) \<and>
    owned st (S - {#a#}) {#} \<and> st_val st = (st_val (zn_intrs zn))(a := None)"
proof -
  let ?l = "zn\<lparr>zn_locked := True\<rparr>"
  have o: "owned (zn_intrs ?l) S {#}" "set (bs @ a # cs) \<subseteq> set_mset S" "zn_local_interests zn = map Some (bs @ a # cs)" "distinct (bs @ a # cs)"
    using assms(2) by (auto simp: intrs.ok_def)
  have at: "intrs.at ?l = intrs.at zn" by (simp add: intrs.at_def fun_eq_iff)
  have "z_get_interest_by_id_in (map Some (bs @ a # cs)) (ucast i) ?l = Ok (Some a) ?l"
    using assms(4,5) unfolding at [symmetric] by (intro get_interest_in [OF o(1,2)])
  moreover have "zn\<lparr>zn_locked := False\<rparr> = zn" using assms(1) by simp
  ultimately have g: "z_get_interest_by_id (ucast i) zn = Ok (Some a) zn"
    using assms(1) o(3) by (simp add: z_get_interest_by_id_def then_do_def bind_ok_def lock_ok unsafe_z_get_interest_by_id_def zget_def
        z_session_mutex_unlock_def ret_def)
  have rd: "on_intrs (rc_read (Some a)) zn = Ok (intrs.at zn a) zn"
    using intrs.read_ok [of zn S "{#}" a] o(1,2) by (simp add: on_intrs_def)
  let ?c = "if client then drop_first (takes_back (sr_mem sr) m) (zn_declaration_cache zn) else zn_declaration_cache zn"
  let ?w = "if client then snd_msg m (zn_world zn) else zn_world zn"
  let ?zn1 = "zn\<lparr>zn_world := ?w, zn_declaration_cache := ?c\<rparr>"
  have t: "when_do client (let n_msg = z_n_msg_make_interest (z_make_interest_final i) in
      then_do (tx_failed (send_reliable sr n_msg)) (z_prune_declaration (sr_mem sr) n_msg)) zn = Ok () ?zn1"
    by (cases client) (simp_all add: when_do_def Let_def then_do_def tx_failed_def attempt_def bind_ok_def reliable_taken [OF assms(6)] prune_ok
        assms(8) ret_def)
  have 1: "\<not> zn_locked ?zn1" "intrs.ok ?zn1 S (bs @ a # cs)" "a \<in> set (bs @ a # cs)" "intrs.at ?zn1 = intrs.at zn"
    using assms(1,2) by (simp_all add: intrs.ok_def intrs.at_def fun_eq_iff)
  obtain st where u: "z_unregister_interest (sr_env sr) (Some a) ?zn1 = Ok () (?zn1\<lparr>zn_intrs := st,
      zn_local_interests := map Some (remove1 a (bs @ a # cs)), zn_world := dropped dr (si_arg (intrs.at zn a)) ?w\<rparr>)"
    "owned st (S - {#a#}) {#}" "st_val st = (st_val (zn_intrs ?zn1))(a := None)"
    using unregister_interest_ok [OF 1(1-3) assms(3,7)] unfolding 1(4) by auto
  have rm: "remove1 a (bs @ a # cs) = bs @ cs" using o(4) by (auto simp: remove1_append)
  have "z_remove_interest sr i zn = then_do (when_do client (let n_msg = z_n_msg_make_interest (z_make_interest_final i) in
      then_do (tx_failed (send_reliable sr n_msg)) (z_prune_declaration (sr_mem sr) n_msg))) (z_unregister_interest (sr_env sr) (Some a)) zn"
    by (simp add: z_remove_interest_def bind_ok_def g rd zget_def assms(5,9))
  then have "z_remove_interest sr i zn = z_unregister_interest (sr_env sr) (Some a) ?zn1"
    unfolding then_do_def [of "when_do _ _"] bind_ok_def t by simp
  then show ?thesis using u unfolding rm by (intro exI [of _ st]) simp
qed

text \<open>An interest of another number is not taken for one.\<close>

definition cached_interest :: "u32 \<Rightarrow> z_network_message_t \<Rightarrow> bool" where
  "cached_interest i m \<longleftrightarrow> (case nm_body m of N_Interest n \<Rightarrow> in_id (ni_interest n) = i | _ \<Rightarrow> False)"

lemma final_takes_back: "takes_back mem (z_n_msg_make_interest (z_make_interest_final i)) m \<longleftrightarrow> cached_interest i m"
  by (simp add: takes_back_def z_n_msg_make_interest_def z_make_interest_final_def z_cache_declaration_undeclare_filter_interest_def
      cached_interest_def z_interest_null_def split: z_network_body_t.splits)

lemma told_cached: "cached_interest j (interest_told key self i flags) \<longleftrightarrow> i = j"
  by (auto simp: cached_interest_def interest_told_def z_n_msg_make_interest_def z_make_interest_def)

text \<open>
  What is left of an interest that was added and removed again: nothing in a client, and the declaration in the cache in a peer that
  is connected to a router.
\<close>

lemma interest_added_removed:
  assumes "\<not> zn_locked zn" "\<not> zn_is_closed zn" "intrs.ok zn S as" "taken sr snd_msg" "tidy (sr_env sr) dr kc" "key_fits key (zn_self zn)"
    and "zn_remote_declares zn = []" "\<And>m. m \<in> set (zn_declaration_cache zn) \<Longrightarrow> \<not> cached_interest (zn_entity_id zn) m"
    and "m1 = interest_told key (zn_self zn) (zn_entity_id zn) flags" "m2 = z_n_msg_make_interest (z_make_interest_final (zn_entity_id zn))"
    and "cl = (zn_mode zn = Z_WHATAMI_CLIENT)" "rt = z_session_has_router_peer (sr_conf sr) zn"
  shows "\<exists>zn' st. z_add_interest sr mem key callback flags arg zn = Ok (zn_entity_id zn) zn' \<and>
    z_remove_interest sr (zn_entity_id zn) zn' = Ok () (zn\<lparr>zn_entity_id := zn_entity_id zn + 1, zn_intrs := st,
      zn_declaration_cache := (if \<not> cl \<and> rt then cached sr m1 (zn_declaration_cache zn) else zn_declaration_cache zn),
      zn_world := dropped dr arg (if cl then snd_msg m2 (snd_msg m1 (zn_world zn)) else if rt then snd_msg m1 (zn_world zn) else zn_world zn)\<rparr>) \<and>
    owned st S {#}"
proof -
  let ?i = "zn_entity_id zn"
  let ?intr = "\<lparr>si_key = dke_inner key, si_id = ?i, si_callback = Some callback, si_arg = arg, si_flags = flags\<rparr>"
  have tl: "tells_interests sr zn \<longleftrightarrow> cl \<or> rt" by (simp add: tells_interests_def assms(11,12))
  obtain a st where r: "z_add_interest sr mem key callback flags arg zn = Ok ?i (zn\<lparr>zn_entity_id := ?i + 1, zn_intrs := st,
      zn_local_interests := map Some (a # as), zn_world := (if tells_interests sr zn then snd_msg m1 (zn_world zn) else zn_world zn),
      zn_declaration_cache := (if tells_interests sr zn then cached sr m1 (zn_declaration_cache zn) else zn_declaration_cache zn)\<rparr>)"
    "a \<notin># S" "owned st (add_mset a S) {#}" "st_val st = (st_val (zn_intrs zn))(a \<mapsto> ?intr)"
    using add_interest_ok [OF assms(1-4,6,7,9) refl, of mem callback arg] by blast
  let ?zn' = "zn\<lparr>zn_entity_id := ?i + 1, zn_intrs := st, zn_local_interests := map Some (a # as),
      zn_world := (if tells_interests sr zn then snd_msg m1 (zn_world zn) else zn_world zn),
      zn_declaration_cache := (if tells_interests sr zn then cached sr m1 (zn_declaration_cache zn) else zn_declaration_cache zn)\<rparr>"
  have l: "zn_local_interests zn = map Some as" using assms(3) by (simp add: intrs.ok_def)
  have n1: "a \<notin> set as" using assms(3) r(2) by (auto simp: intrs.ok_def)
  have n: "a \<notin> set as" "count S a = 0" using n1 r(2) by (simp_all add: not_in_iff)
  have ok: "intrs.ok ?zn' (add_mset a S) ([] @ a # as)" using assms(3) r(3) n by (auto simp: intrs.ok_def rc_max_def)
  have at: "intrs.at ?zn' a = ?intr" using r(4) by (simp add: intrs.at_def)
  have c: "drop_first (takes_back (sr_mem sr) m2) (cached sr m1 (zn_declaration_cache zn)) = zn_declaration_cache zn"
    using assms(8) by (intro cached_taken_back) (simp_all add: assms(9,10) final_takes_back told_cached)
  have 1: "\<not> zn_locked ?zn'" "count (add_mset a S) a = 1" "si_id (intrs.at ?zn' a) = ?i" using assms(1) n(2) at by simp_all
  obtain st' where u: "z_remove_interest sr ?i ?zn' = Ok () (?zn'\<lparr>zn_intrs := st', zn_local_interests := map Some ([] @ as),
      zn_declaration_cache := (if cl then drop_first (takes_back (sr_mem sr) m2) (zn_declaration_cache ?zn') else zn_declaration_cache ?zn'),
      zn_world := dropped dr (si_arg (intrs.at ?zn' a)) (if cl then snd_msg m2 (zn_world ?zn') else zn_world ?zn')\<rparr>)"
    "owned st' (add_mset a S - {#a#}) {#}"
    using remove_interest_ok [OF 1(1) ok 1(2) _ 1(3) assms(4,5,10), of cl] assms(11) by auto
  have sa: "si_arg (intrs.at ?zn' a) = arg" by (subst at) simp
  have e: "?zn'\<lparr>zn_intrs := st', zn_local_interests := map Some ([] @ as),
      zn_declaration_cache := (if cl then drop_first (takes_back (sr_mem sr) m2) (zn_declaration_cache ?zn') else zn_declaration_cache ?zn'),
      zn_world := dropped dr (si_arg (intrs.at ?zn' a)) (if cl then snd_msg m2 (zn_world ?zn') else zn_world ?zn')\<rparr> =
    zn\<lparr>zn_entity_id := ?i + 1, zn_intrs := st',
      zn_declaration_cache := (if \<not> cl \<and> rt then cached sr m1 (zn_declaration_cache zn) else zn_declaration_cache zn),
      zn_world := dropped dr arg (if cl then snd_msg m2 (snd_msg m1 (zn_world zn)) else if rt then snd_msg m1 (zn_world zn) else zn_world zn)\<rparr>"
    unfolding sa unfolding tl by (cases cl; cases rt) (simp_all add: c l [symmetric])
  have o: "owned st' S {#}" using u(2) by simp
  show ?thesis using r(1) u(1) [unfolded e] o by (intro exI [of _ ?zn'] exI [of _ st'] conjI)
qed

end
