(* ===== verification/Zp_FilterLaws.thy ===== *)
theory Zp_FilterLaws imports Zp_Filter
begin

text \<open>
  What a filter promises: its list of targets is the set of the declarations that it has been told of and
  that reach its publications, it is off exactly while that set is not empty, and its listeners are
  told of every change of that, and of nothing else.
\<close>

section \<open>Targets\<close>

lemma filter_target_eq [simp]: "z_filter_target_eq t u \<longleftrightarrow> t = u"
  by (cases t; cases u) (simp add: z_filter_target_eq_def)

lemma drop_first_distinct: "distinct xs \<Longrightarrow> fst (z_list_drop_filter (z_filter_target_eq t) True xs) = filter (\<lambda>u. u \<noteq> t) xs"
proof (induction xs)
  case (Cons x xs)
  have "t \<notin> set xs \<Longrightarrow> filter (\<lambda>u. u \<noteq> t) xs = xs" by (rule filter_True) auto
  then show ?case using Cons by (cases "x = t") (auto split: prod.splits)
qed simp

definition reached :: "'c z_write_filter_ctx_t \<Rightarrow> (nat option \<times> u32) set" where
  "reached ctx = (\<lambda>t. (ft_peer t, ft_decl_id t)) ` set (fc_targets ctx)"

definition filter_ok :: "'c z_write_filter_ctx_t \<Rightarrow> bool" where
  "filter_ok ctx \<longleftrightarrow> distinct (fc_targets ctx) \<and> fc_local_targets ctx = 0 \<and>
     (fc_state ctx = (if fc_targets ctx = [] then WRITE_FILTER_ACTIVE else WRITE_FILTER_OFF))"

text \<open>Which declarations count, as far as that can be told.\<close>

definition declares :: "z_interest_msg_t \<Rightarrow> bool" where
  "declares msg \<longleftrightarrow> im_type msg \<in> {Z_INTEREST_MSG_TYPE_DECL_SUBSCRIBER, Z_INTEREST_MSG_TYPE_DECL_QUERYABLE}"

definition counts :: "'c z_write_filter_ctx_t \<Rightarrow> z_interest_msg_t \<Rightarrow> nat option \<Rightarrow> bool" where
  "counts ctx msg peer \<longleftrightarrow> z_write_filter_peer_allowed ctx peer \<and> target_complete ctx msg = Some True"

definition judged :: "'c z_write_filter_ctx_t \<Rightarrow> z_interest_msg_t \<times> nat option \<Rightarrow> bool" where
  "judged ctx m \<longleftrightarrow> (declares (fst m) \<and> z_write_filter_peer_allowed ctx (snd m) \<longrightarrow> target_complete ctx (fst m) \<noteq> None)"

definition reached_after :: "'c z_write_filter_ctx_t \<Rightarrow> z_interest_msg_t \<times> nat option \<Rightarrow> (nat option \<times> u32) set \<Rightarrow> (nat option \<times> u32) set" where
  "reached_after ctx m L = (case m of (msg, peer) \<Rightarrow>
     if declares msg then L - {(peer, im_id msg)} \<union> (if counts ctx msg peer then {(peer, im_id msg)} else {})
     else if im_type msg \<in> {Z_INTEREST_MSG_TYPE_UNDECL_SUBSCRIBER, Z_INTEREST_MSG_TYPE_UNDECL_QUERYABLE} then L - {(peer, im_id msg)}
     else if im_type msg = Z_INTEREST_MSG_TYPE_CONNECTION_DROPPED then {t \<in> L. fst t \<noteq> peer} else L)"

text \<open>What does not change.\<close>

definition same_filter :: "'c z_write_filter_ctx_t \<Rightarrow> 'c z_write_filter_ctx_t \<Rightarrow> bool" where
  "same_filter ctx ctx' \<longleftrightarrow> ctx' = ctx\<lparr>fc_targets := fc_targets ctx', fc_state := fc_state ctx'\<rparr>"

lemma same_filter_simps:
  assumes "same_filter ctx ctx'"
  shows "target_complete ctx' = target_complete ctx" "z_write_filter_peer_allowed ctx' = z_write_filter_peer_allowed ctx"
    "listeners ctx' = listeners ctx" "fc_local_targets ctx' = fc_local_targets ctx"
proof -
  obtain ts st where "ctx' = ctx\<lparr>fc_targets := ts, fc_state := st\<rparr>" using assms by (auto simp: same_filter_def)
  then show "target_complete ctx' = target_complete ctx" "z_write_filter_peer_allowed ctx' = z_write_filter_peer_allowed ctx"
    "listeners ctx' = listeners ctx" "fc_local_targets ctx' = fc_local_targets ctx"
    by (simp_all add: target_complete_def z_write_filter_peer_allowed_def listeners_def fun_eq_iff split: option.split)
qed

lemma same_filter_trans: "same_filter a b \<Longrightarrow> same_filter b c \<Longrightarrow> same_filter a c"
  by (cases a; cases b; cases c) (simp add: same_filter_def)

lemma reached_empty: "reached ctx = {} \<longleftrightarrow> fc_targets ctx = []"
  by (simp add: reached_def)

definition news :: "'c z_write_filter_ctx_t \<Rightarrow> (nat option \<times> u32) set \<Rightarrow> (nat option \<times> u32) set \<Rightarrow> 'c filter_call list" where
  "news ctx L L' = (if (L = {}) = (L' = {}) then [] else map (\<lambda>c. Matching_Status (ms_call c) (L' \<noteq> {})) (listeners ctx))"

lemma update_state_ok:
  assumes "filter_ok ctx" "distinct ts"
  shows "\<exists>ctx'. z_write_filter_ctx_update_state (ctx\<lparr>fc_targets := ts\<rparr>) = (ctx', news ctx (reached ctx) (reached ctx')) \<and>
    filter_ok ctx' \<and> fc_targets ctx' = ts \<and> same_filter ctx ctx'"
proof -
  let ?s = "if ts = [] then WRITE_FILTER_ACTIVE else WRITE_FILTER_OFF"
  let ?c = "ctx\<lparr>fc_targets := ts, fc_state := ?s\<rparr>"
  have s: "same_filter ctx ?c" by (simp add: same_filter_def)
  have "z_write_filter_ctx_update_state (ctx\<lparr>fc_targets := ts\<rparr>) = (?c, news ctx (reached ctx) (reached ?c))"
    using assms(1) same_filter_simps(3) [OF s]
    by (simp add: z_write_filter_ctx_update_state_def Let_def filter_ok_def news_def reached_empty)
  then show ?thesis using assms s by (intro exI [of _ ?c]) (simp add: filter_ok_def)
qed

section \<open>Messages\<close>

lemma reached_targets:
  "(\<lambda>t. (ft_peer t, ft_decl_id t)) ` set (filter (\<lambda>u. u \<noteq> \<lparr>ft_peer = p, ft_decl_id = i\<rparr>) ts) =
   (\<lambda>t. (ft_peer t, ft_decl_id t)) ` set ts - {(p, i)}"
  by (auto simp: image_iff)

definition undeclares :: "z_interest_msg_t \<Rightarrow> bool" where
  "undeclares msg \<longleftrightarrow> im_type msg \<in> {Z_INTEREST_MSG_TYPE_UNDECL_SUBSCRIBER, Z_INTEREST_MSG_TYPE_UNDECL_QUERYABLE}"

lemma callback_split:
  "z_write_filter_callback msg peer ctx = map_option z_write_filter_ctx_update_state
    (if declares msg then filter_declare msg peer ctx
     else if undeclares msg then Some (drop_target \<lparr>ft_peer = peer, ft_decl_id = im_id msg\<rparr> ctx)
     else if im_type msg = Z_INTEREST_MSG_TYPE_CONNECTION_DROPPED
     then Some (ctx\<lparr>fc_targets := filter (\<lambda>u. ft_peer u \<noteq> peer) (fc_targets ctx)\<rparr>) else Some ctx)"
  by (cases "im_type msg") (simp_all add: z_write_filter_callback_def declares_def undeclares_def z_filter_target_peer_eq_def eq_commute)

lemma with_targets:
  "target_complete (ctx\<lparr>fc_targets := ts\<rparr>) = target_complete ctx"
  "z_write_filter_peer_allowed (ctx\<lparr>fc_targets := ts\<rparr>) = z_write_filter_peer_allowed ctx"
  by (simp_all add: target_complete_def z_write_filter_peer_allowed_def fun_eq_iff split: option.split)

lemma drop_target_ok:
  "distinct (fc_targets ctx) \<Longrightarrow> drop_target t ctx = ctx\<lparr>fc_targets := filter (\<lambda>u. u \<noteq> t) (fc_targets ctx)\<rparr>"
  by (simp add: drop_target_def drop_first_distinct)

lemma filter_declare_ok:
  assumes "distinct (fc_targets ctx)" "judged ctx (msg, peer)" "declares msg" "t = \<lparr>ft_peer = peer, ft_decl_id = im_id msg\<rparr>"
  shows "filter_declare msg peer ctx =
    Some (ctx\<lparr>fc_targets := (if counts ctx msg peer then [t] else []) @ filter (\<lambda>u. u \<noteq> t) (fc_targets ctx)\<rparr>)"
proof (cases "z_write_filter_peer_allowed ctx peer")
  case True
  then obtain b where b: "target_complete ctx msg = Some b" using assms(2,3) by (auto simp: judged_def)
  show ?thesis
    using True b by (cases b) (simp_all add: filter_declare_def Let_def drop_target_ok [OF assms(1)] with_targets counts_def assms(4)
        z_write_filter_push_target_def z_list_push_def)
next
  case False
  then show ?thesis by (simp add: filter_declare_def Let_def drop_target_ok [OF assms(1)] with_targets counts_def assms(4))
qed

text \<open>The targets that a message leaves.\<close>

definition targets_after :: "'c z_write_filter_ctx_t \<Rightarrow> z_interest_msg_t \<Rightarrow> nat option \<Rightarrow> z_filter_target_t list" where
  "targets_after ctx msg peer =
    (let t = \<lparr>ft_peer = peer, ft_decl_id = im_id msg\<rparr>; others = filter (\<lambda>u. u \<noteq> t) (fc_targets ctx) in
     if declares msg then (if counts ctx msg peer then [t] else []) @ others
     else if undeclares msg then others
     else if im_type msg = Z_INTEREST_MSG_TYPE_CONNECTION_DROPPED then filter (\<lambda>u. ft_peer u \<noteq> peer) (fc_targets ctx)
     else fc_targets ctx)"

lemma targets_after_ok:
  assumes "distinct (fc_targets ctx)" "judged ctx (msg, peer)"
  shows "z_write_filter_callback msg peer ctx = Some (z_write_filter_ctx_update_state (ctx\<lparr>fc_targets := targets_after ctx msg peer\<rparr>))"
proof (cases "declares msg")
  case True
  then show ?thesis using filter_declare_ok [OF assms True refl] by (simp add: callback_split targets_after_def Let_def)
next
  case False
  then show ?thesis by (simp add: callback_split targets_after_def Let_def drop_target_ok [OF assms(1)])
qed

lemma targets_after_distinct: "distinct (fc_targets ctx) \<Longrightarrow> distinct (targets_after ctx msg peer)"
  by (simp add: targets_after_def Let_def)

lemma targets_after_reached:
  "(\<lambda>t. (ft_peer t, ft_decl_id t)) ` set (targets_after ctx msg peer) = reached_after ctx (msg, peer) (reached ctx)"
proof -
  let ?f = "\<lambda>t. (ft_peer t, ft_decl_id t)"
  have e: "?f ` {u \<in> set ts. ft_peer u \<noteq> peer} = {t \<in> ?f ` set ts. fst t \<noteq> peer}" for ts by auto
  show ?thesis
    by (simp only: targets_after_def reached_after_def undeclares_def reached_def Let_def prod.case set_append image_Un reached_targets if_distrib
        [of set] if_distrib [of "(`) ?f"] split: if_split) (simp add: e)
qed

lemma filter_step_ok:
  assumes "filter_ok ctx" "judged ctx (msg, peer)"
  shows "\<exists>ctx'. z_write_filter_callback msg peer ctx = Some (ctx', news ctx (reached ctx) (reached ctx')) \<and>
    filter_ok ctx' \<and> reached ctx' = reached_after ctx (msg, peer) (reached ctx) \<and> same_filter ctx ctx'"
proof -
  have d: "distinct (fc_targets ctx)" using assms(1) by (simp add: filter_ok_def)
  obtain ctx' where "z_write_filter_ctx_update_state (ctx\<lparr>fc_targets := targets_after ctx msg peer\<rparr>) =
      (ctx', news ctx (reached ctx) (reached ctx'))" "filter_ok ctx'" "fc_targets ctx' = targets_after ctx msg peer" "same_filter ctx ctx'"
    using update_state_ok [OF assms(1) targets_after_distinct [OF d]] by blast
  moreover from this(3) have "reached ctx' = reached_after ctx (msg, peer) (reached ctx)"
    by (simp only: reached_def [of ctx'] targets_after_reached)
  ultimately show ?thesis using targets_after_ok [OF d assms(2)] by (intro exI [of _ ctx']) simp
qed

text \<open>Messages one after another.\<close>

primrec filter_run :: "(z_interest_msg_t \<times> nat option) list \<Rightarrow> 'c z_write_filter_ctx_t \<Rightarrow> 'c filter_step option" where
  "filter_run [] ctx = Some (ctx, [])"
| "filter_run (m # ms) ctx = (case z_write_filter_callback (fst m) (snd m) ctx of None \<Rightarrow> None
     | Some (ctx', calls) \<Rightarrow> map_option (apsnd (append calls)) (filter_run ms ctx'))"

primrec all_news :: "'c z_write_filter_ctx_t \<Rightarrow> (z_interest_msg_t \<times> nat option) list \<Rightarrow> (nat option \<times> u32) set \<Rightarrow> 'c filter_call list" where
  "all_news ctx [] L = []"
| "all_news ctx (m # ms) L = news ctx L (reached_after ctx m L) @ all_news ctx ms (reached_after ctx m L)"

lemma same_filter_spec:
  assumes "same_filter ctx ctx'"
  shows "reached_after ctx' = reached_after ctx" "judged ctx' = judged ctx" "news ctx' = news ctx" "all_news ctx' = all_news ctx"
proof -
  have "counts ctx' = counts ctx" by (simp add: counts_def same_filter_simps [OF assms] fun_eq_iff)
  then show r: "reached_after ctx' = reached_after ctx" "judged ctx' = judged ctx" "news ctx' = news ctx"
    by (simp_all add: reached_after_def judged_def news_def same_filter_simps [OF assms] fun_eq_iff)
  have "all_news ctx' ms L = all_news ctx ms L" for ms L by (induction ms arbitrary: L) (simp_all add: r)
  then show "all_news ctx' = all_news ctx" by (simp add: fun_eq_iff)
qed

lemma filter_run_ok:
  assumes "filter_ok ctx" "\<forall>m \<in> set ms. judged ctx m"
  shows "\<exists>ctx'. filter_run ms ctx = Some (ctx', all_news ctx ms (reached ctx)) \<and> filter_ok ctx' \<and> same_filter ctx ctx' \<and>
    reached ctx' = fold (reached_after ctx) ms (reached ctx)"
  using assms
proof (induction ms arbitrary: ctx)
  case Nil
  then show ?case by (simp add: same_filter_def)
next
  case (Cons m ms)
  obtain msg peer where m: "m = (msg, peer)" by (cases m)
  obtain ctx1 where 1: "z_write_filter_callback msg peer ctx = Some (ctx1, news ctx (reached ctx) (reached ctx1))"
    "filter_ok ctx1" "reached ctx1 = reached_after ctx m (reached ctx)" "same_filter ctx ctx1"
    using filter_step_ok [OF Cons.prems(1)] Cons.prems(2) unfolding m by fastforce
  note s = same_filter_spec [OF 1(4)]
  obtain ctx2 where "filter_run ms ctx1 = Some (ctx2, all_news ctx ms (reached ctx1))" "filter_ok ctx2" "same_filter ctx1 ctx2"
    "reached ctx2 = fold (reached_after ctx) ms (reached ctx1)"
    using Cons.IH [OF 1(2)] Cons.prems(2) by (auto simp: s)
  then show ?case using 1 same_filter_trans [OF 1(4)] m by auto
qed

lemma filter_state: "filter_ok ctx \<Longrightarrow> z_write_filter_ctx_active ctx \<longleftrightarrow> reached ctx = {}"
  by (simp add: filter_ok_def z_write_filter_ctx_active_def reached_empty)

lemma new_filter_ok:
  "filter_ok (write_filter_ctx flags complete locality ke self)" "reached (write_filter_ctx flags complete locality ke self) = {}"
  by (simp_all add: filter_ok_def reached_def write_filter_ctx_def)

text \<open>A filter that does not ask for complete ones judges every declaration.\<close>

lemma judged_any: "\<not> fc_is_complete ctx \<Longrightarrow> judged ctx m"
  by (simp add: judged_def target_complete_def)

end
