(* ===== verification/Zp_PrimHear.thy ===== *)
theory Zp_PrimHear imports Zp_PrimLive Zp_FilterLaws
begin

text \<open>
  Declaring and undeclaring a subscriber together: it hears in between, and nothing of it is left afterwards.
\<close>

lemma with_resources_res: "with_resources n rs c w (zn\<lparr>zn_entity_id := e, zn_subs := st\<rparr>) =
    zn\<lparr>zn_entity_id := e, zn_subs := st, zn_resource_id := n, zn_local_resources := rs, zn_declaration_cache := c, zn_world := w\<rparr>"
  by (simp add: with_resources_def)

lemma sub_list_subscriber: "sub_list Z_SUBSCRIBER_KIND_SUBSCRIBER zn = zn_subscriptions zn"
  "set_sub_list Z_SUBSCRIBER_KIND_SUBSCRIBER xs zn = zn\<lparr>zn_subscriptions := xs\<rparr>"
  by (simp_all add: sub_list_def set_sub_list_def)

text \<open>What is there after a declaration.\<close>

lemma subscriber_declared:
  assumes "\<not> zn_locked zn" "\<not> zn_is_closed zn" "taken sr snd_msg" "key_fits key (zn_self zn)"
    and "subs_ok zn Z_SUBSCRIBER_KIND_SUBSCRIBER S as"
    and "m = sub_told sr key (zn_self zn) (zn_entity_id zn)" "remote = z_locality_allows_remote origin"
  shows "\<exists>a k c w zn'. a \<notin># S \<and> dke_inner k = dke_inner key \<and> key_fits k (zn_self zn) \<and>
    z_declare_subscriber sr key callback dropper origin zn = Ok \<lparr>sb_entity_id = zn_entity_id zn, sb_zn = Some (zn_self zn)\<rparr> zn' \<and>
    zn' = zn\<lparr>zn_entity_id := zn_entity_id zn + 1, zn_subs := zn_subs zn', zn_resource_id := zn_resource_id zn',
      zn_local_resources := zn_local_resources zn', zn_declaration_cache := (if remote then cached sr m c else c),
      zn_world := (if remote then snd_msg m w else w), zn_subscriptions := map Some (a # as)\<rparr> \<and>
    subs_ok zn' Z_SUBSCRIBER_KIND_SUBSCRIBER (add_mset a S) (a # as) \<and>
    sub_at zn' a = \<lparr>su_key = k, su_id = zn_entity_id zn, su_allowed_origin = origin, su_callback = callback, su_dropper = dropper\<rparr> \<and>
    (\<forall>b \<in># S. sub_at zn' b = sub_at zn b)"
proof -
  let ?i = "zn_entity_id zn"
  obtain a k n rs c w st where d: "a \<notin># S" "dke_inner k = dke_inner key" "key_fits k (zn_self zn)"
    "z_declare_subscriber sr key callback dropper origin zn = Ok \<lparr>sb_entity_id = ?i, sb_zn = Some (zn_self zn)\<rparr>
      (let m = sub_told sr key (zn_self zn) ?i; remote = z_locality_allows_remote origin in
       set_sub_list Z_SUBSCRIBER_KIND_SUBSCRIBER (map Some (a # as))
         (with_resources n rs (if remote then cached sr m c else c) (if remote then snd_msg m w else w)
           (zn\<lparr>zn_entity_id := ?i + 1, zn_subs := st\<rparr>)))"
    "owned st (add_mset a S) {#}" "st_val st = (st_val (zn_subs zn))(a \<mapsto> \<lparr>su_key = k, su_id = ?i,
      su_allowed_origin = origin, su_callback = callback, su_dropper = dropper\<rparr>)"
    using declare_subscriber_ok [OF assms(1-5), of callback dropper origin] by blast
  let ?zn' = "zn\<lparr>zn_entity_id := ?i + 1, zn_subs := st, zn_resource_id := n, zn_local_resources := rs,
    zn_declaration_cache := (if remote then cached sr m c else c), zn_world := (if remote then snd_msg m w else w),
    zn_subscriptions := map Some (a # as)\<rparr>"
  have e: "z_declare_subscriber sr key callback dropper origin zn = Ok \<lparr>sb_entity_id = ?i, sb_zn = Some (zn_self zn)\<rparr> ?zn'"
    unfolding d(4) Let_def assms(6,7) with_resources_res sub_list_subscriber ..
  have new: "a \<notin> set as" "count S a = 0" using assms(5) d(1) by (auto simp: subs_ok_def) (simp add: not_in_iff)
  have "subs_ok ?zn' Z_SUBSCRIBER_KIND_SUBSCRIBER (add_mset a S) (a # as)"
    using assms(5) d(5) new by (auto simp: subs_ok_def sub_list_subscriber rc_max_def)
  moreover have "sub_at ?zn' a = \<lparr>su_key = k, su_id = ?i, su_allowed_origin = origin, su_callback = callback, su_dropper = dropper\<rparr>"
    "\<forall>b \<in># S. sub_at ?zn' b = sub_at zn b"
    using d(1,6) by (auto simp: sub_at_def)
  ultimately show ?thesis using d(1-3) e
    by (intro exI [of _ a] exI [of _ k] exI [of _ c] exI [of _ w] exI [of _ ?zn'] conjI) simp_all
qed

lemma declared_hears:
  assumes "\<not> zn_locked zn" "\<not> zn_is_closed zn" "taken sr snd_msg" "key_fits key (zn_self zn)"
    and "subs_ok zn Z_SUBSCRIBER_KIND_SUBSCRIBER S as" "quiet (sr_env sr) app"
  shows "\<exists>zn' w. z_declare_subscriber sr key callback dropper origin zn =
      Ok \<lparr>sb_entity_id = zn_entity_id zn, sb_zn = Some (zn_self zn)\<rparr> zn' \<and>
    zn_world zn' = (if z_locality_allows_remote origin then snd_msg (sub_told sr key (zn_self zn) (zn_entity_id zn)) w else w) \<and>
    (\<forall>m peer ke. is_push m \<and> denotes zn' (Some peer) (pu_key (push_in m)) ke \<and> z_keyexpr_intersects (dke_inner key) ke \<noteq> None \<and>
      (\<forall>a \<in> set as. z_keyexpr_intersects (dke_inner (su_key (sub_at zn a))) ke \<noteq> None) \<longrightarrow>
      z_handle_network_message (sr_env sr) m (zn', Some peer) =
        (let smp = push_sample ke (push_in m) (nm_reliability m);
             new = z_locality_allows_remote origin \<and> z_keyexpr_intersects (dke_inner key) ke = Some True in
         Ok () (zn'\<lparr>zn_world := heard app zn as ke smp (if new then app callback smp (zn_world zn') else zn_world zn')\<rparr>, Some peer)))"
proof -
  let ?K = Z_SUBSCRIBER_KIND_SUBSCRIBER
  obtain a k c w zn' where d: "a \<notin># S" "dke_inner k = dke_inner key"
    "z_declare_subscriber sr key callback dropper origin zn = Ok \<lparr>sb_entity_id = zn_entity_id zn, sb_zn = Some (zn_self zn)\<rparr> zn'"
    and e: "zn' = zn\<lparr>zn_entity_id := zn_entity_id zn + 1, zn_subs := zn_subs zn', zn_resource_id := zn_resource_id zn',
      zn_local_resources := zn_local_resources zn',
      zn_declaration_cache := (if z_locality_allows_remote origin then cached sr (sub_told sr key (zn_self zn) (zn_entity_id zn)) c else c),
      zn_world := (if z_locality_allows_remote origin then snd_msg (sub_told sr key (zn_self zn) (zn_entity_id zn)) w else w),
      zn_subscriptions := map Some (a # as)\<rparr>"
    and ok: "subs_ok zn' ?K (add_mset a S) (a # as)"
    and at: "sub_at zn' a = \<lparr>su_key = k, su_id = zn_entity_id zn, su_allowed_origin = origin, su_callback = callback, su_dropper = dropper\<rparr>"
      "\<forall>b \<in># S. sub_at zn' b = sub_at zn b"
    using subscriber_declared [OF assms(1-5) refl refl, of callback dropper origin] by blast
  have l: "\<not> zn_locked zn'" "\<not> zn_is_closed zn'" using assms(1,2) arg_cong [OF e, of zn_locked] arg_cong [OF e, of zn_is_closed] by simp_all
  have old: "sub_at zn' b = sub_at zn b" if "b \<in> set as" for b
    using at(2) that assms(5) by (auto simp: subs_ok_def)
  have h: "heard app zn' (a # as) ke smp v =
      heard app zn as ke smp (if z_locality_allows_remote origin \<and> z_keyexpr_intersects (dke_inner key) ke = Some True then app callback smp v else v)"
    for ke smp v
  proof -
    have "filter (\<lambda>b. hears True ke (sub_at zn' b)) as = filter (\<lambda>b. hears True ke (sub_at zn b)) as"
      using old by (intro filter_cong) simp_all
    moreover have "fold (\<lambda>b. app (su_callback (sub_at zn' b)) smp) (filter P as) v = fold (\<lambda>b. app (su_callback (sub_at zn b)) smp) (filter P as) v"
      for P v using old by (intro fold_cong) simp_all
    moreover have "hears True ke (sub_at zn' a) \<longleftrightarrow> z_locality_allows_remote origin \<and> z_keyexpr_intersects (dke_inner key) ke = Some True"
      by (simp add: at(1) hears_def d(2))
    ultimately show ?thesis by (simp add: heard_def at(1))
  qed
  have p: "\<forall>m peer ke. is_push m \<and> denotes zn' (Some peer) (pu_key (push_in m)) ke \<and> z_keyexpr_intersects (dke_inner key) ke \<noteq> None \<and>
      (\<forall>a \<in> set as. z_keyexpr_intersects (dke_inner (su_key (sub_at zn a))) ke \<noteq> None) \<longrightarrow>
      z_handle_network_message (sr_env sr) m (zn', Some peer) =
        (let smp = push_sample ke (push_in m) (nm_reliability m);
             new = z_locality_allows_remote origin \<and> z_keyexpr_intersects (dke_inner key) ke = Some True in
         Ok () (zn'\<lparr>zn_world := heard app zn as ke smp (if new then app callback smp (zn_world zn') else zn_world zn')\<rparr>, Some peer))"
    using old d(2) at(1) unfolding Let_def h [symmetric]
    by (intro allI impI push_heard [OF assms(6) l ok]) (auto simp: deliverable_def)
  show ?thesis by (rule exI [of _ zn'], rule exI [of _ w], intro conjI d(3) p, subst e, simp)
qed

lemma untold_takes_back: "takes_back mem (sub_untold zn k i) (sub_told sr key self i)"
  by (simp add: takes_back_def sub_untold_def sub_told_def declare_msg_def z_n_msg_make_declare_def z_make_undecl_subscriber_def
      z_make_decl_subscriber_def z_cache_declaration_undeclare_filter_def)

text \<open>
  Undeclared, it leaves the session as it was, but for what the declaration of the key left: numbers, resources and
  what was told.
\<close>

lemma subscriber_declared_undeclared:
  assumes "\<not> zn_locked zn" "\<not> zn_is_closed zn" "taken sr snd_msg" "tidy (sr_env sr) dr kc" "key_fits key (zn_self zn)"
    and "subs_ok zn Z_SUBSCRIBER_KIND_SUBSCRIBER S as" "z_locality_allows_remote origin"
  shows "\<exists>sub k c w zn1 zn2. z_declare_subscriber sr key callback dropper origin zn = Ok sub zn1 \<and>
    z_undeclare_subscriber sr sub zn1 = Ok () zn2 \<and> dke_inner k = dke_inner key \<and>
    zn_declaration_cache zn1 = cached sr (sub_told sr key (zn_self zn) (zn_entity_id zn)) c \<and>
    zn2 = zn\<lparr>zn_entity_id := zn_entity_id zn + 1, zn_resource_id := zn_resource_id zn1, zn_local_resources := zn_local_resources zn1,
      zn_subs := zn_subs zn2,
      zn_declaration_cache := drop_first (takes_back (sr_mem sr) (sub_untold zn k (zn_entity_id zn))) (zn_declaration_cache zn1),
      zn_world := cleared dr kc dropper k
        (snd_msg (sub_untold zn k (zn_entity_id zn)) (snd_msg (sub_told sr key (zn_self zn) (zn_entity_id zn)) w))\<rparr> \<and>
    subs_ok zn2 Z_SUBSCRIBER_KIND_SUBSCRIBER S as \<and> (\<forall>b \<in># S. sub_at zn2 b = sub_at zn b)"
proof -
  let ?K = Z_SUBSCRIBER_KIND_SUBSCRIBER and ?i = "zn_entity_id zn"
  let ?m = "sub_told sr key (zn_self zn) ?i"
  obtain a k c w zn1 where d: "a \<notin># S" "dke_inner k = dke_inner key" "key_fits k (zn_self zn)"
    "z_declare_subscriber sr key callback dropper origin zn = Ok \<lparr>sb_entity_id = ?i, sb_zn = Some (zn_self zn)\<rparr> zn1"
    and e: "zn1 = zn\<lparr>zn_entity_id := ?i + 1, zn_subs := zn_subs zn1, zn_resource_id := zn_resource_id zn1,
      zn_local_resources := zn_local_resources zn1, zn_declaration_cache := (if True then cached sr ?m c else c),
      zn_world := (if True then snd_msg ?m w else w), zn_subscriptions := map Some (a # as)\<rparr>"
    and ok: "subs_ok zn1 ?K (add_mset a S) (a # as)"
    and at: "sub_at zn1 a = \<lparr>su_key = k, su_id = ?i, su_allowed_origin = origin, su_callback = callback, su_dropper = dropper\<rparr>"
      "\<forall>b \<in># S. sub_at zn1 b = sub_at zn b"
    using subscriber_declared [OF assms(1-3,5,6) refl, of True origin callback dropper] assms(7) by blast
  note f = arg_cong [OF e, of zn_locked] arg_cong [OF e, of zn_is_closed] arg_cong [OF e, of zn_self] arg_cong [OF e, of zn_mode]
    arg_cong [OF e, of zn_declaration_cache] arg_cong [OF e, of zn_world]
  have l: "\<not> zn_locked zn1" "\<not> zn_is_closed zn1" "zn_self zn1 = zn_self zn" "zn_mode zn1 = zn_mode zn"
    "zn_declaration_cache zn1 = cached sr ?m c" "zn_world zn1 = snd_msg ?m w" using f assms(1,2) by simp_all
  let ?u = "sub_untold zn k ?i"
  have u: "?u = sub_untold zn1 k ?i" by (simp add: sub_untold_def l)
  have 1: "count (add_mset a S) a = 1" using d(1) by (simp add: not_in_iff)
  obtain st where r: "z_undeclare_subscriber sr \<lparr>sb_entity_id = ?i, sb_zn = Some (zn_self zn)\<rparr> zn1 = Ok ()
      (zn1\<lparr>zn_subscriptions := map Some ([] @ as), zn_subs := st,
      zn_declaration_cache := (if True then drop_first (takes_back (sr_mem sr) ?u) (zn_declaration_cache zn1) else zn_declaration_cache zn1),
      zn_world := cleared dr kc dropper k (if True then snd_msg ?u (zn_world zn1) else zn_world zn1)\<rparr>)"
    "owned st (add_mset a S - {#a#}) {#}" "st_val st = (st_val (zn_subs zn1))(a := None)"
    using undeclare_subscriber_ok [OF l(1,2) assms(3,4) ok, of "[]" a as "\<lparr>sb_entity_id = ?i, sb_zn = Some (zn_self zn)\<rparr>",
        OF _ 1 _ at(1) _ _ _ _ refl] d(3) assms(7) by (auto simp: l u)
  let ?zn2 = "zn1\<lparr>zn_subscriptions := map Some as, zn_subs := st,
      zn_declaration_cache := drop_first (takes_back (sr_mem sr) ?u) (zn_declaration_cache zn1),
      zn_world := cleared dr kc dropper k (snd_msg ?u (zn_world zn1))\<rparr>"
  have r': "z_undeclare_subscriber sr \<lparr>sb_entity_id = ?i, sb_zn = Some (zn_self zn)\<rparr> zn1 = Ok () ?zn2" using r(1) by simp
  have s: "zn_subscriptions zn = map Some as" "distinct as" "set as \<subseteq> set_mset S" "\<And>b. b \<in> set as \<Longrightarrow> count S b < rc_max"
    using assms(6) by (auto simp: subs_ok_def sub_list_subscriber)
  have z: "?zn2 = zn\<lparr>zn_entity_id := ?i + 1, zn_resource_id := zn_resource_id zn1, zn_local_resources := zn_local_resources zn1,
      zn_subs := zn_subs ?zn2, zn_declaration_cache := drop_first (takes_back (sr_mem sr) ?u) (zn_declaration_cache zn1),
      zn_world := cleared dr kc dropper k (snd_msg ?u (snd_msg ?m w))\<rparr>"
    by (subst e) (simp add: l s(1) [symmetric])
  have k2: "subs_ok ?zn2 ?K S as" using r(2) s by (auto simp: subs_ok_def sub_list_subscriber)
  have "\<forall>b \<in># S. sub_at ?zn2 b = sub_at zn b" using at(2) d(1) r(3) by (auto simp: sub_at_def)
  then show ?thesis using d(2,4) r' z k2 l(5)
    by (intro exI [of _ "\<lparr>sb_entity_id = ?i, sb_zn = Some (zn_self zn)\<rparr>"] exI [of _ k] exI [of _ c] exI [of _ w] exI [of _ zn1] exI [of _ ?zn2] conjI)
qed

end
