(* ===== verification/Zp_CloseLaws.thy ===== *)
theory Zp_CloseLaws imports Zp_SessionLaws
begin

text \<open>
  The beginning and the end of a session. A new one is well formed and empty; closing it lets everything go that
  was registered, each once, and nothing can be registered after that.
\<close>

section \<open>Letting a whole list go\<close>

context rc_list begin

lemma drop_all_last:
  assumes "owned (get zn) S {#}" "distinct as" "\<And>a. a \<in> set as \<Longrightarrow> count S a = 1" "clears clear gone"
  shows "\<exists>st. each (rc_let_go get put clear) (map Some as) zn =
      Ok () (put st (zn\<lparr>zn_world := fold (\<lambda>a. gone (at zn a)) as (zn_world zn)\<rparr>)) \<and> owned st (S - mset as) {#} \<and>
    (\<forall>b. b \<notin> set as \<longrightarrow> st_val st b = st_val (get zn) b)"
  using assms(1-3)
proof (induction as arbitrary: zn S)
  case Nil
  then show ?case by (intro exI [of _ "get zn"]) (simp add: ret_def put_get list_simps)
next
  case (Cons a as)
  let ?zn = "zn\<lparr>zn_world := gone (at zn a) (zn_world zn)\<rparr>"
  have "clear (at zn a) (put st zn) = Ok () (put st ?zn)" for st using assms(4) by (simp add: clears_def list_simps)
  then obtain st1 where 1: "rc_let_go get put clear (Some a) zn = Ok () (put st1 ?zn)" "owned st1 (S - {#a#}) {#}"
    "st_val st1 = (st_val (get zn))(a := None)"
    using drop_last [OF Cons.prems(1), of a clear ?zn] Cons.prems(3) by force
  let ?zn1 = "put st1 ?zn"
  have at: "at ?zn1 b = at zn b" if "b \<in> set as" for b using 1(3) Cons.prems(2) that by (auto simp: at_def list_simps)
  have c: "count (S - {#a#}) b = 1" if "b \<in> set as" for b using Cons.prems(2) Cons.prems(3) [of b] that by auto
  have w: "fold (\<lambda>b. gone (at ?zn1 b)) as (zn_world ?zn1) = fold (\<lambda>b. gone (at zn b)) (a # as) (zn_world zn)"
    using at by (simp add: list_simps cong: fold_cong)
  have "\<exists>st. each (rc_let_go get put clear) (map Some as) ?zn1 =
      Ok () (put st (?zn1\<lparr>zn_world := fold (\<lambda>b. gone (at ?zn1 b)) as (zn_world ?zn1)\<rparr>)) \<and> owned st (S - {#a#} - mset as) {#} \<and>
    (\<forall>b. b \<notin> set as \<longrightarrow> st_val st b = st_val (get ?zn1) b)"
    using Cons.prems(2) 1(2) c by (intro Cons.IH) (simp_all add: list_simps)
  then obtain st where st: "each (rc_let_go get put clear) (map Some as) ?zn1 =
      Ok () (put st (?zn1\<lparr>zn_world := fold (\<lambda>b. gone (at zn b)) (a # as) (zn_world zn)\<rparr>))" "owned st (S - mset (a # as)) {#}"
    "\<forall>b. b \<notin> set as \<longrightarrow> st_val st b = st_val st1 b"
    unfolding w by (auto simp: list_simps)
  then show ?case using 1(1,3) by (intro exI [of _ st]) (simp add: then_do_def bind_ok_def list_simps)
qed

end

section \<open>Beginning\<close>

text \<open>What a session keeps, with the references of its lists.\<close>

definition session_lists :: "('c, 'w) z_session_t \<Rightarrow> nat list \<Rightarrow> nat list \<Rightarrow> nat list \<Rightarrow> nat list \<Rightarrow> bool" where
  "session_lists zn ss ls qs is \<longleftrightarrow> owned (zn_subs zn) (mset ss + mset ls) {#} \<and> distinct (ss @ ls) \<and>
     zn_subscriptions zn = map Some ss \<and> zn_liveliness_subscriptions zn = map Some ls \<and>
     owned (zn_qles zn) (mset qs) {#} \<and> distinct qs \<and> zn_local_queryable zn = map Some qs \<and>
     owned (zn_intrs zn) (mset is) {#} \<and> distinct is \<and> zn_local_interests zn = map Some is"

definition session_empty :: "('c, 'w) z_session_t \<Rightarrow> bool" where
  "session_empty zn \<longleftrightarrow> session_lists zn [] [] [] [] \<and> zn_local_resources zn = [] \<and> zn_pending_queries zn = [] \<and>
     zn_declaration_cache zn = [] \<and> zn_remote_declares zn = []"

lemma session_init_ok:
  assumes "zn_subs zn = rc_store_empty" "zn_qles zn = rc_store_empty" "zn_intrs zn = rc_store_empty" "zn_queries zn = rc_store_empty"
  shows "\<exists>zn'. z_session_init zid zn = Ok () zn' \<and> session_empty zn' \<and> \<not> zn_locked zn' \<and> \<not> zn_is_closed zn' \<and>
    zn_local_zid zn' = zid \<and> zn_resource_id zn' = 1 \<and> res_wf zn' \<and> zn_world zn' = zn_world zn \<and>
    (\<forall>k. subs_ok zn' k {#} []) \<and> qles.ok zn' {#} [] \<and> intrs.ok zn' {#} [] \<and> owned (zn_queries zn') {#} {#} \<and>
    hashmap_wf (\<lambda>k. k) 16 (zn_remote_tokens zn') \<and> z_hashmap_get (zn_remote_tokens zn') = Map.empty"
  using assms im.wf_empty
  by (simp add: empty_owned fun_eq_iff im.lookup_empty z_session_init_def z_liveliness_init_def z_interest_init_def then_do_def bind_ok_def zmod_def lock_ok
      z_session_mutex_unlock_def session_empty_def session_lists_def res_wf_def subs_ok_def sub_list_def qles.ok_def intrs.ok_def
      Z_DEFAULT_INT_MAP_CAPACITY_def)

section \<open>End\<close>

lemma each_drop:
  assumes "\<And>x zn. f x zn = Ok () (zn\<lparr>zn_world := g x (zn_world zn)\<rparr>)"
  shows "each f xs zn = Ok () (zn\<lparr>zn_world := fold g xs (zn_world zn)\<rparr>)"
  by (induction xs arbitrary: zn) (simp_all add: ret_def then_do_def bind_ok_def assms)

lemma flush_subscriptions_ok:
  assumes "\<not> zn_locked zn" "session_lists zn ss ls qs is" "tidy env dr kc"
  shows "\<exists>st. z_flush_subscriptions env zn = Ok () (zn\<lparr>zn_subscriptions := [], zn_liveliness_subscriptions := [], zn_subs := st,
      zn_world := fold (\<lambda>a. cleared dr kc (su_dropper (sub_at zn a)) (su_key (sub_at zn a))) (ss @ ls) (zn_world zn)\<rparr>) \<and> owned st {#} {#}"
proof -
  let ?gone = "\<lambda>v. cleared dr kc (su_dropper v) (su_key v)"
  let ?zn = "zn\<lparr>zn_subscriptions := [], zn_liveliness_subscriptions := []\<rparr>"
  have l: "owned (zn_subs zn) (mset ss + mset ls) {#}" "distinct ss" "distinct ls" "set ss \<inter> set ls = {}"
    using assms(2) by (auto simp: session_lists_def)
  have at: "sub_at ?zn = sub_at zn" by (simp add: sub_at_def fun_eq_iff)
  have c: "count (mset ss + mset ls) a = 1" if "a \<in> set ss" for a
    using that l(2-4) distinct_count_atmost_1 [of ss] distinct_count_atmost_1 [of ls] by auto
  have c': "count (mset ls) a = 1" if "a \<in> set ls" for a using that l(3) by (simp add: distinct_count_atmost_1)
  obtain st where 1: "each (sub_rc_drop env) (map Some ss) ?zn =
      Ok () (?zn\<lparr>zn_world := fold (\<lambda>a. ?gone (sub_at zn a)) ss (zn_world zn), zn_subs := st\<rparr>)" "owned st (mset ls) {#}"
    "\<forall>b. b \<notin> set ss \<longrightarrow> st_val st b = st_val (zn_subs zn) b"
    using subs.drop_all_last [of ?zn "mset ss + mset ls" ss "z_subscription_clear env" ?gone] l c sub_clears [OF assms(3)]
    by (auto simp: at sub_rc_drop_eq)
  let ?zn1 = "?zn\<lparr>zn_world := fold (\<lambda>a. ?gone (sub_at zn a)) ss (zn_world zn), zn_subs := st\<rparr>"
  have at1: "sub_at ?zn1 a = sub_at zn a" if "a \<in> set ls" for a using 1(3) l(4) that by (auto simp: sub_at_def)
  then have w: "fold (\<lambda>a. ?gone (sub_at ?zn1 a)) ls v = fold (\<lambda>a. ?gone (sub_at zn a)) ls v" for v by (simp cong: fold_cong)
  obtain st' where 2: "each (sub_rc_drop env) (map Some ls) ?zn1 =
      Ok () (?zn1\<lparr>zn_world := fold (\<lambda>a. ?gone (sub_at zn a)) ls (zn_world ?zn1), zn_subs := st'\<rparr>)" "owned st' {#} {#}"
    using subs.drop_all_last [of ?zn1 "mset ls" ls "z_subscription_clear env" ?gone] 1(2) l(3) c' sub_clears [OF assms(3)]
    unfolding subs_at w by (auto simp: sub_rc_drop_eq)
  have z: "zn\<lparr>zn_subscriptions := [], zn_liveliness_subscriptions := [], zn_locked := False\<rparr> = ?zn" using assms(1) by simp
  show ?thesis using 1(1) 2 assms(1,2)
    by (intro exI [of _ st']) (simp add: z_flush_subscriptions_def then_do_def bind_ok_def lock_ok zget_def zmod_def
        z_session_mutex_unlock_def session_lists_def z)
qed

lemma flush_queryables_ok:
  assumes "\<not> zn_locked zn" "session_lists zn ss ls qs is" "tidy env dr kc"
  shows "\<exists>st. z_flush_session_queryable env zn = Ok () (zn\<lparr>zn_local_queryable := [], zn_qles := st,
      zn_world := fold (\<lambda>a. cleared dr kc (qy_dropper (qles.at zn a)) (qy_key (qles.at zn a))) qs (zn_world zn)\<rparr>) \<and> owned st {#} {#}"
proof -
  let ?gone = "\<lambda>v. cleared dr kc (qy_dropper v) (qy_key v)" and ?zn = "zn\<lparr>zn_local_queryable := []\<rparr>"
  have l: "owned (zn_qles zn) (mset qs) {#}" "distinct qs" "zn_local_queryable zn = map Some qs" using assms(2) by (auto simp: session_lists_def)
  have at: "qles.at ?zn = qles.at zn" by (simp add: qles.at_def fun_eq_iff)
  have c: "count (mset qs) a = 1" if "a \<in> set qs" for a using that l(2) by (simp add: distinct_count_atmost_1)
  obtain st where st: "each (qle_rc_drop env) (map Some qs) ?zn =
      Ok () (?zn\<lparr>zn_world := fold (\<lambda>a. ?gone (qles.at zn a)) qs (zn_world zn), zn_qles := st\<rparr>)" "owned st {#} {#}"
    using qles.drop_all_last [of ?zn "mset qs" qs "z_session_queryable_clear env" ?gone] l c queryable_clears [OF assms(3)]
    by (auto simp: at qle_rc_drop_eq)
  have z: "zn\<lparr>zn_local_queryable := [], zn_locked := False\<rparr> = ?zn" using assms(1) by simp
  show ?thesis using st assms(1) l(3)
    by (intro exI [of _ st]) (simp add: z_flush_session_queryable_def then_do_def bind_ok_def lock_ok zget_def zmod_def z_session_mutex_unlock_def z)
qed

lemma flush_interest_ok:
  assumes "\<not> zn_locked zn" "session_lists zn ss ls qs is" "tidy env dr kc"
  shows "\<exists>st. z_flush_interest env zn = Ok () (zn\<lparr>zn_local_interests := [], zn_remote_declares := [], zn_intrs := st,
      zn_world := fold (\<lambda>a. dropped dr (si_arg (intrs.at zn a))) is (zn_world zn)\<rparr>) \<and> owned st {#} {#}"
proof -
  let ?gone = "\<lambda>v. dropped dr (si_arg v)" and ?zn = "zn\<lparr>zn_locked := True\<rparr>"
  have l: "owned (zn_intrs zn) (mset is) {#}" "distinct is" "zn_local_interests zn = map Some is" using assms(2) by (auto simp: session_lists_def)
  have at: "intrs.at ?zn = intrs.at zn" by (simp add: intrs.at_def fun_eq_iff)
  have c: "count (mset is) a = 1" if "a \<in> set is" for a using that l(2) by (simp add: distinct_count_atmost_1)
  have "clears (z_session_interest_clear env) ?gone"
    by (simp add: clears_def z_session_interest_clear_def drop_opt_ok [OF assms(3)])
  then obtain st where st: "each (intr_rc_drop env) (map Some is) ?zn =
      Ok () (?zn\<lparr>zn_world := fold (\<lambda>a. ?gone (intrs.at zn a)) is (zn_world zn), zn_intrs := st\<rparr>)" "owned st {#} {#}"
    using intrs.drop_all_last [of ?zn "mset is" "is" "z_session_interest_clear env" ?gone] l c
    by (auto simp: at intr_rc_drop_eq)
  have z: "zn\<lparr>zn_locked := False, zn_local_interests := [], zn_remote_declares := [], zn_intrs := st, zn_world := w\<rparr> =
      zn\<lparr>zn_local_interests := [], zn_remote_declares := [], zn_intrs := st, zn_world := w\<rparr>" for w using assms(1) by simp
  show ?thesis using st assms(1) l(3)
    by (intro exI [of _ st]) (simp add: z_flush_interest_def then_do_def bind_ok_def lock_ok zget_def zmod_def z_session_mutex_unlock_def z [symmetric])
qed

lemma flush_pending_ok:
  assumes "\<not> zn_locked zn" "tidy env dr kc"
  shows "z_flush_pending_queries env zn = Ok () (zn\<lparr>zn_pending_queries := [],
      zn_world := fold (\<lambda>q. dropped dr (pq_dropper q)) (zn_pending_queries zn) (zn_world zn)\<rparr>)"
proof -
  have e: "each (z_pending_query_clear env) ps zn = Ok () (zn\<lparr>zn_world := fold (\<lambda>q. dropped dr (pq_dropper q)) ps (zn_world zn)\<rparr>)" for ps zn
    by (rule each_drop) (simp add: z_pending_query_clear_def drop_opt_ok [OF assms(2)])
  have "zn\<lparr>zn_pending_queries := [], zn_locked := False, zn_world := w\<rparr> = zn\<lparr>zn_pending_queries := [], zn_world := w\<rparr>" for w
    using assms(1) by simp
  then show ?thesis using assms(1)
    by (simp add: z_flush_pending_queries_def then_do_def bind_ok_def lock_ok zget_def zmod_def z_session_mutex_unlock_def e)
qed

lemma liveliness_clear_ok:
  assumes "\<not> zn_locked zn" "tidy env dr kc"
  shows "z_liveliness_clear env zn = Ok () (zn\<lparr>zn_liveliness_pending_queries := z_hashmap_clear (zn_liveliness_pending_queries zn),
      zn_world := fold (\<lambda>kv. kc (snd kv)) (hashmap_entries (zn_local_tokens zn))
        (fold (\<lambda>kv. dropped dr (lq_dropper (snd kv))) (hashmap_entries (zn_liveliness_pending_queries zn)) (zn_world zn))\<rparr>)"
proof -
  have e: "each (\<lambda>kv. z_liveliness_pending_query_clear env (snd kv)) ps zn =
      Ok () (zn\<lparr>zn_world := fold (\<lambda>kv. dropped dr (lq_dropper (snd kv))) ps (zn_world zn)\<rparr>)" for ps :: "(u64 \<times> _) list" and zn
    by (rule each_drop) (simp add: z_liveliness_pending_query_clear_def drop_opt_ok [OF assms(2)])
  have k: "each (\<lambda>kv. ignore (env_key_clear env (snd kv))) ps zn = Ok () (zn\<lparr>zn_world := fold (\<lambda>kv. kc (snd kv)) ps (zn_world zn)\<rparr>)"
    for ps :: "(u64 \<times> z_key_t) list" and zn
    by (rule each_drop) (simp add: ignore_def tidy_key [OF assms(2)])
  have z: "zn\<lparr>zn_locked := False, zn_world := w, zn_liveliness_pending_queries := m\<rparr> = zn\<lparr>zn_liveliness_pending_queries := m, zn_world := w\<rparr>" for w m
    using assms(1) by simp
  show ?thesis using assms(1)
    by (simp add: z_liveliness_clear_def then_do_def bind_ok_def lock_ok zget_def zmod_def z_session_mutex_unlock_def e k iterator_entries z [symmetric])
qed

lemma flush_local_ok: "\<not> zn_locked zn \<Longrightarrow> z_flush_local_resources zn = Ok () (zn\<lparr>zn_local_resources := []\<rparr>)"
proof -
  assume l: "\<not> zn_locked zn"
  have z: "zn\<lparr>zn_local_resources := [], zn_locked := False\<rparr> = zn\<lparr>zn_local_resources := []\<rparr>"
    "zn\<lparr>zn_locked := False, zn_local_resources := []\<rparr> = zn\<lparr>zn_local_resources := []\<rparr>" using l by simp_all
  show ?thesis using l by (simp add: z_flush_local_resources_def then_do_def bind_ok_def lock_ok zmod_def z_session_mutex_unlock_def z)
qed

text \<open>What is let go, in order: subscriptions, queryables, queries, liveliness queries and tokens, interests.\<close>

definition let_go ::
    "('c \<Rightarrow> 'w \<Rightarrow> 'w) \<Rightarrow> (z_key_t \<Rightarrow> 'w \<Rightarrow> 'w) \<Rightarrow> ('c, 'w) z_session_t \<Rightarrow> nat list \<Rightarrow> nat list \<Rightarrow> nat list \<Rightarrow> 'w \<Rightarrow> 'w" where
  "let_go dr kc zn ss qs is w =
     fold (\<lambda>a. dropped dr (si_arg (intrs.at zn a))) is
    (fold (\<lambda>kv. kc (snd kv)) (hashmap_entries (zn_local_tokens zn))
    (fold (\<lambda>kv. dropped dr (lq_dropper (snd kv))) (hashmap_entries (zn_liveliness_pending_queries zn))
    (fold (\<lambda>q. dropped dr (pq_dropper q)) (zn_pending_queries zn)
    (fold (\<lambda>a. cleared dr kc (qy_dropper (qles.at zn a)) (qy_key (qles.at zn a))) qs
    (fold (\<lambda>a. cleared dr kc (su_dropper (sub_at zn a)) (su_key (sub_at zn a))) ss w)))))"

lemma close_begins:
  fixes env :: "('c, 'w) z_env"
  assumes "\<not> zn_locked zn" "\<not> zn_is_closed zn"
  shows "z_session_close env zn = then_do (z_flush_subscriptions env) (then_do (z_flush_session_queryable env)
      (then_do (z_flush_pending_queries env) (then_do (z_liveliness_clear env) (z_flush_interest env))))
      (zn\<lparr>zn_is_closed := True, zn_declaration_cache := [], zn_local_resources := []\<rparr>)"
proof -
  have a: "then_do z_session_mutex_lock_if_open (then_do (zmod (\<lambda>zn. zn\<lparr>zn_is_closed := True, zn_declaration_cache := []\<rparr>))
      (then_do z_session_mutex_unlock R)) zn = R (zn\<lparr>zn_is_closed := True, zn_declaration_cache := []\<rparr>)" for R :: "(unit, 'c, 'w) zprog"
  proof -
    have "zn\<lparr>zn_is_closed := True, zn_declaration_cache := [], zn_locked := False\<rparr> = zn\<lparr>zn_is_closed := True, zn_declaration_cache := []\<rparr>"
      "zn\<lparr>zn_locked := False, zn_is_closed := True, zn_declaration_cache := []\<rparr> = zn\<lparr>zn_is_closed := True, zn_declaration_cache := []\<rparr>"
      using assms(1) by simp_all
    then show ?thesis by (simp add: then_do_def bind_ok_def lock_if_open_ok [OF assms(1,2)] zmod_def z_session_mutex_unlock_def)
  qed
  have "z_flush_local_resources (zn\<lparr>zn_is_closed := True, zn_declaration_cache := []\<rparr>) = Ok () (zn\<lparr>zn_is_closed := True, zn_declaration_cache := [], zn_local_resources := []\<rparr>)"
    using flush_local_ok [of "zn\<lparr>zn_is_closed := True, zn_declaration_cache := []\<rparr>"] assms(1) by simp
  then show ?thesis
    by (simp only: z_session_close_def a then_do_def [of z_flush_local_resources] bind_ok_def res.case)
qed

lemma session_close_ok:
  assumes "\<not> zn_locked zn" "\<not> zn_is_closed zn" "session_lists zn ss ls qs is" "tidy env dr kc"
  shows "\<exists>zn'. z_session_close env zn = Ok () zn' \<and> session_empty zn' \<and> zn_is_closed zn' \<and> \<not> zn_locked zn' \<and>
    zn_world zn' = let_go dr kc zn (ss @ ls) qs is (zn_world zn)"
proof -
  let ?zn1 = "zn\<lparr>zn_is_closed := True, zn_declaration_cache := [], zn_local_resources := []\<rparr>"
  note 1 = close_begins [OF assms(1,2)]
  have l1: "\<not> zn_locked ?zn1" "session_lists ?zn1 ss ls qs is" using assms(1,3) by (simp_all add: session_lists_def)
  obtain st where 2: "z_flush_subscriptions env ?zn1 = Ok () (?zn1\<lparr>zn_subscriptions := [], zn_liveliness_subscriptions := [], zn_subs := st,
      zn_world := fold (\<lambda>a. cleared dr kc (su_dropper (sub_at ?zn1 a)) (su_key (sub_at ?zn1 a))) (ss @ ls) (zn_world ?zn1)\<rparr>)" "owned st {#} {#}"
    using flush_subscriptions_ok [OF l1 assms(4)] by blast
  let ?w2 = "fold (\<lambda>a. cleared dr kc (su_dropper (sub_at zn a)) (su_key (sub_at zn a))) (ss @ ls) (zn_world zn)"
  let ?zn2 = "?zn1\<lparr>zn_subscriptions := [], zn_liveliness_subscriptions := [], zn_subs := st, zn_world := ?w2\<rparr>"
  have 2: "z_flush_subscriptions env ?zn1 = Ok () ?zn2" using 2(1) by (simp add: sub_at_def)
  have l2: "\<not> zn_locked ?zn2" "session_lists ?zn2 [] [] qs is" using l1 \<open>owned st {#} {#}\<close> by (simp_all add: session_lists_def)
  obtain st' where 3: "z_flush_session_queryable env ?zn2 = Ok () (?zn2\<lparr>zn_local_queryable := [], zn_qles := st',
      zn_world := fold (\<lambda>a. cleared dr kc (qy_dropper (qles.at ?zn2 a)) (qy_key (qles.at ?zn2 a))) qs (zn_world ?zn2)\<rparr>)" "owned st' {#} {#}"
    using flush_queryables_ok [OF l2 assms(4)] by blast
  let ?w3 = "fold (\<lambda>a. cleared dr kc (qy_dropper (qles.at zn a)) (qy_key (qles.at zn a))) qs ?w2"
  let ?zn3 = "?zn2\<lparr>zn_local_queryable := [], zn_qles := st', zn_world := ?w3\<rparr>"
  have 3: "z_flush_session_queryable env ?zn2 = Ok () ?zn3" using 3(1) by (simp add: qles.at_def)
  let ?w4 = "fold (\<lambda>q. dropped dr (pq_dropper q)) (zn_pending_queries zn) ?w3"
  let ?zn4 = "?zn3\<lparr>zn_pending_queries := [], zn_world := ?w4\<rparr>"
  have 4: "z_flush_pending_queries env ?zn3 = Ok () ?zn4" using flush_pending_ok [OF _ assms(4), of ?zn3] assms(1) by simp
  let ?w5 = "fold (\<lambda>kv. kc (snd kv)) (hashmap_entries (zn_local_tokens zn))
      (fold (\<lambda>kv. dropped dr (lq_dropper (snd kv))) (hashmap_entries (zn_liveliness_pending_queries zn)) ?w4)"
  let ?zn5 = "?zn4\<lparr>zn_liveliness_pending_queries := z_hashmap_clear (zn_liveliness_pending_queries zn), zn_world := ?w5\<rparr>"
  have 5: "z_liveliness_clear env ?zn4 = Ok () ?zn5" using liveliness_clear_ok [OF _ assms(4), of ?zn4] assms(1) by simp
  have l5: "\<not> zn_locked ?zn5" "session_lists ?zn5 [] [] [] is" using l2 \<open>owned st' {#} {#}\<close> by (simp_all add: session_lists_def)
  obtain st'' where 6: "z_flush_interest env ?zn5 = Ok () (?zn5\<lparr>zn_local_interests := [], zn_remote_declares := [], zn_intrs := st'',
      zn_world := fold (\<lambda>a. dropped dr (si_arg (intrs.at ?zn5 a))) is (zn_world ?zn5)\<rparr>)" "owned st'' {#} {#}"
    using flush_interest_ok [OF l5 assms(4)] by blast
  let ?zn6 = "?zn5\<lparr>zn_local_interests := [], zn_remote_declares := [], zn_intrs := st'',
      zn_world := fold (\<lambda>a. dropped dr (si_arg (intrs.at zn a))) is ?w5\<rparr>"
  have 6: "z_flush_interest env ?zn5 = Ok () ?zn6" using 6(1) by (simp add: intrs.at_def)
  have "z_session_close env zn = Ok () ?zn6" unfolding 1 by (simp only: then_do_def bind_ok_def 2 3 4 5 6 res.case)
  moreover have "session_empty ?zn6" using l5 \<open>owned st'' {#} {#}\<close> by (simp add: session_empty_def session_lists_def)
  ultimately show ?thesis using assms(1) by (intro exI [of _ ?zn6]) (simp add: let_go_def)
qed

end
