(* ===== verification/Zp_LiveLaws.thy ===== *)
theory Zp_LiveLaws imports Zp_SessionLaws
begin

text \<open>
  Liveliness: a token that is declared is kept under its number and told to the liveliness subscriptions that
  match it; declared again it is not told again; undeclared it is forgotten and told once more. The table is the map
  of \<open>Zp_Map\<close>, so that its contract carries the proofs.
\<close>

definition token_sample :: "z_string_t \<Rightarrow> z_sample_kind_t \<Rightarrow> z_timestamp_t \<Rightarrow> z_sample_t" where
  "token_sample ke kind ts = z_sample_steal_data ke [] ts z_encoding_null kind Z_N_QOS_DEFAULT [] Z_RELIABILITY_RELIABLE z_source_info_null"

definition told_token ::
    "('c \<Rightarrow> z_sample_t \<Rightarrow> 'w \<Rightarrow> 'w) \<Rightarrow> ('c, 'w) z_session_t \<Rightarrow> nat list \<Rightarrow> bool \<Rightarrow> z_string_t \<Rightarrow> z_sample_t \<Rightarrow> 'w \<Rightarrow> 'w" where
  "told_token app zn as remote ke smp =
     fold (\<lambda>a. app (su_callback (sub_at zn a)) smp) (filter (\<lambda>a. hears remote ke (sub_at zn a)) as)"

abbreviation tokens_wf :: "('c, 'w) z_session_t \<Rightarrow> bool" where
  "tokens_wf zn \<equiv> hashmap_wf (\<lambda>k. k) 16 (zn_remote_tokens zn)"

lemma wire_decls_tokens: "wire_decls (zn\<lparr>zn_remote_tokens := m\<rparr>) expr peer = wire_decls zn expr peer"
  by (cases peer) (simp_all add: wire_decls_def)

lemma token_declared:
  assumes "quiet env app" "\<not> zn_locked zn" "\<not> zn_is_closed zn" "denotes zn peer expr ke"
    and "subs_ok zn Z_SUBSCRIBER_KIND_LIVELINESS_SUBSCRIBER S as"
    and "\<And>a. a \<in> set as \<Longrightarrow> z_keyexpr_intersects (dke_inner (su_key (sub_at zn a))) ke \<noteq> None"
    and "tokens_wf zn" "z_hashmap_get (zn_remote_tokens zn) (ucast i) = None"
  shows "\<exists>m. z_liveliness_process_remote_token_declare env i expr ts peer zn =
      Ok () (zn\<lparr>zn_remote_tokens := m, zn_world := told_token app zn as (peer \<noteq> None) ke (token_sample ke Z_SAMPLE_KIND_PUT ts) (zn_world zn)\<rparr>) \<and>
    hashmap_wf (\<lambda>k. k) 16 m \<and> z_hashmap_get m = (z_hashmap_get (zn_remote_tokens zn))(ucast i \<mapsto> ke)"
proof -
  let ?m = "z_hashmap_insert (zn_remote_tokens zn) (ucast i) ke True" and ?zn = "zn\<lparr>zn_remote_tokens := z_hashmap_insert (zn_remote_tokens zn) (ucast i) ke True\<rparr>"
  have z: "zn\<lparr>zn_locked := False, zn_remote_tokens := ?m\<rparr> = ?zn" "zn\<lparr>zn_remote_tokens := ?m, zn_locked := False\<rparr> = ?zn" using assms(2) by simp_all
  have at: "sub_at ?zn = sub_at zn" by (simp add: sub_at_def fun_eq_iff)
  have d: "denotes ?zn peer expr ke" using assms(4) by (simp add: denotes_def wire_decls_tokens)
  have s: "subs_ok ?zn Z_SUBSCRIBER_KIND_LIVELINESS_SUBSCRIBER S as" using assms(5) by (simp add: subs_ok_def sub_list_def)
  have i: "\<And>a. a \<in> set as \<Longrightarrow> z_keyexpr_intersects (dke_inner (su_key (sub_at ?zn a))) ke \<noteq> None" using assms(6) unfolding at .
  have "z_trigger_liveliness_subscriptions_declare env expr ts peer ?zn =
      Ok () (?zn\<lparr>zn_world := told_token app zn as (peer \<noteq> None) ke (token_sample ke Z_SAMPLE_KIND_PUT ts) (zn_world zn)\<rparr>)"
    using deliver_ok [OF assms(1) _ _ d s i] assms(2,3)
    by (simp add: z_trigger_liveliness_subscriptions_declare_def told_token_def token_sample_def at)
  then have "z_liveliness_process_remote_token_declare env i expr ts peer zn =
      Ok () (?zn\<lparr>zn_world := told_token app zn as (peer \<noteq> None) ke (token_sample ke Z_SAMPLE_KIND_PUT ts) (zn_world zn)\<rparr>)"
    using assms(2,3,8) from_wireexpr_ok [OF assms(2,4)]
    by (simp add: z_liveliness_process_remote_token_declare_def bind_ok_def then_do_def lock_if_open_ok zget_def zmod_def set_remote_tokens_def
        z_session_mutex_unlock_def attempt_def ret_def z)
  then show ?thesis using im.wf_put [OF assms(7), of "ucast i" ke] im.refines_put [OF assms(7), of "ucast i" ke]
    by (intro exI [of _ ?m]) (simp add: hashmap_put_def)
qed

lemma token_known:
  assumes "\<not> zn_locked zn" "\<not> zn_is_closed zn" "denotes zn peer expr ke" "z_hashmap_get (zn_remote_tokens zn) (ucast i) = Some k"
  shows "z_liveliness_process_remote_token_declare env i expr ts peer zn =
    (if z_keyexpr_equals k ke then Ok () zn else Err Z_ERR_KEYEXPR_NOT_MATCH zn)"
proof -
  have "zn\<lparr>zn_locked := False\<rparr> = zn" using assms(1) by simp
  then show ?thesis using assms from_wireexpr_ok [OF assms(1,3)]
    by (simp add: z_liveliness_process_remote_token_declare_def bind_ok_def then_do_def lock_if_open_ok zget_def
        z_session_mutex_unlock_def return_code_def ret_def fail_def)
qed

lemma token_undeclared:
  assumes "quiet env app" "\<not> zn_locked zn" "\<not> zn_is_closed zn" "tokens_wf zn" "z_hashmap_get (zn_remote_tokens zn) (ucast i) = Some ke"
    and "z_string_check ke" "subs_ok zn Z_SUBSCRIBER_KIND_LIVELINESS_SUBSCRIBER S as"
    and "\<And>a. a \<in> set as \<Longrightarrow> z_keyexpr_intersects (dke_inner (su_key (sub_at zn a))) ke \<noteq> None"
  shows "\<exists>m. z_liveliness_process_remote_token_undeclare env i ts zn =
      Ok () (zn\<lparr>zn_remote_tokens := m, zn_world := told_token app zn as False ke (token_sample ke Z_SAMPLE_KIND_DELETE ts) (zn_world zn)\<rparr>) \<and>
    hashmap_wf (\<lambda>k. k) 16 m \<and> z_hashmap_get m = (z_hashmap_get (zn_remote_tokens zn))(ucast i := None)"
proof -
  let ?m = "z_hashmap_remove (zn_remote_tokens zn) (ucast i)" and ?zn = "zn\<lparr>zn_remote_tokens := z_hashmap_remove (zn_remote_tokens zn) (ucast i)\<rparr>"
  have z: "zn\<lparr>zn_locked := False, zn_remote_tokens := ?m\<rparr> = ?zn" "zn\<lparr>zn_remote_tokens := ?m, zn_locked := False\<rparr> = ?zn" using assms(2) by simp_all
  have at: "sub_at ?zn = sub_at zn" by (simp add: sub_at_def fun_eq_iff)
  have d: "denotes ?zn None (z_keyexpr_alias_to_wire ke) ke"
    using assms(6) by (simp add: denotes_def z_wireexpr_check_def z_keyexpr_alias_to_wire_def z_wireexpr_null_def
        z_get_keyexpr_from_wireexpr_inner_def Z_RESOURCE_ID_NONE_def)
  have s: "subs_ok ?zn Z_SUBSCRIBER_KIND_LIVELINESS_SUBSCRIBER S as" using assms(7) by (simp add: subs_ok_def sub_list_def)
  have i: "\<And>a. a \<in> set as \<Longrightarrow> z_keyexpr_intersects (dke_inner (su_key (sub_at ?zn a))) ke \<noteq> None" using assms(8) unfolding at .
  have "z_trigger_liveliness_subscriptions_undeclare env ke ts ?zn =
      Ok () (?zn\<lparr>zn_world := told_token app zn as False ke (token_sample ke Z_SAMPLE_KIND_DELETE ts) (zn_world zn)\<rparr>)"
    using deliver_ok [OF assms(1) _ _ d s i] assms(2,3)
    by (simp add: z_trigger_liveliness_subscriptions_undeclare_def told_token_def token_sample_def at)
  then have "z_liveliness_process_remote_token_undeclare env i ts zn =
      Ok () (?zn\<lparr>zn_world := told_token app zn as False ke (token_sample ke Z_SAMPLE_KIND_DELETE ts) (zn_world zn)\<rparr>)"
    using assms(2,3,5,6)
    by (simp add: z_liveliness_process_remote_token_undeclare_def bind_ok_def then_do_def lock_if_open_ok zget_def zmod_def set_remote_tokens_def
        z_session_mutex_unlock_def z)
  then show ?thesis using im.wf_delete [OF assms(4), of "ucast i"] im.refines_delete [OF assms(4), of "ucast i"]
    by (intro exI [of _ ?m]) simp
qed

end
