(* ===== verification/Zp_SessionProps.thy ===== *)
theory Zp_SessionProps imports Zp_CloseLaws Zp_LiveLaws Zp_ResLaws
begin

text \<open>
  The properties of a session, with witnesses on a session that has one subscription, one queryable, one
  interest and one query. The application of the witnesses notes the number of each callback it is called with.
\<close>

section \<open>A session of the witnesses\<close>

definition sample_zid :: z_id_t where
  "sample_zid = replicate 16 1"

definition sample_memory :: "(nat, nat list) z_session_t" where
  "sample_memory = \<lparr>zn_self = 1, zn_locked = False, zn_is_closed = False, zn_mode = 0, zn_tp_type = Z_TRANSPORT_UNICAST_TYPE,
     zn_local_zid = z_id_empty, zn_resource_id = 9, zn_entity_id = 9, zn_query_id = 9, zn_local_resources = [],
     zn_declaration_cache = [], zn_subscriptions = [], zn_liveliness_subscriptions = [], zn_subs = rc_store_empty,
     zn_local_tokens = z_int_void_map_make 4, zn_remote_tokens = z_int_void_map_make 4, zn_liveliness_query_id = 9,
     zn_liveliness_pending_queries = z_int_void_map_make 4, zn_local_queryable = [], zn_qles = rc_store_empty,
     zn_queries = rc_store_empty, zn_pending_queries = [], zn_local_interests = [], zn_intrs = rc_store_empty,
     zn_remote_declares = [], zn_world = []\<rparr>"

definition sample_note :: "nat \<Rightarrow> (unit, nat, nat list) zprog" where
  "sample_note n = zmod (\<lambda>zn. zn\<lparr>zn_world := zn_world zn @ [n]\<rparr>)"

definition sample_env :: "(nat, nat list) z_env" where
  "sample_env = \<lparr>env_sample = (\<lambda>c s. sample_note c), env_reply = (\<lambda>c r. sample_note c), env_query = (\<lambda>c q. sample_note c),
     env_interest = (\<lambda>c m p. sample_note c), env_drop = sample_note, env_send_n_msg = (\<lambda>m r c p. sample_note 100),
     env_key_clear = (\<lambda>k. sample_note 200), env_send_join = sample_note 300\<rparr>"

lemma sample_env_facts:
  "quiet sample_env (\<lambda>c s w. w @ [c])" "quiet_replies sample_env (\<lambda>c s w. w @ [c])" "quiet_queries sample_env (\<lambda>c s w. w @ [c])"
  "quiet_interests sample_env (\<lambda>c m p w. w @ [c])" "tidy sample_env (\<lambda>c w. w @ [c]) (\<lambda>k w. w @ [200])"
  "sending sample_env (\<lambda>m p w. w @ [100])"
  by (simp_all add: sample_env_def sample_note_def zmod_def quiet_def quiet_replies_def quiet_queries_def quiet_interests_def tidy_def sending_def)

definition sample_zn :: "(nat, nat list) z_session_t" where
  "sample_zn = (case z_session_init sample_zid sample_memory of Ok _ zn \<Rightarrow> zn | _ \<Rightarrow> sample_memory)"

text \<open>Values with one reference, the list's.\<close>

definition sample_store :: "'v \<Rightarrow> 'v rc_store" where
  "sample_store v = (case rc_new_from_val v rc_store_empty of Ok _ st \<Rightarrow> st | _ \<Rightarrow> rc_store_empty)"

lemma sample_store_ok: "owned (sample_store v) {#0#} {#}" "st_val (sample_store v) = [0 \<mapsto> v]"
proof -
  obtain a st where "rc_new_from_val v rc_store_empty = Ok (Some a) st" "owned st {#a#} {#}" "st_val st = (st_val rc_store_empty)(a \<mapsto> v)"
    using new_owned [OF empty_owned, of v] by blast
  moreover from this(1) have "a = 0"
    by (auto simp: rc_new_from_val_def bind_ok_def then_do_def ret_def rc_store_empty_def split: res.splits)
  ultimately show "owned (sample_store v) {#0#} {#}" "st_val (sample_store v) = [0 \<mapsto> v]"
    by (simp_all add: sample_store_def) (simp add: rc_store_empty_def)
qed

definition sample_k :: "byte list \<Rightarrow> z_key_t" where
  "sample_k s = \<lparr>dke_declaration = None, dke_inner = s\<rparr>"

text \<open>The expression \<^verbatim>\<open>a/**\<close> and the key \<^verbatim>\<open>a/b\<close>.\<close>

definition sample_expr :: "pchunk list" where
  "sample_expr = [Pat [Lit 0x61], DStar]"

definition sample_chunks :: "byte list list" where
  "sample_chunks = [[0x61], [0x62]]"

definition sample_wire :: z_wireexpr_t where
  "sample_wire = wire_of (join sample_chunks)"

lemma sample_expr_ok: "kexpr_ok sample_expr" "kkey_ok sample_chunks" "key_match sample_expr sample_chunks"
  by code_simp+

lemma sample_matches:
  "z_keyexpr_intersects (ke_string sample_expr) (join sample_chunks) = Some True"
  using matches_ok [OF sample_expr_ok(1,2)] sample_expr_ok(3) by simp

definition sample_sub :: "nat z_subscription_t" where
  "sample_sub = \<lparr>su_key = sample_k (ke_string sample_expr), su_id = 1, su_allowed_origin = Z_LOCALITY_ANY, su_callback = 10, su_dropper = Some 11\<rparr>"

definition sample_qle :: "nat z_session_queryable_t" where
  "sample_qle = \<lparr>qy_key = sample_k (ke_string sample_expr), qy_id = 2, qy_callback = 20, qy_dropper = Some 21, qy_complete = True,
     qy_allowed_origin = Z_LOCALITY_ANY\<rparr>"

definition sample_intr :: "nat z_session_interest_t" where
  "sample_intr = \<lparr>si_key = ke_string sample_expr, si_id = 3, si_callback = Some 30, si_arg = Some 31, si_flags = Z_INTEREST_FLAG_SUBSCRIBERS\<rparr>"

definition sample_reply :: z_reply_t where
  "sample_reply = z_reply_steal_data (join sample_chunks) z_entity_global_id_null [] z_timestamp_null z_encoding_null Z_SAMPLE_KIND_PUT [] z_source_info_null"

definition sample_pending :: "nat z_pending_query_t" where
  "sample_pending = \<lparr>pq_key = ke_string sample_expr, pq_querier_id = z_optional_id_make_none, pq_id = 4, pq_callback = 40, pq_dropper = Some 41,
     pq_allowed_destination = Z_LOCALITY_ANY, pq_start_time = 0, pq_timeout = 1000, pq_remaining_finals = 1,
     pq_pending_replies = [\<lparr>pr_reply = sample_reply, pr_tstamp = z_timestamp_null\<lparr>ts_time := 9\<rparr>\<rparr>], pq_target = 0,
     pq_consolidation = Z_CONSOLIDATION_MODE_MONOTONIC, pq_anyke = False\<rparr>"

definition sample_held :: "(nat, nat list) z_session_t" where
  "sample_held = sample_zn\<lparr>zn_subs := sample_store sample_sub, zn_subscriptions := [Some 0], zn_qles := sample_store sample_qle,
     zn_local_queryable := [Some 0], zn_intrs := sample_store sample_intr, zn_local_interests := [Some 0],
     zn_pending_queries := [sample_pending]\<rparr>"

lemma sample_zn_facts:
  "\<not> zn_locked sample_zn" "\<not> zn_is_closed sample_zn" "session_empty sample_zn" "res_wf sample_zn" "zn_resource_id sample_zn = 1"
  "tokens_wf sample_zn" "z_hashmap_get (zn_remote_tokens sample_zn) = Map.empty" "subs_ok sample_zn k {#} []"
  "owned (zn_queries sample_zn) {#} {#}" "zn_world sample_zn = []"
proof -
  have "zn_subs sample_memory = rc_store_empty" "zn_qles sample_memory = rc_store_empty" "zn_intrs sample_memory = rc_store_empty"
    "zn_queries sample_memory = rc_store_empty" "zn_world sample_memory = []" by (simp_all add: sample_memory_def)
  note session_init_ok [OF this(1-4), of sample_zid] this(5)
  then show "\<not> zn_locked sample_zn" "\<not> zn_is_closed sample_zn" "session_empty sample_zn" "res_wf sample_zn" "zn_resource_id sample_zn = 1"
    "tokens_wf sample_zn" "z_hashmap_get (zn_remote_tokens sample_zn) = Map.empty" "subs_ok sample_zn k {#} []"
    "owned (zn_queries sample_zn) {#} {#}" "zn_world sample_zn = []"
    by (auto simp: sample_zn_def)
qed


lemma sample_held_facts:
  "\<not> zn_locked sample_held" "\<not> zn_is_closed sample_held" "session_lists sample_held [0] [] [0] [0]" "zn_world sample_held = []"
  "subs_ok sample_held Z_SUBSCRIBER_KIND_SUBSCRIBER {#0#} [0]" "sub_at sample_held 0 = sample_sub" "qles.ok sample_held {#0#} [0]" "qles.at sample_held 0 = sample_qle"
  "intrs.ok sample_held {#0#} [0]" "intrs.at sample_held 0 = sample_intr" "query_at sample_held [] sample_pending []"
  "owned (zn_queries sample_held) {#} {#}" "zn_remote_declares sample_held = []"
  using sample_zn_facts
  by (simp_all add: sample_held_def session_empty_def session_lists_def sample_store_ok subs_ok_def sub_list_def rc_max_def sub_at_def
      qles.ok_def qles.at_def intrs.ok_def intrs.at_def query_at_def)

lemma sample_denotes: "denotes zn peer sample_wire (join sample_chunks)"
proof -
  have "z_wireexpr_check sample_wire" by code_simp
  then show ?thesis
    by (simp add: denotes_def sample_wire_def wire_of_def z_get_keyexpr_from_wireexpr_inner_def Z_RESOURCE_ID_NONE_def)
qed

section \<open>Subscriptions\<close>

text \<open>
  Registering a subscription puts it at the front of the list of its kind, and unregistering it takes it out
  again: the session is what it was but for the addresses that were used, every other subscription is as it was, and
  the dropper of the subscription and the clearing of its expression have run once.
\<close>

theorem subscription_roundtrip:
  assumes "\<not> zn_locked zn" "\<not> zn_is_closed zn" "subs_ok zn kind S as" "tidy env dr kc"
  shows "\<exists>a zn' zn''. z_register_subscription env kind s zn = Ok (Some a) zn' \<and>
    sub_list kind zn' = Some a # sub_list kind zn \<and> sub_at zn' a = s \<and>
    z_unregister_subscription env kind (Some a) zn' = Ok () zn'' \<and>
    zn'' = zn\<lparr>zn_subs := zn_subs zn'', zn_world := cleared dr kc (su_dropper s) (su_key s) (zn_world zn)\<rparr> \<and>
    subs_ok zn'' kind S as \<and> (\<forall>b \<in># S. sub_at zn'' b = sub_at zn b)"
  using assms by (rule subscription_register_unregister)

theorem subscription_roundtrip_witness:
  "\<exists>a zn' zn''. z_register_subscription sample_env Z_SUBSCRIBER_KIND_SUBSCRIBER sample_sub sample_held = Ok (Some a) zn' \<and>
    z_unregister_subscription sample_env Z_SUBSCRIBER_KIND_SUBSCRIBER (Some a) zn' = Ok () zn'' \<and>
    zn_world zn'' = [11, 200] \<and> zn_subscriptions zn'' = [Some 0] \<and> sub_at zn'' 0 = sample_sub"
proof -
  obtain a zn' zn'' where r: "z_register_subscription sample_env Z_SUBSCRIBER_KIND_SUBSCRIBER sample_sub sample_held = Ok (Some a) zn'"
    "z_unregister_subscription sample_env Z_SUBSCRIBER_KIND_SUBSCRIBER (Some a) zn' = Ok () zn''"
    and e: "zn'' = sample_held\<lparr>zn_subs := zn_subs zn'', zn_world := cleared (\<lambda>c w. w @ [c]) (\<lambda>k w. w @ [200]) (su_dropper sample_sub) (su_key sample_sub) (zn_world sample_held)\<rparr>"
    and s: "subs_ok zn'' Z_SUBSCRIBER_KIND_SUBSCRIBER {#0#} [0]" "\<forall>b \<in># {#0#}. sub_at zn'' b = sub_at sample_held b"
    using subscription_roundtrip [OF sample_held_facts(1,2,5) sample_env_facts(5), of sample_sub] by blast
  have "zn_world zn'' = [11, 200]"
    using arg_cong [OF e, of zn_world] by (simp add: cleared_def dropped_def sample_sub_def sample_held_facts(4))
  then show ?thesis using r s by (auto simp: sample_held_facts subs_ok_def sub_list_def)
qed

text \<open>C37
  On a session that was closed nothing is registered: the result is a null reference, the dropper runs at once, and no
  value that others hold is touched.
\<close>

theorem closed_session_refuses:
  assumes "\<not> zn_locked zn" "zn_is_closed zn" "owned (zn_subs zn) S {#}" "tidy env dr kc"
  shows "\<exists>st. z_register_subscription env kind s zn =
      Ok None (zn\<lparr>zn_subs := st, zn_world := cleared dr kc (su_dropper s) (su_key s) (zn_world zn)\<rparr>) \<and> owned st S {#} \<and>
    (\<forall>a \<in># S. st_val st a = st_val (zn_subs zn) a)"
  using assms by (rule subscription_register_closed)

theorem closed_session_refuses_witness:
  "\<exists>st. z_register_subscription sample_env Z_SUBSCRIBER_KIND_SUBSCRIBER sample_sub (sample_held\<lparr>zn_is_closed := True\<rparr>) =
      Ok None (sample_held\<lparr>zn_is_closed := True, zn_subs := st, zn_world := [11, 200]\<rparr>)"
  using closed_session_refuses [of "sample_held\<lparr>zn_is_closed := True\<rparr>" "{#0#}" sample_env "\<lambda>c w. w @ [c]" "\<lambda>k w. w @ [200]"
      Z_SUBSCRIBER_KIND_SUBSCRIBER sample_sub] sample_held_facts(1,4,5) sample_env_facts(5)
  by (auto simp: subs_ok_def cleared_def dropped_def sample_sub_def)

section \<open>Queries\<close>

text \<open>C4
  A query that arrives is answered: every queryable that allows remote queries and whose expression matches the key is
  called once, in the order of the list, and after the last of them the final reply is sent, once, also when nothing
  matches. No reference to the query is left.
\<close>

theorem query_is_answered:
  assumes "quiet_queries env app" "sending env snd_msg" "tidy env dr kc" "\<not> zn_locked zn" "\<not> zn_is_closed zn"
    and "denotes zn (Some peer) expr ke" "qles.ok zn S as" "owned (zn_queries zn) Q {#}"
    and "\<And>a. a \<in> set as \<Longrightarrow> z_keyexpr_intersects (dke_inner (qy_key (qles.at zn a))) ke \<noteq> None"
  shows "\<exists>st. z_trigger_queryables env msgq expr qid qos (Some peer) zn = Ok () (zn\<lparr>zn_queries := st, zn_world :=
      (let asked = filter (\<lambda>a. answers True ke (qles.at zn a)) as; q = received_query msgq ke qid qos False;
           w = fold (\<lambda>a. app (qy_callback (qles.at zn a)) q) asked (zn_world zn);
           w = snd_msg (z_n_msg_make_response_final (ucast qid)) None w
       in if asked = [] then w else kc (qu_key q) w)\<rparr>) \<and>
    owned st Q {#} \<and> (\<forall>b \<in># Q. st_val st b = st_val (zn_queries zn) b)"
  using assms by (rule query_answered)

theorem query_is_answered_witness:
  "\<forall>pc. \<exists>st. z_trigger_queryables sample_env z_msg_query_null sample_wire 5 0 (Some (1, pc)) sample_held =
    Ok () (sample_held\<lparr>zn_queries := st, zn_world := [20, 100, 200]\<rparr>)"
proof
  fix pc
  have i: "z_keyexpr_intersects (dke_inner (qy_key (qles.at sample_held 0))) (join sample_chunks) = Some True"
    using sample_matches by (simp add: sample_held_facts sample_qle_def sample_k_def)
  then have f: "filter (\<lambda>a. answers True (join sample_chunks) (qles.at sample_held a)) [0] = [0]"
    by (simp add: answers_def sample_held_facts) (simp add: sample_qle_def)
  have w: "qy_callback sample_qle = 20" by (simp add: sample_qle_def)
  show "\<exists>st. z_trigger_queryables sample_env z_msg_query_null sample_wire 5 0 (Some (1, pc)) sample_held =
    Ok () (sample_held\<lparr>zn_queries := st, zn_world := [20, 100, 200]\<rparr>)"
    using query_is_answered [OF sample_env_facts(3,6,5) sample_held_facts(1,2) sample_denotes sample_held_facts(7,12), of z_msg_query_null 5 0 "(1, pc)"] i
    unfolding f by (auto simp: Let_def w sample_held_facts)
qed

text \<open>C31
  The end of a query: while more than one final reply is expected, a final reply is only counted; the last one delivers
  what was kept, in the mode that keeps the latest replies, runs the dropper once and forgets the query, and no other query is touched.
\<close>

theorem query_ends:
  assumes "\<not> zn_locked zn" "\<not> zn_is_closed zn" "query_at zn as q bs" "quiet_replies env app" "tidy env dr kc"
    and "w = (if pq_consolidation q = Z_CONSOLIDATION_MODE_LATEST
      then fold (\<lambda>p. app (pq_callback q) (pr_reply p)) (pq_pending_replies q) (zn_world zn) else zn_world zn)"
  shows "z_trigger_query_reply_final env (pq_id q) zn =
    (if 1 < pq_remaining_finals q
     then Ok () (zn\<lparr>zn_pending_queries := as @ q\<lparr>pq_remaining_finals := pq_remaining_finals q - 1\<rparr> # bs\<rparr>)
     else Ok () (zn\<lparr>zn_pending_queries := as @ bs, zn_world := dropped dr (pq_dropper q) w\<rparr>))"
  using assms by (rule reply_final_ok)

theorem query_ends_witness:
  "z_trigger_query_reply_final sample_env 4 sample_held = Ok () (sample_held\<lparr>zn_pending_queries := [], zn_world := [41]\<rparr>)"
  using query_ends [OF sample_held_facts(1,2,11) sample_env_facts(2,5) refl]
  by (simp add: sample_pending_def Z_CONSOLIDATION_MODE_LATEST_def Z_CONSOLIDATION_MODE_MONOTONIC_def dropped_def sample_held_facts(4))



text \<open>C20
  In every mode but the one that keeps the latest replies, a reply is delivered at once, also one that is older than what
  was delivered for its key: the mode that is documented to be monotonic is not.
\<close>

theorem stale_reply_delivered:
  assumes "\<not> zn_locked zn" "\<not> zn_is_closed zn" "query_at zn as q bs" "quiet_replies env app"
    and "pq_anyke q \<or> z_keyexpr_intersects (pq_key q) key = Some True" "pq_consolidation q \<noteq> Z_CONSOLIDATION_MODE_LATEST"
    and "pq_consolidation q = Z_CONSOLIDATION_MODE_MONOTONIC \<Longrightarrow> pending_wf (pq_pending_replies q) \<and> 0 \<notin> set key \<and>
      (\<forall>p \<in> set (pq_pending_replies q). key_of p \<noteq> key \<longrightarrow> time_of p \<noteq> ts_time (pc_timestamp (put_commons msg)))"
  shows "\<exists>ps. z_trigger_query_reply_partial_inner env (pq_id q) key msg kind replier zn =
    Ok () (zn\<lparr>zn_pending_queries := as @ q\<lparr>pq_pending_replies := ps\<rparr> # bs,
      zn_world := app (pq_callback q) (z_reply_steal_data key replier (put_payload msg) (pc_timestamp (put_commons msg)) (put_encoding msg)
        kind (put_attachment msg) (pc_source_info (put_commons msg))) (zn_world zn)\<rparr>)"
  using assms by (rule reply_partial_ok)

text \<open>The session holds a reply of time 9 for the key; the one that arrives has time 0.\<close>

theorem stale_reply_delivered_witness:
  "\<forall>replier. \<exists>ps. z_trigger_query_reply_partial_inner sample_env 4 (join sample_chunks) z_msg_put_null Z_SAMPLE_KIND_PUT replier sample_held =
    Ok () (sample_held\<lparr>zn_pending_queries := [sample_pending\<lparr>pq_pending_replies := ps\<rparr>], zn_world := [40]\<rparr>)"
proof
  fix replier
  have k: "reply_keyexpr sample_reply = Some (join sample_chunks)" by (simp add: sample_reply_def steal_keyexpr)
  have z: "0 \<notin> set (join sample_chunks)" by code_simp
  have "pending_wf (pq_pending_replies sample_pending)" "\<forall>p \<in> set (pq_pending_replies sample_pending). key_of p = join sample_chunks"
    "z_keyexpr_intersects (pq_key sample_pending) (join sample_chunks) = Some True" "pq_consolidation sample_pending = Z_CONSOLIDATION_MODE_MONOTONIC"
    "pq_id sample_pending = 4" "pq_callback sample_pending = 40"
    using k z sample_matches by (simp_all add: sample_pending_def plain_reply_def key_of_def)
  then show "\<exists>ps. z_trigger_query_reply_partial_inner sample_env 4 (join sample_chunks) z_msg_put_null Z_SAMPLE_KIND_PUT replier sample_held =
    Ok () (sample_held\<lparr>zn_pending_queries := [sample_pending\<lparr>pq_pending_replies := ps\<rparr>], zn_world := [40]\<rparr>)"
    using stale_reply_delivered [OF sample_held_facts(1,2,11) sample_env_facts(2), of "join sample_chunks" z_msg_put_null Z_SAMPLE_KIND_PUT replier] z
    by (simp add: Z_CONSOLIDATION_MODE_LATEST_def Z_CONSOLIDATION_MODE_MONOTONIC_def sample_held_facts(4))
qed

section \<open>Interests\<close>

text \<open>C17
  What another node declares is noted and told: the interests of that kind of entity that the declaration answers or that
  want to know of it, whose expression matches the key (equals it, for an aggregating interest), are called once each, the last of
  the list first, with the number, the key and the completeness of the entity.
\<close>

theorem declaration_told:
  assumes "quiet_interests env app" "\<not> zn_locked zn" "\<not> zn_is_closed zn"
    and "interest_declare (de_decl decl) = Some (ty, i, expr, dt, flags, complete)" "denotes zn peer expr key" "intrs.ok zn S as"
    and "\<And>a. a \<in> set as \<Longrightarrow> z_keyexpr_intersects (si_key (intrs.at zn a)) key \<noteq> None"
  shows "z_interest_process_declares env decl peer zn = Ok () (zn\<lparr>
      zn_remote_declares := noted key i dt complete (map_option fst peer) (zn_remote_declares zn),
      zn_world := fold (\<lambda>a. told app \<lparr>im_id = i, im_type = ty, im_key = Some key, im_is_complete = complete\<rparr> (map_option fst peer) (intrs.at zn a))
        (rev (filter (\<lambda>a. interested flags key (de_interest_id decl) (intrs.at zn a)) as)) (zn_world zn)\<rparr>)"
  using assms by (rule declares_ok)

definition sample_declare :: z_n_msg_declare_t where
  "sample_declare = \<lparr>de_decl = Decl_Subscriber \<lparr>ds_keyexpr = sample_wire, ds_id = 6\<rparr>, de_ext_timestamp = z_timestamp_null, de_ext_qos = 0,
     de_interest_id = z_optional_id_make_none\<rparr>"

lemma sample_interested:
  "interested Z_INTEREST_FLAG_SUBSCRIBERS (join sample_chunks) z_optional_id_make_none sample_intr"
proof -
  have "\<not> z_session_interest_is_aggregate sample_intr" "Z_INTEREST_FLAG_SUBSCRIBERS AND Z_INTEREST_FLAG_SUBSCRIBERS \<noteq> 0"
    "\<not> oid_has_value z_optional_id_make_none" by code_simp+
  then show ?thesis using sample_matches by (simp add: interested_def) (simp add: sample_intr_def)
qed

theorem declaration_told_witness:
  "z_interest_process_declares sample_env sample_declare None sample_held = Ok () (sample_held\<lparr>
     zn_remote_declares := [\<lparr>dd_key = join sample_chunks, dd_peer = None, dd_id = 6, dd_type = Z_DECLARE_TYPE_SUBSCRIBER, dd_complete = False\<rparr>],
     zn_world := [30]\<rparr>)"
proof -
  have d: "interest_declare (de_decl sample_declare) = Some (Z_INTEREST_MSG_TYPE_DECL_SUBSCRIBER, 6, sample_wire, Z_DECLARE_TYPE_SUBSCRIBER,
      Z_INTEREST_FLAG_SUBSCRIBERS, False)" "de_interest_id sample_declare = z_optional_id_make_none"
    by (simp_all add: sample_declare_def)
  have i: "z_keyexpr_intersects (si_key (intrs.at sample_held 0)) (join sample_chunks) \<noteq> None"
    using sample_matches by (simp add: sample_held_facts sample_intr_def)
  have c: "si_callback sample_intr = Some 30" by (simp add: sample_intr_def)
  show ?thesis
    using declaration_told [OF sample_env_facts(4) sample_held_facts(1,2) d(1) sample_denotes sample_held_facts(9)] i
    by (simp add: d(2) sample_interested noted_def known_def told_def c sample_held_facts)
qed

text \<open>C32
  What was declared and is undeclared is told to the same interests and forgotten: of two entities with the same number and kind
  the session knew one only.
\<close>

theorem undeclaration_told:
  assumes "quiet_interests env app" "\<not> zn_locked zn" "\<not> zn_is_closed zn"
    and "interest_undeclare decl = Some (ty, i, dt, flags)" "known (zn_remote_declares zn) (i, dt) = Some d" "intrs.ok zn S as"
    and "\<And>a. a \<in> set as \<Longrightarrow> z_keyexpr_intersects (si_key (intrs.at zn a)) (dd_key d) \<noteq> None"
  shows "z_interest_process_undeclares env decl peer zn = Ok () (zn\<lparr>
      zn_remote_declares := forgotten i dt (zn_remote_declares zn),
      zn_world := fold (\<lambda>a. told app \<lparr>im_id = i, im_type = ty, im_key = None, im_is_complete = False\<rparr> (map_option fst peer) (intrs.at zn a))
        (rev (filter (\<lambda>a. interested flags (dd_key d) z_optional_id_make_none (intrs.at zn a)) as)) (zn_world zn)\<rparr>)"
  using assms by (rule undeclares_ok)

definition sample_noted :: z_declare_data_t where
  "sample_noted = \<lparr>dd_key = join sample_chunks, dd_peer = None, dd_id = 6, dd_type = Z_DECLARE_TYPE_SUBSCRIBER, dd_complete = False\<rparr>"

theorem undeclaration_told_witness:
  "z_interest_process_undeclares sample_env (Undecl_Subscriber \<lparr>us_id = 6, us_ext_keyexpr = z_wireexpr_null\<rparr>) None (sample_held\<lparr>zn_remote_declares := [sample_noted]\<rparr>) =
   Ok () (sample_held\<lparr>zn_remote_declares := [], zn_world := [30]\<rparr>)"
proof -
  let ?zn = "sample_held\<lparr>zn_remote_declares := [sample_noted]\<rparr>"
  have k: "known (zn_remote_declares ?zn) (6, Z_DECLARE_TYPE_SUBSCRIBER) = Some sample_noted" "dd_key sample_noted = join sample_chunks"
    by (simp_all add: known_def z_declare_data_eq_def sample_noted_def)
  have at: "intrs.at ?zn = intrs.at sample_held" by (simp add: intrs.at_def fun_eq_iff)
  have ok: "intrs.ok ?zn {#0#} [0]" using sample_held_facts(9) by (simp add: intrs.ok_def)
  have i: "z_keyexpr_intersects (si_key (intrs.at sample_held 0)) (join sample_chunks) \<noteq> None"
    using sample_matches by (simp add: sample_held_facts sample_intr_def)
  have c: "si_callback sample_intr = Some 30" by (simp add: sample_intr_def)
  have f: "forgotten 6 Z_DECLARE_TYPE_SUBSCRIBER [sample_noted] = []"
    by (simp add: forgotten_def sample_noted_def z_declare_data_eq_def)
  show ?thesis
    using undeclaration_told [OF sample_env_facts(4) _ _ _ k(1) ok, of "Undecl_Subscriber \<lparr>us_id = 6, us_ext_keyexpr = z_wireexpr_null\<rparr>"
        Z_INTEREST_MSG_TYPE_UNDECL_SUBSCRIBER Z_INTEREST_FLAG_SUBSCRIBERS None] i
    by (simp add: k(2) at sample_interested told_def c f sample_held_facts)
qed

section \<open>Tables\<close>

text \<open>C18
  Declaring a key in the table of the session gives a number that stands for it, with any suffix, keeps the
  meaning of every other number, and leaves the table well formed: different keys with different numbers below the next one.
\<close>

theorem resource_declared:
  assumes "\<not> zn_locked zn" "\<not> zn_is_closed zn" "res_wf zn" "0 < zn_resource_id zn" "zn_resource_id zn < 0xFFFF"
    and "\<And>r. r \<in> set (zn_local_resources zn) \<Longrightarrow> res_refcount r < 0xFFFF"
  shows "\<exists>i n k rs. z_register_resource (wire_of key) 0 (zn, None) = Ok i (zn\<lparr>zn_resource_id := n, zn_local_resources := rs\<rparr>, None) \<and>
    res_wf (zn\<lparr>zn_resource_id := n, zn_local_resources := rs\<rparr>) \<and> z_keyexpr_equals k key \<and>
    res_means (zn\<lparr>zn_resource_id := n, zn_local_resources := rs\<rparr>) i k \<and>
    (\<forall>j k. res_means zn j k \<longrightarrow> res_means (zn\<lparr>zn_resource_id := n, zn_local_resources := rs\<rparr>) j k)"
  using assms by (rule register_resource_ok)

theorem resource_declared_witness:
  "\<exists>i n k rs. z_register_resource (wire_of (join sample_chunks)) 0 (sample_zn, None) =
      Ok i (sample_zn\<lparr>zn_resource_id := n, zn_local_resources := rs\<rparr>, None) \<and>
    res_means (sample_zn\<lparr>zn_resource_id := n, zn_local_resources := rs\<rparr>) i k \<and> z_keyexpr_equals k (join sample_chunks)"
  using resource_declared [OF sample_zn_facts(1,2,4), of "join sample_chunks"] sample_zn_facts(3,5)
  by (fastforce simp: session_empty_def)

text \<open>
  Undeclaring the number that declaring gave undoes it: the table is what it was. When the key was there before, that
  is reported as a count that is still positive.
\<close>

theorem resource_roundtrip:
  assumes "\<not> zn_locked zn" "\<not> zn_is_closed zn" "res_wf zn"
    and "\<And>r. r \<in> set (zn_local_resources zn) \<Longrightarrow> res_refcount r < 0xFFFF"
  shows "\<exists>i zn'. z_register_resource (wire_of key) 0 (zn, None) = Ok i (zn', None) \<and>
    (if \<exists>r \<in> set (zn_local_resources zn). z_keyexpr_equals (res_key r) key
     then z_unregister_resource i (zn', None) = Err Z_RESOURCE_POSITIVE_REF_COUNT (zn, None)
     else z_unregister_resource i (zn', None) = Ok () (zn\<lparr>zn_resource_id := zn_resource_id zn + 1\<rparr>, None))"
  using assms by (rule register_unregister_resource)

theorem resource_roundtrip_witness:
  "\<exists>i zn'. z_register_resource (wire_of (join sample_chunks)) 0 (sample_zn, None) = Ok i (zn', None) \<and>
    z_unregister_resource i (zn', None) = Ok () (sample_zn\<lparr>zn_resource_id := 2\<rparr>, None)"
  using resource_roundtrip [OF sample_zn_facts(1,2,4), of "join sample_chunks"] sample_zn_facts(3,5)
  by (auto simp: session_empty_def)

text \<open>C36
  The map of numbers the tables are made of implements a function: whatever is inserted and removed, in any order, looking
  up gives what the function that is updated in the same order gives, and the map stays well formed.
\<close>

theorem intmap_refines:
  assumes "hashmap_wf (\<lambda>k. k) 16 m"
  shows "hashmap_wf (\<lambda>k. k) 16 (foldl (\<lambda>m (k, v). case v of Some v \<Rightarrow> z_hashmap_insert m k v True | None \<Rightarrow> z_hashmap_remove m k) m ops) \<and>
    z_hashmap_get (foldl (\<lambda>m (k, v). case v of Some v \<Rightarrow> z_hashmap_insert m k v True | None \<Rightarrow> z_hashmap_remove m k) m ops) =
      foldl (\<lambda>f (k, v). f(k := v)) (z_hashmap_get m) ops"
proof -
  have 1: "im.apply_op = (\<lambda>m (k, v). case v of Some v \<Rightarrow> z_hashmap_insert m k v True | None \<Rightarrow> z_hashmap_remove m k)"
    by (auto simp: fun_eq_iff im.apply_op_def hashmap_put_def split: option.splits)
  have 2: "(\<lambda>f kv. f(fst kv := snd kv)) = (\<lambda>f (k, v). f(k := v))" by (auto simp: fun_eq_iff)
  show ?thesis using im.refines_ops [OF assms, of ops] unfolding 1 2 .
qed

theorem intmap_refines_witness:
  "z_hashmap_get (z_hashmap_insert (z_hashmap_remove (z_hashmap_insert (z_int_void_map_make 16) 5 True True) 5) 21 False True) = [21 \<mapsto> False]"
  using intmap_refines [OF im.wf_empty, of "[(5, Some True), (5, None), (21, Some False)]"] im.lookup_empty
  by (auto simp: fun_eq_iff)

section \<open>Parameters\<close>

text \<open>
  The search of the parameters of a query for the mark that any key may answer is right: it finds it exactly when the mark is one of
  the parts between the separators, and it never reads outside the string.
\<close>

theorem anyke_parameter:
  "z_parameters_has_anyke ps = Some (Z_QUERY_PARAMS_KEY_ANYKE \<in> set (split_on 0x3b ps))"
  by (rule has_anyke_ok)

text \<open>
  A number of 32 bits is read from at most ten decimal digits, exactly when it fits, without wrapping around; other strings are refused.
\<close>

theorem number_parsed:
  "z_str_se_atoui cs = (if cs \<noteq> [] \<and> length cs \<le> 10 \<and> list_all is_digit cs \<and> decimal 0 cs < 2 ^ 32
    then Some (of_nat (decimal 0 cs)) else None)"
  by (rule atoui_ok)

section \<open>The session as a whole\<close>





section \<open>Liveliness\<close>

text \<open>C33
  A token that another node declares is kept under its number and told once to each liveliness subscription that matches
  its key, in the order of the list.
\<close>

theorem token_is_told:
  assumes "quiet env app" "\<not> zn_locked zn" "\<not> zn_is_closed zn" "denotes zn peer expr ke"
    and "subs_ok zn Z_SUBSCRIBER_KIND_LIVELINESS_SUBSCRIBER S as"
    and "\<And>a. a \<in> set as \<Longrightarrow> z_keyexpr_intersects (dke_inner (su_key (sub_at zn a))) ke \<noteq> None"
    and "hashmap_wf (\<lambda>k. k) 16 (zn_remote_tokens zn)" "z_hashmap_get (zn_remote_tokens zn) (ucast i) = None"
  shows "\<exists>m. z_liveliness_process_remote_token_declare env i expr ts peer zn =
      Ok () (zn\<lparr>zn_remote_tokens := m, zn_world := told_token app zn as (peer \<noteq> None) ke (token_sample ke Z_SAMPLE_KIND_PUT ts) (zn_world zn)\<rparr>) \<and>
    hashmap_wf (\<lambda>k. k) 16 m \<and> z_hashmap_get m = (z_hashmap_get (zn_remote_tokens zn))(ucast i \<mapsto> ke)"
  using assms by (rule token_declared)

text \<open>The session with the subscription as one of liveliness, which allows the samples of an origin.\<close>

definition sample_live :: "z_locality_t \<Rightarrow> (nat, nat list) z_session_t" where
  "sample_live origin = sample_zn\<lparr>zn_subs := sample_store (sample_sub\<lparr>su_allowed_origin := origin\<rparr>), zn_liveliness_subscriptions := [Some 0]\<rparr>"

lemma sample_live_facts:
  "\<not> zn_locked (sample_live l)" "\<not> zn_is_closed (sample_live l)" "zn_world (sample_live l) = []" "zn_remote_tokens (sample_live l) = zn_remote_tokens sample_zn"
  "subs_ok (sample_live l) Z_SUBSCRIBER_KIND_LIVELINESS_SUBSCRIBER {#0#} [0]" "sub_at (sample_live l) 0 = sample_sub\<lparr>su_allowed_origin := l\<rparr>"
  "z_keyexpr_intersects (dke_inner (su_key (sub_at (sample_live l) 0))) (join sample_chunks) = Some True"
  using sample_zn_facts sample_matches
  by (simp_all add: sample_live_def sample_store_ok subs_ok_def sub_list_def rc_max_def sub_at_def) (simp add: sample_sub_def sample_k_def)

theorem token_is_told_witness:
  "\<forall>pc. \<exists>m. z_liveliness_process_remote_token_declare sample_env 8 sample_wire z_timestamp_null (Some (1, pc)) (sample_live Z_LOCALITY_REMOTE) =
    Ok () ((sample_live Z_LOCALITY_REMOTE)\<lparr>zn_remote_tokens := m, zn_world := [10]\<rparr>)"
proof
  fix pc
  have h: "hears True (join sample_chunks) (sub_at (sample_live Z_LOCALITY_REMOTE) 0)"
    using sample_live_facts(7) [of Z_LOCALITY_REMOTE] by (simp add: hears_def sample_live_facts(6))
  have c: "su_callback (sub_at (sample_live l) 0) = 10" for l by (simp add: sample_live_facts(6) sample_sub_def)
  show "\<exists>m. z_liveliness_process_remote_token_declare sample_env 8 sample_wire z_timestamp_null (Some (1, pc)) (sample_live Z_LOCALITY_REMOTE) =
    Ok () ((sample_live Z_LOCALITY_REMOTE)\<lparr>zn_remote_tokens := m, zn_world := [10]\<rparr>)"
    using token_is_told [where i = 8 and ts = z_timestamp_null and peer = "Some (1, pc)" and expr = sample_wire,
        OF sample_env_facts(1) sample_live_facts(1,2) sample_denotes sample_live_facts(5) [of Z_LOCALITY_REMOTE]]
      sample_live_facts(7) [of Z_LOCALITY_REMOTE] sample_zn_facts(6,7)
    by (auto simp: told_token_def h c sample_live_facts(3,4))
qed

text \<open>C34
  A token that is undeclared is forgotten, and told as deleted to the liveliness subscriptions that match its key and allow samples of
  the session itself: the code triggers them without the peer, so that a subscription that allows remote samples only never hears
  of the end.
\<close>

theorem token_end_is_local:
  assumes "quiet env app" "\<not> zn_locked zn" "\<not> zn_is_closed zn" "hashmap_wf (\<lambda>k. k) 16 (zn_remote_tokens zn)"
    and "z_hashmap_get (zn_remote_tokens zn) (ucast i) = Some ke" "z_string_check ke" "subs_ok zn Z_SUBSCRIBER_KIND_LIVELINESS_SUBSCRIBER S as"
    and "\<And>a. a \<in> set as \<Longrightarrow> z_keyexpr_intersects (dke_inner (su_key (sub_at zn a))) ke \<noteq> None"
  shows "\<exists>m. z_liveliness_process_remote_token_undeclare env i ts zn =
      Ok () (zn\<lparr>zn_remote_tokens := m, zn_world := told_token app zn as False ke (token_sample ke Z_SAMPLE_KIND_DELETE ts) (zn_world zn)\<rparr>) \<and>
    hashmap_wf (\<lambda>k. k) 16 m \<and> z_hashmap_get m = (z_hashmap_get (zn_remote_tokens zn))(ucast i := None)"
  using assms by (rule token_undeclared)

text \<open>The subscription allows remote samples only: it was told of the token, and is not told of the end.\<close>

theorem token_end_is_local_witness:
  "\<exists>m. z_liveliness_process_remote_token_undeclare sample_env 8 z_timestamp_null
      ((sample_live Z_LOCALITY_REMOTE)\<lparr>zn_remote_tokens := z_hashmap_insert (zn_remote_tokens sample_zn) 8 (join sample_chunks) True\<rparr>) =
    Ok () ((sample_live Z_LOCALITY_REMOTE)\<lparr>zn_remote_tokens := m, zn_world := []\<rparr>)"
proof -
  let ?m = "z_hashmap_insert (zn_remote_tokens sample_zn) 8 (join sample_chunks) True" and ?l = "sample_live Z_LOCALITY_REMOTE"
  let ?zn = "?l\<lparr>zn_remote_tokens := ?m\<rparr>"
  have m: "hashmap_wf (\<lambda>k. k) 16 ?m" "z_hashmap_get ?m 8 = Some (join sample_chunks)"
    using im.wf_put [OF sample_zn_facts(6), of 8 "join sample_chunks"] im.lookup_put [OF sample_zn_facts(6), of 8 "join sample_chunks" 8]
    by (simp_all add: hashmap_put_def)
  have at: "sub_at ?zn = sub_at ?l" by (simp add: sub_at_def fun_eq_iff)
  have s: "subs_ok ?zn Z_SUBSCRIBER_KIND_LIVELINESS_SUBSCRIBER {#0#} [0]"
    using sample_live_facts(5) [of Z_LOCALITY_REMOTE] by (simp add: subs_ok_def sub_list_def)
  have h: "\<not> hears False (join sample_chunks) (sub_at ?l 0)"
    by (simp add: hears_def sample_live_facts(6))
  have k: "z_string_check (join sample_chunks)" by code_simp
  show ?thesis
    using token_end_is_local [OF sample_env_facts(1) _ _ _ _ k s, of 8 z_timestamp_null] m sample_live_facts(1-3,7) [of Z_LOCALITY_REMOTE]
    by (auto simp: told_token_def h at)
qed

end
