(* ===== verification/Zp_PrimProps.thy ===== *)
theory Zp_PrimProps imports Zp_PrimHear Zp_SessionProps
begin

text \<open>
  The properties of what an application does with a session, with witnesses on the new session
  of \<^verbatim>\<open>Zp_SessionProps\<close>, on a network that takes every message and on one that takes none.
\<close>

section \<open>Surroundings of the witnesses\<close>

definition sample_surr :: "(nat, nat list) z_surr" where
  "sample_surr = \<lparr>sr_env = sample_env, sr_conf = \<lparr>cf_config_is_empty = False, cf_peers = [], cf_has_link = True\<rparr>, sr_mem = (\<lambda>_. 0)\<rparr>"

definition sample_broken :: "(nat, nat list) z_surr" where
  "sample_broken = sample_surr\<lparr>sr_env := sample_env\<lparr>env_send_n_msg := (\<lambda>m r c p. fail Z_ERR_TRANSPORT_TX_FAILED)\<rparr>\<rparr>"

lemma sample_surr_facts:
  "taken sample_surr (\<lambda>m w. w @ [100])" "tidy (sr_env sample_surr) (\<lambda>c w. w @ [c]) (\<lambda>k w. w @ [200])"
  "quiet (sr_env sample_surr) (\<lambda>c s w. w @ [c])" "cf_has_link (sr_conf sample_surr)" "\<not> cf_config_is_empty (sr_conf sample_surr)"
  using sample_env_facts by (simp_all add: taken_def sample_surr_def)

lemma sample_broken_facts:
  "refused sample_broken Z_ERR_TRANSPORT_TX_FAILED" "tidy (sr_env sample_broken) (\<lambda>c w. w @ [c]) (\<lambda>k w. w @ [200])"
  "cf_has_link (sr_conf sample_broken)" "\<not> cf_config_is_empty (sr_conf sample_broken)"
proof -
  have "Z_ERR_TRANSPORT_TX_FAILED \<noteq> Z_RES_OK" by code_simp
  then show "refused sample_broken Z_ERR_TRANSPORT_TX_FAILED" by (simp add: refused_def sample_broken_def fail_def)
  show "tidy (sr_env sample_broken) (\<lambda>c w. w @ [c]) (\<lambda>k w. w @ [200])"
    using sample_env_facts(5) by (simp add: tidy_def sample_broken_def)
  show "cf_has_link (sr_conf sample_broken)" "\<not> cf_config_is_empty (sr_conf sample_broken)"
    by (simp_all add: sample_broken_def sample_surr_def)
qed

definition sample_expr_key :: z_key_t where
  "sample_expr_key = sample_k (ke_string sample_expr)"

lemma sample_expr_key_facts: "key_fits sample_expr_key self" "dke_inner sample_expr_key = ke_string sample_expr"
proof -
  have "length (ke_string sample_expr) = 4" by code_simp
  then show "key_fits sample_expr_key self" "dke_inner sample_expr_key = ke_string sample_expr"
    by (simp_all add: key_fits_def sample_expr_key_def sample_k_def z_declared_keyexpr_alias_to_wire_def
        z_keyexpr_wire_declaration_is_declared_on_session_def)
qed

section \<open>Subscribers\<close>

text \<open>C6
  A subscriber that is declared hears. On an open session whose network takes messages, declaring it succeeds; what the others are
  told last is its declaration, with its number; and every publication that arrives from a peer then calls the new callback
  first, exactly when it allows remote samples and its expression matches the key, and after it those that were there before.
\<close>

theorem subscriber_hears:
  assumes "\<not> zn_locked zn" "\<not> zn_is_closed zn" "taken sr snd_msg" "key_fits key (zn_self zn)"
    and "subs_ok zn Z_SUBSCRIBER_KIND_SUBSCRIBER S as" "quiet (sr_env sr) app"
  shows "\<exists>zn' w. z_declare_subscriber sr key callback dropper origin zn =
      Ok \<lparr>sb_entity_id = zn_entity_id zn, sb_zn = Some (zn_self zn)\<rparr> zn' \<and>
    zn_world zn' = (if z_locality_allows_remote origin then snd_msg (sub_told sr key (zn_self zn) (zn_entity_id zn)) w else w) \<and>
    (\<forall>m peer ke. is_push m \<and> denotes zn' (Some peer) (pu_key (push_in m)) ke \<and> z_keyexpr_intersects (dke_inner key) ke \<noteq> None \<and>
      (\<forall>a \<in> set as. z_keyexpr_intersects (dke_inner (su_key (sub_at zn a))) ke \<noteq> None) \<longrightarrow>
      z_handle_network_message (sr_env sr) m (zn', Some peer) =
        (let smp = push_sample ke (push_in m) (nm_reliability m);
             new = z_locality_allows_remote origin \<and> z_keyexpr_intersects (dke_inner key) ke = Some True in
         Ok () (zn'\<lparr>zn_world := heard app zn as ke smp (if new then app callback smp (zn_world zn') else zn_world zn')\<rparr>, Some peer)))"
  using assms by (rule declared_hears)

definition sample_pushed :: z_network_message_t where
  "sample_pushed = \<lparr>nm_body = N_Push \<lparr>pu_key = sample_wire, pu_timestamp = z_timestamp_null, pu_qos = 5,
     pu_body = z_push_body_null\<lparr>pb_is_put := True, pb_put := z_msg_put_null\<lparr>put_payload := [[1, 2, 3]]\<rparr>\<rparr>\<rparr>, nm_reliability = Z_RELIABILITY_RELIABLE\<rparr>"

lemma sample_pushed_facts: "is_push sample_pushed" "denotes zn peer (pu_key (push_in sample_pushed)) (join sample_chunks)"
  using sample_denotes by (simp_all add: is_push_def push_in_def sample_pushed_def)

theorem subscriber_hears_witness:
  "\<exists>sub zn' w. z_declare_subscriber sample_surr sample_expr_key 10 (Some 11) Z_LOCALITY_ANY sample_zn = Ok sub zn' \<and> zn_world zn' = w @ [100] \<and>
    (\<forall>peer. z_handle_network_message (sr_env sample_surr) sample_pushed (zn', Some peer) = Ok () (zn'\<lparr>zn_world := w @ [100, 10]\<rparr>, Some peer))"
proof -
  have r: "z_locality_allows_remote Z_LOCALITY_ANY" by code_simp
  obtain zn' w where d: "z_declare_subscriber sample_surr sample_expr_key 10 (Some 11) Z_LOCALITY_ANY sample_zn =
      Ok \<lparr>sb_entity_id = zn_entity_id sample_zn, sb_zn = Some (zn_self sample_zn)\<rparr> zn'" "zn_world zn' = w @ [100]"
    "\<forall>m peer ke. is_push m \<and> denotes zn' (Some peer) (pu_key (push_in m)) ke \<and> z_keyexpr_intersects (dke_inner sample_expr_key) ke \<noteq> None \<and>
      (\<forall>a \<in> set []. z_keyexpr_intersects (dke_inner (su_key (sub_at sample_zn a))) ke \<noteq> None) \<longrightarrow>
      z_handle_network_message (sr_env sample_surr) m (zn', Some peer) =
        (let smp = push_sample ke (push_in m) (nm_reliability m);
             new = z_locality_allows_remote Z_LOCALITY_ANY \<and> z_keyexpr_intersects (dke_inner sample_expr_key) ke = Some True in
         Ok () (zn'\<lparr>zn_world := heard (\<lambda>c s w. w @ [c]) sample_zn [] ke smp (if new then zn_world zn' @ [10] else zn_world zn')\<rparr>, Some peer))"
    using subscriber_hears [OF sample_zn_facts(1,2) sample_surr_facts(1) sample_expr_key_facts(1) sample_zn_facts(8) sample_surr_facts(3),
      of 10 "Some 11" Z_LOCALITY_ANY] by (auto simp: r)
  have "z_handle_network_message (sr_env sample_surr) sample_pushed (zn', Some peer) = Ok () (zn'\<lparr>zn_world := w @ [100, 10]\<rparr>, Some peer)" for peer
    using spec [OF spec [OF spec [OF d(3), of sample_pushed], of peer], of "join sample_chunks"]
    by (simp add: sample_pushed_facts sample_expr_key_facts sample_matches r heard_def d(2))
  then show ?thesis using d(1,2) by blast
qed



text \<open>C26
  A subscriber that the others cannot be told of is not declared: the error is returned, no subscription and no
  resource is left, the dropper has run once, and every other subscription is as it was.
\<close>

theorem subscriber_refused:
  assumes "\<not> zn_locked zn" "\<not> zn_is_closed zn" "refused sr e" "res_wf zn" "key_fits key (zn_self zn)"
    and "\<And>r. r \<in> set (zn_local_resources zn) \<Longrightarrow> res_refcount r < 0xFFFF" "tidy (sr_env sr) dr kc"
    and "subs_ok zn Z_SUBSCRIBER_KIND_SUBSCRIBER S as" "z_locality_allows_remote origin"
  shows "\<exists>zn' k. z_declare_subscriber sr key callback dropper origin zn = Err e zn' \<and>
    zn' = zn\<lparr>zn_entity_id := zn_entity_id zn + 1, zn_resource_id := zn_resource_id zn', zn_subs := zn_subs zn',
      zn_world := cleared dr kc dropper k (zn_world zn)\<rparr> \<and>
    subs_ok zn' Z_SUBSCRIBER_KIND_SUBSCRIBER S as \<and> (\<forall>b \<in># S. sub_at zn' b = sub_at zn b)"
  using assms by (rule declare_subscriber_refused)

theorem subscriber_refused_witness:
  "\<exists>zn'. z_declare_subscriber sample_broken sample_expr_key 10 (Some 11) Z_LOCALITY_ANY sample_held = Err Z_ERR_TRANSPORT_TX_FAILED zn' \<and>
    zn_world zn' = [11, 200] \<and> zn_subscriptions zn' = [Some 0] \<and> zn_local_resources zn' = []"
proof -
  have r: "z_locality_allows_remote Z_LOCALITY_ANY" by code_simp
  have l: "zn_local_resources sample_held = []" by code_simp
  have w: "res_wf sample_held" using sample_zn_facts(4) by (simp add: res_wf_def sample_held_def)
  obtain zn' k where d: "z_declare_subscriber sample_broken sample_expr_key 10 (Some 11) Z_LOCALITY_ANY sample_held = Err Z_ERR_TRANSPORT_TX_FAILED zn'"
    and e: "zn' = sample_held\<lparr>zn_entity_id := zn_entity_id sample_held + 1, zn_resource_id := zn_resource_id zn', zn_subs := zn_subs zn',
      zn_world := cleared (\<lambda>c w. w @ [c]) (\<lambda>k w. w @ [200]) (Some 11) k (zn_world sample_held)\<rparr>"
    using subscriber_refused [OF sample_held_facts(1,2) sample_broken_facts(1) w sample_expr_key_facts(1) _ sample_broken_facts(2) sample_held_facts(5) r,
      of 10 "Some 11"] l by auto
  show ?thesis using d arg_cong [OF e, of zn_world] arg_cong [OF e, of zn_subscriptions] arg_cong [OF e, of zn_local_resources] sample_held_facts(4,5) l
    by (intro exI [of _ zn']) (simp add: cleared_def dropped_def subs_ok_def sub_list_def)
qed

section \<open>Queries\<close>

text \<open>C16
  A query is sent once and ends. On an open session with a link to others it is pending, first of the pending ones, with the
  consolidation that its parameters ask for, while its message, with its number, is on the way; the final reply with that number
  forgets it, its dropper runs once, and the session is what it was but for the counter of queries.
\<close>

theorem query_roundtrip:
  assumes "\<not> zn_locked zn" "\<not> zn_is_closed zn" "key_fits key (zn_self zn)" "taken sr snd_msg" "quiet_replies (sr_env sr) app"
    and "tidy (sr_env sr) dr kc" "z_locality_allows_remote dest" "cf_has_link (sr_conf sr)" "parameters = None \<Longrightarrow> len = 0"
    and "q = (new_pending (dke_inner key) querier cb dropper dest now timeout target (query_mode parameters c)
      (query_anyke parameters \<or> accept = Z_REPLY_KEYEXPR_ANY))\<lparr>pq_id := zn_query_id zn\<rparr>"
    and "m = z_n_msg_make_query (the (z_declared_keyexpr_alias_to_wire key (zn_self zn))) (given [] parameters) (zn_query_id zn)
      Z_RELIABILITY_DEFAULT (query_mode parameters c) payload encoding timeout attachment qos info
      (accept = Z_REPLY_KEYEXPR_ANY \<and> \<not> query_anyke parameters)"
  shows "\<exists>zn1. z_query sr now querier key parameters len target c payload encoding cb dropper timeout attachment qos info accept dest zn = Ok () zn1 \<and>
    zn1 = zn\<lparr>zn_query_id := zn_query_id zn + 1, zn_pending_queries := q # zn_pending_queries zn, zn_world := snd_msg m (zn_world zn)\<rparr> \<and>
    z_trigger_query_reply_final (sr_env sr) (zn_query_id zn) zn1 =
      Ok () (zn\<lparr>zn_query_id := zn_query_id zn + 1, zn_world := dropped dr dropper (snd_msg m (zn_world zn))\<rparr>)"
proof -
  let ?zn1 = "zn\<lparr>zn_query_id := zn_query_id zn + 1, zn_pending_queries := q # zn_pending_queries zn, zn_world := snd_msg m (zn_world zn)\<rparr>"
  have q: "pq_id q = zn_query_id zn" "pq_remaining_finals q = 1" "pq_pending_replies q = []" "pq_dropper q = dropper"
    by (simp_all add: assms(10) new_pending_def)
  have 1: "\<not> zn_locked ?zn1" "\<not> zn_is_closed ?zn1" "query_at ?zn1 [] q (zn_pending_queries zn)"
    using assms(1,2) by (simp_all add: query_at_def)
  have "z_trigger_query_reply_final (sr_env sr) (zn_query_id zn) ?zn1 =
      Ok () (zn\<lparr>zn_query_id := zn_query_id zn + 1, zn_world := dropped dr dropper (snd_msg m (zn_world zn))\<rparr>)"
    using reply_final_ok [OF 1 assms(5,6) refl] q by simp
  then show ?thesis using query_taken [OF assms(1-4,7-11)] by blast
qed

theorem query_roundtrip_witness:
  "\<exists>zn1. z_query sample_surr 0 z_optional_id_make_none sample_expr_key None 0 0 Z_CONSOLIDATION_MODE_AUTO None None 40 (Some 41) 1000 None 5 None
      Z_REPLY_KEYEXPR_ANY Z_LOCALITY_ANY sample_zn = Ok () zn1 \<and> zn_world zn1 = [100] \<and> length (zn_pending_queries zn1) = 1 \<and>
    (\<exists>zn2. z_trigger_query_reply_final (sr_env sample_surr) (zn_query_id sample_zn) zn1 = Ok () zn2 \<and> zn_world zn2 = [100, 41] \<and> zn_pending_queries zn2 = [])"
proof -
  have r: "z_locality_allows_remote Z_LOCALITY_ANY" by code_simp
  have e: "quiet_replies (sr_env sample_surr) (\<lambda>c s w. w @ [c])" using sample_env_facts(2) by (simp add: sample_surr_def)
  have p: "zn_pending_queries sample_zn = []" using sample_zn_facts(3) by (simp add: session_empty_def)
  show ?thesis
    using query_roundtrip [OF sample_zn_facts(1,2) sample_expr_key_facts(1) sample_surr_facts(1) e sample_surr_facts(2) r sample_surr_facts(4) _ refl refl,
        where parameters = None and len = 0 and now = 0 and querier = z_optional_id_make_none and target = 0 and c = Z_CONSOLIDATION_MODE_AUTO
        and payload = None and encoding = None and cb = 40 and dropper = "Some 41" and timeout = 1000 and attachment = None and qos = 5 and info = None
        and accept = Z_REPLY_KEYEXPR_ANY]
    by (auto simp: p sample_zn_facts(10) dropped_def)
qed

text \<open>C27
  A query that cannot be sent is forgotten: the error is returned, it is no longer pending, and its dropper has run once.
\<close>

theorem failed_query_forgotten:
  assumes "\<not> zn_locked zn" "\<not> zn_is_closed zn" "key_fits key (zn_self zn)" "refused sr e" "tidy (sr_env sr) dr kc"
    and "z_locality_allows_remote dest" "cf_has_link (sr_conf sr)" "parameters = None \<Longrightarrow> len = 0"
  shows "z_query sr now querier key parameters len target c payload encoding cb dropper timeout attachment qos info accept dest zn =
    Err e (zn\<lparr>zn_query_id := zn_query_id zn + 1, zn_world := dropped dr dropper (zn_world zn)\<rparr>)"
  using assms by (rule query_refused)

theorem failed_query_forgotten_witness:
  "z_query sample_broken 0 z_optional_id_make_none sample_expr_key None 0 0 Z_CONSOLIDATION_MODE_AUTO None None 40 (Some 41) 1000 None 5 None
      Z_REPLY_KEYEXPR_ANY Z_LOCALITY_ANY sample_held =
    Err Z_ERR_TRANSPORT_TX_FAILED (sample_held\<lparr>zn_query_id := zn_query_id sample_held + 1, zn_world := [41]\<rparr>)"
proof -
  have r: "z_locality_allows_remote Z_LOCALITY_ANY" by code_simp
  show ?thesis
    using failed_query_forgotten [OF sample_held_facts(1,2) sample_expr_key_facts(1) sample_broken_facts(1,2) r sample_broken_facts(3),
        where parameters = None and len = 0 and now = 0 and querier = z_optional_id_make_none and target = 0 and c = Z_CONSOLIDATION_MODE_AUTO and payload = None and encoding = None and cb = 40 and dropper = "Some 41"
        and timeout = 1000 and attachment = None and qos = 5 and info = None and accept = Z_REPLY_KEYEXPR_ANY]
    by (simp add: dropped_def sample_held_facts(4))
qed

section \<open>Opening again\<close>

text \<open>C14
  A session is opened again after any number of failures: when opening fails with a code that stands for the network and succeeds at
  last, the tasks start, and what was declared and not taken back is sent again, all of it, in the order in which it was declared.
\<close>

theorem reopened:
  assumes "opens z_open n zn zn'" "\<not> cf_config_is_empty (sr_conf sr)" "start_tasks zn' = Ok () zn2" "taken sr snd_msg"
  shows "z_reopen sr z_open start_tasks zn =
    Some (Ok () (zn2\<lparr>zn_world := fold snd_msg (zn_declaration_cache zn2) (zn_world zn2)\<rparr>))"
  using assms by (rule reopen_ok)

definition sample_open :: "(unit, nat, nat list) zprog" where
  "sample_open zn = (if zn_world zn = [] then Err Z_ERR_TRANSPORT_OPEN_FAILED (zn\<lparr>zn_world := [1]\<rparr>) else Ok () zn)"

definition sample_lost :: "(nat, nat list) z_session_t" where
  "sample_lost = sample_zn\<lparr>zn_declaration_cache := [declare_msg (z_make_decl_keyexpr 1 sample_wire), sample_pushed]\<rparr>"

lemma sample_lost_opens: "opens sample_open 1 sample_lost (sample_lost\<lparr>zn_world := [1]\<rparr>)"
proof -
  have "open_again Z_ERR_TRANSPORT_OPEN_FAILED" by (simp add: open_again_def)
  moreover have "opens sample_open 0 (sample_lost\<lparr>zn_world := [1]\<rparr>) (sample_lost\<lparr>zn_world := [1]\<rparr>)"
    by (rule opens_now) (simp add: sample_open_def)
  moreover have "sample_open sample_lost = Err Z_ERR_TRANSPORT_OPEN_FAILED (sample_lost\<lparr>zn_world := [1]\<rparr>)"
    by (simp add: sample_open_def sample_lost_def sample_zn_facts(10))
  ultimately show ?thesis using opens_later [of sample_open sample_lost Z_ERR_TRANSPORT_OPEN_FAILED _ 0] by simp
qed

theorem reopened_witness:
  "z_reopen sample_surr sample_open (ret ()) sample_lost = Some (Ok () (sample_lost\<lparr>zn_world := [1, 100, 100]\<rparr>))"
  using reopened [OF sample_lost_opens sample_surr_facts(5) _ sample_surr_facts(1), of "ret ()" "sample_lost\<lparr>zn_world := [1]\<rparr>"]
  by (simp add: ret_def sample_lost_def)

text \<open>C28
  A transport that opens and takes no message is not given up: with anything to tell again, the same message is sent for ever, and the
  operation does not return.
\<close>

theorem reopen_never_returns:
  assumes "z_open zn = Ok () zn'" "\<not> cf_config_is_empty (sr_conf sr)" "start_tasks zn' = Ok () zn2" "refused sr e"
    and "zn_declaration_cache zn2 \<noteq> []"
  shows "z_reopen sr z_open start_tasks zn = None"
  using assms by (rule reopen_stuck)

theorem reopen_never_returns_witness: "z_reopen sample_broken (ret ()) (ret ()) sample_lost = None"
  by (rule reopen_never_returns [OF _ sample_broken_facts(4) _ sample_broken_facts(1), of _ sample_lost sample_lost _ sample_lost])
    (simp_all add: ret_def sample_lost_def)

section \<open>Filters\<close>

text \<open>C12
  A filter follows the set of the declarations that its publications or queries would reach. After any messages it is active exactly while
  that set is empty: a declaration that counts puts its peer and number in, one that does not count, an undeclaration or the loss of the peer takes them out, in whatever order and
  however often they come; and each listener is told exactly of the changes between none and some.
\<close>

theorem filter_follows:
  assumes "filter_ok ctx" "\<forall>m \<in> set ms. judged ctx m"
  shows "\<exists>ctx'. filter_run ms ctx = Some (ctx', all_news ctx ms (reached ctx)) \<and> filter_ok ctx' \<and>
    reached ctx' = fold (reached_after ctx) ms (reached ctx) \<and>
    (z_write_filter_ctx_active ctx' \<longleftrightarrow> fold (reached_after ctx) ms (reached ctx) = {})"
proof -
  obtain ctx' where "filter_run ms ctx = Some (ctx', all_news ctx ms (reached ctx))" "filter_ok ctx'"
    "reached ctx' = fold (reached_after ctx) ms (reached ctx)"
    using filter_run_ok [OF assms] by blast
  then show ?thesis using filter_state [of ctx'] by auto
qed

definition sample_filter :: "nat z_write_filter_ctx_t" where
  "sample_filter = fst (z_write_filter_ctx_add_callback 5 \<lparr>ms_call = 50, ms_drop = None\<rparr>
     (write_filter_ctx Z_INTEREST_FLAG_SUBSCRIBERS False Z_LOCALITY_ANY (join sample_chunks) 1))"

definition sample_msg :: "z_interest_msg_type_t \<Rightarrow> u32 \<Rightarrow> z_interest_msg_t" where
  "sample_msg ty i = \<lparr>im_id = i, im_type = ty, im_key = Some (join sample_chunks), im_is_complete = False\<rparr>"

definition sample_news :: "(z_interest_msg_t \<times> nat option) list" where
  "sample_news = [(sample_msg Z_INTEREST_MSG_TYPE_DECL_SUBSCRIBER 1, Some 7), (sample_msg Z_INTEREST_MSG_TYPE_DECL_SUBSCRIBER 2, Some 7),
     (sample_msg Z_INTEREST_MSG_TYPE_DECL_SUBSCRIBER 1, Some 7), (sample_msg Z_INTEREST_MSG_TYPE_UNDECL_SUBSCRIBER 2, Some 7),
     (sample_msg Z_INTEREST_MSG_TYPE_CONNECTION_DROPPED 0, Some 7)]"

lemma sample_filter_facts:
  "fc_targets sample_filter = []" "fc_local_targets sample_filter = 0" "fc_state sample_filter = WRITE_FILTER_ACTIVE"
  "\<not> fc_is_complete sample_filter" "listeners sample_filter = [\<lparr>ms_call = 50, ms_drop = None\<rparr>]"
  "fc_allow_remote sample_filter"
  by code_simp+

theorem filter_follows_witness:
  "\<exists>ctx'. filter_run sample_news sample_filter = Some (ctx', [Matching_Status 50 True, Matching_Status 50 False]) \<and> z_write_filter_ctx_active ctx'"
proof -
  have ok: "filter_ok sample_filter" "\<forall>m \<in> set sample_news. judged sample_filter m" "reached sample_filter = {}"
    by (simp_all add: filter_ok_def reached_def sample_filter_facts judged_any)
  have c: "counts sample_filter m (Some p)" for m p
    by (simp add: counts_def z_write_filter_peer_allowed_def target_complete_def sample_filter_facts)
  have n: "all_news sample_filter sample_news {} = [Matching_Status 50 True, Matching_Status 50 False]"
    "fold (reached_after sample_filter) sample_news {} = {}"
    by (simp_all add: sample_news_def sample_msg_def reached_after_def declares_def news_def c sample_filter_facts insert_Diff_if)
  then show ?thesis using filter_follows [OF ok(1,2)] unfolding ok(3) n by auto
qed

end
