(* ===== verification/Spec2Isabelle.thy ===== *)
theory Spec2Isabelle
  imports Zp_UnicastLaws Zp_KeCanonLaws Zp_PrimProps
begin

text \<open>
  A verification development for zenoh-pico, the C implementation of the Zenoh protocol under
  \<^verbatim>\<open>src/zenoh-cpp/zenoh-pico\<close>; paths below are relative to that directory. Names are those of the source
  without the leading underscore. The repository's other parts are glue in C++ and Python around it.

  The program. A session hands network messages (push, request, response, declare, interest, oam) to
  a transport. The transport puts them into frames, or cuts them into fragments when they are too
  long, numbers each, and writes the packets to a link of the platform, possibly only when a
  batch is full. The receiver decodes packets, checks the numbers of each channel, puts fragments
  together, and hands the messages to its session. A handshake agrees on sizes and resolutions
  before that, and a lease with keep alives finds out when the other side is gone.

  Theories, in the order they build on each other:
  \<^item> \<open>Zp_Prelude\<close>: programs that fail, as functions from a state to \<open>Ok\<close>, \<open>Err\<close> or \<open>Fault\<close>
    (\<^verbatim>\<open>utils/result.h\<close>), and words.
  \<^item> \<open>Zp_Vec\<close>, \<open>Zp_IoBuf\<close>, \<open>Zp_WBuf\<close>: \<^verbatim>\<open>collections/vec.c\<close> and \<^verbatim>\<open>protocol/iobuf.c\<close>. A slice is a record
    with its positions, a write buffer a vector of slices that may grow. The abstraction of a
    buffer is the list of the bytes it holds (\<open>zbuf_bytes\<close>, \<open>wbuf_bytes\<close>).
  \<^item> \<open>Zp_Wire\<close>: the contracts, as locales. \<open>appends\<close>, \<open>consumes\<close>, \<open>yields\<close> and \<open>safe\<close> say what an encoder
    and a decoder promise over these lists; the locales derive round trips, prefix freeness,
    refusal when the buffer is full, and safety, once for all codecs.
  \<^item> \<open>Zp_Codec\<close>, \<open>Zp_Core\<close>, \<open>Zp_Ext\<close>, \<open>Zp_Message\<close>, \<open>Zp_Query\<close>, \<open>Zp_Declare\<close>, \<open>Zp_Network\<close>, \<open>Zp_NetLaws\<close>:
    \<^verbatim>\<open>protocol/codec\<close> from integers to network messages, each with an interpretation of the contracts.
  \<^item> \<open>Zp_Sn\<close>: the sequence numbers of \<^verbatim>\<open>transport/utils.c\<close>.
  \<^item> \<open>Zp_Transport\<close>, \<open>Zp_TransLaws\<close>: the transport messages of \<^verbatim>\<open>protocol/codec/transport.c\<close> and
    \<^verbatim>\<open>protocol/definitions/transport.c\<close>.
  \<^item> \<open>Zp_Tx\<close>, \<open>Zp_TxLaws\<close>, \<open>Zp_TxBatch\<close>: sending (\<^verbatim>\<open>transport/common/tx.c\<close>, \<^verbatim>\<open>link/link.c\<close>); \<open>sends\<close> is what
    a call leaves on the link, \<open>batch_inv\<close> the invariant of a batch, \<open>carries\<close> the messages in packets.
  \<^item> \<open>Zp_Rx\<close>, \<open>Zp_RxLaws\<close>: receiving (\<^verbatim>\<open>transport/unicast/rx.c\<close>, \<^verbatim>\<open>transport/unicast/read.c\<close>,
    \<^verbatim>\<open>transport/peer.c\<close>, \<^verbatim>\<open>transport/common/rx.c\<close>).
  \<^item> \<open>Zp_Unicast\<close>, \<open>Zp_UnicastLaws\<close>: the handshake, the transport and its lease
    (\<^verbatim>\<open>transport/unicast/transport.c\<close>, \<^verbatim>\<open>transport/unicast/lease.c\<close>, \<^verbatim>\<open>transport/transport.c\<close>).
  \<^item> \<open>Zp_Keyexpr\<close>, \<open>Zp_KeChunk\<close>, \<open>Zp_KeLaws\<close>: matching of key expressions (\<^verbatim>\<open>session/keyexpr.c\<close>), with
    the pointers of the code as positions in a string; a function over pointers returns \<open>None\<close> where the code would
    read outside. \<open>key_match\<close> is the language reading of an expression over lists of chunks, the reference
    the matchers are proved equal to.
  \<^item> \<open>Zp_KeCanon\<close>, \<open>Zp_KeCanonLaws\<close>: canonical forms, in place as the code does it, the joining of
    expressions and the declared ones of the same file.
  \<^item> \<open>Zp_Map\<close>: lists, hash maps and sorted maps (\<^verbatim>\<open>collections/list.c\<close>, \<^verbatim>\<open>hashmap.c\<close>, \<^verbatim>\<open>sortedmap.c\<close>); the
    locale \<open>dict\<close> is what a client of a map relies on. \<open>Zp_Rc\<close>, \<open>Zp_RcLaws\<close>: counted values (\<^verbatim>\<open>collections/refcount.c\<close>)
    in a store of addresses; \<open>owned\<close> says how many references each address has. \<open>Zp_RcList\<close>: the locale
    \<open>rc_list\<close>, the contract of a list of counted values in a session, from which registering, unregistering,
    collecting and letting go are proved once. \<open>Zp_Str\<close>: \<^verbatim>\<open>utils/string.c\<close> and \<^verbatim>\<open>utils/query_params.c\<close>.
  \<^item> \<open>Zp_Session\<close>, \<open>Zp_Subscription\<close>, \<open>Zp_SessQuery\<close>, \<open>Zp_SessQueryable\<close>, \<open>Zp_Interest\<close>, \<open>Zp_Liveliness\<close>: the tables of a session,
    a theory for each file of \<^verbatim>\<open>src/session\<close>, with \<open>Zp_NetMake\<close> for the messages they make. The state is the record
    \<open>z_session_t\<close>; what the session calls (callbacks, droppers, sending) is the record \<open>z_env\<close> of functions on
    that state. \<open>Zp_Dispatch\<close>: the handler of network messages (\<^verbatim>\<open>session/rx.c\<close>), and how a session begins and
    ends (\<^verbatim>\<open>session/utils.c\<close>).
  \<^item> \<open>Zp_Primitives\<close>, \<open>Zp_Requests\<close>, \<open>Zp_Filter\<close>: what an application asks of a session (\<^verbatim>\<open>net/primitives.c\<close>,
    \<^verbatim>\<open>net/liveliness.c\<close>, \<^verbatim>\<open>net/filtering.c\<close>, \<^verbatim>\<open>net/matching.c\<close>, \<^verbatim>\<open>session/loopback.c\<close>), and the declarations that
    are kept for a transport that is opened again (\<^verbatim>\<open>net/session.c\<close>); the record \<open>z_surr\<close> is what surrounds them. \<open>Zp_PrimLaws\<close>,
    \<open>Zp_PrimSubs\<close>, \<open>Zp_PrimQuery\<close>, \<open>Zp_PrimLive\<close>, \<open>Zp_PrimHear\<close>: what they come to on a network that takes every message (\<open>taken\<close>)
    and on one that takes none (\<open>refused\<close>). \<open>Zp_FilterLaws\<close>: a filter against the set of what it was told of (\<open>reached\<close>).
    \<open>Zp_PrimProps\<close>: the properties, with witnesses.
  \<^item> \<open>Zp_ResLaws\<close>, \<open>Zp_SubLaws\<close>, \<open>Zp_QueryLaws\<close>, \<open>Zp_QleLaws\<close>, \<open>Zp_IntrLaws\<close>, \<open>Zp_LiveLaws\<close>: what each of these tables promises, for
    environments whose callbacks change the state of the application only (\<open>quiet\<close>, \<open>tidy\<close>). \<open>Zp_SessionLaws\<close>: the handler of a session
    under the receiver of a transport. \<open>Zp_CloseLaws\<close>: beginning and end. \<open>Zp_SessionProps\<close>: the properties of
    a session, with witnesses.

  Reading the model. Sizes are \<open>nat\<close> where the code cannot wrap around and 64-bit words where it
  does; enumerations and flags are words. \<open>Fault\<close> is undefined behaviour of the code: a read or write
  outside a buffer, the wrong member of a union, a shift by too much, a failed assertion; where a loop
  need not end it also stands for not returning, and the definition of the loop says so. Allocation
  succeeds. Slices and strings are lists of bytes, unions are datatypes, and decoders start from
  the zeroed structure. Functions of the platform and the network are
  parameters: a link is a record of the functions that read and write, over a network of any
  type, and the handler of network messages is an argument of the receiver, which \<open>Zp_Dispatch\<close> gives it. The lock of
  a session is in its state, and taking it twice is a \<open>Fault\<close>, since the code would wait for ever; the locks of a transport and the tasks
  are not: what is modelled runs with the lock it takes, and the answer of a try-lock is an argument.
  The configuration is the default one: fragmentation, batching, peers and multicast on, no cache
  of the receiver, IDs of 16 bytes, a buffer of 4096 bytes for reassembly, batches of 2048 bytes.

  Bounds and fuel. Loops of the code that end are structural recursion or have a measure; the loop
  of a write over several slices has as fuel the number of bytes, each round writing at least one, which
  \<open>Zp_WBuf\<close> proves to be enough. The loops over a link, over the fragments of a message, over the messages of a packet
  and over the packets of a stream are partial functions with the value \<open>None\<close> for no return; the
  theorems that speak about them show that they return. The search of the key expression matcher is a partial
  function too: on expressions with at most two super wildcards it is shown to return, and with three it
  is shown not to. Opening a transport again is a partial function as well: it is shown to return when opening
  succeeds in the end and the network takes messages, and not to return when it takes none.

  Not modelled: the API above a session, scouting and opening with a configuration, the registration of a filter in a
  session, the multicast and raw Ethernet transports, the collections and
  utilities that the modelled code does not use, local delivery of publications and queries and cancellation (features that
  are off), the platforms, and the bindings. The manifest lists each with the reason.
\<close>

section \<open>Properties\<close>

text \<open>
  A variable length integer survives the wire: written into an empty write buffer with room
  for it, turned into a read buffer and decoded, it is the number that was written, and no
  byte is left.
\<close>

theorem zint64_roundtrip:
  assumes "wbuf_wf w" "wbuf_bytes w = []" "wbuf_fits w (length (z_zint64_encode_buf v))"
  shows "\<exists>w' z z'. z_zint64_encode v w = Ok () w' \<and> z_wbuf_to_zbuf w' = Ok () z \<and>
    z_zint64_decode z = Ok v z' \<and> zbuf_bytes z' = []"
  using assms by (rule zint64.roundtrip_fits [OF TrueI])

theorem zint64_roundtrip_witness:
  "\<exists>w' z z'. z_zint64_encode 300 (z_wbuf_make 9 False) = Ok () w' \<and> z_wbuf_to_zbuf w' = Ok () z \<and>
    z_zint64_decode z = Ok 300 z' \<and> zbuf_bytes z' = []"
proof (rule zint64_roundtrip)
  have "length (z_zint64_encode_buf 300) = 2" by code_simp
  then show "wbuf_fits (z_wbuf_make 9 False) (length (z_zint64_encode_buf 300))"
    by (simp add: z_wbuf_make_fits)
qed simp_all

text \<open>
  The length the code announces for a number is the length it writes, at most nine bytes.
\<close>

theorem zint_len_exact:
  "unat (z_zint_len v) = length (z_zint64_encode_buf v) \<and> length (z_zint64_encode_buf v) \<le> 9"
  using zint_len_buf [of v] zint_buf_length [of v] by (simp add: VLE_LEN_def)

section \<open>Samples\<close>

text \<open>A message of the model, the input of the witnesses: a put on a key, with payload and timestamp.\<close>

definition sample_id :: z_id_t where
  "sample_id = [7, 1, 0, 0, 0, 0, 0, 0, 0, 0, 0, 0, 0, 0, 0, 0]"

definition sample_push :: z_network_message_t where
  "sample_push = \<lparr>nm_body = N_Push \<lparr>pu_key = \<lparr>we_id = 9, we_mapping = KEYEXPR_MAPPING_LOCAL, we_suffix = [0x61, 0x2f, 0x62]\<rparr>,
     pu_timestamp = \<lparr>ts_valid = True, ts_id = sample_id, ts_time = 77\<rparr>, pu_qos = 5,
     pu_body = z_push_body_null\<lparr>pb_is_put := True, pb_put := z_msg_put_null\<lparr>put_payload := [[1, 2, 3]]\<rparr>\<rparr>\<rparr>,
     nm_reliability = Z_RELIABILITY_RELIABLE\<rparr>"

lemma sample_id_ok: "id_wf sample_id" "z_id_check sample_id" "\<not> z_id_check z_id_empty"
  by code_simp+

lemma sample_push_ok: "network_message_ok sample_push"
  by (simp add: sample_push_def sample_id_ok network_message_ok_def push_msg_ok_def key_ok_def opt_ts_ok_def ts_ok_def
      push_ok_def commons_ok_def z_push_body_null_def z_msg_put_null_def
      z_m_push_commons_null_def z_timestamp_null_def has_source_info_def z_source_info_null_def z_entity_global_id_null_def
      z_encoding_null_def z_push_body_null_def)

text \<open>C5
  A network message survives the wire: whatever its kind, with every field and extension the
  sender put into it, it is written into a write buffer with room for it, the buffer is turned
  into a read buffer, and the peer decodes the message that was sent, as seen from its side of
  the key expression mapping, with nothing left over.
\<close>

theorem network_roundtrip:
  assumes "network_message_ok m" "wbuf_wf w" "wbuf_bytes w = []" "wbuf_fits w (length (wire_network_message m))"
  shows "\<exists>w' z z'. z_network_message_encode m w = Ok () w' \<and> z_wbuf_to_zbuf w' = Ok () z \<and>
    z_network_message_decode mapping z = Ok (recv_network_message mapping m) z' \<and> zbuf_bytes z' = []"
  using assms by (rule network.roundtrip_fits)

theorem network_roundtrip_witness:
  "\<exists>w' z z'. z_network_message_encode sample_push (z_wbuf_make 16 True) = Ok () w' \<and> z_wbuf_to_zbuf w' = Ok () z \<and>
    z_network_message_decode (Peer_Mapping 3) z = Ok (recv_network_message (Peer_Mapping 3) sample_push) z' \<and>
    zbuf_bytes z' = []"
  by (rule network_roundtrip) (simp_all add: sample_push_ok z_wbuf_make_fits)



text \<open>
  A network message that does not fit is refused with the code for a full buffer, after only a
  prefix of its bytes was written behind what the buffer held.
\<close>

theorem network_encode_full:
  assumes "network_message_ok m" "wbuf_wf w" "\<not> wbuf_fits w (length (wire_network_message m))"
  shows "\<exists>w' pre. z_network_message_encode m w = Err Z_ERR_TRANSPORT_NO_SPACE w' \<and>
    prefix pre (wire_network_message m) \<and> wbuf_bytes w' = wbuf_bytes w @ pre"
  using assms by (rule network.enc_no_space)

lemma sample_push_length: "length (wire_network_message sample_push) = 17"
  by code_simp

theorem network_encode_full_witness:
  "\<exists>w' pre. z_network_message_encode sample_push (z_wbuf_make 10 False) = Err Z_ERR_TRANSPORT_NO_SPACE w' \<and>
    prefix pre (wire_network_message sample_push) \<and> wbuf_bytes w' = wbuf_bytes (z_wbuf_make 10 False) @ pre"
  by (rule network_encode_full) (simp_all add: sample_push_ok z_wbuf_make_fits sample_push_length)



text \<open>C24
  The decoder of declarations can be given any bytes: it returns, it never reads outside the
  readable part of the buffer, and the buffer is left well formed.
\<close>

theorem declaration_decoder_safe:
  assumes "zbuf_wf z"
  shows "z_declaration_decode mapping z \<noteq> Fault \<and>
    (\<forall>d e z'. z_declaration_decode mapping z = Ok d z' \<or> z_declaration_decode mapping z = Err e z' \<longrightarrow>
       zbuf_wf z' \<and> (\<exists>n. n \<le> length (zbuf_bytes z) \<and> zbuf_bytes z' = drop n (zbuf_bytes z)))"
  using decl.no_fault [OF assms] decl.stays_inside [OF assms] by blast

theorem declaration_decoder_safe_witness:
  "z_declaration_decode (Peer_Mapping 0) (z_slice_as_zbuf [0xe0, 0xff, 0xff]) \<noteq> Fault"
  using declaration_decoder_safe [OF slice_as_zbuf_wf] by blast

text \<open>
  The decoder of timestamps does not check the length of the ID: a timestamp that announces more
  bytes than the buffer holds makes it read past the end.
\<close>

theorem timestamp_overread:
  assumes "zbuf_wf z" "zbuf_bytes z = z_zint64_encode_buf t @ n # bs" "length bs < unat n"
  shows "z_timestamp_decode ts z = Fault"
proof -
  let ?z = "zadv (length (z_zint64_encode_buf t)) z"
  have t: "z_zint64_decode z = Ok t ?z" by (rule consumesD [OF zint64_consumes assms(1,2)])
  have z: "zbuf_wf ?z" "zbuf_bytes ?z = n # bs" using assms by (auto intro!: zadv_wf)
  note r = zbuf_read_at [OF z]
  have "zbuf_wf (zadv 1 ?z)" "zbuf_bytes (zadv 1 ?z) = bs" using z by (auto intro!: zadv_wf simp del: zadv_zadv)
  then have "z_zbuf_read_bytes (unat n) (zadv 1 ?z) = Fault"
    using assms(3) zbuf_len_bytes [of "zadv 1 ?z"]
    by (auto simp: z_zbuf_read_bytes_def on_ios_def z_iosli_read_bytes_def z_zbuf_len_def z_iosli_readable_def)
  then show ?thesis by (simp add: z_timestamp_decode_def attempt_def bind_ok_def t z_id_decode_as_slice_def r fault_def)
qed

theorem timestamp_overread_witness:
  "z_timestamp_decode z_timestamp_null (z_slice_as_zbuf [5, 16, 1, 2]) = Fault"
proof (rule timestamp_overread)
  show "zbuf_bytes (z_slice_as_zbuf [5, 16, 1, 2]) = z_zint64_encode_buf 5 @ 16 # [1, 2]" by code_simp
qed simp_all

text \<open>C25
  A write buffer, fixed or growing, with however many slices, implements a sequence of bytes: a
  write appends all its bytes when they fit, and otherwise reports a full buffer and keeps a prefix.
\<close>

theorem wbuf_write_refines:
  assumes "wbuf_wf w"
  shows "case z_wbuf_write_bytes bs 0 (length bs) w of
      Ok _ w' \<Rightarrow> wbuf_fits w (length bs) \<and> wbuf_wf w' \<and> wbuf_bytes w' = wbuf_bytes w @ bs
    | Err e w' \<Rightarrow> e = Z_ERR_TRANSPORT_NO_SPACE \<and> \<not> wbuf_fits w (length bs) \<and> wbuf_wf w' \<and>
        (\<exists>pre. prefix pre bs \<and> wbuf_bytes w' = wbuf_bytes w @ pre)
    | Fault \<Rightarrow> False"
  using appends_ok [OF appends_write_all assms, of bs] appends_err [OF appends_write_all assms, of bs]
  by (cases "wbuf_fits w (length bs)") (auto simp: wrote_def)

theorem wbuf_write_refines_witness:
  "case z_wbuf_write_bytes [1, 2, 3] 0 (length [1, 2, 3 :: byte]) (z_wbuf_make 2 True) of
      Ok _ w' \<Rightarrow> wbuf_fits (z_wbuf_make 2 True) (length [1, 2, 3 :: byte]) \<and> wbuf_wf w' \<and>
        wbuf_bytes w' = wbuf_bytes (z_wbuf_make 2 True) @ [1, 2, 3]
    | Err e w' \<Rightarrow> e = Z_ERR_TRANSPORT_NO_SPACE \<and> \<not> wbuf_fits (z_wbuf_make 2 True) (length [1, 2, 3 :: byte]) \<and>
        wbuf_wf w' \<and> (\<exists>pre. prefix pre [1, 2, 3] \<and> wbuf_bytes w' = wbuf_bytes (z_wbuf_make 2 True) @ pre)
    | Fault \<Rightarrow> False"
  by (rule wbuf_write_refines) simp

text \<open>
  When a message does not fit into a batch, setting the write position back to the mark taken
  before restores the batch, so that what it held before can be sent.
\<close>

theorem network_rollback:
  assumes "network_message_ok m" "wbuf_wf w" "sv_val (wb_ioss w) = [ios]" "wb_expansion_step w = 0"
    "\<not> wbuf_fits w (length (wire_network_message m))"
  shows "\<exists>pos w' w''. z_wbuf_get_wpos w = Some pos \<and>
    z_network_message_encode m w = Err Z_ERR_TRANSPORT_NO_SPACE w' \<and> z_wbuf_set_wpos pos w' = Ok () w'' \<and>
    wbuf_wf w'' \<and> wbuf_bytes w'' = wbuf_bytes w"
proof -
  obtain w' pre where "z_network_message_encode m w = Err Z_ERR_TRANSPORT_NO_SPACE w'" "wrote pre w w'"
    using appends_err [OF appends_network_message [OF assms(1)] assms(2,5)] by blast
  then show ?thesis using wbuf_rollback [OF assms(2-4)] by blast
qed

theorem network_rollback_witness:
  "\<exists>pos w' w''. z_wbuf_get_wpos (z_wbuf_make 10 False) = Some pos \<and>
    z_network_message_encode sample_push (z_wbuf_make 10 False) = Err Z_ERR_TRANSPORT_NO_SPACE w' \<and>
    z_wbuf_set_wpos pos w' = Ok () w'' \<and> wbuf_wf w'' \<and> wbuf_bytes w'' = wbuf_bytes (z_wbuf_make 10 False)"
proof (rule network_rollback)
  show "sv_val (wb_ioss (z_wbuf_make 10 False)) = [z_iosli_make 10]" by code_simp
qed (simp_all add: sample_push_ok sample_push_length z_wbuf_make_fits)

text \<open>
  Siphoning moves the first bytes of one buffer to the end of another and takes them away from
  the source, across the slices of both.
\<close>

theorem wbuf_siphon_moves:
  assumes "wbuf_wf dst" "wbuf_wf src" "0 < n" "n \<le> length (wbuf_bytes src)" "z_wbuf_space_left dst = Some k" "n \<le> k"
  shows "\<exists>dst' src'. z_wbuf_siphon n (dst, src) = Ok () (dst', src') \<and> wbuf_wf dst' \<and> wbuf_wf src' \<and>
    wbuf_bytes dst' = wbuf_bytes dst @ take n (wbuf_bytes src) \<and> wbuf_bytes src' = drop n (wbuf_bytes src)"
  using wbuf_siphon_ok [OF assms] by (fastforce simp: wrote_def)

definition sample_src :: z_wbuf_t where
  "sample_src = (case z_wbuf_write_bytes [1, 2, 3] 0 3 (z_wbuf_make 2 True) of Ok _ w \<Rightarrow> w | _ \<Rightarrow> z_wbuf_make 2 True)"

theorem wbuf_siphon_moves_witness:
  "\<exists>dst' src'. z_wbuf_siphon 2 (z_wbuf_make 4 False, sample_src) = Ok () (dst', src') \<and> wbuf_wf dst' \<and> wbuf_wf src' \<and>
    wbuf_bytes dst' = wbuf_bytes (z_wbuf_make 4 False) @ take 2 (wbuf_bytes sample_src) \<and>
    wbuf_bytes src' = drop 2 (wbuf_bytes sample_src)"
proof (rule wbuf_siphon_moves)
  show "wbuf_wf sample_src" "2 \<le> length (wbuf_bytes sample_src)" by code_simp+
  show "z_wbuf_space_left (z_wbuf_make 4 False) = Some 4" by code_simp
qed simp_all

text \<open>
  A sequence number precedes exactly the numbers less than half the range ahead of it, also when
  the counter wraps around in between.
\<close>

theorem sn_window_order:
  assumes "0 < b" "b < 64" "n < 2 ^ b"
  shows "z_sn_precedes (mask b) l ((l + of_nat n) AND mask b) \<longleftrightarrow> 0 < n \<and> n < 2 ^ (b - 1)"
  using assms by (rule sn_precedes_window)

theorem sn_window_order_witness: "z_sn_precedes (mask 7) 126 ((126 + of_nat 4) AND mask 7)"
  using sn_window_order [of 7 4 126] by simp

text \<open>
  Precedence of sequence numbers is irreflexive and asymmetric, and any two numbers that differ
  and are not exactly half the range apart are ordered.
\<close>

theorem sn_strict_order:
  assumes "0 < b" "b < 64"
  shows "\<not> z_sn_precedes (mask b) l l \<and>
    (z_sn_precedes (mask b) l r \<longrightarrow> \<not> z_sn_precedes (mask b) r l) \<and>
    ((r - l) AND mask b \<noteq> 0 \<and> unat ((r - l) AND mask b) \<noteq> 2 ^ (b - 1) \<longrightarrow>
       z_sn_precedes (mask b) l r \<or> z_sn_precedes (mask b) r l)"
  using sn_precedes_asym [OF assms] sn_precedes_total [OF assms] by blast

theorem sn_strict_order_witness:
  "\<not> z_sn_precedes (mask 7) 126 126 \<and> \<not> z_sn_precedes (mask 7) 2 126"
proof -
  have "z_sn_precedes (mask 7) 126 2" by code_simp
  then show ?thesis using sn_strict_order [of 7 126 2] by simp
qed

text \<open>
  The successor of a sequence number is consecutive to it, and increment and decrement are
  inverse to each other on the numbers of the resolution.
\<close>

theorem sn_step:
  assumes "0 < b" "b < 64"
  shows "z_sn_consecutive (mask b) sn (z_sn_increment (mask b) sn) \<and>
    z_sn_decrement (mask b) (z_sn_increment (mask b) sn) = sn AND mask b \<and>
    z_sn_increment (mask b) (z_sn_decrement (mask b) sn) = sn AND mask b"
  using sn_increment_consecutive [OF assms] sn_increment_decrement [OF assms(2)] by blast

theorem sn_step_witness: "z_sn_decrement (mask 28) (z_sn_increment (mask 28) 268435455) = 268435455 AND mask 28"
  using sn_step [of 28 268435455] by simp

text \<open>
  Decrementing the numbers of a conduit with priorities assigns the best effort number twice:
  each reliable number is left as it was, and each best effort number is lost.
\<close>

theorem conduit_decrement_loses_best_effort:
  assumes "conduit_wf c" "sn_is_qos c"
  shows "sn_val (z_conduit_sn_list_decrement m c) =
    map (\<lambda>p. \<lparr>sn_reliable = sn_reliable p, sn_best_effort = z_sn_decrement m (sn_reliable p)\<rparr>) (sn_val c)"
  using assms by (rule conduit_decrement_qos)

theorem conduit_decrement_loses_best_effort_witness:
  "sn_val (z_conduit_sn_list_decrement 127 \<lparr>sn_val = replicate 8 \<lparr>sn_reliable = 5, sn_best_effort = 9\<rparr>, sn_is_qos = True\<rparr>) =
   replicate 8 \<lparr>sn_reliable = 5, sn_best_effort = 4\<rparr>"
proof (subst conduit_decrement_loses_best_effort)
  show "conduit_wf \<lparr>sn_val = replicate 8 \<lparr>sn_reliable = 5, sn_best_effort = 9\<rparr>, sn_is_qos = True\<rparr>" by code_simp
qed (simp_all add: z_sn_decrement_def)

text \<open>
  A 16-bit field takes the numbers of 16 bits and refuses every larger one.
\<close>

theorem zint_narrow:
  assumes "zbuf_wf z" "zbuf_bytes z = z_zint64_encode_buf v @ rest"
  shows "if v \<le> UINT16_MAX then \<exists>z'. z_zint16_decode z = Ok (ucast v) z' \<and> zbuf_bytes z' = rest
    else \<exists>z'. z_zint16_decode z = Err Z_ERR_MESSAGE_DESERIALIZATION_FAILED z'"
  using consumesD [OF zint64_consumes assms] assms(2)
  by (auto simp: z_zint16_decode_def bind_ok_def fail_def ret_def)

theorem zint_narrow_witness:
  "\<exists>z'. z_zint16_decode (z_slice_as_zbuf (z_zint64_encode_buf 65536 @ [1])) = Err Z_ERR_MESSAGE_DESERIALIZATION_FAILED z'"
  using zint_narrow [of "z_slice_as_zbuf (z_zint64_encode_buf 65536 @ [1])" 65536 "[1]"] by (simp add: UINT16_MAX_def)

text \<open>
  The encoder of an extension returns success without the whole extension having been written:
  when only its header fits, a proper prefix is left in the buffer.
\<close>

theorem ext_encode_cut_short:
  assumes "ext_wf e" "wbuf_wf w" "wbuf_fits w 1" "\<not> wbuf_fits w (length (wire_ext nxt e))"
  shows "\<exists>w' pre. z_msg_ext_encode e nxt w = Ok () w' \<and> strict_prefix pre (wire_ext nxt e) \<and>
    wbuf_bytes w' = wbuf_bytes w @ pre"
  using assms by (rule ext_encode_truncates)

definition sample_ext :: z_msg_ext_t where
  "sample_ext = z_msg_ext_make_zbuf 3 [1, 2, 3, 4]"

lemma sample_ext_wf: "ext_wf sample_ext"
  by (simp add: sample_ext_def ext_wf_def z_msg_ext_make_zbuf_def z_ext_consts)

theorem ext_encode_cut_short_witness:
  "\<exists>w' pre. z_msg_ext_encode sample_ext False (z_wbuf_make 3 False) = Ok () w' \<and>
    strict_prefix pre (wire_ext False sample_ext) \<and> wbuf_bytes w' = wbuf_bytes (z_wbuf_make 3 False) @ pre"
proof (rule ext_encode_cut_short [OF sample_ext_wf])
  have "length (wire_ext False sample_ext) = 6" by code_simp
  then show "\<not> wbuf_fits (z_wbuf_make 3 False) (length (wire_ext False sample_ext))" by (simp add: z_wbuf_make_fits)
qed (simp_all add: z_wbuf_make_fits)

text \<open>
  A vector of extensions is written with the flag for another extension set on the last one too,
  so that the decoder of vectors fails on what the encoder wrote.
\<close>

theorem ext_vec_not_decodable:
  assumes "\<forall>e \<in> set es. ext_wf e" "wbuf_wf w" "wbuf_bytes w = []" "wbuf_fits w (length (concat (map (wire_ext True) es)))"
  shows "\<exists>w' z z'. z_msg_ext_vec_encode es w = Ok () w' \<and> z_wbuf_to_zbuf w' = Ok () z \<and>
    z_msg_ext_vec_decode z = Err Z_ERR_MESSAGE_DESERIALIZATION_FAILED z'"
proof -
  obtain w' where w': "z_msg_ext_vec_encode es w = Ok () w'" "wrote (concat (map (wire_ext True) es)) w w'"
    using ext_vec_encode_bytes [OF assms(1,2,4)] by blast
  then obtain z where "z_wbuf_to_zbuf w' = Ok () z" "zbuf_wf z" "zbuf_bytes z = concat (map (wire_ext True) es)"
    using wbuf_to_zbuf_ok [of w'] assms(3) by (auto simp: wrote_def)
  with w'(1) show ?thesis
    using ext_vec_not_readable [OF assms(1), of z z_msg_ext_vec_push_callback "[]"] push_callback_ok
    by (auto simp: z_msg_ext_vec_decode_def)
qed

theorem ext_vec_not_decodable_witness:
  "\<exists>w' z z'. z_msg_ext_vec_encode [sample_ext] (z_wbuf_make 8 True) = Ok () w' \<and> z_wbuf_to_zbuf w' = Ok () z \<and>
    z_msg_ext_vec_decode z = Err Z_ERR_MESSAGE_DESERIALIZATION_FAILED z'"
  by (rule ext_vec_not_decodable) (simp_all add: sample_ext_wf z_wbuf_make_fits)

text \<open>
  The decoder of vectors of extensions appends the extension after it was reset: whatever was
  read, the vector holds only empty unit extensions.
\<close>

theorem ext_vec_decode_drops:
  assumes "z_msg_ext_vec_decode z = Ok es z'"
  shows "\<exists>n. es = replicate (Suc n) (z_msg_ext_make_unit 0)"
  using push_callback_iter [of "[]" z es z'] assms by (simp add: z_msg_ext_vec_decode_def)

theorem ext_vec_decode_drops_witness:
  "\<exists>z' n. z_msg_ext_vec_decode (z_slice_as_zbuf [0x21, 5]) = Ok (replicate (Suc n) (z_msg_ext_make_unit 0)) z'"
proof -
  have "case z_msg_ext_vec_decode (z_slice_as_zbuf [0x21, 5]) of Ok _ _ \<Rightarrow> True | _ \<Rightarrow> False"
    by (simp add: z_msg_ext_vec_decode_def z_msg_ext_decode_iter.simps) code_simp
  then show ?thesis using ext_vec_decode_drops by (fastforce split: res.splits)
qed

text \<open>
  Comparison of timestamps is a total order: total, transitive and antisymmetric.
\<close>

theorem timestamp_total_order:
  assumes "length (ts_id a) = length (ts_id b)" "length (ts_id b) = length (ts_id c)"
  shows "(z_timestamp_cmp a b \<le> 0 \<or> z_timestamp_cmp b a \<le> 0) \<and>
    (z_timestamp_cmp a b \<le> 0 \<and> z_timestamp_cmp b c \<le> 0 \<longrightarrow> z_timestamp_cmp a c \<le> 0) \<and>
    (z_timestamp_cmp a b \<le> 0 \<and> z_timestamp_cmp b a \<le> 0 \<longleftrightarrow> a = b)"
  using z_timestamp_cmp_sym [of b a] z_timestamp_cmp_0 [OF assms(1)] z_timestamp_cmp_trans [OF assms]
  by (auto simp: z_timestamp_cmp_sym [of b a])

theorem timestamp_total_order_witness:
  "z_timestamp_cmp \<lparr>ts_valid = True, ts_id = [1, 2], ts_time = 8\<rparr> \<lparr>ts_valid = True, ts_id = [1, 3], ts_time = 8\<rparr> \<le> 0 \<or>
   z_timestamp_cmp \<lparr>ts_valid = True, ts_id = [1, 3], ts_time = 8\<rparr> \<lparr>ts_valid = True, ts_id = [1, 2], ts_time = 8\<rparr> \<le> 0"
  by (rule timestamp_total_order [where c = "\<lparr>ts_valid = True, ts_id = [1, 3], ts_time = 8\<rparr>", THEN conjunct1]) simp_all

section \<open>Transports\<close>

text \<open>
  The transport of the witnesses: a link that takes every packet and whose network is the list of
  what was written to it, with what a handshake leaves of a peer that knows fragment markers.
\<close>

definition sample_link :: "(byte list list, nat) z_link_t" where
  "sample_link = \<lparr>lk_write_f = (\<lambda>s bs net. (length bs, net @ [bs])), lk_read_f = (\<lambda>n net. (None, net)),
     lk_read_exact_f = (\<lambda>n s net. (None, net)), lk_read_socket_f = (\<lambda>s n net. (None, net)), lk_mtu = 1500,
     lk_flow = Z_LINK_CAP_FLOW_DATAGRAM\<rparr>"

definition sample_param :: z_transport_unicast_establish_param_t where
  "sample_param = \<lparr>ep_remote_zid = sample_id, ep_batch_size = 30, ep_initial_sn_rx = 0, ep_initial_sn_tx = 0,
     ep_lease = 9000, ep_remote_whatami = Z_WHATAMI_PEER, ep_key_id_res = 0, ep_req_id_res = 0, ep_seq_num_res = 2,
     ep_is_qos = False, ep_patch = 1\<rparr>"

definition sample_ztu :: "(byte list list, nat, unit) z_transport_unicast_t" where
  "sample_ztu = z_transport_peer_unicast_add sample_param 4 True (snd (z_unicast_transport_create sample_link sample_param []))"

abbreviation sample_ztc :: "(byte list list, nat) z_transport_common_t" where
  "sample_ztc \<equiv> zu_common sample_ztu"

lemma sample_create: "\<exists>ztu. z_unicast_transport_create sample_link sample_param [] = (Z_RES_OK, ztu :: (byte list list, nat, unit) z_transport_unicast_t) \<and> zu_peers ztu = [] \<and>
    batch_inv 30 (zu_common ztu) [] \<and>
    tc_link (zu_common ztu) = sample_link \<and> tc_net (zu_common ztu) = [] \<and> tc_sn_res (zu_common ztu) = z_sn_max 2 \<and>
    (\<forall>r. sn_tx r (zu_common ztu) = 0) \<and> tc_batch_state (zu_common ztu) = Z_BATCHING_IDLE"
  using create_ok [of sample_link sample_param "[]"]
  by (simp add: sample_param_def sample_link_def link_takes_all_def)

lemma sample_sn_res: "z_sn_max 2 = mask 28"
  by (simp add: z_sn_max_def) code_simp

lemma sample_ztc_facts:
  "batch_inv 30 sample_ztc []" "tx_ready 30 sample_ztc" "tc_link sample_ztc = sample_link" "tc_net sample_ztc = []"
  "tc_sn_res sample_ztc = mask 28" "sn_tx r sample_ztc = 0" "tc_batch_state sample_ztc = Z_BATCHING_IDLE"
  "\<exists>p. zu_peers sample_ztu = [p]"
  using sample_create sample_sn_res
  by (auto simp: sample_ztu_def z_transport_peer_unicast_add_def Let_def batch_inv_def)

lemma sample_peer_facts:
  "\<exists>p. zu_peers sample_ztu = [p] \<and> (\<forall>c. idle c (pu_common p) \<and> next_sn (mask 28) False (sn_rx c p) 0) \<and>
     Z_PATCH_HAS_FRAGMENT_MARKERS (pc_patch (pu_common p))"
proof -
  obtain ztu where ztu: "z_unicast_transport_create sample_link sample_param [] = (Z_RES_OK, ztu :: (byte list list, nat, unit) z_transport_unicast_t)"
    "zu_peers ztu = []" "tc_sn_res (zu_common ztu) = mask 28"
    using sample_create sample_sn_res by auto
  have sn: "ep_initial_sn_rx sample_param AND mask 28 = ep_initial_sn_rx sample_param" by code_simp
  obtain p where p: "zu_peers (z_transport_peer_unicast_add sample_param 4 True ztu) = p # zu_peers ztu"
    "\<forall>c. idle c (pu_common p) \<and> next_sn (mask 28) False (sn_rx c p) (ep_initial_sn_rx sample_param)"
    using peer_add_ok [OF ztu(3) _ _ sn, of 4 True] by auto
  moreover have "Z_PATCH_HAS_FRAGMENT_MARKERS (pc_patch (pu_common p))"
    using p(1) by (auto simp: z_transport_peer_unicast_add_def Let_def sample_param_def Z_PATCH_HAS_FRAGMENT_MARKERS_def t_config_defs)
  ultimately show ?thesis using ztu(1,2) by (auto simp: sample_ztu_def sample_param_def)
qed

text \<open>C9
  A transport message survives the wire: whatever its kind, it is written into a write buffer with
  room for it, and the peer decodes from these bytes the message that was sent, the payload of a
  frame being the bytes that follow its header.
\<close>

theorem transport_roundtrip:
  assumes "transport_ok m" "wbuf_wf w" "wbuf_bytes w = []" "wbuf_fits w (length (wire_transport m))"
  shows "\<exists>w' z m' z'. z_transport_message_encode m w = Ok () w' \<and> z_wbuf_to_zbuf w' = Ok () z \<and>
    z_transport_message_decode z = Ok m' z' \<and> transport_same m m'"
  using assms by (rule transport.packet_roundtrip)

theorem transport_roundtrip_witness:
  "\<exists>w' z m' z'. z_transport_message_encode (z_t_msg_make_open_syn 10000 77 [1, 2, 3]) (z_wbuf_make 64 False) = Ok () w' \<and>
    z_wbuf_to_zbuf w' = Ok () z \<and> z_transport_message_decode z = Ok m' z' \<and>
    transport_same (z_t_msg_make_open_syn 10000 77 [1, 2, 3]) m'"
proof (rule transport_roundtrip)
  show "transport_ok (z_t_msg_make_open_syn 10000 77 [1, 2, 3])" by (rule makers_ok) simp
  have "length (wire_transport (z_t_msg_make_open_syn 10000 77 [1, 2, 3])) \<le> 64" by code_simp
  then show "wbuf_fits (z_wbuf_make 64 False) (length (wire_transport (z_t_msg_make_open_syn 10000 77 [1, 2, 3])))"
    by (simp add: z_wbuf_make_fits)
qed simp_all

text \<open>C23
  The decoder of transport messages, the first to see what arrives on a link, can be given any
  bytes: it returns, and it stays inside the readable part of the buffer.
\<close>

theorem transport_decoder_safe:
  assumes "zbuf_wf z"
  shows "z_transport_message_decode z \<noteq> Fault \<and>
    (\<forall>m e z'. z_transport_message_decode z = Ok m z' \<or> z_transport_message_decode z = Err e z' \<longrightarrow>
       zbuf_wf z' \<and> (\<exists>n. n \<le> length (zbuf_bytes z) \<and> zbuf_bytes z' = drop n (zbuf_bytes z)))"
  using transport.no_fault [OF assms] transport.stays_inside [OF assms] by blast

theorem transport_decoder_safe_witness:
  "z_transport_message_decode (z_slice_as_zbuf [0x81, 0x0a, 0xff]) \<noteq> Fault"
  using transport_decoder_safe [OF slice_as_zbuf_wf] by blast

text \<open>C7
  Batching keeps every message in order: when some messages wait in the batch, sending one
  more succeeds, and the messages that the packets put on the link carry, followed by those
  that wait afterwards, are the ones that waited with the new one behind them. None is lost, repeated or overtaken, also when
  the batch overflows and when the message has to be fragmented.
\<close>

theorem batch_keeps_messages:
  assumes "batch_inv cap t ms" "network_message_ok m"
  shows "\<exists>t' ps out ms'. z_transport_tx_send_n_msg_inner m r peers t = Ok () t' \<and> sends cap peers ps t t' \<and>
    carries (tc_sn_res t) ps out \<and> out @ ms' = ms @ [m] \<and> batch_inv cap t' ms'"
  using assms by (rule send_n_msg_inner_ok)

theorem batch_keeps_messages_witness:
  "\<exists>t' ps out ms'. z_transport_tx_send_n_msg_inner sample_push Z_RELIABILITY_RELIABLE [] sample_ztc = Ok () t' \<and>
    sends 30 [] ps sample_ztc t' \<and> carries (tc_sn_res sample_ztc) ps out \<and> out @ ms' = [] @ [sample_push] \<and> batch_inv 30 t' ms'"
  by (rule batch_keeps_messages [OF sample_ztc_facts(1) sample_push_ok])

text \<open>
  A transport message never overtakes the batch: what waits is sent in a packet before the
  message's own packet, and the batch is empty afterwards.
\<close>

theorem transport_message_flushes:
  assumes "batch_inv cap t ms" "transport_ok m" "length (wire_transport m) + 2 \<le> cap"
  shows "\<exists>t' ps. z_transport_tx_send_t_msg_inner m peers t = Ok () t' \<and> sends cap peers (ps @ [wire_transport m]) t t' \<and>
    carries (tc_sn_res t) ps ms \<and> batch_inv cap t' []"
  using assms by (rule send_t_msg_keeps)

theorem transport_message_flushes_witness:
  "\<exists>t' ps. z_transport_tx_send_t_msg_inner z_t_msg_make_keep_alive [] sample_ztc = Ok () t' \<and>
    sends 30 [] (ps @ [wire_transport z_t_msg_make_keep_alive]) sample_ztc t' \<and>
    carries (tc_sn_res sample_ztc) ps [] \<and> batch_inv 30 t' []"
proof (rule transport_message_flushes [OF sample_ztc_facts(1) make_rest_ok(2)])
  show "length (wire_transport z_t_msg_make_keep_alive) + 2 \<le> 30" by code_simp
qed

text \<open>C10
  Fragmentation ends, for every message and every buffer with room for a header: the call returns
  successfully, and the packets it put on the link are a chain of fragments, numbered one after
  another, none of them empty, the first and the last marked, whose payloads are the bytes of the message.
\<close>

theorem fragmentation_terminates:
  assumes "network_message_ok m" "tx_ready cap t" "sn_tx r t = z_sn_increment (tc_sn_res t) sn"
  shows "\<exists>t' fs. z_transport_tx_send_fragment m r sn peers t = Ok () t' \<and> sends cap peers (map wire_transport fs) t t' \<and>
    frag_chain (tc_sn_res t) r True sn (wire_network_message m) fs"
  using send_fragment_ok [OF assms] by blast

theorem fragmentation_terminates_witness:
  "\<exists>t' fs. z_transport_tx_send_fragment sample_push Z_RELIABILITY_RELIABLE (mask 28) [] sample_ztc = Ok () t' \<and>
    sends 30 [] (map wire_transport fs) sample_ztc t' \<and>
    frag_chain (tc_sn_res sample_ztc) Z_RELIABILITY_RELIABLE True (mask 28) (wire_network_message sample_push) fs"
proof (rule fragmentation_terminates [OF sample_push_ok sample_ztc_facts(2)])
  have "(0 :: z_zint_t) = z_sn_increment (mask 28) (mask 28)" by code_simp
  then show "sn_tx Z_RELIABILITY_RELIABLE sample_ztc = z_sn_increment (tc_sn_res sample_ztc) (mask 28)"
    by (simp only: sample_ztc_facts)
qed

definition sample_rx :: "(byte list list, nat, unit) unicast_rx_t" where
  "sample_rx = \<lparr>ur_common = sample_ztc, ur_peer = hd (zu_peers sample_ztu), ur_zbuf = z_zbuf_null\<rparr>"

lemma sample_rx_facts:
  "tc_sn_res (ur_common sample_rx) = mask 28" "idle c (pu_common (ur_peer sample_rx))"
  "z_sn_precedes (mask 28) (sn_rx c (ur_peer sample_rx)) 0" "next_sn (mask 28) False (sn_rx c (ur_peer sample_rx)) 0"
  "Z_PATCH_HAS_FRAGMENT_MARKERS (pc_patch (pu_common (ur_peer sample_rx)))"
  using sample_peer_facts sample_ztc_facts(5) by (auto simp: sample_rx_def next_sn_def)

text \<open>A session of the witnesses: it notes each message in the network of the transport.\<close>

definition note_message ::
    "z_network_message_t \<Rightarrow> (byte list list, nat) z_transport_common_t \<times> unit z_transport_peer_common_t \<Rightarrow>
     (byte list list, nat) z_transport_common_t \<times> unit z_transport_peer_common_t" where
  "note_message m cp = ((fst cp)\<lparr>tc_net := tc_net (fst cp) @ [wire_network_message m]\<rparr>, snd cp)"

text \<open>C1
  What is sent arrives. A message is handed to a transport that does not batch; the packets that
  this puts on the link are handed, one by one, to the receiver of a peer with the same resolution
  that has not yet seen its number: its session is given the message, as seen from its side, exactly once.
  It has the reliability it was sent with precisely when it fitted into one frame: a message that
  was fragmented arrives on the other channel, since the sender announces the wrong one.
\<close>

theorem message_delivered:
  assumes "tx_ready cap t" "tc_batch_state t \<noteq> Z_BATCHING_ACTIVE" "network_message_ok m"
    "length (wire_network_message m) \<le> Z_FRAG_MAX_SIZE" "tc_sn_res t = mask b" "1 < b" "b < 64"
    "tc_sn_res (ur_common s) = mask b" "\<And>c. z_sn_precedes (mask b) (sn_rx c (ur_peer s)) (sn_tx r t)"
    "\<And>c. idle c (pu_common (ur_peer s))" "Z_PATCH_HAS_FRAGMENT_MARKERS (pc_patch (pu_common (ur_peer s)))"
    "r = Z_RELIABILITY_RELIABLE \<or> r = Z_RELIABILITY_BEST_EFFORT"
  shows "\<exists>t' ps s' r' p. z_transport_tx_send_n_msg_inner m r peers t = Ok () t' \<and> sends cap peers ps t t' \<and>
    receive_packets mapping (\<lambda>x cp. Ok () (deliver_to x cp)) ps s = Some (Ok () s') \<and>
    ur_common s' = fst (deliver_to ((recv_network_message mapping m)\<lparr>nm_reliability := r'\<rparr>) (ur_common s, p)) \<and>
    (r' = r \<longleftrightarrow> length (room (lk_flow (tc_link t))) + length (frame_wire (sn_tx r t) r) + length (wire_network_message m) \<le> cap)"
proof -
  obtain t' ps where t: "z_transport_tx_send_n_msg_inner m r peers t = Ok () t'" "sends cap peers ps t t'" "one_message cap r m t ps"
    using send_one [OF assms(1-3)] by blast
  then show ?thesis
    using one_message_received [OF t(3) assms(3-12), of mapping deliver_to] unfolding received_def by blast
qed

theorem message_delivered_witness:
  "\<exists>t' ps s' r' p. z_transport_tx_send_n_msg_inner sample_push Z_RELIABILITY_RELIABLE [] sample_ztc = Ok () t' \<and>
    sends 30 [] ps sample_ztc t' \<and>
    receive_packets KEYEXPR_MAPPING_LOCAL (\<lambda>x cp. Ok () (note_message x cp)) ps sample_rx = Some (Ok () s') \<and>
    ur_common s' = fst (note_message ((recv_network_message KEYEXPR_MAPPING_LOCAL sample_push)\<lparr>nm_reliability := r'\<rparr>) (ur_common sample_rx, p)) \<and>
    (r' = Z_RELIABILITY_RELIABLE \<longleftrightarrow> length (room (lk_flow (tc_link sample_ztc))) +
       length (frame_wire (sn_tx Z_RELIABILITY_RELIABLE sample_ztc) Z_RELIABILITY_RELIABLE) + length (wire_network_message sample_push) \<le> 30)"
  by (rule message_delivered [where b = 28])
    (simp_all add: sample_ztc_facts sample_rx_facts sample_push_ok sample_push_length Z_FRAG_MAX_SIZE_def Z_BATCHING_IDLE_def Z_BATCHING_ACTIVE_def)

text \<open>C21
  All the messages of a frame reach the session, in the order they were put into it, and the
  number of the frame is noted for its channel only.
\<close>

theorem frame_in_order:
  assumes "list_all network_message_ok ms" "zbuf_wf (ur_zbuf s)" "zbuf_bytes (ur_zbuf s) = frame_wire sn r @ messages_wire ms"
    "reliable = (r = Z_RELIABILITY_RELIABLE)" "z_sn_precedes (tc_sn_res (ur_common s)) (sn_rx reliable (ur_peer s)) sn"
    "handle_all handle (map (received mapping (channel_reliability reliable)) ms) (session_state s) = Ok () cp"
  shows "\<exists>s'. messages_loop mapping handle s = Some (Ok () s') \<and> session_state s' = cp \<and>
    sn_rx reliable (ur_peer s') = sn \<and> sn_rx (\<not> reliable) (ur_peer s') = sn_rx (\<not> reliable) (ur_peer s)"
  using assms by (rule frame_received)

theorem frame_in_order_witness:
  "\<exists>s' cp. messages_loop KEYEXPR_MAPPING_LOCAL (\<lambda>x cp. Ok () (note_message x cp))
      (sample_rx\<lparr>ur_zbuf := z_slice_as_zbuf (frame_wire 0 Z_RELIABILITY_RELIABLE @ messages_wire [sample_push, sample_push])\<rparr>) = Some (Ok () s') \<and>
    sn_rx True (ur_peer s') = 0 \<and> session_state s' = cp"
proof -
  let ?h = "\<lambda>x cp. Ok () (note_message x cp)" and ?m = "received KEYEXPR_MAPPING_LOCAL (channel_reliability True) sample_push"
  let ?s = "sample_rx\<lparr>ur_zbuf := z_slice_as_zbuf (frame_wire 0 Z_RELIABILITY_RELIABLE @ messages_wire [sample_push, sample_push])\<rparr>"
  have "handle_all ?h (map (received KEYEXPR_MAPPING_LOCAL (channel_reliability True)) [sample_push, sample_push]) (session_state ?s) =
      Ok () (note_message ?m (note_message ?m (session_state ?s)))"
    by (simp add: then_do_def bind_ok_def ret_def)
  from frame_in_order [OF _ _ _ _ _ this, of 0 Z_RELIABILITY_RELIABLE] show ?thesis
    by (auto simp: sample_push_ok sample_rx_facts)
qed

text \<open>A transport in whose batch a message waits.\<close>

definition sample_batched :: "(byte list list, nat) z_transport_common_t" where
  "sample_batched = (case z_transport_tx_send_n_msg_inner sample_push Z_RELIABILITY_RELIABLE [] (snd (z_transport_start_batching sample_ztc)) of
     Ok _ t \<Rightarrow> t | _ \<Rightarrow> sample_ztc)"

lemma sample_batched_inv: "batch_inv 30 sample_batched [sample_push]"
proof -
  let ?t = "snd (z_transport_start_batching sample_ztc)"
  have "batch_inv 30 ?t []" using sample_ztc_facts(1) by (simp add: z_transport_start_batching_def batch_inv_def tx_ready_def)
  then obtain t' ps out ms' where t': "z_transport_tx_send_n_msg_inner sample_push Z_RELIABILITY_RELIABLE [] ?t = Ok () t'"
    "out @ ms' = [sample_push]" "batch_inv 30 t' ms'"
    using send_n_msg_inner_ok [OF _ sample_push_ok, where cap = 30 and t = ?t and ms = "[]" and peers = "[]" and r = Z_RELIABILITY_RELIABLE]
    by auto
  have "tc_batch_count sample_batched = 1" by code_simp
  then have "length ms' = 1" using t'(1,3) by (simp add: sample_batched_def batch_inv_def)
  then have "ms' = [sample_push]" using t'(2) by (cases out) auto
  then show ?thesis using t'(1,3) by (simp add: sample_batched_def)
qed

text \<open>C40
  Switching batching off before the batch is sent, as stopping a batch in the API does, leaves a gap in which a
  message overwrites the batch: the only packet on the link is the frame of the new message, and
  the messages that waited are neither sent nor counted any more.
\<close>

theorem stopped_batch_is_lost:
  assumes "batch_inv cap t ms" "ms \<noteq> []" "network_message_ok m"
    "length (room (lk_flow (tc_link t))) + length (frame_wire (sn_tx r t) r) + length (wire_network_message m) \<le> cap"
  shows "\<exists>t'. z_transport_tx_send_n_msg_inner m r peers (z_transport_stop_batching t) = Ok () t' \<and>
    sends cap peers [frame_wire (sn_tx r t) r @ wire_network_message m] (z_transport_stop_batching t) t' \<and> tc_batch_count t' = 0"
proof -
  have "tx_ready cap (z_transport_stop_batching t)" "tc_link (z_transport_stop_batching t) = tc_link t"
    "sn_tx r (z_transport_stop_batching t) = sn_tx r t" "tc_batch_state (z_transport_stop_batching t) \<noteq> Z_BATCHING_ACTIVE"
    using assms(1) by (simp_all add: batch_inv_def tx_ready_def z_transport_stop_batching_def sn_tx_def Z_BATCHING_IDLE_def Z_BATCHING_ACTIVE_def)
  then show ?thesis using idle_send [of cap "z_transport_stop_batching t" m r peers] assms(3,4) by simp
qed

theorem stopped_batch_is_lost_witness:
  "\<exists>t'. z_transport_tx_send_n_msg_inner sample_push Z_RELIABILITY_RELIABLE [] (z_transport_stop_batching sample_batched) = Ok () t' \<and>
    sends 30 [] [frame_wire (sn_tx Z_RELIABILITY_RELIABLE sample_batched) Z_RELIABILITY_RELIABLE @ wire_network_message sample_push]
      (z_transport_stop_batching sample_batched) t' \<and> tc_batch_count t' = 0"
proof (rule stopped_batch_is_lost [OF sample_batched_inv _ sample_push_ok])
  have "length (room (lk_flow (tc_link sample_batched))) + length (frame_wire (sn_tx Z_RELIABILITY_RELIABLE sample_batched) Z_RELIABILITY_RELIABLE) \<le> 13"
    using frame_wire_length [of "sn_tx Z_RELIABILITY_RELIABLE sample_batched" Z_RELIABILITY_RELIABLE] by (simp add: room_def)
  then show "length (room (lk_flow (tc_link sample_batched))) + length (frame_wire (sn_tx Z_RELIABILITY_RELIABLE sample_batched) Z_RELIABILITY_RELIABLE) +
      length (wire_network_message sample_push) \<le> 30" by (simp add: sample_push_length)
qed simp

text \<open>
  The message after one that was too long is lost as well. A first fragment with the next number
  empties the buffer of a channel that has overflown, but leaves the mark of the overflow: even a
  message of one fragment is thrown away, and the handler reports success.
\<close>

theorem overflow_loses_next:
  assumes "c = frag_channel r" "next_sn (tc_sn_res (ur_common s)) False (sn_rx c (ur_peer s)) sn"
    "dbuf_state c (pu_common (ur_peer s)) = Z_DBUF_STATE_OVERFLOW" "tx_buf Z_FRAG_MAX_SIZE bs (dbuf c (pu_common (ur_peer s)))"
    "Z_PATCH_HAS_FRAGMENT_MARKERS (pc_patch (pu_common (ur_peer s)))"
  shows "\<exists>s'. z_unicast_handle_transport_message mapping handle (frag r sn chunk True True) s = Ok () s' \<and>
    ur_common s' = ur_common s \<and> idle c (pu_common (ur_peer s'))"
  using overflow_swallows_next [of s r sn bs mapping handle chunk] assms by simp

definition sample_overflown :: "(byte list list, nat, unit) unicast_rx_t" where
  "sample_overflown = on_peer_common (\<lambda>p. set_dbuf_state False Z_DBUF_STATE_OVERFLOW (set_dbuf False (z_wbuf_make Z_FRAG_MAX_SIZE False) p)) sample_rx"

theorem overflow_loses_next_witness:
  "\<exists>s'. z_unicast_handle_transport_message KEYEXPR_MAPPING_LOCAL (\<lambda>x cp. Ok () (note_message x cp))
      (frag Z_RELIABILITY_RELIABLE 0 (wire_network_message sample_push) True True) sample_overflown = Ok () s' \<and>
    ur_common s' = ur_common sample_overflown \<and> idle False (pu_common (ur_peer s'))"
proof (rule overflow_loses_next)
  show "tx_buf Z_FRAG_MAX_SIZE [] (dbuf False (pu_common (ur_peer sample_overflown)))"
    by (simp add: sample_overflown_def tx_buf_make)
qed (simp_all add: sample_overflown_def sample_rx_facts frag_channel_def)

text \<open>
  On a stream, a packet whose length came in two reads leaves the peer as if the length had not yet
  come: the next packet on the stream is taken apart one byte late.
\<close>

theorem stream_loses_step:
  assumes "lk_flow (tc_link (fst cp)) = Z_LINK_CAP_FLOW_STREAM" "pu_flow_state (snd cp) = Z_FLOW_STATE_PENDING_SIZE"
    "recv_main cp = Ok (Some n) cp1" "n \<noteq> 0" "snd cp1 = snd cp"
    "zbuf_wf (tc_zbuf (fst cp1))" "zbuf_bytes (tc_zbuf (fst cp1)) = b # bs"
    "unat (pu_flow_curr_size (snd cp) + push_bit 8 (ucast b)) \<le> length bs"
  shows "\<exists>cp'. z_unicast_peer_read cp = Ok (READ_OK, unat (pu_flow_curr_size (snd cp) + push_bit 8 (ucast b))) cp' \<and>
    pu_flow_state (snd cp') = Z_FLOW_STATE_PENDING_SIZE"
  using assms by (rule pending_size_stays)

definition sample_stream :: "(byte list list, nat, unit) common_peer" where
  "sample_stream =
     (sample_ztc\<lparr>tc_link := sample_link\<lparr>lk_flow := Z_LINK_CAP_FLOW_STREAM, lk_read_socket_f := (\<lambda>s n net. (Some [0, 4, 5], net))\<rparr>\<rparr>,
      (ur_peer sample_rx)\<lparr>pu_flow_state := Z_FLOW_STATE_PENDING_SIZE, pu_flow_curr_size := 2\<rparr>)"

definition sample_stream_read :: "(byte list list, nat, unit) common_peer" where
  "sample_stream_read = (case recv_main sample_stream of Ok _ cp \<Rightarrow> cp | _ \<Rightarrow> sample_stream)"

theorem stream_loses_step_witness:
  "\<exists>cp'. z_unicast_peer_read sample_stream = Ok (READ_OK, 2) cp' \<and> pu_flow_state (snd cp') = Z_FLOW_STATE_PENDING_SIZE"
proof -
  have "(case recv_main sample_stream of Ok n cp \<Rightarrow> n = Some 3 | _ \<Rightarrow> False)" by code_simp
  then have r: "recv_main sample_stream = Ok (Some 3) sample_stream_read"
    by (auto simp: sample_stream_read_def split: res.splits)
  have p: "snd sample_stream_read = snd sample_stream"
    using r by (auto simp: recv_main_def Let_def split: res.splits)
      (metis snd_conv)
  have s: "zbuf_wf (tc_zbuf (fst sample_stream_read))" "zbuf_bytes (tc_zbuf (fst sample_stream_read)) = [0, 4, 5]"
    by code_simp+
  show ?thesis
    using stream_loses_step [of sample_stream 3 sample_stream_read 0 "[4, 5]", OF _ _ r _ p s]
    by (simp add: sample_stream_def)
qed




text \<open>C38
  A transport that was opened never has more than this side announced: its resolution, its batch
  size, its patch and its lease are at most the defaults.
\<close>

theorem opened_within_bounds:
  assumes "z_unicast_handshake_open random zl zid mode sock (p, net) = Ok () (p', net')"
  shows "ep_seq_num_res p' \<le> Z_SN_RESOLUTION \<and> ep_batch_size p' \<le> Z_BATCH_UNICAST_SIZE \<and> ep_lease p' \<le> Z_TRANSPORT_LEASE \<and>
    ep_patch p' \<le> Z_CURRENT_PATCH \<and> (mode = Z_WHATAMI_CLIENT \<longrightarrow> ep_initial_sn_tx p' = initial_sn random (ep_seq_num_res p'))"
  using assms by (rule handshake_open_bounds)

text \<open>A network that holds the packets that are still to come.\<close>

definition sample_answers :: "byte list list" where
  "sample_answers = [wire_transport (z_t_msg_make_init_ack Z_WHATAMI_PEER sample_id [1, 2]),
     wire_transport (z_t_msg_make_open_ack 5000 77)]"

definition sample_answering :: "(byte list list, nat) z_link_t" where
  "sample_answering = sample_link\<lparr>lk_write_f := (\<lambda>s bs net. (length bs, net)), lk_read_f := (\<lambda>n net. (Some (hd net), tl net))\<rparr>"

lemma sample_recv:
  "z_link_recv_t_msg sample_answering None sample_answers = Ok (z_t_msg_make_init_ack Z_WHATAMI_PEER sample_id [1, 2]) (tl sample_answers)"
  by code_simp

lemma sample_recv2:
  "z_link_recv_t_msg sample_answering None (tl sample_answers) = Ok (z_t_msg_make_open_ack 5000 77) []"
  by code_simp

lemma sample_send:
  assumes "transport_ok m" "length (wire_transport m) \<le> 100"
  shows "z_link_send_t_msg sample_answering m None net = Ok () net"
  using link_send_t_msg_ok [OF assms(1), of sample_answering None net] assms(2)
  by (simp add: sample_answering_def sample_link_def link_takes_all_def t_config_defs)

lemma sample_sends:
  "z_link_send_t_msg sample_answering (z_t_msg_make_init_syn Z_WHATAMI_CLIENT sample_id) None net = Ok () net"
  "z_link_send_t_msg sample_answering (z_t_msg_make_open_syn Z_TRANSPORT_LEASE 0 [1, 2]) None net = Ok () net"
proof -
  have "who_ok Z_WHATAMI_CLIENT sample_id" "length (wire_transport (z_t_msg_make_init_syn Z_WHATAMI_CLIENT sample_id)) \<le> 100"
    by code_simp+
  then show "z_link_send_t_msg sample_answering (z_t_msg_make_init_syn Z_WHATAMI_CLIENT sample_id) None net = Ok () net"
    by (intro sample_send makers_ok)
  show "z_link_send_t_msg sample_answering (z_t_msg_make_open_syn Z_TRANSPORT_LEASE 0 [1, 2]) None net = Ok () net"
    by (intro sample_send makers_ok) (simp, code_simp)
qed

lemma sample_ack:
  "Z_MID (tm_header (z_t_msg_make_init_ack Z_WHATAMI_PEER sample_id [1, 2])) = Z_MID_T_INIT"
  "Z_HAS_FLAG (tm_header (z_t_msg_make_init_ack Z_WHATAMI_PEER sample_id [1, 2])) Z_FLAG_T_INIT_A"
  by code_simp+

lemma sample_bodies:
  "tm_body (z_t_msg_make_init_syn Z_WHATAMI_CLIENT sample_id) = T_Init \<lparr>in_zid = sample_id, in_cookie = [], in_batch_size = 2048,
     in_whatami = Z_WHATAMI_CLIENT, in_req_id_res = 2, in_seq_num_res = 2, in_version = 9, in_patch = 1\<rparr>"
  "tm_body (z_t_msg_make_init_ack Z_WHATAMI_PEER sample_id [1, 2]) = T_Init \<lparr>in_zid = sample_id, in_cookie = [1, 2], in_batch_size = 2048,
     in_whatami = Z_WHATAMI_PEER, in_req_id_res = 2, in_seq_num_res = 2, in_version = 9, in_patch = 1\<rparr>"
  "tm_body (z_t_msg_make_open_ack 5000 77) = T_Open \<lparr>op_lease = 5000, op_initial_sn = 77, op_cookie = []\<rparr>"
  by (simp_all add: z_t_msg_make_init_syn_def z_t_msg_make_init_ack_def z_t_msg_make_open_ack_def Let_def t_config_defs)

lemma sample_open_run:
  "\<exists>p'. z_unicast_handshake_open 12345 sample_answering sample_id Z_WHATAMI_CLIENT None (sample_param, sample_answers) = Ok () (p', []) \<and>
     ep_lease p' = 5000 \<and> ep_initial_sn_rx p' = 77"
  by (simp add: z_unicast_handshake_open_def then_do_def bind_ok_def hs_set_def hs_net_def sample_recv sample_recv2 sample_sends
     hs_check_init_def hs_shift_res_def shift_res_def initial_sn_zero sample_ack sample_bodies Let_def)
    (simp add: sample_param_def sample_sends sample_recv2 sample_bodies Z_TRANSPORT_LEASE_def)

theorem opened_within_bounds_witness:
  "\<exists>p'. z_unicast_handshake_open 12345 sample_answering sample_id Z_WHATAMI_CLIENT None (sample_param, sample_answers) = Ok () (p', []) \<and>
     ep_batch_size p' \<le> Z_BATCH_UNICAST_SIZE \<and> ep_initial_sn_tx p' = initial_sn 12345 (ep_seq_num_res p')"
proof -
  obtain p' where p: "z_unicast_handshake_open 12345 sample_answering sample_id Z_WHATAMI_CLIENT None (sample_param, sample_answers) = Ok () (p', [])"
    using sample_open_run by blast
  then show ?thesis using opened_within_bounds [OF p] by blast
qed

text \<open>
  A sender always starts at number 0: the random number is and-ed with the logical negation of the
  mask of the resolution, which is 0 for each resolution.
\<close>

theorem initial_sn_not_random:
  assumes "res \<in> {0, 1, 2, 3}"
  shows "initial_sn random res = 0"
  using assms by (rule initial_sn_zero)

theorem initial_sn_not_random_witness: "initial_sn 123456789 2 = 0"
  by (rule initial_sn_not_random) simp

text \<open>
  A transport is created well formed over a link that takes its packets: the call succeeds, there
  are no peers, the batch is empty and off, the buffer has the smaller of the two sizes that were agreed on,
  and each channel starts with the number of the handshake.
\<close>

theorem transport_created:
  assumes "link_takes_all zl" "14 \<le> lk_mtu zl" "14 \<le> ep_batch_size param"
  shows "\<exists>ztu. z_unicast_transport_create zl param net = (Z_RES_OK, ztu) \<and> zu_peers ztu = [] \<and>
    batch_inv (unat (min (lk_mtu zl) (ep_batch_size param))) (zu_common ztu) [] \<and>
    tc_link (zu_common ztu) = zl \<and> tc_net (zu_common ztu) = net \<and> tc_sn_res (zu_common ztu) = z_sn_max (ep_seq_num_res param) \<and>
    (\<forall>r. sn_tx r (zu_common ztu) = ep_initial_sn_tx param) \<and> tc_batch_state (zu_common ztu) = Z_BATCHING_IDLE"
  using assms by (rule create_ok)

theorem transport_created_witness:
  "\<exists>ztu. z_unicast_transport_create sample_link sample_param [] = (Z_RES_OK, ztu) \<and> batch_inv 30 (zu_common ztu) []"
  using transport_created [of sample_link sample_param "[]"]
  by (auto simp: sample_param_def sample_link_def link_takes_all_def)

text \<open>C30
  The timers of the lease: a round that goes on sleeps for a positive time, and after it one of the
  two counters has run out, none is negative, none is longer than its period, and the periods are as they were.
\<close>

theorem lease_timers_invariant:
  assumes "lease_round mode report timeouts t = Ok interval t'" "0 < lease_ms (lt_ztu t)" "0 < keep_alive_ms (lt_ztu t)"
    "lt_next_lease t \<le> lease_ms (lt_ztu t)" "lt_next_keep_alive t \<le> keep_alive_ms (lt_ztu t)"
  shows "0 < interval \<and> 0 \<le> lt_next_lease t' \<and> 0 \<le> lt_next_keep_alive t' \<and> (lt_next_lease t' = 0 \<or> lt_next_keep_alive t' = 0) \<and>
    lt_next_lease t' \<le> lease_ms (lt_ztu t') \<and> lt_next_keep_alive t' \<le> keep_alive_ms (lt_ztu t') \<and>
    lease_ms (lt_ztu t') = lease_ms (lt_ztu t) \<and> keep_alive_ms (lt_ztu t') = keep_alive_ms (lt_ztu t)"
  using lease_round_timers [OF assms] by (simp add: same_lease_def)

definition sample_lease :: "(byte list list, nat, unit) lease_task_t" where
  "sample_lease = lease_start sample_ztu"

lemma sample_ztc_lease: "tc_lease sample_ztc = 9000"
  by code_simp

lemma sample_lease_facts:
  "lt_next_lease sample_lease = 9000" "lt_next_keep_alive sample_lease = 3000"
  "lease_ms (lt_ztu sample_lease) = 9000" "keep_alive_ms (lt_ztu sample_lease) = 3000"
  by (simp_all add: sample_lease_def lease_start_def lease_ms_def keep_alive_ms_def sample_ztc_lease Z_TRANSPORT_LEASE_EXPIRE_FACTOR_def)

theorem lease_timers_invariant_witness:
  "\<exists>t'. lease_round Z_WHATAMI_PEER (\<lambda>d n. n) (\<lambda>n. n) sample_lease = Ok 3000 t' \<and> 0 \<le> lt_next_keep_alive t' \<and> lt_next_lease t' \<le> 9000"
proof -
  have "\<exists>t'. lease_round Z_WHATAMI_PEER (\<lambda>d n. n) (\<lambda>n. n) sample_lease = Ok 3000 t'"
    by (simp add: lease_round_def then_do_def bind_ok_def Z_WHATAMI_PEER_def Z_WHATAMI_CLIENT_def peer_check_lease_def
        peer_check_keep_alive_def sample_lease_facts lease_interval_def Let_def)
  then obtain t' where t: "lease_round Z_WHATAMI_PEER (\<lambda>d n. n) (\<lambda>n. n) sample_lease = Ok 3000 t'" by blast
  show ?thesis using t lease_timers_invariant [OF t] by (auto simp: sample_lease_facts)
qed

text \<open>
  When the lease has run out, a peer transport keeps exactly the peers that were heard of since the
  last time, in their order, and waits for each of them anew.
\<close>

theorem silent_peers_dropped:
  assumes "lease_round mode report timeouts t = Ok interval t'" "mode \<noteq> Z_WHATAMI_CLIENT" "lt_next_lease t \<le> 0"
  shows "zu_peers (lt_ztu t') = map (set_received False) (filter (\<lambda>p. pc_received (pu_common p)) (zu_peers (lt_ztu t)))"
  using assms by (rule peer_round_drops)

definition sample_silent :: "(byte list list, nat, unit) lease_task_t" where
  "sample_silent = sample_lease\<lparr>lt_next_lease := 0,
     lt_ztu := sample_ztu\<lparr>zu_peers := [set_received False (ur_peer sample_rx), ur_peer sample_rx]\<rparr>\<rparr>"

lemma sample_silent_facts:
  "lt_next_lease sample_silent = 0" "lt_next_keep_alive sample_silent = 3000" "lease_ms (lt_ztu sample_silent) = 9000"
  "zu_peers (lt_ztu sample_silent) = [set_received False (ur_peer sample_rx), ur_peer sample_rx]"
  by (simp_all add: sample_silent_def sample_lease_facts lease_ms_def sample_ztc_lease)

theorem silent_peers_dropped_witness:
  "\<exists>t'. lease_round Z_WHATAMI_PEER (\<lambda>d n. n) (\<lambda>n. n) sample_silent = Ok 3000 t' \<and>
     zu_peers (lt_ztu t') = [set_received False (ur_peer sample_rx)]"
proof -
  have "\<exists>t'. lease_round Z_WHATAMI_PEER (\<lambda>d n. n) (\<lambda>n. n) sample_silent = Ok 3000 t'"
    by (simp add: lease_round_def then_do_def bind_ok_def Z_WHATAMI_PEER_def Z_WHATAMI_CLIENT_def peer_check_lease_def
        peer_check_keep_alive_def sample_silent_facts lease_interval_def Let_def)
  then obtain t' where t: "lease_round Z_WHATAMI_PEER (\<lambda>d n. n) (\<lambda>n. n) sample_silent = Ok 3000 t'" by blast
  have "pc_received (pu_common (ur_peer sample_rx))" by code_simp
  then show ?thesis using t silent_peers_dropped [OF t]
    by (auto simp: sample_silent_facts set_received_def Z_WHATAMI_PEER_def Z_WHATAMI_CLIENT_def)
qed

text \<open>
  A client whose router was silent for a whole lease gives up in that round, before it sends
  anything, with the transport as it was.
\<close>

theorem client_gives_up:
  assumes "lt_next_lease t \<le> 0" "zu_peers (lt_ztu t) = p # ps" "\<not> pc_received (pu_common p)"
  shows "lease_round Z_WHATAMI_CLIENT report timeouts t = Err Z_LEASE_FAILED t"
  using assms by (rule client_round_gives_up)

theorem client_gives_up_witness:
  "lease_round Z_WHATAMI_CLIENT (\<lambda>d n. n) (\<lambda>n. n) sample_silent = Err Z_LEASE_FAILED sample_silent"
  by (rule client_gives_up [where p = "set_received False (ur_peer sample_rx)"]) (simp_all add: sample_silent_facts set_received_def)

section \<open>Key expressions\<close>

text \<open>C3
  Matching decides the meaning of an expression: for an expression in which no double star follows
  another and no part without verbatim chunks has more than two of them, inclusion and intersection
  with a key both return, without reading outside the strings, and say whether the key is one that the
  expression matches. There a double star stands for any number of chunks that are not verbatim, a
  star for one, and a chunk with places for the chunks that have its characters in order around them.
\<close>

theorem keyexpr_matches:
  assumes "kexpr_ok ps" "kkey_ok cs"
  shows "z_keyexpr_includes (ke_string ps) (join cs) = Some (key_match ps cs) \<and>
    z_keyexpr_intersects (ke_string ps) (join cs) = Some (key_match ps cs)"
  using matches_ok [OF assms] by blast

definition sample_ke :: "pchunk list" where
  "sample_ke = [Pat [Lit 0x61, Any, Lit 0x62], DStar, Pat [Lit 0x40, Lit 0x63], Star, DStar, Pat [Any, Lit 0x64]]"

definition sample_key :: "byte list list" where
  "sample_key = [[0x61, 0x78, 0x62], [0x79], [0x40, 0x63], [0x7a], [0x65, 0x64]]"

theorem keyexpr_matches_witness:
  "z_keyexpr_includes [0x61, 0x24, 0x2a, 0x62, 0x2f, 0x2a, 0x2a, 0x2f, 0x40, 0x63, 0x2f, 0x2a, 0x2f, 0x2a, 0x2a, 0x2f, 0x24, 0x2a, 0x64]
     [0x61, 0x78, 0x62, 0x2f, 0x79, 0x2f, 0x40, 0x63, 0x2f, 0x7a, 0x2f, 0x65, 0x64] = Some True"
proof -
  have "kexpr_ok sample_ke" "kkey_ok sample_key" "key_match sample_ke sample_key" by code_simp+
  moreover have "ke_string sample_ke =
      [0x61, 0x24, 0x2a, 0x62, 0x2f, 0x2a, 0x2a, 0x2f, 0x40, 0x63, 0x2f, 0x2a, 0x2f, 0x2a, 0x2a, 0x2f, 0x24, 0x2a, 0x64]"
    "join sample_key = [0x61, 0x78, 0x62, 0x2f, 0x79, 0x2f, 0x40, 0x63, 0x2f, 0x7a, 0x2f, 0x65, 0x64]" by code_simp+
  ultimately show ?thesis using keyexpr_matches [of sample_ke sample_key] by simp
qed





text \<open>C29
  A declared expression keeps its meaning on the wire: an expression whose declaration is about one of
  its prefixes becomes a number and a suffix that stand for the whole expression at the other side,
  and without a declaration on this session, the whole expression.
\<close>

theorem declared_key_on_wire:
  assumes "declared_wf ids key"
  shows "\<exists>w. z_declared_keyexpr_alias_to_wire key session = Some w \<and> wire_denotes ids w = dke_inner key"
  using assms by (rule alias_to_wire_denotes)

theorem declared_key_on_wire_witness:
  "\<exists>w. z_declared_keyexpr_alias_to_wire \<lparr>dke_declaration = Some \<lparr>wd_id = 7, wd_prefix_len = 2, wd_session = Some (1 :: nat)\<rparr>,
      dke_inner = [0x61, 0x2f, 0x62]\<rparr> 1 = Some w \<and> wire_denotes (\<lambda>i. [0x61, 0x2f]) w = [0x61, 0x2f, 0x62]"
  using declared_key_on_wire [of "\<lambda>i. [0x61, 0x2f]" "\<lparr>dke_declaration = Some \<lparr>wd_id = 7, wd_prefix_len = 2, wd_session = Some (1 :: nat)\<rparr>,
      dke_inner = [0x61, 0x2f, 0x62]\<rparr>" 1]
  by (simp add: declared_wf_def)

section \<open>From the link to the application\<close>

text \<open>C2
  A publication reaches the application. A frame arrives from a peer, whose messages are pushes of any kind, to keys that the
  tables give a meaning; the session is open, its subscriptions have expressions in which no double star follows another and no
  part without verbatim chunks has more than two. The receiver of the transport decodes the frame and hands each message to the
  session, which calls the callbacks of exactly the subscriptions that allow remote samples and whose expression
  matches the key, message by message, in the order of the list, with the sample of the message. Nothing else of the session and of
  the transport's common state is changed.
\<close>

theorem publication_heard:
  assumes "quiet env app" "\<not> zn_locked zn" "\<not> zn_is_closed zn" "subs_ok zn Z_SUBSCRIBER_KIND_SUBSCRIBER S as"
    and "tc_net (ur_common s) = (net, zn)" "\<And>a. a \<in> set as \<Longrightarrow> kexpr_ok (pat a) \<and> dke_inner (su_key (sub_at zn a)) = ke_string (pat a)"
    and "\<And>m. m \<in> set ms \<Longrightarrow> is_push (recv_network_message mapping m) \<and> kkey_ok (key m) \<and>
      denotes zn (Some (addr, pu_common (ur_peer s))) (pu_key (push_in (recv_network_message mapping m))) (join (key m))"
    and "list_all network_message_ok ms" "zbuf_wf (ur_zbuf s)" "zbuf_bytes (ur_zbuf s) = frame_wire sn r @ messages_wire ms"
    "reliable = (r = Z_RELIABILITY_RELIABLE)" "z_sn_precedes (tc_sn_res (ur_common s)) (sn_rx reliable (ur_peer s)) sn"
    and "sample = (\<lambda>m. push_sample (join (key m)) (push_in (recv_network_message mapping m)) (channel_reliability reliable))"
  shows "\<exists>s'. messages_loop mapping (session_handler env addr) s = Some (Ok () s') \<and>
    ur_common s' = (ur_common s)\<lparr>tc_net := (net, zn\<lparr>zn_world := fold (\<lambda>m.
        fold (\<lambda>a. app (su_callback (sub_at zn a)) (sample m))
          (filter (\<lambda>a. z_locality_allows_remote (su_allowed_origin (sub_at zn a)) \<and> key_match (pat a) (key m)) as)) ms (zn_world zn)\<rparr>)\<rparr>"
  using assms by (rule frame_heard)

definition sample_pub :: z_network_message_t where
  "sample_pub = \<lparr>nm_body = N_Push \<lparr>pu_key = sample_wire, pu_timestamp = z_timestamp_null, pu_qos = 5,
     pu_body = z_push_body_null\<lparr>pb_is_put := True, pb_put := z_msg_put_null\<lparr>put_payload := [[1, 2, 3]]\<rparr>\<rparr>\<rparr>, nm_reliability = Z_RELIABILITY_RELIABLE\<rparr>"

definition sample_session_link :: "('n, nat) z_link_t" where
  "sample_session_link = \<lparr>lk_write_f = (\<lambda>s bs net. (length bs, net)), lk_read_f = (\<lambda>n net. (None, net)),
     lk_read_exact_f = (\<lambda>n s net. (None, net)), lk_read_socket_f = (\<lambda>s n net. (None, net)), lk_mtu = 1500,
     lk_flow = Z_LINK_CAP_FLOW_DATAGRAM\<rparr>"

definition sample_session_param :: z_transport_unicast_establish_param_t where
  "sample_session_param = \<lparr>ep_remote_zid = sample_zid, ep_batch_size = 2048, ep_initial_sn_rx = 0, ep_initial_sn_tx = 0,
     ep_lease = 9000, ep_remote_whatami = Z_WHATAMI_PEER, ep_key_id_res = 0, ep_req_id_res = 0, ep_seq_num_res = 2,
     ep_is_qos = False, ep_patch = 1\<rparr>"

text \<open>The receiver of the session, with two publications in a frame.\<close>

definition sample_session_ztu :: "(unit \<times> (nat, nat list) z_session_t, nat, z_resource_t) z_transport_unicast_t" where
  "sample_session_ztu = z_transport_peer_unicast_add sample_session_param 4 True
     (snd (z_unicast_transport_create sample_session_link sample_session_param ((), sample_held)))"

definition sample_session_rx :: "(unit \<times> (nat, nat list) z_session_t, nat, z_resource_t) unicast_rx_t" where
  "sample_session_rx = \<lparr>ur_common = zu_common sample_session_ztu, ur_peer = hd (zu_peers sample_session_ztu),
     ur_zbuf = z_slice_as_zbuf (frame_wire 0 Z_RELIABILITY_RELIABLE @ messages_wire [sample_pub, sample_pub])\<rparr>"

lemma sample_session_rx_facts:
  "tc_net (ur_common sample_session_rx) = ((), sample_held)"
  "z_sn_precedes (tc_sn_res (ur_common sample_session_rx)) (sn_rx True (ur_peer sample_session_rx)) 0"
proof -
  obtain ztu where ztu: "z_unicast_transport_create sample_session_link sample_session_param ((), sample_held) =
      (Z_RES_OK, ztu :: (unit \<times> (nat, nat list) z_session_t, nat, z_resource_t) z_transport_unicast_t)"
    "zu_peers ztu = []" "tc_sn_res (zu_common ztu) = mask 28" "tc_net (zu_common ztu) = ((), sample_held)"
    using create_ok [of sample_session_link sample_session_param "((), sample_held)"]
    by (auto simp: sample_session_param_def sample_session_link_def link_takes_all_def sample_sn_res)
  have sn: "ep_initial_sn_rx sample_session_param AND mask 28 = ep_initial_sn_rx sample_session_param" by code_simp
  obtain p where p: "zu_peers (z_transport_peer_unicast_add sample_session_param 4 True ztu) = p # zu_peers ztu"
    "\<forall>c. idle c (pu_common p) \<and> next_sn (mask 28) False (sn_rx c p) (ep_initial_sn_rx sample_session_param)"
    using peer_add_ok [OF ztu(3) _ _ sn, of 4 True] by auto
  have c: "zu_common (z_transport_peer_unicast_add sample_session_param 4 True ztu) = zu_common ztu"
    by (simp add: z_transport_peer_unicast_add_def Let_def)
  have "ep_initial_sn_rx sample_session_param = 0" by (simp add: sample_session_param_def)
  then have "z_sn_precedes (mask 28) (sn_rx True p) 0" using p(2) by (auto simp: next_sn_def)
  then show "tc_net (ur_common sample_session_rx) = ((), sample_held)"
    "z_sn_precedes (tc_sn_res (ur_common sample_session_rx)) (sn_rx True (ur_peer sample_session_rx)) 0"
    using p(1) c ztu by (simp_all add: sample_session_rx_def sample_session_ztu_def)
qed

lemma sample_pub_ok: "network_message_ok sample_pub"
proof -
  have "\<not> z_id_check z_id_empty" by code_simp
  then show ?thesis by (simp add: sample_pub_def sample_wire_def wire_of_def network_message_ok_def push_msg_ok_def key_ok_def opt_ts_ok_def ts_ok_def
      push_ok_def commons_ok_def z_push_body_null_def z_msg_put_null_def
      z_m_push_commons_null_def z_timestamp_null_def has_source_info_def z_source_info_null_def z_entity_global_id_null_def
      z_encoding_null_def sample_chunks_def)
qed

theorem publication_heard_witness:
  "\<exists>s'. messages_loop (Peer_Mapping 5) (session_handler sample_env 5) sample_session_rx = Some (Ok () s') \<and>
    zn_world (snd (tc_net (ur_common s'))) = [10, 10]"
proof -
  let ?k = "\<lambda>m :: z_network_message_t. sample_chunks" and ?p = "\<lambda>a :: nat. sample_expr"
  have r: "is_push (recv_network_message (Peer_Mapping 5) sample_pub)"
    "pu_key (push_in (recv_network_message (Peer_Mapping 5) sample_pub)) = sample_wire\<lparr>we_mapping := Peer_Mapping 5\<rparr>"
    by (simp_all add: is_push_def push_in_def recv_network_message_def sample_pub_def recv_push_msg_def recv_ke_def)
      (simp add: sample_wire_def wire_of_def z_wireexpr_is_local_def)
  have d: "denotes sample_held peer (sample_wire\<lparr>we_mapping := Peer_Mapping 5\<rparr>) (join sample_chunks)" for peer
  proof -
    have "z_wireexpr_check (sample_wire\<lparr>we_mapping := Peer_Mapping 5\<rparr>)" by code_simp
    then show ?thesis by (simp add: denotes_def z_get_keyexpr_from_wireexpr_inner_def sample_wire_def wire_of_def Z_RESOURCE_ID_NONE_def)
  qed
  have k: "dke_inner (su_key sample_sub) = ke_string sample_expr" "z_locality_allows_remote (su_allowed_origin sample_sub)" "su_callback sample_sub = 10"
    by (simp_all add: sample_sub_def sample_k_def)
  show ?thesis
    using publication_heard [where ms = "[sample_pub, sample_pub]" and key = ?k and pat = ?p and s = sample_session_rx and mapping = "Peer_Mapping 5"
        and sn = 0 and r = Z_RELIABILITY_RELIABLE and addr = 5 and reliable = True,
        OF sample_env_facts(1) sample_held_facts(1,2,5) sample_session_rx_facts(1) _ _ _ _ _ _ sample_session_rx_facts(2) refl]
    by (auto simp: r d k sample_expr_ok sample_held_facts sample_pub_ok sample_session_rx_def)
qed
end
